(* ===== verification/Caw_Prelude.thy ===== *)
theory Caw_Prelude
  imports Main "HOL-Library.Word" "HOL-Library.Monad_Syntax" "HOL-Library.Sublist"
begin

text \<open>
  The shared prelude of the CAW development: the machine types, the byte-order
  conversions of the Rust standard library (\<^verbatim>\<open>to_be_bytes\<close>, \<^verbatim>\<open>from_le_bytes\<close>, \<dots>),
  checked slicing (\<^verbatim>\<open>get(a..b)\<close>), the iterator adaptors the program uses
  (\<^verbatim>\<open>find\<close>, \<^verbatim>\<open>find_map\<close>, \<^verbatim>\<open>max_by_key\<close>), and two interfaces several components
  share: a byte-stream iterator that always consumes input, and a polled state
  machine with an invariant.

  A Rust \<^verbatim>\<open>Vec<u8>\<close>, \<^verbatim>\<open>&[u8]\<close> or \<^verbatim>\<open>[u8; n]\<close> is a list of \<open>8 word\<close>; \<^verbatim>\<open>u16\<close>,
  \<^verbatim>\<open>u32\<close> and \<^verbatim>\<open>u64\<close> are words of their width; a \<^verbatim>\<open>Result<T, E>\<close> is \<open>'e + 't\<close>
  with \<open>Inl\<close> the error; a function that can panic returns an \<open>option\<close> whose \<open>None\<close>
  is the panic.
\<close>

unbundle bit_operations_syntax

type_synonym u8 = "8 word"
type_synonym u16 = "16 word"
type_synonym u32 = "32 word"
type_synonym u64 = "64 word"
type_synonym bytes = "u8 list"

named_theorems wire "byte-order conversions and frame layout"
named_theorems panic_free "a step of the model does not reach a panic"

section \<open>Byte order\<close>

definition u16_be :: "u16 \<Rightarrow> bytes" where
  "u16_be w = [ucast (drop_bit 8 w), ucast w]"

definition u16_le :: "u16 \<Rightarrow> bytes" where
  "u16_le w = [ucast w, ucast (drop_bit 8 w)]"

definition from_be16 :: "u8 \<Rightarrow> u8 \<Rightarrow> u16" where
  "from_be16 hi lo = push_bit 8 (ucast hi) OR ucast lo"

definition from_le16 :: "u8 \<Rightarrow> u8 \<Rightarrow> u16" where
  "from_le16 lo hi = from_be16 hi lo"

definition u32_be :: "u32 \<Rightarrow> bytes" where
  "u32_be w = [ucast (drop_bit 24 w), ucast (drop_bit 16 w), ucast (drop_bit 8 w), ucast w]"

definition u32_le :: "u32 \<Rightarrow> bytes" where
  "u32_le w = [ucast w, ucast (drop_bit 8 w), ucast (drop_bit 16 w), ucast (drop_bit 24 w)]"

definition from_be32 :: "u8 \<Rightarrow> u8 \<Rightarrow> u8 \<Rightarrow> u8 \<Rightarrow> u32" where
  "from_be32 a b c d =
     push_bit 24 (ucast a) OR push_bit 16 (ucast b) OR push_bit 8 (ucast c) OR ucast d"

definition from_le32 :: "u8 \<Rightarrow> u8 \<Rightarrow> u8 \<Rightarrow> u8 \<Rightarrow> u32" where
  "from_le32 a b c d = from_be32 d c b a"

definition u64_be :: "u64 \<Rightarrow> bytes" where
  "u64_be w = u32_be (ucast (drop_bit 32 w)) @ u32_be (ucast w)"

definition from_be64 ::
  "u8 \<Rightarrow> u8 \<Rightarrow> u8 \<Rightarrow> u8 \<Rightarrow> u8 \<Rightarrow> u8 \<Rightarrow> u8 \<Rightarrow> u8 \<Rightarrow> u64" where
  "from_be64 a b c d e f g h =
     push_bit 32 (ucast (from_be32 a b c d)) OR ucast (from_be32 e f g h)"

lemma length_u16_be [simp, wire]: "length (u16_be w) = 2"
  by (simp add: u16_be_def)

lemma length_u16_le [simp, wire]: "length (u16_le w) = 2"
  by (simp add: u16_le_def)

lemma length_u32_be [simp, wire]: "length (u32_be w) = 4"
  by (simp add: u32_be_def)

lemma length_u32_le [simp, wire]: "length (u32_le w) = 4"
  by (simp add: u32_le_def)

lemma length_u64_be [simp, wire]: "length (u64_be w) = 8"
  by (simp add: u64_be_def)

lemma from_be16_bytes [simp]:
  "from_be16 (ucast (drop_bit 8 w)) (ucast w) = (w :: u16)"
  by (rule bit_word_eqI) (auto simp: from_be16_def bit_simps)

lemma from_be32_bytes [simp]:
  "from_be32 (ucast (drop_bit 24 w)) (ucast (drop_bit 16 w)) (ucast (drop_bit 8 w)) (ucast w)
     = (w :: u32)"
proof (rule bit_word_eqI)
  fix n assume "n < LENGTH(32)"
  then consider "n < 8" | "8 \<le> n" "n < 16" | "16 \<le> n" "n < 24" | "24 \<le> n" "n < 32"
    by force
  then show "bit (from_be32 (ucast (drop_bit 24 w)) (ucast (drop_bit 16 w)) (ucast (drop_bit 8 w))
      (ucast w)) n \<longleftrightarrow> bit w n"
    by cases (auto simp: from_be32_def bit_simps)
qed

lemma from_be16_u16_be [wire]:
  "from_be16 (u16_be w ! 0) (u16_be w ! Suc 0) = w"
  by (simp add: u16_be_def)

lemma from_le16_u16_le [wire]:
  "from_le16 (u16_le w ! 0) (u16_le w ! Suc 0) = w"
  by (simp add: u16_le_def from_le16_def)

lemma from_be32_u32_be [wire]:
  "from_be32 (u32_be w ! 0) (u32_be w ! 1) (u32_be w ! 2) (u32_be w ! 3) = w"
  by (simp add: u32_be_def)

lemma from_le32_u32_le [wire]:
  "from_le32 (u32_le w ! 0) (u32_le w ! 1) (u32_le w ! 2) (u32_le w ! 3) = w"
  by (simp add: u32_le_def from_le32_def)

lemma bit_u8_high: "8 \<le> n \<Longrightarrow> \<not> bit (w :: u8) n"
  using bit_imp_le_length[of w n] by auto

lemma u16_be_from_be16 [simp, wire]: "u16_be (from_be16 a b) = [a, b]"
  by (auto simp: u16_be_def from_be16_def bit_simps bit_u8_high intro!: bit_word_eqI)

lemma u16_le_from_le16 [simp, wire]: "u16_le (from_le16 a b) = [a, b]"
  by (auto simp: u16_le_def from_le16_def from_be16_def bit_simps bit_u8_high intro!: bit_word_eqI)

lemma u32_be_from_be32 [simp, wire]: "u32_be (from_be32 a b c d) = [a, b, c, d]"
  by (auto simp: u32_be_def from_be32_def bit_simps bit_u8_high intro!: bit_word_eqI)

lemma u32_le_from_le32 [simp, wire]: "u32_le (from_le32 a b c d) = [a, b, c, d]"
  by (auto simp: u32_le_def from_le32_def from_be32_def bit_simps bit_u8_high intro!: bit_word_eqI)

lemma from_be32_inj [simp]:
  "from_be32 a b c d = from_be32 a' b' c' d' \<longleftrightarrow> a = a' \<and> b = b' \<and> c = c' \<and> d = d'"
proof
  assume "from_be32 a b c d = from_be32 a' b' c' d'"
  then have "u32_be (from_be32 a b c d) = u32_be (from_be32 a' b' c' d')" by (rule arg_cong)
  then show "a = a' \<and> b = b' \<and> c = c' \<and> d = d'" by simp
qed simp

lemma join_words [simp]:
  "push_bit 32 (ucast (ucast (drop_bit 32 w) :: u32)) OR ucast (ucast w :: u32) = (w :: u64)"
  by (rule bit_word_eqI) (auto simp: bit_simps)

lemma from_be64_u64_be [wire]:
  "u64_be w = [a, b, c, d, e, f, g, h] \<Longrightarrow> from_be64 a b c d e f g h = w"
  by (auto simp: u64_be_def u32_be_def from_be64_def)

lemma unat_u8_less: "unat (w :: u8) < 256"
proof -
  have "unat w < 2 ^ LENGTH(8)" by (rule unsigned_less)
  then show ?thesis by simp
qed

lemma unat_u16_less: "unat (w :: u16) < 65536"
proof -
  have "unat w < 2 ^ LENGTH(16)" by (rule unsigned_less)
  then show ?thesis by simp
qed

text \<open>Unsigned big-endian integers of any width.\<close>

definition nat_of_be :: "bytes \<Rightarrow> nat" where
  "nat_of_be bs = foldl (\<lambda>a b. a * 256 + unat b) 0 bs"

primrec be_of_nat :: "nat \<Rightarrow> nat \<Rightarrow> bytes" where
  "be_of_nat 0 n = []"
| "be_of_nat (Suc k) n = be_of_nat k (n div 256) @ [of_nat n]"

lemma length_be_of_nat [simp]: "length (be_of_nat k n) = k"
  by (induction k arbitrary: n) auto

lemma nat_of_be_of_nat: "n < 256 ^ k \<Longrightarrow> nat_of_be (be_of_nat k n) = n"
proof (induction k arbitrary: n)
  case (Suc k)
  have "n div 256 < 256 ^ k" using Suc.prems by (simp add: less_mult_imp_div_less mult.commute)
  then have "nat_of_be (be_of_nat k (n div 256)) = n div 256" by (rule Suc.IH)
  moreover have "unat (of_nat n :: u8) = n mod 256" by (simp add: unat_of_nat)
  ultimately show ?case by (simp add: nat_of_be_def)
qed (simp add: nat_of_be_def)

section \<open>Slices\<close>

text \<open>
  \<open>get_range a b bs\<close> is \<^verbatim>\<open>bs.get(a..b)\<close>: the sub-slice, or nothing when it does not fit.
\<close>

definition get_range :: "nat \<Rightarrow> nat \<Rightarrow> 'a list \<Rightarrow> 'a list option" where
  "get_range a b bs = (if a \<le> b \<and> b \<le> length bs then Some (take (b - a) (drop a bs)) else None)"

definition get_at :: "nat \<Rightarrow> 'a list \<Rightarrow> 'a option" where
  "get_at i xs = (if i < length xs then Some (xs ! i) else None)"

definition slice_first :: "'a list \<Rightarrow> 'a option" where
  "slice_first xs = (case xs of [] \<Rightarrow> None | x # _ \<Rightarrow> Some x)"

lemma get_range_length:
  "get_range a b bs = Some s \<Longrightarrow> length s = b - a"
  by (auto simp: get_range_def split: if_splits)

lemma get_range_append [simp]:
  "length xs = a \<Longrightarrow> length ys = n \<Longrightarrow> get_range a (a + n) (xs @ ys @ zs) = Some ys"
  by (simp add: get_range_def)

lemma starts_with_iff:
  "prefix p xs \<longleftrightarrow> take (length p) xs = p"
  by (metis append_eq_conv_conj prefix_def)

section \<open>Iterator adaptors\<close>

primrec find_map :: "('a \<Rightarrow> 'b option) \<Rightarrow> 'a list \<Rightarrow> 'b option" where
  "find_map f [] = None"
| "find_map f (x # xs) = (case f x of Some y \<Rightarrow> Some y | None \<Rightarrow> find_map f xs)"

lemma find_map_None_iff:
  "find_map f xs = None \<longleftrightarrow> (\<forall>x\<in>set xs. f x = None)"
  by (induction xs) (auto split: option.splits)

lemma find_map_SomeD:
  "find_map f xs = Some y \<Longrightarrow> \<exists>x\<in>set xs. f x = Some y"
  by (induction xs) (auto split: option.splits)

lemma find_map_append:
  "find_map f (xs @ ys) = (case find_map f xs of Some y \<Rightarrow> Some y | None \<Rightarrow> find_map f ys)"
  by (induction xs) (auto split: option.splits)

lemma find_SomeD:
  "find P xs = Some x \<Longrightarrow> x \<in> set xs \<and> P x"
  by (metis find_Some_iff nth_mem)

lemma find_None:
  "find P xs = None \<longleftrightarrow> (\<forall>x\<in>set xs. \<not> P x)"
  by (auto simp: find_None_iff)

text \<open>
  \<^verbatim>\<open>Iterator::max_by_key\<close>: when several elements have the greatest key the last of them
  is returned.
\<close>

primrec max_by_key :: "('a \<Rightarrow> 'k :: linorder) \<Rightarrow> 'a list \<Rightarrow> 'a option" where
  "max_by_key f [] = None"
| "max_by_key f (x # xs) =
     (case max_by_key f xs of
        None \<Rightarrow> Some x
      | Some y \<Rightarrow> Some (if f y < f x then x else y))"

lemma max_by_key_None_iff [simp]:
  "max_by_key f xs = None \<longleftrightarrow> xs = []"
  by (cases xs) (auto split: option.splits)

lemma max_by_key_in:
  "max_by_key f xs = Some x \<Longrightarrow> x \<in> set xs"
  by (induction xs arbitrary: x) (auto split: option.splits if_splits)

lemma max_by_key_max:
  "max_by_key f xs = Some x \<Longrightarrow> y \<in> set xs \<Longrightarrow> f y \<le> f x"
proof (induction xs arbitrary: x)
  case (Cons a xs)
  then show ?case
    by (cases "max_by_key f xs") (auto simp: not_less split: if_splits dest: order.trans less_imp_le)
qed simp

text \<open>
  \<^verbatim>\<open>Iterator::min_by_key\<close> and \<^verbatim>\<open>Iterator::min\<close>: the first of the least elements.
\<close>

primrec min_by_key :: "('a \<Rightarrow> 'k :: linorder) \<Rightarrow> 'a list \<Rightarrow> 'a option" where
  "min_by_key f [] = None"
| "min_by_key f (x # xs) =
     (case min_by_key f xs of
        None \<Rightarrow> Some x
      | Some y \<Rightarrow> Some (if f y < f x then y else x))"

lemma min_by_key_None_iff [simp]:
  "min_by_key f xs = None \<longleftrightarrow> xs = []"
  by (cases xs) (auto split: option.splits)

lemma min_by_key_in:
  "min_by_key f xs = Some x \<Longrightarrow> x \<in> set xs"
  by (induction xs arbitrary: x) (auto split: option.splits if_splits)

lemma min_by_key_min:
  "min_by_key f xs = Some x \<Longrightarrow> y \<in> set xs \<Longrightarrow> f x \<le> f y"
proof (induction xs arbitrary: x)
  case (Cons a xs)
  then show ?case
    by (cases "min_by_key f xs") (auto simp: not_less split: if_splits dest: order.trans less_imp_le)
qed simp

section \<open>Fallible steps\<close>

text \<open>
  A method that returns \<^verbatim>\<open>Result\<close> and may panic has type \<open>('e + 'a) option\<close>. \<open>try_then m f\<close> is
  Rust's \<^verbatim>\<open>?\<close> on \<open>m\<close>, followed by \<open>f\<close>; \<open>try_ok\<close> is the same on a result that cannot panic.
\<close>

definition try_then :: "('e + 'a) option \<Rightarrow> ('a \<Rightarrow> ('e + 'b) option) \<Rightarrow> ('e + 'b) option" where
  "try_then m f =
     (case m of None \<Rightarrow> None | Some (Inl e) \<Rightarrow> Some (Inl e) | Some (Inr x) \<Rightarrow> f x)"

definition try_ok :: "'e + 'a \<Rightarrow> ('a \<Rightarrow> ('e + 'b) option) \<Rightarrow> ('e + 'b) option" where
  "try_ok r f = (case r of Inl e \<Rightarrow> Some (Inl e) | Inr x \<Rightarrow> f x)"

lemma try_then_simps [simp]:
  "try_then None f = None"
  "try_then (Some (Inl e)) f = Some (Inl e)"
  "try_then (Some (Inr x)) f = f x"
  by (simp_all add: try_then_def)

lemma try_ok_simps [simp]:
  "try_ok (Inl e) f = Some (Inl e)"
  "try_ok (Inr x) f = f x"
  by (simp_all add: try_ok_def)

lemma map_sum_eq_Inr [simp]: "map_sum f g r = Inr y \<longleftrightarrow> (\<exists>x. r = Inr x \<and> g x = y)"
  by (cases r) auto

lemma map_sum_eq_Inl [simp]: "map_sum f g r = Inl y \<longleftrightarrow> (\<exists>x. r = Inl x \<and> f x = y)"
  by (cases r) auto

lemma try_then_InrE:
  assumes "try_then m f = Some (Inr y)"
  obtains x where "m = Some (Inr x)" "f x = Some (Inr y)"
  using assms by (auto simp: try_then_def split: option.splits sum.splits)

lemma try_ok_InrE:
  assumes "try_ok r f = Some (Inr y)"
  obtains x where "r = Inr x" "f x = Some (Inr y)"
  using assms by (auto simp: try_ok_def split: sum.splits)

lemma try_then_not_None [panic_free]:
  "m \<noteq> None \<Longrightarrow> (\<And>x. m = Some (Inr x) \<Longrightarrow> f x \<noteq> None) \<Longrightarrow> try_then m f \<noteq> None"
  by (auto simp: try_then_def split: option.splits sum.splits)

lemma try_ok_not_None [panic_free]:
  "(\<And>x. r = Inr x \<Longrightarrow> f x \<noteq> None) \<Longrightarrow> try_ok r f \<noteq> None"
  by (auto simp: try_ok_def split: sum.splits)

section \<open>Byte-stream iterators\<close>

text \<open>
  A Rust iterator over a borrowed slice is a function from the unread bytes to the next item
  and the bytes after it. \<open>iter_collect\<close> runs one to exhaustion; its fuel is the number of
  unread bytes, which is enough for every iterator that consumes at least one byte per item.
\<close>

primrec iter_fuel :: "nat \<Rightarrow> ('b list \<Rightarrow> ('a \<times> 'b list) option) \<Rightarrow> 'b list \<Rightarrow> 'a list" where
  "iter_fuel 0 nxt bs = []"
| "iter_fuel (Suc n) nxt bs =
     (case nxt bs of None \<Rightarrow> [] | Some (x, rest) \<Rightarrow> x # iter_fuel n nxt rest)"

definition iter_collect :: "('b list \<Rightarrow> ('a \<times> 'b list) option) \<Rightarrow> 'b list \<Rightarrow> 'a list" where
  "iter_collect nxt bs = iter_fuel (length bs) nxt bs"

locale stream_iter =
  fixes nxt :: "'b list \<Rightarrow> ('a \<times> 'b list) option"
  assumes shrinks: "nxt bs = Some (x, rest) \<Longrightarrow> length rest < length bs"
begin

lemma nxt_Nil: "nxt [] = None"
  using shrinks[of "[]"] by (cases "nxt []") auto

lemma fuel_enough:
  "length bs \<le> n \<Longrightarrow> length bs \<le> m \<Longrightarrow> iter_fuel n nxt bs = iter_fuel m nxt bs"
proof (induction n arbitrary: m bs)
  case 0
  then show ?case by (cases m) (auto simp: nxt_Nil)
next
  case (Suc n)
  show ?case
  proof (cases m)
    case 0
    then show ?thesis using Suc.prems by (auto simp: nxt_Nil)
  next
    case (Suc m')
    show ?thesis
    proof (cases "nxt bs")
      case (Some p)
      then obtain x rest where p: "nxt bs = Some (x, rest)" by (cases p) auto
      have "iter_fuel n nxt rest = iter_fuel m' nxt rest"
        using shrinks[OF p] Suc Suc.prems by (intro Suc.IH) auto
      then show ?thesis using p Suc by simp
    qed (simp add: Suc)
  qed
qed

lemma collect_unfold:
  "iter_collect nxt bs =
     (case nxt bs of None \<Rightarrow> [] | Some (x, rest) \<Rightarrow> x # iter_collect nxt rest)"
proof (cases "nxt bs")
  case None
  then show ?thesis by (cases "length bs") (auto simp: iter_collect_def)
next
  case (Some p)
  then obtain x rest where p: "nxt bs = Some (x, rest)" by (cases p) auto
  have lt: "length rest < length bs" by (rule shrinks[OF p])
  then obtain n where n: "length bs = Suc n" by (cases "length bs") auto
  then have "iter_fuel n nxt rest = iter_fuel (length rest) nxt rest"
    using lt by (intro fuel_enough) auto
  then show ?thesis using p n by (simp add: iter_collect_def)
qed

lemma collect_stop: "nxt bs = None \<Longrightarrow> iter_collect nxt bs = []"
  by (simp add: collect_unfold)

lemma collect_step: "nxt bs = Some (x, rest) \<Longrightarrow> iter_collect nxt bs = x # iter_collect nxt rest"
  by (simp add: collect_unfold)

lemma collect_length: "length (iter_collect nxt bs) \<le> length bs"
proof (induction "length bs" arbitrary: bs rule: less_induct)
  case less
  show ?case
  proof (cases "nxt bs")
    case (Some p)
    then obtain x rest where p: "nxt bs = Some (x, rest)" by (cases p) auto
    then show ?thesis using less[of rest] shrinks[OF p] by (simp add: collect_step)
  qed (simp add: collect_stop)
qed

end

text \<open>
  An iterator over the concatenation of encoded items: decoding undoes encoding, item by item.
\<close>

locale stream_codec = stream_iter nxt
  for nxt :: "'b list \<Rightarrow> ('a \<times> 'b list) option" +
  fixes enc :: "'c \<Rightarrow> 'b list"
    and out :: "'c \<Rightarrow> 'a"
    and wf :: "'c \<Rightarrow> bool"
  assumes dec_enc: "wf x \<Longrightarrow> nxt (enc x @ rest) = Some (out x, rest)"
begin

lemma collect_append:
  "list_all wf xs \<Longrightarrow> iter_collect nxt (concat (map enc xs) @ rest) = map out xs @ iter_collect nxt rest"
  by (induction xs) (auto simp: collect_step[OF dec_enc])

lemma collect_enc:
  "list_all wf xs \<Longrightarrow> iter_collect nxt (concat (map enc xs)) = map out xs"
  using collect_append[of xs "[]"] by (simp add: collect_stop nxt_Nil)

end

section \<open>Polled state machines\<close>

text \<open>
  The connection, the handshakes and the DHCP client are all driven the same way: the caller
  feeds one input, the machine returns its successor and a list of actions. \<open>run_machine\<close> is
  a sequence of such calls; \<open>None\<close> is a panic.
\<close>

primrec run_machine ::
  "('s \<Rightarrow> 'i \<Rightarrow> ('s \<times> 'o list) option) \<Rightarrow> 's \<Rightarrow> 'i list \<Rightarrow> ('s \<times> 'o list) option" where
  "run_machine step s [] = Some (s, [])"
| "run_machine step s (i # is) =
     (case step s i of
        None \<Rightarrow> None
      | Some (s', out) \<Rightarrow> map_option (\<lambda>(s'', rest). (s'', out @ rest)) (run_machine step s' is))"

lemma run_machine_append:
  "run_machine step s (is @ js) =
     (case run_machine step s is of
        None \<Rightarrow> None
      | Some (s', out) \<Rightarrow> map_option (\<lambda>(s'', rest). (s'', out @ rest)) (run_machine step s' js))"
proof (induction "is" arbitrary: s)
  case Nil
  then show ?case by (cases "run_machine step s js") auto
next
  case (Cons i "is")
  show ?case
  proof (cases "step s i")
    case (Some p)
    obtain s1 out where "p = (s1, out)" by (cases p)
    then show ?thesis using Some Cons.IH[of s1]
      by (cases "run_machine step s1 is")
        (auto simp: option.map_comp comp_def case_prod_unfold)
  qed simp
qed

lemma run_machine_snocE:
  assumes "run_machine step s (is @ [i]) = Some (s', out)"
  obtains s1 o1 o2 where "run_machine step s is = Some (s1, o1)" "step s1 i = Some (s', o2)"
    "out = o1 @ o2"
  using assms by (auto simp: run_machine_append split: option.splits)

text \<open>
  A handler that pushes actions and may panic is a function from the machine to its successor and
  the actions it pushed. \<open>emit_then\<close> runs one handler after another on the same machine and the same
  output.
\<close>

definition emit_then ::
  "('s \<times> 'o list) option \<Rightarrow> ('s \<Rightarrow> ('s \<times> 'o list) option) \<Rightarrow> ('s \<times> 'o list) option" where
  "emit_then r k =
     (case r of
        None \<Rightarrow> None
      | Some (s, out) \<Rightarrow> map_option (\<lambda>(s', rest). (s', out @ rest)) (k s))"

lemma emit_then_simps [simp]:
  "emit_then None k = None"
  "emit_then (Some (s, out)) k = map_option (\<lambda>(s', rest). (s', out @ rest)) (k s)"
  by (simp_all add: emit_then_def)

lemma emit_then_SomeE:
  assumes "emit_then r k = Some (s', out)"
  obtains s1 o1 o2 where "r = Some (s1, o1)" "k s1 = Some (s', o2)" "out = o1 @ o2"
  using assms by (auto simp: emit_then_def split: option.splits)

locale polled_machine =
  fixes step :: "'s \<Rightarrow> 'i \<Rightarrow> ('s \<times> 'o list) option"
    and inv :: "'s \<Rightarrow> bool"
    and ok :: "'i \<Rightarrow> bool"
  assumes step_ok: "inv s \<Longrightarrow> ok i \<Longrightarrow> \<exists>s' out. step s i = Some (s', out) \<and> inv s'"
begin

lemma run_ok:
  "inv s \<Longrightarrow> list_all ok is \<Longrightarrow> \<exists>s' out. run_machine step s is = Some (s', out) \<and> inv s'"
proof (induction "is" arbitrary: s)
  case (Cons i "is")
  obtain s1 out where s1: "step s i = Some (s1, out)" "inv s1"
    using step_ok[of s i] Cons.prems by auto
  obtain s2 rest where "run_machine step s1 is = Some (s2, rest)" "inv s2"
    using Cons.IH[OF s1(2)] Cons.prems by auto
  then show ?case using s1 by auto
qed simp

lemma run_inv:
  "inv s \<Longrightarrow> list_all ok is \<Longrightarrow> run_machine step s is = Some (s', out) \<Longrightarrow> inv s'"
  using run_ok by fastforce

end

end
