(* ===== verification/Ieee80211.thy ===== *)
theory Ieee80211
  imports Caw_Prelude
begin

text \<open>
  Information elements of beacons and probe responses
  (\<^verbatim>\<open>src/crates/caw-80211/src/lib.rs\<close>): the element walker, the RSN and WPA1 element
  parsers over a byte cursor, the beacon summary and the security classification.

  A suite selector \<^verbatim>\<open>[u8; 4]\<close> is a 4-tuple of bytes. The cursor methods take the unread
  bytes and return their result with the bytes left unread; a failed read leaves them as
  they were, exactly as \<^verbatim>\<open>Cursor::take\<close> does.
\<close>

section \<open>Suites\<close>

type_synonym selector = "u8 \<times> u8 \<times> u8 \<times> u8"

definition EID_SSID :: u8 where "EID_SSID = 0"
definition EID_DS_PARAMS :: u8 where "EID_DS_PARAMS = 3"
definition EID_RSN :: u8 where "EID_RSN = 48"
definition EID_VENDOR :: u8 where "EID_VENDOR = 221"
definition WPA1_VENDOR_TYPE :: u8 where "WPA1_VENDOR_TYPE = 1"
definition RSN_CAP_MFPC :: u16 where "RSN_CAP_MFPC = push_bit 6 1"
definition RSN_CAP_MFPR :: u16 where "RSN_CAP_MFPR = push_bit 7 1"

lemmas eid_defs = EID_SSID_def EID_DS_PARAMS_def EID_RSN_def EID_VENDOR_def WPA1_VENDOR_TYPE_def

definition oui_known :: "selector \<Rightarrow> bool" where
  "oui_known sel = (case sel of (a, b, c, _) \<Rightarrow>
     (a, b, c) = (0x00, 0x0f, 0xac) \<or> (a, b, c) = (0x00, 0x50, 0xf2))"

datatype cipher = UseGroup | Wep40 | Tkip | Ccmp128 | Wep104 | BipCmac128 | Gcmp128 | Gcmp256
  | Ccmp256 | Cipher_Unknown selector

definition cipher_from_selector :: "selector \<Rightarrow> cipher" where
  "cipher_from_selector sel =
     (if \<not> oui_known sel then Cipher_Unknown sel
      else (case sel of (_, _, _, t) \<Rightarrow>
        if t = 0 then UseGroup
        else if t = 1 then Wep40
        else if t = 2 then Tkip
        else if t = 4 then Ccmp128
        else if t = 5 then Wep104
        else if t = 6 then BipCmac128
        else if t = 8 then Gcmp128
        else if t = 9 then Gcmp256
        else if t = 10 then Ccmp256
        else Cipher_Unknown sel))"

datatype akm = Psk | PskSha256 | Sae | Dot1x | Dot1xSha256 | Akm_Owe | FtPsk | FtSae | FtDot1x
  | Dot1xSuiteB192 | Akm_Unknown selector

definition akm_from_selector :: "selector \<Rightarrow> akm" where
  "akm_from_selector sel =
     (if \<not> oui_known sel then Akm_Unknown sel
      else (case sel of (_, _, _, t) \<Rightarrow>
        if t = 1 then Dot1x
        else if t = 2 then Psk
        else if t = 3 then FtDot1x
        else if t = 4 then FtPsk
        else if t = 5 then Dot1xSha256
        else if t = 6 then PskSha256
        else if t = 8 then Sae
        else if t = 9 then FtSae
        else if t = 12 then Dot1xSuiteB192
        else if t = 18 then Akm_Owe
        else Akm_Unknown sel))"

definition akm_is_psk :: "akm \<Rightarrow> bool" where
  "akm_is_psk a \<longleftrightarrow> a = Psk \<or> a = PskSha256 \<or> a = FtPsk"

definition akm_is_sae :: "akm \<Rightarrow> bool" where
  "akm_is_sae a \<longleftrightarrow> a = Sae \<or> a = FtSae"

definition akm_is_enterprise :: "akm \<Rightarrow> bool" where
  "akm_is_enterprise a \<longleftrightarrow> a = Dot1x \<or> a = Dot1xSha256 \<or> a = FtDot1x \<or> a = Dot1xSuiteB192"

lemmas akm_kind_defs = akm_is_psk_def akm_is_sae_def akm_is_enterprise_def

section \<open>The cursor\<close>

definition cur_take :: "nat \<Rightarrow> bytes \<Rightarrow> bytes option \<times> bytes" where
  "cur_take n rest =
     (if length rest < n then (None, rest) else (Some (take n rest), drop n rest))"

definition cur_skip :: "nat \<Rightarrow> bytes \<Rightarrow> unit option \<times> bytes" where
  "cur_skip n rest = (case cur_take n rest of (r, rest') \<Rightarrow> (map_option (\<lambda>_. ()) r, rest'))"

definition cur_u16le :: "bytes \<Rightarrow> u16 option \<times> bytes" where
  "cur_u16le rest = (case cur_take 2 rest of (r, rest') \<Rightarrow>
     (map_option (\<lambda>b. from_le16 (b ! 0) (b ! 1)) r, rest'))"

definition cur_selector :: "bytes \<Rightarrow> selector option \<times> bytes" where
  "cur_selector rest = (case cur_take 4 rest of (r, rest') \<Rightarrow>
     (map_option (\<lambda>b. (b ! 0, b ! 1, b ! 2, b ! 3)) r, rest'))"

fun cur_selectors :: "nat \<Rightarrow> bytes \<Rightarrow> selector list \<times> bytes" where
  "cur_selectors 0 rest = ([], rest)"
| "cur_selectors (Suc n) rest =
     (case cur_selector rest of
        (Some sel, rest') \<Rightarrow> (case cur_selectors n rest' of (out, rest'') \<Rightarrow> (sel # out, rest''))
      | (None, rest') \<Rightarrow> ([], rest'))"

definition cur_suite_list :: "bytes \<Rightarrow> selector list option \<times> bytes" where
  "cur_suite_list rest =
     (case cur_u16le rest of
        (None, rest') \<Rightarrow> (None, rest')
      | (Some count, rest') \<Rightarrow>
          (case cur_selectors (unat count) rest' of (out, rest'') \<Rightarrow> (Some out, rest'')))"

section \<open>RSN and WPA elements\<close>

datatype ie_error = Ie_Truncated | Ie_Malformed

record rsn_ie =
  rsn_version :: u16
  rsn_group_cipher :: cipher
  rsn_pairwise_ciphers :: "cipher list"
  rsn_akms :: "akm list"
  rsn_capabilities :: u16
  rsn_mfp_capable :: bool
  rsn_mfp_required :: bool
  rsn_group_mgmt_cipher :: "cipher option"
  rsn_raw :: bytes

definition rsn_parse_body :: "bytes \<Rightarrow> ie_error + rsn_ie" where
  "rsn_parse_body body =
     (case cur_u16le body of
        (None, _) \<Rightarrow> Inl Ie_Truncated
      | (Some version, r1) \<Rightarrow>
          if version \<noteq> 1 then Inl Ie_Malformed
          else
            let (gsel, r2) = cur_selector r1;
                group_cipher = (case gsel of None \<Rightarrow> Ccmp128 | Some s \<Rightarrow> cipher_from_selector s);
                (plist, r3) = cur_suite_list r2;
                pairwise = (case plist of Some l \<Rightarrow> map cipher_from_selector l | None \<Rightarrow> [Ccmp128]);
                (alist, r4) = cur_suite_list r3;
                akms = (case alist of Some l \<Rightarrow> map akm_from_selector l | None \<Rightarrow> [Dot1x]);
                (capsr, r5) = cur_u16le r4;
                capabilities = (case capsr of None \<Rightarrow> 0 | Some c \<Rightarrow> c);
                (pmkr, r6) = cur_u16le r5;
                pmkids = (case pmkr of None \<Rightarrow> 0 | Some c \<Rightarrow> unat c);
                (skipr, r7) = cur_skip (pmkids * 16) r6;
                mgmt = (case skipr of
                          None \<Rightarrow> None
                        | Some _ \<Rightarrow> map_option cipher_from_selector (fst (cur_selector r7)))
            in Inr \<lparr> rsn_version = version, rsn_group_cipher = group_cipher,
                     rsn_pairwise_ciphers = pairwise, rsn_akms = akms,
                     rsn_capabilities = capabilities,
                     rsn_mfp_capable = (capabilities AND RSN_CAP_MFPC \<noteq> 0),
                     rsn_mfp_required = (capabilities AND RSN_CAP_MFPR \<noteq> 0),
                     rsn_group_mgmt_cipher = mgmt, rsn_raw = [] \<rparr>)"

definition element_payload :: "u8 \<Rightarrow> bytes \<Rightarrow> bytes option" where
  "element_payload eid element =
     (case element of
        i # len # rest \<Rightarrow>
          if i = eid \<and> length rest \<ge> unat len then Some (take (unat len) rest) else None
      | _ \<Rightarrow> None)"

definition rsn_parse :: "bytes \<Rightarrow> ie_error + rsn_ie" where
  "rsn_parse element =
     (case element_payload EID_RSN element of
        None \<Rightarrow> Inl Ie_Truncated
      | Some payload \<Rightarrow>
          (case rsn_parse_body payload of
             Inl e \<Rightarrow> Inl e
           | Inr ie \<Rightarrow> Inr (ie \<lparr> rsn_raw := take (2 + length payload) element \<rparr>)))"

record wpa_ie =
  wpa_version :: u16
  wpa_group_cipher :: cipher
  wpa_pairwise_ciphers :: "cipher list"
  wpa_akms :: "akm list"
  wpa_raw :: bytes

definition wpa_body :: "bytes \<Rightarrow> bytes option" where
  "wpa_body payload =
     (case payload of
        a # b # c # t # rest \<Rightarrow>
          if t = WPA1_VENDOR_TYPE \<and> (a, b, c) = (0x00, 0x50, 0xf2) then Some rest else None
      | _ \<Rightarrow> None)"

definition wpa_parse :: "bytes \<Rightarrow> ie_error + wpa_ie" where
  "wpa_parse element =
     (case element_payload EID_VENDOR element of
        None \<Rightarrow> Inl Ie_Truncated
      | Some payload \<Rightarrow>
          (case wpa_body payload of
             None \<Rightarrow> Inl Ie_Malformed
           | Some body \<Rightarrow>
               (case cur_u16le body of
                  (None, _) \<Rightarrow> Inl Ie_Truncated
                | (Some version, r1) \<Rightarrow>
                    if version \<noteq> 1 then Inl Ie_Malformed
                    else
                      let (gsel, r2) = cur_selector r1;
                          group_cipher =
                            (case gsel of None \<Rightarrow> Tkip | Some s \<Rightarrow> cipher_from_selector s);
                          (plist, r3) = cur_suite_list r2;
                          pairwise =
                            (case plist of Some l \<Rightarrow> map cipher_from_selector l | None \<Rightarrow> [Tkip]);
                          (alist, r4) = cur_suite_list r3;
                          akms =
                            (case alist of Some l \<Rightarrow> map akm_from_selector l | None \<Rightarrow> [Dot1x])
                      in Inr \<lparr> wpa_version = version, wpa_group_cipher = group_cipher,
                               wpa_pairwise_ciphers = pairwise, wpa_akms = akms,
                               wpa_raw = take (2 + length payload) element \<rparr>)))"

section \<open>Security classification\<close>

datatype security = Sec_Open | Sec_Wep | Sec_Wpa1Personal | Sec_Wpa1Enterprise | Sec_Wpa2Personal
  | Sec_Wpa3Personal | Sec_Wpa2Wpa3Personal | Sec_Wpa2Enterprise | Sec_Wpa3Enterprise | Sec_Owe

definition security_from_akms :: "akm list \<Rightarrow> bool \<Rightarrow> security option" where
  "security_from_akms akms mfp_required =
     (let sae = list_ex akm_is_sae akms;
          psk = list_ex akm_is_psk akms;
          enterprise = list_ex akm_is_enterprise akms;
          owe = Akm_Owe \<in> set akms
      in if sae \<and> psk then Some Sec_Wpa2Wpa3Personal
         else if sae then Some Sec_Wpa3Personal
         else if owe then Some Sec_Owe
         else if enterprise then
           (if mfp_required \<or> Dot1xSuiteB192 \<in> set akms then Some Sec_Wpa3Enterprise
            else Some Sec_Wpa2Enterprise)
         else if psk then Some Sec_Wpa2Personal
         else None)"

definition classify :: "rsn_ie option \<Rightarrow> wpa_ie option \<Rightarrow> bool \<Rightarrow> security" where
  "classify rsn wpa privacy =
     (case Option.bind rsn (\<lambda>r. security_from_akms (rsn_akms r) (rsn_mfp_required r)) of
        Some s \<Rightarrow> s
      | None \<Rightarrow>
          (case wpa of
             Some w \<Rightarrow>
               if list_ex akm_is_enterprise (wpa_akms w) then Sec_Wpa1Enterprise
               else Sec_Wpa1Personal
           | None \<Rightarrow> if privacy then Sec_Wep else Sec_Open))"

definition security_as_str :: "security \<Rightarrow> string" where
  "security_as_str s =
     (case s of
        Sec_Open \<Rightarrow> ''open''
      | Sec_Wep \<Rightarrow> ''WEP''
      | Sec_Wpa1Personal \<Rightarrow> ''WPA1-Personal''
      | Sec_Wpa1Enterprise \<Rightarrow> ''WPA1-Enterprise''
      | Sec_Wpa2Personal \<Rightarrow> ''WPA2-Personal''
      | Sec_Wpa3Personal \<Rightarrow> ''WPA3-Personal''
      | Sec_Wpa2Wpa3Personal \<Rightarrow> ''WPA2/WPA3-Personal''
      | Sec_Wpa2Enterprise \<Rightarrow> ''WPA2-Enterprise''
      | Sec_Wpa3Enterprise \<Rightarrow> ''WPA3-Enterprise''
      | Sec_Owe \<Rightarrow> ''OWE'')"

definition security_is_open :: "security \<Rightarrow> bool" where
  "security_is_open s \<longleftrightarrow> s = Sec_Open \<or> s = Sec_Owe"

section \<open>Elements and beacons\<close>

record element =
  el_id :: u8
  el_payload :: bytes
  el_raw :: bytes

definition ies_next :: "bytes \<Rightarrow> (element \<times> bytes) option" where
  "ies_next rest =
     (case rest of
        i # len # _ \<Rightarrow>
          (let total = 2 + unat len in
           if length rest < total then None
           else Some (\<lparr> el_id = i, el_payload = drop 2 (take total rest),
                        el_raw = take total rest \<rparr>, drop total rest))
      | _ \<Rightarrow> None)"

definition ies :: "bytes \<Rightarrow> element list" where
  "ies body = iter_collect ies_next body"

definition ssid_is_hidden :: "bytes \<Rightarrow> bool" where
  "ssid_is_hidden s \<longleftrightarrow> s = [] \<or> list_all (\<lambda>b. b = 0) s"

record beacon_ies =
  bi_ssid :: "bytes option"
  bi_channel :: "u8 option"
  bi_rsn :: "rsn_ie option"
  bi_wpa :: "wpa_ie option"

definition ok_opt :: "'e + 'a \<Rightarrow> 'a option" where
  "ok_opt r = (case r of Inl _ \<Rightarrow> None | Inr x \<Rightarrow> Some x)"

definition beacon_step :: "element \<Rightarrow> beacon_ies \<Rightarrow> beacon_ies" where
  "beacon_step el out =
     (if el_id el = EID_SSID \<and> bi_ssid out = None then out \<lparr> bi_ssid := Some (el_payload el) \<rparr>
      else if el_id el = EID_DS_PARAMS \<and> bi_channel out = None then
        out \<lparr> bi_channel := slice_first (el_payload el) \<rparr>
      else if el_id el = EID_RSN \<and> bi_rsn out = None then
        out \<lparr> bi_rsn := ok_opt (rsn_parse (el_raw el)) \<rparr>
      else if el_id el = EID_VENDOR \<and> bi_wpa out = None then
        out \<lparr> bi_wpa := ok_opt (wpa_parse (el_raw el)) \<rparr>
      else out)"

definition beacon_empty :: beacon_ies where
  "beacon_empty = \<lparr> bi_ssid = None, bi_channel = None, bi_rsn = None, bi_wpa = None \<rparr>"

definition beacon_parse :: "bytes \<Rightarrow> beacon_ies" where
  "beacon_parse body = fold beacon_step (ies body) beacon_empty"

definition beacon_security :: "beacon_ies \<Rightarrow> bool \<Rightarrow> security" where
  "beacon_security b privacy = classify (bi_rsn b) (bi_wpa b) privacy"

definition reason_text :: "u16 \<Rightarrow> string option" where
  "reason_text code = map_of
    [(1, ''unspecified reason''),
     (2, ''previous authentication no longer valid''),
     (3, ''the station is leaving the network''),
     (4, ''inactive for too long''),
     (5, ''the access point cannot handle any more stations''),
     (6, ''a frame arrived from a station that had not authenticated''),
     (7, ''a frame arrived from a station that had not associated''),
     (8, ''the station is leaving the access point''),
     (9, ''reassociation requested by a station that had not authenticated''),
     (10, ''power capability unacceptable''),
     (11, ''supported channels unacceptable''),
     (12, ''moved off by BSS transition management''),
     (13, ''invalid information element''),
     (14, ''message integrity check failure''),
     (15, ''4-way handshake timeout (often a wrong passphrase)''),
     (16, ''group key handshake timeout''),
     (17, ''security element differs from the one advertised''),
     (18, ''invalid group cipher''),
     (19, ''invalid pairwise cipher''),
     (20, ''invalid key management suite''),
     (21, ''unsupported RSN element version''),
     (22, ''invalid RSN capabilities''),
     (23, ''802.1X authentication failed''),
     (24, ''cipher suite rejected by security policy''),
     (25, ''TDLS direct link unreachable''),
     (26, ''TDLS direct link torn down''),
     (32, ''unspecified QoS reason''),
     (33, ''not enough bandwidth for this station''),
     (34, ''too many frames went unacknowledged (poor signal)''),
     (35, ''transmitting outside the station's transmit opportunity limits''),
     (36, ''the peer is leaving''),
     (37, ''the peer does not want this mechanism''),
     (38, ''the peer has not set up this mechanism''),
     (39, ''the peer timed out''),
     (45, ''cipher suite not supported by the peer''),
     (46, ''the access point disassociated the station for another reason'')] code"

section \<open>Lemmas on the cursor\<close>

lemma cur_take_append [simp]: "length xs = n \<Longrightarrow> cur_take n (xs @ rest) = (Some xs, rest)"
  by (simp add: cur_take_def)

lemma cur_u16le_Cons [simp]: "cur_u16le (a # b # rest) = (Some (from_le16 a b), rest)"
  by (simp add: cur_u16le_def cur_take_def)

lemma cur_u16le_append [simp]: "cur_u16le (u16_le w @ rest) = (Some w, rest)"
  by (simp add: u16_le_def from_le16_def)

lemma cur_u16le_Nil [simp]: "cur_u16le [] = (None, [])"
  by (simp add: cur_u16le_def cur_take_def)

lemma cur_selector_Cons [simp]:
  "cur_selector (a # b # c # d # rest) = (Some (a, b, c, d), rest)"
  by (simp add: cur_selector_def cur_take_def numeral_eq_Suc)

lemma cur_selector_Nil [simp]: "cur_selector [] = (None, [])"
  by (simp add: cur_selector_def cur_take_def)

lemma cur_skip_0 [simp]: "cur_skip 0 rest = (Some (), rest)"
  by (simp add: cur_skip_def cur_take_def)

definition sel_bytes :: "selector \<Rightarrow> bytes" where
  "sel_bytes sel = (case sel of (a, b, c, d) \<Rightarrow> [a, b, c, d])"

lemma length_sel_bytes [simp]: "length (sel_bytes sel) = 4"
  by (simp add: sel_bytes_def split: prod.split)

lemma cur_selector_bytes [simp]: "cur_selector (sel_bytes sel @ rest) = (Some sel, rest)"
  by (simp add: sel_bytes_def split: prod.split)

lemma cur_selectors_bytes [simp]:
  "cur_selectors (length sels) (concat (map sel_bytes sels) @ rest) = (sels, rest)"
  by (induction sels) auto

lemma cur_suite_list_bytes:
  "length sels < 2 ^ 16 \<Longrightarrow>
   cur_suite_list (u16_le (of_nat (length sels)) @ concat (map sel_bytes sels) @ rest)
     = (Some sels, rest)"
  by (simp add: cur_suite_list_def unat_of_nat)

section \<open>The element walker\<close>

lemma ies_next_shrinks: "ies_next bs = Some (el, rest) \<Longrightarrow> length rest < length bs"
  by (auto simp: ies_next_def Let_def split: list.splits if_splits)

interpretation ies_it: stream_iter ies_next
  by unfold_locales (rule ies_next_shrinks)

definition element_enc :: "u8 \<times> bytes \<Rightarrow> bytes" where
  "element_enc p = fst p # of_nat (length (snd p)) # snd p"

definition element_of :: "u8 \<times> bytes \<Rightarrow> element" where
  "element_of p = \<lparr> el_id = fst p, el_payload = snd p, el_raw = element_enc p \<rparr>"

lemma ies_next_enc:
  "length (snd p) < 256 \<Longrightarrow> ies_next (element_enc p @ rest) = Some (element_of p, rest)"
  by (simp add: ies_next_def element_enc_def element_of_def unat_of_nat numeral_2_eq_2)

interpretation ies_codec: stream_codec ies_next element_enc element_of "\<lambda>p. length (snd p) < 256"
  by unfold_locales (rule ies_next_enc)

lemma ies_next_SomeD:
  "ies_next bs = Some (el, rest) \<Longrightarrow>
   bs = el_raw el @ rest \<and> length (el_payload el) < 256 \<and>
   el_raw el = element_enc (el_id el, el_payload el)"
proof -
  assume a: "ies_next bs = Some (el, rest)"
  then obtain i len tail where bs: "bs = i # len # tail"
    by (auto simp: ies_next_def split: list.splits)
  have "unat len < 256" by (rule unat_u8_less)
  moreover have "unat len \<le> length tail"
    using a by (auto simp: bs ies_next_def Let_def split: if_splits)
  ultimately show ?thesis
    using a by (auto simp: bs ies_next_def Let_def element_enc_def min_def)
qed

text \<open>
  The element walker loses nothing and invents nothing: the elements it yields,
  each one byte of identifier, one byte of length and that many bytes of payload, are a
  prefix of the frame body in order, and what is left after them is not a whole element.
\<close>

theorem ies_tile:
  "\<exists>rest. body = concat (map el_raw (ies body)) @ rest \<and> ies_next rest = None \<and>
     (\<forall>el \<in> set (ies body). el_raw el = element_enc (el_id el, el_payload el) \<and>
        length (el_payload el) < 256)"
proof (induction "length body" arbitrary: body rule: less_induct)
  case less
  show ?case
  proof (cases "ies_next body")
    case None
    then show ?thesis by (auto simp: ies_def ies_it.collect_stop)
  next
    case (Some p)
    then obtain el rest where p: "ies_next body = Some (el, rest)" by (cases p) auto
    from less[OF ies_next_shrinks[OF p]] obtain r where
      "rest = concat (map el_raw (ies rest)) @ r" "ies_next r = None"
      "\<forall>el \<in> set (ies rest). el_raw el = element_enc (el_id el, el_payload el) \<and>
         length (el_payload el) < 256"
      by auto
    then show ?thesis
      using ies_next_SomeD[OF p] p by (intro exI[of _ r]) (auto simp: ies_def ies_it.collect_step)
  qed
qed

theorem ies_tile_witness:
  "\<exists>rest. [0, 1, 65, 48] = concat (map el_raw (ies [0, 1, 65, 48])) @ rest \<and> ies_next rest = None \<and>
     (\<forall>el \<in> set (ies [0, 1, 65, 48]). el_raw el = element_enc (el_id el, el_payload el) \<and>
        length (el_payload el) < 256)"
  by (rule ies_tile)

section \<open>The beacon summary\<close>

lemma beacon_fold_ssid:
  "bi_ssid (fold beacon_step els b) =
     (case bi_ssid b of
        Some s \<Rightarrow> Some s
      | None \<Rightarrow> find_map (\<lambda>e. if el_id e = EID_SSID then Some (el_payload e) else None) els)"
  by (induction els arbitrary: b) (auto simp: beacon_step_def eid_defs split: option.split)

lemma beacon_fold_channel:
  "bi_channel (fold beacon_step els b) =
     (case bi_channel b of
        Some s \<Rightarrow> Some s
      | None \<Rightarrow> find_map (\<lambda>e. if el_id e = EID_DS_PARAMS then slice_first (el_payload e) else None) els)"
  by (induction els arbitrary: b) (auto simp: beacon_step_def eid_defs split: option.split)

lemma beacon_fold_rsn:
  "bi_rsn (fold beacon_step els b) =
     (case bi_rsn b of
        Some s \<Rightarrow> Some s
      | None \<Rightarrow> find_map (\<lambda>e. if el_id e = EID_RSN then ok_opt (rsn_parse (el_raw e)) else None) els)"
  by (induction els arbitrary: b) (auto simp: beacon_step_def eid_defs split: option.split)

lemma beacon_fold_wpa:
  "bi_wpa (fold beacon_step els b) =
     (case bi_wpa b of
        Some s \<Rightarrow> Some s
      | None \<Rightarrow> find_map (\<lambda>e. if el_id e = EID_VENDOR then ok_opt (wpa_parse (el_raw e)) else None) els)"
  by (induction els arbitrary: b) (auto simp: beacon_step_def eid_defs split: option.split)

text \<open>
  First occurrence wins in a beacon: each field of the summary is taken from the first
  element of its kind that can be read, so nothing appended to a frame can overwrite a field
  an earlier element has set.
\<close>

theorem beacon_first_wins:
  "beacon_parse body =
     \<lparr> bi_ssid = find_map (\<lambda>e. if el_id e = EID_SSID then Some (el_payload e) else None) (ies body),
       bi_channel =
         find_map (\<lambda>e. if el_id e = EID_DS_PARAMS then slice_first (el_payload e) else None) (ies body),
       bi_rsn =
         find_map (\<lambda>e. if el_id e = EID_RSN then ok_opt (rsn_parse (el_raw e)) else None) (ies body),
       bi_wpa =
         find_map (\<lambda>e. if el_id e = EID_VENDOR then ok_opt (wpa_parse (el_raw e)) else None) (ies body) \<rparr>"
  by (rule beacon_ies.equality)
    (simp_all add: beacon_parse_def beacon_fold_ssid beacon_fold_channel beacon_fold_rsn
       beacon_fold_wpa beacon_empty_def)

section \<open>Classification\<close>

lemma rsn_parse_body_Inr:
  "rsn_parse_body body = Inr ie \<Longrightarrow>
   rsn_version ie = 1 \<and>
   rsn_mfp_capable ie = (rsn_capabilities ie AND RSN_CAP_MFPC \<noteq> 0) \<and>
   rsn_mfp_required ie = (rsn_capabilities ie AND RSN_CAP_MFPR \<noteq> 0)"
proof -
  assume a: "rsn_parse_body body = Inr ie"
  obtain v r1 where e1: "cur_u16le body = (v, r1)" by (cases "cur_u16le body")
  obtain g r2 where e2: "cur_selector r1 = (g, r2)" by (cases "cur_selector r1")
  obtain p r3 where e3: "cur_suite_list r2 = (p, r3)" by (cases "cur_suite_list r2")
  obtain k r4 where e4: "cur_suite_list r3 = (k, r4)" by (cases "cur_suite_list r3")
  obtain c r5 where e5: "cur_u16le r4 = (c, r5)" by (cases "cur_u16le r4")
  obtain m r6 where e6: "cur_u16le r5 = (m, r6)" by (cases "cur_u16le r5")
  obtain s r7 where e7: "cur_skip ((case m of None \<Rightarrow> 0 | Some c \<Rightarrow> unat c) * 16) r6 = (s, r7)"
    by (cases "cur_skip ((case m of None \<Rightarrow> 0 | Some c \<Rightarrow> unat c) * 16) r6")
  show ?thesis using a
    by (cases v) (auto simp: rsn_parse_body_def e1 e2 e3 e4 e5 e6 e7 Let_def split: if_splits)
qed

lemma rsn_parse_Inr:
  "rsn_parse element = Inr ie \<Longrightarrow>
   \<exists>payload. element_payload EID_RSN element = Some payload \<and>
     rsn_raw ie = take (2 + length payload) element \<and> rsn_version ie = 1 \<and>
     rsn_mfp_capable ie = (rsn_capabilities ie AND RSN_CAP_MFPC \<noteq> 0) \<and>
     rsn_mfp_required ie = (rsn_capabilities ie AND RSN_CAP_MFPR \<noteq> 0)"
  by (auto simp: rsn_parse_def split: option.splits sum.splits dest: rsn_parse_body_Inr)

lemma element_payload_SomeD:
  "element_payload eid element = Some payload \<Longrightarrow>
   take (2 + length payload) element = element_enc (eid, payload) \<and> length payload < 256"
proof -
  assume a: "element_payload eid element = Some payload"
  then obtain len rest where e: "element = eid # len # rest" "unat len \<le> length rest"
    "payload = take (unat len) rest"
    by (auto simp: element_payload_def split: list.splits if_splits)
  moreover have "unat len < 256" by (rule unat_u8_less)
  ultimately show ?thesis by (simp add: element_enc_def min_def)
qed

lemma rsn_parse_raw_length: "rsn_parse element = Inr ie \<Longrightarrow> length (rsn_raw ie) \<le> 257"
  using element_payload_SomeD by (fastforce dest!: rsn_parse_Inr simp: element_enc_def)

definition akm_is_unknown :: "akm \<Rightarrow> bool" where
  "akm_is_unknown a = (case a of Akm_Unknown _ \<Rightarrow> True | _ \<Rightarrow> False)"

lemma akm_is_unknown_iff:
  "akm_is_unknown a \<longleftrightarrow> \<not> akm_is_sae a \<and> \<not> akm_is_psk a \<and> \<not> akm_is_enterprise a \<and> a \<noteq> Akm_Owe"
  by (cases a) (simp_all add: akm_is_unknown_def akm_kind_defs)

lemma security_from_akms_None:
  "security_from_akms akms m = None \<longleftrightarrow> list_all akm_is_unknown akms"
  unfolding security_from_akms_def Let_def list_all_iff list_ex_iff akm_is_unknown_iff
  by (simp split: if_split) blast

lemma security_from_akms_not_open: "security_from_akms akms m \<noteq> Some Sec_Open"
  by (simp add: security_from_akms_def Let_def)

text \<open>
  A network is called open only when its beacon says nothing that could protect it: the
  privacy bit is clear, there is no WPA1 element, and an RSN element, if there is one, lists
  no key-management suite this program knows.
\<close>

theorem classify_open_iff:
  "classify rsn wpa privacy = Sec_Open \<longleftrightarrow>
     \<not> privacy \<and> wpa = None \<and>
     (case rsn of None \<Rightarrow> True | Some r \<Rightarrow> list_all akm_is_unknown (rsn_akms r))"
proof (cases rsn)
  case None
  then show ?thesis by (auto simp: classify_def split: option.splits)
next
  case (Some r)
  then show ?thesis
    using security_from_akms_None[of "rsn_akms r" "rsn_mfp_required r"]
      security_from_akms_not_open[of "rsn_akms r" "rsn_mfp_required r"]
    by (cases "security_from_akms (rsn_akms r) (rsn_mfp_required r)")
      (auto simp: classify_def split: option.splits)
qed

end
