(* ===== verification/Station_Rsn.thy ===== *)
theory Station_Rsn
  imports Ieee80211
begin

text \<open>
  The suite selectors nl80211 uses (\<^verbatim>\<open>src/crates/caw-nl80211/src/consts.rs\<close>) and the RSN
  element a station puts in its association request (\<^verbatim>\<open>src/crates/caw-core/src/rsn.rs\<close>),
  with the round trip through the parser of \<^verbatim>\<open>caw-80211\<close>.
\<close>

section \<open>Suite selectors of nl80211\<close>

definition suite :: "u8 \<times> u8 \<times> u8 \<Rightarrow> u8 \<Rightarrow> u32" where
  "suite oui suite_type = (case oui of (a, b, c) \<Rightarrow> from_be32 a b c suite_type)"

definition ieee :: "u8 \<Rightarrow> u32" where
  "ieee suite_type = suite (0x00, 0x0f, 0xac) suite_type"

definition u32_of_selector :: "selector \<Rightarrow> u32" where
  "u32_of_selector sel = (case sel of (a, b, c, d) \<Rightarrow> from_be32 a b c d)"

definition cipher_suite :: "cipher \<Rightarrow> u32 option" where
  "cipher_suite cipher =
     (case cipher of
        UseGroup \<Rightarrow> None
      | Wep40 \<Rightarrow> Some (ieee 1)
      | Tkip \<Rightarrow> Some (ieee 2)
      | Ccmp128 \<Rightarrow> Some (ieee 4)
      | Wep104 \<Rightarrow> Some (ieee 5)
      | BipCmac128 \<Rightarrow> Some (ieee 6)
      | Gcmp128 \<Rightarrow> Some (ieee 8)
      | Gcmp256 \<Rightarrow> Some (ieee 9)
      | Ccmp256 \<Rightarrow> Some (ieee 10)
      | Cipher_Unknown sel \<Rightarrow> Some (u32_of_selector sel))"

definition akm_suite :: "akm \<Rightarrow> u32" where
  "akm_suite akm =
     (case akm of
        Psk \<Rightarrow> ieee 2
      | PskSha256 \<Rightarrow> ieee 6
      | Sae \<Rightarrow> ieee 8
      | Dot1x \<Rightarrow> ieee 1
      | Dot1xSha256 \<Rightarrow> ieee 5
      | Akm_Owe \<Rightarrow> ieee 18
      | FtPsk \<Rightarrow> ieee 4
      | FtSae \<Rightarrow> ieee 9
      | FtDot1x \<Rightarrow> ieee 3
      | Dot1xSuiteB192 \<Rightarrow> ieee 12
      | Akm_Unknown sel \<Rightarrow> u32_of_selector sel)"

section \<open>The station's element\<close>

definition cipher_selector :: "cipher \<Rightarrow> bytes" where
  "cipher_selector c = u32_be (case cipher_suite c of Some s \<Rightarrow> s | None \<Rightarrow> ieee 0)"

definition akm_selector :: "akm \<Rightarrow> bytes" where
  "akm_selector a = u32_be (akm_suite a)"

record station_rsn =
  srsn_group :: cipher
  srsn_pairwise :: cipher
  srsn_akm :: akm
  srsn_mfp_capable :: bool
  srsn_mfp_required :: bool
  srsn_pmkid :: "bytes option"
  srsn_group_mgmt :: "cipher option"

definition srsn_capabilities :: "station_rsn \<Rightarrow> u16" where
  "srsn_capabilities s =
     (if srsn_mfp_capable s then RSN_CAP_MFPC else 0) OR (if srsn_mfp_required s then RSN_CAP_MFPR else 0)"

definition srsn_body :: "station_rsn \<Rightarrow> bytes" where
  "srsn_body s =
     u16_le 1 @ cipher_selector (srsn_group s) @
     u16_le 1 @ cipher_selector (srsn_pairwise s) @
     u16_le 1 @ akm_selector (srsn_akm s) @
     u16_le (srsn_capabilities s) @
     (if srsn_pmkid s \<noteq> None \<or> srsn_group_mgmt s \<noteq> None then
        u16_le (if srsn_pmkid s \<noteq> None then 1 else 0) @
        (case srsn_pmkid s of Some pmkid \<Rightarrow> pmkid | None \<Rightarrow> []) @
        (case srsn_group_mgmt s of Some c \<Rightarrow> cipher_selector c | None \<Rightarrow> [])
      else [])"

definition srsn_encode :: "station_rsn \<Rightarrow> bytes option" where
  "srsn_encode s =
     (let body = srsn_body s in
      if length body < 256 then Some (EID_RSN # of_nat (length body) # body) else None)"

section \<open>Selectors round trip\<close>

definition cipher_canonical :: "cipher \<Rightarrow> bool" where
  "cipher_canonical c = (case c of Cipher_Unknown s \<Rightarrow> cipher_from_selector s = c | _ \<Rightarrow> True)"

definition akm_canonical :: "akm \<Rightarrow> bool" where
  "akm_canonical a = (case a of Akm_Unknown s \<Rightarrow> akm_from_selector s = a | _ \<Rightarrow> True)"

lemma cipher_from_selector_canonical [simp]: "cipher_canonical (cipher_from_selector sel)"
  by (cases sel) (simp add: cipher_canonical_def cipher_from_selector_def)

lemma akm_from_selector_canonical [simp]: "akm_canonical (akm_from_selector sel)"
  by (cases sel) (simp add: akm_canonical_def akm_from_selector_def)

lemma ieee_bytes [simp]: "u32_be (ieee t) = [0x00, 0x0f, 0xac, t]"
  by (simp add: ieee_def suite_def)

lemma u32_of_selector_bytes [simp]: "u32_be (u32_of_selector sel) = sel_bytes sel"
  by (simp add: u32_of_selector_def sel_bytes_def split: prod.split)

lemma cipher_selector_bytes:
  "cipher_canonical c \<Longrightarrow>
   \<exists>sel. cipher_selector c = sel_bytes sel \<and> cipher_from_selector sel = c"
  by (cases c)
    (auto simp: cipher_selector_def cipher_suite_def sel_bytes_def cipher_from_selector_def
       oui_known_def cipher_canonical_def split: prod.splits if_splits)

lemma akm_selector_bytes:
  "akm_canonical a \<Longrightarrow> \<exists>sel. akm_selector a = sel_bytes sel \<and> akm_from_selector sel = a"
  by (cases a)
    (auto simp: akm_selector_def akm_suite_def sel_bytes_def akm_from_selector_def
       oui_known_def akm_canonical_def split: prod.splits if_splits)

lemma length_cipher_selector [simp]: "length (cipher_selector c) = 4"
  by (simp add: cipher_selector_def)

lemma length_akm_selector [simp]: "length (akm_selector c) = 4"
  by (simp add: akm_selector_def)

lemma length_srsn_body:
  "(\<forall>p. srsn_pmkid s = Some p \<longrightarrow> length p = 16) \<Longrightarrow>
   length (srsn_body s) = 20 +
     (if srsn_pmkid s \<noteq> None \<or> srsn_group_mgmt s \<noteq> None then 2 else 0) +
     (if srsn_pmkid s \<noteq> None then 16 else 0) + (if srsn_group_mgmt s \<noteq> None then 4 else 0)"
  by (auto simp: srsn_body_def split: option.splits)

lemma srsn_encode_Some:
  "(\<forall>p. srsn_pmkid s = Some p \<longrightarrow> length p = 16) \<Longrightarrow>
   \<exists>body. srsn_encode s = Some body \<and> length body \<le> 44"
  using length_srsn_body[of s] by (auto simp: srsn_encode_def Let_def)

lemma cur_suite_list_one:
  "cur_suite_list (u16_le 1 @ sel_bytes sel @ rest) = (Some [sel], rest)"
  using cur_suite_list_bytes[of "[sel]" rest] by simp

lemma srsn_caps_bits:
  "(srsn_capabilities s AND RSN_CAP_MFPC \<noteq> 0) = srsn_mfp_capable s"
  "(srsn_capabilities s AND RSN_CAP_MFPR \<noteq> 0) = srsn_mfp_required s"
  by (simp_all add: srsn_capabilities_def RSN_CAP_MFPC_def RSN_CAP_MFPR_def)

definition srsn_wf :: "station_rsn \<Rightarrow> bool" where
  "srsn_wf s \<longleftrightarrow> cipher_canonical (srsn_group s) \<and> cipher_canonical (srsn_pairwise s) \<and>
     akm_canonical (srsn_akm s) \<and> (\<forall>p. srsn_pmkid s = Some p \<longrightarrow> length p = 16) \<and>
     (\<forall>c. srsn_group_mgmt s = Some c \<longrightarrow> cipher_canonical c)"

definition srsn_ie :: "station_rsn \<Rightarrow> bytes \<Rightarrow> rsn_ie" where
  "srsn_ie s raw =
     \<lparr> rsn_version = 1, rsn_group_cipher = srsn_group s, rsn_pairwise_ciphers = [srsn_pairwise s],
       rsn_akms = [srsn_akm s], rsn_capabilities = srsn_capabilities s,
       rsn_mfp_capable = srsn_mfp_capable s, rsn_mfp_required = srsn_mfp_required s,
       rsn_group_mgmt_cipher = srsn_group_mgmt s, rsn_raw = raw \<rparr>"

lemma srsn_parse_body:
  assumes "srsn_wf s"
  shows "rsn_parse_body (srsn_body s) = Inr (srsn_ie s [])"
proof -
  obtain g where g: "cipher_selector (srsn_group s) = sel_bytes g" "cipher_from_selector g = srsn_group s"
    using cipher_selector_bytes[of "srsn_group s"] assms by (auto simp: srsn_wf_def)
  obtain p where p: "cipher_selector (srsn_pairwise s) = sel_bytes p"
    "cipher_from_selector p = srsn_pairwise s"
    using cipher_selector_bytes[of "srsn_pairwise s"] assms by (auto simp: srsn_wf_def)
  obtain a where a: "akm_selector (srsn_akm s) = sel_bytes a" "akm_from_selector a = srsn_akm s"
    using akm_selector_bytes[of "srsn_akm s"] assms by (auto simp: srsn_wf_def)
  have m: "\<exists>m. cipher_selector c = sel_bytes m \<and> cipher_from_selector m = c"
    if "srsn_group_mgmt s = Some c" for c
    using cipher_selector_bytes[of c] that assms by (auto simp: srsn_wf_def)
  have skip: "cur_skip 16 (pm @ rest) = (Some (), rest)" if "length pm = 16" for pm rest
    using that by (simp add: cur_skip_def)
  have skip': "cur_skip 16 pm = (Some (), [])" if "length pm = 16" for pm
    using skip[OF that, of "[]"] by simp
  have sel': "cur_selector (sel_bytes m) = (Some m, [])" for m
    using cur_selector_bytes[of m "[]"] by simp
  have u16': "cur_u16le (u16_le w) = (Some w, [])" for w
    using cur_u16le_append[of w "[]"] by simp
  show ?thesis
    using assms m
    by (cases "srsn_pmkid s"; cases "srsn_group_mgmt s")
      (auto simp: srsn_wf_def rsn_parse_body_def srsn_body_def g p a cur_suite_list_one srsn_ie_def
         srsn_caps_bits skip skip' sel' u16' Let_def)
qed

lemma element_payload_enc:
  "length body < 256 \<Longrightarrow>
   element_payload eid (eid # of_nat (length body) # body @ rest) = Some body"
  by (simp add: element_payload_def unat_of_nat)

text \<open>
  The RSN element a station builds reads back as what it asked for: encoding never
  panics, fits in 46 octets, and the parser of beacons returns exactly the chosen group,
  pairwise and management ciphers, key-management suite and protection bits, with the
  element's own bytes as its raw copy.
\<close>

theorem srsn_roundtrip:
  assumes "srsn_wf s"
  shows "\<exists>el. srsn_encode s = Some el \<and> length el \<le> 46 \<and> rsn_parse el = Inr (srsn_ie s el)"
proof -
  have len: "length (srsn_body s) \<le> 42 + 2"
    using length_srsn_body[of s] assms by (auto simp: srsn_wf_def)
  let ?el = "EID_RSN # of_nat (length (srsn_body s)) # srsn_body s"
  have "srsn_encode s = Some ?el" using len by (simp add: srsn_encode_def Let_def)
  moreover have "rsn_parse ?el = Inr (srsn_ie s ?el)"
    using element_payload_enc[of "srsn_body s" EID_RSN "[]"] len srsn_parse_body[OF assms]
    by (simp add: rsn_parse_def srsn_ie_def)
  ultimately show ?thesis using len by auto
qed

definition srsn_example :: station_rsn where
  "srsn_example = \<lparr> srsn_group = Ccmp128, srsn_pairwise = Gcmp128, srsn_akm = Sae,
     srsn_mfp_capable = True, srsn_mfp_required = True, srsn_pmkid = Some (replicate 16 7),
     srsn_group_mgmt = Some BipCmac128 \<rparr>"

theorem srsn_roundtrip_witness:
  "srsn_wf srsn_example \<and>
   (\<exists>el. srsn_encode srsn_example = Some el \<and> length el \<le> 46 \<and>
      rsn_parse el = Inr (srsn_ie srsn_example el))"
proof -
  have "srsn_wf srsn_example"
    by (simp add: srsn_example_def srsn_wf_def cipher_canonical_def akm_canonical_def)
  then show ?thesis using srsn_roundtrip by blast
qed

end
