(* ===== verification/Policy.thy ===== *)
theory Policy
  imports Ieee80211
begin

text \<open>
  Connection policy (\<^verbatim>\<open>src/crates/caw-core/src/policy.rs\<close>) with the data it decides over: a
  scan result (\<^verbatim>\<open>caw-nl80211/src/bss.rs\<close>) and a saved network (\<^verbatim>\<open>caw-core/src/profile.rs\<close>).

  A signal strength is an \<^verbatim>\<open>i32\<close>, modelled as an \<open>int\<close>; the one addition on it saturates, as
  in the source. A Rust string is its UTF-8 bytes. The \<^verbatim>\<open>enterprise\<close> build feature is a
  boolean argument.
\<close>

section \<open>Data\<close>

record bss =
  bss_bssid :: bytes
  bss_ssid :: bytes
  bss_freq_mhz :: u32
  bss_signal_dbm :: int
  bss_last_seen_ms :: u32
  bss_capability :: u16
  bss_security :: security
  bss_rsn :: "rsn_ie option"

datatype enterprise_method = Peap bytes | Ttls bytes | Tls bytes bytes

datatype credential = Cred_None | Cred_Passphrase bytes
  | Cred_Enterprise (ce_identity: bytes) (ce_anonymous_identity: "bytes option")
      (ce_server_name: "bytes option") (ce_method: enterprise_method) (ce_ca_cert: "bytes option")

record profile =
  pr_ssid :: bytes
  pr_security :: security
  pr_credential :: credential
  pr_autoconnect :: bool
  pr_min_security :: security

section \<open>Security levels\<close>

definition strength :: "security \<Rightarrow> nat" where
  "strength s =
     (case s of
        Sec_Open \<Rightarrow> 0
      | Sec_Wep \<Rightarrow> 1
      | Sec_Wpa1Personal \<Rightarrow> 2 | Sec_Wpa1Enterprise \<Rightarrow> 2
      | Sec_Owe \<Rightarrow> 3
      | Sec_Wpa2Personal \<Rightarrow> 4 | Sec_Wpa2Enterprise \<Rightarrow> 4
      | Sec_Wpa2Wpa3Personal \<Rightarrow> 5
      | Sec_Wpa3Personal \<Rightarrow> 6 | Sec_Wpa3Enterprise \<Rightarrow> 6)"

definition is_at_least :: "security \<Rightarrow> security \<Rightarrow> bool" where
  "is_at_least offered floor \<longleftrightarrow> strength offered \<ge> strength floor"

definition security_floor :: "security \<Rightarrow> security" where
  "security_floor observed =
     (case observed of Sec_Wpa2Wpa3Personal \<Rightarrow> Sec_Wpa2Personal | other \<Rightarrow> other)"

definition profile_new :: "bytes \<Rightarrow> security \<Rightarrow> credential \<Rightarrow> profile" where
  "profile_new ssid security credential =
     \<lparr> pr_ssid = ssid, pr_security = security, pr_credential = credential,
       pr_autoconnect = (credential \<noteq> Cred_None),
       pr_min_security = security_floor security \<rparr>"

definition profile_accepts :: "profile \<Rightarrow> security \<Rightarrow> bool" where
  "profile_accepts p offered = is_at_least offered (pr_min_security p)"

section \<open>Choosing a network\<close>

definition ROAM_MARGIN_DB :: int where "ROAM_MARGIN_DB = 8"

definition I32_MAX :: int where "I32_MAX = 2147483647"
definition I32_MIN :: int where "I32_MIN = -2147483648"

definition i32_saturating_add :: "int \<Rightarrow> int \<Rightarrow> int" where
  "i32_saturating_add a b = max I32_MIN (min I32_MAX (a + b))"

definition best_bss :: "bss list \<Rightarrow> bytes \<Rightarrow> bss option" where
  "best_bss scan ssid = max_by_key bss_signal_dbm (filter (\<lambda>b. bss_ssid b = ssid) scan)"

definition known_profile :: "profile list \<Rightarrow> bss \<Rightarrow> profile option" where
  "known_profile profiles b = find (\<lambda>p. pr_autoconnect p \<and> pr_ssid p = bss_ssid b) profiles"

definition best_known :: "bss list \<Rightarrow> profile list \<Rightarrow> (bss \<times> profile) option" where
  "best_known scan profiles =
     max_by_key (\<lambda>(b, _). bss_signal_dbm b)
       (List.map_filter (\<lambda>b. map_option (\<lambda>p. (b, p)) (known_profile profiles b)) scan)"

definition roam_target :: "bss list \<Rightarrow> bytes \<Rightarrow> bytes \<Rightarrow> int \<Rightarrow> bss option" where
  "roam_target scan ssid current current_signal =
     (let floor = i32_saturating_add current_signal ROAM_MARGIN_DB in
      max_by_key bss_signal_dbm
        (filter (\<lambda>b. bss_ssid b = ssid \<and> bss_bssid b \<noteq> current \<and> bss_signal_dbm b \<ge> floor) scan))"

section \<open>Choosing suites\<close>

definition satisfies :: "akm \<Rightarrow> credential option \<Rightarrow> bool" where
  "satisfies akm credential =
     (case credential of
        None \<Rightarrow> True
      | Some Cred_None \<Rightarrow> False
      | Some (Cred_Passphrase _) \<Rightarrow> akm_is_psk akm \<or> akm_is_sae akm
      | Some (Cred_Enterprise _ _ _ _ _) \<Rightarrow> akm_is_enterprise akm)"

definition runnable :: "bool \<Rightarrow> akm \<Rightarrow> bool" where
  "runnable enterprise akm \<longleftrightarrow>
     akm = Psk \<or> akm = PskSha256 \<or> akm = Sae \<or> enterprise \<and> (akm = Dot1x \<or> akm = Dot1xSha256)"

definition AKM_PREFERENCE :: "akm list" where
  "AKM_PREFERENCE = [Sae, Dot1xSha256, PskSha256, Dot1x, Psk]"

definition choose_akm :: "bool \<Rightarrow> rsn_ie \<Rightarrow> credential option \<Rightarrow> akm option" where
  "choose_akm enterprise rsn credential =
     find (\<lambda>akm. akm \<in> set (rsn_akms rsn) \<and> satisfies akm credential \<and> runnable enterprise akm)
       AKM_PREFERENCE"

definition choose_pairwise :: "rsn_ie \<Rightarrow> cipher option" where
  "choose_pairwise rsn = find (\<lambda>c. c \<in> set (rsn_pairwise_ciphers rsn)) [Ccmp128, Gcmp128]"

definition negotiated_security :: "akm \<Rightarrow> bool \<Rightarrow> security" where
  "negotiated_security akm mfp_required =
     (if akm_is_sae akm then Sec_Wpa3Personal
      else if akm_is_psk akm then Sec_Wpa2Personal
      else if akm = Akm_Owe then Sec_Owe
      else if akm_is_enterprise akm then
        (if mfp_required \<or> akm = Dot1xSuiteB192 then Sec_Wpa3Enterprise else Sec_Wpa2Enterprise)
      else Sec_Open)"

section \<open>Lemmas\<close>

lemma choose_akm_SomeD:
  assumes "choose_akm ent rsn cred = Some akm"
  shows "akm \<in> set (rsn_akms rsn) \<and> satisfies akm cred \<and> runnable ent akm"
  using find_SomeD[OF assms[unfolded choose_akm_def]] by simp

lemma choose_pairwise_SomeD:
  assumes "choose_pairwise rsn = Some c"
  shows "c \<in> set (rsn_pairwise_ciphers rsn) \<and> (c = Ccmp128 \<or> c = Gcmp128)"
  using find_SomeD[OF assms[unfolded choose_pairwise_def]] by auto

lemma runnable_kinds:
  "runnable ent akm \<Longrightarrow> akm \<in> {Psk, PskSha256, Sae, Dot1x, Dot1xSha256}"
  by (auto simp: runnable_def)

lemma best_bss_SomeD:
  assumes "best_bss scan ssid = Some b"
  shows "b \<in> set scan \<and> bss_ssid b = ssid"
  using max_by_key_in[OF assms[unfolded best_bss_def]] by simp

lemma set_map_filter: "y \<in> set (List.map_filter f xs) \<longleftrightarrow> (\<exists>x \<in> set xs. f x = Some y)"
  by (force simp: List.map_filter_def)

lemma best_known_SomeD:
  assumes "best_known scan profiles = Some (b, p)"
  shows "b \<in> set scan \<and> p \<in> set profiles \<and> pr_ssid p = bss_ssid b \<and> pr_autoconnect p"
  using max_by_key_in[OF assms[unfolded best_known_def]]
  by (auto simp: set_map_filter known_profile_def dest!: find_SomeD)

lemma roam_target_SomeD:
  assumes "roam_target scan ssid cur sig = Some b"
  shows "b \<in> set scan \<and> bss_ssid b = ssid \<and> bss_bssid b \<noteq> cur \<and>
    bss_signal_dbm b \<ge> i32_saturating_add sig ROAM_MARGIN_DB"
  using max_by_key_in[OF assms[unfolded roam_target_def Let_def]] by auto

section \<open>Properties\<close>

text \<open>
  Autoconnect picks the strongest access point the machine has an autoconnect profile
  for: a chosen pair is in the scan and in the profiles, carries one SSID, the profile asked
  for autoconnect, and no other access point with such a profile is stronger; nothing is
  chosen exactly when no scanned access point has such a profile.
\<close>

theorem best_known_spec:
  "case best_known scan profiles of
     None \<Rightarrow> \<forall>b \<in> set scan. \<forall>p \<in> set profiles. pr_autoconnect p \<longrightarrow> pr_ssid p \<noteq> bss_ssid b
   | Some (b, p) \<Rightarrow> b \<in> set scan \<and> p \<in> set profiles \<and> pr_autoconnect p \<and> pr_ssid p = bss_ssid b \<and>
       (\<forall>b' \<in> set scan. \<forall>p' \<in> set profiles. pr_autoconnect p' \<and> pr_ssid p' = bss_ssid b' \<longrightarrow>
          bss_signal_dbm b' \<le> bss_signal_dbm b)"
proof (cases "best_known scan profiles")
  case None
  then have "\<forall>b \<in> set scan. known_profile profiles b = None"
    by (auto simp: best_known_def List.map_filter_def filter_empty_conv)
  then show ?thesis using None by (auto simp: known_profile_def find_None)
next
  case (Some bp)
  then obtain b p where bp: "best_known scan profiles = Some (b, p)" by (cases bp) auto
  have "bss_signal_dbm b' \<le> bss_signal_dbm b"
    if b': "b' \<in> set scan" "p' \<in> set profiles" "pr_autoconnect p'" "pr_ssid p' = bss_ssid b'" for b' p'
  proof -
    have "known_profile profiles b' \<noteq> None"
      using b' by (auto simp: known_profile_def find_None)
    then obtain q where "known_profile profiles b' = Some q" by auto
    then have "(b', q) \<in> set (List.map_filter
        (\<lambda>b. map_option (\<lambda>p. (b, p)) (known_profile profiles b)) scan)"
      using b' by (auto simp: set_map_filter)
    from max_by_key_max[OF bp[unfolded best_known_def] this] show ?thesis by simp
  qed
  then show ?thesis using bp best_known_SomeD[OF bp] by auto
qed

definition bss_example :: "bytes \<Rightarrow> int \<Rightarrow> bss" where
  "bss_example ssid sig = \<lparr> bss_bssid = [2, 0, 0, 0, 0, 1], bss_ssid = ssid, bss_freq_mhz = 2412,
     bss_signal_dbm = sig, bss_last_seen_ms = 0, bss_capability = 0, bss_security = Sec_Open,
     bss_rsn = None \<rparr>"

theorem best_known_spec_witness:
  "best_known [bss_example [65] (-60), bss_example [66] (-30), bss_example [65] (-50)]
      [profile_new [65] Sec_Wpa2Personal (Cred_Passphrase [1])]
     = Some (bss_example [65] (-50), profile_new [65] Sec_Wpa2Personal (Cred_Passphrase [1])) \<and>
   bss_signal_dbm (bss_example [65] (-60)) \<le> -50"
proof -
  let ?scan = "[bss_example [65] (-60), bss_example [66] (-30), bss_example [65] (-50)]"
  let ?ps = "[profile_new [65] Sec_Wpa2Personal (Cred_Passphrase [1])]"
  have e: "best_known ?scan ?ps =
      Some (bss_example [65] (-50), profile_new [65] Sec_Wpa2Personal (Cred_Passphrase [1]))"
    by (simp add: best_known_def known_profile_def bss_example_def profile_new_def List.map_filter_def)
  show ?thesis using best_known_spec[of ?scan ?ps] e by (simp add: bss_example_def profile_new_def)
qed

text \<open>
  A roam is only to an access point of the same network that is not the current one and is
  at least the margin of 8 dB stronger, and it is the strongest such; near the top of the
  range the margin saturates instead of wrapping.
\<close>

theorem roam_target_spec:
  assumes "\<forall>b \<in> set scan. bss_signal_dbm b \<le> I32_MAX - 8"
  shows "roam_target scan ssid cur sig = Some b \<Longrightarrow>
    b \<in> set scan \<and> bss_ssid b = ssid \<and> bss_bssid b \<noteq> cur \<and> sig + 8 \<le> bss_signal_dbm b \<and>
    (\<forall>b' \<in> set scan. bss_ssid b' = ssid \<and> bss_bssid b' \<noteq> cur \<longrightarrow> bss_signal_dbm b' \<le> bss_signal_dbm b)"
proof -
  assume a: "roam_target scan ssid cur sig = Some b"
  note r = roam_target_SomeD[OF a]
  then have "sig + 8 \<le> bss_signal_dbm b"
    using assms by (force simp: i32_saturating_add_def ROAM_MARGIN_DB_def I32_MAX_def I32_MIN_def
        min_def max_def split: if_splits)
  moreover have "bss_signal_dbm b' \<le> bss_signal_dbm b"
    if "b' \<in> set scan" "bss_ssid b' = ssid" "bss_bssid b' \<noteq> cur" for b'
  proof (cases "bss_signal_dbm b' \<ge> i32_saturating_add sig ROAM_MARGIN_DB")
    case True
    then show ?thesis
      using max_by_key_max[OF a[unfolded roam_target_def Let_def]] that by simp
  next
    case False
    then show ?thesis using r by simp
  qed
  ultimately show ?thesis using r by blast
qed

definition bss_example2 :: "u8 \<Rightarrow> int \<Rightarrow> bss" where
  "bss_example2 n sig = (bss_example [65] sig) \<lparr> bss_bssid := [2, 0, 0, 0, 0, n] \<rparr>"

theorem roam_target_spec_witness:
  "bss_example2 3 (-50) \<in> set [bss_example2 1 (-70), bss_example2 2 (-65), bss_example2 3 (-50)] \<and>
   -70 + 8 \<le> bss_signal_dbm (bss_example2 3 (-50))"
proof -
  let ?scan = "[bss_example2 1 (-70), bss_example2 2 (-65), bss_example2 3 (-50)]"
  have "roam_target ?scan [65] [2, 0, 0, 0, 0, 1] (-70) = Some (bss_example2 3 (-50))"
    by (simp add: roam_target_def bss_example2_def bss_example_def i32_saturating_add_def
        I32_MAX_def I32_MIN_def ROAM_MARGIN_DB_def)
  moreover have "\<forall>b \<in> set ?scan. bss_signal_dbm b \<le> I32_MAX - 8"
    by (simp add: bss_example2_def bss_example_def I32_MAX_def)
  ultimately show ?thesis using roam_target_spec[of ?scan "[65]"] by blast
qed

text \<open>
  The suite negotiated with a passphrase is never weaker than the security the network was
  saved with: on a network with no 802.1X suite, the security of the suite chosen for a
  passphrase is accepted by the profile written when the network was classified from the
  same element, so a network is never locked out by its own advertised security. A
  WPA2/WPA3 network that offers SAE is always joined with SAE.
\<close>

theorem own_floor_accepts:
  assumes "choose_akm ent rsn (Some (Cred_Passphrase pw)) = Some akm"
    and "list_all (\<lambda>a. \<not> akm_is_enterprise a) (rsn_akms rsn)"
  shows "profile_accepts (profile_new ssid (classify (Some rsn) wpa privacy) cred)
           (negotiated_security akm mfp) \<and>
         (Sae \<in> set (rsn_akms rsn) \<longrightarrow> akm = Sae)"
proof (rule conjI; (rule impI)?)
  note a = choose_akm_SomeD[OF assms(1)]
  have k: "akm \<in> {Sae, PskSha256, Psk}"
    using a by (auto simp: satisfies_def runnable_def akm_kind_defs)
  have sec: "security_from_akms (rsn_akms rsn) (rsn_mfp_required rsn) =
     (if akm_is_sae akm
      then Some (if list_ex akm_is_psk (rsn_akms rsn) then Sec_Wpa2Wpa3Personal else Sec_Wpa3Personal)
      else if list_ex akm_is_sae (rsn_akms rsn) then Some Sec_Wpa2Wpa3Personal
      else if Akm_Owe \<in> set (rsn_akms rsn) then Some Sec_Owe
      else Some Sec_Wpa2Personal)"
    using a assms(2) k
    by (auto simp: security_from_akms_def Let_def list_ex_iff list_all_iff akm_kind_defs)
  show "profile_accepts (profile_new ssid (classify (Some rsn) wpa privacy) cred)
           (negotiated_security akm mfp)"
    using k
    by (auto simp: classify_def sec profile_accepts_def profile_new_def is_at_least_def
        security_floor_def strength_def negotiated_security_def akm_kind_defs)
next
  assume "Sae \<in> set (rsn_akms rsn)"
  then show "akm = Sae"
    using assms(1) by (auto simp: choose_akm_def AKM_PREFERENCE_def satisfies_def runnable_def
        akm_kind_defs split: if_splits)
qed

definition rsn_example :: "akm list \<Rightarrow> rsn_ie" where
  "rsn_example akms = \<lparr> rsn_version = 1, rsn_group_cipher = Ccmp128, rsn_pairwise_ciphers = [Ccmp128],
     rsn_akms = akms, rsn_capabilities = 0, rsn_mfp_capable = False, rsn_mfp_required = False,
     rsn_group_mgmt_cipher = None, rsn_raw = [48, 0] \<rparr>"

theorem own_floor_accepts_witness:
  "choose_akm False (rsn_example [Psk, Sae]) (Some (Cred_Passphrase [1])) = Some Sae \<and>
   profile_accepts
     (profile_new [65] (classify (Some (rsn_example [Psk, Sae])) None True) (Cred_Passphrase [1]))
     (negotiated_security Sae False)"
proof -
  have "choose_akm False (rsn_example [Psk, Sae]) (Some (Cred_Passphrase [1])) = Some Sae"
    by (simp add: choose_akm_def AKM_PREFERENCE_def satisfies_def runnable_def rsn_example_def
        akm_kind_defs)
  moreover have "list_all (\<lambda>a. \<not> akm_is_enterprise a) (rsn_akms (rsn_example [Psk, Sae]))"
    by (simp add: rsn_example_def akm_kind_defs)
  ultimately show ?thesis using own_floor_accepts by blast
qed

end
