(* ===== verification/Profile_Store.thy ===== *)
theory Profile_Store
  imports Policy
begin

text \<open>
  Saved networks on disk (\<^verbatim>\<open>src/crates/caw-core/src/profile.rs\<close>): the escaped file name of an
  SSID and its inverse, the string forms of the stored fields, and load, save and delete over
  the files of the profile directory.

  The directory is a map from file names to contents. A save is the list of file operations the
  code issues, so that an interruption after any of them, or in the middle of the write, is a
  state of the model. JSON itself is \<^verbatim>\<open>serde_json\<close>'s: \<open>to_json\<close> and \<open>from_json\<close> are arguments.
\<close>

section \<open>File names\<close>

definition json_suffix :: bytes where "json_suffix = [46, 106, 115, 111, 110]"
definition tmp_suffix :: bytes where "tmp_suffix = [46, 116, 109, 112]"

definition name_safe :: "u8 \<Rightarrow> bool" where
  "name_safe b \<longleftrightarrow> 65 \<le> b \<and> b \<le> 90 \<or> 97 \<le> b \<and> b \<le> 122 \<or> 48 \<le> b \<and> b \<le> 57 \<or> b = 45 \<or> b = 95"

definition hex_upper :: "u8 \<Rightarrow> u8" where
  "hex_upper n = (if n < 10 then 48 + n else 55 + n)"

definition hex_val :: "u8 \<Rightarrow> u8 option" where
  "hex_val c =
     (if 48 \<le> c \<and> c \<le> 57 then Some (c - 48)
      else if 65 \<le> c \<and> c \<le> 70 then Some (c - 55)
      else if 97 \<le> c \<and> c \<le> 102 then Some (c - 87)
      else None)"

text \<open>\<open>from_str_radix_16\<close> is \<^verbatim>\<open>u8::from_str_radix(s, 16)\<close> on two bytes; it admits a leading plus.\<close>

definition from_str_radix_16 :: "u8 \<Rightarrow> u8 \<Rightarrow> u8 option" where
  "from_str_radix_16 a b =
     (if a = 43 then hex_val b
      else Option.bind (hex_val a) (\<lambda>h. map_option (\<lambda>l. h * 16 + l) (hex_val b)))"

definition escape_byte :: "u8 \<Rightarrow> bytes" where
  "escape_byte b =
     (if name_safe b then [b] else [37, hex_upper (b div 16), hex_upper (b mod 16)])"

definition file_name :: "bytes \<Rightarrow> bytes" where
  "file_name ssid = concat (map escape_byte ssid) @ json_suffix"

fun unescape :: "bytes \<Rightarrow> bytes option" where
  "unescape [] = Some []"
| "unescape (c # rest) =
     (if name_safe c then map_option ((#) c) (unescape rest)
      else if c = 37 then
        (case rest of
           a # b # rest' \<Rightarrow>
             (case from_str_radix_16 a b of
                None \<Rightarrow> None
              | Some v \<Rightarrow> map_option ((#) v) (unescape rest'))
         | _ \<Rightarrow> None)
      else None)"

definition strip_suffix :: "bytes \<Rightarrow> bytes \<Rightarrow> bytes option" where
  "strip_suffix suf s =
     (if suffix suf s then Some (take (length s - length suf) s) else None)"

definition ssid_from_file_name :: "bytes \<Rightarrow> bytes option" where
  "ssid_from_file_name name =
     (case strip_suffix json_suffix name of
        None \<Rightarrow> None
      | Some stem \<Rightarrow>
          (case unescape stem of
             None \<Rightarrow> None
           | Some out \<Rightarrow> if out = [] then None else Some out))"

section \<open>Stored fields\<close>

definition KNOWN_SECURITY :: "security list" where
  "KNOWN_SECURITY = [Sec_Open, Sec_Wep, Sec_Wpa1Personal, Sec_Wpa1Enterprise, Sec_Wpa2Personal,
     Sec_Wpa3Personal, Sec_Wpa2Wpa3Personal, Sec_Wpa2Enterprise, Sec_Wpa3Enterprise, Sec_Owe]"

definition security_deserialize :: "string \<Rightarrow> security option" where
  "security_deserialize name = find (\<lambda>s. security_as_str s = name) KNOWN_SECURITY"

definition ssid_serialize :: "bytes \<Rightarrow> bytes option" where
  "ssid_serialize ssid = strip_suffix json_suffix (file_name ssid)"

definition ssid_deserialize :: "bytes \<Rightarrow> bytes option" where
  "ssid_deserialize escaped = ssid_from_file_name (escaped @ json_suffix)"

section \<open>The store\<close>

type_synonym fs = "bytes \<Rightarrow> bytes option"

datatype store_error = Store_Malformed | Store_EmptySsid

datatype fs_op = Fs_Create bytes | Fs_Write bytes bytes | Fs_Rename bytes bytes

fun fs_apply :: "fs_op \<Rightarrow> fs \<Rightarrow> fs" where
  "fs_apply (Fs_Create p) fs = fs(p \<mapsto> [])"
| "fs_apply (Fs_Write p bs) fs = (case fs p of None \<Rightarrow> fs | Some old \<Rightarrow> fs(p \<mapsto> old @ bs))"
| "fs_apply (Fs_Rename a b) fs = (case fs a of None \<Rightarrow> fs | Some c \<Rightarrow> (fs(a := None))(b \<mapsto> c))"

definition store_load ::
  "(bytes \<Rightarrow> profile option) \<Rightarrow> fs \<Rightarrow> bytes \<Rightarrow> store_error + profile option" where
  "store_load from_json fs ssid =
     (case fs (file_name ssid) of
        None \<Rightarrow> Inr None
      | Some contents \<Rightarrow>
          (case from_json contents of None \<Rightarrow> Inl Store_Malformed | Some p \<Rightarrow> Inr (Some p)))"

definition store_load_all :: "(bytes \<Rightarrow> profile option) \<Rightarrow> fs \<Rightarrow> bytes list \<Rightarrow> profile list" where
  "store_load_all from_json fs names =
     List.map_filter
       (\<lambda>name. if ssid_from_file_name name = None then None else Option.bind (fs name) from_json) names"

definition store_save_ops ::
  "(profile \<Rightarrow> bytes option) \<Rightarrow> profile \<Rightarrow> store_error + fs_op list" where
  "store_save_ops to_json p =
     (if pr_ssid p = [] then Inl Store_EmptySsid
      else case to_json p of
        None \<Rightarrow> Inl Store_Malformed
      | Some json \<Rightarrow>
          (let final_path = file_name (pr_ssid p);
               temp_path = final_path @ tmp_suffix
           in Inr [Fs_Create temp_path, Fs_Write temp_path json, Fs_Rename temp_path final_path]))"

definition store_delete :: "fs \<Rightarrow> bytes \<Rightarrow> bool \<times> fs" where
  "store_delete fs ssid =
     (case fs (file_name ssid) of
        Some _ \<Rightarrow> (True, fs(file_name ssid := None))
      | None \<Rightarrow> (False, fs))"

text \<open>
  \<open>interrupt k j ops\<close> is what has reached the disk when a save stops after \<open>k\<close> operations, or
  after \<open>j\<close> bytes of the write that comes next.
\<close>

definition interrupt :: "nat \<Rightarrow> nat \<Rightarrow> fs_op list \<Rightarrow> fs_op list" where
  "interrupt k j ops =
     take k ops @ (case drop k ops of Fs_Write p bs # _ \<Rightarrow> [Fs_Write p (take j bs)] | _ \<Rightarrow> [])"

section \<open>Lemmas on file names\<close>

lemma word_lt_16_cases:
  assumes "(n :: u8) < 16"
  shows "n \<in> {0, 1, 2, 3, 4, 5, 6, 7, 8, 9, 10, 11, 12, 13, 14, 15}"
proof -
  have "unat n < 16" using assms by (simp add: word_less_nat_alt)
  then have "unat n \<in> {0, 1, 2, 3, 4, 5, 6, 7, 8, 9, 10, 11, 12, 13, 14, 15}"
    by (simp only: insert_iff empty_iff) presburger
  then have "word_of_nat (unat n) \<in> (word_of_nat ` {0, 1, 2, 3, 4, 5, 6, 7, 8, 9, 10, 11, 12, 13, 14, 15} :: u8 set)"
    by blast
  then show ?thesis by simp
qed

lemma hex_val_upper: "n < 16 \<Longrightarrow> hex_val (hex_upper n) = Some n"
  by (drule word_lt_16_cases, elim insertE emptyE) (simp_all add: hex_val_def hex_upper_def)

lemma hex_upper_safe: "n < 16 \<Longrightarrow> name_safe (hex_upper n)"
  by (drule word_lt_16_cases, elim insertE emptyE) (simp_all add: name_safe_def hex_upper_def)

lemma hex_upper_not_plus: "n < 16 \<Longrightarrow> hex_upper n \<noteq> 43"
  by (drule word_lt_16_cases, elim insertE emptyE) (simp_all add: hex_upper_def)

lemma nibbles: "(b :: u8) div 16 < 16" "b mod 16 < 16"
proof -
  have "unat (b div 16) < 16"
    using unat_u8_less[of b] by (simp add: unat_div div_less_iff_less_mult)
  then show "b div 16 < 16" by (simp add: word_less_nat_alt)
  have "unat (b mod 16) < 16" by (simp add: unat_mod)
  then show "b mod 16 < 16" by (simp add: word_less_nat_alt)
qed

lemma unescape_escape: "unescape (concat (map escape_byte ssid)) = Some ssid"
proof (induction ssid)
  case (Cons b ssid)
  have "from_str_radix_16 (hex_upper (b div 16)) (hex_upper (b mod 16)) = Some b"
    using nibbles[of b] by (simp add: from_str_radix_16_def hex_val_upper hex_upper_not_plus div_mult_mod_eq)
  then show ?case using Cons.IH by (simp add: escape_byte_def name_safe_def)
qed simp

lemma strip_json [simp]: "strip_suffix json_suffix (s @ json_suffix) = Some s"
  by (simp add: strip_suffix_def suffix_def)

lemma tmp_suffix_ne [simp]: "tmp_suffix \<noteq> []"
  by (simp add: tmp_suffix_def)

lemma ssid_from_file_name_inverse: "ssid \<noteq> [] \<Longrightarrow> ssid_from_file_name (file_name ssid) = Some ssid"
  by (simp add: ssid_from_file_name_def file_name_def unescape_escape)

lemma file_name_inj: "file_name s = file_name t \<longleftrightarrow> s = t"
proof
  assume "file_name s = file_name t"
  then have "unescape (concat (map escape_byte s)) = unescape (concat (map escape_byte t))"
    by (simp add: file_name_def)
  then show "s = t" by (simp add: unescape_escape)
qed simp

lemma tmp_not_file_name: "file_name s @ tmp_suffix \<noteq> file_name t"
proof
  assume "file_name s @ tmp_suffix = file_name t"
  then have "last (file_name s @ tmp_suffix) = last (file_name t)" by simp
  then show False by (simp add: file_name_def json_suffix_def tmp_suffix_def)
qed

lemma tmp_not_profile: "ssid_from_file_name (file_name s @ tmp_suffix) = None"
proof -
  have "\<not> suffix json_suffix (file_name s @ tmp_suffix)"
    by (auto simp: suffix_def json_suffix_def tmp_suffix_def)
  then show ?thesis by (simp add: ssid_from_file_name_def strip_suffix_def)
qed

lemma escape_byte_chars: "c \<in> set (escape_byte b) \<Longrightarrow> name_safe c \<or> c = 37"
  using nibbles[of b] by (auto simp: escape_byte_def hex_upper_safe split: if_splits)

section \<open>Properties\<close>

text \<open>
  The file name of an SSID is a safe one and gives the SSID back: it holds only letters,
  digits, minus, underscore, percent and dot, so no slash, no NUL; it does not begin with a dot;
  distinct SSIDs have distinct names; and the inverse returns the SSID.
\<close>

theorem file_name_roundtrip:
  assumes "ssid \<noteq> []"
  shows "ssid_from_file_name (file_name ssid) = Some ssid \<and>
    (\<forall>t. file_name t = file_name ssid \<longrightarrow> t = ssid) \<and>
    list_all (\<lambda>c. name_safe c \<or> c = 37 \<or> c = 46) (file_name ssid) \<and> hd (file_name ssid) \<noteq> 46"
proof (intro conjI)
  show "list_all (\<lambda>c. name_safe c \<or> c = 37 \<or> c = 46) (file_name ssid)"
    using escape_byte_chars by (auto simp: file_name_def list_all_iff json_suffix_def name_safe_def)
  obtain b rest where b: "ssid = b # rest" using assms by (cases ssid) auto
  show "hd (file_name ssid) \<noteq> 46"
    by (auto simp: b file_name_def escape_byte_def name_safe_def)
qed (use assms in \<open>simp_all add: ssid_from_file_name_inverse file_name_inj\<close>)

theorem file_name_roundtrip_witness:
  "ssid_from_file_name (file_name [67, 47, 0, 255]) = Some [67, 47, 0, 255] \<and>
   file_name [67, 47, 0, 255] = [67, 37, 50, 70, 37, 48, 48, 37, 70, 70] @ json_suffix"
  using file_name_roundtrip[of "[67, 47, 0, 255]"]
  by (simp add: file_name_def escape_byte_def name_safe_def hex_upper_def)

text \<open>
  The name \<^verbatim>\<open>%+5.json\<close> is not one \<^verbatim>\<open>file_name\<close> writes, but the inverse accepts it.
\<close>

lemma ssid_from_file_name_accepts_foreign:
  "ssid_from_file_name ([37, 43, 53] @ json_suffix) = Some [5] \<and>
   (\<forall>s. file_name s \<noteq> [37, 43, 53] @ json_suffix)"
proof -
  have f: "ssid_from_file_name ([37, 43, 53] @ json_suffix) = Some [5]"
    unfolding ssid_from_file_name_def strip_json
    by (simp add: name_safe_def from_str_radix_16_def hex_val_def)
  have "file_name s \<noteq> [37, 43, 53] @ json_suffix" for s
  proof
    assume e: "file_name s = [37, 43, 53] @ json_suffix"
    then have "s \<noteq> []" by (auto simp: file_name_def)
    then have "s = [5]" using ssid_from_file_name_inverse[of s] f e by simp
    then show False using e by (simp add: file_name_def escape_byte_def name_safe_def hex_upper_def)
  qed
  then show ?thesis using f by blast
qed

lemma interrupt_save:
  assumes "store_save_ops to_json p = Inr ops"
  shows "\<exists>json. to_json p = Some json \<and>
     (fold fs_apply (interrupt k j ops) fs = fs \<or>
      (\<exists>c. fold fs_apply (interrupt k j ops) fs = fs(file_name (pr_ssid p) @ tmp_suffix \<mapsto> c)) \<or>
      fold fs_apply (interrupt k j ops) fs =
        (fs(file_name (pr_ssid p) @ tmp_suffix := None))(file_name (pr_ssid p) \<mapsto> json))"
proof -
  let ?tmp = "file_name (pr_ssid p) @ tmp_suffix"
  obtain json where j: "to_json p = Some json" and
    ops: "ops = [Fs_Create ?tmp, Fs_Write ?tmp json, Fs_Rename ?tmp (file_name (pr_ssid p))]"
    using assms by (auto simp: store_save_ops_def Let_def split: if_splits option.splits)
  consider "k = 0" | "k = 1" | "k = 2" | "k \<ge> 3" by linarith
  then show ?thesis
    by cases (auto simp: j ops interrupt_def numeral_2_eq_2 numeral_3_eq_3 Suc_le_eq split: list.splits)
qed

text \<open>
  C40. Saving a profile is atomic: wherever a save is interrupted, every other network still
  loads as it did, the saved network loads as before or as the new profile, never as a torn
  file, and the listing of profiles never picks the temporary up. A save that completes is
  what the next load returns.
\<close>

theorem save_atomic:
  assumes ops: "store_save_ops to_json p = Inr ops"
    and json: "\<And>q js. to_json q = Some js \<Longrightarrow> from_json js = Some q"
  shows "store_load from_json (fold fs_apply (interrupt k j ops) fs) s \<in>
      {store_load from_json fs s} \<union> (if s = pr_ssid p then {Inr (Some p)} else {}) \<and>
    store_load_all from_json (fold fs_apply (interrupt k j ops) fs) [file_name (pr_ssid p) @ tmp_suffix] = [] \<and>
    store_load from_json (fold fs_apply ops fs) (pr_ssid p) = Inr (Some p)"
proof (intro conjI)
  let ?tmp = "file_name (pr_ssid p) @ tmp_suffix"
  obtain js where js: "to_json p = Some js" and
    d: "fold fs_apply (interrupt k j ops) fs = fs \<or>
        (\<exists>c. fold fs_apply (interrupt k j ops) fs = fs(?tmp \<mapsto> c)) \<or>
        fold fs_apply (interrupt k j ops) fs = (fs(?tmp := None))(file_name (pr_ssid p) \<mapsto> js)"
    using interrupt_save[OF ops, of k j fs] by blast
  have ne: "file_name t \<noteq> ?tmp" for t using tmp_not_file_name[of "pr_ssid p" t] by auto
  show "store_load from_json (fold fs_apply (interrupt k j ops) fs) s \<in>
      {store_load from_json fs s} \<union> (if s = pr_ssid p then {Inr (Some p)} else {})"
    using d json[OF js] by (auto simp: store_load_def ne file_name_inj)
  show "store_load_all from_json (fold fs_apply (interrupt k j ops) fs) [?tmp] = []"
    by (simp add: store_load_all_def List.map_filter_def tmp_not_profile)
  show "store_load from_json (fold fs_apply ops fs) (pr_ssid p) = Inr (Some p)"
    using ops js json[OF js] by (auto simp: store_save_ops_def Let_def store_load_def split: if_splits)
qed

definition json_example_profile :: profile where
  "json_example_profile = profile_new [65] Sec_Wpa2Personal (Cred_Passphrase [1])"

definition json_example :: "profile \<Rightarrow> bytes option" where
  "json_example p = (if p = json_example_profile then Some [123, 125] else None)"

definition json_example_inv :: "bytes \<Rightarrow> profile option" where
  "json_example_inv bs = (if bs = [123, 125] then Some json_example_profile else None)"

theorem save_atomic_witness:
  "\<exists>ops. store_save_ops json_example json_example_profile = Inr ops \<and>
     store_load json_example_inv (fold fs_apply ops (\<lambda>_. None)) [65] = Inr (Some json_example_profile) \<and>
     store_load json_example_inv (fold fs_apply (interrupt 1 1 ops) (\<lambda>_. None)) [66] = Inr None"
proof -
  obtain ops where ops: "store_save_ops json_example json_example_profile = Inr ops"
    by (simp add: store_save_ops_def Let_def json_example_def json_example_profile_def profile_new_def)
  have j: "json_example q = Some js \<Longrightarrow> json_example_inv js = Some q" for q js
    by (auto simp: json_example_def json_example_inv_def split: if_splits)
  show ?thesis
    using ops save_atomic[OF ops j, where fs = "\<lambda>_. None" and s = "[66]" and k = 1 and j = 1]
    by (auto simp: json_example_profile_def profile_new_def store_load_def)
qed

lemma delete_load:
  "store_load from_json (snd (store_delete fs ssid)) s =
     (if s = ssid then Inr None else store_load from_json fs s)"
  by (auto simp: store_delete_def store_load_def file_name_inj split: option.splits)

lemma security_deserialize_inverse: "security_deserialize (security_as_str s) = Some s"
  by (cases s) (simp_all add: security_deserialize_def KNOWN_SECURITY_def security_as_str_def)

lemma ssid_deserialize_inverse:
  "ssid \<noteq> [] \<Longrightarrow> \<exists>e. ssid_serialize ssid = Some e \<and> ssid_deserialize e = Some ssid"
  by (simp add: ssid_serialize_def ssid_deserialize_def file_name_def ssid_from_file_name_def
      unescape_escape)

end
