(* ===== verification/Crypto.thy ===== *)
theory Crypto
  imports Ieee80211
begin

text \<open>
  Key derivation, the EAPOL-Key MIC, key unwrapping and the pre-shared-key method
  (\<^verbatim>\<open>src/crates/caw-crypto/src/{lib,kdf,keywrap,mic,psk}.rs\<close>).

  The primitives themselves (HMAC, AES-CMAC, AES key wrap, PBKDF2) come from third-party
  crates. They are the fields of the record \<open>prims\<close>, an argument of every definition that calls
  them; \<open>prims_ok\<close> states the output lengths their documentation fixes.
\<close>

section \<open>Primitives and shared types\<close>

record prims =
  hmac_sha1 :: "bytes \<Rightarrow> bytes \<Rightarrow> bytes"
  hmac_sha256 :: "bytes \<Rightarrow> bytes \<Rightarrow> bytes"
  aes_cmac :: "bytes \<Rightarrow> bytes \<Rightarrow> bytes"
  aes_kw_unwrap :: "bytes \<Rightarrow> bytes \<Rightarrow> bytes option"
  pbkdf2_sha1 :: "bytes \<Rightarrow> bytes \<Rightarrow> nat \<Rightarrow> nat \<Rightarrow> bytes"

definition prims_ok :: "prims \<Rightarrow> bool" where
  "prims_ok P \<longleftrightarrow>
     (\<forall>k m. length (hmac_sha1 P k m) = 20) \<and> (\<forall>k m. length (hmac_sha256 P k m) = 32) \<and>
     (\<forall>k m. length (aes_cmac P k m) = 16) \<and>
     (\<forall>k w out. aes_kw_unwrap P k w = Some out \<longrightarrow> length out = length w - 8) \<and>
     (\<forall>p s i n. length (pbkdf2_sha1 P p s i n) = n)"

datatype crypto_error = Ce_MicMismatch | Ce_Malformed | Ce_UnsupportedAkm | Ce_AuthFailed
  | Ce_UnsupportedVersion | Ce_KeyUnwrapFailed | Ce_Protocol

record ptk =
  ptk_kck :: bytes
  ptk_kek :: bytes
  ptk_tk :: bytes

datatype auth_stage = Local | PreAssoc | PostAssoc

datatype pstep = Step_Send bytes | Step_Wait | Step_Done bytes

record auth_ctx =
  ac_ssid :: bytes
  ac_bssid :: bytes
  ac_own_mac :: bytes
  ac_akm :: akm

section \<open>Key derivation\<close>

text \<open>The ASCII label \<^verbatim>\<open>"Pairwise key expansion"\<close>.\<close>

definition PTK_LABEL :: bytes where
  "PTK_LABEL = [80, 97, 105, 114, 119, 105, 115, 101, 32, 107, 101, 121, 32, 101, 120, 112, 97, 110,
     115, 105, 111, 110]"

definition PTK_LEN :: nat where "PTK_LEN = 48"

definition prf_sha1 :: "prims \<Rightarrow> bytes \<Rightarrow> bytes \<Rightarrow> bytes \<Rightarrow> nat \<Rightarrow> bytes" where
  "prf_sha1 P key label data n =
     concat (map (\<lambda>i. take (min 20 (n - 20 * i)) (hmac_sha1 P key (label @ [0] @ data @ [of_nat i])))
       [0..<(n + 19) div 20])"

definition kdf_sha256 :: "prims \<Rightarrow> bytes \<Rightarrow> bytes \<Rightarrow> bytes \<Rightarrow> nat \<Rightarrow> bytes option" where
  "kdf_sha256 P key label data n =
     (if n * 8 < 2 ^ 16 then
        Some (concat (map (\<lambda>i. take (min 32 (n - 32 * i))
            (hmac_sha256 P key
               (u16_le (of_nat i + 1) @ label @ data @ u16_le (of_nat (n * 8)))))
          [0..<(n + 31) div 32]))
      else None)"

fun bytes_less :: "bytes \<Rightarrow> bytes \<Rightarrow> bool" where
  "bytes_less [] ys = (ys \<noteq> [])"
| "bytes_less (x # xs) [] = False"
| "bytes_less (x # xs) (y # ys) = (x < y \<or> x = y \<and> bytes_less xs ys)"

datatype ptk_hash = PtkHash_Sha1 | PtkHash_Sha256

definition ptk_hash_of :: "akm \<Rightarrow> crypto_error + ptk_hash" where
  "ptk_hash_of akm =
     (if akm = Dot1x \<or> akm = Psk then Inr PtkHash_Sha1
      else if akm = Dot1xSha256 \<or> akm = PskSha256 \<or> akm = Sae \<or> akm = Akm_Owe
      then Inr PtkHash_Sha256
      else Inl Ce_UnsupportedAkm)"

definition ptk_data :: "bytes \<Rightarrow> bytes \<Rightarrow> bytes \<Rightarrow> bytes \<Rightarrow> bytes" where
  "ptk_data aa spa anonce snonce =
     (let (addr_lo, addr_hi) = (if bytes_less aa spa then (aa, spa) else (spa, aa));
          (nonce_lo, nonce_hi) = (if bytes_less anonce snonce then (anonce, snonce) else (snonce, anonce))
      in addr_lo @ addr_hi @ nonce_lo @ nonce_hi)"

definition derive_ptk ::
  "prims \<Rightarrow> bytes \<Rightarrow> akm \<Rightarrow> bytes \<Rightarrow> bytes \<Rightarrow> bytes \<Rightarrow> bytes \<Rightarrow> (crypto_error + ptk) option" where
  "derive_ptk P pmk akm aa spa anonce snonce =
     (case ptk_hash_of akm of
        Inl e \<Rightarrow> Some (Inl e)
      | Inr hash \<Rightarrow>
          (let data = ptk_data aa spa anonce snonce in
           case (case hash of
                   PtkHash_Sha1 \<Rightarrow> Some (prf_sha1 P pmk PTK_LABEL data PTK_LEN)
                 | PtkHash_Sha256 \<Rightarrow> kdf_sha256 P pmk PTK_LABEL data PTK_LEN) of
             None \<Rightarrow> None
           | Some out \<Rightarrow>
               Some (Inr \<lparr> ptk_kck = take 16 out, ptk_kek = take 16 (drop 16 out),
                          ptk_tk = take 16 (drop 32 out) \<rparr>)))"

section \<open>The MIC\<close>

datatype kdv = HmacSha1 | AesCmac | AkmDefinedCmac

definition MIC_LEN :: nat where "MIC_LEN = 16"

definition kdv_from_key_info :: "u16 \<Rightarrow> crypto_error + kdv" where
  "kdv_from_key_info key_info =
     (let v = key_info AND 7 in
      if v = 2 then Inr HmacSha1 else if v = 3 then Inr AesCmac else Inl Ce_UnsupportedVersion)"

definition kdv_from_key_info_for :: "u16 \<Rightarrow> akm \<Rightarrow> crypto_error + kdv" where
  "kdv_from_key_info_for key_info akm =
     (if key_info AND 7 = 0 \<and> akm_is_sae akm then Inr AkmDefinedCmac else kdv_from_key_info key_info)"

definition kdv_bits :: "kdv \<Rightarrow> u16" where
  "kdv_bits v = (case v of HmacSha1 \<Rightarrow> 2 | AesCmac \<Rightarrow> 3 | AkmDefinedCmac \<Rightarrow> 0)"

definition compute_mic :: "prims \<Rightarrow> bytes \<Rightarrow> kdv \<Rightarrow> bytes \<Rightarrow> bytes" where
  "compute_mic P kck version frame =
     (case version of
        HmacSha1 \<Rightarrow> take MIC_LEN (hmac_sha1 P kck frame)
      | AesCmac \<Rightarrow> aes_cmac P kck frame
      | AkmDefinedCmac \<Rightarrow> aes_cmac P kck frame)"

definition verify_mic :: "prims \<Rightarrow> bytes \<Rightarrow> kdv \<Rightarrow> bytes \<Rightarrow> bytes \<Rightarrow> crypto_error + unit" where
  "verify_mic P kck version frame mic =
     (if length mic \<noteq> MIC_LEN then Inl Ce_Malformed
      else if compute_mic P kck version frame = mic then Inr ()
      else Inl Ce_MicMismatch)"

section \<open>Key unwrapping\<close>

definition ICV_LEN :: nat where "ICV_LEN = 8"

definition unwrap_key_data :: "prims \<Rightarrow> bytes \<Rightarrow> bytes \<Rightarrow> crypto_error + bytes" where
  "unwrap_key_data P kek wrapped =
     (if length wrapped < 2 * ICV_LEN \<or> length wrapped mod ICV_LEN \<noteq> 0 then Inl Ce_Malformed
      else case aes_kw_unwrap P kek wrapped of
        None \<Rightarrow> Inl Ce_KeyUnwrapFailed
      | Some out \<Rightarrow> Inr out)"

section \<open>Pre-shared keys\<close>

definition PSK_ITERATIONS :: nat where "PSK_ITERATIONS = 4096"

definition derive_pmk :: "prims \<Rightarrow> bytes \<Rightarrow> bytes \<Rightarrow> bytes" where
  "derive_pmk P passphrase ssid = pbkdf2_sha1 P passphrase ssid PSK_ITERATIONS 32"

definition psk_start :: "prims \<Rightarrow> bytes \<Rightarrow> auth_ctx \<Rightarrow> crypto_error + pstep" where
  "psk_start P passphrase ctx = Inr (Step_Done (derive_pmk P passphrase (ac_ssid ctx)))"

definition psk_on_frame :: "bytes \<Rightarrow> auth_ctx \<Rightarrow> bytes \<Rightarrow> crypto_error + pstep" where
  "psk_on_frame passphrase ctx frame = Inl Ce_Protocol"

definition psk_on_timeout :: "bytes \<Rightarrow> auth_ctx \<Rightarrow> crypto_error + pstep" where
  "psk_on_timeout passphrase ctx = Inl Ce_Protocol"

section \<open>Lemmas\<close>

lemma bytes_less_irrefl [simp]: "\<not> bytes_less xs xs"
  by (induction xs) auto

lemma bytes_less_antisym: "bytes_less xs ys \<Longrightarrow> \<not> bytes_less ys xs"
proof (induction xs ys rule: bytes_less.induct)
  case (1 ys)
  then show ?case by (cases ys) auto
qed auto

lemma bytes_less_total: "bytes_less xs ys \<or> xs = ys \<or> bytes_less ys xs"
proof (induction xs ys rule: bytes_less.induct)
  case (1 ys)
  then show ?case by (cases ys) auto
next
  case (3 x xs y ys)
  then show ?case using less_linear[of x y] by auto
qed simp

lemma ordered_pair_sym:
  "(if bytes_less a b then (a, b) else (b, a)) = (if bytes_less b a then (b, a) else (a, b))"
  using bytes_less_total[of a b] bytes_less_antisym[of a b] by auto

lemma ptk_data_sym: "ptk_data aa spa an sn = ptk_data spa aa sn an"
  unfolding ptk_data_def by (subst (1 2) ordered_pair_sym) (rule refl)

lemma length_ptk_data:
  "length aa = 6 \<Longrightarrow> length spa = 6 \<Longrightarrow> length an = 32 \<Longrightarrow> length sn = 32 \<Longrightarrow>
   length (ptk_data aa spa an sn) = 76"
  by (simp add: ptk_data_def)

lemma length_prf_sha1:
  "prims_ok P \<Longrightarrow> length (prf_sha1 P key label data PTK_LEN) = 48"
  by (simp add: prf_sha1_def PTK_LEN_def prims_ok_def upt_rec length_concat)

lemma kdf_ptk_len:
  "prims_ok P \<Longrightarrow> \<exists>out. kdf_sha256 P key label data PTK_LEN = Some out \<and> length out = 48"
  by (simp add: kdf_sha256_def PTK_LEN_def prims_ok_def upt_rec length_concat)

definition ptk_wf :: "ptk \<Rightarrow> bool" where
  "ptk_wf k \<longleftrightarrow> length (ptk_kck k) = 16 \<and> length (ptk_kek k) = 16 \<and> length (ptk_tk k) = 16"

definition ptk_akm :: "akm \<Rightarrow> bool" where
  "ptk_akm akm \<longleftrightarrow> akm \<in> {Dot1x, Psk, Dot1xSha256, PskSha256, Sae, Akm_Owe}"

lemma ptk_hash_of_Inl: "(\<exists>e. ptk_hash_of akm = Inl e) \<longleftrightarrow> \<not> ptk_akm akm"
  by (auto simp: ptk_hash_of_def ptk_akm_def split: if_splits)

lemma derive_ptk_cases:
  assumes "prims_ok P"
  shows "if ptk_akm akm
    then \<exists>k. derive_ptk P pmk akm aa spa an sn = Some (Inr k) \<and> ptk_wf k
    else derive_ptk P pmk akm aa spa an sn = Some (Inl Ce_UnsupportedAkm)"
proof -
  have s: "length (prf_sha1 P pmk PTK_LABEL (ptk_data aa spa an sn) PTK_LEN) = 48"
    by (rule length_prf_sha1[OF assms])
  obtain out where "kdf_sha256 P pmk PTK_LABEL (ptk_data aa spa an sn) PTK_LEN = Some out"
    "length out = 48"
    using kdf_ptk_len[OF assms] by blast
  then show ?thesis using s
    by (auto simp: derive_ptk_def ptk_hash_of_def ptk_akm_def ptk_wf_def Let_def split: ptk_hash.splits)
qed

lemma derive_ptk_sym:
  "derive_ptk P pmk akm aa spa anonce snonce = derive_ptk P pmk akm spa aa snonce anonce"
  unfolding derive_ptk_def by (subst ptk_data_sym) (rule refl)

lemma derive_ptk_not_None: "prims_ok P \<Longrightarrow> derive_ptk P pmk akm aa spa an sn \<noteq> None"
  using derive_ptk_cases[of P akm pmk aa spa an sn] by (auto split: if_splits)

lemma derive_ptk_wf: "prims_ok P \<Longrightarrow> derive_ptk P pmk akm aa spa an sn = Some (Inr k) \<Longrightarrow> ptk_wf k"
  using derive_ptk_cases[of P akm pmk aa spa an sn] by (auto split: if_splits)

lemma length_compute_mic [simp]: "prims_ok P \<Longrightarrow> length (compute_mic P kck v f) = 16"
  by (auto simp: compute_mic_def prims_ok_def MIC_LEN_def split: kdv.split)

lemma verify_compute: "prims_ok P \<Longrightarrow> verify_mic P kck v f (compute_mic P kck v f) = Inr ()"
  by (simp add: verify_mic_def MIC_LEN_def)

lemma verify_mic_iff:
  "verify_mic P kck v f mic = Inr () \<longleftrightarrow> length mic = 16 \<and> mic = compute_mic P kck v f"
  by (auto simp: verify_mic_def MIC_LEN_def)

lemma kdv_of_bits: "kdv_from_key_info_for (kdv_bits v) akm = Inr v \<longleftrightarrow> v = AkmDefinedCmac \<longrightarrow> akm_is_sae akm"
  by (cases v) (auto simp: kdv_from_key_info_for_def kdv_from_key_info_def kdv_bits_def)

text \<open>
  A concrete instance of the primitives, for evaluating the development on examples: every
  output is a constant of the documented length, and unwrapping drops the check value.
\<close>

definition toy_prims :: prims where
  "toy_prims = \<lparr> hmac_sha1 = (\<lambda>k m. replicate 20 1), hmac_sha256 = (\<lambda>k m. replicate 32 2),
     aes_cmac = (\<lambda>k m. replicate 16 3), aes_kw_unwrap = (\<lambda>k w. Some (drop 8 w)),
     pbkdf2_sha1 = (\<lambda>p s i n. replicate n 4) \<rparr>"

lemma toy_prims_ok [simp]: "prims_ok toy_prims"
  by (simp add: prims_ok_def toy_prims_def)

section \<open>Properties\<close>

text \<open>
  Both ends of an association derive the same pairwise key: swapping who is
  authenticator and who supplicant, addresses and nonces together, does not change the
  derivation; it never panics, it fails exactly for the suites this hierarchy does not cover,
  and the three keys it returns have 16 octets each.
\<close>

theorem derive_ptk_symmetric:
  assumes "prims_ok P"
  shows "derive_ptk P pmk akm aa spa anonce snonce = derive_ptk P pmk akm spa aa snonce anonce \<and>
    (if ptk_akm akm
     then \<exists>k. derive_ptk P pmk akm aa spa anonce snonce = Some (Inr k) \<and> ptk_wf k
     else derive_ptk P pmk akm aa spa anonce snonce = Some (Inl Ce_UnsupportedAkm))"
  using derive_ptk_sym derive_ptk_cases[OF assms] by blast

theorem derive_ptk_symmetric_witness:
  "derive_ptk toy_prims [1] Psk [0, 0, 0, 0, 0, 1] [0, 0, 0, 0, 0, 2] [9] [8] =
   derive_ptk toy_prims [1] Psk [0, 0, 0, 0, 0, 2] [0, 0, 0, 0, 0, 1] [8] [9]"
  using derive_ptk_symmetric[OF toy_prims_ok] by blast

end
