(* ===== verification/Eapol_Key.thy ===== *)
theory Eapol_Key
  imports Crypto
begin

text \<open>
  EAPOL framing (\<^verbatim>\<open>src/crates/caw-eapol/src/lib.rs\<close>, lines 50 to 113) and the EAPOL-Key
  descriptor with the Key Data field it carries (\<^verbatim>\<open>src/crates/caw-eapol/src/key.rs\<close>).

  The parser reads fixed offsets, guarded once by the minimum body size, as the source does;
  the encoder appends the fields in order. The \<^verbatim>\<open>expect\<close> of an encoder on a body that does not
  fit a 16-bit length is the result \<open>None\<close>.
\<close>

section \<open>Errors and packet types\<close>

datatype eapol_error = Ee_Malformed | Ee_Crypto crypto_error | Ee_Rejected | Ee_Io
  | Ee_UnsupportedPacketType u8 | Ee_UnsupportedEapCode u8 | Ee_UnsupportedDescriptor u8
  | Ee_UnexpectedMessage | Ee_ReplayedCounter | Ee_NonceMismatch | Ee_RsnMissing | Ee_RsnMismatch
  | Ee_GtkMissing | Ee_Timeout | Ee_FragmentOutOfOrder | Ee_FragmentTooLarge | Ee_PrematureSuccess
  | Ee_Tls | Ee_NoCryptoProvider | Ee_CertificateStore | Ee_NoPeer | Ee_ShortSend

datatype packet_type = Pt_Eap | Pt_Start | Pt_Logoff | Pt_Key

definition packet_type_from_u8 :: "u8 \<Rightarrow> eapol_error + packet_type" where
  "packet_type_from_u8 v =
     (if v = 0 then Inr Pt_Eap else if v = 1 then Inr Pt_Start else if v = 2 then Inr Pt_Logoff
      else if v = 3 then Inr Pt_Key else Inl (Ee_UnsupportedPacketType v))"

definition packet_type_u8 :: "packet_type \<Rightarrow> u8" where
  "packet_type_u8 t = (case t of Pt_Eap \<Rightarrow> 0 | Pt_Start \<Rightarrow> 1 | Pt_Logoff \<Rightarrow> 2 | Pt_Key \<Rightarrow> 3)"

section \<open>EAPOL frames\<close>

definition EAPOL_HDR_LEN :: nat where "EAPOL_HDR_LEN = 4"

record eapol =
  ea_version :: u8
  ea_packet_type :: packet_type
  ea_body :: bytes
  ea_raw :: bytes

definition eapol_parse :: "bytes \<Rightarrow> eapol_error + eapol" where
  "eapol_parse buf =
     (case buf of
        version # packet_type # hi # lo # rest \<Rightarrow>
          (let body_len = unat (from_be16 hi lo) in
           if length rest < body_len then Inl Ee_Malformed
           else case packet_type_from_u8 packet_type of
             Inl e \<Rightarrow> Inl e
           | Inr pt \<Rightarrow> Inr \<lparr> ea_version = version, ea_packet_type = pt,
                            ea_body = take body_len rest,
                            ea_raw = take (EAPOL_HDR_LEN + body_len) buf \<rparr>)
      | _ \<Rightarrow> Inl Ee_Malformed)"

definition eapol_encode :: "u8 \<Rightarrow> packet_type \<Rightarrow> bytes \<Rightarrow> bytes option" where
  "eapol_encode version packet_type body =
     (if length body < 2 ^ 16 then
        Some ([version, packet_type_u8 packet_type] @ u16_be (of_nat (length body)) @ body)
      else None)"

section \<open>Key Information\<close>

definition KI_PAIRWISE :: u16 where "KI_PAIRWISE = push_bit 3 1"
definition KI_INSTALL :: u16 where "KI_INSTALL = push_bit 6 1"
definition KI_ACK :: u16 where "KI_ACK = push_bit 7 1"
definition KI_MIC :: u16 where "KI_MIC = push_bit 8 1"
definition KI_SECURE :: u16 where "KI_SECURE = push_bit 9 1"
definition KI_ERROR :: u16 where "KI_ERROR = push_bit 10 1"
definition KI_REQUEST :: u16 where "KI_REQUEST = push_bit 11 1"
definition KI_ENCRYPTED :: u16 where "KI_ENCRYPTED = push_bit 12 1"

lemmas ki_masks = KI_PAIRWISE_def KI_INSTALL_def KI_ACK_def KI_MIC_def KI_SECURE_def KI_ERROR_def
  KI_REQUEST_def KI_ENCRYPTED_def

definition ki_version :: "u16 \<Rightarrow> akm \<Rightarrow> eapol_error + kdv" where
  "ki_version ki akm = map_sum Ee_Crypto id (kdv_from_key_info_for ki akm)"

definition ki_pairwise :: "u16 \<Rightarrow> bool" where "ki_pairwise ki \<longleftrightarrow> ki AND KI_PAIRWISE \<noteq> 0"
definition ki_install :: "u16 \<Rightarrow> bool" where "ki_install ki \<longleftrightarrow> ki AND KI_INSTALL \<noteq> 0"
definition ki_ack :: "u16 \<Rightarrow> bool" where "ki_ack ki \<longleftrightarrow> ki AND KI_ACK \<noteq> 0"
definition ki_mic :: "u16 \<Rightarrow> bool" where "ki_mic ki \<longleftrightarrow> ki AND KI_MIC \<noteq> 0"
definition ki_secure :: "u16 \<Rightarrow> bool" where "ki_secure ki \<longleftrightarrow> ki AND KI_SECURE \<noteq> 0"
definition ki_error :: "u16 \<Rightarrow> bool" where "ki_error ki \<longleftrightarrow> ki AND KI_ERROR \<noteq> 0"
definition ki_request :: "u16 \<Rightarrow> bool" where "ki_request ki \<longleftrightarrow> ki AND KI_REQUEST \<noteq> 0"
definition ki_encrypted :: "u16 \<Rightarrow> bool" where "ki_encrypted ki \<longleftrightarrow> ki AND KI_ENCRYPTED \<noteq> 0"

lemmas ki_tests = ki_pairwise_def ki_install_def ki_ack_def ki_mic_def ki_secure_def ki_error_def
  ki_request_def ki_encrypted_def

section \<open>The key frame\<close>

definition DESCRIPTOR_TYPE_RSN :: u8 where "DESCRIPTOR_TYPE_RSN = 2"
definition OFF_KEY_INFO :: nat where "OFF_KEY_INFO = 1"
definition OFF_KEY_LENGTH :: nat where "OFF_KEY_LENGTH = 3"
definition OFF_REPLAY_COUNTER :: nat where "OFF_REPLAY_COUNTER = 5"
definition OFF_KEY_NONCE :: nat where "OFF_KEY_NONCE = 13"
definition OFF_KEY_IV :: nat where "OFF_KEY_IV = 45"
definition OFF_KEY_RSC :: nat where "OFF_KEY_RSC = 61"
definition OFF_KEY_MIC :: nat where "OFF_KEY_MIC = 77"
definition OFF_KEY_DATA_LEN :: nat where "OFF_KEY_DATA_LEN = 93"
definition BODY_MIN :: nat where "BODY_MIN = 95"
definition MIC_OFFSET :: nat where "MIC_OFFSET = EAPOL_HDR_LEN + OFF_KEY_MIC"

lemmas key_offsets = OFF_KEY_INFO_def OFF_KEY_LENGTH_def OFF_REPLAY_COUNTER_def OFF_KEY_NONCE_def
  OFF_KEY_IV_def OFF_KEY_RSC_def OFF_KEY_MIC_def OFF_KEY_DATA_LEN_def BODY_MIN_def MIC_OFFSET_def
  EAPOL_HDR_LEN_def MIC_LEN_def

record key_frame =
  kf_descriptor_type :: u8
  kf_key_info :: u16
  kf_key_length :: u16
  kf_replay_counter :: u64
  kf_key_nonce :: bytes
  kf_key_iv :: bytes
  kf_key_rsc :: bytes
  kf_key_mic :: bytes
  kf_key_data :: bytes

definition be16_at :: "nat \<Rightarrow> bytes \<Rightarrow> u16" where
  "be16_at off b = from_be16 (b ! off) (b ! (off + 1))"

definition be64_at :: "nat \<Rightarrow> bytes \<Rightarrow> u64" where
  "be64_at off b = from_be64 (b ! off) (b ! (off + 1)) (b ! (off + 2)) (b ! (off + 3))
     (b ! (off + 4)) (b ! (off + 5)) (b ! (off + 6)) (b ! (off + 7))"

definition slice :: "nat \<Rightarrow> nat \<Rightarrow> bytes \<Rightarrow> bytes" where
  "slice off n b = take n (drop off b)"

definition key_parse :: "bytes \<Rightarrow> eapol_error + key_frame" where
  "key_parse body =
     (if length body < BODY_MIN then Inl Ee_Malformed
      else
        (let key_data_len = unat (be16_at OFF_KEY_DATA_LEN body) in
         case get_range BODY_MIN (BODY_MIN + key_data_len) body of
           None \<Rightarrow> Inl Ee_Malformed
         | Some key_data \<Rightarrow>
             Inr \<lparr> kf_descriptor_type = body ! 0,
                   kf_key_info = be16_at OFF_KEY_INFO body,
                   kf_key_length = be16_at OFF_KEY_LENGTH body,
                   kf_replay_counter = be64_at OFF_REPLAY_COUNTER body,
                   kf_key_nonce = slice OFF_KEY_NONCE 32 body,
                   kf_key_iv = slice OFF_KEY_IV 16 body,
                   kf_key_rsc = slice OFF_KEY_RSC 8 body,
                   kf_key_mic = slice OFF_KEY_MIC MIC_LEN body,
                   kf_key_data = key_data \<rparr>))"

definition key_body :: "key_frame \<Rightarrow> bytes" where
  "key_body f =
     [kf_descriptor_type f] @ u16_be (kf_key_info f) @ u16_be (kf_key_length f) @
     u64_be (kf_replay_counter f) @ kf_key_nonce f @ kf_key_iv f @ kf_key_rsc f @
     replicate 8 0 @ kf_key_mic f @ u16_be (of_nat (length (kf_key_data f))) @ kf_key_data f"

definition key_encode :: "key_frame \<Rightarrow> u8 \<Rightarrow> bytes option" where
  "key_encode f protocol_version =
     (if BODY_MIN + length (kf_key_data f) < 2 ^ 16 then
        Some ([protocol_version, packet_type_u8 Pt_Key] @
              u16_be (of_nat (BODY_MIN + length (kf_key_data f))) @ key_body f)
      else None)"

definition put_mic :: "bytes \<Rightarrow> bytes \<Rightarrow> bytes" where
  "put_mic frame mic = take MIC_OFFSET frame @ mic @ drop (MIC_OFFSET + MIC_LEN) frame"

definition key_encode_signed :: "prims \<Rightarrow> key_frame \<Rightarrow> u8 \<Rightarrow> bytes \<Rightarrow> kdv \<Rightarrow> bytes option" where
  "key_encode_signed P f protocol_version kck version =
     (case key_encode f protocol_version of
        None \<Rightarrow> None
      | Some frame \<Rightarrow>
          (let zeroed = put_mic frame (replicate MIC_LEN 0);
               mic = compute_mic P kck version zeroed
           in Some (put_mic zeroed mic)))"

definition verify_frame_mic :: "prims \<Rightarrow> bytes \<Rightarrow> bytes \<Rightarrow> kdv \<Rightarrow> bytes \<Rightarrow> eapol_error + unit" where
  "verify_frame_mic P frame kck version mic =
     (if length frame < MIC_OFFSET + MIC_LEN then Inl Ee_Malformed
      else map_sum Ee_Crypto id
             (verify_mic P kck version (put_mic frame (replicate MIC_LEN 0)) mic))"

section \<open>Key Data\<close>

record gtk =
  gtk_key :: bytes
  gtk_index :: u8

datatype key_data_item = Kde "u8 \<times> u8 \<times> u8" u8 bytes | Ie u8 bytes

definition key_data_next :: "bytes \<Rightarrow> (key_data_item \<times> bytes) option" where
  "key_data_next rest =
     (case rest of
        i # len # _ \<Rightarrow>
          if len = 0 then None
          else
            (case get_range 0 (2 + unat len) rest of
               None \<Rightarrow> None
             | Some element \<Rightarrow>
                 Some ((case drop 2 element of
                          a # b # c # data_type # data \<Rightarrow>
                            if i = EID_VENDOR then Kde (a, b, c) data_type data else Ie i element
                        | _ \<Rightarrow> Ie i element),
                       drop (length element) rest))
      | _ \<Rightarrow> None)"

definition key_data_items :: "bytes \<Rightarrow> key_data_item list" where
  "key_data_items data = iter_collect key_data_next data"

definition gtk_of_item :: "key_data_item \<Rightarrow> (eapol_error + gtk) option" where
  "gtk_of_item item =
     (case item of
        Kde oui data_type data \<Rightarrow>
          if oui = (0x00, 0x0f, 0xac) \<and> data_type = 1 then
            Some (case data of
                    flags # _ # key \<Rightarrow>
                      if length key \<noteq> 16 \<and> length key \<noteq> 32 then Inl Ee_Malformed
                      else Inr \<lparr> gtk_key = key, gtk_index = flags AND 3 \<rparr>
                  | _ \<Rightarrow> Inl Ee_Malformed)
          else None
      | Ie _ _ \<Rightarrow> None)"

definition gtk_kde :: "bytes \<Rightarrow> eapol_error + gtk" where
  "gtk_kde key_data =
     (case find_map gtk_of_item (key_data_items key_data) of
        Some r \<Rightarrow> r
      | None \<Rightarrow> Inl Ee_GtkMissing)"

definition rsn_element :: "bytes \<Rightarrow> bytes option" where
  "rsn_element key_data =
     find_map (\<lambda>item. case item of Ie i raw \<Rightarrow> if i = EID_RSN then Some raw else None | _ \<Rightarrow> None)
       (key_data_items key_data)"

section \<open>The Key Data walker\<close>

lemma key_data_next_shrinks: "key_data_next bs = Some (item, rest) \<Longrightarrow> length rest < length bs"
  by (auto simp: key_data_next_def get_range_def split: list.splits if_splits option.splits)

interpretation kd_it: stream_iter key_data_next
  by unfold_locales (rule key_data_next_shrinks)

definition item_of :: "u8 \<times> bytes \<Rightarrow> key_data_item" where
  "item_of p = (case snd p of
     a # b # c # data_type # data \<Rightarrow>
       if fst p = EID_VENDOR then Kde (a, b, c) data_type data else Ie (fst p) (element_enc p)
   | _ \<Rightarrow> Ie (fst p) (element_enc p))"

definition item_wf :: "u8 \<times> bytes \<Rightarrow> bool" where
  "item_wf p \<longleftrightarrow> snd p \<noteq> [] \<and> length (snd p) < 256"

lemma key_data_next_enc:
  "item_wf p \<Longrightarrow> key_data_next (element_enc p @ rest) = Some (item_of p, rest)"
proof -
  assume wf: "item_wf p"
  obtain i payload where p: "p = (i, payload)" by (cases p)
  have len: "0 < length payload" "length payload < 256" using wf by (auto simp: p item_wf_def)
  then have "unat (of_nat (length payload) :: u8) = length payload" by (simp add: unat_of_nat)
  then have "(of_nat (length payload) :: u8) \<noteq> 0" using len by (metis less_irrefl unat_0)
  then show ?thesis using len
    by (auto simp: p key_data_next_def element_enc_def item_of_def get_range_def unat_of_nat
        split: list.splits)
qed

interpretation kd_codec: stream_codec key_data_next element_enc item_of item_wf
  by unfold_locales (rule key_data_next_enc)

section \<open>Framing round trips\<close>

lemma packet_type_roundtrip [simp]: "packet_type_from_u8 (packet_type_u8 t) = Inr t"
  by (cases t) (simp_all add: packet_type_from_u8_def packet_type_u8_def)

lemma take_4_append: "take (4 + length xs) (a # b # c # d # xs @ ys) = a # b # c # d # xs"
  by (simp add: numeral_eq_Suc)

lemma eapol_roundtrip:
  assumes "eapol_encode v t body = Some fr"
  shows "eapol_parse (fr @ pad) =
    Inr \<lparr> ea_version = v, ea_packet_type = t, ea_body = body, ea_raw = fr \<rparr>"
proof -
  obtain hi lo where hl: "u16_be (of_nat (length body)) = [hi, lo]" by (simp add: u16_be_def)
  have "from_be16 hi lo = of_nat (length body)"
    using from_be16_u16_be[of "of_nat (length body)"] by (simp add: hl)
  moreover have "length body < 65536" using assms by (auto simp: eapol_encode_def split: if_splits)
  ultimately show ?thesis using assms
    by (auto simp: eapol_encode_def eapol_parse_def hl EAPOL_HDR_LEN_def unat_of_nat
        take_4_append split: if_splits)
qed

lemma be16_at_append: "length pre = off \<Longrightarrow> be16_at off (pre @ u16_be w @ post) = w"
  by (auto simp: be16_at_def nth_append u16_be_def)

lemma be64_at_append: "length pre = off \<Longrightarrow> be64_at off (pre @ u64_be w @ post) = w"
  by (auto simp: be64_at_def nth_append u64_be_def u32_be_def from_be64_def)

lemma slice_append: "length pre = off \<Longrightarrow> length mid = n \<Longrightarrow> slice off n (pre @ mid @ post) = mid"
  by (simp add: slice_def)

definition key_wf :: "key_frame \<Rightarrow> bool" where
  "key_wf f \<longleftrightarrow> length (kf_key_nonce f) = 32 \<and> length (kf_key_iv f) = 16 \<and>
     length (kf_key_rsc f) = 8 \<and> length (kf_key_mic f) = 16 \<and> BODY_MIN + length (kf_key_data f) < 2 ^ 16"

lemma length_key_body: "key_wf f \<Longrightarrow> length (key_body f) = BODY_MIN + length (kf_key_data f)"
  by (simp add: key_body_def key_wf_def BODY_MIN_def)

lemma key_parse_body:
  assumes wf: "key_wf f"
  shows "key_parse (key_body f) = Inr f"
proof -
  note l = wf[unfolded key_wf_def BODY_MIN_def]
  let ?b = "key_body f"
  have info: "be16_at (Suc 0) ?b = kf_key_info f"
    using be16_at_append[of "[kf_descriptor_type f]" 1] by (simp add: key_body_def)
  have len: "be16_at 3 ?b = kf_key_length f"
    using be16_at_append[of "[kf_descriptor_type f] @ u16_be (kf_key_info f)" 3]
    by (simp add: key_body_def)
  have rc: "be64_at 5 ?b = kf_replay_counter f"
    using be64_at_append[of "[kf_descriptor_type f] @ u16_be (kf_key_info f) @ u16_be (kf_key_length f)" 5]
    by (simp add: key_body_def)
  have nonce: "slice 13 32 ?b = kf_key_nonce f"
    using l by (simp add: key_body_def slice_def)
  have iv: "slice 45 16 ?b = kf_key_iv f"
    using l by (simp add: key_body_def slice_def)
  have rsc: "slice 61 8 ?b = kf_key_rsc f"
    using l by (simp add: key_body_def slice_def)
  have mic: "slice 77 16 ?b = kf_key_mic f"
    using l by (simp add: key_body_def slice_def)
  have dl: "be16_at 93 ?b = of_nat (length (kf_key_data f))"
    using l be16_at_append[of "[kf_descriptor_type f] @ u16_be (kf_key_info f) @
        u16_be (kf_key_length f) @ u64_be (kf_replay_counter f) @ kf_key_nonce f @ kf_key_iv f @
        kf_key_rsc f @ replicate 8 0 @ kf_key_mic f" 93]
    by (simp add: key_body_def)
  have data: "drop 95 ?b = kf_key_data f"
    using l by (simp add: key_body_def)
  have "?b ! 0 = kf_descriptor_type f" by (simp add: key_body_def)
  then show ?thesis
    using l length_key_body[OF wf]
    by (simp add: key_parse_def key_offsets info len rc nonce iv rsc mic dl data Let_def get_range_def
        unat_of_nat)
qed

lemma key_encode_eapol: "key_wf f \<Longrightarrow> key_encode f pv = eapol_encode pv Pt_Key (key_body f)"
  by (simp add: key_encode_def eapol_encode_def length_key_body)

lemma put_mic_key:
  assumes "key_wf f" "key_encode f pv = Some fr" "length mic = 16"
  shows "key_encode (f \<lparr> kf_key_mic := mic \<rparr>) pv = Some (put_mic fr mic)"
  using assms by (auto simp: key_encode_def key_wf_def put_mic_def key_offsets key_body_def split: if_splits)

text \<open>
  An EAPOL-Key frame survives the wire: encoding a frame whose fields have their fixed
  widths and parsing it back, with any padding after it, returns the same frame, and the bytes
  the MIC covers are exactly the encoded ones, without the padding.
\<close>

theorem key_frame_roundtrip:
  assumes "key_wf f"
  shows "\<exists>fr. key_encode f pv = Some fr \<and>
    (\<forall>pad. \<exists>e. eapol_parse (fr @ pad) = Inr e \<and> ea_version e = pv \<and> ea_packet_type e = Pt_Key \<and>
       ea_raw e = fr \<and> key_parse (ea_body e) = Inr f)"
proof -
  obtain fr where fr: "eapol_encode pv Pt_Key (key_body f) = Some fr"
    using length_key_body[OF assms] assms by (auto simp: eapol_encode_def key_wf_def)
  then show ?thesis
    using eapol_roundtrip[OF fr] key_parse_body[OF assms] by (auto simp: key_encode_eapol[OF assms])
qed

definition key_frame_example :: key_frame where
  "key_frame_example = \<lparr> kf_descriptor_type = 2, kf_key_info = 0x010a, kf_key_length = 16,
     kf_replay_counter = 7, kf_key_nonce = replicate 32 9, kf_key_iv = replicate 16 0,
     kf_key_rsc = replicate 8 0, kf_key_mic = replicate 16 5, kf_key_data = [48, 1, 7] \<rparr>"

lemma key_wf_example [simp]: "key_wf key_frame_example"
  by (simp add: key_wf_def key_frame_example_def BODY_MIN_def)

theorem key_frame_roundtrip_witness:
  "\<exists>fr e. key_encode key_frame_example 2 = Some fr \<and> eapol_parse (fr @ [0, 0, 0]) = Inr e \<and>
     ea_raw e = fr \<and> key_parse (ea_body e) = Inr key_frame_example"
  using key_frame_roundtrip[OF key_wf_example, of 2] by blast

lemma signed_frame_ok:
  assumes P: "prims_ok P" and wf: "key_wf f"
  shows "\<exists>fr mic. key_encode_signed P f pv kck v = Some fr \<and>
    key_encode (f \<lparr> kf_key_mic := mic \<rparr>) pv = Some fr \<and>
    verify_frame_mic P fr kck v mic = Inr () \<and>
    (\<forall>mic'. verify_frame_mic P fr kck v mic' = Inr () \<longrightarrow> mic' = mic)"
proof -
  obtain fr0 where fr0: "key_encode f pv = Some fr0" using wf by (auto simp: key_encode_def key_wf_def)
  have len: "length fr0 \<ge> 97"
    using fr0 length_key_body[OF wf] by (auto simp: key_encode_def BODY_MIN_def split: if_splits)
  define z where "z = put_mic fr0 (replicate MIC_LEN 0)"
  define mic where "mic = compute_mic P kck v z"
  have lm: "length mic = 16" using P by (simp add: mic_def)
  have zz: "put_mic (put_mic z mic) (replicate MIC_LEN 0) = z" "put_mic z mic = put_mic fr0 mic"
    using len lm by (simp_all add: z_def put_mic_def key_offsets)
  have s: "key_encode_signed P f pv kck v = Some (put_mic fr0 mic)"
    using fr0 zz by (simp add: key_encode_signed_def Let_def z_def mic_def)
  have "length (put_mic z mic) \<ge> 97" using len lm zz by (simp add: put_mic_def key_offsets)
  then have "verify_frame_mic P (put_mic fr0 mic) kck v m = Inr () \<longleftrightarrow> m = mic" for m
    using zz lm
    by (cases "verify_mic P kck v z m")
      (auto simp: verify_frame_mic_def key_offsets mic_def verify_mic_def split: if_splits)
  then show ?thesis using s put_mic_key[OF wf fr0 lm] by blast
qed

text \<open>
  A signed frame verifies: what \<^verbatim>\<open>encode_signed\<close> produces parses to the same frame with the
  MIC filled in, and the receiver's check with the same key and descriptor version accepts
  it, whatever the field held before. A frame passes the check exactly when its MIC field is
  the MIC of the frame with that field zeroed.
\<close>

theorem signed_frame_verifies:
  assumes P: "prims_ok P" and wf: "key_wf f"
  shows "\<exists>fr mic. key_encode_signed P f pv kck v = Some fr \<and>
    key_encode (f \<lparr> kf_key_mic := mic \<rparr>) pv = Some fr \<and>
    verify_frame_mic P fr kck v mic = Inr () \<and>
    (\<forall>mic'. verify_frame_mic P fr kck v mic' = Inr () \<longrightarrow> mic' = mic)"
  by (rule signed_frame_ok[OF P wf])

theorem signed_frame_verifies_witness:
  "\<exists>fr mic. key_encode_signed toy_prims key_frame_example 2 [1] AesCmac = Some fr \<and>
     verify_frame_mic toy_prims fr [1] AesCmac mic = Inr ()"
  using signed_frame_verifies[OF toy_prims_ok key_wf_example, of 2 "[1]" AesCmac] by blast

end
