(* ===== verification/Four_Way.thy ===== *)
theory Four_Way
  imports Eapol_Key
begin

text \<open>
  The supplicant's 4-way handshake and the group rekeys that follow it
  (\<^verbatim>\<open>FourWay\<close> in \<^verbatim>\<open>src/crates/caw-eapol/src/lib.rs\<close>).

  \<open>fw_poll\<close> is \<^verbatim>\<open>FourWay::poll\<close>: it returns the result handed to the caller and the machine's
  successor, or \<open>None\<close> where the code would panic. The handlers mutate \<^verbatim>\<open>self\<close> only after their
  last fallible step, so they return either an error or the new machine with its actions. The
  nonce of \<^verbatim>\<open>FourWay::new\<close> is an argument (\<open>fw_new\<close> is \<^verbatim>\<open>with_snonce\<close>).
\<close>

section \<open>The machine\<close>

definition RETRY_INTERVAL_MS :: nat where "RETRY_INTERVAL_MS = 1000"
definition RETRY_LIMIT :: nat where "RETRY_LIMIT = 3"

record hs_config =
  hc_akm :: akm
  hc_own_mac :: bytes
  hc_bssid :: bytes
  hc_assoc_rsn_ie :: bytes
  hc_beacon_rsn_ie :: bytes

datatype fw_input = Fw_Frame bytes | Fw_Timeout

datatype fw_action = Fa_Send bytes | Fa_ArmTimer nat | Fa_DisarmTimer | Fa_Complete ptk gtk
  | Fa_NewGtk gtk

datatype fw_state = Fw_Idle | Fw_AwaitingMsg3 | Fw_Established | Fw_Failed

record fourway =
  fw_pmk :: bytes
  fw_config :: hs_config
  fw_snonce :: bytes
  fw_anonce :: bytes
  fw_ptk :: "ptk option"
  fw_descriptor_version :: kdv
  fw_protocol_version :: u8
  fw_rx_counter :: "u64 option"
  fw_st :: fw_state
  fw_last_sent :: "bytes option"
  fw_retries :: nat

definition fw_new :: "bytes \<Rightarrow> hs_config \<Rightarrow> bytes \<Rightarrow> fourway" where
  "fw_new pmk config snonce =
     \<lparr> fw_pmk = pmk, fw_config = config, fw_snonce = snonce, fw_anonce = replicate 32 0,
       fw_ptk = None, fw_descriptor_version = HmacSha1, fw_protocol_version = 2,
       fw_rx_counter = None, fw_st = Fw_Idle, fw_last_sent = None, fw_retries = 0 \<rparr>"

section \<open>Handlers\<close>

definition fw_reply :: "u16 \<Rightarrow> u64 \<Rightarrow> bytes \<Rightarrow> bytes \<Rightarrow> key_frame" where
  "fw_reply key_info replay_counter nonce key_data =
     \<lparr> kf_descriptor_type = DESCRIPTOR_TYPE_RSN, kf_key_info = key_info, kf_key_length = 0,
       kf_replay_counter = replay_counter, kf_key_nonce = nonce, kf_key_iv = replicate 16 0,
       kf_key_rsc = replicate 8 0, kf_key_mic = replicate 16 0, kf_key_data = key_data \<rparr>"

definition fw_on_msg1 ::
  "prims \<Rightarrow> fourway \<Rightarrow> eapol \<Rightarrow> key_frame \<Rightarrow> (eapol_error + fourway \<times> fw_action list) option" where
  "fw_on_msg1 P s eapol msg1 =
     try_ok (ki_version (kf_key_info msg1) (hc_akm (fw_config s))) (\<lambda>version.
     try_then (map_option (map_sum Ee_Crypto id)
         (derive_ptk P (fw_pmk s) (hc_akm (fw_config s)) (hc_bssid (fw_config s))
            (hc_own_mac (fw_config s)) (kf_key_nonce msg1) (fw_snonce s))) (\<lambda>ptk.
     case key_encode_signed P
            (fw_reply (kdv_bits version OR KI_PAIRWISE OR KI_MIC) (kf_replay_counter msg1)
               (fw_snonce s) (hc_assoc_rsn_ie (fw_config s)))
            (ea_version eapol) (ptk_kck ptk) version of
       None \<Rightarrow> None
     | Some msg2 \<Rightarrow>
         Some (Inr (s \<lparr> fw_anonce := kf_key_nonce msg1, fw_descriptor_version := version,
                       fw_protocol_version := ea_version eapol,
                       fw_rx_counter := Some (kf_replay_counter msg1), fw_ptk := Some ptk,
                       fw_st := Fw_AwaitingMsg3, fw_retries := 0, fw_last_sent := Some msg2 \<rparr>,
                    [Fa_Send msg2, Fa_ArmTimer RETRY_INTERVAL_MS]))))"

definition fw_on_msg3 ::
  "prims \<Rightarrow> fourway \<Rightarrow> eapol \<Rightarrow> key_frame \<Rightarrow> bool \<Rightarrow>
   (eapol_error + fourway \<times> fw_action list) option" where
  "fw_on_msg3 P s eapol msg3 install =
     (case fw_ptk s of
        None \<Rightarrow> Some (Inl Ee_UnexpectedMessage)
      | Some ptk \<Rightarrow>
          try_ok (verify_frame_mic P (ea_raw eapol) (ptk_kck ptk) (fw_descriptor_version s)
                    (kf_key_mic msg3)) (\<lambda>_.
          if kf_key_nonce msg3 \<noteq> fw_anonce s then Some (Inl Ee_NonceMismatch)
          else if \<not> ki_encrypted (kf_key_info msg3) then Some (Inl Ee_Malformed)
          else
            try_ok (map_sum Ee_Crypto id (unwrap_key_data P (ptk_kek ptk) (kf_key_data msg3)))
              (\<lambda>key_data.
            case rsn_element key_data of
              None \<Rightarrow> Some (Inl Ee_RsnMissing)
            | Some advertised \<Rightarrow>
                if advertised \<noteq> hc_beacon_rsn_ie (fw_config s) then Some (Inl Ee_RsnMismatch)
                else
                  try_ok (gtk_kde key_data) (\<lambda>gtk.
                  case key_encode_signed P
                         (fw_reply (kdv_bits (fw_descriptor_version s) OR KI_PAIRWISE OR KI_MIC OR
                              KI_SECURE) (kf_replay_counter msg3) (replicate 32 0) [])
                         (fw_protocol_version s) (ptk_kck ptk) (fw_descriptor_version s) of
                    None \<Rightarrow> None
                  | Some msg4 \<Rightarrow>
                      Some (Inr (s \<lparr> fw_rx_counter := Some (kf_replay_counter msg3),
                                    fw_st := Fw_Established, fw_last_sent := None,
                                    fw_retries := 0 \<rparr>,
                                 [Fa_Send msg4, Fa_DisarmTimer] @
                                 (if install then [Fa_Complete ptk gtk] else [])))))))"

definition fw_on_group_msg1 ::
  "prims \<Rightarrow> fourway \<Rightarrow> eapol \<Rightarrow> key_frame \<Rightarrow> (eapol_error + fourway \<times> fw_action list) option" where
  "fw_on_group_msg1 P s eapol msg1 =
     (case fw_ptk s of
        None \<Rightarrow> Some (Inl Ee_UnexpectedMessage)
      | Some ptk \<Rightarrow>
          try_ok (verify_frame_mic P (ea_raw eapol) (ptk_kck ptk) (fw_descriptor_version s)
                    (kf_key_mic msg1)) (\<lambda>_.
          if \<not> ki_encrypted (kf_key_info msg1) then Some (Inl Ee_Malformed)
          else
            try_ok (map_sum Ee_Crypto id (unwrap_key_data P (ptk_kek ptk) (kf_key_data msg1)))
              (\<lambda>key_data.
            try_ok (gtk_kde key_data) (\<lambda>gtk.
            case key_encode_signed P
                   (fw_reply (kdv_bits (fw_descriptor_version s) OR KI_MIC OR KI_SECURE)
                      (kf_replay_counter msg1) (replicate 32 0) [])
                   (fw_protocol_version s) (ptk_kck ptk) (fw_descriptor_version s) of
              None \<Rightarrow> None
            | Some msg2 \<Rightarrow>
                Some (Inr (s \<lparr> fw_rx_counter := Some (kf_replay_counter msg1) \<rparr>,
                           [Fa_Send msg2, Fa_NewGtk gtk]))))))"

definition fw_dispatch ::
  "prims \<Rightarrow> fourway \<Rightarrow> eapol \<Rightarrow> key_frame \<Rightarrow> (eapol_error + fourway \<times> fw_action list) option" where
  "fw_dispatch P s eapol frame =
     (case (ki_pairwise (kf_key_info frame), ki_mic (kf_key_info frame)) of
        (True, False) \<Rightarrow> fw_on_msg1 P s eapol frame
      | (True, True) \<Rightarrow>
          (case fw_st s of
             Fw_AwaitingMsg3 \<Rightarrow> fw_on_msg3 P s eapol frame True
           | Fw_Established \<Rightarrow> fw_on_msg3 P s eapol frame False
           | _ \<Rightarrow> Some (Inl Ee_UnexpectedMessage))
      | (False, True) \<Rightarrow>
          (case fw_st s of
             Fw_Established \<Rightarrow> fw_on_group_msg1 P s eapol frame
           | _ \<Rightarrow> Some (Inl Ee_UnexpectedMessage))
      | (False, False) \<Rightarrow> Some (Inl Ee_UnexpectedMessage))"

definition fw_on_frame ::
  "prims \<Rightarrow> fourway \<Rightarrow> bytes \<Rightarrow> (eapol_error + fourway \<times> fw_action list) option" where
  "fw_on_frame P s bytes =
     (if fw_st s = Fw_Failed then Some (Inl Ee_UnexpectedMessage)
      else
        try_ok (eapol_parse bytes) (\<lambda>eapol.
        if ea_packet_type eapol \<noteq> Pt_Key then Some (Inr (s, []))
        else
          try_ok (key_parse (ea_body eapol)) (\<lambda>frame.
          if kf_descriptor_type frame \<noteq> DESCRIPTOR_TYPE_RSN then
            Some (Inl (Ee_UnsupportedDescriptor (kf_descriptor_type frame)))
          else if \<not> ki_ack (kf_key_info frame) \<or> ki_request (kf_key_info frame) then
            Some (Inr (s, []))
          else if (case fw_rx_counter s of None \<Rightarrow> False
                   | Some seen \<Rightarrow> kf_replay_counter frame \<le> seen) then
            Some (Inl Ee_ReplayedCounter)
          else fw_dispatch P s eapol frame)))"

definition fw_on_timeout :: "fourway \<Rightarrow> eapol_error + fourway \<times> fw_action list" where
  "fw_on_timeout s =
     (case fw_last_sent s of
        None \<Rightarrow> Inr (s, [])
      | Some frame \<Rightarrow>
          if fw_retries s \<ge> RETRY_LIMIT then Inl Ee_Timeout
          else Inr (s \<lparr> fw_retries := fw_retries s + 1 \<rparr>,
                    [Fa_Send frame, Fa_ArmTimer RETRY_INTERVAL_MS]))"

definition fw_poll ::
  "prims \<Rightarrow> fourway \<Rightarrow> fw_input \<Rightarrow> (fourway \<times> (eapol_error + fw_action list)) option" where
  "fw_poll P s input =
     map_option
       (\<lambda>r. case r of
          Inl e \<Rightarrow> (s \<lparr> fw_st := Fw_Failed \<rparr>, Inl e)
        | Inr (s', actions) \<Rightarrow> (s', Inr actions))
       (case input of Fw_Frame bytes \<Rightarrow> fw_on_frame P s bytes | Fw_Timeout \<Rightarrow> Some (fw_on_timeout s))"

section \<open>What each handler does when it succeeds\<close>

definition fw_fresh :: "fourway \<Rightarrow> u64 \<Rightarrow> bool" where
  "fw_fresh s c \<longleftrightarrow> (case fw_rx_counter s of None \<Rightarrow> True | Some seen \<Rightarrow> seen < c)"

lemma fw_on_msg1_InrD:
  assumes "fw_on_msg1 P s e f = Some (Inr (s', acts))"
  shows "\<exists>v k m2. ki_version (kf_key_info f) (hc_akm (fw_config s)) = Inr v \<and>
    derive_ptk P (fw_pmk s) (hc_akm (fw_config s)) (hc_bssid (fw_config s)) (hc_own_mac (fw_config s))
      (kf_key_nonce f) (fw_snonce s) = Some (Inr k) \<and>
    acts = [Fa_Send m2, Fa_ArmTimer RETRY_INTERVAL_MS] \<and>
    s' = s \<lparr> fw_anonce := kf_key_nonce f, fw_descriptor_version := v,
             fw_protocol_version := ea_version e, fw_rx_counter := Some (kf_replay_counter f),
             fw_ptk := Some k, fw_st := Fw_AwaitingMsg3, fw_retries := 0, fw_last_sent := Some m2 \<rparr>"
  using assms unfolding fw_on_msg1_def
  by (elim try_ok_InrE try_then_InrE) (auto split: option.splits sum.splits)

lemma fw_on_msg3_InrD:
  assumes "fw_on_msg3 P s e f install = Some (Inr (s', acts))"
  shows "\<exists>k kd g m4. fw_ptk s = Some k \<and>
    verify_frame_mic P (ea_raw e) (ptk_kck k) (fw_descriptor_version s) (kf_key_mic f) = Inr () \<and>
    kf_key_nonce f = fw_anonce s \<and> ki_encrypted (kf_key_info f) \<and>
    unwrap_key_data P (ptk_kek k) (kf_key_data f) = Inr kd \<and>
    rsn_element kd = Some (hc_beacon_rsn_ie (fw_config s)) \<and> gtk_kde kd = Inr g \<and>
    acts = [Fa_Send m4, Fa_DisarmTimer] @ (if install then [Fa_Complete k g] else []) \<and>
    s' = s \<lparr> fw_rx_counter := Some (kf_replay_counter f), fw_st := Fw_Established,
             fw_last_sent := None, fw_retries := 0 \<rparr>"
proof -
  obtain k where k: "fw_ptk s = Some k"
    using assms by (auto simp: fw_on_msg3_def split: option.splits)
  show ?thesis
    using assms unfolding fw_on_msg3_def k option.case
    by (elim try_ok_InrE) (auto split: if_splits option.splits elim!: try_ok_InrE)
qed

lemma fw_on_group_InrD:
  assumes "fw_on_group_msg1 P s e f = Some (Inr (s', acts))"
  shows "\<exists>k kd g m2. fw_ptk s = Some k \<and>
    verify_frame_mic P (ea_raw e) (ptk_kck k) (fw_descriptor_version s) (kf_key_mic f) = Inr () \<and>
    ki_encrypted (kf_key_info f) \<and> unwrap_key_data P (ptk_kek k) (kf_key_data f) = Inr kd \<and>
    gtk_kde kd = Inr g \<and> acts = [Fa_Send m2, Fa_NewGtk g] \<and>
    s' = s \<lparr> fw_rx_counter := Some (kf_replay_counter f) \<rparr>"
proof -
  obtain k where k: "fw_ptk s = Some k"
    using assms by (auto simp: fw_on_group_msg1_def split: option.splits)
  show ?thesis
    using assms unfolding fw_on_group_msg1_def k option.case
    by (elim try_ok_InrE) (auto split: if_splits option.splits elim!: try_ok_InrE)
qed

text \<open>
  The message a frame is, read off its Key Information, when it reaches the dispatch: fresh, an
  authenticator's, with the RSN descriptor.
\<close>

definition fw_accepts :: "fourway \<Rightarrow> bytes \<Rightarrow> eapol \<Rightarrow> key_frame \<Rightarrow> bool" where
  "fw_accepts s b e f \<longleftrightarrow>
     fw_st s \<noteq> Fw_Failed \<and> eapol_parse b = Inr e \<and> ea_packet_type e = Pt_Key \<and>
     key_parse (ea_body e) = Inr f \<and> kf_descriptor_type f = DESCRIPTOR_TYPE_RSN \<and>
     ki_ack (kf_key_info f) \<and> \<not> ki_request (kf_key_info f) \<and> fw_fresh s (kf_replay_counter f)"

lemma fw_on_frame_accepts:
  "fw_accepts s b e f \<Longrightarrow> fw_on_frame P s b = fw_dispatch P s e f"
  by (auto simp: fw_accepts_def fw_on_frame_def fw_fresh_def split: option.splits)

lemma fw_on_frame_InrD:
  assumes "fw_on_frame P s b = Some (Inr (s', acts))"
  shows "s' = s \<and> acts = [] \<or>
    (\<exists>e f. fw_accepts s b e f \<and> fw_dispatch P s e f = Some (Inr (s', acts)))"
proof -
  have ns: "fw_st s \<noteq> Fw_Failed" using assms by (auto simp: fw_on_frame_def)
  obtain e where e: "eapol_parse b = Inr e"
    using assms ns by (auto simp: fw_on_frame_def elim: try_ok_InrE)
  show ?thesis
  proof (cases "ea_packet_type e = Pt_Key")
    case True
    then obtain f where f: "key_parse (ea_body e) = Inr f"
      using assms ns e by (auto simp: fw_on_frame_def elim: try_ok_InrE)
    show ?thesis
      using assms ns e True f
      by (auto simp: fw_on_frame_def fw_accepts_def fw_fresh_def not_le split: if_splits option.splits)
  qed (use assms ns e in \<open>auto simp: fw_on_frame_def\<close>)
qed

lemma fw_dispatch_InrD:
  assumes "fw_dispatch P s e f = Some (Inr (s', acts))"
  shows "ki_pairwise (kf_key_info f) \<and> \<not> ki_mic (kf_key_info f) \<and> fw_on_msg1 P s e f = Some (Inr (s', acts)) \<or>
    ki_pairwise (kf_key_info f) \<and> ki_mic (kf_key_info f) \<and>
      (fw_st s = Fw_AwaitingMsg3 \<and> fw_on_msg3 P s e f True = Some (Inr (s', acts)) \<or>
       fw_st s = Fw_Established \<and> fw_on_msg3 P s e f False = Some (Inr (s', acts))) \<or>
    \<not> ki_pairwise (kf_key_info f) \<and> ki_mic (kf_key_info f) \<and> fw_st s = Fw_Established \<and>
      fw_on_group_msg1 P s e f = Some (Inr (s', acts))"
  using assms by (auto simp: fw_dispatch_def split: bool.splits fw_state.splits)

lemma fw_poll_cases:
  assumes "fw_poll P s i = Some (s', r)"
  shows "(\<exists>e. r = Inl e \<and> s' = s \<lparr> fw_st := Fw_Failed \<rparr>) \<or>
    (\<exists>b acts. i = Fw_Frame b \<and> r = Inr acts \<and> fw_on_frame P s b = Some (Inr (s', acts))) \<or>
    (\<exists>acts. i = Fw_Timeout \<and> r = Inr acts \<and> fw_on_timeout s = Inr (s', acts))"
proof -
  obtain z where z: "(case i of Fw_Frame b \<Rightarrow> fw_on_frame P s b | Fw_Timeout \<Rightarrow> Some (fw_on_timeout s)) = Some z"
    using assms by (auto simp: fw_poll_def)
  then show ?thesis
    using assms by (cases z; cases i) (auto simp: fw_poll_def)
qed

lemma fw_dispatch_effect:
  assumes "fw_dispatch P s e f = Some (Inr (s', acts))"
  shows "fw_rx_counter s' = Some (kf_replay_counter f)" "acts \<noteq> []"
    "fw_config s' = fw_config s" "fw_pmk s' = fw_pmk s" "fw_snonce s' = fw_snonce s"
    "fw_st s' \<noteq> Fw_Failed"
  using fw_dispatch_InrD[OF assms]
  by (auto dest!: fw_on_msg1_InrD fw_on_msg3_InrD fw_on_group_InrD)

section \<open>The invariant\<close>

definition fw_cfg_ok :: "hs_config \<Rightarrow> bool" where
  "fw_cfg_ok c \<longleftrightarrow> length (hc_assoc_rsn_ie c) \<le> 257"

definition fw_inv :: "prims \<Rightarrow> fourway \<Rightarrow> bool" where
  "fw_inv P s \<longleftrightarrow> fw_cfg_ok (fw_config s) \<and> fw_retries s \<le> RETRY_LIMIT \<and>
     (\<forall>k. fw_ptk s = Some k \<longrightarrow>
        derive_ptk P (fw_pmk s) (hc_akm (fw_config s)) (hc_bssid (fw_config s)) (hc_own_mac (fw_config s))
          (fw_anonce s) (fw_snonce s) = Some (Inr k)) \<and>
     (case fw_st s of
        Fw_Idle \<Rightarrow> fw_ptk s = None \<and> fw_last_sent s = None \<and> fw_rx_counter s = None
      | Fw_AwaitingMsg3 \<Rightarrow> fw_ptk s \<noteq> None \<and> fw_last_sent s \<noteq> None \<and> fw_rx_counter s \<noteq> None
      | Fw_Established \<Rightarrow> fw_ptk s \<noteq> None \<and> fw_last_sent s = None \<and> fw_rx_counter s \<noteq> None
      | Fw_Failed \<Rightarrow> True)"

lemma fw_inv_new: "fw_cfg_ok c \<Longrightarrow> fw_inv P (fw_new pmk c sn)"
  by (simp add: fw_inv_def fw_new_def)

lemma fw_inv_failed: "fw_inv P s \<Longrightarrow> fw_inv P (s \<lparr> fw_st := Fw_Failed \<rparr>)"
  by (simp add: fw_inv_def)

lemma fw_inv_dispatch:
  assumes "fw_inv P s" "fw_dispatch P s e f = Some (Inr (s', acts))"
  shows "fw_inv P s'"
  using fw_dispatch_InrD[OF assms(2)] assms(1)
  by (auto dest!: fw_on_msg1_InrD fw_on_msg3_InrD fw_on_group_InrD simp: fw_inv_def)

lemma fw_inv_poll:
  assumes "fw_inv P s" "fw_poll P s i = Some (s', r)"
  shows "fw_inv P s'"
  using fw_poll_cases[OF assms(2)]
proof (elim disjE exE conjE)
  fix b acts assume "fw_on_frame P s b = Some (Inr (s', acts))"
  then show ?thesis using fw_on_frame_InrD fw_inv_dispatch[OF assms(1)] assms(1) by blast
next
  fix acts assume "fw_on_timeout s = Inr (s', acts)"
  then show ?thesis using assms(1)
    by (auto simp: fw_on_timeout_def fw_inv_def split: option.splits if_splits fw_state.splits)
qed (use assms(1) in \<open>simp add: fw_inv_failed\<close>)

lemma key_encode_signed_Some:
  "length (kf_key_data f) \<le> 257 \<Longrightarrow> key_encode_signed P f pv kck v \<noteq> None"
  by (simp add: key_encode_signed_def key_encode_def BODY_MIN_def Let_def)

lemma fw_reply_data [simp]: "kf_key_data (fw_reply i c n d) = d"
  by (simp add: fw_reply_def)

lemma fw_on_msg1_no_panic:
  "prims_ok P \<Longrightarrow> fw_cfg_ok (fw_config s) \<Longrightarrow> fw_on_msg1 P s e f \<noteq> None"
  unfolding fw_on_msg1_def
  by (intro panic_free) (auto simp: derive_ptk_not_None fw_cfg_ok_def key_encode_signed_Some split: option.splits)

lemma fw_on_msg3_no_panic: "fw_on_msg3 P s e f install \<noteq> None"
proof (cases "fw_ptk s")
  case (Some k)
  have "fw_on_msg3 P s e f install \<noteq> None"
    unfolding fw_on_msg3_def Some option.case
    by (rule try_ok_not_None)
      (auto simp: key_encode_signed_Some try_ok_def split: option.splits sum.splits if_splits)
  then show ?thesis .
qed (simp add: fw_on_msg3_def)

lemma fw_on_group_no_panic: "fw_on_group_msg1 P s e f \<noteq> None"
proof (cases "fw_ptk s")
  case (Some k)
  show ?thesis
    unfolding fw_on_group_msg1_def Some option.case
    by (rule try_ok_not_None)
      (auto simp: key_encode_signed_Some try_ok_def split: option.splits sum.splits if_splits)
qed (simp add: fw_on_group_msg1_def)

lemma fw_on_frame_no_panic:
  assumes "prims_ok P" "fw_cfg_ok (fw_config s)"
  shows "fw_on_frame P s b \<noteq> None"
proof -
  have "fw_dispatch P s e f \<noteq> None" for e f
    using fw_on_msg1_no_panic[OF assms] fw_on_msg3_no_panic fw_on_group_no_panic
    by (auto simp: fw_dispatch_def split: bool.splits fw_state.splits)
  then show ?thesis
    by (auto simp: fw_on_frame_def try_ok_def split: sum.splits)
qed

lemma fw_poll_no_panic:
  assumes "prims_ok P" "fw_inv P s"
  shows "\<exists>s' r. fw_poll P s i = Some (s', r) \<and> fw_inv P s'"
proof -
  have "fw_poll P s i \<noteq> None"
    using fw_on_frame_no_panic[OF assms(1)] assms(2)
    by (auto simp: fw_poll_def fw_inv_def split: fw_input.splits)
  then obtain s' r where "fw_poll P s i = Some (s', r)" by (cases "fw_poll P s i") auto
  then show ?thesis using fw_inv_poll[OF assms(2)] by blast
qed

text \<open>The machine as a polled machine: each input yields one result.\<close>

definition fw_step :: "prims \<Rightarrow> fourway \<Rightarrow> fw_input \<Rightarrow> (fourway \<times> (eapol_error + fw_action list) list) option" where
  "fw_step P s i = map_option (\<lambda>(s', r). (s', [r])) (fw_poll P s i)"

interpretation fw_machine: polled_machine "fw_step P" "\<lambda>s. prims_ok P \<and> fw_inv P s" "\<lambda>_. True" for P
  using fw_poll_no_panic by unfold_locales (fastforce simp: fw_step_def)

lemma fw_step_SomeD:
  "fw_step P s i = Some (s', out) \<Longrightarrow> \<exists>r. out = [r] \<and> fw_poll P s i = Some (s', r)"
  by (auto simp: fw_step_def)

section \<open>Replay\<close>

definition rx_le :: "u64 option \<Rightarrow> u64 option \<Rightarrow> bool" where
  "rx_le a b = (case a of None \<Rightarrow> True | Some x \<Rightarrow> (case b of None \<Rightarrow> False | Some y \<Rightarrow> x \<le> y))"

lemma rx_le_refl [simp]: "rx_le a a"
  by (cases a) (simp_all add: rx_le_def)

lemma rx_le_trans: "rx_le a b \<Longrightarrow> rx_le b c \<Longrightarrow> rx_le a c"
  by (auto simp: rx_le_def split: option.splits)

lemma fw_on_timeout_InrD:
  "fw_on_timeout s = Inr (s', acts) \<Longrightarrow>
   (\<exists>n. s' = s \<lparr> fw_retries := n \<rparr>) \<and> (\<forall>k g. Fa_Complete k g \<notin> set acts)"
  by (auto simp: fw_on_timeout_def split: option.splits if_splits intro: exI[of _ "fw_retries s"])

lemma fw_poll_rx:
  assumes "fw_poll P s i = Some (s', r)"
  shows "rx_le (fw_rx_counter s) (fw_rx_counter s')"
  using fw_poll_cases[OF assms]
proof (elim disjE exE conjE)
  fix b acts assume o: "fw_on_frame P s b = Some (Inr (s', acts))"
  show ?thesis
  proof (cases "s' = s")
    case False
    then obtain e f where "fw_accepts s b e f" "fw_rx_counter s' = Some (kf_replay_counter f)"
      using fw_on_frame_InrD[OF o] fw_dispatch_effect(1) by blast
    then show ?thesis by (auto simp: rx_le_def fw_accepts_def fw_fresh_def split: option.splits)
  qed simp
qed (auto dest: fw_on_timeout_InrD)

lemma fw_run_rx:
  "run_machine (fw_step P) s is = Some (s', out) \<Longrightarrow> rx_le (fw_rx_counter s) (fw_rx_counter s')"
proof (induction "is" arbitrary: s out)
  case (Cons i "is")
  then obtain s1 o1 o2 where "fw_step P s i = Some (s1, o1)" "run_machine (fw_step P) s1 is = Some (s', o2)"
    by (auto split: option.splits)
  then show ?case using Cons.IH fw_poll_rx rx_le_trans by (blast dest: fw_step_SomeD)
qed simp

text \<open>
  C17. A captured frame is never acted on a second time: when a frame made the handshake act,
  the same bytes played back after any further inputs are refused or ignored, and make it
  neither send nor install anything.
\<close>

theorem fw_no_replay:
  assumes acted: "fw_poll P s (Fw_Frame b) = Some (s', Inr acts)" "acts \<noteq> []"
    and run: "run_machine (fw_step P) s' is = Some (s'', out)"
    and again: "fw_poll P s'' (Fw_Frame b) = Some (s3, r)"
  shows "r = Inr [] \<or> (\<exists>e. r = Inl e \<and> fw_st s3 = Fw_Failed)"
proof -
  obtain e f where acc: "fw_accepts s b e f" and d: "fw_dispatch P s e f = Some (Inr (s', acts))"
    using fw_poll_cases[OF acted(1)] acted(2) fw_on_frame_InrD by fastforce
  have "rx_le (Some (kf_replay_counter f)) (fw_rx_counter s'')"
    using fw_run_rx[OF run] fw_dispatch_effect(1)[OF d] by simp
  then have stale: "\<not> fw_accepts s'' b e f'" if "key_parse (ea_body e) = Inr f'" for f'
    using acc that by (auto simp: fw_accepts_def fw_fresh_def rx_le_def split: option.splits)
  show ?thesis
    using fw_poll_cases[OF again]
  proof (elim disjE exE conjE)
    fix b' acts' assume "Fw_Frame b = Fw_Frame b'" "r = Inr acts'" "fw_on_frame P s'' b' = Some (Inr (s3, acts'))"
    moreover have "\<not> fw_accepts s'' b e' f'" for e' f'
      using stale acc by (auto simp: fw_accepts_def)
    ultimately show ?thesis using fw_on_frame_InrD by blast
  qed auto
qed

section \<open>Installing keys\<close>

lemma fw_dispatch_complete:
  assumes "fw_dispatch P s e f = Some (Inr (s', acts))" "Fa_Complete k g \<in> set acts"
  shows "ki_pairwise (kf_key_info f) \<and> ki_mic (kf_key_info f) \<and> fw_st s = Fw_AwaitingMsg3 \<and>
    fw_on_msg3 P s e f True = Some (Inr (s', acts))"
proof -
  have "fw_on_msg1 P s e f \<noteq> Some (Inr (s', acts))" "fw_on_msg3 P s e f False \<noteq> Some (Inr (s', acts))"
    "fw_on_group_msg1 P s e f \<noteq> Some (Inr (s', acts))"
    using assms(2) by (auto dest!: fw_on_msg1_InrD fw_on_msg3_InrD fw_on_group_InrD)
  then show ?thesis using fw_dispatch_InrD[OF assms(1)] by blast
qed

lemma fw_complete_only_msg3:
  assumes "fw_poll P s i = Some (s', Inr acts)" "Fa_Complete k g \<in> set acts"
  shows "\<exists>b e f. i = Fw_Frame b \<and> fw_accepts s b e f \<and> ki_pairwise (kf_key_info f) \<and>
    ki_mic (kf_key_info f) \<and> fw_st s = Fw_AwaitingMsg3 \<and> fw_on_msg3 P s e f True = Some (Inr (s', acts))"
  using fw_poll_cases[OF assms(1)]
proof (elim disjE exE conjE)
  fix b acts' assume i: "i = Fw_Frame b" and a: "Inr acts = Inr acts'"
    and o: "fw_on_frame P s b = Some (Inr (s', acts'))"
  have "acts' = acts" using a by simp
  then obtain e f where acc: "fw_accepts s b e f" and d: "fw_dispatch P s e f = Some (Inr (s', acts))"
    using fw_on_frame_InrD[OF o] assms(2) by auto
  then show ?thesis using fw_dispatch_complete[OF d assms(2)] i by blast
qed (use assms(2) in \<open>auto dest: fw_on_timeout_InrD\<close>)

lemma fw_complete_checked:
  assumes "fw_inv P s" "fw_poll P s i = Some (s', Inr acts)" "Fa_Complete k g \<in> set acts"
  shows "\<exists>b e f kd m4. i = Fw_Frame b \<and> fw_accepts s b e f \<and> fw_st s = Fw_AwaitingMsg3 \<and>
    derive_ptk P (fw_pmk s) (hc_akm (fw_config s)) (hc_bssid (fw_config s)) (hc_own_mac (fw_config s))
      (kf_key_nonce f) (fw_snonce s) = Some (Inr k) \<and>
    verify_frame_mic P (ea_raw e) (ptk_kck k) (fw_descriptor_version s) (kf_key_mic f) = Inr () \<and>
    ki_encrypted (kf_key_info f) \<and> unwrap_key_data P (ptk_kek k) (kf_key_data f) = Inr kd \<and>
    rsn_element kd = Some (hc_beacon_rsn_ie (fw_config s)) \<and> gtk_kde kd = Inr g \<and>
    acts = [Fa_Send m4, Fa_DisarmTimer, Fa_Complete k g] \<and> fw_st s' = Fw_Established"
proof -
  obtain b e f where m: "i = Fw_Frame b" "fw_accepts s b e f" "fw_st s = Fw_AwaitingMsg3"
    "fw_on_msg3 P s e f True = Some (Inr (s', acts))"
    using fw_complete_only_msg3[OF assms(2,3)] by blast
  obtain k' kd g' m4 where d: "fw_ptk s = Some k'"
    "verify_frame_mic P (ea_raw e) (ptk_kck k') (fw_descriptor_version s) (kf_key_mic f) = Inr ()"
    "kf_key_nonce f = fw_anonce s" "ki_encrypted (kf_key_info f)"
    "unwrap_key_data P (ptk_kek k') (kf_key_data f) = Inr kd"
    "rsn_element kd = Some (hc_beacon_rsn_ie (fw_config s))" "gtk_kde kd = Inr g'"
    and acts: "acts = [Fa_Send m4, Fa_DisarmTimer] @ [Fa_Complete k' g']"
    and s': "s' = s \<lparr> fw_rx_counter := Some (kf_replay_counter f), fw_st := Fw_Established,
      fw_last_sent := None, fw_retries := 0 \<rparr>"
    using fw_on_msg3_InrD[OF m(4)] by (simp only: if_True) blast
  have eq: "k' = k" "g' = g" using assms(3) by (simp_all add: acts)
  have "derive_ptk P (fw_pmk s) (hc_akm (fw_config s)) (hc_bssid (fw_config s)) (hc_own_mac (fw_config s))
      (kf_key_nonce f) (fw_snonce s) = Some (Inr k)"
    using assms(1) d(1,3) by (simp add: fw_inv_def eq)
  moreover have "fw_st s' = Fw_Established" by (simp add: s')
  moreover have "acts = [Fa_Send m4, Fa_DisarmTimer, Fa_Complete k g]" by (simp add: acts eq)
  ultimately show ?thesis using m(1,2,3) d(2,4,5,6,7) unfolding eq by blast
qed

text \<open>
  C3. Keys are only installed by an authenticated message 3. When polling the handshake hands
  keys to the caller, it was waiting for message 3, the frame's MIC verifies under the
  confirmation key of the pairwise key derived in message 1, its nonce is message 1's, its key
  data is encrypted and unwraps, the RSN element inside equals the one the beacon
  advertised byte for byte, and the group key is the one it carries; message 4 is sent before
  the keys are handed over and the session is then established.
\<close>

theorem fw_complete_authentic:
  assumes "fw_inv P s" "fw_poll P s i = Some (s', Inr acts)" "Fa_Complete k g \<in> set acts"
  shows "\<exists>b e f kd m4. i = Fw_Frame b \<and> fw_accepts s b e f \<and> fw_st s = Fw_AwaitingMsg3 \<and>
    derive_ptk P (fw_pmk s) (hc_akm (fw_config s)) (hc_bssid (fw_config s)) (hc_own_mac (fw_config s))
      (kf_key_nonce f) (fw_snonce s) = Some (Inr k) \<and>
    verify_frame_mic P (ea_raw e) (ptk_kck k) (fw_descriptor_version s) (kf_key_mic f) = Inr () \<and>
    ki_encrypted (kf_key_info f) \<and> unwrap_key_data P (ptk_kek k) (kf_key_data f) = Inr kd \<and>
    rsn_element kd = Some (hc_beacon_rsn_ie (fw_config s)) \<and> gtk_kde kd = Inr g \<and>
    acts = [Fa_Send m4, Fa_DisarmTimer, Fa_Complete k g] \<and> fw_st s' = Fw_Established"
  using fw_complete_checked[OF assms] .

text \<open>A frame that is message 1 of the handshake: pairwise, with no MIC.\<close>

definition is_msg1 :: "bytes \<Rightarrow> bool" where
  "is_msg1 b =
     (case eapol_parse b of
        Inl _ \<Rightarrow> False
      | Inr e \<Rightarrow>
          (case key_parse (ea_body e) of
             Inl _ \<Rightarrow> False
           | Inr f \<Rightarrow> ki_pairwise (kf_key_info f) \<and> \<not> ki_mic (kf_key_info f)))"

definition not_msg1 :: "fw_input \<Rightarrow> bool" where
  "not_msg1 i = (case i of Fw_Frame b \<Rightarrow> \<not> is_msg1 b | Fw_Timeout \<Rightarrow> True)"

definition completes :: "(eapol_error + fw_action list) list \<Rightarrow> bool" where
  "completes rs \<longleftrightarrow> (\<exists>acts k g. Inr acts \<in> set rs \<and> Fa_Complete k g \<in> set acts)"

definition fw_installed :: "fourway \<Rightarrow> bool" where
  "fw_installed s \<longleftrightarrow> fw_st s = Fw_Established \<or> fw_st s = Fw_Failed"

lemma fw_installed_poll:
  assumes "fw_installed s" "not_msg1 i" "fw_poll P s i = Some (s', r)"
  shows "fw_installed s' \<and> \<not> completes [r] \<and>
    (fw_ptk s' = fw_ptk s \<and> fw_anonce s' = fw_anonce s)"
  using fw_poll_cases[OF assms(3)]
proof (elim disjE exE conjE)
  fix b acts assume i: "i = Fw_Frame b" and r: "r = Inr acts"
    and o: "fw_on_frame P s b = Some (Inr (s', acts))"
  show ?thesis
  proof (cases "s' = s \<and> acts = []")
    case False
    then obtain e f where acc: "fw_accepts s b e f" and d: "fw_dispatch P s e f = Some (Inr (s', acts))"
      using fw_on_frame_InrD[OF o] by auto
    have "\<not> (ki_pairwise (kf_key_info f) \<and> \<not> ki_mic (kf_key_info f))"
      using acc assms(2) by (auto simp: i not_msg1_def is_msg1_def fw_accepts_def)
    then show ?thesis using fw_dispatch_InrD[OF d] assms(1) acc r
      by (auto simp: completes_def fw_installed_def fw_accepts_def dest!: fw_on_msg3_InrD fw_on_group_InrD)
  qed (use assms(1) r in \<open>simp add: completes_def\<close>)
qed (use assms(1) in \<open>auto simp: fw_installed_def completes_def dest!: fw_on_timeout_InrD\<close>)

text \<open>
  C4. No key reinstallation without a new message 1: once the pairwise key is installed, no
  sequence of inputs that has no message 1 in it, retransmitted message 3s included, makes the
  handshake hand over pairwise keys again or change the key it holds.
\<close>

theorem fw_no_reinstall:
  assumes "fw_st s = Fw_Established" "list_all not_msg1 is"
    and "run_machine (fw_step P) s is = Some (s', out)"
  shows "\<not> completes out \<and> fw_ptk s' = fw_ptk s"
proof -
  have "fw_installed s" using assms(1) by (simp add: fw_installed_def)
  then show ?thesis using assms(2,3)
  proof (induction "is" arbitrary: s out)
    case (Cons i "is")
    then obtain s1 o1 o2 where st: "fw_step P s i = Some (s1, o1)"
      and run: "run_machine (fw_step P) s1 is = Some (s', o2)" and out: "out = o1 @ o2"
      by (auto split: option.splits)
    obtain r where "o1 = [r]" "fw_poll P s i = Some (s1, r)" using fw_step_SomeD[OF st] by blast
    moreover from this have "fw_installed s1 \<and> \<not> completes [r] \<and> fw_ptk s1 = fw_ptk s"
      using fw_installed_poll[of s i P s1 r] Cons.prems(1,2) by simp
    ultimately show ?case using Cons.IH[of s1 o2] run Cons.prems(2) out
      by (auto simp: completes_def)
  qed (simp add: completes_def)
qed

section \<open>A complete exchange\<close>

text \<open>
  The two frames an authenticator sends: message 1 in the clear with its nonce, message 3 signed
  with the confirmation key, carrying the wrapped key data.
\<close>

definition ap_msg1 :: "kdv \<Rightarrow> u64 \<Rightarrow> bytes \<Rightarrow> key_frame" where
  "ap_msg1 v c anonce = fw_reply (kdv_bits v OR KI_PAIRWISE OR KI_ACK) c anonce []"

definition ap_msg3 :: "kdv \<Rightarrow> u64 \<Rightarrow> bytes \<Rightarrow> bytes \<Rightarrow> key_frame" where
  "ap_msg3 v c anonce wrapped =
     fw_reply (kdv_bits v OR KI_PAIRWISE OR KI_INSTALL OR KI_ACK OR KI_MIC OR KI_SECURE OR KI_ENCRYPTED)
       c anonce wrapped"

lemma ap_msg1_flags:
  "ki_pairwise (kf_key_info (ap_msg1 v c an))" "\<not> ki_mic (kf_key_info (ap_msg1 v c an))"
  "ki_ack (kf_key_info (ap_msg1 v c an))" "\<not> ki_request (kf_key_info (ap_msg1 v c an))"
  "kf_key_info (ap_msg1 v c an) AND 7 = kdv_bits v"
  by (cases v; simp add: ap_msg1_def fw_reply_def ki_tests ki_masks kdv_bits_def)+

lemma ap_msg3_flags:
  "ki_pairwise (kf_key_info (ap_msg3 v c an w))" "ki_mic (kf_key_info (ap_msg3 v c an w))"
  "ki_ack (kf_key_info (ap_msg3 v c an w))" "\<not> ki_request (kf_key_info (ap_msg3 v c an w))"
  "ki_encrypted (kf_key_info (ap_msg3 v c an w))"
  by (cases v; simp add: ap_msg3_def fw_reply_def ki_tests ki_masks kdv_bits_def)+

lemma ki_version_ap_msg1:
  "(v = AkmDefinedCmac \<longrightarrow> akm_is_sae akm) \<Longrightarrow> ki_version (kf_key_info (ap_msg1 v c an)) akm = Inr v"
  unfolding ki_version_def kdv_from_key_info_for_def kdv_from_key_info_def ap_msg1_flags(5)
  by (cases v) (simp_all add: kdv_bits_def)

lemma key_frame_on_wire:
  assumes "key_wf f" "key_encode f pv = Some fr" "kf_descriptor_type f = DESCRIPTOR_TYPE_RSN"
    "ki_ack (kf_key_info f)" "\<not> ki_request (kf_key_info f)"
    "fw_st s \<noteq> Fw_Failed" "fw_fresh s (kf_replay_counter f)"
  shows "\<exists>e. fw_accepts s fr e f \<and> ea_version e = pv \<and> ea_raw e = fr"
  using assms eapol_roundtrip[of pv Pt_Key "key_body f" fr "[]"]
  by (simp add: fw_accepts_def key_encode_eapol key_parse_body)

lemma key_wf_reply: "length n = 32 \<Longrightarrow> length d \<le> 60000 \<Longrightarrow> key_wf (fw_reply ki c n d)"
  by (simp add: key_wf_def fw_reply_def BODY_MIN_def)

lemma fw_msg1_accepted:
  assumes P: "prims_ok P" and cfg: "fw_cfg_ok (fw_config s)"
    and st: "fw_st s \<noteq> Fw_Failed" "fw_fresh s c" and an: "length anonce = 32"
    and v: "v = AkmDefinedCmac \<longrightarrow> akm_is_sae (hc_akm (fw_config s))"
    and k: "derive_ptk P (fw_pmk s) (hc_akm (fw_config s)) (hc_bssid (fw_config s))
      (hc_own_mac (fw_config s)) anonce (fw_snonce s) = Some (Inr k)"
    and m1: "key_encode (ap_msg1 v c anonce) pv = Some m1"
  shows "\<exists>m2. fw_poll P s (Fw_Frame m1) =
    Some (s \<lparr> fw_anonce := anonce, fw_descriptor_version := v, fw_protocol_version := pv,
             fw_rx_counter := Some c, fw_ptk := Some k, fw_st := Fw_AwaitingMsg3, fw_retries := 0,
             fw_last_sent := Some m2 \<rparr>, Inr [Fa_Send m2, Fa_ArmTimer RETRY_INTERVAL_MS])"
proof -
  have wf: "key_wf (ap_msg1 v c anonce)" using an by (simp add: ap_msg1_def key_wf_reply)
  have rc: "kf_replay_counter (ap_msg1 v c anonce) = c" "kf_key_nonce (ap_msg1 v c anonce) = anonce"
    "kf_descriptor_type (ap_msg1 v c anonce) = DESCRIPTOR_TYPE_RSN"
    by (simp_all add: ap_msg1_def fw_reply_def)
  obtain e where e: "fw_accepts s m1 e (ap_msg1 v c anonce)" "ea_version e = pv"
    using key_frame_on_wire[OF wf m1 rc(3) ap_msg1_flags(3,4) st(1)] st(2) rc(1) by auto
  let ?reply = "fw_reply (kdv_bits v OR KI_PAIRWISE OR KI_MIC) c (fw_snonce s) (hc_assoc_rsn_ie (fw_config s))"
  obtain m2 where "key_encode_signed P ?reply pv (ptk_kck k) v = Some m2"
    using key_encode_signed_Some[of ?reply P pv "ptk_kck k" v] cfg by (auto simp: fw_cfg_ok_def)
  then show ?thesis
    using fw_on_frame_accepts[OF e(1), of P] v k e(2) rc
    by (simp add: fw_poll_def fw_dispatch_def ap_msg1_flags fw_on_msg1_def ki_version_ap_msg1)
qed

lemma fw_msg3_accepted:
  assumes P: "prims_ok P" and st: "fw_st s = Fw_AwaitingMsg3" "fw_fresh s c"
    and an: "length (fw_anonce s) = 32" and k: "fw_ptk s = Some k"
    and w: "length w \<le> 60000" "unwrap_key_data P (ptk_kek k) w = Inr kd"
    and kd: "rsn_element kd = Some (hc_beacon_rsn_ie (fw_config s))" "gtk_kde kd = Inr g"
    and m3: "key_encode_signed P (ap_msg3 v c (fw_anonce s) w) pv (ptk_kck k) (fw_descriptor_version s) = Some m3"
  shows "\<exists>m4. fw_poll P s (Fw_Frame m3) =
    Some (s \<lparr> fw_rx_counter := Some c, fw_st := Fw_Established, fw_last_sent := None, fw_retries := 0 \<rparr>,
          Inr [Fa_Send m4, Fa_DisarmTimer, Fa_Complete k g])"
proof -
  let ?f = "ap_msg3 v c (fw_anonce s) w"
  have wf: "key_wf ?f" using an w(1) by (simp add: ap_msg3_def key_wf_reply)
  obtain mic where mic: "key_encode (?f \<lparr> kf_key_mic := mic \<rparr>) pv = Some m3"
    "verify_frame_mic P m3 (ptk_kck k) (fw_descriptor_version s) mic = Inr ()"
    using signed_frame_ok[OF P wf, of pv "ptk_kck k" "fw_descriptor_version s"] m3 by auto
  have lm: "length mic = 16"
    using mic(2) by (auto simp: verify_frame_mic_def verify_mic_def MIC_LEN_def split: if_splits)
  have wf': "key_wf (?f \<lparr> kf_key_mic := mic \<rparr>)" using wf lm by (simp add: key_wf_def)
  have fl: "kf_key_info (?f \<lparr> kf_key_mic := mic \<rparr>) = kf_key_info ?f"
    "kf_descriptor_type (?f \<lparr> kf_key_mic := mic \<rparr>) = DESCRIPTOR_TYPE_RSN"
    "kf_replay_counter (?f \<lparr> kf_key_mic := mic \<rparr>) = c"
    "kf_key_nonce (?f \<lparr> kf_key_mic := mic \<rparr>) = fw_anonce s"
    "kf_key_data (?f \<lparr> kf_key_mic := mic \<rparr>) = w"
    by (simp_all add: ap_msg3_def fw_reply_def)
  obtain e where e: "fw_accepts s m3 e (?f \<lparr> kf_key_mic := mic \<rparr>)" "ea_raw e = m3"
    using key_frame_on_wire[OF wf' mic(1) fl(2), of s] ap_msg3_flags fl st by auto
  let ?reply = "fw_reply (kdv_bits (fw_descriptor_version s) OR KI_PAIRWISE OR KI_MIC OR KI_SECURE) c
    (replicate 32 0) []"
  obtain m4 where "key_encode_signed P ?reply (fw_protocol_version s) (ptk_kck k)
      (fw_descriptor_version s) = Some m4"
    using key_encode_signed_Some[of ?reply] by fastforce
  then show ?thesis
    using fw_on_frame_accepts[OF e(1), of P] e(2) st(1) mic(2) k w kd fl
    by (simp add: fw_poll_def fw_dispatch_def ap_msg3_flags fw_on_msg3_def)
qed

lemma fw_exchange:
  assumes P: "prims_ok P" and cfg: "fw_cfg_ok (fw_config s)"
    and st: "fw_st s \<noteq> Fw_Failed" "fw_fresh s c1" "c1 < c3"
    and an: "length anonce = 32" and w: "length w \<le> 60000"
    and v: "v = AkmDefinedCmac \<longrightarrow> akm_is_sae (hc_akm (fw_config s))"
    and k: "derive_ptk P (fw_pmk s) (hc_akm (fw_config s)) (hc_bssid (fw_config s))
      (hc_own_mac (fw_config s)) anonce (fw_snonce s) = Some (Inr k)"
    and kd: "unwrap_key_data P (ptk_kek k) w = Inr kd"
      "rsn_element kd = Some (hc_beacon_rsn_ie (fw_config s))" "gtk_kde kd = Inr g"
    and m1: "key_encode (ap_msg1 v c1 anonce) pv = Some m1"
    and m3: "key_encode_signed P (ap_msg3 v c3 anonce w) pv (ptk_kck k) v = Some m3"
  shows "\<exists>s1 s2 m2 m4.
    fw_poll P s (Fw_Frame m1) = Some (s1, Inr [Fa_Send m2, Fa_ArmTimer RETRY_INTERVAL_MS]) \<and>
    fw_poll P s1 (Fw_Frame m3) = Some (s2, Inr [Fa_Send m4, Fa_DisarmTimer, Fa_Complete k g]) \<and>
    fw_st s2 = Fw_Established"
proof -
  obtain m2 s1 where p1: "fw_poll P s (Fw_Frame m1) =
      Some (s1, Inr [Fa_Send m2, Fa_ArmTimer RETRY_INTERVAL_MS])"
    and s1: "fw_st s1 = Fw_AwaitingMsg3" "fw_rx_counter s1 = Some c1" "fw_anonce s1 = anonce"
      "fw_ptk s1 = Some k" "fw_descriptor_version s1 = v" "fw_config s1 = fw_config s"
    using fw_msg1_accepted[OF P cfg st(1,2) an v k m1] by fastforce
  have f: "fw_fresh s1 c3" using s1(2) st(3) by (simp add: fw_fresh_def)
  obtain m4 s2 where p2: "fw_poll P s1 (Fw_Frame m3) =
      Some (s2, Inr [Fa_Send m4, Fa_DisarmTimer, Fa_Complete k g])" "fw_st s2 = Fw_Established"
    using fw_msg3_accepted[OF P s1(1) f _ s1(4) w kd(1) _ kd(3), of v pv m3] s1 an kd(2) m3
    by force
  show ?thesis using p1 p2 by blast
qed

text \<open>
  C19. An honest exchange completes: when the authenticator holds the same PMK and sends
  message 1 and then, with a greater counter, message 3 signed and wrapped under the keys both
  sides derive, carrying the beacon's RSN element and a group key, the handshake answers both,
  hands over exactly the derived pairwise key and that group key, and is established.
\<close>

theorem fw_honest_exchange:
  assumes "prims_ok P" "fw_cfg_ok cfg" "length anonce = 32" "c1 < c3" "length w \<le> 60000"
    and "v = AkmDefinedCmac \<longrightarrow> akm_is_sae (hc_akm cfg)"
    and "derive_ptk P pmk (hc_akm cfg) (hc_own_mac cfg) (hc_bssid cfg) snonce anonce = Some (Inr k)"
    and "unwrap_key_data P (ptk_kek k) w = Inr kd"
    and "rsn_element kd = Some (hc_beacon_rsn_ie cfg)" "gtk_kde kd = Inr g"
    and "key_encode (ap_msg1 v c1 anonce) pv = Some m1"
    and "key_encode_signed P (ap_msg3 v c3 anonce w) pv (ptk_kck k) v = Some m3"
  shows "\<exists>s' m2 m4. run_machine (fw_step P) (fw_new pmk cfg snonce) [Fw_Frame m1, Fw_Frame m3] =
      Some (s', [Inr [Fa_Send m2, Fa_ArmTimer RETRY_INTERVAL_MS],
                 Inr [Fa_Send m4, Fa_DisarmTimer, Fa_Complete k g]]) \<and>
    fw_st s' = Fw_Established"
proof -
  have k: "derive_ptk P (fw_pmk (fw_new pmk cfg snonce)) (hc_akm (fw_config (fw_new pmk cfg snonce)))
      (hc_bssid (fw_config (fw_new pmk cfg snonce))) (hc_own_mac (fw_config (fw_new pmk cfg snonce)))
      anonce (fw_snonce (fw_new pmk cfg snonce)) = Some (Inr k)"
    using derive_ptk_sym[of P pmk "hc_akm cfg" "hc_own_mac cfg" "hc_bssid cfg" snonce anonce] assms(7)
    by (simp add: fw_new_def)
  show ?thesis
    using fw_exchange[OF assms(1) _ _ _ assms(4,3,5) _ k assms(8) _ assms(10,11,12)] assms(2,6,9)
    by (force simp: fw_new_def fw_fresh_def fw_step_def)
qed

section \<open>Examples\<close>

definition fw_example_cfg :: hs_config where
  "fw_example_cfg = \<lparr> hc_akm = Psk, hc_own_mac = [2, 0, 0, 0, 0, 1], hc_bssid = [2, 0, 0, 0, 0, 2],
     hc_assoc_rsn_ie = [48, 1, 7], hc_beacon_rsn_ie = [48, 2, 1, 0] \<rparr>"

definition fw_example_nonce :: bytes where "fw_example_nonce = replicate 32 9"
definition fw_example :: fourway where "fw_example = fw_new [1, 2, 3] fw_example_cfg (replicate 32 8)"

definition fw_example_gtk :: gtk where
  "fw_example_gtk = \<lparr> gtk_key = replicate 16 6, gtk_index = 1 \<rparr>"

definition fw_example_kd :: bytes where
  "fw_example_kd = element_enc (48, [1, 0]) @ element_enc (221, [0, 15, 172, 1, 1, 0] @ replicate 16 6)"

definition fw_example_wrapped :: bytes where
  "fw_example_wrapped = replicate 8 0 @ fw_example_kd @ [221, 0, 0, 0]"

lemma fw_example_items:
  "key_data_items (fw_example_kd @ [221, 0, 0, 0]) =
     [Ie 48 [48, 2, 1, 0], Kde (0, 15, 172) 1 ([1, 0] @ replicate 16 6)]"
proof -
  let ?items = "[(48, [1, 0]), (221, [0, 15, 172, 1, 1, 0] @ replicate 16 6)] :: (u8 \<times> bytes) list"
  have "list_all item_wf ?items" by (simp add: item_wf_def)
  from kd_codec.collect_append[OF this, of "[221, 0, 0, 0]"]
  show ?thesis
    by (simp add: key_data_items_def fw_example_kd_def item_of_def element_enc_def EID_VENDOR_def
        kd_it.collect_stop key_data_next_def)
qed

lemma fw_example_key_data:
  "rsn_element (fw_example_kd @ [221, 0, 0, 0]) = Some (hc_beacon_rsn_ie fw_example_cfg)"
  "gtk_kde (fw_example_kd @ [221, 0, 0, 0]) = Inr fw_example_gtk"
  by (simp_all add: rsn_element_def gtk_kde_def fw_example_items EID_RSN_def fw_example_cfg_def
      gtk_of_item_def fw_example_gtk_def)

lemma fw_example_unwrap:
  "unwrap_key_data toy_prims kek fw_example_wrapped = Inr (fw_example_kd @ [221, 0, 0, 0])"
  by (simp add: unwrap_key_data_def ICV_LEN_def fw_example_wrapped_def toy_prims_def)
    (simp add: fw_example_kd_def element_enc_def)

lemma fw_toy_frames:
  "\<exists>k m1 m3.
     derive_ptk toy_prims pmk Psk own bssid snonce fw_example_nonce = Some (Inr k) \<and>
     key_encode (ap_msg1 HmacSha1 c1 fw_example_nonce) 2 = Some m1 \<and>
     key_encode_signed toy_prims (ap_msg3 HmacSha1 c3 fw_example_nonce fw_example_wrapped) 2 (ptk_kck k)
       HmacSha1 = Some m3"
proof -
  obtain k where k: "derive_ptk toy_prims pmk Psk own bssid snonce fw_example_nonce = Some (Inr k)"
    using derive_ptk_cases[OF toy_prims_ok, of Psk pmk own bssid snonce fw_example_nonce]
    by (auto simp: ptk_akm_def)
  have "key_encode (ap_msg1 HmacSha1 c1 fw_example_nonce) 2 \<noteq> None"
    by (simp add: key_encode_def ap_msg1_def BODY_MIN_def)
  moreover have "key_encode_signed toy_prims
      (ap_msg3 HmacSha1 c3 fw_example_nonce fw_example_wrapped) 2 (ptk_kck k) HmacSha1 \<noteq> None"
    by (rule key_encode_signed_Some)
      (simp add: ap_msg3_def fw_example_wrapped_def fw_example_kd_def element_enc_def)
  ultimately show ?thesis using k by blast
qed

lemmas fw_example_frames = fw_toy_frames[of "fw_pmk fw_example" "hc_own_mac fw_example_cfg"
  "hc_bssid fw_example_cfg" "replicate 32 8"]

lemma fw_example_run:
  "\<exists>s1 s2 m1 m2 m3 m4 k.
    fw_inv toy_prims s1 \<and>
    fw_poll toy_prims fw_example (Fw_Frame m1) = Some (s1, Inr [Fa_Send m2, Fa_ArmTimer RETRY_INTERVAL_MS]) \<and>
    fw_poll toy_prims s1 (Fw_Frame m3) =
      Some (s2, Inr [Fa_Send m4, Fa_DisarmTimer, Fa_Complete k fw_example_gtk]) \<and>
    fw_st s2 = Fw_Established"
proof -
  obtain k m1 m3 where m: "derive_ptk toy_prims (fw_pmk fw_example) Psk (hc_own_mac fw_example_cfg)
      (hc_bssid fw_example_cfg) (replicate 32 8) fw_example_nonce = Some (Inr k)"
    "key_encode (ap_msg1 HmacSha1 1 fw_example_nonce) 2 = Some m1"
    "key_encode_signed toy_prims (ap_msg3 HmacSha1 2 fw_example_nonce fw_example_wrapped) 2 (ptk_kck k)
       HmacSha1 = Some m3"
    using fw_example_frames by blast
  have sel: "fw_config fw_example = fw_example_cfg" "fw_snonce fw_example = replicate 32 8"
    "hc_akm fw_example_cfg = Psk" "fw_st fw_example = Fw_Idle" "fw_fresh fw_example 1"
    by (simp_all add: fw_example_def fw_new_def fw_example_cfg_def fw_fresh_def)
  have cfg: "fw_cfg_ok fw_example_cfg" by (simp add: fw_cfg_ok_def fw_example_cfg_def)
  have ok: "length fw_example_nonce = 32" "length fw_example_wrapped \<le> 60000"
    by (simp_all add: fw_example_nonce_def fw_example_wrapped_def fw_example_kd_def element_enc_def)
  have k: "derive_ptk toy_prims (fw_pmk fw_example) (hc_akm (fw_config fw_example))
      (hc_bssid (fw_config fw_example)) (hc_own_mac (fw_config fw_example)) fw_example_nonce
      (fw_snonce fw_example) = Some (Inr k)"
    using m(1) derive_ptk_sym[of toy_prims "fw_pmk fw_example" Psk "hc_own_mac fw_example_cfg"]
    by (simp add: sel)
  obtain s1 s2 m2 m4 where
    p: "fw_poll toy_prims fw_example (Fw_Frame m1) = Some (s1, Inr [Fa_Send m2, Fa_ArmTimer RETRY_INTERVAL_MS])"
      "fw_poll toy_prims s1 (Fw_Frame m3) =
        Some (s2, Inr [Fa_Send m4, Fa_DisarmTimer, Fa_Complete k fw_example_gtk])"
      "fw_st s2 = Fw_Established"
    using fw_exchange[OF toy_prims_ok _ _ _ _ ok _ k fw_example_unwrap _ fw_example_key_data(2) m(2,3)]
      sel cfg fw_example_key_data(1)
    by auto
  have "fw_inv toy_prims s1"
    using fw_inv_poll[OF _ p(1)] fw_inv_new[OF cfg] by (simp add: fw_example_def)
  then show ?thesis using p by blast
qed

theorem fw_no_replay_witness:
  "\<exists>s s' s3 b m r.
     fw_poll toy_prims s (Fw_Frame b) = Some (s', Inr [Fa_Send m, Fa_ArmTimer RETRY_INTERVAL_MS]) \<and>
     fw_poll toy_prims s' (Fw_Frame b) = Some (s3, r) \<and>
     (r = Inr [] \<or> (\<exists>e. r = Inl e \<and> fw_st s3 = Fw_Failed))"
proof -
  obtain s1 m1 m2 where inv: "fw_inv toy_prims s1"
    and p: "fw_poll toy_prims fw_example (Fw_Frame m1) = Some (s1, Inr [Fa_Send m2, Fa_ArmTimer RETRY_INTERVAL_MS])"
    using fw_example_run by blast
  obtain s3 r where q: "fw_poll toy_prims s1 (Fw_Frame m1) = Some (s3, r)"
    using fw_poll_no_panic[OF toy_prims_ok inv] by blast
  have "r = Inr [] \<or> (\<exists>e. r = Inl e \<and> fw_st s3 = Fw_Failed)"
    using fw_no_replay[OF p _ _ q, of "[]"] by simp
  with p q show ?thesis by (intro exI conjI)
qed

theorem fw_complete_authentic_witness:
  "\<exists>s b e f kd (k :: ptk). fw_inv toy_prims s \<and> fw_accepts s b e f \<and> fw_st s = Fw_AwaitingMsg3 \<and>
     verify_frame_mic toy_prims (ea_raw e) (ptk_kck k) (fw_descriptor_version s) (kf_key_mic f) = Inr () \<and>
     unwrap_key_data toy_prims (ptk_kek k) (kf_key_data f) = Inr kd \<and>
     rsn_element kd = Some (hc_beacon_rsn_ie (fw_config s))"
proof -
  obtain s1 s2 m3 m4 k where inv: "fw_inv toy_prims s1" and
    p: "fw_poll toy_prims s1 (Fw_Frame m3) =
      Some (s2, Inr [Fa_Send m4, Fa_DisarmTimer, Fa_Complete k fw_example_gtk])"
    using fw_example_run by blast
  have "Fa_Complete k fw_example_gtk \<in> set [Fa_Send m4, Fa_DisarmTimer, Fa_Complete k fw_example_gtk]"
    by simp
  from fw_complete_authentic[OF inv p this] inv show ?thesis by blast
qed

theorem fw_no_reinstall_witness:
  "\<exists>s s' out. fw_st s = Fw_Established \<and>
     run_machine (fw_step toy_prims) s [Fw_Timeout, Fw_Frame [2, 0, 0, 0]] = Some (s', out) \<and>
     \<not> completes out \<and> fw_ptk s' = fw_ptk s"
proof -
  obtain s1 s2 m3 r where i: "fw_inv toy_prims s1" and p: "fw_poll toy_prims s1 (Fw_Frame m3) = Some (s2, r)"
    and e: "fw_st s2 = Fw_Established"
    using fw_example_run by blast
  have "fw_inv toy_prims s2" by (rule fw_inv_poll[OF i p])
  then obtain s3 out where run: "run_machine (fw_step toy_prims) s2 [Fw_Timeout, Fw_Frame [2, 0, 0, 0]] = Some (s3, out)"
    using fw_machine.run_ok[of toy_prims s2 "[Fw_Timeout, Fw_Frame [2, 0, 0, 0]]"] by auto
  have "list_all not_msg1 [Fw_Timeout, Fw_Frame [2, 0, 0, 0]]"
    by (simp add: not_msg1_def is_msg1_def eapol_parse_def packet_type_from_u8_def from_be16_def
        key_parse_def BODY_MIN_def)
  from fw_no_reinstall[OF e this run] show ?thesis using e run by blast
qed

theorem fw_honest_exchange_witness:
  "\<exists>m1 m3 s' m2 m4 k. run_machine (fw_step toy_prims) fw_example [Fw_Frame m1, Fw_Frame m3] =
     Some (s', [Inr [Fa_Send m2, Fa_ArmTimer RETRY_INTERVAL_MS],
                Inr [Fa_Send m4, Fa_DisarmTimer, Fa_Complete k fw_example_gtk]])"
proof -
  obtain k m1 m3 where m: "derive_ptk toy_prims (fw_pmk fw_example) Psk (hc_own_mac fw_example_cfg)
      (hc_bssid fw_example_cfg) (replicate 32 8) fw_example_nonce = Some (Inr k)"
    "key_encode (ap_msg1 HmacSha1 1 fw_example_nonce) 2 = Some m1"
    "key_encode_signed toy_prims (ap_msg3 HmacSha1 2 fw_example_nonce fw_example_wrapped) 2 (ptk_kck k)
       HmacSha1 = Some m3"
    using fw_example_frames by blast
  have cfg: "fw_cfg_ok fw_example_cfg" by (simp add: fw_cfg_ok_def fw_example_cfg_def)
  have ok: "length fw_example_nonce = 32" "length fw_example_wrapped \<le> 60000"
    by (simp_all add: fw_example_nonce_def fw_example_wrapped_def fw_example_kd_def element_enc_def)
  have k: "derive_ptk toy_prims [1, 2, 3] (hc_akm fw_example_cfg) (hc_own_mac fw_example_cfg)
      (hc_bssid fw_example_cfg) (replicate 32 8) fw_example_nonce = Some (Inr k)"
    using m(1) by (simp add: fw_example_def fw_new_def fw_example_cfg_def)
  have c: "(1 :: u64) < 2" by simp
  have v: "HmacSha1 = AkmDefinedCmac \<longrightarrow> akm_is_sae (hc_akm fw_example_cfg)" by simp
  from fw_honest_exchange[OF toy_prims_ok cfg ok(1) c ok(2) v k fw_example_unwrap fw_example_key_data m(2,3)]
  show ?thesis unfolding fw_example_def by blast
qed

section \<open>Where the code falls short\<close>

text \<open>
  An established session accepts a message 1 that anyone in range can send, since message 1
  has no MIC. With the nonce of the running session the same pairwise key is derived
  again, and the message 3 that follows hands that key over for a second installation: the
  reinstallation the dispatch comment rules out.
\<close>

theorem fw_reinstall_after_msg1:
  assumes "prims_ok P" "fw_inv P s" "fw_st s = Fw_Established" "fw_ptk s = Some k"
    "length (fw_anonce s) = 32" "fw_fresh s c1" "c1 < c3" "length w \<le> 60000"
    "v = AkmDefinedCmac \<longrightarrow> akm_is_sae (hc_akm (fw_config s))"
    "unwrap_key_data P (ptk_kek k) w = Inr kd" "rsn_element kd = Some (hc_beacon_rsn_ie (fw_config s))"
    "gtk_kde kd = Inr g"
    "key_encode (ap_msg1 v c1 (fw_anonce s)) pv = Some m1"
    "key_encode_signed P (ap_msg3 v c3 (fw_anonce s) w) pv (ptk_kck k) v = Some m3"
  shows "\<exists>s1 s2 r1 m4. fw_poll P s (Fw_Frame m1) = Some (s1, Inr r1) \<and>
    fw_poll P s1 (Fw_Frame m3) = Some (s2, Inr [Fa_Send m4, Fa_DisarmTimer, Fa_Complete k g])"
proof -
  have "derive_ptk P (fw_pmk s) (hc_akm (fw_config s)) (hc_bssid (fw_config s)) (hc_own_mac (fw_config s))
      (fw_anonce s) (fw_snonce s) = Some (Inr k)" "fw_cfg_ok (fw_config s)" "fw_st s \<noteq> Fw_Failed"
    using assms(2,3,4) by (auto simp: fw_inv_def)
  then show ?thesis using fw_exchange[OF assms(1) _ _ assms(6,7,5,8,9) _ assms(10-14)] by blast
qed

theorem fw_reinstall_after_msg1_witness:
  "\<exists>s k m1 m3 s1 s2 r1 m4. fw_st s = Fw_Established \<and> fw_ptk s = Some k \<and>
     fw_poll toy_prims s (Fw_Frame m1) = Some (s1, Inr r1) \<and>
     fw_poll toy_prims s1 (Fw_Frame m3) =
       Some (s2, Inr [Fa_Send m4, Fa_DisarmTimer, Fa_Complete k fw_example_gtk])"
proof -
  obtain k m1 m3 where m: "derive_ptk toy_prims (fw_pmk fw_example) Psk (hc_own_mac fw_example_cfg)
      (hc_bssid fw_example_cfg) (replicate 32 8) fw_example_nonce = Some (Inr k)"
    "key_encode (ap_msg1 HmacSha1 3 fw_example_nonce) 2 = Some m1"
    "key_encode_signed toy_prims (ap_msg3 HmacSha1 4 fw_example_nonce fw_example_wrapped) 2 (ptk_kck k)
       HmacSha1 = Some m3"
    using fw_example_frames by blast
  define s where "s = fw_example \<lparr> fw_st := Fw_Established, fw_ptk := Some k,
    fw_anonce := fw_example_nonce, fw_rx_counter := Some 2 \<rparr>"
  have sel: "fw_config s = fw_example_cfg" "fw_snonce s = replicate 32 8" "fw_pmk s = fw_pmk fw_example"
    "hc_akm fw_example_cfg = Psk" "fw_st s = Fw_Established" "fw_fresh s 3" "fw_ptk s = Some k"
    "fw_anonce s = fw_example_nonce" "fw_retries s = 0" "fw_last_sent s = None" "fw_rx_counter s = Some 2"
    by (simp_all add: s_def fw_example_def fw_new_def fw_example_cfg_def fw_fresh_def)
  have inv: "fw_inv toy_prims s"
    using m(1) derive_ptk_sym[of toy_prims "fw_pmk fw_example" Psk "hc_own_mac fw_example_cfg"]
    by (simp add: fw_inv_def sel fw_cfg_ok_def) (simp add: fw_example_cfg_def)
  have ok: "length (fw_anonce s) = 32" "length fw_example_wrapped \<le> 60000"
    by (simp_all add: sel fw_example_nonce_def fw_example_wrapped_def fw_example_kd_def element_enc_def)
  have c: "(3 :: u64) < 4" by simp
  have v: "HmacSha1 = AkmDefinedCmac \<longrightarrow> akm_is_sae (hc_akm (fw_config s))" by simp
  have b: "rsn_element (fw_example_kd @ [221, 0, 0, 0]) = Some (hc_beacon_rsn_ie (fw_config s))"
    using fw_example_key_data(1) by (simp add: sel)
  from fw_reinstall_after_msg1[OF toy_prims_ok inv sel(5,7) ok(1) sel(6) c ok(2) v fw_example_unwrap b
      fw_example_key_data(2)] m(2,3) sel
  show ?thesis by metis
qed

text \<open>
  A failed handshake is meant to refuse every later input, but a timeout that arrives while a
  message is still recorded as unanswered retransmits it.
\<close>

lemma fw_failed_still_sends:
  assumes "fw_st s = Fw_Failed" "fw_last_sent s = Some m" "fw_retries s < RETRY_LIMIT"
  shows "\<exists>s'. fw_poll P s Fw_Timeout = Some (s', Inr [Fa_Send m, Fa_ArmTimer RETRY_INTERVAL_MS]) \<and>
    fw_st s' = Fw_Failed"
  using assms by (simp add: fw_poll_def fw_on_timeout_def)

section \<open>Failure and retransmission\<close>

text \<open>
  An error ends the handshake for every frame after it: whatever error polling returns, no
  later input of any kind gives keys, pairwise or group, and every later frame is refused.
\<close>

theorem fw_failed_for_good:
  assumes "fw_poll P s i = Some (s', Inl err)"
    and "run_machine (fw_step P) s' is = Some (s'', out)"
  shows "fw_st s'' = Fw_Failed \<and> fw_poll P s'' (Fw_Frame b) = Some (s'', Inl Ee_UnexpectedMessage) \<and>
    (\<forall>acts k g. Inr acts \<in> set out \<longrightarrow> Fa_Complete k g \<notin> set acts \<and> Fa_NewGtk g \<notin> set acts)"
proof -
  have step: "fw_st t' = Fw_Failed \<and>
      (\<forall>acts k g. r = Inr acts \<longrightarrow> Fa_Complete k g \<notin> set acts \<and> Fa_NewGtk g \<notin> set acts)"
    if "fw_st t = Fw_Failed" "fw_poll P t j = Some (t', r)" for t j t' r
    using that
    by (cases j) (auto simp: fw_poll_def fw_on_frame_def fw_on_timeout_def split: option.splits if_splits)
  have "fw_st s' = Fw_Failed" using fw_poll_cases[OF assms(1)] by auto
  then have "fw_st s'' = Fw_Failed \<and>
    (\<forall>acts k g. Inr acts \<in> set out \<longrightarrow> Fa_Complete k g \<notin> set acts \<and> Fa_NewGtk g \<notin> set acts)"
    using assms(2)
  proof (induction "is" arbitrary: s' out)
    case (Cons i "is")
    then obtain s1 o1 o2 where st: "fw_step P s' i = Some (s1, o1)"
      and run: "run_machine (fw_step P) s1 is = Some (s'', o2)" and out: "out = o1 @ o2"
      by (auto split: option.splits)
    obtain r where r: "o1 = [r]" "fw_poll P s' i = Some (s1, r)" using fw_step_SomeD[OF st] by blast
    show ?case using step[OF Cons.prems(1) r(2)] Cons.IH[OF _ run] out r(1) by auto
  qed simp
  then show ?thesis by (simp add: fw_poll_def fw_on_frame_def)
qed

theorem fw_failed_for_good_witness:
  "\<exists>s' s'' out. fw_poll toy_prims fw_example (Fw_Frame []) = Some (s', Inl Ee_Malformed) \<and>
     run_machine (fw_step toy_prims) s' [Fw_Timeout, Fw_Frame [1]] = Some (s'', out) \<and>
     fw_st s'' = Fw_Failed"
proof -
  have "fw_poll toy_prims fw_example (Fw_Frame []) =
      Some (fw_example \<lparr> fw_st := Fw_Failed \<rparr>, Inl Ee_Malformed)"
    by (simp add: fw_poll_def fw_on_frame_def eapol_parse_def fw_example_def fw_new_def)
  moreover obtain s'' out where
    "run_machine (fw_step toy_prims) (fw_example \<lparr> fw_st := Fw_Failed \<rparr>) [Fw_Timeout, Fw_Frame [1]] = Some (s'', out)"
    by (simp add: fw_step_def fw_poll_def fw_on_timeout_def fw_example_def fw_new_def fw_on_frame_def)
  ultimately show ?thesis using fw_failed_for_good by blast
qed

text \<open>
  Retransmission is bounded and exact: after a message is sent, three timeouts in a row
  resend exactly that message, and the fourth fails the handshake with a timeout.
\<close>

theorem fw_retransmit_bounded:
  assumes "fw_last_sent s = Some m" "fw_retries s = 0"
  shows "\<exists>s'. run_machine (fw_step P) s (replicate 4 Fw_Timeout) =
    Some (s', replicate 3 (Inr [Fa_Send m, Fa_ArmTimer RETRY_INTERVAL_MS]) @ [Inl Ee_Timeout]) \<and>
    fw_st s' = Fw_Failed"
  using assms
  by (simp add: numeral_eq_Suc fw_step_def fw_poll_def fw_on_timeout_def RETRY_LIMIT_def)

theorem fw_retransmit_bounded_witness:
  "\<exists>s'. run_machine (fw_step toy_prims) (fw_example \<lparr> fw_last_sent := Some [1] \<rparr>) (replicate 4 Fw_Timeout) =
    Some (s', replicate 3 (Inr [Fa_Send [1], Fa_ArmTimer RETRY_INTERVAL_MS]) @ [Inl Ee_Timeout]) \<and>
    fw_st s' = Fw_Failed"
  by (rule fw_retransmit_bounded) (simp_all add: fw_example_def fw_new_def)

text \<open>
  The handshake never panics: from its construction, any sequence of frames and
  timeouts is answered, and the invariant holds at the end (the pairwise key it holds is the
  one derived from the current nonces, retries stay within the limit, and a message waits
  for an answer exactly while message 3 is awaited).
\<close>

theorem fw_total:
  assumes "prims_ok P" "fw_cfg_ok cfg"
  shows "\<exists>s' out. run_machine (fw_step P) (fw_new pmk cfg snonce) is = Some (s', out) \<and> fw_inv P s'"
  using fw_machine.run_ok[of P "fw_new pmk cfg snonce" "is"] assms fw_inv_new by (simp add: list_all_iff)

theorem fw_total_witness:
  "\<exists>s' out. run_machine (fw_step toy_prims) fw_example [Fw_Frame [1, 2], Fw_Timeout] = Some (s', out) \<and>
     fw_inv toy_prims s'"
  unfolding fw_example_def
  by (rule fw_total) (simp_all add: fw_cfg_ok_def fw_example_cfg_def)

end
