(* ===== verification/Sae_Machine.thy ===== *)
theory Sae_Machine
  imports Crypto
begin

text \<open>
  WPA3-Personal: the SAE exchange (\<^verbatim>\<open>src/crates/caw-crypto/src/sae.rs\<close>).

  The curve P-256, its scalar field, HKDF and the SSWU map are third-party code: they are the
  fields of the record \<open>group_ops\<close>, over an abstract type of scalars and of points, and
  \<open>group_ok\<close> states the laws of a prime-order group and of the encodings the code relies on. The
  seed \<^verbatim>\<open>SaeProvider::new\<close> draws from the kernel is an argument of \<open>sae_new\<close>.

  Every method returns the provider's successor with its result, or \<open>None\<close> where an
  \<^verbatim>\<open>expect\<close> would panic.
\<close>

section \<open>The group\<close>

record ('sc, 'pt) group_ops =
  g_add :: "'pt \<Rightarrow> 'pt \<Rightarrow> 'pt"
  g_mul :: "'pt \<Rightarrow> 'sc \<Rightarrow> 'pt"
  g_neg :: "'pt \<Rightarrow> 'pt"
  g_is_identity :: "'pt \<Rightarrow> bool"
  g_coords :: "'pt \<Rightarrow> (bytes \<times> bytes) option"
  g_from_sec1 :: "bytes \<Rightarrow> 'pt option"
  g_order :: nat
  g_map_to_curve :: "bytes \<Rightarrow> 'pt"
  s_add :: "'sc \<Rightarrow> 'sc \<Rightarrow> 'sc"
  s_zero :: 'sc
  s_one :: 'sc
  s_two :: 'sc
  s_reduce :: "bytes \<Rightarrow> 'sc"
  s_from_repr :: "bytes \<Rightarrow> 'sc option"
  s_to_bytes :: "'sc \<Rightarrow> bytes"
  hkdf_expand :: "bytes \<Rightarrow> bytes \<Rightarrow> bytes \<Rightarrow> nat \<Rightarrow> bytes"

definition group_ok :: "('sc, 'pt) group_ops \<Rightarrow> bool" where
  "group_ok G \<longleftrightarrow>
     (\<forall>p q. g_add G (g_add G p q) (g_neg G q) = p) \<and>
     (\<forall>p s t. g_mul G p (s_add G s t) = g_add G (g_mul G p s) (g_mul G p t)) \<and>
     (\<forall>p s t. g_mul G (g_mul G p s) t = g_mul G (g_mul G p t) s) \<and>
     (\<forall>s t. s_add G s t = s_add G t s) \<and>
     (\<forall>p. g_coords G p = None \<longleftrightarrow> g_is_identity G p) \<and>
     (\<forall>p x y. g_coords G p = Some (x, y) \<longrightarrow>
        length x = 32 \<and> length y = 32 \<and> g_from_sec1 G (4 # x @ y) = Some p) \<and>
     (\<forall>s. length (s_to_bytes G s) = 32 \<and> s_from_repr G (s_to_bytes G s) = Some s) \<and>
     (\<forall>b. length b = 32 \<longrightarrow> nat_of_be b < g_order G \<longrightarrow> s_from_repr G b \<noteq> None) \<and>
     1 < g_order G \<and> g_order G \<le> 256 ^ 32"

section \<open>Constants\<close>

definition AUTH_ALG_SAE :: u16 where "AUTH_ALG_SAE = 3"
definition SEQ_COMMIT :: u16 where "SEQ_COMMIT = 1"
definition SEQ_CONFIRM :: u16 where "SEQ_CONFIRM = 2"
definition STATUS_SUCCESS :: u16 where "STATUS_SUCCESS = 0"
definition STATUS_ANTI_CLOGGING :: u16 where "STATUS_ANTI_CLOGGING = 76"
definition STATUS_H2E :: u16 where "STATUS_H2E = 126"
definition GROUP_P256 :: u16 where "GROUP_P256 = 19"
definition EID_EXTENSION :: u8 where "EID_EXTENSION = 255"
definition EID_EXT_ANTI_CLOGGING :: u8 where "EID_EXT_ANTI_CLOGGING = 93"
definition SCALAR_LEN :: nat where "SCALAR_LEN = 32"
definition ELEMENT_LEN :: nat where "ELEMENT_LEN = 64"
definition HASH_LEN :: nat where "HASH_LEN = 32"
definition PWD_VALUE_LEN :: nat where "PWD_VALUE_LEN = 48"
definition SYNC_MAX :: u8 where "SYNC_MAX = 5"

lemmas sae_consts = AUTH_ALG_SAE_def SEQ_COMMIT_def SEQ_CONFIRM_def STATUS_SUCCESS_def
  STATUS_ANTI_CLOGGING_def STATUS_H2E_def GROUP_P256_def EID_EXTENSION_def EID_EXT_ANTI_CLOGGING_def
  SCALAR_LEN_def ELEMENT_LEN_def HASH_LEN_def PWD_VALUE_LEN_def

text \<open>\<^verbatim>\<open>"SAE Hash to Element u1 P1"\<close>, the same with \<^verbatim>\<open>u2 P2\<close>, and \<^verbatim>\<open>"SAE KCK and PMK"\<close>.\<close>

definition H2E_LABEL :: "u8 \<Rightarrow> bytes" where
  "H2E_LABEL n = [83, 65, 69, 32, 72, 97, 115, 104, 32, 116, 111, 32, 69, 108, 101, 109, 101, 110, 116,
     32, 117, n, 32, 80, n]"

definition KCK_PMK_LABEL :: bytes where
  "KCK_PMK_LABEL = [83, 65, 69, 32, 75, 67, 75, 32, 97, 110, 100, 32, 80, 77, 75]"

section \<open>State\<close>

record ('sc, 'pt) sae_commit =
  cm_rand :: 'sc
  cm_scalar :: 'sc
  cm_pwe :: 'pt
  cm_scalar_bytes :: bytes
  cm_element_bytes :: bytes

record sae_session =
  ss_peer_scalar_bytes :: bytes
  ss_peer_element_bytes :: bytes
  ss_own_scalar_bytes :: bytes
  ss_own_element_bytes :: bytes
  ss_kck :: bytes
  ss_pmk :: bytes

datatype ('sc, 'pt) sae_state = Sae_Idle | Sae_Committed "('sc, 'pt) sae_commit"
  | Sae_Confirmed sae_session | Sae_Accepted | Sae_Failed

record ('sc, 'pt) sae =
  sae_password :: bytes
  sae_seed :: bytes
  sae_st :: "('sc, 'pt) sae_state"
  sae_last_sent :: bytes
  sae_sync :: u8
  sae_send_confirm :: u16
  sae_token :: "bytes option"
  sae_pmkid :: "bytes option"

definition sae_new :: "bytes \<Rightarrow> bytes \<Rightarrow> ('sc, 'pt) sae" where
  "sae_new password seed =
     \<lparr> sae_password = password, sae_seed = seed, sae_st = Sae_Idle, sae_last_sent = [], sae_sync = 0,
       sae_send_confirm = 0, sae_token = None, sae_pmkid = None \<rparr>"

section \<open>Frames\<close>

definition auth_header :: "u16 \<Rightarrow> u16 \<Rightarrow> bytes" where
  "auth_header seq status = u16_le AUTH_ALG_SAE @ u16_le seq @ u16_le status"

definition le16_at :: "nat \<Rightarrow> bytes \<Rightarrow> u16" where
  "le16_at off b = from_le16 (b ! off) (b ! (off + 1))"

record auth_frame =
  af_seq :: u16
  af_status :: u16
  af_body :: bytes

definition parse_auth :: "bytes \<Rightarrow> crypto_error + auth_frame" where
  "parse_auth frame =
     (if length frame < 6 then Inl Ce_Malformed
      else if le16_at 0 frame \<noteq> AUTH_ALG_SAE then Inl Ce_Malformed
      else Inr \<lparr> af_seq = le16_at 2 frame, af_status = le16_at 4 frame, af_body = drop 6 frame \<rparr>)"

definition parse_commit :: "bytes \<Rightarrow> crypto_error + bytes \<times> bytes" where
  "parse_commit body =
     (if length body < 2 + SCALAR_LEN + ELEMENT_LEN then Inl Ce_Malformed
      else if le16_at 0 body \<noteq> GROUP_P256 then Inl Ce_AuthFailed
      else Inr (take SCALAR_LEN (drop 2 body), take ELEMENT_LEN (drop (2 + SCALAR_LEN) body)))"

definition parse_token :: "bytes \<Rightarrow> crypto_error + bytes" where
  "parse_token body =
     (if length body < 2 + 3 then Inl Ce_Malformed
      else
        (let element = drop 2 body; len = unat (element ! 1) in
         if element ! 0 \<noteq> EID_EXTENSION \<or> len = 0 \<or> len > length element - 2 then Inl Ce_Malformed
         else if element ! 2 \<noteq> EID_EXT_ANTI_CLOGGING then Inl Ce_Malformed
         else Inr (take (len - 1) (drop 3 element))))"

definition sae_commit_frame ::
  "('sc, 'pt) sae \<Rightarrow> ('sc, 'pt) sae_commit \<Rightarrow> bytes option" where
  "sae_commit_frame s commit =
     (let fixed = auth_header SEQ_COMMIT STATUS_H2E @ u16_le GROUP_P256 @
                  cm_scalar_bytes commit @ cm_element_bytes commit in
      case sae_token s of
        None \<Rightarrow> Some fixed
      | Some token \<Rightarrow>
          if length token + 1 < 256 then
            Some (fixed @ [EID_EXTENSION, of_nat (length token + 1), EID_EXT_ANTI_CLOGGING] @ token)
          else None)"

section \<open>Group computations\<close>

definition confirm_hash :: "prims \<Rightarrow> bytes \<Rightarrow> bytes \<Rightarrow> bytes \<Rightarrow> bytes \<Rightarrow> bytes \<Rightarrow> bytes \<Rightarrow> bytes" where
  "confirm_hash P kck send_confirm scalar1 element1 scalar2 element2 =
     hmac_sha256 P kck (send_confirm @ scalar1 @ element1 @ scalar2 @ element2)"

definition map_to_point :: "('sc, 'pt) group_ops \<Rightarrow> bytes \<Rightarrow> bytes \<Rightarrow> bytes \<Rightarrow> 'pt" where
  "map_to_point G ssid password label =
     g_map_to_curve G (hkdf_expand G ssid password label PWD_VALUE_LEN)"

definition password_token :: "('sc, 'pt) group_ops \<Rightarrow> bytes \<Rightarrow> bytes \<Rightarrow> 'pt" where
  "password_token G ssid password =
     g_add G (map_to_point G ssid password (H2E_LABEL 49)) (map_to_point G ssid password (H2E_LABEL 50))"

definition password_element ::
  "prims \<Rightarrow> ('sc, 'pt) group_ops \<Rightarrow> 'pt \<Rightarrow> bytes \<Rightarrow> bytes \<Rightarrow> 'pt option" where
  "password_element P G pt own peer =
     (let (hi, lo) = (if bytes_less peer own then (own, peer) else (peer, own));
          val = hmac_sha256 P (replicate HASH_LEN 0) (hi @ lo);
          reduced = nat_of_be val mod (g_order G - 1)
      in map_option (\<lambda>v. g_mul G pt v) (s_from_repr G (be_of_nat 32 (reduced + 1))))"

definition scalar_from :: "('sc, 'pt) group_ops \<Rightarrow> bytes \<Rightarrow> 'sc" where
  "scalar_from G bytes =
     (let s = s_reduce G bytes in if s = s_zero G \<or> s = s_one G then s_two G else s)"

definition commit_scalars :: "('sc, 'pt) group_ops \<Rightarrow> bytes \<Rightarrow> 'sc \<times> 'sc" where
  "commit_scalars G seed =
     (scalar_from G (take PWD_VALUE_LEN seed), scalar_from G (drop PWD_VALUE_LEN seed))"

definition encode_element :: "('sc, 'pt) group_ops \<Rightarrow> 'pt \<Rightarrow> bytes option" where
  "encode_element G p = map_option (\<lambda>(x, y). x @ y) (g_coords G p)"

definition x_coordinate :: "('sc, 'pt) group_ops \<Rightarrow> 'pt \<Rightarrow> bytes option" where
  "x_coordinate G p = map_option fst (g_coords G p)"

definition decode_element :: "('sc, 'pt) group_ops \<Rightarrow> bytes \<Rightarrow> crypto_error + 'pt" where
  "decode_element G bytes =
     (case g_from_sec1 G (4 # bytes) of
        None \<Rightarrow> Inl Ce_AuthFailed
      | Some p \<Rightarrow> if g_is_identity G p then Inl Ce_AuthFailed else Inr p)"

definition decode_scalar :: "('sc, 'pt) group_ops \<Rightarrow> bytes \<Rightarrow> crypto_error + 'sc" where
  "decode_scalar G bytes =
     (case s_from_repr G bytes of
        None \<Rightarrow> Inl Ce_AuthFailed
      | Some s \<Rightarrow> if s = s_zero G \<or> s = s_one G then Inl Ce_AuthFailed else Inr s)"

section \<open>The provider\<close>

definition saturating_inc16 :: "u16 \<Rightarrow> u16" where
  "saturating_inc16 n = (if n = 65535 then n else n + 1)"

definition sae_confirm_frame ::
  "prims \<Rightarrow> ('sc, 'pt) sae \<Rightarrow> sae_session \<Rightarrow> ('sc, 'pt) sae \<times> bytes" where
  "sae_confirm_frame P s session =
     (let n = saturating_inc16 (sae_send_confirm s);
          sc = u16_le n;
          confirm = confirm_hash P (ss_kck session) sc (ss_own_scalar_bytes session)
            (ss_own_element_bytes session) (ss_peer_scalar_bytes session) (ss_peer_element_bytes session)
      in (s \<lparr> sae_send_confirm := n \<rparr>, auth_header SEQ_CONFIRM STATUS_SUCCESS @ sc @ confirm))"

definition sae_keys ::
  "prims \<Rightarrow> ('sc, 'pt) group_ops \<Rightarrow> bytes \<Rightarrow> 'sc \<Rightarrow> 'sc \<Rightarrow> (bytes \<times> bytes) option" where
  "sae_keys P G k own_scalar peer_scalar =
     (let keyseed = hmac_sha256 P (replicate HASH_LEN 0) k;
          context = s_to_bytes G (s_add G own_scalar peer_scalar)
      in map_option (\<lambda>keys. (keys, context))
           (kdf_sha256 P keyseed KCK_PMK_LABEL context (HASH_LEN + 32)))"

definition sae_on_commit ::
  "prims \<Rightarrow> ('sc, 'pt) group_ops \<Rightarrow> ('sc, 'pt) sae \<Rightarrow> ('sc, 'pt) sae_commit \<Rightarrow> bytes \<Rightarrow>
   (crypto_error + ('sc, 'pt) sae \<times> pstep) option" where
  "sae_on_commit P G s commit body =
     try_ok (parse_commit body) (\<lambda>(peer_scalar_bytes, peer_element_bytes).
     if peer_scalar_bytes = cm_scalar_bytes commit \<and> peer_element_bytes = cm_element_bytes commit then
       Some (Inl Ce_AuthFailed)
     else
       try_ok (decode_scalar G peer_scalar_bytes) (\<lambda>peer_scalar.
       try_ok (decode_element G peer_element_bytes) (\<lambda>peer_element.
       (let k_point = g_mul G (g_add G (g_mul G (cm_pwe commit) peer_scalar) peer_element) (cm_rand commit) in
        if g_is_identity G k_point then Some (Inl Ce_AuthFailed)
        else
          (case x_coordinate G k_point of
             None \<Rightarrow> None
           | Some k \<Rightarrow>
               (case sae_keys P G k (cm_scalar commit) peer_scalar of
                  None \<Rightarrow> None
                | Some (keys, context) \<Rightarrow>
                    (let session =
                           \<lparr> ss_peer_scalar_bytes = peer_scalar_bytes,
                             ss_peer_element_bytes = peer_element_bytes,
                             ss_own_scalar_bytes = cm_scalar_bytes commit,
                             ss_own_element_bytes = cm_element_bytes commit,
                             ss_kck = take HASH_LEN keys, ss_pmk = drop HASH_LEN keys \<rparr>;
                         (s', frame) =
                           sae_confirm_frame P (s \<lparr> sae_pmkid := Some (take 16 context) \<rparr>) session
                     in Some (Inr (s' \<lparr> sae_st := Sae_Confirmed session, sae_last_sent := frame,
                                       sae_sync := 0 \<rparr>, Step_Send frame)))))))))"

definition sae_on_confirm ::
  "prims \<Rightarrow> ('sc, 'pt) sae \<Rightarrow> sae_session \<Rightarrow> bytes \<Rightarrow> crypto_error + ('sc, 'pt) sae \<times> pstep" where
  "sae_on_confirm P s session body =
     (if length body < 2 + HASH_LEN then Inl Ce_Malformed
      else
        (let verifier = confirm_hash P (ss_kck session) (take 2 body) (ss_peer_scalar_bytes session)
               (ss_peer_element_bytes session) (ss_own_scalar_bytes session) (ss_own_element_bytes session)
         in if verifier \<noteq> take HASH_LEN (drop 2 body) then Inl Ce_AuthFailed
            else Inr (s \<lparr> sae_st := Sae_Accepted, sae_last_sent := [] \<rparr>, Step_Done (ss_pmk session))))"

definition sae_on_token_request ::
  "('sc, 'pt) sae \<Rightarrow> ('sc, 'pt) sae_commit \<Rightarrow> bytes \<Rightarrow>
   (crypto_error + ('sc, 'pt) sae \<times> pstep) option" where
  "sae_on_token_request s commit body =
     try_ok (parse_token body) (\<lambda>token.
     (let s1 = s \<lparr> sae_token := Some token \<rparr> in
      case sae_commit_frame s1 commit of
        None \<Rightarrow> None
      | Some frame \<Rightarrow>
          Some (Inr (s1 \<lparr> sae_st := Sae_Committed commit, sae_last_sent := frame, sae_sync := 0 \<rparr>,
                     Step_Send frame))))"

definition sae_start ::
  "prims \<Rightarrow> ('sc, 'pt) group_ops \<Rightarrow> ('sc, 'pt) sae \<Rightarrow> auth_ctx \<Rightarrow>
   (('sc, 'pt) sae \<times> (crypto_error + pstep)) option" where
  "sae_start P G s ctx =
     (if sae_st s \<noteq> Sae_Idle then Some (s, Inl Ce_Protocol)
      else if ac_akm ctx \<noteq> Sae then Some (s, Inl Ce_UnsupportedAkm)
      else
        (case password_element P G (password_token G (ac_ssid ctx) (sae_password s)) (ac_own_mac ctx)
                (ac_bssid ctx) of
           None \<Rightarrow> None
         | Some pwe \<Rightarrow>
             (let (rand, mask) = commit_scalars G (sae_seed s);
                  scalar = s_add G rand mask
              in case encode_element G (g_neg G (g_mul G pwe mask)) of
                   None \<Rightarrow> None
                 | Some element_bytes \<Rightarrow>
                     (let commit = \<lparr> cm_rand = rand, cm_scalar = scalar, cm_pwe = pwe,
                            cm_scalar_bytes = s_to_bytes G scalar, cm_element_bytes = element_bytes \<rparr>;
                          s1 = s \<lparr> sae_seed := replicate (length (sae_seed s)) 0 \<rparr>
                      in case sae_commit_frame s1 commit of
                           None \<Rightarrow> None
                         | Some frame \<Rightarrow>
                             Some (s1 \<lparr> sae_st := Sae_Committed commit, sae_last_sent := frame,
                                        sae_sync := 0 \<rparr>,
                                   Inr (Step_Send frame))))))"

definition sae_take_state ::
  "('sc, 'pt) sae \<Rightarrow> (crypto_error + ('sc, 'pt) sae \<times> pstep) option \<Rightarrow>
   (('sc, 'pt) sae \<times> (crypto_error + pstep)) option" where
  "sae_take_state s r =
     map_option (\<lambda>x. case x of
         Inl e \<Rightarrow> (s \<lparr> sae_st := Sae_Failed \<rparr>, Inl e)
       | Inr (s', step) \<Rightarrow> (s', Inr step)) r"

definition sae_on_frame ::
  "prims \<Rightarrow> ('sc, 'pt) group_ops \<Rightarrow> ('sc, 'pt) sae \<Rightarrow> bytes \<Rightarrow>
   (('sc, 'pt) sae \<times> (crypto_error + pstep)) option" where
  "sae_on_frame P G s frame =
     (case parse_auth frame of
        Inl e \<Rightarrow> Some (s, Inl e)
      | Inr auth \<Rightarrow>
          if \<not> (af_seq auth = SEQ_COMMIT \<and>
                  (af_status auth = STATUS_H2E \<or> af_status auth = STATUS_ANTI_CLOGGING) \<or>
                 af_seq auth = SEQ_CONFIRM \<and> af_status auth = STATUS_SUCCESS) then
            Some (s, Inl Ce_AuthFailed)
          else
            (case sae_st s of
               Sae_Committed commit \<Rightarrow>
                 if af_seq auth = SEQ_COMMIT then
                   (if af_status auth = STATUS_ANTI_CLOGGING then
                      sae_take_state s (sae_on_token_request s commit (af_body auth))
                    else sae_take_state s (sae_on_commit P G s commit (af_body auth)))
                 else Some (s, Inr Step_Wait)
             | Sae_Confirmed session \<Rightarrow>
                 if af_seq auth = SEQ_CONFIRM then
                   sae_take_state s (Some (sae_on_confirm P s session (af_body auth)))
                 else Some (s, Inr Step_Wait)
             | Sae_Accepted \<Rightarrow> Some (s, Inr Step_Wait)
             | Sae_Idle \<Rightarrow> Some (s, Inl Ce_Protocol)
             | Sae_Failed \<Rightarrow> Some (s, Inl Ce_AuthFailed)))"

definition sae_on_timeout :: "('sc, 'pt) sae \<Rightarrow> ('sc, 'pt) sae \<times> (crypto_error + pstep)" where
  "sae_on_timeout s =
     (case sae_st s of
        Sae_Accepted \<Rightarrow> (s, Inr Step_Wait)
      | Sae_Failed \<Rightarrow> (s, Inl Ce_AuthFailed)
      | Sae_Idle \<Rightarrow> (s, Inl Ce_Protocol)
      | _ \<Rightarrow>
          (let s' = s \<lparr> sae_sync := sae_sync s + 1 \<rparr> in
           if sae_sync s' > SYNC_MAX then (s', Inl Ce_AuthFailed)
           else (s', Inr (Step_Send (sae_last_sent s)))))"

section \<open>The group's laws\<close>

lemma group_cancel: "group_ok G \<Longrightarrow> g_add G (g_add G p q) (g_neg G q) = p"
  unfolding group_ok_def by blast

lemma group_distrib: "group_ok G \<Longrightarrow> g_mul G p (s_add G s t) = g_add G (g_mul G p s) (g_mul G p t)"
  unfolding group_ok_def by blast

lemma shared_point:
  "group_ok G \<Longrightarrow>
   g_mul G (g_add G (g_mul G pwe (s_add G r m)) (g_neg G (g_mul G pwe m))) t = g_mul G (g_mul G pwe r) t"
  by (simp only: group_distrib group_cancel)

lemma group_mul_comm: "group_ok G \<Longrightarrow> g_mul G (g_mul G p s) t = g_mul G (g_mul G p t) s"
  unfolding group_ok_def by blast

lemma group_coords: "group_ok G \<Longrightarrow> g_coords G p = None \<longleftrightarrow> g_is_identity G p"
  unfolding group_ok_def by blast

lemma group_sec1:
  "group_ok G \<Longrightarrow> g_coords G p = Some (x, y) \<Longrightarrow>
   length x = 32 \<and> length y = 32 \<and> g_from_sec1 G (4 # x @ y) = Some p"
  unfolding group_ok_def by blast

lemma group_scalar:
  "group_ok G \<Longrightarrow> length (s_to_bytes G s) = 32 \<and> s_from_repr G (s_to_bytes G s) = Some s"
  unfolding group_ok_def by blast

lemma group_repr:
  "group_ok G \<Longrightarrow> length b = 32 \<Longrightarrow> nat_of_be b < g_order G \<Longrightarrow> s_from_repr G b \<noteq> None"
  unfolding group_ok_def by blast

lemma group_order: "group_ok G \<Longrightarrow> 1 < g_order G \<and> g_order G \<le> 256 ^ 32"
  unfolding group_ok_def by blast

lemma group_add_comm: "group_ok G \<Longrightarrow> s_add G s t = s_add G t s"
  unfolding group_ok_def by blast

lemma encode_element_SomeD:
  assumes G: "group_ok G" and b: "encode_element G p = Some b"
  shows "length b = 64 \<and> decode_element G b = Inr p"
proof -
  obtain x y where xy: "g_coords G p = Some (x, y)" "b = x @ y"
    using b by (auto simp: encode_element_def)
  then have "\<not> g_is_identity G p" using group_coords[OF G, of p] by simp
  then show ?thesis using group_sec1[OF G xy(1)] xy(2) by (simp add: decode_element_def)
qed

lemma decode_scalar_bytes:
  "group_ok G \<Longrightarrow> s \<noteq> s_zero G \<Longrightarrow> s \<noteq> s_one G \<Longrightarrow> decode_scalar G (s_to_bytes G s) = Inr s"
  by (simp add: decode_scalar_def group_scalar)

lemma password_element_sym:
  "password_element P G pt own peer = password_element P G pt peer own"
proof -
  have "(if bytes_less peer own then (own, peer) else (peer, own)) =
        (if bytes_less own peer then (peer, own) else (own, peer))"
    using bytes_less_total[of own peer] bytes_less_antisym[of own peer] by auto
  then show ?thesis unfolding password_element_def by simp
qed

lemma password_element_Some:
  assumes G: "group_ok G"
  shows "\<exists>pwe. password_element P G pt own peer = Some pwe"
proof -
  have "s_from_repr G (be_of_nat 32 (n mod (g_order G - 1) + 1)) \<noteq> None" for n
  proof -
    have "n mod (g_order G - 1) < g_order G - 1"
      using group_order[OF G] by (intro mod_less_divisor) linarith
    then have lt: "n mod (g_order G - 1) + 1 < g_order G" by linarith
    then have "n mod (g_order G - 1) + 1 < 256 ^ 32"
      using group_order[OF G] by (meson order_less_le_trans)
    from nat_of_be_of_nat[OF this] lt show ?thesis by (intro group_repr[OF G]) simp_all
  qed
  then show ?thesis by (auto simp: password_element_def Let_def split: prod.split)
qed

lemma sae_keys_Some:
  "prims_ok P \<Longrightarrow> \<exists>keys. sae_keys P G k a b = Some (keys, s_to_bytes G (s_add G a b)) \<and> length keys = 64"
  by (simp add: sae_keys_def kdf_sha256_def prims_ok_def HASH_LEN_def upt_rec length_concat Let_def)

lemma sae_keys_sym: "group_ok G \<Longrightarrow> sae_keys P G k a b = sae_keys P G k b a"
  unfolding sae_keys_def by (subst group_add_comm) simp_all

section \<open>Frames read back\<close>

lemma le16_at_append: "length pre = off \<Longrightarrow> le16_at off (pre @ u16_le w @ post) = w"
  by (auto simp: le16_at_def nth_append u16_le_def from_le16_def)

lemma parse_auth_header:
  "parse_auth (auth_header seq status @ body) = Inr \<lparr> af_seq = seq, af_status = status, af_body = body \<rparr>"
proof -
  let ?f = "auth_header seq status @ body"
  have "le16_at 0 ?f = AUTH_ALG_SAE"
    using le16_at_append[of "[]" 0] by (simp add: auth_header_def)
  moreover have "le16_at 2 ?f = seq"
    using le16_at_append[of "u16_le AUTH_ALG_SAE" 2] by (simp add: auth_header_def)
  moreover have "le16_at 4 ?f = status"
    using le16_at_append[of "u16_le AUTH_ALG_SAE @ u16_le seq" 4] by (simp add: auth_header_def)
  ultimately show ?thesis by (simp add: parse_auth_def) (simp add: auth_header_def)
qed

lemma parse_commit_frame:
  "length sc = 32 \<Longrightarrow> length el = 64 \<Longrightarrow> parse_commit (u16_le GROUP_P256 @ sc @ el @ rest) = Inr (sc, el)"
  using le16_at_append[of "[]" 0 GROUP_P256 "sc @ el @ rest"]
  by (simp add: parse_commit_def SCALAR_LEN_def ELEMENT_LEN_def)

section \<open>What each step leaves behind\<close>

definition k_point :: "('sc, 'pt) group_ops \<Rightarrow> ('sc, 'pt) sae_commit \<Rightarrow> 'sc \<Rightarrow> 'pt \<Rightarrow> 'pt" where
  "k_point G c psc pel = g_mul G (g_add G (g_mul G (cm_pwe c) psc) pel) (cm_rand c)"

definition session_of :: "('sc, 'pt) sae_commit \<Rightarrow> bytes \<Rightarrow> bytes \<Rightarrow> bytes \<Rightarrow> sae_session" where
  "session_of c psb peb keys =
     \<lparr> ss_peer_scalar_bytes = psb, ss_peer_element_bytes = peb, ss_own_scalar_bytes = cm_scalar_bytes c,
       ss_own_element_bytes = cm_element_bytes c, ss_kck = take 32 keys, ss_pmk = drop 32 keys \<rparr>"

lemma sae_on_commit_InrD:
  assumes "sae_on_commit P G s c body = Some (Inr (s', st))"
  shows "\<exists>psb peb psc pel k keys cx fr. parse_commit body = Inr (psb, peb) \<and>
    decode_scalar G psb = Inr psc \<and> decode_element G peb = Inr pel \<and>
    x_coordinate G (k_point G c psc pel) = Some k \<and>
    sae_keys P G k (cm_scalar c) psc = Some (keys, cx) \<and>
    fr = snd (sae_confirm_frame P s (session_of c psb peb keys)) \<and> st = Step_Send fr \<and>
    s' = s \<lparr> sae_pmkid := Some (take 16 cx), sae_send_confirm := saturating_inc16 (sae_send_confirm s),
             sae_st := Sae_Confirmed (session_of c psb peb keys), sae_last_sent := fr, sae_sync := 0 \<rparr>"
proof -
  obtain psb peb where p: "parse_commit body = Inr (psb, peb)"
    using assms unfolding sae_on_commit_def by (auto elim: try_ok_InrE)
  have ne: "\<not> (psb = cm_scalar_bytes c \<and> peb = cm_element_bytes c)"
    using assms by (auto simp: sae_on_commit_def p)
  obtain psc where d: "decode_scalar G psb = Inr psc"
    using assms ne unfolding sae_on_commit_def p try_ok_simps prod.case by (auto elim!: try_ok_InrE)
  obtain pel where e: "decode_element G peb = Inr pel"
    using assms ne unfolding sae_on_commit_def p try_ok_simps prod.case d by (auto elim!: try_ok_InrE)
  have ni: "\<not> g_is_identity G (k_point G c psc pel)"
    using assms ne by (auto simp: sae_on_commit_def p d e Let_def k_point_def)
  obtain k where k: "x_coordinate G (k_point G c psc pel) = Some k"
    using assms ne ni by (auto simp: sae_on_commit_def p d e Let_def k_point_def split: option.splits)
  obtain keys cx where ks: "sae_keys P G k (cm_scalar c) psc = Some (keys, cx)"
    using assms ne ni k by (auto simp: sae_on_commit_def p d e Let_def k_point_def split: option.splits)
  show ?thesis
    using assms ne ni k ks p d e
    by (auto simp: sae_on_commit_def Let_def k_point_def session_of_def sae_confirm_frame_def HASH_LEN_def)
qed

lemma sae_start_InrD:
  assumes "sae_start P G s ctx = Some (s', Inr st)"
  shows "\<exists>pwe rand mask eb fr c.
    password_element P G (password_token G (ac_ssid ctx) (sae_password s)) (ac_own_mac ctx) (ac_bssid ctx) = Some pwe \<and>
    commit_scalars G (sae_seed s) = (rand, mask) \<and>
    encode_element G (g_neg G (g_mul G pwe mask)) = Some eb \<and>
    c = \<lparr> cm_rand = rand, cm_scalar = s_add G rand mask, cm_pwe = pwe,
          cm_scalar_bytes = s_to_bytes G (s_add G rand mask), cm_element_bytes = eb \<rparr> \<and>
    sae_commit_frame s c = Some fr \<and> st = Step_Send fr \<and> sae_st s = Sae_Idle \<and>
    s' = s \<lparr> sae_seed := replicate (length (sae_seed s)) 0, sae_st := Sae_Committed c,
             sae_last_sent := fr, sae_sync := 0 \<rparr>"
proof -
  have pre: "sae_st s = Sae_Idle" "ac_akm ctx = Sae"
    using assms by (auto simp: sae_start_def split: if_splits)
  obtain pwe where pwe: "password_element P G (password_token G (ac_ssid ctx) (sae_password s))
      (ac_own_mac ctx) (ac_bssid ctx) = Some pwe"
    using assms pre by (auto simp: sae_start_def split: option.splits)
  obtain rand mask where rm: "commit_scalars G (sae_seed s) = (rand, mask)" by fastforce
  obtain eb where eb: "encode_element G (g_neg G (g_mul G pwe mask)) = Some eb"
    using assms pre pwe rm by (auto simp: sae_start_def Let_def split: option.splits)
  have "sae_commit_frame (s \<lparr> sae_seed := x \<rparr>) c = sae_commit_frame s c" for x c
    by (simp add: sae_commit_frame_def)
  then show ?thesis
    using assms pre pwe rm eb by (auto simp: sae_start_def Let_def split: option.splits)
qed

lemma sae_new_commit_frame:
  "sae_token s = None \<Longrightarrow> sae_commit_frame s c = Some (auth_header SEQ_COMMIT STATUS_H2E @ u16_le GROUP_P256 @
     cm_scalar_bytes c @ cm_element_bytes c)"
  by (simp add: sae_commit_frame_def)

lemma sae_on_frame_commit:
  assumes "sae_st s = Sae_Committed c"
  shows "sae_on_frame P G s (auth_header SEQ_COMMIT STATUS_H2E @ body) =
    sae_take_state s (sae_on_commit P G s c body)"
  using assms by (simp add: sae_on_frame_def parse_auth_header sae_consts)

lemma sae_on_frame_confirm:
  assumes "sae_st s = Sae_Confirmed ses"
  shows "sae_on_frame P G s (auth_header SEQ_CONFIRM STATUS_SUCCESS @ body) =
    sae_take_state s (Some (sae_on_confirm P s ses body))"
  using assms by (simp add: sae_on_frame_def parse_auth_header sae_consts)

lemma sae_take_state_InrD: "sae_take_state s r = Some (s', Inr st) \<Longrightarrow> r = Some (Inr (s', st))"
  by (cases r) (auto simp: sae_take_state_def split: sum.splits)

section \<open>Agreement\<close>

lemma commits_meet:
  assumes G: "group_ok G"
    and ca: "cm_pwe ca = pwe" "cm_rand ca = ra" and cb: "cm_pwe cb = pwe" "cm_rand cb = rb"
  shows "k_point G ca (s_add G rb mb) (g_neg G (g_mul G pwe mb)) =
         k_point G cb (s_add G ra ma) (g_neg G (g_mul G pwe ma))"
  unfolding k_point_def ca cb shared_point[OF G] by (rule group_mul_comm[OF G])

lemma sae_confirm_verifies:
  assumes P: "prims_ok P"
    and a: "sae_st sa = Sae_Confirmed sesa"
    and m: "ss_kck sesa = ss_kck sesb" "ss_own_scalar_bytes sesa = ss_peer_scalar_bytes sesb"
      "ss_own_element_bytes sesa = ss_peer_element_bytes sesb"
      "ss_peer_scalar_bytes sesa = ss_own_scalar_bytes sesb"
      "ss_peer_element_bytes sesa = ss_own_element_bytes sesb"
  shows "sae_on_frame P G sa (snd (sae_confirm_frame P sb sesb)) =
    Some (sa \<lparr> sae_st := Sae_Accepted, sae_last_sent := [] \<rparr>, Inr (Step_Done (ss_pmk sesa)))"
proof -
  let ?sc = "u16_le (saturating_inc16 (sae_send_confirm sb))"
  let ?h = "confirm_hash P (ss_kck sesb) ?sc (ss_own_scalar_bytes sesb) (ss_own_element_bytes sesb)
    (ss_peer_scalar_bytes sesb) (ss_peer_element_bytes sesb)"
  have "length ?h = 32" using P by (simp add: confirm_hash_def prims_ok_def)
  then have "sae_on_confirm P sa sesa (?sc @ ?h) =
      Inr (sa \<lparr> sae_st := Sae_Accepted, sae_last_sent := [] \<rparr>, Step_Done (ss_pmk sesa))"
    by (simp add: sae_on_confirm_def HASH_LEN_def m)
  then show ?thesis
    by (simp add: sae_confirm_frame_def Let_def sae_on_frame_confirm[OF a] sae_take_state_def)
qed

definition ctx_swap :: "auth_ctx \<Rightarrow> auth_ctx" where
  "ctx_swap ctx = ctx \<lparr> ac_own_mac := ac_bssid ctx, ac_bssid := ac_own_mac ctx \<rparr>"

lemma sae_commit_step:
  assumes G: "group_ok G" and tok: "sae_token s = None"
    and st: "sae_st s = Sae_Committed c"
    and pc: "cm_scalar_bytes pc = s_to_bytes G (cm_scalar pc)" "encode_element G el = Some (cm_element_bytes pc)"
    and fr: "sae_token s2 = None" "sae_commit_frame s2 pc = Some fr"
    and on: "sae_on_frame P G s fr = Some (s', Inr (Step_Send cf))"
  shows "\<exists>k keys. x_coordinate G (k_point G c (cm_scalar pc) el) = Some k \<and>
    sae_keys P G k (cm_scalar c) (cm_scalar pc) = Some (keys, s_to_bytes G (s_add G (cm_scalar c) (cm_scalar pc))) \<and>
    sae_st s' = Sae_Confirmed (session_of c (cm_scalar_bytes pc) (cm_element_bytes pc) keys) \<and>
    cf = snd (sae_confirm_frame P s (session_of c (cm_scalar_bytes pc) (cm_element_bytes pc) keys)) \<and>
    sae_pmkid s' = Some (take 16 (s_to_bytes G (s_add G (cm_scalar c) (cm_scalar pc))))"
proof -
  note el = encode_element_SomeD[OF G pc(2)]
  have fr': "fr = auth_header SEQ_COMMIT STATUS_H2E @ u16_le GROUP_P256 @ cm_scalar_bytes pc @ cm_element_bytes pc"
    using fr(2) sae_new_commit_frame[OF fr(1), of pc] by simp
  have body: "parse_commit (u16_le GROUP_P256 @ cm_scalar_bytes pc @ cm_element_bytes pc) =
      Inr (cm_scalar_bytes pc, cm_element_bytes pc)"
    using parse_commit_frame[of "cm_scalar_bytes pc" "cm_element_bytes pc" "[]"] el group_scalar[OF G] pc(1)
    by simp
  have oc: "sae_on_commit P G s c (u16_le GROUP_P256 @ cm_scalar_bytes pc @ cm_element_bytes pc) =
      Some (Inr (s', Step_Send cf))"
    using on unfolding fr' sae_on_frame_commit[OF st] by (rule sae_take_state_InrD)
  from sae_on_commit_InrD[OF oc] obtain psc pel k keys cx where
    d: "decode_scalar G (cm_scalar_bytes pc) = Inr psc" "decode_element G (cm_element_bytes pc) = Inr pel"
      "x_coordinate G (k_point G c psc pel) = Some k"
      "sae_keys P G k (cm_scalar c) psc = Some (keys, cx)"
      "cf = snd (sae_confirm_frame P s (session_of c (cm_scalar_bytes pc) (cm_element_bytes pc) keys))"
      "sae_st s' = Sae_Confirmed (session_of c (cm_scalar_bytes pc) (cm_element_bytes pc) keys)"
      "sae_pmkid s' = Some (take 16 cx)"
    unfolding body by auto
  have "psc = cm_scalar pc"
    using d(1) group_scalar[OF G, of "cm_scalar pc"] by (auto simp: decode_scalar_def pc(1) split: if_splits)
  moreover have "pel = el" using d(2) el by simp
  moreover have "cx = s_to_bytes G (s_add G (cm_scalar c) psc)"
    using d(4) by (auto simp: sae_keys_def Let_def)
  ultimately show ?thesis using d by auto
qed

text \<open>
  C16. The two ends of an SAE exchange agree. When a station and its peer hold the same
  password for the same network, each starts and each accepts the other's commit, then each
  accepts the other's confirm, and both end with the same PMK and the same PMKID.
\<close>

theorem sae_agreement:
  assumes P: "prims_ok P" and G: "group_ok G"
    and a: "sae_start P G (sae_new pw seed_a) ctx = Some (a1, Inr (Step_Send fa))"
    and b: "sae_start P G (sae_new pw seed_b) (ctx_swap ctx) = Some (b1, Inr (Step_Send fb))"
    and a2: "sae_on_frame P G a1 fb = Some (a2, Inr (Step_Send ca))"
    and b2: "sae_on_frame P G b1 fa = Some (b2, Inr (Step_Send cb))"
  shows "\<exists>a3 b3 pmk. sae_on_frame P G a2 cb = Some (a3, Inr (Step_Done pmk)) \<and>
    sae_on_frame P G b2 ca = Some (b3, Inr (Step_Done pmk)) \<and>
    sae_pmkid a3 = sae_pmkid b3 \<and> sae_pmkid a3 \<noteq> None"
proof -
  obtain pwe ra ma ea cma where pa:
    "password_element P G (password_token G (ac_ssid ctx) pw) (ac_own_mac ctx) (ac_bssid ctx) = Some pwe"
    and ea: "encode_element G (g_neg G (g_mul G pwe ma)) = Some ea"
    and cma: "cma = \<lparr> cm_rand = ra, cm_scalar = s_add G ra ma, cm_pwe = pwe,
       cm_scalar_bytes = s_to_bytes G (s_add G ra ma), cm_element_bytes = ea \<rparr>"
    and fa: "sae_commit_frame (sae_new pw seed_a :: ('a, 'b) sae) cma = Some fa"
    and sa: "sae_st a1 = Sae_Committed cma" "sae_token a1 = None"
    using sae_start_InrD[OF a] by (fastforce simp: sae_new_def)
  obtain pwe' rb mb eb cmb where pb:
    "password_element P G (password_token G (ac_ssid ctx) pw) (ac_bssid ctx) (ac_own_mac ctx) = Some pwe'"
    and eb: "encode_element G (g_neg G (g_mul G pwe' mb)) = Some eb"
    and cmb: "cmb = \<lparr> cm_rand = rb, cm_scalar = s_add G rb mb, cm_pwe = pwe',
       cm_scalar_bytes = s_to_bytes G (s_add G rb mb), cm_element_bytes = eb \<rparr>"
    and fb: "sae_commit_frame (sae_new pw seed_b :: ('a, 'b) sae) cmb = Some fb"
    and sb: "sae_st b1 = Sae_Committed cmb" "sae_token b1 = None"
    using sae_start_InrD[OF b] by (fastforce simp: sae_new_def ctx_swap_def)
  have pwe: "pwe' = pwe" using pa pb password_element_sym[of P G] by simp
  have tok: "sae_token (sae_new pw sd :: ('a, 'b) sae) = None" for sd by (simp add: sae_new_def)
  obtain k keys where A: "x_coordinate G (k_point G cma (cm_scalar cmb) (g_neg G (g_mul G pwe mb))) = Some k"
    "sae_keys P G k (cm_scalar cma) (cm_scalar cmb) =
       Some (keys, s_to_bytes G (s_add G (cm_scalar cma) (cm_scalar cmb)))"
    "sae_st a2 = Sae_Confirmed (session_of cma (cm_scalar_bytes cmb) (cm_element_bytes cmb) keys)"
    "ca = snd (sae_confirm_frame P a1 (session_of cma (cm_scalar_bytes cmb) (cm_element_bytes cmb) keys))"
    "sae_pmkid a2 = Some (take 16 (s_to_bytes G (s_add G (cm_scalar cma) (cm_scalar cmb))))"
    using sae_commit_step[OF G sa(2,1) _ _ tok fb a2, of "g_neg G (g_mul G pwe mb)"] eb cmb pwe
    by auto
  obtain k' keys' where B: "x_coordinate G (k_point G cmb (cm_scalar cma) (g_neg G (g_mul G pwe ma))) = Some k'"
    "sae_keys P G k' (cm_scalar cmb) (cm_scalar cma) =
       Some (keys', s_to_bytes G (s_add G (cm_scalar cmb) (cm_scalar cma)))"
    "sae_st b2 = Sae_Confirmed (session_of cmb (cm_scalar_bytes cma) (cm_element_bytes cma) keys')"
    "cb = snd (sae_confirm_frame P b1 (session_of cmb (cm_scalar_bytes cma) (cm_element_bytes cma) keys'))"
    "sae_pmkid b2 = Some (take 16 (s_to_bytes G (s_add G (cm_scalar cmb) (cm_scalar cma))))"
    using sae_commit_step[OF G sb(2,1) _ _ tok fa b2, of "g_neg G (g_mul G pwe ma)"] ea cma pwe
    by auto
  have "k_point G cma (cm_scalar cmb) (g_neg G (g_mul G pwe mb)) =
        k_point G cmb (cm_scalar cma) (g_neg G (g_mul G pwe ma))"
    using commits_meet[OF G, of cma pwe ra cmb rb mb ma] by (simp add: cma cmb pwe)
  then have "k' = k" using A(1) B(1) by simp
  then have keys: "keys' = keys"
    using A(2) B(2) sae_keys_sym[OF G, of P k "cm_scalar cma" "cm_scalar cmb"] by simp
  have done_a: "sae_on_frame P G a2 cb =
      Some (a2 \<lparr> sae_st := Sae_Accepted, sae_last_sent := [] \<rparr>, Inr (Step_Done (drop 32 keys)))"
    using sae_confirm_verifies[OF P A(3), of "session_of cmb (cm_scalar_bytes cma) (cm_element_bytes cma) keys'" G b1]
    by (simp add: B(4) keys session_of_def)
  have done_b: "sae_on_frame P G b2 ca =
      Some (b2 \<lparr> sae_st := Sae_Accepted, sae_last_sent := [] \<rparr>, Inr (Step_Done (drop 32 keys)))"
    using sae_confirm_verifies[OF P B(3), of "session_of cma (cm_scalar_bytes cmb) (cm_element_bytes cmb) keys" G a1]
    by (simp add: A(4) keys session_of_def)
  show ?thesis
    using done_a done_b A(5) B(5) group_add_comm[OF G, of "cm_scalar cma"] by simp
qed

lemma sae_commit_accepted:
  assumes P: "prims_ok P" and G: "group_ok G" and st: "sae_st s = Sae_Committed c"
    and pc: "cm_scalar_bytes pc = s_to_bytes G (cm_scalar pc)" "encode_element G el = Some (cm_element_bytes pc)"
    and fr: "sae_token s2 = None" "sae_commit_frame s2 pc = Some fr"
    and nd: "cm_scalar pc \<noteq> s_zero G" "cm_scalar pc \<noteq> s_one G" "cm_scalar_bytes pc \<noteq> cm_scalar_bytes c"
      "\<not> g_is_identity G (k_point G c (cm_scalar pc) el)"
  shows "\<exists>s' cf. sae_on_frame P G s fr = Some (s', Inr (Step_Send cf))"
proof -
  note el = encode_element_SomeD[OF G pc(2)]
  have fr': "fr = auth_header SEQ_COMMIT STATUS_H2E @ u16_le GROUP_P256 @ cm_scalar_bytes pc @ cm_element_bytes pc"
    using fr(2) sae_new_commit_frame[OF fr(1), of pc] by simp
  have body: "parse_commit (u16_le GROUP_P256 @ cm_scalar_bytes pc @ cm_element_bytes pc) =
      Inr (cm_scalar_bytes pc, cm_element_bytes pc)"
    using parse_commit_frame[of "cm_scalar_bytes pc" "cm_element_bytes pc" "[]"] el group_scalar[OF G] pc(1)
    by simp
  obtain xy where xy: "g_coords G (k_point G c (cm_scalar pc) el) = Some xy"
    using nd(4) group_coords[OF G, of "k_point G c (cm_scalar pc) el"]
    by (cases "g_coords G (k_point G c (cm_scalar pc) el)") auto
  obtain keys where keys: "sae_keys P G (fst xy) (cm_scalar c) (cm_scalar pc) =
      Some (keys, s_to_bytes G (s_add G (cm_scalar c) (cm_scalar pc)))"
    using sae_keys_Some[OF P, of G "fst xy" "cm_scalar c" "cm_scalar pc"] by blast
  have ds: "decode_scalar G (cm_scalar_bytes pc) = Inr (cm_scalar pc)"
    using decode_scalar_bytes[OF G nd(1,2)] pc(1) by simp
  show ?thesis
    unfolding fr' sae_on_frame_commit[OF st] sae_on_commit_def body
    using nd(3,4) xy keys el ds
    by (simp add: Let_def k_point_def x_coordinate_def sae_take_state_def split: prod.split)
qed

section \<open>An example group\<close>

text \<open>
  The residues modulo 256 under addition, multiplied by residues: enough of a group to run the
  exchange on, with the encodings of 32 and 64 octets.
\<close>

definition toy_group :: "(u8, u8) group_ops" where
  "toy_group = \<lparr> g_add = (+), g_mul = (*), g_neg = uminus, g_is_identity = (\<lambda>p. p = 0),
     g_coords = (\<lambda>p. if p = 0 then None else Some (replicate 31 0 @ [p], replicate 32 0)),
     g_from_sec1 = (\<lambda>b. Some (b ! 32)), g_order = 2,
     g_map_to_curve = (\<lambda>b. if b ! 21 = 49 then 1 else 2),
     s_add = (+), s_zero = 0, s_one = 1, s_two = 2, s_reduce = hd, s_from_repr = (\<lambda>b. Some (b ! 31)),
     s_to_bytes = (\<lambda>s. replicate 31 0 @ [s]), hkdf_expand = (\<lambda>salt ikm label n. label) \<rparr>"

lemma toy_group_ok [simp]: "group_ok toy_group"
  by (simp add: group_ok_def toy_group_def nth_append nth_Cons' algebra_simps)

definition sae_example_ctx :: auth_ctx where
  "sae_example_ctx = \<lparr> ac_ssid = [65], ac_bssid = [0, 0, 0, 0, 0, 2], ac_own_mac = [0, 0, 0, 0, 0, 1],
     ac_akm = Sae \<rparr>"

definition sae_example_seed :: "u8 \<Rightarrow> u8 \<Rightarrow> bytes" where
  "sae_example_seed a b = replicate 48 a @ replicate 48 b"

definition sae_example_commit :: "u8 \<Rightarrow> u8 \<Rightarrow> (u8, u8) sae_commit" where
  "sae_example_commit r m = \<lparr> cm_rand = r, cm_scalar = r + m, cm_pwe = 3,
     cm_scalar_bytes = s_to_bytes toy_group (r + m), cm_element_bytes = replicate 31 0 @ [- (3 * m)] @ replicate 32 0 \<rparr>"

lemma toy_pwe:
  "password_element toy_prims toy_group (password_token toy_group ssid pw) own peer = Some 3"
proof -
  have "be_of_nat 32 1 = be_of_nat 31 (1 div 256) @ [1]"
    using be_of_nat.simps(2)[of 31 1] by (simp del: be_of_nat.simps)
  then have "be_of_nat 32 (Suc 0) ! 31 = 1" by (simp add: nth_append del: be_of_nat.simps)
  then show ?thesis
    by (simp add: password_element_def password_token_def map_to_point_def toy_group_def toy_prims_def
        H2E_LABEL_def nth_Cons' split: prod.split del: be_of_nat.simps)
qed

lemma toy_start:
  assumes "r \<noteq> 0" "r \<noteq> 1" "m \<noteq> 0" "m \<noteq> 1" "3 * m \<noteq> 0" "ac_ssid ctx = [65]" "ac_akm ctx = Sae"
  shows "\<exists>s' fr. sae_start toy_prims toy_group (sae_new pw (sae_example_seed r m)) ctx = Some (s', Inr (Step_Send fr)) \<and>
    sae_st s' = Sae_Committed (sae_example_commit r m) \<and>
    sae_commit_frame (sae_new pw [] :: (u8, u8) sae) (sae_example_commit r m) = Some fr"
proof -
  have "commit_scalars toy_group (sae_example_seed r m) = (r, m)"
    using assms by (simp add: commit_scalars_def scalar_from_def toy_group_def sae_example_seed_def
        PWD_VALUE_LEN_def hd_append)
  moreover have "encode_element toy_group (- (3 * m)) = Some (replicate 31 0 @ [- (3 * m)] @ replicate 32 0)"
    using assms(5) by (simp add: encode_element_def toy_group_def)
  ultimately show ?thesis
    using assms(6,7) toy_pwe
    by (simp add: sae_start_def sae_new_def sae_commit_frame_def sae_example_commit_def Let_def)
      (simp add: toy_group_def sae_commit_frame_def Let_def)
qed

theorem sae_agreement_witness:
  "\<exists>a1 b1 a2 b2 a3 b3 fa fb ca cb pmk.
     sae_start toy_prims toy_group (sae_new [1] (sae_example_seed 3 5)) sae_example_ctx = Some (a1, Inr (Step_Send fa)) \<and>
     sae_start toy_prims toy_group (sae_new [1] (sae_example_seed 7 9)) (ctx_swap sae_example_ctx) =
       Some (b1, Inr (Step_Send fb)) \<and>
     sae_on_frame toy_prims toy_group a1 fb = Some (a2, Inr (Step_Send ca)) \<and>
     sae_on_frame toy_prims toy_group b1 fa = Some (b2, Inr (Step_Send cb)) \<and>
     sae_on_frame toy_prims toy_group a2 cb = Some (a3, Inr (Step_Done pmk)) \<and>
     sae_on_frame toy_prims toy_group b2 ca = Some (b3, Inr (Step_Done pmk))"
proof -
  have ctx: "ac_ssid sae_example_ctx = [65]" "ac_akm sae_example_ctx = Sae"
    "ac_ssid (ctx_swap sae_example_ctx) = [65]" "ac_akm (ctx_swap sae_example_ctx) = Sae"
    by (simp_all add: sae_example_ctx_def ctx_swap_def)
  obtain a1 fa where a: "sae_start toy_prims toy_group (sae_new [1] (sae_example_seed 3 5)) sae_example_ctx =
      Some (a1, Inr (Step_Send fa))"
    "sae_st a1 = Sae_Committed (sae_example_commit 3 5)"
    "sae_commit_frame (sae_new [1] [] :: (u8, u8) sae) (sae_example_commit 3 5) = Some fa"
    using toy_start[of 3 5 sae_example_ctx "[1]"] ctx by auto
  obtain b1 fb where b: "sae_start toy_prims toy_group (sae_new [1] (sae_example_seed 7 9)) (ctx_swap sae_example_ctx) =
      Some (b1, Inr (Step_Send fb))"
    "sae_st b1 = Sae_Committed (sae_example_commit 7 9)"
    "sae_commit_frame (sae_new [1] [] :: (u8, u8) sae) (sae_example_commit 7 9) = Some fb"
    using toy_start[of 7 9 "ctx_swap sae_example_ctx" "[1]"] ctx by auto
  have tok: "sae_token (sae_new [1] [] :: (u8, u8) sae) = None" by (simp add: sae_new_def)
  have enc: "encode_element toy_group (- (3 * 9)) = Some (cm_element_bytes (sae_example_commit 7 9))"
    "encode_element toy_group (- (3 * 5)) = Some (cm_element_bytes (sae_example_commit 3 5))"
    by (simp_all add: encode_element_def toy_group_def sae_example_commit_def)
  have sb: "cm_scalar_bytes (sae_example_commit r m) = s_to_bytes toy_group (cm_scalar (sae_example_commit r m))" for r m
    by (simp add: sae_example_commit_def)
  obtain a2 ca where a2: "sae_on_frame toy_prims toy_group a1 fb = Some (a2, Inr (Step_Send ca))"
    using sae_commit_accepted[OF toy_prims_ok toy_group_ok a(2) sb enc(1) tok b(3)]
    by (auto simp: sae_example_commit_def toy_group_def k_point_def)
  obtain b2 cb where b2: "sae_on_frame toy_prims toy_group b1 fa = Some (b2, Inr (Step_Send cb))"
    using sae_commit_accepted[OF toy_prims_ok toy_group_ok b(2) sb enc(2) tok a(3)]
    by (auto simp: sae_example_commit_def toy_group_def k_point_def)
  from sae_agreement[OF toy_prims_ok toy_group_ok a(1) b(1) a2 b2] a(1) b(1) a2 b2
  show ?thesis by blast
qed

section \<open>Authenticity, retransmission, injected frames\<close>

lemma sae_on_frame_state:
  assumes "sae_on_frame P G s f = Some (s', Inr (Step_Done pmk))"
  shows "\<exists>auth ses. parse_auth f = Inr auth \<and> sae_st s = Sae_Confirmed ses \<and>
    sae_on_confirm P s ses (af_body auth) = Inr (s', Step_Done pmk)"
proof -
  obtain auth where auth: "parse_auth f = Inr auth"
    using assms by (auto simp: sae_on_frame_def split: sum.splits)
  have nc: "sae_take_state s (sae_on_commit P G s c b) \<noteq> Some (s', Inr (Step_Done pmk))" for c b
    by (auto dest!: sae_take_state_InrD sae_on_commit_InrD)
  have nt: "sae_take_state s (sae_on_token_request s c b) \<noteq> Some (s', Inr (Step_Done pmk))" for c b
    by (auto dest!: sae_take_state_InrD simp: sae_on_token_request_def Let_def elim!: try_ok_InrE split: option.splits)
  obtain ses where ses: "sae_st s = Sae_Confirmed ses"
    using assms auth nc nt by (auto simp: sae_on_frame_def split: if_splits sae_state.splits)
  have "sae_take_state s (Some (sae_on_confirm P s ses (af_body auth))) = Some (s', Inr (Step_Done pmk))"
    using assms auth ses by (auto simp: sae_on_frame_def split: if_splits)
  then show ?thesis using auth ses by (auto dest: sae_take_state_InrD)
qed

text \<open>
  C5. A PMK is only handed over by a peer that proved it knows the password: SAE finishes only
  when both commits are in and the confirm received equals the keyed hash, under the confirmation
  key derived from the shared point, of the peer's commit before ours. The order is the opposite
  of our own confirm's, so a reflected confirm does not finish it unless the two hashes collide.
\<close>

theorem sae_done_authentic:
  assumes "sae_on_frame P G s f = Some (s', Inr (Step_Done pmk))"
  shows "\<exists>auth ses. parse_auth f = Inr auth \<and> sae_st s = Sae_Confirmed ses \<and>
    length (af_body auth) \<ge> 34 \<and> pmk = ss_pmk ses \<and> sae_st s' = Sae_Accepted \<and>
    take 32 (drop 2 (af_body auth)) =
      hmac_sha256 P (ss_kck ses) (take 2 (af_body auth) @ ss_peer_scalar_bytes ses @
        ss_peer_element_bytes ses @ ss_own_scalar_bytes ses @ ss_own_element_bytes ses)"
  using sae_on_frame_state[OF assms]
  by (auto simp: sae_on_confirm_def HASH_LEN_def Let_def confirm_hash_def split: if_splits)

definition sae_example_session :: sae_session where
  "sae_example_session = \<lparr> ss_peer_scalar_bytes = [1], ss_peer_element_bytes = [2],
     ss_own_scalar_bytes = [1], ss_own_element_bytes = [2], ss_kck = [3], ss_pmk = [4] \<rparr>"

definition sae_example :: "(u8, u8) sae" where
  "sae_example = (sae_new [1] []) \<lparr> sae_st := Sae_Confirmed sae_example_session, sae_last_sent := [9] \<rparr>"

theorem sae_done_authentic_witness:
  "\<exists>f s' auth. sae_on_frame toy_prims toy_group sae_example f = Some (s', Inr (Step_Done [4])) \<and>
     parse_auth f = Inr auth \<and> length (af_body auth) \<ge> 34"
proof -
  have st: "sae_st sae_example = Sae_Confirmed sae_example_session" by (simp add: sae_example_def)
  obtain f s' where f: "sae_on_frame toy_prims toy_group sae_example f = Some (s', Inr (Step_Done [4]))"
    using sae_confirm_verifies[OF toy_prims_ok st, of sae_example_session toy_group sae_example]
    by (simp add: sae_example_session_def)
  then show ?thesis using sae_done_authentic[OF f] by blast
qed

text \<open>The provider after it has started, as a polled machine.\<close>

datatype sae_input = Sae_Frame bytes | Sae_Timeout

definition sae_step ::
  "prims \<Rightarrow> ('sc, 'pt) group_ops \<Rightarrow> ('sc, 'pt) sae \<Rightarrow> sae_input \<Rightarrow>
   (('sc, 'pt) sae \<times> (crypto_error + pstep) list) option" where
  "sae_step P G s i =
     map_option (\<lambda>(s', r). (s', [r]))
       (case i of Sae_Frame f \<Rightarrow> sae_on_frame P G s f | Sae_Timeout \<Rightarrow> Some (sae_on_timeout s))"

definition sae_inv :: "('sc, 'pt) sae \<Rightarrow> bool" where
  "sae_inv s \<longleftrightarrow> (\<forall>t. sae_token s = Some t \<longrightarrow> length t \<le> 254) \<and>
     (\<forall>p. sae_pmkid s = Some p \<longrightarrow> length p = 16)"

definition sae_waiting :: "('sc, 'pt) sae \<Rightarrow> bool" where
  "sae_waiting s \<longleftrightarrow> (case sae_st s of Sae_Committed _ \<Rightarrow> True | Sae_Confirmed _ \<Rightarrow> True | _ \<Rightarrow> False)"

lemma sae_keys_context:
  "group_ok G \<Longrightarrow> sae_keys P G k a b = Some (keys, cx) \<Longrightarrow> length cx = 32"
  by (auto simp: sae_keys_def Let_def group_scalar)

lemma parse_token_length: "parse_token body = Inr t \<Longrightarrow> length t \<le> 254"
  using unat_u8_less[of "drop 2 body ! 1"]
  by (auto simp: parse_token_def Let_def split: if_splits)

lemma sae_on_commit_no_panic:
  assumes P: "prims_ok P" and G: "group_ok G"
  shows "sae_on_commit P G s c body \<noteq> None"
proof -
  have x: "x_coordinate G p \<noteq> None" if "\<not> g_is_identity G p" for p
    using that group_coords[OF G, of p] by (simp add: x_coordinate_def)
  have k: "sae_keys P G k a b \<noteq> None" for k a b
    using sae_keys_Some[OF P, of G k a b] by auto
  show ?thesis
    unfolding sae_on_commit_def
    by (rule try_ok_not_None)
      (auto simp: try_ok_def Let_def x k split: sum.splits option.splits prod.splits)
qed

lemma sae_on_token_request_ok:
  assumes "sae_on_token_request s c body = r"
  shows "r \<noteq> None" "sae_inv s \<Longrightarrow> r = Some (Inr (s', st)) \<Longrightarrow> sae_inv s'"
  using assms
  by (auto simp: sae_on_token_request_def try_ok_def sae_commit_frame_def Let_def sae_inv_def
      dest: parse_token_length split: sum.splits if_splits)

lemma sae_on_frame_ok:
  assumes P: "prims_ok P" and G: "group_ok G" and inv: "sae_inv s"
  shows "\<exists>s' r. sae_on_frame P G s f = Some (s', r) \<and> sae_inv s'"
proof -
  have take: "\<exists>s' r. sae_take_state s m = Some (s', r) \<and> sae_inv s'"
    if "m \<noteq> None" "\<And>s' st. m = Some (Inr (s', st)) \<Longrightarrow> sae_inv s'" for m
    using that inv by (cases m; cases "the m") (auto simp: sae_take_state_def sae_inv_def)
  have commit: "\<exists>s' r. sae_take_state s (sae_on_commit P G s c b) = Some (s', r) \<and> sae_inv s'" for c b
    using sae_on_commit_no_panic[OF P G] inv
    by (intro take) (auto dest!: sae_on_commit_InrD sae_keys_context[OF G] simp: sae_inv_def)
  have token: "\<exists>s' r. sae_take_state s (sae_on_token_request s c b) = Some (s', r) \<and> sae_inv s'" for c b
    using sae_on_token_request_ok[OF refl] inv by (intro take) blast+
  have confirm: "\<exists>s' r. sae_take_state s (Some (sae_on_confirm P s ses b)) = Some (s', r) \<and> sae_inv s'" for ses b
    using inv by (intro take) (auto simp: sae_on_confirm_def Let_def sae_inv_def split: if_splits)
  show ?thesis
    using inv commit token confirm
    by (simp add: sae_on_frame_def split: sum.splits sae_state.splits)
qed

interpretation sae_machine:
  polled_machine "sae_step P G" "\<lambda>s. prims_ok P \<and> group_ok G \<and> sae_inv s" "\<lambda>_. True" for P G
proof unfold_locales
  fix s :: "('a, 'b) sae" and i
  assume a: "prims_ok P \<and> group_ok G \<and> sae_inv s"
  show "\<exists>s' out. sae_step P G s i = Some (s', out) \<and> prims_ok P \<and> group_ok G \<and> sae_inv s'"
  proof (cases i)
    case (Sae_Frame f)
    then show ?thesis using sae_on_frame_ok[of P G s f] a by (auto simp: sae_step_def)
  next
    case Sae_Timeout
    have "sae_inv (fst (sae_on_timeout s))"
      using a by (auto simp: sae_on_timeout_def sae_inv_def Let_def split: sae_state.split)
    then show ?thesis using a Sae_Timeout by (auto simp: sae_step_def split: prod.split)
  qed
qed

text \<open>
  A commit or confirm is retransmitted unchanged and not forever: while an answer is
  awaited, the first five timeouts in a row send the very bytes last sent, so no second scalar
  over the same password element ever leaves the station, and the sixth abandons the exchange.
\<close>

theorem sae_retransmit_exact:
  assumes "(\<exists>c. sae_st s = Sae_Committed c) \<or> (\<exists>ses. sae_st s = Sae_Confirmed ses)" "sae_sync s = 0"
  shows "\<exists>s'. run_machine (sae_step P G) s (replicate 6 Sae_Timeout) =
    Some (s', replicate 5 (Inr (Step_Send (sae_last_sent s))) @ [Inl Ce_AuthFailed])"
proof -
  have r: "replicate 6 x = [x, x, x, x, x, x]" "replicate 5 y = [y, y, y, y, y]"
    for x :: sae_input and y :: "crypto_error + pstep"
    by (simp_all add: numeral_eq_Suc)
  show ?thesis using assms unfolding r
    by (auto simp: sae_step_def sae_on_timeout_def SYNC_MAX_def Let_def)
qed

theorem sae_retransmit_exact_witness:
  "\<exists>s'. run_machine (sae_step toy_prims toy_group) sae_example (replicate 6 Sae_Timeout) =
    Some (s', replicate 5 (Inr (Step_Send [9])) @ [Inl Ce_AuthFailed])"
  using sae_retransmit_exact[of sae_example toy_prims toy_group]
  by (simp add: sae_example_def sae_new_def)

text \<open>
  Frames out of order are dropped without a trace: a confirm that arrives before any
  commit, a further commit or token request once ours is confirmed, and any of them after the
  exchange has been accepted leave the provider exactly as it was and ask for nothing.
\<close>

theorem sae_out_of_order_dropped:
  assumes "parse_auth f = Inr auth"
    and "af_seq auth = SEQ_COMMIT \<and> (af_status auth = STATUS_H2E \<or> af_status auth = STATUS_ANTI_CLOGGING) \<or>
         af_seq auth = SEQ_CONFIRM \<and> af_status auth = STATUS_SUCCESS"
    and "case sae_st s of
           Sae_Committed _ \<Rightarrow> af_seq auth = SEQ_CONFIRM
         | Sae_Confirmed _ \<Rightarrow> af_seq auth = SEQ_COMMIT
         | st \<Rightarrow> st = Sae_Accepted"
  shows "sae_on_frame P G s f = Some (s, Inr Step_Wait)"
  using assms by (cases "sae_st s") (auto simp: sae_on_frame_def sae_consts)

theorem sae_out_of_order_dropped_witness:
  "sae_on_frame toy_prims toy_group sae_example (auth_header SEQ_COMMIT STATUS_H2E @ [1, 2, 3]) =
     Some (sae_example, Inr Step_Wait)"
  by (rule sae_out_of_order_dropped[OF parse_auth_header]) (simp_all add: sae_example_def sae_consts)

text \<open>
  Dropping is not complete: a commit with status 0, a foreign status or a frame that does not
  parse is answered with an error whatever the state, although anyone can inject it, and the
  state it is meant to fail is left as it was.
\<close>

lemma sae_injected_status_fails:
  "sae_on_frame P G s (auth_header SEQ_COMMIT STATUS_SUCCESS @ body) = Some (s, Inl Ce_AuthFailed)"
  by (simp add: sae_on_frame_def parse_auth_header sae_consts)

end
