(* ===== verification/Dhcp_Types.thy ===== *)
theory Dhcp_Types
  imports Caw_Prelude
begin

text \<open>
  The lease the DHCP client hands to the rest of the program, and the subnet arithmetic
  (\<^verbatim>\<open>src/crates/caw-dhcp/src/client.rs\<close> and \<^verbatim>\<open>src/crates/caw-dhcp/src/lib.rs\<close>). An IPv4 address is
  its 32 bits, most significant octet first.
\<close>

type_synonym ipv4 = u32

record lease =
  ls_addr :: ipv4
  ls_prefix_len :: nat
  ls_gateway :: "ipv4 option"
  ls_dns :: "ipv4 list"
  ls_server :: ipv4
  ls_lease_secs :: u32
  ls_renew_secs :: u32
  ls_rebind_secs :: u32

datatype dhcp_reason = Dr_Nak | Dr_Expired

definition leading_ones :: "u32 \<Rightarrow> nat" where
  "leading_ones w = length (takeWhile (\<lambda>i. bit w i) (rev [0..<32]))"

definition count_ones :: "u32 \<Rightarrow> nat" where
  "count_ones w = length (filter (\<lambda>i. bit w i) [0..<32])"

definition prefix_len_from_mask :: "ipv4 \<Rightarrow> nat option" where
  "prefix_len_from_mask m =
     (let len = leading_ones m in if count_ones m = len then Some len else None)"

definition mask_from_prefix_len :: "nat \<Rightarrow> ipv4 option" where
  "mask_from_prefix_len prefix_len =
     (if prefix_len = 0 then Some 0
      else if prefix_len \<le> 32 then Some (push_bit (32 - prefix_len) (- 1))
      else None)"

section \<open>Masks and prefix lengths\<close>

lemma leading_ones_eqI:
  assumes "n \<le> 32" "\<And>i. i < 32 \<Longrightarrow> bit w i \<longleftrightarrow> 32 - n \<le> i"
  shows "leading_ones w = n"
proof -
  have split: "rev [0..<32] = rev [32 - n..<32] @ rev [0..<32 - n]"
    using upt_add_eq_append[of 0 "32 - n" n] assms(1) by (simp flip: rev_append)
  have ones: "takeWhile (\<lambda>i. bit w i) (rev [32 - n..<32] @ xs)
      = rev [32 - n..<32] @ takeWhile (\<lambda>i. bit w i) xs" for xs
    by (rule takeWhile_append2) (auto simp: assms(2))
  have rest: "takeWhile (\<lambda>i. bit w i) (rev [0..<32 - n]) = []"
    by (cases "32 - n") (auto simp: assms(2))
  show ?thesis unfolding leading_ones_def split ones rest using assms(1) by simp
qed

lemma leading_ones_bits:
  assumes "32 - leading_ones w \<le> i" "i < 32"
  shows "bit w i"
proof -
  define tw where "tw = takeWhile (\<lambda>i. bit w i) (rev [0..<32])"
  have len: "31 - i < length tw"
    using assms by (auto simp: leading_ones_def tw_def)
  then have "bit w (tw ! (31 - i))"
    by (metis nth_mem set_takeWhileD tw_def)
  moreover have "tw ! (31 - i) = i"
    using len assms(2) takeWhile_nth[of "31 - i" "\<lambda>i. bit w i" "rev [0..<32]"]
    by (simp add: tw_def rev_nth)
  ultimately show ?thesis by simp
qed

lemma leading_ones_le: "leading_ones w \<le> 32"
  using length_takeWhile_le[of "\<lambda>i. bit w i" "rev [0..<32]"] by (simp add: leading_ones_def)

lemma count_ones_card: "count_ones w = card {i. i < 32 \<and> bit w i}"
proof -
  have "set (filter (\<lambda>i. bit w i) [0..<32]) = {i. i < 32 \<and> bit w i}" by auto
  then show ?thesis
    unfolding count_ones_def by (metis distinct_card distinct_filter distinct_upt)
qed

lemma bit_mask_from_prefix_len:
  assumes "mask_from_prefix_len n = Some m" "i < 32"
  shows "bit m i \<longleftrightarrow> 32 - n \<le> i"
proof (cases "n = 0")
  case False
  then have "m = push_bit (32 - n) (- 1)" "n \<le> 32"
    using assms(1) by (auto simp: mask_from_prefix_len_def split: if_splits)
  then show ?thesis using assms(2) by (simp only: bit_push_bit_iff bit_minus_1_iff) (simp, arith)
qed (use assms in \<open>simp add: mask_from_prefix_len_def\<close>)

lemma mask_from_prefix_len_bound: "mask_from_prefix_len n = Some m \<Longrightarrow> n \<le> 32"
  by (auto simp: mask_from_prefix_len_def split: if_splits)

lemma prefix_len_of_mask:
  assumes "mask_from_prefix_len n = Some m"
  shows "prefix_len_from_mask m = Some n"
proof -
  have n: "n \<le> 32" by (rule mask_from_prefix_len_bound[OF assms])
  have "leading_ones m = n"
    by (intro leading_ones_eqI n bit_mask_from_prefix_len[OF assms])
  moreover have "{i. i < 32 \<and> bit m i} = {32 - n..<32}"
    using bit_mask_from_prefix_len[OF assms] by auto
  then have "count_ones m = n" using n by (simp add: count_ones_card)
  ultimately show ?thesis by (simp add: prefix_len_from_mask_def)
qed

lemma mask_of_prefix_len:
  assumes "prefix_len_from_mask m = Some n"
  shows "mask_from_prefix_len n = Some m"
proof -
  have lead: "leading_ones m = n" and cnt: "count_ones m = n"
    using assms by (auto simp: prefix_len_from_mask_def Let_def split: if_splits)
  have n: "n \<le> 32" using leading_ones_le[of m] lead by simp
  have "{32 - n..<32} \<subseteq> {i. i < 32 \<and> bit m i}" using leading_ones_bits[of m] lead by auto
  moreover have "card {32 - n..<32} = card {i. i < 32 \<and> bit m i}"
    using cnt n by (simp add: count_ones_card)
  ultimately have eq: "{32 - n..<32} = {i. i < 32 \<and> bit m i}"
    by (intro card_subset_eq) auto
  have bits: "bit m i \<longleftrightarrow> 32 - n \<le> i" if "i < 32" for i
  proof -
    have "i \<in> {32 - n..<32} \<longleftrightarrow> i \<in> {i. i < 32 \<and> bit m i}" by (simp only: eq)
    with that show ?thesis by simp
  qed
  obtain m' where m': "mask_from_prefix_len n = Some m'"
    using n by (cases "n = 0") (simp_all add: mask_from_prefix_len_def)
  have "m' = m"
    by (rule bit_word_eqI) (simp add: bits bit_mask_from_prefix_len[OF m'])
  then show ?thesis using m' by simp
qed

end
