(* ===== verification/Conn_Data.thy ===== *)
theory Conn_Data
  imports Station_Rsn Policy Four_Way Sae_Machine Dhcp_Types
begin

text \<open>
  The data of the connection state machine (\<^verbatim>\<open>src/crates/caw-core/src/conn.rs\<close>), the assembly of
  its authentication (\<^verbatim>\<open>src/crates/caw-core/src/auth.rs\<close>), its transitions and the planning of an
  attempt. The handlers are in \<open>Conn\<close>.

  A handler that pushes onto \<^verbatim>\<open>out\<close> returns the actions it pushes; handlers that may reach an
  \<^verbatim>\<open>expect\<close> return an option whose \<open>None\<close> is the panic. The randomness drawn inside a poll (the
  seed of an SAE exchange, the nonce of a 4-way handshake, which may fail) is the argument \<open>rnd\<close> of
  the poll. The 802.1X provider is the record \<open>dot1x_ops\<close> over an abstract type,
  whose \<open>dx_build\<close> also stands for reading the files a profile names, \<open>provider_build\<close> of \<open>Tls_Setup\<close>.

  A failure keeps the error it was made from where the code keeps that error's text, and the
  prompt for a secret keeps the SSID it names.
\<close>

section \<open>Data\<close>

definition SCAN_TIMEOUT_MS :: nat where "SCAN_TIMEOUT_MS = 10000"
definition AUTH_TIMEOUT_MS :: nat where "AUTH_TIMEOUT_MS = 3000"
definition ASSOC_TIMEOUT_MS :: nat where "ASSOC_TIMEOUT_MS = 8000"
definition BACKOFF_BASE_MS :: nat where "BACKOFF_BASE_MS = 1000"
definition BACKOFF_MAX_MS :: nat where "BACKOFF_MAX_MS = 60000"
definition REASON_LEAVING :: u16 where "REASON_LEAVING = 3"
definition RSNXE_SAE_H2E :: bytes where "RSNXE_SAE_H2E = [244, 1, push_bit 5 1]"
definition MGMT_HEADER_LEN :: nat where "MGMT_HEADER_LEN = 24"
definition FC_AUTH :: u8 where "FC_AUTH = 0xb0"

datatype conn_state = Cs_Idle | Cs_Scanning | Cs_Authenticating | Cs_Associating | Cs_Handshaking
  | Cs_Configuring | Cs_Connected | Cs_Reconnecting

record device_caps =
  dc_offloads_4way_psk :: bool
  dc_offloads_4way_1x :: bool
  dc_offloads_sae :: bool

record device =
  dev_ifindex :: u32
  dev_mac :: bytes
  dev_caps :: device_caps

datatype connect_status = Cst_Success | Cst_Refused u16 | Cst_TimedOut

datatype event = Ev_ScanComplete u32 u32 | Ev_ScanAborted u32 u32
  | Ev_Connected "bytes option" connect_status | Ev_Disconnected u16 bool
  | Ev_ExternalAuth bytes bytes bool | Ev_Frame bytes | Ev_Authenticate bytes | Ev_AuthTimedOut

datatype command = Cmd_Connect bytes | Cmd_Autoconnect | Cmd_Secret bytes | Cmd_Disconnect

datatype lease_event = Le_Acquired lease | Le_Lost dhcp_reason | Le_Failed

datatype timer_id = ScanTimeout | AuthTimeout | AssocTimeout | HandshakeRetry | ReconnectBackoff

datatype conn_input = In_Command command | In_Wireless event | In_ScanResults "bss list"
  | In_Eapol bytes | In_Lease lease_event | In_Timer timer_id

datatype offload = Off_Pmk bytes | Off_SaePassword bytes

record auth_request =
  aur_ifindex :: u32
  aur_ssid :: bytes
  aur_bssid :: bytes
  aur_freq_mhz :: u32
  aur_auth_type :: u32
  aur_data :: bytes

record assoc_request =
  asr_ifindex :: u32
  asr_ssid :: bytes
  asr_bssid :: bytes
  asr_freq_mhz :: u32
  asr_auth_type :: u32
  asr_wpa_versions :: u32
  asr_pairwise_ciphers :: "u32 list"
  asr_group_cipher :: "u32 option"
  asr_akms :: "u32 list"
  asr_mfp :: "u32 option"
  asr_ies :: bytes
  asr_offload :: "offload option"
  asr_authenticated :: bool

record pairwise_key =
  pk_peer :: bytes
  pk_cipher :: u32
  pk_ptk :: ptk

record group_key =
  gk_cipher :: u32
  gk_gtk :: gtk

record key_install =
  ki_pairwise_key :: "pairwise_key option"
  ki_group :: group_key

datatype failure = F_NotFound | F_NoKnownNetwork | F_Downgrade security security
  | F_UnsupportedSecurity | F_NoCredential | F_Refused u16 | F_AssocTimeout | F_WrongCredential
  | F_RsnMismatch | F_AuthFailed | F_Handshake eapol_error | F_Disconnected u16 bool | F_Dhcp
  | F_Enterprise string | F_Internal string

datatype action = Ac_TriggerScan u32 | Ac_FetchScanResults u32 | Ac_Associate assoc_request
  | Ac_Authenticate auth_request | Ac_Disconnect u16 | Ac_SendEapol bytes
  | Ac_InstallKeys key_install | Ac_StartDhcp | Ac_ApplyLease lease | Ac_SetTimer timer_id nat
  | Ac_ClearTimer timer_id | Ac_RequestSecret bytes | Ac_SaveProfile profile
  | Ac_Notify conn_state | Ac_Failed failure

definition failure_is_terminal :: "failure \<Rightarrow> bool" where
  "failure_is_terminal f =
     (case f of
        F_Downgrade _ _ \<Rightarrow> True
      | F_UnsupportedSecurity \<Rightarrow> True
      | F_NoCredential \<Rightarrow> True
      | F_WrongCredential \<Rightarrow> True
      | F_RsnMismatch \<Rightarrow> True
      | F_AuthFailed \<Rightarrow> True
      | F_Enterprise _ \<Rightarrow> True
      | F_Internal _ \<Rightarrow> True
      | _ \<Rightarrow> False)"

definition failure_from_crypto :: "crypto_error \<Rightarrow> failure" where
  "failure_from_crypto e =
     (case e of
        Ce_MicMismatch \<Rightarrow> F_WrongCredential
      | Ce_KeyUnwrapFailed \<Rightarrow> F_WrongCredential
      | Ce_AuthFailed \<Rightarrow> F_AuthFailed
      | other \<Rightarrow> F_Handshake (Ee_Crypto other))"

definition failure_from_eapol :: "eapol_error \<Rightarrow> failure" where
  "failure_from_eapol e =
     (case e of
        Ee_Crypto inner \<Rightarrow> failure_from_crypto inner
      | Ee_RsnMismatch \<Rightarrow> F_RsnMismatch
      | Ee_Rejected \<Rightarrow> F_AuthFailed
      | Ee_PrematureSuccess \<Rightarrow> F_AuthFailed
      | other \<Rightarrow> F_Handshake other)"

section \<open>Authentication\<close>

datatype ('sc, 'pt, 'd) auth = Auth_Open | Auth_Offloaded offload | Auth_PreAssoc "('sc, 'pt) sae"
  | Auth_PostAssoc 'd | Auth_Ready bytes | Auth_Running

record 'd dot1x_ops =
  dx_build :: "bytes \<Rightarrow> bytes option \<Rightarrow> bytes \<Rightarrow> enterprise_method \<Rightarrow> bytes \<Rightarrow> string + 'd"
  dx_start :: "'d \<Rightarrow> auth_ctx \<Rightarrow> 'd \<times> (crypto_error + pstep)"
  dx_on_frame :: "'d \<Rightarrow> auth_ctx \<Rightarrow> bytes \<Rightarrow> 'd \<times> (crypto_error + pstep)"

record ('sc, 'pt, 'd) env =
  env_prims :: prims
  env_group :: "('sc, 'pt) group_ops"
  env_enterprise :: bool
  env_dot1x :: "'d dot1x_ops"

record rnd =
  rn_seed :: bytes
  rn_snonce :: "bytes option"

definition realm_of :: "bytes \<Rightarrow> bytes option" where
  "realm_of identity =
     (case dropWhile (\<lambda>c. c \<noteq> 64) identity of
        [] \<Rightarrow> None
      | _ # realm \<Rightarrow> if realm = [] then None else Some realm)"

definition enterprise ::
  "('sc, 'pt, 'd) env \<Rightarrow> bytes \<Rightarrow> bytes option \<Rightarrow> bytes option \<Rightarrow> enterprise_method \<Rightarrow> bytes option \<Rightarrow>
   failure + 'd" where
  "enterprise E identity anonymous_identity server_name method ca_cert =
     (if \<not> env_enterprise E then
        Inl (F_Enterprise ''this build has no 802.1X support; rebuild with the `enterprise` feature'')
      else
        (case (case server_name of
                 Some n \<Rightarrow> Some n
               | None \<Rightarrow> realm_of (case anonymous_identity of Some a \<Rightarrow> a | None \<Rightarrow> identity)) of
           None \<Rightarrow> Inl (F_Enterprise ''no server_name in the profile and no realm in the identity'')
         | Some name \<Rightarrow>
             (case ca_cert of
                None \<Rightarrow> Inl (F_Enterprise ''no ca_cert in the profile'')
              | Some ca \<Rightarrow>
                  map_sum F_Enterprise id (dx_build (env_dot1x E) identity anonymous_identity name method ca))))"

definition assemble ::
  "('sc, 'pt, 'd) env \<Rightarrow> rnd \<Rightarrow> akm \<Rightarrow> credential \<Rightarrow> device_caps \<Rightarrow> auth_ctx \<Rightarrow>
   failure + ('sc, 'pt, 'd) auth" where
  "assemble E rnd akm credential caps ctx =
     (case credential of
        Cred_None \<Rightarrow> Inr Auth_Open
      | Cred_Passphrase secret \<Rightarrow>
          if akm_is_sae akm then
            (if dc_offloads_sae caps then Inr (Auth_Offloaded (Off_SaePassword secret))
             else Inr (Auth_PreAssoc (sae_new secret (rn_seed rnd))))
          else if akm_is_psk akm then
            (case psk_start (env_prims E) secret ctx of
               Inl e \<Rightarrow> Inl (failure_from_crypto e)
             | Inr (Step_Done pmk) \<Rightarrow>
                 Inr (if dc_offloads_4way_psk caps then Auth_Offloaded (Off_Pmk pmk) else Auth_Ready pmk)
             | Inr _ \<Rightarrow> Inl (F_Internal ''a local provider asked to send or wait''))
          else Inl F_UnsupportedSecurity
      | Cred_Enterprise identity anonymous_identity server_name method ca_cert \<Rightarrow>
          if akm_is_enterprise akm then
            map_sum id Auth_PostAssoc (enterprise E identity anonymous_identity server_name method ca_cert)
          else Inl F_UnsupportedSecurity)"

section \<open>The connection\<close>

record target =
  tg_ssid :: bytes
  tg_secret :: "bytes option"
  tg_retry :: bool
  tg_save :: bool

record negotiated =
  ng_akm :: akm
  ng_pairwise :: cipher
  ng_group :: cipher
  ng_group_mgmt :: "cipher option"
  ng_mfp_capable :: bool
  ng_mfp_required :: bool
  ng_beacon_ie :: bytes

record choice =
  ch_bssid :: bytes
  ch_freq_mhz :: u32
  ch_signal_dbm :: int
  ch_advertised :: security
  ch_negotiated :: security
  ch_rsn :: "negotiated option"
  ch_roaming :: bool

record ('sc, 'pt, 'd) session =
  se_choice :: choice
  se_auth :: "('sc, 'pt, 'd) auth"
  se_pmkid :: "bytes option"
  se_assoc_ie :: bytes
  se_handshake :: "fourway option"

record ('sc, 'pt, 'd) conn =
  cn_device :: device
  cn_profiles :: "profile list"
  cn_state :: conn_state
  cn_target :: "target option"
  cn_session :: "('sc, 'pt, 'd) session option"
  cn_attempts :: u32
  cn_armed :: "timer_id option"
  cn_pending :: "bss option"

definition conn_new :: "device \<Rightarrow> profile list \<Rightarrow> ('sc, 'pt, 'd) conn" where
  "conn_new device profiles =
     \<lparr> cn_device = device, cn_profiles = profiles, cn_state = Cs_Idle, cn_target = None,
       cn_session = None, cn_attempts = 0, cn_armed = None, cn_pending = None \<rparr>"

section \<open>Transitions\<close>

definition timer_of :: "conn_state \<Rightarrow> timer_id option" where
  "timer_of s =
     (case s of
        Cs_Scanning \<Rightarrow> Some ScanTimeout
      | Cs_Authenticating \<Rightarrow> Some AuthTimeout
      | Cs_Associating \<Rightarrow> Some AssocTimeout
      | Cs_Handshaking \<Rightarrow> Some HandshakeRetry
      | Cs_Connected \<Rightarrow> Some HandshakeRetry
      | Cs_Reconnecting \<Rightarrow> Some ReconnectBackoff
      | Cs_Idle \<Rightarrow> None
      | Cs_Configuring \<Rightarrow> None)"

definition backoff_ms :: "u32 \<Rightarrow> nat" where
  "backoff_ms attempt =
     (let shift = min (unat attempt - 1) 31 in min (BACKOFF_BASE_MS * 2 ^ min shift 20) BACKOFF_MAX_MS)"

definition conn_arm ::
  "timer_id \<Rightarrow> nat \<Rightarrow> ('sc, 'pt, 'd) conn \<Rightarrow> ('sc, 'pt, 'd) conn \<times> action list" where
  "conn_arm i millis c = (c \<lparr> cn_armed := Some i \<rparr>, [Ac_SetTimer i millis])"

definition conn_disarm :: "('sc, 'pt, 'd) conn \<Rightarrow> ('sc, 'pt, 'd) conn \<times> action list" where
  "conn_disarm c =
     (case cn_armed c of
        None \<Rightarrow> (c, [])
      | Some i \<Rightarrow> (c \<lparr> cn_armed := None \<rparr>, [Ac_ClearTimer i]))"

definition conn_enter ::
  "conn_state \<Rightarrow> ('sc, 'pt, 'd) conn \<Rightarrow> ('sc, 'pt, 'd) conn \<times> action list" where
  "conn_enter st c =
     (let (c1, o1) =
        (if cn_armed c \<noteq> None \<and> cn_armed c \<noteq> timer_of st then conn_disarm c else (c, []))
      in (c1 \<lparr> cn_state := st \<rparr>, o1 @ [Ac_Notify st]))"

definition conn_associated :: "('sc, 'pt, 'd) conn \<Rightarrow> bool" where
  "conn_associated c \<longleftrightarrow>
     cn_state c = Cs_Associating \<or> cn_state c = Cs_Handshaking \<or> cn_state c = Cs_Configuring \<or>
     cn_state c = Cs_Connected"

definition conn_go_idle :: "('sc, 'pt, 'd) conn \<Rightarrow> ('sc, 'pt, 'd) conn \<times> action list" where
  "conn_go_idle c =
     (let (c1, o1) = conn_disarm c
      in (c1 \<lparr> cn_state := Cs_Idle, cn_target := None, cn_session := None, cn_pending := None,
              cn_attempts := 0 \<rparr>, o1 @ [Ac_Notify Cs_Idle]))"

definition failure_is_disconnected :: "failure \<Rightarrow> bool" where
  "failure_is_disconnected f = (case f of F_Disconnected _ _ \<Rightarrow> True | _ \<Rightarrow> False)"

definition conn_fail ::
  "failure \<Rightarrow> ('sc, 'pt, 'd) conn \<Rightarrow> ('sc, 'pt, 'd) conn \<times> action list" where
  "conn_fail failure c =
     (let o0 = (if conn_associated c \<and> \<not> failure_is_disconnected failure
                then [Ac_Disconnect REASON_LEAVING] else []);
          c0 = c \<lparr> cn_session := None, cn_pending := None \<rparr>;
          retry = (\<not> failure_is_terminal failure \<and>
                   (case cn_target c of None \<Rightarrow> False | Some t \<Rightarrow> tg_retry t))
      in if retry then
           (let c1 = c0 \<lparr> cn_attempts := cn_attempts c0 + 1 \<rparr>;
                (c2, o2) = conn_enter Cs_Reconnecting c1;
                (c3, o3) = conn_arm ReconnectBackoff (backoff_ms (cn_attempts c2)) c2
            in (c3, o0 @ o2 @ o3))
         else
           (let (c1, o1) = conn_disarm c0
            in (c1 \<lparr> cn_state := Cs_Idle, cn_target := None, cn_attempts := 0 \<rparr>,
                o0 @ o1 @ [Ac_Failed failure])))"

definition conn_start_scan :: "('sc, 'pt, 'd) conn \<Rightarrow> ('sc, 'pt, 'd) conn \<times> action list" where
  "conn_start_scan c =
     (let (c1, o1) = conn_enter Cs_Scanning c;
          (c2, o2) = conn_arm ScanTimeout SCAN_TIMEOUT_MS c1
      in (c2, o1 @ [Ac_TriggerScan (dev_ifindex (cn_device c))] @ o2))"

section \<open>Profiles\<close>

definition conn_insert_profile :: "profile \<Rightarrow> ('sc, 'pt, 'd) conn \<Rightarrow> ('sc, 'pt, 'd) conn" where
  "conn_insert_profile p c =
     c \<lparr> cn_target := map_option
           (\<lambda>t. if tg_ssid t = pr_ssid p then t \<lparr> tg_retry := pr_autoconnect p \<rparr> else t) (cn_target c),
         cn_profiles := filter (\<lambda>q. pr_ssid q \<noteq> pr_ssid p) (cn_profiles c) @ [p] \<rparr>"

definition conn_forget_profile :: "bytes \<Rightarrow> ('sc, 'pt, 'd) conn \<Rightarrow> ('sc, 'pt, 'd) conn" where
  "conn_forget_profile ssid c = c \<lparr> cn_profiles := filter (\<lambda>q. pr_ssid q \<noteq> ssid) (cn_profiles c) \<rparr>"

definition conn_ssid_bytes :: "('sc, 'pt, 'd) conn \<Rightarrow> bytes" where
  "conn_ssid_bytes c = (case cn_target c of None \<Rightarrow> [] | Some t \<Rightarrow> tg_ssid t)"

definition conn_profile :: "('sc, 'pt, 'd) conn \<Rightarrow> profile option" where
  "conn_profile c =
     (case cn_target c of
        None \<Rightarrow> None
      | Some t \<Rightarrow> find (\<lambda>p. pr_ssid p = tg_ssid t) (cn_profiles c))"

definition conn_credential :: "bool \<Rightarrow> ('sc, 'pt, 'd) conn \<Rightarrow> credential option" where
  "conn_credential open_net c =
     (if open_net then Some Cred_None
      else case conn_profile c of
        Some p \<Rightarrow> Some (pr_credential p)
      | None \<Rightarrow>
          (case cn_target c of
             None \<Rightarrow> None
           | Some t \<Rightarrow> map_option Cred_Passphrase (tg_secret t)))"

section \<open>Planning\<close>

definition negotiate :: "('sc, 'pt, 'd) env \<Rightarrow> rsn_ie \<Rightarrow> credential option \<Rightarrow> failure + negotiated" where
  "negotiate E rsn credential =
     (case choose_akm (env_enterprise E) rsn credential of
        None \<Rightarrow> Inl F_UnsupportedSecurity
      | Some akm \<Rightarrow>
          (case choose_pairwise rsn of
             None \<Rightarrow> Inl F_UnsupportedSecurity
           | Some pw \<Rightarrow>
               (let mfp_required = rsn_mfp_required rsn \<or> akm_is_sae akm in
                Inr \<lparr> ng_akm = akm, ng_pairwise = pw, ng_group = rsn_group_cipher rsn,
                      ng_group_mgmt = rsn_group_mgmt_cipher rsn,
                      ng_mfp_capable = (rsn_mfp_capable rsn \<or> mfp_required),
                      ng_mfp_required = mfp_required, ng_beacon_ie = rsn_raw rsn \<rparr>)))"

definition auth_context :: "bytes \<Rightarrow> choice \<Rightarrow> bytes \<Rightarrow> auth_ctx" where
  "auth_context ssid choice own_mac =
     \<lparr> ac_ssid = ssid, ac_bssid = ch_bssid choice, ac_own_mac = own_mac,
       ac_akm = (case ch_rsn choice of None \<Rightarrow> Psk | Some n \<Rightarrow> ng_akm n) \<rparr>"

definition conn_evaluate ::
  "('sc, 'pt, 'd) env \<Rightarrow> bss \<Rightarrow> credential option \<Rightarrow> bool \<Rightarrow> ('sc, 'pt, 'd) conn \<Rightarrow> failure + choice" where
  "conn_evaluate E bss credential roaming c =
     (case (case bss_rsn bss of
              None \<Rightarrow> if bss_security bss = Sec_Open then Inr None else Inl F_UnsupportedSecurity
            | Some rsn \<Rightarrow> map_sum id Some (negotiate E rsn credential)) of
        Inl f \<Rightarrow> Inl f
      | Inr rsn \<Rightarrow>
          (let negotiated = (case rsn of
                 Some n \<Rightarrow> negotiated_security (ng_akm n) (ng_mfp_required n)
               | None \<Rightarrow> Sec_Open);
               ok = Inr \<lparr> ch_bssid = bss_bssid bss, ch_freq_mhz = bss_freq_mhz bss,
                       ch_signal_dbm = bss_signal_dbm bss, ch_advertised = bss_security bss,
                       ch_negotiated = negotiated, ch_rsn = rsn, ch_roaming = roaming \<rparr>
           in case conn_profile c of
                None \<Rightarrow> ok
              | Some p \<Rightarrow>
                  if profile_accepts p negotiated then ok
                  else Inl (F_Downgrade (pr_min_security p) negotiated)))"

end
