(* ===== verification/Conn.thy ===== *)
theory Conn
  imports Conn_Data
begin

text \<open>
  The handlers of the connection state machine (\<^verbatim>\<open>src/crates/caw-core/src/conn.rs\<close>), in the order of
  the source; \<open>conn_poll\<close> is \<^verbatim>\<open>Connection::poll\<close>. Each handler maps the connection to its successor and
  the actions pushed; \<open>None\<close> is a panic at one of the source's \<^verbatim>\<open>expect\<close> calls.
\<close>

section \<open>Association\<close>

definition NL80211_AUTHTYPE_OPEN_SYSTEM :: u32 where "NL80211_AUTHTYPE_OPEN_SYSTEM = 0"
definition NL80211_AUTHTYPE_SAE :: u32 where "NL80211_AUTHTYPE_SAE = 4"
definition NL80211_WPA_VERSION_2 :: u32 where "NL80211_WPA_VERSION_2 = 2"
definition NL80211_WPA_VERSION_3 :: u32 where "NL80211_WPA_VERSION_3 = 4"
definition NL80211_MFP_NO :: u32 where "NL80211_MFP_NO = 0"
definition NL80211_MFP_REQUIRED :: u32 where "NL80211_MFP_REQUIRED = 1"
definition NL80211_MFP_OPTIONAL :: u32 where "NL80211_MFP_OPTIONAL = 2"
definition WLAN_CIPHER_SUITE_CCMP :: u32 where "WLAN_CIPHER_SUITE_CCMP = ieee 4"

definition assoc_take_offload :: "('sc, 'pt, 'd) auth \<Rightarrow> offload option \<times> ('sc, 'pt, 'd) auth" where
  "assoc_take_offload auth =
     (case auth of Auth_Offloaded offload \<Rightarrow> (Some offload, Auth_Open) | other \<Rightarrow> (None, other))"

definition assoc_element :: "negotiated \<Rightarrow> bytes option \<Rightarrow> bytes option" where
  "assoc_element rsn pmkid =
     srsn_encode \<lparr> srsn_group = ng_group rsn, srsn_pairwise = ng_pairwise rsn, srsn_akm = ng_akm rsn,
       srsn_mfp_capable = ng_mfp_capable rsn, srsn_mfp_required = ng_mfp_required rsn,
       srsn_pmkid = pmkid,
       srsn_group_mgmt = (if ng_mfp_capable rsn then ng_group_mgmt rsn else None) \<rparr>"

definition assoc_plain :: "u32 \<Rightarrow> bytes \<Rightarrow> choice \<Rightarrow> offload option \<Rightarrow> assoc_request" where
  "assoc_plain ifindex ssid choice offload =
     \<lparr> asr_ifindex = ifindex, asr_ssid = ssid, asr_bssid = ch_bssid choice,
       asr_freq_mhz = ch_freq_mhz choice, asr_auth_type = NL80211_AUTHTYPE_OPEN_SYSTEM,
       asr_wpa_versions = 0, asr_pairwise_ciphers = [], asr_group_cipher = None, asr_akms = [],
       asr_mfp = None, asr_ies = [], asr_offload = offload, asr_authenticated = False \<rparr>"

definition assoc_secured :: "negotiated \<Rightarrow> bytes \<Rightarrow> assoc_request \<Rightarrow> assoc_request" where
  "assoc_secured rsn element request =
     (let sae = akm_is_sae (ng_akm rsn);
          own_sae = sae \<and> asr_offload request = None
      in request \<lparr>
           asr_auth_type := (if sae then NL80211_AUTHTYPE_SAE else NL80211_AUTHTYPE_OPEN_SYSTEM),
           asr_wpa_versions :=
             (if sae then NL80211_WPA_VERSION_2 OR NL80211_WPA_VERSION_3 else NL80211_WPA_VERSION_2),
           asr_pairwise_ciphers :=
             (case cipher_suite (ng_pairwise rsn) of None \<Rightarrow> [] | Some su \<Rightarrow> [su]),
           asr_group_cipher := cipher_suite (ng_group rsn),
           asr_akms := [akm_suite (ng_akm rsn)],
           asr_mfp := Some (if ng_mfp_required rsn then NL80211_MFP_REQUIRED
                            else if ng_mfp_capable rsn then NL80211_MFP_OPTIONAL else NL80211_MFP_NO),
           asr_authenticated := (if own_sae then True else asr_authenticated request),
           asr_ies := (if own_sae then element @ RSNXE_SAE_H2E else element) \<rparr>)"

definition conn_associate ::
  "('sc, 'pt, 'd) conn \<Rightarrow> (('sc, 'pt, 'd) conn \<times> action list) option" where
  "conn_associate c =
     (case (cn_target c, cn_session c) of
        (Some target, Some session) \<Rightarrow>
          (let (offload, auth) = assoc_take_offload (se_auth session);
               plain = assoc_plain (dev_ifindex (cn_device c)) (tg_ssid target) (se_choice session) offload
           in case (case ch_rsn (se_choice session) of
                      None \<Rightarrow> Some (plain, se_assoc_ie session)
                    | Some rsn \<Rightarrow>
                        map_option
                          (\<lambda>element. let request = assoc_secured rsn element plain in (request, asr_ies request))
                          (assoc_element rsn (se_pmkid session))) of
                None \<Rightarrow> None
              | Some (request, assoc_ie) \<Rightarrow>
                  emit_then
                    (Some (conn_enter Cs_Associating
                       (c \<lparr> cn_session := Some (session \<lparr> se_auth := auth, se_assoc_ie := assoc_ie \<rparr>) \<rparr>)))
                    (\<lambda>c. emit_then (Some (c, [Ac_Associate request]))
                    (\<lambda>c. Some (conn_arm AssocTimeout ASSOC_TIMEOUT_MS c))))
      | _ \<Rightarrow> None)"

section \<open>Pre-association authentication\<close>

definition conn_auth_request :: "bytes \<Rightarrow> ('sc, 'pt, 'd) conn \<Rightarrow> auth_request option" where
  "conn_auth_request frame c =
     (case (cn_target c, cn_session c) of
        (Some target, Some session) \<Rightarrow>
          if length frame < 2 then None
          else Some \<lparr> aur_ifindex = dev_ifindex (cn_device c), aur_ssid = tg_ssid target,
                      aur_bssid = ch_bssid (se_choice session),
                      aur_freq_mhz = ch_freq_mhz (se_choice session),
                      aur_auth_type = NL80211_AUTHTYPE_SAE, aur_data = drop 2 frame \<rparr>
      | _ \<Rightarrow> None)"

definition conn_auth_body :: "bytes \<Rightarrow> ('sc, 'pt, 'd) conn \<Rightarrow> bytes option" where
  "conn_auth_body frame c =
     (case cn_session c of
        None \<Rightarrow> None
      | Some session \<Rightarrow>
          if length frame < MGMT_HEADER_LEN \<or> frame ! 0 \<noteq> FC_AUTH then None
          else if take 6 (drop 10 frame) \<noteq> ch_bssid (se_choice session) then None
          else Some (drop MGMT_HEADER_LEN frame))"

definition conn_on_sae_step ::
  "crypto_error + pstep \<Rightarrow> ('sc, 'pt, 'd) conn \<Rightarrow> (('sc, 'pt, 'd) conn \<times> action list) option" where
  "conn_on_sae_step step c =
     (case step of
        Inr (Step_Send frame) \<Rightarrow>
          (case conn_auth_request frame c of
             None \<Rightarrow> Some (conn_fail (F_Internal ''SAE produced a frame with no body'') c)
           | Some request \<Rightarrow>
               emit_then (Some (c, [Ac_Authenticate request]))
                 (\<lambda>c. Some (conn_arm AuthTimeout AUTH_TIMEOUT_MS c)))
      | Inr Step_Wait \<Rightarrow> Some (c, [])
      | Inr (Step_Done pmk) \<Rightarrow>
          (case cn_session c of
             None \<Rightarrow> None
           | Some session \<Rightarrow>
               (let pmkid = (case se_auth session of Auth_PreAssoc p \<Rightarrow> sae_pmkid p | _ \<Rightarrow> se_pmkid session)
                in conn_associate
                     (c \<lparr> cn_session := Some (session \<lparr> se_pmkid := pmkid, se_auth := Auth_Ready pmk \<rparr>) \<rparr>)))
      | Inl e \<Rightarrow> Some (conn_fail (failure_from_crypto e) c))"

datatype sae_event = Se_Start | Se_Frame bytes | Se_Timeout

definition conn_drive_sae ::
  "('sc, 'pt, 'd) env \<Rightarrow> sae_event \<Rightarrow> ('sc, 'pt, 'd) conn \<Rightarrow>
   (('sc, 'pt, 'd) conn \<times> action list) option" where
  "conn_drive_sae E event c =
     (case (cn_target c, cn_session c) of
        (Some target, Some session) \<Rightarrow>
          (case se_auth session of
             Auth_PreAssoc provider \<Rightarrow>
               (let ctx = auth_context (tg_ssid target) (se_choice session) (dev_mac (cn_device c))
                in case (case event of
                           Se_Start \<Rightarrow> sae_start (env_prims E) (env_group E) provider ctx
                         | Se_Frame frame \<Rightarrow> sae_on_frame (env_prims E) (env_group E) provider frame
                         | Se_Timeout \<Rightarrow> Some (sae_on_timeout provider)) of
                     None \<Rightarrow> None
                   | Some (provider', step) \<Rightarrow>
                       conn_on_sae_step step
                         (c \<lparr> cn_session := Some (session \<lparr> se_auth := Auth_PreAssoc provider' \<rparr>) \<rparr>))
           | _ \<Rightarrow> Some (c, []))
      | _ \<Rightarrow> Some (c, []))"

definition conn_start_sae ::
  "('sc, 'pt, 'd) env \<Rightarrow> ('sc, 'pt, 'd) conn \<Rightarrow> (('sc, 'pt, 'd) conn \<times> action list) option" where
  "conn_start_sae E c =
     emit_then (Some (conn_enter Cs_Authenticating c)) (conn_drive_sae E Se_Start)"

section \<open>Planning an attempt\<close>

definition conn_plan ::
  "('sc, 'pt, 'd) env \<Rightarrow> rnd \<Rightarrow> bss \<Rightarrow> bool \<Rightarrow> ('sc, 'pt, 'd) conn \<Rightarrow>
   (('sc, 'pt, 'd) conn \<times> action list) option" where
  "conn_plan E rnd bss roaming c =
     (let credential = conn_credential (bss_rsn bss = None) c in
      case conn_evaluate E bss credential roaming c of
        Inl failure \<Rightarrow> Some (if roaming then (c, []) else conn_fail failure c)
      | Inr choice \<Rightarrow>
          (case credential of
             None \<Rightarrow>
               if (case ch_rsn choice of None \<Rightarrow> False | Some n \<Rightarrow> akm_is_enterprise (ng_akm n)) then
                 Some (conn_fail F_NoCredential c)
               else
                 emit_then (Some (conn_disarm c))
                   (\<lambda>c. Some (c \<lparr> cn_pending := Some bss \<rparr>, [Ac_RequestSecret (conn_ssid_bytes c)]))
           | Some credential \<Rightarrow>
               (let ctx = auth_context (conn_ssid_bytes c) choice (dev_mac (cn_device c)) in
                case (case ch_rsn choice of
                        None \<Rightarrow> Inr Auth_Open
                      | Some _ \<Rightarrow> assemble E rnd (ac_akm ctx) credential (dev_caps (cn_device c)) ctx) of
                  Inl failure \<Rightarrow> Some (conn_fail failure c)
                | Inr auth \<Rightarrow>
                    (let pre_assoc = (case auth of Auth_PreAssoc _ \<Rightarrow> True | _ \<Rightarrow> False) in
                     if roaming \<and> pre_assoc then Some (c, [])
                     else
                       (let c1 = c \<lparr> cn_session := Some \<lparr> se_choice = choice, se_auth = auth,
                               se_pmkid = None, se_assoc_ie = [], se_handshake = None \<rparr> \<rparr>
                        in if pre_assoc then conn_start_sae E c1 else conn_associate c1)))))"

section \<open>Scanning and roaming\<close>

definition conn_select ::
  "('sc, 'pt, 'd) env \<Rightarrow> rnd \<Rightarrow> bss list \<Rightarrow> ('sc, 'pt, 'd) conn \<Rightarrow>
   (('sc, 'pt, 'd) conn \<times> action list) option" where
  "conn_select E rnd scan c =
     (case (case cn_target c of
              Some target \<Rightarrow>
                (case best_bss scan (tg_ssid target) of
                   Some bss \<Rightarrow> Inr (bss_bssid bss, None)
                 | None \<Rightarrow> Inl F_NotFound)
            | None \<Rightarrow>
                (case best_known scan (cn_profiles c) of
                   Some (bss, profile) \<Rightarrow> Inr (bss_bssid bss, Some (pr_ssid profile))
                 | None \<Rightarrow> Inl F_NoKnownNetwork)) of
        Inl failure \<Rightarrow> Some (conn_fail failure c)
      | Inr (bssid, discovered) \<Rightarrow>
          (let c1 = (case discovered of
                 None \<Rightarrow> c
               | Some ssid \<Rightarrow>
                   c \<lparr> cn_target := Some \<lparr> tg_ssid = ssid, tg_secret = None, tg_retry = True,
                                          tg_save = False \<rparr> \<rparr>)
           in case find (\<lambda>bss. bss_bssid bss = bssid) scan of
                None \<Rightarrow> None
              | Some bss \<Rightarrow> conn_plan E rnd bss False c1))"

definition conn_consider_roam ::
  "('sc, 'pt, 'd) env \<Rightarrow> rnd \<Rightarrow> bss list \<Rightarrow> ('sc, 'pt, 'd) conn \<Rightarrow>
   (('sc, 'pt, 'd) conn \<times> action list) option" where
  "conn_consider_roam E rnd scan c =
     (case (cn_session c, cn_target c) of
        (Some session, Some target) \<Rightarrow>
          (let current = ch_bssid (se_choice session);
               signal = (case find (\<lambda>bss. bss_bssid bss = current) scan of
                   None \<Rightarrow> ch_signal_dbm (se_choice session)
                 | Some bss \<Rightarrow> bss_signal_dbm bss)
           in case roam_target scan (tg_ssid target) current signal of
                None \<Rightarrow>
                  Some (c \<lparr> cn_session := Some (session \<lparr> se_choice :=
                              se_choice session \<lparr> ch_signal_dbm := signal \<rparr> \<rparr>) \<rparr>, [])
              | Some better \<Rightarrow>
                  (case find (\<lambda>bss. bss_bssid bss = bss_bssid better) scan of
                     None \<Rightarrow> None
                   | Some bss \<Rightarrow> conn_plan E rnd bss True c))
      | _ \<Rightarrow> Some (c, []))"

definition conn_on_scan_results ::
  "('sc, 'pt, 'd) env \<Rightarrow> rnd \<Rightarrow> bss list \<Rightarrow> ('sc, 'pt, 'd) conn \<Rightarrow>
   (('sc, 'pt, 'd) conn \<times> action list) option" where
  "conn_on_scan_results E rnd scan c =
     (case cn_state c of
        Cs_Scanning \<Rightarrow> conn_select E rnd scan c
      | Cs_Connected \<Rightarrow> conn_consider_roam E rnd scan c
      | _ \<Rightarrow> Some (c, []))"

section \<open>Commands\<close>

definition conn_on_command ::
  "('sc, 'pt, 'd) env \<Rightarrow> rnd \<Rightarrow> command \<Rightarrow> ('sc, 'pt, 'd) conn \<Rightarrow>
   (('sc, 'pt, 'd) conn \<times> action list) option" where
  "conn_on_command E rnd command c =
     (case command of
        Cmd_Connect ssid \<Rightarrow>
          (let out = (if cn_state c \<noteq> Cs_Idle then [Ac_Disconnect REASON_LEAVING] else []);
               profile = find (\<lambda>p. pr_ssid p = ssid) (cn_profiles c);
               target = \<lparr> tg_ssid = ssid, tg_secret = None,
                   tg_retry = (case profile of None \<Rightarrow> False | Some p \<Rightarrow> pr_autoconnect p),
                   tg_save = (profile = None) \<rparr>
           in emit_then (Some (c, out))
                (\<lambda>c. Some (conn_start_scan (c \<lparr> cn_target := Some target, cn_session := None,
                                                cn_pending := None, cn_attempts := 0 \<rparr>))))
      | Cmd_Autoconnect \<Rightarrow>
          Some (if cn_state c \<noteq> Cs_Idle then (c, [])
                else conn_start_scan (c \<lparr> cn_target := None, cn_session := None, cn_pending := None,
                                          cn_attempts := 0 \<rparr>))
      | Cmd_Secret secret \<Rightarrow>
          (case cn_target c of
             None \<Rightarrow> Some (c, [])
           | Some target \<Rightarrow>
               (let c1 = c \<lparr> cn_target := Some (target \<lparr> tg_secret := Some secret \<rparr>) \<rparr> in
                case cn_pending c1 of
                  None \<Rightarrow> Some (c1, [])
                | Some bss \<Rightarrow> conn_plan E rnd bss False (c1 \<lparr> cn_pending := None \<rparr>)))
      | Cmd_Disconnect \<Rightarrow>
          emit_then (Some (c, [Ac_Disconnect REASON_LEAVING])) (\<lambda>c. Some (conn_go_idle c)))"

section \<open>Address configuration\<close>

definition conn_configured :: "('sc, 'pt, 'd) conn \<Rightarrow> ('sc, 'pt, 'd) conn \<times> action list" where
  "conn_configured c =
     (if (case cn_session c of None \<Rightarrow> False | Some s \<Rightarrow> ch_roaming (se_choice s)) then
        (let (c1, o1) = conn_enter Cs_Connected c in (c1 \<lparr> cn_attempts := 0 \<rparr>, o1))
      else (let (c1, o1) = conn_enter Cs_Configuring c in (c1, o1 @ [Ac_StartDhcp])))"

definition conn_save_profile :: "('sc, 'pt, 'd) conn \<Rightarrow> ('sc, 'pt, 'd) conn \<times> action list" where
  "conn_save_profile c =
     (case cn_target c of
        None \<Rightarrow> (c, [])
      | Some target \<Rightarrow>
          if \<not> tg_save target then (c, [])
          else
            (case cn_session c of
               None \<Rightarrow> (c, [])
             | Some session \<Rightarrow>
                 (case (case ch_rsn (se_choice session) of
                          Some _ \<Rightarrow> map_option Cred_Passphrase (tg_secret target)
                        | None \<Rightarrow> Some Cred_None) of
                    None \<Rightarrow> (c, [])
                  | Some credential \<Rightarrow>
                      (let profile = (profile_new (tg_ssid target) (ch_advertised (se_choice session))
                             credential) \<lparr> pr_autoconnect := True \<rparr>
                       in (conn_insert_profile profile (c \<lparr> cn_target := Some (target \<lparr> tg_save := False \<rparr>) \<rparr>),
                           [Ac_SaveProfile profile])))))"

definition conn_on_lease ::
  "lease_event \<Rightarrow> ('sc, 'pt, 'd) conn \<Rightarrow> ('sc, 'pt, 'd) conn \<times> action list" where
  "conn_on_lease event c =
     (case event of
        Le_Acquired lease \<Rightarrow>
          (let (c1, o1) = conn_enter Cs_Connected c;
               (c2, o2) = conn_save_profile (c1 \<lparr> cn_attempts := 0 \<rparr>)
           in (c2, [Ac_ApplyLease lease] @ o1 @ o2))
      | Le_Lost _ \<Rightarrow>
          if cn_state c = Cs_Connected then
            (let (c1, o1) = conn_enter Cs_Configuring c in (c1, o1 @ [Ac_StartDhcp]))
          else (c, [])
      | Le_Failed \<Rightarrow> conn_fail F_Dhcp c)"

section \<open>The 4-way handshake\<close>

definition hs_config_of :: "device \<Rightarrow> choice \<Rightarrow> bytes \<Rightarrow> negotiated \<Rightarrow> hs_config" where
  "hs_config_of dev choice assoc_ie rsn =
     \<lparr> hc_akm = ng_akm rsn, hc_own_mac = dev_mac dev, hc_bssid = ch_bssid choice,
       hc_assoc_rsn_ie = assoc_ie, hc_beacon_rsn_ie = ng_beacon_ie rsn \<rparr>"

definition conn_start_handshake ::
  "rnd \<Rightarrow> bytes \<Rightarrow> ('sc, 'pt, 'd) conn \<Rightarrow> (('sc, 'pt, 'd) conn \<times> action list) option" where
  "conn_start_handshake rnd pmk c =
     (case cn_session c of
        None \<Rightarrow> None
      | Some session \<Rightarrow>
          (case ch_rsn (se_choice session) of
             None \<Rightarrow> None
           | Some rsn \<Rightarrow>
               (case rn_snonce rnd of
                  Some snonce \<Rightarrow>
                    Some (conn_enter Cs_Handshaking
                      (c \<lparr> cn_session := Some (session \<lparr> se_handshake :=
                             Some (fw_new pmk (hs_config_of (cn_device c) (se_choice session)
                               (se_assoc_ie session) rsn) snonce) \<rparr>) \<rparr>))
                | None \<Rightarrow> Some (conn_fail (failure_from_eapol Ee_Io) c))))"

definition conn_group_suite :: "('sc, 'pt, 'd) conn \<Rightarrow> u32" where
  "conn_group_suite c =
     (case cn_session c of
        None \<Rightarrow> WLAN_CIPHER_SUITE_CCMP
      | Some s \<Rightarrow>
          (case ch_rsn (se_choice s) of
             None \<Rightarrow> WLAN_CIPHER_SUITE_CCMP
           | Some rsn \<Rightarrow>
               (case cipher_suite (ng_group rsn) of None \<Rightarrow> WLAN_CIPHER_SUITE_CCMP | Some su \<Rightarrow> su)))"

definition conn_pairwise_install :: "ptk \<Rightarrow> gtk \<Rightarrow> ('sc, 'pt, 'd) conn \<Rightarrow> key_install option" where
  "conn_pairwise_install ptk gtk c =
     (case cn_session c of
        None \<Rightarrow> None
      | Some session \<Rightarrow>
          (case ch_rsn (se_choice session) of
             None \<Rightarrow> None
           | Some rsn \<Rightarrow>
               Some \<lparr> ki_pairwise_key = Some \<lparr> pk_peer = ch_bssid (se_choice session),
                        pk_cipher = (case cipher_suite (ng_pairwise rsn) of
                            None \<Rightarrow> WLAN_CIPHER_SUITE_CCMP | Some su \<Rightarrow> su),
                        pk_ptk = ptk \<rparr>,
                      ki_group = \<lparr> gk_cipher = conn_group_suite c, gk_gtk = gtk \<rparr> \<rparr>))"

primrec conn_hs_actions ::
  "fw_action list \<Rightarrow> bool \<Rightarrow> ('sc, 'pt, 'd) conn \<Rightarrow> (('sc, 'pt, 'd) conn \<times> action list) option" where
  "conn_hs_actions [] complete c = Some (if complete then conn_configured c else (c, []))"
| "conn_hs_actions (action # rest) complete c =
     (case action of
        Fa_Send frame \<Rightarrow> emit_then (Some (c, [Ac_SendEapol frame])) (conn_hs_actions rest complete)
      | Fa_ArmTimer millis \<Rightarrow>
          emit_then (Some (conn_arm HandshakeRetry millis c)) (conn_hs_actions rest complete)
      | Fa_DisarmTimer \<Rightarrow> emit_then (Some (conn_disarm c)) (conn_hs_actions rest complete)
      | Fa_Complete ptk gtk \<Rightarrow>
          (case conn_pairwise_install ptk gtk c of
             None \<Rightarrow> None
           | Some install \<Rightarrow> emit_then (Some (c, [Ac_InstallKeys install])) (conn_hs_actions rest True))
      | Fa_NewGtk gtk \<Rightarrow>
          emit_then
            (Some (c, [Ac_InstallKeys \<lparr> ki_pairwise_key = None,
                         ki_group = \<lparr> gk_cipher = conn_group_suite c, gk_gtk = gtk \<rparr> \<rparr>]))
            (conn_hs_actions rest complete))"

definition conn_on_handshake_actions ::
  "eapol_error + fw_action list \<Rightarrow> ('sc, 'pt, 'd) conn \<Rightarrow>
   (('sc, 'pt, 'd) conn \<times> action list) option" where
  "conn_on_handshake_actions result c =
     (case result of
        Inl e \<Rightarrow> Some (conn_fail (failure_from_eapol e) c)
      | Inr actions \<Rightarrow> conn_hs_actions actions False c)"

definition conn_poll_handshake ::
  "('sc, 'pt, 'd) env \<Rightarrow> fw_input \<Rightarrow> ('sc, 'pt, 'd) conn \<Rightarrow>
   (('sc, 'pt, 'd) conn \<times> action list) option" where
  "conn_poll_handshake E input c =
     (case cn_session c of
        None \<Rightarrow> Some (c, [])
      | Some session \<Rightarrow>
          (case se_handshake session of
             None \<Rightarrow> Some (c, [])
           | Some handshake \<Rightarrow>
               (case fw_poll (env_prims E) handshake input of
                  None \<Rightarrow> None
                | Some (handshake', result) \<Rightarrow>
                    conn_on_handshake_actions result
                      (c \<lparr> cn_session := Some (session \<lparr> se_handshake := Some handshake' \<rparr>) \<rparr>))))"

section \<open>Post-association authentication\<close>

definition conn_drive_dot1x ::
  "('sc, 'pt, 'd) env \<Rightarrow> rnd \<Rightarrow> bytes option \<Rightarrow> ('sc, 'pt, 'd) conn \<Rightarrow>
   (('sc, 'pt, 'd) conn \<times> action list) option" where
  "conn_drive_dot1x E rnd frame c =
     (case (cn_target c, cn_session c) of
        (Some target, Some session) \<Rightarrow>
          (case se_auth session of
             Auth_PostAssoc provider \<Rightarrow>
               (let ctx = auth_context (tg_ssid target) (se_choice session) (dev_mac (cn_device c));
                    (provider', step) =
                      (case frame of
                         Some frame \<Rightarrow> dx_on_frame (env_dot1x E) provider ctx frame
                       | None \<Rightarrow> dx_start (env_dot1x E) provider ctx);
                    c1 = c \<lparr> cn_session := Some (session \<lparr> se_auth := Auth_PostAssoc provider' \<rparr>) \<rparr>
                in case step of
                     Inr (Step_Send reply) \<Rightarrow> Some (c1, [Ac_SendEapol reply])
                   | Inr Step_Wait \<Rightarrow> Some (c1, [])
                   | Inr (Step_Done pmk) \<Rightarrow>
                       conn_start_handshake rnd pmk
                         (c \<lparr> cn_session := Some (session \<lparr> se_auth := Auth_Running \<rparr>) \<rparr>)
                   | Inl e \<Rightarrow> Some (conn_fail (failure_from_crypto e) c1))
           | _ \<Rightarrow> Some (c, []))
      | _ \<Rightarrow> Some (c, []))"

definition conn_on_eapol ::
  "('sc, 'pt, 'd) env \<Rightarrow> rnd \<Rightarrow> bytes \<Rightarrow> ('sc, 'pt, 'd) conn \<Rightarrow>
   (('sc, 'pt, 'd) conn \<times> action list) option" where
  "conn_on_eapol E rnd frame c =
     (if \<not> (cn_state c = Cs_Handshaking \<or> cn_state c = Cs_Connected) then Some (c, [])
      else
        (case eapol_parse frame of
           Inl _ \<Rightarrow> Some (c, [])
         | Inr e \<Rightarrow>
             (case ea_packet_type e of
                Pt_Key \<Rightarrow> conn_poll_handshake E (Fw_Frame frame) c
              | Pt_Eap \<Rightarrow> conn_drive_dot1x E rnd (Some frame) c
              | _ \<Rightarrow> Some (c, []))))"

definition conn_on_associated ::
  "('sc, 'pt, 'd) env \<Rightarrow> rnd \<Rightarrow> ('sc, 'pt, 'd) conn \<Rightarrow>
   (('sc, 'pt, 'd) conn \<times> action list) option" where
  "conn_on_associated E rnd c =
     (case cn_session c of
        None \<Rightarrow> Some (c, [])
      | Some session \<Rightarrow>
          (let auth = (\<lambda>a. c \<lparr> cn_session := Some (session \<lparr> se_auth := a \<rparr>) \<rparr>);
               internal = (\<lambda>a. Some (conn_fail
                 (F_Internal ''associated with no authentication staged'') (auth a)))
           in case se_auth session of
                Auth_Open \<Rightarrow> Some (conn_configured (auth Auth_Open))
              | Auth_Offloaded _ \<Rightarrow> Some (conn_configured (auth Auth_Open))
              | Auth_Ready pmk \<Rightarrow> conn_start_handshake rnd pmk (auth Auth_Running)
              | Auth_PostAssoc provider \<Rightarrow>
                  emit_then (Some (conn_enter Cs_Handshaking (auth (Auth_PostAssoc provider))))
                    (conn_drive_dot1x E rnd None)
              | Auth_PreAssoc p \<Rightarrow> internal (Auth_PreAssoc p)
              | Auth_Running \<Rightarrow> internal Auth_Running))"

section \<open>Events and timers\<close>

definition conn_on_wireless ::
  "('sc, 'pt, 'd) env \<Rightarrow> rnd \<Rightarrow> event \<Rightarrow> ('sc, 'pt, 'd) conn \<Rightarrow>
   (('sc, 'pt, 'd) conn \<times> action list) option" where
  "conn_on_wireless E rnd event c =
     (case event of
        Ev_ScanComplete _ _ \<Rightarrow>
          Some (c, if cn_state c = Cs_Scanning \<or> cn_state c = Cs_Connected
                   then [Ac_FetchScanResults (dev_ifindex (cn_device c))] else [])
      | Ev_ScanAborted _ _ \<Rightarrow>
          Some (if cn_state c = Cs_Scanning then conn_fail F_NotFound c else (c, []))
      | Ev_Connected _ status \<Rightarrow>
          if cn_state c = Cs_Associating then
            (case status of
               Cst_Success \<Rightarrow> conn_on_associated E rnd c
             | Cst_Refused code \<Rightarrow> Some (conn_fail (F_Refused code) c)
             | Cst_TimedOut \<Rightarrow> Some (conn_fail F_AssocTimeout c))
          else Some (c, [])
      | Ev_Disconnected reason by_ap \<Rightarrow>
          Some (if conn_associated c then conn_fail (F_Disconnected reason by_ap) c else (c, []))
      | Ev_ExternalAuth _ _ abort \<Rightarrow>
          Some (if abort \<and> cn_state c = Cs_Authenticating then conn_fail F_AuthFailed c else (c, []))
      | Ev_Authenticate frame \<Rightarrow>
          if cn_state c = Cs_Authenticating then
            (case conn_auth_body frame c of
               None \<Rightarrow> Some (c, [])
             | Some body \<Rightarrow> conn_drive_sae E (Se_Frame body) c)
          else Some (c, [])
      | Ev_AuthTimedOut \<Rightarrow> Some (c, [])
      | Ev_Frame _ \<Rightarrow> Some (c, []))"

definition conn_on_timer ::
  "('sc, 'pt, 'd) env \<Rightarrow> timer_id \<Rightarrow> ('sc, 'pt, 'd) conn \<Rightarrow>
   (('sc, 'pt, 'd) conn \<times> action list) option" where
  "conn_on_timer E i c =
     (case (i, cn_state c) of
        (ScanTimeout, Cs_Scanning) \<Rightarrow>
          Some (if cn_pending c = None then conn_fail F_NotFound c else (c, []))
      | (AssocTimeout, Cs_Associating) \<Rightarrow> Some (conn_fail F_AssocTimeout c)
      | (AuthTimeout, Cs_Authenticating) \<Rightarrow> conn_drive_sae E Se_Timeout c
      | (HandshakeRetry, Cs_Handshaking) \<Rightarrow> conn_poll_handshake E Fw_Timeout c
      | (HandshakeRetry, Cs_Connected) \<Rightarrow> conn_poll_handshake E Fw_Timeout c
      | (ReconnectBackoff, Cs_Reconnecting) \<Rightarrow> Some (conn_start_scan c)
      | _ \<Rightarrow> Some (c, []))"

definition conn_poll ::
  "('sc, 'pt, 'd) env \<Rightarrow> ('sc, 'pt, 'd) conn \<Rightarrow> rnd \<times> conn_input \<Rightarrow>
   (('sc, 'pt, 'd) conn \<times> action list) option" where
  "conn_poll E c ri =
     (case ri of (rnd, input) \<Rightarrow>
       (case input of
          In_Command command \<Rightarrow> conn_on_command E rnd command c
        | In_Wireless event \<Rightarrow> conn_on_wireless E rnd event c
        | In_ScanResults scan \<Rightarrow> conn_on_scan_results E rnd scan c
        | In_Eapol frame \<Rightarrow> conn_on_eapol E rnd frame c
        | In_Lease event \<Rightarrow> Some (conn_on_lease event c)
        | In_Timer i \<Rightarrow> conn_on_timer E i c))"

end
