(* ===== verification/Conn_Inv.thy ===== *)
theory Conn_Inv
  imports Conn
begin

text \<open>
  The invariant of the connection (\<^verbatim>\<open>src/crates/caw-core/src/conn.rs\<close>) and what every handler keeps
  of it: no \<^verbatim>\<open>expect\<close> is reached, the timers the daemon runs are those the machine tracks, and each
  action pushed agrees with the state it leaves behind. One lemma per handler establishes all of
  it; the properties in \<open>Conn_Props\<close> read it off.
\<close>

section \<open>The timers the daemon runs\<close>

text \<open>The daemon's timer wheel as the actions drive it.\<close>

definition timer_step :: "action \<Rightarrow> timer_id set \<Rightarrow> timer_id set" where
  "timer_step a w =
     (case a of Ac_SetTimer i _ \<Rightarrow> insert i w | Ac_ClearTimer i \<Rightarrow> w - {i} | _ \<Rightarrow> w)"

definition timers_after :: "action list \<Rightarrow> timer_id set \<Rightarrow> timer_id set" where
  "timers_after out w = fold timer_step out w"

lemma timers_after_simps [simp]:
  "timers_after [] w = w"
  "timers_after (a # out) w = timers_after out (timer_step a w)"
  "timers_after (o1 @ o2) w = timers_after o2 (timers_after o1 w)"
  by (simp_all add: timers_after_def)

lemma timer_step_simps [simp]:
  "timer_step (Ac_SetTimer i ms) w = insert i w"
  "timer_step (Ac_ClearTimer i) w = w - {i}"
  "timer_step (Ac_Notify st) w = w" "timer_step (Ac_TriggerScan n) w = w"
  "timer_step (Ac_FetchScanResults n) w = w" "timer_step (Ac_Associate r) w = w"
  "timer_step (Ac_Authenticate q) w = w" "timer_step (Ac_Disconnect rs) w = w"
  "timer_step (Ac_SendEapol f) w = w" "timer_step (Ac_InstallKeys k) w = w"
  "timer_step Ac_StartDhcp w = w" "timer_step (Ac_ApplyLease l) w = w"
  "timer_step (Ac_RequestSecret ss) w = w" "timer_step (Ac_SaveProfile p) w = w"
  "timer_step (Ac_Failed fl) w = w"
  by (simp_all add: timer_step_def)

text \<open>
  The daemon's timers before a handler are among the tracked one (it may have fired already).
  \<open>timed\<close>: they stay so, and exactly if they were exactly; \<open>retimed\<close>: exactly, whatever they were.
\<close>

definition timed :: "('sc, 'pt, 'd) conn \<Rightarrow> action list \<Rightarrow> ('sc, 'pt, 'd) conn \<Rightarrow> bool" where
  "timed c out c' \<longleftrightarrow>
     (\<forall>w. w \<subseteq> set_option (cn_armed c) \<longrightarrow> timers_after out w \<subseteq> set_option (cn_armed c')) \<and>
     timers_after out (set_option (cn_armed c)) = set_option (cn_armed c')"

definition retimed :: "('sc, 'pt, 'd) conn \<Rightarrow> action list \<Rightarrow> ('sc, 'pt, 'd) conn \<Rightarrow> bool" where
  "retimed c out c' \<longleftrightarrow> (\<forall>w. w \<subseteq> set_option (cn_armed c) \<longrightarrow>
     timers_after out w = set_option (cn_armed c'))"

lemma retimed_timed: "retimed c out c' \<Longrightarrow> timed c out c'"
  by (simp add: retimed_def timed_def)

lemma timed_trans: "timed c o1 c1 \<Longrightarrow> timed c1 o2 c2 \<Longrightarrow> timed c (o1 @ o2) c2"
  by (simp add: timed_def)

lemma timed_retimed: "timed c o1 c1 \<Longrightarrow> retimed c1 o2 c2 \<Longrightarrow> retimed c (o1 @ o2) c2"
  by (simp add: timed_def retimed_def)

lemma retimed_trans: "retimed c o1 c1 \<Longrightarrow> timed c1 o2 c2 \<Longrightarrow> retimed c (o1 @ o2) c2"
  by (simp add: timed_def retimed_def)

definition quiet :: "action \<Rightarrow> bool" where
  "quiet a \<longleftrightarrow> (\<forall>w. timer_step a w = w)"

lemma timers_after_quiet: "list_all quiet out \<Longrightarrow> timers_after out w = w"
  by (induction out arbitrary: w) (simp_all add: quiet_def)

lemma timed_quiet: "cn_armed c' = cn_armed c \<Longrightarrow> list_all quiet out \<Longrightarrow> timed c out c'"
  by (simp add: timed_def timers_after_quiet)

section \<open>What each action says of the state it leaves\<close>

definition request_for :: "assoc_request \<Rightarrow> target \<Rightarrow> choice \<Rightarrow> bool" where
  "request_for r t ch \<longleftrightarrow>
     asr_ssid r = tg_ssid t \<and> asr_bssid r = ch_bssid ch \<and> asr_freq_mhz r = ch_freq_mhz ch \<and>
     (case ch_rsn ch of
        None \<Rightarrow> asr_akms r = [] \<and> asr_ies r = [] \<and> asr_mfp r = None
      | Some n \<Rightarrow> asr_akms r = [akm_suite (ng_akm n)] \<and>
          asr_group_cipher r = cipher_suite (ng_group n) \<and>
          (ng_mfp_required n \<longrightarrow> asr_mfp r = Some NL80211_MFP_REQUIRED))"

definition accepted :: "('sc, 'pt, 'd) conn \<Rightarrow> choice \<Rightarrow> bool" where
  "accepted c ch \<longleftrightarrow> (\<forall>p. conn_profile c = Some p \<longrightarrow> profile_accepts p (ch_negotiated ch))"

definition action_ok :: "('sc, 'pt, 'd) conn \<Rightarrow> action \<Rightarrow> bool" where
  "action_ok c a =
     (case a of
        Ac_Associate r \<Rightarrow>
          cn_state c = Cs_Associating \<and>
          (\<exists>t s. cn_target c = Some t \<and> cn_session c = Some s \<and> request_for r t (se_choice s) \<and>
             (ch_rsn (se_choice s) \<noteq> None \<longrightarrow> asr_ies r = se_assoc_ie s))
      | Ac_Authenticate r \<Rightarrow>
          cn_state c = Cs_Authenticating \<and>
          (\<exists>t s. cn_target c = Some t \<and> cn_session c = Some s \<and> aur_ssid r = tg_ssid t \<and>
             aur_bssid r = ch_bssid (se_choice s) \<and> aur_freq_mhz r = ch_freq_mhz (se_choice s))
      | Ac_Failed _ \<Rightarrow> cn_state c = Cs_Idle \<and> cn_target c = None \<and> cn_session c = None \<and> cn_armed c = None
      | Ac_StartDhcp \<Rightarrow> cn_state c = Cs_Configuring
      | _ \<Rightarrow> True)"

text \<open>Actions that say nothing of the state.\<close>

definition plain :: "action \<Rightarrow> bool" where
  "plain a \<longleftrightarrow> (case a of Ac_Associate _ \<Rightarrow> False | Ac_Authenticate _ \<Rightarrow> False | Ac_Failed _ \<Rightarrow> False
     | Ac_StartDhcp \<Rightarrow> False | _ \<Rightarrow> True)"

lemma plain_ok: "plain a \<Longrightarrow> action_ok c a"
  by (cases a) (simp_all add: plain_def action_ok_def)

section \<open>The invariant\<close>

definition env_ok :: "('sc, 'pt, 'd) env \<Rightarrow> bool" where
  "env_ok E \<longleftrightarrow> prims_ok (env_prims E) \<and> group_ok (env_group E) \<and>
     (\<forall>pw seed ctx. sae_start (env_prims E) (env_group E) (sae_new pw seed) ctx \<noteq> None)"

definition rsn_needed :: "('sc, 'pt, 'd) auth \<Rightarrow> bool" where
  "rsn_needed a \<longleftrightarrow> (case a of Auth_PreAssoc _ \<Rightarrow> True | Auth_PostAssoc _ \<Rightarrow> True | Auth_Ready _ \<Rightarrow> True
     | _ \<Rightarrow> False)"

definition choice_ok :: "choice \<Rightarrow> bool" where
  "choice_ok ch \<longleftrightarrow> ch_negotiated ch = (case ch_rsn ch of None \<Rightarrow> Sec_Open
     | Some n \<Rightarrow> negotiated_security (ng_akm n) (ng_mfp_required n))"

definition session_ok ::
  "('sc, 'pt, 'd) env \<Rightarrow> device \<Rightarrow> ('sc, 'pt, 'd) session \<Rightarrow> bool" where
  "session_ok E dev s \<longleftrightarrow> choice_ok (se_choice s) \<and>
     (rsn_needed (se_auth s) \<longrightarrow> ch_rsn (se_choice s) \<noteq> None) \<and>
     (\<forall>p. se_auth s = Auth_PreAssoc p \<longrightarrow> sae_inv p) \<and>
     (\<forall>p. se_pmkid s = Some p \<longrightarrow> length p = 16) \<and> length (se_assoc_ie s) \<le> 257 \<and>
     (\<forall>h. se_handshake s = Some h \<longrightarrow> se_auth s = Auth_Running \<and> fw_inv (env_prims E) h \<and>
        (\<exists>n. ch_rsn (se_choice s) = Some n \<and>
             fw_config h = hs_config_of dev (se_choice s) (se_assoc_ie s) n))"

definition must_run :: "('sc, 'pt, 'd) conn \<Rightarrow> bool" where
  "must_run c \<longleftrightarrow> cn_state c = Cs_Scanning \<and> cn_pending c = None \<or> cn_state c = Cs_Authenticating \<or>
     cn_state c = Cs_Associating \<or> cn_state c = Cs_Reconnecting"

definition conn_ok :: "('sc, 'pt, 'd) env \<Rightarrow> ('sc, 'pt, 'd) conn \<Rightarrow> bool" where
  "conn_ok E c \<longleftrightarrow>
     (cn_armed c = None \<or> cn_armed c = timer_of (cn_state c)) \<and>
     (must_run c \<longrightarrow> cn_armed c = timer_of (cn_state c)) \<and>
     (\<forall>s. cn_session c = Some s \<longrightarrow> cn_target c \<noteq> None \<and> session_ok E (cn_device c) s \<and>
        (cn_state c \<in> {Cs_Authenticating, Cs_Associating} \<longrightarrow> accepted c (se_choice s))) \<and>
     (cn_state c = Cs_Authenticating \<longrightarrow>
        (\<exists>s p. cn_session c = Some s \<and> se_auth s = Auth_PreAssoc p \<and> sae_waiting p))"

definition post ::
  "('sc, 'pt, 'd) env \<Rightarrow> ('sc, 'pt, 'd) conn \<Rightarrow> ('sc, 'pt, 'd) conn \<times> action list \<Rightarrow> bool" where
  "post E c r \<longleftrightarrow> conn_ok E (fst r) \<and> timed c (snd r) (fst r) \<and> list_all (action_ok (fst r)) (snd r)"

text \<open>\<open>returns\<close>: the handler does not panic, and what it returns satisfies \<open>post\<close>.\<close>

definition returns ::
  "('sc, 'pt, 'd) env \<Rightarrow> ('sc, 'pt, 'd) conn \<Rightarrow> (('sc, 'pt, 'd) conn \<times> action list) option \<Rightarrow> bool" where
  "returns E c r \<longleftrightarrow> (case r of None \<Rightarrow> False | Some p \<Rightarrow> post E c p)"

lemma returns_Some [simp]: "returns E c (Some p) \<longleftrightarrow> post E c p"
  by (simp add: returns_def)

lemma returns_then:
  assumes "timed c o1 c1" "list_all plain o1" "returns E c1 (k c1)"
  shows "returns E c (emit_then (Some (c1, o1)) k)"
  using assms timed_trans
  by (cases "k c1") (fastforce simp: returns_def post_def list_all_iff plain_ok)+

lemma timed_from: "cn_armed c1 = cn_armed c \<Longrightarrow> timed c1 out c' \<longleftrightarrow> timed c out c'"
  by (simp add: timed_def)

lemma post_from: "post E c1 r \<Longrightarrow> cn_armed c1 = cn_armed c \<Longrightarrow> post E c r"
  using timed_from by (auto simp: post_def)

lemma returns_from: "returns E c1 r \<Longrightarrow> cn_armed c1 = cn_armed c \<Longrightarrow> returns E c r"
  using post_from by (cases r) (auto simp: returns_def)

lemma post_skip: "conn_ok E c \<Longrightarrow> post E c (c, [])"
  by (simp add: post_def timed_def)

lemma conn_profile_update [simp]:
  "conn_profile (c \<lparr> cn_state := st \<rparr>) = conn_profile c" "conn_profile (c \<lparr> cn_armed := ar \<rparr>) = conn_profile c"
  "conn_profile (c \<lparr> cn_attempts := n \<rparr>) = conn_profile c" "conn_profile (c \<lparr> cn_session := se \<rparr>) = conn_profile c"
  "conn_profile (c \<lparr> cn_pending := pe \<rparr>) = conn_profile c"
  by (simp_all add: conn_profile_def split: option.split)

lemma accepted_update [simp]:
  "accepted (c \<lparr> cn_state := st \<rparr>) = accepted c" "accepted (c \<lparr> cn_armed := ar \<rparr>) = accepted c"
  "accepted (c \<lparr> cn_attempts := n \<rparr>) = accepted c" "accepted (c \<lparr> cn_session := se \<rparr>) = accepted c"
  "accepted (c \<lparr> cn_pending := pe \<rparr>) = accepted c"
  by (auto simp: accepted_def fun_eq_iff)

lemma conn_ok_attempts [simp]: "conn_ok E (c \<lparr> cn_attempts := n \<rparr>) = conn_ok E c"
  by (simp add: conn_ok_def must_run_def)

section \<open>Transitions\<close>

lemma conn_enter_eq:
  "conn_enter st c = (c \<lparr> cn_state := st, cn_armed := (if cn_armed c = timer_of st then cn_armed c else None) \<rparr>,
     (case cn_armed c of None \<Rightarrow> [] | Some i \<Rightarrow> if Some i = timer_of st then [] else [Ac_ClearTimer i]) @ [Ac_Notify st])"
  by (auto simp: conn_enter_def conn_disarm_def Let_def split: option.splits)

lemma conn_disarm_eq:
  "conn_disarm c = (c \<lparr> cn_armed := None \<rparr>, case cn_armed c of None \<Rightarrow> [] | Some i \<Rightarrow> [Ac_ClearTimer i])"
  by (auto simp: conn_disarm_def split: option.splits)

lemma timed_enter: "timed c (snd (conn_enter st c)) (fst (conn_enter st c))"
  by (cases "cn_armed c") (auto simp: conn_enter_eq timed_def)

lemma retimed_disarm: "retimed c (snd (conn_disarm c)) (fst (conn_disarm c))"
  by (cases "cn_armed c") (auto simp: conn_disarm_eq retimed_def)

lemma retimed_arm:
  "cn_armed c = None \<or> cn_armed c = Some i \<Longrightarrow> retimed c (snd (conn_arm i ms c)) (fst (conn_arm i ms c))"
  by (auto simp: conn_arm_def retimed_def)

lemma plain_enter [simp]: "list_all plain (snd (conn_enter st c))"
  by (auto simp: conn_enter_eq plain_def split: option.split)

lemma plain_disarm [simp]: "list_all plain (snd (conn_disarm c))"
  by (auto simp: conn_disarm_eq plain_def split: option.split)

text \<open>Entering a state and arming its timer leaves exactly that timer running.\<close>

lemma enter_arm:
  assumes "timer_of st = Some i"
  shows "retimed c (snd (conn_enter st c) @ [Ac_SetTimer i ms])
           ((fst (conn_enter st c)) \<lparr> cn_armed := Some i \<rparr>)"
proof -
  have "cn_armed (fst (conn_enter st c)) = None \<or> cn_armed (fst (conn_enter st c)) = Some i"
    using assms by (auto simp: conn_enter_eq)
  from timed_retimed[OF timed_enter retimed_arm[OF this, of ms]] show ?thesis
    by (simp add: conn_arm_def)
qed

lemma conn_ok_no_session:
  assumes "cn_session c = None" "cn_state c \<noteq> Cs_Authenticating"
    "cn_armed c = timer_of (cn_state c)"
  shows "conn_ok E c"
  using assms by (simp add: conn_ok_def)

lemma conn_fail_retry:
  assumes "\<not> failure_is_terminal f" "cn_target c = Some t" "tg_retry t"
  shows "conn_fail f c =
    ((fst (conn_enter Cs_Reconnecting c)) \<lparr> cn_session := None, cn_pending := None,
       cn_attempts := cn_attempts c + 1, cn_armed := Some ReconnectBackoff \<rparr>,
     (if conn_associated c \<and> \<not> failure_is_disconnected f then [Ac_Disconnect REASON_LEAVING] else []) @
     snd (conn_enter Cs_Reconnecting c) @ [Ac_SetTimer ReconnectBackoff (backoff_ms (cn_attempts c + 1))])"
  using assms by (simp add: conn_fail_def conn_enter_eq conn_arm_def Let_def)

lemma conn_fail_stop:
  assumes "failure_is_terminal f \<or> (\<forall>t. cn_target c = Some t \<longrightarrow> \<not> tg_retry t)"
  shows "conn_fail f c =
    (c \<lparr> cn_session := None, cn_pending := None, cn_armed := None, cn_state := Cs_Idle,
        cn_target := None, cn_attempts := 0 \<rparr>,
     (if conn_associated c \<and> \<not> failure_is_disconnected f then [Ac_Disconnect REASON_LEAVING] else []) @
     snd (conn_disarm c) @ [Ac_Failed f])"
  using assms by (auto simp: conn_fail_def conn_disarm_eq Let_def split: option.splits)

lemma conn_fail_cases:
  obtains (retry) t where "\<not> failure_is_terminal f" "cn_target c = Some t" "tg_retry t"
  | (stop) "failure_is_terminal f \<or> (\<forall>t. cn_target c = Some t \<longrightarrow> \<not> tg_retry t)"
  by blast

lemma retimed_fail: "retimed c (snd (conn_fail f c)) (fst (conn_fail f c))"
proof (cases rule: conn_fail_cases[of f c])
  case retry
  let ?o = "if conn_associated c \<and> \<not> failure_is_disconnected f then [Ac_Disconnect REASON_LEAVING] else []"
  have "timed c ?o c" by (simp add: timed_def)
  moreover have "retimed c (snd (conn_enter Cs_Reconnecting c) @
      [Ac_SetTimer ReconnectBackoff (backoff_ms (cn_attempts c + 1))]) (fst (conn_fail f c))"
    using enter_arm[of Cs_Reconnecting ReconnectBackoff c] unfolding conn_fail_retry[OF retry]
    by (simp add: timer_of_def retimed_def)
  ultimately show ?thesis unfolding conn_fail_retry[OF retry] snd_conv fst_conv by (rule timed_retimed)
next
  case stop
  show ?thesis
    unfolding conn_fail_stop[OF stop] by (auto simp: retimed_def conn_disarm_eq split: option.split)
qed

lemma conn_fail_ok: "conn_ok E (fst (conn_fail f c))"
  by (cases rule: conn_fail_cases[of f c])
    (auto simp: conn_fail_retry conn_fail_stop conn_enter_eq timer_of_def intro!: conn_ok_no_session)

lemma conn_fail_actions: "list_all (action_ok (fst (conn_fail f c))) (snd (conn_fail f c))"
  by (cases rule: conn_fail_cases[of f c])
    (auto simp: conn_fail_retry conn_fail_stop conn_enter_eq conn_disarm_eq action_ok_def split: option.split)

lemma conn_fail_post: "post E c (conn_fail f c)"
  by (simp add: post_def retimed_timed[OF retimed_fail] conn_fail_ok conn_fail_actions)

lemma conn_start_scan_eq:
  "conn_start_scan c = ((fst (conn_enter Cs_Scanning c)) \<lparr> cn_armed := Some ScanTimeout \<rparr>,
     snd (conn_enter Cs_Scanning c) @ [Ac_TriggerScan (dev_ifindex (cn_device c))] @
     [Ac_SetTimer ScanTimeout SCAN_TIMEOUT_MS])"
  by (simp add: conn_start_scan_def conn_enter_eq conn_arm_def Let_def)

lemma retimed_start_scan: "retimed c (snd (conn_start_scan c)) (fst (conn_start_scan c))"
  using enter_arm[of Cs_Scanning ScanTimeout c SCAN_TIMEOUT_MS]
  by (simp add: conn_start_scan_eq timer_of_def retimed_def)

lemma conn_start_scan_post:
  assumes "\<forall>s. cn_session c = Some s \<longrightarrow> cn_target c \<noteq> None \<and> session_ok E (cn_device c) s"
  shows "post E c (conn_start_scan c)"
proof -
  have "conn_ok E (fst (conn_start_scan c))"
    using assms by (auto simp: conn_start_scan_eq conn_enter_eq conn_ok_def timer_of_def)
  moreover have "list_all plain (snd (conn_start_scan c))"
    using plain_enter[of Cs_Scanning c] by (simp add: conn_start_scan_eq plain_def)
  ultimately show ?thesis
    using retimed_timed[OF retimed_start_scan] by (simp add: post_def list_all_iff plain_ok)
qed

lemma conn_go_idle_post: "post E c (conn_go_idle c)"
proof -
  have "conn_ok E (fst (conn_go_idle c))"
    by (auto simp: conn_go_idle_def conn_disarm_eq timer_of_def intro!: conn_ok_no_session)
  then show ?thesis
    by (auto simp: post_def conn_go_idle_def conn_disarm_eq timed_def action_ok_def split: option.split)
qed

text \<open>Entering a state that waits for no timer of its own.\<close>

lemma conn_ok_enter:
  assumes "conn_ok E c" "st = Cs_Configuring \<or> st = Cs_Connected \<or> st = Cs_Handshaking"
  shows "conn_ok E (fst (conn_enter st c))"
  using assms by (elim disjE) (simp_all add: conn_ok_def conn_enter_eq must_run_def)

lemma conn_configured_post:
  assumes "conn_ok E c"
  shows "post E c (conn_configured c)"
proof -
  have "post E c ((fst (conn_enter Cs_Connected c)) \<lparr> cn_attempts := 0 \<rparr>, snd (conn_enter Cs_Connected c))"
    using conn_ok_enter[OF assms, of Cs_Connected] timed_enter[of c Cs_Connected] plain_enter[of Cs_Connected c]
    by (simp add: post_def timed_def list_all_iff plain_ok)
  moreover have "post E c (fst (conn_enter Cs_Configuring c), snd (conn_enter Cs_Configuring c) @ [Ac_StartDhcp])"
    using conn_ok_enter[OF assms, of Cs_Configuring] timed_enter[of c Cs_Configuring] plain_enter[of Cs_Configuring c]
    by (simp add: post_def timed_def list_all_iff plain_ok) (simp add: action_ok_def conn_enter_eq)
  ultimately show ?thesis by (simp add: conn_configured_def conn_enter_eq Let_def)
qed

section \<open>Association\<close>

lemma assoc_element_Some:
  assumes "\<forall>p. pmkid = Some p \<longrightarrow> length p = 16"
  shows "\<exists>el. assoc_element rsn pmkid = Some el \<and> length el \<le> 44"
  unfolding assoc_element_def by (rule srsn_encode_Some) (use assms in simp)

lemma assoc_secured_simps [simp]:
  "asr_ssid (assoc_secured rsn el r) = asr_ssid r" "asr_bssid (assoc_secured rsn el r) = asr_bssid r"
  "asr_freq_mhz (assoc_secured rsn el r) = asr_freq_mhz r"
  "asr_akms (assoc_secured rsn el r) = [akm_suite (ng_akm rsn)]"
  "asr_group_cipher (assoc_secured rsn el r) = cipher_suite (ng_group rsn)"
  "ng_mfp_required rsn \<Longrightarrow> asr_mfp (assoc_secured rsn el r) = Some NL80211_MFP_REQUIRED"
  by (simp_all add: assoc_secured_def Let_def)

lemma length_asr_ies: "length (asr_ies (assoc_secured rsn el r)) \<le> length el + 3"
  by (simp add: assoc_secured_def Let_def RSNXE_SAE_H2E_def)

lemma session_ok_take_offload:
  assumes "session_ok E dev s" "se_handshake s = None" "length ie \<le> 257"
  shows "session_ok E dev (s \<lparr> se_auth := snd (assoc_take_offload (se_auth s)), se_assoc_ie := ie \<rparr>)"
  using assms by (auto simp: session_ok_def assoc_take_offload_def rsn_needed_def split: auth.splits)

lemma conn_associate_enter:
  assumes "cn_target c = Some t" "session_ok E (cn_device c) s" "accepted c (se_choice s)"
    "request_for r t (se_choice s)" "ch_rsn (se_choice s) \<noteq> None \<Longrightarrow> asr_ies r = se_assoc_ie s"
  shows "returns E c (emit_then (Some (conn_enter Cs_Associating (c \<lparr> cn_session := Some s \<rparr>)))
      (\<lambda>c. emit_then (Some (c, [Ac_Associate r])) (\<lambda>c. Some (conn_arm AssocTimeout ASSOC_TIMEOUT_MS c))))"
proof -
  let ?c = "c \<lparr> cn_session := Some s \<rparr>"
  let ?c' = "(fst (conn_enter Cs_Associating ?c)) \<lparr> cn_armed := Some AssocTimeout \<rparr>"
  have "retimed ?c (snd (conn_enter Cs_Associating ?c) @ [Ac_SetTimer AssocTimeout ASSOC_TIMEOUT_MS]) ?c'"
    by (rule enter_arm) (simp add: timer_of_def)
  then have "timed c (snd (conn_enter Cs_Associating ?c) @ [Ac_Associate r, Ac_SetTimer AssocTimeout ASSOC_TIMEOUT_MS]) ?c'"
    by (simp add: retimed_def timed_def)
  moreover have "conn_ok E ?c'"
    using assms by (simp add: conn_ok_def conn_enter_eq timer_of_def)
  moreover have "action_ok ?c' (Ac_Associate r)"
    using assms by (simp add: action_ok_def conn_enter_eq)
  moreover have "list_all (action_ok ?c') (snd (conn_enter Cs_Associating ?c) @ [Ac_SetTimer AssocTimeout ASSOC_TIMEOUT_MS])"
    using plain_enter[of Cs_Associating ?c] by (simp add: list_all_iff plain_ok plain_def)
  ultimately show ?thesis
    by (simp add: conn_enter_eq conn_arm_def post_def)
qed

lemma conn_associate_returns:
  assumes "cn_target c = Some t" "cn_session c = Some s" "session_ok E (cn_device c) s"
    "se_handshake s = None" "accepted c (se_choice s)"
  shows "returns E c (conn_associate c)"
proof -
  obtain off auth where oa: "assoc_take_offload (se_auth s) = (off, auth)" by fastforce
  let ?plain = "assoc_plain (dev_ifindex (cn_device c)) (tg_ssid t) (se_choice s) off"
  have go: "returns E c (emit_then
      (Some (conn_enter Cs_Associating (c \<lparr> cn_session := Some (s \<lparr> se_auth := auth, se_assoc_ie := ie \<rparr>) \<rparr>)))
      (\<lambda>c. emit_then (Some (c, [Ac_Associate r])) (\<lambda>c. Some (conn_arm AssocTimeout ASSOC_TIMEOUT_MS c))))"
    if "request_for r t (se_choice s)" "ch_rsn (se_choice s) \<noteq> None \<longrightarrow> asr_ies r = ie" "length ie \<le> 257" for r ie
    using conn_associate_enter[OF assms(1) session_ok_take_offload[OF assms(3,4) that(3)]] oa that assms(5)
    by simp
  have ie: "length (se_assoc_ie s) \<le> 257" using assms(3) by (simp add: session_ok_def)
  show ?thesis
  proof (cases "ch_rsn (se_choice s)")
    case None
    then have "request_for ?plain t (se_choice s)" by (simp add: request_for_def assoc_plain_def)
    then show ?thesis using go[of ?plain "se_assoc_ie s"] None ie
      by (simp add: conn_associate_def assms(1,2) oa)
  next
    case (Some rsn)
    obtain el where el: "assoc_element rsn (se_pmkid s) = Some el" "length el \<le> 44"
      using assoc_element_Some[of "se_pmkid s" rsn] assms(3) by (auto simp: session_ok_def)
    let ?r = "assoc_secured rsn el ?plain"
    have "request_for ?r t (se_choice s)" using Some by (simp add: request_for_def assoc_plain_def)
    then show ?thesis using go[of ?r "asr_ies ?r"] Some el length_asr_ies[of rsn el ?plain]
      by (simp add: conn_associate_def assms(1,2) oa Let_def)
  qed
qed

section \<open>The SAE exchange\<close>

lemma sae_start_waiting:
  assumes "sae_start P G (sae_new pw seed) ctx = Some (p, r)"
  shows "sae_inv p \<and> (case r of Inl _ \<Rightarrow> True | Inr st \<Rightarrow> sae_waiting p \<and> (\<exists>f. st = Step_Send f))"
proof (cases r)
  case Inl
  then show ?thesis using assms
    by (auto simp: sae_start_def sae_inv_def sae_new_def Let_def split: if_splits option.splits prod.splits)
next
  case (Inr st)
  show ?thesis using sae_start_InrD[OF assms[unfolded Inr]] Inr
    by (auto simp: sae_inv_def sae_new_def sae_waiting_def)
qed

lemma sae_timeout_waiting:
  assumes "sae_waiting p" "sae_inv p" "sae_on_timeout p = (p', r)"
  shows "sae_inv p' \<and> sae_waiting p' \<and> (case r of Inl _ \<Rightarrow> True | Inr st \<Rightarrow> \<exists>f. st = Step_Send f)"
  using assms by (auto simp: sae_on_timeout_def sae_inv_def sae_waiting_def Let_def split: sae_state.splits if_splits)

lemma sae_frame_waiting:
  assumes "sae_waiting p" "sae_on_frame P G p f = Some (p', Inr st)" "\<And>pmk. st \<noteq> Step_Done pmk"
  shows "sae_waiting p'"
proof -
  have commit: "sae_waiting p'" if "sae_take_state p (sae_on_commit P G p c b) = Some (p', Inr st)" for c b
    using that by (auto dest!: sae_take_state_InrD sae_on_commit_InrD simp: sae_waiting_def)
  have token: "sae_waiting p'" if "sae_take_state p (sae_on_token_request p c b) = Some (p', Inr st)" for c b
    using that by (auto dest!: sae_take_state_InrD simp: sae_on_token_request_def Let_def sae_waiting_def
        elim!: try_ok_InrE split: option.splits)
  have confirm: "sae_take_state p (Some (sae_on_confirm P p ses b)) \<noteq> Some (p', Inr st)" for ses b
    using assms(3) by (auto dest!: sae_take_state_InrD simp: sae_on_confirm_def Let_def split: if_splits)
  show ?thesis using assms(1,2) commit token confirm
    by (auto simp: sae_on_frame_def sae_waiting_def split: sum.splits if_splits sae_state.splits)
qed

lemma conn_on_sae_step_returns:
  assumes t: "cn_target c = Some t" and s: "cn_session c = Some s" and ok: "session_ok E (cn_device c) s"
    and p: "se_auth s = Auth_PreAssoc p" and st: "cn_state c = Cs_Authenticating"
    and acc: "accepted c (se_choice s)" and armed: "cn_armed c = None \<or> cn_armed c = Some AuthTimeout"
    and wait: "\<And>x. r = Inr x \<Longrightarrow> (\<And>pmk. x \<noteq> Step_Done pmk) \<Longrightarrow> sae_waiting p"
    and idle: "r = Inr Step_Wait \<Longrightarrow> cn_armed c = Some AuthTimeout"
  shows "returns E c (conn_on_sae_step r c)"
proof -
  consider (err) e where "r = Inl e" | (send) f where "r = Inr (Step_Send f)" | (waits) "r = Inr Step_Wait"
    | (finished) pmk where "r = Inr (Step_Done pmk)"
    by (cases r) (auto elim: pstep.exhaust)
  then show ?thesis
  proof cases
    case send
    show ?thesis
    proof (cases "conn_auth_request f c")
      case None
      then show ?thesis using send conn_fail_post by (simp add: conn_on_sae_step_def)
    next
      case (Some q)
      have "aur_ssid q = tg_ssid t \<and> aur_bssid q = ch_bssid (se_choice s) \<and> aur_freq_mhz q = ch_freq_mhz (se_choice s)"
        using Some t s by (auto simp: conn_auth_request_def split: if_splits)
      moreover have "conn_ok E (c \<lparr> cn_armed := Some AuthTimeout \<rparr>)"
        using t s ok st acc wait[OF send] p by (simp add: conn_ok_def timer_of_def)
      moreover have "timed c [Ac_Authenticate q, Ac_SetTimer AuthTimeout AUTH_TIMEOUT_MS] (c \<lparr> cn_armed := Some AuthTimeout \<rparr>)"
        using armed by (auto simp: timed_def)
      ultimately show ?thesis
        using send Some t s st by (simp add: conn_on_sae_step_def conn_arm_def post_def action_ok_def)
    qed
  next
    case waits
    have "conn_ok E c" using t s ok st acc wait[OF waits] p idle[OF waits]
      by (simp add: conn_ok_def timer_of_def)
    then show ?thesis using waits by (simp add: conn_on_sae_step_def post_skip)
  next
    case finished
    let ?s = "s \<lparr> se_pmkid := sae_pmkid p, se_auth := Auth_Ready pmk \<rparr>"
    have "session_ok E (cn_device c) ?s" "se_handshake ?s = None"
      using ok p by (auto simp: session_ok_def sae_inv_def rsn_needed_def)
    then have "returns E (c \<lparr> cn_session := Some ?s \<rparr>) (conn_associate (c \<lparr> cn_session := Some ?s \<rparr>))"
      using t acc by (intro conn_associate_returns[where t = t and s = ?s]) simp_all
    then show ?thesis using finished s p by (auto simp: conn_on_sae_step_def intro: returns_from)
  qed (simp add: conn_on_sae_step_def conn_fail_post)
qed

lemma conn_start_sae_returns:
  assumes E: "env_ok E" and t: "cn_target c = Some t" and s: "cn_session c = Some s"
    and ok: "session_ok E (cn_device c) s" and p: "se_auth s = Auth_PreAssoc (sae_new pw seed)"
    and acc: "accepted c (se_choice s)"
  shows "returns E c (conn_start_sae E c)"
  unfolding conn_start_sae_def
proof (subst prod.collapse[symmetric], rule returns_then[OF timed_enter plain_enter])
  let ?c = "fst (conn_enter Cs_Authenticating c)"
  let ?ctx = "auth_context (tg_ssid t) (se_choice s) (dev_mac (cn_device c))"
  obtain p' r where st: "sae_start (env_prims E) (env_group E) (sae_new pw seed) ?ctx = Some (p', r)"
    using E by (fastforce simp: env_ok_def)
  note w = sae_start_waiting[OF st]
  let ?s = "s \<lparr> se_auth := Auth_PreAssoc p' \<rparr>"
  have "session_ok E (cn_device c) ?s" using ok p w by (auto simp: session_ok_def rsn_needed_def)
  then have "returns E (?c \<lparr> cn_session := Some ?s \<rparr>) (conn_on_sae_step r (?c \<lparr> cn_session := Some ?s \<rparr>))"
    using t acc w
    by (intro conn_on_sae_step_returns[where t = t and s = ?s and p = p']) (auto simp: conn_enter_eq timer_of_def split: sum.splits)
  then have "returns E ?c (conn_on_sae_step r (?c \<lparr> cn_session := Some ?s \<rparr>))"
    by (rule returns_from) simp
  then show "returns E ?c (conn_drive_sae E Se_Start ?c)"
    using t s p st by (simp add: conn_drive_sae_def conn_enter_eq Let_def)
qed

text \<open>Driving a running exchange, in the state that runs it.\<close>

lemma conn_drive_sae_returns:
  assumes E: "env_ok E" and inv: "conn_ok E c" and st: "cn_state c = Cs_Authenticating" and ev: "ev \<noteq> Se_Start"
  shows "returns E c (conn_drive_sae E ev c)"
proof -
  obtain s p where s: "cn_session c = Some s" "se_auth s = Auth_PreAssoc p" "sae_waiting p"
    using inv st by (auto simp: conn_ok_def)
  then obtain t where t: "cn_target c = Some t" and ok: "session_ok E (cn_device c) s"
    and acc: "accepted c (se_choice s)" and armed: "cn_armed c = Some AuthTimeout"
    using inv st by (auto simp: conn_ok_def must_run_def timer_of_def)
  have pi: "sae_inv p" using ok s by (simp add: session_ok_def)
  have step: "returns E c (conn_on_sae_step r (c \<lparr> cn_session := Some (s \<lparr> se_auth := Auth_PreAssoc p' \<rparr>) \<rparr>))"
    if "sae_inv p'" "\<And>x. r = Inr x \<Longrightarrow> (\<And>pmk. x \<noteq> Step_Done pmk) \<Longrightarrow> sae_waiting p'" for p' r
  proof -
    let ?s = "s \<lparr> se_auth := Auth_PreAssoc p' \<rparr>"
    have "session_ok E (cn_device c) ?s" using ok s that by (auto simp: session_ok_def rsn_needed_def)
    then have "returns E (c \<lparr> cn_session := Some ?s \<rparr>) (conn_on_sae_step r (c \<lparr> cn_session := Some ?s \<rparr>))"
      using t acc st armed that by (intro conn_on_sae_step_returns[where t = t and s = ?s and p = p']) auto
    then show ?thesis by (rule returns_from) simp
  qed
  show ?thesis
  proof (cases ev)
    case (Se_Frame f)
    obtain p' r where f: "sae_on_frame (env_prims E) (env_group E) p f = Some (p', r)" "sae_inv p'"
      using sae_on_frame_ok[OF _ _ pi] E by (fastforce simp: env_ok_def)
    have "returns E c (conn_on_sae_step r (c \<lparr> cn_session := Some (s \<lparr> se_auth := Auth_PreAssoc p' \<rparr>) \<rparr>))"
      by (rule step[OF f(2)]) (use sae_frame_waiting[OF s(3)] f(1) in blast)
    then show ?thesis using Se_Frame t s f by (simp add: conn_drive_sae_def)
  next
    case Se_Timeout
    obtain p' r where f: "sae_on_timeout p = (p', r)" by fastforce
    then show ?thesis using step[of p' r] sae_timeout_waiting[OF s(3) pi f] Se_Timeout t s
      by (simp add: conn_drive_sae_def)
  qed (use ev in simp)
qed

section \<open>Planning\<close>

lemma conn_evaluate_InrD:
  assumes "conn_evaluate E bss cred roaming c = Inr ch"
  shows "accepted c ch \<and> ch_bssid ch = bss_bssid bss \<and> ch_advertised ch = bss_security bss \<and>
    ch_roaming ch = roaming \<and> (ch_rsn ch = None \<longleftrightarrow> bss_rsn bss = None) \<and>
    (case ch_rsn ch of
       None \<Rightarrow> bss_security bss = Sec_Open \<and> ch_negotiated ch = Sec_Open
     | Some n \<Rightarrow> ch_negotiated ch = negotiated_security (ng_akm n) (ng_mfp_required n) \<and>
         (\<exists>rsn. bss_rsn bss = Some rsn \<and> negotiate E rsn cred = Inr n))"
  using assms
  by (auto simp: conn_evaluate_def accepted_def Let_def split: option.splits sum.splits if_splits)

lemma assemble_InrD:
  assumes "assemble E rnd akm cred caps ctx = Inr a"
  shows "(\<forall>p. a = Auth_PreAssoc p \<longrightarrow> akm_is_sae akm \<and> (\<exists>pw. p = sae_new pw (rn_seed rnd)))"
  using assms by (auto simp: assemble_def split: credential.splits if_splits sum.splits pstep.splits)

lemma conn_plan_returns:
  assumes E: "env_ok E" and inv: "roaming \<Longrightarrow> conn_ok E c" and t: "cn_target c = Some t"
    and sess: "\<forall>s. cn_session c = Some s \<longrightarrow> session_ok E (cn_device c) s"
    and park: "conn_credential (bss_rsn bss = None) c = None \<Longrightarrow>
      cn_state c = Cs_Scanning \<or> cn_state c = Cs_Connected"
  shows "returns E c (conn_plan E rnd bss roaming c)"
proof -
  let ?cred = "conn_credential (bss_rsn bss = None) c"
  show ?thesis
  proof (cases "conn_evaluate E bss ?cred roaming c")
    case (Inl f)
    then show ?thesis using inv by (cases roaming) (simp_all add: conn_plan_def conn_fail_post post_skip)
  next
    case (Inr ch)
    note ev = conn_evaluate_InrD[OF Inr]
    show ?thesis
    proof (cases ?cred)
      case None
      let ?c' = "c \<lparr> cn_armed := None, cn_pending := Some bss \<rparr>"
      have "conn_ok E ?c'" using park[OF None] sess t
        by (auto simp: conn_ok_def must_run_def)
      then have "post E c (?c', snd (conn_disarm c) @ [Ac_RequestSecret (conn_ssid_bytes c)])"
        by (auto simp: post_def conn_disarm_eq timed_def action_ok_def split: option.split)
      moreover have "conn_ssid_bytes (c \<lparr> cn_armed := None \<rparr>) = conn_ssid_bytes c"
        by (simp add: conn_ssid_bytes_def)
      ultimately show ?thesis using Inr None
        by (simp add: conn_plan_def conn_fail_post conn_disarm_eq)
    next
      case (Some cred)
      let ?ctx = "auth_context (conn_ssid_bytes c) ch (dev_mac (cn_device c))"
      let ?asm = "case ch_rsn ch of None \<Rightarrow> Inr Auth_Open
        | Some _ \<Rightarrow> assemble E rnd (ac_akm ?ctx) cred (dev_caps (cn_device c)) ?ctx"
      show ?thesis
      proof (cases ?asm)
        case (Inl f)
        then show ?thesis using Inr Some by (simp add: conn_plan_def conn_fail_post)
      next
        case a: (Inr a)
        let ?s = "\<lparr> se_choice = ch, se_auth = a, se_pmkid = None, se_assoc_ie = [], se_handshake = None \<rparr>"
        let ?c1 = "c \<lparr> cn_session := Some ?s \<rparr>"
        have need: "rsn_needed a \<longrightarrow> ch_rsn ch \<noteq> None" using a by (cases "ch_rsn ch") (auto simp: rsn_needed_def)
        have new: "\<exists>pw. p = sae_new pw (rn_seed rnd)" if "a = Auth_PreAssoc p" for p
          using a that by (auto split: option.splits dest!: assemble_InrD)
        then have ok: "session_ok E (cn_device c) ?s"
          using need ev by (auto simp: session_ok_def sae_inv_def sae_new_def choice_ok_def split: option.splits)
        have acc: "accepted ?c1 ch" using ev by simp
        show ?thesis
        proof (cases "\<exists>p. a = Auth_PreAssoc p")
          case True
          then obtain pw where p: "a = Auth_PreAssoc (sae_new pw (rn_seed rnd))" using new by blast
          show ?thesis
          proof (cases roaming)
            case True
            then show ?thesis using Inr Some a p inv by (simp add: conn_plan_def post_skip)
          next
            case False
            have "returns E ?c1 (conn_start_sae E ?c1)"
              using t ok acc p by (intro conn_start_sae_returns[OF E, where t = t and s = ?s]) simp_all
            then show ?thesis using Inr Some a p False by (auto simp: conn_plan_def intro: returns_from)
          qed
        next
          case False
          have "returns E ?c1 (conn_associate ?c1)"
            using t ok acc by (intro conn_associate_returns[where t = t and s = ?s]) simp_all
          moreover have "conn_plan E rnd bss roaming c = conn_associate ?c1"
            using Inr Some a False by (cases a) (auto simp: conn_plan_def)
          ultimately show ?thesis by (auto intro: returns_from)
        qed
      qed
    qed
  qed
qed

section \<open>Scanning, roaming and commands\<close>

lemma find_bssid:
  "b \<in> set scan \<Longrightarrow> \<exists>b'. find (\<lambda>x. bss_bssid x = bss_bssid b) scan = Some b' \<and> b' \<in> set scan \<and> bss_bssid b' = bss_bssid b"
  by (cases "find (\<lambda>x. bss_bssid x = bss_bssid b) scan") (auto simp: find_None dest!: find_SomeD)

lemma conn_select_returns:
  assumes E: "env_ok E" and inv: "conn_ok E c" and st: "cn_state c = Cs_Scanning"
  shows "returns E c (conn_select E rnd scan c)"
proof -
  have plan: "returns E c1 (conn_plan E rnd b False c1)"
    if "cn_target c1 = Some t" "c1 = c \<lparr> cn_target := tg \<rparr>" "cn_target c \<noteq> None \<longrightarrow> c1 = c" for c1 t tg b
    using E by (rule conn_plan_returns[OF _ _ that(1)]) (use inv st that in \<open>auto simp: conn_ok_def\<close>)
  show ?thesis
  proof (cases "cn_target c")
    case (Some t)
    show ?thesis
    proof (cases "best_bss scan (tg_ssid t)")
      case None
      then show ?thesis using Some by (simp add: conn_select_def conn_fail_post)
    next
      case b: (Some b)
      obtain b' where "find (\<lambda>x. bss_bssid x = bss_bssid b) scan = Some b'"
        using find_bssid best_bss_SomeD[OF b] by blast
      then show ?thesis using Some b plan[of c t "cn_target c" b'] by (simp add: conn_select_def)
    qed
  next
    case None
    show ?thesis
    proof (cases "best_known scan (cn_profiles c)")
      case n: None
      then show ?thesis using None by (simp add: conn_select_def conn_fail_post)
    next
      case bp: (Some bp)
      obtain b p where bp': "bp = (b, p)" by fastforce
      obtain b' where f: "find (\<lambda>x. bss_bssid x = bss_bssid b) scan = Some b'"
        using find_bssid best_known_SomeD[OF bp[unfolded bp']] by blast
      let ?t = "\<lparr> tg_ssid = pr_ssid p, tg_secret = None, tg_retry = True, tg_save = False \<rparr>"
      have "returns E (c \<lparr> cn_target := Some ?t \<rparr>) (conn_plan E rnd b' False (c \<lparr> cn_target := Some ?t \<rparr>))"
        by (rule plan) (simp_all add: None)
      then have "returns E c (conn_plan E rnd b' False (c \<lparr> cn_target := Some ?t \<rparr>))"
        by (rule returns_from) simp
      then show ?thesis using None bp bp' f by (simp add: conn_select_def)
    qed
  qed
qed

lemma session_ok_signal:
  "session_ok E dev (s \<lparr> se_choice := se_choice s \<lparr> ch_signal_dbm := x \<rparr> \<rparr>) = session_ok E dev s"
  by (simp add: session_ok_def hs_config_of_def choice_ok_def)

lemma conn_consider_roam_returns:
  assumes E: "env_ok E" and inv: "conn_ok E c" and st: "cn_state c = Cs_Connected"
  shows "returns E c (conn_consider_roam E rnd scan c)"
proof (cases "cn_session c = None \<or> cn_target c = None")
  case True
  then show ?thesis using inv by (auto simp: conn_consider_roam_def post_skip split: option.split)
next
  case False
  then obtain s t where s: "cn_session c = Some s" and t: "cn_target c = Some t" by auto
  define signal where "signal = (case find (\<lambda>bss. bss_bssid bss = ch_bssid (se_choice s)) scan of
      None \<Rightarrow> ch_signal_dbm (se_choice s) | Some bss \<Rightarrow> bss_signal_dbm bss)"
  show ?thesis
  proof (cases "roam_target scan (tg_ssid t) (ch_bssid (se_choice s)) signal")
    case None
    have "conn_ok E (c \<lparr> cn_session := Some (s \<lparr> se_choice := se_choice s \<lparr> ch_signal_dbm := signal \<rparr> \<rparr>) \<rparr>)"
      using inv s t st by (auto simp: conn_ok_def must_run_def session_ok_signal)
    then show ?thesis using None s t
      by (simp add: conn_consider_roam_def signal_def post_def timed_def)
  next
    case (Some b)
    obtain b' where f: "find (\<lambda>x. bss_bssid x = bss_bssid b) scan = Some b'"
      using find_bssid roam_target_SomeD[OF Some] by blast
    have "returns E c (conn_plan E rnd b' True c)"
      by (rule conn_plan_returns[OF E inv t]) (use inv st in \<open>auto simp: conn_ok_def\<close>)
    then show ?thesis using Some f s t by (simp add: conn_consider_roam_def signal_def Let_def)
  qed
qed

lemma conn_profile_secret:
  "cn_target c = Some t \<Longrightarrow> conn_profile (c \<lparr> cn_target := Some (t \<lparr> tg_secret := x \<rparr>) \<rparr>) = conn_profile c"
  by (simp add: conn_profile_def)

lemma conn_ok_secret:
  assumes "conn_ok E c" "cn_target c = Some t"
  shows "conn_ok E (c \<lparr> cn_target := Some (t \<lparr> tg_secret := x \<rparr>) \<rparr>)"
  using assms by (simp add: conn_ok_def must_run_def accepted_def conn_profile_secret)

lemma conn_on_command_returns:
  assumes E: "env_ok E" and inv: "conn_ok E c"
  shows "returns E c (conn_on_command E rnd cmd c)"
proof (cases cmd)
  case (Cmd_Connect ssid)
  have "returns E c (Some (conn_start_scan (c \<lparr> cn_target := tg, cn_session := None, cn_pending := None, cn_attempts := 0 \<rparr>)))" for tg
    using conn_start_scan_post[of "c \<lparr> cn_target := tg, cn_session := None, cn_pending := None, cn_attempts := 0 \<rparr>" E]
    by (auto intro: post_from)
  then show ?thesis unfolding Cmd_Connect conn_on_command_def command.case Let_def
    by (intro returns_then) (auto simp: timed_def plain_def)
next
  case Cmd_Autoconnect
  have "post E c (conn_start_scan (c \<lparr> cn_target := None, cn_session := None, cn_pending := None, cn_attempts := 0 \<rparr>))"
    by (rule post_from[OF conn_start_scan_post]) simp_all
  then show ?thesis using Cmd_Autoconnect inv by (simp add: conn_on_command_def post_skip)
next
  case (Cmd_Secret x)
  show ?thesis
  proof (cases "cn_target c")
    case None
    then show ?thesis using Cmd_Secret inv by (simp add: conn_on_command_def post_skip)
  next
    case (Some t)
    let ?t = "t \<lparr> tg_secret := Some x \<rparr>"
    note ok = conn_ok_secret[OF inv Some, of "Some x"]
    show ?thesis
    proof (cases "cn_pending c")
      case None
      then show ?thesis using Cmd_Secret Some ok
        by (simp add: conn_on_command_def post_def timed_def)
    next
      case p: (Some b)
      let ?c = "c \<lparr> cn_target := Some ?t, cn_pending := None \<rparr>"
      have cred: "conn_credential op ?c \<noteq> None" for op
        by (cases "conn_profile ?c") (simp_all add: conn_credential_def)
      have "returns E ?c (conn_plan E rnd b False ?c)"
        by (intro conn_plan_returns[OF E, of _ _ ?t]) (use inv in \<open>simp_all add: conn_ok_def cred\<close>)
      then have "returns E c (conn_plan E rnd b False ?c)" by (rule returns_from) simp
      then show ?thesis using Cmd_Secret Some p by (simp add: conn_on_command_def)
    qed
  qed
next
  case Cmd_Disconnect
  have "returns E c (emit_then (Some (c, [Ac_Disconnect REASON_LEAVING])) (\<lambda>c. Some (conn_go_idle c)))"
    by (rule returns_then) (simp_all add: timed_def plain_def conn_go_idle_post)
  then show ?thesis using Cmd_Disconnect by (simp add: conn_on_command_def)
qed

end
