(* ===== verification/Conn_Link.thy ===== *)
theory Conn_Link
  imports Conn_Inv
begin

text \<open>
  The second half of the connection's invariant (\<^verbatim>\<open>src/crates/caw-core/src/conn.rs\<close>): the handlers that
  run once the station is associated (the 4-way handshake, 802.1X, leases), the events and timers,
  and \<open>conn_poll\<close> itself as a polled machine.
\<close>

section \<open>Leases\<close>

lemma conn_ok_save_profile:
  assumes "conn_ok E c" "cn_state c = Cs_Connected"
  shows "post E c (conn_save_profile c)"
proof -
  have "conn_ok E (c \<lparr> cn_target := Some t', cn_profiles := ps \<rparr>)" for t' ps
    using assms by (auto simp: conn_ok_def must_run_def timer_of_def)
  moreover have "conn_insert_profile p (c \<lparr> cn_target := Some t \<rparr>) =
      c \<lparr> cn_target := Some (if tg_ssid t = pr_ssid p then t \<lparr> tg_retry := pr_autoconnect p \<rparr> else t),
          cn_profiles := filter (\<lambda>q. pr_ssid q \<noteq> pr_ssid p) (cn_profiles c) @ [p] \<rparr>" for p t
    by (simp add: conn_insert_profile_def)
  ultimately show ?thesis
    using assms(1)
    by (auto simp: conn_save_profile_def post_def timed_def action_ok_def Let_def split: option.splits)
qed

lemma conn_on_lease_post:
  assumes inv: "conn_ok E c"
  shows "post E c (conn_on_lease ev c)"
proof (cases ev)
  case (Le_Acquired l)
  let ?c1 = "(fst (conn_enter Cs_Connected c)) \<lparr> cn_attempts := 0 \<rparr>"
  have "post E ?c1 (conn_save_profile ?c1)"
    using conn_ok_enter[OF inv, of Cs_Connected] by (intro conn_ok_save_profile) (simp_all add: conn_enter_eq)
  moreover have "timed c ([Ac_ApplyLease l] @ snd (conn_enter Cs_Connected c)) ?c1"
    using timed_enter[of c Cs_Connected] by (simp add: timed_def)
  moreover have "list_all plain ([Ac_ApplyLease l] @ snd (conn_enter Cs_Connected c))"
    by (simp add: plain_def)
  ultimately have "returns E c (emit_then (Some (?c1, [Ac_ApplyLease l] @ snd (conn_enter Cs_Connected c)))
      (\<lambda>c. Some (conn_save_profile c)))"
    by (intro returns_then) simp_all
  then show ?thesis using Le_Acquired by (simp add: conn_on_lease_def Let_def case_prod_unfold)
next
  case (Le_Lost r)
  show ?thesis
  proof (cases "cn_state c = Cs_Connected")
    case True
    have "post E c (fst (conn_enter Cs_Configuring c), snd (conn_enter Cs_Configuring c) @ [Ac_StartDhcp])"
      using conn_ok_enter[OF inv, of Cs_Configuring] timed_enter[of c Cs_Configuring] plain_enter[of Cs_Configuring c]
      by (simp add: post_def timed_def list_all_iff plain_ok) (simp add: action_ok_def conn_enter_eq)
    then show ?thesis using True Le_Lost by (simp add: conn_on_lease_def Let_def case_prod_unfold)
  qed (use inv Le_Lost in \<open>simp add: conn_on_lease_def post_skip\<close>)
qed (simp add: conn_on_lease_def conn_fail_post)

section \<open>The 4-way handshake\<close>

lemma conn_start_handshake_returns:
  assumes s: "cn_session c = Some s" and rsn: "ch_rsn (se_choice s) \<noteq> None" and run: "se_auth s = Auth_Running"
    and inv: "cn_target c \<noteq> None" "session_ok E (cn_device c) s"
  shows "returns E c (conn_start_handshake rnd pmk c)"
proof (cases "rn_snonce rnd")
  case None
  then show ?thesis using s rsn by (auto simp: conn_start_handshake_def conn_fail_post)
next
  case (Some n)
  obtain r where r: "ch_rsn (se_choice s) = Some r" using rsn by blast
  let ?h = "fw_new pmk (hs_config_of (cn_device c) (se_choice s) (se_assoc_ie s) r) n"
  let ?c = "c \<lparr> cn_session := Some (s \<lparr> se_handshake := Some ?h \<rparr>) \<rparr>"
  have "fw_inv (env_prims E) ?h"
    using inv(2) by (intro fw_inv_new) (simp add: fw_cfg_ok_def hs_config_of_def session_ok_def)
  then have "session_ok E (cn_device c) (s \<lparr> se_handshake := Some ?h \<rparr>)"
    using inv(2) run r by (simp add: session_ok_def fw_new_def)
  then have "conn_ok E (fst (conn_enter Cs_Handshaking ?c))"
    using inv by (simp add: conn_ok_def conn_enter_eq must_run_def)
  then have "post E ?c (conn_enter Cs_Handshaking ?c)"
    using timed_enter[of ?c Cs_Handshaking] plain_enter[of Cs_Handshaking ?c]
    by (simp add: post_def list_all_iff plain_ok)
  then show ?thesis using Some s r by (auto simp: conn_start_handshake_def intro: post_from)
qed

text \<open>While handshake actions run, the machine is associated and keyed.\<close>

lemma conn_hs_actions_returns:
  assumes "conn_ok E c" "cn_state c = Cs_Handshaking \<or> cn_state c = Cs_Connected"
    "cn_session c = Some s" "ch_rsn (se_choice s) = Some n"
  shows "returns E c (conn_hs_actions acts complete c)"
  using assms
proof (induction acts arbitrary: c complete)
  case Nil
  then show ?case by (simp add: conn_configured_post post_skip)
next
  case (Cons a acts)
  have push: "returns E c (emit_then (Some (c, [x])) (conn_hs_actions acts b))"
    if "plain x" "quiet x" for x b
    using Cons.IH[OF Cons.prems] that by (intro returns_then timed_quiet) simp_all
  show ?case
  proof (cases a)
    case (Fa_Send f)
    then show ?thesis using push[of "Ac_SendEapol f" complete] by (simp add: plain_def quiet_def)
  next
    case (Fa_ArmTimer ms)
    let ?c = "c \<lparr> cn_armed := Some HandshakeRetry \<rparr>"
    have "conn_ok E ?c" using Cons.prems(2,1,3)
      by (elim disjE) (simp_all add: conn_ok_def must_run_def timer_of_def)
    then have "returns E ?c (conn_hs_actions acts complete ?c)"
      using Cons.prems by (intro Cons.IH) simp_all
    moreover have "timed c [Ac_SetTimer HandshakeRetry ms] ?c"
      using Cons.prems(2,1) by (elim disjE) (auto simp: conn_ok_def timed_def timer_of_def)
    ultimately have "returns E c (emit_then (Some (?c, [Ac_SetTimer HandshakeRetry ms])) (conn_hs_actions acts complete))"
      by (intro returns_then) (simp_all add: plain_def)
    then show ?thesis using Fa_ArmTimer by (simp add: conn_arm_def)
  next
    case Fa_DisarmTimer
    let ?c = "fst (conn_disarm c)"
    have "conn_ok E ?c" using Cons.prems(2,1,3)
      by (elim disjE) (simp_all add: conn_ok_def must_run_def conn_disarm_eq)
    then have "returns E ?c (conn_hs_actions acts complete ?c)"
      using Cons.prems by (intro Cons.IH) (simp_all add: conn_disarm_eq)
    then have "returns E c (emit_then (Some (?c, snd (conn_disarm c))) (conn_hs_actions acts complete))"
      by (intro returns_then retimed_timed[OF retimed_disarm] plain_disarm)
    then show ?thesis using Fa_DisarmTimer by simp
  next
    case (Fa_Complete k g)
    obtain i where "conn_pairwise_install k g c = Some i"
      using Cons.prems by (simp add: conn_pairwise_install_def)
    then show ?thesis using Fa_Complete push[of "Ac_InstallKeys i" True] by (simp add: plain_def quiet_def)
  next
    case (Fa_NewGtk g)
    then show ?thesis
      using push[of "Ac_InstallKeys \<lparr> ki_pairwise_key = None,
        ki_group = \<lparr> gk_cipher = conn_group_suite c, gk_gtk = g \<rparr> \<rparr>" complete] by (simp add: plain_def quiet_def)
  qed
qed

lemma fw_poll_config:
  assumes "fw_poll P s i = Some (s', r)"
  shows "fw_config s' = fw_config s"
  using fw_poll_cases[OF assms]
proof (elim disjE exE conjE)
  fix b acts assume "fw_on_frame P s b = Some (Inr (s', acts))"
  from fw_on_frame_InrD[OF this] show ?thesis using fw_dispatch_effect(3) by blast
next
  fix acts assume "fw_on_timeout s = Inr (s', acts)"
  then show ?thesis by (auto simp: fw_on_timeout_def split: option.splits if_splits)
qed simp

lemma session_ok_handshake:
  assumes "session_ok E dev s" "se_handshake s = Some h" "fw_poll (env_prims E) h i = Some (h', r)"
  shows "session_ok E dev (s \<lparr> se_handshake := Some h' \<rparr>)"
  using assms(1,2) fw_inv_poll[OF _ assms(3)] fw_poll_config[OF assms(3)] by (simp add: session_ok_def)

lemma conn_poll_handshake_returns:
  assumes E: "env_ok E" and inv: "conn_ok E c" and st: "cn_state c = Cs_Handshaking \<or> cn_state c = Cs_Connected"
  shows "returns E c (conn_poll_handshake E i c)"
proof (cases "\<exists>s h. cn_session c = Some s \<and> se_handshake s = Some h")
  case True
  then obtain s h where s: "cn_session c = Some s" and h: "se_handshake s = Some h" by blast
  have ok: "session_ok E (cn_device c) s" using inv s by (simp add: conn_ok_def)
  obtain h' r where p: "fw_poll (env_prims E) h i = Some (h', r)"
    using fw_poll_no_panic[of "env_prims E" h i] E ok h by (auto simp: env_ok_def session_ok_def)
  let ?s = "s \<lparr> se_handshake := Some h' \<rparr>"
  let ?c = "c \<lparr> cn_session := Some ?s \<rparr>"
  obtain n where n: "ch_rsn (se_choice ?s) = Some n" using ok h by (auto simp: session_ok_def)
  have "conn_ok E ?c"
    using st inv s session_ok_handshake[OF ok h p] by (elim disjE) (simp_all add: conn_ok_def must_run_def)
  then have "returns E ?c (conn_hs_actions acts b ?c)" for acts b
    using st n by (intro conn_hs_actions_returns[where s = ?s]) simp_all
  then have "returns E ?c (conn_on_handshake_actions r ?c)"
    by (cases r) (simp_all add: conn_on_handshake_actions_def conn_fail_post)
  then have "returns E c (conn_on_handshake_actions r ?c)" by (rule returns_from) simp
  then show ?thesis using s h p by (simp add: conn_poll_handshake_def)
next
  case False
  then show ?thesis using inv
    by (cases "cn_session c"; cases "se_handshake (the (cn_session c))")
      (auto simp: conn_poll_handshake_def post_skip)
qed

section \<open>802.1X, EAPOL and association\<close>

lemma conn_ok_set_session:
  assumes "conn_ok E c" "session_ok E (cn_device c) s" "cn_target c \<noteq> None"
    "cn_state c = Cs_Handshaking \<or> cn_state c = Cs_Connected"
  shows "conn_ok E (c \<lparr> cn_session := Some s \<rparr>)"
  using assms(4,1,2,3) by (elim disjE) (simp_all add: conn_ok_def must_run_def)

lemma conn_drive_dot1x_returns:
  assumes inv: "conn_ok E c" and st: "cn_state c = Cs_Handshaking \<or> cn_state c = Cs_Connected"
  shows "returns E c (conn_drive_dot1x E rnd frame c)"
proof (cases "\<exists>t s d. cn_target c = Some t \<and> cn_session c = Some s \<and> se_auth s = Auth_PostAssoc d")
  case True
  then obtain t s d where t: "cn_target c = Some t" and s: "cn_session c = Some s"
    and d: "se_auth s = Auth_PostAssoc d" by blast
  have ok: "session_ok E (cn_device c) s" using inv s by (simp add: conn_ok_def)
  let ?ctx = "auth_context (tg_ssid t) (se_choice s) (dev_mac (cn_device c))"
  obtain d' r where p: "(case frame of Some f \<Rightarrow> dx_on_frame (env_dot1x E) d ?ctx f
      | None \<Rightarrow> dx_start (env_dot1x E) d ?ctx) = (d', r)" by fastforce
  have set: "session_ok E (cn_device c) (s \<lparr> se_auth := a \<rparr>)" if "a = Auth_PostAssoc d' \<or> a = Auth_Running" for a
    using that ok d by (elim disjE) (simp_all add: session_ok_def rsn_needed_def)
  let ?c1 = "c \<lparr> cn_session := Some (s \<lparr> se_auth := Auth_PostAssoc d' \<rparr>) \<rparr>"
  let ?c2 = "c \<lparr> cn_session := Some (s \<lparr> se_auth := Auth_Running \<rparr>) \<rparr>"
  have c1: "conn_ok E ?c1" using inv set t st by (intro conn_ok_set_session) simp_all
  then have quiet_send: "post E c (?c1, [Ac_SendEapol x])" "post E c (?c1, [])" for x
    by (simp_all add: post_def timed_def action_ok_def)
  have failed: "post E c (conn_fail f ?c1)" for f by (rule post_from[OF conn_fail_post]) simp
  have "returns E ?c2 (conn_start_handshake rnd pmk ?c2)" for pmk
    using t set ok d by (intro conn_start_handshake_returns[where s = "s \<lparr> se_auth := Auth_Running \<rparr>"])
      (simp_all add: session_ok_def rsn_needed_def)
  then have finished: "returns E c (conn_start_handshake rnd pmk ?c2)" for pmk
    by (rule returns_from) simp
  show ?thesis
    unfolding conn_drive_dot1x_def t s prod.case option.case d auth.case Let_def p
    using quiet_send failed finished by (simp split: sum.split pstep.split)
next
  case False
  then show ?thesis using inv
    by (auto simp: conn_drive_dot1x_def post_skip split: option.split auth.split)
qed

lemma conn_on_eapol_returns:
  assumes E: "env_ok E" and inv: "conn_ok E c"
  shows "returns E c (conn_on_eapol E rnd frame c)"
  using conn_poll_handshake_returns[OF E inv] conn_drive_dot1x_returns[OF inv] post_skip[OF inv]
  by (simp add: conn_on_eapol_def split: sum.split packet_type.split)

lemma conn_on_associated_returns:
  assumes inv: "conn_ok E c"
  shows "returns E c (conn_on_associated E rnd c)"
proof (cases "cn_session c")
  case None
  then show ?thesis using inv by (simp add: conn_on_associated_def post_skip)
next
  case (Some s)
  have ok: "session_ok E (cn_device c) s" and t: "cn_target c \<noteq> None"
    using inv Some by (simp_all add: conn_ok_def)
  let ?c = "\<lambda>a. c \<lparr> cn_session := Some (s \<lparr> se_auth := a \<rparr>) \<rparr>"
  have fail: "post E c (conn_fail f (?c a))" for f a by (rule post_from[OF conn_fail_post]) simp
  show ?thesis
  proof (cases "se_auth s")
    case (Auth_Ready pmk)
    have "returns E (?c Auth_Running) (conn_start_handshake rnd pmk (?c Auth_Running))"
      using t ok Auth_Ready
      by (intro conn_start_handshake_returns[where s = "s \<lparr> se_auth := Auth_Running \<rparr>"])
        (simp_all add: session_ok_def rsn_needed_def)
    then have "returns E c (conn_start_handshake rnd pmk (?c Auth_Running))" by (rule returns_from) simp
    then show ?thesis using Some Auth_Ready by (simp add: conn_on_associated_def)
  next
    case (Auth_PostAssoc d)
    let ?c' = "fst (conn_enter Cs_Handshaking c)"
    have "returns E ?c' (conn_drive_dot1x E rnd None ?c')"
      using conn_ok_enter[OF inv] by (intro conn_drive_dot1x_returns) (simp_all add: conn_enter_eq)
    then have "returns E c (emit_then (Some (conn_enter Cs_Handshaking c)) (conn_drive_dot1x E rnd None))"
      by (subst prod.collapse[symmetric], intro returns_then timed_enter plain_enter)
    moreover have "?c (Auth_PostAssoc d) = c"
      using Some Auth_PostAssoc by (cases c, cases s) simp
    ultimately show ?thesis
      unfolding conn_on_associated_def Some option.case Let_def Auth_PostAssoc auth.case by simp
  next
    case Auth_Open
    have "?c Auth_Open = c" using Some Auth_Open by (cases c, cases s) simp
    then show ?thesis using conn_configured_post[OF inv]
      unfolding conn_on_associated_def Some option.case Let_def Auth_Open auth.case by simp
  next
    case (Auth_Offloaded off)
    have "session_ok E (cn_device c) (s \<lparr> se_auth := Auth_Open \<rparr>)"
      using ok Auth_Offloaded by (auto simp: session_ok_def rsn_needed_def)
    then have "conn_ok E (?c Auth_Open)" using inv t Some Auth_Offloaded by (auto simp: conn_ok_def must_run_def)
    from conn_configured_post[OF this] have "post E c (conn_configured (?c Auth_Open))"
      by (rule post_from) simp
    then show ?thesis using Some Auth_Offloaded by (simp add: conn_on_associated_def)
  qed (use Some fail in \<open>simp_all add: conn_on_associated_def\<close>)
qed

section \<open>Events, timers and the poll\<close>

lemma conn_on_wireless_returns:
  assumes E: "env_ok E" and inv: "conn_ok E c"
  shows "returns E c (conn_on_wireless E rnd ev c)"
proof -
  have "post E c (c, [Ac_FetchScanResults n])" for n
    using inv by (simp add: post_def timed_def action_ok_def)
  then show ?thesis
    using post_skip[OF inv] conn_fail_post[of E c] conn_on_associated_returns[OF inv]
      conn_drive_sae_returns[OF E inv]
    by (simp add: conn_on_wireless_def split: event.split connect_status.split option.split)
qed

lemma conn_on_timer_returns:
  assumes E: "env_ok E" and inv: "conn_ok E c"
  shows "returns E c (conn_on_timer E i c)"
  using post_skip[OF inv] conn_fail_post[of E c] conn_drive_sae_returns[OF E inv] conn_poll_handshake_returns[OF E inv]
    conn_start_scan_post[of c E] inv
  by (cases i; cases "cn_state c") (simp_all add: conn_on_timer_def conn_ok_def)

lemma conn_poll_returns:
  assumes E: "env_ok E" and inv: "conn_ok E c"
  shows "returns E c (conn_poll E c ri)"
proof -
  obtain rnd i where ri: "ri = (rnd, i)" by fastforce
  show ?thesis
    using conn_on_command_returns[OF E inv] conn_on_wireless_returns[OF E inv] conn_on_eapol_returns[OF E inv]
      conn_on_timer_returns[OF E inv] conn_select_returns[OF E inv] conn_consider_roam_returns[OF E inv]
      post_skip[OF inv] conn_on_lease_post[OF inv]
    by (simp add: ri conn_poll_def conn_on_scan_results_def split: conn_input.split conn_state.split)
qed

lemma conn_ok_new [simp]: "conn_ok E (conn_new dev ps)"
  by (simp add: conn_ok_def conn_new_def must_run_def)

interpretation conn_machine: polled_machine "conn_poll E" "\<lambda>c. env_ok E \<and> conn_ok E c" "\<lambda>_. True" for E
proof unfold_locales
  fix c i assume "env_ok E \<and> conn_ok E c"
  then have "returns E c (conn_poll E c i)" using conn_poll_returns by blast
  then show "\<exists>c' out. conn_poll E c i = Some (c', out) \<and> env_ok E \<and> conn_ok E c'"
    using \<open>env_ok E \<and> conn_ok E c\<close> by (auto simp: returns_def post_def split: option.splits)
qed

end
