(* ===== verification/Conn_Effects.thy ===== *)
theory Conn_Effects
  imports Conn_Link
begin

text \<open>
  Two more facts about every handler of the connection (\<^verbatim>\<open>src/crates/caw-core/src/conn.rs\<close>), beside
  its invariant: which handlers leave the timers exactly set (\<open>settles\<close>), and which ones can push
  keys or start address configuration (\<open>calm\<close> marks the actions of those that cannot).
\<close>

section \<open>Keys and addresses\<close>

definition calm :: "action \<Rightarrow> bool" where
  "calm a \<longleftrightarrow> (case a of Ac_InstallKeys _ \<Rightarrow> False | Ac_StartDhcp \<Rightarrow> False | _ \<Rightarrow> True)"

definition calmly :: "(('sc, 'pt, 'd) conn \<times> action list) option \<Rightarrow> bool" where
  "calmly r \<longleftrightarrow> (case r of None \<Rightarrow> True | Some (c, out) \<Rightarrow> list_all calm out)"

lemma calmly_simps [simp]: "calmly None" "calmly (Some p) \<longleftrightarrow> list_all calm (snd p)"
  by (simp_all add: calmly_def case_prod_unfold)

lemma calmly_then [intro]: "list_all calm o1 \<Longrightarrow> calmly (k c1) \<Longrightarrow> calmly (emit_then (Some (c1, o1)) k)"
  by (cases "k c1") auto

lemma calm_enter [simp]: "list_all calm (snd (conn_enter st c))"
  by (auto simp: conn_enter_eq calm_def split: option.split)

lemma calm_disarm [simp]: "list_all calm (snd (conn_disarm c))"
  by (auto simp: conn_disarm_eq calm_def split: option.split)

lemma calm_fail [simp]: "list_all calm (snd (conn_fail f c))"
  by (cases rule: conn_fail_cases[of f c])
    (simp_all add: conn_fail_retry conn_fail_stop, simp_all add: calm_def)

lemma calm_start_scan [simp]: "list_all calm (snd (conn_start_scan c))"
  by (simp add: conn_start_scan_eq) (simp add: calm_def)

lemma calm_go_idle [simp]: "list_all calm (snd (conn_go_idle c))"
  by (auto simp: conn_go_idle_def conn_disarm_eq calm_def split: option.split)

lemma calm_arm [simp]: "list_all calm (snd (conn_arm i ms c))"
  by (simp add: conn_arm_def calm_def)

lemma calm_associate [simp]: "calmly (conn_associate c)"
  using calm_enter
  by (auto simp: conn_associate_def conn_arm_def calm_def conn_enter_eq Let_def split: option.splits prod.splits)

lemma calm_on_sae_step [simp]: "calmly (conn_on_sae_step r c)"
  by (auto simp: conn_on_sae_step_def conn_arm_def Let_def split: sum.split pstep.split option.split)
    (simp_all add: calm_def)

lemma calm_drive_sae [simp]: "calmly (conn_drive_sae E ev c)"
  by (simp add: conn_drive_sae_def Let_def split: option.split auth.split prod.split)

lemma calm_plan [simp]: "calmly (conn_plan E rnd b roaming c)"
proof -
  have "calmly (conn_start_sae E c)" for c
    unfolding conn_start_sae_def by (subst prod.collapse[symmetric], rule calmly_then) simp_all
  moreover have "calmly (emit_then (Some (conn_disarm c)) (\<lambda>c. Some (c \<lparr> cn_pending := Some b \<rparr>, [Ac_RequestSecret (conn_ssid_bytes c)])))"
    by (subst prod.collapse[symmetric], rule calmly_then) (simp_all, simp add: calm_def)
  ultimately show ?thesis
    by (simp add: conn_plan_def Let_def split: sum.split option.split)
qed

lemma calm_on_scan_results [simp]: "calmly (conn_on_scan_results E rnd scan c)"
  by (simp add: conn_on_scan_results_def conn_select_def conn_consider_roam_def Let_def
      split: conn_state.split option.split sum.split prod.split)

lemma calm_on_command [simp]: "calmly (conn_on_command E rnd cmd c)"
proof (cases cmd)
  case (Cmd_Connect ssid)
  show ?thesis unfolding Cmd_Connect conn_on_command_def command.case Let_def
    by (rule calmly_then) (simp_all, simp add: calm_def)
next
  case Cmd_Disconnect
  show ?thesis unfolding Cmd_Disconnect conn_on_command_def command.case
    by (rule calmly_then) (simp_all, simp add: calm_def)
qed (simp_all add: conn_on_command_def Let_def split: option.split)

lemma calm_start_handshake [simp]: "calmly (conn_start_handshake rnd pmk c)"
  by (simp add: conn_start_handshake_def split: option.split)

lemma calm_drive_dot1x [simp]: "calmly (conn_drive_dot1x E rnd frame c)"
  by (simp add: conn_drive_dot1x_def Let_def split: option.split auth.split sum.split pstep.split prod.split)
    (simp add: calm_def)

section \<open>Timers set exactly\<close>

definition settles :: "('sc, 'pt, 'd) conn \<Rightarrow> (('sc, 'pt, 'd) conn \<times> action list) option \<Rightarrow> bool" where
  "settles c r \<longleftrightarrow> (case r of None \<Rightarrow> True | Some (c', out) \<Rightarrow> retimed c out c')"

lemma settles_simps [simp]: "settles c None" "settles c (Some p) \<longleftrightarrow> retimed c (snd p) (fst p)"
  by (simp_all add: settles_def case_prod_unfold)

lemma settles_then: "timed c o1 c1 \<Longrightarrow> settles c1 (k c1) \<Longrightarrow> settles c (emit_then (Some (c1, o1)) k)"
  by (cases "k c1") (auto simp: timed_retimed)

lemma settles_from: "settles c1 r \<Longrightarrow> cn_armed c1 = cn_armed c \<Longrightarrow> settles c r"
  by (cases r) (simp_all add: retimed_def)

lemma settles_associate: "settles c (conn_associate c)"
proof -
  have "settles c (emit_then (Some (conn_enter Cs_Associating (c \<lparr> cn_session := s \<rparr>)))
      (\<lambda>c. emit_then (Some (c, [Ac_Associate r])) (\<lambda>c. Some (conn_arm AssocTimeout ASSOC_TIMEOUT_MS c))))" for s r
  proof -
    let ?c = "c \<lparr> cn_session := s \<rparr>"
    let ?c' = "(fst (conn_enter Cs_Associating ?c)) \<lparr> cn_armed := Some AssocTimeout \<rparr>"
    have "retimed ?c (snd (conn_enter Cs_Associating ?c) @ [Ac_SetTimer AssocTimeout ASSOC_TIMEOUT_MS]) ?c'"
      by (rule enter_arm) (simp add: timer_of_def)
    then have "retimed c (snd (conn_enter Cs_Associating ?c) @ [Ac_Associate r, Ac_SetTimer AssocTimeout ASSOC_TIMEOUT_MS]) ?c'"
      by (simp add: retimed_def)
    then show ?thesis by (simp add: conn_enter_eq conn_arm_def)
  qed
  then show ?thesis
    by (simp add: conn_associate_def Let_def split: option.split prod.split del: emit_then_simps)
qed

lemma settles_associate_from: "settles c (conn_associate (c \<lparr> cn_session := s \<rparr>))"
  by (rule settles_from[OF settles_associate]) simp

lemma settles_on_sae_step:
  assumes "cn_armed c = None \<or> cn_armed c = Some AuthTimeout" "r \<noteq> Inr Step_Wait"
  shows "settles c (conn_on_sae_step r c)"
proof -
  have "retimed c [Ac_Authenticate q, Ac_SetTimer AuthTimeout AUTH_TIMEOUT_MS] (c \<lparr> cn_armed := Some AuthTimeout \<rparr>)" for q
    using assms(1) by (auto simp: retimed_def)
  then show ?thesis
    using assms(2) by (simp add: conn_on_sae_step_def conn_arm_def retimed_fail settles_associate_from Let_def
        split: sum.split pstep.split option.split)
qed

lemma settles_start_sae:
  assumes "cn_target c = Some t" "cn_session c = Some s" "se_auth s = Auth_PreAssoc (sae_new pw seed)"
  shows "settles c (conn_start_sae E c)"
proof -
  let ?c = "fst (conn_enter Cs_Authenticating c)"
  let ?ctx = "auth_context (tg_ssid t) (se_choice s) (dev_mac (cn_device c))"
  have "settles ?c (conn_drive_sae E Se_Start ?c)"
  proof (cases "sae_start (env_prims E) (env_group E) (sae_new pw seed) ?ctx")
    case None
    then show ?thesis using assms by (simp add: conn_drive_sae_def conn_enter_eq)
  next
    case (Some pr)
    obtain p r where pr: "pr = (p, r)" by fastforce
    have "r \<noteq> Inr Step_Wait" using sae_start_waiting[OF Some[unfolded pr]] by auto
    then have "settles (?c \<lparr> cn_session := x \<rparr>) (conn_on_sae_step r (?c \<lparr> cn_session := x \<rparr>))" for x
      by (intro settles_on_sae_step) (simp_all add: conn_enter_eq timer_of_def)
    then have "settles ?c (conn_on_sae_step r (?c \<lparr> cn_session := x \<rparr>))" for x
      by (rule settles_from) simp
    then show ?thesis using assms Some pr by (simp add: conn_drive_sae_def conn_enter_eq)
  qed
  then show ?thesis unfolding conn_start_sae_def
    by (subst prod.collapse[symmetric]) (rule settles_then[OF timed_enter])
qed

lemma settles_plan:
  assumes t: "cn_target c = Some t"
  shows "settles c (conn_plan E rnd b roaming c) \<or> roaming \<and> conn_plan E rnd b roaming c = Some (c, [])"
proof -
  let ?cred = "conn_credential (bss_rsn b = None) c"
  show ?thesis
  proof (cases "conn_evaluate E b ?cred roaming c")
    case (Inl f)
    then show ?thesis by (simp add: conn_plan_def retimed_fail)
  next
    case (Inr ch)
    show ?thesis
    proof (cases ?cred)
      case None
      have "settles c (emit_then (Some (conn_disarm c)) (\<lambda>c. Some (c \<lparr> cn_pending := Some b \<rparr>, [Ac_RequestSecret (conn_ssid_bytes c)])))"
        using retimed_disarm[of c] by (simp add: conn_disarm_eq retimed_def)
      then show ?thesis using Inr None by (simp add: conn_plan_def retimed_fail del: emit_then_simps)
    next
      case (Some cred)
      let ?ctx = "auth_context (conn_ssid_bytes c) ch (dev_mac (cn_device c))"
      let ?asm = "case ch_rsn ch of None \<Rightarrow> Inr Auth_Open
        | Some _ \<Rightarrow> assemble E rnd (ac_akm ?ctx) cred (dev_caps (cn_device c)) ?ctx"
      show ?thesis
      proof (cases ?asm)
        case (Inl f)
        then show ?thesis using Inr Some by (simp add: conn_plan_def retimed_fail)
      next
        case a: (Inr a)
        let ?s = "\<lparr> se_choice = ch, se_auth = a, se_pmkid = None, se_assoc_ie = [], se_handshake = None \<rparr>"
        let ?c1 = "c \<lparr> cn_session := Some ?s \<rparr>"
        have new: "\<exists>pw. p = sae_new pw (rn_seed rnd)" if "a = Auth_PreAssoc p" for p
          using a that by (auto split: option.splits dest!: assemble_InrD)
        have sae: "settles c (conn_start_sae E ?c1)" if p: "a = Auth_PreAssoc p" for p
        proof -
          obtain pw where "a = Auth_PreAssoc (sae_new pw (rn_seed rnd))" using new[OF p] p by blast
          then have "settles ?c1 (conn_start_sae E ?c1)" using t by (intro settles_start_sae[of ?c1 t ?s]) simp_all
          then show ?thesis by (rule settles_from) simp
        qed
        show ?thesis using Inr Some a sae settles_associate_from[of c "Some ?s"]
          by (cases a) (auto simp: conn_plan_def)
      qed
    qed
  qed
qed

text \<open>Handlers that settle the timers or leave a state that needs none.\<close>

definition lands :: "('sc, 'pt, 'd) conn \<Rightarrow> (('sc, 'pt, 'd) conn \<times> action list) option \<Rightarrow> bool" where
  "lands c r \<longleftrightarrow> (case r of None \<Rightarrow> True | Some (c', out) \<Rightarrow> retimed c out c' \<or> \<not> must_run c')"

lemma lands_simps [simp]:
  "lands c None" "lands c (Some p) \<longleftrightarrow> retimed c (snd p) (fst p) \<or> \<not> must_run (fst p)"
  by (simp_all add: lands_def case_prod_unfold)

lemma settles_lands: "settles c r \<Longrightarrow> lands c r"
  by (cases r) simp_all

lemma lands_from: "lands c1 r \<Longrightarrow> cn_armed c1 = cn_armed c \<Longrightarrow> lands c r"
  by (cases r) (auto simp: retimed_def)

definition keyed_state :: "conn_state \<Rightarrow> bool" where
  "keyed_state st \<longleftrightarrow> st = Cs_Handshaking \<or> st = Cs_Connected \<or> st = Cs_Configuring"

lemma keyed_not_must_run: "keyed_state (cn_state c) \<Longrightarrow> \<not> must_run c"
  by (auto simp: keyed_state_def must_run_def)

lemma keyed_configured: "keyed_state (cn_state (fst (conn_configured c)))"
  by (simp add: conn_configured_def conn_enter_eq keyed_state_def)

lemma keyed_hs_actions:
  "keyed_state (cn_state c) \<Longrightarrow> conn_hs_actions acts b c = Some (c', out) \<Longrightarrow> keyed_state (cn_state c')"
proof (induction acts arbitrary: b c out)
  case Nil
  then show ?case using keyed_configured[of c] by (auto split: if_splits)
next
  case (Cons a acts)
  then show ?case
    using Cons.IH[of "c \<lparr> cn_armed := Some HandshakeRetry \<rparr>"] Cons.IH[of "c \<lparr> cn_armed := None \<rparr>"] Cons.IH[of c]
    by (auto simp: conn_arm_def conn_disarm_eq split: fw_action.splits option.splits)
qed

lemma lands_handshake_actions:
  assumes "keyed_state (cn_state c)"
  shows "lands c (conn_on_handshake_actions r c)"
  by (cases r; cases "conn_hs_actions (projr r) False c")
    (auto simp: conn_on_handshake_actions_def retimed_fail dest!: keyed_hs_actions[OF assms] dest: keyed_not_must_run)

lemma lands_poll_handshake:
  assumes "keyed_state (cn_state c)"
  shows "lands c (conn_poll_handshake E i c)"
proof -
  have "lands c (conn_on_handshake_actions r (c \<lparr> cn_session := s \<rparr>))" for r s
    using assms by (intro lands_from[OF lands_handshake_actions]) simp_all
  then show ?thesis using keyed_not_must_run[OF assms]
    by (simp add: conn_poll_handshake_def split: option.split prod.split)
qed

lemma lands_start_handshake: "lands c (conn_start_handshake rnd pmk (c \<lparr> cn_session := s \<rparr>))"
proof -
  have "lands (c \<lparr> cn_session := s \<rparr>) (conn_start_handshake rnd pmk (c \<lparr> cn_session := s \<rparr>))"
    by (simp add: conn_start_handshake_def retimed_fail must_run_def conn_enter_eq split: option.split)
  then show ?thesis by (rule lands_from) simp
qed

lemma lands_drive_dot1x:
  assumes "keyed_state (cn_state c)"
  shows "lands c (conn_drive_dot1x E rnd frame c)"
proof -
  have "retimed c (snd (conn_fail f (c \<lparr> cn_session := s \<rparr>))) (fst (conn_fail f (c \<lparr> cn_session := s \<rparr>)))" for f s
    using retimed_fail[of "c \<lparr> cn_session := s \<rparr>" f] by (simp add: retimed_def)
  moreover have "\<not> must_run (c \<lparr> cn_session := s \<rparr>)" for s
    using keyed_not_must_run[OF assms] by (simp add: must_run_def)
  ultimately show ?thesis using keyed_not_must_run[OF assms]
    by (simp add: conn_drive_dot1x_def Let_def lands_start_handshake
        split: option.split auth.split sum.split pstep.split prod.split)
qed

lemma lands_on_eapol: "\<not> must_run c \<Longrightarrow> lands c (conn_on_eapol E rnd frame c)"
  using lands_poll_handshake[of c E] lands_drive_dot1x[of c E rnd]
  by (auto simp: conn_on_eapol_def keyed_state_def split: sum.split packet_type.split)

lemma lands_on_scan_results:
  assumes "\<not> must_run c"
  shows "lands c (conn_on_scan_results E rnd scan c)"
proof -
  have plan: "lands c (conn_plan E rnd b roaming c1)"
    if "cn_target c1 = Some t" "cn_armed c1 = cn_armed c" "c1 = c \<or> \<not> roaming" for b roaming c1 t
    using settles_plan[OF that(1), of E rnd b roaming]
  proof (elim disjE conjE)
    assume "settles c1 (conn_plan E rnd b roaming c1)"
    then show ?thesis using that(2) by (blast intro: settles_lands settles_from)
  qed (use that(3) assms in simp)
  have "lands c (conn_select E rnd scan c)"
    using plan by (simp add: conn_select_def retimed_fail Let_def split: option.split sum.split prod.split)
  moreover have "lands c (conn_consider_roam E rnd scan c)" if "cn_state c = Cs_Connected"
    using plan that by (simp add: conn_consider_roam_def Let_def must_run_def split: option.split)
  ultimately show ?thesis using assms by (simp add: conn_on_scan_results_def split: conn_state.split)
qed

lemma lands_on_command:
  assumes "\<not> must_run c"
  shows "lands c (conn_on_command E rnd cmd c)"
proof (cases cmd)
  case (Cmd_Connect ssid)
  have "settles c (Some (conn_start_scan (c \<lparr> cn_target := tg, cn_session := None, cn_pending := None, cn_attempts := 0 \<rparr>)))" for tg
    using retimed_start_scan[of "c \<lparr> cn_target := tg, cn_session := None, cn_pending := None, cn_attempts := 0 \<rparr>"]
    by (simp add: retimed_def)
  then show ?thesis unfolding Cmd_Connect conn_on_command_def command.case Let_def
    by (intro settles_lands settles_then) (simp_all add: timed_def)
next
  case Cmd_Autoconnect
  show ?thesis
    using retimed_start_scan[of "c \<lparr> cn_target := None, cn_session := None, cn_pending := None, cn_attempts := 0 \<rparr>"]
      assms by (simp add: Cmd_Autoconnect conn_on_command_def retimed_def)
next
  case (Cmd_Secret x)
  have "settles c (conn_plan E rnd b False (c \<lparr> cn_target := Some t, cn_pending := None \<rparr>))" for t b
    using settles_plan[of "c \<lparr> cn_target := Some t, cn_pending := None \<rparr>" t E rnd b False]
    by (auto intro: settles_from)
  then show ?thesis using assms
    by (auto simp: Cmd_Secret conn_on_command_def must_run_def Let_def intro: settles_lands split: option.split)
qed (simp add: conn_on_command_def conn_go_idle_def conn_disarm_eq must_run_def)

lemma lands_on_lease: "\<not> must_run c \<Longrightarrow> lands c (Some (conn_on_lease ev c))"
  by (auto simp: conn_on_lease_def conn_save_profile_def conn_insert_profile_def conn_enter_eq must_run_def
      retimed_fail Let_def split: lease_event.split option.split)

lemma lands_on_wireless: "\<not> must_run c \<Longrightarrow> lands c (conn_on_wireless E rnd ev c)"
  by (auto simp: conn_on_wireless_def retimed_fail must_run_def split: event.split option.split)

end
