(* ===== verification/Conn_Props.thy ===== *)
theory Conn_Props
  imports Conn_Effects
begin

text \<open>
  The properties of the connection state machine (\<^verbatim>\<open>src/crates/caw-core/src/conn.rs\<close>), read off the
  lemmas of \<open>Conn_Inv\<close>, \<open>Conn_Link\<close> and \<open>Conn_Effects\<close>.
\<close>

section \<open>An environment\<close>

text \<open>A concrete environment: the example primitives and group, and no 802.1X.\<close>

definition toy_env :: "(u8, u8, unit) env" where
  "toy_env = \<lparr> env_prims = toy_prims, env_group = toy_group, env_enterprise = False,
     env_dot1x = \<lparr> dx_build = (\<lambda>i a n m ca. Inl ''''), dx_start = (\<lambda>d ctx. (d, Inr Step_Wait)),
                   dx_on_frame = (\<lambda>d ctx f. (d, Inr Step_Wait)) \<rparr> \<rparr>"

lemma toy_sae_starts: "sae_start toy_prims toy_group (sae_new pw seed) ctx \<noteq> None"
proof -
  have inj: "m = 0" if "3 * m = 0" for m :: u8
  proof -
    have "(171 :: u8) * 3 = 1" by simp
    then have "171 * (3 * m) = m" by (simp only: mult.assoc[symmetric] mult_1_left)
    then show ?thesis using that by simp
  qed
  obtain r m where rm: "commit_scalars toy_group seed = (r, m)" by fastforce
  then have "m \<noteq> 0" by (auto simp: commit_scalars_def scalar_from_def toy_group_def Let_def split: if_splits)
  then have "- (3 * m) \<noteq> 0" using inj by auto
  then have "\<exists>eb. encode_element toy_group (g_neg toy_group (g_mul toy_group 3 m)) = Some eb"
    by (simp add: encode_element_def toy_group_def)
  then show ?thesis
    using toy_pwe rm by (auto simp: sae_start_def sae_new_def sae_commit_frame_def Let_def)
qed

lemma toy_env_ok [simp]: "env_ok toy_env"
  using toy_sae_starts by (simp add: env_ok_def toy_env_def)

definition example_device :: device where
  "example_device = \<lparr> dev_ifindex = 3, dev_mac = [0, 0, 0, 0, 0, 1],
     dev_caps = \<lparr> dc_offloads_4way_psk = False, dc_offloads_4way_1x = False, dc_offloads_sae = False \<rparr> \<rparr>"

definition example_rnd :: rnd where
  "example_rnd = \<lparr> rn_seed = replicate 96 7, rn_snonce = Some (replicate 32 8) \<rparr>"

definition example_bss :: bss where
  "example_bss = (bss_example [65] (-50)) \<lparr> bss_security := Sec_Wpa2Personal, bss_rsn := Some ((rsn_example [Psk]) \<lparr> rsn_raw := [48, 2, 1, 0] \<rparr>) \<rparr>"

definition example_profile :: profile where
  "example_profile = profile_new [65] Sec_Wpa2Personal (Cred_Passphrase [1])"

definition example_conn :: "(u8, u8, unit) conn" where
  "example_conn = conn_new example_device [example_profile]"

definition example_lease :: lease where
  "example_lease = \<lparr> ls_addr = 0xc0a8010a, ls_prefix_len = 24, ls_gateway = Some 0xc0a80101, ls_dns = [], ls_server = 0xc0a80101,
     ls_lease_secs = 3600, ls_renew_secs = 1800, ls_rebind_secs = 3150 \<rparr>"

lemmas conn_simps = conn_poll_def conn_on_command_def conn_on_scan_results_def conn_select_def conn_plan_def
  conn_evaluate_def conn_associate_def conn_start_scan_def conn_enter_eq conn_disarm_eq conn_arm_def conn_credential_def
  conn_profile_def conn_new_def negotiate_def assemble_def auth_context_def conn_ssid_bytes_def
  assoc_take_offload_def timer_of_def best_bss_def

lemmas example_defs = example_conn_def example_device_def example_rnd_def example_bss_def example_profile_def
  toy_env_def bss_example_def rsn_example_def profile_new_def

lemma example_scan:
  "\<exists>c r. run_machine (conn_poll toy_env) example_conn
     [(example_rnd, In_Command (Cmd_Connect [65])), (example_rnd, In_ScanResults [example_bss])] = Some (c,
       [Ac_Notify Cs_Scanning, Ac_TriggerScan 3, Ac_SetTimer ScanTimeout SCAN_TIMEOUT_MS, Ac_ClearTimer ScanTimeout,
        Ac_Notify Cs_Associating, Ac_Associate r, Ac_SetTimer AssocTimeout ASSOC_TIMEOUT_MS]) \<and>
     cn_state c = Cs_Associating \<and> (\<exists>s pmk. cn_session c = Some s \<and> se_auth s = Auth_Ready pmk)"
  by (simp add: conn_simps example_defs choose_akm_def choose_pairwise_def satisfies_def runnable_def AKM_PREFERENCE_def
    akm_is_psk_def akm_is_sae_def profile_accepts_def is_at_least_def strength_def negotiated_security_def security_floor_def
    psk_start_def assoc_element_def srsn_encode_def length_srsn_body Let_def)

section \<open>Totality\<close>

lemma conn_run_ok:
  assumes "env_ok E"
  shows "\<exists>c out. run_machine (conn_poll E) (conn_new dev ps) is = Some (c, out) \<and> conn_ok E c"
  using conn_machine.run_ok[of E "conn_new dev ps" "is"] assms by (simp add: list_all_iff conn_ok_new)

lemma conn_run_inv:
  assumes "env_ok E" "run_machine (conn_poll E) (conn_new dev ps) is = Some (c, out)"
  shows "conn_ok E c"
  using conn_run_ok[OF assms(1), of dev ps "is"] assms(2) by auto

lemma conn_poll_post:
  assumes "env_ok E" "conn_ok E c" "conn_poll E c ri = Some (c', out)"
  shows "post E c (c', out)"
  using conn_poll_returns[OF assms(1,2), of ri] assms(3) by simp

text \<open>
  The connection never panics: from its construction, any sequence of commands, kernel
  events, scan results, EAPOL frames, lease reports and timers, in any order and with any
  randomness, is answered without reaching an \<^verbatim>\<open>expect\<close>; and it ends in a state where a session
  implies a target, an SAE exchange is only waited for while one is under way, and the only timer
  tracked is the state's own.
\<close>

theorem conn_total:
  assumes "env_ok E"
  shows "\<exists>c out. run_machine (conn_poll E) (conn_new dev ps) is = Some (c, out) \<and>
    (cn_session c \<noteq> None \<longrightarrow> cn_target c \<noteq> None) \<and>
    (cn_state c = Cs_Authenticating \<longrightarrow>
       (\<exists>s p. cn_session c = Some s \<and> se_auth s = Auth_PreAssoc p \<and> sae_waiting p)) \<and>
    (cn_armed c = None \<or> cn_armed c = timer_of (cn_state c))"
proof -
  obtain c out where r: "run_machine (conn_poll E) (conn_new dev ps) is = Some (c, out)" and ok: "conn_ok E c"
    using conn_run_ok[OF assms] by blast
  have "cn_session c \<noteq> None \<longrightarrow> cn_target c \<noteq> None" using ok by (auto simp: conn_ok_def)
  then show ?thesis using r ok by (simp add: conn_ok_def)
qed

theorem conn_total_witness:
  "\<exists>c out. run_machine (conn_poll toy_env) example_conn
     [(example_rnd, In_Command (Cmd_Connect [65])), (example_rnd, In_Lease Le_Failed),
      (example_rnd, In_Eapol [1, 2, 3])] = Some (c, out)"
  unfolding example_conn_def using conn_total[OF toy_env_ok] by blast

section \<open>Timers\<close>

text \<open>
  The daemon beside the connection: it runs the timers it was told to set and not to clear, and a
  timer that fires has stopped running.
\<close>

definition fired :: "conn_input \<Rightarrow> timer_id set \<Rightarrow> timer_id set" where
  "fired i w = (case i of In_Timer t \<Rightarrow> w - {t} | _ \<Rightarrow> w)"

definition wheel_step ::
  "('sc, 'pt, 'd) env \<Rightarrow> ('sc, 'pt, 'd) conn \<times> timer_id set \<Rightarrow> rnd \<times> conn_input \<Rightarrow>
   ((('sc, 'pt, 'd) conn \<times> timer_id set) \<times> action list) option" where
  "wheel_step E cw ri =
     map_option (\<lambda>(c', out). ((c', timers_after out (fired (snd ri) (snd cw))), out)) (conn_poll E (fst cw) ri)"

lemma lands_on_timer:
  assumes inv: "conn_ok E c" and lost: "must_run c \<longrightarrow> cn_armed c = Some i"
  shows "lands c (conn_on_timer E i c)"
proof -
  have hs: "lands c (conn_poll_handshake E Fw_Timeout c)" if "cn_state c = Cs_Handshaking \<or> cn_state c = Cs_Connected"
    using lands_poll_handshake[of c E Fw_Timeout] that by (auto simp: keyed_state_def)
  have sae: "settles c (conn_drive_sae E Se_Timeout c)" if st: "cn_state c = Cs_Authenticating"
  proof -
    obtain s p where s: "cn_session c = Some s" "se_auth s = Auth_PreAssoc p" "sae_waiting p"
      and armed: "cn_armed c = Some AuthTimeout" and t: "cn_target c \<noteq> None" and pi: "sae_inv p"
      using inv st by (auto simp: conn_ok_def must_run_def timer_of_def session_ok_def)
    obtain p' r where f: "sae_on_timeout p = (p', r)" by fastforce
    have "r \<noteq> Inr Step_Wait" using sae_timeout_waiting[OF s(3) pi f] by auto
    then have "settles c (conn_on_sae_step r (c \<lparr> cn_session := x \<rparr>))" for x
      by (intro settles_from[OF settles_on_sae_step]) (simp_all add: armed)
    then show ?thesis using s t f by (auto simp: conn_drive_sae_def)
  qed
  show ?thesis
    using hs settles_lands[OF sae] retimed_fail[of c] retimed_start_scan[of c] lost inv
    by (cases i; cases "cn_state c") (simp_all add: conn_on_timer_def must_run_def conn_ok_def timer_of_def)
qed

lemma conn_poll_lands:
  assumes inv: "conn_ok E c" and lost: "must_run c \<longrightarrow> (\<exists>i. snd ri = In_Timer i \<and> cn_armed c = Some i)"
  shows "lands c (conn_poll E c ri)"
proof (cases "must_run c")
  case True
  then show ?thesis using lost lands_on_timer[OF inv] by (auto simp: conn_poll_def split: prod.split)
next
  case False
  then show ?thesis
    using lands_on_timer[OF inv] lands_on_lease[of c]
    by (simp add: lands_on_command lands_on_wireless lands_on_scan_results lands_on_eapol conn_poll_def split: prod.split conn_input.split)
qed

definition wheel_ok :: "('sc, 'pt, 'd) conn \<Rightarrow> timer_id set \<Rightarrow> bool" where
  "wheel_ok c w \<longleftrightarrow> w \<subseteq> set_option (cn_armed c) \<and> (must_run c \<longrightarrow> w = set_option (cn_armed c))"

lemma wheel_ok_new: "wheel_ok (conn_new dev ps) {}"
  by (simp add: wheel_ok_def conn_new_def must_run_def)

lemma wheel_ok_poll:
  assumes E: "env_ok E" and inv: "conn_ok E c" and w: "wheel_ok c w" and p: "conn_poll E c ri = Some (c', out)"
  shows "wheel_ok c' (timers_after out (fired (snd ri) w))"
proof -
  have t: "timed c out c'" using conn_poll_post[OF E inv p] by (simp add: post_def)
  have sub: "fired (snd ri) w \<subseteq> set_option (cn_armed c)"
    using w by (auto simp: wheel_ok_def fired_def split: conn_input.splits)
  show ?thesis
  proof (cases "must_run c \<and> \<not> (\<exists>i. snd ri = In_Timer i \<and> cn_armed c = Some i)")
    case True
    then have "fired (snd ri) w = set_option (cn_armed c)"
      using w by (auto simp: wheel_ok_def fired_def split: conn_input.splits)
    then show ?thesis using t by (simp add: wheel_ok_def timed_def)
  next
    case False
    then have "lands c (conn_poll E c ri)" using conn_poll_lands[OF inv] by blast
    then show ?thesis using t sub p by (auto simp: wheel_ok_def timed_def retimed_def)
  qed
qed

interpretation wheel_machine:
  polled_machine "wheel_step E" "\<lambda>cw. env_ok E \<and> conn_ok E (fst cw) \<and> wheel_ok (fst cw) (snd cw)" "\<lambda>_. True" for E
proof unfold_locales
  fix cw :: "('a, 'b, 'c) conn \<times> timer_id set" and ri
  assume a: "env_ok E \<and> conn_ok E (fst cw) \<and> wheel_ok (fst cw) (snd cw)"
  obtain c' out where p: "conn_poll E (fst cw) ri = Some (c', out)" "conn_ok E c'"
    using conn_machine.step_ok[of E "fst cw" ri] a by auto
  then show "\<exists>cw' out. wheel_step E cw ri = Some (cw', out) \<and>
      env_ok E \<and> conn_ok E (fst cw') \<and> wheel_ok (fst cw') (snd cw')"
    using a wheel_ok_poll[of E "fst cw" "snd cw" ri c' out] by (simp add: wheel_step_def)
qed

text \<open>
  C15. The daemon's timers and the machine's agree. After any sequence of inputs no timer runs
  but the one the state waits on, so a transition leaves none behind; and a scan that is not
  waiting for a passphrase, an SAE exchange, an association and a backoff always have their own
  timer running, so none of them can hang.
\<close>

theorem conn_timers:
  assumes "env_ok E"
  shows "\<exists>c w out. run_machine (wheel_step E) (conn_new dev ps, {}) is = Some ((c, w), out) \<and>
    w \<subseteq> set_option (timer_of (cn_state c)) \<and>
    (cn_state c = Cs_Scanning \<and> cn_pending c = None \<longrightarrow> w = {ScanTimeout}) \<and>
    (cn_state c = Cs_Authenticating \<longrightarrow> w = {AuthTimeout}) \<and>
    (cn_state c = Cs_Associating \<longrightarrow> w = {AssocTimeout}) \<and>
    (cn_state c = Cs_Reconnecting \<longrightarrow> w = {ReconnectBackoff})"
proof -
  obtain cw out where r: "run_machine (wheel_step E) (conn_new dev ps, {}) is = Some (cw, out)"
    and ok: "conn_ok E (fst cw)" and w: "wheel_ok (fst cw) (snd cw)"
    using wheel_machine.run_ok[of E "(conn_new dev ps, {})" "is"] assms by (auto simp: list_all_iff conn_ok_new wheel_ok_new)
  obtain c v where cw: "cw = (c, v)" by fastforce
  have "must_run c \<longrightarrow> v = set_option (timer_of (cn_state c))" "v \<subseteq> set_option (timer_of (cn_state c))"
    using ok w cw by (auto simp: conn_ok_def wheel_ok_def)
  then show ?thesis using r cw by (simp add: must_run_def timer_of_def)
qed

theorem conn_timers_witness:
  "\<exists>c w out. run_machine (wheel_step toy_env) (example_conn, {})
     [(example_rnd, In_Command (Cmd_Connect [65])), (example_rnd, In_Timer ScanTimeout)] = Some ((c, w), out) \<and>
     w \<subseteq> set_option (timer_of (cn_state c))"
  unfolding example_conn_def using conn_timers[OF toy_env_ok] by blast

section \<open>Security\<close>

text \<open>
  C1. No downgrade is joined. Whenever an association request goes out, for whatever input and
  after whatever history, it names the target's SSID and the chosen access point; the key
  management it asks for, with management frame protection required when that was negotiated,
  provides a security level that the saved profile of that SSID, if there is one, accepts, and an
  open association counts as open.
\<close>

theorem conn_no_downgrade:
  assumes "env_ok E" "run_machine (conn_poll E) (conn_new dev ps) is = Some (c, out0)"
    "conn_poll E c ri = Some (c', out)" "Ac_Associate r \<in> set out"
  shows "\<exists>t s sec. cn_target c' = Some t \<and> cn_session c' = Some s \<and> cn_state c' = Cs_Associating \<and>
    asr_ssid r = tg_ssid t \<and> asr_bssid r = ch_bssid (se_choice s) \<and>
    (case ch_rsn (se_choice s) of
       None \<Rightarrow> sec = Sec_Open \<and> asr_akms r = []
     | Some n \<Rightarrow> sec = negotiated_security (ng_akm n) (ng_mfp_required n) \<and>
         asr_akms r = [akm_suite (ng_akm n)] \<and>
         (ng_mfp_required n \<longrightarrow> asr_mfp r = Some NL80211_MFP_REQUIRED)) \<and>
    (\<forall>p. find (\<lambda>p. pr_ssid p = tg_ssid t) (cn_profiles c') = Some p \<longrightarrow> profile_accepts p sec)"
proof -
  have po: "post E c (c', out)" by (rule conn_poll_post[OF assms(1) conn_run_inv[OF assms(1,2)] assms(3)])
  then have a: "action_ok c' (Ac_Associate r)" and ok: "conn_ok E c'"
    using assms(4) by (auto simp: post_def list_all_iff)
  obtain t s where ts: "cn_target c' = Some t" "cn_session c' = Some s" "request_for r t (se_choice s)"
      "cn_state c' = Cs_Associating"
    using a by (auto simp: action_ok_def)
  have "accepted c' (se_choice s)" "choice_ok (se_choice s)"
    using ok ts by (auto simp: conn_ok_def session_ok_def)
  then show ?thesis
    using ts by (auto simp: request_for_def accepted_def choice_ok_def conn_profile_def split: option.splits)
qed

theorem conn_no_downgrade_witness:
  "\<exists>c r. run_machine (conn_poll toy_env) example_conn [(example_rnd, In_Command (Cmd_Connect [65]))] =
      Some (c, [Ac_Notify Cs_Scanning, Ac_TriggerScan 3, Ac_SetTimer ScanTimeout SCAN_TIMEOUT_MS]) \<and>
    (\<exists>c' out. conn_poll toy_env c (example_rnd, In_ScanResults [example_bss]) = Some (c', out) \<and>
      Ac_Associate r \<in> set out \<and> cn_state c' = Cs_Associating)"
proof -
  obtain c1 o1 where c1: "run_machine (conn_poll toy_env) example_conn [(example_rnd, In_Command (Cmd_Connect [65]))] =
      Some (c1, o1)" and o1: "o1 = [Ac_Notify Cs_Scanning, Ac_TriggerScan 3, Ac_SetTimer ScanTimeout SCAN_TIMEOUT_MS]"
    by (simp add: conn_simps example_defs)
  obtain c r where run: "run_machine (conn_poll toy_env) example_conn
      ([(example_rnd, In_Command (Cmd_Connect [65]))] @ [(example_rnd, In_ScanResults [example_bss])]) = Some (c,
       o1 @ [Ac_ClearTimer ScanTimeout, Ac_Notify Cs_Associating, Ac_Associate r, Ac_SetTimer AssocTimeout ASSOC_TIMEOUT_MS])"
    using example_scan unfolding o1 by auto
  then have p: "conn_poll toy_env c1 (example_rnd, In_ScanResults [example_bss]) = Some (c, [Ac_ClearTimer ScanTimeout,
      Ac_Notify Cs_Associating, Ac_Associate r, Ac_SetTimer AssocTimeout ASSOC_TIMEOUT_MS])"
    unfolding run_machine_append c1 by (auto split: option.splits)
  show ?thesis
    using conn_no_downgrade[OF toy_env_ok c1[unfolded example_conn_def] p, of r] c1 o1 p by fastforce
qed

subsection \<open>Keys\<close>

lemma conn_hs_actions_keys:
  assumes "conn_hs_actions acts b c = Some (c', out)" "Ac_InstallKeys ki \<in> set out"
    "ki_pairwise_key ki = Some pk" "cn_session c = Some s"
  shows "Fa_Complete (pk_ptk pk) (gk_gtk (ki_group ki)) \<in> set acts \<and> pk_peer pk = ch_bssid (se_choice s)"
  using assms
proof (induction acts arbitrary: b c out)
  case Nil
  then show ?case by (auto simp: conn_configured_def conn_enter_eq Let_def split: if_splits option.splits)
next
  case (Cons a acts)
  then show ?case
    using Cons.IH[of _ "c \<lparr> cn_armed := Some HandshakeRetry \<rparr>"] Cons.IH[of _ "c \<lparr> cn_armed := None \<rparr>"] Cons.IH[of _ c]
    by (fastforce simp: conn_arm_def conn_disarm_eq conn_pairwise_install_def
        split: fw_action.splits option.splits)
qed

lemma conn_hs_actions_dhcp:
  assumes "conn_hs_actions acts b c = Some (c', out)" "Ac_StartDhcp \<in> set out" "\<not> b"
  shows "\<exists>ki pk. Ac_InstallKeys ki \<in> set out \<and> ki_pairwise_key ki = Some pk"
  using assms
proof (induction acts arbitrary: b c out)
  case (Cons a acts)
  show ?case
  proof (cases a)
    case (Fa_Complete k g)
    then show ?thesis using Cons.prems
      by (auto simp: conn_pairwise_install_def split: option.splits)
  qed (use Cons in \<open>fastforce simp: conn_arm_def conn_disarm_eq split: option.splits\<close>)+
qed simp

text \<open>Where keys and the start of address configuration come from.\<close>

lemma calm_on_associated: "calmly (conn_on_associated E rnd c) \<or>
  (\<exists>s. cn_session c = Some s \<and> (se_auth s = Auth_Open \<or> (\<exists>off. se_auth s = Auth_Offloaded off)) \<and>
     (\<exists>c'. conn_on_associated E rnd c = Some (conn_configured c')))"
proof (cases "cn_session c")
  case (Some s)
  have "calmly (emit_then (Some (conn_enter Cs_Handshaking c1)) (conn_drive_dot1x E rnd None))" for c1
    by (subst prod.collapse[symmetric]) (rule calmly_then, simp_all)
  then show ?thesis using Some
    by (cases "se_auth s") (auto simp: conn_on_associated_def simp del: emit_then_simps)
qed (simp add: conn_on_associated_def)

lemma calmD: "r = Some (c', out) \<Longrightarrow> calmly r \<Longrightarrow> list_all calm out"
  by simp

lemma not_calm:
  "Ac_InstallKeys ki \<in> set out \<Longrightarrow> \<not> list_all calm out" "Ac_StartDhcp \<in> set out \<Longrightarrow> \<not> list_all calm out"
  by (induction out) (auto simp: calm_def)

lemma calm_failD: "conn_fail f c = (c', out) \<Longrightarrow> list_all calm out"
  using calm_fail[of f c] by simp

lemma calm_start_scanD: "conn_start_scan c = (c', out) \<Longrightarrow> list_all calm out"
  using calm_start_scan[of c] by simp

lemma conn_poll_loud:
  assumes "conn_poll E c (rnd, i) = Some (c', out)" "\<not> list_all calm out"
  obtains (hs) s h j h' r c1 where "(\<exists>b. i = In_Eapol b \<and> j = Fw_Frame b) \<or> i = In_Timer HandshakeRetry \<and> j = Fw_Timeout"
      "cn_session c = Some s" "se_handshake s = Some h" "fw_poll (env_prims E) h j = Some (h', Inr r)"
      "c1 = c \<lparr> cn_session := Some (s \<lparr> se_handshake := Some h' \<rparr>) \<rparr>" "conn_hs_actions r False c1 = Some (c', out)"
  | (assoc) b s c1 where "i = In_Wireless (Ev_Connected b Cst_Success)" "cn_state c = Cs_Associating" "cn_session c = Some s"
      "se_auth s = Auth_Open \<or> (\<exists>off. se_auth s = Auth_Offloaded off)" "(c', out) = conn_configured c1"
  | (lease) ev where "i = In_Lease ev" "(c', out) = conn_on_lease ev c"
proof -
  have loud: "\<not> calmly (conn_poll E c (rnd, i))" using assms by simp
  have poll: thesis if p: "conn_poll_handshake E j c = Some (c', out)"
      and j: "(\<exists>b. i = In_Eapol b \<and> j = Fw_Frame b) \<or> i = In_Timer HandshakeRetry \<and> j = Fw_Timeout" for j
  proof -
    obtain s h h' r where s: "cn_session c = Some s" "se_handshake s = Some h" "fw_poll (env_prims E) h j = Some (h', r)"
      "conn_on_handshake_actions r (c \<lparr> cn_session := Some (s \<lparr> se_handshake := Some h' \<rparr>) \<rparr>) = Some (c', out)"
      using p assms(2) by (auto simp: conn_poll_handshake_def split: option.splits)
    then obtain acts where "r = Inr acts"
      using assms(2) by (cases r) (auto simp: conn_on_handshake_actions_def dest: calm_failD)
    then show thesis using hs[OF j s(1,2), of h' acts] s by (simp add: conn_on_handshake_actions_def)
  qed
  have dx: "conn_drive_dot1x E rnd fr c \<noteq> Some (c', out)" for fr
    using calmD[OF _ calm_drive_dot1x] assms(2) by blast
  show thesis
  proof (cases i)
    case (In_Eapol b)
    then have o: "conn_on_eapol E rnd b c = Some (c', out)" using assms(1) by (simp add: conn_poll_def)
    have ne: "out \<noteq> []" using assms(2) by auto
    have "conn_poll_handshake E (Fw_Frame b) c = Some (c', out)"
      using o ne dx by (cases "eapol_parse b"; cases "ea_packet_type (projr (eapol_parse b))")
        (simp_all add: conn_on_eapol_def split: if_split_asm)
    then show thesis using poll In_Eapol by blast
  next
    case (In_Timer t)
    then have "t = HandshakeRetry \<and> conn_poll_handshake E Fw_Timeout c = Some (c', out)"
      using assms(1) loud by (cases t; cases "cn_state c") (auto simp: conn_poll_def conn_on_timer_def split: if_splits
          dest: calm_failD calm_start_scanD calmD[OF _ calm_drive_sae])
    then show thesis using poll In_Timer by blast
  next
    case (In_Wireless ev)
    then obtain b where b: "ev = Ev_Connected b Cst_Success" "cn_state c = Cs_Associating"
        "conn_on_associated E rnd c = Some (c', out)" "\<not> calmly (conn_on_associated E rnd c)"
      using assms(1) loud
      by (auto simp: conn_poll_def conn_on_wireless_def calm_def split: event.splits if_splits connect_status.splits option.splits
          dest: calm_failD calmD[OF _ calm_drive_sae])
    then obtain s c1 where "cn_session c = Some s" "se_auth s = Auth_Open \<or> (\<exists>off. se_auth s = Auth_Offloaded off)"
        "(c', out) = conn_configured c1"
      using calm_on_associated[of E rnd c] by auto
    then show thesis using assoc In_Wireless b(1,2) by blast
  next
    case (In_Lease ev)
    then show thesis using lease assms(1) by (simp add: conn_poll_def)
  qed (use assms in \<open>auto simp: conn_poll_def dest: calmD[OF _ calm_on_command] calmD[OF _ calm_on_scan_results]\<close>)
qed

lemma configured_no_keys: "(c', out) = conn_configured c \<Longrightarrow> Ac_InstallKeys ki \<notin> set out"
  by (auto simp: conn_configured_def conn_enter_eq Let_def split: if_splits option.splits)

lemma lease_no_keys: "(c', out) = conn_on_lease ev c \<Longrightarrow> Ac_InstallKeys ki \<notin> set out"
proof (cases ev)
  case Le_Failed
  then show "(c', out) = conn_on_lease ev c \<Longrightarrow> ?thesis"
    using calm_failD[of F_Dhcp c c' out] not_calm(1)[of ki out] by (auto simp: conn_on_lease_def)
qed (auto simp: conn_on_lease_def conn_enter_eq conn_save_profile_def Let_def split: if_splits option.splits)

text \<open>
  C2. Pairwise keys are installed only for the access point that was chosen, and only when it
  proved that it knows the PMK: the poll that installs them was given an EAPOL frame while message
  3 was awaited; the installed key is the one derived from this session's PMK and addresses and
  that frame's nonce; the frame's MIC verifies under it; its key data unwraps to the very RSN
  element of the scan result the connection was planned from, and to the group key installed.
\<close>

theorem conn_keys_authentic:
  assumes "env_ok E" "run_machine (conn_poll E) (conn_new dev ps) is = Some (c, out0)"
    "conn_poll E c (rnd, i) = Some (c', out)" "Ac_InstallKeys ki \<in> set out" "ki_pairwise_key ki = Some pk"
  shows "\<exists>s h n b e f kd. i = In_Eapol b \<and> cn_session c = Some s \<and> se_handshake s = Some h \<and>
    ch_rsn (se_choice s) = Some n \<and> pk_peer pk = ch_bssid (se_choice s) \<and> fw_st h = Fw_AwaitingMsg3 \<and>
    eapol_parse b = Inr e \<and> key_parse (ea_body e) = Inr f \<and>
    derive_ptk (env_prims E) (fw_pmk h) (ng_akm n) (pk_peer pk) (dev_mac (cn_device c)) (kf_key_nonce f)
      (fw_snonce h) = Some (Inr (pk_ptk pk)) \<and>
    verify_frame_mic (env_prims E) (ea_raw e) (ptk_kck (pk_ptk pk)) (fw_descriptor_version h) (kf_key_mic f)
      = Inr () \<and>
    unwrap_key_data (env_prims E) (ptk_kek (pk_ptk pk)) (kf_key_data f) = Inr kd \<and>
    rsn_element kd = Some (ng_beacon_ie n) \<and> gtk_kde kd = Inr (gk_gtk (ki_group ki))"
proof -
  have inv: "conn_ok E c" by (rule conn_run_inv[OF assms(1,2)])
  have "\<not> list_all calm out" by (rule not_calm(1)[OF assms(4)])
  from assms(3) this obtain s h j h' r c1 where
    src: "(\<exists>b. i = In_Eapol b \<and> j = Fw_Frame b) \<or> i = In_Timer HandshakeRetry \<and> j = Fw_Timeout"
    "cn_session c = Some s" "se_handshake s = Some h" "fw_poll (env_prims E) h j = Some (h', Inr r)"
    "c1 = c \<lparr> cn_session := Some (s \<lparr> se_handshake := Some h' \<rparr>) \<rparr>"
    "conn_hs_actions r False c1 = Some (c', out)"
  proof (cases rule: conn_poll_loud)
    case assoc
    then show ?thesis using configured_no_keys assms(4) by blast
  next
    case lease
    then show ?thesis using lease_no_keys assms(4) by blast
  qed
  have k: "Fa_Complete (pk_ptk pk) (gk_gtk (ki_group ki)) \<in> set r" "pk_peer pk = ch_bssid (se_choice s)"
    using conn_hs_actions_keys[OF src(6) assms(4,5)] src(5) by auto
  obtain n where n: "ch_rsn (se_choice s) = Some n" "fw_inv (env_prims E) h"
    "fw_config h = hs_config_of (cn_device c) (se_choice s) (se_assoc_ie s) n"
    using inv src(2,3) by (auto simp: conn_ok_def session_ok_def)
  from fw_complete_checked[OF n(2) src(4) k(1)] obtain b e f kd where
    b: "j = Fw_Frame b" "fw_accepts h b e f" "fw_st h = Fw_AwaitingMsg3"
    "derive_ptk (env_prims E) (fw_pmk h) (hc_akm (fw_config h)) (hc_bssid (fw_config h)) (hc_own_mac (fw_config h))
      (kf_key_nonce f) (fw_snonce h) = Some (Inr (pk_ptk pk))"
    "verify_frame_mic (env_prims E) (ea_raw e) (ptk_kck (pk_ptk pk)) (fw_descriptor_version h) (kf_key_mic f) = Inr ()"
    "unwrap_key_data (env_prims E) (ptk_kek (pk_ptk pk)) (kf_key_data f) = Inr kd"
    "rsn_element kd = Some (hc_beacon_rsn_ie (fw_config h))" "gtk_kde kd = Inr (gk_gtk (ki_group ki))"
    by blast
  moreover have "i = In_Eapol b" using src(1) b(1) by auto
  ultimately show ?thesis using src(2,3) n k(2) by (auto simp: hs_config_of_def fw_accepts_def)
qed

text \<open>
  No address is asked for before the link is protected: address configuration starts only
  when a lease was lost while connected, when the kernel reports success for an open association
  or one whose keys the device itself installed, or in the same poll that installs pairwise keys;
  and it leaves the machine configuring.
\<close>

theorem conn_dhcp_after_keys:
  assumes "env_ok E" "run_machine (conn_poll E) (conn_new dev ps) is = Some (c, out0)"
    "conn_poll E c (rnd, i) = Some (c', out)" "Ac_StartDhcp \<in> set out"
  shows "cn_state c' = Cs_Configuring \<and>
    ((\<exists>r. i = In_Lease (Le_Lost r) \<and> cn_state c = Cs_Connected) \<or>
     (\<exists>b s. i = In_Wireless (Ev_Connected b Cst_Success) \<and> cn_state c = Cs_Associating \<and> cn_session c = Some s \<and>
        (se_auth s = Auth_Open \<or> (\<exists>off. se_auth s = Auth_Offloaded off))) \<or>
     (\<exists>ki pk. Ac_InstallKeys ki \<in> set out \<and> ki_pairwise_key ki = Some pk))"
proof -
  have "post E c (c', out)" by (rule conn_poll_post[OF assms(1) conn_run_inv[OF assms(1,2)] assms(3)])
  then have st: "cn_state c' = Cs_Configuring"
    using assms(4) by (auto simp: post_def list_all_iff action_ok_def)
  have "\<not> list_all calm out" by (rule not_calm(2)[OF assms(4)])
  with assms(3) show ?thesis
  proof (cases rule: conn_poll_loud)
    case hs
    then show ?thesis using conn_hs_actions_dhcp assms(4) st by blast
  next
    case assoc
    then show ?thesis using st by blast
  next
    case (lease ev)
    note ev = lease
    show ?thesis
    proof (cases ev)
      case (Le_Acquired l)
      then have "cn_state c' = Cs_Connected" using ev
        by (auto simp: conn_on_lease_def conn_save_profile_def conn_insert_profile_def conn_enter_eq Let_def
            split: option.splits if_splits)
      then show ?thesis using st by simp
    next
      case (Le_Lost r)
      then show ?thesis using ev st assms(4) by (auto simp: conn_on_lease_def split: if_splits)
    next
      case Le_Failed
      then have "list_all calm out" using ev by (auto simp: conn_on_lease_def dest: calm_failD[OF sym])
      then show ?thesis using \<open>\<not> list_all calm out\<close> by simp
    qed
  qed
qed

section \<open>Failure and retry\<close>

text \<open>
  A reported failure is final: after it the connection is idle with no target, no session
  and no timer running, and nothing but a new command or a lease report makes it act again, so
  a failure never comes with a retry.
\<close>

theorem conn_failed_is_final:
  assumes "env_ok E" "run_machine (conn_poll E) (conn_new dev ps) is = Some (c, out0)"
    "conn_poll E c ri = Some (c', out)" "Ac_Failed f \<in> set out"
  shows "cn_state c' = Cs_Idle \<and> cn_target c' = None \<and> cn_session c' = None \<and>
    timers_after out (set_option (cn_armed c)) = {} \<and>
    (\<forall>rnd i. (case i of In_Lease _ \<Rightarrow> False
                | In_Command cmd \<Rightarrow> (\<exists>secret. cmd = Cmd_Secret secret) | _ \<Rightarrow> True) \<longrightarrow>
       conn_poll E c' (rnd, i) = Some (c', []))"
proof -
  have p: "post E c (c', out)" by (rule conn_poll_post[OF assms(1) conn_run_inv[OF assms(1,2)] assms(3)])
  have a: "action_ok c' (Ac_Failed f)" using p assms(4) by (auto simp: post_def list_all_iff)
  then have idle: "cn_state c' = Cs_Idle" "cn_target c' = None" "cn_session c' = None" "cn_armed c' = None"
    by (simp_all add: action_ok_def)
  moreover have "timers_after out (set_option (cn_armed c)) = {}"
    using p idle(4) by (simp add: post_def timed_def)
  moreover have "conn_poll E c' (rnd, i) = Some (c', [])"
    if "case i of In_Lease _ \<Rightarrow> False | In_Command cmd \<Rightarrow> (\<exists>secret. cmd = Cmd_Secret secret) | _ \<Rightarrow> True" for rnd i
    using that idle
    by (cases i) (auto simp: conn_poll_def conn_on_command_def conn_on_wireless_def conn_on_scan_results_def
        conn_on_eapol_def conn_on_timer_def conn_associated_def split: event.split timer_id.split)
  ultimately show ?thesis by blast
qed

theorem conn_failed_is_final_witness:
  "\<exists>c out. run_machine (conn_poll toy_env) example_conn [(example_rnd, In_Command (Cmd_Connect [66]))] = Some (c, out) \<and>
     (\<exists>c' out'. conn_poll toy_env c (example_rnd, In_ScanResults []) = Some (c', out') \<and> Ac_Failed F_NotFound \<in> set out' \<and>
        timers_after out' {ScanTimeout} = {})"
proof -
  obtain c out where c: "run_machine (conn_poll toy_env) example_conn [(example_rnd, In_Command (Cmd_Connect [66]))] = Some (c, out)"
    and st: "cn_state c = Cs_Scanning" "cn_armed c = Some ScanTimeout"
      "cn_target c = Some \<lparr> tg_ssid = [66], tg_secret = None, tg_retry = False, tg_save = True \<rparr>"
    by (simp add: conn_simps example_defs)
  obtain c' out' where p: "conn_poll toy_env c (example_rnd, In_ScanResults []) = Some (c', out')" "Ac_Failed F_NotFound \<in> set out'"
    using st by (simp add: conn_poll_def conn_on_scan_results_def conn_select_def best_bss_def conn_fail_stop)
  show ?thesis using conn_failed_is_final[OF toy_env_ok c[unfolded example_conn_def] p] c p st(2) by auto
qed

text \<open>
  C31. What a failing handshake does to the connection, exactly: the link is torn down; if the
  failure can never be cured by retrying (a wrong passphrase, an RSN element that is not the
  beacon's, a rejection) or the profile does not ask for retries, the attempt ends and is
  reported; otherwise, and only then, the machine backs off with the doubled delay, keeps its
  target, and reports nothing.
\<close>

theorem conn_handshake_error:
  assumes "cn_state c = Cs_Handshaking \<or> cn_state c = Cs_Connected" "cn_target c = Some t" "cn_session c = Some s"
    "se_handshake s = Some h" "fw_poll (env_prims E) h (Fw_Frame b) = Some (h', Inl err)"
    "eapol_parse b = Inr e" "ea_packet_type e = Pt_Key"
  shows "\<exists>c' out. conn_poll E c (rnd, In_Eapol b) = Some (c', out) \<and> hd out = Ac_Disconnect REASON_LEAVING \<and>
    cn_session c' = None \<and>
    (if failure_is_terminal (failure_from_eapol err) \<or> \<not> tg_retry t
     then cn_state c' = Cs_Idle \<and> cn_target c' = None \<and> last out = Ac_Failed (failure_from_eapol err)
     else cn_state c' = Cs_Reconnecting \<and> cn_target c' = Some t \<and> cn_attempts c' = cn_attempts c + 1 \<and>
       last out = Ac_SetTimer ReconnectBackoff (backoff_ms (cn_attempts c + 1)) \<and> (\<forall>f. Ac_Failed f \<notin> set out))"
proof -
  let ?f = "failure_from_eapol err"
  let ?c = "c \<lparr> cn_session := Some (s \<lparr> se_handshake := Some h' \<rparr>) \<rparr>"
  have poll: "conn_poll E c (rnd, In_Eapol b) = Some (conn_fail ?f ?c)"
    using assms by (simp add: conn_poll_def conn_on_eapol_def conn_poll_handshake_def conn_on_handshake_actions_def)
  have nd: "\<not> failure_is_disconnected ?f"
    by (simp add: failure_is_disconnected_def failure_from_eapol_def failure_from_crypto_def
        split: eapol_error.split crypto_error.split)
  have as: "conn_associated ?c" using assms(1) by (auto simp: conn_associated_def)
  show ?thesis
  proof (cases "failure_is_terminal ?f \<or> \<not> tg_retry t")
    case True
    then have "failure_is_terminal ?f \<or> (\<forall>t. cn_target ?c = Some t \<longrightarrow> \<not> tg_retry t)" using assms(2) by simp
    then show ?thesis using poll nd as True by (simp add: conn_fail_stop)
  next
    case False
    then have "conn_fail ?f ?c = ((fst (conn_enter Cs_Reconnecting ?c)) \<lparr> cn_session := None, cn_pending := None,
       cn_attempts := cn_attempts ?c + 1, cn_armed := Some ReconnectBackoff \<rparr>,
       (if conn_associated ?c \<and> \<not> failure_is_disconnected ?f then [Ac_Disconnect REASON_LEAVING] else []) @
       snd (conn_enter Cs_Reconnecting ?c) @ [Ac_SetTimer ReconnectBackoff (backoff_ms (cn_attempts ?c + 1))])"
      using assms(2) by (intro conn_fail_retry[where t = t]) simp_all
    then show ?thesis using poll nd as False assms(2)
      by (auto simp: conn_enter_eq split: option.split)
  qed
qed

lemma min_two_power: "6 \<le> k \<Longrightarrow> min (1000 * 2 ^ k) 60000 = (60000 :: nat)"
proof -
  assume "6 \<le> k"
  then have "(2::nat) ^ 6 \<le> 2 ^ k" by (rule power_increasing) simp
  then show ?thesis by simp
qed

text \<open>
  The backoff doubles from one second and stops at a minute: for the n-th failed attempt it
  is exactly the smaller of \<open>1000 * 2^(n-1)\<close> and \<open>60000\<close> milliseconds, although the code shifts by at
  most 20 bits of a capped counter; and a counter that wrapped to zero waits a second.
\<close>

theorem backoff_exact:
  "backoff_ms attempt = (if attempt = 0 then 1000 else min (1000 * 2 ^ (unat attempt - 1)) 60000)"
proof (cases "unat attempt - 1 \<le> 6")
  case True
  then show ?thesis
    by (simp add: backoff_ms_def BACKOFF_BASE_MS_def BACKOFF_MAX_MS_def Let_def min_def unat_eq_0)
next
  case False
  then have "min (1000 * 2 ^ min (min (unat attempt - 1) 31) 20) 60000 = (60000 :: nat)"
    by (intro min_two_power) simp
  moreover have "min (1000 * 2 ^ (unat attempt - 1)) 60000 = (60000 :: nat)"
    using False by (intro min_two_power) simp
  moreover have "attempt \<noteq> 0" using False by auto
  ultimately show ?thesis
    by (simp add: backoff_ms_def BACKOFF_BASE_MS_def BACKOFF_MAX_MS_def Let_def)
qed

section \<open>Joining a network\<close>

lemma save_profile_state: "cn_state (fst (conn_save_profile c)) = cn_state c"
  by (simp add: conn_save_profile_def conn_insert_profile_def Let_def split: option.split)

lemma lease_acquired:
  "cn_state (fst (conn_on_lease (Le_Acquired l) c)) = Cs_Connected"
  "Ac_ApplyLease l \<in> set (snd (conn_on_lease (Le_Acquired l) c))"
  by (simp_all add: conn_on_lease_def conn_enter_eq save_profile_state Let_def case_prod_unfold)

lemma conn_poll_key:
  assumes "cn_state c = Cs_Handshaking \<or> cn_state c = Cs_Connected" "cn_session c = Some s" "se_handshake s = Some h"
    "fw_poll (env_prims E) h (Fw_Frame b) = Some (h', Inr acts)" "acts \<noteq> []"
  shows "conn_poll E c (rnd, In_Eapol b) =
    conn_hs_actions acts False (c \<lparr> cn_session := Some (s \<lparr> se_handshake := Some h' \<rparr>) \<rparr>)"
proof -
  have "fw_on_frame (env_prims E) h b = Some (Inr (h', acts))"
    using fw_poll_cases[OF assms(4)] by auto
  then obtain e f where "fw_accepts h b e f" using fw_on_frame_InrD assms(5) by blast
  then have "eapol_parse b = Inr e" "ea_packet_type e = Pt_Key" by (simp_all add: fw_accepts_def)
  then show ?thesis using assms
    by (simp add: conn_poll_def conn_on_eapol_def conn_poll_handshake_def conn_on_handshake_actions_def)
qed

lemma conn_exchange:
  assumes "prims_ok (env_prims E)" "cn_state c = Cs_Handshaking" "cn_session c = Some s"
    "ch_rsn (se_choice s) = Some n" "\<not> ch_roaming (se_choice s)" "length (se_assoc_ie s) \<le> 257"
    "se_handshake s = Some (fw_new pmk (hs_config_of (cn_device c) (se_choice s) (se_assoc_ie s) n) snonce)"
    "length anonce = 32" "c1 < c3" "length w \<le> 60000" "v = AkmDefinedCmac \<longrightarrow> akm_is_sae (ng_akm n)"
    "derive_ptk (env_prims E) pmk (ng_akm n) (dev_mac (cn_device c)) (ch_bssid (se_choice s)) snonce anonce = Some (Inr k)"
    "unwrap_key_data (env_prims E) (ptk_kek k) w = Inr kd" "rsn_element kd = Some (ng_beacon_ie n)" "gtk_kde kd = Inr g"
    "key_encode (ap_msg1 v c1 anonce) pv = Some m1"
    "key_encode_signed (env_prims E) (ap_msg3 v c3 anonce w) pv (ptk_kck k) v = Some m3"
  shows "\<exists>c1 o1 c2 o2 ki pk. conn_poll E c (r1, In_Eapol m1) = Some (c1, o1) \<and>
    conn_poll E c1 (r2, In_Eapol m3) = Some (c2, o2) \<and> Ac_InstallKeys ki \<in> set o2 \<and> ki_pairwise_key ki = Some pk \<and>
    pk_peer pk = ch_bssid (se_choice s) \<and> pk_ptk pk = k \<and> gk_gtk (ki_group ki) = g \<and> Ac_StartDhcp \<in> set o2"
proof -
  let ?cfg = "hs_config_of (cn_device c) (se_choice s) (se_assoc_ie s) n"
  let ?h = "fw_new pmk ?cfg snonce"
  have k: "derive_ptk (env_prims E) (fw_pmk ?h) (hc_akm (fw_config ?h)) (hc_bssid (fw_config ?h)) (hc_own_mac (fw_config ?h))
      anonce (fw_snonce ?h) = Some (Inr k)"
    using derive_ptk_sym[of "env_prims E" pmk "ng_akm n" "dev_mac (cn_device c)" "ch_bssid (se_choice s)" snonce anonce] assms(12)
    by (simp add: fw_new_def hs_config_of_def)
  have pre: "fw_cfg_ok (fw_config ?h)" "fw_st ?h \<noteq> Fw_Failed" "fw_fresh ?h c1"
    "v = AkmDefinedCmac \<longrightarrow> akm_is_sae (hc_akm (fw_config ?h))" "rsn_element kd = Some (hc_beacon_rsn_ie (fw_config ?h))"
    using assms(6,11,14) by (simp_all add: fw_new_def fw_cfg_ok_def hs_config_of_def fw_fresh_def)
  obtain s1 s2 m2 m4 where f: "fw_poll (env_prims E) ?h (Fw_Frame m1) = Some (s1, Inr [Fa_Send m2, Fa_ArmTimer RETRY_INTERVAL_MS])"
    "fw_poll (env_prims E) s1 (Fw_Frame m3) = Some (s2, Inr [Fa_Send m4, Fa_DisarmTimer, Fa_Complete k g])"
    using fw_exchange[OF assms(1) pre(1-3) assms(9,8,10) pre(4) k assms(13) pre(5) assms(15-17)] by blast
  let ?c1 = "c \<lparr> cn_session := Some (s \<lparr> se_handshake := Some s1 \<rparr>), cn_armed := Some HandshakeRetry \<rparr>"
  have p1: "conn_poll E c (r1, In_Eapol m1) = Some (?c1, [Ac_SendEapol m2, Ac_SetTimer HandshakeRetry RETRY_INTERVAL_MS])"
    using conn_poll_key[OF _ assms(3,7) f(1), of r1] assms(2) by (simp add: conn_arm_def)
  let ?c2 = "c \<lparr> cn_session := Some (s \<lparr> se_handshake := Some s2 \<rparr>), cn_armed := None, cn_state := Cs_Configuring \<rparr>"
  obtain ki pk where ki: "conn_pairwise_install k g (c \<lparr> cn_session := Some (s \<lparr> se_handshake := Some s2 \<rparr>), cn_armed := None \<rparr>) = Some ki"
      "ki_pairwise_key ki = Some pk" "pk_peer pk = ch_bssid (se_choice s)" "pk_ptk pk = k" "gk_gtk (ki_group ki) = g"
    using assms(4) by (auto simp: conn_pairwise_install_def)
  have p2: "conn_poll E ?c1 (r2, In_Eapol m3) = Some (?c2, [Ac_SendEapol m4, Ac_ClearTimer HandshakeRetry, Ac_InstallKeys ki,
      Ac_Notify Cs_Configuring, Ac_StartDhcp])"
    using conn_poll_key[of ?c1 "s \<lparr> se_handshake := Some s1 \<rparr>" s1 E m3, OF _ _ _ f(2), of r2] assms(2,5) ki(1)
    by (simp add: conn_disarm_eq conn_configured_def conn_enter_eq timer_of_def)
  show ?thesis using p1 p2 ki by auto
qed

text \<open>
  C18. An honest network is joined: once associated with the handshake ready, message 1 and
  message 3 of an authenticator that holds the same PMK, repeats the scanned RSN element and
  hands over a group key make the connection install exactly that pair of keys for the chosen
  access point and start address configuration, and the lease it then gets is applied and makes
  it connected.
\<close>

theorem conn_honest_join:
  assumes "prims_ok (env_prims E)" "cn_state c = Cs_Handshaking" "cn_session c = Some s"
    "ch_rsn (se_choice s) = Some n" "\<not> ch_roaming (se_choice s)" "length (se_assoc_ie s) \<le> 257"
    "se_handshake s = Some (fw_new pmk (hs_config_of (cn_device c) (se_choice s) (se_assoc_ie s) n) snonce)"
    "length anonce = 32" "c1 < c3" "length w \<le> 60000" "v = AkmDefinedCmac \<longrightarrow> akm_is_sae (ng_akm n)"
    "derive_ptk (env_prims E) pmk (ng_akm n) (dev_mac (cn_device c)) (ch_bssid (se_choice s)) snonce anonce = Some (Inr k)"
    "unwrap_key_data (env_prims E) (ptk_kek k) w = Inr kd" "rsn_element kd = Some (ng_beacon_ie n)" "gtk_kde kd = Inr g"
    "key_encode (ap_msg1 v c1 anonce) pv = Some m1"
    "key_encode_signed (env_prims E) (ap_msg3 v c3 anonce w) pv (ptk_kck k) v = Some m3"
  shows "\<exists>c' out ki pk. run_machine (conn_poll E) c
      [(r1, In_Eapol m1), (r2, In_Eapol m3), (r3, In_Lease (Le_Acquired l))] = Some (c', out) \<and>
    cn_state c' = Cs_Connected \<and> Ac_InstallKeys ki \<in> set out \<and> ki_pairwise_key ki = Some pk \<and>
    pk_peer pk = ch_bssid (se_choice s) \<and> pk_ptk pk = k \<and> gk_gtk (ki_group ki) = g \<and>
    Ac_StartDhcp \<in> set out \<and> Ac_ApplyLease l \<in> set out"
proof -
  obtain ca o1 c2 o2 ki pk where p: "conn_poll E c (r1, In_Eapol m1) = Some (ca, o1)" "conn_poll E ca (r2, In_Eapol m3) = Some (c2, o2)"
    "Ac_InstallKeys ki \<in> set o2" "ki_pairwise_key ki = Some pk" "pk_peer pk = ch_bssid (se_choice s)" "pk_ptk pk = k"
    "gk_gtk (ki_group ki) = g" "Ac_StartDhcp \<in> set o2"
    using conn_exchange[OF assms, of r1 r2] by blast
  obtain c3 o3 where p3: "conn_poll E c2 (r3, In_Lease (Le_Acquired l)) = Some (c3, o3)" "cn_state c3 = Cs_Connected"
      "Ac_ApplyLease l \<in> set o3"
    using lease_acquired[of l c2] by (cases "conn_on_lease (Le_Acquired l) c2") (auto simp: conn_poll_def)
  show ?thesis using p p3 by auto
qed

section \<open>The examples\<close>

lemma example_handshaking:
  "\<exists>c out t s n. run_machine (conn_poll toy_env) example_conn
     [(example_rnd, In_Command (Cmd_Connect [65])), (example_rnd, In_ScanResults [example_bss]),
      (example_rnd, In_Wireless (Ev_Connected None Cst_Success))] = Some (c, out) \<and>
     cn_state c = Cs_Handshaking \<and> cn_target c = Some t \<and> tg_retry t \<and> cn_session c = Some s \<and> ch_rsn (se_choice s) = Some n \<and>
     \<not> ch_roaming (se_choice s) \<and> length (se_assoc_ie s) \<le> 257 \<and> ng_akm n = Psk \<and> ng_beacon_ie n = [48, 2, 1, 0] \<and>
     se_handshake s = Some (fw_new (replicate 32 4) (hs_config_of (cn_device c) (se_choice s) (se_assoc_ie s) n) (replicate 32 8))"
  by (simp add: conn_simps example_defs choose_akm_def choose_pairwise_def satisfies_def runnable_def AKM_PREFERENCE_def
    akm_is_psk_def akm_is_sae_def profile_accepts_def is_at_least_def strength_def negotiated_security_def security_floor_def
    psk_start_def assoc_element_def srsn_encode_def length_srsn_body Let_def conn_on_wireless_def conn_on_associated_def
    conn_start_handshake_def derive_pmk_def toy_prims_def assoc_secured_def RSNXE_SAE_H2E_def hs_config_of_def)

lemma toy_env_prims [simp]: "env_prims toy_env = toy_prims"
  by (simp add: toy_env_def)

abbreviation example_inputs :: "(rnd \<times> conn_input) list" where
  "example_inputs \<equiv> [(example_rnd, In_Command (Cmd_Connect [65])), (example_rnd, In_ScanResults [example_bss]),
     (example_rnd, In_Wireless (Ev_Connected None Cst_Success))]"

text \<open>A connection waiting for message 1, and an authenticator's messages for it.\<close>

definition example_ready ::
  "(u8, u8, unit) conn \<Rightarrow> (u8, u8, unit) session \<Rightarrow> negotiated \<Rightarrow> ptk \<Rightarrow> bytes \<Rightarrow> bytes \<Rightarrow> bool" where
  "example_ready c s n k m1 m3 \<longleftrightarrow>
     cn_state c = Cs_Handshaking \<and> cn_session c = Some s \<and> ch_rsn (se_choice s) = Some n \<and>
     \<not> ch_roaming (se_choice s) \<and> length (se_assoc_ie s) \<le> 257 \<and> ng_akm n = Psk \<and> ng_beacon_ie n = [48, 2, 1, 0] \<and>
     se_handshake s = Some (fw_new (replicate 32 4) (hs_config_of (cn_device c) (se_choice s) (se_assoc_ie s) n) (replicate 32 8)) \<and>
     derive_ptk toy_prims (replicate 32 4) Psk (dev_mac (cn_device c)) (ch_bssid (se_choice s)) (replicate 32 8)
       fw_example_nonce = Some (Inr k) \<and>
     key_encode (ap_msg1 HmacSha1 1 fw_example_nonce) 2 = Some m1 \<and>
     key_encode_signed toy_prims (ap_msg3 HmacSha1 2 fw_example_nonce fw_example_wrapped) 2 (ptk_kck k) HmacSha1 = Some m3"

lemma example_readyE:
  obtains c out t s n k m1 m3 where "run_machine (conn_poll toy_env) example_conn example_inputs = Some (c, out)"
    "example_ready c s n k m1 m3" "cn_target c = Some t" "tg_retry t"
proof -
  obtain c out t s n where c: "run_machine (conn_poll toy_env) example_conn example_inputs = Some (c, out)"
     "cn_state c = Cs_Handshaking" "cn_target c = Some t" "tg_retry t" "cn_session c = Some s" "ch_rsn (se_choice s) = Some n"
     "\<not> ch_roaming (se_choice s)" "length (se_assoc_ie s) \<le> 257" "ng_akm n = Psk" "ng_beacon_ie n = [48, 2, 1, 0]"
     "se_handshake s = Some (fw_new (replicate 32 4) (hs_config_of (cn_device c) (se_choice s) (se_assoc_ie s) n) (replicate 32 8))"
    using example_handshaking by (elim exE conjE) (rule that)
  obtain k m1 m3 where f: "derive_ptk toy_prims (replicate 32 4) Psk (dev_mac (cn_device c)) (ch_bssid (se_choice s)) (replicate 32 8)
       fw_example_nonce = Some (Inr k)" "key_encode (ap_msg1 HmacSha1 1 fw_example_nonce) 2 = Some m1"
     "key_encode_signed toy_prims (ap_msg3 HmacSha1 2 fw_example_nonce fw_example_wrapped) 2 (ptk_kck k) HmacSha1 = Some m3"
    using fw_toy_frames by blast
  have "example_ready c s n k m1 m3" using c f by (simp add: example_ready_def)
  then show thesis using that c(1,3,4) by blast
qed

lemma example_kd:
  "length fw_example_nonce = 32" "length fw_example_wrapped \<le> 60000" "(1 :: u64) < 2" "HmacSha1 = AkmDefinedCmac \<longrightarrow> Q"
  "unwrap_key_data (env_prims toy_env) kek fw_example_wrapped = Inr (fw_example_kd @ [221, 0, 0, 0])"
  "rsn_element (fw_example_kd @ [221, 0, 0, 0]) = Some [48, 2, 1, 0]"
  using fw_example_key_data(1) fw_example_unwrap
  by (simp_all add: fw_example_nonce_def fw_example_wrapped_def fw_example_kd_def element_enc_def fw_example_cfg_def)

lemma example_hyps:
  assumes "example_ready c s n k m1 m3"
  shows "prims_ok (env_prims toy_env)" "cn_state c = Cs_Handshaking" "cn_session c = Some s"
    "ch_rsn (se_choice s) = Some n" "\<not> ch_roaming (se_choice s)" "length (se_assoc_ie s) \<le> 257"
    "se_handshake s = Some (fw_new (replicate 32 4) (hs_config_of (cn_device c) (se_choice s) (se_assoc_ie s) n) (replicate 32 8))"
    "length fw_example_nonce = 32" "(1 :: u64) < 2" "length fw_example_wrapped \<le> 60000"
    "HmacSha1 = AkmDefinedCmac \<longrightarrow> akm_is_sae (ng_akm n)"
    "derive_ptk (env_prims toy_env) (replicate 32 4) (ng_akm n) (dev_mac (cn_device c)) (ch_bssid (se_choice s)) (replicate 32 8)
       fw_example_nonce = Some (Inr k)"
    "unwrap_key_data (env_prims toy_env) (ptk_kek k) fw_example_wrapped = Inr (fw_example_kd @ [221, 0, 0, 0])"
    "rsn_element (fw_example_kd @ [221, 0, 0, 0]) = Some (ng_beacon_ie n)"
    "gtk_kde (fw_example_kd @ [221, 0, 0, 0]) = Inr fw_example_gtk"
    "key_encode (ap_msg1 HmacSha1 1 fw_example_nonce) 2 = Some m1"
    "key_encode_signed (env_prims toy_env) (ap_msg3 HmacSha1 2 fw_example_nonce fw_example_wrapped) 2 (ptk_kck k) HmacSha1 = Some m3"
  using assms example_kd fw_example_key_data(2) by (simp_all add: example_ready_def)

theorem conn_honest_join_witness:
  "\<exists>c c' m1 m3 out ki. cn_state c = Cs_Handshaking \<and> run_machine (conn_poll toy_env) c
      [(example_rnd, In_Eapol m1), (example_rnd, In_Eapol m3), (example_rnd, In_Lease (Le_Acquired example_lease))] = Some (c', out) \<and>
    cn_state c' = Cs_Connected \<and> Ac_InstallKeys ki \<in> set out \<and> gk_gtk (ki_group ki) = fw_example_gtk"
proof (rule example_readyE)
  fix c s n k m1 m3 assume r: "example_ready c s n k m1 m3"
  show ?thesis
    using conn_honest_join[OF example_hyps[OF r], of example_rnd example_rnd example_rnd example_lease] example_hyps(2)[OF r] by blast
qed

text \<open>The state after message 1, and the poll that installs the keys.\<close>

lemma example_installE:
  obtains c out m1 m3 c' out' ki pk where
    "run_machine (conn_poll toy_env) (conn_new example_device [example_profile]) (example_inputs @ [(example_rnd, In_Eapol m1)]) = Some (c, out)"
    "conn_poll toy_env c (example_rnd, In_Eapol m3) = Some (c', out')" "Ac_InstallKeys ki \<in> set out'"
    "ki_pairwise_key ki = Some pk" "Ac_StartDhcp \<in> set out'"
proof (rule example_readyE)
  fix c out s n k m1 m3
  assume run: "run_machine (conn_poll toy_env) example_conn example_inputs = Some (c, out)" and r: "example_ready c s n k m1 m3"
  obtain c1 o1 c2 o2 ki pk where p: "conn_poll toy_env c (example_rnd, In_Eapol m1) = Some (c1, o1)"
    "conn_poll toy_env c1 (example_rnd, In_Eapol m3) = Some (c2, o2)" "Ac_InstallKeys ki \<in> set o2" "ki_pairwise_key ki = Some pk"
    "Ac_StartDhcp \<in> set o2"
    using conn_exchange[OF example_hyps[OF r], of example_rnd example_rnd] by blast
  have "run_machine (conn_poll toy_env) example_conn (example_inputs @ [(example_rnd, In_Eapol m1)]) = Some (c1, out @ o1)"
    unfolding run_machine_append run by (simp add: p(1))
  then show thesis using that p(2-5) unfolding example_conn_def by blast
qed

theorem conn_keys_authentic_witness:
  "\<exists>c m1 m3 c' out' ki pk s. run_machine (conn_poll toy_env) (conn_new example_device [example_profile])
       (example_inputs @ [(example_rnd, In_Eapol m1)]) = Some c \<and>
     conn_poll toy_env (fst c) (example_rnd, In_Eapol m3) = Some (c', out') \<and> Ac_InstallKeys ki \<in> set out' \<and>
     ki_pairwise_key ki = Some pk \<and> cn_session (fst c) = Some s \<and> pk_peer pk = ch_bssid (se_choice s)"
proof (rule example_installE)
  fix c out m1 m3 c' out' ki pk
  assume run: "run_machine (conn_poll toy_env) (conn_new example_device [example_profile]) (example_inputs @ [(example_rnd, In_Eapol m1)]) = Some (c, out)"
    and p: "conn_poll toy_env c (example_rnd, In_Eapol m3) = Some (c', out')" "Ac_InstallKeys ki \<in> set out'" "ki_pairwise_key ki = Some pk"
  obtain s where "cn_session c = Some s" "pk_peer pk = ch_bssid (se_choice s)"
    using conn_keys_authentic[OF toy_env_ok run p] by blast
  then show ?thesis using run p by (metis fst_conv)
qed

theorem conn_dhcp_after_keys_witness:
  "\<exists>c m1 m3 c' out' ki pk. run_machine (conn_poll toy_env) (conn_new example_device [example_profile])
       (example_inputs @ [(example_rnd, In_Eapol m1)]) = Some c \<and>
     conn_poll toy_env (fst c) (example_rnd, In_Eapol m3) = Some (c', out') \<and> Ac_StartDhcp \<in> set out' \<and>
     cn_state c' = Cs_Configuring \<and> Ac_InstallKeys ki \<in> set out' \<and> ki_pairwise_key ki = Some pk"
proof (rule example_installE)
  fix c out m1 m3 c' out' ki pk
  assume run: "run_machine (conn_poll toy_env) (conn_new example_device [example_profile]) (example_inputs @ [(example_rnd, In_Eapol m1)]) = Some (c, out)"
    and p: "conn_poll toy_env c (example_rnd, In_Eapol m3) = Some (c', out')" "Ac_InstallKeys ki \<in> set out'" "ki_pairwise_key ki = Some pk"
    and d: "Ac_StartDhcp \<in> set out'"
  have "cn_state c' = Cs_Configuring" using conn_dhcp_after_keys[OF toy_env_ok run p(1) d] by blast
  then show ?thesis using run p d by (metis fst_conv)
qed

lemma eapol_parse_garbage: "eapol_parse [1, 3, 0, 0] = Inr \<lparr> ea_version = 1, ea_packet_type = Pt_Key, ea_body = [], ea_raw = [1, 3, 0, 0] \<rparr>"
  by (simp add: eapol_parse_def packet_type_from_u8_def EAPOL_HDR_LEN_def from_be16_def)

theorem conn_handshake_error_witness:
  "\<exists>c c' out. cn_state c = Cs_Handshaking \<and>
     conn_poll toy_env c (example_rnd, In_Eapol [1, 3, 0, 0]) = Some (c', out) \<and> cn_state c' = Cs_Reconnecting \<and>
     last out = Ac_SetTimer ReconnectBackoff (backoff_ms (cn_attempts c + 1))"
proof (rule example_readyE)
  fix c out t s n k m1 m3 assume r: "example_ready c s n k m1 m3" and t: "cn_target c = Some t" "tg_retry t"
  note h = example_hyps(2,3,7)[OF r]
  obtain h' where p: "fw_poll (env_prims toy_env) (fw_new (replicate 32 4) (hs_config_of (cn_device c) (se_choice s) (se_assoc_ie s) n)
      (replicate 32 8)) (Fw_Frame [1, 3, 0, 0]) = Some (h', Inl Ee_Malformed)"
    by (simp add: fw_poll_def fw_on_frame_def eapol_parse_garbage fw_new_def key_parse_def BODY_MIN_def)
  have nt: "\<not> (failure_is_terminal (failure_from_eapol Ee_Malformed) \<or> \<not> tg_retry t)"
    using t by (simp add: failure_is_terminal_def failure_from_eapol_def)
  show ?thesis
    using conn_handshake_error[OF disjI1[OF h(1)] t(1) h(2,3) p eapol_parse_garbage, of example_rnd] nt h(1) by auto
qed

section \<open>Where the code does not do what it means to\<close>

text \<open>
  A lease report is believed in every state: in the idle state, with no target and no link,
  a lease acquired by a DHCP client that was not stopped is applied to the interface and the
  connection enters the connected state, from which no timer and no wireless event but a
  disconnection leads anywhere.
\<close>

theorem conn_stale_lease:
  assumes "cn_state c = Cs_Idle" "cn_target c = None" "cn_armed c = None"
  shows "\<exists>c'. conn_poll E c (rnd, In_Lease (Le_Acquired l)) = Some (c', [Ac_ApplyLease l, Ac_Notify Cs_Connected]) \<and>
    cn_state c' = Cs_Connected \<and> cn_target c' = None \<and> cn_session c' = cn_session c"
  using assms by (simp add: conn_poll_def conn_on_lease_def conn_enter_eq conn_save_profile_def Let_def)

theorem conn_stale_lease_witness:
  "\<exists>c'. conn_poll toy_env example_conn (example_rnd, In_Lease (Le_Acquired example_lease)) =
      Some (c', [Ac_ApplyLease example_lease, Ac_Notify Cs_Connected]) \<and> cn_state c' = Cs_Connected"
  using conn_stale_lease[of example_conn toy_env example_rnd example_lease] by (auto simp: example_conn_def conn_new_def)

text \<open>
  An access point that accepts the association and then stays silent hangs the connection:
  on entering the handshake no timer is running, and no timer that could still fire does anything,
  so without a further frame or event the state never changes, although a handshake is meant to
  be given up after a bounded wait.
\<close>

theorem conn_silent_ap:
  assumes "cn_state c = Cs_Associating" "cn_armed c = Some AssocTimeout" "cn_session c = Some s"
    "se_auth s = Auth_Ready pmk" "ch_rsn (se_choice s) = Some n" "rn_snonce rnd = Some snonce"
  shows "\<exists>c'. conn_poll E c (rnd, In_Wireless (Ev_Connected b Cst_Success)) =
      Some (c', [Ac_ClearTimer AssocTimeout, Ac_Notify Cs_Handshaking]) \<and>
    cn_state c' = Cs_Handshaking \<and> timers_after [Ac_ClearTimer AssocTimeout, Ac_Notify Cs_Handshaking] {AssocTimeout} = {} \<and>
    (\<forall>rnd i. conn_poll E c' (rnd, In_Timer i) = Some (c', []))"
proof -
  let ?h = "fw_new pmk (hs_config_of (cn_device c) (se_choice s) (se_assoc_ie s) n) snonce"
  let ?s = "s \<lparr> se_auth := Auth_Running, se_handshake := Some ?h \<rparr>"
  let ?c = "c \<lparr> cn_session := Some ?s, cn_state := Cs_Handshaking, cn_armed := None \<rparr>"
  have p: "conn_poll E c (rnd, In_Wireless (Ev_Connected b Cst_Success)) =
      Some (?c, [Ac_ClearTimer AssocTimeout, Ac_Notify Cs_Handshaking])"
    using assms by (simp add: conn_poll_def conn_on_wireless_def conn_on_associated_def conn_start_handshake_def
        conn_enter_eq timer_of_def)
  have h: "fw_poll (env_prims E) ?h Fw_Timeout = Some (?h, Inr [])"
    by (simp add: fw_poll_def fw_on_timeout_def fw_new_def)
  have same: "?s \<lparr> se_handshake := Some ?h \<rparr> = ?s" "?c \<lparr> cn_session := Some ?s \<rparr> = ?c" by simp_all
  have "conn_poll_handshake E Fw_Timeout ?c = Some (?c, [])"
    using h by (simp add: conn_poll_handshake_def conn_on_handshake_actions_def)
  then have "conn_poll E ?c (rnd, In_Timer i) = Some (?c, [])" for rnd i
    by (cases i) (simp_all add: conn_poll_def conn_on_timer_def)
  then show ?thesis using p by (intro exI[of _ ?c]) simp
qed

theorem conn_silent_ap_witness:
  "\<exists>c c' out. run_machine (conn_poll toy_env) example_conn
     [(example_rnd, In_Command (Cmd_Connect [65])), (example_rnd, In_ScanResults [example_bss])] = Some (c, out) \<and>
     conn_poll toy_env c (example_rnd, In_Wireless (Ev_Connected None Cst_Success)) =
       Some (c', [Ac_ClearTimer AssocTimeout, Ac_Notify Cs_Handshaking]) \<and>
     (\<forall>i. conn_poll toy_env c' (example_rnd, In_Timer i) = Some (c', []))"
proof -
  obtain c r s pmk where c: "run_machine (conn_poll toy_env) example_conn
     [(example_rnd, In_Command (Cmd_Connect [65])), (example_rnd, In_ScanResults [example_bss])] = Some (c, r)"
     "cn_state c = Cs_Associating" "cn_session c = Some s" "se_auth s = Auth_Ready pmk"
    using example_scan by blast
  have inv: "conn_ok toy_env c" using conn_run_inv[OF toy_env_ok] c(1) unfolding example_conn_def by blast
  then have "cn_armed c = Some AssocTimeout" using c(2) by (simp add: conn_ok_def must_run_def timer_of_def)
  moreover obtain n where "ch_rsn (se_choice s) = Some n"
    using inv c(3,4) by (auto simp: conn_ok_def session_ok_def rsn_needed_def)
  moreover have "rn_snonce example_rnd = Some (replicate 32 8)" by (simp add: example_rnd_def)
  ultimately show ?thesis using conn_silent_ap[OF c(2) _ c(3,4), of n example_rnd "replicate 32 8" toy_env None] c(1) by blast
qed

definition mixed_rsn :: rsn_ie where
  "mixed_rsn = (rsn_example [PskSha256, Dot1xSha256]) \<lparr> rsn_mfp_capable := True, rsn_mfp_required := True \<rparr>"

definition mixed_bss :: bss where
  "mixed_bss = (bss_example [65] (-50)) \<lparr> bss_security := classify (Some mixed_rsn) None True, bss_rsn := Some mixed_rsn \<rparr>"

text \<open>
  A network can be locked out by its own profile: one that offers both a passphrase and
  802.1X under SHA-256 with management frame protection required is joined with the passphrase,
  and is then saved with the security it advertised, WPA3-Enterprise; the very same scan entry is
  refused as a downgrade from then on.
\<close>

theorem conn_saves_what_it_rejects:
  "\<exists>ch c' p. conn_evaluate toy_env mixed_bss (Some (Cred_Passphrase [1])) False
       (conn_new example_device [] \<lparr> cn_target := Some \<lparr> tg_ssid = [65], tg_secret = Some [1], tg_retry = False, tg_save = True \<rparr> \<rparr>) = Inr ch \<and>
     conn_save_profile (conn_new example_device [] \<lparr> cn_target := Some \<lparr> tg_ssid = [65], tg_secret = Some [1], tg_retry = False,
         tg_save = True \<rparr>, cn_session := Some \<lparr> se_choice = ch, se_auth = Auth_Running, se_pmkid = None, se_assoc_ie = [],
         se_handshake = None \<rparr> \<rparr>) = (c', [Ac_SaveProfile p]) \<and>
     conn_evaluate toy_env mixed_bss (Some (pr_credential p)) False c' =
       Inl (F_Downgrade Sec_Wpa3Enterprise Sec_Wpa2Personal)"
  by (simp add: conn_evaluate_def mixed_bss_def mixed_rsn_def example_defs classify_def security_from_akms_def negotiate_def
    choose_akm_def choose_pairwise_def satisfies_def runnable_def AKM_PREFERENCE_def akm_is_psk_def akm_is_sae_def akm_is_enterprise_def
    conn_profile_def conn_new_def negotiated_security_def conn_save_profile_def conn_insert_profile_def
    profile_accepts_def is_at_least_def strength_def security_floor_def Let_def)

text \<open>
  Two scan entries that share a BSSID are confused: the policy picks the entry of the SSID
  asked for, but the entry joined is the first one with its BSSID, here an open network of
  another name, and the association request goes out without any security.
\<close>

theorem conn_select_wrong_entry:
  "\<exists>c' r out. conn_on_scan_results toy_env example_rnd [bss_example [66] (-80), example_bss]
       (conn_new example_device [] \<lparr> cn_state := Cs_Scanning,
          cn_target := Some \<lparr> tg_ssid = [65], tg_secret = None, tg_retry = False, tg_save = True \<rparr> \<rparr>) = Some (c', out) \<and>
     best_bss [bss_example [66] (-80), example_bss] [65] = Some example_bss \<and>
     Ac_Associate r \<in> set out \<and> asr_ssid r = [65] \<and> asr_akms r = []"
  by (simp add: conn_simps example_defs assoc_plain_def)

end
