(* ===== verification/Rust_Text.thy ===== *)
theory Rust_Text
  imports Caw_Prelude
begin

text \<open>
  Rust strings as their UTF-8 bytes. \<open>utf8_lossy\<close> is \<^verbatim>\<open>String::from_utf8_lossy\<close>: it follows the
  standard library's \<^verbatim>\<open>Utf8Chunks\<close> iterator, which reads one character or one maximal ill-formed
  prefix at a time and replaces the latter by U+FFFD. \<open>utf8_valid\<close> is the invariant of \<^verbatim>\<open>str\<close>.
\<close>

definition is_cont :: "u8 \<Rightarrow> bool" where
  "is_cont b \<longleftrightarrow> b AND 192 = 128"

definition byte_or_0 :: "bytes \<Rightarrow> nat \<Rightarrow> u8" where
  "byte_or_0 bs i = (if i < length bs then bs ! i else 0)"

definition second_of_3 :: "u8 \<Rightarrow> u8 \<Rightarrow> bool" where
  "second_of_3 b c \<longleftrightarrow>
     (if b = 0xE0 then 0xA0 \<le> c \<and> c \<le> 0xBF
      else if b = 0xED then 0x80 \<le> c \<and> c \<le> 0x9F
      else 0x80 \<le> c \<and> c \<le> 0xBF)"

definition second_of_4 :: "u8 \<Rightarrow> u8 \<Rightarrow> bool" where
  "second_of_4 b c \<longleftrightarrow>
     (if b = 0xF0 then 0x90 \<le> c \<and> c \<le> 0xBF
      else if b = 0xF4 then 0x80 \<le> c \<and> c \<le> 0x8F
      else 0x80 \<le> c \<and> c \<le> 0xBF)"

text \<open>Whether the character that starts with \<open>b\<close> is complete, and how many bytes it takes of \<open>bs\<close>.\<close>

definition utf8_tail :: "u8 \<Rightarrow> bytes \<Rightarrow> bool \<times> nat" where
  "utf8_tail b bs =
     (if b < 0x80 then (True, 0)
      else if 0xC2 \<le> b \<and> b \<le> 0xDF then
        (if is_cont (byte_or_0 bs 0) then (True, 1) else (False, 0))
      else if 0xE0 \<le> b \<and> b \<le> 0xEF then
        (if \<not> second_of_3 b (byte_or_0 bs 0) then (False, 0)
         else if \<not> is_cont (byte_or_0 bs 1) then (False, 1)
         else (True, 2))
      else if 0xF0 \<le> b \<and> b \<le> 0xF4 then
        (if \<not> second_of_4 b (byte_or_0 bs 0) then (False, 0)
         else if \<not> is_cont (byte_or_0 bs 1) then (False, 1)
         else if \<not> is_cont (byte_or_0 bs 2) then (False, 2)
         else (True, 3))
      else (False, 0))"

fun utf8_next :: "bytes \<Rightarrow> ((bool \<times> bytes) \<times> bytes) option" where
  "utf8_next [] = None"
| "utf8_next (b # bs) =
     (let (ok, n) = utf8_tail b bs in Some ((ok, b # take n bs), drop n bs))"

definition utf8_chunks :: "bytes \<Rightarrow> (bool \<times> bytes) list" where
  "utf8_chunks bs = iter_collect utf8_next bs"

definition utf8_lossy :: "bytes \<Rightarrow> bytes" where
  "utf8_lossy bs = concat (map (\<lambda>(ok, c). if ok then c else [0xEF, 0xBF, 0xBD]) (utf8_chunks bs))"

definition utf8_valid :: "bytes \<Rightarrow> bool" where
  "utf8_valid bs \<longleftrightarrow> list_all fst (utf8_chunks bs)"

interpretation utf8: stream_iter utf8_next
proof
  fix bs x rest assume "utf8_next bs = Some (x, rest)"
  then show "length rest < length bs"
    by (cases bs) (auto simp: case_prod_unfold Let_def)
qed

lemma utf8_chunks_Nil [simp]: "utf8_chunks [] = []"
  by (simp add: utf8_chunks_def utf8.collect_stop)

lemma utf8_chunks_Cons:
  "utf8_chunks (b # bs) =
     (let (ok, n) = utf8_tail b bs in (ok, b # take n bs) # utf8_chunks (drop n bs))"
  by (simp add: utf8_chunks_def utf8.collect_unfold[of "b # bs"] case_prod_unfold Let_def)

lemma utf8_chunks_tile: "concat (map snd (utf8_chunks bs)) = bs"
proof (induction "length bs" arbitrary: bs rule: less_induct)
  case less
  show ?case
  proof (cases bs)
    case (Cons b bs')
    have "concat (map snd (utf8_chunks (drop n bs'))) = drop n bs'" for n
      using Cons by (intro less) simp
    then show ?thesis
      using Cons by (simp add: utf8_chunks_Cons case_prod_unfold Let_def)
  qed simp
qed

lemma utf8_lossy_valid: "utf8_valid bs \<Longrightarrow> utf8_lossy bs = bs"
proof -
  assume v: "utf8_valid bs"
  have "map (\<lambda>(ok, c). if ok then c else [0xEF, 0xBF, 0xBD]) (utf8_chunks bs)
      = map snd (utf8_chunks bs)"
    using v by (auto simp: utf8_valid_def list_all_iff)
  then have "utf8_lossy bs = concat (map snd (utf8_chunks bs))"
    unfolding utf8_lossy_def by (rule arg_cong)
  then show ?thesis by (simp only: utf8_chunks_tile)
qed

lemma utf8_valid_Nil [simp]: "utf8_valid []"
  by (simp add: utf8_valid_def)

lemma utf8_lossy_Nil [simp]: "utf8_lossy [] = []"
  by (simp add: utf8_lossy_def)

lemma utf8_ascii: "list_all (\<lambda>b. b < 0x80) bs \<Longrightarrow> utf8_valid bs"
  by (induction bs) (auto simp: utf8_valid_def utf8_chunks_Cons utf8_tail_def)

section \<open>UTF-16\<close>

text \<open>The code point of one well-formed character, and \<^verbatim>\<open>str::encode_utf16\<close>.\<close>

fun code_point :: "bytes \<Rightarrow> nat" where
  "code_point [a] = unat a"
| "code_point [a, b] = unat (a AND 0x1F) * 64 + unat (b AND 0x3F)"
| "code_point [a, b, c] = (unat (a AND 0x0F) * 64 + unat (b AND 0x3F)) * 64 + unat (c AND 0x3F)"
| "code_point [a, b, c, d] =
     ((unat (a AND 0x07) * 64 + unat (b AND 0x3F)) * 64 + unat (c AND 0x3F)) * 64 + unat (d AND 0x3F)"
| "code_point _ = 0"

definition utf16_char :: "nat \<Rightarrow> u16 list" where
  "utf16_char cp =
     (if cp < 0x10000 then [of_nat cp]
      else [of_nat (0xD800 + (cp - 0x10000) div 1024), of_nat (0xDC00 + (cp - 0x10000) mod 1024)])"

definition encode_utf16 :: "bytes \<Rightarrow> u16 list" where
  "encode_utf16 s = concat (map (\<lambda>(_, c). utf16_char (code_point c)) (utf8_chunks s))"

text \<open>The bytes of a byte-string literal.\<close>

definition ascii :: "string \<Rightarrow> bytes" where
  "ascii s = map of_char s"

end
