(* ===== verification/Dhcp_Message.thy ===== *)
theory Dhcp_Message
  imports Dhcp_Types Rust_Text
begin

text \<open>
  DHCP messages on the wire (\<^verbatim>\<open>src/crates/caw-dhcp/src/options.rs\<close> and
  \<^verbatim>\<open>src/crates/caw-dhcp/src/message.rs\<close>): the option area, the BOOTP fixed part with option
  overload, and the encoder. The main facts are that decoding undoes encoding for every
  message whose fields fit their encodings, and that the decoder's option loop is total.
\<close>

datatype dhcp_error = De_Malformed | De_Incomplete u8 | De_Nak

section \<open>Options\<close>

definition OPT_PAD :: u8 where "OPT_PAD = 0"
definition OPT_SUBNET_MASK :: u8 where "OPT_SUBNET_MASK = 1"
definition OPT_ROUTER :: u8 where "OPT_ROUTER = 3"
definition OPT_DNS :: u8 where "OPT_DNS = 6"
definition OPT_HOSTNAME :: u8 where "OPT_HOSTNAME = 12"
definition OPT_REQUESTED_IP :: u8 where "OPT_REQUESTED_IP = 50"
definition OPT_LEASE_TIME :: u8 where "OPT_LEASE_TIME = 51"
definition OPT_OVERLOAD :: u8 where "OPT_OVERLOAD = 52"
definition OPT_MESSAGE_TYPE :: u8 where "OPT_MESSAGE_TYPE = 53"
definition OPT_SERVER_ID :: u8 where "OPT_SERVER_ID = 54"
definition OPT_PARAM_REQUEST :: u8 where "OPT_PARAM_REQUEST = 55"
definition OPT_T1 :: u8 where "OPT_T1 = 58"
definition OPT_T2 :: u8 where "OPT_T2 = 59"
definition OPT_CLIENT_ID :: u8 where "OPT_CLIENT_ID = 61"
definition OPT_END :: u8 where "OPT_END = 255"
definition OVERLOAD_FILE :: u8 where "OVERLOAD_FILE = 1"
definition OVERLOAD_SNAME :: u8 where "OVERLOAD_SNAME = 2"

lemmas opt_codes = OPT_PAD_def OPT_SUBNET_MASK_def OPT_ROUTER_def OPT_DNS_def OPT_HOSTNAME_def
  OPT_REQUESTED_IP_def OPT_LEASE_TIME_def OPT_OVERLOAD_def OPT_MESSAGE_TYPE_def OPT_SERVER_ID_def
  OPT_PARAM_REQUEST_def OPT_T1_def OPT_T2_def OPT_CLIENT_ID_def OPT_END_def

datatype message_type =
    Mt_Discover | Mt_Offer | Mt_Request | Mt_Decline | Mt_Ack | Mt_Nak | Mt_Release | Mt_Inform
  | Mt_Other u8

definition mt_from_code :: "u8 \<Rightarrow> message_type" where
  "mt_from_code c =
     (if c = 1 then Mt_Discover else if c = 2 then Mt_Offer else if c = 3 then Mt_Request
      else if c = 4 then Mt_Decline else if c = 5 then Mt_Ack else if c = 6 then Mt_Nak
      else if c = 7 then Mt_Release else if c = 8 then Mt_Inform else Mt_Other c)"

primrec mt_code :: "message_type \<Rightarrow> u8" where
  "mt_code Mt_Discover = 1"
| "mt_code Mt_Offer = 2"
| "mt_code Mt_Request = 3"
| "mt_code Mt_Decline = 4"
| "mt_code Mt_Ack = 5"
| "mt_code Mt_Nak = 6"
| "mt_code Mt_Release = 7"
| "mt_code Mt_Inform = 8"
| "mt_code (Mt_Other c) = c"

datatype dhcp_option =
    Do_SubnetMask ipv4
  | Do_Router "ipv4 list"
  | Do_Dns "ipv4 list"
  | Do_HostName bytes
  | Do_RequestedIp ipv4
  | Do_LeaseTime u32
  | Do_MessageType message_type
  | Do_ServerId ipv4
  | Do_ParameterRequest bytes
  | Do_T1 u32
  | Do_T2 u32
  | Do_ClientId bytes
  | Do_Other u8 bytes

primrec opt_code :: "dhcp_option \<Rightarrow> u8" where
  "opt_code (Do_SubnetMask a) = OPT_SUBNET_MASK"
| "opt_code (Do_Router l) = OPT_ROUTER"
| "opt_code (Do_Dns l) = OPT_DNS"
| "opt_code (Do_HostName n) = OPT_HOSTNAME"
| "opt_code (Do_RequestedIp a) = OPT_REQUESTED_IP"
| "opt_code (Do_LeaseTime t) = OPT_LEASE_TIME"
| "opt_code (Do_MessageType m) = OPT_MESSAGE_TYPE"
| "opt_code (Do_ServerId a) = OPT_SERVER_ID"
| "opt_code (Do_ParameterRequest d) = OPT_PARAM_REQUEST"
| "opt_code (Do_T1 t) = OPT_T1"
| "opt_code (Do_T2 t) = OPT_T2"
| "opt_code (Do_ClientId d) = OPT_CLIENT_ID"
| "opt_code (Do_Other c d) = c"

fun dhcp_be_u32 :: "bytes \<Rightarrow> dhcp_error + u32" where
  "dhcp_be_u32 [a, b, c, d] = Inr (from_be32 a b c d)"
| "dhcp_be_u32 _ = Inl De_Malformed"

fun dhcp_ipv4 :: "bytes \<Rightarrow> dhcp_error + ipv4" where
  "dhcp_ipv4 [a, b, c, d] = Inr (from_be32 a b c d)"
| "dhcp_ipv4 _ = Inl De_Malformed"

text \<open>The whole addresses of a slice (\<^verbatim>\<open>as_chunks::<4>().0\<close>).\<close>

fun ipv4_chunks :: "bytes \<Rightarrow> ipv4 list" where
  "ipv4_chunks (a # b # c # d # rest) = from_be32 a b c d # ipv4_chunks rest"
| "ipv4_chunks _ = []"

definition dhcp_ipv4_list :: "bytes \<Rightarrow> dhcp_error + ipv4 list" where
  "dhcp_ipv4_list data =
     (if data = [] \<or> length data mod 4 \<noteq> 0 then Inl De_Malformed else Inr (ipv4_chunks data))"

definition opt_decode :: "u8 \<Rightarrow> bytes \<Rightarrow> dhcp_error + dhcp_option" where
  "opt_decode code data =
     (if code = OPT_SUBNET_MASK then map_sum id Do_SubnetMask (dhcp_ipv4 data)
      else if code = OPT_ROUTER then map_sum id Do_Router (dhcp_ipv4_list data)
      else if code = OPT_DNS then map_sum id Do_Dns (dhcp_ipv4_list data)
      else if code = OPT_HOSTNAME then Inr (Do_HostName (utf8_lossy data))
      else if code = OPT_REQUESTED_IP then map_sum id Do_RequestedIp (dhcp_ipv4 data)
      else if code = OPT_LEASE_TIME then map_sum id Do_LeaseTime (dhcp_be_u32 data)
      else if code = OPT_MESSAGE_TYPE then
        (case data of [c] \<Rightarrow> Inr (Do_MessageType (mt_from_code c)) | _ \<Rightarrow> Inl De_Malformed)
      else if code = OPT_SERVER_ID then map_sum id Do_ServerId (dhcp_ipv4 data)
      else if code = OPT_PARAM_REQUEST then Inr (Do_ParameterRequest data)
      else if code = OPT_T1 then map_sum id Do_T1 (dhcp_be_u32 data)
      else if code = OPT_T2 then map_sum id Do_T2 (dhcp_be_u32 data)
      else if code = OPT_CLIENT_ID then Inr (Do_ClientId data)
      else Inr (Do_Other code data))"

definition dhcp_tlv :: "u8 \<Rightarrow> bytes \<Rightarrow> bytes" where
  "dhcp_tlv code data =
     (let len = min (length data) 255 in code # of_nat len # take len data)"

fun opt_encode :: "dhcp_option \<Rightarrow> bytes" where
  "opt_encode (Do_SubnetMask a) = dhcp_tlv OPT_SUBNET_MASK (u32_be a)"
| "opt_encode (Do_RequestedIp a) = dhcp_tlv OPT_REQUESTED_IP (u32_be a)"
| "opt_encode (Do_ServerId a) = dhcp_tlv OPT_SERVER_ID (u32_be a)"
| "opt_encode (Do_Router l) = dhcp_tlv OPT_ROUTER (concat (map u32_be l))"
| "opt_encode (Do_Dns l) = dhcp_tlv OPT_DNS (concat (map u32_be l))"
| "opt_encode (Do_HostName n) = dhcp_tlv OPT_HOSTNAME n"
| "opt_encode (Do_LeaseTime t) = dhcp_tlv OPT_LEASE_TIME (u32_be t)"
| "opt_encode (Do_T1 t) = dhcp_tlv OPT_T1 (u32_be t)"
| "opt_encode (Do_T2 t) = dhcp_tlv OPT_T2 (u32_be t)"
| "opt_encode (Do_MessageType m) = dhcp_tlv OPT_MESSAGE_TYPE [mt_code m]"
| "opt_encode (Do_ParameterRequest d) = dhcp_tlv OPT_PARAM_REQUEST d"
| "opt_encode (Do_ClientId d) = dhcp_tlv OPT_CLIENT_ID d"
| "opt_encode (Do_Other c d) = dhcp_tlv c d"

text \<open>
  The decoding loop on the unread bytes, with the overload bits and the options read so far. On an
  error the caller drops the options.
\<close>

function (sequential) options_decode ::
  "u8 \<Rightarrow> dhcp_option list \<Rightarrow> bytes \<Rightarrow> dhcp_error + (u8 \<times> dhcp_option list)" where
  "options_decode overload out [] = Inr (overload, out)"
| "options_decode overload out (code # bs) =
     (if code = OPT_PAD then options_decode overload out bs
      else if code = OPT_END then Inr (overload, out)
      else
        (case bs of
           [] \<Rightarrow> Inl De_Malformed
         | len # rest \<Rightarrow>
             if length rest < unat len then Inl De_Malformed
             else
               let data = take (unat len) rest;
                   bs' = drop (unat len) rest
               in if code = OPT_OVERLOAD then
                    (case data of
                       [bits] \<Rightarrow> options_decode (overload OR bits) out bs'
                     | _ \<Rightarrow> Inl De_Malformed)
                  else
                    (case opt_decode code data of
                       Inl e \<Rightarrow> Inl e
                     | Inr opt \<Rightarrow> options_decode overload (out @ [opt]) bs')))"
  by pat_completeness auto
termination
  by (relation "measure (\<lambda>(_, _, bs). length bs)") auto

definition options_encode :: "dhcp_option list \<Rightarrow> bytes" where
  "options_encode options = concat (map opt_encode options) @ [OPT_END]"

section \<open>Messages\<close>

definition BOOTREQUEST :: u8 where "BOOTREQUEST = 1"
definition BOOTREPLY :: u8 where "BOOTREPLY = 2"
definition HTYPE_ETHERNET :: u8 where "HTYPE_ETHERNET = 1"
definition FLAG_BROADCAST :: u16 where "FLAG_BROADCAST = 0x8000"
definition MAGIC_COOKIE :: bytes where "MAGIC_COOKIE = [0x63, 0x82, 0x53, 0x63]"
definition SNAME :: nat where "SNAME = 44"
definition FILE :: nat where "FILE = 108"
definition FIXED_LEN :: nat where "FIXED_LEN = 236"
definition MIN_LEN :: nat where "MIN_LEN = 300"

record dhcp_msg =
  dm_op :: u8
  dm_htype :: u8
  dm_hlen :: u8
  dm_hops :: u8
  dm_xid :: u32
  dm_secs :: u16
  dm_flags :: u16
  dm_ciaddr :: ipv4
  dm_yiaddr :: ipv4
  dm_siaddr :: ipv4
  dm_giaddr :: ipv4
  dm_chaddr :: bytes
  dm_sname :: bytes
  dm_file :: bytes
  dm_options :: "dhcp_option list"

definition msg_request :: "u32 \<Rightarrow> bytes \<Rightarrow> dhcp_msg" where
  "msg_request xid mac =
     \<lparr>dm_op = BOOTREQUEST, dm_htype = HTYPE_ETHERNET, dm_hlen = 6, dm_hops = 0, dm_xid = xid,
      dm_secs = 0, dm_flags = 0, dm_ciaddr = 0, dm_yiaddr = 0, dm_siaddr = 0, dm_giaddr = 0,
      dm_chaddr = mac @ replicate 10 0, dm_sname = [], dm_file = [], dm_options = []\<rparr>"

definition ipv4_at :: "bytes \<Rightarrow> nat \<Rightarrow> ipv4" where
  "ipv4_at buf i = from_be32 (buf ! i) (buf ! (i + 1)) (buf ! (i + 2)) (buf ! (i + 3))"

definition text_field :: "bytes \<Rightarrow> bytes" where
  "text_field bs = utf8_lossy (takeWhile (\<lambda>b. b \<noteq> 0) bs)"

definition text_out :: "bytes \<Rightarrow> nat \<Rightarrow> bytes" where
  "text_out v width =
     (let len = min (length v) (width - 1) in take len v @ replicate (width - len) 0)"

text \<open>
  The fixed offsets below are read only after the cookie has been found at 236 \<open>..\<close> 240, so every
  index is inside the buffer.
\<close>

definition msg_decode :: "bytes \<Rightarrow> dhcp_error + dhcp_msg" where
  "msg_decode buf =
     (case get_range FIXED_LEN (FIXED_LEN + 4) buf of
        None \<Rightarrow> Inl De_Malformed
      | Some cookie \<Rightarrow>
          if cookie \<noteq> MAGIC_COOKIE then Inl De_Malformed
          else
            let file_area = take (FIXED_LEN - FILE) (drop FILE buf);
                sname_area = take (FILE - SNAME) (drop SNAME buf)
            in case options_decode 0 [] (drop (FIXED_LEN + 4) buf) of
                 Inl e \<Rightarrow> Inl e
               | Inr (overload, options) \<Rightarrow>
                   (case (if overload AND OVERLOAD_FILE \<noteq> 0
                          then map_sum id (\<lambda>(_, os). (os, [])) (options_decode 0 options file_area)
                          else Inr (options, text_field file_area)) of
                      Inl e \<Rightarrow> Inl e
                    | Inr (options', file) \<Rightarrow>
                        (case (if overload AND OVERLOAD_SNAME \<noteq> 0
                               then map_sum id (\<lambda>(_, os). (os, [])) (options_decode 0 options' sname_area)
                               else Inr (options', text_field sname_area)) of
                           Inl e \<Rightarrow> Inl e
                         | Inr (options'', sname) \<Rightarrow>
                             Inr \<lparr>dm_op = buf ! 0, dm_htype = buf ! 1, dm_hlen = buf ! 2,
                                  dm_hops = buf ! 3,
                                  dm_xid = from_be32 (buf ! 4) (buf ! 5) (buf ! 6) (buf ! 7),
                                  dm_secs = from_be16 (buf ! 8) (buf ! 9),
                                  dm_flags = from_be16 (buf ! 10) (buf ! 11),
                                  dm_ciaddr = ipv4_at buf 12, dm_yiaddr = ipv4_at buf 16,
                                  dm_siaddr = ipv4_at buf 20, dm_giaddr = ipv4_at buf 24,
                                  dm_chaddr = take 16 (drop 28 buf),
                                  dm_sname = sname, dm_file = file, dm_options = options''\<rparr>)))"

definition msg_header :: "dhcp_msg \<Rightarrow> bytes" where
  "msg_header m =
     [dm_op m, dm_htype m, dm_hlen m, dm_hops m] @ u32_be (dm_xid m) @ u16_be (dm_secs m)
     @ u16_be (dm_flags m) @ u32_be (dm_ciaddr m) @ u32_be (dm_yiaddr m) @ u32_be (dm_siaddr m)
     @ u32_be (dm_giaddr m)"

definition msg_encode :: "dhcp_msg \<Rightarrow> bytes" where
  "msg_encode m =
     (let buf = msg_header m @ dm_chaddr m @ text_out (dm_sname m) (FILE - SNAME)
                @ text_out (dm_file m) (FIXED_LEN - FILE) @ MAGIC_COOKIE
                @ options_encode (dm_options m)
      in buf @ replicate (max (length buf) MIN_LEN - length buf) OPT_PAD)"

definition msg_get :: "u8 \<Rightarrow> dhcp_msg \<Rightarrow> dhcp_option option" where
  "msg_get code m = find (\<lambda>opt. opt_code opt = code) (dm_options m)"

definition msg_message_type :: "dhcp_msg \<Rightarrow> message_type option" where
  "msg_message_type m =
     find_map (\<lambda>opt. case opt of Do_MessageType mt \<Rightarrow> Some mt | _ \<Rightarrow> None) (dm_options m)"

definition msg_server_id :: "dhcp_msg \<Rightarrow> ipv4 option" where
  "msg_server_id m =
     find_map (\<lambda>opt. case opt of Do_ServerId a \<Rightarrow> Some a | _ \<Rightarrow> None) (dm_options m)"

section \<open>What the decoder reads back\<close>

text \<open>
  The options whose value survives the encoding: a length that fits one byte, a name that is
  UTF-8, a list of addresses that is not empty, and codes that are not spoken for.
\<close>

fun opt_fits :: "dhcp_option \<Rightarrow> bool" where
  "opt_fits (Do_Router l) \<longleftrightarrow> l \<noteq> [] \<and> length l \<le> 63"
| "opt_fits (Do_Dns l) \<longleftrightarrow> l \<noteq> [] \<and> length l \<le> 63"
| "opt_fits (Do_HostName n) \<longleftrightarrow> utf8_valid n \<and> length n \<le> 255"
| "opt_fits (Do_MessageType m) \<longleftrightarrow> mt_from_code (mt_code m) = m"
| "opt_fits (Do_ParameterRequest d) \<longleftrightarrow> length d \<le> 255"
| "opt_fits (Do_ClientId d) \<longleftrightarrow> length d \<le> 255"
| "opt_fits (Do_Other c d) \<longleftrightarrow>
     length d \<le> 255 \<and>
     c \<notin> {OPT_PAD, OPT_SUBNET_MASK, OPT_ROUTER, OPT_DNS, OPT_HOSTNAME, OPT_REQUESTED_IP,
           OPT_LEASE_TIME, OPT_OVERLOAD, OPT_MESSAGE_TYPE, OPT_SERVER_ID, OPT_PARAM_REQUEST,
           OPT_T1, OPT_T2, OPT_CLIENT_ID, OPT_END}"
| "opt_fits _ \<longleftrightarrow> True"

lemma dhcp_be_u32_u32_be [simp]: "dhcp_be_u32 (u32_be w) = Inr w"
  by (simp add: u32_be_def)

lemma dhcp_ipv4_u32_be [simp]: "dhcp_ipv4 (u32_be w) = Inr w"
  by (simp add: u32_be_def)

lemma length_concat_u32_be [simp]: "length (concat (map u32_be l)) = 4 * length l"
  by (induction l) auto

lemma ipv4_chunks_concat [simp]: "ipv4_chunks (concat (map u32_be l)) = l"
  by (induction l) (auto simp: u32_be_def)

lemma dhcp_ipv4_list_concat:
  assumes "l \<noteq> []"
  shows "dhcp_ipv4_list (concat (map u32_be l)) = Inr l"
proof -
  have "length (concat (map u32_be l)) \<noteq> 0" using assms by (simp only: length_concat_u32_be) simp
  then have "concat (map u32_be l) \<noteq> []" by fastforce
  then show ?thesis by (simp add: dhcp_ipv4_list_def)
qed

lemma options_decode_tlv:
  assumes "code \<noteq> OPT_PAD" "code \<noteq> OPT_END" "code \<noteq> OPT_OVERLOAD" "length data \<le> 255"
    and "opt_decode code data = Inr opt"
  shows "options_decode ov out (dhcp_tlv code data @ rest) = options_decode ov (out @ [opt]) rest"
proof -
  have "unat (of_nat (length data) :: u8) = length data"
    using assms(4) by (simp add: unat_of_nat)
  then show ?thesis using assms by (simp add: dhcp_tlv_def Let_def min_def)
qed

lemma options_decode_opt:
  assumes "opt_fits opt"
  shows "options_decode ov out (opt_encode opt @ rest) = options_decode ov (out @ [opt]) rest"
  using assms
  by (cases opt)
    (auto intro!: options_decode_tlv simp: opt_codes opt_decode_def dhcp_ipv4_list_concat
      utf8_lossy_valid)

lemma options_decode_encode:
  "list_all opt_fits os \<Longrightarrow>
     options_decode ov out (options_encode os @ rest) = Inr (ov, out @ os)"
  by (induction os arbitrary: out)
    (auto simp: options_encode_def options_decode_opt opt_codes)

definition text_fits :: "nat \<Rightarrow> bytes \<Rightarrow> bool" where
  "text_fits width t \<longleftrightarrow> length t < width \<and> 0 \<notin> set t \<and> utf8_valid t"

lemma length_text_out [simp]: "0 < width \<Longrightarrow> length (text_out v width) = width"
  by (simp add: text_out_def Let_def)

lemma text_field_text_out:
  assumes "text_fits width t"
  shows "text_field (text_out t width) = t"
proof -
  have "text_out t width = t @ 0 # replicate (width - length t - 1) 0"
    using assms by (auto simp: text_fits_def text_out_def Let_def min_def
        simp flip: replicate_Suc)
  moreover have "takeWhile (\<lambda>b. b \<noteq> 0) (t @ 0 # r) = t" for r
    using assms by (auto simp: text_fits_def takeWhile_append)
  ultimately show ?thesis using assms by (simp add: text_field_def text_fits_def utf8_lossy_valid)
qed

definition msg_fits :: "dhcp_msg \<Rightarrow> bool" where
  "msg_fits m \<longleftrightarrow>
     length (dm_chaddr m) = 16 \<and> text_fits (FILE - SNAME) (dm_sname m)
     \<and> text_fits (FIXED_LEN - FILE) (dm_file m) \<and> list_all opt_fits (dm_options m)"

lemma length_msg_header [simp]: "length (msg_header m) = 28"
  by (simp add: msg_header_def)

lemmas offsets = SNAME_def FILE_def FIXED_LEN_def MIN_LEN_def

lemma msg_encode_split:
  assumes "length (dm_chaddr m) = 16"
  obtains pad where
    "msg_encode m = msg_header m @ dm_chaddr m @ text_out (dm_sname m) 64 @ text_out (dm_file m) 128
       @ MAGIC_COOKIE @ options_encode (dm_options m) @ pad"
  by (simp add: msg_encode_def Let_def offsets)

lemma length_msg_encode: "length (dm_chaddr m) = 16 \<Longrightarrow> MIN_LEN \<le> length (msg_encode m)"
  by (simp add: msg_encode_def Let_def)

lemma ipv4_at_header:
  "ipv4_at (msg_header m @ r) 12 = dm_ciaddr m" "ipv4_at (msg_header m @ r) 16 = dm_yiaddr m"
  "ipv4_at (msg_header m @ r) 20 = dm_siaddr m" "ipv4_at (msg_header m @ r) 24 = dm_giaddr m"
  by (simp_all add: ipv4_at_def msg_header_def u32_be_def u16_be_def)

lemma header_fields:
  "(msg_header m @ r) ! 0 = dm_op m" "(msg_header m @ r) ! Suc 0 = dm_htype m"
  "(msg_header m @ r) ! 2 = dm_hlen m" "(msg_header m @ r) ! 3 = dm_hops m"
  "from_be32 ((msg_header m @ r) ! 4) ((msg_header m @ r) ! 5) ((msg_header m @ r) ! 6)
     ((msg_header m @ r) ! 7) = dm_xid m"
  "from_be16 ((msg_header m @ r) ! 8) ((msg_header m @ r) ! 9) = dm_secs m"
  "from_be16 ((msg_header m @ r) ! 10) ((msg_header m @ r) ! 11) = dm_flags m"
  by (simp_all add: msg_header_def u32_be_def u16_be_def)

lemma msg_decode_encode:
  assumes fits: "msg_fits m"
  shows "msg_decode (msg_encode m) = Inr m"
proof -
  have ch: "length (dm_chaddr m) = 16" using fits by (simp add: msg_fits_def)
  obtain pad where e: "msg_encode m = msg_header m @ dm_chaddr m @ text_out (dm_sname m) 64
      @ text_out (dm_file m) 128 @ MAGIC_COOKIE @ options_encode (dm_options m) @ pad"
    by (rule msg_encode_split[OF ch])
  have opts: "list_all opt_fits (dm_options m)" using fits by (simp add: msg_fits_def)
  have sn: "text_field (text_out (dm_sname m) 64) = dm_sname m"
    and fl: "text_field (text_out (dm_file m) 128) = dm_file m"
    using fits by (auto simp: msg_fits_def offsets intro!: text_field_text_out)
  have cookie: "length MAGIC_COOKIE = 4" by (simp add: MAGIC_COOKIE_def)
  show ?thesis
    unfolding msg_decode_def e offsets
    using opts by (simp add: get_range_def ch cookie options_decode_encode header_fields ipv4_at_header sn fl)
qed

end
