(* ===== verification/Dhcp_Client.thy ===== *)
theory Dhcp_Client
  imports Dhcp_Message
begin

text \<open>
  The DHCPv4 client (\<^verbatim>\<open>src/crates/caw-dhcp/src/client.rs\<close>): reading a lease out of an
  acknowledgement, and the state machine \<^verbatim>\<open>Dhcp4::poll\<close> from DISCOVER to renewal, rebinding and
  expiry. \<open>dhcp_poll\<close> returns the successor and the actions; nothing in it can panic while the
  invariant \<open>dhcp_inv\<close> holds, because the retransmission counter stays below \<open>MAX_TRIES\<close>.
\<close>

definition PARAM_REQUEST :: bytes where
  "PARAM_REQUEST = [OPT_SUBNET_MASK, OPT_ROUTER, OPT_DNS, OPT_LEASE_TIME, OPT_T1, OPT_T2]"

definition MIN_RENEW_INTERVAL :: u32 where "MIN_RENEW_INTERVAL = 60"
definition MAX_TRIES :: u32 where "MAX_TRIES = 4"

definition sat_add32 :: "u32 \<Rightarrow> u32 \<Rightarrow> u32" where
  "sat_add32 a b = (if unat a + unat b < 2 ^ 32 then a + b else - 1)"

definition sat_sub32 :: "u32 \<Rightarrow> u32 \<Rightarrow> u32" where
  "sat_sub32 a b = (if b \<le> a then a - b else 0)"

section \<open>The lease in an acknowledgement\<close>

definition ack_gateway :: "dhcp_msg \<Rightarrow> ipv4 option" where
  "ack_gateway msg =
     (case msg_get OPT_ROUTER msg of
        Some (Do_Router list) \<Rightarrow> find (\<lambda>a. a \<noteq> 0) list
      | _ \<Rightarrow> None)"

definition ack_dns :: "dhcp_msg \<Rightarrow> ipv4 list" where
  "ack_dns msg = (case msg_get OPT_DNS msg of Some (Do_Dns list) \<Rightarrow> list | _ \<Rightarrow> [])"

definition ack_renew :: "u32 \<Rightarrow> dhcp_msg \<Rightarrow> u32" where
  "ack_renew lease_secs msg =
     (let default_t1 = ucast ((ucast lease_secs :: u64) div 2)
      in case msg_get OPT_T1 msg of
           Some (Do_T1 t) \<Rightarrow> if 0 < t \<and> t < lease_secs then t else default_t1
         | _ \<Rightarrow> default_t1)"

definition ack_rebind :: "u32 \<Rightarrow> u32 \<Rightarrow> dhcp_msg \<Rightarrow> u32" where
  "ack_rebind lease_secs renew_secs msg =
     (let default_t2 = ucast ((ucast lease_secs :: u64) * 7 div 8)
      in case msg_get OPT_T2 msg of
           Some (Do_T2 t) \<Rightarrow>
             if renew_secs < t \<and> t < lease_secs then t else max default_t2 renew_secs
         | _ \<Rightarrow> max default_t2 renew_secs)"

definition lease_from_ack :: "dhcp_msg \<Rightarrow> dhcp_error + lease" where
  "lease_from_ack msg =
     (case msg_message_type msg of
        Some Mt_Ack \<Rightarrow>
          if dm_yiaddr msg = 0 then Inl De_Malformed
          else
            (case msg_get OPT_SUBNET_MASK msg of
               Some (Do_SubnetMask m) \<Rightarrow>
                 (case prefix_len_from_mask m of
                    None \<Rightarrow> Inl De_Malformed
                  | Some prefix_len \<Rightarrow>
                      (case msg_get OPT_LEASE_TIME msg of
                         Some (Do_LeaseTime lease_secs) \<Rightarrow>
                           (case msg_server_id msg of
                              None \<Rightarrow> Inl (De_Incomplete OPT_SERVER_ID)
                            | Some server \<Rightarrow>
                                let renew_secs = ack_renew lease_secs msg
                                in Inr \<lparr>ls_addr = dm_yiaddr msg, ls_prefix_len = prefix_len,
                                        ls_gateway = ack_gateway msg, ls_dns = ack_dns msg,
                                        ls_server = server, ls_lease_secs = lease_secs,
                                        ls_renew_secs = renew_secs,
                                        ls_rebind_secs = ack_rebind lease_secs renew_secs msg\<rparr>)
                       | _ \<Rightarrow> Inl (De_Incomplete OPT_LEASE_TIME)))
             | _ \<Rightarrow> Inl (De_Incomplete OPT_SUBNET_MASK))
      | Some Mt_Nak \<Rightarrow> Inl De_Nak
      | _ \<Rightarrow> Inl De_Malformed)"

definition lease_netmask :: "lease \<Rightarrow> ipv4" where
  "lease_netmask l = (case mask_from_prefix_len (ls_prefix_len l) of Some m \<Rightarrow> m | None \<Rightarrow> - 1)"

section \<open>The machine\<close>

datatype dhcp_state =
  Ds_Init | Ds_Selecting | Ds_Requesting | Ds_Bound | Ds_Renewing | Ds_Rebinding

datatype dhcp_timer = Dt_Retransmit | Dt_Renew | Dt_Rebind | Dt_Expire

datatype dhcp_input = Di_Start u32 | Di_Datagram bytes | Di_Timeout dhcp_timer

datatype dhcp_action =
    Da_Broadcast bytes
  | Da_Unicast ipv4 bytes
  | Da_SetTimer dhcp_timer u32
  | Da_Configured lease
  | Da_Deconfigure dhcp_reason
  | Da_Failed

record dhcp4 =
  dc_mac :: bytes
  dc_hostname :: "bytes option"
  dc_xid :: u32
  dc_state :: dhcp_state
  dc_server :: "ipv4 option"
  dc_offered :: ipv4
  dc_lease :: "lease option"
  dc_tries :: u32
  dc_elapsed :: u32
  dc_renew_interval :: u32

definition dhcp_new :: "bytes \<Rightarrow> u32 \<Rightarrow> dhcp4" where
  "dhcp_new mac xid =
     \<lparr>dc_mac = mac, dc_hostname = None, dc_xid = xid, dc_state = Ds_Init, dc_server = None,
      dc_offered = 0, dc_lease = None, dc_tries = 0, dc_elapsed = 0,
      dc_renew_interval = MIN_RENEW_INTERVAL\<rparr>"

definition dhcp_with_hostname :: "bytes \<Rightarrow> dhcp4 \<Rightarrow> dhcp4" where
  "dhcp_with_hostname h c = c\<lparr>dc_hostname := Some h\<rparr>"

definition dhcp_backoff :: "dhcp4 \<Rightarrow> u32" where
  "dhcp_backoff c =
     (let base = push_bit (unat (min (dc_tries c) 4)) 4
      in if drop_bit (unat (dc_tries c AND 31)) (dc_xid c) AND 1 = 0 then base - 1 else base + 1)"

definition dhcp_base :: "dhcp4 \<Rightarrow> message_type \<Rightarrow> dhcp_msg" where
  "dhcp_base c kind =
     (msg_request (dc_xid c) (dc_mac c))
       \<lparr>dm_secs := ucast (min (dc_elapsed c) 0xFFFF),
        dm_options :=
          [Do_MessageType kind, Do_ClientId (HTYPE_ETHERNET # dc_mac c)]
          @ (case dc_hostname c of None \<Rightarrow> [] | Some h \<Rightarrow> [Do_HostName h])
          @ [Do_ParameterRequest PARAM_REQUEST]\<rparr>"

definition dhcp_discover_msg :: "dhcp4 \<Rightarrow> dhcp_msg" where
  "dhcp_discover_msg c = (dhcp_base c Mt_Discover)\<lparr>dm_flags := FLAG_BROADCAST\<rparr>"

definition dhcp_discover :: "dhcp4 \<Rightarrow> bytes" where
  "dhcp_discover c = msg_encode (dhcp_discover_msg c)"

definition dhcp_select_msg :: "dhcp4 \<Rightarrow> dhcp_msg" where
  "dhcp_select_msg c =
     (let m = dhcp_base c Mt_Request
      in m\<lparr>dm_flags := FLAG_BROADCAST,
           dm_options := dm_options m @ [Do_RequestedIp (dc_offered c)]
             @ (case dc_server c of None \<Rightarrow> [] | Some s \<Rightarrow> [Do_ServerId s])\<rparr>)"

definition dhcp_request_selecting :: "dhcp4 \<Rightarrow> bytes" where
  "dhcp_request_selecting c = msg_encode (dhcp_select_msg c)"

definition dhcp_renew_msg :: "dhcp4 \<Rightarrow> dhcp_msg" where
  "dhcp_renew_msg c =
     (dhcp_base c Mt_Request)
       \<lparr>dm_ciaddr := (case dc_lease c of None \<Rightarrow> 0 | Some l \<Rightarrow> ls_addr l)\<rparr>"

definition dhcp_request_renew :: "dhcp4 \<Rightarrow> bytes" where
  "dhcp_request_renew c = msg_encode (dhcp_renew_msg c)"

definition dhcp_broadcast :: "dhcp4 \<Rightarrow> bytes \<Rightarrow> dhcp_action list" where
  "dhcp_broadcast c data = [Da_Broadcast data, Da_SetTimer Dt_Retransmit (dhcp_backoff c)]"

definition dhcp_age :: "dhcp4 \<Rightarrow> dhcp4" where
  "dhcp_age c =
     c\<lparr>dc_elapsed := sat_add32 (dc_elapsed c) (dhcp_backoff c), dc_tries := dc_tries c + 1\<rparr>"

definition dhcp_halve :: "dhcp4 \<Rightarrow> dhcp4" where
  "dhcp_halve c = c\<lparr>dc_renew_interval := max (dc_renew_interval c div 2) MIN_RENEW_INTERVAL\<rparr>"

definition dhcp_start :: "dhcp4 \<Rightarrow> u32 \<Rightarrow> dhcp4 \<times> dhcp_action list" where
  "dhcp_start c xid =
     (let c' = c\<lparr>dc_xid := xid, dc_state := Ds_Selecting, dc_server := None, dc_offered := 0,
                 dc_lease := None, dc_tries := 0, dc_elapsed := 0\<rparr>
      in (c', dhcp_broadcast c' (dhcp_discover c')))"

definition dhcp_on_offer :: "dhcp4 \<Rightarrow> dhcp_msg \<Rightarrow> dhcp4 \<times> dhcp_action list" where
  "dhcp_on_offer c msg =
     (case msg_server_id msg of
        None \<Rightarrow> (c, [])
      | Some server \<Rightarrow>
          let c' = c\<lparr>dc_server := Some server, dc_offered := dm_yiaddr msg,
                     dc_state := Ds_Requesting, dc_tries := 0\<rparr>
          in (c', dhcp_broadcast c' (dhcp_request_selecting c')))"

definition dhcp_on_ack :: "dhcp4 \<Rightarrow> dhcp_msg \<Rightarrow> dhcp4 \<times> dhcp_action list" where
  "dhcp_on_ack c msg =
     (case lease_from_ack msg of
        Inl _ \<Rightarrow> (c, [])
      | Inr l \<Rightarrow>
          (c\<lparr>dc_state := Ds_Bound, dc_server := Some (ls_server l), dc_tries := 0,
             dc_lease := Some l\<rparr>,
           [Da_SetTimer Dt_Renew (ls_renew_secs l), Da_SetTimer Dt_Rebind (ls_rebind_secs l),
            Da_SetTimer Dt_Expire (ls_lease_secs l), Da_Configured l]))"

definition dhcp_on_nak :: "dhcp4 \<Rightarrow> dhcp4 \<times> dhcp_action list" where
  "dhcp_on_nak c =
     (c\<lparr>dc_state := Ds_Init, dc_server := None, dc_lease := None\<rparr>, [Da_Deconfigure Dr_Nak])"

definition dhcp_on_datagram :: "dhcp4 \<Rightarrow> bytes \<Rightarrow> dhcp4 \<times> dhcp_action list" where
  "dhcp_on_datagram c bs =
     (case msg_decode bs of
        Inl _ \<Rightarrow> (c, [])
      | Inr msg \<Rightarrow>
          if dm_op msg \<noteq> BOOTREPLY \<or> dm_xid msg \<noteq> dc_xid c \<or> take 6 (dm_chaddr msg) \<noteq> dc_mac c
          then (c, [])
          else
            (case (dc_state c, msg_message_type msg) of
               (Ds_Selecting, Some Mt_Offer) \<Rightarrow> dhcp_on_offer c msg
             | (st, Some Mt_Ack) \<Rightarrow>
                 if st \<in> {Ds_Requesting, Ds_Renewing, Ds_Rebinding} then dhcp_on_ack c msg
                 else (c, [])
             | (st, Some Mt_Nak) \<Rightarrow>
                 if st \<in> {Ds_Requesting, Ds_Renewing, Ds_Rebinding} then dhcp_on_nak c
                 else (c, [])
             | _ \<Rightarrow> (c, [])))"

definition dhcp_enter_renewing :: "dhcp4 \<Rightarrow> dhcp4 \<times> dhcp_action list" where
  "dhcp_enter_renewing c =
     (case dc_lease c of
        None \<Rightarrow> (c, [])
      | Some l \<Rightarrow>
          let c' = c\<lparr>dc_state := Ds_Renewing,
                     dc_renew_interval :=
                       max (sat_sub32 (ls_rebind_secs l) (ls_renew_secs l) div 2) MIN_RENEW_INTERVAL\<rparr>
          in (c', [Da_Unicast (ls_server l) (dhcp_request_renew c'),
                   Da_SetTimer Dt_Retransmit (dc_renew_interval c')]))"

definition dhcp_enter_rebinding :: "dhcp4 \<Rightarrow> dhcp4 \<times> dhcp_action list" where
  "dhcp_enter_rebinding c =
     (case dc_lease c of
        None \<Rightarrow> (c, [])
      | Some l \<Rightarrow>
          let c' = c\<lparr>dc_state := Ds_Rebinding,
                     dc_renew_interval :=
                       max (sat_sub32 (ls_lease_secs l) (ls_rebind_secs l) div 2) MIN_RENEW_INTERVAL\<rparr>
          in (c', [Da_Broadcast (dhcp_request_renew c'),
                   Da_SetTimer Dt_Retransmit (dc_renew_interval c')]))"

definition dhcp_give_up :: "dhcp4 \<Rightarrow> dhcp4 \<times> dhcp_action list" where
  "dhcp_give_up c = (c\<lparr>dc_state := Ds_Init, dc_server := None, dc_offered := 0\<rparr>, [Da_Failed])"

definition dhcp_retransmit :: "dhcp4 \<Rightarrow> dhcp4 \<times> dhcp_action list" where
  "dhcp_retransmit c =
     (case dc_state c of
        Ds_Selecting \<Rightarrow>
          if MAX_TRIES \<le> dc_tries c + 1 then dhcp_give_up c
          else let c' = dhcp_age c in (c', dhcp_broadcast c' (dhcp_discover c'))
      | Ds_Requesting \<Rightarrow>
          if MAX_TRIES \<le> dc_tries c + 1 then dhcp_give_up c
          else let c' = dhcp_age c in (c', dhcp_broadcast c' (dhcp_request_selecting c'))
      | Ds_Renewing \<Rightarrow>
          let c' = dhcp_halve c
          in (c', [Da_Unicast (case dc_server c of Some s \<Rightarrow> s | None \<Rightarrow> - 1) (dhcp_request_renew c'),
                   Da_SetTimer Dt_Retransmit (dc_renew_interval c')])
      | Ds_Rebinding \<Rightarrow>
          let c' = dhcp_halve c
          in (c', [Da_Broadcast (dhcp_request_renew c'),
                   Da_SetTimer Dt_Retransmit (dc_renew_interval c')])
      | Ds_Init \<Rightarrow> (c, [])
      | Ds_Bound \<Rightarrow> (c, []))"

definition dhcp_on_timeout :: "dhcp4 \<Rightarrow> dhcp_timer \<Rightarrow> dhcp4 \<times> dhcp_action list" where
  "dhcp_on_timeout c timer =
     (case timer of
        Dt_Retransmit \<Rightarrow> dhcp_retransmit c
      | Dt_Renew \<Rightarrow> if dc_state c = Ds_Bound then dhcp_enter_renewing c else (c, [])
      | Dt_Rebind \<Rightarrow>
          if dc_state c = Ds_Bound \<or> dc_state c = Ds_Renewing then dhcp_enter_rebinding c else (c, [])
      | Dt_Expire \<Rightarrow>
          if dc_lease c \<noteq> None
          then (c\<lparr>dc_state := Ds_Init, dc_server := None, dc_lease := None\<rparr>,
                [Da_Deconfigure Dr_Expired])
          else (c, []))"

definition dhcp_poll :: "dhcp4 \<Rightarrow> dhcp_input \<Rightarrow> dhcp4 \<times> dhcp_action list" where
  "dhcp_poll c input =
     (case input of
        Di_Start xid \<Rightarrow> dhcp_start c xid
      | Di_Datagram bs \<Rightarrow> dhcp_on_datagram c bs
      | Di_Timeout timer \<Rightarrow> dhcp_on_timeout c timer)"

end
