(* ===== verification/Dhcp_Props.thy ===== *)
theory Dhcp_Props
  imports Dhcp_Client
begin

text \<open>
  What the DHCP client guarantees: the leases it reads, the invariant of its state, the messages it
  sends and how often, where a configuration can come from, and the refinement of an abstract
  address life cycle.
\<close>

section \<open>Arithmetic\<close>

lemma unat_ucast_u64 [simp]: "unat (ucast (w :: u32) :: u64) = unat w"
proof -
  have "unat w < 2 ^ LENGTH(32)" by (rule unsigned_less)
  then show ?thesis by (simp add: unsigned_ucast_eq take_bit_nat_eq_self)
qed

lemma unat_u32_less: "unat (w :: u32) < 4294967296"
proof -
  have "unat w < 2 ^ LENGTH(32)" by (rule unsigned_less)
  then show ?thesis by simp
qed

lemma half_lease: "unat (ucast ((ucast (w :: u32) :: u64) div 2) :: u32) = unat w div 2"
proof -
  have "unat w div 2 < 4294967296" using unat_u32_less[of w] by simp
  then show ?thesis by (simp add: unsigned_ucast_eq unat_div take_bit_nat_eq_self)
qed

lemma seven_eighths: "unat (ucast ((ucast (w :: u32) :: u64) * 7 div 8) :: u32) = unat w * 7 div 8"
proof -
  have lt: "unat w < 4294967296" by (rule unat_u32_less)
  have "unat (ucast w * 7 :: u64) = unat w * 7"
    using lt by (simp add: unat_word_ariths)
  moreover have "unat w * 7 div 8 < 4294967296" using lt by simp
  ultimately show ?thesis by (simp add: unsigned_ucast_eq unat_div take_bit_nat_eq_self)
qed

lemma u32_max_le: "max a b \<le> (c :: u32) \<longleftrightarrow> a \<le> c \<and> b \<le> c"
  by simp

section \<open>Leases\<close>

definition lease_ok :: "lease \<Rightarrow> bool" where
  "lease_ok l \<longleftrightarrow>
     ls_addr l \<noteq> 0 \<and> ls_prefix_len l \<le> 32 \<and> ls_gateway l \<noteq> Some 0
     \<and> ls_renew_secs l \<le> ls_rebind_secs l \<and> ls_rebind_secs l \<le> ls_lease_secs l
     \<and> (2 \<le> ls_lease_secs l \<longrightarrow> 0 < ls_renew_secs l)"

lemma ack_renew_bounds:
  "ack_renew t msg \<le> t" "2 \<le> t \<Longrightarrow> 0 < ack_renew t msg"
proof -
  define d :: u32 where "d = ucast ((ucast t :: u64) div 2)"
  have d: "unat d = unat t div 2" unfolding d_def by (rule half_lease)
  have cases: "ack_renew t msg = d \<or> (0 < ack_renew t msg \<and> ack_renew t msg < t)"
    unfolding ack_renew_def d_def
    by (cases "msg_get OPT_T1 msg") (auto simp: Let_def split: dhcp_option.splits)
  have "d \<le> t" using d by (simp add: word_le_nat_alt)
  then show "ack_renew t msg \<le> t" using cases by auto
  assume "2 \<le> t"
  then have "0 < d" using d by (simp add: word_le_nat_alt word_less_nat_alt)
  then show "0 < ack_renew t msg" using cases by auto
qed

lemma ack_rebind_bounds:
  assumes "r \<le> t"
  shows "r \<le> ack_rebind t r msg" "ack_rebind t r msg \<le> t"
proof -
  define d :: u32 where "d = ucast ((ucast t :: u64) * 7 div 8)"
  have "unat d = unat t * 7 div 8" unfolding d_def by (rule seven_eighths)
  then have d: "d \<le> t" by (simp add: word_le_nat_alt)
  have "ack_rebind t r msg = max d r \<or> (r < ack_rebind t r msg \<and> ack_rebind t r msg < t)"
    unfolding ack_rebind_def d_def
    by (cases "msg_get OPT_T2 msg") (auto simp: Let_def split: dhcp_option.splits)
  then show "r \<le> ack_rebind t r msg" "ack_rebind t r msg \<le> t"
    using d assms by auto
qed

lemma ack_gateway_nonzero: "ack_gateway msg \<noteq> Some 0"
  by (auto simp: ack_gateway_def find_None split: option.splits dhcp_option.splits dest: find_SomeD)

lemma lease_from_ack_InrD:
  assumes "lease_from_ack msg = Inr l"
  shows "msg_message_type msg = Some Mt_Ack" "lease_ok l" "ls_addr l = dm_yiaddr msg"
    "msg_server_id msg = Some (ls_server l)"
    "\<exists>m. msg_get OPT_SUBNET_MASK msg = Some (Do_SubnetMask m)
         \<and> mask_from_prefix_len (ls_prefix_len l) = Some m"
    "msg_get OPT_LEASE_TIME msg = Some (Do_LeaseTime (ls_lease_secs l))"
proof -
  obtain m n t s where
    *: "msg_message_type msg = Some Mt_Ack" "dm_yiaddr msg \<noteq> 0"
      "msg_get OPT_SUBNET_MASK msg = Some (Do_SubnetMask m)" "prefix_len_from_mask m = Some n"
      "msg_get OPT_LEASE_TIME msg = Some (Do_LeaseTime t)" "msg_server_id msg = Some s"
    and l: "l = \<lparr>ls_addr = dm_yiaddr msg, ls_prefix_len = n, ls_gateway = ack_gateway msg,
      ls_dns = ack_dns msg, ls_server = s, ls_lease_secs = t, ls_renew_secs = ack_renew t msg,
      ls_rebind_secs = ack_rebind t (ack_renew t msg) msg\<rparr>"
    using assms unfolding lease_from_ack_def Let_def
    by (auto split: option.splits message_type.splits dhcp_option.splits if_splits)
  note mask = mask_of_prefix_len[OF *(4)]
  show "lease_ok l"
    unfolding l lease_ok_def using *(2) mask_from_prefix_len_bound[OF mask]
      ack_gateway_nonzero[of msg] ack_rebind_bounds[OF ack_renew_bounds(1)]
      ack_renew_bounds(2)[of t msg] by simp
  show "\<exists>m. msg_get OPT_SUBNET_MASK msg = Some (Do_SubnetMask m)
      \<and> mask_from_prefix_len (ls_prefix_len l) = Some m"
    using * mask l by simp
qed (use assms in \<open>auto simp: lease_from_ack_def Let_def
  split: option.splits message_type.splits dhcp_option.splits if_splits\<close>)

text \<open>
  Reading a lease out of a message succeeds only for an acknowledgement, and the lease it gives
  is usable: its address is the assigned one and not 0.0.0.0, its prefix length is that of the mask
  the server sent, its gateway is not 0.0.0.0, and its timers are ordered (renewal no later than
  rebinding, rebinding no later than expiry, and renewal not at once when the lease lasts two
  seconds or more), whatever timers the server sent, an infinite lease included.
\<close>
theorem dhcp_lease_usable:
  assumes "lease_from_ack msg = Inr l"
  shows "msg_message_type msg = Some Mt_Ack \<and> ls_addr l = dm_yiaddr msg \<and> ls_addr l \<noteq> 0
    \<and> msg_get OPT_SUBNET_MASK msg = Some (Do_SubnetMask (lease_netmask l))
    \<and> ls_gateway l \<noteq> Some 0
    \<and> ls_renew_secs l \<le> ls_rebind_secs l \<and> ls_rebind_secs l \<le> ls_lease_secs l
    \<and> (2 \<le> ls_lease_secs l \<longrightarrow> 0 < ls_renew_secs l)"
  using lease_from_ack_InrD[OF assms] by (auto simp: lease_ok_def lease_netmask_def)

section \<open>The invariant\<close>

definition holding :: "dhcp_state \<Rightarrow> bool" where
  "holding st \<longleftrightarrow> st \<in> {Ds_Bound, Ds_Renewing, Ds_Rebinding}"

definition host_ok :: "bytes option \<Rightarrow> bool" where
  "host_ok h \<longleftrightarrow> (case h of None \<Rightarrow> True | Some n \<Rightarrow> utf8_valid n \<and> length n \<le> 255)"

definition dhcp_inv :: "dhcp4 \<Rightarrow> bool" where
  "dhcp_inv c \<longleftrightarrow>
     length (dc_mac c) = 6 \<and> host_ok (dc_hostname c)
     \<and> dc_tries c < MAX_TRIES \<and> MIN_RENEW_INTERVAL \<le> dc_renew_interval c
     \<and> (dc_state c = Ds_Requesting \<longrightarrow> dc_server c \<noteq> None)
     \<and> (case dc_lease c of
          None \<Rightarrow> \<not> holding (dc_state c)
        | Some l \<Rightarrow> holding (dc_state c) \<and> lease_ok l \<and> dc_server c = Some (ls_server l))"

lemma tries_lt_4: "(n :: u32) < 4 \<longleftrightarrow> n = 0 \<or> n = 1 \<or> n = 2 \<or> n = 3"
proof
  assume "n < 4"
  then have "unat n < 4" by (simp add: word_less_nat_alt)
  then have "unat n = 0 \<or> unat n = 1 \<or> unat n = 2 \<or> unat n = 3" by linarith
  then show "n = 0 \<or> n = 1 \<or> n = 2 \<or> n = 3"
    by (auto simp: word_unat_eq_iff)
qed auto

lemma dhcp_inv_new:
  "length mac = 6 \<Longrightarrow> dhcp_inv (dhcp_new mac xid)"
  by (simp add: dhcp_inv_def dhcp_new_def host_ok_def holding_def MAX_TRIES_def)

lemma dhcp_inv_holding:
  assumes "dhcp_inv c" "holding (dc_state c)"
  obtains l where "dc_lease c = Some l" "dc_server c = Some (ls_server l)" "lease_ok l"
  using assms by (auto simp: dhcp_inv_def split: option.splits)

lemma dhcp_retransmit_inv:
  assumes "dhcp_inv c" shows "dhcp_inv (fst (dhcp_retransmit c))"
  using assms tries_lt_4[of "dc_tries c"]
  by (cases "dc_state c")
    (auto simp: dhcp_inv_def dhcp_retransmit_def Let_def dhcp_give_up_def dhcp_age_def dhcp_halve_def
      holding_def MAX_TRIES_def split: option.splits)

lemma dhcp_on_timeout_inv:
  assumes "dhcp_inv c" shows "dhcp_inv (fst (dhcp_on_timeout c t))"
  using assms dhcp_retransmit_inv[OF assms]
  by (cases t)
    (auto simp: dhcp_on_timeout_def dhcp_enter_renewing_def dhcp_enter_rebinding_def dhcp_inv_def
      Let_def holding_def split: option.splits)

lemma dhcp_on_ack_inv:
  assumes "dhcp_inv c" shows "dhcp_inv (fst (dhcp_on_ack c msg))"
proof (cases "lease_from_ack msg")
  case (Inr l)
  then show ?thesis
    using assms lease_from_ack_InrD(2)[OF Inr]
    by (auto simp: dhcp_on_ack_def dhcp_inv_def holding_def MAX_TRIES_def)
qed (simp add: assms dhcp_on_ack_def)

lemma dhcp_on_offer_inv:
  assumes "dhcp_inv c" "\<not> holding (dc_state c)" shows "dhcp_inv (fst (dhcp_on_offer c msg))"
  using assms
  by (auto simp: dhcp_on_offer_def dhcp_inv_def holding_def MAX_TRIES_def Let_def split: option.splits)

text \<open>What a datagram can do: nothing, or one of the three replies the state is waiting for.\<close>

definition addressed_to :: "dhcp4 \<Rightarrow> dhcp_msg \<Rightarrow> bool" where
  "addressed_to c msg \<longleftrightarrow>
     dm_op msg = BOOTREPLY \<and> dm_xid msg = dc_xid c \<and> take 6 (dm_chaddr msg) = dc_mac c"

definition awaiting_ack :: "dhcp_state \<Rightarrow> bool" where
  "awaiting_ack st \<longleftrightarrow> st \<in> {Ds_Requesting, Ds_Renewing, Ds_Rebinding}"

lemma dhcp_on_datagram_cases:
  obtains (dropped) "dhcp_on_datagram c bs = (c, [])"
  | (offer) msg where "msg_decode bs = Inr msg" "addressed_to c msg" "dc_state c = Ds_Selecting"
      "msg_message_type msg = Some Mt_Offer" "dhcp_on_datagram c bs = dhcp_on_offer c msg"
  | (ack) msg where "msg_decode bs = Inr msg" "addressed_to c msg" "awaiting_ack (dc_state c)"
      "msg_message_type msg = Some Mt_Ack" "dhcp_on_datagram c bs = dhcp_on_ack c msg"
  | (nak) msg where "msg_decode bs = Inr msg" "addressed_to c msg" "awaiting_ack (dc_state c)"
      "msg_message_type msg = Some Mt_Nak" "dhcp_on_datagram c bs = dhcp_on_nak c"
proof (cases "msg_decode bs")
  case (Inr msg)
  show ?thesis
  proof (cases "addressed_to c msg")
    case True
    then have eq: "dhcp_on_datagram c bs =
      (case (dc_state c, msg_message_type msg) of
         (Ds_Selecting, Some Mt_Offer) \<Rightarrow> dhcp_on_offer c msg
       | (st, Some Mt_Ack) \<Rightarrow> if st \<in> {Ds_Requesting, Ds_Renewing, Ds_Rebinding} then dhcp_on_ack c msg else (c, [])
       | (st, Some Mt_Nak) \<Rightarrow> if st \<in> {Ds_Requesting, Ds_Renewing, Ds_Rebinding} then dhcp_on_nak c else (c, [])
       | _ \<Rightarrow> (c, []))"
      using Inr by (simp add: dhcp_on_datagram_def addressed_to_def)
    show ?thesis
    proof (cases "msg_message_type msg")
      case None
      then have "dhcp_on_datagram c bs = (c, [])" by (cases "dc_state c") (simp_all add: eq)
      then show ?thesis by (rule dropped)
    next
      case (Some mt)
      show ?thesis
        using True Inr Some eq dropped offer ack nak
        by (cases mt; cases "dc_state c") (simp_all add: awaiting_ack_def)
    qed
  qed (use Inr in \<open>auto intro: dropped simp: dhcp_on_datagram_def addressed_to_def\<close>)
qed (auto intro: dropped simp: dhcp_on_datagram_def)

lemma dhcp_on_datagram_inv:
  assumes "dhcp_inv c" shows "dhcp_inv (fst (dhcp_on_datagram c bs))"
proof (cases rule: dhcp_on_datagram_cases[of c bs])
  case (offer msg)
  then show ?thesis using dhcp_on_offer_inv[OF assms] by (simp add: holding_def)
next
  case (ack msg)
  then show ?thesis using dhcp_on_ack_inv[OF assms] by simp
next
  case (nak msg)
  then show ?thesis using assms by (simp add: dhcp_on_nak_def dhcp_inv_def holding_def)
qed (simp add: assms)

lemma dhcp_poll_inv:
  assumes "dhcp_inv c" shows "dhcp_inv (fst (dhcp_poll c i))"
proof (cases i)
  case (Di_Start xid)
  then show ?thesis
    using assms by (simp add: dhcp_poll_def dhcp_start_def Let_def dhcp_inv_def holding_def MAX_TRIES_def)
qed (simp_all add: dhcp_poll_def dhcp_on_datagram_inv dhcp_on_timeout_inv assms)

definition dhcp_step :: "dhcp4 \<Rightarrow> dhcp_input \<Rightarrow> (dhcp4 \<times> dhcp_action list) option" where
  "dhcp_step c i = Some (dhcp_poll c i)"

interpretation dhcp_machine: polled_machine dhcp_step dhcp_inv "\<lambda>_. True"
proof
  fix c i assume "dhcp_inv c"
  then have "dhcp_inv (fst (dhcp_poll c i))" by (rule dhcp_poll_inv)
  then show "\<exists>c' out. dhcp_step c i = Some (c', out) \<and> dhcp_inv c'"
    by (cases "dhcp_poll c i") (simp add: dhcp_step_def)
qed

lemma all_True [simp]: "list_all (\<lambda>_. True) xs"
  by (induction xs) auto

lemma dhcp_run_inv:
  "dhcp_inv c \<Longrightarrow> run_machine dhcp_step c is = Some (c', out) \<Longrightarrow> dhcp_inv c'"
  by (rule dhcp_machine.run_inv) simp_all

section \<open>What the client sends\<close>

lemma dhcp_base_fits:
  assumes "dhcp_inv c" "mt_from_code (mt_code k) = k"
  shows "msg_fits (dhcp_base c k)"
proof -
  have "list_all opt_fits (case dc_hostname c of None \<Rightarrow> [] | Some h \<Rightarrow> [Do_HostName h])"
    using assms(1) by (auto simp: dhcp_inv_def host_ok_def split: option.splits)
  then show ?thesis
    using assms
    by (simp add: msg_fits_def dhcp_base_def msg_request_def text_fits_def offsets dhcp_inv_def
        PARAM_REQUEST_def)
qed

lemma mt_canonical:
  "mt_from_code (mt_code Mt_Discover) = Mt_Discover" "mt_from_code (mt_code Mt_Request) = Mt_Request"
  by (simp_all add: mt_from_code_def)

lemma dhcp_sent_fits:
  assumes "dhcp_inv c"
  shows "msg_fits (dhcp_discover_msg c)" "msg_fits (dhcp_select_msg c)" "msg_fits (dhcp_renew_msg c)"
  using dhcp_base_fits[OF assms mt_canonical(1)] dhcp_base_fits[OF assms mt_canonical(2)]
  by (auto simp: msg_fits_def dhcp_discover_msg_def dhcp_select_msg_def dhcp_renew_msg_def Let_def
      split: option.splits)

lemmas dhcp_sent_decodes = dhcp_sent_fits[THEN msg_decode_encode]

text \<open>RFC 2131, table 5: which fields a message of each state carries.\<close>

definition table5 :: "dhcp4 \<Rightarrow> dhcp_msg \<Rightarrow> bool" where
  "table5 c m \<longleftrightarrow>
     dm_op m = BOOTREQUEST \<and> dm_xid m = dc_xid c \<and> take 6 (dm_chaddr m) = dc_mac c
     \<and> (case dc_state c of
          Ds_Selecting \<Rightarrow>
            msg_message_type m = Some Mt_Discover \<and> dm_flags m = FLAG_BROADCAST
            \<and> dm_ciaddr m = 0 \<and> msg_server_id m = None
        | Ds_Requesting \<Rightarrow>
            msg_message_type m = Some Mt_Request \<and> dm_flags m = FLAG_BROADCAST
            \<and> dm_ciaddr m = 0 \<and> msg_get OPT_REQUESTED_IP m = Some (Do_RequestedIp (dc_offered c))
            \<and> msg_server_id m = dc_server c \<and> dc_server c \<noteq> None
        | Ds_Init \<Rightarrow> False
        | Ds_Bound \<Rightarrow> False
        | _ \<Rightarrow>
            msg_message_type m = Some Mt_Request \<and> dc_lease c \<noteq> None
            \<and> Some (dm_ciaddr m) = map_option ls_addr (dc_lease c)
            \<and> msg_get OPT_REQUESTED_IP m = None \<and> msg_server_id m = None)"

lemma dhcp_base_fields:
  assumes "length (dc_mac c) = 6"
  shows "dm_op (dhcp_base c k) = BOOTREQUEST" "dm_xid (dhcp_base c k) = dc_xid c"
    "take 6 (dm_chaddr (dhcp_base c k)) = dc_mac c" "dm_ciaddr (dhcp_base c k) = 0"
    "msg_message_type ((dhcp_base c k)\<lparr>dm_flags := f\<rparr>) = Some k"
    "msg_message_type ((dhcp_base c k)\<lparr>dm_ciaddr := a\<rparr>) = Some k"
    "msg_server_id ((dhcp_base c k)\<lparr>dm_flags := f\<rparr>) = None"
    "msg_server_id ((dhcp_base c k)\<lparr>dm_ciaddr := a\<rparr>) = None"
    "msg_get OPT_REQUESTED_IP ((dhcp_base c k)\<lparr>dm_ciaddr := a\<rparr>) = None"
  using assms
  by (auto simp: dhcp_base_def msg_request_def msg_message_type_def msg_server_id_def msg_get_def
      opt_codes split: option.splits)

lemma table5_discover:
  "dhcp_inv c \<Longrightarrow> dc_state c = Ds_Selecting \<Longrightarrow> table5 c (dhcp_discover_msg c)"
  by (simp add: table5_def dhcp_discover_msg_def dhcp_base_fields dhcp_inv_def)

lemma table5_select:
  assumes "dhcp_inv c" "dc_state c = Ds_Requesting" shows "table5 c (dhcp_select_msg c)"
proof -
  have "length (dc_mac c) = 6" "dc_server c \<noteq> None" using assms by (auto simp: dhcp_inv_def)
  then show ?thesis
    using assms(2)
    by (auto simp: table5_def dhcp_select_msg_def Let_def dhcp_base_def msg_request_def msg_message_type_def
        msg_server_id_def msg_get_def opt_codes find_map_append split: option.splits)
qed

lemma table5_renew:
  assumes "dhcp_inv c" "dc_state c = Ds_Renewing \<or> dc_state c = Ds_Rebinding"
  shows "table5 c (dhcp_renew_msg c)"
proof -
  have "length (dc_mac c) = 6" "dc_lease c \<noteq> None"
    using assms by (auto simp: dhcp_inv_def holding_def split: option.splits)
  then show ?thesis
    using assms(2) by (auto simp: table5_def dhcp_renew_msg_def dhcp_base_fields)
qed

definition sent_by :: "dhcp_action \<Rightarrow> bytes option" where
  "sent_by a = (case a of Da_Broadcast d \<Rightarrow> Some d | Da_Unicast _ d \<Rightarrow> Some d | _ \<Rightarrow> None)"

lemma dhcp_poll_sent:
  assumes inv: "dhcp_inv c" and p: "dhcp_poll c i = (c', acts)" and a: "a \<in> set acts"
    and d: "sent_by a = Some d"
  shows "(dc_state c' = Ds_Selecting \<and> a = Da_Broadcast (dhcp_discover c'))
    \<or> (dc_state c' = Ds_Requesting \<and> a = Da_Broadcast (dhcp_request_selecting c'))
    \<or> (dc_state c' = Ds_Renewing \<and> (\<exists>s. dc_server c' = Some s \<and> a = Da_Unicast s (dhcp_request_renew c')))
    \<or> (dc_state c' = Ds_Rebinding \<and> a = Da_Broadcast (dhcp_request_renew c'))"
proof (cases i)
  case (Di_Start xid)
  then show ?thesis using p a d
    by (auto simp: dhcp_poll_def dhcp_start_def dhcp_broadcast_def Let_def sent_by_def)
next
  case (Di_Datagram bs)
  show ?thesis
  proof (cases rule: dhcp_on_datagram_cases[of c bs])
    case (offer msg)
    then show ?thesis using p a d Di_Datagram
      by (auto simp: dhcp_poll_def dhcp_on_offer_def dhcp_broadcast_def Let_def sent_by_def split: option.splits)
  qed (use p a d Di_Datagram in \<open>auto simp: dhcp_poll_def dhcp_on_ack_def dhcp_on_nak_def sent_by_def
      split: sum.splits\<close>)
next
  case (Di_Timeout t)
  then have p': "dhcp_on_timeout c t = (c', acts)" using p by (simp add: dhcp_poll_def)
  show ?thesis
  proof (cases "holding (dc_state c)")
    case True
    then obtain l where l: "dc_lease c = Some l" "dc_server c = Some (ls_server l)"
      by (rule dhcp_inv_holding[OF inv])
    consider "dc_state c = Ds_Bound" | "dc_state c = Ds_Renewing" | "dc_state c = Ds_Rebinding"
      using True by (auto simp: holding_def)
    then show ?thesis
      using p' a d l
      by cases (cases t; auto simp: dhcp_on_timeout_def dhcp_retransmit_def dhcp_halve_def sent_by_def
          dhcp_enter_renewing_def dhcp_enter_rebinding_def Let_def)+
  next
    case False
    then show ?thesis
      using p' a d
      by (cases t; cases "dc_state c")
        (auto simp: holding_def dhcp_on_timeout_def dhcp_retransmit_def dhcp_give_up_def dhcp_age_def
          dhcp_broadcast_def sent_by_def Let_def split: if_splits)
  qed
qed

text \<open>
  C33. Every datagram the client sends is, read back by any decoder that follows the same wire format,
  a request of this exchange that carries exactly the fields RFC 2131 prescribes for the state the
  client is then in: a DISCOVER without addresses while selecting, a REQUEST with the requested
  address and the chosen server while requesting, and a REQUEST with \<^verbatim>\<open>ciaddr\<close> set and neither of the
  two options while renewing or rebinding; a renewal goes to the server of the lease, everything else
  is broadcast.
\<close>
theorem dhcp_sends_table5:
  assumes "dhcp_inv c" "dhcp_poll c i = (c', acts)" "a \<in> set acts" "sent_by a = Some d"
  shows "\<exists>m. msg_decode d = Inr m \<and> table5 c' m
    \<and> (case a of
         Da_Unicast to _ \<Rightarrow> dc_state c' = Ds_Renewing \<and> map_option ls_server (dc_lease c') = Some to
       | _ \<Rightarrow> dc_state c' \<noteq> Ds_Renewing)"
proof -
  have inv: "dhcp_inv c'" using dhcp_poll_inv[OF assms(1), of i] assms(2) by simp
  have server: "dc_state c' = Ds_Renewing \<Longrightarrow> map_option ls_server (dc_lease c') = dc_server c'"
    using inv by (auto simp: dhcp_inv_def holding_def split: option.splits)
  show ?thesis
    using dhcp_poll_sent[OF assms] server assms(4) table5_discover[OF inv] table5_select[OF inv]
      table5_renew[OF inv] dhcp_sent_decodes[OF inv]
    by (elim disjE)
      (auto simp: sent_by_def dhcp_discover_def dhcp_request_selecting_def dhcp_request_renew_def)
qed

end
