(* ===== verification/Dhcp_Runs.thy ===== *)
theory Dhcp_Runs
  imports Dhcp_Props
begin

text \<open>
  Whole histories of the DHCP client: where a configuration comes from, how many messages an
  exchange costs, what an honest server leads to, and the refinement of the abstract life cycle of
  an address.
\<close>

lemma dhcp_step_Some: "dhcp_step c i = Some r \<longleftrightarrow> dhcp_poll c i = r"
  by (simp add: dhcp_step_def)

lemma dhcp_run_Cons:
  "run_machine dhcp_step c (i # is) =
     map_option (\<lambda>(c', rest). (c', snd (dhcp_poll c i) @ rest))
       (run_machine dhcp_step (fst (dhcp_poll c i)) is)"
  by (simp add: dhcp_step_def case_prod_unfold)

section \<open>Where a configuration comes from\<close>

lemma dhcp_configured_step:
  assumes p: "dhcp_poll c i = (c', acts)" and l: "Da_Configured l \<in> set acts"
  obtains bs msg where "i = Di_Datagram bs" "msg_decode bs = Inr msg" "addressed_to c msg"
    "awaiting_ack (dc_state c)" "lease_from_ack msg = Inr l" "dc_lease c' = Some l"
proof (cases i)
  case (Di_Start xid)
  then show ?thesis using p l by (auto simp: dhcp_poll_def dhcp_start_def dhcp_broadcast_def Let_def)
next
  case (Di_Timeout t)
  then show ?thesis using p l
    by (cases t; cases "dc_state c")
      (auto simp: dhcp_poll_def dhcp_on_timeout_def dhcp_retransmit_def dhcp_give_up_def
        dhcp_broadcast_def dhcp_enter_renewing_def dhcp_enter_rebinding_def Let_def
        split: option.splits if_splits)
next
  case (Di_Datagram bs)
  show ?thesis
  proof (cases rule: dhcp_on_datagram_cases[of c bs])
    case (ack msg)
    then show ?thesis using p l Di_Datagram
      by (cases "lease_from_ack msg") (auto simp: dhcp_poll_def dhcp_on_ack_def intro: that)
  qed (use p l Di_Datagram in \<open>auto simp: dhcp_poll_def dhcp_on_offer_def dhcp_broadcast_def
      dhcp_on_nak_def Let_def split: option.splits\<close>)
qed

text \<open>
  The history that a state records: the transaction id is that of the last start, and a client past
  Selecting has seen an offer with a server id since.
\<close>

definition is_offer :: "u32 \<Rightarrow> bytes \<Rightarrow> dhcp_input \<Rightarrow> bool" where
  "is_offer xid mac i \<longleftrightarrow>
     (case i of
        Di_Datagram bs \<Rightarrow>
          (case msg_decode bs of
             Inr m \<Rightarrow> dm_op m = BOOTREPLY \<and> dm_xid m = xid \<and> take 6 (dm_chaddr m) = mac
               \<and> msg_message_type m = Some Mt_Offer \<and> msg_server_id m \<noteq> None
           | Inl _ \<Rightarrow> False)
      | _ \<Rightarrow> False)"

fun no_start :: "dhcp_input \<Rightarrow> bool" where
  "no_start (Di_Start _) = False"
| "no_start _ = True"

definition exchange_since :: "dhcp4 \<Rightarrow> dhcp_input list \<Rightarrow> bool" where
  "exchange_since c is \<longleftrightarrow>
     (\<exists>pre post. is = pre @ Di_Start (dc_xid c) # post \<and> list_all no_start post
        \<and> (dc_state c \<noteq> Ds_Selecting \<longrightarrow> (\<exists>i\<in>set post. is_offer (dc_xid c) (dc_mac c) i)))"

lemma exchange_since_snoc:
  assumes "exchange_since c is" "no_start i" "dc_xid c' = dc_xid c" "dc_mac c' = dc_mac c"
    and "dc_state c' \<noteq> Ds_Selecting \<Longrightarrow> dc_state c = Ds_Selecting \<Longrightarrow> is_offer (dc_xid c) (dc_mac c) i"
  shows "exchange_since c' (is @ [i])"
proof -
  obtain pre post where *: "is = pre @ Di_Start (dc_xid c) # post" "list_all no_start post"
    "dc_state c \<noteq> Ds_Selecting \<Longrightarrow> \<exists>i\<in>set post. is_offer (dc_xid c) (dc_mac c) i"
    using assms(1) by (auto simp: exchange_since_def)
  have "is @ [i] = pre @ Di_Start (dc_xid c') # (post @ [i])" using * assms by simp
  moreover have "list_all no_start (post @ [i])" using * assms by simp
  moreover have "dc_state c' \<noteq> Ds_Selecting \<longrightarrow> (\<exists>j\<in>set (post @ [i]). is_offer (dc_xid c') (dc_mac c') j)"
    using * assms by (cases "dc_state c = Ds_Selecting") auto
  ultimately show ?thesis unfolding exchange_since_def by blast
qed

text \<open>How one input other than a start moves the client between states.\<close>

lemma dhcp_poll_moves:
  assumes inv: "dhcp_inv c" and p: "dhcp_poll c i = (c', acts)" and "no_start i"
  shows "dc_xid c' = dc_xid c \<and> dc_mac c' = dc_mac c"
    and "dc_state c = Ds_Init \<Longrightarrow> dc_state c' = Ds_Init"
    and "dc_state c = Ds_Selecting \<Longrightarrow> dc_state c' \<notin> {Ds_Selecting, Ds_Init} \<Longrightarrow>
      is_offer (dc_xid c) (dc_mac c) i"
proof -
  have "(dc_xid c' = dc_xid c \<and> dc_mac c' = dc_mac c)
    \<and> (dc_state c = Ds_Init \<longrightarrow> dc_state c' = Ds_Init)
    \<and> (dc_state c = Ds_Selecting \<and> dc_state c' \<notin> {Ds_Selecting, Ds_Init} \<longrightarrow>
        is_offer (dc_xid c) (dc_mac c) i)"
  proof (cases i)
    case (Di_Datagram bs)
    then have p': "dhcp_on_datagram c bs = (c', acts)" using p by (simp add: dhcp_poll_def)
    show ?thesis
    proof (cases rule: dhcp_on_datagram_cases[of c bs])
      case (offer msg)
      then show ?thesis using p' Di_Datagram
        by (cases "msg_server_id msg")
          (auto simp: dhcp_on_offer_def Let_def is_offer_def addressed_to_def)
    next
      case (ack msg)
      then show ?thesis using p'
        by (cases "lease_from_ack msg") (auto simp: dhcp_on_ack_def awaiting_ack_def)
    next
      case (nak msg)
      then show ?thesis using p' by (auto simp: dhcp_on_nak_def awaiting_ack_def)
    qed (use p' in auto)
  next
    case (Di_Timeout t)
    then have p': "dhcp_on_timeout c t = (c', acts)" using p by (simp add: dhcp_poll_def)
    show ?thesis
    proof (cases "dc_state c")
      case Ds_Init
      then have "dc_lease c = None" using inv by (auto simp: dhcp_inv_def holding_def split: option.splits)
      then show ?thesis using p' Ds_Init
        by (cases t) (auto simp: dhcp_on_timeout_def dhcp_retransmit_def)
    next
      case Ds_Selecting
      then have "dc_lease c = None" using inv by (auto simp: dhcp_inv_def holding_def split: option.splits)
      then show ?thesis using p' Ds_Selecting
        by (cases t) (auto simp: dhcp_on_timeout_def dhcp_retransmit_def dhcp_give_up_def dhcp_age_def
          Let_def split: if_splits)
    qed (use p' in \<open>cases t; auto simp: dhcp_on_timeout_def dhcp_retransmit_def dhcp_give_up_def
        dhcp_age_def dhcp_halve_def dhcp_enter_renewing_def dhcp_enter_rebinding_def Let_def
        split: if_splits option.splits\<close>)+
  qed (use assms in simp)
  then show "dc_xid c' = dc_xid c \<and> dc_mac c' = dc_mac c"
    "dc_state c = Ds_Init \<Longrightarrow> dc_state c' = Ds_Init"
    "dc_state c = Ds_Selecting \<Longrightarrow> dc_state c' \<notin> {Ds_Selecting, Ds_Init} \<Longrightarrow>
      is_offer (dc_xid c) (dc_mac c) i"
    by blast+
qed

lemma dhcp_history:
  assumes "length mac = 6" "run_machine dhcp_step (dhcp_new mac xid) is = Some (c, out)"
  shows "dc_mac c = mac \<and> (dc_state c \<noteq> Ds_Init \<longrightarrow> exchange_since c is)"
  using assms(2)
proof (induction "is" arbitrary: c out rule: rev_induct)
  case Nil
  then show ?case by (auto simp: dhcp_new_def)
next
  case (snoc i "is")
  obtain c1 o1 o2 where r: "run_machine dhcp_step (dhcp_new mac xid) is = Some (c1, o1)"
    and p: "dhcp_poll c1 i = (c, o2)"
    using snoc.prems by (auto elim!: run_machine_snocE simp: dhcp_step_Some)
  have inv: "dhcp_inv c1" using dhcp_run_inv[OF dhcp_inv_new r] assms(1) by simp
  note ih = snoc.IH[OF r]
  show ?case
  proof (cases "no_start i")
    case True
    note moves = dhcp_poll_moves[OF inv p True]
    show ?thesis
    proof (intro conjI impI)
      assume "dc_state c \<noteq> Ds_Init"
      then have "dc_state c1 \<noteq> Ds_Init" using moves(2) by blast
      then show "exchange_since c (is @ [i])"
        using ih True moves \<open>dc_state c \<noteq> Ds_Init\<close> by (intro exchange_since_snoc[of c1]) auto
    qed (use ih moves in simp)
  next
    case False
    then obtain x where "i = Di_Start x" by (cases i) auto
    then have c: "dc_xid c = x" "dc_state c = Ds_Selecting" "dc_mac c = dc_mac c1" "i = Di_Start (dc_xid c)"
      using p by (auto simp: dhcp_poll_def dhcp_start_def Let_def)
    have "is @ [i] = is @ Di_Start (dc_xid c) # [] \<and> list_all no_start []" using c by simp
    then have "exchange_since c (is @ [i])" unfolding exchange_since_def using c(2) by blast
    then show ?thesis using c ih by simp
  qed
qed

text \<open>
  C20. A lease is put on the interface only at the end of a full exchange, for every history of the
  client: the input that does it is a BOOTP reply for the client's own hardware address and its current
  transaction id, an acknowledgement the lease is read from, and since the start that chose that
  transaction id an offer with a server id was received for it. Nothing else (another client's traffic,
  a stale id, an unsolicited acknowledgement, a timer) configures an address.
\<close>
theorem dhcp_configured_authentic:
  assumes "length mac = 6"
    and "run_machine dhcp_step (dhcp_new mac xid0) is = Some (c, out)"
    and "dhcp_poll c i = (c', acts)" "Da_Configured l \<in> set acts"
  shows "\<exists>bs msg pre post.
    i = Di_Datagram bs \<and> msg_decode bs = Inr msg \<and> lease_from_ack msg = Inr l
    \<and> dm_op msg = BOOTREPLY \<and> dm_xid msg = dc_xid c \<and> take 6 (dm_chaddr msg) = mac
    \<and> is = pre @ Di_Start (dc_xid c) # post \<and> list_all no_start post
    \<and> (\<exists>j\<in>set post. is_offer (dc_xid c) mac j)"
proof -
  obtain bs msg where *: "i = Di_Datagram bs" "msg_decode bs = Inr msg" "addressed_to c msg"
    "awaiting_ack (dc_state c)" "lease_from_ack msg = Inr l"
    using dhcp_configured_step[OF assms(3,4)] by blast
  have mac: "dc_mac c = mac" and hist: "exchange_since c is"
    using dhcp_history[OF assms(1,2)] *(4) by (auto simp: awaiting_ack_def)
  then obtain pre post where "is = pre @ Di_Start (dc_xid c) # post" "list_all no_start post"
    "\<exists>j\<in>set post. is_offer (dc_xid c) mac j"
    using *(4) by (auto simp: exchange_since_def awaiting_ack_def)
  then show ?thesis using * mac by (auto simp: addressed_to_def)
qed

section \<open>The abstract life cycle of an address\<close>

text \<open>
  What RFC 2131 promises the owner of the interface, without messages, transaction ids or
  retransmissions: the client holds no address, asks for one, or holds a lease.
\<close>

datatype address_phase = Ap_Free | Ap_Asking | Ap_Holding lease

inductive address_step :: "address_phase \<Rightarrow> dhcp_action list \<Rightarrow> address_phase \<Rightarrow> bool" where
  wait: "address_step p [] p"
| ask: "address_step Ap_Free [] Ap_Asking"
| grant: "lease_ok l \<Longrightarrow> address_step Ap_Asking [Da_Configured l] (Ap_Holding l)"
| renew: "lease_ok l' \<Longrightarrow> address_step (Ap_Holding l) [Da_Configured l'] (Ap_Holding l')"
| refuse: "p \<noteq> Ap_Free \<Longrightarrow> address_step p [Da_Deconfigure Dr_Nak] Ap_Free"
| expire: "address_step (Ap_Holding l) [Da_Deconfigure Dr_Expired] Ap_Free"
| give_up: "address_step Ap_Asking [Da_Failed] Ap_Free"

inductive address_run :: "address_phase \<Rightarrow> dhcp_action list \<Rightarrow> address_phase \<Rightarrow> bool" where
  stop: "address_run p [] p"
| more: "address_step p o1 p1 \<Longrightarrow> address_run p1 o2 p2 \<Longrightarrow> address_run p (o1 @ o2) p2"

inductive_cases address_stepE: "address_step p out p'"

definition phase_of :: "dhcp4 \<Rightarrow> address_phase" where
  "phase_of c =
     (case dc_lease c of
        Some l \<Rightarrow> Ap_Holding l
      | None \<Rightarrow> if dc_state c = Ds_Init then Ap_Free else Ap_Asking)"

definition visible :: "dhcp_action \<Rightarrow> bool" where
  "visible a \<longleftrightarrow> (case a of Da_Configured _ \<Rightarrow> True | Da_Deconfigure _ \<Rightarrow> True | Da_Failed \<Rightarrow> True | _ \<Rightarrow> False)"

lemma visible_simps [simp]:
  "visible (Da_Configured l)" "visible (Da_Deconfigure r)" "visible Da_Failed"
  "\<not> visible (Da_Broadcast d)" "\<not> visible (Da_Unicast s d)" "\<not> visible (Da_SetTimer t n)"
  by (simp_all add: visible_def)

text \<open>The caller restarts the exchange only when no lease is held.\<close>

primrec starts_free :: "dhcp4 \<Rightarrow> dhcp_input list \<Rightarrow> bool" where
  "starts_free c [] \<longleftrightarrow> True"
| "starts_free c (i # is) \<longleftrightarrow>
     (no_start i \<or> dc_lease c = None) \<and> starts_free (fst (dhcp_poll c i)) is"

lemma phase_of_simps:
  "dc_lease c = Some l \<Longrightarrow> phase_of c = Ap_Holding l"
  "dc_lease c = None \<Longrightarrow> dc_state c = Ds_Init \<Longrightarrow> phase_of c = Ap_Free"
  "dc_lease c = None \<Longrightarrow> dc_state c \<noteq> Ds_Init \<Longrightarrow> phase_of c = Ap_Asking"
  by (simp_all add: phase_of_def)

lemma dhcp_inv_free:
  "dhcp_inv c \<Longrightarrow> \<not> holding (dc_state c) \<Longrightarrow> dc_lease c = None"
  by (auto simp: dhcp_inv_def split: option.splits)

lemma dhcp_timeout_refines:
  assumes inv: "dhcp_inv c" and p: "dhcp_on_timeout c t = (c', acts)"
  shows "address_step (phase_of c) (filter visible acts) (phase_of c')"
proof (cases "holding (dc_state c)")
  case True
  then obtain l where l: "dc_lease c = Some l" by (rule dhcp_inv_holding[OF inv])
  consider "phase_of c' = Ap_Holding l" "filter visible acts = []"
    | "phase_of c' = Ap_Free" "acts = [Da_Deconfigure Dr_Expired]"
    using p l True
    by (cases t; cases "dc_state c")
      (auto simp: dhcp_on_timeout_def dhcp_retransmit_def dhcp_halve_def dhcp_enter_renewing_def
        dhcp_enter_rebinding_def Let_def phase_of_def holding_def)
  then show ?thesis by cases (auto simp: phase_of_simps(1)[OF l] intro: address_step.intros)
next
  case False
  then have l: "dc_lease c = None" by (rule dhcp_inv_free[OF inv])
  consider "phase_of c' = phase_of c" "filter visible acts = []"
    | "phase_of c = Ap_Asking" "phase_of c' = Ap_Free" "acts = [Da_Failed]"
    using p l False
    by (cases t; cases "dc_state c")
      (auto simp: dhcp_on_timeout_def dhcp_retransmit_def dhcp_give_up_def dhcp_age_def
        dhcp_broadcast_def Let_def phase_of_def holding_def split: if_splits)
  then show ?thesis by cases (auto intro: address_step.intros)
qed

lemma dhcp_datagram_refines:
  assumes inv: "dhcp_inv c" and p: "dhcp_on_datagram c bs = (c', acts)"
  shows "address_step (phase_of c) (filter visible acts) (phase_of c')"
proof (cases rule: dhcp_on_datagram_cases[of c bs])
  case dropped
  then show ?thesis using p by (auto intro: address_step.intros)
next
  case (offer msg)
  then have "phase_of c = Ap_Asking"
    using inv by (auto simp: phase_of_def holding_def dest!: dhcp_inv_free)
  moreover have "phase_of c' = Ap_Asking" "filter visible acts = []"
    using offer p calculation
    by (auto simp: dhcp_on_offer_def dhcp_broadcast_def Let_def phase_of_def split: option.splits if_splits)
  ultimately show ?thesis by (auto intro: address_step.intros)
next
  case (ack msg)
  then have nf: "phase_of c \<noteq> Ap_Free"
    by (auto simp: phase_of_def awaiting_ack_def split: option.splits)
  show ?thesis
  proof (cases "lease_from_ack msg")
    case (Inr l)
    then have "phase_of c' = Ap_Holding l" "filter visible acts = [Da_Configured l]"
      using ack p by (auto simp: dhcp_on_ack_def phase_of_def)
    then show ?thesis
      using nf lease_from_ack_InrD(2)[OF Inr] by (cases "phase_of c") (auto intro: address_step.intros)
  qed (use ack p in \<open>auto simp: dhcp_on_ack_def intro: address_step.intros\<close>)
next
  case (nak msg)
  then have "phase_of c \<noteq> Ap_Free"
    by (auto simp: phase_of_def awaiting_ack_def split: option.splits)
  moreover have "phase_of c' = Ap_Free" "acts = [Da_Deconfigure Dr_Nak]"
    using nak p by (auto simp: dhcp_on_nak_def phase_of_def)
  ultimately show ?thesis by (auto intro: address_step.refuse)
qed

lemma dhcp_poll_refines:
  assumes "dhcp_inv c" "no_start i \<or> dc_lease c = None" "dhcp_poll c i = (c', acts)"
  shows "address_step (phase_of c) (filter visible acts) (phase_of c')"
proof (cases i)
  case (Di_Start xid)
  then have "phase_of c = Ap_Free \<or> phase_of c = Ap_Asking"
    using assms(2) by (simp add: phase_of_def)
  moreover have "phase_of c' = Ap_Asking" "filter visible acts = []"
    using assms(3) Di_Start
    by (auto simp: dhcp_poll_def dhcp_start_def dhcp_broadcast_def Let_def phase_of_def)
  ultimately show ?thesis by (auto intro: address_step.intros)
qed (use assms in \<open>auto simp: dhcp_poll_def dhcp_timeout_refines dhcp_datagram_refines\<close>)

lemma dhcp_run_refines:
  assumes "dhcp_inv c" "starts_free c is" "run_machine dhcp_step c is = Some (c', out)"
  shows "address_run (phase_of c) (filter visible out) (phase_of c')"
  using assms
proof (induction "is" arbitrary: c out)
  case Nil
  then show ?case by (auto intro: address_run.stop)
next
  case (Cons i "is")
  obtain c1 o1 where p: "dhcp_poll c i = (c1, o1)" by (cases "dhcp_poll c i")
  then obtain o2 where r: "run_machine dhcp_step c1 is = Some (c', o2)" and out: "out = o1 @ o2"
    using Cons.prems(3) unfolding dhcp_run_Cons by auto
  have "dhcp_inv c1" using dhcp_poll_inv[OF Cons.prems(1), of i] p by simp
  then have "address_run (phase_of c1) (filter visible o2) (phase_of c')"
    using Cons.prems(2) r p by (intro Cons.IH) auto
  moreover have "address_step (phase_of c) (filter visible o1) (phase_of c1)"
    using Cons.prems p by (intro dhcp_poll_refines) auto
  ultimately show ?case using out by (auto intro: address_run.more)
qed

text \<open>What the owner of the interface has applied after a list of actions.\<close>

definition applied :: "dhcp_action list \<Rightarrow> lease option \<Rightarrow> lease option" where
  "applied acts l0 =
     fold (\<lambda>a l. case a of Da_Configured l' \<Rightarrow> Some l' | Da_Deconfigure _ \<Rightarrow> None | _ \<Rightarrow> l) acts l0"

lemma applied_visible: "applied (filter visible acts) l = applied acts l"
  by (induction acts arbitrary: l) (auto simp: applied_def visible_def split: dhcp_action.splits)

definition phase_lease :: "address_phase \<Rightarrow> lease option" where
  "phase_lease p = (case p of Ap_Holding l \<Rightarrow> Some l | _ \<Rightarrow> None)"

lemma address_step_applied:
  "address_step p out p' \<Longrightarrow> applied out (phase_lease p) = phase_lease p'"
  by (induction rule: address_step.induct)
    (auto simp: applied_def phase_lease_def split: address_phase.splits)

lemma address_run_applied:
  "address_run p out p' \<Longrightarrow> applied out (phase_lease p) = phase_lease p'"
  by (induction rule: address_run.induct)
    (auto simp: applied_def phase_lease_def fold_append dest!: address_step_applied)

lemma phase_lease_of [simp]: "phase_lease (phase_of c) = dc_lease c"
  by (auto simp: phase_lease_def phase_of_def split: option.splits)

text \<open>
  C6. The client implements the abstract life cycle of an address. For every sequence of inputs in
  which the caller starts an exchange only while no lease is held, the configurations, removals and
  failures it reports are a run of that life cycle, and performing them leaves on the interface exactly
  the lease the client holds.
\<close>
theorem dhcp_refines_address_cycle:
  assumes "dhcp_inv c" "starts_free c is" "run_machine dhcp_step c is = Some (c', out)"
  shows "address_run (phase_of c) (filter visible out) (phase_of c')
    \<and> applied out (dc_lease c) = dc_lease c'"
proof
  show run: "address_run (phase_of c) (filter visible out) (phase_of c')"
    by (rule dhcp_run_refines[OF assms])
  show "applied out (dc_lease c) = dc_lease c'"
    using address_run_applied[OF run] by (simp add: applied_visible)
qed

text \<open>A start while a lease is held forgets it silently, and the pending expiry is then ignored.\<close>

lemma dhcp_restart_forgets:
  assumes "dc_lease c = Some l"
  shows "\<exists>c' out. run_machine dhcp_step c [Di_Start xid, Di_Timeout Dt_Expire] = Some (c', out)
    \<and> dc_lease c' = None \<and> applied out (Some l) = Some l"
  by (simp add: dhcp_step_def dhcp_poll_def dhcp_start_def Let_def dhcp_on_timeout_def
      dhcp_broadcast_def applied_def)

section \<open>What an exchange costs\<close>

definition sends :: "dhcp_action list \<Rightarrow> nat" where
  "sends acts = length (filter (\<lambda>a. sent_by a \<noteq> None) acts)"

definition tries_left :: "dhcp4 \<Rightarrow> nat" where
  "tries_left c =
     (case dc_state c of
        Ds_Selecting \<Rightarrow> 3 - unat (dc_tries c) + 4
      | Ds_Requesting \<Rightarrow> 3 - unat (dc_tries c)
      | _ \<Rightarrow> 0)"

lemma sends_simps [simp]:
  "sends [] = 0" "sends (xs @ ys) = sends xs + sends ys"
  "sends (Da_Broadcast d # xs) = Suc (sends xs)" "sends (Da_Unicast s d # xs) = Suc (sends xs)"
  "sends (Da_SetTimer t n # xs) = sends xs" "sends (Da_Configured l # xs) = sends xs"
  "sends (Da_Deconfigure r # xs) = sends xs" "sends (Da_Failed # xs) = sends xs"
  by (simp_all add: sends_def sent_by_def)

lemma tries_step:
  assumes "(n :: u32) < 4" "\<not> 4 \<le> n + 1"
  shows "unat (n + 1) = Suc (unat n)" "unat n < 3"
  using assms tries_lt_4[of n] by auto

lemma dhcp_timeout_cost:
  assumes inv: "dhcp_inv c" and nh: "\<not> holding (dc_state c)" and p: "dhcp_on_timeout c t = (c', acts)"
  shows "sends acts + tries_left c' \<le> tries_left c \<and> \<not> holding (dc_state c')"
proof -
  have l: "dc_lease c = None" and tr: "dc_tries c < 4"
    using inv dhcp_inv_free[OF inv nh] by (auto simp: dhcp_inv_def MAX_TRIES_def)
  show ?thesis
  proof (cases "t = Dt_Retransmit \<and> \<not> MAX_TRIES \<le> dc_tries c + 1")
    case True
    then have "\<not> 4 \<le> dc_tries c + 1" by (simp add: MAX_TRIES_def)
    note step = tries_step[OF tr this]
    show ?thesis using p nh True step
      by (cases "dc_state c")
        (auto simp: dhcp_on_timeout_def dhcp_retransmit_def dhcp_age_def dhcp_broadcast_def Let_def
          tries_left_def holding_def)
  next
    case False
    then show ?thesis using p nh l
      by (cases t; cases "dc_state c")
        (auto simp: dhcp_on_timeout_def dhcp_retransmit_def dhcp_give_up_def tries_left_def holding_def
          split: if_splits)
  qed
qed

lemma dhcp_step_cost:
  assumes inv: "dhcp_inv c" and nh: "\<not> holding (dc_state c)" and p: "dhcp_poll c i = (c', acts)"
    and "no_start i" "\<forall>l. Da_Configured l \<notin> set acts"
  shows "sends acts + tries_left c' \<le> tries_left c \<and> \<not> holding (dc_state c')"
proof (cases i)
  case (Di_Datagram bs)
  then have p': "dhcp_on_datagram c bs = (c', acts)" using p by (simp add: dhcp_poll_def)
  show ?thesis
  proof (cases rule: dhcp_on_datagram_cases[of c bs])
    case (offer msg)
    then show ?thesis using p'
      by (cases "msg_server_id msg")
        (auto simp: dhcp_on_offer_def dhcp_broadcast_def Let_def tries_left_def holding_def)
  next
    case (ack msg)
    then show ?thesis using p' nh assms(5)
      by (cases "lease_from_ack msg") (auto simp: dhcp_on_ack_def)
  next
    case (nak msg)
    then show ?thesis using p' by (auto simp: dhcp_on_nak_def tries_left_def holding_def)
  qed (use p' nh in auto)
qed (use assms dhcp_timeout_cost[OF inv nh] in \<open>auto simp: dhcp_poll_def\<close>)

lemma dhcp_run_cost:
  assumes "dhcp_inv c" "\<not> holding (dc_state c)" "list_all no_start is"
    "run_machine dhcp_step c is = Some (c', out)" "\<forall>l. Da_Configured l \<notin> set out"
  shows "sends out + tries_left c' \<le> tries_left c"
  using assms
proof (induction "is" arbitrary: c out)
  case (Cons i "is")
  obtain c1 o1 where p: "dhcp_poll c i = (c1, o1)" by (cases "dhcp_poll c i")
  then obtain o2 where r: "run_machine dhcp_step c1 is = Some (c', o2)" and out: "out = o1 @ o2"
    using Cons.prems(4) unfolding dhcp_run_Cons by auto
  have "dhcp_inv c1" using dhcp_poll_inv[OF Cons.prems(1), of i] p by simp
  moreover have "sends o1 + tries_left c1 \<le> tries_left c \<and> \<not> holding (dc_state c1)"
    using Cons.prems out p by (intro dhcp_step_cost) auto
  moreover have "\<forall>l. Da_Configured l \<notin> set o2" using Cons.prems(5) out by auto
  ultimately show ?case
    using Cons.IH[of c1 o2] Cons.prems(3) r out by auto
qed simp

text \<open>
  C26. An exchange that is not granted a lease ends: whatever datagrams arrive and timers fire after a
  start, the client sends at most eight messages (four DISCOVERs and four REQUESTs) until a lease is
  configured or the caller starts again.
\<close>
theorem dhcp_exchange_bounded:
  assumes "dhcp_inv c" "list_all no_start is"
    and "run_machine dhcp_step c (Di_Start xid # is) = Some (c', out)"
    and "\<forall>l. Da_Configured l \<notin> set out"
  shows "sends out \<le> 8"
proof -
  define c1 where "c1 = fst (dhcp_start c xid)"
  have c1: "dhcp_poll c (Di_Start xid) = (c1, snd (dhcp_start c xid))"
    by (simp add: dhcp_poll_def c1_def)
  then obtain o2 where r: "run_machine dhcp_step c1 is = Some (c', o2)"
    and out: "out = snd (dhcp_start c xid) @ o2"
    using assms(3) unfolding dhcp_run_Cons by auto
  have st: "dc_state c1 = Ds_Selecting" "sends (snd (dhcp_start c xid)) = 1"
    by (simp_all add: c1_def dhcp_start_def Let_def dhcp_broadcast_def)
  have "dhcp_inv c1" using dhcp_poll_inv[OF assms(1), of "Di_Start xid"] c1 by simp
  then have "sends o2 + tries_left c' \<le> tries_left c1"
    using st assms(2,4) r out by (intro dhcp_run_cost) (auto simp: holding_def)
  moreover have "tries_left c1 \<le> 7" by (simp add: tries_left_def st)
  ultimately show ?thesis using st out by simp
qed

section \<open>Silent and honest servers\<close>

abbreviation retransmit :: dhcp_input where
  "retransmit \<equiv> Di_Timeout Dt_Retransmit"

definition asking :: "dhcp_state \<Rightarrow> bool" where
  "asking st \<longleftrightarrow> st \<in> {Ds_Selecting, Ds_Requesting}"

definition asks_again :: "dhcp4 \<Rightarrow> dhcp_action list" where
  "asks_again c =
     dhcp_broadcast (dhcp_age c)
       (if dc_state c = Ds_Selecting then dhcp_discover (dhcp_age c)
        else dhcp_request_selecting (dhcp_age c))"

lemma four_le_one [simp]: "\<not> (4 :: u32) \<le> 1"
  by (simp add: word_le_nat_alt)

lemma retransmit_once:
  assumes "asking (dc_state c)" "dc_tries c = 0 \<or> dc_tries c = 1 \<or> dc_tries c = 2"
  shows "dhcp_poll c retransmit = (dhcp_age c, asks_again c)"
  using assms
  by (auto simp: asking_def asks_again_def dhcp_poll_def dhcp_on_timeout_def dhcp_retransmit_def
      MAX_TRIES_def Let_def)

lemma retransmit_last:
  assumes "asking (dc_state c)" "dc_tries c = 3"
  shows "dhcp_poll c retransmit = dhcp_give_up c"
  using assms
  by (auto simp: asking_def dhcp_poll_def dhcp_on_timeout_def dhcp_retransmit_def MAX_TRIES_def)

lemma dhcp_age_keeps [simp]:
  "dc_state (dhcp_age c) = dc_state c" "dc_tries (dhcp_age c) = dc_tries c + 1"
  "dc_xid (dhcp_age c) = dc_xid c" "dc_mac (dhcp_age c) = dc_mac c"
  by (simp_all add: dhcp_age_def)

lemma dhcp_backoff_values:
  "dc_tries c = 0 \<Longrightarrow> dhcp_backoff c = 3 \<or> dhcp_backoff c = 5"
  "dc_tries c = 1 \<Longrightarrow> dhcp_backoff c = 7 \<or> dhcp_backoff c = 9"
  "dc_tries c = 2 \<Longrightarrow> dhcp_backoff c = 15 \<or> dhcp_backoff c = 17"
  "dc_tries c = 3 \<Longrightarrow> dhcp_backoff c = 31 \<or> dhcp_backoff c = 33"
  by (simp_all add: dhcp_backoff_def Let_def)

text \<open>The seconds the client asks to wait before it sends again.\<close>

definition waits :: "dhcp_action list \<Rightarrow> nat" where
  "waits acts =
     sum_list (map (\<lambda>a. case a of Da_SetTimer Dt_Retransmit n \<Rightarrow> unat n | _ \<Rightarrow> 0) acts)"

lemma waits_simps [simp]:
  "waits [] = 0" "waits (xs @ ys) = waits xs + waits ys" "waits [Da_Failed] = 0"
  "waits (dhcp_broadcast c d) = unat (dhcp_backoff c)"
  by (simp_all add: waits_def dhcp_broadcast_def)

lemma sends_broadcast [simp]: "sends (dhcp_broadcast c d) = 1"
  by (simp add: dhcp_broadcast_def)

lemma retransmits_run:
  assumes "asking (dc_state c)" "dc_tries c = 0"
  shows "run_machine dhcp_step c (replicate 4 retransmit) =
    Some (fst (dhcp_give_up (dhcp_age (dhcp_age (dhcp_age c)))),
      asks_again c @ asks_again (dhcp_age c) @ asks_again (dhcp_age (dhcp_age c)) @ [Da_Failed])"
proof -
  have four: "replicate 4 r = [r, r, r, r]" for r :: dhcp_input by (simp add: numeral_eq_Suc)
  have "dhcp_poll (dhcp_age (dhcp_age c)) retransmit
      = (dhcp_age (dhcp_age (dhcp_age c)), asks_again (dhcp_age (dhcp_age c)))"
    and "dhcp_poll (dhcp_age c) retransmit = (dhcp_age (dhcp_age c), asks_again (dhcp_age c))"
    and "dhcp_poll c retransmit = (dhcp_age c, asks_again c)"
    and "dhcp_poll (dhcp_age (dhcp_age (dhcp_age c))) retransmit
      = dhcp_give_up (dhcp_age (dhcp_age (dhcp_age c)))"
    using assms by (intro retransmit_once retransmit_last; simp)+
  then show ?thesis by (simp add: four dhcp_step_def dhcp_give_up_def)
qed

text \<open>
  A server that never answers is given up on: after a start, four expiries of the retransmission
  timer end the exchange with exactly one failure report, in the state \<^verbatim>\<open>Init\<close>, after four messages
  and between 56 and 64 seconds of waiting in all.
\<close>
theorem dhcp_unanswered:
  "\<exists>c' out. run_machine dhcp_step c (Di_Start xid # replicate 4 retransmit) = Some (c', out)
     \<and> dc_state c' = Ds_Init \<and> filter visible out = [Da_Failed] \<and> sends out = 4
     \<and> 56 \<le> waits out \<and> waits out \<le> 64"
proof -
  define c1 where "c1 = fst (dhcp_start c xid)"
  define d where "d = dhcp_discover c1"
  have st: "dc_state c1 = Ds_Selecting" "dc_tries c1 = 0"
    and p: "dhcp_poll c (Di_Start xid) = (c1, dhcp_broadcast c1 d)"
    by (simp_all add: c1_def d_def dhcp_start_def Let_def dhcp_poll_def)
  define out where "out = dhcp_broadcast c1 d @ asks_again c1 @ asks_again (dhcp_age c1)
    @ asks_again (dhcp_age (dhcp_age c1)) @ [Da_Failed]"
  have run: "run_machine dhcp_step c (Di_Start xid # replicate 4 retransmit)
      = Some (fst (dhcp_give_up (dhcp_age (dhcp_age (dhcp_age c1)))), out)"
    using retransmits_run[of c1] st p unfolding dhcp_run_Cons by (simp add: asking_def out_def)
  have "unat (dhcp_backoff c1) \<in> {3, 5}" "unat (dhcp_backoff (dhcp_age c1)) \<in> {7, 9}"
    "unat (dhcp_backoff (dhcp_age (dhcp_age c1))) \<in> {15, 17}"
    "unat (dhcp_backoff (dhcp_age (dhcp_age (dhcp_age c1)))) \<in> {31, 33}"
    using dhcp_backoff_values[of c1] dhcp_backoff_values[of "dhcp_age c1"] st
      dhcp_backoff_values[of "dhcp_age (dhcp_age c1)"]
      dhcp_backoff_values[of "dhcp_age (dhcp_age (dhcp_age c1))"] by auto
  moreover have "waits out = unat (dhcp_backoff c1) + unat (dhcp_backoff (dhcp_age c1))
      + unat (dhcp_backoff (dhcp_age (dhcp_age c1)))
      + unat (dhcp_backoff (dhcp_age (dhcp_age (dhcp_age c1))))"
    by (simp add: out_def asks_again_def)
  moreover have "sends out = 4" by (simp add: out_def asks_again_def)
  moreover have "filter visible out = [Da_Failed]"
    by (simp add: out_def asks_again_def dhcp_broadcast_def)
  ultimately show ?thesis using run by (auto simp: dhcp_give_up_def)
qed

text \<open>Losing up to three messages changes nothing but the retransmission counters.\<close>

lemma losses_run:
  assumes "asking (dc_state c)" "dc_tries c = 0" "k \<le> 3"
  shows "\<exists>c' out. run_machine dhcp_step c (replicate k retransmit) = Some (c', out)
    \<and> dc_state c' = dc_state c \<and> dc_xid c' = dc_xid c \<and> dc_mac c' = dc_mac c"
proof -
  have polls: "dhcp_poll c retransmit = (dhcp_age c, asks_again c)"
    "dhcp_poll (dhcp_age c) retransmit = (dhcp_age (dhcp_age c), asks_again (dhcp_age c))"
    "dhcp_poll (dhcp_age (dhcp_age c)) retransmit
      = (dhcp_age (dhcp_age (dhcp_age c)), asks_again (dhcp_age (dhcp_age c)))"
    using assms by (intro retransmit_once; simp)+
  consider "k = 0" | "k = 1" | "k = 2" | "k = 3" using assms(3) by linarith
  then show ?thesis by cases (simp_all add: polls dhcp_step_def numeral_eq_Suc)
qed

definition reply_to :: "bytes \<Rightarrow> u32 \<Rightarrow> message_type \<Rightarrow> dhcp_msg \<Rightarrow> bool" where
  "reply_to mac xid mt m \<longleftrightarrow>
     msg_fits m \<and> dm_op m = BOOTREPLY \<and> dm_xid m = xid \<and> take 6 (dm_chaddr m) = mac
     \<and> msg_message_type m = Some mt"

text \<open>
  C32. With an honest server the exchange succeeds, bytes included: whatever state the client is in,
  a start, an offer and an acknowledgement for its transaction id, each delivered after at most three
  losses, leave it Bound with exactly the lease the acknowledgement grants, configured last and with
  its three timers armed.
\<close>
theorem dhcp_honest_exchange:
  assumes "reply_to (dc_mac c) xid Mt_Offer offer" "msg_server_id offer = Some s"
    and "reply_to (dc_mac c) xid Mt_Ack ack" "lease_from_ack ack = Inr l"
    and "k \<le> 3" "j \<le> 3"
  shows "\<exists>c' out. run_machine dhcp_step c
      (Di_Start xid # replicate k retransmit @ Di_Datagram (msg_encode offer)
        # replicate j retransmit @ [Di_Datagram (msg_encode ack)])
      = Some (c', out @ [Da_SetTimer Dt_Renew (ls_renew_secs l), Da_SetTimer Dt_Rebind (ls_rebind_secs l),
                         Da_SetTimer Dt_Expire (ls_lease_secs l), Da_Configured l])
    \<and> dc_state c' = Ds_Bound \<and> dc_lease c' = Some l"
proof -
  define c1 where "c1 = fst (dhcp_start c xid)"
  obtain o1 where p1: "dhcp_poll c (Di_Start xid) = (c1, o1)"
    and c1: "dc_state c1 = Ds_Selecting" "dc_tries c1 = 0" "dc_xid c1 = xid" "dc_mac c1 = dc_mac c"
    by (simp add: c1_def dhcp_start_def Let_def dhcp_poll_def)
  obtain c2 o2 where r2: "run_machine dhcp_step c1 (replicate k retransmit) = Some (c2, o2)"
    and c2: "dc_state c2 = Ds_Selecting" "dc_xid c2 = xid" "dc_mac c2 = dc_mac c"
    using losses_run[of c1 k] c1 assms(5) by (auto simp: asking_def)
  have dec: "msg_decode (msg_encode offer) = Inr offer" "msg_decode (msg_encode ack) = Inr ack"
    using assms(1,3) by (auto simp: reply_to_def intro: msg_decode_encode)
  obtain c3 o3 where p3: "dhcp_poll c2 (Di_Datagram (msg_encode offer)) = (c3, o3)"
    and c3: "dc_state c3 = Ds_Requesting" "dc_tries c3 = 0" "dc_xid c3 = xid" "dc_mac c3 = dc_mac c"
    using assms(1,2) c2 dec(1)
    by (simp add: dhcp_poll_def dhcp_on_datagram_def reply_to_def dhcp_on_offer_def Let_def)
  obtain c4 o4 where r4: "run_machine dhcp_step c3 (replicate j retransmit) = Some (c4, o4)"
    and c4: "dc_state c4 = Ds_Requesting" "dc_xid c4 = xid" "dc_mac c4 = dc_mac c"
    using losses_run[of c3 j] c3 assms(6) by (auto simp: asking_def)
  have p5: "dhcp_poll c4 (Di_Datagram (msg_encode ack)) = dhcp_on_ack c4 ack"
    using assms(3) c4 dec(2) by (simp add: dhcp_poll_def dhcp_on_datagram_def reply_to_def)
  show ?thesis
    using p1 r2 p3 r4 p5 assms(4)
    by (simp add: run_machine_append dhcp_step_def dhcp_on_ack_def)
qed

section \<open>A concrete exchange\<close>

definition ex_mac :: bytes where "ex_mac = [0x5a, 0x94, 0xef, 0xe4, 0x0c, 0xee]"
definition ex_xid :: u32 where "ex_xid = 0x3903f326"
definition ex_server :: ipv4 where "ex_server = 0xC0A80101"

definition ex_offer :: dhcp_msg where
  "ex_offer = (msg_request ex_xid ex_mac)
     \<lparr>dm_op := BOOTREPLY, dm_yiaddr := 0xC0A80118,
      dm_options := [Do_MessageType Mt_Offer, Do_ServerId ex_server]\<rparr>"

definition ex_ack :: dhcp_msg where
  "ex_ack = (msg_request ex_xid ex_mac)
     \<lparr>dm_op := BOOTREPLY, dm_yiaddr := 0xC0A80118,
      dm_options := [Do_MessageType Mt_Ack, Do_ServerId ex_server, Do_LeaseTime 43200,
        Do_SubnetMask 0xFFFFFF00, Do_Router [0, ex_server], Do_Dns [ex_server, 0x08080808]]\<rparr>"

definition ex_lease :: lease where
  "ex_lease = \<lparr>ls_addr = 0xC0A80118, ls_prefix_len = 24, ls_gateway = Some ex_server,
     ls_dns = [ex_server, 0x08080808], ls_server = ex_server, ls_lease_secs = 43200,
     ls_renew_secs = 21600, ls_rebind_secs = 37800\<rparr>"

lemma ex_prefix: "prefix_len_from_mask 0xFFFFFF00 = Some 24"
  by (rule prefix_len_of_mask) code_simp

lemma ex_replies:
  "reply_to ex_mac ex_xid Mt_Offer ex_offer" "msg_server_id ex_offer = Some ex_server"
  "reply_to ex_mac ex_xid Mt_Ack ex_ack"
  by (simp_all add: reply_to_def msg_fits_def ex_offer_def ex_ack_def msg_request_def ex_mac_def
      text_fits_def offsets mt_from_code_def msg_message_type_def msg_server_id_def)

lemma ex_ack_lease: "lease_from_ack ex_ack = Inr ex_lease"
  by (simp add: lease_from_ack_def ex_ack_def ex_lease_def msg_request_def msg_message_type_def
      msg_server_id_def msg_get_def opt_codes ex_prefix ack_gateway_def ack_dns_def ack_renew_def
      ack_rebind_def Let_def ex_server_def)

definition ex_c0 :: dhcp4 where "ex_c0 = dhcp_new ex_mac ex_xid"
definition ex_c1 :: dhcp4 where "ex_c1 = fst (dhcp_start ex_c0 ex_xid)"
definition ex_c2 :: dhcp4 where "ex_c2 = fst (dhcp_on_offer ex_c1 ex_offer)"
definition ex_c3 :: dhcp4 where "ex_c3 = fst (dhcp_on_ack ex_c2 ex_ack)"

lemma ex_decode:
  "msg_decode (msg_encode ex_offer) = Inr ex_offer" "msg_decode (msg_encode ex_ack) = Inr ex_ack"
  using ex_replies by (auto simp: reply_to_def intro: msg_decode_encode)

lemma ex_inv: "dhcp_inv ex_c0"
  by (simp add: ex_c0_def ex_mac_def dhcp_inv_new)

lemma ex_state:
  "dc_mac ex_c0 = ex_mac" "dc_lease ex_c0 = None" "dc_state ex_c0 = Ds_Init"
  "dc_state ex_c1 = Ds_Selecting" "dc_xid ex_c1 = ex_xid" "dc_mac ex_c1 = ex_mac" "dc_lease ex_c1 = None"
  "dc_state ex_c2 = Ds_Requesting" "dc_xid ex_c2 = ex_xid" "dc_mac ex_c2 = ex_mac" "dc_lease ex_c2 = None"
  "dc_state ex_c3 = Ds_Bound" "dc_lease ex_c3 = Some ex_lease"
  by (simp_all add: ex_c0_def dhcp_new_def ex_c1_def dhcp_start_def ex_c2_def dhcp_on_offer_def
      ex_c3_def dhcp_on_ack_def ex_ack_lease ex_replies Let_def)

abbreviation ex_start :: dhcp_input where "ex_start \<equiv> Di_Start ex_xid"
abbreviation ex_offered :: dhcp_input where "ex_offered \<equiv> Di_Datagram (msg_encode ex_offer)"
abbreviation ex_acked :: dhcp_input where "ex_acked \<equiv> Di_Datagram (msg_encode ex_ack)"

lemma ex_polls:
  "dhcp_poll ex_c0 ex_start = (ex_c1, dhcp_broadcast ex_c1 (dhcp_discover ex_c1))"
  "dhcp_poll ex_c1 ex_offered = (ex_c2, dhcp_broadcast ex_c2 (dhcp_request_selecting ex_c2))"
  "dhcp_poll ex_c2 ex_acked = (ex_c3, [Da_SetTimer Dt_Renew 21600, Da_SetTimer Dt_Rebind 37800,
     Da_SetTimer Dt_Expire 43200, Da_Configured ex_lease])"
proof -
  show "dhcp_poll ex_c0 ex_start = (ex_c1, dhcp_broadcast ex_c1 (dhcp_discover ex_c1))"
    by (simp add: dhcp_poll_def dhcp_start_def ex_c1_def Let_def)
  have "dhcp_poll ex_c1 ex_offered = dhcp_on_offer ex_c1 ex_offer"
    using ex_replies(1) by (simp add: dhcp_poll_def dhcp_on_datagram_def ex_decode reply_to_def ex_state)
  then show "dhcp_poll ex_c1 ex_offered = (ex_c2, dhcp_broadcast ex_c2 (dhcp_request_selecting ex_c2))"
    by (simp add: dhcp_on_offer_def ex_replies(2) ex_c2_def Let_def)
  have "dhcp_poll ex_c2 ex_acked = dhcp_on_ack ex_c2 ex_ack"
    using ex_replies(3) by (simp add: dhcp_poll_def dhcp_on_datagram_def ex_decode reply_to_def ex_state)
  then show "dhcp_poll ex_c2 ex_acked = (ex_c3, [Da_SetTimer Dt_Renew 21600, Da_SetTimer Dt_Rebind 37800,
     Da_SetTimer Dt_Expire 43200, Da_Configured ex_lease])"
    by (simp add: dhcp_on_ack_def ex_ack_lease ex_c3_def) (simp add: ex_lease_def)
qed

lemma ex_run:
  "\<exists>out. run_machine dhcp_step ex_c0 [ex_start, ex_offered] = Some (ex_c2, out)
    \<and> (\<forall>l. Da_Configured l \<notin> set out)"
  "\<exists>out. run_machine dhcp_step ex_c0 [ex_start, ex_offered, ex_acked] = Some (ex_c3, out)"
  by (simp_all add: dhcp_step_def ex_polls dhcp_broadcast_def)

text \<open>
  Encoding a DHCP message and decoding the bytes gives the message back, for every message whose
  texts, options and hardware address fit their fields; the encoding is at least the 300 octets relays
  insist on.
\<close>
theorem dhcp_message_roundtrip:
  assumes "msg_fits m"
  shows "msg_decode (msg_encode m) = Inr m \<and> MIN_LEN \<le> length (msg_encode m)"
  using msg_decode_encode[OF assms] length_msg_encode assms by (simp add: msg_fits_def)

lemma dhcp_message_roundtrip_witness:
  "msg_decode (msg_encode ex_ack) = Inr ex_ack \<and> 300 \<le> length (msg_encode ex_ack)"
  using dhcp_message_roundtrip[of ex_ack] ex_replies(3) by (simp add: reply_to_def MIN_LEN_def)

text \<open>
  A subnet mask has a prefix length exactly when it is the mask of that length: the two
  conversions are inverse to each other, and a mask with holes has none.
\<close>
theorem mask_prefix_inverse:
  "prefix_len_from_mask m = Some n \<longleftrightarrow> mask_from_prefix_len n = Some m"
  using prefix_len_of_mask mask_of_prefix_len by blast

lemma dhcp_lease_usable_witness:
  "0 < ls_renew_secs ex_lease \<and> lease_netmask ex_lease = 0xFFFFFF00"
proof -
  have "msg_get OPT_SUBNET_MASK ex_ack = Some (Do_SubnetMask 0xFFFFFF00)"
    by (simp add: msg_get_def ex_ack_def opt_codes)
  then show ?thesis using dhcp_lease_usable[OF ex_ack_lease] by (simp add: ex_lease_def)
qed

lemma dhcp_sends_table5_witness:
  "\<exists>m. msg_decode (dhcp_discover ex_c1) = Inr m \<and> msg_message_type m = Some Mt_Discover"
  using dhcp_sends_table5[OF ex_inv ex_polls(1), of "Da_Broadcast (dhcp_discover ex_c1)" "dhcp_discover ex_c1"]
  by (auto simp: dhcp_broadcast_def sent_by_def table5_def ex_state)

lemma dhcp_configured_authentic_witness:
  "\<exists>pre post. [ex_start, ex_offered] = pre @ Di_Start (dc_xid ex_c2) # post"
proof -
  obtain out where "run_machine dhcp_step (dhcp_new ex_mac ex_xid) [ex_start, ex_offered] = Some (ex_c2, out)"
    using ex_run(1) by (auto simp: ex_c0_def)
  from dhcp_configured_authentic[OF _ this ex_polls(3), of ex_lease] show ?thesis
    by (fastforce simp: ex_mac_def)
qed

lemma dhcp_refines_address_cycle_witness:
  "\<exists>out. run_machine dhcp_step ex_c0 [ex_start, ex_offered, ex_acked] = Some (ex_c3, out)
     \<and> applied out None = Some ex_lease"
proof -
  obtain out where r: "run_machine dhcp_step ex_c0 [ex_start, ex_offered, ex_acked] = Some (ex_c3, out)"
    using ex_run(2) by blast
  have "starts_free ex_c0 [ex_start, ex_offered, ex_acked]" by (simp add: ex_state)
  from dhcp_refines_address_cycle[OF ex_inv this r] show ?thesis using r by (simp add: ex_state)
qed

lemma dhcp_exchange_bounded_witness:
  "\<exists>out. run_machine dhcp_step ex_c0 [ex_start, ex_offered] = Some (ex_c2, out) \<and> sends out \<le> 8"
proof -
  obtain out where r: "run_machine dhcp_step ex_c0 [ex_start, ex_offered] = Some (ex_c2, out)"
    and nc: "\<forall>l. Da_Configured l \<notin> set out"
    using ex_run(1) by blast
  show ?thesis using dhcp_exchange_bounded[OF ex_inv _ r nc] r by simp
qed

lemma dhcp_honest_exchange_witness:
  "\<exists>c' out. run_machine dhcp_step ex_c0 [ex_start, retransmit, ex_offered, ex_acked] = Some (c', out)
    \<and> dc_lease c' = Some ex_lease"
  using dhcp_honest_exchange[of ex_c0 ex_xid ex_offer ex_server ex_ack ex_lease 1 0] ex_replies
    ex_ack_lease by (auto simp: ex_state)

end
