(* ===== verification/Router_Advert.thy ===== *)
theory Router_Advert
  imports Dhcp_Message
begin

text \<open>
  IPv6 autoconfiguration (\<^verbatim>\<open>src/crates/caw-dhcp/src/ipv6.rs\<close>): Router Advertisements and SLAAC
  addresses. An IPv6 address is its sixteen octets.
\<close>

type_synonym ipv6 = bytes

definition ROUTER_ADVERTISEMENT :: u8 where "ROUTER_ADVERTISEMENT = 134"
definition RA_HDR_LEN :: nat where "RA_HDR_LEN = 16"
definition OPT_PREFIX_INFO :: u8 where "OPT_PREFIX_INFO = 3"
definition OPT_RDNSS :: u8 where "OPT_RDNSS = 25"
definition FLAG_MANAGED :: u8 where "FLAG_MANAGED = 0x80"
definition FLAG_OTHER :: u8 where "FLAG_OTHER = 0x40"
definition PREFIX_ON_LINK :: u8 where "PREFIX_ON_LINK = 0x80"
definition PREFIX_AUTONOMOUS :: u8 where "PREFIX_AUTONOMOUS = 0x40"

record prefix_info =
  pi_prefix :: ipv6
  pi_prefix_len :: u8
  pi_on_link :: bool
  pi_autonomous :: bool
  pi_valid :: u32
  pi_preferred :: u32

definition eui64_interface_id :: "bytes \<Rightarrow> bytes" where
  "eui64_interface_id mac =
     [(mac ! 0) XOR 0x02, mac ! 1, mac ! 2, 0xff, 0xfe, mac ! 3, mac ! 4, mac ! 5]"

definition slaac_address :: "ipv6 \<Rightarrow> u8 \<Rightarrow> bytes \<Rightarrow> ipv6 option" where
  "slaac_address p prefix_len mac =
     (if prefix_len \<noteq> 64 then None else Some (take 8 p @ eui64_interface_id mac))"

definition prefix_slaac :: "prefix_info \<Rightarrow> bytes \<Rightarrow> ipv6 option" where
  "prefix_slaac p mac =
     (if pi_autonomous p then slaac_address (pi_prefix p) (pi_prefix_len p) mac else None)"

record router_advert =
  ra_hop_limit :: u8
  ra_managed :: bool
  ra_other_config :: bool
  ra_router_lifetime :: u16
  ra_reachable_time :: u32
  ra_retrans_timer :: u32
  ra_prefixes :: "prefix_info list"
  ra_dns :: "ipv6 list"

text \<open>The lengths checked first cover every index read.\<close>

definition prefix_info_parse :: "bytes \<Rightarrow> dhcp_error + prefix_info" where
  "prefix_info_parse opt =
     (if length opt \<noteq> 32 \<or> 128 < opt ! 2 then Inl De_Malformed
      else Inr \<lparr>pi_prefix = take 16 (drop 16 opt), pi_prefix_len = opt ! 2,
                pi_on_link = opt ! 3 AND PREFIX_ON_LINK \<noteq> 0,
                pi_autonomous = opt ! 3 AND PREFIX_AUTONOMOUS \<noteq> 0,
                pi_valid = from_be32 (opt ! 4) (opt ! 5) (opt ! 6) (opt ! 7),
                pi_preferred = from_be32 (opt ! 8) (opt ! 9) (opt ! 10) (opt ! 11)\<rparr>)"

function chunks16 :: "bytes \<Rightarrow> ipv6 list" where
  "chunks16 bs = (if length bs < 16 then [] else take 16 bs # chunks16 (drop 16 bs))"
  by auto
termination
  by (relation "measure length") auto

declare chunks16.simps [simp del]

definition rdnss :: "bytes \<Rightarrow> dhcp_error + ipv6 list" where
  "rdnss opt =
     (if length opt < 8 then Inl De_Malformed
      else
        let addrs = drop 8 opt
        in if addrs = [] \<or> length addrs mod 16 \<noteq> 0 then Inl De_Malformed else Inr (chunks16 addrs))"

text \<open>
  The option loop on the unread bytes. An option of length zero is refused, which is what makes the
  loop end.
\<close>

function (sequential) ra_options :: "router_advert \<Rightarrow> bytes \<Rightarrow> dhcp_error + router_advert" where
  "ra_options advert [] = Inr advert"
| "ra_options advert [_] = Inl De_Malformed"
| "ra_options advert (kind # units # rest) =
     (let bs = kind # units # rest;
          len = unat units * 8
      in if len = 0 then Inl De_Malformed
         else if length bs < len then Inl De_Malformed
         else
           let opt = take len bs
           in if kind = OPT_PREFIX_INFO then
                (case prefix_info_parse opt of
                   Inl e \<Rightarrow> Inl e
                 | Inr p \<Rightarrow> ra_options (advert\<lparr>ra_prefixes := ra_prefixes advert @ [p]\<rparr>) (drop len bs))
              else if kind = OPT_RDNSS then
                (case rdnss opt of
                   Inl e \<Rightarrow> Inl e
                 | Inr addrs \<Rightarrow> ra_options (advert\<lparr>ra_dns := ra_dns advert @ addrs\<rparr>) (drop len bs))
              else ra_options advert (drop len bs))"
  by pat_completeness auto
termination
  by (relation "measure (\<lambda>(_, bs). length bs)") auto

definition ra_decode :: "bytes \<Rightarrow> dhcp_error + router_advert" where
  "ra_decode buf =
     (if length buf < RA_HDR_LEN \<or> buf ! 0 \<noteq> ROUTER_ADVERTISEMENT \<or> buf ! 1 \<noteq> 0
      then Inl De_Malformed
      else ra_options
        \<lparr>ra_hop_limit = buf ! 4,
         ra_managed = buf ! 5 AND FLAG_MANAGED \<noteq> 0,
         ra_other_config = buf ! 5 AND FLAG_OTHER \<noteq> 0,
         ra_router_lifetime = from_be16 (buf ! 6) (buf ! 7),
         ra_reachable_time = from_be32 (buf ! 8) (buf ! 9) (buf ! 10) (buf ! 11),
         ra_retrans_timer = from_be32 (buf ! 12) (buf ! 13) (buf ! 14) (buf ! 15),
         ra_prefixes = [], ra_dns = []\<rparr>
        (drop RA_HDR_LEN buf))"

definition ra_autonomous_prefix :: "router_advert \<Rightarrow> prefix_info option" where
  "ra_autonomous_prefix a = find pi_autonomous (ra_prefixes a)"

section \<open>SLAAC\<close>

lemma eui64_inj:
  assumes "length m = 6" "length m' = 6" "eui64_interface_id m = eui64_interface_id m'"
  shows "m = m'"
proof -
  have bits: "m ! 0 XOR 2 = m' ! 0 XOR 2" using assms(3) by (simp add: eui64_interface_id_def)
  have "m ! 0 = (m ! 0 XOR 2) XOR 2" by (simp add: ac_simps)
  also have "\<dots> = m' ! 0" unfolding bits by (simp add: ac_simps)
  finally have "m ! i = m' ! i" if "i < 6" for i
    using that assms(3) less_Suc_eq[of i 5]
    by (auto simp: eui64_interface_id_def numeral_eq_Suc less_Suc_eq)
  then show ?thesis using assms(1,2) by (intro nth_equalityI) auto
qed

lemma slaac_address_shape:
  "slaac_address p n mac = Some a \<Longrightarrow> length p = 16 \<Longrightarrow>
     n = 64 \<and> length a = 16 \<and> take 8 a = take 8 p \<and> drop 8 a = eui64_interface_id mac"
  by (auto simp: slaac_address_def eui64_interface_id_def split: if_splits)

lemma prefix_info_parse_wf:
  "prefix_info_parse opt = Inr p \<Longrightarrow> length (pi_prefix p) = 16 \<and> pi_prefix_len p \<le> 128"
  by (auto simp: prefix_info_parse_def split: if_splits)

text \<open>Every address of an accepted advertisement is whole and every prefix length possible.\<close>

definition ra_wf :: "router_advert \<Rightarrow> bool" where
  "ra_wf a \<longleftrightarrow>
     list_all (\<lambda>p. length (pi_prefix p) = 16 \<and> pi_prefix_len p \<le> 128) (ra_prefixes a)
     \<and> list_all (\<lambda>d. length d = 16) (ra_dns a)"

lemma chunks16_whole: "list_all (\<lambda>d. length d = 16) (chunks16 bs)"
proof (induction bs rule: chunks16.induct)
  case (1 bs)
  then show ?case by (subst chunks16.simps) auto
qed

lemma chunks16_tile: "length bs mod 16 = 0 \<Longrightarrow> concat (chunks16 bs) = bs"
proof (induction bs rule: chunks16.induct)
  case (1 bs)
  show ?case
  proof (cases "length bs < 16")
    case True
    then show ?thesis using 1(2) by (subst chunks16.simps) simp
  next
    case False
    then have "concat (chunks16 (drop 16 bs)) = drop 16 bs"
      using 1 by (intro 1(1)) (auto simp: le_mod_geq)
    then show ?thesis using False by (subst chunks16.simps) simp
  qed
qed

lemma ra_options_wf: "ra_options a bs = Inr a' \<Longrightarrow> ra_wf a \<Longrightarrow> ra_wf a'"
proof (induction a bs rule: ra_options.induct)
  case (3 a kind units rest)
  show ?case
    using 3 chunks16_whole prefix_info_parse_wf
    by (auto simp: Let_def ra_wf_def rdnss_def split: if_splits sum.splits)
qed auto

lemma ra_decode_wf: "ra_decode buf = Inr a \<Longrightarrow> ra_wf a"
  by (auto simp: ra_decode_def ra_wf_def split: if_splits dest!: ra_options_wf)

text \<open>
  An address formed from an accepted Router Advertisement lies in the advertised /64, which the
  router allowed for autoconfiguration, is a whole address, and identifies the interface: two hosts that
  form the same address from it have the same hardware address.
\<close>
theorem slaac_in_prefix:
  assumes "ra_decode buf = Inr a" "ra_autonomous_prefix a = Some p"
    and "prefix_slaac p mac = Some addr" "length mac = 6"
  shows "p \<in> set (ra_prefixes a) \<and> pi_autonomous p \<and> pi_prefix_len p = 64
    \<and> length addr = 16 \<and> take 8 addr = take 8 (pi_prefix p)
    \<and> (\<forall>mac'. length mac' = 6 \<and> prefix_slaac p mac' = Some addr \<longrightarrow> mac' = mac)"
proof -
  have p: "p \<in> set (ra_prefixes a)" "pi_autonomous p"
    using assms(2) by (auto simp: ra_autonomous_prefix_def dest: find_SomeD)
  then have len: "length (pi_prefix p) = 16"
    using ra_decode_wf[OF assms(1)] by (auto simp: ra_wf_def list_all_iff)
  have s: "prefix_slaac p m = Some b \<Longrightarrow> pi_prefix_len p = 64 \<and> length b = 16
      \<and> take 8 b = take 8 (pi_prefix p) \<and> drop 8 b = eui64_interface_id m" for m b
    using slaac_address_shape[of "pi_prefix p" "pi_prefix_len p" m b] len p(2)
    by (simp add: prefix_slaac_def)
  have "mac' = mac" if "length mac' = 6" "prefix_slaac p mac' = Some addr" for mac'
    using s[OF that(2)] s[OF assms(3)] eui64_inj[OF that(1) assms(4)] by simp
  then show ?thesis using p s[OF assms(3)] by blast
qed

definition ex_advert :: bytes where
  "ex_advert = [134, 0, 0, 0, 64, 0, 0x07, 0x08] @ replicate 8 0
     @ [3, 4, 64, 0xC0] @ replicate 12 0 @ [0x20, 0x01, 0x0d, 0xb8] @ replicate 12 0"

lemma slaac_in_prefix_witness:
  "\<exists>a p addr. ra_decode ex_advert = Inr a \<and> ra_autonomous_prefix a = Some p
     \<and> prefix_slaac p [0x00, 0x0c, 0x29, 0x0c, 0x47, 0xd5] = Some addr
     \<and> take 4 addr = [0x20, 0x01, 0x0d, 0xb8]"
proof -
  define p where "p = \<lparr>pi_prefix = [0x20, 0x01, 0x0d, 0xb8] @ replicate 12 0, pi_prefix_len = 64,
    pi_on_link = True, pi_autonomous = True, pi_valid = 0, pi_preferred = 0\<rparr>"
  define a where "a = \<lparr>ra_hop_limit = 64, ra_managed = False, ra_other_config = False,
    ra_router_lifetime = 0x0708, ra_reachable_time = 0, ra_retrans_timer = 0, ra_prefixes = [p],
    ra_dns = []\<rparr>"
  have d: "ra_decode ex_advert = Inr a"
    unfolding a_def p_def by code_simp
  have f: "ra_autonomous_prefix a = Some p" by (simp add: a_def p_def ra_autonomous_prefix_def)
  define mac :: bytes where "mac = [0x00, 0x0c, 0x29, 0x0c, 0x47, 0xd5]"
  obtain addr where s: "prefix_slaac p mac = Some addr"
    by (simp add: prefix_slaac_def p_def slaac_address_def)
  have "take 8 addr = take 8 (pi_prefix p)"
    using slaac_in_prefix[OF d f s] by (simp add: mac_def)
  then have "take 4 (take 8 addr) = take 4 (take 8 (pi_prefix p))" by simp
  then have "take 4 addr = [0x20, 0x01, 0x0d, 0xb8]" by (simp add: p_def)
  then show ?thesis using d f s unfolding mac_def by blast
qed

end
