(* ===== verification/Eap.thy ===== *)
theory Eap
  imports Eapol_Key
begin

text \<open>
  EAP packets (\<^verbatim>\<open>src/crates/caw-eapol/src/eap/packet.rs\<close>) and the fragmentation the TLS-based methods
  share (\<^verbatim>\<open>src/crates/caw-eapol/src/eap/frag.rs\<close>): the reassembler, the fragmenter and the
  request/response lock-step above them. A function that can reach an \<^verbatim>\<open>expect\<close> returns an option
  whose \<open>None\<close> is the panic.
\<close>

section \<open>Packets\<close>

definition EAP_HDR_LEN :: nat where "EAP_HDR_LEN = 4"

definition EAP_IDENTITY :: u8 where "EAP_IDENTITY = 1"
definition EAP_NOTIFICATION :: u8 where "EAP_NOTIFICATION = 2"
definition EAP_NAK :: u8 where "EAP_NAK = 3"
definition EAP_TLS :: u8 where "EAP_TLS = 13"
definition EAP_TTLS :: u8 where "EAP_TTLS = 21"
definition EAP_PEAP :: u8 where "EAP_PEAP = 25"
definition EAP_MSCHAPV2 :: u8 where "EAP_MSCHAPV2 = 26"
definition EAP_TLV :: u8 where "EAP_TLV = 33"

lemmas eap_types = EAP_IDENTITY_def EAP_NOTIFICATION_def EAP_NAK_def EAP_TLS_def EAP_TTLS_def
  EAP_PEAP_def EAP_MSCHAPV2_def EAP_TLV_def

datatype eap_code = Ec_Request | Ec_Response | Ec_Success | Ec_Failure

definition eap_code_from_u8 :: "u8 \<Rightarrow> eapol_error + eap_code" where
  "eap_code_from_u8 v =
     (if v = 1 then Inr Ec_Request else if v = 2 then Inr Ec_Response
      else if v = 3 then Inr Ec_Success else if v = 4 then Inr Ec_Failure
      else Inl (Ee_UnsupportedEapCode v))"

definition eap_code_u8 :: "eap_code \<Rightarrow> u8" where
  "eap_code_u8 c = (case c of Ec_Request \<Rightarrow> 1 | Ec_Response \<Rightarrow> 2 | Ec_Success \<Rightarrow> 3 | Ec_Failure \<Rightarrow> 4)"

record eap_packet =
  ep_code :: eap_code
  ep_identifier :: u8
  ep_data :: bytes

definition eap_parse :: "bytes \<Rightarrow> eapol_error + eap_packet" where
  "eap_parse buf =
     (case buf of
        code # identifier # hi # lo # rest \<Rightarrow>
          (let declared = unat (from_be16 hi lo) in
           if declared < EAP_HDR_LEN then Inl Ee_Malformed
           else if length rest < declared - EAP_HDR_LEN then Inl Ee_Malformed
           else case eap_code_from_u8 code of
             Inl e \<Rightarrow> Inl e
           | Inr c \<Rightarrow> Inr \<lparr>ep_code = c, ep_identifier = identifier,
                           ep_data = take (declared - EAP_HDR_LEN) rest\<rparr>)
      | _ \<Rightarrow> Inl Ee_Malformed)"

definition eap_type_of :: "eap_packet \<Rightarrow> u8 option" where
  "eap_type_of p =
     (case ep_code p of
        Ec_Request \<Rightarrow> slice_first (ep_data p)
      | Ec_Response \<Rightarrow> slice_first (ep_data p)
      | Ec_Success \<Rightarrow> None
      | Ec_Failure \<Rightarrow> None)"

definition eap_type_data :: "eap_packet \<Rightarrow> bytes" where
  "eap_type_data p = drop 1 (ep_data p)"

definition eap_encode :: "eap_code \<Rightarrow> u8 \<Rightarrow> bytes \<Rightarrow> bytes option" where
  "eap_encode code identifier payload =
     (let len = EAP_HDR_LEN + length payload
      in if len < 2 ^ 16 then Some ([eap_code_u8 code, identifier] @ u16_be (of_nat len) @ payload)
         else None)"

definition eap_response :: "u8 \<Rightarrow> u8 \<Rightarrow> bytes \<Rightarrow> bytes option" where
  "eap_response identifier ty type_data = eap_encode Ec_Response identifier (ty # type_data)"

definition eap_nak :: "u8 \<Rightarrow> bytes \<Rightarrow> bytes option" where
  "eap_nak identifier desired =
     (if desired = [] then eap_response identifier EAP_NAK [0]
      else eap_response identifier EAP_NAK desired)"

section \<open>Fragments\<close>

definition FLAG_LENGTH_INCLUDED :: u8 where "FLAG_LENGTH_INCLUDED = 0x80"
definition FLAG_MORE_FRAGMENTS :: u8 where "FLAG_MORE_FRAGMENTS = 0x40"
definition FLAG_START :: u8 where "FLAG_START = 0x20"
definition VERSION_MASK :: u8 where "VERSION_MASK = 0x07"
definition MAX_TLS_MESSAGE :: nat where "MAX_TLS_MESSAGE = 64 * 1024"
definition DEFAULT_FRAGMENT_SIZE :: nat where "DEFAULT_FRAGMENT_SIZE = 1398"

record fragment =
  fg_flags :: u8
  fg_declared :: "u32 option"
  fg_data :: bytes

definition fragment_parse :: "bytes \<Rightarrow> eapol_error + fragment" where
  "fragment_parse type_data =
     (case type_data of
        [] \<Rightarrow> Inl Ee_Malformed
      | flags # rest \<Rightarrow>
          if flags AND FLAG_LENGTH_INCLUDED \<noteq> 0 then
            (case rest of
               a # b # c # d # data \<Rightarrow>
                 Inr \<lparr>fg_flags = flags, fg_declared = Some (from_be32 a b c d), fg_data = data\<rparr>
             | _ \<Rightarrow> Inl Ee_Malformed)
          else Inr \<lparr>fg_flags = flags, fg_declared = None, fg_data = rest\<rparr>)"

definition fragment_more :: "fragment \<Rightarrow> bool" where
  "fragment_more f \<longleftrightarrow> fg_flags f AND FLAG_MORE_FRAGMENTS \<noteq> 0"

definition fragment_start :: "fragment \<Rightarrow> bool" where
  "fragment_start f \<longleftrightarrow> fg_flags f AND FLAG_START \<noteq> 0"

definition fragment_version :: "fragment \<Rightarrow> u8" where
  "fragment_version f = fg_flags f AND VERSION_MASK"

record reassembler =
  rs_buf :: bytes
  rs_declared :: "nat option"

definition reassembler_new :: reassembler where
  "reassembler_new = \<lparr>rs_buf = [], rs_declared = None\<rparr>"

definition rs_in_progress :: "reassembler \<Rightarrow> bool" where
  "rs_in_progress r \<longleftrightarrow> rs_declared r \<noteq> None \<or> rs_buf r \<noteq> []"

definition rs_reset :: "reassembler \<Rightarrow> reassembler" where
  "rs_reset r = r\<lparr>rs_buf := [], rs_declared := None\<rparr>"

text \<open>The first half of \<^verbatim>\<open>push\<close>: what a declared length, or its absence, allows.\<close>

definition rs_admit :: "reassembler \<Rightarrow> fragment \<Rightarrow> eapol_error + reassembler" where
  "rs_admit r f =
     (case fg_declared f of
        Some declared \<Rightarrow>
          if rs_in_progress r then Inl Ee_FragmentOutOfOrder
          else if MAX_TLS_MESSAGE < unat declared then Inl Ee_FragmentTooLarge
          else Inr (r\<lparr>rs_declared := Some (unat declared)\<rparr>)
      | None \<Rightarrow>
          if \<not> rs_in_progress r \<and> fragment_more f then Inl Ee_FragmentOutOfOrder else Inr r)"

definition rs_overfull :: "reassembler \<Rightarrow> bool" where
  "rs_overfull r \<longleftrightarrow>
     (case rs_declared r of
        Some declared \<Rightarrow> declared < length (rs_buf r)
      | None \<Rightarrow> MAX_TLS_MESSAGE < length (rs_buf r))"

definition rs_push :: "reassembler \<Rightarrow> fragment \<Rightarrow> reassembler \<times> (eapol_error + bytes option)" where
  "rs_push r0 f =
     (case rs_admit r0 f of
        Inl e \<Rightarrow> (r0, Inl e)
      | Inr r1 \<Rightarrow>
          let r = r1\<lparr>rs_buf := rs_buf r1 @ fg_data f\<rparr>
          in if rs_overfull r then (rs_reset r, Inl Ee_FragmentTooLarge)
             else if fragment_more f then (r, Inr None)
             else if (case rs_declared r of Some d \<Rightarrow> length (rs_buf r) \<noteq> d | None \<Rightarrow> False)
                  then (rs_reset r, Inl Ee_FragmentTooLarge)
             else (r\<lparr>rs_declared := None, rs_buf := []\<rparr>, Inr (Some (rs_buf r))))"

record fragmenter =
  fr_pending :: bytes
  fr_sent :: nat
  fr_size :: nat

definition fragmenter_new :: "nat \<Rightarrow> fragmenter" where
  "fragmenter_new n = \<lparr>fr_pending = [], fr_sent = 0, fr_size = max n 1\<rparr>"

definition fr_queue :: "fragmenter \<Rightarrow> bytes \<Rightarrow> fragmenter" where
  "fr_queue f m = f\<lparr>fr_pending := m, fr_sent := 0\<rparr>"

definition fr_is_empty :: "fragmenter \<Rightarrow> bool" where
  "fr_is_empty f \<longleftrightarrow> length (fr_pending f) \<le> fr_sent f"

definition fr_next :: "fragmenter \<Rightarrow> u8 \<Rightarrow> (fragmenter \<times> bytes option) option" where
  "fr_next f base_flags =
     (if fr_is_empty f then Some (f, None)
      else
        let first = (fr_sent f = 0);
            fin = min (fr_sent f + fr_size f) (length (fr_pending f));
            chunk = take (fin - fr_sent f) (drop (fr_sent f) (fr_pending f));
            more = fin < length (fr_pending f);
            include_len = first \<and> more;
            flags = base_flags OR (if more then FLAG_MORE_FRAGMENTS else 0)
                      OR (if include_len then FLAG_LENGTH_INCLUDED else 0)
        in if include_len \<and> 2 ^ 32 \<le> length (fr_pending f) then None
           else Some (f\<lparr>fr_sent := fin\<rparr>,
             Some (flags # (if include_len then u32_be (of_nat (length (fr_pending f))) else []) @ chunk)))"

section \<open>The lock-step\<close>

record exchange =
  xc_inbound :: reassembler
  xc_outbound :: fragmenter
  xc_base_flags :: u8
  xc_mirror :: bool

datatype incoming = In_Restart | In_Reply bytes | In_Message bytes

definition exchange_new :: "nat \<Rightarrow> bool \<Rightarrow> exchange" where
  "exchange_new fragment_size mirror =
     \<lparr>xc_inbound = reassembler_new, xc_outbound = fragmenter_new fragment_size, xc_base_flags = 0,
      xc_mirror = mirror\<rparr>"

definition xc_empty_reply :: "exchange \<Rightarrow> bytes" where
  "xc_empty_reply x = [xc_base_flags x]"

definition xc_on_request :: "exchange \<Rightarrow> bytes \<Rightarrow> (exchange \<times> (eapol_error + incoming)) option" where
  "xc_on_request x0 type_data =
     (case fragment_parse type_data of
        Inl e \<Rightarrow> Some (x0, Inl e)
      | Inr f \<Rightarrow>
          let x = (if xc_mirror x0 then x0\<lparr>xc_base_flags := fragment_version f\<rparr> else x0)
          in if fragment_start f then
               Some (x\<lparr>xc_inbound := rs_reset (xc_inbound x)\<rparr>, Inr In_Restart)
             else if \<not> fr_is_empty (xc_outbound x) then
               (if fg_data f \<noteq> [] then Some (x, Inl Ee_FragmentOutOfOrder)
                else
                  (case fr_next (xc_outbound x) (xc_base_flags x) of
                     Some (o', Some frag) \<Rightarrow> Some (x\<lparr>xc_outbound := o'\<rparr>, Inr (In_Reply frag))
                   | _ \<Rightarrow> None))
             else
               (case rs_push (xc_inbound x) f of
                  (i', Inl e) \<Rightarrow> Some (x\<lparr>xc_inbound := i'\<rparr>, Inl e)
                | (i', Inr None) \<Rightarrow>
                    Some (x\<lparr>xc_inbound := i'\<rparr>, Inr (In_Reply (xc_empty_reply x)))
                | (i', Inr (Some m)) \<Rightarrow> Some (x\<lparr>xc_inbound := i'\<rparr>, Inr (In_Message m))))"

definition xc_send :: "exchange \<Rightarrow> bytes \<Rightarrow> (exchange \<times> bytes option) option" where
  "xc_send x message =
     (if message = [] then Some (x, None)
      else
        (case fr_next (fr_queue (xc_outbound x) message) (xc_base_flags x) of
           None \<Rightarrow> None
         | Some (o', frag) \<Rightarrow> Some (x\<lparr>xc_outbound := o'\<rparr>, frag)))"

end
