(* ===== verification/Eap_Frag.thy ===== *)
theory Eap_Frag
  imports Eap
begin

text \<open>
  What the EAP framing guarantees: a hostile peer cannot make the reassembler hold more than the
  ceiling, and two honest ends transfer every message of up to 64 KiB exactly, in a bounded number of
  rounds, whatever their fragment sizes.
\<close>

section \<open>Packets\<close>

lemma eap_code_roundtrip [simp]: "eap_code_from_u8 (eap_code_u8 c) = Inr c"
  by (cases c) (simp_all add: eap_code_from_u8_def eap_code_u8_def)

lemma unat_of_nat_u16: "n < 2 ^ 16 \<Longrightarrow> unat (of_nat n :: u16) = n"
  by (simp add: unat_of_nat)

lemma eap_parse_encode:
  assumes "eap_encode c i p = Some w"
  shows "eap_parse (w @ pad) = Inr \<lparr>ep_code = c, ep_identifier = i, ep_data = p\<rparr>"
proof -
  have w: "w = [eap_code_u8 c, i] @ u16_be (of_nat (4 + length p)) @ p" and len: "4 + length p < 2 ^ 16"
    using assms by (auto simp: eap_encode_def EAP_HDR_LEN_def Let_def split: if_splits)
  define u :: u16 where "u = of_nat (4 + length p)"
  have "unat u = 4 + length p" using len unfolding u_def by (rule unat_of_nat_u16)
  then show ?thesis
    unfolding w u_def[symmetric] by (simp add: eap_parse_def u16_be_def EAP_HDR_LEN_def Let_def)
qed

lemma eap_encode_total: "length p < 2 ^ 16 - 4 \<Longrightarrow> \<exists>w. eap_encode c i p = Some w"
  by (simp add: eap_encode_def EAP_HDR_LEN_def Let_def)

lemma eap_response_parse:
  assumes "eap_response i t td = Some w"
  shows "eap_parse w = Inr \<lparr>ep_code = Ec_Response, ep_identifier = i, ep_data = t # td\<rparr>"
  using eap_parse_encode[of Ec_Response i "t # td" w "[]"] assms by (simp add: eap_response_def)

section \<open>The reassembler is bounded\<close>

definition rs_inv :: "reassembler \<Rightarrow> bool" where
  "rs_inv r \<longleftrightarrow>
     (case rs_declared r of
        None \<Rightarrow> rs_buf r = []
      | Some d \<Rightarrow> d \<le> MAX_TLS_MESSAGE \<and> length (rs_buf r) \<le> d)"

lemma rs_inv_new [simp]: "rs_inv reassembler_new"
  by (simp add: rs_inv_def reassembler_new_def)

lemma rs_inv_reset [simp]: "rs_inv (rs_reset r)"
  by (simp add: rs_inv_def rs_reset_def)

lemma rs_push_inv:
  assumes "rs_inv r" "rs_push r f = (r', res)"
  shows "rs_inv r'" and "res = Inr (Some m) \<Longrightarrow> length m \<le> MAX_TLS_MESSAGE"
proof -
  have "rs_inv r' \<and> (res = Inr (Some m) \<longrightarrow> length m \<le> MAX_TLS_MESSAGE)"
    using assms
    by (auto simp: rs_push_def rs_admit_def rs_inv_def rs_reset_def rs_in_progress_def rs_overfull_def
        Let_def split: option.splits if_splits sum.splits)
  then show "rs_inv r'" "res = Inr (Some m) \<Longrightarrow> length m \<le> MAX_TLS_MESSAGE" by auto
qed

primrec rs_feed :: "reassembler \<Rightarrow> fragment list \<Rightarrow> reassembler \<times> (eapol_error + bytes option) list" where
  "rs_feed r [] = (r, [])"
| "rs_feed r (f # fs) =
     (let (r', res) = rs_push r f; (r'', rest) = rs_feed r' fs in (r'', res # rest))"

lemma rs_feed_inv:
  "rs_inv r \<Longrightarrow> rs_feed r fs = (r', out) \<Longrightarrow>
     rs_inv r' \<and> (\<forall>m. Inr (Some m) \<in> set out \<longrightarrow> length m \<le> MAX_TLS_MESSAGE)"
proof (induction fs arbitrary: r out)
  case (Cons f fs)
  obtain r1 res where p: "rs_push r f = (r1, res)" by (cases "rs_push r f")
  obtain rest where q: "rs_feed r1 fs = (r', rest)" "out = res # rest"
    using Cons.prems(2) p by (auto simp: Let_def split: prod.splits)
  show ?case
    using Cons.IH[OF rs_push_inv(1)[OF Cons.prems(1) p] q(1)] rs_push_inv(2)[OF Cons.prems(1) p] q(2)
    by auto
qed simp

text \<open>
  C37. Whatever fragments an unauthenticated peer sends, in any order and with any declared lengths,
  the bytes held for it never exceed 64 KiB between requests, and no message longer than that reaches
  the TLS stack.
\<close>
theorem reassembler_bounded:
  "rs_feed reassembler_new fs = (r, out) \<Longrightarrow>
     length (rs_buf r) \<le> MAX_TLS_MESSAGE
     \<and> (\<forall>m. Inr (Some m) \<in> set out \<longrightarrow> length m \<le> MAX_TLS_MESSAGE)"
  using rs_feed_inv[OF rs_inv_new, of fs r out]
  by (auto simp: rs_inv_def split: option.splits)

lemma reassembler_bounded_witness:
  "length (rs_buf (fst (rs_feed reassembler_new
     [\<lparr>fg_flags = 0xC0, fg_declared = Some 3, fg_data = [1, 2]\<rparr>]))) \<le> MAX_TLS_MESSAGE"
  using reassembler_bounded[of "[\<lparr>fg_flags = 0xC0, fg_declared = Some 3, fg_data = [1, 2]\<rparr>]"]
  by (metis prod.collapse)

section \<open>Transfers\<close>

definition clean :: "u8 \<Rightarrow> bool" where
  "clean b \<longleftrightarrow> b AND FLAG_LENGTH_INCLUDED = 0 \<and> b AND FLAG_MORE_FRAGMENTS = 0 \<and> b AND FLAG_START = 0"

lemmas frag_flags = FLAG_LENGTH_INCLUDED_def FLAG_MORE_FRAGMENTS_def FLAG_START_def VERSION_MASK_def

lemma clean_version [simp]: "clean (b AND VERSION_MASK)"
  by (simp add: clean_def frag_flags and.assoc)

lemma clean_0 [simp]: "clean 0"
  by (simp add: clean_def)

definition frag_wire :: "u8 \<Rightarrow> bool \<Rightarrow> nat option \<Rightarrow> bytes \<Rightarrow> bytes" where
  "frag_wire b mf tot chunk =
     (b OR (if mf then FLAG_MORE_FRAGMENTS else 0) OR (if tot \<noteq> None then FLAG_LENGTH_INCLUDED else 0))
     # (case tot of Some n \<Rightarrow> u32_be (of_nat n) | None \<Rightarrow> []) @ chunk"

lemma frag_wire_parse:
  assumes "clean b"
  obtains f where "fragment_parse (frag_wire b mf tot chunk) = Inr f"
    "fg_declared f = map_option of_nat tot" "fg_data f = chunk"
    "fragment_more f \<longleftrightarrow> mf" "\<not> fragment_start f"
proof -
  let ?fl = "b OR (if mf then FLAG_MORE_FRAGMENTS else 0)
    OR (if tot \<noteq> None then FLAG_LENGTH_INCLUDED else 0)"
  have l: "?fl AND FLAG_LENGTH_INCLUDED \<noteq> 0 \<longleftrightarrow> tot \<noteq> None"
    and m: "?fl AND FLAG_MORE_FRAGMENTS \<noteq> 0 \<longleftrightarrow> mf" and s: "?fl AND FLAG_START = 0"
    using assms by (auto simp: clean_def frag_flags bit.conj_disj_distrib2)
  define f where "f = \<lparr>fg_flags = ?fl, fg_declared = map_option of_nat tot, fg_data = chunk\<rparr>"
  have "fragment_parse (frag_wire b mf tot chunk) = Inr f"
    using l by (cases tot) (auto simp: fragment_parse_def frag_wire_def f_def u32_be_def)
  then show ?thesis
    by (rule that) (use m s in \<open>simp_all add: f_def fragment_more_def fragment_start_def\<close>)
qed

lemma fr_next_wire:
  assumes "fr_pending o0 = msg" "fr_sent o0 = k" "k < length msg" "length msg < 2 ^ 32"
    and "e = min (k + fr_size o0) (length msg)"
  shows "fr_next o0 b = Some (o0\<lparr>fr_sent := e\<rparr>,
    Some (frag_wire b (e < length msg) (if k = 0 \<and> e < length msg then Some (length msg) else None)
      (take (e - k) (drop k msg))))"
  using assms by (auto simp: fr_next_def fr_is_empty_def frag_wire_def Let_def)

text \<open>Two ends in lock-step: the receiver answers a fragment, the sender answers the acknowledgement.\<close>

primrec lockstep ::
  "nat \<Rightarrow> exchange \<Rightarrow> exchange \<Rightarrow> bytes \<Rightarrow> (exchange \<times> exchange \<times> (eapol_error + incoming)) option" where
  "lockstep 0 s r frag = None"
| "lockstep (Suc n) s r frag =
     (case xc_on_request r frag of
        Some (r', Inr (In_Reply ack)) \<Rightarrow>
          (case xc_on_request s ack of
             Some (s', Inr (In_Reply frag')) \<Rightarrow> lockstep n s' r' frag'
           | Some (s', res) \<Rightarrow> Some (s', r', res)
           | None \<Rightarrow> None)
      | Some (r', res) \<Rightarrow> Some (s, r', res)
      | None \<Rightarrow> None)"

definition xc_idle :: "exchange \<Rightarrow> bool" where
  "xc_idle x \<longleftrightarrow>
     xc_inbound x = reassembler_new \<and> fr_is_empty (xc_outbound x) \<and> 0 < fr_size (xc_outbound x)
     \<and> clean (xc_base_flags x)"

text \<open>What the receiver holds after the first \<open>k\<close> of \<open>msg\<close>'s bytes.\<close>

definition held :: "bytes \<Rightarrow> nat \<Rightarrow> reassembler" where
  "held msg k =
     (if k = 0 then reassembler_new else \<lparr>rs_buf = take k msg, rs_declared = Some (length msg)\<rparr>)"

lemma rs_push_held:
  assumes f: "fg_declared f = (if k = 0 \<and> e < length msg then Some (of_nat (length msg)) else None)"
    "fg_data f = take (e - k) (drop k msg)" "fragment_more f \<longleftrightarrow> e < length msg"
    and b: "k < e" "e \<le> length msg" "length msg \<le> MAX_TLS_MESSAGE"
  shows "rs_push (held msg k) f =
    (if e < length msg then (held msg e, Inr None) else (reassembler_new, Inr (Some msg)))"
proof -
  have take: "take k msg @ take (e - k) (drop k msg) = take e msg"
    using b(1) take_add[of k "e - k" msg] by simp
  have nat: "unat (of_nat (length msg) :: u32) = length msg"
    using b(3) by (simp add: unat_of_nat MAX_TLS_MESSAGE_def)
  have ne: "0 < e" "min (length msg) k = k" using b by auto
  show ?thesis
  proof (cases "k = 0")
    case True
    then show ?thesis
      using f b nat
      by (auto simp: rs_push_def rs_admit_def rs_in_progress_def held_def reassembler_new_def
          rs_overfull_def Let_def)
  next
    case False
    then have "take k msg \<noteq> []" using b by auto
    then show ?thesis
      using False f b take ne
      by (auto simp: rs_push_def rs_admit_def rs_in_progress_def held_def reassembler_new_def
          rs_overfull_def Let_def)
  qed
qed

lemma xc_on_request_data:
  assumes "clean b" "fr_is_empty (xc_outbound r)"
    and "xc_inbound r = held msg k"
    and "k < e" "e \<le> length msg" "length msg \<le> MAX_TLS_MESSAGE" "clean (xc_base_flags r)"
  obtains b' where "clean b'"
    "xc_on_request r (frag_wire b (e < length msg)
        (if k = 0 \<and> e < length msg then Some (length msg) else None) (take (e - k) (drop k msg))) =
      Some (if e < length msg
        then (r\<lparr>xc_base_flags := b', xc_inbound := held msg e\<rparr>, Inr (In_Reply [b']))
        else (r\<lparr>xc_base_flags := b', xc_inbound := reassembler_new\<rparr>, Inr (In_Message msg)))"
proof -
  obtain f where f: "fragment_parse (frag_wire b (e < length msg)
      (if k = 0 \<and> e < length msg then Some (length msg) else None) (take (e - k) (drop k msg))) = Inr f"
    "fg_declared f = map_option of_nat (if k = 0 \<and> e < length msg then Some (length msg) else None)"
    "fg_data f = take (e - k) (drop k msg)" "fragment_more f \<longleftrightarrow> e < length msg" "\<not> fragment_start f"
    by (rule frag_wire_parse[OF assms(1)])
  define b' where "b' = (if xc_mirror r then fragment_version f else xc_base_flags r)"
  have "clean b'" using assms(7) by (simp add: b'_def fragment_version_def)
  moreover have "rs_push (held msg k) f =
      (if e < length msg then (held msg e, Inr None) else (reassembler_new, Inr (Some msg)))"
    using f assms(4-6) by (intro rs_push_held) auto
  ultimately show ?thesis
    using f assms(2,3) by (intro that[of b'])
      (auto simp: xc_on_request_def Let_def b'_def xc_empty_reply_def)
qed

lemma xc_on_request_ack:
  assumes "clean b" "clean (xc_base_flags s)" "fr_pending (xc_outbound s) = msg"
    "fr_sent (xc_outbound s) = k" "k < length msg" "length msg < 2 ^ 32"
    and "e = min (k + fr_size (xc_outbound s)) (length msg)"
  obtains b' where "clean b'"
    "xc_on_request s [b] =
      Some (s\<lparr>xc_base_flags := b', xc_outbound := (xc_outbound s)\<lparr>fr_sent := e\<rparr>\<rparr>,
        Inr (In_Reply (frag_wire b' (e < length msg)
          (if k = 0 \<and> e < length msg then Some (length msg) else None) (take (e - k) (drop k msg)))))"
proof -
  have "frag_wire b False None [] = [b]" by (simp add: frag_wire_def)
  then obtain f where f: "fragment_parse [b] = Inr f" "fg_data f = []" "\<not> fragment_start f"
    by (metis frag_wire_parse[OF assms(1)])
  define b' where "b' = (if xc_mirror s then fragment_version f else xc_base_flags s)"
  have "clean b'" using assms(2) by (simp add: b'_def fragment_version_def)
  moreover have "\<not> fr_is_empty (xc_outbound s)" using assms(3-5) by (simp add: fr_is_empty_def)
  ultimately show ?thesis
    using f fr_next_wire[OF assms(3-7), of b']
    by (intro that[of b']) (auto simp: xc_on_request_def Let_def b'_def)
qed

lemma transfer_from:
  assumes "fr_pending (xc_outbound s) = msg" "fr_sent (xc_outbound s) = e" "xc_inbound s = reassembler_new"
    "0 < fr_size (xc_outbound s)" "clean (xc_base_flags s)"
    and "xc_inbound r = held msg k" "fr_is_empty (xc_outbound r)" "0 < fr_size (xc_outbound r)"
    "clean (xc_base_flags r)"
    and "k < e" "e \<le> length msg" "length msg \<le> MAX_TLS_MESSAGE" "clean b" "length msg - k \<le> n"
    and "frag = frag_wire b (e < length msg) (if k = 0 \<and> e < length msg then Some (length msg) else None)
      (take (e - k) (drop k msg))"
  shows "\<exists>s' r'. lockstep n s r frag = Some (s', r', Inr (In_Message msg)) \<and> xc_idle s' \<and> xc_idle r'"
  using assms
proof (induction n arbitrary: s r k e b frag)
  case 0
  then show ?case by simp
next
  case (Suc n)
  note [simp] = Suc.prems(1-9,11-12)
  obtain b' where b': "clean b'" and recv: "xc_on_request r frag =
      Some (if e < length msg
        then (r\<lparr>xc_base_flags := b', xc_inbound := held msg e\<rparr>, Inr (In_Reply [b']))
        else (r\<lparr>xc_base_flags := b', xc_inbound := reassembler_new\<rparr>, Inr (In_Message msg)))"
    unfolding Suc.prems(15)
    by (rule xc_on_request_data[OF Suc.prems(13,7,6,10,11,12,9)])
  show ?case
  proof (cases "e < length msg")
    case False
    then show ?thesis
      using recv b' by (simp add: xc_idle_def fr_is_empty_def[of "xc_outbound s"])
  next
    case True
    define e' where "e' = min (e + fr_size (xc_outbound s)) (length msg)"
    have e': "e < e'" "e' \<le> length msg" using True Suc.prems(4) by (auto simp: e'_def)
    have "length msg < 2 ^ 32" using Suc.prems(12) by (simp add: MAX_TLS_MESSAGE_def)
    then obtain b2 where b2: "clean b2" and send: "xc_on_request s [b'] =
      Some (s\<lparr>xc_base_flags := b2, xc_outbound := (xc_outbound s)\<lparr>fr_sent := e'\<rparr>\<rparr>,
        Inr (In_Reply (frag_wire b2 (e' < length msg)
          (if e = 0 \<and> e' < length msg then Some (length msg) else None) (take (e' - e) (drop e msg)))))"
      by (rule xc_on_request_ack[OF b' Suc.prems(5,1,2) True _ e'_def])
    define s2 where "s2 = s\<lparr>xc_base_flags := b2, xc_outbound := (xc_outbound s)\<lparr>fr_sent := e'\<rparr>\<rparr>"
    define r2 where "r2 = r\<lparr>xc_base_flags := b', xc_inbound := held msg e\<rparr>"
    define frag2 where "frag2 = frag_wire b2 (e' < length msg)
      (if e = 0 \<and> e' < length msg then Some (length msg) else None) (take (e' - e) (drop e msg))"
    have eq: "lockstep (Suc n) s r frag = lockstep n s2 r2 frag2"
      using recv send True by (simp add: s2_def r2_def frag2_def)
    show ?thesis
      unfolding eq
      by (rule Suc.IH[where k = e and e = e' and b = b2])
        (use e' b2 b' Suc.prems(10,14) in \<open>simp_all add: s2_def r2_def frag2_def\<close>)
  qed
qed

text \<open>
  C25. Two ends of the framing transfer any TLS message of up to 64 KiB exactly: when an idle sender
  queues it and the two then answer each other, the receiver hands the whole message, and nothing else,
  to its TLS stack after at most as many rounds as the message has bytes, and both ends are idle again.
  This holds for every pair of fragment sizes, whether or not the ends mirror the version bits.
\<close>
theorem frag_transfer:
  assumes "xc_idle s" "xc_idle r" "msg \<noteq> []" "length msg \<le> MAX_TLS_MESSAGE"
  shows "\<exists>s1 frag s' r'. xc_send s msg = Some (s1, Some frag)
    \<and> lockstep (length msg) s1 r frag = Some (s', r', Inr (In_Message msg)) \<and> xc_idle s' \<and> xc_idle r'"
proof -
  let ?o = "fr_queue (xc_outbound s) msg"
  define e where "e = min (fr_size (xc_outbound s)) (length msg)"
  define frag where "frag = frag_wire (xc_base_flags s) (e < length msg)
    (if e < length msg then Some (length msg) else None) (take e msg)"
  define s1 where "s1 = s\<lparr>xc_outbound := ?o\<lparr>fr_sent := e\<rparr>\<rparr>"
  have len: "0 < length msg" "length msg < 2 ^ 32" using assms(3,4) by (auto simp: MAX_TLS_MESSAGE_def)
  have e: "0 < e" "e \<le> length msg" using assms(1) len by (auto simp: e_def xc_idle_def)
  have "fr_next ?o (xc_base_flags s) = Some (?o\<lparr>fr_sent := e\<rparr>, Some frag)"
    using fr_next_wire[of ?o msg 0 e "xc_base_flags s"] len
    by (simp add: fr_queue_def e_def frag_def)
  then have send: "xc_send s msg = Some (s1, Some frag)"
    using assms(3) by (simp add: xc_send_def s1_def)
  have "\<exists>s' r'. lockstep (length msg) s1 r frag = Some (s', r', Inr (In_Message msg))
      \<and> xc_idle s' \<and> xc_idle r'"
    by (rule transfer_from[where k = 0 and e = e and b = "xc_base_flags s"])
      (use assms e in \<open>auto simp: s1_def fr_queue_def xc_idle_def held_def frag_def\<close>)
  then show ?thesis using send by blast
qed

lemma xc_idle_new: "xc_idle (exchange_new n m)"
  by (simp add: xc_idle_def exchange_new_def fragmenter_new_def fr_is_empty_def)

lemma frag_transfer_witness:
  "\<exists>s1 frag s' r'. xc_send (exchange_new 2 True) [1, 2, 3, 4, 5] = Some (s1, Some frag)
    \<and> lockstep 5 s1 (exchange_new 1398 False) frag = Some (s', r', Inr (In_Message [1, 2, 3, 4, 5]))"
proof -
  have len: "length [1, 2, 3, 4, 5 :: u8] = 5" by simp
  have "length [1, 2, 3, 4, 5 :: u8] \<le> MAX_TLS_MESSAGE" by (simp add: MAX_TLS_MESSAGE_def)
  from frag_transfer[OF xc_idle_new xc_idle_new _ this, of 2 True 1398 False]
  show ?thesis unfolding len by blast
qed

text \<open>
  A restart clears the partial message that was being received but not the one being sent: the bytes
  queued for the old exchange are still offered afterwards.
\<close>

lemma restart_keeps_outbound:
  assumes "fragment_parse td = Inr f" "fragment_start f"
  shows "\<exists>x'. xc_on_request x td = Some (x', Inr In_Restart)
    \<and> xc_inbound x' = reassembler_new \<and> xc_outbound x' = xc_outbound x"
  using assms by (auto simp: xc_on_request_def Let_def rs_reset_def reassembler_new_def)

text \<open>
  A restart of the exchange in the middle of an outgoing message is not one: after the Start flag
  the rest of the old message is still queued, so the next request of the new exchange that carries data
  is refused as out of order and one that carries none is answered with a fragment of the old message.
\<close>
theorem frag_restart_stale:
  assumes "fragment_parse td = Inr f" "fragment_start f" "\<not> fr_is_empty (xc_outbound x)"
    and "xc_on_request x td = Some (x1, r)"
    and "fragment_parse td2 = Inr f2" "\<not> fragment_start f2" "fg_data f2 \<noteq> []"
  shows "\<exists>x2. xc_on_request x1 td2 = Some (x2, Inl Ee_FragmentOutOfOrder)"
proof -
  have "xc_outbound x1 = xc_outbound x" using restart_keeps_outbound[OF assms(1,2), of x] assms(4) by auto
  then show ?thesis using assms(3,5-7) by (auto simp: xc_on_request_def Let_def)
qed

lemma frag_restart_stale_witness:
  "\<exists>s1 frag x1 x2. xc_send (exchange_new 2 False) [1, 2, 3] = Some (s1, Some frag)
     \<and> xc_on_request s1 [0x20] = Some (x1, Inr In_Restart)
     \<and> xc_on_request x1 [0, 22] = Some (x2, Inl Ee_FragmentOutOfOrder)"
proof -
  define s1 where "s1 = (exchange_new 2 False)\<lparr>xc_outbound := \<lparr>fr_pending = [1, 2, 3], fr_sent = 2, fr_size = 2\<rparr>\<rparr>"
  obtain frag where send: "xc_send (exchange_new 2 False) [1, 2, 3] = Some (s1, Some frag)"
    by (simp add: xc_send_def exchange_new_def fragmenter_new_def fr_queue_def fr_next_def fr_is_empty_def
        Let_def s1_def)
  obtain f where f: "fragment_parse [0x20] = Inr f" "fragment_start f"
    by (simp add: fragment_parse_def fragment_start_def frag_flags)
  obtain x1 where x1: "xc_on_request s1 [0x20] = Some (x1, Inr In_Restart)"
    using restart_keeps_outbound[OF f] by blast
  obtain f2 where f2: "fragment_parse [0, 22] = Inr f2" "\<not> fragment_start f2" "fg_data f2 \<noteq> []"
    by (simp add: fragment_parse_def fragment_start_def frag_flags)
  have "\<not> fr_is_empty (xc_outbound s1)" by (simp add: s1_def fr_is_empty_def)
  from frag_restart_stale[OF f this x1 f2] show ?thesis using send x1 by blast
qed

end
