(* ===== verification/Eap_Mschapv2.thy ===== *)
theory Eap_Mschapv2
  imports Eap_Frag Rust_Text
begin

text \<open>
  EAP-MSCHAPv2 (\<^verbatim>\<open>src/crates/caw-eapol/src/eap/mschapv2.rs\<close>), the inner method of PEAP. MD4, SHA-1
  and DES are not under \<^verbatim>\<open>src/\<close>: they are the fields of the record \<open>ms_prims\<close>, with the documented
  lengths of their results as the hypothesis \<open>ms_prims_ok\<close>. A password is its UTF-8 bytes.
\<close>

record ms_prims =
  ms_md4 :: "bytes \<Rightarrow> bytes"
  ms_sha1 :: "bytes \<Rightarrow> bytes"
  ms_des :: "bytes \<Rightarrow> bytes \<Rightarrow> bytes"

definition ms_prims_ok :: "ms_prims \<Rightarrow> bool" where
  "ms_prims_ok M \<longleftrightarrow>
     (\<forall>m. length (ms_md4 M m) = 16) \<and> (\<forall>m. length (ms_sha1 M m) = 20)
     \<and> (\<forall>k b. length (ms_des M k b) = 8)"

definition OP_CHALLENGE :: u8 where "OP_CHALLENGE = 1"
definition OP_RESPONSE :: u8 where "OP_RESPONSE = 2"
definition OP_SUCCESS :: u8 where "OP_SUCCESS = 3"
definition OP_FAILURE :: u8 where "OP_FAILURE = 4"
definition MS_HDR_LEN :: nat where "MS_HDR_LEN = 4"
definition RESPONSE_LEN :: nat where "RESPONSE_LEN = 49"
definition MAGIC1 :: bytes where "MAGIC1 = ascii ''Magic server to client signing constant''"
definition MAGIC2 :: bytes where "MAGIC2 = ascii ''Pad to make it do more than one iteration''"
definition HEX :: bytes where "HEX = ascii ''0123456789ABCDEF''"

definition nt_password_hash :: "ms_prims \<Rightarrow> bytes \<Rightarrow> bytes" where
  "nt_password_hash M password = ms_md4 M (concat (map u16_le (encode_utf16 password)))"

definition hash_nt_password_hash :: "ms_prims \<Rightarrow> bytes \<Rightarrow> bytes" where
  "hash_nt_password_hash M h = ms_md4 M h"

definition challenge_hash :: "ms_prims \<Rightarrow> bytes \<Rightarrow> bytes \<Rightarrow> bytes \<Rightarrow> bytes" where
  "challenge_hash M peer auth username = take 8 (ms_sha1 M (peer @ auth @ username))"

definition expand_des_key :: "bytes \<Rightarrow> bytes" where
  "expand_des_key key =
     [key ! 0 AND 0xfe,
      push_bit 7 (key ! 0) OR drop_bit 1 (key ! 1),
      push_bit 6 (key ! 1) OR drop_bit 2 (key ! 2),
      push_bit 5 (key ! 2) OR drop_bit 3 (key ! 3),
      push_bit 4 (key ! 3) OR drop_bit 4 (key ! 4),
      push_bit 3 (key ! 4) OR drop_bit 5 (key ! 5),
      push_bit 2 (key ! 5) OR drop_bit 6 (key ! 6),
      push_bit 1 (key ! 6)]"

definition des_encrypt :: "ms_prims \<Rightarrow> bytes \<Rightarrow> bytes \<Rightarrow> bytes" where
  "des_encrypt M key plaintext = ms_des M (expand_des_key key) plaintext"

definition challenge_response :: "ms_prims \<Rightarrow> bytes \<Rightarrow> bytes \<Rightarrow> bytes" where
  "challenge_response M challenge password_hash =
     (let padded = password_hash @ replicate 5 0
      in concat (map (\<lambda>i. des_encrypt M (take 7 (drop (i * 7) padded)) challenge) [0, 1, 2]))"

definition generate_nt_response :: "ms_prims \<Rightarrow> bytes \<Rightarrow> bytes \<Rightarrow> bytes \<Rightarrow> bytes \<Rightarrow> bytes" where
  "generate_nt_response M auth peer username password =
     challenge_response M (challenge_hash M peer auth username) (nt_password_hash M password)"

definition hex_byte :: "u8 \<Rightarrow> bytes" where
  "hex_byte b = [HEX ! unat (drop_bit 4 b), HEX ! unat (b AND 0x0f)]"

definition generate_authenticator_response ::
  "ms_prims \<Rightarrow> bytes \<Rightarrow> bytes \<Rightarrow> bytes \<Rightarrow> bytes \<Rightarrow> bytes \<Rightarrow> bytes" where
  "generate_authenticator_response M password nt_response peer auth username =
     (let password_hash_hash = hash_nt_password_hash M (nt_password_hash M password);
          digest = ms_sha1 M (password_hash_hash @ nt_response @ MAGIC1);
          challenge = challenge_hash M peer auth username;
          digest' = ms_sha1 M (digest @ challenge @ MAGIC2)
      in ascii ''S='' @ concat (map hex_byte digest'))"

definition constant_time_eq :: "bytes \<Rightarrow> bytes \<Rightarrow> bool" where
  "constant_time_eq a b \<longleftrightarrow>
     length a = length b \<and> foldl (\<lambda>acc (x, y). acc OR (x XOR y)) 0 (zip a b) = 0"

datatype ms_state = Ms_AwaitingChallenge | Ms_AwaitingSuccess | Ms_Authenticated

record mschapv2 =
  mv_username :: bytes
  mv_password :: bytes
  mv_peer_challenge :: bytes
  mv_expected :: "bytes option"
  mv_state :: ms_state

definition mv_with_peer_challenge :: "bytes \<Rightarrow> bytes \<Rightarrow> bytes \<Rightarrow> mschapv2" where
  "mv_with_peer_challenge username password peer =
     \<lparr>mv_username = username, mv_password = password, mv_peer_challenge = peer, mv_expected = None,
      mv_state = Ms_AwaitingChallenge\<rparr>"

definition mv_authenticated :: "mschapv2 \<Rightarrow> bool" where
  "mv_authenticated m \<longleftrightarrow> mv_state m = Ms_Authenticated"

definition ms_message :: "u8 \<Rightarrow> u8 \<Rightarrow> bytes \<Rightarrow> bytes option" where
  "ms_message op ms_id body =
     (let len = MS_HDR_LEN + length body
      in if len < 2 ^ 16 then Some ([op, ms_id] @ u16_be (of_nat len) @ body) else None)"

definition mv_on_challenge ::
  "ms_prims \<Rightarrow> mschapv2 \<Rightarrow> u8 \<Rightarrow> bytes \<Rightarrow> (mschapv2 \<times> (eapol_error + bytes)) option" where
  "mv_on_challenge M m ms_id body =
     (case body of
        [] \<Rightarrow> Some (m, Inl Ee_Malformed)
      | value_size # rest \<Rightarrow>
          if value_size \<noteq> 16 then Some (m, Inl Ee_Malformed)
          else if length rest < 16 then Some (m, Inl Ee_Malformed)
          else
            let auth = take 16 rest;
                nt_response = generate_nt_response M auth (mv_peer_challenge m) (mv_username m) (mv_password m);
                m' = m\<lparr>mv_expected := Some (generate_authenticator_response M (mv_password m) nt_response
                        (mv_peer_challenge m) auth (mv_username m)),
                      mv_state := Ms_AwaitingSuccess\<rparr>;
                value = mv_peer_challenge m @ replicate 8 0 @ nt_response @ [0]
            in map_option (\<lambda>reply. (m', Inr reply))
                 (ms_message OP_RESPONSE ms_id (of_nat RESPONSE_LEN # value @ mv_username m)))"

text \<open>\<^verbatim>\<open>slice::windows\<close>, and the first window with a prefix.\<close>

definition windows :: "nat \<Rightarrow> bytes \<Rightarrow> bytes list" where
  "windows n bs = map (\<lambda>i. take n (drop i bs)) [0..<Suc (length bs) - n]"

definition mv_on_success :: "mschapv2 \<Rightarrow> bytes \<Rightarrow> mschapv2 \<times> (eapol_error + bytes)" where
  "mv_on_success m message =
     (case mv_expected m of
        None \<Rightarrow> (m, Inl Ee_UnexpectedMessage)
      | Some expected \<Rightarrow>
          (case find (\<lambda>w. prefix (ascii ''S='') w) (windows (length expected) message) of
             None \<Rightarrow> (m, Inl Ee_Rejected)
           | Some found \<Rightarrow>
               if constant_time_eq found expected
               then (m\<lparr>mv_state := Ms_Authenticated\<rparr>, Inr [OP_SUCCESS])
               else (m, Inl Ee_Rejected)))"

definition mv_on_request ::
  "ms_prims \<Rightarrow> mschapv2 \<Rightarrow> bytes \<Rightarrow> (mschapv2 \<times> (eapol_error + bytes option)) option" where
  "mv_on_request M m data =
     (case data of
        op # ms_id # hi # lo # rest \<Rightarrow>
          (let declared = unat (from_be16 hi lo);
               body = take (min (declared - MS_HDR_LEN) (length rest)) rest
           in if op = OP_CHALLENGE \<and> mv_state m = Ms_AwaitingChallenge then
                map_option (\<lambda>(m', r). (m', map_sum id Some r)) (mv_on_challenge M m ms_id body)
              else if op = OP_SUCCESS \<and> mv_state m = Ms_AwaitingSuccess then
                (case mv_on_success m body of (m', r) \<Rightarrow> Some (m', map_sum id Some r))
              else if op = OP_FAILURE then Some (m, Inl Ee_Rejected)
              else Some (m, Inl Ee_UnexpectedMessage))
      | _ \<Rightarrow> Some (m, Inl Ee_Malformed))"

section \<open>Comparing and framing\<close>

lemma or_zero_iff: "(a :: u8) OR b = 0 \<longleftrightarrow> a = 0 \<and> b = 0"
  by (auto simp: bit_eq_iff bit_simps)

lemma xor_zero_iff: "(a :: u8) XOR b = 0 \<longleftrightarrow> a = b"
  by (auto simp: bit_eq_iff bit_simps)

lemma xor_fold_zero:
  "length a = length b \<Longrightarrow>
     foldl (\<lambda>acc (x, y). acc OR (x XOR y)) acc (zip a b) = (0 :: u8) \<longleftrightarrow> acc = 0 \<and> a = b"
proof (induction a b arbitrary: acc rule: list_induct2)
  case (Cons x xs y ys)
  then show ?case by (auto simp: or_zero_iff xor_zero_iff)
qed simp

lemma constant_time_eq_iff [simp]: "constant_time_eq a b \<longleftrightarrow> a = b"
  using xor_fold_zero[of a b 0] by (auto simp: constant_time_eq_def)

lemma length_ascii [simp]: "length (ascii s) = length s"
  by (simp add: ascii_def)

lemma length_hex [simp]: "length (concat (map hex_byte d)) = 2 * length d"
  by (induction d) (auto simp: hex_byte_def)

lemma authenticator_response_shape:
  assumes "ms_prims_ok M"
  shows "length (generate_authenticator_response M pw nt peer auth user) = 42"
    "prefix (ascii ''S='') (generate_authenticator_response M pw nt peer auth user)"
  using assms by (auto simp: generate_authenticator_response_def ms_prims_ok_def Let_def simp del: map_map)

lemma nt_response_length:
  "ms_prims_ok M \<Longrightarrow> length (generate_nt_response M auth peer user pw) = 24"
  by (simp add: generate_nt_response_def challenge_response_def des_encrypt_def ms_prims_ok_def Let_def)

lemma ms_message_Some:
  "length body < 2 ^ 16 - 4 \<Longrightarrow> ms_message op i body =
     Some ([op, i] @ u16_be (of_nat (4 + length body)) @ body)"
  by (simp add: ms_message_def MS_HDR_LEN_def Let_def)

section \<open>Who is authenticated\<close>

definition ms_body :: "bytes \<Rightarrow> bytes" where
  "ms_body data =
     (case data of
        _ # _ # hi # lo # rest \<Rightarrow> take (min (unat (from_be16 hi lo) - MS_HDR_LEN) (length rest)) rest
      | _ \<Rightarrow> [])"

definition ms_challenge_of :: "bytes \<Rightarrow> bytes option" where
  "ms_challenge_of data =
     (case ms_body data of
        v # rest \<Rightarrow> if v = 16 \<and> 16 \<le> length rest then Some (take 16 rest) else None
      | [] \<Rightarrow> None)"

definition mv_step :: "ms_prims \<Rightarrow> mschapv2 \<Rightarrow> bytes \<Rightarrow> (mschapv2 \<times> (eapol_error + bytes option) list) option" where
  "mv_step M m data = map_option (\<lambda>(m', r). (m', [r])) (mv_on_request M m data)"

text \<open>The proof that only something holding the password hash can compute.\<close>

definition server_proof :: "ms_prims \<Rightarrow> bytes \<Rightarrow> bytes \<Rightarrow> bytes \<Rightarrow> bytes \<Rightarrow> bytes" where
  "server_proof M password peer auth username =
     generate_authenticator_response M password (generate_nt_response M auth peer username password)
       peer auth username"

definition mv_history :: "ms_prims \<Rightarrow> bytes \<Rightarrow> bytes \<Rightarrow> bytes \<Rightarrow> bytes list \<Rightarrow> mschapv2 \<Rightarrow> bool" where
  "mv_history M u p pc reqs m \<longleftrightarrow>
     mv_username m = u \<and> mv_password m = p \<and> mv_peer_challenge m = pc
     \<and> (mv_state m \<noteq> Ms_AwaitingChallenge \<longrightarrow>
         (\<exists>d\<in>set reqs. \<exists>a. ms_challenge_of d = Some a
            \<and> mv_expected m = Some (server_proof M p pc a u)
            \<and> (mv_state m = Ms_Authenticated \<longrightarrow>
                (\<exists>d'\<in>set reqs. sublist (server_proof M p pc a u) (ms_body d')))))"

lemma windows_sublist: "w \<in> set (windows n bs) \<Longrightarrow> sublist w bs"
  by (auto simp: windows_def) (metis sublist_drop sublist_order.order.trans sublist_take)

lemma mv_on_request_history:
  assumes "mv_history M u p pc reqs m" "mv_on_request M m data = Some (m', r)"
  shows "mv_history M u p pc (reqs @ [data]) m'"
proof (cases data)
  case Nil
  then show ?thesis using assms by (auto simp: mv_on_request_def mv_history_def)
next
  case (Cons op t)
  show ?thesis
  proof (cases "\<exists>i hi lo rest. t = i # hi # lo # rest")
    case False
    then have "m' = m" using assms(2) Cons
      by (auto simp: mv_on_request_def split: list.splits)
    then show ?thesis using assms(1) by (auto simp: mv_history_def)
  next
    case True
    then obtain i hi lo rest where d: "data = op # i # hi # lo # rest" using Cons by blast
    have keep: "mv_history M u p pc (reqs @ [data]) m" using assms(1) by (auto simp: mv_history_def)
    have eq: "mv_on_request M m data =
      (if op = OP_CHALLENGE \<and> mv_state m = Ms_AwaitingChallenge then
         map_option (\<lambda>(m', r). (m', map_sum id Some r)) (mv_on_challenge M m i (ms_body data))
       else if op = OP_SUCCESS \<and> mv_state m = Ms_AwaitingSuccess then
         (case mv_on_success m (ms_body data) of (m', r) \<Rightarrow> Some (m', map_sum id Some r))
       else if op = OP_FAILURE then Some (m, Inl Ee_Rejected)
       else Some (m, Inl Ee_UnexpectedMessage))"
      by (simp add: mv_on_request_def d ms_body_def Let_def)
    consider (ch) "op = OP_CHALLENGE" "mv_state m = Ms_AwaitingChallenge"
      | (su) "op = OP_SUCCESS" "mv_state m = Ms_AwaitingSuccess" | (other) "m' = m"
      using assms(2) unfolding eq by (auto split: if_splits)
    then show ?thesis
    proof cases
      case ch
      then obtain r0 where c: "mv_on_challenge M m i (ms_body data) = Some (m', r0)"
        using assms(2) eq by auto
      show ?thesis
      proof (cases "ms_challenge_of data")
        case None
        then have "m' = m" using c
          by (auto simp: mv_on_challenge_def ms_challenge_of_def Let_def split: list.splits if_splits)
        then show ?thesis using keep by simp
      next
        case (Some a)
        then have "m' = m\<lparr>mv_expected := Some (server_proof M p pc a u), mv_state := Ms_AwaitingSuccess\<rparr>"
          using c assms(1)
          by (auto simp: mv_on_challenge_def ms_challenge_of_def Let_def server_proof_def mv_history_def
              split: list.splits if_splits)
        then show ?thesis using keep Some by (auto simp: mv_history_def)
      qed
    next
      case su
      then obtain d a where h: "d \<in> set reqs" "ms_challenge_of d = Some a"
        "mv_expected m = Some (server_proof M p pc a u)"
        using assms(1) by (auto simp: mv_history_def)
      have s: "op \<noteq> OP_CHALLENGE" using su by (simp add: OP_CHALLENGE_def OP_SUCCESS_def)
      have "m' = m \<or> (m' = m\<lparr>mv_state := Ms_Authenticated\<rparr>
          \<and> sublist (server_proof M p pc a u) (ms_body data))"
        using assms(2) su s h(3) unfolding eq
        by (auto simp: mv_on_success_def split: option.splits if_splits prod.splits
            dest!: find_SomeD intro: windows_sublist)
      then show ?thesis using keep assms(1) h by (auto simp: mv_history_def)
    qed (use keep in simp)
  qed
qed

lemma mv_run_history:
  "run_machine (mv_step M) (mv_with_peer_challenge u p pc) reqs = Some (m, out) \<Longrightarrow>
     mv_history M u p pc reqs m"
proof (induction reqs arbitrary: m out rule: rev_induct)
  case Nil
  then show ?case by (auto simp: mv_history_def mv_with_peer_challenge_def)
next
  case (snoc d reqs)
  then obtain m1 o1 o2 where r: "run_machine (mv_step M) (mv_with_peer_challenge u p pc) reqs = Some (m1, o1)"
    and s: "mv_step M m1 d = Some (m, o2)"
    by (auto elim!: run_machine_snocE)
  then obtain r where "mv_on_request M m1 d = Some (m, r)" by (auto simp: mv_step_def)
  then show ?case using mv_on_request_history[OF snoc.IH[OF r]] by blast
qed

text \<open>
  MSCHAPv2 authenticates the server too: after any sequence of requests the method counts as
  authenticated only if one of them carried the authenticator response that is computed from the password
  hash, the peer's own challenge and the challenge the server had sent. An endpoint that never produces
  that value is never believed, whatever else it sends.
\<close>
lemma mschapv2_mutual:
  assumes "run_machine (mv_step M) (mv_with_peer_challenge u p pc) reqs = Some (m, out)"
    and "mv_authenticated m"
  shows "\<exists>a. (\<exists>d\<in>set reqs. ms_challenge_of d = Some a)
    \<and> (\<exists>d\<in>set reqs. sublist (server_proof M p pc a u) (ms_body d))"
  using mv_run_history[OF assms(1)] assms(2) by (auto simp: mv_history_def mv_authenticated_def)

end
