(* ===== verification/Eap_Methods.thy ===== *)
theory Eap_Methods
  imports Eap_Mschapv2
begin

text \<open>
  The TLS tunnel and the three methods built on it (\<^verbatim>\<open>src/crates/caw-eapol/src/eap/tls/mod.rs\<close>,
  \<^verbatim>\<open>tls/export.rs\<close>, \<^verbatim>\<open>peap.rs\<close>, \<^verbatim>\<open>ttls.rs\<close>). The TLS connection is \<^verbatim>\<open>rustls\<close>, which is not under
  \<^verbatim>\<open>src/\<close>: its buffer interface is the record \<open>tls_ops\<close> over an abstract connection. The loops that drain
  it end when \<^verbatim>\<open>rustls\<close> says so, so they are \<open>partial_function\<close>s whose \<open>None\<close> is not returning; elsewhere
  \<open>None\<close> is a panic.
\<close>

section \<open>The connection\<close>

datatype tls_read = Tr_Data bytes | Tr_WouldBlock | Tr_Error

datatype tls_version = Tls_13 | Tls_older

record 't tls_ops =
  tl_read_tls :: "'t \<Rightarrow> bytes \<Rightarrow> 't \<times> nat option"
  tl_process :: "'t \<Rightarrow> 't \<times> bool"
  tl_wants_write :: "'t \<Rightarrow> bool"
  tl_write_tls :: "'t \<Rightarrow> 't \<times> bytes option"
  tl_write_plain :: "'t \<Rightarrow> bytes \<Rightarrow> 't \<times> bool"
  tl_read_plain :: "'t \<Rightarrow> 't \<times> tls_read"
  tl_handshaking :: "'t \<Rightarrow> bool"
  tl_close_notify :: "'t \<Rightarrow> 't"
  tl_version :: "'t \<Rightarrow> tls_version option"
  tl_export :: "'t \<Rightarrow> nat \<Rightarrow> bytes \<Rightarrow> bytes option \<Rightarrow> bytes option"

definition TLS12_LABEL_EAP_TLS :: bytes where "TLS12_LABEL_EAP_TLS = ascii ''client EAP encryption''"
definition TLS12_LABEL_TTLS :: bytes where "TLS12_LABEL_TTLS = ascii ''ttls keying material''"
definition TLS13_LABEL :: bytes where "TLS13_LABEL = ascii ''EXPORTER_EAP_TLS_Key_Material''"
definition MSK_LEN :: nat where "MSK_LEN = 64"

definition export_msk :: "'t tls_ops \<Rightarrow> 't \<Rightarrow> u8 \<Rightarrow> bytes \<Rightarrow> eapol_error + bytes" where
  "export_msk T conn method_type tls12_label =
     (case tl_version T conn of
        Some Tls_13 \<Rightarrow>
          (case tl_export T conn (2 * MSK_LEN) TLS13_LABEL (Some [method_type]) of
             None \<Rightarrow> Inl Ee_Tls
           | Some material \<Rightarrow> Inr (take MSK_LEN material))
      | Some Tls_older \<Rightarrow>
          (case tl_export T conn MSK_LEN tls12_label None of None \<Rightarrow> Inl Ee_Tls | Some msk \<Rightarrow> Inr msk)
      | None \<Rightarrow> Inl Ee_UnexpectedMessage)"

section \<open>The tunnel\<close>

record 't tunnel =
  tn_conn :: 't
  tn_exchange :: exchange

datatype tunnel_event = Te_Reply bytes | Te_Established bytes

partial_function (option) drain_tls ::
  "'t tls_ops \<Rightarrow> 't \<Rightarrow> bytes \<Rightarrow> ('t \<times> (eapol_error + bytes)) option" where
  "drain_tls T conn out =
     (if tl_wants_write T conn then
        (let r = tl_write_tls T conn
         in case snd r of
              None \<Rightarrow> Some (fst r, Inl Ee_UnexpectedMessage)
            | Some records \<Rightarrow> drain_tls T (fst r) (out @ records))
      else Some (conn, Inr out))"

partial_function (option) drain_plaintext ::
  "'t tls_ops \<Rightarrow> 't \<Rightarrow> bytes \<Rightarrow> ('t \<times> (eapol_error + bytes)) option" where
  "drain_plaintext T conn out =
     (let r = tl_read_plain T conn
      in case snd r of
           Tr_Data chunk \<Rightarrow>
             if chunk = [] then Some (fst r, Inr out) else drain_plaintext T (fst r) (out @ chunk)
         | Tr_WouldBlock \<Rightarrow> Some (fst r, Inr out)
         | Tr_Error \<Rightarrow> Some (fst r, Inl Ee_Malformed))"

declare drain_tls.simps [code]
declare drain_plaintext.simps [code]

text \<open>Feeding a message: \<^verbatim>\<open>read_tls\<close> takes at least one byte of what is left, or the loop stops.\<close>

function feed_tls :: "'t tls_ops \<Rightarrow> 't \<Rightarrow> bytes \<Rightarrow> 't \<times> (eapol_error + unit)" where
  "feed_tls T conn cursor =
     (if cursor = [] then (conn, Inr ())
      else
        (case tl_read_tls T conn cursor of
           (conn', None) \<Rightarrow> (conn', Inl Ee_Malformed)
         | (conn', Some taken) \<Rightarrow>
             if taken = 0 then (conn', Inr ())
             else
               (case tl_process T conn' of
                  (conn'', False) \<Rightarrow> (conn'', Inl Ee_Tls)
                | (conn'', True) \<Rightarrow> feed_tls T conn'' (drop taken cursor))))"
  by auto
termination
  by (relation "measure (\<lambda>(_, _, cursor). length cursor)") auto

declare feed_tls.simps [simp del]

definition tn_empty_reply :: "'t tunnel \<Rightarrow> bytes" where
  "tn_empty_reply t = xc_empty_reply (tn_exchange t)"

definition flush_or_established ::
  "'t tls_ops \<Rightarrow> 't tunnel \<Rightarrow> ('t tunnel \<times> (eapol_error + tunnel_event)) option" where
  "flush_or_established T t =
     (case drain_tls T (tn_conn t) [] of
        None \<Rightarrow> None
      | Some (conn, Inl e) \<Rightarrow> Some (t\<lparr>tn_conn := conn\<rparr>, Inl e)
      | Some (conn, Inr records) \<Rightarrow>
          (case xc_send (tn_exchange t) records of
             None \<Rightarrow> None
           | Some (x, Some first) \<Rightarrow>
               Some (t\<lparr>tn_conn := conn, tn_exchange := x\<rparr>, Inr (Te_Reply first))
           | Some (x, None) \<Rightarrow>
               (let t' = t\<lparr>tn_conn := conn, tn_exchange := x\<rparr>
                in if tl_handshaking T conn then Some (t', Inr (Te_Reply (tn_empty_reply t')))
                   else
                     (case drain_plaintext T conn [] of
                        None \<Rightarrow> None
                      | Some (conn', Inl e) \<Rightarrow> Some (t'\<lparr>tn_conn := conn'\<rparr>, Inl e)
                      | Some (conn', Inr plaintext) \<Rightarrow>
                          Some (t'\<lparr>tn_conn := conn'\<rparr>, Inr (Te_Established plaintext))))))"

definition tn_on_request ::
  "'t tls_ops \<Rightarrow> 't tunnel \<Rightarrow> bytes \<Rightarrow> ('t tunnel \<times> (eapol_error + tunnel_event)) option" where
  "tn_on_request T t type_data =
     (case xc_on_request (tn_exchange t) type_data of
        None \<Rightarrow> None
      | Some (x, Inl e) \<Rightarrow> Some (t\<lparr>tn_exchange := x\<rparr>, Inl e)
      | Some (x, Inr In_Restart) \<Rightarrow> flush_or_established T (t\<lparr>tn_exchange := x\<rparr>)
      | Some (x, Inr (In_Reply reply)) \<Rightarrow> Some (t\<lparr>tn_exchange := x\<rparr>, Inr (Te_Reply reply))
      | Some (x, Inr (In_Message message)) \<Rightarrow>
          (case feed_tls T (tn_conn t) message of
             (conn, Inl e) \<Rightarrow> Some (t\<lparr>tn_conn := conn, tn_exchange := x\<rparr>, Inl e)
           | (conn, Inr _) \<Rightarrow> flush_or_established T (t\<lparr>tn_conn := conn, tn_exchange := x\<rparr>)))"

definition send_tunnelled ::
  "'t tls_ops \<Rightarrow> 't tunnel \<Rightarrow> bytes \<Rightarrow> ('t tunnel \<times> (eapol_error + bytes)) option" where
  "send_tunnelled T t plaintext =
     (case tl_write_plain T (tn_conn t) plaintext of
        (conn, False) \<Rightarrow> Some (t\<lparr>tn_conn := conn\<rparr>, Inl Ee_Malformed)
      | (conn, True) \<Rightarrow>
          (case drain_tls T conn [] of
             None \<Rightarrow> None
           | Some (conn', Inl e) \<Rightarrow> Some (t\<lparr>tn_conn := conn'\<rparr>, Inl e)
           | Some (conn', Inr records) \<Rightarrow>
               (case xc_send (tn_exchange t) records of
                  None \<Rightarrow> None
                | Some (x, None) \<Rightarrow>
                    Some (t\<lparr>tn_conn := conn', tn_exchange := x\<rparr>, Inl Ee_UnexpectedMessage)
                | Some (x, Some first) \<Rightarrow> Some (t\<lparr>tn_conn := conn', tn_exchange := x\<rparr>, Inr first))))"

definition close_notify :: "'t tls_ops \<Rightarrow> 't tunnel \<Rightarrow> ('t tunnel \<times> (eapol_error + bytes)) option" where
  "close_notify T t =
     (case drain_tls T (tl_close_notify T (tn_conn t)) [] of
        None \<Rightarrow> None
      | Some (conn, Inl e) \<Rightarrow> Some (t\<lparr>tn_conn := conn\<rparr>, Inl e)
      | Some (conn, Inr records) \<Rightarrow>
          (case xc_send (tn_exchange t) records of
             None \<Rightarrow> None
           | Some (x, None) \<Rightarrow>
               (let t' = t\<lparr>tn_conn := conn, tn_exchange := x\<rparr> in Some (t', Inr (tn_empty_reply t')))
           | Some (x, Some first) \<Rightarrow> Some (t\<lparr>tn_conn := conn, tn_exchange := x\<rparr>, Inr first)))"

section \<open>EAP-TLS\<close>

record 't eap_tls =
  et_tunnel :: "'t tunnel"
  et_msk :: "bytes option"

definition et_on_request ::
  "'t tls_ops \<Rightarrow> 't eap_tls \<Rightarrow> bytes \<Rightarrow> ('t eap_tls \<times> (eapol_error + bytes option)) option" where
  "et_on_request T m data =
     (case tn_on_request T (et_tunnel m) data of
        None \<Rightarrow> None
      | Some (t, Inl e) \<Rightarrow> Some (m\<lparr>et_tunnel := t\<rparr>, Inl e)
      | Some (t, Inr (Te_Reply reply)) \<Rightarrow> Some (m\<lparr>et_tunnel := t\<rparr>, Inr (Some reply))
      | Some (t, Inr (Te_Established plaintext)) \<Rightarrow>
          (case (case et_msk m of
                   Some k \<Rightarrow> Inr k
                 | None \<Rightarrow> export_msk T (tn_conn t) EAP_TLS TLS12_LABEL_EAP_TLS) of
             Inl e \<Rightarrow> Some (m\<lparr>et_tunnel := t\<rparr>, Inl e)
           | Inr k \<Rightarrow>
               (let m' = m\<lparr>et_tunnel := t, et_msk := Some k\<rparr>
                in if plaintext = [] then Some (m', Inr (Some (tn_empty_reply t)))
                   else
                     (case close_notify T t of
                        None \<Rightarrow> None
                      | Some (t', r) \<Rightarrow> Some (m'\<lparr>et_tunnel := t'\<rparr>, map_sum id Some r)))))"

section \<open>PEAP\<close>

definition TLV_RESULT :: u16 where "TLV_RESULT = 3"
definition TLV_MANDATORY :: u16 where "TLV_MANDATORY = 0x8000"
definition TLV_RESULT_SUCCESS :: u16 where "TLV_RESULT_SUCCESS = 1"
definition TLV_RESULT_FAILURE :: u16 where "TLV_RESULT_FAILURE = 2"

definition result_tlv :: "u16 \<Rightarrow> bytes" where
  "result_tlv result = u16_be (TLV_MANDATORY OR TLV_RESULT) @ u16_be 2 @ u16_be result"

fun find_result_tlv :: "bytes \<Rightarrow> u16 option" where
  "find_result_tlv (a # b # c # d # rest) =
     (let ty = from_be16 a b AND NOT TLV_MANDATORY;
          len = unat (from_be16 c d)
      in if length rest < len then None
         else if ty = TLV_RESULT then
           (case take len rest of x # y # _ \<Rightarrow> Some (from_be16 x y) | _ \<Rightarrow> None)
         else find_result_tlv (drop len rest))"
| "find_result_tlv _ = None"

record 't peap =
  pe_tunnel :: "'t tunnel"
  pe_inner_identity :: bytes
  pe_inner :: mschapv2
  pe_tunnel_msk :: "bytes option"
  pe_authenticated :: bool

definition pe_on_result_tlv ::
  "'t peap \<Rightarrow> u8 \<Rightarrow> bytes \<Rightarrow> ('t peap \<times> (eapol_error + bytes option)) option" where
  "pe_on_result_tlv m ident type_data =
     (case find_result_tlv type_data of
        None \<Rightarrow> Some (m, Inl Ee_Malformed)
      | Some v \<Rightarrow>
          if v = TLV_RESULT_SUCCESS then
            (if \<not> mv_authenticated (pe_inner m) then Some (m, Inl Ee_PrematureSuccess)
             else map_option (\<lambda>reply. (m\<lparr>pe_authenticated := True\<rparr>, Inr (Some reply)))
                    (eap_response ident EAP_TLV (result_tlv TLV_RESULT_SUCCESS)))
          else if v = TLV_RESULT_FAILURE then Some (m, Inl Ee_Rejected)
          else Some (m, Inl Ee_Malformed))"

definition pe_phase2 ::
  "ms_prims \<Rightarrow> 't peap \<Rightarrow> bytes \<Rightarrow> ('t peap \<times> (eapol_error + bytes option)) option" where
  "pe_phase2 M m plaintext =
     (case eap_parse plaintext of
        Inl e \<Rightarrow> Some (m, Inl e)
      | Inr packet \<Rightarrow>
          let ident = ep_identifier packet
          in case ep_code packet of
               Ec_Request \<Rightarrow>
                 (case eap_type_of packet of
                    None \<Rightarrow> Some (m, Inl Ee_Malformed)
                  | Some ty \<Rightarrow>
                      if ty = EAP_IDENTITY then
                        map_option (\<lambda>reply. (m, Inr (Some reply)))
                          (eap_response ident EAP_IDENTITY (pe_inner_identity m))
                      else if ty = EAP_MSCHAPV2 then
                        (case mv_on_request M (pe_inner m) (eap_type_data packet) of
                           None \<Rightarrow> None
                         | Some (i, Inl e) \<Rightarrow> Some (m\<lparr>pe_inner := i\<rparr>, Inl e)
                         | Some (i, Inr None) \<Rightarrow> Some (m\<lparr>pe_inner := i\<rparr>, Inr None)
                         | Some (i, Inr (Some td)) \<Rightarrow>
                             map_option (\<lambda>reply. (m\<lparr>pe_inner := i\<rparr>, Inr (Some reply)))
                               (eap_response ident EAP_MSCHAPV2 td))
                      else if ty = EAP_TLV then pe_on_result_tlv m ident (eap_type_data packet)
                      else map_option (\<lambda>reply. (m, Inr (Some reply))) (eap_nak ident [EAP_MSCHAPV2]))
             | Ec_Success \<Rightarrow> Some (m, Inr None)
             | Ec_Failure \<Rightarrow> Some (m, Inl Ee_Rejected)
             | Ec_Response \<Rightarrow> Some (m, Inr None))"

definition pe_on_request ::
  "'t tls_ops \<Rightarrow> ms_prims \<Rightarrow> 't peap \<Rightarrow> bytes \<Rightarrow> ('t peap \<times> (eapol_error + bytes option)) option" where
  "pe_on_request T M m data =
     (case tn_on_request T (pe_tunnel m) data of
        None \<Rightarrow> None
      | Some (t, Inl e) \<Rightarrow> Some (m\<lparr>pe_tunnel := t\<rparr>, Inl e)
      | Some (t, Inr (Te_Reply reply)) \<Rightarrow> Some (m\<lparr>pe_tunnel := t\<rparr>, Inr (Some reply))
      | Some (t, Inr (Te_Established plaintext)) \<Rightarrow>
          (case (case pe_tunnel_msk m of
                   Some k \<Rightarrow> Inr k
                 | None \<Rightarrow> export_msk T (tn_conn t) EAP_PEAP TLS12_LABEL_EAP_TLS) of
             Inl e \<Rightarrow> Some (m\<lparr>pe_tunnel := t\<rparr>, Inl e)
           | Inr k \<Rightarrow>
               (let m1 = m\<lparr>pe_tunnel := t, pe_tunnel_msk := Some k\<rparr>
                in if plaintext = [] then Some (m1, Inr (Some (tn_empty_reply t)))
                   else
                     (case pe_phase2 M m1 plaintext of
                        None \<Rightarrow> None
                      | Some (m2, Inl e) \<Rightarrow> Some (m2, Inl e)
                      | Some (m2, Inr None) \<Rightarrow> Some (m2, Inr (Some (tn_empty_reply (pe_tunnel m2))))
                      | Some (m2, Inr (Some inner)) \<Rightarrow>
                          (case send_tunnelled T (pe_tunnel m2) inner of
                             None \<Rightarrow> None
                           | Some (t', r) \<Rightarrow> Some (m2\<lparr>pe_tunnel := t'\<rparr>, map_sum id Some r))))))"

definition pe_msk :: "'t peap \<Rightarrow> bytes option" where
  "pe_msk m = (if pe_authenticated m then pe_tunnel_msk m else None)"

section \<open>TTLS\<close>

definition AVP_USER_NAME :: u32 where "AVP_USER_NAME = 1"
definition AVP_USER_PASSWORD :: u32 where "AVP_USER_PASSWORD = 2"
definition AVP_FLAG_MANDATORY :: u8 where "AVP_FLAG_MANDATORY = 0x40"
definition AVP_HDR_LEN :: nat where "AVP_HDR_LEN = 8"

record 't ttls =
  tt_tunnel :: "'t tunnel"
  tt_username :: bytes
  tt_password :: bytes
  tt_credentials_sent :: bool
  tt_msk :: "bytes option"

definition encode_avp :: "u32 \<Rightarrow> bytes \<Rightarrow> bytes" where
  "encode_avp code data =
     (let len = AVP_HDR_LEN + length data
      in u32_be code @ [AVP_FLAG_MANDATORY] @ drop 1 (u32_be (of_nat len)) @ data
         @ replicate ((4 - len mod 4) mod 4) 0)"

definition ttls_padded :: "bytes \<Rightarrow> bytes" where
  "ttls_padded pw =
     (let remainder = length pw mod 16
      in if remainder \<noteq> 0 then pw @ replicate (16 - remainder) 0 else pw)"

definition ttls_credentials :: "'t ttls \<Rightarrow> bytes" where
  "ttls_credentials m =
     encode_avp AVP_USER_NAME (tt_username m) @ encode_avp AVP_USER_PASSWORD (ttls_padded (tt_password m))"

definition tt_on_request ::
  "'t tls_ops \<Rightarrow> 't ttls \<Rightarrow> bytes \<Rightarrow> ('t ttls \<times> (eapol_error + bytes option)) option" where
  "tt_on_request T m data =
     (case tn_on_request T (tt_tunnel m) data of
        None \<Rightarrow> None
      | Some (t, Inl e) \<Rightarrow> Some (m\<lparr>tt_tunnel := t\<rparr>, Inl e)
      | Some (t, Inr (Te_Reply reply)) \<Rightarrow> Some (m\<lparr>tt_tunnel := t\<rparr>, Inr (Some reply))
      | Some (t, Inr (Te_Established _)) \<Rightarrow>
          if tt_credentials_sent m then Some (m\<lparr>tt_tunnel := t\<rparr>, Inr (Some (tn_empty_reply t)))
          else
            (case export_msk T (tn_conn t) EAP_TTLS TLS12_LABEL_TTLS of
               Inl e \<Rightarrow> Some (m\<lparr>tt_tunnel := t\<rparr>, Inl e)
             | Inr k \<Rightarrow>
                 (let m1 = m\<lparr>tt_tunnel := t, tt_msk := Some k, tt_credentials_sent := True\<rparr>
                  in case send_tunnelled T t (ttls_credentials m1) of
                       None \<Rightarrow> None
                     | Some (t', r) \<Rightarrow> Some (m1\<lparr>tt_tunnel := t'\<rparr>, map_sum id Some r))))"

end
