(* ===== verification/Dot1x.thy ===== *)
theory Dot1x
  imports Eap_Methods Four_Way
begin

text \<open>
  802.1X authentication (\<^verbatim>\<open>src/crates/caw-eapol/src/eap/dot1x.rs\<close>, with the error conversion of
  \<^verbatim>\<open>src/crates/caw-eapol/src/eap/mod.rs\<close>): the provider that drives one EAP method over EAPOL frames and
  slices the PMK out of its master session key.

  The trait object \<^verbatim>\<open>dyn EapMethod\<close> is the record \<open>eap_ops\<close> of its three operations over the method's
  state; the locale \<open>eap_method\<close> states what a method promises, and is interpreted on EAP-TLS, PEAP and
  TTLS.
\<close>

record 'm eap_ops =
  em_type :: u8
  em_on_request :: "'m \<Rightarrow> bytes \<Rightarrow> ('m \<times> (eapol_error + bytes option)) option"
  em_msk :: "'m \<Rightarrow> bytes option"

definition eap_tls_ops :: "'t tls_ops \<Rightarrow> 't eap_tls eap_ops" where
  "eap_tls_ops T = \<lparr>em_type = EAP_TLS, em_on_request = et_on_request T, em_msk = et_msk\<rparr>"

definition peap_ops :: "'t tls_ops \<Rightarrow> ms_prims \<Rightarrow> 't peap eap_ops" where
  "peap_ops T M = \<lparr>em_type = EAP_PEAP, em_on_request = pe_on_request T M, em_msk = pe_msk\<rparr>"

definition ttls_ops :: "'t tls_ops \<Rightarrow> 't ttls eap_ops" where
  "ttls_ops T = \<lparr>em_type = EAP_TTLS, em_on_request = tt_on_request T, em_msk = tt_msk\<rparr>"

definition crypto_from_eapol :: "eapol_error \<Rightarrow> crypto_error" where
  "crypto_from_eapol e =
     (case e of
        Ee_Crypto inner \<Rightarrow> inner
      | Ee_Rejected \<Rightarrow> Ce_AuthFailed
      | Ee_PrematureSuccess \<Rightarrow> Ce_AuthFailed
      | Ee_Timeout \<Rightarrow> Ce_AuthFailed
      | Ee_Malformed \<Rightarrow> Ce_Malformed
      | Ee_FragmentOutOfOrder \<Rightarrow> Ce_Malformed
      | Ee_FragmentTooLarge \<Rightarrow> Ce_Malformed
      | Ee_UnsupportedPacketType _ \<Rightarrow> Ce_Malformed
      | Ee_UnsupportedEapCode _ \<Rightarrow> Ce_Malformed
      | Ee_UnsupportedDescriptor _ \<Rightarrow> Ce_Malformed
      | Ee_Tls \<Rightarrow> Ce_AuthFailed
      | Ee_NoCryptoProvider \<Rightarrow> Ce_AuthFailed
      | Ee_CertificateStore \<Rightarrow> Ce_AuthFailed
      | _ \<Rightarrow> Ce_Protocol)"

definition pmk_from_msk :: "bytes \<Rightarrow> bytes" where
  "pmk_from_msk msk = take 32 msk"

datatype dot1x_state = Dx_Running | Dx_Done | Dx_Failed

record 'm dot1x =
  dx_identity :: bytes
  dx_method :: 'm
  dx_state :: dot1x_state
  dx_last_response :: "bytes option"
  dx_answered :: "u8 option"
  dx_protocol_version :: u8
  dx_idle_rounds :: nat

definition dx_new :: "bytes \<Rightarrow> 'm \<Rightarrow> 'm dot1x" where
  "dx_new identity m =
     \<lparr>dx_identity = identity, dx_method = m, dx_state = Dx_Running, dx_last_response = None,
      dx_answered = None, dx_protocol_version = 2, dx_idle_rounds = 0\<rparr>"

definition dx_eapol_start :: "'m dot1x \<Rightarrow> bytes option" where
  "dx_eapol_start s = eapol_encode (dx_protocol_version s) Pt_Start []"

definition dx_reply :: "'m dot1x \<Rightarrow> u8 \<Rightarrow> bytes \<Rightarrow> ('m dot1x \<times> pstep) option" where
  "dx_reply s ident packet =
     map_option (\<lambda>frame.
         (s\<lparr>dx_last_response := Some frame, dx_answered := Some ident, dx_idle_rounds := 0\<rparr>,
          Step_Send frame))
       (eapol_encode (dx_protocol_version s) Pt_Eap packet)"

text \<open>An encoder's panic, then the reply.\<close>

definition dx_answer :: "'m dot1x \<Rightarrow> u8 \<Rightarrow> bytes option \<Rightarrow> ('m dot1x \<times> (eapol_error + pstep)) option" where
  "dx_answer s ident packet =
     (case packet of
        None \<Rightarrow> None
      | Some p \<Rightarrow> map_option (\<lambda>(s', st). (s', Inr st)) (dx_reply s ident p))"

definition dx_on_request ::
  "'m eap_ops \<Rightarrow> 'm dot1x \<Rightarrow> eap_packet \<Rightarrow> ('m dot1x \<times> (eapol_error + pstep)) option" where
  "dx_on_request ops s request =
     (case eap_type_of request of
        None \<Rightarrow> Some (s, Inl Ee_Malformed)
      | Some requested \<Rightarrow>
          let ident = ep_identifier request
          in if requested = EAP_IDENTITY then
               dx_answer s ident (eap_response ident EAP_IDENTITY (dx_identity s))
             else if requested = EAP_NOTIFICATION then
               dx_answer s ident (eap_response ident EAP_NOTIFICATION [])
             else if requested \<noteq> em_type ops then
               dx_answer s ident (eap_nak ident [em_type ops])
             else
               (case em_on_request ops (dx_method s) (eap_type_data request) of
                  None \<Rightarrow> None
                | Some (m, Inl e) \<Rightarrow> Some (s\<lparr>dx_method := m\<rparr>, Inl e)
                | Some (m, Inr None) \<Rightarrow> Some (s\<lparr>dx_method := m\<rparr>, Inr Step_Wait)
                | Some (m, Inr (Some td)) \<Rightarrow>
                    dx_answer (s\<lparr>dx_method := m\<rparr>) ident (eap_response ident requested td)))"

definition dx_on_eap ::
  "'m eap_ops \<Rightarrow> 'm dot1x \<Rightarrow> eap_packet \<Rightarrow> ('m dot1x \<times> (eapol_error + pstep)) option" where
  "dx_on_eap ops s packet =
     (case ep_code packet of
        Ec_Response \<Rightarrow> Some (s, Inr Step_Wait)
      | Ec_Request \<Rightarrow>
          (case (dx_answered s = Some (ep_identifier packet), dx_last_response s) of
             (True, Some frame) \<Rightarrow> Some (s\<lparr>dx_idle_rounds := 0\<rparr>, Inr (Step_Send frame))
           | _ \<Rightarrow> dx_on_request ops s packet)
      | Ec_Success \<Rightarrow>
          (case em_msk ops (dx_method s) of
             None \<Rightarrow> Some (s, Inl Ee_PrematureSuccess)
           | Some msk \<Rightarrow>
               Some (s\<lparr>dx_state := Dx_Done, dx_last_response := None\<rparr>, Inr (Step_Done (pmk_from_msk msk))))
      | Ec_Failure \<Rightarrow> Some (s, Inl Ee_Rejected))"

definition dx_inner ::
  "'m eap_ops \<Rightarrow> 'm dot1x \<Rightarrow> bytes \<Rightarrow> ('m dot1x \<times> (eapol_error + pstep)) option" where
  "dx_inner ops s frame =
     (case eapol_parse frame of
        Inl e \<Rightarrow> Some (s, Inl e)
      | Inr e \<Rightarrow>
          if ea_packet_type e \<noteq> Pt_Eap then Some (s, Inr Step_Wait)
          else if dx_state s \<noteq> Dx_Running then Some (s, Inl Ee_UnexpectedMessage)
          else
            let s' = s\<lparr>dx_protocol_version := ea_version e\<rparr>
            in if length (ea_body e) < EAP_HDR_LEN then Some (s', Inr Step_Wait)
               else
                 (case eap_parse (ea_body e) of
                    Inl err \<Rightarrow> Some (s', Inl err)
                  | Inr packet \<Rightarrow> dx_on_eap ops s' packet))"

definition dx_frame ::
  "'m eap_ops \<Rightarrow> 'm dot1x \<Rightarrow> bytes \<Rightarrow> ('m dot1x \<times> (crypto_error + pstep)) option" where
  "dx_frame ops s frame =
     (case dx_inner ops s frame of
        None \<Rightarrow> None
      | Some (s', Inl e) \<Rightarrow> Some (s'\<lparr>dx_state := Dx_Failed\<rparr>, Inl (crypto_from_eapol e))
      | Some (s', Inr st) \<Rightarrow> Some (s', Inr st))"

definition dx_timeout :: "'m dot1x \<Rightarrow> 'm dot1x \<times> (crypto_error + pstep)" where
  "dx_timeout s =
     (if dx_state s \<noteq> Dx_Running then (s, Inl (crypto_from_eapol Ee_UnexpectedMessage))
      else
        let s' = s\<lparr>dx_idle_rounds := dx_idle_rounds s + 1\<rparr>
        in if RETRY_LIMIT < dx_idle_rounds s'
           then (s'\<lparr>dx_state := Dx_Failed\<rparr>, Inl (crypto_from_eapol Ee_Timeout))
           else (s', Inr Step_Wait))"

section \<open>What a method promises\<close>

text \<open>
  A method's invariant survives its requests, and while it has a master session key, what that key is a
  proof of holds and the key is whole.
\<close>

locale eap_method =
  fixes ops :: "'m eap_ops"
    and inv :: "'m \<Rightarrow> bool"
    and proven :: "'m \<Rightarrow> bool"
  assumes inv_request: "inv m \<Longrightarrow> em_on_request ops m td = Some (m', r) \<Longrightarrow> inv m'"
    and msk_proven: "inv m \<Longrightarrow> em_msk ops m = Some k \<Longrightarrow> proven m \<and> length k = MSK_LEN"
begin

lemma on_request_inv:
  assumes "inv (dx_method s)" "dx_on_request ops s p = Some (s', r)"
  shows "inv (dx_method s') \<and> r \<noteq> Inr (Step_Done k)"
  using assms inv_request[of "dx_method s"]
  by (auto simp: dx_on_request_def dx_answer_def dx_reply_def Let_def split: option.splits if_splits
      sum.splits prod.splits)

lemma on_eap_inv:
  assumes "inv (dx_method s)" "dx_on_eap ops s p = Some (s', r)"
  shows "inv (dx_method s')"
    and "r = Inr (Step_Done k) \<Longrightarrow>
      \<exists>msk. em_msk ops (dx_method s) = Some msk \<and> k = take 32 msk \<and> proven (dx_method s)
        \<and> length msk = MSK_LEN \<and> dx_state s' = Dx_Done \<and> dx_method s' = dx_method s"
proof -
  have "inv (dx_method s') \<and> (r = Inr (Step_Done k) \<longrightarrow>
      (\<exists>msk. em_msk ops (dx_method s) = Some msk \<and> k = take 32 msk \<and> proven (dx_method s)
        \<and> length msk = MSK_LEN \<and> dx_state s' = Dx_Done \<and> dx_method s' = dx_method s))"
  proof (cases "ep_code p = Ec_Request")
    case True
    then consider "dx_on_request ops s p = Some (s', r)"
      | "dx_method s' = dx_method s" "\<exists>f. r = Inr (Step_Send f)"
      using assms(2) by (auto simp: dx_on_eap_def split: option.splits bool.splits)
    then show ?thesis
    proof cases
      case 1
      from on_request_inv[OF assms(1) this, of k] show ?thesis by auto
    qed (use assms(1) in auto)
  next
    case False
    then show ?thesis
      using assms msk_proven[OF assms(1)]
      by (auto simp: dx_on_eap_def pmk_from_msk_def split: eap_code.splits option.splits)
  qed
  then show "inv (dx_method s')" "r = Inr (Step_Done k) \<Longrightarrow>
      \<exists>msk. em_msk ops (dx_method s) = Some msk \<and> k = take 32 msk \<and> proven (dx_method s)
        \<and> length msk = MSK_LEN \<and> dx_state s' = Dx_Done \<and> dx_method s' = dx_method s"
    by blast+
qed

lemma frame_inv:
  assumes "inv (dx_method s)" "dx_frame ops s f = Some (s', r)"
  shows "inv (dx_method s')"
  using assms
  by (auto simp: dx_frame_def dx_inner_def Let_def split: option.splits sum.splits if_splits prod.splits
      dest!: on_eap_inv(1)[rotated])

lemma frame_done:
  assumes "inv (dx_method s)" "dx_frame ops s f = Some (s', Inr (Step_Done k))"
  shows "dx_state s = Dx_Running \<and> dx_state s' = Dx_Done \<and> proven (dx_method s)
    \<and> (\<exists>msk. em_msk ops (dx_method s) = Some msk \<and> k = take 32 msk \<and> length k = 32)"
proof -
  obtain e p where e: "eapol_parse f = Inr e" "dx_state s = Dx_Running"
    and p: "dx_on_eap ops (s\<lparr>dx_protocol_version := ea_version e\<rparr>) p = Some (s', Inr (Step_Done k))"
    using assms(2)
    by (auto simp: dx_frame_def dx_inner_def Let_def split: option.splits sum.splits if_splits prod.splits)
  from on_eap_inv(2)[OF _ p, of k] assms(1) e show ?thesis by (auto simp: MSK_LEN_def)
qed

end

section \<open>The provider as a machine\<close>

datatype dot1x_input = Dx_Frame bytes | Dx_Timeout

definition dx_step ::
  "'m eap_ops \<Rightarrow> 'm dot1x \<Rightarrow> dot1x_input \<Rightarrow> ('m dot1x \<times> (crypto_error + pstep) list) option" where
  "dx_step ops s i =
     (case i of
        Dx_Frame f \<Rightarrow> map_option (\<lambda>(s', r). (s', [r])) (dx_frame ops s f)
      | Dx_Timeout \<Rightarrow> (case dx_timeout s of (s', r) \<Rightarrow> Some (s', [r])))"

definition is_key :: "crypto_error + pstep \<Rightarrow> bool" where
  "is_key r \<longleftrightarrow> (case r of Inr (Step_Done _) \<Rightarrow> True | _ \<Rightarrow> False)"

definition keys :: "(crypto_error + pstep) list \<Rightarrow> nat" where
  "keys out = length (filter is_key out)"

lemma keys_simps [simp]: "keys [] = 0" "keys (xs @ ys) = keys xs + keys ys"
  by (simp_all add: keys_def)

lemma dx_on_request_state:
  assumes "dx_on_request ops s p = Some (s', r)"
  shows "dx_state s' = dx_state s \<and> (\<forall>k. r \<noteq> Inr (Step_Done k))"
  using assms
  by (auto simp: dx_on_request_def dx_answer_def dx_reply_def Let_def split: option.splits if_splits
      sum.splits prod.splits)

lemma dx_on_eap_state:
  assumes "dx_on_eap ops s p = Some (s', r)"
  shows "dx_state s' = (if \<exists>k. r = Inr (Step_Done k) then Dx_Done else dx_state s)"
proof (cases "ep_code p = Ec_Request")
  case True
  then consider "dx_on_request ops s p = Some (s', r)"
    | "dx_state s' = dx_state s" "\<exists>f. r = Inr (Step_Send f)"
    using assms by (auto simp: dx_on_eap_def split: option.splits bool.splits)
  then show ?thesis by cases (auto dest: dx_on_request_state)
next
  case False
  then show ?thesis using assms by (auto simp: dx_on_eap_def split: eap_code.splits option.splits)
qed

lemma dx_step_state:
  assumes "dx_step ops s i = Some (s', out)"
  shows "(if dx_state s = Dx_Running then keys out \<le> 1 else keys out = 0)
    \<and> (0 < keys out \<longrightarrow> dx_state s' = Dx_Done)
    \<and> (dx_state s \<noteq> Dx_Running \<longrightarrow> dx_state s' \<noteq> Dx_Running)"
proof (cases i)
  case (Dx_Frame f)
  then obtain r where f: "dx_frame ops s f = Some (s', r)" and out: "out = [r]"
    using assms by (auto simp: dx_step_def)
  show ?thesis
  proof (cases "dx_state s = Dx_Running")
    case True
    have "is_key r \<longrightarrow> dx_state s' = Dx_Done"
      using f
      by (auto simp: dx_frame_def dx_inner_def is_key_def Let_def
          split: option.splits sum.splits if_splits prod.splits pstep.splits dest!: dx_on_eap_state)
    then show ?thesis using True out by (simp add: keys_def)
  next
    case False
    then show ?thesis using f out
      by (auto simp: dx_frame_def dx_inner_def Let_def keys_def is_key_def split: sum.splits if_splits)
  qed
next
  case Dx_Timeout
  then show ?thesis using assms
    by (auto simp: dx_step_def dx_timeout_def Let_def keys_def is_key_def split: if_splits)
qed

lemma dx_run_keys:
  "run_machine (dx_step ops) s is = Some (s', out) \<Longrightarrow>
     keys out \<le> (if dx_state s = Dx_Running then 1 else 0)"
proof (induction "is" arbitrary: s out)
  case (Cons i "is")
  obtain s1 o1 o2 where s1: "dx_step ops s i = Some (s1, o1)"
    and r: "run_machine (dx_step ops) s1 is = Some (s', o2)" and out: "out = o1 @ o2"
    using Cons.prems by (auto split: option.splits)
  show ?case
    using dx_step_state[OF s1] Cons.IH[OF r] out by (auto split: if_splits)
qed simp

text \<open>
  A provider hands out at most one key in its life, for every method, every sequence of frames and
  every pattern of timeouts; and once it has, or has failed, it never hands out another.
\<close>
lemma dot1x_single_key:
  "run_machine (dx_step ops) s is = Some (s', out) \<Longrightarrow>
     keys out \<le> 1 \<and> (dx_state s \<noteq> Dx_Running \<longrightarrow> keys out = 0)"
  using dx_run_keys[of ops s "is" s' out] by (auto split: if_splits)

text \<open>
  A repeated request is answered by repeating the answer: when the identifier is the one answered
  last, the provider sends the identical frame again and the method does not see the request, so a lost
  response never consumes a challenge or advances a TLS handshake.
\<close>
lemma dot1x_duplicate_replayed:
  assumes "dx_state s = Dx_Running" "dx_answered s = Some (ep_identifier p)" "dx_last_response s = Some resp"
    and "eapol_parse f = Inr e" "ea_packet_type e = Pt_Eap" "EAP_HDR_LEN \<le> length (ea_body e)"
    and "eap_parse (ea_body e) = Inr p" "ep_code p = Ec_Request"
  shows "\<exists>s'. dx_frame ops s f = Some (s', Inr (Step_Send resp)) \<and> dx_method s' = dx_method s"
  using assms by (auto simp: dx_frame_def dx_inner_def dx_on_eap_def Let_def)

text \<open>
  Silence is bounded: with no frame arriving, the fourth timeout since the last progress fails the
  exchange, and no earlier one does.
\<close>
lemma dot1x_silence_bounded:
  assumes "dx_state s = Dx_Running" "dx_idle_rounds s = 0"
  shows "\<exists>s3 s4. run_machine (dx_step ops) s (replicate 3 Dx_Timeout)
      = Some (s3, replicate 3 (Inr Step_Wait)) \<and> dx_state s3 = Dx_Running
    \<and> dx_step ops s3 Dx_Timeout = Some (s4, [Inl Ce_AuthFailed]) \<and> dx_state s4 = Dx_Failed"
  using assms
  by (simp add: numeral_eq_Suc dx_step_def dx_timeout_def RETRY_LIMIT_def Let_def crypto_from_eapol_def)

end
