(* ===== verification/Eap_Props.thy ===== *)
theory Eap_Props
  imports Dot1x
begin

text \<open>
  The three tunnelled methods satisfy the interface of the 802.1X provider, and what a key then proves:
  for PEAP, that the server completed MSCHAPv2's mutual authentication inside the tunnel and confirmed the
  result there.
\<close>

section \<open>Keys come from finished handshakes\<close>

text \<open>What \<^verbatim>\<open>rustls\<close> documents: an export fills the buffer it was given.\<close>

definition tls_ok :: "'t tls_ops \<Rightarrow> bool" where
  "tls_ok T \<longleftrightarrow> (\<forall>c n l x k. tl_export T c n l x = Some k \<longrightarrow> length k = n)"

text \<open>
  A connection past its handshake, with the plaintext it had taken out. A server certificate that does not
  validate fails the handshake, so such a connection is to a server that proved its name.
\<close>

definition finished :: "'t tls_ops \<Rightarrow> 't \<Rightarrow> bool" where
  "finished T conn \<longleftrightarrow>
     (\<exists>c p. \<not> tl_handshaking T c \<and> drain_plaintext T c [] = Some (conn, Inr p))"

definition keyed :: "'t tls_ops \<Rightarrow> u8 \<Rightarrow> bytes \<Rightarrow> bytes option \<Rightarrow> bool" where
  "keyed T ty label k \<longleftrightarrow>
     (\<forall>key. k = Some key \<longrightarrow>
        (\<exists>conn. finished T conn \<and> export_msk T conn ty label = Inr key) \<and> length key = MSK_LEN)"

lemma export_msk_length: "tls_ok T \<Longrightarrow> export_msk T conn ty l = Inr k \<Longrightarrow> length k = MSK_LEN"
  by (auto simp: export_msk_def tls_ok_def MSK_LEN_def split: option.splits tls_version.splits)

lemma flush_established:
  "flush_or_established T t = Some (t', Inr (Te_Established p)) \<Longrightarrow> finished T (tn_conn t')"
  by (auto simp: flush_or_established_def finished_def Let_def
      split: option.splits sum.splits prod.splits if_splits)

lemma tn_established:
  "tn_on_request T t td = Some (t', Inr (Te_Established p)) \<Longrightarrow> finished T (tn_conn t')"
  by (auto simp: tn_on_request_def flush_established split: option.splits sum.splits prod.splits
      incoming.splits)

lemma keyed_export:
  assumes "tls_ok T" "keyed T ty l old" "finished T conn"
    and "(case old of Some k \<Rightarrow> Inr k | None \<Rightarrow> export_msk T conn ty l) = Inr k"
  shows "keyed T ty l (Some k)"
  using assms export_msk_length[OF assms(1)] by (auto simp: keyed_def split: option.splits)

interpretation eap_tls_method:
  eap_method "eap_tls_ops T" "\<lambda>m. tls_ok T \<and> keyed T EAP_TLS TLS12_LABEL_EAP_TLS (et_msk m)"
    "\<lambda>m. keyed T EAP_TLS TLS12_LABEL_EAP_TLS (et_msk m)" for T :: "'t tls_ops"
proof
  fix m td m' r
  assume inv: "tls_ok T \<and> keyed T EAP_TLS TLS12_LABEL_EAP_TLS (et_msk m)"
    and step: "em_on_request (eap_tls_ops T) m td = Some (m', r)"
  then have "et_msk m' = et_msk m \<or>
      (\<exists>t p k. tn_on_request T (et_tunnel m) td = Some (t, Inr (Te_Established p))
        \<and> (case et_msk m of Some k \<Rightarrow> Inr k | None \<Rightarrow> export_msk T (tn_conn t) EAP_TLS TLS12_LABEL_EAP_TLS) = Inr k
        \<and> et_msk m' = Some k)"
    by (auto simp: eap_tls_ops_def et_on_request_def Let_def
        split: option.splits sum.splits prod.splits tunnel_event.splits if_splits)
  then show "tls_ok T \<and> keyed T EAP_TLS TLS12_LABEL_EAP_TLS (et_msk m')"
    using inv keyed_export[OF _ _ tn_established] by fastforce
next
  fix m k
  assume "tls_ok T \<and> keyed T EAP_TLS TLS12_LABEL_EAP_TLS (et_msk m)" "em_msk (eap_tls_ops T) m = Some k"
  then show "keyed T EAP_TLS TLS12_LABEL_EAP_TLS (et_msk m) \<and> length k = MSK_LEN"
    by (auto simp: eap_tls_ops_def keyed_def)
qed

interpretation ttls_method:
  eap_method "ttls_ops T" "\<lambda>m. tls_ok T \<and> keyed T EAP_TTLS TLS12_LABEL_TTLS (tt_msk m)"
    "\<lambda>m. keyed T EAP_TTLS TLS12_LABEL_TTLS (tt_msk m)" for T :: "'t tls_ops"
proof
  fix m td m' r
  assume inv: "tls_ok T \<and> keyed T EAP_TTLS TLS12_LABEL_TTLS (tt_msk m)"
    and step: "em_on_request (ttls_ops T) m td = Some (m', r)"
  then have "tt_msk m' = tt_msk m \<or>
      (\<exists>t p k. tn_on_request T (tt_tunnel m) td = Some (t, Inr (Te_Established p))
        \<and> export_msk T (tn_conn t) EAP_TTLS TLS12_LABEL_TTLS = Inr k \<and> tt_msk m' = Some k)"
    by (auto simp: ttls_ops_def tt_on_request_def Let_def
        split: option.splits sum.splits prod.splits tunnel_event.splits if_splits)
  then show "tls_ok T \<and> keyed T EAP_TTLS TLS12_LABEL_TTLS (tt_msk m')"
    using inv tn_established export_msk_length unfolding keyed_def by fastforce
next
  fix m k
  assume "tls_ok T \<and> keyed T EAP_TTLS TLS12_LABEL_TTLS (tt_msk m)" "em_msk (ttls_ops T) m = Some k"
  then show "keyed T EAP_TTLS TLS12_LABEL_TTLS (tt_msk m) \<and> length k = MSK_LEN"
    by (auto simp: ttls_ops_def keyed_def)
qed

section \<open>PEAP\<close>

definition pe_inv :: "'t tls_ops \<Rightarrow> 't peap \<Rightarrow> bool" where
  "pe_inv T m \<longleftrightarrow>
     tls_ok T \<and> keyed T EAP_PEAP TLS12_LABEL_EAP_TLS (pe_tunnel_msk m)
     \<and> (pe_authenticated m \<longrightarrow> mv_authenticated (pe_inner m))"

lemma mv_authenticated_stays:
  "mv_on_request M m d = Some (m', r) \<Longrightarrow> mv_authenticated m \<Longrightarrow> mv_authenticated m'"
  by (auto simp: mv_on_request_def mv_authenticated_def Let_def split: list.splits if_splits)

lemma pe_phase2_auth:
  assumes "pe_phase2 M m pt = Some (m', r)"
  shows "pe_tunnel_msk m' = pe_tunnel_msk m \<and> pe_tunnel m' = pe_tunnel m
    \<and> (mv_authenticated (pe_inner m) \<longrightarrow> mv_authenticated (pe_inner m'))
    \<and> (pe_authenticated m' \<longrightarrow> pe_authenticated m \<or> mv_authenticated (pe_inner m'))"
  using assms
  by (auto simp: pe_phase2_def pe_on_result_tlv_def Let_def mv_authenticated_stays
      split: sum.splits eap_code.splits option.splits if_splits)

lemma pe_on_request_inv:
  assumes "pe_inv T m" "pe_on_request T M m d = Some (m', r)"
  shows "pe_inv T m'"
proof -
  let ?k = "\<lambda>t. case pe_tunnel_msk m of Some k \<Rightarrow> Inr k
    | None \<Rightarrow> export_msk T (tn_conn t) EAP_PEAP TLS12_LABEL_EAP_TLS"
  consider (same) "pe_tunnel_msk m' = pe_tunnel_msk m" "pe_inner m' = pe_inner m"
      "pe_authenticated m' = pe_authenticated m"
    | (est) t p k m1 m2 where "tn_on_request T (pe_tunnel m) d = Some (t, Inr (Te_Established p))"
      "?k t = Inr k" "m1 = m\<lparr>pe_tunnel := t, pe_tunnel_msk := Some k\<rparr>"
      "m2 = m1 \<or> (\<exists>r. pe_phase2 M m1 p = Some (m2, r))"
      "pe_tunnel_msk m' = pe_tunnel_msk m2" "pe_inner m' = pe_inner m2"
      "pe_authenticated m' = pe_authenticated m2"
    using assms(2)
    by (auto simp: pe_on_request_def Let_def split: option.splits sum.splits prod.splits
        tunnel_event.splits if_splits; blast)
  then show ?thesis
  proof cases
    case est
    then have "keyed T EAP_PEAP TLS12_LABEL_EAP_TLS (Some k)"
      using assms(1) keyed_export[OF _ _ tn_established[OF est(1)], of EAP_PEAP TLS12_LABEL_EAP_TLS]
      by (auto simp: pe_inv_def)
    then show ?thesis
      using est assms(1) pe_phase2_auth[of M m1 p m2] by (auto simp: pe_inv_def)
  qed (use assms(1) in \<open>simp add: pe_inv_def\<close>)
qed

interpretation peap_method:
  eap_method "peap_ops T M" "pe_inv T"
    "\<lambda>m. mv_authenticated (pe_inner m) \<and> keyed T EAP_PEAP TLS12_LABEL_EAP_TLS (pe_tunnel_msk m)"
    for T :: "'t tls_ops" and M :: ms_prims
proof
  fix m td m' r
  assume "pe_inv T m" "em_on_request (peap_ops T M) m td = Some (m', r)"
  then show "pe_inv T m'" by (auto simp: peap_ops_def intro: pe_on_request_inv)
next
  fix m k
  assume "pe_inv T m" "em_msk (peap_ops T M) m = Some k"
  then show "(mv_authenticated (pe_inner m) \<and> keyed T EAP_PEAP TLS12_LABEL_EAP_TLS (pe_tunnel_msk m))
      \<and> length k = MSK_LEN"
    by (auto simp: peap_ops_def pe_msk_def pe_inv_def keyed_def split: if_splits)
qed

text \<open>The MSCHAPv2 requests the server sends inside the tunnel, step by step.\<close>

definition pe_delivered :: "'t tls_ops \<Rightarrow> 't peap \<Rightarrow> bytes \<Rightarrow> bytes list" where
  "pe_delivered T m d =
     (case tn_on_request T (pe_tunnel m) d of
        Some (t, Inr (Te_Established p)) \<Rightarrow>
          (case (case pe_tunnel_msk m of Some k \<Rightarrow> Inr k
                 | None \<Rightarrow> export_msk T (tn_conn t) EAP_PEAP TLS12_LABEL_EAP_TLS) of
             Inl _ \<Rightarrow> []
           | Inr _ \<Rightarrow>
               (if p = [] then []
                else case eap_parse p of
                  Inl _ \<Rightarrow> []
                | Inr q \<Rightarrow> if ep_code q = Ec_Request \<and> eap_type_of q = Some EAP_MSCHAPV2
                          then [eap_type_data q] else []))
      | _ \<Rightarrow> [])"

definition pe_step ::
  "'t tls_ops \<Rightarrow> ms_prims \<Rightarrow> 't peap \<Rightarrow> bytes \<Rightarrow> ('t peap \<times> (eapol_error + bytes option) list) option" where
  "pe_step T M m d = map_option (\<lambda>(m', r). (m', [r])) (pe_on_request T M m d)"

lemma pe_step_Some:
  "pe_step T M m d = Some (m', out) \<longleftrightarrow> (\<exists>r. pe_on_request T M m d = Some (m', r) \<and> out = [r])"
  by (auto simp: pe_step_def)

primrec pe_trace :: "'t tls_ops \<Rightarrow> ms_prims \<Rightarrow> 't peap \<Rightarrow> bytes list \<Rightarrow> bytes list" where
  "pe_trace T M m [] = []"
| "pe_trace T M m (d # ds) =
     pe_delivered T m d @ (case pe_on_request T M m d of Some (m', _) \<Rightarrow> pe_trace T M m' ds | None \<Rightarrow> [])"

lemma pe_phase2_inner:
  assumes "pe_phase2 M m p = Some (m', r)"
  shows "\<exists>out. run_machine (mv_step M) (pe_inner m)
    (case eap_parse p of Inl _ \<Rightarrow> []
     | Inr q \<Rightarrow> if ep_code q = Ec_Request \<and> eap_type_of q = Some EAP_MSCHAPV2
               then [eap_type_data q] else []) = Some (pe_inner m', out)"
  using assms
  by (auto simp: pe_phase2_def pe_on_result_tlv_def mv_step_def Let_def eap_types
      split: sum.splits eap_code.splits option.splits if_splits)

lemma pe_inner_step:
  assumes "pe_on_request T M m d = Some (m', r)"
  shows "\<exists>out. run_machine (mv_step M) (pe_inner m) (pe_delivered T m d) = Some (pe_inner m', out)"
proof (cases "\<exists>t p k. tn_on_request T (pe_tunnel m) d = Some (t, Inr (Te_Established p)) \<and> p \<noteq> []
    \<and> (case pe_tunnel_msk m of Some k \<Rightarrow> Inr k
       | None \<Rightarrow> export_msk T (tn_conn t) EAP_PEAP TLS12_LABEL_EAP_TLS) = Inr k")
  case True
  then obtain t p k where est: "tn_on_request T (pe_tunnel m) d = Some (t, Inr (Te_Established p))" "p \<noteq> []"
    and k: "(case pe_tunnel_msk m of Some k \<Rightarrow> Inr k
      | None \<Rightarrow> export_msk T (tn_conn t) EAP_PEAP TLS12_LABEL_EAP_TLS) = Inr k" by blast
  define m1 where "m1 = m\<lparr>pe_tunnel := t, pe_tunnel_msk := Some k\<rparr>"
  obtain m2 r2 where p2: "pe_phase2 M m1 p = Some (m2, r2)" and inner: "pe_inner m' = pe_inner m2"
    using assms est k
    by (auto simp: pe_on_request_def m1_def Let_def split: option.splits sum.splits prod.splits)
  from pe_phase2_inner[OF p2] show ?thesis
    using est k inner by (simp add: pe_delivered_def m1_def)
next
  case False
  then have "pe_delivered T m d = []"
    by (auto simp: pe_delivered_def split: option.splits sum.splits prod.splits tunnel_event.splits)
  moreover have "pe_inner m' = pe_inner m"
    using assms False
    by (auto simp: pe_on_request_def Let_def split: option.splits sum.splits prod.splits
        tunnel_event.splits if_splits)
  ultimately show ?thesis by simp
qed

lemma pe_trace_run:
  "run_machine (pe_step T M) m ds = Some (m', out) \<Longrightarrow>
     \<exists>o'. run_machine (mv_step M) (pe_inner m) (pe_trace T M m ds) = Some (pe_inner m', o')"
proof (induction ds arbitrary: m out)
  case (Cons d ds)
  obtain m1 r o2 where s: "pe_on_request T M m d = Some (m1, r)"
    and run: "run_machine (pe_step T M) m1 ds = Some (m', o2)"
    using Cons.prems by (auto simp: pe_step_Some split: option.splits)
  obtain oa where a: "run_machine (mv_step M) (pe_inner m) (pe_delivered T m d) = Some (pe_inner m1, oa)"
    using pe_inner_step[OF s] by blast
  obtain ob where b: "run_machine (mv_step M) (pe_inner m1) (pe_trace T M m1 ds) = Some (pe_inner m', ob)"
    using Cons.IH[OF run] by blast
  show ?case using a b s by (simp add: run_machine_append)
qed simp

lemma pe_run_inv:
  "run_machine (pe_step T M) m ds = Some (m', out) \<Longrightarrow> pe_inv T m \<Longrightarrow> pe_inv T m'"
proof (induction ds arbitrary: m out)
  case (Cons d ds)
  then show ?case
    using pe_on_request_inv[of T m M d] by (fastforce simp: pe_step_Some split: option.splits)
qed simp

definition pe_fresh :: "'t tls_ops \<Rightarrow> bytes \<Rightarrow> bytes \<Rightarrow> bytes \<Rightarrow> 't peap \<Rightarrow> bool" where
  "pe_fresh T u p pc m \<longleftrightarrow>
     tls_ok T \<and> pe_inner m = mv_with_peer_challenge u p pc \<and> pe_tunnel_msk m = None
     \<and> \<not> pe_authenticated m"

lemma pe_fresh_inv: "pe_fresh T u p pc m \<Longrightarrow> pe_inv T m"
  by (simp add: pe_fresh_def pe_inv_def keyed_def)

text \<open>
  PEAP releases a key only to a network that proved itself twice. For every sequence of outer
  requests, when the method has a master session key it was exported from a TLS connection whose handshake
  had finished, and among the requests the server sent inside that tunnel are a challenge and the
  authenticator response for it, which only something holding the user's password hash can compute.
\<close>
theorem peap_mutual:
  assumes "pe_fresh T u p pc m" "run_machine (pe_step T M) m ds = Some (m', out)" "pe_msk m' = Some k"
  shows "(\<exists>conn. finished T conn \<and> export_msk T conn EAP_PEAP TLS12_LABEL_EAP_TLS = Inr k)
    \<and> (\<exists>a. (\<exists>d\<in>set (pe_trace T M m ds). ms_challenge_of d = Some a)
         \<and> (\<exists>d\<in>set (pe_trace T M m ds). sublist (server_proof M p pc a u) (ms_body d)))"
proof -
  have inv: "pe_inv T m'" using pe_run_inv[OF assms(2)] pe_fresh_inv[OF assms(1)] .
  have auth: "mv_authenticated (pe_inner m')" and k: "pe_tunnel_msk m' = Some k"
    using assms(3) inv by (auto simp: pe_msk_def pe_inv_def split: if_splits)
  obtain o' where "run_machine (mv_step M) (mv_with_peer_challenge u p pc) (pe_trace T M m ds)
      = Some (pe_inner m', o')"
    using pe_trace_run[OF assms(2)] assms(1) by (auto simp: pe_fresh_def)
  from mv_run_history[OF this] auth inv k show ?thesis
    by (auto simp: mv_history_def mv_authenticated_def pe_inv_def keyed_def)
qed

section \<open>The provider over PEAP\<close>

lemma dx_run_pe_inv:
  "run_machine (dx_step (peap_ops T M)) s is = Some (s', out) \<Longrightarrow> pe_inv T (dx_method s) \<Longrightarrow>
     pe_inv T (dx_method s')"
proof (induction "is" arbitrary: s out)
  case (Cons i "is")
  obtain s1 o1 o2 where s1: "dx_step (peap_ops T M) s i = Some (s1, o1)"
    and r: "run_machine (dx_step (peap_ops T M)) s1 is = Some (s', o2)"
    using Cons.prems by (auto split: option.splits)
  have "pe_inv T (dx_method s1)"
  proof (cases i)
    case (Dx_Frame f)
    then show ?thesis
      using s1 peap_method.frame_inv[OF Cons.prems(2)] by (auto simp: dx_step_def)
  next
    case Dx_Timeout
    then show ?thesis
      using s1 Cons.prems(2) by (auto simp: dx_step_def dx_timeout_def Let_def split: if_splits)
  qed
  then show ?case using Cons.IH[OF r] by blast
qed simp

text \<open>
  C9. The pairwise master key of an 802.1X connection over PEAP is released only when the protected
  exchange is complete. For every history of frames and timeouts, a frame that makes the provider hand out
  a key does so in the running state, once; the key is the first half of the one exported from a finished
  tunnel; and MSCHAPv2 has authenticated the server inside it. A forged EAP-Success before that is refused.
\<close>
theorem dot1x_peap_key:
  assumes "pe_fresh T u p pc (dx_method s0)"
    and "run_machine (dx_step (peap_ops T M)) s0 is = Some (s, out)"
    and "dx_frame (peap_ops T M) s f = Some (s', Inr (Step_Done pmk))"
  shows "dx_state s = Dx_Running \<and> dx_state s' = Dx_Done \<and> keys out = 0
    \<and> pe_authenticated (dx_method s) \<and> mv_authenticated (pe_inner (dx_method s))
    \<and> (\<exists>conn msk. finished T conn \<and> export_msk T conn EAP_PEAP TLS12_LABEL_EAP_TLS = Inr msk
         \<and> pmk = take 32 msk \<and> length pmk = 32)"
proof -
  have inv: "pe_inv T (dx_method s)"
    using dx_run_pe_inv[OF assms(2)] pe_fresh_inv[OF assms(1)] .
  note fd = peap_method.frame_done[OF inv assms(3)]
  have step: "run_machine (dx_step (peap_ops T M)) s0 (is @ [Dx_Frame f])
      = Some (s', out @ [Inr (Step_Done pmk)])"
    using assms(2,3) by (simp add: run_machine_append dx_step_def)
  have "keys (out @ [Inr (Step_Done pmk)]) \<le> 1"
    using dx_run_keys[OF step] by (auto split: if_splits)
  then have "keys out = 0" by (simp add: keys_def is_key_def)
  moreover obtain msk where m: "pe_msk (dx_method s) = Some msk" "pmk = take 32 msk" "length pmk = 32"
    and auth: "mv_authenticated (pe_inner (dx_method s))"
      "keyed T EAP_PEAP TLS12_LABEL_EAP_TLS (pe_tunnel_msk (dx_method s))"
    using fd by (auto simp: peap_ops_def)
  moreover have "pe_authenticated (dx_method s)" "pe_tunnel_msk (dx_method s) = Some msk"
    using m(1) by (auto simp: pe_msk_def split: if_splits)
  moreover from this(2) auth(2)
  obtain conn where "finished T conn" "export_msk T conn EAP_PEAP TLS12_LABEL_EAP_TLS = Inr msk"
    by (auto simp: keyed_def)
  ultimately show ?thesis using fd by blast
qed

section \<open>A concrete exchange\<close>

text \<open>A connection without encryption: what is read is plaintext, what is written goes out as it is.\<close>

record toy_tls =
  ty_in :: bytes
  ty_out :: bytes

definition toy_tls_ops :: "toy_tls tls_ops" where
  "toy_tls_ops =
     \<lparr>tl_read_tls = (\<lambda>c bs. (c\<lparr>ty_in := ty_in c @ bs\<rparr>, Some (length bs))),
      tl_process = (\<lambda>c. (c, True)), tl_wants_write = (\<lambda>c. ty_out c \<noteq> []),
      tl_write_tls = (\<lambda>c. (c\<lparr>ty_out := []\<rparr>, Some (ty_out c))),
      tl_write_plain = (\<lambda>c bs. (c\<lparr>ty_out := ty_out c @ bs\<rparr>, True)),
      tl_read_plain = (\<lambda>c. if ty_in c = [] then (c, Tr_WouldBlock)
        else (c\<lparr>ty_in := []\<rparr>, Tr_Data (ty_in c))),
      tl_handshaking = (\<lambda>c. False), tl_close_notify = (\<lambda>c. c),
      tl_version = (\<lambda>c. Some Tls_older), tl_export = (\<lambda>c n l x. Some (replicate n 7))\<rparr>"

definition toy_ms :: ms_prims where
  "toy_ms = \<lparr>ms_md4 = (\<lambda>m. replicate 16 0), ms_sha1 = (\<lambda>m. replicate 20 0),
             ms_des = (\<lambda>k b. replicate 8 0)\<rparr>"

definition toy_peap :: "toy_tls peap" where
  "toy_peap =
     \<lparr>pe_tunnel = \<lparr>tn_conn = \<lparr>ty_in = [], ty_out = []\<rparr>, tn_exchange = exchange_new 1398 True\<rparr>,
      pe_inner_identity = [117], pe_inner = mv_with_peer_challenge [117] [112] (replicate 16 9),
      pe_tunnel_msk = None, pe_authenticated = False\<rparr>"

definition toy_challenge :: bytes where
  "toy_challenge = [OP_CHALLENGE, 5] @ u16_be 21 @ [16] @ replicate 16 3"

definition toy_success :: bytes where
  "toy_success = [OP_SUCCESS, 5] @ u16_be 46 @ ascii ''S='' @ replicate 40 48"

definition toy_inner :: "bytes \<Rightarrow> bytes" where
  "toy_inner body = 0 # 1 # 8 # u16_be (of_nat (4 + length body)) @ body"

definition toy_requests :: "bytes list" where
  "toy_requests = [[0], toy_inner (26 # toy_challenge), toy_inner (26 # toy_success),
     toy_inner (33 # result_tlv 1)]"

lemma toy_fresh: "pe_fresh toy_tls_ops [117] [112] (replicate 16 9) toy_peap"
  by (simp add: pe_fresh_def tls_ok_def toy_tls_ops_def toy_peap_def)

definition toy_key :: bytes where "toy_key = replicate 64 7"

definition toy_ready :: "toy_tls peap \<Rightarrow> bool" where
  "toy_ready m \<longleftrightarrow>
     tn_conn (pe_tunnel m) = \<lparr>ty_in = [], ty_out = []\<rparr>
     \<and> xc_inbound (tn_exchange (pe_tunnel m)) = reassembler_new
     \<and> fr_is_empty (xc_outbound (tn_exchange (pe_tunnel m)))
     \<and> fr_size (xc_outbound (tn_exchange (pe_tunnel m))) = 1398
     \<and> xc_base_flags (tn_exchange (pe_tunnel m)) = 0 \<and> pe_tunnel_msk m = Some toy_key"

lemma toy_drain:
  "drain_tls toy_tls_ops \<lparr>ty_in = i, ty_out = q\<rparr> [] = Some (\<lparr>ty_in = i, ty_out = []\<rparr>, Inr q)"
  "drain_plaintext toy_tls_ops \<lparr>ty_in = i, ty_out = q\<rparr> [] = Some (\<lparr>ty_in = [], ty_out = q\<rparr>, Inr i)"
  by (subst drain_tls.simps drain_plaintext.simps,
      simp add: toy_tls_ops_def drain_tls.simps drain_plaintext.simps)+

lemma toy_feed:
  "feed_tls toy_tls_ops \<lparr>ty_in = i, ty_out = q\<rparr> bs = (\<lparr>ty_in = i @ bs, ty_out = q\<rparr>, Inr ())"
  by (subst feed_tls.simps, simp add: toy_tls_ops_def feed_tls.simps)

lemma toy_delivers:
  assumes "p \<noteq> []" "length p \<le> 1398" "tn_conn t = \<lparr>ty_in = [], ty_out = []\<rparr>"
    "xc_inbound (tn_exchange t) = reassembler_new" "fr_is_empty (xc_outbound (tn_exchange t))"
    "xc_base_flags (tn_exchange t) = 0"
  shows "tn_on_request toy_tls_ops t (0 # p) = Some (t, Inr (Te_Established p))"
proof -
  obtain x c where t: "t = \<lparr>tn_conn = c, tn_exchange = x\<rparr>" by (cases t)
  obtain i out b mi where x: "x = \<lparr>xc_inbound = i, xc_outbound = out, xc_base_flags = b, xc_mirror = mi\<rparr>"
    by (cases x)
  have "xc_on_request x (0 # p) = Some (x, Inr (In_Message p))"
    using assms t x
    by (simp add: xc_on_request_def fragment_parse_def fragment_start_def fragment_version_def frag_flags
        rs_push_def rs_admit_def rs_in_progress_def rs_overfull_def fragment_more_def reassembler_new_def
        MAX_TLS_MESSAGE_def Let_def)
  moreover have "tl_handshaking toy_tls_ops c' = False" for c' by (simp add: toy_tls_ops_def)
  ultimately show ?thesis
    using assms t
    by (simp add: tn_on_request_def toy_feed toy_drain flush_or_established_def xc_send_def Let_def)
qed

lemma toy_sends:
  assumes "inner \<noteq> []" "length inner \<le> 1398" "tn_conn t = \<lparr>ty_in = [], ty_out = []\<rparr>"
    "fr_size (xc_outbound (tn_exchange t)) = 1398" "xc_base_flags (tn_exchange t) = 0"
  obtains t' where "send_tunnelled toy_tls_ops t inner = Some (t', Inr (0 # inner))"
    "tn_conn t' = \<lparr>ty_in = [], ty_out = []\<rparr>" "xc_inbound (tn_exchange t') = xc_inbound (tn_exchange t)"
    "fr_is_empty (xc_outbound (tn_exchange t'))" "fr_size (xc_outbound (tn_exchange t')) = 1398"
    "xc_base_flags (tn_exchange t') = 0"
proof -
  have w: "tl_write_plain toy_tls_ops \<lparr>ty_in = [], ty_out = []\<rparr> inner
      = (\<lparr>ty_in = [], ty_out = inner\<rparr>, True)"
    by (simp add: toy_tls_ops_def)
  define t' where "t' = t\<lparr>tn_conn := \<lparr>ty_in = [], ty_out = []\<rparr>, tn_exchange := (tn_exchange t)
    \<lparr>xc_outbound := (xc_outbound (tn_exchange t))\<lparr>fr_pending := inner, fr_sent := length inner\<rparr>\<rparr>\<rparr>"
  show ?thesis
    using assms
    by (intro that[of t']) (auto simp: t'_def send_tunnelled_def w toy_drain xc_send_def fr_next_def fr_queue_def
        fr_is_empty_def Let_def)
qed

lemma toy_phase2:
  assumes "toy_ready m" "p \<noteq> []" "length p \<le> 1398" "pe_phase2 toy_ms m p = Some (m2, Inr (Some inner))"
    "inner \<noteq> []" "length inner \<le> 1398"
  shows "\<exists>m'. pe_on_request toy_tls_ops toy_ms m (0 # p) = Some (m', Inr (Some (0 # inner)))
    \<and> toy_ready m' \<and> pe_inner m' = pe_inner m2 \<and> pe_authenticated m' = pe_authenticated m2"
proof -
  have del: "tn_on_request toy_tls_ops (pe_tunnel m) (0 # p) = Some (pe_tunnel m, Inr (Te_Established p))"
    using assms(1-3) by (intro toy_delivers) (auto simp: toy_ready_def)
  have "m\<lparr>pe_tunnel_msk := Some toy_key\<rparr> = m"
    using assms(1) by (simp add: toy_ready_def)
  then have ph: "pe_phase2 toy_ms (m\<lparr>pe_tunnel_msk := Some toy_key\<rparr>) p = Some (m2, Inr (Some inner))"
    using assms(4) by simp
  have keep: "pe_tunnel m2 = pe_tunnel m" "pe_tunnel_msk m2 = Some toy_key"
    using pe_phase2_auth[OF assms(4)] assms(1) by (auto simp: toy_ready_def)
  obtain t' where s: "send_tunnelled toy_tls_ops (pe_tunnel m) inner = Some (t', Inr (0 # inner))"
    "tn_conn t' = \<lparr>ty_in = [], ty_out = []\<rparr>"
    "xc_inbound (tn_exchange t') = xc_inbound (tn_exchange (pe_tunnel m))"
    "fr_is_empty (xc_outbound (tn_exchange t'))" "fr_size (xc_outbound (tn_exchange t')) = 1398"
    "xc_base_flags (tn_exchange t') = 0"
    using assms(1,5,6) by (auto simp: toy_ready_def intro: toy_sends)
  have "pe_on_request toy_tls_ops toy_ms m (0 # p)
      = Some (m2\<lparr>pe_tunnel := t'\<rparr>, Inr (Some (0 # inner)))"
    using assms(1,2) del s(1) keep ph
    by (simp add: pe_on_request_def Let_def toy_ready_def)
  then show ?thesis using s keep assms(1) by (simp add: toy_ready_def)
qed

definition toy_m1 :: "toy_tls peap" where
  "toy_m1 = toy_peap\<lparr>pe_tunnel_msk := Some toy_key\<rparr>"

lemma toy_ready_m1: "toy_ready toy_m1"
  by (simp add: toy_ready_def toy_m1_def toy_peap_def exchange_new_def fragmenter_new_def fr_is_empty_def)

lemma toy_peap_start: "pe_on_request toy_tls_ops toy_ms toy_peap [0] = Some (toy_m1, Inr (Some [0]))"
proof -
  have "xc_on_request (exchange_new 1398 True) [0] = Some (exchange_new 1398 True, Inr (In_Message []))"
    by (simp add: xc_on_request_def fragment_parse_def fragment_start_def fragment_version_def frag_flags
        rs_push_def rs_admit_def rs_in_progress_def rs_overfull_def fragment_more_def reassembler_new_def
        exchange_new_def fragmenter_new_def fr_is_empty_def MAX_TLS_MESSAGE_def Let_def)
  moreover have "feed_tls toy_tls_ops c [] = (c, Inr ())" for c by (simp add: feed_tls.simps)
  moreover have "tl_handshaking toy_tls_ops c = False" for c by (simp add: toy_tls_ops_def)
  moreover have "export_msk toy_tls_ops c ty l = Inr toy_key" for c ty l
    by (simp add: export_msk_def toy_tls_ops_def toy_key_def MSK_LEN_def)
  ultimately show ?thesis
    by (simp add: pe_on_request_def tn_on_request_def toy_peap_def toy_m1_def toy_drain xc_send_def
        flush_or_established_def Let_def tn_empty_reply_def xc_empty_reply_def exchange_new_def)
qed

lemma toy_inner_parse:
  "length b < 60000 \<Longrightarrow> eap_parse (1 # 8 # u16_be (of_nat (4 + length b)) @ b)
     = Inr \<lparr>ep_code = Ec_Request, ep_identifier = 8, ep_data = b\<rparr>"
  using eap_parse_encode[of Ec_Request 8 b "1 # 8 # u16_be (of_nat (4 + length b)) @ b" "[]"]
  by (simp add: eap_encode_def EAP_HDR_LEN_def eap_code_u8_def Let_def)

definition toy_proof :: bytes where
  "toy_proof = server_proof toy_ms [112] (replicate 16 9) (replicate 16 3) [117]"

lemma toy_proof_bytes: "toy_proof = ascii ''S='' @ replicate 40 48"
  by (simp add: toy_proof_def server_proof_def generate_authenticator_response_def toy_ms_def Let_def
      hex_byte_def HEX_def ascii_def numeral_eq_Suc)

lemma be16_small [simp]: "from_be16 0 21 = 21" "from_be16 0 46 = 46"
  by (simp_all add: from_be16_def)

lemma mv_challenge_reply:
  assumes "mv_state m = Ms_AwaitingChallenge" "length auth = 16"
    and "length (mv_peer_challenge m) = 16" "length (mv_username m) < 60000"
    and "length (generate_nt_response M auth (mv_peer_challenge m) (mv_username m) (mv_password m)) = 24"
  shows "\<exists>reply. mv_on_request M m ([OP_CHALLENGE, i] @ u16_be 21 @ [16] @ auth) = Some
     (m\<lparr>mv_expected := Some (server_proof M (mv_password m) (mv_peer_challenge m) auth (mv_username m)),
        mv_state := Ms_AwaitingSuccess\<rparr>, Inr (Some reply))
     \<and> reply \<noteq> [] \<and> length reply = 54 + length (mv_username m)"
proof -
  have "ms_message OP_RESPONSE i (of_nat RESPONSE_LEN # (mv_peer_challenge m @ replicate 8 0
      @ generate_nt_response M auth (mv_peer_challenge m) (mv_username m) (mv_password m) @ [0])
      @ mv_username m) \<noteq> None"
    using assms by (simp add: ms_message_def MS_HDR_LEN_def Let_def)
  then show ?thesis
    using assms
    by (auto simp: mv_on_request_def u16_be_def MS_HDR_LEN_def mv_on_challenge_def server_proof_def
        ms_message_def Let_def min_def)
qed

lemma mv_success_reply:
  assumes "mv_state m = Ms_AwaitingSuccess" "mv_expected m = Some proof" "length proof = 42"
    "prefix (ascii ''S='') proof"
  shows "mv_on_request M m ([OP_SUCCESS, i] @ u16_be 46 @ proof)
    = Some (m\<lparr>mv_state := Ms_Authenticated\<rparr>, Inr (Some [OP_SUCCESS]))"
proof -
  have "windows 42 proof = [proof]" using assms(3) by (simp add: windows_def)
  then have "mv_on_success m proof = (m\<lparr>mv_state := Ms_Authenticated\<rparr>, Inr [OP_SUCCESS])"
    using assms by (simp add: mv_on_success_def)
  then show ?thesis
    using assms by (simp add: mv_on_request_def u16_be_def MS_HDR_LEN_def OP_SUCCESS_def OP_CHALLENGE_def Let_def)
qed

text \<open>The whole run: the tunnel opens, the challenge, the server's proof, the protected result.\<close>

lemma toy_request:
  assumes "toy_ready m" "length b < 1000"
    and "pe_phase2 toy_ms m (1 # 8 # u16_be (of_nat (4 + length b)) @ b) = Some (m2, Inr (Some inner))"
    and "inner \<noteq> []" "length inner \<le> 1398"
  shows "\<exists>m' r. pe_on_request toy_tls_ops toy_ms m (toy_inner b) = Some (m', Inr (Some r))
    \<and> length r \<le> 1399 \<and> toy_ready m' \<and> pe_inner m' = pe_inner m2 \<and> pe_authenticated m' = pe_authenticated m2"
  using toy_phase2[OF assms(1) _ _ assms(3-5)] assms(2,5) by (auto simp: toy_inner_def)

lemma toy_phase2_mschap:
  assumes "mv_on_request toy_ms (pe_inner m) d = Some (i, Inr (Some td))" "length d < 500" "length td < 500"
  shows "\<exists>inner. pe_phase2 toy_ms m (1 # 8 # u16_be (of_nat (4 + length (26 # d))) @ 26 # d)
      = Some (m\<lparr>pe_inner := i\<rparr>, Inr (Some inner)) \<and> inner \<noteq> [] \<and> length inner \<le> 1398"
  using assms toy_inner_parse[of "26 # d"]
  by (simp add: pe_phase2_def eap_type_of_def slice_first_def eap_type_data_def eap_types eap_response_def
      eap_encode_def EAP_HDR_LEN_def Let_def)

lemma find_result_success: "find_result_tlv (result_tlv TLV_RESULT_SUCCESS) = Some TLV_RESULT_SUCCESS"
  by (simp add: result_tlv_def u16_be_def TLV_MANDATORY_def TLV_RESULT_def TLV_RESULT_SUCCESS_def
      from_be16_def Let_def)

lemma toy_phase2_tlv:
  assumes "mv_authenticated (pe_inner m)"
  shows "\<exists>inner. pe_phase2 toy_ms m (1 # 8 # u16_be (of_nat (4 + length (33 # result_tlv 1))) @ 33 # result_tlv 1)
      = Some (m\<lparr>pe_authenticated := True\<rparr>, Inr (Some inner)) \<and> inner \<noteq> [] \<and> length inner \<le> 1398"
proof -
  have "length (result_tlv v) = 6" for v by (simp add: result_tlv_def)
  then show ?thesis
    using assms toy_inner_parse[of "33 # result_tlv 1"] find_result_success
    by (simp add: pe_phase2_def eap_type_of_def slice_first_def eap_type_data_def eap_types
        pe_on_result_tlv_def eap_response_def eap_encode_def EAP_HDR_LEN_def TLV_RESULT_SUCCESS_def Let_def)
qed

lemma toy_run:
  obtains m2 r2 m3 r3 m4 r4 where
    "pe_on_request toy_tls_ops toy_ms toy_m1 (toy_inner (26 # toy_challenge)) = Some (m2, Inr (Some r2))"
    "pe_on_request toy_tls_ops toy_ms m2 (toy_inner (26 # toy_success)) = Some (m3, Inr (Some r3))"
    "pe_on_request toy_tls_ops toy_ms m3 (toy_inner (33 # result_tlv 1)) = Some (m4, Inr (Some r4))"
    "length r2 \<le> 1399" "length r3 \<le> 1399" "length r4 \<le> 1399" "pe_msk m4 = Some toy_key"
proof -
  have nt: "length (generate_nt_response toy_ms a pc u pw) = 24" for a pc u pw
    by (rule nt_response_length) (simp add: ms_prims_ok_def toy_ms_def)
  have proof_ok: "length toy_proof = 42" "prefix (ascii ''S='') toy_proof"
    using authenticator_response_shape[of toy_ms]
    by (simp_all add: toy_proof_def server_proof_def ms_prims_ok_def toy_ms_def)
  obtain m2 r2 where 2: "pe_on_request toy_tls_ops toy_ms toy_m1 (toy_inner (26 # toy_challenge)) = Some (m2, Inr (Some r2))" "length r2 \<le> 1399"
    "toy_ready m2" "mv_state (pe_inner m2) = Ms_AwaitingSuccess" "mv_expected (pe_inner m2) = Some toy_proof"
  proof -
    have i: "pe_inner toy_m1 = mv_with_peer_challenge [117] [112] (replicate 16 9)"
      by (simp add: toy_m1_def toy_peap_def)
    obtain td where td: "mv_on_request toy_ms (pe_inner toy_m1) toy_challenge = Some
        ((pe_inner toy_m1)\<lparr>mv_expected := Some toy_proof, mv_state := Ms_AwaitingSuccess\<rparr>, Inr (Some td))"
      "length td = 55"
      using mv_challenge_reply[of "pe_inner toy_m1" "replicate 16 3" toy_ms 5] nt
      by (auto simp: i mv_with_peer_challenge_def toy_challenge_def toy_proof_def)
    have "length toy_challenge < 500" by (simp add: toy_challenge_def)
    from toy_phase2_mschap[OF td(1) this] td(2)
    obtain inner where "pe_phase2 toy_ms toy_m1
        (1 # 8 # u16_be (of_nat (4 + length (26 # toy_challenge))) @ 26 # toy_challenge) = Some
        (toy_m1\<lparr>pe_inner := (pe_inner toy_m1)\<lparr>mv_expected := Some toy_proof, mv_state := Ms_AwaitingSuccess\<rparr>\<rparr>,
         Inr (Some inner))" "inner \<noteq> []" "length inner \<le> 1398" by auto
    from toy_request[OF toy_ready_m1 _ this] show ?thesis
      by (auto simp: toy_challenge_def intro: that)
  qed
  obtain m3 r3 where 3: "pe_on_request toy_tls_ops toy_ms m2 (toy_inner (26 # toy_success)) = Some (m3, Inr (Some r3))" "length r3 \<le> 1399"
    "toy_ready m3" "mv_authenticated (pe_inner m3)"
  proof -
    have td: "mv_on_request toy_ms (pe_inner m2) toy_success = Some
        ((pe_inner m2)\<lparr>mv_state := Ms_Authenticated\<rparr>, Inr (Some [OP_SUCCESS]))"
      using mv_success_reply[OF 2(4,5) proof_ok, of toy_ms 5] by (simp add: toy_success_def toy_proof_bytes)
    have "length toy_success < 500" by (simp add: toy_success_def)
    from toy_phase2_mschap[OF td this]
    obtain inner where "pe_phase2 toy_ms m2
        (1 # 8 # u16_be (of_nat (4 + length (26 # toy_success))) @ 26 # toy_success) = Some
        (m2\<lparr>pe_inner := (pe_inner m2)\<lparr>mv_state := Ms_Authenticated\<rparr>\<rparr>, Inr (Some inner))"
      "inner \<noteq> []" "length inner \<le> 1398" by auto
    from toy_request[OF 2(3) _ this] show ?thesis
      by (auto simp: toy_success_def mv_authenticated_def intro: that)
  qed
  obtain m4 r4 where 4: "pe_on_request toy_tls_ops toy_ms m3 (toy_inner (33 # result_tlv 1)) = Some (m4, Inr (Some r4))" "length r4 \<le> 1399"
    "toy_ready m4" "pe_authenticated m4"
  proof -
    obtain inner where "pe_phase2 toy_ms m3
        (1 # 8 # u16_be (of_nat (4 + length (33 # result_tlv 1))) @ 33 # result_tlv 1) = Some
        (m3\<lparr>pe_authenticated := True\<rparr>, Inr (Some inner))" "inner \<noteq> []" "length inner \<le> 1398"
      using toy_phase2_tlv[OF 3(4)] by blast
    from toy_request[OF 3(3) _ this] show ?thesis
      by (auto simp: result_tlv_def intro: that)
  qed
  have "pe_msk m4 = Some toy_key" using 4 by (simp add: pe_msk_def toy_ready_def)
  then show ?thesis using 2(1,2) 3(1,2) 4(1,2) that by blast
qed

lemma peap_mutual_witness:
  "\<exists>m ds a. pe_fresh toy_tls_ops [117] [112] (replicate 16 9) toy_peap
     \<and> (\<exists>out. run_machine (pe_step toy_tls_ops toy_ms) toy_peap ds = Some (m, out))
     \<and> (\<exists>d\<in>set (pe_trace toy_tls_ops toy_ms toy_peap ds). ms_challenge_of d = Some a)"
proof -
  obtain m2 r2 m3 r3 m4 r4 where steps:
    "pe_on_request toy_tls_ops toy_ms toy_m1 (toy_inner (26 # toy_challenge)) = Some (m2, Inr (Some r2))"
    "pe_on_request toy_tls_ops toy_ms m2 (toy_inner (26 # toy_success)) = Some (m3, Inr (Some r3))"
    "pe_on_request toy_tls_ops toy_ms m3 (toy_inner (33 # result_tlv 1)) = Some (m4, Inr (Some r4))"
    "pe_msk m4 = Some toy_key"
    by (rule toy_run)
  then have run: "\<exists>out. run_machine (pe_step toy_tls_ops toy_ms) toy_peap toy_requests = Some (m4, out)"
    using toy_peap_start by (simp add: toy_requests_def pe_step_def)
  then obtain out where "run_machine (pe_step toy_tls_ops toy_ms) toy_peap toy_requests = Some (m4, out)" ..
  from peap_mutual[OF toy_fresh this steps(4)] run toy_fresh show ?thesis by blast
qed

text \<open>The same requests as frames of the outer conversation.\<close>

definition toy_eap :: "u8 \<Rightarrow> u8 \<Rightarrow> bytes \<Rightarrow> bytes" where
  "toy_eap code ident payload = [code, ident] @ u16_be (of_nat (4 + length payload)) @ payload"

definition toy_frame :: "bytes \<Rightarrow> bytes" where
  "toy_frame packet = [2, 0] @ u16_be (of_nat (length packet)) @ packet"

lemma toy_frame_parse:
  assumes "length payload < 60000" "eap_code_from_u8 code = Inr c"
  obtains e where "eapol_parse (toy_frame (toy_eap code ident payload)) = Inr e" "ea_packet_type e = Pt_Eap"
    "EAP_HDR_LEN \<le> length (ea_body e)" "ea_version e = 2"
    "eap_parse (ea_body e) = Inr \<lparr>ep_code = c, ep_identifier = ident, ep_data = payload\<rparr>"
proof -
  let ?p = "toy_eap code ident payload"
  have len: "length ?p = 4 + length payload" by (simp add: toy_eap_def)
  have u: "unat (of_nat (length ?p) :: u16) = length ?p"
    using assms(1) len by (intro unat_of_nat_u16) simp
  have u2: "unat (of_nat (4 + length payload) :: u16) = 4 + length payload"
    using assms(1) by (intro unat_of_nat_u16) simp
  have "eap_parse ?p = Inr \<lparr>ep_code = c, ep_identifier = ident, ep_data = payload\<rparr>"
    unfolding toy_eap_def using u2 assms(2)
    by (simp add: eap_parse_def u16_be_def EAP_HDR_LEN_def Let_def del: of_nat_add)
  moreover have "eapol_parse (toy_frame ?p) = Inr \<lparr>ea_version = 2, ea_packet_type = Pt_Eap, ea_body = ?p,
      ea_raw = take (EAPOL_HDR_LEN + length ?p) (toy_frame ?p)\<rparr>"
    unfolding toy_frame_def using u
    by (simp add: eapol_parse_def u16_be_def packet_type_from_u8_def Let_def del: of_nat_add)
  ultimately show ?thesis using len by (intro that) (auto simp: EAP_HDR_LEN_def)
qed

lemma toy_dx_request:
  assumes "dx_state s = Dx_Running" "dx_answered s \<noteq> Some ident" "length td < 5000"
    and "pe_on_request toy_tls_ops toy_ms (dx_method s) td = Some (m', Inr (Some r))" "length r \<le> 1399"
  shows "\<exists>s' f. dx_step (peap_ops toy_tls_ops toy_ms) s (Dx_Frame (toy_frame (toy_eap 1 ident (25 # td))))
      = Some (s', [Inr (Step_Send f)])
    \<and> dx_method s' = m' \<and> dx_state s' = Dx_Running \<and> dx_answered s' = Some ident"
proof -
  have "length (25 # td) < 60000" "eap_code_from_u8 1 = Inr Ec_Request"
    using assms(3) by (simp_all add: eap_code_from_u8_def)
  then obtain e where "eapol_parse (toy_frame (toy_eap 1 ident (25 # td))) = Inr e"
    "ea_packet_type e = Pt_Eap" "EAP_HDR_LEN \<le> length (ea_body e)"
    "eap_parse (ea_body e) = Inr \<lparr>ep_code = Ec_Request, ep_identifier = ident, ep_data = 25 # td\<rparr>"
    by (rule toy_frame_parse)
  then show ?thesis
    using assms
    by (auto simp: dx_step_def dx_frame_def dx_inner_def dx_on_eap_def dx_on_request_def dx_answer_def
        dx_reply_def eap_type_of_def slice_first_def eap_type_data_def peap_ops_def eap_types
        eap_response_def eap_encode_def EAP_HDR_LEN_def eapol_encode_def Let_def
        split: bool.splits option.splits)
qed

lemma dot1x_peap_key_witness:
  "\<exists>is s s' out. run_machine (dx_step (peap_ops toy_tls_ops toy_ms)) (dx_new [97] toy_peap) is = Some (s, out)
     \<and> dx_frame (peap_ops toy_tls_ops toy_ms) s (toy_frame (toy_eap 3 5 []))
       = Some (s', Inr (Step_Done (replicate 32 7)))
     \<and> mv_authenticated (pe_inner (dx_method s))"
proof -
  obtain m2 r2 m3 r3 m4 r4 where st:
    "pe_on_request toy_tls_ops toy_ms toy_m1 (toy_inner (26 # toy_challenge)) = Some (m2, Inr (Some r2))"
    "pe_on_request toy_tls_ops toy_ms m2 (toy_inner (26 # toy_success)) = Some (m3, Inr (Some r3))"
    "pe_on_request toy_tls_ops toy_ms m3 (toy_inner (33 # result_tlv 1)) = Some (m4, Inr (Some r4))"
    "length r2 \<le> 1399" "length r3 \<le> 1399" "length r4 \<le> 1399" "pe_msk m4 = Some toy_key"
    by (rule toy_run)
  have len: "length (toy_inner (26 # toy_challenge)) < 5000" "length (toy_inner (26 # toy_success)) < 5000"
    "length (toy_inner (33 # result_tlv 1)) < 5000"
    by (simp_all add: toy_inner_def toy_challenge_def toy_success_def result_tlv_def)
  let ?i = "\<lambda>n td. Dx_Frame (toy_frame (toy_eap 1 n (25 # td)))"
  let ?step = "dx_step (peap_ops toy_tls_ops toy_ms)"
  obtain s1 f1 where s1: "?step (dx_new [97] toy_peap) (?i 1 [0]) = Some (s1, [Inr (Step_Send f1)])"
    "dx_method s1 = toy_m1" "dx_state s1 = Dx_Running" "dx_answered s1 = Some 1"
    using toy_dx_request[of "dx_new [97] toy_peap" 1 "[0]" toy_m1 "[0]"] toy_peap_start
    by (auto simp: dx_new_def)
  obtain s2 f2 where s2: "?step s1 (?i 2 (toy_inner (26 # toy_challenge))) = Some (s2, [Inr (Step_Send f2)])"
    "dx_method s2 = m2" "dx_state s2 = Dx_Running" "dx_answered s2 = Some 2"
    using toy_dx_request[OF s1(3) _ len(1), of 2 m2 r2] s1 st by auto
  obtain s3 f3 where s3: "?step s2 (?i 3 (toy_inner (26 # toy_success))) = Some (s3, [Inr (Step_Send f3)])"
    "dx_method s3 = m3" "dx_state s3 = Dx_Running" "dx_answered s3 = Some 3"
    using toy_dx_request[OF s2(3) _ len(2), of 3 m3 r3] s2 st by auto
  obtain s4 f4 where s4: "?step s3 (?i 4 (toy_inner (33 # result_tlv 1))) = Some (s4, [Inr (Step_Send f4)])"
    "dx_method s4 = m4" "dx_state s4 = Dx_Running"
    using toy_dx_request[OF s3(3) _ len(3), of 4 m4 r4] s3 st by auto
  have run: "\<exists>out. run_machine ?step (dx_new [97] toy_peap) [?i 1 [0], ?i 2 (toy_inner (26 # toy_challenge)),
      ?i 3 (toy_inner (26 # toy_success)), ?i 4 (toy_inner (33 # result_tlv 1))] = Some (s4, out)"
    using s1(1) s2(1) s3(1) s4(1) by simp
  obtain e where "eapol_parse (toy_frame (toy_eap 3 5 [])) = Inr e" "ea_packet_type e = Pt_Eap"
    "EAP_HDR_LEN \<le> length (ea_body e)"
    "eap_parse (ea_body e) = Inr \<lparr>ep_code = Ec_Success, ep_identifier = 5, ep_data = []\<rparr>"
    by (rule toy_frame_parse[of "[]" 3 Ec_Success 5]) (simp_all add: eap_code_from_u8_def)
  then obtain s5 where s5: "dx_frame (peap_ops toy_tls_ops toy_ms) s4 (toy_frame (toy_eap 3 5 []))
      = Some (s5, Inr (Step_Done (replicate 32 7)))"
    using s4 st(7)
    by (auto simp: dx_frame_def dx_inner_def dx_on_eap_def peap_ops_def pmk_from_msk_def toy_key_def Let_def)
  have "pe_fresh toy_tls_ops [117] [112] (replicate 16 9) (dx_method (dx_new [97] toy_peap))"
    using toy_fresh by (simp add: dx_new_def)
  from run obtain out where r: "run_machine ?step (dx_new [97] toy_peap)
      [?i 1 [0], ?i 2 (toy_inner (26 # toy_challenge)), ?i 3 (toy_inner (26 # toy_success)),
       ?i 4 (toy_inner (33 # result_tlv 1))] = Some (s4, out)" ..
  from dot1x_peap_key[OF \<open>pe_fresh _ _ _ _ (dx_method (dx_new [97] toy_peap))\<close> r s5] r s5
  show ?thesis by blast
qed

end
