(* ===== verification/Timers.thy ===== *)
theory Timers
  imports Caw_Prelude
begin

text \<open>
  The daemon's timers (\<^verbatim>\<open>src/crates/cawd/src/timers.rs\<close>): the wheel of pending deadlines and the value
  \<^verbatim>\<open>TimerFd::arm\<close> gives the kernel. An \<^verbatim>\<open>Instant\<close> and a \<^verbatim>\<open>Duration\<close> are natural numbers of nanoseconds;
  the overflow of \<^verbatim>\<open>now + delay\<close>, some 584 years out, is not modelled.

  The wheel refines a finite map from keys to deadlines, which is all its clients use:
  \<open>deadline_wheel\<close> is that interface.
\<close>

record 'k timer_entry =
  te_key :: 'k
  te_at :: nat

type_synonym 'k timers = "'k timer_entry list"

definition timers_new :: "'k timers" where
  "timers_new = []"

primrec timers_put :: "'k \<Rightarrow> nat \<Rightarrow> 'k timers \<Rightarrow> 'k timers" where
  "timers_put k at [] = [\<lparr>te_key = k, te_at = at\<rparr>]"
| "timers_put k at (e # es) = (if te_key e = k then e\<lparr>te_at := at\<rparr> # es else e # timers_put k at es)"

definition timers_arm :: "'k \<Rightarrow> nat \<Rightarrow> nat \<Rightarrow> 'k timers \<Rightarrow> 'k timers" where
  "timers_arm k delay now es = timers_put k (now + delay) es"

definition timers_cancel :: "'k \<Rightarrow> 'k timers \<Rightarrow> 'k timers" where
  "timers_cancel k es = filter (\<lambda>e. te_key e \<noteq> k) es"

definition timers_cancel_if :: "('k \<Rightarrow> bool) \<Rightarrow> 'k timers \<Rightarrow> 'k timers" where
  "timers_cancel_if matches es = filter (\<lambda>e. \<not> matches (te_key e)) es"

definition next_deadline :: "'k timers \<Rightarrow> nat option" where
  "next_deadline es = min_by_key id (map te_at es)"

definition timers_expired :: "nat \<Rightarrow> 'k timers \<Rightarrow> 'k list \<times> 'k timers" where
  "timers_expired now es =
     (map te_key (sort_key te_at (filter (\<lambda>e. te_at e \<le> now) es)), filter (\<lambda>e. now < te_at e) es)"

text \<open>The seconds and nanoseconds of \<^verbatim>\<open>it_value\<close>; both zero disarms the descriptor.\<close>

definition timerfd_value :: "nat option \<Rightarrow> nat \<times> nat" where
  "timerfd_value delay =
     (case delay of
        None \<Rightarrow> (0, 0)
      | Some d \<Rightarrow> if d = 0 then (0, 1) else (d div 1000000000, d mod 1000000000))"

section \<open>The wheel as a map\<close>

definition deadline :: "'k timers \<Rightarrow> 'k \<Rightarrow> nat option" where
  "deadline es k = map_option te_at (find (\<lambda>e. te_key e = k) es)"

locale deadline_wheel =
  fixes arm :: "'k \<Rightarrow> nat \<Rightarrow> nat \<Rightarrow> 'w \<Rightarrow> 'w"
    and cancel_if :: "('k \<Rightarrow> bool) \<Rightarrow> 'w \<Rightarrow> 'w"
    and due :: "'w \<Rightarrow> 'k \<Rightarrow> nat option"
  assumes due_arm: "due (arm k d now w) = (due w)(k \<mapsto> now + d)"
    and due_cancel_if: "due (cancel_if P w) j = (if P j then None else due w j)"
begin

definition running :: "'w \<Rightarrow> 'k set" where
  "running w = dom (due w)"

lemma running_arm: "running (arm k d now w) = insert k (running w)"
  by (auto simp: running_def due_arm)

lemma running_cancel_if: "running (cancel_if P w) = {k \<in> running w. \<not> P k}"
  by (auto simp: running_def due_cancel_if dom_def)

lemma rearm: "due (arm k d' now' (arm k d now w)) = due (arm k d' now' w)"
  by (simp add: due_arm)

end

lemma deadline_new [simp]: "deadline timers_new = Map.empty"
  by (auto simp: deadline_def timers_new_def)

lemma deadline_put: "deadline (timers_put k at es) = (deadline es)(k \<mapsto> at)"
  by (induction es) (auto simp: deadline_def fun_eq_iff)

lemma deadline_filter: "deadline (filter (\<lambda>e. \<not> P (te_key e)) es) j = (if P j then None else deadline es j)"
  by (induction es) (auto simp: deadline_def)

interpretation wheel: deadline_wheel timers_arm timers_cancel_if deadline
  by unfold_locales (simp_all add: timers_arm_def deadline_put timers_cancel_if_def deadline_filter)

lemma timers_cancel_eq: "timers_cancel k = timers_cancel_if (\<lambda>j. j = k)"
  by (simp add: timers_cancel_def timers_cancel_if_def fun_eq_iff)

abbreviation running :: "'k timers \<Rightarrow> 'k set" where
  "running \<equiv> wheel.running"

lemma running_new [simp]: "running timers_new = {}"
  by (simp add: wheel.running_def)

lemma running_cancel: "running (timers_cancel k es) = running es - {k}"
  by (auto simp: timers_cancel_eq wheel.running_cancel_if)

lemma running_keys: "running es = te_key ` set es"
  by (auto simp: wheel.running_def deadline_def dom_def find_None image_iff find_None_iff2)

section \<open>One entry per key\<close>

definition timers_ok :: "'k timers \<Rightarrow> bool" where
  "timers_ok es \<longleftrightarrow> distinct (map te_key es)"

lemma keys_put: "te_key ` set (timers_put k at es) = insert k (te_key ` set es)"
  by (induction es) auto

lemma timers_ok_new [simp]: "timers_ok timers_new"
  by (simp add: timers_ok_def timers_new_def)

lemma timers_ok_arm: "timers_ok es \<Longrightarrow> timers_ok (timers_arm k d now es)"
proof (induction es)
  case (Cons e es)
  then show ?case by (auto simp: timers_ok_def timers_arm_def keys_put)
qed (simp add: timers_ok_def timers_arm_def)

lemma timers_ok_filter: "timers_ok es \<Longrightarrow> timers_ok (filter P es)"
  by (simp add: timers_ok_def distinct_map_filter)

lemma deadline_iff: "timers_ok es \<Longrightarrow> deadline es k = Some t \<longleftrightarrow> (\<exists>e \<in> set es. te_key e = k \<and> te_at e = t)"
  by (induction es) (auto simp: deadline_def timers_ok_def image_iff)

lemma next_deadline_least: "next_deadline es = Some t \<Longrightarrow> e \<in> set es \<Longrightarrow> t \<le> te_at e"
  using min_by_key_min[of id "map te_at es" t "te_at e"] by (simp add: next_deadline_def)

lemma next_deadline_in: "next_deadline es = Some t \<Longrightarrow> \<exists>e \<in> set es. te_at e = t"
  using min_by_key_in[of id "map te_at es" t] by (auto simp: next_deadline_def)

section \<open>Properties\<close>

lemma timers_expired_spec:
  assumes "timers_ok es" "timers_expired now es = (due, rest)"
  shows "set due = {k. \<exists>t. deadline es k = Some t \<and> t \<le> now} \<and> distinct due \<and>
    sorted (map (\<lambda>k. the (deadline es k)) due) \<and> timers_ok rest \<and>
    (\<forall>k. deadline rest k = (case deadline es k of None \<Rightarrow> None | Some t \<Rightarrow> if t \<le> now then None else Some t)) \<and>
    (\<forall>t. next_deadline rest = Some t \<longrightarrow> now < t)"
proof (intro conjI allI impI)
  have due: "due = map te_key (sort_key te_at (filter (\<lambda>e. te_at e \<le> now) es))"
    and rest: "rest = filter (\<lambda>e. now < te_at e) es"
    using assms(2) by (auto simp: timers_expired_def)
  show "set due = {k. \<exists>t. deadline es k = Some t \<and> t \<le> now}"
    using assms(1) by (auto simp: due deadline_iff)
  show ok: "timers_ok rest" using assms(1) by (simp add: rest timers_ok_filter)
  have "distinct (map te_key (filter (\<lambda>e. te_at e \<le> now) es))"
    using timers_ok_filter[OF assms(1), of "\<lambda>e. te_at e \<le> now"] by (simp add: timers_ok_def)
  then show "distinct due" by (auto simp: due distinct_map)
  have at: "the (deadline es (te_key e)) = te_at e" if "e \<in> set es" for e
    using deadline_iff[OF assms(1), of "te_key e" "te_at e"] that by auto
  then have "map (\<lambda>k. the (deadline es k)) due = map te_at (sort_key te_at (filter (\<lambda>e. te_at e \<le> now) es))"
    by (simp add: due)
  then show "sorted (map (\<lambda>k. the (deadline es k)) due)" by simp
  fix k
  have iff: "deadline rest k = Some t \<longleftrightarrow> deadline es k = Some t \<and> now < t" for t
    using deadline_iff[OF ok] deadline_iff[OF assms(1)] by (auto simp: rest)
  show "deadline rest k = (case deadline es k of None \<Rightarrow> None | Some t \<Rightarrow> if t \<le> now then None else Some t)"
  proof (cases "deadline es k")
    case None
    then show ?thesis using iff by (metis not_None_eq option.case(1))
  next
    case (Some t)
    show ?thesis
    proof (cases "t \<le> now")
      case True
      then have "deadline rest k \<noteq> Some u" for u using iff[of u] Some by simp
      then have "deadline rest k = None" by blast
      then show ?thesis using Some True by simp
    next
      case False
      then have "deadline rest k = Some t" using iff[of t] Some by simp
      then show ?thesis using Some False by simp
    qed
  qed
next
  fix t
  assume "next_deadline rest = Some t"
  then show "now < t" using assms(2) next_deadline_in[of rest t] by (auto simp: timers_expired_def)
qed

text \<open>
  Taking the expired timers returns exactly the keys whose deadline has passed, each once, in
  the order of their deadlines; every other key keeps its deadline, and none of the rest is due.
\<close>

theorem timers_expire:
  assumes "timers_ok es" "timers_expired now es = (due, rest)"
  shows "set due = {k. \<exists>t. deadline es k = Some t \<and> t \<le> now} \<and> distinct due \<and>
    sorted (map (\<lambda>k. the (deadline es k)) due) \<and> timers_ok rest \<and>
    (\<forall>k. deadline rest k = (case deadline es k of None \<Rightarrow> None | Some t \<Rightarrow> if t \<le> now then None else Some t)) \<and>
    (\<forall>t. next_deadline rest = Some t \<longrightarrow> now < t)"
  by (rule timers_expired_spec[OF assms])

theorem timers_expire_witness:
  "timers_expired 5 (timers_arm (3 :: nat) 60 0 (timers_arm 2 1 0 (timers_arm 1 3 0 timers_new))) = ([2, 1], [\<lparr>te_key = 3, te_at = 60\<rparr>]) \<and>
   deadline [\<lparr>te_key = 3 :: nat, te_at = 60\<rparr>] 3 = Some 60"
proof -
  let ?es = "timers_arm (3 :: nat) 60 0 (timers_arm 2 1 0 (timers_arm 1 3 0 timers_new))"
  have e: "timers_expired 5 ?es = ([2, 1], [\<lparr>te_key = 3, te_at = 60\<rparr>])"
    by (simp add: timers_expired_def timers_arm_def timers_new_def)
  have ok: "timers_ok ?es" by (simp add: timers_ok_arm)
  have "\<forall>k. deadline [\<lparr>te_key = 3, te_at = 60\<rparr>] k = (case deadline ?es k of None \<Rightarrow> None | Some t \<Rightarrow> if t \<le> 5 then None else Some t)"
    using timers_expire[OF ok e] by blast
  moreover have "deadline ?es 3 = Some 60" by (simp add: wheel.due_arm)
  ultimately show ?thesis using e by simp
qed

text \<open>A deadline never disarms the descriptor by accident, and never fires before its time.\<close>

lemma timerfd_value_armed:
  "timerfd_value (Some d) \<noteq> (0, 0)"
  "d \<le> fst (timerfd_value (Some d)) * 1000000000 + snd (timerfd_value (Some d))"
  by (auto simp: timerfd_value_def)

end
