(* ===== verification/Ipc.thy ===== *)
theory Ipc
  imports Caw_Prelude
begin

text \<open>
  Newline-delimited framing on the daemon's socket: \<^verbatim>\<open>Decoder\<close> of \<^verbatim>\<open>src/crates/caw-ipc/src/frame.rs\<close> and,
  of \<^verbatim>\<open>src/crates/cawd/src/ipc.rs\<close>, the decode loop of \<^verbatim>\<open>Server::read\<close> and the outbox of a client.

  The JSON itself is serde's: \<open>parse\<close> is \<^verbatim>\<open>serde_json::from_slice\<close>, an argument. The bytes a socket
  reads and how much of a write it takes are arguments too.
\<close>

section \<open>The decoder\<close>

definition MAX_LINE :: nat where "MAX_LINE = 2 ^ 20"

definition NEWLINE :: u8 where "NEWLINE = 10"

record decoder =
  de_buf :: bytes
  de_limit :: nat

definition decoder_with_limit :: "nat \<Rightarrow> decoder" where
  "decoder_with_limit limit = \<lparr>de_buf = [], de_limit = limit\<rparr>"

definition decoder_new :: decoder where
  "decoder_new = decoder_with_limit MAX_LINE"

definition decoder_extend :: "bytes \<Rightarrow> decoder \<Rightarrow> decoder" where
  "decoder_extend chunk d = d\<lparr>de_buf := de_buf d @ chunk\<rparr>"

definition decoder_pending :: "decoder \<Rightarrow> nat" where
  "decoder_pending d = length (de_buf d)"

definition is_ascii_whitespace :: "u8 \<Rightarrow> bool" where
  "is_ascii_whitespace b \<longleftrightarrow> b = 32 \<or> b = 9 \<or> b = 10 \<or> b = 12 \<or> b = 13"

text \<open>The line in front of a newline, without the carriage return of a CRLF.\<close>

definition strip_cr :: "bytes \<Rightarrow> bytes" where
  "strip_cr line = (if line \<noteq> [] \<and> List.last line = 13 then butlast line else line)"

datatype frame_error = Fe_Json | Fe_TooLong

lemma tl_dropWhile_less: "x \<in> set xs \<Longrightarrow> length (tl (dropWhile (\<lambda>b. b \<noteq> x) xs)) < length xs"
proof -
  assume "x \<in> set xs"
  then have "0 < length xs" by auto
  then show ?thesis using length_dropWhile_le[of "\<lambda>b. b \<noteq> x" xs] unfolding length_tl by linarith
qed

text \<open>
  \<^verbatim>\<open>Decoder::next\<close>, which loops over blank lines: the buffer is the position of the loop.
\<close>

function decoder_next :: "(bytes \<Rightarrow> 'a option) \<Rightarrow> decoder \<Rightarrow> decoder \<times> (frame_error + 'a) option" where
  "decoder_next parse d =
     (if NEWLINE \<notin> set (de_buf d) then
        (if de_limit d < length (de_buf d) then (d\<lparr>de_buf := []\<rparr>, Some (Inl Fe_TooLong)) else (d, None))
      else
        (let line = strip_cr (takeWhile (\<lambda>b. b \<noteq> NEWLINE) (de_buf d));
             d' = d\<lparr>de_buf := tl (dropWhile (\<lambda>b. b \<noteq> NEWLINE) (de_buf d))\<rparr>
         in if list_all is_ascii_whitespace line then decoder_next parse d'
            else (d', Some (case parse line of None \<Rightarrow> Inl Fe_Json | Some x \<Rightarrow> Inr x))))"
  by pat_completeness auto

termination
  by (relation "measure (\<lambda>(_, d). length (de_buf d))") (simp_all add: tl_dropWhile_less del: length_tl)

declare decoder_next.simps [simp del]

lemma decoder_next_shrinks:
  "decoder_next parse d = (d', Some r) \<Longrightarrow> r \<noteq> Inl Fe_TooLong \<Longrightarrow>
     length (de_buf d') < length (de_buf d)"
proof (induction parse d rule: decoder_next.induct)
  case (1 parse d)
  have less: "NEWLINE \<in> set (de_buf d) \<Longrightarrow>
      length (tl (dropWhile (\<lambda>b. b \<noteq> NEWLINE) (de_buf d))) < length (de_buf d)"
    by (rule tl_dropWhile_less)
  show ?case
    using 1 less by (subst (asm) decoder_next.simps) (fastforce simp: Let_def split: if_splits)
qed

section \<open>A client of the server\<close>

definition MAX_OUTBOX :: nat where "MAX_OUTBOX = 2 ^ 20"

record client =
  cl_id :: u64
  cl_decoder :: decoder
  cl_out :: bytes
  cl_sent :: nat
  cl_closed :: bool

text \<open>
  The decode loop of \<^verbatim>\<open>Server::read\<close>: the requests, and the refusals to answer, in order. A line
  that is too long ends it and closes the client.
\<close>

function client_decode ::
  "(bytes \<Rightarrow> 'a option) \<Rightarrow> client \<Rightarrow> client \<times> 'a list \<times> frame_error list" where
  "client_decode parse c =
     (case decoder_next parse (cl_decoder c) of
        (d, None) \<Rightarrow> (c\<lparr>cl_decoder := d\<rparr>, [], [])
      | (d, Some (Inr request)) \<Rightarrow>
          (case client_decode parse (c\<lparr>cl_decoder := d\<rparr>) of
             (c', requests, refusals) \<Rightarrow> (c', request # requests, refusals))
      | (d, Some (Inl Fe_TooLong)) \<Rightarrow> (c\<lparr>cl_decoder := d, cl_closed := True\<rparr>, [], [Fe_TooLong])
      | (d, Some (Inl Fe_Json)) \<Rightarrow>
          (case client_decode parse (c\<lparr>cl_decoder := d\<rparr>) of
             (c', requests, refusals) \<Rightarrow> (c', requests, Fe_Json # refusals)))"
  by pat_completeness auto

termination
  by (relation "measure (\<lambda>(_, c). length (de_buf (cl_decoder c)))")
    (auto dest: decoder_next_shrinks[OF sym])

declare client_decode.simps [simp del]

text \<open>What one \<^verbatim>\<open>read\<close> of the socket brings: \<open>None\<close> is end of stream or an error.\<close>

primrec client_fill :: "bytes option list \<Rightarrow> client \<Rightarrow> client" where
  "client_fill [] c = c"
| "client_fill (chunk # rest) c =
     (case chunk of
        None \<Rightarrow> c\<lparr>cl_closed := True\<rparr>
      | Some bs \<Rightarrow> client_fill rest (c\<lparr>cl_decoder := decoder_extend bs (cl_decoder c)\<rparr>))"

definition client_read ::
  "(bytes \<Rightarrow> 'a option) \<Rightarrow> bytes option list \<Rightarrow> client \<Rightarrow> client \<times> 'a list \<times> frame_error list" where
  "client_read parse chunks c = client_decode parse (client_fill chunks c)"

text \<open>
  What the socket does with a write: takes some bytes, would block (an interrupted call is
  retried, so it has no outcome here), or fails.
\<close>

datatype write_outcome = Wo_Sent nat | Wo_Again | Wo_Failed

definition has_pending_output :: "client \<Rightarrow> bool" where
  "has_pending_output c \<longleftrightarrow> cl_sent c < length (cl_out c)"

primrec client_drain :: "write_outcome list \<Rightarrow> client \<Rightarrow> client option" where
  "client_drain [] c = Some c"
| "client_drain (outcome # rest) c =
     (if \<not> has_pending_output c then Some c
      else
        (case outcome of
           Wo_Sent n \<Rightarrow> client_drain rest (c\<lparr>cl_sent := cl_sent c + n\<rparr>)
         | Wo_Again \<Rightarrow> Some c
         | Wo_Failed \<Rightarrow> None))"

definition client_flush :: "write_outcome list \<Rightarrow> client \<Rightarrow> client" where
  "client_flush outcomes c =
     (case client_drain outcomes c of
        None \<Rightarrow> c\<lparr>cl_closed := True, cl_out := [], cl_sent := 0\<rparr>
      | Some c \<Rightarrow>
          if cl_sent c = length (cl_out c) then c\<lparr>cl_out := [], cl_sent := 0\<rparr>
          else if MAX_OUTBOX < length (cl_out c) - cl_sent c then
            c\<lparr>cl_closed := True, cl_out := [], cl_sent := 0\<rparr>
          else c)"

definition client_send :: "bytes option \<Rightarrow> write_outcome list \<Rightarrow> client \<Rightarrow> client" where
  "client_send encoded outcomes c =
     (case encoded of
        None \<Rightarrow> c
      | Some bs \<Rightarrow> client_flush outcomes (c\<lparr>cl_out := cl_out c @ bs\<rparr>))"

definition client_keep :: "client \<Rightarrow> bool" where
  "client_keep c \<longleftrightarrow> \<not> cl_closed c \<or> has_pending_output c"

section \<open>The server\<close>

definition server_find :: "u64 \<Rightarrow> client list \<Rightarrow> client option" where
  "server_find i cs = find (\<lambda>c. cl_id c = i) cs"

definition server_close :: "u64 \<Rightarrow> client list \<Rightarrow> client list" where
  "server_close i cs = map (\<lambda>c. if cl_id c = i then c\<lparr>cl_closed := True\<rparr> else c) cs"

definition server_reap :: "client list \<Rightarrow> client list \<times> u64 list" where
  "server_reap cs = (filter client_keep cs, map cl_id (filter (\<lambda>c. \<not> client_keep c) cs))"

section \<open>Properties\<close>

primrec client_reads :: "(bytes \<Rightarrow> 'a option) \<Rightarrow> bytes list \<Rightarrow> client \<Rightarrow> client \<times> 'a list \<times> frame_error list" where
  "client_reads parse [] c = (c, [], [])"
| "client_reads parse (chunk # rest) c =
     (case client_read parse [Some chunk] c of
        (c1, rq1, rf1) \<Rightarrow>
          (case client_reads parse rest c1 of (c2, rq2, rf2) \<Rightarrow> (c2, rq1 @ rq2, rf1 @ rf2)))"

text \<open>
  What the framing relies on in a JSON encoder: its output parses back, has no newline, is not
  blank and does not end in a carriage return.
\<close>

definition line_codec :: "('a \<Rightarrow> bytes) \<Rightarrow> (bytes \<Rightarrow> 'a option) \<Rightarrow> bool" where
  "line_codec enc parse \<longleftrightarrow>
     (\<forall>m. parse (enc m) = Some m \<and> NEWLINE \<notin> set (enc m) \<and> \<not> list_all is_ascii_whitespace (enc m) \<and>
        List.last (enc m) \<noteq> 13)"

definition wire :: "('a \<Rightarrow> bytes) \<Rightarrow> 'a list \<Rightarrow> bytes" where
  "wire enc ms = concat (map (\<lambda>m. enc m @ [NEWLINE]) ms)"

lemma wire_simps [simp]: "wire enc [] = []" "wire enc (m # ms) = enc m @ NEWLINE # wire enc ms"
  by (simp_all add: wire_def)

lemma takeWhile_line: "b \<notin> set xs \<Longrightarrow> takeWhile (\<lambda>c. c \<noteq> b) (xs @ b # ys) = xs"
  by (induction xs) auto

lemma dropWhile_line: "b \<notin> set xs \<Longrightarrow> dropWhile (\<lambda>c. c \<noteq> b) (xs @ b # ys) = b # ys"
  by (induction xs) auto

lemma decoder_next_line:
  assumes "line_codec enc parse" "de_buf d = enc m @ NEWLINE # rest"
  shows "decoder_next parse d = (d\<lparr>de_buf := rest\<rparr>, Some (Inr m))"
proof -
  have m: "NEWLINE \<notin> set (enc m)" "strip_cr (enc m) = enc m" "\<not> list_all is_ascii_whitespace (enc m)"
      "parse (enc m) = Some m"
    using assms(1) by (auto simp: line_codec_def strip_cr_def)
  then show ?thesis
    by (subst decoder_next.simps) (simp add: assms(2) takeWhile_line dropWhile_line Let_def)
qed

lemma decoder_next_tail:
  "NEWLINE \<notin> set (de_buf d) \<Longrightarrow> length (de_buf d) \<le> de_limit d \<Longrightarrow> decoder_next parse d = (d, None)"
  by (subst decoder_next.simps) simp

lemma client_decode_wire:
  assumes "line_codec enc parse" "NEWLINE \<notin> set t" "length t \<le> de_limit (cl_decoder c)"
    "de_buf (cl_decoder c) = wire enc ms @ t"
  shows "client_decode parse c = (c\<lparr>cl_decoder := (cl_decoder c)\<lparr>de_buf := t\<rparr>\<rparr>, ms, [])"
  using assms(3,4)
proof (induction ms arbitrary: c)
  case Nil
  then have "decoder_next parse (cl_decoder c) = (cl_decoder c, None)"
    using decoder_next_tail[of "cl_decoder c" parse] assms(2) by simp
  moreover have "c\<lparr>cl_decoder := (cl_decoder c)\<lparr>de_buf := t\<rparr>\<rparr> = c" using Nil by (cases c) (cases "cl_decoder c", simp)
  moreover have "c\<lparr>cl_decoder := cl_decoder c\<rparr> = c" by (cases c) simp
  ultimately show ?case by (subst client_decode.simps) simp
next
  case (Cons m ms)
  have "decoder_next parse (cl_decoder c) = ((cl_decoder c)\<lparr>de_buf := wire enc ms @ t\<rparr>, Some (Inr m))"
    using decoder_next_line[OF assms(1)] Cons.prems by simp
  then show ?case using Cons.IH[of "c\<lparr>cl_decoder := (cl_decoder c)\<lparr>de_buf := wire enc ms @ t\<rparr>\<rparr>"] Cons.prems
    by (subst client_decode.simps) simp
qed

text \<open>A prefix of the wire is some whole messages and the beginning of the next.\<close>

lemma wire_prefix:
  assumes "line_codec enc parse" "p @ q = wire enc ms" "\<forall>m \<in> set ms. length (enc m) \<le> n"
  shows "\<exists>ms1 ms2 t. ms = ms1 @ ms2 \<and> p = wire enc ms1 @ t \<and> NEWLINE \<notin> set t \<and> length t \<le> n \<and>
    t @ q = wire enc ms2"
  using assms(2,3)
proof (induction ms arbitrary: p)
  case (Cons m ms)
  show ?case
  proof (cases "length p \<le> length (enc m)")
    case True
    have "p @ q = enc m @ NEWLINE # wire enc ms" using Cons.prems(1) by simp
    then have "p = take (length p) (enc m)" using True by (metis append_eq_append_conv_if append_take_drop_id)
    then have "set p \<subseteq> set (enc m)" by (metis set_take_subset)
    then have "NEWLINE \<notin> set p" using assms(1) by (auto simp: line_codec_def)
    moreover have "length p \<le> n" using True Cons.prems(2) by auto
    ultimately show ?thesis using Cons.prems(1) by (intro exI[of _ "[]"] exI[of _ "m # ms"] exI[of _ p]) simp
  next
    case False
    then obtain us where us: "p = enc m @ us" "us @ q = NEWLINE # wire enc ms"
      using Cons.prems(1) by (auto simp: append_eq_append_conv2 dest: arg_cong[where f = length])
    moreover have "us \<noteq> []" using False us(1) by auto
    ultimately obtain p' where p': "p = enc m @ NEWLINE # p'" "p' @ q = wire enc ms"
      by (cases us) auto
    then obtain ms1 ms2 t where "ms = ms1 @ ms2" "p' = wire enc ms1 @ t" "NEWLINE \<notin> set t" "length t \<le> n"
        "t @ q = wire enc ms2"
      using Cons.IH[of p'] Cons.prems(2) by auto
    then show ?thesis using p'(1) by (intro exI[of _ "m # ms1"] exI[of _ ms2] exI[of _ t]) simp
  qed
qed simp

lemma client_reads_from:
  assumes "line_codec enc parse" "de_buf (cl_decoder c) @ concat chunks = wire enc ms"
    "\<forall>m \<in> set ms. length (enc m) \<le> de_limit (cl_decoder c)" "NEWLINE \<notin> set (de_buf (cl_decoder c))"
  shows "client_reads parse chunks c = (c\<lparr>cl_decoder := (cl_decoder c)\<lparr>de_buf := []\<rparr>\<rparr>, ms, [])"
  using assms(2-)
proof (induction chunks arbitrary: c ms)
  case Nil
  then have "ms = []" by (cases ms) auto
  then show ?case using Nil by (cases c) (cases "cl_decoder c", simp)
next
  case (Cons chunk chunks)
  let ?d = "cl_decoder c"
  have "(de_buf ?d @ chunk) @ concat chunks = wire enc ms" using Cons.prems(1) by simp
  then obtain ms1 ms2 t where p: "ms = ms1 @ ms2" "de_buf ?d @ chunk = wire enc ms1 @ t" "NEWLINE \<notin> set t"
      "length t \<le> de_limit ?d" "t @ concat chunks = wire enc ms2"
    using wire_prefix[OF assms(1) _ Cons.prems(2)] by blast
  let ?c1 = "c\<lparr>cl_decoder := ?d\<lparr>de_buf := t\<rparr>\<rparr>"
  have "client_read parse [Some chunk] c = (?c1, ms1, [])"
    using client_decode_wire[OF assms(1) p(3), of "c\<lparr>cl_decoder := decoder_extend chunk ?d\<rparr>" ms1] p(2,4)
    by (simp add: client_read_def decoder_extend_def)
  moreover have "client_reads parse chunks ?c1 = (?c1\<lparr>cl_decoder := ?d\<lparr>de_buf := []\<rparr>\<rparr>, ms2, [])"
    using Cons.IH[of ?c1 ms2] p(1,3,5) Cons.prems(2) by simp
  ultimately show ?case using p(1) by simp
qed

text \<open>
  However the stream is cut into reads, a client's requests come out exactly as they were sent,
  in order, with nothing refused and nothing left over, as long as each fits the line limit.
\<close>

theorem ipc_chunking:
  assumes "line_codec enc parse" "concat chunks = wire enc ms" "\<forall>m \<in> set ms. length (enc m) \<le> limit"
    "cl_decoder c = decoder_with_limit limit"
  shows "client_reads parse chunks c = (c, ms, [])"
  using client_reads_from[OF assms(1), of c chunks ms] assms(2-)
  by (cases c) (simp add: decoder_with_limit_def)

definition example_client :: client where
  "example_client = \<lparr>cl_id = 1, cl_decoder = decoder_with_limit 8, cl_out = [], cl_sent = 0, cl_closed = False\<rparr>"

definition flag_line :: "bool \<Rightarrow> bytes" where
  "flag_line b = (if b then [49] else [48])"

definition flag_parse :: "bytes \<Rightarrow> bool option" where
  "flag_parse line = (if line = [49] then Some True else if line = [48] then Some False else None)"

theorem ipc_chunking_witness:
  "client_reads flag_parse [[49], [], [NEWLINE, 48, NEWLINE]] example_client = (example_client, [True, False], [])"
proof -
  have codec: "line_codec flag_line flag_parse"
    by (simp add: line_codec_def flag_line_def flag_parse_def is_ascii_whitespace_def NEWLINE_def)
  show ?thesis
    by (rule ipc_chunking[OF codec, of _ _ 8]) (simp_all add: flag_line_def example_client_def)
qed

text \<open>
  One read never leaves the decoder holding more than its limit, whatever the bytes and however
  they arrive; when they do not fit, the client is closed.
\<close>

lemma decoder_next_bound:
  assumes "decoder_next parse d = (d', r)"
  shows "de_limit d' = de_limit d \<and> (r = None \<longrightarrow> NEWLINE \<notin> set (de_buf d') \<and> length (de_buf d') \<le> de_limit d) \<and>
    (r = Some (Inl Fe_TooLong) \<longrightarrow> de_buf d' = [])"
  using assms
proof (induction parse d rule: decoder_next.induct)
  case (1 parse d)
  show ?case
  proof (cases "NEWLINE \<notin> set (de_buf d)")
    case True
    then show ?thesis using 1(2) by (subst (asm) decoder_next.simps) (auto split: if_splits)
  next
    case False
    let ?l = "strip_cr (takeWhile (\<lambda>b. b \<noteq> NEWLINE) (de_buf d))"
    let ?d = "d\<lparr>de_buf := tl (dropWhile (\<lambda>b. b \<noteq> NEWLINE) (de_buf d))\<rparr>"
    show ?thesis
    proof (cases "list_all is_ascii_whitespace ?l")
      case True
      then have "decoder_next parse ?d = (d', r)" using 1(2) False by (subst (asm) decoder_next.simps) (simp add: Let_def)
      then show ?thesis using 1(1)[OF _ refl refl True] False by simp
    next
      case blank: False
      then show ?thesis using 1(2) False by (subst (asm) decoder_next.simps) (auto simp: Let_def split: option.splits)
    qed
  qed
qed

lemma client_decode_bound:
  assumes "client_decode parse c = (c', rq, rf)"
  shows "length (de_buf (cl_decoder c')) \<le> de_limit (cl_decoder c) \<and> cl_out c' = cl_out c \<and>
    (Fe_TooLong \<in> set rf \<longrightarrow> cl_closed c')"
  using assms
proof (induction parse c arbitrary: rq rf rule: client_decode.induct)
  case (1 parse c)
  obtain d r where n: "decoder_next parse (cl_decoder c) = (d, r)" by fastforce
  note b = decoder_next_bound[OF n]
  show ?case
  proof (cases r)
    case None
    then show ?thesis using "1.prems" n b by (subst (asm) client_decode.simps) auto
  next
    case (Some x)
    show ?thesis
    proof (cases x)
      case (Inr q)
      then show ?thesis using "1.prems" n b "1.IH"(2)[OF n[symmetric] Some Inr] Some
        by (subst (asm) client_decode.simps) (auto split: prod.splits)
    next
      case (Inl e)
      then show ?thesis using "1.prems" n b "1.IH"(1)[OF n[symmetric] Some Inl] Some
        by (subst (asm) client_decode.simps, cases e) (auto split: prod.splits)
    qed
  qed
qed

text \<open>
  A client cannot make the daemon hold more than a megabyte of unfinished request, nor more than
  a megabyte of output it has not taken: past either it is closed.
\<close>

theorem ipc_bounded:
  "(client_read parse chunks c = (c', rq, rf) \<longrightarrow>
      decoder_pending (cl_decoder c') \<le> de_limit (cl_decoder (client_fill chunks c)) \<and>
      (Fe_TooLong \<in> set rf \<longrightarrow> cl_closed c')) \<and>
    length (cl_out (client_flush outcomes c)) - cl_sent (client_flush outcomes c) \<le> MAX_OUTBOX"
  using client_decode_bound[of parse "client_fill chunks c" c' rq rf]
  by (auto simp: client_read_def decoder_pending_def client_flush_def split: option.splits)

text \<open>
  What the bound does not cover: bytes already sent stay in the outbox until all of it is sent, so
  a client that always leaves one byte unread makes it grow without bound and is never dropped.
\<close>

lemma outbox_grows:
  "\<exists>sends. let c = fold (\<lambda>(bs, outcomes). client_send (Some bs) outcomes) sends example_client
     in n \<le> length (cl_out c) \<and> \<not> cl_closed c"
proof -
  have step: "client_send (Some [0, 0]) [Wo_Sent 2, Wo_Again] c = c\<lparr>cl_out := cl_out c @ [0, 0], cl_sent := cl_sent c + 2\<rparr>"
    if "length (cl_out c) = cl_sent c + 1" for c
    using that by (simp add: client_send_def client_flush_def has_pending_output_def MAX_OUTBOX_def)
  have "\<exists>c. fold (\<lambda>(bs, outcomes). client_send (Some bs) outcomes) (replicate k ([0, 0] :: bytes, [Wo_Sent 2, Wo_Again])) c0 = c \<and>
      length (cl_out c) = length (cl_out c0) + 2 * k \<and> \<not> cl_closed c"
    if "length (cl_out c0) = cl_sent c0 + 1" "\<not> cl_closed c0" for k c0
    using that
  proof (induction k arbitrary: c0)
    case (Suc k)
    then show ?case using Suc.IH[of "c0\<lparr>cl_out := cl_out c0 @ [0, 0], cl_sent := cl_sent c0 + 2\<rparr>"] step[of c0] by simp
  qed simp
  note grow = this
  let ?c0 = "client_send (Some [0]) [Wo_Again] example_client"
  have "length (cl_out ?c0) = cl_sent ?c0 + 1" "\<not> cl_closed ?c0"
    by (simp_all add: client_send_def client_flush_def has_pending_output_def example_client_def MAX_OUTBOX_def)
  from grow[OF this, of n] show ?thesis
    by (intro exI[of _ "([0], [Wo_Again]) # replicate n ([0, 0], [Wo_Sent 2, Wo_Again])"]) (auto simp: Let_def)
qed

end
