(* ===== verification/Peer_Auth.thy ===== *)
theory Peer_Auth
  imports Caw_Prelude
begin

text \<open>
  Who may ask the daemon for what (\<^verbatim>\<open>src/crates/cawd/src/auth.rs\<close>): the lookups in \<^verbatim>\<open>/etc/group\<close> and
  \<^verbatim>\<open>/etc/passwd\<close> and the decision \<^verbatim>\<open>Database::may_change_state\<close>. A \<^verbatim>\<open>str\<close> is the list of its code
  points. Of the standard library, \<^verbatim>\<open>str::lines\<close>, \<^verbatim>\<open>split\<close>, \<^verbatim>\<open>trim\<close> and \<^verbatim>\<open>str::parse::<u32>\<close> are modelled.
\<close>

type_synonym ustring = "nat list"

section \<open>The standard library\<close>

definition is_whitespace :: "nat \<Rightarrow> bool" where
  "is_whitespace c \<longleftrightarrow> (9 \<le> c \<and> c \<le> 13) \<or> c = 0x20 \<or> c = 0x85 \<or> c = 0xA0 \<or> c = 0x1680 \<or>
     (0x2000 \<le> c \<and> c \<le> 0x200A) \<or> c = 0x2028 \<or> c = 0x2029 \<or> c = 0x202F \<or> c = 0x205F \<or> c = 0x3000"

definition trim_end_of :: "(nat \<Rightarrow> bool) \<Rightarrow> ustring \<Rightarrow> ustring" where
  "trim_end_of P s = rev (dropWhile P (rev s))"

definition trim :: "ustring \<Rightarrow> ustring" where
  "trim s = trim_end_of is_whitespace (dropWhile is_whitespace s)"

primrec split_on :: "nat \<Rightarrow> ustring \<Rightarrow> ustring list" where
  "split_on d [] = [[]]"
| "split_on d (c # cs) =
     (if c = d then [] # split_on d cs else (c # hd (split_on d cs)) # tl (split_on d cs))"

text \<open>
  \<^verbatim>\<open>str::lines\<close>: every line loses its newline and a carriage return before it; what follows the last
  newline is a line, as it is, unless it is empty.
\<close>

definition text_lines :: "ustring \<Rightarrow> ustring list" where
  "text_lines s =
     (let ls = split_on 10 s
      in map (\<lambda>l. if l \<noteq> [] \<and> List.last l = 13 then butlast l else l) (butlast ls) @
         (if List.last ls = [] then [] else [List.last ls]))"

definition digit_of :: "nat \<Rightarrow> nat option" where
  "digit_of c = (if 48 \<le> c \<and> c \<le> 57 then Some (c - 48) else None)"

primrec digits_value :: "nat \<Rightarrow> ustring \<Rightarrow> nat option" where
  "digits_value acc [] = Some acc"
| "digits_value acc (c # cs) =
     (case digit_of c of
        None \<Rightarrow> None
      | Some d \<Rightarrow> if acc * 10 + d < 2 ^ 32 then digits_value (acc * 10 + d) cs else None)"

text \<open>\<^verbatim>\<open>str::parse::<u32>\<close>, which takes an optional plus sign and at least one digit.\<close>

definition parse_u32 :: "ustring \<Rightarrow> u32 option" where
  "parse_u32 s =
     (let digits = (case s of c # cs \<Rightarrow> if c = 43 \<and> cs \<noteq> [] then cs else s | [] \<Rightarrow> s)
      in if digits = [] then None else map_option of_nat (digits_value 0 digits))"

section \<open>The databases\<close>

record peer =
  pe_pid :: int
  pe_uid :: u32
  pe_gid :: u32

record group_entry =
  ge_gid :: u32
  ge_members :: "ustring list"

definition group_members :: "ustring list \<Rightarrow> ustring list" where
  "group_members remaining =
     (case remaining of
        [] \<Rightarrow> []
      | f # _ \<Rightarrow> filter (\<lambda>m. m \<noteq> []) (map trim (split_on 44 f)))"

text \<open>What one line of \<^verbatim>\<open>/etc/group\<close> contributes to the search for a name.\<close>

definition group_line :: "ustring \<Rightarrow> ustring \<Rightarrow> group_entry option" where
  "group_line name line0 =
     (let line = trim_end_of (\<lambda>c. c = 13 \<or> c = 10) line0
      in if line = [] \<or> hd line = 35 then None
         else
           (case split_on 58 line of
              group_name # passwd # gid # rest \<Rightarrow>
                if group_name \<noteq> name then None
                else
                  (case parse_u32 (trim gid) of
                     None \<Rightarrow> None
                   | Some gid \<Rightarrow> Some \<lparr>ge_gid = gid, ge_members = group_members rest\<rparr>)
            | _ \<Rightarrow> None))"

definition find_group :: "ustring \<Rightarrow> ustring \<Rightarrow> group_entry option" where
  "find_group contents name = find_map (group_line name) (text_lines contents)"

definition user_line :: "u32 \<Rightarrow> ustring \<Rightarrow> ustring option" where
  "user_line uid line =
     (if line = [] \<or> hd line = 35 then None
      else
        (case split_on 58 line of
           name # passwd # field_uid # rest \<Rightarrow>
             if parse_u32 (trim field_uid) = Some uid then Some name else None
         | _ \<Rightarrow> None))"

definition user_name :: "ustring \<Rightarrow> u32 \<Rightarrow> ustring option" where
  "user_name contents uid = find_map (user_line uid) (text_lines contents)"

record database =
  db_group :: ustring
  db_passwd :: ustring

text \<open>\<^verbatim>\<open>Database::from_paths\<close>: a file that cannot be read is empty.\<close>

definition database_from_paths :: "ustring option \<Rightarrow> ustring option \<Rightarrow> database" where
  "database_from_paths groups passwd =
     \<lparr>db_group = (case groups of None \<Rightarrow> [] | Some s \<Rightarrow> s),
      db_passwd = (case passwd of None \<Rightarrow> [] | Some s \<Rightarrow> s)\<rparr>"

definition may_change_state :: "database \<Rightarrow> peer \<Rightarrow> ustring \<Rightarrow> bool" where
  "may_change_state db peer group_name =
     (if pe_uid peer = 0 then True
      else
        (case find_group (db_group db) group_name of
           None \<Rightarrow> False
         | Some entry \<Rightarrow>
             if pe_gid peer = ge_gid entry then True
             else
               (case user_name (db_passwd db) (pe_uid peer) of
                  None \<Rightarrow> False
                | Some name \<Rightarrow> name \<in> set (ge_members entry))))"

section \<open>Properties\<close>

lemma text_lines_Nil [simp]: "text_lines [] = []"
  by (simp add: text_lines_def)

lemma group_line_SomeD:
  assumes "group_line name line = Some g"
  shows "\<exists>passwd gid rest. split_on 58 (trim_end_of (\<lambda>c. c = 13 \<or> c = 10) line) = name # passwd # gid # rest \<and>
    parse_u32 (trim gid) = Some (ge_gid g) \<and> ge_members g = group_members rest"
  using assms by (auto simp: group_line_def Let_def split: if_splits list.splits option.splits)

lemma user_line_SomeD:
  assumes "user_line uid line = Some name"
  shows "\<exists>passwd field rest. split_on 58 line = name # passwd # field # rest \<and> parse_u32 (trim field) = Some uid"
  using assms by (auto simp: user_line_def split: if_splits list.splits)

text \<open>
  C39. A peer that is not root is let through only on the word of a line of \<^verbatim>\<open>/etc/group\<close> that names the
  group and has a group id: either that id is the peer's own, or a line of \<^verbatim>\<open>/etc/passwd\<close> gives the
  peer's user id a name that the group's member list holds. Damaged lines grant nothing, and a
  database that could not be read grants nobody but root.
\<close>

theorem may_change_state_sound:
  "(may_change_state db p name \<and> pe_uid p \<noteq> 0 \<longrightarrow>
      (\<exists>line \<in> set (text_lines (db_group db)). \<exists>passwd gid rest g.
         split_on 58 (trim_end_of (\<lambda>c. c = 13 \<or> c = 10) line) = name # passwd # gid # rest \<and>
         parse_u32 (trim gid) = Some g \<and>
         (pe_gid p = g \<or>
          (\<exists>entry \<in> set (text_lines (db_passwd db)). \<exists>user passwd field rest'.
             split_on 58 entry = user # passwd # field # rest' \<and>
             parse_u32 (trim field) = Some (pe_uid p) \<and> user \<in> set (group_members rest))))) \<and>
    (may_change_state (database_from_paths None passwd_file) p name \<longleftrightarrow> pe_uid p = 0)"
proof (intro conjI impI)
  assume a: "may_change_state db p name \<and> pe_uid p \<noteq> 0"
  then obtain g where g: "find_group (db_group db) name = Some g"
      and ok: "pe_gid p = ge_gid g \<or> (\<exists>u. user_name (db_passwd db) (pe_uid p) = Some u \<and> u \<in> set (ge_members g))"
    by (auto simp: may_change_state_def split: option.splits if_splits)
  obtain line where line: "line \<in> set (text_lines (db_group db))" "group_line name line = Some g"
    using find_map_SomeD[OF g[unfolded find_group_def]] by blast
  then obtain passwd gid rest where l: "split_on 58 (trim_end_of (\<lambda>c. c = 13 \<or> c = 10) line) = name # passwd # gid # rest"
      "parse_u32 (trim gid) = Some (ge_gid g)" "ge_members g = group_members rest"
    using group_line_SomeD by blast
  have u: "\<exists>entry \<in> set (text_lines (db_passwd db)). \<exists>passwd field rest'.
      split_on 58 entry = u # passwd # field # rest' \<and> parse_u32 (trim field) = Some (pe_uid p)"
    if "user_name (db_passwd db) (pe_uid p) = Some u" for u
    using find_map_SomeD[OF that[unfolded user_name_def]] user_line_SomeD by blast
  have "pe_gid p = ge_gid g \<or> (\<exists>entry \<in> set (text_lines (db_passwd db)). \<exists>user passwd field rest'.
      split_on 58 entry = user # passwd # field # rest' \<and>
      parse_u32 (trim field) = Some (pe_uid p) \<and> user \<in> set (group_members rest))"
    using ok
  proof
    assume "\<exists>n. user_name (db_passwd db) (pe_uid p) = Some n \<and> n \<in> set (ge_members g)"
    then obtain n where n: "user_name (db_passwd db) (pe_uid p) = Some n" "n \<in> set (group_members rest)"
      using l(3) by auto
    show ?thesis using u[OF n(1)] n(2) by blast
  qed simp
  then show "\<exists>line \<in> set (text_lines (db_group db)). \<exists>passwd gid rest g.
         split_on 58 (trim_end_of (\<lambda>c. c = 13 \<or> c = 10) line) = name # passwd # gid # rest \<and>
         parse_u32 (trim gid) = Some g \<and>
         (pe_gid p = g \<or>
          (\<exists>entry \<in> set (text_lines (db_passwd db)). \<exists>user passwd field rest'.
             split_on 58 entry = user # passwd # field # rest' \<and>
             parse_u32 (trim field) = Some (pe_uid p) \<and> user \<in> set (group_members rest)))"
    using line(1) l(1,2) by blast
next
  show "may_change_state (database_from_paths None passwd_file) p name \<longleftrightarrow> pe_uid p = 0"
    by (simp add: may_change_state_def database_from_paths_def find_group_def)
qed

text \<open>A group file with one line \<^verbatim>\<open>c:x:5:a,b\<close> and a password file with one line \<^verbatim>\<open>b:x:7:\<close>.\<close>

definition example_db :: database where
  "example_db = \<lparr>db_group = [99, 58, 120, 58, 53, 58, 97, 44, 98, 10], db_passwd = [98, 58, 120, 58, 55, 58, 10]\<rparr>"

theorem may_change_state_sound_witness:
  "may_change_state example_db \<lparr>pe_pid = 1, pe_uid = 7, pe_gid = 7\<rparr> [99] \<and>
   (\<exists>line \<in> set (text_lines (db_group example_db)). \<exists>passwd gid rest.
      split_on 58 (trim_end_of (\<lambda>c. c = 13 \<or> c = 10) line) = [99] # passwd # gid # rest)"
proof -
  have lg: "text_lines (db_group example_db) = [[99, 58, 120, 58, 53, 58, 97, 44, 98]]"
    by (simp add: text_lines_def example_db_def)
  have lp: "text_lines (db_passwd example_db) = [[98, 58, 120, 58, 55, 58]]"
    by (simp add: text_lines_def example_db_def)
  have five: "parse_u32 [53] = Some 5" and seven: "parse_u32 [55] = Some 7"
    by (simp_all add: parse_u32_def digit_of_def)
  have tr: "trim [c] = [c]" if "48 \<le> c" "c \<le> 122" for c
    using that by (simp add: trim_def trim_end_of_def is_whitespace_def)
  have "group_line [99] [99, 58, 120, 58, 53, 58, 97, 44, 98] = Some \<lparr>ge_gid = 5, ge_members = [[97], [98]]\<rparr>"
    by (simp add: group_line_def trim_end_of_def tr five group_members_def)
  then have g: "find_group (db_group example_db) [99] = Some \<lparr>ge_gid = 5, ge_members = [[97], [98]]\<rparr>"
    by (simp add: find_group_def lg)
  have "user_line 7 [98, 58, 120, 58, 55, 58] = Some [98]" by (simp add: user_line_def tr seven)
  then have u: "user_name (db_passwd example_db) 7 = Some [98]" by (simp add: user_name_def lp)
  have a: "may_change_state example_db \<lparr>pe_pid = 1, pe_uid = 7, pe_gid = 7\<rparr> [99]"
    by (simp add: may_change_state_def g u)
  moreover have "pe_uid \<lparr>pe_pid = 1, pe_uid = 7, pe_gid = 7\<rparr> \<noteq> 0" by simp
  ultimately show ?thesis
    using may_change_state_sound[of example_db "\<lparr>pe_pid = 1, pe_uid = 7, pe_gid = 7\<rparr>" "[99]" None] by blast
qed

end
