(* ===== verification/Engine_Types.thy ===== *)
theory Engine_Types
  imports Conn Dhcp_Client Rust_Text Timers
begin

text \<open>
  The data of the daemon: the messages of its protocol (\<^verbatim>\<open>src/crates/caw-ipc/src/lib.rs\<close>), what it asks of
  the operating system, and the state of the engine and of the ports it acts through
  (\<^verbatim>\<open>src/crates/cawd/src/engine.rs\<close>, \<^verbatim>\<open>src/crates/cawd/src/reactor.rs\<close>).

  The kernel, the file system and the clock are the record \<open>sys\<close> over an abstract world \<open>'w\<close>: every
  call takes the world to a result and the next world, so nothing is assumed about what succeeds.
  The calls made and the messages sent to clients are kept, oldest first, in \<open>po_trace\<close>; log lines
  are left out, except the one that says the state machine did not settle.

  A reason that renders a failure keeps the failure, and an error of the system is the text the
  system gave for it. A \<^verbatim>\<open>String\<close> that came in as a request is its UTF-8.
\<close>

section \<open>The protocol\<close>

type_synonym client_id = u64

datatype reason = Re_Text string | Re_Failure failure

datatype secret_kind = Sk_Passphrase | Sk_Username | Sk_Password

datatype ipc_event = Ie_Scanning | Ie_Associating "bytes option" | Ie_Authenticating | Ie_Configuring
  | Ie_Connected | Ie_Failed reason | Ie_NeedSecret u64 bytes secret_kind

datatype ip_addr = Ip_V4 ipv4 | Ip_V6 bytes

text \<open>A port's summary keeps what the code renders in it: the hardware address and the addresses.\<close>

record port_summary =
  ps_name :: bytes
  ps_mac :: "bytes option"
  ps_up :: bool
  ps_carrier :: bool
  ps_wireless :: bool
  ps_addrs :: "(ip_addr \<times> u8) list"

record network_summary =
  ns_ssid :: bytes
  ns_bssid :: bytes
  ns_signal_dbm :: int
  ns_freq_mhz :: u32
  ns_security :: security
  ns_known :: bool

record connection_status =
  cst_port :: bytes
  cst_ssid :: "bytes option"
  cst_state :: conn_state
  cst_addrs :: "(ip_addr \<times> u8) list"

datatype ipc_response = Ir_Ok | Ir_Ports "port_summary list" | Ir_Networks "network_summary list"
  | Ir_Status connection_status | Ir_Error reason

datatype ipc_request = Rq_ListPorts | Rq_PortInfo bytes | Rq_PortUp bytes bool | Rq_Scan "bytes option"
  | Rq_Connect bytes "bytes option" | Rq_Disconnect bytes | Rq_Forget bytes | Rq_Status
  | Rq_Secret u64 bytes | Rq_Shutdown

definition is_state_changing :: "ipc_request \<Rightarrow> bool" where
  "is_state_changing r =
     (case r of
        Rq_ListPorts \<Rightarrow> False
      | Rq_PortInfo _ \<Rightarrow> False
      | Rq_Scan _ \<Rightarrow> False
      | Rq_Status \<Rightarrow> False
      | Rq_Secret _ _ \<Rightarrow> False
      | Rq_PortUp _ _ \<Rightarrow> True
      | Rq_Connect _ _ \<Rightarrow> True
      | Rq_Disconnect _ \<Rightarrow> True
      | Rq_Forget _ \<Rightarrow> True
      | Rq_Shutdown \<Rightarrow> True)"

section \<open>The operating system\<close>

datatype link_event = Lk_Changed u32 bool bool | Lk_Removed u32 | Lk_AddressChanged u32

record nl_connect =
  nc_ssid :: bytes
  nc_bssid :: "bytes option"
  nc_freq_mhz :: "u32 option"
  nc_auth_type :: u32
  nc_wpa_versions :: u32
  nc_pairwise_ciphers :: "u32 list"
  nc_group_cipher :: "u32 option"
  nc_akms :: "u32 list"
  nc_mfp :: "u32 option"
  nc_ies :: bytes

record nl_auth =
  na_ssid :: bytes
  na_bssid :: bytes
  na_freq_mhz :: u32
  na_auth_type :: u32
  na_data :: bytes

datatype syscall =
    K_TriggerScan u32
  | K_Connect u32 nl_connect
  | K_Associate u32 nl_connect
  | K_Authenticate u32 nl_auth
  | K_Disconnect u32 u16
  | K_NewPairwiseKey u32 bytes u32 bytes
  | K_NewGroupKey u32 u8 u32 bytes bytes
  | K_SetDefaultKey u32 u8
  | K_SetPowerSave u32 bool
  | K_EapolOpen u32
  | K_EapolSend bytes
  | K_AddBroadcastRoute u32
  | K_AddProbeRoute u32
  | K_DelProbeRoute u32
  | K_DelAddress u32 ipv4 u8
  | K_AddAddress u32 ipv4 u8
  | K_AddDefaultRoute u32 ipv4
  | K_SetUp u32 bool
  | K_DhcpOpen
  | K_DhcpBroadcast bytes
  | K_DhcpSendTo ipv4 bytes
  | K_SaveProfile profile
  | K_WriteResolver bytes

text \<open>An error of the system: the error number when the kernel answered with one, and its text.\<close>

datatype sys_error = Sys_Kernel int string | Sys_Other string

text \<open>The UTF-8 of a string as the characters of a message, and a number in decimal.\<close>

definition text_of :: "bytes \<Rightarrow> string" where
  "text_of bs = map (char_of \<circ> unat) bs"

fun show_nat :: "nat \<Rightarrow> string" where
  "show_nat n = (if n < 10 then [char_of (48 + n)] else show_nat (n div 10) @ [char_of (48 + n mod 10)])"

declare show_nat.simps [simp del]

definition show_ipv4 :: "ipv4 \<Rightarrow> string" where
  "show_ipv4 a =
     (case map (\<lambda>b. show_nat (unat b)) (u32_be a) of
        b # bs \<Rightarrow> b @ concat (map (\<lambda>d. CHR ''.'' # d) bs)
      | [] \<Rightarrow> [])"

definition sys_text :: "sys_error \<Rightarrow> string" where
  "sys_text e = (case e of Sys_Kernel _ s \<Rightarrow> s | Sys_Other s \<Rightarrow> s)"

record wiphy =
  wi_index :: u32
  wi_offloads_4way_psk :: bool
  wi_offloads_4way_1x :: bool
  wi_offloads_sae :: bool

record wl_interface =
  if_ifindex :: u32
  if_name :: bytes
  if_mac :: "bytes option"
  if_wiphy :: u32
  if_station :: bool

record net_link =
  nk_index :: u32
  nk_name :: bytes
  nk_mac :: "bytes option"
  nk_up :: bool
  nk_carrier :: bool
  nk_wireless :: bool

record net_address =
  nd_index :: u32
  nd_addr :: ip_addr
  nd_prefix_len :: u8

record 'w sys =
  sys_call :: "syscall \<Rightarrow> 'w \<Rightarrow> sys_error option \<times> 'w"
  sys_scan_results :: "u32 \<Rightarrow> 'w \<Rightarrow> (sys_error + bss list) \<times> 'w"
  sys_interfaces :: "'w \<Rightarrow> (sys_error + wl_interface list) \<times> 'w"
  sys_wiphys :: "'w \<Rightarrow> (sys_error + wiphy list) \<times> 'w"
  sys_links :: "'w \<Rightarrow> (sys_error + net_link list) \<times> 'w"
  sys_addresses :: "'w \<Rightarrow> (sys_error + net_address list) \<times> 'w"
  sys_load_profiles :: "'w \<Rightarrow> (string + profile list) \<times> 'w"
  sys_delete_profile :: "bytes \<Rightarrow> 'w \<Rightarrow> (string + bool) \<times> 'w"
  sys_new_xid :: "'w \<Rightarrow> (string + u32) \<times> 'w"
  sys_hostname :: "'w \<Rightarrow> bytes option \<times> 'w"
  sys_resolver_linked :: "'w \<Rightarrow> bool \<times> 'w"
  sys_rnd :: "'w \<Rightarrow> rnd \<times> 'w"
  sys_boottime :: "'w \<Rightarrow> nat \<times> 'w"
  sys_monotonic :: "'w \<Rightarrow> nat \<times> 'w"
  sys_databases :: "'w \<Rightarrow> (nat list option \<times> nat list option) \<times> 'w"

section \<open>The ports\<close>

datatype reactor_key = Key_Core timer_id | Key_Scan client_id | Key_Autoconnect | Key_Dhcp dhcp_timer

record dhcp_run =
  dr_machine :: dhcp4
  dr_ifindex :: u32
  dr_probe_route :: bool

datatype effect = Tr_Call syscall bool | Tr_Event client_id ipc_event
  | Tr_Response client_id ipc_response | Tr_Unsettled

record 'w ports =
  po_nl :: bool
  po_eapol :: "u32 option"
  po_rtnl :: bool
  po_dhcp :: "dhcp_run option"
  po_timers :: "reactor_key timers"
  po_now :: nat
  po_world :: 'w
  po_trace :: "effect list"

text \<open>A query takes the world on; a call is traced with whether it succeeded.\<close>

definition ask :: "('w \<Rightarrow> 'a \<times> 'w) \<Rightarrow> 'w ports \<Rightarrow> 'a \<times> 'w ports" where
  "ask q p = (let (r, w) = q (po_world p) in (r, p\<lparr>po_world := w\<rparr>))"

definition invoke :: "'w sys \<Rightarrow> syscall \<Rightarrow> 'w ports \<Rightarrow> sys_error option \<times> 'w ports" where
  "invoke S k p =
     (let (r, w) = sys_call S k (po_world p)
      in (r, p\<lparr>po_world := w, po_trace := po_trace p @ [Tr_Call k (r = None)]\<rparr>))"

definition trace :: "effect list \<Rightarrow> 'w ports \<Rightarrow> 'w ports" where
  "trace fx p = p\<lparr>po_trace := po_trace p @ fx\<rparr>"

definition with_timers :: "(reactor_key timers \<Rightarrow> reactor_key timers) \<Rightarrow> 'w ports \<Rightarrow> 'w ports" where
  "with_timers f p = p\<lparr>po_timers := f (po_timers p)\<rparr>"

definition arm_key :: "reactor_key \<Rightarrow> nat \<Rightarrow> 'w ports \<Rightarrow> 'w ports" where
  "arm_key k delay p = with_timers (timers_arm k delay (po_now p)) p"

section \<open>The engine\<close>

record pending_secret =
  pn_token :: u64
  pn_client :: client_id

record ('sc, 'pt, 'd) engine =
  en_core :: "('sc, 'pt, 'd) conn option"
  en_device :: "device option"
  en_watcher :: "client_id option"
  en_pending :: "pending_secret option"
  en_next_token :: u64
  en_resolver_warned :: bool

definition engine_new :: "('sc, 'pt, 'd) engine" where
  "engine_new =
     \<lparr>en_core = None, en_device = None, en_watcher = None, en_pending = None, en_next_token = 1,
      en_resolver_warned = False\<rparr>"

definition engine_ifindex :: "('sc, 'pt, 'd) engine \<Rightarrow> u32 option" where
  "engine_ifindex en = map_option dev_ifindex (en_device en)"

definition conn_ssid :: "('sc, 'pt, 'd) conn \<Rightarrow> bytes option" where
  "conn_ssid c = map_option tg_ssid (cn_target c)"

definition conn_bssid :: "('sc, 'pt, 'd) conn \<Rightarrow> bytes option" where
  "conn_bssid c = map_option (\<lambda>s. ch_bssid (se_choice s)) (cn_session c)"

definition engine_ssid :: "('sc, 'pt, 'd) engine \<Rightarrow> bytes option" where
  "engine_ssid en = (case en_core en of None \<Rightarrow> None | Some c \<Rightarrow> map_option utf8_lossy (conn_ssid c))"

definition engine_state :: "('sc, 'pt, 'd) engine \<Rightarrow> conn_state" where
  "engine_state en = (case en_core en of None \<Rightarrow> Cs_Idle | Some c \<Rightarrow> cn_state c)"

definition engine_is_idle :: "('sc, 'pt, 'd) engine \<Rightarrow> bool" where
  "engine_is_idle en \<longleftrightarrow> engine_state en = Cs_Idle"

definition caps_from_wiphy :: "wiphy \<Rightarrow> device_caps" where
  "caps_from_wiphy w =
     \<lparr>dc_offloads_4way_psk = wi_offloads_4way_psk w, dc_offloads_4way_1x = wi_offloads_4way_1x w,
      dc_offloads_sae = wi_offloads_sae w\<rparr>"

definition caps_default :: device_caps where
  "caps_default = \<lparr>dc_offloads_4way_psk = False, dc_offloads_4way_1x = False, dc_offloads_sae = False\<rparr>"

end
