(* ===== verification/Engine.thy ===== *)
theory Engine
  imports Engine_Types
begin

text \<open>
  The engine (\<^verbatim>\<open>src/crates/cawd/src/engine.rs\<close>): it feeds inputs to the connection state machine,
  performs the actions that come back, and turns them into what a waiting client is told. A
  function returns \<open>None\<close> where the state machine would panic, which \<open>Daemon_Props\<close> excludes.
\<close>

section \<open>Failing calls\<close>

definition MAX_TURNS :: nat where "MAX_TURNS = 32"

definition NO_WIRELESS :: string where
  "NO_WIRELESS = ''no wireless stack: the kernel has no nl80211 family''"

definition need_nl :: "('w ports \<Rightarrow> (reason + 'a) \<times> 'w ports) \<Rightarrow> 'w ports \<Rightarrow> (reason + 'a) \<times> 'w ports" where
  "need_nl k p = (if po_nl p then k p else (Inl (Re_Text NO_WIRELESS), p))"

text \<open>\<^verbatim>\<open>?\<close> on a call of the system, and with what the code says before the error.\<close>

definition attempt_or ::
  "string \<Rightarrow> 'w sys \<Rightarrow> syscall \<Rightarrow> ('w ports \<Rightarrow> (reason + 'a) \<times> 'w ports) \<Rightarrow> 'w ports \<Rightarrow> (reason + 'a) \<times> 'w ports" where
  "attempt_or saying S call k p =
     (case invoke S call p of
        (None, p) \<Rightarrow> k p
      | (Some e, p) \<Rightarrow> (Inl (Re_Text (saying @ sys_text e)), p))"

abbreviation attempt ::
  "'w sys \<Rightarrow> syscall \<Rightarrow> ('w ports \<Rightarrow> (reason + 'a) \<times> 'w ports) \<Rightarrow> 'w ports \<Rightarrow> (reason + 'a) \<times> 'w ports" where
  "attempt \<equiv> attempt_or []"

definition performed :: "'w ports \<Rightarrow> (reason + conn_input option) \<times> 'w ports" where
  "performed p = (Inr None, p)"

definition secs_ns :: "nat \<Rightarrow> nat" where "secs_ns s = s * 1000000000"
definition millis_ns :: "nat \<Rightarrow> nat" where "millis_ns ms = ms * 1000000"

section \<open>Requests to nl80211\<close>

definition perform_trigger_scan :: "'w sys \<Rightarrow> u32 \<Rightarrow> 'w ports \<Rightarrow> (reason + conn_input option) \<times> 'w ports" where
  "perform_trigger_scan S ifindex =
     need_nl (\<lambda>p.
       case invoke S (K_TriggerScan ifindex) p of
         (None, p) \<Rightarrow> performed p
       | (Some e, p) \<Rightarrow>
           (case e of
              Sys_Kernel n s \<Rightarrow> if n = 16 then performed p else (Inl (Re_Text s), p)
            | Sys_Other s \<Rightarrow> (Inl (Re_Text s), p)))"

definition perform_fetch :: "'w sys \<Rightarrow> u32 \<Rightarrow> 'w ports \<Rightarrow> (reason + conn_input option) \<times> 'w ports" where
  "perform_fetch S ifindex =
     need_nl (\<lambda>p.
       case ask (sys_scan_results S ifindex) p of
         (Inl e, p) \<Rightarrow> (Inl (Re_Text (sys_text e)), p)
       | (Inr results, p) \<Rightarrow> (Inr (Some (In_ScanResults results)), p))"

definition connect_of :: "assoc_request \<Rightarrow> nl_connect" where
  "connect_of r =
     \<lparr>nc_ssid = asr_ssid r, nc_bssid = Some (asr_bssid r), nc_freq_mhz = Some (asr_freq_mhz r),
      nc_auth_type = asr_auth_type r, nc_wpa_versions = asr_wpa_versions r,
      nc_pairwise_ciphers = asr_pairwise_ciphers r, nc_group_cipher = asr_group_cipher r,
      nc_akms = asr_akms r, nc_mfp = asr_mfp r, nc_ies = asr_ies r\<rparr>"

definition perform_associate :: "'w sys \<Rightarrow> assoc_request \<Rightarrow> 'w ports \<Rightarrow> (reason + conn_input option) \<times> 'w ports" where
  "perform_associate S r p =
     (if asr_offload r \<noteq> None then
        (Inl (Re_Text (''this device runs the handshake in firmware, which needs '' @
                       ''NL80211_ATTR_PMK support in caw-nl80211'')), p)
      else
        need_nl
          (attempt S (if asr_authenticated r then K_Associate (asr_ifindex r) (connect_of r)
                      else K_Connect (asr_ifindex r) (connect_of r))
             performed) p)"

definition perform_authenticate :: "'w sys \<Rightarrow> auth_request \<Rightarrow> 'w ports \<Rightarrow> (reason + conn_input option) \<times> 'w ports" where
  "perform_authenticate S r =
     need_nl
       (attempt S (K_Authenticate (aur_ifindex r)
          \<lparr>na_ssid = aur_ssid r, na_bssid = aur_bssid r, na_freq_mhz = aur_freq_mhz r,
           na_auth_type = aur_auth_type r, na_data = aur_data r\<rparr>)
          performed)"

definition perform_disconnect ::
  "'w sys \<Rightarrow> ('sc, 'pt, 'd) engine \<Rightarrow> u16 \<Rightarrow> 'w ports \<Rightarrow> (reason + conn_input option) \<times> 'w ports" where
  "perform_disconnect S en reason p =
     (case engine_ifindex en of
        None \<Rightarrow> (Inl (Re_Text ''no interface to disconnect''), p)
      | Some ifindex \<Rightarrow> need_nl (attempt S (K_Disconnect ifindex reason) performed) p)"

definition perform_send_eapol :: "'w sys \<Rightarrow> bytes \<Rightarrow> 'w ports \<Rightarrow> (reason + conn_input option) \<times> 'w ports" where
  "perform_send_eapol S frame p =
     (case po_eapol p of
        None \<Rightarrow> (Inl (Re_Text ''no EAPOL socket''), p)
      | Some _ \<Rightarrow> attempt S (K_EapolSend frame) performed p)"

definition perform_install ::
  "'w sys \<Rightarrow> ('sc, 'pt, 'd) engine \<Rightarrow> key_install \<Rightarrow> 'w ports \<Rightarrow> (reason + conn_input option) \<times> 'w ports" where
  "perform_install S en keys p =
     (case engine_ifindex en of
        None \<Rightarrow> (Inl (Re_Text ''no interface to key''), p)
      | Some ifindex \<Rightarrow>
          (let group = ki_group keys;
               install_group =
                 attempt S (K_NewGroupKey ifindex (gtk_index (gk_gtk group)) (gk_cipher group) (gtk_key (gk_gtk group)) [])
                   (attempt S (K_SetDefaultKey ifindex (gtk_index (gk_gtk group))) performed)
           in need_nl
                (case ki_pairwise_key keys of
                   Some pk \<Rightarrow>
                     attempt S (K_NewPairwiseKey ifindex (pk_peer pk) (pk_cipher pk) (ptk_tk (pk_ptk pk))) install_group
                 | None \<Rightarrow> install_group) p))"

section \<open>Address configuration\<close>

definition dhcp_perform ::
  "'w sys \<Rightarrow> dhcp_action \<Rightarrow> lease_event option \<times> 'w ports \<Rightarrow> lease_event option \<times> 'w ports" where
  "dhcp_perform S a op =
     (case op of (out, p) \<Rightarrow>
       (case a of
          Da_Broadcast data \<Rightarrow> (out, snd (invoke S (K_DhcpBroadcast data) p))
        | Da_Unicast to data \<Rightarrow> (out, snd (invoke S (K_DhcpSendTo to data) p))
        | Da_SetTimer timer secs \<Rightarrow> (out, arm_key (Key_Dhcp timer) (secs_ns (unat secs)) p)
        | Da_Configured lease \<Rightarrow> (Some (Le_Acquired lease), p)
        | Da_Deconfigure reason \<Rightarrow> (Some (Le_Lost reason), p)
        | Da_Failed \<Rightarrow> (Some Le_Failed, p)))"

definition drive_dhcp :: "'w sys \<Rightarrow> dhcp_input \<Rightarrow> 'w ports \<Rightarrow> lease_event option \<times> 'w ports" where
  "drive_dhcp S input p =
     (case po_dhcp p of
        None \<Rightarrow> (None, p)
      | Some run \<Rightarrow>
          (case dhcp_poll (dr_machine run) input of
             (machine, actions) \<Rightarrow>
               fold (dhcp_perform S) actions (None, p\<lparr>po_dhcp := Some (run\<lparr>dr_machine := machine\<rparr>)\<rparr>)))"

definition drop_probe_route :: "'w sys \<Rightarrow> 'w ports \<Rightarrow> 'w ports" where
  "drop_probe_route S p =
     (case po_dhcp p of
        None \<Rightarrow> p
      | Some run \<Rightarrow>
          if dr_probe_route run then
            snd (invoke S (K_DelProbeRoute (dr_ifindex run))
              (p\<lparr>po_dhcp := Some (run\<lparr>dr_probe_route := False\<rparr>)\<rparr>))
          else p)"

definition stop_dhcp :: "'w sys \<Rightarrow> 'w ports \<Rightarrow> 'w ports" where
  "stop_dhcp S p =
     (let p = (if po_rtnl p then drop_probe_route S p else p)
      in fold (\<lambda>t. with_timers (timers_cancel (Key_Dhcp t))) [Dt_Retransmit, Dt_Renew, Dt_Rebind, Dt_Expire]
           (p\<lparr>po_dhcp := None\<rparr>))"

text \<open>\<^verbatim>\<open>str::trim\<close> on the UTF-8 of a string: its characters are the chunks of \<open>utf8_chunks\<close>.\<close>

definition char_is_whitespace :: "bytes \<Rightarrow> bool" where
  "char_is_whitespace c \<longleftrightarrow>
     c \<in> set [[9], [10], [11], [12], [13], [0x20], [0xC2, 0x85], [0xC2, 0xA0], [0xE1, 0x9A, 0x80],
       [0xE2, 0x80, 0xA8], [0xE2, 0x80, 0xA9], [0xE2, 0x80, 0xAF], [0xE2, 0x81, 0x9F], [0xE3, 0x80, 0x80]] \<or>
     length c = 3 \<and> c ! 0 = 0xE2 \<and> c ! 1 = 0x80 \<and> 0x80 \<le> c ! 2 \<and> c ! 2 \<le> 0x8A"

definition trim_utf8 :: "bytes \<Rightarrow> bytes" where
  "trim_utf8 s =
     concat (rev (dropWhile char_is_whitespace (rev (dropWhile char_is_whitespace (map snd (utf8_chunks s))))))"

definition dhcp_machine_for :: "bytes \<Rightarrow> u32 \<Rightarrow> bytes option \<Rightarrow> dhcp4" where
  "dhcp_machine_for mac xid hostname_file =
     (case hostname_file of
        None \<Rightarrow> dhcp_new mac xid
      | Some text \<Rightarrow>
          (let hostname = trim_utf8 text
           in if hostname = [] then dhcp_new mac xid else dhcp_with_hostname hostname (dhcp_new mac xid)))"

definition perform_start_dhcp ::
  "'w sys \<Rightarrow> ('sc, 'pt, 'd) engine \<Rightarrow> 'w ports \<Rightarrow> (reason + conn_input option) \<times> 'w ports" where
  "perform_start_dhcp S en p =
     (case en_device en of
        None \<Rightarrow> (Inl (Re_Text ''no interface for DHCP''), p)
      | Some dev \<Rightarrow>
          (let p = stop_dhcp S p;
               (probe_route, p) =
                 (if po_rtnl p then
                    (let p = snd (invoke S (K_AddBroadcastRoute (dev_ifindex dev)) p);
                         (r, p) = invoke S (K_AddProbeRoute (dev_ifindex dev)) p
                     in (r = None, p))
                  else (False, p))
           in attempt_or ''cannot open the DHCP socket (binding port 68 needs root): '' S K_DhcpOpen
                (\<lambda>p. case ask (sys_new_xid S) p of
                   (Inl e, p) \<Rightarrow> (Inl (Re_Text e), p)
                 | (Inr xid, p) \<Rightarrow>
                     (let (hostname, p) = ask (sys_hostname S) p;
                          run = \<lparr>dr_machine = dhcp_machine_for (dev_mac dev) xid hostname,
                                 dr_ifindex = dev_ifindex dev, dr_probe_route = probe_route\<rparr>;
                          (event, p) = drive_dhcp S (Di_Start xid) (p\<lparr>po_dhcp := Some run\<rparr>)
                      in (Inr (map_option In_Lease event), p))) p))"

text \<open>The file of \<^verbatim>\<open>write_resolv_conf\<close>, and its writing, which an empty list skips.\<close>

definition resolv_text :: "ipv4 list \<Rightarrow> bytes" where
  "resolv_text servers =
     map (of_nat \<circ> of_char) (''# Written by cawd from a DHCP lease.'' @ [CHR 0x0A] @
       concat (map (\<lambda>s. ''nameserver '' @ show_ipv4 s @ [CHR 0x0A]) servers))"

definition write_resolv_conf :: "'w sys \<Rightarrow> ipv4 list \<Rightarrow> 'w ports \<Rightarrow> bool \<times> 'w ports" where
  "write_resolv_conf S servers p =
     (if servers = [] then (True, p)
      else (let (r, p) = invoke S (K_WriteResolver (resolv_text servers)) p in (r = None, p)))"

definition check_resolver_link ::
  "'w sys \<Rightarrow> ('sc, 'pt, 'd) engine \<Rightarrow> 'w ports \<Rightarrow> ('sc, 'pt, 'd) engine \<times> 'w ports" where
  "check_resolver_link S en p =
     (if en_resolver_warned en then (en, p)
      else
        (let (points_here, p) = ask (sys_resolver_linked S) p
         in (if points_here then en else en\<lparr>en_resolver_warned := True\<rparr>, p)))"

definition drop_stale_address :: "'w sys \<Rightarrow> u32 \<Rightarrow> lease \<Rightarrow> net_address \<Rightarrow> 'w ports \<Rightarrow> 'w ports" where
  "drop_stale_address S ifindex lease ad p =
     (case nd_addr ad of
        Ip_V6 _ \<Rightarrow> p
      | Ip_V4 addr \<Rightarrow>
          if nd_index ad = ifindex \<and> addr \<noteq> ls_addr lease
          then snd (invoke S (K_DelAddress ifindex addr (nd_prefix_len ad)) p) else p)"

definition apply_lease :: "'w sys \<Rightarrow> u32 \<Rightarrow> lease \<Rightarrow> 'w ports \<Rightarrow> (reason + unit) \<times> 'w ports" where
  "apply_lease S ifindex lease p =
     (if \<not> po_rtnl p then (Inl (Re_Text ''no rtnetlink socket to apply the lease''), p)
      else
        (case ask (sys_addresses S) p of
           (Inl e, p) \<Rightarrow> (Inl (Re_Text (''cannot list addresses before applying DHCP: '' @ sys_text e)), p)
         | (Inr addresses, p) \<Rightarrow>
             (let finish = (\<lambda>p. (Inr (), drop_probe_route S p))
              in attempt_or (''cannot add '' @ show_ipv4 (ls_addr lease) @ ''/'' @ show_nat (ls_prefix_len lease) @ '': '')
                   S (K_AddAddress ifindex (ls_addr lease) (of_nat (ls_prefix_len lease)))
                   (case ls_gateway lease of
                      None \<Rightarrow> finish
                    | Some gateway \<Rightarrow>
                        attempt_or (''cannot add the default route via '' @ show_ipv4 gateway @ '': '')
                          S (K_AddDefaultRoute ifindex gateway) finish)
                   (fold (drop_stale_address S ifindex lease) addresses p))))"

definition perform_apply_lease ::
  "'w sys \<Rightarrow> ('sc, 'pt, 'd) engine \<Rightarrow> lease \<Rightarrow> 'w ports \<Rightarrow>
   (reason + conn_input option) \<times> ('sc, 'pt, 'd) engine \<times> 'w ports" where
  "perform_apply_lease S en lease p =
     (case engine_ifindex en of
        None \<Rightarrow> (Inl (Re_Text ''no interface to configure''), en, p)
      | Some ifindex \<Rightarrow>
          (case apply_lease S ifindex lease p of
             (Inl e, p) \<Rightarrow> (Inl e, en, p)
           | (Inr _, p) \<Rightarrow>
               (case write_resolv_conf S (ls_dns lease) p of
                  (True, p) \<Rightarrow> (Inr None, check_resolver_link S en p)
                | (False, p) \<Rightarrow> (Inr None, en, p))))"

section \<open>Clients\<close>

definition notify_event :: "conn_state \<Rightarrow> bytes option \<Rightarrow> ipc_event option" where
  "notify_event st bssid =
     (case st of
        Cs_Scanning \<Rightarrow> Some Ie_Scanning
      | Cs_Authenticating \<Rightarrow> Some Ie_Authenticating
      | Cs_Handshaking \<Rightarrow> Some Ie_Authenticating
      | Cs_Associating \<Rightarrow> Some (Ie_Associating bssid)
      | Cs_Configuring \<Rightarrow> Some Ie_Configuring
      | Cs_Connected \<Rightarrow> Some Ie_Connected
      | Cs_Reconnecting \<Rightarrow> None
      | Cs_Idle \<Rightarrow> None)"

definition engine_notify ::
  "conn_state \<Rightarrow> ('sc, 'pt, 'd) engine \<Rightarrow> 'w ports \<Rightarrow> ('sc, 'pt, 'd) engine \<times> 'w ports" where
  "engine_notify st en p =
     (case en_watcher en of
        None \<Rightarrow> (en, p)
      | Some client \<Rightarrow>
          (let bssid = (case en_core en of None \<Rightarrow> None | Some c \<Rightarrow> conn_bssid c);
               p = (case notify_event st bssid of None \<Rightarrow> p | Some ev \<Rightarrow> trace [Tr_Event client ev] p)
           in if st = Cs_Connected \<or> st = Cs_Idle
              then (en\<lparr>en_watcher := None\<rparr>, trace [Tr_Response client Ir_Ok] p)
              else (en, p)))"

text \<open>The two messages that end a request in failure, if anyone is waiting.\<close>

definition answer_failed ::
  "reason \<Rightarrow> ('sc, 'pt, 'd) engine \<Rightarrow> 'w ports \<Rightarrow> ('sc, 'pt, 'd) engine \<times> 'w ports" where
  "answer_failed reason en p =
     (en\<lparr>en_watcher := None, en_pending := None\<rparr>,
      (case en_watcher en of
         None \<Rightarrow> p
       | Some client \<Rightarrow>
           trace [Tr_Event client (Ie_Failed reason), Tr_Response client (Ir_Error reason)] p))"

definition perform_failed ::
  "'w sys \<Rightarrow> failure \<Rightarrow> ('sc, 'pt, 'd) engine \<Rightarrow> 'w ports \<Rightarrow>
   (reason + conn_input option) \<times> ('sc, 'pt, 'd) engine \<times> 'w ports" where
  "perform_failed S failure en p =
     (let (en, p) = answer_failed (Re_Failure failure) en p
      in (Inr None, en, if failure_is_terminal failure then stop_dhcp S (p\<lparr>po_eapol := None\<rparr>) else p))"

definition perform_request_secret ::
  "bytes \<Rightarrow> ('sc, 'pt, 'd) engine \<Rightarrow> 'w ports \<Rightarrow>
   (reason + conn_input option) \<times> ('sc, 'pt, 'd) engine \<times> 'w ports" where
  "perform_request_secret ssid en p =
     (case en_watcher en of
        None \<Rightarrow> (Inl (Re_Text ''this network needs a passphrase and no client is attached''), en, p)
      | Some client \<Rightarrow>
          (Inr None,
           en\<lparr>en_next_token := en_next_token en + 1,
              en_pending := Some \<lparr>pn_token = en_next_token en, pn_client = client\<rparr>\<rparr>,
           trace [Tr_Event client (Ie_NeedSecret (en_next_token en) ssid Sk_Passphrase)] p))"

definition perform_save_profile ::
  "'w sys \<Rightarrow> profile \<Rightarrow> ('sc, 'pt, 'd) engine \<Rightarrow> 'w ports \<Rightarrow>
   (reason + conn_input option) \<times> ('sc, 'pt, 'd) engine \<times> 'w ports" where
  "perform_save_profile S profile en p =
     (case invoke S (K_SaveProfile profile) p of
        (Some e, p) \<Rightarrow> (Inl (Re_Text (sys_text e)), en, p)
      | (None, p) \<Rightarrow> (Inr None, en\<lparr>en_core := map_option (conn_insert_profile profile) (en_core en)\<rparr>, p))"

section \<open>Performing an action\<close>

definition perform ::
  "'w sys \<Rightarrow> action \<Rightarrow> ('sc, 'pt, 'd) engine \<Rightarrow> 'w ports \<Rightarrow>
   (reason + conn_input option) \<times> ('sc, 'pt, 'd) engine \<times> 'w ports" where
  "perform S a en p =
     (let on_ports = (\<lambda>(r, p). (r, en, p))
      in case a of
           Ac_TriggerScan ifindex \<Rightarrow> on_ports (perform_trigger_scan S ifindex p)
         | Ac_FetchScanResults ifindex \<Rightarrow> on_ports (perform_fetch S ifindex p)
         | Ac_Associate req \<Rightarrow> on_ports (perform_associate S req p)
         | Ac_Authenticate req \<Rightarrow> on_ports (perform_authenticate S req p)
         | Ac_Disconnect reason \<Rightarrow> on_ports (perform_disconnect S en reason p)
         | Ac_SendEapol frame \<Rightarrow> on_ports (perform_send_eapol S frame p)
         | Ac_InstallKeys keys \<Rightarrow> on_ports (perform_install S en keys p)
         | Ac_StartDhcp \<Rightarrow> on_ports (perform_start_dhcp S en p)
         | Ac_ApplyLease lease \<Rightarrow> perform_apply_lease S en lease p
         | Ac_SetTimer i millis \<Rightarrow> (Inr None, en, arm_key (Key_Core i) (millis_ns millis) p)
         | Ac_ClearTimer i \<Rightarrow> (Inr None, en, with_timers (timers_cancel (Key_Core i)) p)
         | Ac_RequestSecret ssid \<Rightarrow> perform_request_secret ssid en p
         | Ac_SaveProfile profile \<Rightarrow> perform_save_profile S profile en p
         | Ac_Notify st \<Rightarrow> (Inr None, engine_notify st en p)
         | Ac_Failed failure \<Rightarrow> perform_failed S failure en p)"

primrec perform_all ::
  "'w sys \<Rightarrow> action list \<Rightarrow> conn_input list \<Rightarrow> ('sc, 'pt, 'd) engine \<Rightarrow> 'w ports \<Rightarrow>
   (reason + conn_input list) \<times> ('sc, 'pt, 'd) engine \<times> 'w ports" where
  "perform_all S [] queue en p = (Inr queue, en, p)"
| "perform_all S (a # rest) queue en p =
     (case perform S a en p of
        (Inl e, en, p) \<Rightarrow> (Inl e, en, p)
      | (Inr None, en, p) \<Rightarrow> perform_all S rest queue en p
      | (Inr (Some next), en, p) \<Rightarrow> perform_all S rest (queue @ [next]) en p)"

primrec perform_each ::
  "'w sys \<Rightarrow> action list \<Rightarrow> ('sc, 'pt, 'd) engine \<Rightarrow> 'w ports \<Rightarrow> ('sc, 'pt, 'd) engine \<times> 'w ports" where
  "perform_each S [] en p = (en, p)"
| "perform_each S (a # rest) en p = (case perform S a en p of (_, en, p) \<Rightarrow> perform_each S rest en p)"

section \<open>Giving up\<close>

definition is_core_key :: "reactor_key \<Rightarrow> bool" where
  "is_core_key k \<longleftrightarrow> (case k of Key_Core _ \<Rightarrow> True | _ \<Rightarrow> False)"

definition cancel_core_timers :: "'w ports \<Rightarrow> 'w ports" where
  "cancel_core_timers = with_timers (timers_cancel_if is_core_key)"

definition engine_poll ::
  "('sc, 'pt, 'd) env \<Rightarrow> 'w sys \<Rightarrow> conn_input \<Rightarrow> ('sc, 'pt, 'd) conn \<Rightarrow> 'w ports \<Rightarrow>
   (('sc, 'pt, 'd) conn \<times> action list \<times> 'w ports) option" where
  "engine_poll E S input c p =
     (let (rnd, p) = ask (sys_rnd S) p
      in map_option (\<lambda>(c, out). (c, out, p)) (conn_poll E c (rnd, input)))"

definition engine_reset ::
  "('sc, 'pt, 'd) env \<Rightarrow> 'w sys \<Rightarrow> ('sc, 'pt, 'd) engine \<Rightarrow> 'w ports \<Rightarrow> (('sc, 'pt, 'd) engine \<times> 'w ports) option" where
  "engine_reset E S en p =
     (case en_core en of
        None \<Rightarrow> Some (en, p)
      | Some c \<Rightarrow>
          (case engine_poll E S (In_Command Cmd_Disconnect) c p of
             None \<Rightarrow> None
           | Some (c, out, p) \<Rightarrow>
               (let (en, p) = perform_each S out (en\<lparr>en_core := Some c\<rparr>) p
                in Some (en, stop_dhcp S ((cancel_core_timers p)\<lparr>po_eapol := None\<rparr>)))))"

definition engine_abort ::
  "('sc, 'pt, 'd) env \<Rightarrow> 'w sys \<Rightarrow> reason \<Rightarrow> ('sc, 'pt, 'd) engine \<Rightarrow> 'w ports \<Rightarrow>
   (('sc, 'pt, 'd) engine \<times> 'w ports) option" where
  "engine_abort E S reason en p =
     (let (en, p) = answer_failed reason en p in engine_reset E S en p)"

section \<open>Feeding the state machine\<close>

primrec feed_turns ::
  "('sc, 'pt, 'd) env \<Rightarrow> 'w sys \<Rightarrow> nat \<Rightarrow> conn_input list \<Rightarrow> ('sc, 'pt, 'd) engine \<Rightarrow> 'w ports \<Rightarrow>
   (('sc, 'pt, 'd) engine \<times> 'w ports) option" where
  "feed_turns E S 0 queue en p = Some (en, trace [Tr_Unsettled] p)"
| "feed_turns E S (Suc turns) queue en p =
     (case queue of
        [] \<Rightarrow> Some (en, p)
      | input # queue \<Rightarrow>
          (case en_core en of
             None \<Rightarrow> Some (en, p)
           | Some c \<Rightarrow>
               (case engine_poll E S input c p of
                  None \<Rightarrow> None
                | Some (c, out, p) \<Rightarrow>
                    (case perform_all S out queue (en\<lparr>en_core := Some c\<rparr>) p of
                       (Inl e, en, p) \<Rightarrow> engine_abort E S e en p
                     | (Inr queue, en, p) \<Rightarrow> feed_turns E S turns queue en p))))"

definition feed ::
  "('sc, 'pt, 'd) env \<Rightarrow> 'w sys \<Rightarrow> conn_input \<Rightarrow> ('sc, 'pt, 'd) engine \<Rightarrow> 'w ports \<Rightarrow>
   (('sc, 'pt, 'd) engine \<times> 'w ports) option" where
  "feed E S input en p = feed_turns E S MAX_TURNS [input] en p"

section \<open>Preparing an interface\<close>

definition describe :: "'w sys \<Rightarrow> u32 \<Rightarrow> 'w ports \<Rightarrow> (reason + device) \<times> 'w ports" where
  "describe S ifindex =
     need_nl (\<lambda>p.
       case ask (sys_interfaces S) p of
         (Inl e, p) \<Rightarrow> (Inl (Re_Text (sys_text e)), p)
       | (Inr interfaces, p) \<Rightarrow>
           (case find (\<lambda>i. if_ifindex i = ifindex) interfaces of
              None \<Rightarrow> (Inl (Re_Text ''no such wireless port''), p)
            | Some interface \<Rightarrow>
                (case if_mac interface of
                   None \<Rightarrow> (Inl (Re_Text ''the interface has no address to derive keys from''), p)
                 | Some mac \<Rightarrow>
                     (case ask (sys_wiphys S) p of
                        (Inl e, p) \<Rightarrow> (Inl (Re_Text (sys_text e)), p)
                      | (Inr wiphys, p) \<Rightarrow>
                          (Inr \<lparr>dev_ifindex = ifindex, dev_mac = mac,
                                dev_caps = (case find (\<lambda>w. wi_index w = if_wiphy interface) wiphys of
                                  None \<Rightarrow> caps_default | Some w \<Rightarrow> caps_from_wiphy w)\<rparr>, p)))))"

definition load_profiles :: "'w sys \<Rightarrow> 'w ports \<Rightarrow> profile list \<times> 'w ports" where
  "load_profiles S p =
     (case ask (sys_load_profiles S) p of (Inr profiles, p) \<Rightarrow> (profiles, p) | (Inl _, p) \<Rightarrow> ([], p))"

definition open_eapol :: "'w sys \<Rightarrow> u32 \<Rightarrow> 'w ports \<Rightarrow> (reason + unit) \<times> 'w ports" where
  "open_eapol S ifindex p =
     (if po_eapol p \<noteq> None then (Inr (), p)
      else attempt_or ''cannot open the EAPOL socket (needs CAP_NET_RAW): '' S (K_EapolOpen ifindex)
        (\<lambda>p. (Inr (), p\<lparr>po_eapol := Some ifindex\<rparr>)) p)"

definition engine_prepare ::
  "('sc, 'pt, 'd) env \<Rightarrow> 'w sys \<Rightarrow> u32 \<Rightarrow> ('sc, 'pt, 'd) engine \<Rightarrow> 'w ports \<Rightarrow>
   ((reason + unit) \<times> ('sc, 'pt, 'd) engine \<times> 'w ports) option" where
  "engine_prepare E S ifindex en p =
     (case describe S ifindex p of
        (Inl e, p) \<Rightarrow> Some (Inl e, en, p)
      | (Inr device, p) \<Rightarrow>
          (case (if en_device en = Some device then Some (en, p)
                 else
                   (case (if engine_is_idle en then Some (en, p)
                          else engine_abort E S
                            (Re_Text (''the address or capabilities of ifindex '' @ show_nat (unat ifindex) @ '' changed'')) en p) of
                      None \<Rightarrow> None
                    | Some (en, p) \<Rightarrow>
                        (let (profiles, p) = load_profiles S (cancel_core_timers p)
                         in Some (en\<lparr>en_core := Some (conn_new device profiles), en_device := Some device\<rparr>,
                                  stop_dhcp S (p\<lparr>po_eapol := None\<rparr>))))) of
             None \<Rightarrow> None
           | Some (en, p) \<Rightarrow> (case open_eapol S ifindex p of (r, p) \<Rightarrow> Some (r, en, p))))"

section \<open>Entry points\<close>

text \<open>A new request takes the watcher's place; the client it belonged to is told.\<close>

definition supersede ::
  "string \<Rightarrow> client_id \<Rightarrow> ('sc, 'pt, 'd) engine \<Rightarrow> 'w ports \<Rightarrow> ('sc, 'pt, 'd) engine \<times> 'w ports" where
  "supersede message client en p =
     (en\<lparr>en_watcher := Some client, en_pending := None\<rparr>,
      (case en_watcher en of
         None \<Rightarrow> p
       | Some previous \<Rightarrow>
           if previous \<noteq> client then trace [Tr_Response previous (Ir_Error (Re_Text message))] p else p))"

definition feed_ok ::
  "('sc, 'pt, 'd) env \<Rightarrow> 'w sys \<Rightarrow> conn_input \<Rightarrow> ('sc, 'pt, 'd) engine \<Rightarrow> 'w ports \<Rightarrow>
   ((reason + unit) \<times> ('sc, 'pt, 'd) engine \<times> 'w ports) option" where
  "feed_ok E S input en p = map_option (\<lambda>(en, p). (Inr (), en, p)) (feed E S input en p)"

definition engine_connect ::
  "('sc, 'pt, 'd) env \<Rightarrow> 'w sys \<Rightarrow> u32 \<Rightarrow> bytes \<Rightarrow> client_id \<Rightarrow> ('sc, 'pt, 'd) engine \<Rightarrow> 'w ports \<Rightarrow>
   ((reason + unit) \<times> ('sc, 'pt, 'd) engine \<times> 'w ports) option" where
  "engine_connect E S ifindex ssid client en p =
     (if ssid = [] then Some (Inl (Re_Text ''a network name cannot be empty''), en, p)
      else
        (case engine_prepare E S ifindex en p of
           None \<Rightarrow> None
         | Some (Inl e, en, p) \<Rightarrow> Some (Inl e, en, p)
         | Some (Inr _, en, p) \<Rightarrow>
             (let (en, p) = supersede ''superseded by another connect request'' client en p
              in feed_ok E S (In_Command (Cmd_Connect ssid)) en p)))"

definition engine_autoconnect ::
  "('sc, 'pt, 'd) env \<Rightarrow> 'w sys \<Rightarrow> u32 \<Rightarrow> ('sc, 'pt, 'd) engine \<Rightarrow> 'w ports \<Rightarrow>
   ((reason + unit) \<times> ('sc, 'pt, 'd) engine \<times> 'w ports) option" where
  "engine_autoconnect E S ifindex en p =
     (case engine_prepare E S ifindex en p of
        None \<Rightarrow> None
      | Some (Inl e, en, p) \<Rightarrow> Some (Inl e, en, p)
      | Some (Inr _, en, p) \<Rightarrow> feed_ok E S (In_Command Cmd_Autoconnect) en p)"

definition engine_disconnect ::
  "('sc, 'pt, 'd) env \<Rightarrow> 'w sys \<Rightarrow> bytes \<Rightarrow> client_id \<Rightarrow> ('sc, 'pt, 'd) engine \<Rightarrow> 'w ports \<Rightarrow>
   ((reason + unit) \<times> ('sc, 'pt, 'd) engine \<times> 'w ports) option" where
  "engine_disconnect E S ssid client en p =
     (case engine_ssid en of
        None \<Rightarrow> Some (Inl (Re_Text ''not connected''), en, p)
      | Some current \<Rightarrow>
          if current \<noteq> ssid then Some (Inl (Re_Text (''connected to '' @ text_of current @ '', not '' @ text_of ssid)), en, p)
          else
            (let (en, p) = supersede ''superseded by a disconnect request'' client en p
             in feed_ok E S (In_Command Cmd_Disconnect) en p))"

definition engine_forget ::
  "('sc, 'pt, 'd) env \<Rightarrow> 'w sys \<Rightarrow> bytes \<Rightarrow> client_id \<Rightarrow> ('sc, 'pt, 'd) engine \<Rightarrow> 'w ports \<Rightarrow>
   ((reason + bool) \<times> ('sc, 'pt, 'd) engine \<times> 'w ports) option" where
  "engine_forget E S ssid client en p =
     (case ask (sys_delete_profile S ssid) p of
        (Inl e, p) \<Rightarrow> Some (Inl (Re_Text e), en, p)
      | (Inr deleted, p) \<Rightarrow>
          if engine_ssid en = Some ssid then
            map_option (\<lambda>(r, en, p). (map_sum id (\<lambda>_. True) r, en, p)) (engine_disconnect E S ssid client en p)
          else if \<not> deleted then Some (Inl (Re_Text (text_of ssid @ '' is not a saved network'')), en, p)
          else Some (Inr False, en, p))"

definition engine_secret ::
  "('sc, 'pt, 'd) env \<Rightarrow> 'w sys \<Rightarrow> u64 \<Rightarrow> bytes \<Rightarrow> client_id \<Rightarrow> ('sc, 'pt, 'd) engine \<Rightarrow> 'w ports \<Rightarrow>
   ((reason + unit) \<times> ('sc, 'pt, 'd) engine \<times> 'w ports) option" where
  "engine_secret E S token secret client en p =
     (case en_pending en of
        None \<Rightarrow> Some (Inl (Re_Text ''nothing is waiting for a secret''), en, p)
      | Some pending \<Rightarrow>
          if pn_token pending = token \<and> pn_client pending = client then
            feed_ok E S (In_Command (Cmd_Secret secret)) (en\<lparr>en_pending := None\<rparr>) p
          else Some (Inl (Re_Text ''no secret was asked of you''), en, p))"

definition engine_on_dhcp_datagram ::
  "('sc, 'pt, 'd) env \<Rightarrow> 'w sys \<Rightarrow> bytes \<Rightarrow> ('sc, 'pt, 'd) engine \<Rightarrow> 'w ports \<Rightarrow>
   (('sc, 'pt, 'd) engine \<times> 'w ports) option" where
  "engine_on_dhcp_datagram E S bs en p =
     (case drive_dhcp S (Di_Datagram bs) p of
        (None, p) \<Rightarrow> Some (en, p)
      | (Some event, p) \<Rightarrow> feed E S (In_Lease event) en p)"

definition engine_on_dhcp_timer ::
  "('sc, 'pt, 'd) env \<Rightarrow> 'w sys \<Rightarrow> dhcp_timer \<Rightarrow> ('sc, 'pt, 'd) engine \<Rightarrow> 'w ports \<Rightarrow>
   (('sc, 'pt, 'd) engine \<times> 'w ports) option" where
  "engine_on_dhcp_timer E S timer en p =
     (case drive_dhcp S (Di_Timeout timer) p of
        (None, p) \<Rightarrow> Some (en, p)
      | (Some event, p) \<Rightarrow>
          feed E S (In_Lease event) en (if event = Le_Failed then stop_dhcp S p else p))"

definition engine_on_link ::
  "('sc, 'pt, 'd) env \<Rightarrow> 'w sys \<Rightarrow> link_event \<Rightarrow> ('sc, 'pt, 'd) engine \<Rightarrow> 'w ports \<Rightarrow>
   (('sc, 'pt, 'd) engine \<times> 'w ports) option" where
  "engine_on_link E S event en p =
     (case engine_ifindex en of
        None \<Rightarrow> Some (en, p)
      | Some ifindex \<Rightarrow>
          (case event of
             Lk_Removed gone \<Rightarrow>
               if gone = ifindex then
                 map_option (\<lambda>(en, p). (en\<lparr>en_core := None, en_device := None\<rparr>, p))
                   (engine_abort E S (Re_Text (''ifindex '' @ show_nat (unat ifindex) @ '' was removed'')) en p)
               else Some (en, p)
           | Lk_Changed changed up carrier \<Rightarrow>
               if \<not> up \<and> changed = ifindex \<and> \<not> engine_is_idle en then
                 engine_abort E S (Re_Text (''ifindex '' @ show_nat (unat ifindex) @ '' was taken down'')) en p
               else if up \<and> \<not> carrier \<and> changed = ifindex \<and> engine_state en = Cs_Connected then
                 feed E S (In_Wireless (Ev_Disconnected 0 False)) en p
               else Some (en, p)
           | Lk_AddressChanged _ \<Rightarrow> Some (en, p)))"

definition engine_resume ::
  "('sc, 'pt, 'd) env \<Rightarrow> 'w sys \<Rightarrow> ('sc, 'pt, 'd) engine \<Rightarrow> 'w ports \<Rightarrow>
   (('sc, 'pt, 'd) engine \<times> 'w ports) option" where
  "engine_resume E S en p =
     (if engine_is_idle en then Some (en, p)
      else engine_abort E S (Re_Text ''system resumed; re-establishing connection'') en p)"

definition engine_forget_client :: "client_id \<Rightarrow> ('sc, 'pt, 'd) engine \<Rightarrow> ('sc, 'pt, 'd) engine" where
  "engine_forget_client i en =
     en\<lparr>en_watcher := (if en_watcher en = Some i then None else en_watcher en),
        en_pending := (case en_pending en of
          None \<Rightarrow> None
        | Some pending \<Rightarrow> if pn_client pending = i then None else Some pending)\<rparr>"

definition engine_shut_down ::
  "('sc, 'pt, 'd) env \<Rightarrow> 'w sys \<Rightarrow> ('sc, 'pt, 'd) engine \<Rightarrow> 'w ports \<Rightarrow>
   (('sc, 'pt, 'd) engine \<times> 'w ports) option" where
  "engine_shut_down E S en p =
     (if en_core en \<noteq> None \<and> \<not> engine_is_idle en then feed E S (In_Command Cmd_Disconnect) en p
      else Some (en, p))"

end
