(* ===== verification/Reactor.thy ===== *)
theory Reactor
  imports Engine Peer_Auth
begin

text \<open>
  The daemon's poll loop (\<^verbatim>\<open>src/crates/cawd/src/reactor.rs\<close>): what each descriptor that wakes it leads
  to, the requests of clients, scans clients wait for, and the connect loop of its own.

  A wake-up carries what the descriptors yielded: decoded requests, events, frames and datagrams; the
  bytes of clients are in \<open>Ipc\<close>. The clock and the group database are read from the world. Messages to
  clients go to the trace of the ports. A handler is \<open>None\<close> where the state machine would panic.
\<close>

section \<open>State\<close>

definition SCAN_TIMEOUT :: nat where "SCAN_TIMEOUT = secs_ns 15"
definition AUTOCONNECT_START :: nat where "AUTOCONNECT_START = secs_ns 2"
definition AUTOCONNECT_MIN :: nat where "AUTOCONNECT_MIN = secs_ns 10"
definition AUTOCONNECT_MAX :: nat where "AUTOCONNECT_MAX = secs_ns 300"
definition AUTOCONNECT_SETTLED :: nat where "AUTOCONNECT_SETTLED = secs_ns 60"

definition GROUP :: ustring where "GROUP = map of_char ''caw''"

record ('sc, 'pt, 'd, 'w) reactor =
  rx_clients :: "(client_id \<times> peer) list"
  rx_next_id :: client_id
  rx_engine :: "('sc, 'pt, 'd) engine"
  rx_ports :: "'w ports"
  rx_power_save_off :: "(u32 \<times> bool) list"
  rx_scans :: "(client_id \<times> u32) list"
  rx_autoconnect :: bool
  rx_auto_attempts :: u32
  rx_stopping :: bool
  rx_suspend_offset :: nat
  rx_auto_paused :: bool

text \<open>Handlers in sequence, each of which may panic.\<close>

primrec each :: "('x \<Rightarrow> 's \<Rightarrow> 's option) \<Rightarrow> 'x list \<Rightarrow> 's \<Rightarrow> 's option" where
  "each f [] s = Some s"
| "each f (x # xs) s = (case f x s of None \<Rightarrow> None | Some s \<Rightarrow> each f xs s)"

section \<open>The clock\<close>

definition tick :: "'w sys \<Rightarrow> 'w ports \<Rightarrow> 'w ports" where
  "tick S p = (let (now, p) = ask (sys_monotonic S) p in p\<lparr>po_now := now\<rparr>)"

definition suspend_offset :: "'w sys \<Rightarrow> 'w ports \<Rightarrow> nat \<times> 'w ports" where
  "suspend_offset S p =
     (let (boot, p) = ask (sys_boottime S) p; (mono, p) = ask (sys_monotonic S) p in (boot - mono, p))"

definition on_ports :: "('w ports \<Rightarrow> 'r \<times> 'w ports) \<Rightarrow> ('sc, 'pt, 'd, 'w) reactor \<Rightarrow> 'r \<times> ('sc, 'pt, 'd, 'w) reactor" where
  "on_ports f r = (let (x, p) = f (rx_ports r) in (x, r\<lparr>rx_ports := p\<rparr>))"

definition arm_now :: "'w sys \<Rightarrow> reactor_key \<Rightarrow> nat \<Rightarrow> ('sc, 'pt, 'd, 'w) reactor \<Rightarrow> ('sc, 'pt, 'd, 'w) reactor" where
  "arm_now S key delay r = r\<lparr>rx_ports := arm_key key delay (tick S (rx_ports r))\<rparr>"

definition with_engine ::
  "'w sys \<Rightarrow> (('sc, 'pt, 'd) engine \<Rightarrow> 'w ports \<Rightarrow> ('r \<times> ('sc, 'pt, 'd) engine \<times> 'w ports) option) \<Rightarrow>
   ('sc, 'pt, 'd, 'w) reactor \<Rightarrow> ('r \<times> ('sc, 'pt, 'd, 'w) reactor) option" where
  "with_engine S f r =
     map_option (\<lambda>(x, en, p). (x, r\<lparr>rx_engine := en, rx_ports := p\<rparr>)) (f (rx_engine r) (tick S (rx_ports r)))"

definition drive_engine ::
  "'w sys \<Rightarrow> (('sc, 'pt, 'd) engine \<Rightarrow> 'w ports \<Rightarrow> (('sc, 'pt, 'd) engine \<times> 'w ports) option) \<Rightarrow>
   ('sc, 'pt, 'd, 'w) reactor \<Rightarrow> ('sc, 'pt, 'd, 'w) reactor option" where
  "drive_engine S f r =
     map_option (\<lambda>(en, p). r\<lparr>rx_engine := en, rx_ports := p\<rparr>) (f (rx_engine r) (tick S (rx_ports r)))"

definition send :: "client_id \<Rightarrow> ipc_response \<Rightarrow> ('sc, 'pt, 'd, 'w) reactor \<Rightarrow> ('sc, 'pt, 'd, 'w) reactor" where
  "send i response r = r\<lparr>rx_ports := trace [Tr_Response i response] (rx_ports r)\<rparr>"

text \<open>The answer to a request that succeeded or failed.\<close>

definition respond ::
  "client_id \<Rightarrow> (reason + ipc_response) \<times> ('sc, 'pt, 'd, 'w) reactor \<Rightarrow> ('sc, 'pt, 'd, 'w) reactor" where
  "respond i xr = (case xr of (Inl e, r) \<Rightarrow> send i (Ir_Error e) r | (Inr response, r) \<Rightarrow> send i response r)"

section \<open>Scans\<close>

definition cancel_timer :: "reactor_key \<Rightarrow> ('sc, 'pt, 'd, 'w) reactor \<Rightarrow> ('sc, 'pt, 'd, 'w) reactor" where
  "cancel_timer key r = r\<lparr>rx_ports := with_timers (timers_cancel key) (rx_ports r)\<rparr>"

definition finish_scan ::
  "ipc_response \<Rightarrow> client_id \<Rightarrow> ('sc, 'pt, 'd, 'w) reactor \<Rightarrow> ('sc, 'pt, 'd, 'w) reactor" where
  "finish_scan response client r =
     send client response
       (cancel_timer (Key_Scan client) (r\<lparr>rx_scans := filter (\<lambda>s. fst s \<noteq> client) (rx_scans r)\<rparr>))"

definition waiting_on :: "u32 \<Rightarrow> ('sc, 'pt, 'd, 'w) reactor \<Rightarrow> client_id list" where
  "waiting_on ifindex r = map fst (filter (\<lambda>s. snd s = ifindex) (rx_scans r))"

definition summarise :: "profile list \<Rightarrow> bss \<Rightarrow> network_summary" where
  "summarise profiles bss =
     \<lparr>ns_ssid = utf8_lossy (bss_ssid bss), ns_bssid = bss_bssid bss, ns_signal_dbm = bss_signal_dbm bss,
      ns_freq_mhz = bss_freq_mhz bss, ns_security = bss_security bss,
      ns_known = list_ex (\<lambda>p. pr_ssid p = bss_ssid bss) profiles\<rparr>"

definition networks :: "'w sys \<Rightarrow> u32 \<Rightarrow> 'w ports \<Rightarrow> (reason + network_summary list) \<times> 'w ports" where
  "networks S ifindex =
     need_nl (\<lambda>p.
       case ask (sys_scan_results S ifindex) p of
         (Inl e, p) \<Rightarrow> (Inl (Re_Text (sys_text e)), p)
       | (Inr results, p) \<Rightarrow>
           (case ask (sys_load_profiles S) p of
              (Inl e, p) \<Rightarrow> (Inl (Re_Text e), p)
            | (Inr profiles, p) \<Rightarrow>
                (Inr (map (summarise profiles) (sort_key (\<lambda>b. - bss_signal_dbm b) results)), p)))"

definition on_scan_done :: "'w sys \<Rightarrow> u32 \<Rightarrow> ('sc, 'pt, 'd, 'w) reactor \<Rightarrow> ('sc, 'pt, 'd, 'w) reactor" where
  "on_scan_done S ifindex r =
     (let waiting = waiting_on ifindex r
      in if waiting = [] then r
         else
           (let (x, r) = on_ports (networks S ifindex) r
            in fold (finish_scan (case x of Inl e \<Rightarrow> Ir_Error e | Inr ns \<Rightarrow> Ir_Networks ns)) waiting r))"

text \<open>The interface a wireless request is for, and its name.\<close>

definition wireless_interface :: "'w sys \<Rightarrow> bytes option \<Rightarrow> 'w ports \<Rightarrow> (reason + u32 \<times> bytes) \<times> 'w ports" where
  "wireless_interface S port =
     need_nl (\<lambda>p.
       case ask (sys_interfaces S) p of
         (Inl e, p) \<Rightarrow> (Inl (Re_Text (sys_text e)), p)
       | (Inr interfaces, p) \<Rightarrow>
           ((case port of
               Some name \<Rightarrow>
                 (case find (\<lambda>i. if_name i = name) interfaces of
                    Some i \<Rightarrow> Inr (if_ifindex i, if_name i)
                  | None \<Rightarrow> Inl (Re_Text (text_of name @ '' is not a wireless port'')))
             | None \<Rightarrow>
                 (case filter if_station interfaces of
                    [] \<Rightarrow> Inl (Re_Text ''no wireless port'')
                  | [only] \<Rightarrow> Inr (if_ifindex only, if_name only)
                  | _ \<Rightarrow> Inl (Re_Text ''several wireless ports; name one''))), p))"

definition trigger_client_scan :: "'w sys \<Rightarrow> u32 \<Rightarrow> bytes \<Rightarrow> 'w ports \<Rightarrow> (reason + unit) \<times> 'w ports" where
  "trigger_client_scan S ifindex name =
     need_nl (\<lambda>p.
       case invoke S (K_TriggerScan ifindex) p of
         (None, p) \<Rightarrow> (Inr (), p)
       | (Some e, p) \<Rightarrow>
           (case e of
              Sys_Kernel n s \<Rightarrow>
                if n = 16 then (Inr (), p)
                else if n = 100 then
                  (Inl (Re_Text (text_of name @ '' is down (caw port up '' @ text_of name @ '')'')), p)
                else (Inl (Re_Text s), p)
            | Sys_Other s \<Rightarrow> (Inl (Re_Text s), p)))"

definition start_scan ::
  "'w sys \<Rightarrow> client_id \<Rightarrow> bytes option \<Rightarrow> ('sc, 'pt, 'd, 'w) reactor \<Rightarrow> (reason + unit) \<times> ('sc, 'pt, 'd, 'w) reactor" where
  "start_scan S client port r =
     (case on_ports (wireless_interface S port) r of
        (Inl e, r) \<Rightarrow> (Inl e, r)
      | (Inr (ifindex, name), r) \<Rightarrow>
          (case on_ports (trigger_client_scan S ifindex name) r of
             (Inl e, r) \<Rightarrow> (Inl e, r)
           | (Inr _, r) \<Rightarrow>
               (let r = arm_now S (Key_Scan client) SCAN_TIMEOUT (r\<lparr>rx_scans := rx_scans r @ [(client, ifindex)]\<rparr>)
                in (Inr (), r\<lparr>rx_ports := trace [Tr_Event client Ie_Scanning] (rx_ports r)\<rparr>))))"

section \<open>Ports\<close>

definition need_rtnl :: "('w ports \<Rightarrow> (reason + 'a) \<times> 'w ports) \<Rightarrow> 'w ports \<Rightarrow> (reason + 'a) \<times> 'w ports" where
  "need_rtnl k p = (if po_rtnl p then k p else (Inl (Re_Text ''rtnetlink is not available''), p))"

definition addresses_of :: "u32 \<Rightarrow> net_address list \<Rightarrow> (ip_addr \<times> u8) list" where
  "addresses_of ifindex addrs =
     map (\<lambda>a. (nd_addr a, nd_prefix_len a)) (filter (\<lambda>a. nd_index a = ifindex) addrs)"

definition ports_summary :: "'w sys \<Rightarrow> bytes option \<Rightarrow> 'w ports \<Rightarrow> (reason + port_summary list) \<times> 'w ports" where
  "ports_summary S only =
     need_rtnl (\<lambda>p.
       case ask (sys_links S) p of
         (Inl e, p) \<Rightarrow> (Inl (Re_Text (sys_text e)), p)
       | (Inr links, p) \<Rightarrow>
           (case ask (sys_addresses S) p of
              (Inl e, p) \<Rightarrow> (Inl (Re_Text (sys_text e)), p)
            | (Inr addrs, p) \<Rightarrow>
                (let summary = map (\<lambda>l. \<lparr>ps_name = nk_name l, ps_mac = nk_mac l, ps_up = nk_up l,
                        ps_carrier = nk_carrier l, ps_wireless = nk_wireless l,
                        ps_addrs = addresses_of (nk_index l) addrs\<rparr>)
                      (filter (\<lambda>l. case only of None \<Rightarrow> True | Some name \<Rightarrow> nk_name l = name) links)
                 in (case only of
                       Some name \<Rightarrow>
                         if summary = [] then Inl (Re_Text (''no such port: '' @ text_of name)) else Inr summary
                     | None \<Rightarrow> Inr summary, p))))"

definition set_link_up :: "'w sys \<Rightarrow> u32 \<Rightarrow> bool \<Rightarrow> 'w ports \<Rightarrow> (reason + unit) \<times> 'w ports" where
  "set_link_up S ifindex up = need_rtnl (attempt S (K_SetUp ifindex up) (\<lambda>p. (Inr (), p)))"

primrec power_save_put :: "u32 \<Rightarrow> bool \<Rightarrow> (u32 \<times> bool) list \<Rightarrow> (u32 \<times> bool) list" where
  "power_save_put ifindex ok [] = [(ifindex, ok)]"
| "power_save_put ifindex ok (e # es) =
     (if fst e = ifindex then (ifindex, ok) # es else e # power_save_put ifindex ok es)"

definition disable_power_save :: "'w sys \<Rightarrow> u32 \<Rightarrow> ('sc, 'pt, 'd, 'w) reactor \<Rightarrow> ('sc, 'pt, 'd, 'w) reactor" where
  "disable_power_save S ifindex r =
     (if \<not> po_nl (rx_ports r) then r
      else
        (let (e, r) = on_ports (invoke S (K_SetPowerSave ifindex False)) r
         in r\<lparr>rx_power_save_off := power_save_put ifindex (e = None) (rx_power_save_off r)\<rparr>))"

definition find_link :: "'w sys \<Rightarrow> bytes \<Rightarrow> 'w ports \<Rightarrow> (reason + net_link) \<times> 'w ports" where
  "find_link S name =
     need_rtnl (\<lambda>p.
       case ask (sys_links S) p of
         (Inl e, p) \<Rightarrow> (Inl (Re_Text (sys_text e)), p)
       | (Inr links, p) \<Rightarrow>
           (case find (\<lambda>l. nk_name l = name) links of
              None \<Rightarrow> (Inl (Re_Text (''no such port: '' @ text_of name)), p)
            | Some l \<Rightarrow> (Inr l, p)))"

definition set_port_up ::
  "'w sys \<Rightarrow> bytes \<Rightarrow> bool \<Rightarrow> ('sc, 'pt, 'd, 'w) reactor \<Rightarrow> (reason + unit) \<times> ('sc, 'pt, 'd, 'w) reactor" where
  "set_port_up S name up r =
     (case on_ports (find_link S name) r of
        (Inl e, r) \<Rightarrow> (Inl e, r)
      | (Inr link, r) \<Rightarrow>
          (case on_ports (set_link_up S (nk_index link) up) r of
             (Inl e, r) \<Rightarrow> (Inl e, r)
           | (Inr _, r) \<Rightarrow>
               (let r = (if nk_wireless link then r\<lparr>rx_auto_paused := \<not> up\<rparr> else r)
                in (Inr (), if up \<and> nk_wireless link then disable_power_save S (nk_index link) r else r))))"

definition wireless_ifindex_up ::
  "'w sys \<Rightarrow> bytes option \<Rightarrow> ('sc, 'pt, 'd, 'w) reactor \<Rightarrow> (reason + u32) \<times> ('sc, 'pt, 'd, 'w) reactor" where
  "wireless_ifindex_up S port r =
     (case on_ports (wireless_interface S port) r of
        (Inl e, r) \<Rightarrow> (Inl e, r)
      | (Inr (ifindex, name), r) \<Rightarrow>
          (case on_ports (set_link_up S ifindex True) r of
             (Inl e, r) \<Rightarrow>
               (Inl (Re_Text (''could not bring '' @ text_of name @ '' up: '' @
                  (case e of Re_Text s \<Rightarrow> s | Re_Failure _ \<Rightarrow> []))), r)
           | (Inr _, r) \<Rightarrow> (Inr ifindex, disable_power_save S ifindex r)))"

definition status :: "'w sys \<Rightarrow> ('sc, 'pt, 'd, 'w) reactor \<Rightarrow> connection_status \<times> ('sc, 'pt, 'd, 'w) reactor" where
  "status S r =
     (let en = rx_engine r;
          ((port, addrs), r) =
            (case engine_ifindex en of
               None \<Rightarrow> (([], []), r)
             | Some ifindex \<Rightarrow>
                 if \<not> po_rtnl (rx_ports r) then (([], []), r)
                 else
                   (let (links, r) = on_ports (ask (sys_links S)) r; (addresses, r) = on_ports (ask (sys_addresses S)) r
                    in ((case links of
                           Inl _ \<Rightarrow> []
                         | Inr ls \<Rightarrow> (case find (\<lambda>l. nk_index l = ifindex) ls of None \<Rightarrow> [] | Some l \<Rightarrow> nk_name l),
                         case addresses of Inl _ \<Rightarrow> [] | Inr ads \<Rightarrow> addresses_of ifindex ads), r)))
      in (\<lparr>cst_port = port, cst_ssid = engine_ssid en, cst_state = engine_state en, cst_addrs = addrs\<rparr>, r))"

section \<open>The daemon's own connect loop\<close>

definition autoconnect_backoff :: "u32 \<Rightarrow> nat" where
  "autoconnect_backoff attempts =
     (let doublings = min (unat attempts - 1) 16
      in secs_ns (min (10 * 2 ^ doublings) 300))"

definition begin_autoconnect ::
  "('sc, 'pt, 'd) env \<Rightarrow> 'w sys \<Rightarrow> ('sc, 'pt, 'd, 'w) reactor \<Rightarrow> ((reason + unit) \<times> ('sc, 'pt, 'd, 'w) reactor) option" where
  "begin_autoconnect E S r =
     (case wireless_ifindex_up S None r of
        (Inl e, r) \<Rightarrow> Some (Inl e, r)
      | (Inr ifindex, r) \<Rightarrow> with_engine S (engine_autoconnect E S ifindex) r)"

definition on_autoconnect ::
  "('sc, 'pt, 'd) env \<Rightarrow> 'w sys \<Rightarrow> ('sc, 'pt, 'd, 'w) reactor \<Rightarrow> ('sc, 'pt, 'd, 'w) reactor option" where
  "on_autoconnect E S r =
     (if \<not> rx_autoconnect r then Some r
      else if rx_auto_paused r \<or> \<not> engine_is_idle (rx_engine r) then
        Some (arm_now S Key_Autoconnect AUTOCONNECT_SETTLED (r\<lparr>rx_auto_attempts := 0\<rparr>))
      else
        (case begin_autoconnect E S r of
           None \<Rightarrow> None
         | Some (_, r) \<Rightarrow>
             (let attempts = (if rx_auto_attempts r = -1 then -1 else rx_auto_attempts r + 1)
              in Some (arm_now S Key_Autoconnect (autoconnect_backoff attempts) (r\<lparr>rx_auto_attempts := attempts\<rparr>)))))"

section \<open>Descriptors\<close>

definition on_key ::
  "('sc, 'pt, 'd) env \<Rightarrow> 'w sys \<Rightarrow> reactor_key \<Rightarrow> ('sc, 'pt, 'd, 'w) reactor \<Rightarrow> ('sc, 'pt, 'd, 'w) reactor option" where
  "on_key E S key r =
     (case key of
        Key_Scan client \<Rightarrow> Some (finish_scan (Ir_Error (Re_Text ''scan timed out'')) client r)
      | Key_Core i \<Rightarrow> drive_engine S (feed E S (In_Timer i)) r
      | Key_Autoconnect \<Rightarrow> on_autoconnect E S r
      | Key_Dhcp timer \<Rightarrow> drive_engine S (engine_on_dhcp_timer E S timer) r)"

definition on_timer ::
  "('sc, 'pt, 'd) env \<Rightarrow> 'w sys \<Rightarrow> ('sc, 'pt, 'd, 'w) reactor \<Rightarrow> ('sc, 'pt, 'd, 'w) reactor option" where
  "on_timer E S r =
     (let p = tick S (rx_ports r);
          (keys, timers) = timers_expired (po_now p) (po_timers p)
      in each (on_key E S) keys (r\<lparr>rx_ports := p\<lparr>po_timers := timers\<rparr>\<rparr>))"

definition on_event ::
  "('sc, 'pt, 'd) env \<Rightarrow> 'w sys \<Rightarrow> event \<Rightarrow> ('sc, 'pt, 'd, 'w) reactor \<Rightarrow> ('sc, 'pt, 'd, 'w) reactor option" where
  "on_event E S ev r =
     drive_engine S (feed E S (In_Wireless ev))
       (case ev of
          Ev_ScanComplete _ ifindex \<Rightarrow> on_scan_done S ifindex r
        | Ev_ScanAborted _ ifindex \<Rightarrow>
            fold (finish_scan (Ir_Error (Re_Text ''the kernel aborted the scan''))) (waiting_on ifindex r) r
        | _ \<Rightarrow> r)"

definition on_wireless ::
  "('sc, 'pt, 'd) env \<Rightarrow> 'w sys \<Rightarrow> sys_error + event list \<Rightarrow> ('sc, 'pt, 'd, 'w) reactor \<Rightarrow> ('sc, 'pt, 'd, 'w) reactor option" where
  "on_wireless E S events r =
     (if \<not> po_nl (rx_ports r) then Some r
      else (case events of Inl _ \<Rightarrow> Some r | Inr evs \<Rightarrow> each (on_event E S) evs r))"

definition on_link_event ::
  "('sc, 'pt, 'd) env \<Rightarrow> 'w sys \<Rightarrow> link_event \<Rightarrow> ('sc, 'pt, 'd, 'w) reactor \<Rightarrow> ('sc, 'pt, 'd, 'w) reactor option" where
  "on_link_event E S ev r =
     (case drive_engine S (engine_on_link E S ev) r of
        None \<Rightarrow> None
      | Some r \<Rightarrow>
          Some (if rx_autoconnect r \<and> \<not> rx_auto_paused r \<and> engine_is_idle (rx_engine r)
                then arm_now S Key_Autoconnect AUTOCONNECT_START (r\<lparr>rx_auto_attempts := 0\<rparr>) else r))"

definition on_eapol ::
  "('sc, 'pt, 'd) env \<Rightarrow> 'w sys \<Rightarrow> bytes list \<Rightarrow> ('sc, 'pt, 'd, 'w) reactor \<Rightarrow> ('sc, 'pt, 'd, 'w) reactor option" where
  "on_eapol E S frames r =
     (if po_eapol (rx_ports r) = None then Some r
      else each (\<lambda>frame. drive_engine S (feed E S (In_Eapol frame))) frames r)"

definition on_dhcp ::
  "('sc, 'pt, 'd) env \<Rightarrow> 'w sys \<Rightarrow> bytes list \<Rightarrow> ('sc, 'pt, 'd, 'w) reactor \<Rightarrow> ('sc, 'pt, 'd, 'w) reactor option" where
  "on_dhcp E S datagrams r =
     (if po_dhcp (rx_ports r) = None then Some r
      else each (\<lambda>bs. drive_engine S (engine_on_dhcp_datagram E S bs)) datagrams r)"

definition check_resume ::
  "('sc, 'pt, 'd) env \<Rightarrow> 'w sys \<Rightarrow> ('sc, 'pt, 'd, 'w) reactor \<Rightarrow> ('sc, 'pt, 'd, 'w) reactor option" where
  "check_resume E S r =
     (let (offset, r) = on_ports (suspend_offset S) r
      in map_option (\<lambda>r. r\<lparr>rx_suspend_offset := offset\<rparr>)
           (if millis_ns 500 < offset - rx_suspend_offset r then
              (case drive_engine S (engine_resume E S) r of
                 None \<Rightarrow> None
               | Some r \<Rightarrow>
                   (let r = fold (finish_scan (Ir_Error (Re_Text ''scan interrupted by suspend'')))
                          (map fst (rx_scans r)) r;
                        r = r\<lparr>rx_auto_attempts := 0\<rparr>
                    in Some (if rx_autoconnect r then arm_now S Key_Autoconnect 0 r else r)))
            else Some r))"

section \<open>Requests\<close>

definition find_client :: "client_id \<Rightarrow> ('sc, 'pt, 'd, 'w) reactor \<Rightarrow> peer option" where
  "find_client i r = map_option snd (find (\<lambda>c. fst c = i) (rx_clients r))"

definition permitted ::
  "'w sys \<Rightarrow> client_id \<Rightarrow> ('sc, 'pt, 'd, 'w) reactor \<Rightarrow> bool \<times> ('sc, 'pt, 'd, 'w) reactor" where
  "permitted S i r =
     (case find_client i r of
        None \<Rightarrow> (False, r)
      | Some peer \<Rightarrow>
          (let ((groups, passwd), r) = on_ports (ask (sys_databases S)) r
           in (may_change_state (database_from_paths groups passwd) peer GROUP, r)))"

definition perform_request ::
  "('sc, 'pt, 'd) env \<Rightarrow> 'w sys \<Rightarrow> client_id \<Rightarrow> ipc_request \<Rightarrow> ('sc, 'pt, 'd, 'w) reactor \<Rightarrow>
   ('sc, 'pt, 'd, 'w) reactor option" where
  "perform_request E S i request r =
     (case request of
        Rq_ListPorts \<Rightarrow> Some (respond i (apfst (map_sum id Ir_Ports) (on_ports (ports_summary S None) r)))
      | Rq_PortInfo name \<Rightarrow> Some (respond i (apfst (map_sum id Ir_Ports) (on_ports (ports_summary S (Some name)) r)))
      | Rq_PortUp name up \<Rightarrow> Some (respond i (apfst (map_sum id (\<lambda>_. Ir_Ok)) (set_port_up S name up r)))
      | Rq_Scan port \<Rightarrow>
          Some (case start_scan S i port r of (Inl e, r) \<Rightarrow> send i (Ir_Error e) r | (Inr _, r) \<Rightarrow> r)
      | Rq_Status \<Rightarrow> Some (case status S r of (st, r) \<Rightarrow> send i (Ir_Status st) r)
      | Rq_Connect ssid port \<Rightarrow>
          (case wireless_ifindex_up S port (r\<lparr>rx_auto_paused := False\<rparr>) of
             (Inl e, r) \<Rightarrow> Some (send i (Ir_Error e) r)
           | (Inr ifindex, r) \<Rightarrow>
               map_option (\<lambda>(x, r). case x of Inl e \<Rightarrow> send i (Ir_Error e) r | Inr _ \<Rightarrow> r)
                 (with_engine S (engine_connect E S ifindex ssid i) r))
      | Rq_Disconnect ssid \<Rightarrow>
          map_option (\<lambda>(x, r). case x of Inl e \<Rightarrow> send i (Ir_Error e) r | Inr _ \<Rightarrow> r\<lparr>rx_auto_paused := True\<rparr>)
            (with_engine S (engine_disconnect E S ssid i) r)
      | Rq_Forget ssid \<Rightarrow>
          map_option (\<lambda>(x, r). case x of Inl e \<Rightarrow> send i (Ir_Error e) r
              | Inr waits \<Rightarrow> if waits then r else send i Ir_Ok r)
            (with_engine S (engine_forget E S ssid i) r)
      | Rq_Secret token v \<Rightarrow>
          map_option (\<lambda>(x, r). case x of Inl e \<Rightarrow> send i (Ir_Error e) r | Inr _ \<Rightarrow> r)
            (with_engine S (engine_secret E S token v i) r)
      | Rq_Shutdown \<Rightarrow> Some ((send i Ir_Ok r)\<lparr>rx_stopping := True\<rparr>))"

definition handle ::
  "('sc, 'pt, 'd) env \<Rightarrow> 'w sys \<Rightarrow> client_id \<Rightarrow> ipc_request \<Rightarrow> ('sc, 'pt, 'd, 'w) reactor \<Rightarrow>
   ('sc, 'pt, 'd, 'w) reactor option" where
  "handle E S i request r =
     (case (if is_state_changing request then permitted S i r else (True, r)) of
        (allowed, r) \<Rightarrow>
          if \<not> allowed then
            Some (send i (Ir_Error (Re_Text
              ''permission denied: this needs root or membership of the caw group'')) r)
          else perform_request E S i request r)"

definition forget :: "client_id \<Rightarrow> ('sc, 'pt, 'd, 'w) reactor \<Rightarrow> ('sc, 'pt, 'd, 'w) reactor" where
  "forget i r =
     (cancel_timer (Key_Scan i) (r\<lparr>rx_scans := filter (\<lambda>s. fst s \<noteq> i) (rx_scans r)\<rparr>))
       \<lparr>rx_engine := engine_forget_client i (rx_engine r)\<rparr>"

section \<open>The loop\<close>

text \<open>A source that woke the loop, with what its descriptor yielded.\<close>

datatype source = Sr_Timer | Sr_Signal | Sr_Listener "(peer \<times> ipc_request list) list"
  | Sr_Client client_id "ipc_request list" | Sr_Wireless "sys_error + event list"
  | Sr_Links "link_event list" | Sr_Eapol "bytes list" | Sr_Dhcp "bytes list"

definition admit :: "peer \<times> ipc_request list \<Rightarrow> ('sc, 'pt, 'd, 'w) reactor \<Rightarrow>
    (client_id \<times> ipc_request list) \<times> ('sc, 'pt, 'd, 'w) reactor" where
  "admit pq r =
     ((rx_next_id r, snd pq),
      r\<lparr>rx_clients := rx_clients r @ [(rx_next_id r, fst pq)], rx_next_id := rx_next_id r + 1\<rparr>)"

primrec admit_all :: "(peer \<times> ipc_request list) list \<Rightarrow> ('sc, 'pt, 'd, 'w) reactor \<Rightarrow>
    (client_id \<times> ipc_request list) list \<times> ('sc, 'pt, 'd, 'w) reactor" where
  "admit_all [] r = ([], r)"
| "admit_all (pq # pqs) r = (case admit pq r of (x, r) \<Rightarrow> case admit_all pqs r of (xs, r) \<Rightarrow> (x # xs, r))"

definition handle_all ::
  "('sc, 'pt, 'd) env \<Rightarrow> 'w sys \<Rightarrow> client_id \<times> ipc_request list \<Rightarrow> ('sc, 'pt, 'd, 'w) reactor \<Rightarrow>
   ('sc, 'pt, 'd, 'w) reactor option" where
  "handle_all E S iq r = each (handle E S (fst iq)) (snd iq) r"

definition dispatch ::
  "('sc, 'pt, 'd) env \<Rightarrow> 'w sys \<Rightarrow> source \<Rightarrow> ('sc, 'pt, 'd, 'w) reactor \<Rightarrow> ('sc, 'pt, 'd, 'w) reactor option" where
  "dispatch E S source r =
     (case source of
        Sr_Timer \<Rightarrow> on_timer E S r
      | Sr_Signal \<Rightarrow> Some (r\<lparr>rx_stopping := True\<rparr>)
      | Sr_Listener pqs \<Rightarrow> (case admit_all pqs r of (iqs, r) \<Rightarrow> each (handle_all E S) iqs r)
      | Sr_Client i requests \<Rightarrow> handle_all E S (i, requests) r
      | Sr_Wireless events \<Rightarrow> on_wireless E S events r
      | Sr_Links events \<Rightarrow> each (on_link_event E S) events r
      | Sr_Eapol frames \<Rightarrow> on_eapol E S frames r
      | Sr_Dhcp datagrams \<Rightarrow> on_dhcp E S datagrams r)"

text \<open>The clients \<^verbatim>\<open>Server::reap\<close> named are dropped, and then what was held for them.\<close>

definition drop_clients :: "client_id list \<Rightarrow> ('sc, 'pt, 'd, 'w) reactor \<Rightarrow> ('sc, 'pt, 'd, 'w) reactor" where
  "drop_clients gone r = fold forget gone (r\<lparr>rx_clients := filter (\<lambda>c. fst c \<notin> set gone) (rx_clients r)\<rparr>)"

text \<open>What the timer descriptor is armed with.\<close>

definition rearm :: "'w sys \<Rightarrow> ('sc, 'pt, 'd, 'w) reactor \<Rightarrow> nat \<times> ('sc, 'pt, 'd, 'w) reactor" where
  "rearm S r =
     (case next_deadline (po_timers (rx_ports r)) of
        None \<Rightarrow> (secs_ns 2, r)
      | Some at \<Rightarrow>
          (let (now, r) = on_ports (ask (sys_monotonic S)) r in (min (at - now) (secs_ns 2), r)))"

record wake =
  wk_ready :: "source list"
  wk_gone :: "client_id list"

definition wake_up ::
  "('sc, 'pt, 'd) env \<Rightarrow> 'w sys \<Rightarrow> ('sc, 'pt, 'd, 'w) reactor \<Rightarrow> wake \<Rightarrow>
   (('sc, 'pt, 'd, 'w) reactor \<times> nat list) option" where
  "wake_up E S r w =
     (case check_resume E S r of
        None \<Rightarrow> None
      | Some r \<Rightarrow>
          map_option (\<lambda>r. case rearm S (drop_clients (wk_gone w) r) of (delay, r) \<Rightarrow> (r, [delay]))
            (each (dispatch E S) (wk_ready w) r))"

definition shutdown ::
  "('sc, 'pt, 'd) env \<Rightarrow> 'w sys \<Rightarrow> ('sc, 'pt, 'd, 'w) reactor \<Rightarrow> ('sc, 'pt, 'd, 'w) reactor option" where
  "shutdown E S r = drive_engine S (engine_shut_down E S) r"

text \<open>\<open>nl\<close> and \<open>rtnl\<close> say which netlink sockets opened.\<close>

definition reactor_new :: "'w sys \<Rightarrow> bool \<Rightarrow> bool \<Rightarrow> bool \<Rightarrow> 'w \<Rightarrow> ('sc, 'pt, 'd, 'w) reactor" where
  "reactor_new S nl rtnl autoconnect w =
     (let (offset, p) = suspend_offset S
            \<lparr>po_nl = nl, po_eapol = None, po_rtnl = rtnl, po_dhcp = None, po_timers = timers_new, po_now = 0,
             po_world = w, po_trace = []\<rparr>
      in \<lparr>rx_clients = [], rx_next_id = 1, rx_engine = engine_new, rx_ports = p, rx_power_save_off = [],
          rx_scans = [], rx_autoconnect = autoconnect, rx_auto_attempts = 0, rx_stopping = False,
          rx_suspend_offset = offset, rx_auto_paused = False\<rparr>)"

text \<open>The loop over a list of wake-ups: it stops at the first after which it is told to, and shuts down.\<close>

definition run_start :: "'w sys \<Rightarrow> ('sc, 'pt, 'd, 'w) reactor \<Rightarrow> nat \<times> ('sc, 'pt, 'd, 'w) reactor" where
  "run_start S r = rearm S (if rx_autoconnect r then arm_now S Key_Autoconnect AUTOCONNECT_START r else r)"

primrec run_loop ::
  "('sc, 'pt, 'd) env \<Rightarrow> 'w sys \<Rightarrow> wake list \<Rightarrow> ('sc, 'pt, 'd, 'w) reactor \<Rightarrow> ('sc, 'pt, 'd, 'w) reactor option" where
  "run_loop E S [] r = (if rx_stopping r then shutdown E S r else Some r)"
| "run_loop E S (w # ws) r =
     (if rx_stopping r then shutdown E S r
      else (case wake_up E S r w of None \<Rightarrow> None | Some (r, _) \<Rightarrow> run_loop E S ws r))"

end
