(* ===== verification/Conn_Outcome.thy ===== *)
theory Conn_Outcome
  imports Conn_Effects
begin

text \<open>
  What the daemon's engine needs to know of a poll of the connection
  (\<^verbatim>\<open>src/crates/caw-core/src/conn.rs\<close>): the device never changes, reaching an end state is announced,
  scan results are asked for by one action alone, and a profile to save is already inserted.
\<close>

definition closing :: "action \<Rightarrow> bool" where
  "closing a \<longleftrightarrow> (case a of
     Ac_Notify st \<Rightarrow> st = Cs_Idle \<or> st = Cs_Connected | Ac_Failed _ \<Rightarrow> True | _ \<Rightarrow> False)"

definition mute :: "action \<Rightarrow> bool" where
  "mute a \<longleftrightarrow> (case a of Ac_SaveProfile _ \<Rightarrow> False | Ac_FetchScanResults _ \<Rightarrow> False | _ \<Rightarrow> True)"

definition ended :: "conn_state \<Rightarrow> bool" where
  "ended st \<longleftrightarrow> st = Cs_Idle \<or> st = Cs_Connected"

definition announced :: "('sc, 'pt, 'd) conn \<Rightarrow> action list \<Rightarrow> ('sc, 'pt, 'd) conn \<Rightarrow> bool" where
  "announced c out c' \<longleftrightarrow> cn_device c' = cn_device c \<and>
     (ended (cn_state c') \<longrightarrow> cn_state c' = cn_state c \<or> list_ex closing out)"

definition orderly :: "('sc, 'pt, 'd) conn \<Rightarrow> (('sc, 'pt, 'd) conn \<times> action list) option \<Rightarrow> bool" where
  "orderly c r \<longleftrightarrow> (case r of None \<Rightarrow> True | Some (c', out) \<Rightarrow> list_all mute out \<and> announced c out c')"

lemma orderly_simps [simp]:
  "orderly c None"
  "orderly c (Some p) \<longleftrightarrow> list_all mute (snd p) \<and> announced c (snd p) (fst p)"
  by (simp_all add: orderly_def case_prod_unfold)

lemma announced_refl [simp]: "announced c out c"
  by (simp add: announced_def)

lemma ended_simps [simp]:
  "ended Cs_Idle" "ended Cs_Connected" "\<not> ended Cs_Scanning" "\<not> ended Cs_Authenticating" "\<not> ended Cs_Associating"
  "\<not> ended Cs_Handshaking" "\<not> ended Cs_Configuring" "\<not> ended Cs_Reconnecting"
  by (simp_all add: ended_def)

lemma announced_trans: "announced c o1 c1 \<Longrightarrow> announced c1 o2 c2 \<Longrightarrow> announced c (o1 @ o2) c2"
proof -
  assume a: "announced c o1 c1" and b: "announced c1 o2 c2"
  have "cn_state c2 = cn_state c \<or> list_ex closing (o1 @ o2)" if e: "ended (cn_state c2)"
  proof -
    have "cn_state c2 = cn_state c1 \<or> list_ex closing o2" using b e unfolding announced_def by blast
    then show ?thesis
    proof
      assume eq: "cn_state c2 = cn_state c1"
      have "ended (cn_state c1)" using e unfolding eq .
      then have "cn_state c1 = cn_state c \<or> list_ex closing o1" using a unfolding announced_def by blast
      then show ?thesis unfolding eq list_ex_append by blast
    qed simp
  qed
  moreover have "cn_device c2 = cn_device c" using a b by (simp add: announced_def)
  ultimately show ?thesis unfolding announced_def by blast
qed

lemma announced_more: "announced c o1 c1 \<Longrightarrow> announced c (o1 @ o2) c1"
  by (rule announced_trans[OF _ announced_refl])

lemma announced_attempts [simp]: "announced c out (c' \<lparr> cn_attempts := n \<rparr>) = announced c out c'"
  by (simp add: announced_def)

lemma announced_from:
  "cn_state c1 = cn_state c \<Longrightarrow> cn_device c1 = cn_device c \<Longrightarrow> announced c1 out c' \<longleftrightarrow> announced c out c'"
  by (simp add: announced_def)

lemma orderly_then:
  "orderly c (Some (c1, o1)) \<Longrightarrow> orderly c1 (k c1) \<Longrightarrow> orderly c (emit_then (Some (c1, o1)) k)"
  by (cases "k c1") (auto intro: announced_trans)

lemma orderly_from:
  "orderly c1 r \<Longrightarrow> cn_state c1 = cn_state c \<Longrightarrow> cn_device c1 = cn_device c \<Longrightarrow> orderly c r"
  using announced_from[of c1 c] by (cases r) simp_all

section \<open>Transitions\<close>

lemma mute_enter [simp]: "list_all mute (snd (conn_enter st c))"
  by (auto simp: conn_enter_eq mute_def split: option.split)

lemma mute_disarm [simp]: "list_all mute (snd (conn_disarm c))"
  by (auto simp: conn_disarm_eq mute_def split: option.split)

lemma announced_enter [simp]: "announced c (snd (conn_enter st c)) (fst (conn_enter st c))"
  by (cases st) (auto simp: conn_enter_eq announced_def closing_def)

lemma announced_disarm [simp]: "announced c (snd (conn_disarm c)) (fst (conn_disarm c))"
  by (simp add: conn_disarm_eq announced_def)

lemma announced_arm [simp]: "announced c (snd (conn_arm i ms c)) (fst (conn_arm i ms c))"
  by (simp add: conn_arm_def announced_def)

lemma mute_arm [simp]: "list_all mute (snd (conn_arm i ms c))"
  by (simp add: conn_arm_def mute_def)

lemma orderly_fail: "list_all mute (snd (conn_fail f c)) \<and> announced c (snd (conn_fail f c)) (fst (conn_fail f c))"
proof (cases rule: conn_fail_cases[of f c])
  case retry
  then show ?thesis
    by (simp add: conn_fail_retry) (simp add: announced_def mute_def conn_enter_eq)
next
  case stop
  then show ?thesis
    by (simp add: conn_fail_stop) (simp add: announced_def mute_def closing_def)
qed

lemma mute_fail [simp]: "list_all mute (snd (conn_fail f c))"
  and announced_fail [simp]: "announced c (snd (conn_fail f c)) (fst (conn_fail f c))"
  using orderly_fail[of f c] by simp_all

lemma announced_fail_from:
  "cn_state c1 = cn_state c \<Longrightarrow> cn_device c1 = cn_device c \<Longrightarrow>
     announced c (snd (conn_fail f c1)) (fst (conn_fail f c1))"
  by (simp flip: announced_from[of c1 c])

lemma mute_start_scan [simp]: "list_all mute (snd (conn_start_scan c))"
  by (simp add: conn_start_scan_eq) (simp add: mute_def)

lemma start_scan_state: "cn_state (fst (conn_start_scan c)) = Cs_Scanning \<and> cn_device (fst (conn_start_scan c)) = cn_device c"
  by (simp add: conn_start_scan_eq conn_enter_eq)

lemma announced_start_scan: "cn_device c1 = cn_device c \<Longrightarrow> announced c out (fst (conn_start_scan c1))"
  by (simp add: announced_def start_scan_state)

section \<open>Handlers\<close>

lemma orderly_associate [simp]: "orderly c (conn_associate c)"
proof -
  have "orderly c (emit_then (Some (conn_enter Cs_Associating (c \<lparr> cn_session := s \<rparr>)))
      (\<lambda>c. emit_then (Some (c, [Ac_Associate r])) (\<lambda>c. Some (conn_arm AssocTimeout ASSOC_TIMEOUT_MS c))))" for s r
    by (auto simp: conn_enter_eq conn_arm_def announced_def mute_def split: option.split)
  then show ?thesis
    by (simp add: conn_associate_def Let_def split: option.split prod.split del: emit_then_simps)
qed

lemma orderly_on_sae_step [simp]: "orderly c (conn_on_sae_step r c)"
proof -
  have "orderly c (conn_associate (c \<lparr> cn_session := s \<rparr>))" for s
    by (rule orderly_from[OF orderly_associate]) simp_all
  then show ?thesis
    by (simp add: conn_on_sae_step_def conn_arm_def Let_def split: sum.split pstep.split option.split)
      (simp add: announced_def mute_def)
qed

lemma orderly_drive_sae [simp]: "orderly c (conn_drive_sae E ev c)"
proof -
  have "orderly c (conn_on_sae_step r (c \<lparr> cn_session := s \<rparr>))" for r s
    by (rule orderly_from[OF orderly_on_sae_step]) simp_all
  then show ?thesis
    by (simp add: conn_drive_sae_def Let_def split: option.split auth.split prod.split)
qed

lemma orderly_plan [simp]: "orderly c (conn_plan E rnd b roaming c)"
proof -
  have "orderly c (conn_start_sae E c)" for c
    unfolding conn_start_sae_def by (subst prod.collapse[symmetric], rule orderly_then) simp_all
  then have sae: "orderly c (conn_start_sae E (c \<lparr> cn_session := s \<rparr>))" for s
    by (rule orderly_from) simp_all
  have assoc: "orderly c (conn_associate (c \<lparr> cn_session := s \<rparr>))" for s
    by (rule orderly_from[OF orderly_associate]) simp_all
  have "orderly c (emit_then (Some (conn_disarm c)) (\<lambda>c. Some (c \<lparr> cn_pending := Some b \<rparr>, [Ac_RequestSecret (conn_ssid_bytes c)])))"
    by (subst prod.collapse[symmetric], rule orderly_then) (simp_all, simp add: mute_def announced_def)
  then show ?thesis using sae assoc
    by (simp add: conn_plan_def Let_def split: sum.split option.split del: emit_then_simps)
qed

lemma orderly_plan_from:
  "cn_state c1 = cn_state c \<Longrightarrow> cn_device c1 = cn_device c \<Longrightarrow> orderly c (conn_plan E rnd b roaming c1)"
  by (rule orderly_from[OF orderly_plan])

lemma orderly_on_scan_results [simp]: "orderly c (conn_on_scan_results E rnd scan c)"
  by (simp add: conn_on_scan_results_def conn_select_def conn_consider_roam_def Let_def orderly_plan_from
      split: conn_state.split option.split sum.split prod.split) (simp add: announced_def)

lemma orderly_on_command [simp]: "orderly c (conn_on_command E rnd cmd c)"
proof (cases cmd)
  case (Cmd_Connect ssid)
  show ?thesis unfolding Cmd_Connect conn_on_command_def command.case Let_def
    by (rule orderly_then) (simp_all add: mute_def announced_start_scan)
next
  case Cmd_Disconnect
  show ?thesis
    by (auto simp: Cmd_Disconnect conn_on_command_def conn_go_idle_def conn_disarm_eq mute_def closing_def announced_def
        split: option.split)
next
  case (Cmd_Secret x)
  have "orderly c (Some (c \<lparr> cn_target := t \<rparr>, []))" for t by (simp add: announced_def)
  moreover have "orderly c (conn_plan E rnd b False (c \<lparr> cn_target := t, cn_pending := q \<rparr>))" for b t q
    by (rule orderly_plan_from) simp_all
  ultimately show ?thesis
    by (cases "cn_target c"; cases "cn_pending c") (simp_all add: Cmd_Secret conn_on_command_def Let_def)
next
  case Cmd_Autoconnect
  show ?thesis
    by (cases "cn_state c = Cs_Idle") (simp_all add: Cmd_Autoconnect conn_on_command_def announced_start_scan)
qed

lemma orderly_configured: "list_all mute (snd (conn_configured c)) \<and> announced c (snd (conn_configured c)) (fst (conn_configured c))"
  by (simp add: conn_configured_def Let_def case_prod_unfold announced_more) (simp add: mute_def)

lemma orderly_configured_from:
  "cn_state c1 = cn_state c \<Longrightarrow> cn_device c1 = cn_device c \<Longrightarrow>
     list_all mute (snd (conn_configured c1)) \<and> announced c (snd (conn_configured c1)) (fst (conn_configured c1))"
  using orderly_configured[of c1] announced_from[of c1 c] by simp

lemma orderly_start_handshake [simp]: "orderly c (conn_start_handshake rnd pmk (c \<lparr> cn_session := s \<rparr>))"
proof -
  have "orderly (c \<lparr> cn_session := s \<rparr>) (conn_start_handshake rnd pmk (c \<lparr> cn_session := s \<rparr>))"
    by (simp add: conn_start_handshake_def split: option.split)
      (auto simp: announced_def conn_enter_eq closing_def)
  then show ?thesis by (rule orderly_from) simp_all
qed

lemma orderly_hs_actions: "orderly c (conn_hs_actions acts b c)"
proof (induction acts arbitrary: b c)
  case Nil
  then show ?case using orderly_configured[of c] by simp
next
  case (Cons a acts)
  have arm: "orderly c (conn_hs_actions acts b (c \<lparr> cn_armed := x \<rparr>))" for b x
    by (rule orderly_from[OF Cons.IH]) simp_all
  then have "orderly c (emit_then (Some (conn_arm HandshakeRetry ms c)) (conn_hs_actions acts b))" for ms
    unfolding conn_arm_def using Cons.IH by (intro orderly_then) (simp_all add: mute_def announced_def)
  moreover have "orderly c (emit_then (Some (conn_disarm c)) (conn_hs_actions acts b))"
    unfolding conn_disarm_eq using Cons.IH by (intro orderly_then) (simp_all add: mute_def announced_def split: option.split)
  moreover have "orderly c (emit_then (Some (c, [x])) (conn_hs_actions acts b))" if "mute x" for x b
    using Cons.IH that by (intro orderly_then) simp_all
  ultimately show ?case
    by (simp add: mute_def split: fw_action.split option.split del: emit_then_simps)
qed

lemma orderly_poll_handshake [simp]: "orderly c (conn_poll_handshake E i c)"
proof -
  have "orderly c (conn_on_handshake_actions r (c \<lparr> cn_session := s \<rparr>))" for r s
    using orderly_from[OF orderly_hs_actions, of "c \<lparr> cn_session := s \<rparr>" c]
    by (simp add: conn_on_handshake_actions_def announced_fail_from split: sum.split)
  then show ?thesis by (simp add: conn_poll_handshake_def split: option.split prod.split)
qed

lemma orderly_drive_dot1x [simp]: "orderly c (conn_drive_dot1x E rnd frame c)"
  by (simp add: conn_drive_dot1x_def Let_def announced_fail_from
      split: option.split auth.split sum.split pstep.split prod.split) (simp add: mute_def announced_def)

lemma orderly_on_associated [simp]: "orderly c (conn_on_associated E rnd c)"
proof -
  have "orderly c1 (emit_then (Some (conn_enter Cs_Handshaking c1)) (conn_drive_dot1x E rnd None))" for c1
    by (subst prod.collapse[symmetric], rule orderly_then) simp_all
  then have "orderly c (emit_then (Some (conn_enter Cs_Handshaking (c \<lparr> cn_session := s \<rparr>))) (conn_drive_dot1x E rnd None))" for s
    by (rule orderly_from) simp_all
  then show ?thesis
    by (simp add: conn_on_associated_def Let_def orderly_configured_from announced_fail_from
        split: option.split auth.split del: emit_then_simps)
qed

lemma orderly_on_eapol [simp]: "orderly c (conn_on_eapol E rnd frame c)"
  by (simp add: conn_on_eapol_def split: sum.split packet_type.split)

lemma orderly_on_timer [simp]: "orderly c (conn_on_timer E i c)"
  by (simp add: conn_on_timer_def announced_start_scan split: timer_id.split conn_state.split)

section \<open>The poll\<close>

lemma save_profile_cases:
  "conn_save_profile c = (c, []) \<or>
   (\<exists>p c1. conn_save_profile c = (conn_insert_profile p c1, [Ac_SaveProfile p]) \<and>
      cn_state c1 = cn_state c \<and> cn_device c1 = cn_device c)"
  by (auto simp: conn_save_profile_def Let_def split: option.splits)

lemma insert_twice: "conn_insert_profile p (conn_insert_profile p c) = conn_insert_profile p c"
  by (cases "cn_target c") (simp_all add: conn_insert_profile_def)

text \<open>Everything but scan results and a lease is orderly; those two are what they are.\<close>

lemma conn_poll_outcome:
  assumes "conn_poll E c ri = Some (c', out)"
  shows "announced c out c' \<and>
    (\<forall>p. Ac_SaveProfile p \<in> set out \<longrightarrow> conn_insert_profile p c' = c') \<and>
    (\<forall>n. Ac_FetchScanResults n \<in> set out \<longrightarrow> (\<exists>w i. snd ri = In_Wireless (Ev_ScanComplete w i)) \<and> out = [Ac_FetchScanResults n])"
proof -
  have ord: ?thesis if "orderly c (Some (c', out))"
    using that by (auto simp: list_all_iff mute_def)
  obtain rnd i where ri: "ri = (rnd, i)" by fastforce
  show ?thesis
  proof (cases i)
    case (In_Wireless ev)
    show ?thesis
    proof (cases "\<exists>w k. ev = Ev_ScanComplete w k")
      case True
      then show ?thesis using assms ri In_Wireless
        by (auto simp: conn_poll_def conn_on_wireless_def split: if_splits)
    next
      case False
      then have "orderly c (conn_on_wireless E rnd ev c)"
        by (auto simp: conn_on_wireless_def split: event.split connect_status.split option.split)
      then show ?thesis using ord assms ri In_Wireless by (simp add: conn_poll_def)
    qed
  next
    case (In_Lease ev)
    then have l: "conn_on_lease ev c = (c', out)" using assms ri by (simp add: conn_poll_def)
    show ?thesis
    proof (cases ev)
      case (Le_Acquired lease)
      let ?c = "(fst (conn_enter Cs_Connected c)) \<lparr> cn_attempts := 0 \<rparr>"
      have c': "c' = fst (conn_save_profile ?c)"
          and out: "out = [Ac_ApplyLease lease] @ snd (conn_enter Cs_Connected c) @ snd (conn_save_profile ?c)"
        using l Le_Acquired by (simp_all add: conn_on_lease_def Let_def case_prod_unfold)
      have enter: "list_ex closing (snd (conn_enter Cs_Connected c))" by (simp add: conn_enter_eq closing_def)
      have no: "Ac_SaveProfile p \<notin> set (snd (conn_enter Cs_Connected c))"
          "Ac_FetchScanResults n \<notin> set (snd (conn_enter Cs_Connected c))" for p n
        using mute_enter[of Cs_Connected c] by (auto simp: list_all_iff mute_def)
      have dev: "cn_device ?c = cn_device c" by (simp add: conn_enter_eq)
      from save_profile_cases[of ?c] show ?thesis
      proof (elim disjE exE conjE)
        assume s: "conn_save_profile ?c = (?c, [])"
        show ?thesis unfolding c' out s using enter no dev by (simp add: announced_def)
      next
        fix p c1
        assume s: "conn_save_profile ?c = (conn_insert_profile p c1, [Ac_SaveProfile p])" and d: "cn_device c1 = cn_device ?c"
        have "cn_device (conn_insert_profile p c1) = cn_device c" using d dev by (simp add: conn_insert_profile_def)
        then show ?thesis unfolding c' out s using enter no insert_twice[of p c1] by (auto simp: announced_def)
      qed
    next
      case (Le_Lost r)
      have "orderly c (Some (conn_on_lease (Le_Lost r) c))"
        by (simp add: conn_on_lease_def Let_def case_prod_unfold announced_more) (simp add: mute_def)
      then show ?thesis unfolding l[unfolded Le_Lost] by (rule ord)
    next
      case Le_Failed
      then show ?thesis using l ord mute_fail[of F_Dhcp c] announced_fail[of c F_Dhcp] by (simp add: conn_on_lease_def)
    qed
  next
    case (In_Command cmd)
    then have e: "conn_on_command E rnd cmd c = Some (c', out)" using assms ri by (simp add: conn_poll_def)
    have "orderly c (conn_on_command E rnd cmd c)" by simp
    then show ?thesis unfolding e by (rule ord)
  next
    case (In_ScanResults scan)
    then have e: "conn_on_scan_results E rnd scan c = Some (c', out)" using assms ri by (simp add: conn_poll_def)
    have "orderly c (conn_on_scan_results E rnd scan c)" by simp
    then show ?thesis unfolding e by (rule ord)
  next
    case (In_Eapol frame)
    then have e: "conn_on_eapol E rnd frame c = Some (c', out)" using assms ri by (simp add: conn_poll_def)
    have "orderly c (conn_on_eapol E rnd frame c)" by simp
    then show ?thesis unfolding e by (rule ord)
  next
    case (In_Timer t)
    then have e: "conn_on_timer E t c = Some (c', out)" using assms ri by (simp add: conn_poll_def)
    have "orderly c (conn_on_timer E t c)" by simp
    then show ?thesis unfolding e by (rule ord)
  qed
qed

end
