(* ===== verification/Engine_Inv.thy ===== *)
theory Engine_Inv
  imports Engine Conn_Outcome Conn_Props
begin

text \<open>
  What every operation of the engine (\<^verbatim>\<open>src/crates/cawd/src/engine.rs\<close>) keeps: the timers of the
  connection in the daemon's wheel are those the state machine believes in, a DHCP deadline exists
  only while an exchange does, and a client that waits waits for an attempt that is under way.
\<close>

section \<open>Effects on the ports\<close>

definition is_call :: "effect \<Rightarrow> bool" where
  "is_call e \<longleftrightarrow> (case e of Tr_Call _ _ \<Rightarrow> True | _ \<Rightarrow> False)"

definition is_dhcp_key :: "reactor_key \<Rightarrow> bool" where
  "is_dhcp_key k \<longleftrightarrow> (case k of Key_Dhcp _ \<Rightarrow> True | _ \<Rightarrow> False)"

text \<open>No DHCP deadline without an exchange, and one entry per key.\<close>

definition wheel_sound :: "'w ports \<Rightarrow> bool" where
  "wheel_sound p \<longleftrightarrow> timers_ok (po_timers p) \<and>
     (po_dhcp p = None \<longrightarrow> (\<forall>t. deadline (po_timers p) (Key_Dhcp t) = None))"

definition grows :: "(effect \<Rightarrow> bool) \<Rightarrow> 'w ports \<Rightarrow> 'w ports \<Rightarrow> bool" where
  "grows P p p' \<longleftrightarrow> (\<exists>fx. po_trace p' = po_trace p @ fx \<and> list_all P fx)"

text \<open>Only calls were made, and of the wheel only the deadlines of the exchange changed.\<close>

definition calls :: "'w ports \<Rightarrow> 'w ports \<Rightarrow> bool" where
  "calls p p' \<longleftrightarrow> grows is_call p p' \<and> (wheel_sound p \<longrightarrow> wheel_sound p') \<and>
     (\<forall>k. \<not> is_dhcp_key k \<longrightarrow> deadline (po_timers p') k = deadline (po_timers p) k)"

lemma grows_refl [simp]: "grows P p p"
  unfolding grows_def by (rule exI[of _ "[]"]) simp

lemma grows_trans: "grows P p1 p2 \<Longrightarrow> grows P p2 p3 \<Longrightarrow> grows P p1 p3"
  by (auto simp: grows_def)

lemma grows_mono: "grows P p p' \<Longrightarrow> (\<And>e. P e \<Longrightarrow> Q e) \<Longrightarrow> grows Q p p'"
  by (auto simp: grows_def list_all_iff)

lemma calls_refl [simp]: "calls p p"
  by (simp add: calls_def)

lemma calls_trans: "calls p1 p2 \<Longrightarrow> calls p2 p3 \<Longrightarrow> calls p1 p3"
  by (auto simp: calls_def intro: grows_trans)

text \<open>A change of ports that leaves the trace, the wheel and the exchange alone.\<close>

definition same_desk :: "'w ports \<Rightarrow> 'w ports \<Rightarrow> bool" where
  "same_desk p p' \<longleftrightarrow> po_trace p' = po_trace p \<and> po_timers p' = po_timers p \<and>
     (po_dhcp p' = None \<longleftrightarrow> po_dhcp p = None)"

lemma calls_same: "same_desk p p' \<Longrightarrow> calls p p'"
  by (auto simp: same_desk_def calls_def grows_def wheel_sound_def)

lemma invoke_eq:
  "invoke S k p = (fst (sys_call S k (po_world p)),
     p\<lparr>po_world := snd (sys_call S k (po_world p)),
       po_trace := po_trace p @ [Tr_Call k (fst (sys_call S k (po_world p)) = None)]\<rparr>)"
  by (simp add: invoke_def Let_def case_prod_unfold)

lemma ask_eq: "ask q p = (fst (q (po_world p)), p\<lparr>po_world := snd (q (po_world p))\<rparr>)"
  by (simp add: ask_def Let_def case_prod_unfold)

lemma calls_invoke [simp]: "calls p (snd (invoke S k p))"
  by (simp add: invoke_eq calls_def grows_def is_call_def wheel_sound_def)

lemma calls_ask [simp]: "calls p (snd (ask q p))"
  by (rule calls_same) (simp add: ask_eq same_desk_def)

lemma calls_invokeD: "invoke S k p = (r, p') \<Longrightarrow> calls p p'"
  using calls_invoke[of p S k] by simp

lemma calls_askD: "ask q p = (r, p') \<Longrightarrow> calls p p'"
  using calls_ask[of p q] by simp

lemma deadline_cancel: "deadline (timers_cancel k es) j = (if j = k then None else deadline es j)"
  by (simp add: timers_cancel_eq wheel.due_cancel_if)

lemma timers_ok_cancel: "timers_ok es \<Longrightarrow> timers_ok (timers_cancel k es)"
  by (simp add: timers_cancel_def timers_ok_filter)

lemma calls_arm_dhcp: "po_dhcp p \<noteq> None \<Longrightarrow> calls p (arm_key (Key_Dhcp t) d p)"
  by (simp add: calls_def grows_def arm_key_def with_timers_def wheel_sound_def wheel.due_arm timers_ok_arm is_dhcp_key_def)

lemma calls_drop_probe [simp]: "calls p (drop_probe_route S p)"
proof -
  have "calls p (p\<lparr>po_dhcp := Some x\<rparr>)" if "po_dhcp p = Some y" for x y
    by (rule calls_same) (simp add: same_desk_def that)
  then show ?thesis
    by (auto simp: drop_probe_route_def split: option.split intro: calls_trans[OF _ calls_invoke])
qed

lemma stop_dhcp_eq:
  "stop_dhcp S p =
     (let p = (if po_rtnl p then drop_probe_route S p else p)
      in p\<lparr>po_dhcp := None, po_timers :=
           timers_cancel (Key_Dhcp Dt_Expire) (timers_cancel (Key_Dhcp Dt_Rebind)
             (timers_cancel (Key_Dhcp Dt_Renew) (timers_cancel (Key_Dhcp Dt_Retransmit) (po_timers p))))\<rparr>)"
  by (simp add: stop_dhcp_def with_timers_def Let_def)

lemma drop_probe_timers [simp]: "po_timers (drop_probe_route S p) = po_timers p"
  by (auto simp: drop_probe_route_def invoke_eq split: option.split)

lemma stop_dhcp_deadline [simp]:
  "deadline (po_timers (stop_dhcp S p)) k = (if is_dhcp_key k then None else deadline (po_timers p) k)"
proof (cases k)
  case (Key_Dhcp t)
  then show ?thesis by (cases t) (simp_all add: stop_dhcp_eq Let_def deadline_cancel is_dhcp_key_def)
qed (simp_all add: stop_dhcp_eq Let_def deadline_cancel is_dhcp_key_def)

lemma stop_dhcp_gone [simp]: "po_dhcp (stop_dhcp S p) = None"
  by (simp add: stop_dhcp_eq Let_def)

lemma stop_dhcp_timers_ok: "timers_ok (po_timers p) \<Longrightarrow> timers_ok (po_timers (stop_dhcp S p))"
  by (simp add: stop_dhcp_eq Let_def timers_ok_cancel)

lemma stop_dhcp_sound: "timers_ok (po_timers p) \<Longrightarrow> wheel_sound (stop_dhcp S p)"
  by (simp add: wheel_sound_def stop_dhcp_timers_ok is_dhcp_key_def)

lemma calls_stop_dhcp [simp]: "calls p (stop_dhcp S p)"
proof -
  let ?p = "if po_rtnl p then drop_probe_route S p else p"
  have "grows is_call p ?p" using calls_drop_probe[of p S] by (simp add: calls_def)
  moreover have "po_trace (stop_dhcp S p) = po_trace ?p" by (simp add: stop_dhcp_eq Let_def)
  ultimately have "grows is_call p (stop_dhcp S p)" by (simp add: grows_def)
  then show ?thesis using stop_dhcp_sound[of p S] by (simp add: calls_def wheel_sound_def)
qed

lemma calls_eapol [simp]: "calls p (p\<lparr>po_eapol := x\<rparr>)"
  by (rule calls_same) (simp add: same_desk_def)

section \<open>Driving the exchange\<close>

lemma dhcp_perform_calls:
  assumes "po_dhcp p \<noteq> None" "dhcp_perform S a (out, p) = (out', p')"
  shows "calls p p' \<and> po_dhcp p' = po_dhcp p"
proof (cases a)
  case (Da_SetTimer t s)
  then show ?thesis using assms calls_arm_dhcp[OF assms(1)]
    by (auto simp: dhcp_perform_def arm_key_def with_timers_def)
qed (use assms calls_invoke in \<open>auto simp: dhcp_perform_def invoke_eq intro!: calls_invokeD\<close>)

lemma dhcp_perform_fold:
  "po_dhcp p \<noteq> None \<Longrightarrow> fold (dhcp_perform S) acts (out, p) = (out', p') \<Longrightarrow> calls p p' \<and> po_dhcp p' = po_dhcp p"
proof (induction acts arbitrary: out p)
  case (Cons a acts)
  obtain o1 p1 where d: "dhcp_perform S a (out, p) = (o1, p1)" by fastforce
  have "calls p p1" "po_dhcp p1 = po_dhcp p" using dhcp_perform_calls[OF Cons.prems(1) d] by simp_all
  then show ?case using Cons.IH[of p1 o1] Cons.prems d calls_trans by auto
qed simp

lemma drive_dhcp_calls:
  assumes "drive_dhcp S i p = (ev, p')"
  shows "calls p p' \<and> (po_dhcp p' = None \<longleftrightarrow> po_dhcp p = None)"
proof (cases "po_dhcp p")
  case None
  then show ?thesis using assms by (auto simp: drive_dhcp_def)
next
  case (Some run)
  obtain m acts where m: "dhcp_poll (dr_machine run) i = (m, acts)" by fastforce
  let ?p = "p\<lparr>po_dhcp := Some (run\<lparr>dr_machine := m\<rparr>)\<rparr>"
  have "calls p ?p" by (rule calls_same) (simp add: same_desk_def Some)
  moreover have "fold (dhcp_perform S) acts (None, ?p) = (ev, p')" using assms Some m by (simp add: drive_dhcp_def)
  ultimately show ?thesis using dhcp_perform_fold[of ?p S acts None ev p'] calls_trans Some by auto
qed

text \<open>A fresh exchange only sends and sets its timer, whatever its transaction id.\<close>

lemma drive_dhcp_start:
  "fst (drive_dhcp S (Di_Start xid) p) = None"
  by (simp add: drive_dhcp_def dhcp_poll_def dhcp_start_def dhcp_broadcast_def dhcp_perform_def Let_def case_prod_unfold
      split: option.split)

section \<open>Performing an action\<close>

text \<open>The results of the performers that only make calls.\<close>

definition plain_result :: "'w ports \<Rightarrow> (reason + conn_input option) \<times> 'w ports \<Rightarrow> bool" where
  "plain_result p rp \<longleftrightarrow> calls p (snd rp) \<and> (\<forall>i. fst rp \<noteq> Inr (Some i))"

lemma plain_performed [simp]: "plain_result p (performed p)"
  by (simp add: plain_result_def performed_def)

lemma plain_Inl: "calls p p' \<Longrightarrow> plain_result p (Inl e, p')"
  by (simp add: plain_result_def)

lemma plain_then: "calls p p1 \<Longrightarrow> plain_result p1 r \<Longrightarrow> plain_result p r"
  by (auto simp: plain_result_def intro: calls_trans)

lemma plain_attempt: "(\<And>p. plain_result p (k p)) \<Longrightarrow> plain_result p (attempt_or m S call k p)"
  by (auto simp: attempt_or_def split: prod.split option.split
      intro: plain_then[OF calls_invokeD] plain_Inl calls_invokeD)

lemma plain_need_nl: "(\<And>p. plain_result p (k p)) \<Longrightarrow> plain_result p (need_nl k p)"
  by (simp add: need_nl_def plain_Inl)

lemma plain_trigger: "plain_result p (perform_trigger_scan S n p)"
  unfolding perform_trigger_scan_def
  by (rule plain_need_nl)
    (auto split: prod.split option.split sys_error.split intro: plain_Inl plain_then[OF calls_invokeD] calls_invokeD)

lemma plain_associate: "plain_result p (perform_associate S r p)"
  unfolding perform_associate_def by (auto intro!: plain_Inl plain_need_nl plain_attempt)

lemma plain_authenticate: "plain_result p (perform_authenticate S r p)"
  unfolding perform_authenticate_def by (intro plain_need_nl plain_attempt) simp

lemma plain_disconnect: "plain_result p (perform_disconnect S en r p)"
  unfolding perform_disconnect_def by (auto split: option.split intro!: plain_Inl plain_need_nl plain_attempt)

lemma plain_send_eapol: "plain_result p (perform_send_eapol S r p)"
  unfolding perform_send_eapol_def by (auto split: option.split intro!: plain_Inl plain_attempt)

lemma plain_install: "plain_result p (perform_install S en keys p)"
  unfolding perform_install_def Let_def
  by (auto split: option.split intro!: plain_Inl plain_need_nl plain_attempt)

lemma fetch_result:
  "perform_fetch S n p = (r, p') \<Longrightarrow> calls p p' \<and> (\<forall>i. r = Inr (Some i) \<longrightarrow> (\<exists>rs. i = In_ScanResults rs))"
  by (auto simp: perform_fetch_def need_nl_def split: if_splits prod.splits sum.splits dest: calls_askD)

lemma attempt_calls: "(\<And>p q r. k p = (r, q) \<Longrightarrow> calls p q) \<Longrightarrow> attempt_or m S c k p = (r, p') \<Longrightarrow> calls p p'"
  by (auto simp: attempt_or_def split: prod.splits option.splits dest!: calls_invokeD intro: calls_trans)

lemma plain_start_dhcp: "plain_result p (perform_start_dhcp S en p)"
proof (cases "en_device en")
  case None
  then show ?thesis by (simp add: perform_start_dhcp_def plain_Inl)
next
  case (Some dev)
  let ?open = "\<lambda>probe p. attempt_or ''cannot open the DHCP socket (binding port 68 needs root): '' S K_DhcpOpen
      (\<lambda>p. case ask (sys_new_xid S) p of
         (Inl e, p) \<Rightarrow> (Inl (Re_Text e), p)
       | (Inr xid, p) \<Rightarrow>
           (let (hostname, p) = ask (sys_hostname S) p;
                run = \<lparr>dr_machine = dhcp_machine_for (dev_mac dev) xid hostname,
                       dr_ifindex = dev_ifindex dev, dr_probe_route = probe\<rparr>;
                (event, p) = drive_dhcp S (Di_Start xid) (p\<lparr>po_dhcp := Some run\<rparr>)
            in (Inr (map_option In_Lease event), p))) p"
  have run: "calls q (q\<lparr>po_dhcp := Some x\<rparr>)" for q :: "'a ports" and x
    by (auto simp: calls_def grows_def wheel_sound_def)
  have "plain_result p (?open probe p)" for probe p
  proof (rule plain_attempt)
    fix p
    show "plain_result p (case ask (sys_new_xid S) p of
         (Inl e, p) \<Rightarrow> (Inl (Re_Text e), p)
       | (Inr xid, p) \<Rightarrow>
           (let (hostname, p) = ask (sys_hostname S) p;
                run = \<lparr>dr_machine = dhcp_machine_for (dev_mac dev) xid hostname,
                       dr_ifindex = dev_ifindex dev, dr_probe_route = probe\<rparr>;
                (event, p) = drive_dhcp S (Di_Start xid) (p\<lparr>po_dhcp := Some run\<rparr>)
            in (Inr (map_option In_Lease event), p)))"
    proof (cases "ask (sys_new_xid S) p")
      case (Pair r p1)
      have c1: "calls p p1" by (rule calls_askD[OF Pair])
      show ?thesis
      proof (cases r)
        case (Inl e)
        then show ?thesis using Pair c1 by (simp add: plain_Inl)
      next
        case (Inr xid)
        obtain h p2 where h: "ask (sys_hostname S) p1 = (h, p2)" by fastforce
        let ?p = "p2\<lparr>po_dhcp := Some \<lparr>dr_machine = dhcp_machine_for (dev_mac dev) xid h,
                       dr_ifindex = dev_ifindex dev, dr_probe_route = probe\<rparr>\<rparr>"
        obtain ev p3 where d: "drive_dhcp S (Di_Start xid) ?p = (ev, p3)" by fastforce
        have "calls p p3"
          by (rule calls_trans[OF calls_trans[OF c1 calls_askD[OF h]] calls_trans[OF run]])
            (rule conjunct1[OF drive_dhcp_calls[OF d]])
        moreover have "ev = None" using drive_dhcp_start[of S xid ?p] d by simp
        ultimately show ?thesis using Pair Inr h d by (simp add: plain_result_def)
      qed
    qed
  qed
  note opened = this
  have probed: "calls q (snd (invoke S (K_AddProbeRoute n) (snd (invoke S (K_AddBroadcastRoute n) q))))" for q :: "'a ports" and n
    by (rule calls_trans[OF calls_invoke calls_invoke])
  let ?q = "stop_dhcp S p"
  show ?thesis
  proof (cases "po_rtnl ?q")
    case True
    obtain r q where r: "invoke S (K_AddProbeRoute (dev_ifindex dev)) (snd (invoke S (K_AddBroadcastRoute (dev_ifindex dev)) ?q)) = (r, q)"
      by (rule prod.exhaust)
    have "perform_start_dhcp S en p = ?open (r = None) q"
      unfolding perform_start_dhcp_def Some option.case Let_def by (simp only: True if_True r prod.case Let_def)
    moreover have "calls p q" using calls_trans[OF calls_stop_dhcp[of p S] probed[of ?q "dev_ifindex dev"]] unfolding r by simp
    ultimately show ?thesis using plain_then[OF _ opened, of p q] by simp
  next
    case False
    have "perform_start_dhcp S en p = ?open False ?q"
      unfolding perform_start_dhcp_def Some option.case Let_def by (simp only: False if_False prod.case Let_def)
    then show ?thesis using plain_then[OF calls_stop_dhcp opened] by simp
  qed
qed

lemma calls_fold: "(\<And>x p. calls p (f x p)) \<Longrightarrow> calls p (fold f xs p)"
  by (induction xs arbitrary: p) (auto intro: calls_trans)

lemma calls_drop_stale: "calls p (drop_stale_address S ifindex l ad p)"
  by (simp add: drop_stale_address_def split: ip_addr.split)

lemma apply_lease_calls: "apply_lease S ifindex l p = (r, p') \<Longrightarrow> calls p p'"
proof -
  assume a: "apply_lease S ifindex l p = (r, p')"
  let ?finish = "\<lambda>p. (Inr () :: reason + unit, drop_probe_route S p)"
  have fin: "calls p q" if "?finish p = (r, q)" for p :: "'a ports" and q r using that by auto
  have gw: "calls p q" if "(case ls_gateway l of None \<Rightarrow> ?finish | Some g \<Rightarrow> attempt_or (m g) S (K_AddDefaultRoute ifindex g) ?finish) p = (r, q)"
    for m p q r using that fin attempt_calls[of ?finish _ S _ p r q] by (cases "ls_gateway l") auto
  have all: "calls p q" if "attempt_or m S (K_AddAddress ifindex (ls_addr l) n)
      (case ls_gateway l of None \<Rightarrow> ?finish | Some g \<Rightarrow> attempt_or (m2 g) S (K_AddDefaultRoute ifindex g) ?finish) p = (r, q)"
    for m m2 p q r n
    by (rule attempt_calls[OF gw that])
  show ?thesis
  proof (cases "po_rtnl p")
    case True
    obtain x p1 where x: "ask (sys_addresses S) p = (x, p1)" by fastforce
    show ?thesis
    proof (cases x)
      case (Inr ads)
      have "calls p1 (fold (drop_stale_address S ifindex l) ads p1)" by (rule calls_fold[OF calls_drop_stale])
      moreover have "calls (fold (drop_stale_address S ifindex l) ads p1) p'"
        by (rule all) (use a True x Inr in \<open>simp add: apply_lease_def Let_def\<close>)
      ultimately show ?thesis using calls_askD[OF x] by (blast intro: calls_trans)
    qed (use a True x calls_askD[OF x] in \<open>simp add: apply_lease_def\<close>)
  qed (use a in \<open>simp add: apply_lease_def\<close>)
qed

text \<open>What applying a lease does to the engine: nothing but remember the warning.\<close>

lemma perform_apply_lease_spec:
  assumes "perform_apply_lease S en l p = (r, en', p')"
  shows "calls p p' \<and> en_core en' = en_core en \<and> en_device en' = en_device en \<and> en_watcher en' = en_watcher en \<and>
    en_pending en' = en_pending en \<and> (\<forall>i. r \<noteq> Inr (Some i))"
proof -
  have w: "calls q q'" if "write_resolv_conf S ds q = (b, q')" for ds q q' b
    using that by (auto simp: write_resolv_conf_def Let_def split: if_splits prod.splits dest: calls_invokeD)
  have c: "calls q q' \<and> en_core e' = en_core en \<and> en_device e' = en_device en \<and> en_watcher e' = en_watcher en \<and>
      en_pending e' = en_pending en" if "check_resolver_link S en q = (e', q')" for q q' e'
    using that by (auto simp: check_resolver_link_def Let_def split: if_splits prod.splits dest: calls_askD)
  show ?thesis
  proof (cases "engine_ifindex en")
    case (Some n)
    obtain x p1 where x: "apply_lease S n l p = (x, p1)" by fastforce
    obtain b p2 where b: "write_resolv_conf S (ls_dns l) p1 = (b, p2)" by fastforce
    obtain e3 p3 where e: "check_resolver_link S en p2 = (e3, p3)" by fastforce
    have "calls p p1" "calls p p2" "calls p p3"
      using apply_lease_calls[OF x] w[OF b] c[OF e] by (blast intro: calls_trans)+
    then show ?thesis using assms Some x b e c[OF e]
      by (cases x; cases b) (auto simp: perform_apply_lease_def)
  qed (use assms in \<open>auto simp: perform_apply_lease_def\<close>)
qed

subsection \<open>Messages\<close>

definition is_answer :: "client_id \<Rightarrow> effect \<Rightarrow> bool" where
  "is_answer i e \<longleftrightarrow> (case e of Tr_Response j _ \<Rightarrow> j = i | _ \<Rightarrow> False)"

definition is_prompt :: "client_id \<Rightarrow> effect \<Rightarrow> bool" where
  "is_prompt i e \<longleftrightarrow> (case e of Tr_Event j ev \<Rightarrow> j = i \<and> (case ev of Ie_NeedSecret _ _ _ \<Rightarrow> True | _ \<Rightarrow> False)
     | _ \<Rightarrow> False)"

text \<open>The responses and the prompts a client has been sent.\<close>

definition answers :: "client_id \<Rightarrow> 'w ports \<Rightarrow> nat" where
  "answers i p = length (filter (is_answer i) (po_trace p))"

definition prompts :: "client_id \<Rightarrow> 'w ports \<Rightarrow> nat" where
  "prompts i p = length (filter (is_prompt i) (po_trace p))"

definition settled :: "'w ports \<Rightarrow> bool" where
  "settled p \<longleftrightarrow> Tr_Unsettled \<notin> set (po_trace p)"

definition asked :: "client_id \<Rightarrow> ('sc, 'pt, 'd) engine \<Rightarrow> nat" where
  "asked i en = (case en_pending en of None \<Rightarrow> 0 | Some pn \<Rightarrow> if pn_client pn = i then 1 else 0)"

definition waits :: "client_id \<Rightarrow> ('sc, 'pt, 'd) engine \<Rightarrow> nat" where
  "waits i en = (if en_watcher en = Some i then 1 else 0)"

lemma calls_messages:
  assumes "calls p p'"
  shows "answers i p' = answers i p" "prompts i p' = prompts i p" "settled p' = settled p"
proof -
  obtain fx where fx: "po_trace p' = po_trace p @ fx" "list_all is_call fx"
    using assms by (auto simp: calls_def grows_def)
  have "filter (is_answer i) fx = []" "filter (is_prompt i) fx = []" "Tr_Unsettled \<notin> set fx"
    using fx(2) by (auto simp: filter_empty_conv list_all_iff is_call_def is_answer_def is_prompt_def split: effect.splits)
  then show "answers i p' = answers i p" "prompts i p' = prompts i p" "settled p' = settled p"
    using fx(1) by (simp_all add: answers_def prompts_def settled_def)
qed

lemma trace_messages [simp]:
  "answers i (trace fx p) = answers i p + length (filter (is_answer i) fx)"
  "prompts i (trace fx p) = prompts i p + length (filter (is_prompt i) fx)"
  "settled (trace fx p) \<longleftrightarrow> settled p \<and> Tr_Unsettled \<notin> set fx"
  "po_timers (trace fx p) = po_timers p" "po_dhcp (trace fx p) = po_dhcp p"
  by (auto simp: trace_def answers_def prompts_def settled_def)

lemma kind_simps [simp]:
  "is_answer i (Tr_Response j x) \<longleftrightarrow> j = i" "\<not> is_answer i (Tr_Event j ev)" "\<not> is_answer i Tr_Unsettled"
  "\<not> is_prompt i (Tr_Response j x)" "is_prompt i (Tr_Event j (Ie_NeedSecret t pr k)) \<longleftrightarrow> j = i"
  "\<not> is_prompt i (Tr_Event j Ie_Scanning)" "\<not> is_prompt i (Tr_Event j (Ie_Associating b))"
  "\<not> is_prompt i (Tr_Event j Ie_Authenticating)" "\<not> is_prompt i (Tr_Event j Ie_Configuring)"
  "\<not> is_prompt i (Tr_Event j Ie_Connected)" "\<not> is_prompt i (Tr_Event j (Ie_Failed w))"
  "\<not> is_prompt i Tr_Unsettled"
  by (simp_all add: is_answer_def is_prompt_def)

subsection \<open>Every action\<close>

definition core_running :: "'w ports \<Rightarrow> timer_id set" where
  "core_running p = {i. deadline (po_timers p) (Key_Core i) \<noteq> None}"

definition is_own_key :: "reactor_key \<Rightarrow> bool" where
  "is_own_key k \<longleftrightarrow> is_core_key k \<or> is_dhcp_key k"

lemma key_simps [simp]:
  "is_core_key (Key_Core i)" "\<not> is_core_key (Key_Dhcp t)" "\<not> is_core_key (Key_Scan c)" "\<not> is_core_key Key_Autoconnect"
  "\<not> is_dhcp_key (Key_Core i)" "is_dhcp_key (Key_Dhcp t)" "\<not> is_dhcp_key (Key_Scan c)" "\<not> is_dhcp_key Key_Autoconnect"
  by (simp_all add: is_core_key_def is_dhcp_key_def)

text \<open>
  \<open>does a en p en' p'\<close>: the step takes the wheel where the action says, the watcher is let go exactly
  by the actions that answer it, and each prompt is backed by one that is outstanding.
\<close>

definition does ::
  "action list \<Rightarrow> ('sc, 'pt, 'd) engine \<Rightarrow> 'w ports \<Rightarrow> ('sc, 'pt, 'd) engine \<Rightarrow> 'w ports \<Rightarrow> bool" where
  "does acts en p en' p' \<longleftrightarrow>
     en_core en' = en_core en \<and> en_device en' = en_device en \<and>
     en_watcher en' = (if list_ex closing acts then None else en_watcher en) \<and>
     (wheel_sound p \<longrightarrow> wheel_sound p') \<and> (settled p \<longrightarrow> settled p') \<and>
     core_running p' = timers_after acts (core_running p) \<and>
     (\<forall>k. \<not> is_own_key k \<longrightarrow> deadline (po_timers p') k = deadline (po_timers p) k) \<and>
     (\<forall>i. answers i p' + waits i en' = answers i p + waits i en) \<and>
     (\<forall>i. asked i en' + prompts i p \<le> asked i en + prompts i p')"

lemma does_refl [simp]: "does [] en p en p"
  by (simp add: does_def)

lemma does_trans:
  assumes "does a1 en p en1 p1" "does a2 en1 p1 en2 p2"
  shows "does (a1 @ a2) en p en2 p2"
proof -
  have "asked i en2 + prompts i p \<le> asked i en + prompts i p2" for i
  proof -
    have "asked i en1 + prompts i p \<le> asked i en + prompts i p1" "asked i en2 + prompts i p1 \<le> asked i en1 + prompts i p2"
      using assms by (simp_all add: does_def)
    then show ?thesis by linarith
  qed
  then show ?thesis using assms by (simp add: does_def)
qed

lemma calls_does:
  assumes "calls p p'" "timer_step a = id" "\<not> closing a"
    "en_core en' = en_core en" "en_device en' = en_device en" "en_watcher en' = en_watcher en" "en_pending en' = en_pending en"
  shows "does [a] en p en' p'"
  using assms calls_messages[OF assms(1)]
  by (auto simp: does_def calls_def core_running_def is_own_key_def waits_def asked_def)

lemma does_notify: "engine_notify st en p = (en', p') \<Longrightarrow> does [Ac_Notify st] en p en' p'"
  by (cases st; cases "en_watcher en")
    (auto simp: engine_notify_def notify_event_def does_def closing_def core_running_def wheel_sound_def waits_def asked_def Let_def)

lemma does_failed:
  assumes "perform_failed S f en p = (r, en', p')"
  shows "does [Ac_Failed f] en p en' p' \<and> r = Inr None"
proof -
  obtain e1 p1 where a: "answer_failed (Re_Failure f) en p = (e1, p1)" by fastforce
  have d: "does [Ac_Failed f] en p e1 p1"
    using a by (cases "en_watcher en")
      (auto simp: answer_failed_def does_def closing_def core_running_def wheel_sound_def waits_def asked_def split: option.split)
  let ?q = "stop_dhcp S (p1\<lparr>po_eapol := None\<rparr>)"
  have "calls p1 ?q" by (rule calls_trans[OF calls_eapol calls_stop_dhcp])
  then have "does [Ac_SendEapol []] e1 p1 e1 ?q"
    by (rule calls_does) (simp_all add: fun_eq_iff closing_def)
  from does_trans[OF d this] have "does [Ac_Failed f] en p e1 ?q"
    by (simp add: does_def closing_def)
  then show ?thesis using assms a d by (auto simp: perform_failed_def)
qed

lemma does_secret:
  assumes "perform_request_secret ssid en p = (r, en', p')"
  shows "does [Ac_RequestSecret ssid] en p en' p' \<and> (\<forall>i. r \<noteq> Inr (Some i))"
  using assms by (cases "en_watcher en")
    (auto simp: perform_request_secret_def does_def closing_def core_running_def wheel_sound_def waits_def asked_def split: option.split)

text \<open>Saving a profile the connection already has does not change it.\<close>

definition saved :: "action \<Rightarrow> ('sc, 'pt, 'd) engine \<Rightarrow> bool" where
  "saved a en \<longleftrightarrow> (\<forall>pr c. a = Ac_SaveProfile pr \<longrightarrow> en_core en = Some c \<longrightarrow> conn_insert_profile pr c = c)"

lemma does_save:
  assumes "perform_save_profile S pr en p = (r, en', p')" "saved (Ac_SaveProfile pr) en"
  shows "does [Ac_SaveProfile pr] en p en' p' \<and> (\<forall>i. r \<noteq> Inr (Some i))"
proof -
  obtain x p1 where x: "invoke S (K_SaveProfile pr) p = (x, p1)" by fastforce
  have "map_option (conn_insert_profile pr) (en_core en) = en_core en"
    using assms(2) by (cases "en_core en") (auto simp: saved_def)
  then have "en_core en' = en_core en \<and> en_device en' = en_device en \<and> en_watcher en' = en_watcher en \<and>
      en_pending en' = en_pending en \<and> p' = p1 \<and> (\<forall>i. r \<noteq> Inr (Some i))"
    using assms(1) x by (auto simp: perform_save_profile_def split: option.splits)
  then show ?thesis using calls_does[OF calls_invokeD[OF x], of "Ac_SaveProfile pr" en' en]
    by (simp add: fun_eq_iff closing_def)
qed

lemma perform_does:
  assumes "perform S a en p = (r, en', p')" "saved a en"
  shows "does [a] en p en' p' \<and>
    (\<forall>i. r = Inr (Some i) \<longrightarrow> (\<exists>n rs. a = Ac_FetchScanResults n \<and> i = In_ScanResults rs))"
proof -
  have plain: ?thesis if "plain_result p (r, p')" "en' = en" "timer_step a = id" "\<not> closing a"
    using that calls_does[of p p' a en en] by (auto simp: plain_result_def)
  have on_ports: "\<exists>r0 p0. x = (r0, p0) \<and> r = r0 \<and> en' = en \<and> p' = p0"
    if "(case x of (r, p) \<Rightarrow> (r, en, p)) = (r, en', p')" for x :: "(reason + conn_input option) \<times> 'd ports"
    using that by (auto split: prod.splits)
  have id: "timer_step a = id" if "\<And>i ms. a \<noteq> Ac_SetTimer i ms" "\<And>i. a \<noteq> Ac_ClearTimer i"
    using that by (cases a) (auto simp: fun_eq_iff)
  show ?thesis
  proof (cases a)
    case (Ac_TriggerScan n)
    then show ?thesis using assms(1) plain_trigger[of p S n] plain id
      by (auto simp: perform_def closing_def dest!: on_ports)
  next
    case (Ac_FetchScanResults n)
    then obtain p0 where f: "perform_fetch S n p = (r, p0)" "en' = en" "p' = p0"
      using assms(1) by (auto simp: perform_def dest!: on_ports)
    then show ?thesis using fetch_result[OF f(1)] calls_does[of p p' a en en] id Ac_FetchScanResults
      by (auto simp: closing_def)
  next
    case (Ac_Associate q)
    then show ?thesis using assms(1) plain_associate[of p S q] plain id
      by (auto simp: perform_def closing_def dest!: on_ports)
  next
    case (Ac_Authenticate q)
    then show ?thesis using assms(1) plain_authenticate[of p S q] plain id
      by (auto simp: perform_def closing_def dest!: on_ports)
  next
    case (Ac_Disconnect q)
    then show ?thesis using assms(1) plain_disconnect[of p S en q] plain id
      by (auto simp: perform_def closing_def dest!: on_ports)
  next
    case (Ac_SendEapol q)
    then show ?thesis using assms(1) plain_send_eapol[of p S q] plain id
      by (auto simp: perform_def closing_def dest!: on_ports)
  next
    case (Ac_InstallKeys q)
    then show ?thesis using assms(1) plain_install[of p S en q] plain id
      by (auto simp: perform_def closing_def dest!: on_ports)
  next
    case Ac_StartDhcp
    then show ?thesis using assms(1) plain_start_dhcp[of p S en] plain id
      by (auto simp: perform_def closing_def dest!: on_ports)
  next
    case (Ac_ApplyLease l)
    then have "perform_apply_lease S en l p = (r, en', p')" using assms(1) by (simp add: perform_def)
    from perform_apply_lease_spec[OF this] show ?thesis
      using calls_does[of p p' a en' en] id Ac_ApplyLease by (auto simp: closing_def)
  next
    case (Ac_SetTimer i ms)
    then show ?thesis using assms(1)
      by (auto simp: perform_def does_def closing_def arm_key_def with_timers_def core_running_def wheel_sound_def
          wheel.due_arm timers_ok_arm is_own_key_def answers_def prompts_def settled_def waits_def asked_def)
  next
    case (Ac_ClearTimer i)
    then show ?thesis using assms(1)
      by (auto simp: perform_def does_def closing_def with_timers_def core_running_def wheel_sound_def
          deadline_cancel timers_ok_cancel is_own_key_def answers_def prompts_def settled_def waits_def asked_def
          split: if_splits)
  next
    case (Ac_RequestSecret ssid)
    then show ?thesis using assms(1) does_secret[of ssid en p r en' p'] by (simp add: perform_def)
  next
    case (Ac_SaveProfile pr)
    then show ?thesis using assms does_save[of S pr en p r en' p'] by (simp add: perform_def)
  next
    case (Ac_Notify st)
    then show ?thesis using assms(1) does_notify[of st en p en' p'] by (auto simp: perform_def)
  next
    case (Ac_Failed f)
    then show ?thesis using assms(1) does_failed[of S f en p r en' p'] by (simp add: perform_def)
  qed
qed

section \<open>Performing all of them\<close>

lemma saved_does: "does acts en p en' p' \<Longrightarrow> saved a en' = saved a en"
  by (simp add: does_def saved_def)

definition is_fetch :: "action \<Rightarrow> bool" where
  "is_fetch a \<longleftrightarrow> (case a of Ac_FetchScanResults _ \<Rightarrow> True | _ \<Rightarrow> False)"

lemma perform_all_does:
  assumes "perform_all S acts q en p = (r, en', p')" "\<forall>a \<in> set acts. saved a en"
  shows "\<exists>done rest. acts = done @ rest \<and> does done en p en' p' \<and>
    (\<forall>q'. r = Inr q' \<longrightarrow> rest = [] \<and> (\<exists>new. q' = q @ new \<and> length new \<le> length (filter is_fetch acts) \<and>
       list_all (\<lambda>i. \<exists>rs. i = In_ScanResults rs) new))"
  using assms
proof (induction acts arbitrary: q en p)
  case Nil
  then show ?case by (intro exI[of _ "[]"]) auto
next
  case (Cons a acts)
  obtain x e1 p1 where x: "perform S a en p = (x, e1, p1)" by (metis prod_cases3)
  note d = perform_does[OF x] 
  have d1: "does [a] en p e1 p1" using d Cons.prems(2) by simp
  show ?case
  proof (cases x)
    case (Inl e)
    then have "r = Inl e" "en' = e1" "p' = p1" using Cons.prems(1) x by simp_all
    then show ?thesis using d1 by - (rule exI[of _ "[a]"], rule exI[of _ acts], simp)
  next
    case (Inr next_input)
    let ?q = "q @ (case next_input of None \<Rightarrow> [] | Some i \<Rightarrow> [i])"
    have new: "length (case next_input of None \<Rightarrow> [] | Some i \<Rightarrow> [i]) \<le> length (filter is_fetch [a])"
        "list_all (\<lambda>i. \<exists>rs. i = In_ScanResults rs) (case next_input of None \<Rightarrow> [] | Some i \<Rightarrow> [i])"
      using d Inr Cons.prems(2) by (auto simp: is_fetch_def split: option.split)
    have "perform_all S acts ?q e1 p1 = (r, en', p')"
      using Cons.prems(1) x Inr by (simp split: option.splits)
    moreover have "\<forall>a \<in> set acts. saved a e1" using Cons.prems(2) saved_does[OF d1] by simp
    ultimately obtain dn rest where ih: "acts = dn @ rest" "does dn e1 p1 en' p'"
      "\<forall>q'. r = Inr q' \<longrightarrow> rest = [] \<and> (\<exists>new. q' = ?q @ new \<and> length new \<le> length (filter is_fetch acts) \<and>
         list_all (\<lambda>i. \<exists>rs. i = In_ScanResults rs) new)"
      using Cons.IH by blast
    have "does (a # dn) en p en' p'" using does_trans[OF d1 ih(2)] by simp
    moreover have "rest = [] \<and> (\<exists>new. q' = q @ new \<and> length new \<le> length (filter is_fetch (a # acts)) \<and>
         list_all (\<lambda>i. \<exists>rs. i = In_ScanResults rs) new)" if r: "r = Inr q'" for q'
    proof -
      obtain new' where n: "rest = []" "q' = ?q @ new'" "length new' \<le> length (filter is_fetch acts)"
          "list_all (\<lambda>i. \<exists>rs. i = In_ScanResults rs) new'"
        using ih(3) r by blast
      then show ?thesis using new
        by (intro conjI exI[of _ "(case next_input of None \<Rightarrow> [] | Some i \<Rightarrow> [i]) @ new'"]) auto
    qed
    ultimately show ?thesis using ih(1) by - (rule exI[of _ "a # dn"], rule exI[of _ rest], unfold append_Cons, blast)
  qed
qed

lemma perform_each_does:
  assumes "perform_each S acts en p = (en', p')" "\<forall>a \<in> set acts. saved a en"
  shows "does acts en p en' p'"
  using assms
proof (induction acts arbitrary: en p)
  case (Cons a acts)
  obtain x e1 p1 where x: "perform S a en p = (x, e1, p1)" by (metis prod_cases3)
  have d1: "does [a] en p e1 p1" using perform_does[OF x] Cons.prems(2) by simp
  have "does acts e1 p1 en' p'" using Cons.IH[of e1 p1] Cons.prems x saved_does[OF d1] by simp
  then show ?case using does_trans[OF d1] by simp
qed simp

lemma perform_pending:
  assumes "perform S a en p = (r, en', p')" "\<And>ssid. a \<noteq> Ac_RequestSecret ssid" "en_pending en = None"
  shows "en_pending en' = None"
proof (cases a)
  case (Ac_ApplyLease l)
  then have "perform_apply_lease S en l p = (r, en', p')" using assms(1) by (simp add: perform_def)
  from perform_apply_lease_spec[OF this] show ?thesis using assms(3) by simp
next
  case (Ac_Notify st)
  then show ?thesis using assms by (auto simp: perform_def engine_notify_def Let_def split: option.splits if_splits)
next
  case (Ac_Failed f)
  then show ?thesis using assms by (auto simp: perform_def perform_failed_def answer_failed_def Let_def)
next
  case (Ac_SaveProfile pr)
  then show ?thesis using assms by (auto simp: perform_def perform_save_profile_def split: option.splits prod.splits)
qed (use assms in \<open>auto simp: perform_def split: prod.splits\<close>)

lemma perform_each_pending:
  assumes "perform_each S acts en p = (en', p')" "\<forall>a \<in> set acts. \<forall>ssid. a \<noteq> Ac_RequestSecret ssid" "en_pending en = None"
  shows "en_pending en' = None"
  using assms
proof (induction acts arbitrary: en p)
  case (Cons a acts)
  obtain x e1 p1 where x: "perform S a en p = (x, e1, p1)" by (metis prod_cases3)
  then show ?case using Cons.IH[of e1 p1] Cons.prems perform_pending[OF x] by simp
qed simp

section \<open>The invariant\<close>

text \<open>
  The timers running, \<open>w\<close>, and those that have expired and are still to be delivered, \<open>late\<close>: no
  other runs than the one the machine tracks, and one that must run does or is on its way.
\<close>

definition wheel_late :: "('sc, 'pt, 'd) conn \<Rightarrow> timer_id set \<Rightarrow> timer_id set \<Rightarrow> bool" where
  "wheel_late c w late \<longleftrightarrow> w \<subseteq> set_option (cn_armed c) \<and> (must_run c \<longrightarrow> set_option (cn_armed c) \<subseteq> w \<union> late)"

definition delivered :: "conn_input \<Rightarrow> timer_id set \<Rightarrow> timer_id set" where
  "delivered i late = (case i of In_Timer t \<Rightarrow> late - {t} | _ \<Rightarrow> late)"

lemma timers_after_more: "timers_after out (w \<union> l) \<subseteq> timers_after out w \<union> l"
proof (induction out arbitrary: w l)
  case (Cons a out)
  have step: "\<exists>l'. l' \<subseteq> l \<and> timer_step a (w \<union> l) = timer_step a w \<union> l'"
    by (rule exI[of _ "case a of Ac_ClearTimer i \<Rightarrow> l - {i} | _ \<Rightarrow> l"]) (auto simp: timer_step_def split: action.split)
  then obtain l' where "l' \<subseteq> l" "timer_step a (w \<union> l) = timer_step a w \<union> l'" by blast
  then show ?case using Cons.IH[of "timer_step a w" l'] by auto
qed simp

lemma wheel_late_poll:
  assumes E: "env_ok E" and inv: "conn_ok E c" and w: "wheel_late c w late" and p: "conn_poll E c ri = Some (c', out)"
  shows "wheel_late c' (timers_after out w) (delivered (snd ri) late)"
proof -
  have t: "timed c out c'" using conn_poll_post[OF E inv p] by (simp add: post_def)
  then have sub: "timers_after out w \<subseteq> set_option (cn_armed c')" using w by (simp add: timed_def wheel_late_def)
  have "set_option (cn_armed c') \<subseteq> timers_after out w \<union> delivered (snd ri) late" if run: "must_run c'"
  proof (cases "must_run c \<and> \<not> (\<exists>i. snd ri = In_Timer i \<and> cn_armed c = Some i)")
    case True
    let ?l = "set_option (cn_armed c) - w"
    have a: "set_option (cn_armed c) = w \<union> ?l" using w by (auto simp: wheel_late_def)
    have l: "?l \<subseteq> delivered (snd ri) late"
      using w True by (auto simp: wheel_late_def delivered_def split: conn_input.split)
    have "set_option (cn_armed c') = timers_after out (w \<union> ?l)" using t a by (simp add: timed_def)
    then show ?thesis using timers_after_more[of out w ?l] l by blast
  next
    case False
    then have "lands c (conn_poll E c ri)" using conn_poll_lands[OF inv] by blast
    then show ?thesis using w p run by (auto simp: wheel_late_def retimed_def)
  qed
  then show ?thesis using sub by (simp add: wheel_late_def)
qed

definition engine_ok ::
  "('sc, 'pt, 'd) env \<Rightarrow> timer_id set \<Rightarrow> ('sc, 'pt, 'd) engine \<Rightarrow> 'w ports \<Rightarrow> bool" where
  "engine_ok E late en p \<longleftrightarrow> wheel_sound p \<and> settled p \<and>
     (case en_core en of
        None \<Rightarrow> en_device en = None \<and> en_watcher en = None
      | Some c \<Rightarrow> conn_ok E c \<and> wheel_late c (core_running p) late \<and> en_device en = Some (cn_device c) \<and>
          (en_watcher en \<noteq> None \<longrightarrow> \<not> ended (cn_state c)))"

text \<open>
  What clients were told: \<open>n i\<close> more requests of client \<open>i\<close> were accepted, and \<open>m i\<close> more secrets.
\<close>

definition ledger ::
  "(client_id \<Rightarrow> nat) \<Rightarrow> (client_id \<Rightarrow> nat) \<Rightarrow> ('sc, 'pt, 'd) engine \<Rightarrow> 'w ports \<Rightarrow> ('sc, 'pt, 'd) engine \<Rightarrow> 'w ports \<Rightarrow> bool" where
  "ledger n m en p en' p' \<longleftrightarrow>
     (\<forall>i. answers i p' + waits i en' \<le> answers i p + waits i en + n i) \<and>
     (\<forall>i. asked i en' + m i + prompts i p \<le> asked i en + prompts i p') \<and>
     (\<forall>k. \<not> is_own_key k \<longrightarrow> deadline (po_timers p') k = deadline (po_timers p) k)"

abbreviation balanced :: "('sc, 'pt, 'd) engine \<Rightarrow> 'w ports \<Rightarrow> ('sc, 'pt, 'd) engine \<Rightarrow> 'w ports \<Rightarrow> bool" where
  "balanced \<equiv> ledger (\<lambda>_. 0) (\<lambda>_. 0)"

lemma ledger_refl [simp]: "balanced en p en p"
  by (simp add: ledger_def)

lemma ledger_trans:
  assumes "ledger n1 m1 en p e1 p1" "ledger n2 m2 e1 p1 en' p'"
  shows "ledger (\<lambda>i. n1 i + n2 i) (\<lambda>i. m1 i + m2 i) en p en' p'"
proof -
  have "answers i p' + waits i en' \<le> answers i p + waits i en + (n1 i + n2 i)" for i
  proof -
    have "answers i p1 + waits i e1 \<le> answers i p + waits i en + n1 i" "answers i p' + waits i en' \<le> answers i p1 + waits i e1 + n2 i"
      using assms by (simp_all add: ledger_def)
    then show ?thesis by linarith
  qed
  moreover have "asked i en' + (m1 i + m2 i) + prompts i p \<le> asked i en + prompts i p'" for i
  proof -
    have "asked i e1 + m1 i + prompts i p \<le> asked i en + prompts i p1" "asked i en' + m2 i + prompts i p1 \<le> asked i e1 + prompts i p'"
      using assms by (simp_all add: ledger_def)
    then show ?thesis by linarith
  qed
  ultimately show ?thesis using assms by (simp add: ledger_def)
qed

lemma balanced_trans: "balanced en p e1 p1 \<Longrightarrow> ledger n m e1 p1 en' p' \<Longrightarrow> ledger n m en p en' p'"
  using ledger_trans[of "\<lambda>_. 0" "\<lambda>_. 0"] by simp

lemma trans_balanced: "ledger n m en p e1 p1 \<Longrightarrow> balanced e1 p1 en' p' \<Longrightarrow> ledger n m en p en' p'"
  using ledger_trans[of n m _ _ _ _ "\<lambda>_. 0" "\<lambda>_. 0"] by simp

lemma does_balanced: "does acts en p en' p' \<Longrightarrow> balanced en p en' p'"
  by (simp add: does_def ledger_def)

lemma calls_balanced:
  assumes "calls p p'" "en_watcher en' = en_watcher en" "en_pending en' = en_pending en"
  shows "balanced en p en' p'"
  using assms calls_messages[OF assms(1)] by (simp add: ledger_def calls_def is_own_key_def waits_def asked_def)

section \<open>Giving up\<close>

text \<open>Nothing joined, nothing pending, no socket open, no timer of the connection or of DHCP running.\<close>

definition at_rest :: "('sc, 'pt, 'd) engine \<Rightarrow> 'w ports \<Rightarrow> bool" where
  "at_rest en p \<longleftrightarrow> engine_state en = Cs_Idle \<and> en_watcher en = None \<and> en_pending en = None \<and>
     po_eapol p = None \<and> po_dhcp p = None \<and> (\<forall>k. is_own_key k \<longrightarrow> deadline (po_timers p) k = None)"

lemma conn_poll_disconnect:
  "conn_poll E c (rnd, In_Command Cmd_Disconnect) = Some (fst (conn_go_idle c), Ac_Disconnect REASON_LEAVING # snd (conn_go_idle c))"
  by (simp add: conn_poll_def conn_on_command_def case_prod_unfold)

lemma go_idle_facts:
  "cn_state (fst (conn_go_idle c)) = Cs_Idle" "cn_device (fst (conn_go_idle c)) = cn_device c"
  "list_ex closing (snd (conn_go_idle c))"
  "a \<in> set (snd (conn_go_idle c)) \<Longrightarrow> a = Ac_Notify Cs_Idle \<or> (\<exists>i. a = Ac_ClearTimer i)"
  by (auto simp: conn_go_idle_def conn_disarm_eq closing_def split: option.splits)

lemma deadline_cancel_core [simp]:
  "deadline (po_timers (cancel_core_timers p)) k = (if is_core_key k then None else deadline (po_timers p) k)"
  by (simp add: cancel_core_timers_def with_timers_def wheel.due_cancel_if)

lemma cancel_core_same [simp]:
  "po_dhcp (cancel_core_timers p) = po_dhcp p" "po_trace (cancel_core_timers p) = po_trace p"
  "po_eapol (cancel_core_timers p) = po_eapol p"
  "timers_ok (po_timers p) \<Longrightarrow> timers_ok (po_timers (cancel_core_timers p))"
  by (simp_all add: cancel_core_timers_def with_timers_def timers_cancel_if_def timers_ok_filter)

lemma cancel_core_sound: "wheel_sound p \<Longrightarrow> wheel_sound (cancel_core_timers p)"
  by (simp add: wheel_sound_def)

lemma wheel_late_idle: "cn_state c = Cs_Idle \<Longrightarrow> wheel_late c {} late"
  by (simp add: wheel_late_def must_run_def)

lemma balanced_trace_same:
  "po_trace p' = po_trace p \<Longrightarrow> (\<And>k. \<not> is_own_key k \<Longrightarrow> deadline (po_timers p') k = deadline (po_timers p) k) \<Longrightarrow>
   balanced en p en p'"
  by (simp add: ledger_def answers_def prompts_def)

lemma engine_reset_spec:
  assumes "en_core en = Some c" "en_device en = Some (cn_device c)" "wheel_sound p" "settled p"
    "en_watcher en = None" "en_pending en = None"
  shows "\<exists>en' p'. engine_reset E S en p = Some (en', p') \<and> engine_ok E late en' p' \<and> at_rest en' p' \<and> balanced en p en' p' \<and>
    en_device en' = en_device en \<and> (\<exists>c'. en_core en' = Some c')"
proof -
  let ?c = "fst (conn_go_idle c)" and ?out = "Ac_Disconnect REASON_LEAVING # snd (conn_go_idle c)"
  obtain rnd p1 where r: "ask (sys_rnd S) p = (rnd, p1)" by fastforce
  have poll: "engine_poll E S (In_Command Cmd_Disconnect) c p = Some (?c, ?out, p1)"
    by (simp add: engine_poll_def r conn_poll_disconnect)
  let ?en = "en\<lparr>en_core := Some ?c\<rparr>"
  obtain e2 p2 where e: "perform_each S ?out ?en p1 = (e2, p2)" by fastforce
  have acts: "\<forall>a \<in> set ?out. saved a ?en" "\<forall>a \<in> set ?out. \<forall>ssid. a \<noteq> Ac_RequestSecret ssid"
    using go_idle_facts(4)[of _ c] by (fastforce simp: saved_def)+
  have d: "does ?out ?en p1 e2 p2" by (rule perform_each_does[OF e acts(1)])
  have pend: "en_pending e2 = None" by (rule perform_each_pending[OF e acts(2)]) (simp add: assms(6))
  have e2: "en_core e2 = Some ?c" "en_device e2 = Some (cn_device ?c)" "en_watcher e2 = None"
    using d assms(2,5) go_idle_facts(2)[of c] by (simp_all add: does_def)
  have s1: "wheel_sound p1" "settled p1"
    using calls_askD[OF r] assms(3,4) calls_messages(3)[OF calls_askD[OF r]] by (auto simp: calls_def)
  then have s2: "wheel_sound p2" "settled p2" using d by (auto simp: does_def)
  let ?p = "stop_dhcp S ((cancel_core_timers p2)\<lparr>po_eapol := None\<rparr>)"
  have s3: "wheel_sound ((cancel_core_timers p2)\<lparr>po_eapol := None\<rparr>)" "settled ((cancel_core_timers p2)\<lparr>po_eapol := None\<rparr>)"
    using cancel_core_sound[OF s2(1)] s2(2) by (simp_all add: wheel_sound_def settled_def)
  have c3: "calls ((cancel_core_timers p2)\<lparr>po_eapol := None\<rparr>) ?p" by simp
  have s4: "wheel_sound ?p" "settled ?p" using c3 s3 calls_messages(3)[OF c3] by (auto simp: calls_def)
  have eapol: "po_eapol ?p = None"
    by (auto simp: stop_dhcp_eq Let_def drop_probe_route_def invoke_eq split: option.split)
  have clear: "deadline (po_timers ?p) k = None" if "is_own_key k" for k
    using that by (auto simp: is_own_key_def)
  then have run: "core_running ?p = {}" by (simp add: core_running_def is_own_key_def)
  have "post E c (conn_go_idle c)" by (rule conn_go_idle_post)
  then have "conn_ok E ?c" by (simp add: post_def)
  then have ok: "engine_ok E late e2 ?p"
    using s4 e2 run wheel_late_idle[OF go_idle_facts(1)] by (simp add: engine_ok_def)
  have rest: "at_rest e2 ?p" using e2 pend eapol clear go_idle_facts(1)[of c] by (simp add: at_rest_def engine_state_def)
  have "balanced en p ?en p1" by (rule calls_balanced[OF calls_askD[OF r]]) simp_all
  from balanced_trans[OF this does_balanced[OF d]] have "balanced en p e2 p2" .
  from balanced_trans[OF this balanced_trace_same[of "(cancel_core_timers p2)\<lparr>po_eapol := None\<rparr>" p2 e2]]
  have "balanced en p e2 ((cancel_core_timers p2)\<lparr>po_eapol := None\<rparr>)" by (simp add: is_own_key_def)
  from balanced_trans[OF this calls_balanced[OF c3]] have "balanced en p e2 ?p" by simp
  moreover have "engine_reset E S en p = Some (e2, ?p)" using assms(1) poll e by (simp add: engine_reset_def)
  ultimately show ?thesis using ok rest e2 assms(2) go_idle_facts(2)[of c] by (intro exI[of _ e2] exI[of _ ?p]) simp
qed

lemma answer_failed_spec:
  assumes "answer_failed reason en p = (en', p')"
  shows "en_core en' = en_core en \<and> en_device en' = en_device en \<and> en_watcher en' = None \<and> en_pending en' = None \<and>
    (wheel_sound p \<longrightarrow> wheel_sound p') \<and> (settled p \<longrightarrow> settled p') \<and> balanced en p en' p'"
  using assms by (cases "en_watcher en")
    (auto simp: answer_failed_def wheel_sound_def ledger_def waits_def asked_def split: option.split)

lemma engine_abort_spec:
  assumes "en_core en = Some c" "en_device en = Some (cn_device c)" "wheel_sound p" "settled p"
  shows "\<exists>en' p'. engine_abort E S reason en p = Some (en', p') \<and> engine_ok E late en' p' \<and> at_rest en' p' \<and> balanced en p en' p' \<and>
    en_device en' = en_device en \<and> (\<exists>c'. en_core en' = Some c')"
proof -
  obtain e1 p1 where a: "answer_failed reason en p = (e1, p1)" by fastforce
  note s = answer_failed_spec[OF a]
  obtain en' p' where "engine_reset E S e1 p1 = Some (en', p')" "engine_ok E late en' p'" "at_rest en' p'" "balanced e1 p1 en' p'"
      "en_device en' = en_device e1" "\<exists>c'. en_core en' = Some c'"
    using engine_reset_spec[of e1 c p1 E S late] s assms by auto
  then show ?thesis using a s balanced_trans[of en p e1 p1] by (intro exI[of _ en'] exI[of _ p']) (auto simp: engine_abort_def)
qed

end
