(* ===== verification/Engine_Feed.thy ===== *)
theory Engine_Feed
  imports Engine_Inv
begin

text \<open>
  Feeding the connection state machine (\<^verbatim>\<open>feed\<close> of \<^verbatim>\<open>src/crates/cawd/src/engine.rs\<close>): it settles
  within two turns whatever the kernel answers, and keeps the invariant of \<open>Engine_Inv\<close>.
\<close>

text \<open>The inputs that announce the end of an attempt balanced where none is under way.\<close>

definition restarts :: "conn_input \<Rightarrow> bool" where
  "restarts i \<longleftrightarrow> (case i of In_Command cmd \<Rightarrow> (case cmd of Cmd_Connect _ \<Rightarrow> True | Cmd_Disconnect \<Rightarrow> True | _ \<Rightarrow> False)
     | _ \<Rightarrow> False)"

lemma poll_restarts:
  assumes "conn_poll E c (rnd, i) = Some (c', out)" "restarts i" "ended (cn_state c')"
  shows "list_ex closing out"
proof -
  have "cn_state (fst (conn_start_scan c1)) = Cs_Scanning" for c1 :: "('a, 'b, 'c) conn"
    using start_scan_state by blast
  moreover obtain cmd where "i = In_Command cmd" "(\<exists>s. cmd = Cmd_Connect s) \<or> cmd = Cmd_Disconnect"
    using assms(2) by (auto simp: restarts_def split: conn_input.splits command.splits)
  ultimately show ?thesis using assms(1,3) go_idle_facts(3)[of c]
    by (auto simp: conn_poll_def conn_on_command_def Let_def case_prod_unfold)
qed

lemma poll_watched:
  assumes p: "conn_poll E c (rnd, i) = Some (c', out)" and w: "ended (cn_state c) \<longrightarrow> restarts i"
    and e: "ended (cn_state c')"
  shows "list_ex closing out"
proof (cases "restarts i")
  case True
  then show ?thesis using poll_restarts[OF p] e by blast
next
  case False
  then have "\<not> ended (cn_state c)" using w by blast
  moreover have "announced c out c'" using conn_poll_outcome[OF p] by blast
  ultimately show ?thesis using e by (auto simp: announced_def)
qed

text \<open>The state an input is fed in: as in \<open>engine_ok\<close>, but a client may already wait for the input's effect.\<close>

definition ready ::
  "('sc, 'pt, 'd) env \<Rightarrow> timer_id set \<Rightarrow> ('sc, 'pt, 'd) engine \<Rightarrow> 'w ports \<Rightarrow> conn_input \<Rightarrow> bool" where
  "ready E late en p i \<longleftrightarrow> wheel_sound p \<and> settled p \<and>
     (\<exists>c. en_core en = Some c \<and> conn_ok E c \<and> wheel_late c (core_running p) late \<and> en_device en = Some (cn_device c) \<and>
          (en_watcher en \<noteq> None \<longrightarrow> ended (cn_state c) \<longrightarrow> restarts i))"

lemma calls_running: "calls p p' \<Longrightarrow> core_running p' = core_running p"
  by (simp add: calls_def core_running_def)

lemma wheel_late_mono: "wheel_late c w late \<Longrightarrow> late \<subseteq> late' \<Longrightarrow> wheel_late c w late'"
  by (auto simp: wheel_late_def)

lemma engine_ok_mono: "engine_ok E late en p \<Longrightarrow> late \<subseteq> late' \<Longrightarrow> engine_ok E late' en p"
  by (auto simp: engine_ok_def intro: wheel_late_mono split: option.splits)

lemma ready_of_ok: "engine_ok E late en p \<Longrightarrow> en_core en = Some c \<Longrightarrow> ready E late en p i"
  by (auto simp: engine_ok_def ready_def)

text \<open>One turn: what is performed either settles, asks for scan results only, or is given up.\<close>

definition turned ::
  "('sc, 'pt, 'd) env \<Rightarrow> timer_id set \<Rightarrow> ('sc, 'pt, 'd) engine \<Rightarrow> 'w ports \<Rightarrow> ('sc, 'pt, 'd) engine \<Rightarrow> 'w ports \<Rightarrow> bool" where
  "turned E late en p en' p' \<longleftrightarrow> engine_ok E late en' p' \<and> balanced en p en' p' \<and> en_core en' \<noteq> None \<and> en_device en' = en_device en"

lemma is_fetchD: "is_fetch a \<Longrightarrow> \<exists>n. a = Ac_FetchScanResults n"
  by (cases a) (simp_all add: is_fetch_def)

lemma turn_spec:
  assumes E: "env_ok E" and r: "ready E late en p i"
  shows "\<exists>c c' out p1 x en' p'. en_core en = Some c \<and> engine_poll E S i c p = Some (c', out, p1) \<and>
    perform_all S out [] (en\<lparr>en_core := Some c'\<rparr>) p1 = (x, en', p') \<and>
    (case x of
       Inl e \<Rightarrow> \<exists>en2 p2. engine_abort E S e en' p' = Some (en2, p2) \<and> turned E (delivered i late) en p en2 p2
     | Inr q \<Rightarrow> turned E (delivered i late) en p en' p' \<and>
         (q = [] \<or> (\<exists>rs. q = [In_ScanResults rs]) \<and> (\<exists>w k. i = In_Wireless (Ev_ScanComplete w k))))"
proof -
  obtain c where c: "en_core en = Some c" "conn_ok E c" "wheel_late c (core_running p) late"
      "en_device en = Some (cn_device c)" "en_watcher en \<noteq> None \<longrightarrow> ended (cn_state c) \<longrightarrow> restarts i"
      and s: "wheel_sound p" "settled p"
    using r by (auto simp: ready_def)
  obtain rnd p1 where a: "ask (sys_rnd S) p = (rnd, p1)" by fastforce
  note ca = calls_askD[OF a]
  obtain c' out where poll: "conn_poll E c (rnd, i) = Some (c', out)" and ok: "conn_ok E c'"
    using conn_machine.step_ok[of E c "(rnd, i)"] E c(2) by auto
  have ep: "engine_poll E S i c p = Some (c', out, p1)" by (simp add: engine_poll_def a poll)
  let ?en = "en\<lparr>en_core := Some c'\<rparr>"
  obtain x en' p' where x: "perform_all S out [] ?en p1 = (x, en', p')" by (metis prod_cases3)
  have out: "announced c out c'" "\<And>pr. Ac_SaveProfile pr \<in> set out \<Longrightarrow> conn_insert_profile pr c' = c'"
      "\<And>n. Ac_FetchScanResults n \<in> set out \<Longrightarrow> (\<exists>w k. i = In_Wireless (Ev_ScanComplete w k)) \<and> out = [Ac_FetchScanResults n]"
    using conn_poll_outcome[OF poll] by auto
  have "\<forall>a \<in> set out. saved a ?en" using out(2) by (auto simp: saved_def)
  from perform_all_does[OF x this] obtain dn rest where d: "out = dn @ rest" "does dn ?en p1 en' p'"
    "\<forall>q'. x = Inr q' \<longrightarrow> rest = [] \<and> (\<exists>new. q' = [] @ new \<and> length new \<le> length (filter is_fetch out) \<and>
       list_all (\<lambda>i. \<exists>rs. i = In_ScanResults rs) new)" by blast
  have s1: "wheel_sound p1" "settled p1" "core_running p1 = core_running p"
    using ca s calls_messages(3)[OF ca] calls_running[OF ca] by (simp_all add: calls_def)
  have e0: "balanced en p ?en p1" by (rule calls_balanced[OF ca]) simp_all
  have e1: "balanced en p en' p'" by (rule balanced_trans[OF e0 does_balanced[OF d(2)]])
  have dev: "en_core en' = Some c'" "en_device en' = Some (cn_device c')" "en_device en' = en_device en"
      "wheel_sound p'" "settled p'"
    using d(2) s1 c(4) out(1) by (simp_all add: does_def announced_def)
  have "case x of
       Inl e \<Rightarrow> \<exists>en2 p2. engine_abort E S e en' p' = Some (en2, p2) \<and> turned E (delivered i late) en p en2 p2
     | Inr q \<Rightarrow> turned E (delivered i late) en p en' p' \<and>
         (q = [] \<or> (\<exists>rs. q = [In_ScanResults rs]) \<and> (\<exists>w k. i = In_Wireless (Ev_ScanComplete w k)))"
  proof (cases x)
    case (Inl e)
    show ?thesis
      using engine_abort_spec[OF dev(1,2,4,5), of E S e "delivered i late"] balanced_trans[OF e1] dev(3) Inl
      by (auto simp: turned_def)
  next
    case (Inr q)
    then have q: "rest = []" "length q \<le> length (filter is_fetch out)" "list_all (\<lambda>i. \<exists>rs. i = In_ScanResults rs) q"
      using d(3) by auto
    have w: "wheel_late c' (core_running p') (delivered i late)"
      using wheel_late_poll[OF E c(2,3) poll] d(1,2) q(1) s1(3) by (simp add: does_def)
    have "en_watcher en' \<noteq> None \<Longrightarrow> \<not> ended (cn_state c')"
      using poll_watched[OF poll] c(5) d(1,2) q(1) by (auto simp: does_def split: if_splits)
    then have "turned E (delivered i late) en p en' p'" using dev ok w e1 by (simp add: turned_def engine_ok_def)
    moreover have "q = [] \<or> (\<exists>rs. q = [In_ScanResults rs]) \<and> (\<exists>w k. i = In_Wireless (Ev_ScanComplete w k))"
    proof (cases q)
      case (Cons y ys)
      then have "filter is_fetch out \<noteq> []" using q(2) by auto
      then obtain n where n: "Ac_FetchScanResults n \<in> set out"
        using is_fetchD by (auto simp: filter_empty_conv)
      then have "out = [Ac_FetchScanResults n]" using out(3) by blast
      then have "length (filter is_fetch out) = 1" by (simp add: is_fetch_def)
      then have "ys = []" using q(2) Cons by simp
      then show ?thesis using out(3)[OF n] q(3) Cons by auto
    qed simp
    ultimately show ?thesis using Inr by simp
  qed
  then show ?thesis using c(1) ep x by blast
qed

lemma feed_spec:
  assumes E: "env_ok E" and r: "ready E late en p i"
  shows "\<exists>en' p'. feed E S i en p = Some (en', p') \<and> turned E (delivered i late) en p en' p'"
proof -
  obtain n where n: "MAX_TURNS = Suc (Suc (Suc n))" by (simp add: MAX_TURNS_def)
  from turn_spec[OF E r, of S] obtain c c' out p1 x en1 p2 where t: "en_core en = Some c" "engine_poll E S i c p = Some (c', out, p1)"
    "perform_all S out [] (en\<lparr>en_core := Some c'\<rparr>) p1 = (x, en1, p2)"
    and post: "case x of
       Inl e \<Rightarrow> \<exists>en2 p3. engine_abort E S e en1 p2 = Some (en2, p3) \<and> turned E (delivered i late) en p en2 p3
     | Inr q \<Rightarrow> turned E (delivered i late) en p en1 p2 \<and>
         (q = [] \<or> (\<exists>rs. q = [In_ScanResults rs]) \<and> (\<exists>w k. i = In_Wireless (Ev_ScanComplete w k)))" by blast
  show ?thesis
  proof (cases x)
    case (Inl e)
    then show ?thesis using t post by (auto simp: feed_def n)
  next
    case (Inr q)
    then have t1: "turned E (delivered i late) en p en1 p2" using post by simp
    show ?thesis
    proof (cases "q = []")
      case True
      then show ?thesis using t t1 Inr by (auto simp: feed_def n)
    next
      case False
      then obtain rs where q: "q = [In_ScanResults rs]" using post Inr by auto
      obtain c1 where c1: "en_core en1 = Some c1" using t1 by (auto simp: turned_def)
      have r2: "ready E (delivered i late) en1 p2 (In_ScanResults rs)"
        using t1 by (intro ready_of_ok[OF _ c1]) (simp add: turned_def)
      from turn_spec[OF E r2, of S] obtain c2 c3 out2 p3 y en2 p4 where u: "en_core en1 = Some c2"
        "engine_poll E S (In_ScanResults rs) c2 p2 = Some (c3, out2, p3)"
        "perform_all S out2 [] (en1\<lparr>en_core := Some c3\<rparr>) p3 = (y, en2, p4)"
        and post2: "case y of
           Inl e \<Rightarrow> \<exists>en3 p5. engine_abort E S e en2 p4 = Some (en3, p5) \<and>
             turned E (delivered (In_ScanResults rs) (delivered i late)) en1 p2 en3 p5
         | Inr q \<Rightarrow> turned E (delivered (In_ScanResults rs) (delivered i late)) en1 p2 en2 p4 \<and>
             (q = [] \<or> (\<exists>r2. q = [In_ScanResults r2]) \<and> (\<exists>w k. In_ScanResults rs = In_Wireless (Ev_ScanComplete w k)))"
        by blast
      have tr: "turned E (delivered i late) en p en3 p5"
        if "turned E (delivered (In_ScanResults rs) (delivered i late)) en1 p2 en3 p5" for en3 p5
        using t1 that balanced_trans[of en p en1 p2] by (auto simp: turned_def delivered_def)
      show ?thesis
      proof (cases y)
        case (Inl e)
        then show ?thesis using t Inr q u post2 tr by (auto simp: feed_def n)
      next
        case (Inr q2)
        then show ?thesis using t \<open>x = Inr q\<close> q u post2 tr by (auto simp: feed_def n)
      qed
    qed
  qed
qed

section \<open>Operations\<close>

text \<open>\<open>kept\<close>: the operation returned, in a state that satisfies the invariant.\<close>

definition kept ::
  "('sc, 'pt, 'd) env \<Rightarrow> timer_id set \<Rightarrow> (client_id \<Rightarrow> nat) \<Rightarrow> (client_id \<Rightarrow> nat) \<Rightarrow> ('sc, 'pt, 'd) engine \<Rightarrow> 'w ports \<Rightarrow>
   ('sc, 'pt, 'd) engine \<Rightarrow> 'w ports \<Rightarrow> bool" where
  "kept E late n m en p en' p' \<longleftrightarrow> engine_ok E late en' p' \<and> ledger n m en p en' p'"

abbreviation keeps ::
  "('sc, 'pt, 'd) env \<Rightarrow> timer_id set \<Rightarrow> ('sc, 'pt, 'd) engine \<Rightarrow> 'w ports \<Rightarrow> ('sc, 'pt, 'd) engine \<Rightarrow> 'w ports \<Rightarrow> bool" where
  "keeps E late \<equiv> kept E late (\<lambda>_. 0) (\<lambda>_. 0)"

definition one :: "client_id \<Rightarrow> client_id \<Rightarrow> nat" where
  "one i j = (if j = i then 1 else 0)"

lemma keeps_refl: "engine_ok E late en p \<Longrightarrow> keeps E late en p en p"
  by (simp add: kept_def)

lemma keeps_then: "keeps E l en p e1 p1 \<Longrightarrow> kept E late n m e1 p1 en' p' \<Longrightarrow> kept E late n m en p en' p'"
  by (auto simp: kept_def intro: balanced_trans)

lemma kept_then: "kept E l n m en p e1 p1 \<Longrightarrow> keeps E late e1 p1 en' p' \<Longrightarrow> kept E late n m en p en' p'"
  by (auto simp: kept_def intro: trans_balanced)

lemma engine_ok_calls:
  assumes "engine_ok E late en p" "calls p p'"
  shows "keeps E late en p en p'"
  using assms calls_messages(3)[OF assms(2)] calls_running[OF assms(2)] calls_balanced[OF assms(2), of en en]
  by (auto simp: kept_def engine_ok_def calls_def split: option.splits)

lemma turned_keeps: "turned E late en p en' p' \<Longrightarrow> keeps E late en p en' p'"
  by (simp add: turned_def kept_def)

lemma feed_keeps:
  assumes E: "env_ok E" and ok: "engine_ok E late en p"
  shows "\<exists>en' p'. feed E S i en p = Some (en', p') \<and> keeps E (delivered i late) en p en' p'"
proof (cases "en_core en")
  case None
  obtain n where n: "MAX_TURNS = Suc n" by (simp add: MAX_TURNS_def)
  have "engine_ok E (delivered i late) en p" using ok None by (simp add: engine_ok_def)
  then show ?thesis using None by (simp add: feed_def n keeps_refl)
next
  case (Some c)
  then show ?thesis using feed_spec[OF E ready_of_ok[OF ok Some], of S i] turned_keeps by blast
qed

lemma abort_keeps:
  assumes "engine_ok E l en p" "en_core en \<noteq> None"
  shows "\<exists>en' p'. engine_abort E S reason en p = Some (en', p') \<and> keeps E late en p en' p' \<and> at_rest en' p' \<and>
    en_device en' = en_device en"
proof -
  obtain c where c: "en_core en = Some c" using assms(2) by blast
  show ?thesis using engine_abort_spec[OF c, of p E S reason late] assms c
    by (auto simp: engine_ok_def kept_def)
qed

lemma busy_core: "\<not> engine_is_idle en \<Longrightarrow> en_core en \<noteq> None"
  by (cases "en_core en") (simp_all add: engine_is_idle_def engine_state_def)

subsection \<open>Preparing an interface\<close>

lemma open_eapol_calls: "open_eapol S n p = (r, p') \<Longrightarrow> calls p p'"
proof (cases "po_eapol p = None")
  case True
  assume "open_eapol S n p = (r, p')"
  moreover have "calls q q'" if "(Inr (), q\<lparr>po_eapol := Some n\<rparr>) = (r, q')" for q r q'
    using that calls_eapol[of q "Some n"] by auto
  ultimately show ?thesis
    using True attempt_calls[of "\<lambda>p. (Inr (), p\<lparr>po_eapol := Some n\<rparr>)" _ S "K_EapolOpen n" p r p'] by (simp add: open_eapol_def)
qed (simp add: open_eapol_def)

lemma load_profiles_calls: "load_profiles S p = (ps, p') \<Longrightarrow> calls p p'"
  by (auto simp: load_profiles_def split: prod.splits sum.splits dest: calls_askD)

lemma describe_calls: "describe S n p = (r, p') \<Longrightarrow> calls p p'"
  by (auto simp: describe_def need_nl_def split: if_splits prod.splits sum.splits option.splits
      intro: calls_trans dest!: calls_askD)

lemma describe_device: "describe S n p = (Inr d, p') \<Longrightarrow> dev_ifindex d = n"
  by (auto simp: describe_def need_nl_def split: if_splits prod.splits sum.splits option.splits)

lemma fresh_core:
  assumes ok: "engine_ok E l en p" and idle: "engine_is_idle en"
    and ps: "load_profiles S (cancel_core_timers p) = (ps, p1)"
  shows "keeps E late en p (en\<lparr>en_core := Some (conn_new d ps), en_device := Some d\<rparr>) (stop_dhcp S (p1\<lparr>po_eapol := None\<rparr>))"
proof -
  let ?en = "en\<lparr>en_core := Some (conn_new d ps), en_device := Some d\<rparr>" and ?q = "stop_dhcp S (p1\<lparr>po_eapol := None\<rparr>)"
  have c: "calls (cancel_core_timers p) ?q"
    by (rule calls_trans[OF load_profiles_calls[OF ps] calls_trans[OF calls_eapol calls_stop_dhcp]])
  have s: "wheel_sound p" "settled p" "en_watcher en = None"
    using ok idle by (auto simp: engine_ok_def engine_is_idle_def engine_state_def split: option.splits)
  have "core_running ?q = {}" using calls_running[OF c] by (simp add: core_running_def)
  moreover have "wheel_sound ?q" using c cancel_core_sound[OF s(1)] by (simp add: calls_def)
  moreover have "settled ?q" using calls_messages(3)[OF c] s(2) by (simp add: settled_def)
  ultimately have "engine_ok E late ?en ?q"
    using s(3) by (simp add: engine_ok_def wheel_late_def conn_new_def must_run_def conn_ok_def)
  moreover have "balanced en p en (cancel_core_timers p)"
    by (rule balanced_trace_same) (simp_all add: is_own_key_def)
  ultimately show ?thesis using balanced_trans calls_balanced[OF c, of ?en en] by (simp add: kept_def) 
qed

lemma prepare_keeps:
  assumes ok: "engine_ok E late en p"
  shows "\<exists>r en' p'. engine_prepare E S n en p = Some (r, en', p') \<and> keeps E late en p en' p' \<and>
    (\<forall>u. r = Inr u \<longrightarrow> (\<exists>c. en_core en' = Some c \<and> dev_ifindex (cn_device c) = n))"
proof -
  obtain r p1 where d: "describe S n p = (r, p1)" by fastforce
  have k1: "keeps E late en p en p1" by (rule engine_ok_calls[OF ok describe_calls[OF d]])
  let ?why = "Re_Text (''the address or capabilities of ifindex '' @ show_nat (unat n) @ '' changed'')"
  show ?thesis
  proof (cases r)
    case (Inl e)
    then show ?thesis using d k1 by (simp add: engine_prepare_def)
  next
    case (Inr dev)
    note ok1 = k1[unfolded kept_def, THEN conjunct1]
    have opened: "\<exists>r en' p'. (case open_eapol S n q of (r, p) \<Rightarrow> Some (r, e, p)) = Some (r, en', p') \<and> keeps E late en p en' p' \<and>
        (\<forall>u. r = Inr u \<longrightarrow> (\<exists>c. en_core en' = Some c \<and> dev_ifindex (cn_device c) = n))"
      if k: "keeps E late en p e q" and dv: "en_device e = Some dev" for e q
    proof -
      obtain x q' where x: "open_eapol S n q = (x, q')" by fastforce
      have "keeps E late en p e q'"
        by (rule keeps_then[OF k engine_ok_calls[OF conjunct1[OF k[unfolded kept_def]] open_eapol_calls[OF x]]])
      moreover have "\<exists>c. en_core e = Some c \<and> dev_ifindex (cn_device c) = n"
        using k dv describe_device[OF d[unfolded Inr]] by (auto simp: kept_def engine_ok_def split: option.splits)
      ultimately show ?thesis using x by auto
    qed
    show ?thesis
    proof (cases "en_device en = Some dev")
      case True
      then show ?thesis using opened[OF k1 True] d Inr by (simp add: engine_prepare_def)
    next
      case False
      have idled: "\<exists>e q. (if engine_is_idle en then Some (en, p1)
          else engine_abort E S ?why en p1) = Some (e, q) \<and>
          keeps E late en p e q \<and> engine_is_idle e"
      proof (cases "engine_is_idle en")
        case True
        then show ?thesis using k1 by simp
      next
        case False
        from abort_keeps[OF ok1 busy_core[OF False], of S ?why late]
        show ?thesis using False keeps_then[OF k1] by (auto simp: at_rest_def engine_is_idle_def)
      qed
      then obtain e q where e: "(if engine_is_idle en then Some (en, p1)
          else engine_abort E S ?why en p1) = Some (e, q)"
          "keeps E late en p e q" "engine_is_idle e" by blast
      obtain ps q1 where ps: "load_profiles S (cancel_core_timers q) = (ps, q1)" by fastforce
      have "engine_ok E late e q" using e(2) by (simp add: kept_def)
      from keeps_then[OF e(2) fresh_core[OF this e(3) ps]]
      have "keeps E late en p (e\<lparr>en_core := Some (conn_new dev ps), en_device := Some dev\<rparr>) (stop_dhcp S (q1\<lparr>po_eapol := None\<rparr>))" .
      from opened[OF this] show ?thesis using d Inr False e(1) ps by (simp add: engine_prepare_def)
    qed
  qed
qed

subsection \<open>Requests\<close>

text \<open>What a request leaves the connection in before its command is fed.\<close>

lemma supersede_spec:
  assumes "supersede m client en p = (en', p')"
  shows "ledger (one client) (\<lambda>_. 0) en p en' p'" "en_core en' = en_core en" "en_device en' = en_device en"
    "wheel_sound p \<Longrightarrow> wheel_sound p'" "settled p \<Longrightarrow> settled p'" "core_running p' = core_running p"
  using assms by (auto simp: supersede_def ledger_def waits_def asked_def one_def wheel_sound_def core_running_def
      split: option.splits if_splits)

lemma request_keeps:
  assumes E: "env_ok E" and ok: "engine_ok E late en p" and core: "en_core en = Some c" and r: "restarts i"
    and s: "supersede m client en p = (e1, p1)" and l: "delivered i late = late"
  shows "\<exists>en' p'. feed_ok E S i e1 p1 = Some (Inr (), en', p') \<and> kept E late (one client) (\<lambda>_. 0) en p en' p'"
proof -
  have "ready E late e1 p1 i"
    using supersede_spec[OF s] ok core r by (auto simp: engine_ok_def ready_def)
  from feed_spec[OF E this, of S] obtain en' p' where f: "feed E S i e1 p1 = Some (en', p')" "turned E late e1 p1 en' p'"
    unfolding l by blast
  then show ?thesis using trans_balanced[OF supersede_spec(1)[OF s]] by (auto simp: feed_ok_def kept_def turned_def)
qed

text \<open>The requests counted: one when a request was taken on, none when it was refused.\<close>

definition owed :: "client_id \<Rightarrow> (reason + 'a) \<Rightarrow> client_id \<Rightarrow> nat" where
  "owed i r = (case r of Inl _ \<Rightarrow> (\<lambda>_. 0) | Inr _ \<Rightarrow> one i)"

lemma owed_simps [simp]: "owed i (Inl e) = (\<lambda>_. 0)" "owed i (Inr x) = one i"
  by (simp_all add: owed_def)

lemma connect_keeps:
  assumes E: "env_ok E" and ok: "engine_ok E late en p"
  shows "\<exists>r en' p'. engine_connect E S n ssid client en p = Some (r, en', p') \<and> kept E late (owed client r) (\<lambda>_. 0) en p en' p'"
proof (cases "ssid = []")
  case False
  obtain r e1 p1 where q: "engine_prepare E S n en p = Some (r, e1, p1)" "keeps E late en p e1 p1"
      "\<forall>u. r = Inr u \<longrightarrow> (\<exists>c. en_core e1 = Some c \<and> dev_ifindex (cn_device c) = n)"
    using prepare_keeps[OF ok, of S n] by blast
  show ?thesis
  proof (cases r)
    case (Inl e)
    then show ?thesis using False q by (simp add: engine_connect_def)
  next
    case (Inr u)
    then obtain c where c: "en_core e1 = Some c" using q(3) by blast
    obtain e2 p2 where s: "supersede ''superseded by another connect request'' client e1 p1 = (e2, p2)" by fastforce
    have "engine_ok E late e1 p1" using q(2) by (simp add: kept_def)
    from request_keeps[OF E this c _ s, of "In_Command (Cmd_Connect ssid)" S]
    show ?thesis using False q(1) Inr s keeps_then[OF q(2)] by (auto simp: engine_connect_def restarts_def delivered_def)
  qed
qed (use ok in \<open>simp add: engine_connect_def keeps_refl\<close>)

lemma autoconnect_keeps:
  assumes E: "env_ok E" and ok: "engine_ok E late en p"
  shows "\<exists>r en' p'. engine_autoconnect E S n en p = Some (r, en', p') \<and> keeps E late en p en' p'"
proof -
  obtain r e1 p1 where q: "engine_prepare E S n en p = Some (r, e1, p1)" "keeps E late en p e1 p1"
    using prepare_keeps[OF ok, of S n] by blast
  have ok1: "engine_ok E late e1 p1" using q(2) by (simp add: kept_def)
  show ?thesis
    using q(1) feed_keeps[OF E ok1, of S "In_Command Cmd_Autoconnect"] keeps_then[OF q(2)] q(2)
    by (cases r) (auto simp: engine_autoconnect_def feed_ok_def delivered_def)
qed

lemma disconnect_keeps:
  assumes E: "env_ok E" and ok: "engine_ok E late en p"
  shows "\<exists>r en' p'. engine_disconnect E S ssid client en p = Some (r, en', p') \<and> kept E late (owed client r) (\<lambda>_. 0) en p en' p'"
proof (cases "engine_ssid en = Some ssid")
  case True
  then obtain c where c: "en_core en = Some c" by (auto simp: engine_ssid_def split: option.splits)
  obtain e2 p2 where s: "supersede ''superseded by a disconnect request'' client en p = (e2, p2)" by fastforce
  from request_keeps[OF E ok c _ s, of "In_Command Cmd_Disconnect" S]
  show ?thesis using True s by (auto simp: engine_disconnect_def restarts_def delivered_def)
next
  case False
  then show ?thesis using ok by (auto simp: engine_disconnect_def keeps_refl split: option.split)
qed

lemma forget_keeps:
  assumes E: "env_ok E" and ok: "engine_ok E late en p"
  shows "\<exists>r en' p'. engine_forget E S ssid client en p = Some (r, en', p') \<and>
    kept E late (if r = Inr True then one client else (\<lambda>_. 0)) (\<lambda>_. 0) en p en' p'"
proof -
  obtain x p1 where x: "ask (sys_delete_profile S ssid) p = (x, p1)" by fastforce
  have k: "keeps E late en p en p1" by (rule engine_ok_calls[OF ok calls_askD[OF x]])
  have ok1: "engine_ok E late en p1" using k by (simp add: kept_def)
  obtain r en' p' where d: "engine_disconnect E S ssid client en p1 = Some (r, en', p')"
      "kept E late (owed client r) (\<lambda>_. 0) en p1 en' p'"
    using disconnect_keeps[OF E ok1] by blast
  show ?thesis
    using x k d(1) keeps_then[OF k d(2)] by (cases x; cases r) (auto simp: engine_forget_def)
qed

lemma secret_keeps:
  assumes E: "env_ok E" and ok: "engine_ok E late en p"
  shows "\<exists>r en' p'. engine_secret E S token v client en p = Some (r, en', p') \<and> kept E late (\<lambda>_. 0) (owed client r) en p en' p'"
proof (cases "\<exists>pn. en_pending en = Some pn \<and> pn_token pn = token \<and> pn_client pn = client")
  case True
  then obtain pn where pn: "en_pending en = Some pn" "pn_token pn = token" "pn_client pn = client" by blast
  let ?en = "en\<lparr>en_pending := None\<rparr>"
  have "engine_ok E late ?en p" using ok by (simp add: engine_ok_def split: option.splits)
  from feed_keeps[OF E this, of S "In_Command (Cmd_Secret v)"] obtain en' p'
    where f: "feed E S (In_Command (Cmd_Secret v)) ?en p = Some (en', p')" "keeps E late ?en p en' p'"
    by (auto simp: delivered_def)
  have "ledger (\<lambda>_. 0) (one client) en p ?en p" using pn by (simp add: ledger_def waits_def asked_def one_def)
  from trans_balanced[OF this] have "kept E late (\<lambda>_. 0) (one client) en p en' p'" using f(2) by (simp add: kept_def)
  then show ?thesis using pn f(1) by (simp add: engine_secret_def feed_ok_def)
qed (use ok in \<open>auto simp: engine_secret_def keeps_refl split: option.split\<close>)

subsection \<open>Events\<close>

lemma dhcp_datagram_keeps:
  assumes E: "env_ok E" and ok: "engine_ok E late en p"
  shows "\<exists>en' p'. engine_on_dhcp_datagram E S bs en p = Some (en', p') \<and> keeps E late en p en' p'"
proof -
  obtain ev p1 where d: "drive_dhcp S (Di_Datagram bs) p = (ev, p1)" by fastforce
  have k: "keeps E late en p en p1" using engine_ok_calls[OF ok] drive_dhcp_calls[OF d] by blast
  then have ok1: "engine_ok E late en p1" by (simp add: kept_def)
  show ?thesis
    using d k feed_keeps[OF E ok1, of S "In_Lease e" for e] keeps_then[OF k]
    by (cases ev) (fastforce simp: engine_on_dhcp_datagram_def delivered_def)+
qed

lemma dhcp_timer_keeps:
  assumes E: "env_ok E" and ok: "engine_ok E late en p"
  shows "\<exists>en' p'. engine_on_dhcp_timer E S t en p = Some (en', p') \<and> keeps E late en p en' p'"
proof -
  obtain ev p1 where d: "drive_dhcp S (Di_Timeout t) p = (ev, p1)" by fastforce
  have k: "keeps E late en p en p1" using engine_ok_calls[OF ok] drive_dhcp_calls[OF d] by blast
  then have ok1: "engine_ok E late en p1" by (simp add: kept_def)
  show ?thesis
  proof (cases ev)
    case (Some e)
    let ?q = "if e = Le_Failed then stop_dhcp S p1 else p1"
    have "calls p1 ?q" by simp
    from engine_ok_calls[OF ok1 this] have k2: "keeps E late en p en ?q" by (rule keeps_then[OF k])
    then have ok2: "engine_ok E late en ?q" by (simp add: kept_def)
    show ?thesis
      using d Some feed_keeps[OF E ok2, of S "In_Lease e"] keeps_then[OF k2]
      by (fastforce simp: engine_on_dhcp_timer_def delivered_def)
  qed (use d k in \<open>simp add: engine_on_dhcp_timer_def\<close>)
qed

lemma engine_ok_ifindex: "engine_ok E late en p \<Longrightarrow> engine_ifindex en = Some n \<Longrightarrow> en_core en \<noteq> None"
  by (cases "en_core en") (simp_all add: engine_ok_def engine_ifindex_def)

lemma link_keeps:
  assumes E: "env_ok E" and ok: "engine_ok E late en p"
  shows "\<exists>en' p'. engine_on_link E S ev en p = Some (en', p') \<and> keeps E late en p en' p'"
proof (cases "engine_ifindex en")
  case None
  then show ?thesis using ok by (simp add: engine_on_link_def keeps_refl)
next
  case (Some n)
  note core = engine_ok_ifindex[OF ok Some]
  note ab = abort_keeps[OF ok core, of S _ late]
  have gone: "keeps E late en p (e\<lparr>en_core := None, en_device := None\<rparr>) q" if k: "keeps E late en p e q" and r: "at_rest e q" for e q
  proof -
    have "balanced e q (e\<lparr>en_core := None, en_device := None\<rparr>) q" by (simp add: ledger_def waits_def asked_def)
    moreover have "engine_ok E late (e\<lparr>en_core := None, en_device := None\<rparr>) q"
      using k r by (simp add: kept_def engine_ok_def at_rest_def)
    ultimately show ?thesis using k balanced_trans by (auto simp: kept_def)
  qed
  show ?thesis
  proof (cases ev)
    case (Lk_Removed g)
    then show ?thesis using Some ab[of "Re_Text (''ifindex '' @ show_nat (unat n) @ '' was removed'')"] gone ok
      by (auto simp: engine_on_link_def keeps_refl)
  next
    case (Lk_Changed g up carrier)
    then show ?thesis
      using Some ab[of "Re_Text (''ifindex '' @ show_nat (unat n) @ '' was taken down'')"] ok feed_keeps[OF E ok, of S "In_Wireless (Ev_Disconnected 0 False)"]
      by (auto simp: engine_on_link_def keeps_refl delivered_def)
  qed (use Some ok in \<open>simp add: engine_on_link_def keeps_refl\<close>)
qed

lemma resume_keeps:
  assumes "engine_ok E late en p"
  shows "\<exists>en' p'. engine_resume E S en p = Some (en', p') \<and> keeps E late en p en' p'"
  using assms abort_keeps[OF assms busy_core, of S "Re_Text ''system resumed; re-establishing connection''" late]
  by (auto simp: engine_resume_def keeps_refl)

lemma forget_client_keeps:
  assumes "engine_ok E late en p"
  shows "keeps E late en p (engine_forget_client i en) p"
  using assms by (auto simp: kept_def engine_ok_def engine_forget_client_def ledger_def waits_def asked_def split: option.split)

lemma shut_down_keeps:
  assumes E: "env_ok E" and ok: "engine_ok E late en p"
  shows "\<exists>en' p'. engine_shut_down E S en p = Some (en', p') \<and> keeps E late en p en' p'"
  using feed_keeps[OF E ok, of S "In_Command Cmd_Disconnect"] ok
  by (auto simp: engine_shut_down_def keeps_refl delivered_def)

end
