(* ===== verification/Reactor_Inv.thy ===== *)
theory Reactor_Inv
  imports Reactor Engine_Feed
begin

text \<open>
  What every handler of the poll loop (\<^verbatim>\<open>src/crates/cawd/src/reactor.rs\<close>) keeps: the invariant of the
  engine, a deadline for every scan a client waits for, the next turn of the connect loop, and the
  balance of requests and responses of each client.
\<close>

section \<open>The invariant\<close>

definition scans_of :: "client_id \<Rightarrow> ('sc, 'pt, 'd, 'w) reactor \<Rightarrow> nat" where
  "scans_of i r = count_list (map fst (rx_scans r)) i"

text \<open>\<open>K\<close>: the keys that have expired and are still to be delivered.\<close>

definition cores :: "reactor_key set \<Rightarrow> timer_id set" where
  "cores K = {i. Key_Core i \<in> K}"

definition scan_deadlines :: "reactor_key set \<Rightarrow> client_id set \<Rightarrow> 'w ports \<Rightarrow> bool" where
  "scan_deadlines K waiting p \<longleftrightarrow>
     (\<forall>c. c \<in> waiting \<longleftrightarrow> Key_Scan c \<in> K \<or> deadline (po_timers p) (Key_Scan c) \<noteq> None)"

definition loop_alive :: "reactor_key set \<Rightarrow> bool \<Rightarrow> 'w ports \<Rightarrow> bool" where
  "loop_alive K auto p \<longleftrightarrow> (auto \<longrightarrow> Key_Autoconnect \<in> K \<or> deadline (po_timers p) Key_Autoconnect \<noteq> None)"

definition rx_ok :: "('sc, 'pt, 'd) env \<Rightarrow> reactor_key set \<Rightarrow> ('sc, 'pt, 'd, 'w) reactor \<Rightarrow> bool" where
  "rx_ok E K r \<longleftrightarrow> engine_ok E (cores K) (rx_engine r) (rx_ports r) \<and>
     scan_deadlines K (fst ` set (rx_scans r)) (rx_ports r) \<and> loop_alive K (rx_autoconnect r) (rx_ports r)"

text \<open>What a client was sent and what it will be sent for the requests it made.\<close>

definition due_to :: "client_id \<Rightarrow> ('sc, 'pt, 'd, 'w) reactor \<Rightarrow> nat" where
  "due_to i r = answers i (rx_ports r) + waits i (rx_engine r) + scans_of i r"

definition moved ::
  "('sc, 'pt, 'd) env \<Rightarrow> reactor_key set \<Rightarrow> (client_id \<Rightarrow> nat) \<Rightarrow> ('sc, 'pt, 'd, 'w) reactor \<Rightarrow> ('sc, 'pt, 'd, 'w) reactor \<Rightarrow> bool" where
  "moved E K n r r' \<longleftrightarrow> rx_ok E K r' \<and> (\<forall>i. due_to i r' \<le> due_to i r + n i) \<and>
     rx_next_id r' = rx_next_id r \<and> rx_autoconnect r' = rx_autoconnect r"

abbreviation stays ::
  "('sc, 'pt, 'd) env \<Rightarrow> reactor_key set \<Rightarrow> ('sc, 'pt, 'd, 'w) reactor \<Rightarrow> ('sc, 'pt, 'd, 'w) reactor \<Rightarrow> bool" where
  "stays E K \<equiv> moved E K (\<lambda>_. 0)"

lemma stays_refl: "rx_ok E K r \<Longrightarrow> stays E K r r"
  by (simp add: moved_def)

lemma moved_trans: "moved E K1 n r r1 \<Longrightarrow> moved E K2 m r1 r2 \<Longrightarrow> moved E K2 (\<lambda>i. n i + m i) r r2"
proof -
  assume a: "moved E K1 n r r1" "moved E K2 m r1 r2"
  have "due_to i r2 \<le> due_to i r + (n i + m i)" for i
  proof -
    have "due_to i r1 \<le> due_to i r + n i" "due_to i r2 \<le> due_to i r1 + m i" using a by (simp_all add: moved_def)
    then show ?thesis by linarith
  qed
  then show ?thesis using a by (simp add: moved_def)
qed

lemma stays_then: "stays E K1 r r1 \<Longrightarrow> moved E K n r1 r2 \<Longrightarrow> moved E K n r r2"
  using moved_trans[of E K1 "\<lambda>_. 0"] by simp

lemma moved_stays: "moved E K1 n r r1 \<Longrightarrow> stays E K r1 r2 \<Longrightarrow> moved E K n r r2"
  using moved_trans[of E K1 n r r1 K "\<lambda>_. 0"] by simp

lemma moved_le: "moved E K n r r' \<Longrightarrow> (\<And>i. n i \<le> m i) \<Longrightarrow> moved E K m r r'"
proof -
  assume a: "moved E K n r r'" and le: "\<And>i. n i \<le> m i"
  have "due_to i r' \<le> due_to i r + m i" for i
  proof -
    have "due_to i r' \<le> due_to i r + n i" using a by (simp add: moved_def)
    then show ?thesis using le[of i] by linarith
  qed
  then show ?thesis using a by (simp add: moved_def)
qed

lemma moved_ok: "moved E K n r r' \<Longrightarrow> rx_ok E K r'"
  by (simp add: moved_def)

lemma rx_ok_fields [simp]:
  "rx_ok E K (r\<lparr>rx_auto_attempts := n\<rparr>) = rx_ok E K r" "rx_ok E K (r\<lparr>rx_auto_paused := b\<rparr>) = rx_ok E K r"
  "rx_ok E K (r\<lparr>rx_stopping := b\<rparr>) = rx_ok E K r" "rx_ok E K (r\<lparr>rx_suspend_offset := t\<rparr>) = rx_ok E K r"
  "rx_ok E K (r\<lparr>rx_power_save_off := q\<rparr>) = rx_ok E K r" "rx_ok E K (r\<lparr>rx_clients := cs\<rparr>) = rx_ok E K r"
  "rx_ok E K (r\<lparr>rx_next_id := k\<rparr>) = rx_ok E K r"
  by (simp_all add: rx_ok_def)

lemma due_to_fields [simp]:
  "due_to i (r\<lparr>rx_auto_attempts := n\<rparr>) = due_to i r" "due_to i (r\<lparr>rx_auto_paused := b\<rparr>) = due_to i r"
  "due_to i (r\<lparr>rx_stopping := b\<rparr>) = due_to i r" "due_to i (r\<lparr>rx_suspend_offset := t\<rparr>) = due_to i r"
  "due_to i (r\<lparr>rx_power_save_off := q\<rparr>) = due_to i r" "due_to i (r\<lparr>rx_clients := cs\<rparr>) = due_to i r"
  "due_to i (r\<lparr>rx_next_id := k\<rparr>) = due_to i r"
  by (simp_all add: due_to_def scans_of_def)

lemma moved_fields [simp]:
  "moved E K n r (r'\<lparr>rx_auto_attempts := a\<rparr>) = moved E K n r r'" "moved E K n r (r'\<lparr>rx_auto_paused := b\<rparr>) = moved E K n r r'"
  "moved E K n r (r'\<lparr>rx_stopping := b\<rparr>) = moved E K n r r'" "moved E K n r (r'\<lparr>rx_suspend_offset := k\<rparr>) = moved E K n r r'"
  "moved E K n r (r'\<lparr>rx_power_save_off := q\<rparr>) = moved E K n r r'" "moved E K n r (r'\<lparr>rx_clients := cs\<rparr>) = moved E K n r r'"
  "moved E K n (r\<lparr>rx_auto_attempts := a\<rparr>) r' = moved E K n r r'" "moved E K n (r\<lparr>rx_auto_paused := b\<rparr>) r' = moved E K n r r'"
  "moved E K n (r\<lparr>rx_clients := cs\<rparr>) r' = moved E K n r r'"
  by (simp_all add: moved_def)

section \<open>Calls and the engine\<close>

lemma calls_tick [simp]: "calls p (tick S p)"
proof -
  have "calls q (q\<lparr>po_now := t\<rparr>)" for q :: "'a ports" and t
    by (rule calls_same) (simp add: same_desk_def)
  then show ?thesis
    by (auto simp: tick_def Let_def split: prod.split intro: calls_trans[OF calls_askD])
qed

lemma moved_engine:
  assumes ok: "rx_ok E K r" and en: "engine_ok E (cores K') en p" and l: "ledger n m (rx_engine r) (rx_ports r) en p"
    and K: "\<And>k. \<not> is_own_key k \<Longrightarrow> k \<in> K' \<longleftrightarrow> k \<in> K"
  shows "moved E K' n r (r\<lparr>rx_engine := en, rx_ports := p\<rparr>)"
proof -
  let ?r = "r\<lparr>rx_engine := en, rx_ports := p\<rparr>"
  have d: "deadline (po_timers p) k = deadline (po_timers (rx_ports r)) k" if "\<not> is_own_key k" for k
    using l that by (simp add: ledger_def)
  have "scan_deadlines K' (fst ` set (rx_scans ?r)) p" "loop_alive K' (rx_autoconnect ?r) p"
    using ok K d by (simp_all add: rx_ok_def scan_deadlines_def loop_alive_def is_own_key_def)
  moreover have "due_to i ?r \<le> due_to i r + n i" for i
  proof -
    have "answers i p + waits i en \<le> answers i (rx_ports r) + waits i (rx_engine r) + n i" using l by (simp add: ledger_def)
    then show ?thesis by (simp add: due_to_def scans_of_def)
  qed
  ultimately show ?thesis using en by (simp add: moved_def rx_ok_def)
qed

lemma keptD:
  "kept E late n m en p en' p' \<Longrightarrow> engine_ok E late en' p'" "kept E late n m en p en' p' \<Longrightarrow> ledger n m en p en' p'"
  by (simp_all add: kept_def)

lemma rx_engine_ok: "rx_ok E K r \<Longrightarrow> engine_ok E (cores K) (rx_engine r) (rx_ports r)"
  by (simp add: rx_ok_def)

lemma moved_calls:
  assumes "rx_ok E K r" "calls (rx_ports r) p"
  shows "stays E K r (r\<lparr>rx_ports := p\<rparr>)"
proof -
  have k: "keeps E (cores K) (rx_engine r) (rx_ports r) (rx_engine r) p"
    by (rule engine_ok_calls[OF rx_engine_ok[OF assms(1)] assms(2)])
  have "stays E K r (r\<lparr>rx_engine := rx_engine r, rx_ports := p\<rparr>)"
    by (rule moved_engine[OF assms(1) keptD[OF k]]) simp
  then show ?thesis by simp
qed

lemma on_ports_moved:
  assumes "rx_ok E K r" "on_ports f r = (x, r')" "\<And>p y q. f p = (y, q) \<Longrightarrow> calls p q"
  shows "stays E K r r'"
proof -
  obtain y q where f: "f (rx_ports r) = (y, q)" by fastforce
  then have "r' = r\<lparr>rx_ports := q\<rparr>" using assms(2) by (simp add: on_ports_def)
  then show ?thesis using moved_calls[OF assms(1)] assms(3)[OF f] by simp
qed

lemma with_engine_moved:
  assumes ok: "rx_ok E K r"
    and f: "\<And>p. engine_ok E (cores K) (rx_engine r) p \<Longrightarrow>
      \<exists>x en' p'. f (rx_engine r) p = Some (x, en', p') \<and> kept E (cores K') (n x) (m x) (rx_engine r) p en' p'"
    and K: "\<And>k. \<not> is_own_key k \<Longrightarrow> k \<in> K' \<longleftrightarrow> k \<in> K"
  shows "\<exists>x r'. with_engine S f r = Some (x, r') \<and> moved E K' (n x) r r'"
proof -
  let ?p = "tick S (rx_ports r)"
  have t: "keeps E (cores K) (rx_engine r) (rx_ports r) (rx_engine r) ?p"
    by (rule engine_ok_calls[OF rx_engine_ok[OF ok] calls_tick])
  then obtain x en' p' where x: "f (rx_engine r) ?p = Some (x, en', p')" "kept E (cores K') (n x) (m x) (rx_engine r) ?p en' p'"
    using f[of ?p] by (auto simp: kept_def)
  have k: "kept E (cores K') (n x) (m x) (rx_engine r) (rx_ports r) en' p'" by (rule keeps_then[OF t x(2)])
  have "moved E K' (n x) r (r\<lparr>rx_engine := en', rx_ports := p'\<rparr>)"
    by (rule moved_engine[OF ok keptD[OF k] K])
  then show ?thesis using x(1) by (simp add: with_engine_def)
qed

lemma drive_engine_with:
  "drive_engine S f r = map_option snd (with_engine S (\<lambda>en p. map_option (Pair ()) (f en p)) r)"
  by (cases "f (rx_engine r) (tick S (rx_ports r))") (simp_all add: drive_engine_def with_engine_def case_prod_unfold)

lemma drive_engine_moved:
  assumes ok: "rx_ok E K r"
    and f: "\<And>p. engine_ok E (cores K) (rx_engine r) p \<Longrightarrow>
      \<exists>en' p'. f (rx_engine r) p = Some (en', p') \<and> keeps E (cores K') (rx_engine r) p en' p'"
    and K: "\<And>k. \<not> is_own_key k \<Longrightarrow> k \<in> K' \<longleftrightarrow> k \<in> K"
  shows "\<exists>r'. drive_engine S f r = Some r' \<and> stays E K' r r'"
proof -
  have "\<exists>x en' p'. map_option (Pair ()) (f (rx_engine r) p) = Some (x, en', p') \<and>
      kept E (cores K') (\<lambda>_. 0) (\<lambda>_. 0) (rx_engine r) p en' p'"
    if "engine_ok E (cores K) (rx_engine r) p" for p
    using f[OF that] by auto
  from with_engine_moved[where n = "\<lambda>_ _. 0" and m = "\<lambda>_ _. 0" and S = S and
      f = "\<lambda>en p. map_option (Pair ()) (f en p)", OF ok this K]
  show ?thesis by (auto simp: drive_engine_with)
qed

section \<open>Messages and timers\<close>

lemma trace_ok [simp]: "Tr_Unsettled \<notin> set fx \<Longrightarrow> rx_ok E K (r\<lparr>rx_ports := trace fx (rx_ports r)\<rparr>) = rx_ok E K r"
  by (cases "en_core (rx_engine r)")
    (auto simp: rx_ok_def engine_ok_def wheel_sound_def core_running_def scan_deadlines_def loop_alive_def)

lemma send_moved: "rx_ok E K r \<Longrightarrow> moved E K (one i) r (send i x r)"
  by (simp add: moved_def send_def due_to_def scans_of_def one_def)

text \<open>Changing a deadline of the reactor's own leaves the engine alone.\<close>

lemma engine_ok_timers:
  assumes "engine_ok E late en p" "timers_ok (po_timers p')" "po_trace p' = po_trace p" "po_dhcp p' = po_dhcp p"
    "\<And>k. is_own_key k \<Longrightarrow> deadline (po_timers p') k = deadline (po_timers p) k"
  shows "engine_ok E late en p'"
  using assms by (auto simp: engine_ok_def wheel_sound_def settled_def core_running_def is_own_key_def split: option.splits)

lemma rx_ok_timers: "rx_ok E K r \<Longrightarrow> timers_ok (po_timers (rx_ports r))"
  by (simp add: rx_ok_def engine_ok_def wheel_sound_def)

lemma arm_auto_moved:
  assumes "rx_ok E K r"
  shows "stays E K r (arm_now S Key_Autoconnect d r)"
proof -
  let ?p = "tick S (rx_ports r)"
  have s: "stays E K r (r\<lparr>rx_ports := ?p\<rparr>)" by (rule moved_calls[OF assms]) simp
  have ok: "rx_ok E K (r\<lparr>rx_ports := ?p\<rparr>)" using s by (simp add: moved_def)
  have "stays E K (r\<lparr>rx_ports := ?p\<rparr>) (r\<lparr>rx_ports := arm_key Key_Autoconnect d ?p\<rparr>)"
    using ok rx_ok_timers[OF ok]
    by (auto simp: moved_def rx_ok_def due_to_def scans_of_def answers_def arm_key_def with_timers_def scan_deadlines_def
        loop_alive_def wheel.due_arm is_own_key_def intro!: engine_ok_timers[of E "cores K" _ ?p] timers_ok_arm)
  then show ?thesis using stays_then[OF s] by (simp add: arm_now_def)
qed

lemma finish_scan_moved:
  assumes "rx_ok E K r"
  shows "rx_ok E (K - {Key_Scan c}) (finish_scan x c r)"
    "answers i (rx_ports (finish_scan x c r)) = answers i (rx_ports r) + (if i = c then 1 else 0)"
    "scans_of i (finish_scan x c r) = (if i = c then 0 else scans_of i r)"
    "rx_engine (finish_scan x c r) = rx_engine r" "rx_next_id (finish_scan x c r) = rx_next_id r"
    "rx_autoconnect (finish_scan x c r) = rx_autoconnect r"
proof -
  let ?r = "cancel_timer (Key_Scan c) (r\<lparr>rx_scans := filter (\<lambda>s. fst s \<noteq> c) (rx_scans r)\<rparr>)"
  have "engine_ok E (cores K) (rx_engine r) (rx_ports ?r)"
    using assms rx_ok_timers[OF assms]
    by (auto simp: rx_ok_def cancel_timer_def with_timers_def deadline_cancel is_own_key_def
        intro!: engine_ok_timers[of E "cores K" _ "rx_ports r"] timers_ok_cancel)
  moreover have "cores (K - {Key_Scan c}) = cores K" by (auto simp: cores_def)
  moreover have "fst ` set (filter (\<lambda>s. fst s \<noteq> c) (rx_scans r)) = fst ` set (rx_scans r) - {c}" by auto
  ultimately have "rx_ok E (K - {Key_Scan c}) ?r"
    using assms by (auto simp: rx_ok_def cancel_timer_def with_timers_def scan_deadlines_def loop_alive_def deadline_cancel)
  then show "rx_ok E (K - {Key_Scan c}) (finish_scan x c r)"
    by (simp add: finish_scan_def send_def)
  have "count_list (map fst (filter (\<lambda>s. fst s \<noteq> c) xs)) i = (if i = c then 0 else count_list (map fst xs) i)" for xs :: "(64 word \<times> 32 word) list"
    by (induction xs) auto
  then show "scans_of i (finish_scan x c r) = (if i = c then 0 else scans_of i r)"
    by (simp add: finish_scan_def send_def cancel_timer_def scans_of_def)
qed (simp_all add: finish_scan_def send_def cancel_timer_def with_timers_def trace_def answers_def is_answer_def)

lemma finish_scans_moved:
  assumes "rx_ok E K r" "\<And>i. count_list cs i \<le> scans_of i r"
  shows "stays E (K - Key_Scan ` set cs) r (fold (finish_scan x) cs r)"
proof -
  have f: "rx_ok E (K - Key_Scan ` set cs) (fold (finish_scan x) cs r) \<and>
      (\<forall>i. answers i (rx_ports (fold (finish_scan x) cs r)) = answers i (rx_ports r) + count_list cs i) \<and>
      (\<forall>i. scans_of i (fold (finish_scan x) cs r) = (if i \<in> set cs then 0 else scans_of i r)) \<and>
      rx_engine (fold (finish_scan x) cs r) = rx_engine r \<and> rx_next_id (fold (finish_scan x) cs r) = rx_next_id r \<and>
      rx_autoconnect (fold (finish_scan x) cs r) = rx_autoconnect r"
    using assms(1)
  proof (induction cs arbitrary: K r)
    case (Cons c cs)
    note fs = finish_scan_moved[OF Cons.prems, where c = c and x = x]
    have "K - Key_Scan ` set (c # cs) = K - {Key_Scan c} - Key_Scan ` set cs" by auto
    then show ?case using Cons.IH[OF fs(1)] fs(2-) by (auto split: if_splits)
  qed simp
  have "due_to i (fold (finish_scan x) cs r) \<le> due_to i r" for i
    using f assms(2)[of i] by (auto simp: due_to_def)
  then show ?thesis using f by (simp add: moved_def)
qed

section \<open>Queries and calls\<close>

lemma networks_calls: "networks S n p = (x, q) \<Longrightarrow> calls p q"
  by (auto simp: networks_def need_nl_def split: if_splits prod.splits sum.splits intro: calls_trans dest!: calls_askD)

lemma wireless_interface_calls: "wireless_interface S port p = (x, q) \<Longrightarrow> calls p q"
  by (auto simp: wireless_interface_def need_nl_def split: if_splits prod.splits sum.splits dest!: calls_askD)

lemma trigger_client_scan_calls: "trigger_client_scan S n name p = (x, q) \<Longrightarrow> calls p q"
  by (auto simp: trigger_client_scan_def need_nl_def split: if_splits prod.splits option.splits sys_error.splits dest!: calls_invokeD)

lemma ports_summary_calls: "ports_summary S only p = (x, q) \<Longrightarrow> calls p q"
  by (auto simp: ports_summary_def need_rtnl_def Let_def split: if_splits prod.splits sum.splits
      intro: calls_trans dest!: calls_askD)

lemma find_link_calls: "find_link S name p = (x, q) \<Longrightarrow> calls p q"
  by (auto simp: find_link_def need_rtnl_def split: if_splits prod.splits sum.splits option.splits dest!: calls_askD)

lemma set_link_up_calls: "set_link_up S n up p = (x, q) \<Longrightarrow> calls p q"
  by (auto simp: set_link_up_def need_rtnl_def attempt_or_def split: if_splits prod.splits option.splits dest!: calls_invokeD)

lemma suspend_offset_calls: "suspend_offset S p = (x, q) \<Longrightarrow> calls p q"
  by (auto simp: suspend_offset_def Let_def split: prod.splits intro: calls_trans dest!: calls_askD)

lemmas query_calls = networks_calls wireless_interface_calls trigger_client_scan_calls ports_summary_calls find_link_calls
  set_link_up_calls suspend_offset_calls calls_askD calls_invokeD

lemma disable_power_save_moved: "rx_ok E K r \<Longrightarrow> stays E K r (disable_power_save S n r)"
  by (auto simp: disable_power_save_def Let_def stays_refl split: prod.split intro: on_ports_moved query_calls)

lemma set_port_up_moved:
  assumes ok: "rx_ok E K r" and s: "set_port_up S name up r = (x, r')"
  shows "stays E K r r'"
proof -
  obtain y r1 where f: "on_ports (find_link S name) r = (y, r1)" by fastforce
  note s1 = on_ports_moved[OF ok f find_link_calls]
  show ?thesis
  proof (cases y)
    case (Inl e)
    then show ?thesis using s f s1 by (simp add: set_port_up_def)
  next
    case (Inr link)
    obtain z r2 where u: "on_ports (set_link_up S (nk_index link) up) r1 = (z, r2)" by fastforce
    note s2 = stays_then[OF s1 on_ports_moved[OF moved_ok[OF s1] u set_link_up_calls]]
    let ?r = "if nk_wireless link then r2\<lparr>rx_auto_paused := \<not> up\<rparr> else r2"
    have s3: "stays E K r ?r" using s2 by simp
    have "stays E K r (disable_power_save S (nk_index link) ?r)"
      by (rule stays_then[OF s3 disable_power_save_moved[OF moved_ok[OF s3]]])
    then show ?thesis using s f Inr u s2 s3 by (cases z) (auto simp: set_port_up_def Let_def split: if_splits)
  qed
qed

lemma wireless_ifindex_up_moved:
  assumes ok: "rx_ok E K r" and s: "wireless_ifindex_up S port r = (x, r')"
  shows "stays E K r r'"
proof -
  obtain y r1 where f: "on_ports (wireless_interface S port) r = (y, r1)" by fastforce
  note s1 = on_ports_moved[OF ok f wireless_interface_calls]
  show ?thesis
  proof (cases y)
    case (Inl e)
    then show ?thesis using s f s1 by (simp add: wireless_ifindex_up_def)
  next
    case (Inr nm)
    obtain n name where nm: "nm = (n, name)" by fastforce
    obtain z r2 where u: "on_ports (set_link_up S n True) r1 = (z, r2)" by fastforce
    note s2 = stays_then[OF s1 on_ports_moved[OF moved_ok[OF s1] u set_link_up_calls]]
    note s3 = stays_then[OF s2 disable_power_save_moved[OF moved_ok[OF s2], where S = S and n = n]]
    show ?thesis using s f Inr nm u s2 s3 by (cases z) (auto simp: wireless_ifindex_up_def)
  qed
qed

lemma status_moved:
  assumes ok: "rx_ok E K r" and s: "status S r = (x, r')"
  shows "stays E K r r'"
proof (cases "engine_ifindex (rx_engine r)")
  case (Some n)
  obtain l r1 where l: "on_ports (ask (sys_links S)) r = (l, r1)" by fastforce
  obtain a r2 where a: "on_ports (ask (sys_addresses S)) r1 = (a, r2)" by fastforce
  note s1 = on_ports_moved[OF ok l calls_askD]
  note s2 = stays_then[OF s1 on_ports_moved[OF moved_ok[OF s1] a calls_askD]]
  show ?thesis using s Some l a s2 ok by (auto simp: status_def Let_def stays_refl split: if_splits)
qed (use s ok in \<open>auto simp: status_def stays_refl Let_def\<close>)

section \<open>Scans\<close>

lemma count_waiting: "count_list (waiting_on n r) i \<le> scans_of i r"
proof -
  have "count_list (map fst (filter (\<lambda>s. snd s = n) xs)) i \<le> count_list (map fst xs) i" for xs :: "(64 word \<times> 32 word) list"
    by (induction xs) auto
  then show ?thesis by (simp add: waiting_on_def scans_of_def)
qed

lemma on_scan_done_moved:
  assumes ok: "rx_ok E {} r"
  shows "stays E {} r (on_scan_done S n r)"
proof -
  obtain x r1 where x: "on_ports (networks S n) r = (x, r1)" by fastforce
  note s1 = on_ports_moved[OF ok x networks_calls]
  have "rx_scans r1 = rx_scans r" using x by (auto simp: on_ports_def Let_def split: prod.splits)
  then have "count_list (waiting_on n r) i \<le> scans_of i r1" for i
    using count_waiting[of n r i] by (simp add: scans_of_def)
  from finish_scans_moved[OF moved_ok[OF s1] this]
  show ?thesis using x ok stays_then[OF s1] by (simp add: on_scan_done_def Let_def stays_refl)
qed

lemma arm_scan_moved:
  assumes ok: "rx_ok E {} r"
  shows "moved E {} (one c) r (arm_now S (Key_Scan c) d (r\<lparr>rx_scans := rx_scans r @ [(c, n)]\<rparr>))"
proof -
  let ?p = "tick S (rx_ports r)"
  have s: "stays E {} r (r\<lparr>rx_ports := ?p\<rparr>)" by (rule moved_calls[OF ok]) simp
  note ok1 = moved_ok[OF s]
  let ?r = "arm_now S (Key_Scan c) d (r\<lparr>rx_scans := rx_scans r @ [(c, n)]\<rparr>)"
  have "engine_ok E (cores {}) (rx_engine r) (rx_ports ?r)"
    using ok1 rx_ok_timers[OF ok1]
    by (auto simp: rx_ok_def arm_now_def arm_key_def with_timers_def wheel.due_arm is_own_key_def
        intro!: engine_ok_timers[of E "cores {}" _ ?p] timers_ok_arm)
  moreover have "scan_deadlines {} (fst ` set (rx_scans ?r)) (rx_ports ?r)" "loop_alive {} (rx_autoconnect ?r) (rx_ports ?r)"
    using ok1 by (auto simp: rx_ok_def arm_now_def arm_key_def with_timers_def wheel.due_arm scan_deadlines_def loop_alive_def)
  ultimately have "rx_ok E {} ?r" by (simp add: rx_ok_def arm_now_def)
  moreover have "due_to i ?r \<le> due_to i r + one c i" for i
  proof -
    have "answers i ?p = answers i (rx_ports r)" by (rule calls_messages) simp
    then show ?thesis by (simp add: due_to_def scans_of_def arm_now_def arm_key_def with_timers_def answers_def one_def)
  qed
  ultimately show ?thesis by (simp add: moved_def arm_now_def)
qed

lemma start_scan_moved:
  assumes ok: "rx_ok E {} r" and s: "start_scan S c port r = (x, r')"
  shows "moved E {} (owed c x) r r'"
proof -
  obtain y r1 where f: "on_ports (wireless_interface S port) r = (y, r1)" by fastforce
  note s1 = on_ports_moved[OF ok f wireless_interface_calls]
  show ?thesis
  proof (cases y)
    case (Inl e)
    then show ?thesis using s f s1 by (auto simp: start_scan_def)
  next
    case (Inr nm)
    obtain n name where nm: "nm = (n, name)" by fastforce
    obtain z r2 where u: "on_ports (trigger_client_scan S n name) r1 = (z, r2)" by fastforce
    note s2 = stays_then[OF s1 on_ports_moved[OF moved_ok[OF s1] u trigger_client_scan_calls]]
    let ?r = "arm_now S (Key_Scan c) SCAN_TIMEOUT (r2\<lparr>rx_scans := rx_scans r2 @ [(c, n)]\<rparr>)"
    have s3: "moved E {} (one c) r ?r" by (rule stays_then[OF s2 arm_scan_moved[OF moved_ok[OF s2]]])
    have "moved E {} (one c) r (?r\<lparr>rx_ports := trace [Tr_Event c Ie_Scanning] (rx_ports ?r)\<rparr>)"
      using s3 by (simp add: moved_def) (simp add: due_to_def scans_of_def)
    then show ?thesis using s f Inr nm u s2 by (cases z) (auto simp: start_scan_def Let_def)
  qed
qed

section \<open>Requests\<close>

lemma respond_moved: "stays E K r (snd xr) \<Longrightarrow> moved E K (one i) r (respond i xr)"
  by (cases xr; cases "fst xr") (auto simp: respond_def intro: stays_then[OF _ send_moved] dest: moved_ok)

lemma owed_le: "owed i x j \<le> one i j"
  by (cases x) simp_all

lemma refused_moved: "stays E K r r' \<Longrightarrow> moved E K (one i) r (send i x r')"
  by (rule stays_then[OF _ send_moved]) (simp_all add: moved_ok)

text \<open>An operation of the engine asked for by a client: refused with an error, or taken on.\<close>

lemma asked_moved:
  assumes ok: "rx_ok E {} r"
    and f: "\<And>p. engine_ok E {} (rx_engine r) p \<Longrightarrow>
      \<exists>x en' p'. f (rx_engine r) p = Some (x, en', p') \<and> kept E {} (n x) (m x) (rx_engine r) p en' p'"
    and g: "\<And>x r'. moved E {} (n x) r r' \<Longrightarrow> moved E {} (one i) r (g x r')"
  shows "\<exists>r'. map_option (\<lambda>(x, r). g x r) (with_engine S f r) = Some r' \<and> moved E {} (one i) r r'"
proof -
  have c: "cores {} = {}" by (simp add: cores_def)
  have "\<exists>x r'. with_engine S f r = Some (x, r') \<and> moved E {} (n x) r r'"
    by (rule with_engine_moved[where m = m, OF ok]) (simp_all add: c f)
  then show ?thesis using g by auto
qed

lemma cores_none [simp]: "cores {} = {}"
  by (simp add: cores_def)

lemma perform_request_moved:
  assumes E: "env_ok E" and ok: "rx_ok E {} r"
  shows "\<exists>r'. perform_request E S i rq r = Some r' \<and> moved E {} (one i) r r'"
proof -
  have ans: "moved E {} (one i) r (case x of Inl e \<Rightarrow> send i (Ir_Error e) r' | Inr y \<Rightarrow> r'\<lparr>rx_auto_paused := b\<rparr>)"
      "moved E {} (one i) r (case x of Inl e \<Rightarrow> send i (Ir_Error e) r' | Inr y \<Rightarrow> r')"
    if "moved E {} (owed i x) r r'" for x :: "reason + unit" and r' b
    using that refused_moved[of E "{}" r r' i] by (cases x; simp)+
  have port: "moved E {} (one i) r (respond i (apfst f (on_ports (ports_summary S only) r)))" for f only
  proof -
    obtain x r' where x: "on_ports (ports_summary S only) r = (x, r')" by fastforce
    show ?thesis using respond_moved[of E "{}" r "(f x, r')" i] on_ports_moved[OF ok x ports_summary_calls] by (simp add: x)
  qed
  show ?thesis
  proof (cases rq)
    case Rq_ListPorts
    then show ?thesis using port by (simp add: perform_request_def)
  next
    case (Rq_PortInfo name)
    then show ?thesis using port by (simp add: perform_request_def)
  next
    case (Rq_PortUp name up)
    obtain x r' where x: "set_port_up S name up r = (x, r')" by fastforce
    show ?thesis using respond_moved[of E "{}" r "(map_sum id (\<lambda>_. Ir_Ok) x, r')" i] set_port_up_moved[OF ok x]
      by (simp add: Rq_PortUp perform_request_def x)
  next
    case (Rq_Scan port)
    obtain x r' where x: "start_scan S i port r = (x, r')" by fastforce
    have "moved E {} (owed i x) r r'" by (rule start_scan_moved[OF ok x])
    from ans(2)[OF this] show ?thesis by (simp add: Rq_Scan perform_request_def x)
  next
    case (Rq_Connect ssid port)
    have ok0: "rx_ok E {} (r\<lparr>rx_auto_paused := False\<rparr>)" using ok by simp
    obtain x r1 where x: "wireless_ifindex_up S port (r\<lparr>rx_auto_paused := False\<rparr>) = (x, r1)" by fastforce
    have s1: "stays E {} r r1" using wireless_ifindex_up_moved[OF ok0 x] by simp
    show ?thesis
    proof (cases x)
      case (Inl e)
      then show ?thesis using x refused_moved[OF s1] by (simp add: Rq_Connect perform_request_def)
    next
      case (Inr n)
      have "\<exists>r'. map_option (\<lambda>(x, r). case x of Inl e \<Rightarrow> send i (Ir_Error e) r | Inr _ \<Rightarrow> r)
          (with_engine S (engine_connect E S n ssid i) r1) = Some r' \<and> moved E {} (one i) r1 r'"
      proof (rule asked_moved[where n = "owed i" and m = "\<lambda>_ _. 0"])
        show "rx_ok E {} r1" by (rule moved_ok[OF s1])
        show "\<exists>x en' p'. engine_connect E S n ssid i (rx_engine r1) p = Some (x, en', p') \<and>
            kept E {} (owed i x) (\<lambda>_. 0) (rx_engine r1) p en' p'" if "engine_ok E {} (rx_engine r1) p" for p
          by (rule connect_keeps[OF E that])
        show "moved E {} (one i) r1 (case x of Inl e \<Rightarrow> send i (Ir_Error e) r' | Inr _ \<Rightarrow> r')"
          if "moved E {} (owed i x) r1 r'" for x :: "reason + unit" and r'
          using that refused_moved[of E "{}" r1 r' i] by (cases x) simp_all
      qed
      then show ?thesis using x Inr stays_then[OF s1] by (auto simp: Rq_Connect perform_request_def)
    qed
  next
    case (Rq_Disconnect ssid)
    show ?thesis unfolding Rq_Disconnect perform_request_def ipc_request.case
      by (rule asked_moved[where n = "owed i" and m = "\<lambda>_ _. 0", OF ok]) (erule disconnect_keeps[OF E], erule ans(1))
  next
    case (Rq_Forget ssid)
    show ?thesis unfolding Rq_Forget perform_request_def ipc_request.case
    proof (rule asked_moved[where n = "\<lambda>x. if x = Inr True then one i else (\<lambda>_. 0)" and m = "\<lambda>_ _. 0", OF ok], erule forget_keeps[OF E])
      show "moved E {} (one i) r (case x of Inl e \<Rightarrow> send i (Ir_Error e) r' | Inr w \<Rightarrow> if w then r' else send i Ir_Ok r')"
        if "moved E {} (if x = Inr True then one i else (\<lambda>_. 0)) r r'" for x :: "reason + bool" and r'
        using that refused_moved[of E "{}" r r' i] by (cases x) (auto split: if_splits)
    qed
  next
    case Rq_Status
    obtain x r' where x: "status S r = (x, r')" by fastforce
    show ?thesis using refused_moved[OF status_moved[OF ok x]] by (simp add: Rq_Status perform_request_def x)
  next
    case (Rq_Secret token v)
    show ?thesis unfolding Rq_Secret perform_request_def ipc_request.case
    proof (rule asked_moved[where n = "\<lambda>_ _. 0" and m = "owed i", OF ok], erule secret_keeps[OF E])
      show "moved E {} (one i) r (case x of Inl e \<Rightarrow> send i (Ir_Error e) r' | Inr _ \<Rightarrow> r')"
        if "stays E {} r r'" for x :: "reason + unit" and r'
        using that refused_moved[OF that, of i] moved_le[OF that, of "one i"] by (cases x) simp_all
    qed
  next
    case Rq_Shutdown
    then show ?thesis using send_moved[OF ok] by (simp add: perform_request_def)
  qed
qed

lemma permitted_moved: "rx_ok E K r \<Longrightarrow> permitted S i r = (b, r') \<Longrightarrow> stays E K r r'"
  by (auto simp: permitted_def stays_refl split: option.splits prod.splits dest: on_ports_moved[OF _ _ calls_askD])

lemma handle_moved:
  assumes E: "env_ok E" and ok: "rx_ok E {} r"
  shows "\<exists>r'. handle E S i rq r = Some r' \<and> moved E {} (one i) r r'"
proof -
  obtain b r1 where b: "(if is_state_changing rq then permitted S i r else (True, r)) = (b, r1)" by fastforce
  have s1: "stays E {} r r1" using b ok permitted_moved[OF ok] by (auto simp: stays_refl split: if_splits)
  show ?thesis
    using b refused_moved[OF s1] perform_request_moved[OF E moved_ok[OF s1], of S i rq] stays_then[OF s1]
    by (auto simp: handle_def)
qed

section \<open>In sequence\<close>

lemma each_moved:
  assumes "rx_ok E {} r" "\<And>x r. x \<in> set xs \<Longrightarrow> rx_ok E {} r \<Longrightarrow> \<exists>r'. f x r = Some r' \<and> moved E {} (n x) r r'"
  shows "\<exists>r'. each f xs r = Some r' \<and> moved E {} (\<lambda>i. \<Sum>x\<leftarrow>xs. n x i) r r'"
  using assms
proof (induction xs arbitrary: r)
  case (Cons x xs)
  obtain r1 where r1: "f x r = Some r1" "moved E {} (n x) r r1" using Cons.prems by auto
  obtain r2 where "each f xs r1 = Some r2" "moved E {} (\<lambda>i. \<Sum>x\<leftarrow>xs. n x i) r1 r2"
    using Cons.IH[OF moved_ok[OF r1(2)]] Cons.prems(2) by auto
  then show ?case using r1(1) moved_trans[OF r1(2)] by simp
qed (simp add: stays_refl)

lemma each_stays:
  assumes "rx_ok E {} r" "\<And>x r. x \<in> set xs \<Longrightarrow> rx_ok E {} r \<Longrightarrow> \<exists>r'. f x r = Some r' \<and> stays E {} r r'"
  shows "\<exists>r'. each f xs r = Some r' \<and> stays E {} r r'"
  using each_moved[where n = "\<lambda>_ _. 0", OF assms] by (simp add: sum_list_triv)

lemma handle_all_moved:
  assumes E: "env_ok E" and ok: "rx_ok E {} r"
  shows "\<exists>r'. handle_all E S iq r = Some r' \<and> moved E {} (\<lambda>i. if i = fst iq then length (snd iq) else 0) r r'"
proof -
  have "(\<Sum>x\<leftarrow>snd iq. one (fst iq) i) = (if i = fst iq then length (snd iq) else 0)" for i
    by (simp add: one_def sum_list_triv)
  then show ?thesis
    using each_moved[where f = "handle E S (fst iq)" and n = "\<lambda>_. one (fst iq)" and xs = "snd iq", OF ok handle_moved[OF E]]
    by (simp add: handle_all_def)
qed

section \<open>Timers\<close>

lemma rx_ok_auto:
  assumes "rx_ok E K r" "loop_alive (K - {Key_Autoconnect}) (rx_autoconnect r) (rx_ports r)"
  shows "rx_ok E (K - {Key_Autoconnect}) r"
proof -
  have "cores (K - {Key_Autoconnect}) = cores K" by (auto simp: cores_def)
  then show ?thesis using assms by (simp add: rx_ok_def scan_deadlines_def)
qed

lemma armed_alive: "loop_alive K a (rx_ports (arm_now S Key_Autoconnect d r))"
  by (simp add: loop_alive_def arm_now_def arm_key_def with_timers_def wheel.due_arm)

lemma on_autoconnect_moved:
  assumes E: "env_ok E" and ok: "rx_ok E K r"
  shows "\<exists>r'. on_autoconnect E S r = Some r' \<and> stays E (K - {Key_Autoconnect}) r r'"
proof -
  have served: "stays E (K - {Key_Autoconnect}) r (arm_now S Key_Autoconnect d r1)" if "stays E K r r1" for r1 d
  proof -
    note s = stays_then[OF that arm_auto_moved[OF moved_ok[OF that], where S = S and d = d]]
    have "rx_ok E (K - {Key_Autoconnect}) (arm_now S Key_Autoconnect d r1)" by (rule rx_ok_auto[OF moved_ok[OF s] armed_alive])
    then show ?thesis using s by (simp add: moved_def)
  qed
  show ?thesis
  proof (cases "\<not> rx_autoconnect r \<or> rx_auto_paused r \<or> \<not> engine_is_idle (rx_engine r)")
    case True
    have "stays E (K - {Key_Autoconnect}) r r" if "\<not> rx_autoconnect r"
      using rx_ok_auto[OF ok] that by (simp add: moved_def loop_alive_def)
    moreover have "stays E K r (r\<lparr>rx_auto_attempts := 0\<rparr>)" using ok by (simp add: stays_refl)
    ultimately show ?thesis using True served by (auto simp: on_autoconnect_def)
  next
    case False
    have "\<exists>x r'. begin_autoconnect E S r = Some (x, r') \<and> stays E K r r'"
    proof -
      obtain x r1 where x: "wireless_ifindex_up S None r = (x, r1)" by fastforce
      note s1 = wireless_ifindex_up_moved[OF ok x]
      show ?thesis
      proof (cases x)
        case (Inr n)
        have "\<exists>y r'. with_engine S (engine_autoconnect E S n) r1 = Some (y, r') \<and> stays E K r1 r'"
        proof (rule with_engine_moved[where n = "\<lambda>_ _. 0" and m = "\<lambda>_ _. 0", OF moved_ok[OF s1]])
          show "\<exists>y en' p'. engine_autoconnect E S n (rx_engine r1) p = Some (y, en', p') \<and> keeps E (cores K) (rx_engine r1) p en' p'"
            if "engine_ok E (cores K) (rx_engine r1) p" for p by (rule autoconnect_keeps[OF E that])
        qed simp
        then show ?thesis using x Inr stays_then[OF s1] by (auto simp: begin_autoconnect_def)
      qed (use x s1 in \<open>simp add: begin_autoconnect_def\<close>)
    qed
    then show ?thesis using False served by (auto simp: on_autoconnect_def Let_def)
  qed
qed

lemma on_key_moved:
  assumes E: "env_ok E" and ok: "rx_ok E (insert k K) r" and k: "k \<notin> K"
  shows "\<exists>r'. on_key E S k r = Some r' \<and> stays E K r r'"
proof (cases k)
  case (Key_Core i)
  have "cores (insert k K) - {i} = cores K" using k by (auto simp: cores_def Key_Core)
  then have "\<exists>r'. drive_engine S (feed E S (In_Timer i)) r = Some r' \<and> stays E K r r'"
    by (intro drive_engine_moved[OF ok]) (use feed_keeps[OF E, of "cores (insert k K)" _ _ S "In_Timer i"] in
      \<open>auto simp: delivered_def Key_Core is_own_key_def\<close>)
  then show ?thesis by (simp add: on_key_def Key_Core)
next
  case (Key_Scan c)
  have K: "insert k K - {Key_Scan c} = K" using k by (auto simp: Key_Scan)
  have "c \<in> fst ` set (rx_scans r)" using ok by (auto simp: rx_ok_def scan_deadlines_def Key_Scan)
  then have "count_list [c] i \<le> scans_of i r" for i
    using count_list_0_iff[of "map fst (rx_scans r)" i] by (auto simp: scans_of_def Suc_le_eq)
  from finish_scans_moved[OF ok this, of "Ir_Error (Re_Text ''scan timed out'')"] K
  show ?thesis by (simp add: on_key_def Key_Scan)
next
  case Key_Autoconnect
  have "insert k K - {Key_Autoconnect} = K" using k by (auto simp: Key_Autoconnect)
  then show ?thesis using on_autoconnect_moved[OF E ok, of S] by (simp add: on_key_def Key_Autoconnect)
next
  case (Key_Dhcp t)
  have "cores (insert k K) = cores K" by (auto simp: cores_def Key_Dhcp)
  then have "\<exists>r'. drive_engine S (engine_on_dhcp_timer E S t) r = Some r' \<and> stays E K r r'"
    by (intro drive_engine_moved[OF ok]) (use dhcp_timer_keeps[OF E, of "cores (insert k K)"] in \<open>auto simp: Key_Dhcp is_own_key_def\<close>)
  then show ?thesis by (simp add: on_key_def Key_Dhcp)
qed

lemma each_key_moved:
  assumes E: "env_ok E" and "rx_ok E (set ks) r" "distinct ks"
  shows "\<exists>r'. each (on_key E S) ks r = Some r' \<and> stays E {} r r'"
  using assms(2,3)
proof (induction ks arbitrary: r)
  case (Cons k ks)
  obtain r1 where r1: "on_key E S k r = Some r1" "stays E (set ks) r r1"
    using on_key_moved[OF E, of k "set ks" r S] Cons.prems by auto
  obtain r2 where "each (on_key E S) ks r1 = Some r2" "stays E {} r1 r2"
    using Cons.IH[OF moved_ok[OF r1(2)]] Cons.prems(2) by auto
  then show ?case using r1(1) stays_then[OF r1(2)] by simp
qed (simp add: stays_refl)

lemma expire_moved:
  assumes ok: "rx_ok E {} r" and x: "timers_expired now (po_timers (rx_ports r)) = (ks, es)"
  shows "stays E (set ks) r (r\<lparr>rx_ports := (rx_ports r)\<lparr>po_timers := es\<rparr>\<rparr>) \<and> distinct ks"
proof -
  let ?p = "rx_ports r" and ?q = "(rx_ports r)\<lparr>po_timers := es\<rparr>"
  note t = timers_expired_spec[OF rx_ok_timers[OF ok] x]
  have d: "deadline es k = (if k \<in> set ks then None else deadline (po_timers ?p) k)" for k
    using t by (auto split: option.splits)
  have ks: "k \<in> set ks \<Longrightarrow> deadline (po_timers ?p) k \<noteq> None" for k using t by auto
  have "core_running ?q = core_running ?p - cores (set ks)" by (auto simp: core_running_def cores_def d)
  moreover have "cores (set ks) \<subseteq> core_running ?p" using ks by (auto simp: core_running_def cores_def)
  ultimately have late: "wheel_late c (core_running ?q) (cores (set ks))" if "wheel_late c (core_running ?p) {}" for c :: "('a, 'b, 'c) conn"
    using that by (auto simp: wheel_late_def)
  have "wheel_sound ?q" using ok t by (auto simp: rx_ok_def engine_ok_def wheel_sound_def d)
  then have "engine_ok E (cores (set ks)) (rx_engine r) ?q"
    using ok late by (auto simp: rx_ok_def engine_ok_def settled_def split: option.splits)
  moreover have "scan_deadlines (set ks) (fst ` set (rx_scans r)) ?q" "loop_alive (set ks) (rx_autoconnect r) ?q"
    using ok ks by (auto simp: rx_ok_def scan_deadlines_def loop_alive_def d)
  ultimately show ?thesis using t by (simp add: moved_def rx_ok_def due_to_def scans_of_def answers_def)
qed

lemma on_timer_moved:
  assumes E: "env_ok E" and ok: "rx_ok E {} r"
  shows "\<exists>r'. on_timer E S r = Some r' \<and> stays E {} r r'"
proof -
  let ?p = "tick S (rx_ports r)" and ?r = "r\<lparr>rx_ports := tick S (rx_ports r)\<rparr>"
  obtain ks es where x: "timers_expired (po_now ?p) (po_timers ?p) = (ks, es)" by fastforce
  have s1: "stays E {} r ?r" by (rule moved_calls[OF ok]) simp
  have s2: "stays E (set ks) ?r (?r\<lparr>rx_ports := ?p\<lparr>po_timers := es\<rparr>\<rparr>)" and d: "distinct ks"
    using expire_moved[OF moved_ok[OF s1], of _ ks es] x by simp_all
  note s = stays_then[OF s1 s2]
  show ?thesis using each_key_moved[OF E moved_ok[OF s] d, of S] stays_then[OF s] x by (auto simp: on_timer_def Let_def)
qed

end
