(* ===== verification/Reactor_Run.thy ===== *)
theory Reactor_Run
  imports Reactor_Inv
begin

text \<open>
  The invariant of \<open>Reactor_Inv\<close> over a whole wake-up and a run of the daemon
  (\<^verbatim>\<open>src/crates/cawd/src/reactor.rs\<close>), with the requests each client was heard to make.
\<close>

section \<open>Descriptors\<close>

lemma drive_keeps:
  assumes "rx_ok E {} r" "\<And>p. engine_ok E {} (rx_engine r) p \<Longrightarrow>
      \<exists>en' p'. f (rx_engine r) p = Some (en', p') \<and> keeps E {} (rx_engine r) p en' p'"
  shows "\<exists>r'. drive_engine S f r = Some r' \<and> stays E {} r r'"
  by (rule drive_engine_moved[OF assms(1)]) (simp_all add: assms(2))

lemma feed_moved:
  assumes E: "env_ok E" and ok: "rx_ok E {} r" and i: "\<And>t. i \<noteq> In_Timer t"
  shows "\<exists>r'. drive_engine S (feed E S i) r = Some r' \<and> stays E {} r r'"
proof (rule drive_engine_moved[OF ok])
  have "delivered i late = late" for late using i by (simp add: delivered_def split: conn_input.split)
  then show "\<exists>en' p'. feed E S i (rx_engine r) p = Some (en', p') \<and> keeps E (cores {}) (rx_engine r) p en' p'"
    if "engine_ok E (cores {}) (rx_engine r) p" for p
    using feed_keeps[OF E that, of S i] by simp
qed simp

lemma on_event_moved:
  assumes E: "env_ok E" and ok: "rx_ok E {} r"
  shows "\<exists>r'. on_event E S ev r = Some r' \<and> stays E {} r r'"
proof -
  let ?r = "case ev of
      Ev_ScanComplete _ ifindex \<Rightarrow> on_scan_done S ifindex r
    | Ev_ScanAborted _ ifindex \<Rightarrow>
        fold (finish_scan (Ir_Error (Re_Text ''the kernel aborted the scan''))) (waiting_on ifindex r) r
    | _ \<Rightarrow> r"
  have s1: "stays E {} r ?r"
    using on_scan_done_moved[OF ok] finish_scans_moved[OF ok count_waiting]
    by (simp add: stays_refl[OF ok] split: event.split)
  obtain r' where "drive_engine S (feed E S (In_Wireless ev)) ?r = Some r'" "stays E {} ?r r'"
    using feed_moved[OF E moved_ok[OF s1], of "In_Wireless ev" S] by auto
  then show ?thesis using stays_then[OF s1] by (simp add: on_event_def)
qed

lemma on_link_event_moved:
  assumes E: "env_ok E" and ok: "rx_ok E {} r"
  shows "\<exists>r'. on_link_event E S ev r = Some r' \<and> stays E {} r r'"
proof -
  obtain r1 where r1: "drive_engine S (engine_on_link E S ev) r = Some r1" "stays E {} r r1"
    using drive_keeps[where f = "engine_on_link E S ev" and S = S, OF ok link_keeps[OF E]] by blast
  have "stays E {} r1 (arm_now S Key_Autoconnect AUTOCONNECT_START (r1\<lparr>rx_auto_attempts := 0\<rparr>))"
    using arm_auto_moved[of E "{}" "r1\<lparr>rx_auto_attempts := 0\<rparr>"] moved_ok[OF r1(2)] by simp
  then show ?thesis using r1 stays_then[OF r1(2)] by (simp add: on_link_event_def)
qed

lemma on_wireless_moved:
  assumes E: "env_ok E" and ok: "rx_ok E {} r"
  shows "\<exists>r'. on_wireless E S evs r = Some r' \<and> stays E {} r r'"
proof -
  have "\<exists>r'. each (on_event E S) es r = Some r' \<and> stays E {} r r'" for es
    by (rule each_stays[OF ok on_event_moved[OF E]])
  then show ?thesis by (simp add: on_wireless_def stays_refl[OF ok] split: sum.split)
qed

lemma on_eapol_moved:
  assumes E: "env_ok E" and ok: "rx_ok E {} r"
  shows "\<exists>r'. on_eapol E S frames r = Some r' \<and> stays E {} r r'"
proof -
  have "\<exists>r'. each (\<lambda>f. drive_engine S (feed E S (In_Eapol f))) frames r = Some r' \<and> stays E {} r r'"
    by (rule each_stays[OF ok feed_moved[OF E]]) simp_all
  then show ?thesis by (simp add: on_eapol_def stays_refl[OF ok])
qed

lemma on_dhcp_moved:
  assumes E: "env_ok E" and ok: "rx_ok E {} r"
  shows "\<exists>r'. on_dhcp E S bss r = Some r' \<and> stays E {} r r'"
proof -
  have "\<exists>r'. each (\<lambda>bs. drive_engine S (engine_on_dhcp_datagram E S bs)) bss r = Some r' \<and> stays E {} r r'"
    by (rule each_stays[OF ok]) (rule drive_keeps, assumption, erule dhcp_datagram_keeps[OF E])
  then show ?thesis by (simp add: on_dhcp_def stays_refl[OF ok])
qed

lemma check_resume_moved:
  assumes ok: "rx_ok E {} r"
  shows "\<exists>r'. check_resume E S r = Some r' \<and> stays E {} r r'"
proof -
  obtain t r1 where t: "on_ports (suspend_offset S) r = (t, r1)" by fastforce
  have s1: "stays E {} r r1" by (rule on_ports_moved[OF ok t]) (erule suspend_offset_calls)
  obtain r2 where r2: "drive_engine S (engine_resume E S) r1 = Some r2" "stays E {} r1 r2"
    using drive_keeps[where f = "engine_resume E S" and S = S, OF moved_ok[OF s1] resume_keeps] by blast
  note s2 = stays_then[OF s1 r2(2)]
  let ?r3 = "fold (finish_scan (Ir_Error (Re_Text ''scan interrupted by suspend''))) (map fst (rx_scans r2)) r2"
  have "stays E {} r2 ?r3"
    using finish_scans_moved[OF moved_ok[OF s2], of "map fst (rx_scans r2)"] by (simp add: scans_of_def)
  note s3 = stays_then[OF s2 this]
  have s4: "stays E {} r (arm_now S Key_Autoconnect 0 (?r3\<lparr>rx_auto_attempts := 0\<rparr>))"
    using stays_then[OF s3] arm_auto_moved[of E "{}" "?r3\<lparr>rx_auto_attempts := 0\<rparr>" S 0] moved_ok[OF s3] by simp
  show ?thesis
    using t s1 r2(1) s3 s4 by (auto simp: check_resume_def Let_def)
qed

section \<open>A wake-up\<close>

text \<open>
  The requests of a client: those read from it, and those read when it was accepted; \<open>next\<close> is the
  number the next client accepted gets.
\<close>

primrec heard_new :: "client_id \<Rightarrow> client_id \<Rightarrow> (peer \<times> ipc_request list) list \<Rightarrow> nat" where
  "heard_new i next [] = 0"
| "heard_new i next (pq # pqs) = (if next = i then length (snd pq) else 0) + heard_new i (next + 1) pqs"

definition heard_from :: "client_id \<Rightarrow> client_id \<Rightarrow> source \<Rightarrow> nat" where
  "heard_from i next s =
     (case s of
        Sr_Client j requests \<Rightarrow> if j = i then length requests else 0
      | Sr_Listener acc \<Rightarrow> heard_new i next acc
      | _ \<Rightarrow> 0)"

definition admitted :: "source \<Rightarrow> client_id" where
  "admitted s = (case s of Sr_Listener acc \<Rightarrow> of_nat (length acc) | _ \<Rightarrow> 0)"

primrec heard :: "client_id \<Rightarrow> client_id \<Rightarrow> source list \<Rightarrow> nat" where
  "heard i next [] = 0"
| "heard i next (s # ss) = heard_from i next s + heard i (next + admitted s) ss"

lemma heard_append:
  "heard i next (ss @ ts) = heard i next ss + heard i (next + (\<Sum>s\<leftarrow>ss. admitted s)) ts"
  by (induction ss arbitrary: "next") (simp_all add: add.assoc)

lemma admit_all_spec:
  assumes "admit_all acc r = (iqs, r')"
  shows "\<exists>cs. r' = r\<lparr>rx_clients := cs, rx_next_id := rx_next_id r + of_nat (length acc)\<rparr> \<and>
    (\<forall>i. (\<Sum>iq\<leftarrow>iqs. if i = fst iq then length (snd iq) else 0) = heard_new i (rx_next_id r) acc)"
  using assms
proof (induction acc arbitrary: r iqs r')
  case Nil
  then show ?case by (intro exI[of _ "rx_clients r"]) simp
next
  case (Cons pq acc)
  let ?r1 = "r\<lparr>rx_clients := rx_clients r @ [(rx_next_id r, fst pq)], rx_next_id := rx_next_id r + 1\<rparr>"
  obtain xs r2 where a: "admit_all acc ?r1 = (xs, r2)" by fastforce
  from Cons.IH[OF a] obtain cs where "r2 = r\<lparr>rx_clients := cs, rx_next_id := rx_next_id r + 1 + of_nat (length acc)\<rparr>"
    "\<forall>i. (\<Sum>iq\<leftarrow>xs. if i = fst iq then length (snd iq) else 0) = heard_new i (rx_next_id r + 1) acc" by auto
  then show ?case using Cons.prems a by (auto simp: admit_def add.assoc)
qed

text \<open>As \<open>moved\<close>, for a step that may admit clients.\<close>

definition woke :: "('sc, 'pt, 'd) env \<Rightarrow> source list \<Rightarrow> ('sc, 'pt, 'd, 'w) reactor \<Rightarrow> ('sc, 'pt, 'd, 'w) reactor \<Rightarrow> bool" where
  "woke E ss r r' \<longleftrightarrow> rx_ok E {} r' \<and> (\<forall>i. due_to i r' \<le> due_to i r + heard i (rx_next_id r) ss) \<and>
     rx_next_id r' = rx_next_id r + (\<Sum>s\<leftarrow>ss. admitted s) \<and> rx_autoconnect r' = rx_autoconnect r"

lemma woke_stays: "stays E {} r r' \<Longrightarrow> woke E [] r r'"
  by (simp add: moved_def woke_def)

lemma woke_trans:
  assumes "woke E ss r r1" "woke E ts r1 r2"
  shows "woke E (ss @ ts) r r2"
proof -
  have "due_to i r2 \<le> due_to i r + heard i (rx_next_id r) (ss @ ts)" for i
  proof -
    have "due_to i r1 \<le> due_to i r + heard i (rx_next_id r) ss" "due_to i r2 \<le> due_to i r1 + heard i (rx_next_id r1) ts"
      "rx_next_id r1 = rx_next_id r + (\<Sum>s\<leftarrow>ss. admitted s)"
      using assms by (simp_all add: woke_def)
    then show ?thesis by (simp add: heard_append)
  qed
  then show ?thesis using assms by (simp add: woke_def add.assoc)
qed

lemma dispatch_woke:
  assumes E: "env_ok E" and ok: "rx_ok E {} r"
  shows "\<exists>r'. dispatch E S s r = Some r' \<and> woke E [s] r r'"
proof -
  have plain: "\<exists>r'. f = Some r' \<and> woke E [s] r r'"
    if "\<exists>r'. f = Some r' \<and> stays E {} r r'" "admitted s = 0" "\<And>i next. heard_from i next s = 0" for f
    using that by (auto simp: moved_def woke_def)
  show ?thesis
  proof (cases s)
    case (Sr_Listener acc)
    obtain iqs r1 where a: "admit_all acc r = (iqs, r1)" by fastforce
    from admit_all_spec[OF a] obtain cs where r1: "r1 = r\<lparr>rx_clients := cs, rx_next_id := rx_next_id r + of_nat (length acc)\<rparr>"
      and h: "\<forall>i. (\<Sum>iq\<leftarrow>iqs. if i = fst iq then length (snd iq) else 0) = heard_new i (rx_next_id r) acc" by blast
    have ok1: "rx_ok E {} r1" using ok by (simp add: r1)
    obtain r' where "each (handle_all E S) iqs r1 = Some r'"
        "moved E {} (\<lambda>i. \<Sum>iq\<leftarrow>iqs. if i = fst iq then length (snd iq) else 0) r1 r'"
      using each_moved[where n = "\<lambda>iq i. if i = fst iq then length (snd iq) else 0" and xs = iqs and f = "handle_all E S",
          OF ok1 handle_all_moved[OF E]] by blast
    then show ?thesis using a h
      by (simp add: dispatch_def Sr_Listener moved_def woke_def r1 heard_from_def admitted_def)
  next
    case (Sr_Client i rqs)
    show ?thesis using handle_all_moved[OF E ok, of S "(i, rqs)"]
      by (auto simp: dispatch_def Sr_Client moved_def woke_def heard_from_def admitted_def split: if_splits)
  next
    case Sr_Signal
    then show ?thesis using ok by (simp add: dispatch_def woke_def heard_from_def admitted_def)
  next
    case Sr_Timer
    show ?thesis unfolding dispatch_def Sr_Timer source.case
      by (rule plain[unfolded Sr_Timer, OF on_timer_moved[OF E ok]]) (simp_all add: admitted_def heard_from_def)
  next
    case (Sr_Wireless evs)
    show ?thesis unfolding dispatch_def Sr_Wireless source.case
      by (rule plain[unfolded Sr_Wireless, OF on_wireless_moved[OF E ok]]) (simp_all add: admitted_def heard_from_def)
  next
    case (Sr_Links evs)
    show ?thesis unfolding dispatch_def Sr_Links source.case
      by (rule plain[unfolded Sr_Links, OF each_stays[OF ok on_link_event_moved[OF E]]]) (simp_all add: admitted_def heard_from_def)
  next
    case (Sr_Eapol frames)
    show ?thesis unfolding dispatch_def Sr_Eapol source.case
      by (rule plain[unfolded Sr_Eapol, OF on_eapol_moved[OF E ok]]) (simp_all add: admitted_def heard_from_def)
  next
    case (Sr_Dhcp bss)
    show ?thesis unfolding dispatch_def Sr_Dhcp source.case
      by (rule plain[unfolded Sr_Dhcp, OF on_dhcp_moved[OF E ok]]) (simp_all add: admitted_def heard_from_def)
  qed
qed

lemma dispatch_each_woke:
  assumes E: "env_ok E" and "rx_ok E {} r"
  shows "\<exists>r'. each (dispatch E S) ss r = Some r' \<and> woke E ss r r'"
  using assms(2)
proof (induction ss arbitrary: r)
  case (Cons s ss)
  obtain r1 where r1: "dispatch E S s r = Some r1" "woke E [s] r r1" using dispatch_woke[OF E Cons.prems, of S s] by blast
  then obtain r2 where "each (dispatch E S) ss r1 = Some r2" "woke E ss r1 r2" using Cons.IH[of r1] by (auto simp: woke_def)
  then show ?case using r1(1) woke_trans[OF r1(2)] by auto
qed (simp add: woke_def)

lemma forget_moved:
  assumes "rx_ok E {} r"
  shows "stays E {} r (forget i r)"
proof -
  have "stays E ({} - Key_Scan ` set []) r r" using stays_refl[OF assms] by simp
  let ?c = "cancel_timer (Key_Scan i) (r\<lparr>rx_scans := filter (\<lambda>s. fst s \<noteq> i) (rx_scans r)\<rparr>)"
  have f: "rx_ok E {} (finish_scan Ir_Ok i r)" "scans_of j (finish_scan Ir_Ok i r) = (if j = i then 0 else scans_of j r)" for j
    using finish_scan_moved(1,3)[OF assms, where c = i and x = Ir_Ok] by simp_all
  have ok: "rx_ok E {} ?c" using f(1) by (simp add: finish_scan_def send_def)
  have sc: "scans_of j ?c \<le> scans_of j r" for j
    using f(2)[of j] by (simp add: finish_scan_def send_def scans_of_def)
  have p: "po_trace (rx_ports ?c) = po_trace (rx_ports r)" by (simp add: cancel_timer_def with_timers_def)
  have "due_to j ?c \<le> due_to j r" for j
    using sc[of j] p by (simp add: due_to_def answers_def cancel_timer_def)
  then have s: "stays E {} r ?c" using ok by (simp add: moved_def cancel_timer_def)
  have k: "keeps E (cores {}) (rx_engine ?c) (rx_ports ?c) (engine_forget_client i (rx_engine ?c)) (rx_ports ?c)"
    by (rule forget_client_keeps[OF rx_engine_ok[OF ok]])
  have "stays E {} ?c (?c\<lparr>rx_engine := engine_forget_client i (rx_engine ?c), rx_ports := rx_ports ?c\<rparr>)"
    by (rule moved_engine[OF ok keptD[OF k]]) simp
  moreover have "q\<lparr>rx_engine := x, rx_ports := rx_ports q\<rparr> = q\<lparr>rx_engine := x\<rparr>" for q :: "('a, 'b, 'c, 'd) reactor" and x
    by (cases q) simp
  ultimately have "stays E {} ?c (forget i r)" by (simp add: forget_def) (simp add: cancel_timer_def)
  then show ?thesis by (rule stays_then[OF s])
qed

lemma drop_clients_moved: "rx_ok E {} r \<Longrightarrow> stays E {} r (drop_clients gone r)"
proof -
  assume ok: "rx_ok E {} r"
  have f: "stays E {} q (fold forget is q)" if "rx_ok E {} q" for q "is"
    using that
  proof (induction "is" arbitrary: q)
    case (Cons i "is")
    have s: "stays E {} q (forget i q)" by (rule forget_moved[OF Cons.prems])
    show ?case using stays_then[OF s Cons.IH[OF moved_ok[OF s]]] by simp
  qed (simp add: stays_refl)
  show ?thesis using f[of "r\<lparr>rx_clients := filter (\<lambda>c. fst c \<notin> set gone) (rx_clients r)\<rparr>"] ok by (simp add: drop_clients_def)
qed

lemma rearm_moved: "rx_ok E {} r \<Longrightarrow> rearm S r = (d, r') \<Longrightarrow> stays E {} r r'"
  by (auto simp: rearm_def stays_refl Let_def split: option.splits prod.splits intro: on_ports_moved query_calls)

lemma wake_up_woke:
  assumes E: "env_ok E" and ok: "rx_ok E {} r"
  shows "\<exists>r' d. wake_up E S r w = Some (r', [d]) \<and> woke E (wk_ready w) r r'"
proof -
  obtain r1 where r1: "check_resume E S r = Some r1" "stays E {} r r1" using check_resume_moved[OF ok, of S] by blast
  obtain r2 where r2: "each (dispatch E S) (wk_ready w) r1 = Some r2" "woke E (wk_ready w) r1 r2"
    using dispatch_each_woke[OF E moved_ok[OF r1(2)]] by blast
  have "rx_ok E {} r2" using r2(2) by (simp add: woke_def)
  note s3 = drop_clients_moved[OF this, of "wk_gone w"]
  obtain d r4 where d: "rearm S (drop_clients (wk_gone w) r2) = (d, r4)" by fastforce
  note s4 = stays_then[OF s3 rearm_moved[OF moved_ok[OF s3] d]]
  have "woke E ([] @ wk_ready w @ []) r r4"
    by (intro woke_trans[OF woke_stays[OF r1(2)] woke_trans[OF r2(2) woke_stays[OF s4]]])
  then show ?thesis using r1(1) r2(1) d by (simp add: wake_up_def)
qed

interpretation reactor_machine: polled_machine "wake_up E S" "\<lambda>r. env_ok E \<and> rx_ok E {} r" "\<lambda>_. True"
  for E :: "('sc, 'pt, 'd) env" and S :: "'w sys"
proof unfold_locales
  fix r :: "('sc, 'pt, 'd, 'w) reactor" and w
  assume "env_ok E \<and> rx_ok E {} r"
  then show "\<exists>r' out. wake_up E S r w = Some (r', out) \<and> env_ok E \<and> rx_ok E {} r'"
    using wake_up_woke[of E r S w] by (auto simp: woke_def)
qed

section \<open>A run of the daemon\<close>

text \<open>The daemon as \<^verbatim>\<open>Reactor::run\<close> finds it when it first waits.\<close>

definition started :: "'w sys \<Rightarrow> bool \<Rightarrow> bool \<Rightarrow> bool \<Rightarrow> 'w \<Rightarrow> ('sc, 'pt, 'd, 'w) reactor" where
  "started S nl rtnl autoconnect w = snd (run_start S (reactor_new S nl rtnl autoconnect w))"

lemma reactor_new_ports:
  "\<exists>w'. rx_ports (reactor_new S nl rtnl a w) =
     \<lparr>po_nl = nl, po_eapol = None, po_rtnl = rtnl, po_dhcp = None, po_timers = timers_new, po_now = 0,
      po_world = w', po_trace = []\<rparr>"
  by (simp add: reactor_new_def suspend_offset_def Let_def ask_eq case_prod_unfold)

lemma reactor_new_fields:
  "rx_engine (reactor_new S nl rtnl a w) = engine_new" "rx_scans (reactor_new S nl rtnl a w) = []"
  "rx_autoconnect (reactor_new S nl rtnl a w) = a" "rx_next_id (reactor_new S nl rtnl a w) = 1"
  by (simp_all add: reactor_new_def Let_def case_prod_unfold)

lemma start_ok:
  assumes r: "r = reactor_new S nl rtnl a w"
  shows "rx_ok E {} (snd (run_start S r)) \<and> (\<forall>i. due_to i (snd (run_start S r)) = 0) \<and>
    rx_next_id (snd (run_start S r)) = 1 \<and> rx_autoconnect (snd (run_start S r)) = a"
proof -
  let ?q = "if rx_autoconnect r then arm_now S Key_Autoconnect AUTOCONNECT_START r else r"
  have "\<exists>w'. rx_ports r = \<lparr>po_nl = nl, po_eapol = None, po_rtnl = rtnl, po_dhcp = None, po_timers = timers_new,
      po_now = 0, po_world = w', po_trace = []\<rparr>" unfolding r by (rule reactor_new_ports)
  then obtain w' where p: "rx_ports r = \<lparr>po_nl = nl, po_eapol = None, po_rtnl = rtnl, po_dhcp = None, po_timers = timers_new,
      po_now = 0, po_world = w', po_trace = []\<rparr>" by blast
  have f: "rx_engine r = engine_new" "rx_scans r = []" "rx_autoconnect r = a" "rx_next_id r = 1"
    unfolding r by (rule reactor_new_fields)+
  have ok: "rx_ok E {Key_Autoconnect} r"
    by (simp add: rx_ok_def engine_ok_def p f engine_new_def wheel_sound_def settled_def scan_deadlines_def loop_alive_def)
  have s: "stays E {Key_Autoconnect} r ?q" using arm_auto_moved[OF ok] stays_refl[OF ok] by simp
  have "loop_alive {} (rx_autoconnect ?q) (rx_ports ?q)"
    by (auto simp: armed_alive) (simp add: loop_alive_def)
  then have ok2: "rx_ok E {} ?q" using rx_ok_auto[OF moved_ok[OF s]] by simp
  obtain d r' where d: "rearm S ?q = (d, r')" by fastforce
  have m: "stays E {} r r'" by (rule stays_then[OF s rearm_moved[OF ok2 d]])
  moreover have "due_to i r = 0" for i
    by (simp add: due_to_def p f engine_new_def answers_def waits_def scans_of_def)
  moreover have "snd (run_start S r) = r'" by (simp add: run_start_def d)
  ultimately show ?thesis using f by (simp add: moved_def)
qed

lemma shutdown_moved:
  assumes E: "env_ok E" and ok: "rx_ok E {} r"
  shows "\<exists>r'. shutdown E S r = Some r' \<and> stays E {} r r'"
  unfolding shutdown_def by (rule drive_keeps[OF ok]) (erule shut_down_keeps[OF E])

lemma run_loop_ok:
  assumes E: "env_ok E" and "rx_ok E {} r"
  shows "\<exists>r'. run_loop E S ws r = Some r' \<and> rx_ok E {} r' \<and> rx_autoconnect r' = rx_autoconnect r \<and>
    (\<forall>i. due_to i r' \<le> due_to i r + heard i (rx_next_id r) (concat (map wk_ready ws)))"
  using assms(2)
proof (induction ws arbitrary: r)
  case Nil
  then show ?case using shutdown_moved[OF E Nil, of S] by (auto simp: moved_def)
next
  case (Cons w ws)
  show ?case
  proof (cases "rx_stopping r")
    case True
    then obtain r' where "shutdown E S r = Some r'" "stays E {} r r'" using shutdown_moved[OF E Cons.prems, of S] by blast
    then show ?thesis using True by (auto simp: moved_def intro: le_trans)
  next
    case False
    obtain r1 d where r1: "wake_up E S r w = Some (r1, [d])" "woke E (wk_ready w) r r1"
      using wake_up_woke[OF E Cons.prems, of S w] by blast
    then have ok1: "rx_ok E {} r1" by (simp add: woke_def)
    obtain r' where r': "run_loop E S ws r1 = Some r'" "rx_ok E {} r'" "rx_autoconnect r' = rx_autoconnect r1"
      "\<forall>i. due_to i r' \<le> due_to i r1 + heard i (rx_next_id r1) (concat (map wk_ready ws))" using Cons.IH[OF ok1] by blast
    have "due_to i r' \<le> due_to i r + heard i (rx_next_id r) (wk_ready w @ concat (map wk_ready ws))" for i
    proof -
      have "due_to i r1 \<le> due_to i r + heard i (rx_next_id r) (wk_ready w)"
        "rx_next_id r1 = rx_next_id r + (\<Sum>s\<leftarrow>wk_ready w. admitted s)"
        using r1(2) by (simp_all add: woke_def)
      then show ?thesis using r'(4) by (auto simp: heard_append intro: le_trans)
    qed
    then show ?thesis using False r1 r' by (simp add: woke_def)
  qed
qed

lemma daemon_from:
  assumes "env_ok E" and r0: "r0 = started S nl rtnl a w"
  shows "\<exists>r. run_loop E S ws r0 = Some r \<and> rx_ok E {} r \<and> rx_autoconnect r = a \<and>
    (\<forall>i. due_to i r \<le> heard i 1 (concat (map wk_ready ws)))"
proof -
  have s: "rx_ok E {} r0 \<and> (\<forall>i. due_to i r0 = 0) \<and> rx_next_id r0 = 1 \<and> rx_autoconnect r0 = a"
    unfolding r0 started_def by (rule start_ok[OF refl])
  obtain r where "run_loop E S ws r0 = Some r" "rx_ok E {} r" "rx_autoconnect r = rx_autoconnect r0"
      "\<forall>i. due_to i r \<le> due_to i r0 + heard i (rx_next_id r0) (concat (map wk_ready ws))"
    using run_loop_ok[OF assms(1) conjunct1[OF s], of S ws] by blast
  then show ?thesis using s by (intro exI[of _ r]) simp
qed

lemmas daemon_ok = daemon_from[OF _ refl]

end
