(* ===== verification/Daemon_Props.thy ===== *)
theory Daemon_Props
  imports Reactor_Run
begin

text \<open>
  What the daemon (\<^verbatim>\<open>src/crates/cawd/src/reactor.rs\<close>, \<^verbatim>\<open>src/crates/cawd/src/engine.rs\<close>) promises over any
  sequence of wake-ups: it does not panic, no client is told more than it asked, what a waiting
  client waits for, the connect loop goes on, and only those permitted change anything.
\<close>

section \<open>An example\<close>

text \<open>A system where every call succeeds, with one radio; its world is the time, which stands still.\<close>

definition toy_sys :: "nat sys" where
  "toy_sys =
     \<lparr>sys_call = \<lambda>k w. (None, w), sys_scan_results = \<lambda>n w. (Inr [], w),
      sys_interfaces = \<lambda>w. (Inr [\<lparr>if_ifindex = 3, if_name = [119], if_mac = Some [0, 0, 0, 0, 0, 1], if_wiphy = 0,
        if_station = True\<rparr>], w),
      sys_wiphys = \<lambda>w. (Inr [], w), sys_links = \<lambda>w. (Inr [], w), sys_addresses = \<lambda>w. (Inr [], w),
      sys_load_profiles = \<lambda>w. (Inr [], w), sys_delete_profile = \<lambda>s w. (Inr False, w), sys_new_xid = \<lambda>w. (Inr 1, w),
      sys_hostname = \<lambda>w. (None, w), sys_resolver_linked = \<lambda>w. (True, w), sys_rnd = \<lambda>w. (example_rnd, w),
      sys_boottime = \<lambda>w. (w, w), sys_monotonic = \<lambda>w. (w, w), sys_databases = \<lambda>w. ((None, None), w)\<rparr>"

definition toy_start :: "(u8, u8, unit, nat) reactor" where
  "toy_start = started toy_sys True True False 0"

text \<open>Root connects and asks for a scan; then the daemon is told to go.\<close>

definition toy_wakes :: "wake list" where
  "toy_wakes = [\<lparr>wk_ready = [Sr_Listener [(\<lparr>pe_pid = 1, pe_uid = 0, pe_gid = 0\<rparr>, [Rq_Connect [65] None])]], wk_gone = []\<rparr>]"

lemma toy_sys_simps [simp]:
  "sys_call toy_sys k w = (None, w)" "sys_scan_results toy_sys n w = (Inr [], w)"
  "sys_interfaces toy_sys w = (Inr [\<lparr>if_ifindex = 3, if_name = [119], if_mac = Some [0, 0, 0, 0, 0, 1], if_wiphy = 0,
     if_station = True\<rparr>], w)"
  "sys_wiphys toy_sys w = (Inr [], w)" "sys_load_profiles toy_sys w = (Inr [], w)" "sys_rnd toy_sys w = (example_rnd, w)"
  "sys_boottime toy_sys w = (w, w)" "sys_monotonic toy_sys w = (w, w)" "sys_databases toy_sys w = ((None, None), w)"
  by (simp_all add: toy_sys_def)

lemma toy_start_eq:
  "toy_start = \<lparr>rx_clients = [], rx_next_id = 1, rx_engine = engine_new, rx_ports = \<lparr>po_nl = True, po_eapol = None,
     po_rtnl = True, po_dhcp = None, po_timers = [], po_now = 0, po_world = 0, po_trace = []\<rparr>, rx_power_save_off = [],
     rx_scans = [], rx_autoconnect = False, rx_auto_attempts = 0, rx_stopping = False, rx_suspend_offset = 0,
     rx_auto_paused = False\<rparr>"
  by (simp add: toy_start_def started_def run_start_def reactor_new_def suspend_offset_def ask_def toy_sys_def
      rearm_def next_deadline_def timers_new_def)

lemmas request_simps = handle_def permitted_def find_client_def on_ports_def ask_def is_state_changing_def
  may_change_state_def perform_request_def wireless_ifindex_up_def wireless_interface_def need_nl_def need_rtnl_def
  set_link_up_def attempt_or_def invoke_def disable_power_save_def with_engine_def tick_def

lemmas connect_simps = engine_connect_def engine_new_def ask_def need_nl_def attempt_or_def invoke_def
  engine_prepare_def describe_def engine_is_idle_def engine_state_def load_profiles_def open_eapol_def supersede_def
  feed_ok_def feed_def engine_poll_def perform_def engine_notify_def perform_trigger_scan_def performed_def
  stop_dhcp_def drop_probe_route_def cancel_core_timers_def with_timers_def timers_cancel_def timers_cancel_if_def

lemma toy_connect:
  "\<exists>c. engine_connect toy_env toy_sys 3 [65] 1 engine_new \<lparr>po_nl = True, po_eapol = None, po_rtnl = True, po_dhcp = None,
     po_timers = [], po_now = t, po_world = w, po_trace = fx\<rparr> =
     Some (Inr (), \<lparr>en_core = Some c, en_device = Some (cn_device c), en_watcher = Some 1, en_pending = None, en_next_token = 1,
       en_resolver_warned = False\<rparr>, \<lparr>po_nl = True, po_eapol = Some 3, po_rtnl = True, po_dhcp = None,
       po_timers = [\<lparr>te_key = Key_Core ScanTimeout, te_at = t + millis_ns SCAN_TIMEOUT_MS\<rparr>], po_now = t, po_world = w,
       po_trace = fx @ [Tr_Call (K_EapolOpen 3) True, Tr_Event 1 Ie_Scanning, Tr_Call (K_TriggerScan 3) True]\<rparr>) \<and> cn_state c = Cs_Scanning"
proof -
  obtain n where n: "MAX_TURNS = Suc (Suc n)" by (simp add: MAX_TURNS_def)
  show ?thesis
    by (simp add: n connect_simps conn_simps Let_def arm_key_def timers_arm_def notify_event_def trace_def)
qed

lemma toy_daemon_run:
  "\<exists>r c. run_loop toy_env toy_sys toy_wakes toy_start = Some r \<and> en_core (rx_engine r) = Some c \<and> cn_state c = Cs_Scanning \<and>
     en_watcher (rx_engine r) = Some 1 \<and> po_eapol (rx_ports r) = Some 3"
proof -
  obtain c where "engine_connect toy_env toy_sys 3 [65] 1 engine_new \<lparr>po_nl = True, po_eapol = None, po_rtnl = True, po_dhcp = None,
     po_timers = [], po_now = 0, po_world = 0, po_trace = [Tr_Call (K_SetUp 3 True) True, Tr_Call (K_SetPowerSave 3 False) True]\<rparr> =
     Some (Inr (), \<lparr>en_core = Some c, en_device = Some (cn_device c), en_watcher = Some 1, en_pending = None, en_next_token = 1,
       en_resolver_warned = False\<rparr>, \<lparr>po_nl = True, po_eapol = Some 3, po_rtnl = True, po_dhcp = None,
       po_timers = [\<lparr>te_key = Key_Core ScanTimeout, te_at = millis_ns SCAN_TIMEOUT_MS\<rparr>], po_now = 0, po_world = 0,
       po_trace = [Tr_Call (K_SetUp 3 True) True, Tr_Call (K_SetPowerSave 3 False) True] @
         [Tr_Call (K_EapolOpen 3) True, Tr_Event 1 Ie_Scanning, Tr_Call (K_TriggerScan 3) True]\<rparr>)"
    and "cn_state c = Cs_Scanning"
    using toy_connect[of 0 0 "[Tr_Call (K_SetUp 3 True) True, Tr_Call (K_SetPowerSave 3 False) True]"] by auto
  then show ?thesis unfolding toy_start_eq
    by (simp add: toy_wakes_def wake_up_def check_resume_def suspend_offset_def Let_def millis_ns_def request_simps dispatch_def
        handle_all_def admit_def drop_clients_def rearm_def next_deadline_def)
qed

section \<open>Properties\<close>

text \<open>
  C10. The daemon never panics and always settles. Whatever the descriptors yield, in whatever
  order, and whatever every call of the system answers, the loop goes through every list of
  wake-ups, and no input leaves the state machine cycling past the 32 turns it is given.
\<close>

theorem daemon_settles:
  assumes "env_ok E"
  shows "\<exists>r. run_loop E S ws (started S nl rtnl auto w) = Some r \<and> Tr_Unsettled \<notin> set (po_trace (rx_ports r))"
  using daemon_ok[OF assms, of S ws nl rtnl auto w] by (auto simp: rx_ok_def engine_ok_def settled_def)

theorem daemon_settles_witness:
  "\<exists>r. run_loop toy_env toy_sys toy_wakes toy_start = Some r \<and> Tr_Unsettled \<notin> set (po_trace (rx_ports r)) \<and>
     engine_state (rx_engine r) = Cs_Scanning"
  using daemon_settles[OF toy_env_ok, of toy_sys toy_wakes True True False 0] toy_daemon_run
  unfolding toy_start_def by (auto simp: engine_state_def)

text \<open>
  C12. No client is answered more often than it asked. After any run, the responses a client was
  sent, with the one it waits for and those of the scans it waits for, are at most the
  requests read from it.
\<close>

theorem daemon_answers:
  assumes "env_ok E"
  shows "\<exists>r. run_loop E S ws (started S nl rtnl auto w) = Some r \<and>
    length (filter (is_answer i) (po_trace (rx_ports r))) + (if en_watcher (rx_engine r) = Some i then 1 else 0) +
      count_list (map fst (rx_scans r)) i
    \<le> heard i 1 (concat (map wk_ready ws))"
proof -
  obtain r where "run_loop E S ws (started S nl rtnl auto w) = Some r" "due_to i r \<le> heard i 1 (concat (map wk_ready ws))"
    using daemon_ok[OF assms, of S ws nl rtnl auto w] by blast
  then show ?thesis by (intro exI[of _ r]) (simp add: due_to_def answers_def waits_def scans_of_def)
qed

theorem daemon_answers_witness:
  "\<exists>r. run_loop toy_env toy_sys toy_wakes toy_start = Some r \<and> en_watcher (rx_engine r) = Some 1 \<and>
     filter (is_answer 1) (po_trace (rx_ports r)) = [] \<and> heard 1 1 (concat (map wk_ready toy_wakes)) = 1"
proof -
  have h: "heard 1 1 (concat (map wk_ready toy_wakes)) = 1" by (simp add: toy_wakes_def heard_from_def)
  then show ?thesis
    using daemon_answers[OF toy_env_ok, of toy_sys toy_wakes True True False 0 1] toy_daemon_run
    unfolding toy_start_def by auto
qed

text \<open>
  C13. What is waited for. After any run, a client that waits for a connection waits for an attempt
  that has neither ended nor connected, one that waits for a scan has a deadline in the wheel, and an
  attempt that waits for no passphrase and scans, authenticates, associates or backs off has its own
  deadline there. An attempt in its handshake may have none: nothing is said of it.
\<close>

theorem daemon_waits:
  assumes "env_ok E"
  shows "\<exists>r. run_loop E S ws (started S nl rtnl auto w) = Some r \<and>
    (en_watcher (rx_engine r) \<noteq> None \<longrightarrow> engine_state (rx_engine r) \<notin> {Cs_Idle, Cs_Connected}) \<and>
    (\<forall>s \<in> set (rx_scans r). deadline (po_timers (rx_ports r)) (Key_Scan (fst s)) \<noteq> None) \<and>
    (\<forall>c t. en_core (rx_engine r) = Some c \<longrightarrow> cn_pending c = None \<longrightarrow>
       (cn_state c, t) \<in> {(Cs_Scanning, ScanTimeout), (Cs_Authenticating, AuthTimeout), (Cs_Associating, AssocTimeout),
          (Cs_Reconnecting, ReconnectBackoff)} \<longrightarrow>
       deadline (po_timers (rx_ports r)) (Key_Core t) \<noteq> None)"
proof -
  obtain r where r: "run_loop E S ws (started S nl rtnl auto w) = Some r" "rx_ok E {} r"
    using daemon_ok[OF assms, of S ws nl rtnl auto w] by blast
  have "en_watcher (rx_engine r) \<noteq> None \<longrightarrow> engine_state (rx_engine r) \<notin> {Cs_Idle, Cs_Connected}"
    using r(2) by (auto simp: rx_ok_def engine_ok_def engine_state_def ended_def split: option.splits)
  moreover have "\<forall>s \<in> set (rx_scans r). deadline (po_timers (rx_ports r)) (Key_Scan (fst s)) \<noteq> None"
    using r(2) by (auto simp: rx_ok_def scan_deadlines_def)
  moreover have "deadline (po_timers (rx_ports r)) (Key_Core t) \<noteq> None"
    if c: "en_core (rx_engine r) = Some c" "cn_pending c = None" and
      st: "(cn_state c, t) \<in> {(Cs_Scanning, ScanTimeout), (Cs_Authenticating, AuthTimeout), (Cs_Associating, AssocTimeout),
        (Cs_Reconnecting, ReconnectBackoff)}" for c t
  proof -
    have "must_run c" "timer_of (cn_state c) = Some t" using st c(2) by (auto simp: must_run_def timer_of_def)
    moreover have "conn_ok E c" "wheel_late c (core_running (rx_ports r)) {}"
      using rx_engine_ok[OF r(2)] c(1) by (simp_all add: engine_ok_def)
    ultimately have "t \<in> core_running (rx_ports r)" by (simp add: wheel_late_def conn_ok_def)
    then show ?thesis by (simp add: core_running_def)
  qed
  ultimately show ?thesis using r(1) by (intro exI[of _ r] conjI allI impI) simp_all
qed

theorem daemon_waits_witness:
  "\<exists>r. run_loop toy_env toy_sys toy_wakes toy_start = Some r \<and> en_watcher (rx_engine r) \<noteq> None \<and>
     engine_state (rx_engine r) \<notin> {Cs_Idle, Cs_Connected}"
  using daemon_waits[OF toy_env_ok, of toy_sys toy_wakes True True False 0] toy_daemon_run
  unfolding toy_start_def by auto

text \<open>
  The connect loop never dies. A daemon that joins saved networks by itself always has its
  next turn in the wheel.
\<close>

theorem daemon_keeps_trying:
  assumes "env_ok E"
  shows "\<exists>r at. run_loop E S ws (started S nl rtnl True w) = Some r \<and> deadline (po_timers (rx_ports r)) Key_Autoconnect = Some at"
  using daemon_ok[OF assms, of S ws nl rtnl True w] by (auto simp: rx_ok_def loop_alive_def)

theorem daemon_keeps_trying_witness:
  "\<exists>r at. run_loop toy_env toy_sys toy_wakes (started toy_sys True True True 0) = Some r \<and>
     deadline (po_timers (rx_ports r)) Key_Autoconnect = Some at"
  by (rule daemon_keeps_trying[OF toy_env_ok])

section \<open>Permission\<close>


definition only_asked :: "'w ports \<Rightarrow> 'w ports \<Rightarrow> bool" where
  "only_asked p q \<longleftrightarrow> q = p\<lparr>po_now := po_now q, po_world := po_world q\<rparr>"

lemma asked_world [simp]: "only_asked p (p\<lparr>po_world := w\<rparr>)" "only_asked p p"
  by (cases p; simp add: only_asked_def)+











section \<open>Giving up\<close>

lemma perform_mute:
  assumes "perform S a en p = (r, en', p')" "en_watcher en = None" "a = Ac_Disconnect n \<or> a = Ac_Notify st \<or> (\<exists>i. a = Ac_ClearTimer i)"
  shows "grows is_call p p' \<and> en_watcher en' = None"
proof -
  have "grows is_call p q" if "perform_disconnect S en n p = (x, q)" for x q
    using plain_disconnect[of p S en n] that by (simp add: plain_result_def calls_def)
  moreover have "grows is_call p (with_timers f p)" for f by (simp add: grows_def with_timers_def)
  ultimately show ?thesis using assms by (auto simp: perform_def engine_notify_def split: prod.splits)
qed

lemma perform_each_mute:
  assumes "perform_each S acts en p = (en', p')" "en_watcher en = None"
    "\<forall>a \<in> set acts. a = Ac_Disconnect n \<or> a = Ac_Notify st \<or> (\<exists>i. a = Ac_ClearTimer i)"
  shows "grows is_call p p' \<and> en_watcher en' = None"
  using assms
proof (induction acts arbitrary: en p)
  case (Cons a acts)
  obtain x e1 p1 where x: "perform S a en p = (x, e1, p1)" by (metis prod_cases3)
  have "grows is_call p p1 \<and> en_watcher e1 = None" using perform_mute[OF x, of n st] Cons.prems by simp
  then show ?case using Cons.IH[of e1 p1] Cons.prems x grows_trans by auto
qed simp

lemma reset_mute:
  assumes "engine_reset E S en p = Some (en', p')" "en_watcher en = None"
  shows "grows is_call p p'"
proof (cases "en_core en")
  case (Some c)
  let ?out = "Ac_Disconnect REASON_LEAVING # snd (conn_go_idle c)"
  obtain rnd p1 where r: "ask (sys_rnd S) p = (rnd, p1)" by fastforce
  obtain e2 p2 where e: "perform_each S ?out (en\<lparr>en_core := Some (fst (conn_go_idle c))\<rparr>) p1 = (e2, p2)" by fastforce
  have "grows is_call p p1" using calls_askD[OF r] by (simp add: calls_def)
  moreover have "\<forall>a \<in> set ?out. a = Ac_Disconnect REASON_LEAVING \<or> a = Ac_Notify Cs_Idle \<or> (\<exists>i. a = Ac_ClearTimer i)"
    using go_idle_facts(4)[of _ c] by auto
  then have "grows is_call p1 p2" using perform_each_mute[OF e] assms(2) by simp
  moreover have "grows is_call p2 ((cancel_core_timers p2)\<lparr>po_eapol := None\<rparr>)" by (simp add: grows_def)
  moreover have "grows is_call q (stop_dhcp S q)" for q using calls_stop_dhcp[of q S] by (simp add: calls_def)
  moreover have "p' = stop_dhcp S ((cancel_core_timers p2)\<lparr>po_eapol := None\<rparr>)"
    using assms(1) Some r e by (simp add: engine_reset_def engine_poll_def conn_poll_disconnect)
  ultimately show ?thesis using grows_trans by metis
qed (use assms in \<open>simp add: engine_reset_def\<close>)

text \<open>
  C24. Giving up leaves nothing behind. Whenever the engine aborts after any history (a call failed,
  the interface went down or away, the system slept), it succeeds; the connection is idle, no
  client waits, no secret is expected, both sockets are closed and no timer of the connection or
  of the lease runs; and a client that waited was told, with the reason, in an event and a response.
\<close>

theorem engine_gives_up:
  assumes "env_ok E" "run_loop E S ws (started S nl rtnl auto w) = Some r" "en_core (rx_engine r) = Some c"
  shows "\<exists>en p fx. engine_abort E S reason (rx_engine r) (rx_ports r) = Some (en, p) \<and> at_rest en p \<and>
    po_trace p = po_trace (rx_ports r) @
      (case en_watcher (rx_engine r) of None \<Rightarrow> [] | Some i \<Rightarrow> [Tr_Event i (Ie_Failed reason), Tr_Response i (Ir_Error reason)]) @ fx \<and>
    list_all is_call fx"
proof -
  have "rx_ok E {} r" using daemon_ok[OF assms(1), of S ws nl rtnl auto w] assms(2) by auto
  then have "engine_ok E {} (rx_engine r) (rx_ports r)" using rx_engine_ok by fastforce
  then obtain en p where a: "engine_abort E S reason (rx_engine r) (rx_ports r) = Some (en, p)" "at_rest en p"
    using abort_keeps[of E "{}" "rx_engine r" "rx_ports r" S reason "{}"] assms(3) by auto
  obtain e1 p1 where e: "answer_failed reason (rx_engine r) (rx_ports r) = (e1, p1)" by fastforce
  have "engine_reset E S e1 p1 = Some (en, p)" using a(1) e by (simp add: engine_abort_def)
  moreover have "en_watcher e1 = None" using answer_failed_spec[OF e] by simp
  ultimately have "grows is_call p1 p" by (rule reset_mute)
  then obtain fx where "po_trace p = po_trace p1 @ fx" "list_all is_call fx" by (auto simp: grows_def)
  moreover have "po_trace p1 = po_trace (rx_ports r) @
      (case en_watcher (rx_engine r) of None \<Rightarrow> [] | Some i \<Rightarrow> [Tr_Event i (Ie_Failed reason), Tr_Response i (Ir_Error reason)])"
    using e by (auto simp: answer_failed_def trace_def split: option.splits)
  ultimately show ?thesis using a by (intro exI[of _ en] exI[of _ p] exI[of _ fx]) simp
qed

theorem engine_gives_up_witness:
  "\<exists>r en p fx. run_loop toy_env toy_sys toy_wakes toy_start = Some r \<and>
     engine_abort toy_env toy_sys (Re_Text ''gone'') (rx_engine r) (rx_ports r) = Some (en, p) \<and> at_rest en p \<and>
     po_trace p = po_trace (rx_ports r) @ [Tr_Event 1 (Ie_Failed (Re_Text ''gone'')), Tr_Response 1 (Ir_Error (Re_Text ''gone''))] @ fx"
proof -
  obtain r c where r: "run_loop toy_env toy_sys toy_wakes toy_start = Some r" "en_core (rx_engine r) = Some c"
      "en_watcher (rx_engine r) = Some 1" using toy_daemon_run by blast
  show ?thesis using engine_gives_up[OF toy_env_ok r(1)[unfolded toy_start_def] r(2), of "Re_Text ''gone''"] r(1,3) by auto
qed

section \<open>Sleeping\<close>

text \<open>
  The loop never oversleeps. What the timer descriptor is armed with is at most two seconds
  and never takes it past a deadline in the wheel; a deadline that has passed wakes it at once.
\<close>

theorem rearm_in_time:
  assumes "timers_ok (po_timers (rx_ports r))" "rearm S r = (delay, r')"
    "deadline (po_timers (rx_ports r)) k = Some at" "fst (sys_monotonic S (po_world (rx_ports r))) = now"
  shows "delay \<le> 2000000000 \<and> now + delay \<le> max now at"
proof -
  obtain e where e: "e \<in> set (po_timers (rx_ports r))" "te_at e = at"
    using deadline_iff[OF assms(1), of k at] assms(3) by auto
  obtain t where t: "next_deadline (po_timers (rx_ports r)) = Some t"
    using e(1) by (cases "next_deadline (po_timers (rx_ports r))") (auto simp: next_deadline_def)
  then have "t \<le> at" using next_deadline_least[OF t e(1)] e(2) by simp
  moreover have "delay = min (t - now) 2000000000"
    using assms(2) t unfolding assms(4)[symmetric] by (auto simp: rearm_def on_ports_def ask_eq Let_def secs_ns_def)
  ultimately show ?thesis by linarith
qed

theorem rearm_in_time_witness:
  "rearm toy_sys (arm_now toy_sys Key_Autoconnect 5 toy_start) = (5, arm_now toy_sys Key_Autoconnect 5 toy_start) \<and> (5 :: nat) \<le> 2000000000"
proof -
  have a: "rearm toy_sys (arm_now toy_sys Key_Autoconnect 5 toy_start) = (5, arm_now toy_sys Key_Autoconnect 5 toy_start)"
    by (simp add: toy_start_eq rearm_def arm_now_def arm_key_def with_timers_def timers_arm_def tick_def ask_def on_ports_def
        next_deadline_def Let_def secs_ns_def)
  have "timers_ok (po_timers (rx_ports (arm_now toy_sys Key_Autoconnect 5 toy_start)))"
    "deadline (po_timers (rx_ports (arm_now toy_sys Key_Autoconnect 5 toy_start))) Key_Autoconnect = Some 5"
    by (simp_all add: toy_start_eq arm_now_def arm_key_def with_timers_def timers_arm_def tick_def ask_def Let_def timers_ok_def deadline_def)
  then show ?thesis using a rearm_in_time[OF _ a, of Key_Autoconnect 5 0]
    by (simp add: toy_start_eq arm_now_def arm_key_def tick_def ask_def with_timers_def Let_def)
qed

end
