(* ===== verification/Netlink.thy ===== *)
theory Netlink
  imports Rust_Text
begin

text \<open>
  The netlink wire format and the request loop of \<^verbatim>\<open>src/crates/caw-netlink/src/lib.rs\<close>.

  Netlink is native-endian; the model is a little-endian machine, so \<^verbatim>\<open>to_ne_bytes\<close> is \<open>u16_le\<close> and
  \<open>u32_le\<close>. A length is a natural number (a \<^verbatim>\<open>usize\<close> of 64 bits; none exceeds \<^verbatim>\<open>2^33\<close>) and is cut to
  the width of its field where the source casts it.

  Of the socket the model has what a request depends on: the sequence counter, how much of a message
  \<^verbatim>\<open>send\<close> took, and the results of \<^verbatim>\<open>recv\<close>, a list that may end before the exchange does.
\<close>

definition NL_HDR_LEN :: nat where "NL_HDR_LEN = 16"
definition ATTR_HDR_LEN :: nat where "ATTR_HDR_LEN = 4"

definition NLMSG_NOOP :: u16 where "NLMSG_NOOP = 1"
definition NLMSG_ERROR :: u16 where "NLMSG_ERROR = 2"
definition NLMSG_DONE :: u16 where "NLMSG_DONE = 3"
definition NLMSG_OVERRUN :: u16 where "NLMSG_OVERRUN = 4"

definition NLM_F_REQUEST :: u16 where "NLM_F_REQUEST = 0x001"
definition NLM_F_MULTI :: u16 where "NLM_F_MULTI = 0x002"
definition NLM_F_ACK :: u16 where "NLM_F_ACK = 0x004"
definition NLM_F_ROOT :: u16 where "NLM_F_ROOT = 0x100"
definition NLM_F_MATCH :: u16 where "NLM_F_MATCH = 0x200"
definition NLM_F_DUMP :: u16 where "NLM_F_DUMP = NLM_F_ROOT OR NLM_F_MATCH"
definition NLM_F_REPLACE :: u16 where "NLM_F_REPLACE = 0x100"
definition NLM_F_CREATE :: u16 where "NLM_F_CREATE = 0x400"

text \<open>\<^verbatim>\<open>(len + 3) & !3\<close>.\<close>

definition nl_align :: "nat \<Rightarrow> nat" where
  "nl_align len = (len + 3) div 4 * 4"

text \<open>\<^verbatim>\<open>Errno\<close> is a number; the code of \<^verbatim>\<open>Kernel\<close> is an \<^verbatim>\<open>i32\<close>, kept as its 32 bits.\<close>

datatype nl_error = Ne_Io int | Ne_Truncated | Ne_ShortSend | Ne_Overrun | Ne_Kernel u32

definition ne16 :: "bytes \<Rightarrow> u16" where
  "ne16 b = from_le16 (b ! 0) (b ! 1)"

definition ne32 :: "bytes \<Rightarrow> u32" where
  "ne32 b = from_le32 (b ! 0) (b ! 1) (b ! 2) (b ! 3)"

section \<open>Messages\<close>

record nl_message =
  nm_len :: u32
  nm_kind :: u16
  nm_flags :: u16
  nm_seq :: u32
  nm_pid :: u32
  nm_payload :: bytes

definition nlmsg_parse :: "bytes \<Rightarrow> nl_error + nl_message" where
  "nlmsg_parse buf =
     (if length buf < NL_HDR_LEN then Inl Ne_Truncated
      else
        (let len = ne32 buf
         in if unat len < NL_HDR_LEN \<or> length buf < unat len then Inl Ne_Truncated
            else Inr \<lparr>nm_len = len, nm_kind = ne16 (drop 4 buf), nm_flags = ne16 (drop 6 buf),
                      nm_seq = ne32 (drop 8 buf), nm_pid = ne32 (drop 12 buf),
                      nm_payload = drop NL_HDR_LEN (take (unat len) buf)\<rparr>))"

section \<open>Attributes\<close>

record nl_attr =
  at_kind :: u16
  at_payload :: bytes

definition attr_u32 :: "nl_attr \<Rightarrow> u32 option" where
  "attr_u32 a = map_option ne32 (get_range 0 4 (at_payload a))"

definition attr_u8 :: "nl_attr \<Rightarrow> u8 option" where
  "attr_u8 a = slice_first (at_payload a)"

definition attr_str :: "nl_attr \<Rightarrow> bytes option" where
  "attr_str a =
     (if 0 \<notin> set (at_payload a) then None
      else
        (let s = takeWhile (\<lambda>b. b \<noteq> 0) (at_payload a) in if utf8_valid s then Some s else None))"

definition nlattr_next :: "bytes \<Rightarrow> (nl_attr \<times> bytes) option" where
  "nlattr_next rest =
     (if length rest < ATTR_HDR_LEN then None
      else
        (let len = unat (ne16 rest)
         in if len < ATTR_HDR_LEN \<or> length rest < len then None
            else Some (\<lparr>at_kind = ne16 (drop 2 rest), at_payload = drop ATTR_HDR_LEN (take len rest)\<rparr>,
                       drop (min (nl_align len) (length rest)) rest)))"

definition nlattrs :: "bytes \<Rightarrow> nl_attr list" where
  "nlattrs bs = iter_collect nlattr_next bs"

text \<open>\<^verbatim>\<open>Message::attrs\<close>: the attributes behind a family header.\<close>

definition nlmsg_attrs :: "nat \<Rightarrow> nl_message \<Rightarrow> nl_attr list" where
  "nlmsg_attrs family_header_len m =
     nlattrs (drop (min (nl_align family_header_len) (length (nm_payload m))) (nm_payload m))"

section \<open>Building a request\<close>

text \<open>\<^verbatim>\<open>MsgBuilder::pad\<close>, a loop that pushes zeros up to the next boundary.\<close>

function nl_pad :: "bytes \<Rightarrow> bytes" where
  "nl_pad buf = (if length buf mod 4 = 0 then buf else nl_pad (buf @ [0]))"
  by pat_completeness auto

termination
proof (relation "measure (\<lambda>buf. (4 - length buf mod 4) mod 4)")
  fix buf :: bytes assume "length buf mod 4 \<noteq> 0"
  moreover have "n mod 4 \<noteq> 0 \<Longrightarrow> (4 - Suc n mod 4) mod 4 < (4 - n mod 4) mod 4" for n :: nat
    by (cases "n mod 4 = 1"; cases "n mod 4 = 2"; cases "n mod 4 = 3") (simp_all add: mod_Suc)
  ultimately show "(buf @ [0], buf) \<in> measure (\<lambda>buf. (4 - length buf mod 4) mod 4)" by simp
qed simp

declare nl_pad.simps [simp del]

definition nlmsg_new :: "u16 \<Rightarrow> u16 \<Rightarrow> u32 \<Rightarrow> bytes" where
  "nlmsg_new kind flags seq = u32_le 0 @ u16_le kind @ u16_le flags @ u32_le seq @ u32_le 0"

definition nlmsg_header :: "bytes \<Rightarrow> bytes \<Rightarrow> bytes" where
  "nlmsg_header h buf = nl_pad (buf @ h)"

definition nlmsg_attr :: "u16 \<Rightarrow> bytes \<Rightarrow> bytes \<Rightarrow> bytes" where
  "nlmsg_attr kind data buf =
     nl_pad (buf @ u16_le (of_nat (ATTR_HDR_LEN + length data)) @ u16_le kind @ data)"

definition nlmsg_attr_u32 :: "u16 \<Rightarrow> u32 \<Rightarrow> bytes \<Rightarrow> bytes" where
  "nlmsg_attr_u32 kind value buf = nlmsg_attr kind (u32_le value) buf"

definition nlmsg_attr_str :: "u16 \<Rightarrow> bytes \<Rightarrow> bytes \<Rightarrow> bytes" where
  "nlmsg_attr_str kind value buf = nlmsg_attr kind (value @ [0]) buf"

definition nlmsg_finish :: "bytes \<Rightarrow> bytes" where
  "nlmsg_finish buf = u32_le (of_nat (length buf)) @ drop 4 buf"

section \<open>A request\<close>

record nl_socket = so_seq :: u32

definition next_seq :: "nl_socket \<Rightarrow> u32 \<times> nl_socket" where
  "next_seq s = (let n = so_seq s + 1 in (n, s\<lparr>so_seq := n\<rparr>))"

text \<open>How the walk over one datagram ends: the exchange is over, or the next datagram is needed.\<close>

datatype 'a walked = Finished "nl_error + 'a" | More 'a

function nl_walk ::
  "u32 \<Rightarrow> (nl_message \<Rightarrow> 'a \<Rightarrow> nl_error + 'a) \<Rightarrow> bytes \<Rightarrow> 'a \<Rightarrow> 'a walked" where
  "nl_walk want_seq handler rest a =
     (if length rest < NL_HDR_LEN then More a
      else
        (case nlmsg_parse rest of
           Inl e \<Rightarrow> Finished (Inl e)
         | Inr msg \<Rightarrow>
             (let rest' = drop (min (nl_align (unat (nm_len msg))) (length rest)) rest
              in if nm_seq msg \<noteq> want_seq then nl_walk want_seq handler rest' a
                 else if nm_kind msg = NLMSG_DONE then Finished (Inr a)
                 else if nm_kind msg = NLMSG_ERROR then
                   (case get_range 0 4 (nm_payload msg) of
                      None \<Rightarrow> Finished (Inl Ne_Truncated)
                    | Some b \<Rightarrow> Finished (if ne32 b = 0 then Inr a else Inl (Ne_Kernel (- ne32 b))))
                 else if nm_kind msg = NLMSG_NOOP then nl_walk want_seq handler rest' a
                 else if nm_kind msg = NLMSG_OVERRUN then Finished (Inl Ne_Overrun)
                 else
                   (case handler msg a of
                      Inl e \<Rightarrow> Finished (Inl e)
                    | Inr a' \<Rightarrow>
                        if nm_flags msg AND NLM_F_MULTI = 0 then Finished (Inr a')
                        else nl_walk want_seq handler rest' a'))))"
  by pat_completeness auto

termination
  by (relation "measure (\<lambda>(_, _, rest, _). length rest)")
    (auto simp: nlmsg_parse_def NL_HDR_LEN_def nl_align_def Let_def split: if_splits)

declare nl_walk.simps [simp del]

text \<open>
  The loop over \<^verbatim>\<open>recv\<close>: each result is an error number, or what arrived in the buffer and how long
  the datagram was. \<open>None\<close> is a call that is still waiting when the results end.
\<close>

type_synonym received = "int + bytes \<times> nat"

primrec nl_exchange ::
  "u32 \<Rightarrow> (nl_message \<Rightarrow> 'a \<Rightarrow> nl_error + 'a) \<Rightarrow> received list \<Rightarrow> 'a \<Rightarrow> (nl_error + 'a) option" where
  "nl_exchange want_seq handler [] a = None"
| "nl_exchange want_seq handler (r # rs) a =
     (case r of
        Inl e \<Rightarrow> Some (Inl (Ne_Io e))
      | Inr (buf, actual) \<Rightarrow>
          if length buf < actual then Some (Inl Ne_Overrun)
          else
            (case nl_walk want_seq handler buf a of
               Finished res \<Rightarrow> Some res
             | More a' \<Rightarrow> nl_exchange want_seq handler rs a'))"

definition nl_send :: "int + nat \<Rightarrow> bytes \<Rightarrow> nl_error + unit" where
  "nl_send sent msg =
     (case sent of Inl e \<Rightarrow> Inl (Ne_Io e) | Inr n \<Rightarrow> if n \<noteq> length msg then Inl Ne_ShortSend else Inr ())"

definition nl_request ::
  "int + nat \<Rightarrow> received list \<Rightarrow> bytes \<Rightarrow> (nl_message \<Rightarrow> 'a \<Rightarrow> nl_error + 'a) \<Rightarrow> 'a \<Rightarrow>
   (nl_error + 'a) option" where
  "nl_request sent rs msg handler a =
     (case get_range 8 12 msg of
        None \<Rightarrow> Some (Inl Ne_Truncated)
      | Some b \<Rightarrow>
          (case nl_send sent msg of
             Inl e \<Rightarrow> Some (Inl e)
           | Inr _ \<Rightarrow> nl_exchange (ne32 b) handler rs a))"

section \<open>Padding\<close>

lemma nl_align_ge: "n \<le> nl_align n"
  by (simp add: nl_align_def)

lemma nl_align_mod [simp]: "nl_align n mod 4 = 0"
  by (simp add: nl_align_def)

lemma nl_align_less: "nl_align n < n + 4"
  by (simp add: nl_align_def)

lemma nl_align_id: "n mod 4 = 0 \<Longrightarrow> nl_align n = n"
  by (auto simp: nl_align_def mod_eq_0_iff_dvd elim!: dvdE)

lemma nl_align_Suc: "n mod 4 \<noteq> 0 \<Longrightarrow> nl_align (Suc n) = nl_align n"
proof -
  assume n: "n mod 4 \<noteq> 0"
  define q where "q = n div 4"
  have "n = q * 4 + n mod 4" by (simp add: q_def)
  moreover have "n mod 4 < 4" by simp
  ultimately have "(n + 3) div 4 = q + 1 \<and> (Suc n + 3) div 4 = q + 1" using n by linarith
  then show ?thesis by (simp add: nl_align_def)
qed

lemma nl_align_add: "m mod 4 = 0 \<Longrightarrow> nl_align (m + n) = m + nl_align n"
  by (auto simp: nl_align_def mod_eq_0_iff_dvd add.assoc elim!: dvdE)

lemma nl_pad_eq: "nl_pad buf = buf @ replicate (nl_align (length buf) - length buf) 0"
proof (induction buf rule: nl_pad.induct)
  case (1 buf)
  show ?case
  proof (cases "length buf mod 4 = 0")
    case True
    then show ?thesis by (simp add: nl_pad.simps[of buf] nl_align_id)
  next
    case False
    have "length buf \<noteq> nl_align (length buf)" using False nl_align_mod by metis
    then have "nl_align (length buf) - length buf = Suc (nl_align (length buf) - Suc (length buf))"
      using nl_align_ge[of "length buf"] by linarith
    then show ?thesis
      using 1[OF False] False by (simp add: nl_pad.simps[of buf] nl_align_Suc)
  qed
qed

lemma length_nl_pad [simp]: "length (nl_pad buf) = nl_align (length buf)"
  using nl_align_ge[of "length buf"] by (simp add: nl_pad_eq)

lemma nl_pad_append: "length a mod 4 = 0 \<Longrightarrow> nl_pad (a @ b) = a @ nl_pad b"
  by (simp add: nl_pad_eq nl_align_add)

lemma nl_pad_aligned: "length a mod 4 = 0 \<Longrightarrow> nl_pad a = a"
  by (simp add: nl_pad_eq nl_align_id)

lemma nlmsg_parse_InrD:
  assumes "nlmsg_parse buf = Inr m"
  shows "\<not> length buf < NL_HDR_LEN" "ne32 buf = nm_len m" "\<not> unat (nm_len m) < NL_HDR_LEN"
    "\<not> length buf < unat (nm_len m)" "ne16 (drop 4 buf) = nm_kind m"
    "drop NL_HDR_LEN (take (unat (nm_len m)) buf) = nm_payload m"
  using assms by (auto simp: nlmsg_parse_def Let_def split: if_splits)

section \<open>Attributes are read back\<close>

lemma ne16_u16_le [simp]: "ne16 (u16_le w @ bs) = w"
  by (simp add: ne16_def u16_le_def from_le16_def)

lemma ne32_u32_le [simp]: "ne32 (u32_le w @ bs) = w"
  by (simp add: ne32_def u32_le_def from_le32_def)

lemma ne32_u32_le_whole [simp]: "ne32 (u32_le w) = w"
  using ne32_u32_le[of w "[]"] by simp

lemma ne16_u16_le_whole [simp]: "ne16 (u16_le w) = w"
  using ne16_u16_le[of w "[]"] by simp

text \<open>One attribute on the wire, and the attributes a length field can hold.\<close>

definition attr_bytes :: "u16 \<times> bytes \<Rightarrow> bytes" where
  "attr_bytes a =
     nl_pad (u16_le (of_nat (ATTR_HDR_LEN + length (snd a))) @ u16_le (fst a) @ snd a)"

definition attr_fits :: "u16 \<times> bytes \<Rightarrow> bool" where
  "attr_fits a \<longleftrightarrow> ATTR_HDR_LEN + length (snd a) < 2 ^ 16"

definition attrs_bytes :: "(u16 \<times> bytes) list \<Rightarrow> bytes" where
  "attrs_bytes as = concat (map attr_bytes as)"

lemma length_attr_bytes: "length (attr_bytes a) = nl_align (ATTR_HDR_LEN + length (snd a))"
proof -
  have "length (u16_le x @ u16_le y @ z) = 4 + length z" for x y z by simp
  then show ?thesis by (simp only: attr_bytes_def length_nl_pad ATTR_HDR_LEN_def)
qed

lemma attrs_bytes_aligned [simp]: "length (attrs_bytes as) mod 4 = 0"
  by (induction as) (simp_all add: attrs_bytes_def length_attr_bytes mod_add_eq[symmetric])

lemma nlmsg_attr_append: "length buf mod 4 = 0 \<Longrightarrow> nlmsg_attr k d buf = buf @ attr_bytes (k, d)"
  by (simp add: nlmsg_attr_def attr_bytes_def nl_pad_append)

lemma nlattr_next_bytes:
  assumes "attr_fits a"
  shows "nlattr_next (attr_bytes a @ rest) =
     Some (\<lparr>at_kind = fst a, at_payload = snd a\<rparr>, rest)"
proof -
  define n where "n = ATTR_HDR_LEN + length (snd a)"
  have "n < 2 ^ 16" using assms by (simp add: n_def attr_fits_def)
  then have "unat (of_nat n :: u16) = n" by (simp add: unat_of_nat)
  moreover have "4 \<le> n" "n - 4 = length (snd a)" by (simp_all add: n_def ATTR_HDR_LEN_def)
  ultimately have n: "unat (of_nat n :: u16) = n" "4 \<le> n" "n - 4 = length (snd a)" by simp_all
  have bs: "attr_bytes a = u16_le (of_nat n) @ u16_le (fst a) @ snd a @ replicate (nl_align n - n) 0"
  proof -
    have "length (u16_le (of_nat n) @ u16_le (fst a) @ snd a) = n"
      by (simp add: n_def ATTR_HDR_LEN_def)
    then show ?thesis unfolding attr_bytes_def n_def[symmetric] nl_pad_eq by simp
  qed
  have len: "length (attr_bytes a) = nl_align n" by (simp add: length_attr_bytes n_def)
  have t: "take n (attr_bytes a @ rest) = u16_le (of_nat n) @ u16_le (fst a) @ snd a"
    using n by (simp add: bs)
  have "ne16 (attr_bytes a @ rest) = of_nat n" "ne16 (drop 2 (attr_bytes a @ rest)) = fst a"
    by (simp_all add: bs)
  then show ?thesis
    using n nl_align_ge[of n] t by (simp add: nlattr_next_def ATTR_HDR_LEN_def len)
qed

interpretation nlattr: stream_codec nlattr_next attr_bytes
  "\<lambda>a. \<lparr>at_kind = fst a, at_payload = snd a\<rparr>" attr_fits
proof
  fix bs x rest assume "nlattr_next bs = Some (x, rest)"
  then show "length rest < length bs"
    by (auto simp: nlattr_next_def ATTR_HDR_LEN_def nl_align_def Let_def split: if_splits)
qed (rule nlattr_next_bytes)

lemma nlattrs_bytes:
  "list_all attr_fits as \<Longrightarrow>
     nlattrs (attrs_bytes as) = map (\<lambda>a. \<lparr>at_kind = fst a, at_payload = snd a\<rparr>) as"
  unfolding nlattrs_def attrs_bytes_def by (rule nlattr.collect_enc)

section \<open>Messages are read back\<close>

definition nl_wire :: "nl_message \<Rightarrow> bytes" where
  "nl_wire m =
     nl_pad (u32_le (nm_len m) @ u16_le (nm_kind m) @ u16_le (nm_flags m) @ u32_le (nm_seq m) @
             u32_le (nm_pid m) @ nm_payload m)"

definition nl_wf :: "nl_message \<Rightarrow> bool" where
  "nl_wf m \<longleftrightarrow> unat (nm_len m) = NL_HDR_LEN + length (nm_payload m)"

lemma nl_wire_parse:
  assumes "nl_wf m"
  shows "nlmsg_parse (nl_wire m @ rest) = Inr m"
    and "drop (min (nl_align (unat (nm_len m))) (length (nl_wire m @ rest))) (nl_wire m @ rest) = rest"
proof -
  define n where "n = unat (nm_len m)"
  have n: "n = 16 + length (nm_payload m)" using assms by (simp add: nl_wf_def n_def NL_HDR_LEN_def)
  have bs: "nl_wire m = u32_le (nm_len m) @ u16_le (nm_kind m) @ u16_le (nm_flags m) @
      u32_le (nm_seq m) @ u32_le (nm_pid m) @ nm_payload m @ replicate (nl_align n - n) 0"
    by (simp add: nl_wire_def nl_pad_eq n)
  have len: "length (nl_wire m) = nl_align n" by (simp add: nl_wire_def n)
  have t: "drop 16 (take n (nl_wire m @ rest)) = nm_payload m" by (simp add: bs n)
  have f: "ne32 (nl_wire m @ rest) = nm_len m" "ne16 (drop 4 (nl_wire m @ rest)) = nm_kind m"
      "ne16 (drop 6 (nl_wire m @ rest)) = nm_flags m" "ne32 (drop 8 (nl_wire m @ rest)) = nm_seq m"
      "ne32 (drop 12 (nl_wire m @ rest)) = nm_pid m"
    by (simp_all add: bs)
  show "nlmsg_parse (nl_wire m @ rest) = Inr m"
    using n t f nl_align_ge[of n]
    by (simp add: nlmsg_parse_def NL_HDR_LEN_def Let_def n_def[symmetric] len)
  show "drop (min (nl_align (unat (nm_len m))) (length (nl_wire m @ rest))) (nl_wire m @ rest) = rest"
    by (simp add: n_def[symmetric] len)
qed

text \<open>What the builder makes: its message type, flags and number, a header and its attributes.\<close>

definition nl_built :: "u16 \<Rightarrow> u16 \<Rightarrow> u32 \<Rightarrow> bytes \<Rightarrow> (u16 \<times> bytes) list \<Rightarrow> nl_message" where
  "nl_built kind flags seq h as =
     (let payload = nl_pad h @ attrs_bytes as
      in \<lparr>nm_len = of_nat (NL_HDR_LEN + length payload), nm_kind = kind, nm_flags = flags,
          nm_seq = seq, nm_pid = 0, nm_payload = payload\<rparr>)"

lemma nl_built_wire:
  "nlmsg_finish (nlmsg_new kind flags seq @ nl_pad h @ attrs_bytes as) =
     nl_wire (nl_built kind flags seq h as)"
proof -
  have "length (nl_pad h @ attrs_bytes as) mod 4 = 0"
    by (simp add: mod_add_eq[symmetric])
  then have "nl_pad (b @ nl_pad h @ attrs_bytes as) = b @ nl_pad h @ attrs_bytes as"
    if "length b = 16" for b using that
    by (simp add: nl_pad_aligned mod_add_eq[symmetric])
  from this[of "u32_le x @ u16_le kind @ u16_le flags @ u32_le seq @ u32_le 0" for x] show ?thesis
    by (simp add: nl_wire_def nl_built_def nlmsg_finish_def nlmsg_new_def Let_def NL_HDR_LEN_def
        add.commute add.left_commute)
qed

lemma nlmsg_header_new:
  "nlmsg_header h (nlmsg_new kind flags seq) = nlmsg_new kind flags seq @ nl_pad h @ attrs_bytes []"
  using nl_pad_append[of "nlmsg_new kind flags seq" h]
  by (simp add: nlmsg_header_def attrs_bytes_def) (simp add: nlmsg_new_def)

lemma nlmsg_new_attr:
  "nlmsg_attr k d (nlmsg_new kind flags seq @ nl_pad h @ attrs_bytes as) =
     nlmsg_new kind flags seq @ nl_pad h @ attrs_bytes (as @ [(k, d)])"
  by (simp add: nlmsg_attr_append attrs_bytes_def[of "as @ _"] nlmsg_new_def mod_add_eq[symmetric])
    (simp add: attrs_bytes_def)

lemmas nlmsg_build = nlmsg_header_new nlmsg_new_attr nlmsg_attr_u32_def nlmsg_attr_str_def
  nl_built_wire append_Cons append_Nil

section \<open>A request sees messages, not datagrams\<close>

text \<open>The same exchange over the messages alone, however the kernel groups them into datagrams.\<close>

definition nl_of_exchange :: "u32 \<Rightarrow> nl_message \<Rightarrow> bool" where
  "nl_of_exchange want_seq m \<longleftrightarrow> nm_seq m = want_seq \<and> nm_kind m \<noteq> NLMSG_NOOP"

primrec nl_replies ::
  "(nl_message \<Rightarrow> 'a \<Rightarrow> nl_error + 'a) \<Rightarrow> nl_message list \<Rightarrow> 'a \<Rightarrow> 'a walked" where
  "nl_replies handler [] a = More a"
| "nl_replies handler (m # ms) a =
     (if nm_kind m = NLMSG_DONE then Finished (Inr a)
      else if nm_kind m = NLMSG_ERROR then
        Finished (case get_range 0 4 (nm_payload m) of
            None \<Rightarrow> Inl Ne_Truncated
          | Some b \<Rightarrow> if ne32 b = 0 then Inr a else Inl (Ne_Kernel (- ne32 b)))
      else if nm_kind m = NLMSG_OVERRUN then Finished (Inl Ne_Overrun)
      else
        (case handler m a of
           Inl e \<Rightarrow> Finished (Inl e)
         | Inr a' \<Rightarrow> if nm_flags m AND NLM_F_MULTI = 0 then Finished (Inr a') else nl_replies handler ms a'))"

definition nl_datagram :: "nl_message list \<Rightarrow> received" where
  "nl_datagram ms = (let bs = concat (map nl_wire ms) in Inr (bs, length bs))"

lemma length_nl_wire: "16 \<le> length (nl_wire m)"
  using nl_align_ge[of "length (u32_le (nm_len m) @ u16_le (nm_kind m) @ u16_le (nm_flags m) @
      u32_le (nm_seq m) @ u32_le (nm_pid m) @ nm_payload m)"]
  by (simp add: nl_wire_def)

lemma nl_walk_wire:
  "list_all nl_wf ms \<Longrightarrow>
     nl_walk want handler (concat (map nl_wire ms)) a = nl_replies handler (filter (nl_of_exchange want) ms) a"
proof (induction ms arbitrary: a)
  case Nil
  then show ?case by (simp add: nl_walk.simps NL_HDR_LEN_def)
next
  case (Cons m ms)
  have wf: "nl_wf m" using Cons.prems by simp
  have p: "nlmsg_parse (nl_wire m @ concat (map nl_wire ms)) = Inr m"
    and d: "drop (min (nl_align (unat (nm_len m))) (length (nl_wire m @ concat (map nl_wire ms))))
      (nl_wire m @ concat (map nl_wire ms)) = concat (map nl_wire ms)"
    by (rule nl_wire_parse[OF wf])+
  have g: "\<not> length (nl_wire m @ concat (map nl_wire ms)) < NL_HDR_LEN"
    using length_nl_wire[of m] by (simp add: NL_HDR_LEN_def)
  have IH: "nl_walk want handler (concat (map nl_wire ms)) a =
      nl_replies handler (filter (nl_of_exchange want) ms) a" for a
    using Cons by simp
  have k: "NLMSG_DONE \<noteq> NLMSG_NOOP" "NLMSG_ERROR \<noteq> NLMSG_NOOP"
    by (simp_all add: NLMSG_NOOP_def NLMSG_DONE_def NLMSG_ERROR_def)
  show ?case
    unfolding list.map concat.simps
    by (subst nl_walk.simps) (simp only: g p d IH if_False sum.case Let_def,
      auto simp: nl_of_exchange_def k split: option.splits sum.splits)
qed

lemma nl_replies_append:
  "nl_replies handler (ms @ ms') a =
     (case nl_replies handler ms a of Finished r \<Rightarrow> Finished r | More a' \<Rightarrow> nl_replies handler ms' a')"
  by (induction ms arbitrary: a) (auto split: sum.splits)

lemma nl_exchange_datagrams:
  "list_all (list_all nl_wf) mss \<Longrightarrow>
     nl_exchange want handler (map nl_datagram mss @ rs) a =
       (case nl_replies handler (filter (nl_of_exchange want) (concat mss)) a of
          Finished r \<Rightarrow> Some r
        | More a' \<Rightarrow> nl_exchange want handler rs a')"
proof (induction mss arbitrary: a)
  case (Cons ms mss)
  have "nl_walk want handler (concat (map nl_wire ms)) a =
      nl_replies handler (filter (nl_of_exchange want) ms) a"
    using Cons.prems by (intro nl_walk_wire) simp
  then show ?case
    using Cons by (auto simp: nl_datagram_def Let_def nl_replies_append split: walked.splits)
qed simp

text \<open>A part of a dump, and what runs over the parts until the message that ends it.\<close>

definition nl_part :: "nl_message \<Rightarrow> bool" where
  "nl_part m \<longleftrightarrow> nm_flags m AND NLM_F_MULTI \<noteq> 0 \<and>
     nm_kind m \<notin> {NLMSG_NOOP, NLMSG_ERROR, NLMSG_DONE, NLMSG_OVERRUN}"

lemma nl_replies_parts:
  "list_all nl_part ms \<Longrightarrow>
     nl_replies (\<lambda>m a. Inr (f m a)) (ms @ ms') a = nl_replies (\<lambda>m a. Inr (f m a)) ms' (fold f ms a)"
  by (induction ms arbitrary: a) (auto simp: nl_part_def)

lemma nl_built_seq: "get_range 8 12 (nl_wire (nl_built kind flags seq h as)) = Some (u32_le seq)"
proof -
  have "take 4 (drop 8 (nl_wire m)) = u32_le (nm_seq m)" for m
    by (simp add: nl_wire_def nl_pad_eq)
  then show ?thesis
    using length_nl_wire[of "nl_built kind flags seq h as"]
    by (simp add: get_range_def) (simp add: nl_built_def Let_def)
qed

text \<open>
  A dump is delivered whole, in order and once, and nothing else is delivered: \<open>mss\<close> is any grouping of
  the kernel's messages into datagrams, with messages of other exchanges anywhere among them.
\<close>

lemma nl_request_dump:
  assumes wf: "list_all (list_all nl_wf) mss"
    and own: "filter (nl_of_exchange seq) (concat mss) = ms @ [end]"
    and parts: "list_all nl_part ms" and last: "nm_kind end = NLMSG_DONE"
    and msg: "msg = nl_wire (nl_built kind flags seq h as)"
  shows "nl_request (Inr (length msg)) (map nl_datagram mss @ rs) msg (\<lambda>m a. Inr (f m a)) a =
     Some (Inr (fold f ms a))"
  using nl_exchange_datagrams[OF wf, of seq "\<lambda>m a. Inr (f m a)" rs a]
  by (simp add: nl_request_def nl_send_def msg nl_built_seq own last nl_replies_parts[OF parts])

text \<open>A request that is acknowledged, or refused with an error number.\<close>

lemma nl_request_ack:
  assumes wf: "list_all (list_all nl_wf) mss"
    and own: "filter (nl_of_exchange seq) (concat mss) = m # ms"
    and ack: "nm_kind m = NLMSG_ERROR" "get_range 0 4 (nm_payload m) = Some (u32_le code)"
    and msg: "msg = nl_wire (nl_built kind flags seq h as)"
  shows "nl_request (Inr (length msg)) (map nl_datagram mss @ rs) msg handler a =
     Some (if code = 0 then Inr a else Inl (Ne_Kernel (- code)))"
  using nl_exchange_datagrams[OF wf, of seq handler rs a]
  by (simp add: nl_request_def nl_send_def msg nl_built_seq own ack)
    (simp add: NLMSG_ERROR_def NLMSG_DONE_def)

end
