(* ===== verification/Nl80211_Consts.thy ===== *)
theory Nl80211_Consts
  imports Caw_Prelude
begin

text \<open>
  The numbers of \<^verbatim>\<open>linux/nl80211.h\<close> and \<^verbatim>\<open>linux/genetlink.h\<close> that \<^verbatim>\<open>src/crates/caw-nl80211/src/consts.rs\<close>
  declares, under the kernel's names. The suite selectors are in \<open>Station_Rsn\<close>, and the numbers an
  association request is made of in \<open>Conn\<close>.
\<close>

section \<open>The controller\<close>

definition GENL_ID_CTRL :: u16 where "GENL_ID_CTRL = 0x10"
definition CTRL_CMD_GETFAMILY :: u8 where "CTRL_CMD_GETFAMILY = 3"
definition CTRL_ATTR_FAMILY_ID :: u16 where "CTRL_ATTR_FAMILY_ID = 1"
definition CTRL_ATTR_FAMILY_NAME :: u16 where "CTRL_ATTR_FAMILY_NAME = 2"
definition CTRL_ATTR_MCAST_GROUPS :: u16 where "CTRL_ATTR_MCAST_GROUPS = 7"
definition CTRL_ATTR_MCAST_GRP_NAME :: u16 where "CTRL_ATTR_MCAST_GRP_NAME = 1"
definition CTRL_ATTR_MCAST_GRP_ID :: u16 where "CTRL_ATTR_MCAST_GRP_ID = 2"

section \<open>Commands\<close>

definition NL80211_CMD_GET_WIPHY :: u8 where "NL80211_CMD_GET_WIPHY = 1"
definition NL80211_CMD_NEW_WIPHY :: u8 where "NL80211_CMD_NEW_WIPHY = 3"
definition NL80211_CMD_GET_INTERFACE :: u8 where "NL80211_CMD_GET_INTERFACE = 5"
definition NL80211_CMD_NEW_INTERFACE :: u8 where "NL80211_CMD_NEW_INTERFACE = 7"
definition NL80211_CMD_SET_KEY :: u8 where "NL80211_CMD_SET_KEY = 10"
definition NL80211_CMD_NEW_KEY :: u8 where "NL80211_CMD_NEW_KEY = 11"
definition NL80211_CMD_GET_SCAN :: u8 where "NL80211_CMD_GET_SCAN = 32"
definition NL80211_CMD_TRIGGER_SCAN :: u8 where "NL80211_CMD_TRIGGER_SCAN = 33"
definition NL80211_CMD_NEW_SCAN_RESULTS :: u8 where "NL80211_CMD_NEW_SCAN_RESULTS = 34"
definition NL80211_CMD_SCAN_ABORTED :: u8 where "NL80211_CMD_SCAN_ABORTED = 35"
definition NL80211_CMD_AUTHENTICATE :: u8 where "NL80211_CMD_AUTHENTICATE = 37"
definition NL80211_CMD_ASSOCIATE :: u8 where "NL80211_CMD_ASSOCIATE = 38"
definition NL80211_CMD_CONNECT :: u8 where "NL80211_CMD_CONNECT = 46"
definition NL80211_CMD_DISCONNECT :: u8 where "NL80211_CMD_DISCONNECT = 48"
definition NL80211_CMD_FRAME :: u8 where "NL80211_CMD_FRAME = 59"
definition NL80211_CMD_SET_POWER_SAVE :: u8 where "NL80211_CMD_SET_POWER_SAVE = 61"
definition NL80211_CMD_EXTERNAL_AUTH :: u8 where "NL80211_CMD_EXTERNAL_AUTH = 127"

section \<open>Attributes\<close>

definition NL80211_ATTR_WIPHY :: u16 where "NL80211_ATTR_WIPHY = 1"
definition NL80211_ATTR_WIPHY_NAME :: u16 where "NL80211_ATTR_WIPHY_NAME = 2"
definition NL80211_ATTR_IFINDEX :: u16 where "NL80211_ATTR_IFINDEX = 3"
definition NL80211_ATTR_IFNAME :: u16 where "NL80211_ATTR_IFNAME = 4"
definition NL80211_ATTR_IFTYPE :: u16 where "NL80211_ATTR_IFTYPE = 5"
definition NL80211_ATTR_MAC :: u16 where "NL80211_ATTR_MAC = 6"
definition NL80211_ATTR_KEY_DATA :: u16 where "NL80211_ATTR_KEY_DATA = 7"
definition NL80211_ATTR_KEY_IDX :: u16 where "NL80211_ATTR_KEY_IDX = 8"
definition NL80211_ATTR_KEY_CIPHER :: u16 where "NL80211_ATTR_KEY_CIPHER = 9"
definition NL80211_ATTR_KEY_SEQ :: u16 where "NL80211_ATTR_KEY_SEQ = 10"
definition NL80211_ATTR_KEY_DEFAULT :: u16 where "NL80211_ATTR_KEY_DEFAULT = 11"
definition NL80211_ATTR_SUPPORTED_IFTYPES :: u16 where "NL80211_ATTR_SUPPORTED_IFTYPES = 32"
definition NL80211_ATTR_WIPHY_FREQ :: u16 where "NL80211_ATTR_WIPHY_FREQ = 38"
definition NL80211_ATTR_IE :: u16 where "NL80211_ATTR_IE = 42"
definition NL80211_ATTR_SCAN_SSIDS :: u16 where "NL80211_ATTR_SCAN_SSIDS = 45"
definition NL80211_ATTR_BSS :: u16 where "NL80211_ATTR_BSS = 47"
definition NL80211_ATTR_FRAME :: u16 where "NL80211_ATTR_FRAME = 51"
definition NL80211_ATTR_SSID :: u16 where "NL80211_ATTR_SSID = 52"
definition NL80211_ATTR_AUTH_TYPE :: u16 where "NL80211_ATTR_AUTH_TYPE = 53"
definition NL80211_ATTR_REASON_CODE :: u16 where "NL80211_ATTR_REASON_CODE = 54"
definition NL80211_ATTR_KEY_TYPE :: u16 where "NL80211_ATTR_KEY_TYPE = 55"
definition NL80211_ATTR_TIMED_OUT :: u16 where "NL80211_ATTR_TIMED_OUT = 65"
definition NL80211_ATTR_USE_MFP :: u16 where "NL80211_ATTR_USE_MFP = 66"
definition NL80211_ATTR_PRIVACY :: u16 where "NL80211_ATTR_PRIVACY = 70"
definition NL80211_ATTR_DISCONNECTED_BY_AP :: u16 where "NL80211_ATTR_DISCONNECTED_BY_AP = 71"
definition NL80211_ATTR_STATUS_CODE :: u16 where "NL80211_ATTR_STATUS_CODE = 72"
definition NL80211_ATTR_CIPHER_SUITES_PAIRWISE :: u16 where "NL80211_ATTR_CIPHER_SUITES_PAIRWISE = 73"
definition NL80211_ATTR_CIPHER_SUITE_GROUP :: u16 where "NL80211_ATTR_CIPHER_SUITE_GROUP = 74"
definition NL80211_ATTR_WPA_VERSIONS :: u16 where "NL80211_ATTR_WPA_VERSIONS = 75"
definition NL80211_ATTR_AKM_SUITES :: u16 where "NL80211_ATTR_AKM_SUITES = 76"
definition NL80211_ATTR_PS_STATE :: u16 where "NL80211_ATTR_PS_STATE = 93"
definition NL80211_ATTR_KEY_DEFAULT_TYPES :: u16 where "NL80211_ATTR_KEY_DEFAULT_TYPES = 110"
definition NL80211_ATTR_AUTH_DATA :: u16 where "NL80211_ATTR_AUTH_DATA = 156"
definition NL80211_ATTR_SPLIT_WIPHY_DUMP :: u16 where "NL80211_ATTR_SPLIT_WIPHY_DUMP = 174"
definition NL80211_ATTR_EXT_FEATURES :: u16 where "NL80211_ATTR_EXT_FEATURES = 217"
definition NL80211_ATTR_BSSID :: u16 where "NL80211_ATTR_BSSID = 245"
definition NL80211_ATTR_EXTERNAL_AUTH_ACTION :: u16 where "NL80211_ATTR_EXTERNAL_AUTH_ACTION = 260"

section \<open>Attributes of a BSS\<close>

definition NL80211_BSS_BSSID :: u16 where "NL80211_BSS_BSSID = 1"
definition NL80211_BSS_FREQUENCY :: u16 where "NL80211_BSS_FREQUENCY = 2"
definition NL80211_BSS_CAPABILITY :: u16 where "NL80211_BSS_CAPABILITY = 5"
definition NL80211_BSS_INFORMATION_ELEMENTS :: u16 where "NL80211_BSS_INFORMATION_ELEMENTS = 6"
definition NL80211_BSS_SIGNAL_MBM :: u16 where "NL80211_BSS_SIGNAL_MBM = 7"
definition NL80211_BSS_SEEN_MS_AGO :: u16 where "NL80211_BSS_SEEN_MS_AGO = 10"
definition NL80211_BSS_BEACON_IES :: u16 where "NL80211_BSS_BEACON_IES = 11"

section \<open>Values\<close>

definition NL80211_IFTYPE_UNSPECIFIED :: u32 where "NL80211_IFTYPE_UNSPECIFIED = 0"
definition NL80211_IFTYPE_ADHOC :: u32 where "NL80211_IFTYPE_ADHOC = 1"
definition NL80211_IFTYPE_STATION :: u32 where "NL80211_IFTYPE_STATION = 2"
definition NL80211_IFTYPE_AP :: u32 where "NL80211_IFTYPE_AP = 3"
definition NL80211_IFTYPE_MONITOR :: u32 where "NL80211_IFTYPE_MONITOR = 6"
definition NL80211_IFTYPE_MESH_POINT :: u32 where "NL80211_IFTYPE_MESH_POINT = 7"
definition NL80211_IFTYPE_P2P_CLIENT :: u32 where "NL80211_IFTYPE_P2P_CLIENT = 8"
definition NL80211_IFTYPE_P2P_GO :: u32 where "NL80211_IFTYPE_P2P_GO = 9"
definition NL80211_IFTYPE_P2P_DEVICE :: u32 where "NL80211_IFTYPE_P2P_DEVICE = 10"
definition NL80211_KEYTYPE_GROUP :: u32 where "NL80211_KEYTYPE_GROUP = 0"
definition NL80211_KEYTYPE_PAIRWISE :: u32 where "NL80211_KEYTYPE_PAIRWISE = 1"
definition NL80211_KEY_DEFAULT_TYPE_UNICAST :: u16 where "NL80211_KEY_DEFAULT_TYPE_UNICAST = 1"
definition NL80211_KEY_DEFAULT_TYPE_MULTICAST :: u16 where "NL80211_KEY_DEFAULT_TYPE_MULTICAST = 2"
definition NL80211_WPA_VERSION_1 :: u32 where "NL80211_WPA_VERSION_1 = 1"
definition NL80211_AUTHTYPE_SHARED_KEY :: u32 where "NL80211_AUTHTYPE_SHARED_KEY = 1"
definition NL80211_AUTHTYPE_FT :: u32 where "NL80211_AUTHTYPE_FT = 2"
definition NL80211_PS_DISABLED :: u32 where "NL80211_PS_DISABLED = 0"
definition NL80211_PS_ENABLED :: u32 where "NL80211_PS_ENABLED = 1"
definition NL80211_EXTERNAL_AUTH_START :: u32 where "NL80211_EXTERNAL_AUTH_START = 0"
definition NL80211_EXTERNAL_AUTH_ABORT :: u32 where "NL80211_EXTERNAL_AUTH_ABORT = 1"
definition NL80211_EXT_FEATURE_4WAY_HANDSHAKE_STA_PSK :: u32 where "NL80211_EXT_FEATURE_4WAY_HANDSHAKE_STA_PSK = 15"
definition NL80211_EXT_FEATURE_4WAY_HANDSHAKE_STA_1X :: u32 where "NL80211_EXT_FEATURE_4WAY_HANDSHAKE_STA_1X = 16"
definition NL80211_EXT_FEATURE_SAE_OFFLOAD :: u32 where "NL80211_EXT_FEATURE_SAE_OFFLOAD = 38"

lemmas cmd_consts =
  NL80211_CMD_GET_WIPHY_def
  NL80211_CMD_NEW_WIPHY_def
  NL80211_CMD_GET_INTERFACE_def
  NL80211_CMD_NEW_INTERFACE_def
  NL80211_CMD_SET_KEY_def
  NL80211_CMD_NEW_KEY_def
  NL80211_CMD_GET_SCAN_def
  NL80211_CMD_TRIGGER_SCAN_def
  NL80211_CMD_NEW_SCAN_RESULTS_def
  NL80211_CMD_SCAN_ABORTED_def
  NL80211_CMD_AUTHENTICATE_def
  NL80211_CMD_ASSOCIATE_def
  NL80211_CMD_CONNECT_def
  NL80211_CMD_DISCONNECT_def
  NL80211_CMD_FRAME_def
  NL80211_CMD_SET_POWER_SAVE_def
  NL80211_CMD_EXTERNAL_AUTH_def

lemmas attr_consts =
  NL80211_ATTR_WIPHY_def
  NL80211_ATTR_WIPHY_NAME_def
  NL80211_ATTR_IFINDEX_def
  NL80211_ATTR_IFNAME_def
  NL80211_ATTR_IFTYPE_def
  NL80211_ATTR_MAC_def
  NL80211_ATTR_KEY_DATA_def
  NL80211_ATTR_KEY_IDX_def
  NL80211_ATTR_KEY_CIPHER_def
  NL80211_ATTR_KEY_SEQ_def
  NL80211_ATTR_KEY_DEFAULT_def
  NL80211_ATTR_SUPPORTED_IFTYPES_def
  NL80211_ATTR_WIPHY_FREQ_def
  NL80211_ATTR_IE_def
  NL80211_ATTR_SCAN_SSIDS_def
  NL80211_ATTR_BSS_def
  NL80211_ATTR_FRAME_def
  NL80211_ATTR_SSID_def
  NL80211_ATTR_AUTH_TYPE_def
  NL80211_ATTR_REASON_CODE_def
  NL80211_ATTR_KEY_TYPE_def
  NL80211_ATTR_TIMED_OUT_def
  NL80211_ATTR_USE_MFP_def
  NL80211_ATTR_PRIVACY_def
  NL80211_ATTR_DISCONNECTED_BY_AP_def
  NL80211_ATTR_STATUS_CODE_def
  NL80211_ATTR_CIPHER_SUITES_PAIRWISE_def
  NL80211_ATTR_CIPHER_SUITE_GROUP_def
  NL80211_ATTR_WPA_VERSIONS_def
  NL80211_ATTR_AKM_SUITES_def
  NL80211_ATTR_PS_STATE_def
  NL80211_ATTR_KEY_DEFAULT_TYPES_def
  NL80211_ATTR_AUTH_DATA_def
  NL80211_ATTR_SPLIT_WIPHY_DUMP_def
  NL80211_ATTR_EXT_FEATURES_def
  NL80211_ATTR_BSSID_def
  NL80211_ATTR_EXTERNAL_AUTH_ACTION_def

lemmas bss_consts =
  NL80211_BSS_BSSID_def
  NL80211_BSS_FREQUENCY_def
  NL80211_BSS_CAPABILITY_def
  NL80211_BSS_INFORMATION_ELEMENTS_def
  NL80211_BSS_SIGNAL_MBM_def
  NL80211_BSS_SEEN_MS_AGO_def
  NL80211_BSS_BEACON_IES_def

lemmas value_consts =
  NL80211_IFTYPE_UNSPECIFIED_def
  NL80211_IFTYPE_ADHOC_def
  NL80211_IFTYPE_STATION_def
  NL80211_IFTYPE_AP_def
  NL80211_IFTYPE_MONITOR_def
  NL80211_IFTYPE_MESH_POINT_def
  NL80211_IFTYPE_P2P_CLIENT_def
  NL80211_IFTYPE_P2P_GO_def
  NL80211_IFTYPE_P2P_DEVICE_def
  NL80211_KEYTYPE_GROUP_def
  NL80211_KEYTYPE_PAIRWISE_def
  NL80211_KEY_DEFAULT_TYPE_UNICAST_def
  NL80211_KEY_DEFAULT_TYPE_MULTICAST_def
  NL80211_WPA_VERSION_1_def
  NL80211_AUTHTYPE_SHARED_KEY_def
  NL80211_AUTHTYPE_FT_def
  NL80211_PS_DISABLED_def
  NL80211_PS_ENABLED_def
  NL80211_EXTERNAL_AUTH_START_def
  NL80211_EXTERNAL_AUTH_ABORT_def
  NL80211_EXT_FEATURE_4WAY_HANDSHAKE_STA_PSK_def
  NL80211_EXT_FEATURE_4WAY_HANDSHAKE_STA_1X_def
  NL80211_EXT_FEATURE_SAE_OFFLOAD_def

end
