(* ===== verification/Nl80211.thy ===== *)
theory Nl80211
  imports Netlink Nl80211_Consts Conn_Data "HOL-Library.Multiset"
begin

text \<open>
  What caw reads from nl80211: the attribute walk and the nest builder (\<^verbatim>\<open>attr.rs\<close>), notifications
  (\<^verbatim>\<open>event.rs\<close>), scan results (\<^verbatim>\<open>bss.rs\<close>), radios and interfaces (\<^verbatim>\<open>wiphy.rs\<close>) and the family with
  its multicast groups (\<^verbatim>\<open>family.rs\<close>), all of \<^verbatim>\<open>src/crates/caw-nl80211/src/\<close>.

  A decoder that loops over the attributes and keeps what it recognises is a fold over them.
\<close>

section \<open>Attributes\<close>

definition GENL_HDRLEN :: nat where "GENL_HDRLEN = 4"
definition NLA_F_NESTED :: u16 where "NLA_F_NESTED = 0x8000"
definition NLA_F_NET_BYTEORDER :: u16 where "NLA_F_NET_BYTEORDER = 0x4000"
definition NLA_TYPE_MASK :: u16 where "NLA_TYPE_MASK = NOT (NLA_F_NESTED OR NLA_F_NET_BYTEORDER)"

definition genlmsghdr :: "u8 \<Rightarrow> u8 \<Rightarrow> bytes" where
  "genlmsghdr cmd version = [cmd, version, 0, 0]"

definition genl_cmd :: "bytes \<Rightarrow> u8 option" where
  "genl_cmd body = slice_first body"

definition nla_next :: "bytes \<Rightarrow> (nl_attr \<times> bytes) option" where
  "nla_next rest =
     (case get_range 0 ATTR_HDR_LEN rest of
        None \<Rightarrow> None
      | Some hdr \<Rightarrow>
          (let len = unat (ne16 hdr)
           in if len < ATTR_HDR_LEN \<or> length rest < len then None
              else Some (\<lparr>at_kind = ne16 (drop 2 hdr) AND NLA_TYPE_MASK,
                          at_payload = drop ATTR_HDR_LEN (take len rest)\<rparr>,
                         drop (min (nl_align len) (length rest)) rest)))"

definition nlas :: "bytes \<Rightarrow> nl_attr list" where
  "nlas bs = iter_collect nla_next bs"

definition nlas_of_body :: "bytes \<Rightarrow> nl_attr list" where
  "nlas_of_body body = nlas (case get_range GENL_HDRLEN (length body) body of None \<Rightarrow> [] | Some bs \<Rightarrow> bs)"

definition nla_find :: "u16 \<Rightarrow> nl_attr list \<Rightarrow> nl_attr option" where
  "nla_find kind as = find (\<lambda>a. at_kind a = kind) as"

definition u16_of :: "nl_attr \<Rightarrow> u16 option" where
  "u16_of a = map_option ne16 (get_range 0 2 (at_payload a))"

definition i32_of :: "nl_attr \<Rightarrow> int option" where
  "i32_of a = map_option sint (attr_u32 a)"

definition mac_of :: "nl_attr \<Rightarrow> bytes option" where
  "mac_of a = get_range 0 6 (at_payload a)"

text \<open>\<^verbatim>\<open>Nest\<close>: a buffer of attributes, padded the way a message is.\<close>

definition nest_new :: bytes where "nest_new = []"

definition nest_attr :: "u16 \<Rightarrow> bytes \<Rightarrow> bytes \<Rightarrow> bytes" where
  "nest_attr kind data buf =
     nl_pad (buf @ u16_le (of_nat (ATTR_HDR_LEN + length data)) @ u16_le kind @ data)"

definition nest_attr_u8 :: "u16 \<Rightarrow> u8 \<Rightarrow> bytes \<Rightarrow> bytes" where
  "nest_attr_u8 kind value buf = nest_attr kind [value] buf"

definition nest_attr_u32 :: "u16 \<Rightarrow> u32 \<Rightarrow> bytes \<Rightarrow> bytes" where
  "nest_attr_u32 kind value buf = nest_attr kind (u32_le value) buf"

definition nest_flag :: "u16 \<Rightarrow> bytes \<Rightarrow> bytes" where
  "nest_flag kind buf = nest_attr kind [] buf"

section \<open>Notifications\<close>

definition connect_status_of :: "nl_attr list \<Rightarrow> connect_status" where
  "connect_status_of as =
     (if nla_find NL80211_ATTR_TIMED_OUT as \<noteq> None then Cst_TimedOut
      else
        (case Option.bind (nla_find NL80211_ATTR_STATUS_CODE as) u16_of of
           None \<Rightarrow> Cst_Success
         | Some code \<Rightarrow> if code = 0 then Cst_Success else Cst_Refused code))"

definition attr_u32_or_0 :: "u16 \<Rightarrow> nl_attr list \<Rightarrow> u32" where
  "attr_u32_or_0 kind as =
     (case Option.bind (nla_find kind as) attr_u32 of None \<Rightarrow> 0 | Some v \<Rightarrow> v)"

definition event_decode :: "bytes \<Rightarrow> event option" where
  "event_decode body =
     (case genl_cmd body of
        None \<Rightarrow> None
      | Some cmd \<Rightarrow>
          (let as = nlas_of_body body in
           if cmd = NL80211_CMD_NEW_SCAN_RESULTS \<or> cmd = NL80211_CMD_SCAN_ABORTED then
             (let wiphy = attr_u32_or_0 NL80211_ATTR_WIPHY as;
                  ifindex = attr_u32_or_0 NL80211_ATTR_IFINDEX as
              in Some (if cmd = NL80211_CMD_NEW_SCAN_RESULTS then Ev_ScanComplete wiphy ifindex
                       else Ev_ScanAborted wiphy ifindex))
           else if cmd = NL80211_CMD_CONNECT then
             Some (Ev_Connected (Option.bind (nla_find NL80211_ATTR_MAC as) mac_of) (connect_status_of as))
           else if cmd = NL80211_CMD_DISCONNECT then
             Some (Ev_Disconnected
                     (case Option.bind (nla_find NL80211_ATTR_REASON_CODE as) u16_of of
                        None \<Rightarrow> 0 | Some reason \<Rightarrow> reason)
                     (nla_find NL80211_ATTR_DISCONNECTED_BY_AP as \<noteq> None))
           else if cmd = NL80211_CMD_EXTERNAL_AUTH then
             (case Option.bind (nla_find NL80211_ATTR_BSSID as) mac_of of
                None \<Rightarrow> None
              | Some bssid \<Rightarrow>
                  (case nla_find NL80211_ATTR_SSID as of
                     None \<Rightarrow> None
                   | Some ssid \<Rightarrow>
                       Some (Ev_ExternalAuth bssid (at_payload ssid)
                         (Option.bind (nla_find NL80211_ATTR_EXTERNAL_AUTH_ACTION as) attr_u32
                            = Some NL80211_EXTERNAL_AUTH_ABORT))))
           else if cmd = NL80211_CMD_FRAME then
             map_option (\<lambda>a. Ev_Frame (at_payload a)) (nla_find NL80211_ATTR_FRAME as)
           else if cmd = NL80211_CMD_AUTHENTICATE \<and> nla_find NL80211_ATTR_TIMED_OUT as \<noteq> None then
             Some Ev_AuthTimedOut
           else if cmd = NL80211_CMD_AUTHENTICATE then
             map_option (\<lambda>a. Ev_Authenticate (at_payload a)) (nla_find NL80211_ATTR_FRAME as)
           else None))"

section \<open>Scan results\<close>

definition CAPABILITY_PRIVACY :: u16 where "CAPABILITY_PRIVACY = push_bit 4 1"

definition UNKNOWN_SIGNAL :: int where "UNKNOWN_SIGNAL = - (2 ^ 31)"

text \<open>
  \<open>mbm_to_dbm\<close> divides toward zero, as Rust does, and the \<^verbatim>\<open>i32\<close> sum before it wraps (a build with
  overflow checks panics instead, for readings within 50 of the ends of the type).
\<close>

definition div_to_zero :: "int \<Rightarrow> int \<Rightarrow> int" where
  "div_to_zero a b = sgn a * (\<bar>a\<bar> div b)"

definition mbm_to_dbm :: "int \<Rightarrow> int" where
  "mbm_to_dbm mbm = div_to_zero (signed_take_bit 31 (mbm + 50 * sgn mbm)) 100"

record bss_fields =
  bf_bssid :: "bytes option"
  bf_freq_mhz :: u32
  bf_signal_dbm :: int
  bf_last_seen_ms :: u32
  bf_capability :: u16
  bf_ies :: bytes
  bf_beacon_ies :: bytes

definition bss_fields_start :: bss_fields where
  "bss_fields_start =
     \<lparr>bf_bssid = None, bf_freq_mhz = 0, bf_signal_dbm = UNKNOWN_SIGNAL, bf_last_seen_ms = 0,
      bf_capability = 0, bf_ies = [], bf_beacon_ies = []\<rparr>"

definition bss_field :: "nl_attr \<Rightarrow> bss_fields \<Rightarrow> bss_fields" where
  "bss_field a f =
     (if at_kind a = NL80211_BSS_BSSID then f\<lparr>bf_bssid := mac_of a\<rparr>
      else if at_kind a = NL80211_BSS_FREQUENCY then
        f\<lparr>bf_freq_mhz := (case attr_u32 a of None \<Rightarrow> 0 | Some v \<Rightarrow> v)\<rparr>
      else if at_kind a = NL80211_BSS_CAPABILITY then
        f\<lparr>bf_capability := (case u16_of a of None \<Rightarrow> 0 | Some v \<Rightarrow> v)\<rparr>
      else if at_kind a = NL80211_BSS_SIGNAL_MBM then
        f\<lparr>bf_signal_dbm := (case i32_of a of None \<Rightarrow> UNKNOWN_SIGNAL | Some v \<Rightarrow> mbm_to_dbm v)\<rparr>
      else if at_kind a = NL80211_BSS_SEEN_MS_AGO then
        f\<lparr>bf_last_seen_ms := (case attr_u32 a of None \<Rightarrow> 0 | Some v \<Rightarrow> v)\<rparr>
      else if at_kind a = NL80211_BSS_INFORMATION_ELEMENTS then f\<lparr>bf_ies := at_payload a\<rparr>
      else if at_kind a = NL80211_BSS_BEACON_IES then f\<lparr>bf_beacon_ies := at_payload a\<rparr>
      else f)"

definition bss_parse :: "bytes \<Rightarrow> bss option" where
  "bss_parse nested =
     (let f = fold bss_field (nlas nested) bss_fields_start;
          elements = (if bf_ies f = [] then bf_beacon_ies f else bf_ies f);
          parsed = beacon_parse elements
      in case bf_bssid f of
           None \<Rightarrow> None
         | Some bssid \<Rightarrow>
             Some \<lparr>bss_bssid = bssid,
                   bss_ssid = (case bi_ssid parsed of None \<Rightarrow> [] | Some s \<Rightarrow> s),
                   bss_freq_mhz = bf_freq_mhz f, bss_signal_dbm = bf_signal_dbm f,
                   bss_last_seen_ms = bf_last_seen_ms f, bss_capability = bf_capability f,
                   bss_security = beacon_security parsed (bf_capability f AND CAPABILITY_PRIVACY \<noteq> 0),
                   bss_rsn = bi_rsn parsed\<rparr>)"

section \<open>Radios and interfaces\<close>

definition ext_feature :: "bytes \<Rightarrow> u32 \<Rightarrow> bool" where
  "ext_feature bitmap index =
     (case get_at (unat index div 8) bitmap of
        None \<Rightarrow> False
      | Some b \<Rightarrow> b AND push_bit (unat index mod 8) 1 \<noteq> 0)"

record nl_wiphy =
  nw_index :: u32
  nw_name :: bytes
  nw_supports_ap :: bool
  nw_offloads_4way_psk :: bool
  nw_offloads_4way_1x :: bool
  nw_offloads_sae :: bool

record wiphy_chunk =
  wc_index :: u32
  wc_name :: "bytes option"
  wc_supports_ap :: bool
  wc_features :: "bytes option"

definition wiphy_field :: "nl_attr \<Rightarrow> (wiphy_chunk \<times> bool) option \<Rightarrow> (wiphy_chunk \<times> bool) option" where
  "wiphy_field a acc =
     (case acc of
        None \<Rightarrow> None
      | Some (c, seen) \<Rightarrow>
          if at_kind a = NL80211_ATTR_WIPHY then
            map_option (\<lambda>i. (c\<lparr>wc_index := i\<rparr>, True)) (attr_u32 a)
          else if at_kind a = NL80211_ATTR_WIPHY_NAME then Some (c\<lparr>wc_name := attr_str a\<rparr>, seen)
          else if at_kind a = NL80211_ATTR_SUPPORTED_IFTYPES then
            Some (c\<lparr>wc_supports_ap :=
              list_ex (\<lambda>t. ucast (at_kind t) = NL80211_IFTYPE_AP) (nlas (at_payload a))\<rparr>, seen)
          else if at_kind a = NL80211_ATTR_EXT_FEATURES then
            Some (c\<lparr>wc_features := Some (at_payload a)\<rparr>, seen)
          else Some (c, seen))"

definition wiphy_chunk_parse :: "bytes \<Rightarrow> wiphy_chunk option" where
  "wiphy_chunk_parse payload =
     (case fold wiphy_field (nlas_of_body payload)
             (Some (\<lparr>wc_index = - 1, wc_name = None, wc_supports_ap = False, wc_features = None\<rparr>, False)) of
        None \<Rightarrow> None
      | Some (c, seen_index) \<Rightarrow> if seen_index then Some c else None)"

definition merge_into :: "wiphy_chunk \<Rightarrow> nl_wiphy \<Rightarrow> nl_wiphy" where
  "merge_into c w =
     (let w = (case wc_name c of None \<Rightarrow> w | Some name \<Rightarrow> w\<lparr>nw_name := name\<rparr>);
          w = w\<lparr>nw_supports_ap := nw_supports_ap w \<or> wc_supports_ap c\<rparr>
      in case wc_features c of
           None \<Rightarrow> w
         | Some f \<Rightarrow>
             w\<lparr>nw_offloads_4way_psk :=
                 nw_offloads_4way_psk w \<or> ext_feature f NL80211_EXT_FEATURE_4WAY_HANDSHAKE_STA_PSK,
               nw_offloads_4way_1x :=
                 nw_offloads_4way_1x w \<or> ext_feature f NL80211_EXT_FEATURE_4WAY_HANDSHAKE_STA_1X,
               nw_offloads_sae := nw_offloads_sae w \<or> ext_feature f NL80211_EXT_FEATURE_SAE_OFFLOAD\<rparr>)"

definition into_wiphy :: "wiphy_chunk \<Rightarrow> nl_wiphy" where
  "into_wiphy c =
     merge_into c \<lparr>nw_index = wc_index c, nw_name = [], nw_supports_ap = False,
                   nw_offloads_4way_psk = False, nw_offloads_4way_1x = False, nw_offloads_sae = False\<rparr>"

datatype if_type = It_Unspecified | It_AdHoc | It_Station | It_Ap | It_Monitor | It_MeshPoint
  | It_P2pClient | It_P2pGo | It_P2pDevice | It_Other u32

definition if_type_from_raw :: "u32 \<Rightarrow> if_type" where
  "if_type_from_raw v =
     (if v = NL80211_IFTYPE_UNSPECIFIED then It_Unspecified
      else if v = NL80211_IFTYPE_ADHOC then It_AdHoc
      else if v = NL80211_IFTYPE_STATION then It_Station
      else if v = NL80211_IFTYPE_AP then It_Ap
      else if v = NL80211_IFTYPE_MONITOR then It_Monitor
      else if v = NL80211_IFTYPE_MESH_POINT then It_MeshPoint
      else if v = NL80211_IFTYPE_P2P_CLIENT then It_P2pClient
      else if v = NL80211_IFTYPE_P2P_GO then It_P2pGo
      else if v = NL80211_IFTYPE_P2P_DEVICE then It_P2pDevice
      else It_Other v)"

primrec if_type_str :: "if_type \<Rightarrow> string" where
  "if_type_str It_Unspecified = ''unspecified''"
| "if_type_str It_AdHoc = ''ad-hoc''"
| "if_type_str It_Station = ''managed''"
| "if_type_str It_Ap = ''AP''"
| "if_type_str It_Monitor = ''monitor''"
| "if_type_str It_MeshPoint = ''mesh''"
| "if_type_str It_P2pClient = ''P2P-client''"
| "if_type_str It_P2pGo = ''P2P-GO''"
| "if_type_str It_P2pDevice = ''P2P-device''"
| "if_type_str (It_Other _) = ''other''"

record nl_interface =
  ni_ifindex :: u32
  ni_wiphy :: u32
  ni_name :: bytes
  ni_iftype :: if_type
  ni_mac :: "bytes option"

definition interface_field ::
  "nl_attr \<Rightarrow> (nl_interface \<times> bool) option \<Rightarrow> (nl_interface \<times> bool) option" where
  "interface_field a acc =
     (case acc of
        None \<Rightarrow> None
      | Some (i, seen) \<Rightarrow>
          if at_kind a = NL80211_ATTR_IFINDEX then
            map_option (\<lambda>n. (i\<lparr>ni_ifindex := n\<rparr>, True)) (attr_u32 a)
          else if at_kind a = NL80211_ATTR_WIPHY then
            Some (i\<lparr>ni_wiphy := (case attr_u32 a of None \<Rightarrow> 0 | Some n \<Rightarrow> n)\<rparr>, seen)
          else if at_kind a = NL80211_ATTR_IFNAME then
            Some (i\<lparr>ni_name := (case attr_str a of None \<Rightarrow> [] | Some s \<Rightarrow> s)\<rparr>, seen)
          else if at_kind a = NL80211_ATTR_IFTYPE then
            Some (i\<lparr>ni_iftype := if_type_from_raw (case attr_u32 a of None \<Rightarrow> 0 | Some n \<Rightarrow> n)\<rparr>, seen)
          else if at_kind a = NL80211_ATTR_MAC then Some (i\<lparr>ni_mac := mac_of a\<rparr>, seen)
          else Some (i, seen))"

definition interface_parse :: "bytes \<Rightarrow> nl_interface option" where
  "interface_parse payload =
     (case fold interface_field (nlas_of_body payload)
             (Some (\<lparr>ni_ifindex = 0, ni_wiphy = 0, ni_name = [], ni_iftype = It_Unspecified,
                     ni_mac = None\<rparr>, False)) of
        None \<Rightarrow> None
      | Some (i, seen_ifindex) \<Rightarrow> if seen_ifindex then Some i else None)"

section \<open>The family\<close>

record nl_groups =
  gr_scan :: "u32 option"
  gr_mlme :: "u32 option"
  gr_config :: "u32 option"

record nl_family =
  nf_id :: u16
  nf_groups :: nl_groups

datatype nl80211_error = Xe_Netlink nl_error | Xe_NoFamily bytes | Xe_GroupOutOfRange string u32

definition groups_named :: "nl_groups \<Rightarrow> (string \<times> u32 option) list" where
  "groups_named g = [(''scan'', gr_scan g), (''mlme'', gr_mlme g), (''config'', gr_config g)]"

definition group_bit :: "u32 \<Rightarrow> u32 option" where
  "group_bit i = (if i = 0 then None else if unat (i - 1) < 32 then Some (push_bit (unat (i - 1)) 1) else None)"

primrec groups_fold :: "(string \<times> u32 option) list \<Rightarrow> u32 \<Rightarrow> nl80211_error + u32" where
  "groups_fold [] m = Inr m"
| "groups_fold (g # gs) m =
     (case snd g of
        None \<Rightarrow> groups_fold gs m
      | Some i \<Rightarrow>
          (case group_bit i of
             None \<Rightarrow> Inl (Xe_GroupOutOfRange (fst g) i)
           | Some bits \<Rightarrow> groups_fold gs (m OR bits)))"

definition groups_mask :: "nl_groups \<Rightarrow> nl80211_error + u32" where
  "groups_mask g = groups_fold (groups_named g) 0"

definition group_field :: "nl_attr \<Rightarrow> bytes option \<times> u32 option \<Rightarrow> bytes option \<times> u32 option" where
  "group_field a ng =
     (if at_kind a = CTRL_ATTR_MCAST_GRP_NAME then (attr_str a, snd ng)
      else if at_kind a = CTRL_ATTR_MCAST_GRP_ID then (fst ng, attr_u32 a)
      else ng)"

definition family_group :: "nl_attr \<Rightarrow> nl_groups \<Rightarrow> nl_groups" where
  "family_group a g =
     (case fold group_field (nlas (at_payload a)) (None, None) of
        (name, gid) \<Rightarrow>
          if name = Some (ascii ''scan'') then g\<lparr>gr_scan := gid\<rparr>
          else if name = Some (ascii ''mlme'') then g\<lparr>gr_mlme := gid\<rparr>
          else if name = Some (ascii ''config'') then g\<lparr>gr_config := gid\<rparr>
          else g)"

definition family_field :: "nl_attr \<Rightarrow> u16 option \<times> nl_groups \<Rightarrow> u16 option \<times> nl_groups" where
  "family_field a f =
     (if at_kind a = CTRL_ATTR_FAMILY_ID then (u16_of a, snd f)
      else if at_kind a = CTRL_ATTR_MCAST_GROUPS then
        (fst f, fold family_group (nlas (at_payload a)) (snd f))
      else f)"

definition family_parse :: "bytes \<Rightarrow> nl_family option" where
  "family_parse body =
     (case fold family_field (nlas_of_body body)
             (None, \<lparr>gr_scan = None, gr_mlme = None, gr_config = None\<rparr>) of
        (i, groups) \<Rightarrow> map_option (\<lambda>i. \<lparr>nf_id = i, nf_groups = groups\<rparr>) i)"

section \<open>Attributes are read back\<close>

text \<open>The nested walk is the transport's, with the flag bits of a type masked off.\<close>

definition nla_masked :: "nl_attr \<Rightarrow> nl_attr" where
  "nla_masked a = a\<lparr>at_kind := at_kind a AND NLA_TYPE_MASK\<rparr>"

lemma nla_next_masked:
  "nla_next rest = map_option (\<lambda>(a, rest'). (nla_masked a, rest')) (nlattr_next rest)"
proof (cases "length rest < 4")
  case False
  then have "ne16 (take 4 rest) = ne16 rest" "ne16 (drop 2 (take 4 rest)) = ne16 (drop 2 rest)"
    by (simp_all add: ne16_def)
  then show ?thesis
    using False
    by (simp add: nla_next_def nlattr_next_def get_range_def ATTR_HDR_LEN_def nla_masked_def Let_def)
qed (simp add: nla_next_def nlattr_next_def get_range_def ATTR_HDR_LEN_def)

lemma nlas_nlattrs: "nlas bs = map nla_masked (nlattrs bs)"
proof -
  have "iter_fuel n nla_next bs = map nla_masked (iter_fuel n nlattr_next bs)" for n
    by (induction n arbitrary: bs) (auto simp: nla_next_masked split: option.splits)
  then show ?thesis by (simp add: nlas_def nlattrs_def iter_collect_def)
qed

definition nla_of :: "u16 \<times> bytes \<Rightarrow> nl_attr" where
  "nla_of a = \<lparr>at_kind = fst a AND NLA_TYPE_MASK, at_payload = snd a\<rparr>"

lemma nlas_bytes: "list_all attr_fits as \<Longrightarrow> nlas (attrs_bytes as) = map nla_of as"
  by (simp add: nlas_nlattrs nlattrs_bytes nla_of_def nla_masked_def comp_def)

lemma nlas_of_body_bytes:
  "list_all attr_fits as \<Longrightarrow> nlas_of_body (genlmsghdr cmd v @ attrs_bytes as) = map nla_of as"
  by (simp add: nlas_of_body_def get_range_def GENL_HDRLEN_def genlmsghdr_def nlas_bytes)

lemma nest_attr_append: "length buf mod 4 = 0 \<Longrightarrow> nest_attr k d buf = buf @ attr_bytes (k, d)"
  by (simp add: nest_attr_def attr_bytes_def nl_pad_append)

lemma nest_new_bytes: "nest_new = attrs_bytes []"
  by (simp add: nest_new_def attrs_bytes_def)

lemma nest_attr_bytes: "nest_attr k d (attrs_bytes as) = attrs_bytes (as @ [(k, d)])"
  by (simp add: nest_attr_append) (simp add: attrs_bytes_def)

lemmas nest_build = nest_new_bytes nest_attr_bytes nest_attr_u8_def nest_attr_u32_def nest_flag_def

lemma nla_find_Cons:
  "nla_find k (a # as) = (if at_kind a = k then Some a else nla_find k as)"
  by (simp add: nla_find_def)

lemma nla_find_Nil [simp]: "nla_find k [] = None"
  by (simp add: nla_find_def)

lemma nla_find_filter:
  "k \<in> K \<Longrightarrow> nla_find k (filter (\<lambda>a. at_kind a \<in> K) as) = nla_find k as"
  by (induction as) (auto simp: nla_find_def)

section \<open>Every notification is told apart\<close>

text \<open>
  The kernel's side: the command of an event and the attributes that carry it. Whatever other
  attributes the kernel adds, and wherever, the event is the one that was sent.
\<close>

definition EVENT_ATTRS :: "u16 set" where
  "EVENT_ATTRS =
     {NL80211_ATTR_WIPHY, NL80211_ATTR_IFINDEX, NL80211_ATTR_MAC, NL80211_ATTR_TIMED_OUT,
      NL80211_ATTR_STATUS_CODE, NL80211_ATTR_REASON_CODE, NL80211_ATTR_DISCONNECTED_BY_AP,
      NL80211_ATTR_BSSID, NL80211_ATTR_SSID, NL80211_ATTR_EXTERNAL_AUTH_ACTION, NL80211_ATTR_FRAME}"

primrec event_cmd :: "event \<Rightarrow> u8" where
  "event_cmd (Ev_ScanComplete _ _) = NL80211_CMD_NEW_SCAN_RESULTS"
| "event_cmd (Ev_ScanAborted _ _) = NL80211_CMD_SCAN_ABORTED"
| "event_cmd (Ev_Connected _ _) = NL80211_CMD_CONNECT"
| "event_cmd (Ev_Disconnected _ _) = NL80211_CMD_DISCONNECT"
| "event_cmd (Ev_ExternalAuth _ _ _) = NL80211_CMD_EXTERNAL_AUTH"
| "event_cmd (Ev_Frame _) = NL80211_CMD_FRAME"
| "event_cmd (Ev_Authenticate _) = NL80211_CMD_AUTHENTICATE"
| "event_cmd Ev_AuthTimedOut = NL80211_CMD_AUTHENTICATE"

primrec event_attrs :: "event \<Rightarrow> nl_attr list" where
  "event_attrs (Ev_ScanComplete wiphy ifindex) =
     [\<lparr>at_kind = NL80211_ATTR_WIPHY, at_payload = u32_le wiphy\<rparr>,
      \<lparr>at_kind = NL80211_ATTR_IFINDEX, at_payload = u32_le ifindex\<rparr>]"
| "event_attrs (Ev_ScanAborted wiphy ifindex) =
     [\<lparr>at_kind = NL80211_ATTR_WIPHY, at_payload = u32_le wiphy\<rparr>,
      \<lparr>at_kind = NL80211_ATTR_IFINDEX, at_payload = u32_le ifindex\<rparr>]"
| "event_attrs (Ev_Connected bssid status) =
     (case bssid of None \<Rightarrow> [] | Some mac \<Rightarrow> [\<lparr>at_kind = NL80211_ATTR_MAC, at_payload = mac\<rparr>]) @
     (case status of
        Cst_Success \<Rightarrow> [\<lparr>at_kind = NL80211_ATTR_STATUS_CODE, at_payload = u16_le 0\<rparr>]
      | Cst_Refused code \<Rightarrow> [\<lparr>at_kind = NL80211_ATTR_STATUS_CODE, at_payload = u16_le code\<rparr>]
      | Cst_TimedOut \<Rightarrow> [\<lparr>at_kind = NL80211_ATTR_TIMED_OUT, at_payload = []\<rparr>])"
| "event_attrs (Ev_Disconnected reason by_ap) =
     \<lparr>at_kind = NL80211_ATTR_REASON_CODE, at_payload = u16_le reason\<rparr> #
     (if by_ap then [\<lparr>at_kind = NL80211_ATTR_DISCONNECTED_BY_AP, at_payload = []\<rparr>] else [])"
| "event_attrs (Ev_ExternalAuth bssid ssid withdrawn) =
     [\<lparr>at_kind = NL80211_ATTR_EXTERNAL_AUTH_ACTION,
       at_payload = u32_le (if withdrawn then NL80211_EXTERNAL_AUTH_ABORT else NL80211_EXTERNAL_AUTH_START)\<rparr>,
      \<lparr>at_kind = NL80211_ATTR_BSSID, at_payload = bssid\<rparr>,
      \<lparr>at_kind = NL80211_ATTR_SSID, at_payload = ssid\<rparr>]"
| "event_attrs (Ev_Frame frame) = [\<lparr>at_kind = NL80211_ATTR_FRAME, at_payload = frame\<rparr>]"
| "event_attrs (Ev_Authenticate frame) = [\<lparr>at_kind = NL80211_ATTR_FRAME, at_payload = frame\<rparr>]"
| "event_attrs Ev_AuthTimedOut = [\<lparr>at_kind = NL80211_ATTR_TIMED_OUT, at_payload = []\<rparr>]"

text \<open>An address is six bytes and a refusal has a status other than success.\<close>

fun event_wf :: "event \<Rightarrow> bool" where
  "event_wf (Ev_Connected bssid status) \<longleftrightarrow>
     (case bssid of None \<Rightarrow> True | Some mac \<Rightarrow> length mac = 6) \<and> status \<noteq> Cst_Refused 0"
| "event_wf (Ev_ExternalAuth bssid _ _) \<longleftrightarrow> length bssid = 6"
| "event_wf _ \<longleftrightarrow> True"

lemma attr_u32_le [simp]: "attr_u32 \<lparr>at_kind = k, at_payload = u32_le w\<rparr> = Some w"
  by (simp add: attr_u32_def get_range_def)

lemma u16_of_le [simp]: "u16_of \<lparr>at_kind = k, at_payload = u16_le w\<rparr> = Some w"
  by (simp add: u16_of_def get_range_def)

lemma mac_of_bytes [simp]: "length m = 6 \<Longrightarrow> mac_of \<lparr>at_kind = k, at_payload = m\<rparr> = Some m"
  by (simp add: mac_of_def get_range_def)

lemma event_decode_attrs:
  assumes fits: "list_all attr_fits as"
    and own: "filter (\<lambda>a. at_kind a \<in> EVENT_ATTRS) (map nla_of as) = event_attrs e"
    and wf: "event_wf e"
  shows "event_decode (genlmsghdr (event_cmd e) v @ attrs_bytes as) = Some e"
proof -
  have cmd: "genl_cmd (genlmsghdr c v @ bs) = Some c" for c bs
    by (simp add: genl_cmd_def genlmsghdr_def slice_first_def)
  have look: "nla_find k (map nla_of as) = nla_find k (event_attrs e)" if "k \<in> EVENT_ATTRS" for k
    using nla_find_filter[OF that, of "map nla_of as"] own by simp
  have find: "nla_find NL80211_ATTR_WIPHY (map nla_of as) = nla_find NL80211_ATTR_WIPHY (event_attrs e)"
    "nla_find NL80211_ATTR_IFINDEX (map nla_of as) = nla_find NL80211_ATTR_IFINDEX (event_attrs e)"
    "nla_find NL80211_ATTR_MAC (map nla_of as) = nla_find NL80211_ATTR_MAC (event_attrs e)"
    "nla_find NL80211_ATTR_TIMED_OUT (map nla_of as) = nla_find NL80211_ATTR_TIMED_OUT (event_attrs e)"
    "nla_find NL80211_ATTR_STATUS_CODE (map nla_of as) = nla_find NL80211_ATTR_STATUS_CODE (event_attrs e)"
    "nla_find NL80211_ATTR_REASON_CODE (map nla_of as) = nla_find NL80211_ATTR_REASON_CODE (event_attrs e)"
    "nla_find NL80211_ATTR_DISCONNECTED_BY_AP (map nla_of as) =
       nla_find NL80211_ATTR_DISCONNECTED_BY_AP (event_attrs e)"
    "nla_find NL80211_ATTR_BSSID (map nla_of as) = nla_find NL80211_ATTR_BSSID (event_attrs e)"
    "nla_find NL80211_ATTR_SSID (map nla_of as) = nla_find NL80211_ATTR_SSID (event_attrs e)"
    "nla_find NL80211_ATTR_EXTERNAL_AUTH_ACTION (map nla_of as) =
       nla_find NL80211_ATTR_EXTERNAL_AUTH_ACTION (event_attrs e)"
    "nla_find NL80211_ATTR_FRAME (map nla_of as) = nla_find NL80211_ATTR_FRAME (event_attrs e)"
    by (rule look, simp add: EVENT_ATTRS_def)+
  note look = find[unfolded attr_consts]
  show ?thesis
  proof (cases e)
    case (Ev_ScanComplete w i)
    then show ?thesis using look
      by (simp add: event_decode_def cmd nlas_of_body_bytes[OF fits] attr_u32_or_0_def nla_find_Cons
          cmd_consts attr_consts)
  next
    case (Ev_ScanAborted w i)
    then show ?thesis using look
      by (simp add: event_decode_def cmd nlas_of_body_bytes[OF fits] attr_u32_or_0_def nla_find_Cons
          cmd_consts attr_consts)
  next
    case (Ev_Connected b st)
    then show ?thesis using look wf
      by (cases b; cases st) (simp_all add: event_decode_def cmd nlas_of_body_bytes[OF fits]
          connect_status_of_def nla_find_Cons cmd_consts attr_consts)
  next
    case (Ev_Disconnected r ap)
    then show ?thesis using look
      by (simp add: event_decode_def cmd nlas_of_body_bytes[OF fits] nla_find_Cons cmd_consts attr_consts)
  next
    case (Ev_ExternalAuth b ss ab)
    then show ?thesis using look wf
      by (simp add: event_decode_def cmd nlas_of_body_bytes[OF fits] nla_find_Cons cmd_consts attr_consts
          value_consts)
  qed (use look in \<open>simp_all add: event_decode_def cmd nlas_of_body_bytes[OF fits] nla_find_Cons
      cmd_consts attr_consts\<close>)
qed

section \<open>A scan entry\<close>

text \<open>\<^verbatim>\<open>Bss::parse\<close> keeps the last attribute of each kind.\<close>

definition nla_last :: "u16 \<Rightarrow> nl_attr list \<Rightarrow> nl_attr option" where
  "nla_last kind as = nla_find kind (rev as)"

lemma nla_last_Nil [simp]: "nla_last k [] = None"
  by (simp add: nla_last_def)

lemma nla_last_snoc [simp]: "nla_last k (as @ [a]) = (if at_kind a = k then Some a else nla_last k as)"
  by (simp add: nla_last_def nla_find_Cons)

lemma bss_fields_last:
  "bf_bssid (fold bss_field as f) =
     (case nla_last NL80211_BSS_BSSID as of None \<Rightarrow> bf_bssid f | Some a \<Rightarrow> mac_of a)"
  "bf_freq_mhz (fold bss_field as f) =
     (case nla_last NL80211_BSS_FREQUENCY as of None \<Rightarrow> bf_freq_mhz f
      | Some a \<Rightarrow> case attr_u32 a of None \<Rightarrow> 0 | Some v \<Rightarrow> v)"
  "bf_capability (fold bss_field as f) =
     (case nla_last NL80211_BSS_CAPABILITY as of None \<Rightarrow> bf_capability f
      | Some a \<Rightarrow> case u16_of a of None \<Rightarrow> 0 | Some v \<Rightarrow> v)"
  "bf_signal_dbm (fold bss_field as f) =
     (case nla_last NL80211_BSS_SIGNAL_MBM as of None \<Rightarrow> bf_signal_dbm f
      | Some a \<Rightarrow> case i32_of a of None \<Rightarrow> UNKNOWN_SIGNAL | Some v \<Rightarrow> mbm_to_dbm v)"
  "bf_last_seen_ms (fold bss_field as f) =
     (case nla_last NL80211_BSS_SEEN_MS_AGO as of None \<Rightarrow> bf_last_seen_ms f
      | Some a \<Rightarrow> case attr_u32 a of None \<Rightarrow> 0 | Some v \<Rightarrow> v)"
  "bf_ies (fold bss_field as f) =
     (case nla_last NL80211_BSS_INFORMATION_ELEMENTS as of None \<Rightarrow> bf_ies f | Some a \<Rightarrow> at_payload a)"
  "bf_beacon_ies (fold bss_field as f) =
     (case nla_last NL80211_BSS_BEACON_IES as of None \<Rightarrow> bf_beacon_ies f | Some a \<Rightarrow> at_payload a)"
  by (induction as rule: rev_induct) (simp_all add: bss_field_def bss_consts)

text \<open>An entry of the kernel's scan cache, and the attributes that describe it.\<close>

record scan_entry =
  sn_bssid :: bytes
  sn_freq_mhz :: u32
  sn_capability :: u16
  sn_mbm :: u32
  sn_seen_ms :: u32
  sn_probe_ies :: bytes
  sn_beacon_ies :: bytes

definition BSS_ATTRS :: "u16 set" where
  "BSS_ATTRS =
     {NL80211_BSS_BSSID, NL80211_BSS_FREQUENCY, NL80211_BSS_CAPABILITY, NL80211_BSS_SIGNAL_MBM,
      NL80211_BSS_SEEN_MS_AGO, NL80211_BSS_INFORMATION_ELEMENTS, NL80211_BSS_BEACON_IES}"

definition scan_attrs :: "scan_entry \<Rightarrow> nl_attr list" where
  "scan_attrs e =
     [\<lparr>at_kind = NL80211_BSS_BSSID, at_payload = sn_bssid e\<rparr>,
      \<lparr>at_kind = NL80211_BSS_FREQUENCY, at_payload = u32_le (sn_freq_mhz e)\<rparr>,
      \<lparr>at_kind = NL80211_BSS_CAPABILITY, at_payload = u16_le (sn_capability e)\<rparr>,
      \<lparr>at_kind = NL80211_BSS_SIGNAL_MBM, at_payload = u32_le (sn_mbm e)\<rparr>,
      \<lparr>at_kind = NL80211_BSS_SEEN_MS_AGO, at_payload = u32_le (sn_seen_ms e)\<rparr>,
      \<lparr>at_kind = NL80211_BSS_INFORMATION_ELEMENTS, at_payload = sn_probe_ies e\<rparr>,
      \<lparr>at_kind = NL80211_BSS_BEACON_IES, at_payload = sn_beacon_ies e\<rparr>]"

text \<open>The BSS an entry stands for: the elements of the probe response when there are any.\<close>

definition entry_bss :: "scan_entry \<Rightarrow> bss" where
  "entry_bss e =
     (let parsed = beacon_parse (if sn_probe_ies e = [] then sn_beacon_ies e else sn_probe_ies e)
      in \<lparr>bss_bssid = sn_bssid e,
          bss_ssid = (case bi_ssid parsed of None \<Rightarrow> [] | Some s \<Rightarrow> s),
          bss_freq_mhz = sn_freq_mhz e, bss_signal_dbm = mbm_to_dbm (sint (sn_mbm e)),
          bss_last_seen_ms = sn_seen_ms e, bss_capability = sn_capability e,
          bss_security = beacon_security parsed (bit (sn_capability e) 4),
          bss_rsn = bi_rsn parsed\<rparr>)"

lemma nla_last_filter:
  "k \<in> K \<Longrightarrow> nla_last k (filter (\<lambda>a. at_kind a \<in> K) as) = nla_last k as"
  by (simp add: nla_last_def rev_filter nla_find_filter)

lemma nla_find_unique:
  assumes "distinct (map at_kind as)" "a \<in> set as"
  shows "nla_find (at_kind a) as = Some a"
  using assms
proof (induction as)
  case (Cons b as)
  show ?case
  proof (cases "a = b")
    case False
    then have "a \<in> set as" using Cons.prems by simp
    moreover from this have "at_kind a \<noteq> at_kind b"
      using Cons.prems by (metis distinct.simps(2) image_eqI list.simps(9) set_map)
    ultimately show ?thesis using Cons by (simp add: nla_find_Cons)
  qed (simp add: nla_find_Cons)
qed simp

lemma and_push_bit_1_eq: "(w AND push_bit n 1 \<noteq> 0) = bit w n" for w :: "'a::len word"
proof -
  have "w AND push_bit n 1 = (if bit w n then push_bit n 1 else 0)"
    by (rule bit_word_eqI) (auto simp: bit_simps)
  moreover have "bit w n \<Longrightarrow> push_bit n 1 \<noteq> (0 :: 'a word)"
    using bit_imp_le_length[of w n] by (auto simp: bit_eq_iff bit_simps)
  ultimately show ?thesis by simp
qed

text \<open>An entry is read back whatever the order of its attributes and whatever else is among them.\<close>

lemma bss_parse_entry:
  assumes fits: "list_all attr_fits as"
    and own: "mset (filter (\<lambda>a. at_kind a \<in> BSS_ATTRS) (map nla_of as)) = mset (scan_attrs e)"
    and mac: "length (sn_bssid e) = 6"
  shows "bss_parse (attrs_bytes as) = Some (entry_bss e)"
proof -
  define own where "own = filter (\<lambda>a. at_kind a \<in> BSS_ATTRS) (map nla_of as)"
  have ms: "mset own = mset (scan_attrs e)" using assms(2) by (simp add: own_def)
  have "mset (map at_kind own) = mset (map at_kind (scan_attrs e))" using ms by simp
  moreover have "distinct (map at_kind (scan_attrs e))" by (simp add: scan_attrs_def bss_consts)
  ultimately have "distinct (map at_kind (rev own))"
    by (metis distinct_rev mset_eq_imp_distinct_iff rev_map)
  then have uniq: "nla_last (at_kind a) own = Some a" if "a \<in> set (scan_attrs e)" for a
    using that mset_eq_setD[OF ms] by (simp add: nla_last_def nla_find_unique)
  have last: "nla_last k (map nla_of as) = Some a"
    if "a \<in> set (scan_attrs e)" "at_kind a = k" "k \<in> BSS_ATTRS" for a k
    using uniq[OF that(1)] nla_last_filter[OF that(3), of "map nla_of as"] that(2) by (simp add: own_def)
  have l: "nla_last NL80211_BSS_BSSID (map nla_of as) =
      Some \<lparr>at_kind = NL80211_BSS_BSSID, at_payload = sn_bssid e\<rparr>"
    "nla_last NL80211_BSS_FREQUENCY (map nla_of as) =
      Some \<lparr>at_kind = NL80211_BSS_FREQUENCY, at_payload = u32_le (sn_freq_mhz e)\<rparr>"
    "nla_last NL80211_BSS_CAPABILITY (map nla_of as) =
      Some \<lparr>at_kind = NL80211_BSS_CAPABILITY, at_payload = u16_le (sn_capability e)\<rparr>"
    "nla_last NL80211_BSS_SIGNAL_MBM (map nla_of as) =
      Some \<lparr>at_kind = NL80211_BSS_SIGNAL_MBM, at_payload = u32_le (sn_mbm e)\<rparr>"
    "nla_last NL80211_BSS_SEEN_MS_AGO (map nla_of as) =
      Some \<lparr>at_kind = NL80211_BSS_SEEN_MS_AGO, at_payload = u32_le (sn_seen_ms e)\<rparr>"
    "nla_last NL80211_BSS_INFORMATION_ELEMENTS (map nla_of as) =
      Some \<lparr>at_kind = NL80211_BSS_INFORMATION_ELEMENTS, at_payload = sn_probe_ies e\<rparr>"
    "nla_last NL80211_BSS_BEACON_IES (map nla_of as) =
      Some \<lparr>at_kind = NL80211_BSS_BEACON_IES, at_payload = sn_beacon_ies e\<rparr>"
    by (rule last; simp add: scan_attrs_def BSS_ATTRS_def)+
  have "i32_of \<lparr>at_kind = k, at_payload = u32_le w\<rparr> = Some (sint w)" for k w
    by (simp add: i32_of_def)
  then show ?thesis
    unfolding bss_parse_def CAPABILITY_PRIVACY_def and_push_bit_1_eq
    by (simp add: nlas_bytes[OF fits] bss_fields_last l mac entry_bss_def Let_def)
qed

section \<open>Numbers\<close>

text \<open>A reading in mBm is rounded to the nearest dBm, away from the ends of the type.\<close>

lemma mbm_to_dbm_nearest:
  assumes "- (2 ^ 31) + 50 \<le> m" "m < 2 ^ 31 - 50"
  shows "\<bar>100 * mbm_to_dbm m - m\<bar> \<le> 50"
proof -
  have id: "signed_take_bit 31 (m + 50 * sgn m) = m + 50 * sgn m"
    using assms by (intro signed_take_bit_int_eq_self) (auto simp: sgn_if)
  consider "m = 0" | "0 < m" | "m < 0" by linarith
  then show ?thesis
  proof cases
    case 1
    then show ?thesis by (simp add: mbm_to_dbm_def div_to_zero_def)
  next
    case 2
    have "(m + 50) div 100 * 100 + (m + 50) mod 100 = m + 50" "0 \<le> (m + 50) mod 100"
      "(m + 50) mod 100 < 100" by simp_all
    then show ?thesis using 2 id by (simp add: mbm_to_dbm_def div_to_zero_def)
  next
    case 3
    have "(50 - m) div 100 * 100 + (50 - m) mod 100 = 50 - m" "0 \<le> (50 - m) mod 100"
      "(50 - m) mod 100 < 100" by simp_all
    then show ?thesis using 3 id by (simp add: mbm_to_dbm_def div_to_zero_def)
  qed
qed

lemma mbm_to_dbm_wraps: "mbm_to_dbm (2 ^ 31 - 1) = - 21474835"
  by (simp add: mbm_to_dbm_def div_to_zero_def signed_take_bit_eq_take_bit_shift take_bit_eq_mod)

lemma ext_feature_iff:
  "ext_feature bm i \<longleftrightarrow> unat i div 8 < length bm \<and> bit (bm ! (unat i div 8)) (unat i mod 8)"
  unfolding ext_feature_def and_push_bit_1_eq by (simp add: get_at_def)

section \<open>The subscription mask\<close>

lemma group_bit_Some: "group_bit i = Some b \<longleftrightarrow> i \<noteq> 0 \<and> unat i \<le> 32 \<and> b = push_bit (unat i - 1) 1"
  by (auto simp: group_bit_def unat_minus_one)

lemma groups_fold_bits:
  "groups_fold gs m = Inr m' \<Longrightarrow>
     (\<forall>g\<in>set gs. \<forall>i. snd g = Some i \<longrightarrow> group_bit i \<noteq> None) \<and>
     (\<forall>n<32. bit m' n \<longleftrightarrow> bit m n \<or> (\<exists>g\<in>set gs. \<exists>i. snd g = Some i \<and> unat i = Suc n))"
proof (induction gs arbitrary: m)
  case (Cons g gs)
  show ?case
  proof (cases "snd g")
    case None
    then show ?thesis using Cons by auto
  next
    case (Some i)
    then obtain b where b: "group_bit i = Some b" and r: "groups_fold gs (m OR b) = Inr m'"
      using Cons.prems by (auto split: option.splits)
    have i: "i \<noteq> 0" "b = push_bit (unat i - 1) 1" using b by (auto simp: group_bit_Some)
    have "0 < unat i" using i(1) by (simp add: unat_gt_0)
    then have "n < 32 \<Longrightarrow> bit b n \<longleftrightarrow> unat i = Suc n" for n
      using i(2) by (auto simp: bit_simps)
    then show ?thesis using Cons.IH[OF r] b Some by (auto simp: bit_simps)
  qed
qed simp

lemma groups_fold_error:
  "groups_fold gs m = Inl e \<Longrightarrow>
     \<exists>g\<in>set gs. \<exists>i. snd g = Some i \<and> (i = 0 \<or> 32 < unat i) \<and> e = Xe_GroupOutOfRange (fst g) i"
proof (induction gs arbitrary: m)
  case (Cons g gs)
  show ?case
  proof (cases "snd g")
    case None
    then show ?thesis using Cons by auto
  next
    case (Some i)
    show ?thesis
    proof (cases "group_bit i")
      case None
      then have "i = 0 \<or> 32 < unat i"
        using group_bit_Some[of i "push_bit (unat i - 1) 1"] by auto
      then show ?thesis using None Some Cons.prems by auto
    qed (use Some Cons in auto)
  qed
qed simp

end
