(* ===== verification/Nl80211_Sock.thy ===== *)
theory Nl80211_Sock
  imports Nl80211 Engine_Types
begin

text \<open>
  What caw asks of nl80211: the request encoders (\<^verbatim>\<open>src/crates/caw-nl80211/src/msg.rs\<close>) and the socket
  shell around them (\<^verbatim>\<open>sock.rs\<close>).

  A call takes what the kernel does with it: how much of the request \<^verbatim>\<open>send\<close> took, and the results of
  \<^verbatim>\<open>recv\<close>. Opening and binding the sockets is left out.
\<close>

section \<open>Requests\<close>

definition msg_get_family :: "u32 \<Rightarrow> bytes \<Rightarrow> bytes" where
  "msg_get_family seq name =
     nlmsg_finish (nlmsg_attr_str CTRL_ATTR_FAMILY_NAME name
       (nlmsg_header (genlmsghdr CTRL_CMD_GETFAMILY 1) (nlmsg_new GENL_ID_CTRL NLM_F_REQUEST seq)))"

definition msg_get_wiphy :: "u16 \<Rightarrow> u32 \<Rightarrow> bytes" where
  "msg_get_wiphy fam seq =
     nlmsg_finish (nlmsg_attr NL80211_ATTR_SPLIT_WIPHY_DUMP []
       (nlmsg_header (genlmsghdr NL80211_CMD_GET_WIPHY 0) (nlmsg_new fam (NLM_F_REQUEST OR NLM_F_DUMP) seq)))"

definition msg_get_interface :: "u16 \<Rightarrow> u32 \<Rightarrow> bytes" where
  "msg_get_interface fam seq =
     nlmsg_finish
       (nlmsg_header (genlmsghdr NL80211_CMD_GET_INTERFACE 0)
         (nlmsg_new fam (NLM_F_REQUEST OR NLM_F_DUMP) seq))"

text \<open>The message every command starts with.\<close>

definition msg_start :: "u16 \<Rightarrow> u32 \<Rightarrow> u8 \<Rightarrow> bytes" where
  "msg_start fam seq cmd =
     nlmsg_header (genlmsghdr cmd 0) (nlmsg_new fam (NLM_F_REQUEST OR NLM_F_ACK) seq)"

definition scan_ssids :: "bytes list \<Rightarrow> bytes" where
  "scan_ssids ssids =
     fold (\<lambda>(i, ssid). nest_attr (of_nat i + 1) ssid) (List.enumerate 0 ssids)
       (if ssids = [] then nest_attr 1 [] nest_new else nest_new)"

definition msg_trigger_scan :: "u16 \<Rightarrow> u32 \<Rightarrow> u32 \<Rightarrow> bytes list \<Rightarrow> bytes" where
  "msg_trigger_scan fam seq ifindex ssids =
     nlmsg_finish (nlmsg_attr NL80211_ATTR_SCAN_SSIDS (scan_ssids ssids)
       (nlmsg_attr_u32 NL80211_ATTR_IFINDEX ifindex (msg_start fam seq NL80211_CMD_TRIGGER_SCAN)))"

definition msg_get_scan :: "u16 \<Rightarrow> u32 \<Rightarrow> u32 \<Rightarrow> bytes" where
  "msg_get_scan fam seq ifindex =
     nlmsg_finish (nlmsg_attr_u32 NL80211_ATTR_IFINDEX ifindex
       (nlmsg_header (genlmsghdr NL80211_CMD_GET_SCAN 0) (nlmsg_new fam (NLM_F_REQUEST OR NLM_F_DUMP) seq)))"

definition suites :: "u32 list \<Rightarrow> bytes" where
  "suites list = concat (map u32_le list)"

definition crypto_settings :: "nl_connect \<Rightarrow> bytes \<Rightarrow> bytes" where
  "crypto_settings req b =
     (let b = (if nc_wpa_versions req \<noteq> 0 then nlmsg_attr_u32 NL80211_ATTR_WPA_VERSIONS (nc_wpa_versions req) b
               else b);
          b = (if nc_pairwise_ciphers req \<noteq> [] then
                 nlmsg_attr NL80211_ATTR_CIPHER_SUITES_PAIRWISE (suites (nc_pairwise_ciphers req)) b else b);
          b = (case nc_group_cipher req of None \<Rightarrow> b
               | Some grp \<Rightarrow> nlmsg_attr_u32 NL80211_ATTR_CIPHER_SUITE_GROUP grp b);
          b = (if nc_akms req \<noteq> [] then nlmsg_attr NL80211_ATTR_AKM_SUITES (suites (nc_akms req)) b else b);
          b = (case nc_mfp req of None \<Rightarrow> b | Some mfp \<Rightarrow> nlmsg_attr_u32 NL80211_ATTR_USE_MFP mfp b)
      in if nc_ies req \<noteq> [] then nlmsg_attr NL80211_ATTR_IE (nc_ies req) b else b)"

definition msg_connect :: "u16 \<Rightarrow> u32 \<Rightarrow> u32 \<Rightarrow> nl_connect \<Rightarrow> bytes" where
  "msg_connect fam seq ifindex req =
     (let b = nlmsg_attr_u32 NL80211_ATTR_AUTH_TYPE (nc_auth_type req)
            (nlmsg_attr NL80211_ATTR_SSID (nc_ssid req)
              (nlmsg_attr_u32 NL80211_ATTR_IFINDEX ifindex (msg_start fam seq NL80211_CMD_CONNECT)));
          b = (case nc_bssid req of None \<Rightarrow> b | Some bssid \<Rightarrow> nlmsg_attr NL80211_ATTR_MAC bssid b);
          b = (case nc_freq_mhz req of None \<Rightarrow> b | Some freq \<Rightarrow> nlmsg_attr_u32 NL80211_ATTR_WIPHY_FREQ freq b);
          b = crypto_settings req b;
          b = (if nc_group_cipher req \<noteq> None \<or> nc_pairwise_ciphers req \<noteq> [] then
                 nlmsg_attr NL80211_ATTR_PRIVACY [] b else b)
      in nlmsg_finish b)"

definition msg_authenticate :: "u16 \<Rightarrow> u32 \<Rightarrow> u32 \<Rightarrow> nl_auth \<Rightarrow> bytes" where
  "msg_authenticate fam seq ifindex req =
     nlmsg_finish (nlmsg_attr NL80211_ATTR_AUTH_DATA (na_data req)
       (nlmsg_attr_u32 NL80211_ATTR_AUTH_TYPE (na_auth_type req)
         (nlmsg_attr NL80211_ATTR_SSID (na_ssid req)
           (nlmsg_attr_u32 NL80211_ATTR_WIPHY_FREQ (na_freq_mhz req)
             (nlmsg_attr NL80211_ATTR_MAC (na_bssid req)
               (nlmsg_attr_u32 NL80211_ATTR_IFINDEX ifindex
                 (msg_start fam seq NL80211_CMD_AUTHENTICATE)))))))"

definition msg_associate :: "u16 \<Rightarrow> u32 \<Rightarrow> u32 \<Rightarrow> nl_connect \<Rightarrow> bytes" where
  "msg_associate fam seq ifindex req =
     (let b = nlmsg_attr NL80211_ATTR_SSID (nc_ssid req)
            (nlmsg_attr_u32 NL80211_ATTR_IFINDEX ifindex (msg_start fam seq NL80211_CMD_ASSOCIATE));
          b = (case nc_bssid req of None \<Rightarrow> b | Some bssid \<Rightarrow> nlmsg_attr NL80211_ATTR_MAC bssid b);
          b = (case nc_freq_mhz req of None \<Rightarrow> b | Some freq \<Rightarrow> nlmsg_attr_u32 NL80211_ATTR_WIPHY_FREQ freq b)
      in nlmsg_finish (crypto_settings req b))"

definition msg_disconnect :: "u16 \<Rightarrow> u32 \<Rightarrow> u32 \<Rightarrow> u16 \<Rightarrow> bytes" where
  "msg_disconnect fam seq ifindex reason =
     nlmsg_finish (nlmsg_attr NL80211_ATTR_REASON_CODE (u16_le reason)
       (nlmsg_attr_u32 NL80211_ATTR_IFINDEX ifindex (msg_start fam seq NL80211_CMD_DISCONNECT)))"

definition msg_set_power_save :: "u16 \<Rightarrow> u32 \<Rightarrow> u32 \<Rightarrow> bool \<Rightarrow> bytes" where
  "msg_set_power_save fam seq ifindex enabled =
     nlmsg_finish (nlmsg_attr_u32 NL80211_ATTR_PS_STATE
         (if enabled then NL80211_PS_ENABLED else NL80211_PS_DISABLED)
       (nlmsg_attr_u32 NL80211_ATTR_IFINDEX ifindex (msg_start fam seq NL80211_CMD_SET_POWER_SAVE)))"

definition msg_new_pairwise_key :: "u16 \<Rightarrow> u32 \<Rightarrow> u32 \<Rightarrow> bytes \<Rightarrow> u32 \<Rightarrow> bytes \<Rightarrow> bytes" where
  "msg_new_pairwise_key fam seq ifindex peer cipher key =
     nlmsg_finish (nlmsg_attr_u32 NL80211_ATTR_KEY_TYPE NL80211_KEYTYPE_PAIRWISE
       (nlmsg_attr_u32 NL80211_ATTR_KEY_CIPHER cipher
         (nlmsg_attr NL80211_ATTR_KEY_IDX [0]
           (nlmsg_attr NL80211_ATTR_KEY_DATA key
             (nlmsg_attr NL80211_ATTR_MAC peer
               (nlmsg_attr_u32 NL80211_ATTR_IFINDEX ifindex (msg_start fam seq NL80211_CMD_NEW_KEY)))))))"

definition msg_new_group_key :: "u16 \<Rightarrow> u32 \<Rightarrow> u32 \<Rightarrow> u8 \<Rightarrow> u32 \<Rightarrow> bytes \<Rightarrow> bytes \<Rightarrow> bytes" where
  "msg_new_group_key fam seq ifindex idx cipher key rsc =
     (let b = nlmsg_attr_u32 NL80211_ATTR_KEY_TYPE NL80211_KEYTYPE_GROUP
            (nlmsg_attr_u32 NL80211_ATTR_KEY_CIPHER cipher
              (nlmsg_attr NL80211_ATTR_KEY_IDX [idx]
                (nlmsg_attr NL80211_ATTR_KEY_DATA key
                  (nlmsg_attr_u32 NL80211_ATTR_IFINDEX ifindex (msg_start fam seq NL80211_CMD_NEW_KEY)))));
          b = (if rsc \<noteq> [] then nlmsg_attr NL80211_ATTR_KEY_SEQ rsc b else b)
      in nlmsg_finish b)"

datatype key_scope = Scope_Unicast | Scope_Multicast | Scope_Both

definition msg_set_default_key :: "u16 \<Rightarrow> u32 \<Rightarrow> u32 \<Rightarrow> u8 \<Rightarrow> key_scope \<Rightarrow> bytes" where
  "msg_set_default_key fam seq ifindex idx scope =
     (let types = nest_new;
          types = (if scope = Scope_Unicast \<or> scope = Scope_Both then
                     nest_flag NL80211_KEY_DEFAULT_TYPE_UNICAST types else types);
          types = (if scope = Scope_Multicast \<or> scope = Scope_Both then
                     nest_flag NL80211_KEY_DEFAULT_TYPE_MULTICAST types else types)
      in nlmsg_finish (nlmsg_attr NL80211_ATTR_KEY_DEFAULT_TYPES types
           (nlmsg_attr NL80211_ATTR_KEY_DEFAULT []
             (nlmsg_attr NL80211_ATTR_KEY_IDX [idx]
               (nlmsg_attr_u32 NL80211_ATTR_IFINDEX ifindex (msg_start fam seq NL80211_CMD_SET_KEY))))))"

section \<open>The socket\<close>

definition NL80211_FAMILY_NAME :: bytes where "NL80211_FAMILY_NAME = ascii ''nl80211''"

type_synonym nl_io = "(int + nat) \<times> received list"

record nl80211 =
  nh_sock :: nl_socket
  nh_family :: nl_family

definition resolve_genl_family ::
  "nl_io \<Rightarrow> bytes \<Rightarrow> nl_socket \<Rightarrow> (nl80211_error + nl_family) option \<times> nl_socket" where
  "resolve_genl_family io name sock =
     (let (seq, sock) = next_seq sock
      in (case nl_request (fst io) (snd io) (msg_get_family seq name)
                 (\<lambda>m _. Inr (family_parse (nm_payload m))) None of
            None \<Rightarrow> None
          | Some (Inl e) \<Rightarrow>
              Some (Inl (if e = Ne_Kernel 2 then Xe_NoFamily name else Xe_Netlink e))
          | Some (Inr found) \<Rightarrow>
              Some (case found of None \<Rightarrow> Inl (Xe_NoFamily name) | Some fam \<Rightarrow> Inr fam), sock))"

text \<open>The first radio of a chunk's index takes the chunk; without one it is a new radio.\<close>

primrec wiphy_put :: "wiphy_chunk \<Rightarrow> nl_wiphy list \<Rightarrow> nl_wiphy list" where
  "wiphy_put c [] = [into_wiphy c]"
| "wiphy_put c (w # ws) = (if nw_index w = wc_index c then merge_into c w # ws else w # wiphy_put c ws)"

definition wiphys_handler :: "nl_message \<Rightarrow> nl_wiphy list \<Rightarrow> nl_wiphy list" where
  "wiphys_handler m out =
     (case wiphy_chunk_parse (nm_payload m) of None \<Rightarrow> out | Some c \<Rightarrow> wiphy_put c out)"

definition nl80211_wiphys ::
  "nl_io \<Rightarrow> nl80211 \<Rightarrow> (nl80211_error + nl_wiphy list) option \<times> nl80211" where
  "nl80211_wiphys io h =
     (let (seq, sock) = next_seq (nh_sock h)
      in (map_option (map_sum Xe_Netlink (sort_key nw_index))
            (nl_request (fst io) (snd io) (msg_get_wiphy (nf_id (nh_family h)) seq)
               (\<lambda>m out. Inr (wiphys_handler m out)) []), h\<lparr>nh_sock := sock\<rparr>))"

definition interfaces_handler :: "nl_message \<Rightarrow> nl_interface list \<Rightarrow> nl_interface list" where
  "interfaces_handler m out =
     (case interface_parse (nm_payload m) of None \<Rightarrow> out | Some i \<Rightarrow> out @ [i])"

definition nl80211_interfaces ::
  "nl_io \<Rightarrow> nl80211 \<Rightarrow> (nl80211_error + nl_interface list) option \<times> nl80211" where
  "nl80211_interfaces io h =
     (let (seq, sock) = next_seq (nh_sock h)
      in (map_option (map_sum Xe_Netlink (sort_key ni_ifindex))
            (nl_request (fst io) (snd io) (msg_get_interface (nf_id (nh_family h)) seq)
               (\<lambda>m out. Inr (interfaces_handler m out)) []), h\<lparr>nh_sock := sock\<rparr>))"

definition scan_handler :: "nl_message \<Rightarrow> bss list \<Rightarrow> bss list" where
  "scan_handler m out =
     (case Option.bind (nla_find NL80211_ATTR_BSS (nlas_of_body (nm_payload m)))
             (\<lambda>a. bss_parse (at_payload a)) of
        None \<Rightarrow> out
      | Some b \<Rightarrow> out @ [b])"

definition nl80211_scan_results ::
  "nl_io \<Rightarrow> u32 \<Rightarrow> nl80211 \<Rightarrow> (nl80211_error + bss list) option \<times> nl80211" where
  "nl80211_scan_results io ifindex h =
     (let (seq, sock) = next_seq (nh_sock h)
      in (map_option (map_sum Xe_Netlink id)
            (nl_request (fst io) (snd io) (msg_get_scan (nf_id (nh_family h)) seq ifindex)
               (\<lambda>m out. Inr (scan_handler m out)) []), h\<lparr>nh_sock := sock\<rparr>))"

text \<open>The methods that send one request and ignore what comes back but the verdict.\<close>

definition nl80211_command ::
  "(u16 \<Rightarrow> u32 \<Rightarrow> bytes) \<Rightarrow> nl_io \<Rightarrow> nl80211 \<Rightarrow> (nl80211_error + unit) option \<times> nl80211" where
  "nl80211_command req io h =
     (let (seq, sock) = next_seq (nh_sock h)
      in (map_option (map_sum Xe_Netlink id)
            (nl_request (fst io) (snd io) (req (nf_id (nh_family h)) seq) (\<lambda>_ u. Inr u) ()),
          h\<lparr>nh_sock := sock\<rparr>))"

definition nl80211_trigger_scan :: "u32 \<Rightarrow> bytes list \<Rightarrow> nl_io \<Rightarrow> nl80211 \<Rightarrow> (nl80211_error + unit) option \<times> nl80211" where
  "nl80211_trigger_scan ifindex ssids = nl80211_command (\<lambda>fam seq. msg_trigger_scan fam seq ifindex ssids)"

definition nl80211_connect :: "u32 \<Rightarrow> nl_connect \<Rightarrow> nl_io \<Rightarrow> nl80211 \<Rightarrow> (nl80211_error + unit) option \<times> nl80211" where
  "nl80211_connect ifindex req = nl80211_command (\<lambda>fam seq. msg_connect fam seq ifindex req)"

definition nl80211_authenticate :: "u32 \<Rightarrow> nl_auth \<Rightarrow> nl_io \<Rightarrow> nl80211 \<Rightarrow> (nl80211_error + unit) option \<times> nl80211" where
  "nl80211_authenticate ifindex req = nl80211_command (\<lambda>fam seq. msg_authenticate fam seq ifindex req)"

definition nl80211_associate :: "u32 \<Rightarrow> nl_connect \<Rightarrow> nl_io \<Rightarrow> nl80211 \<Rightarrow> (nl80211_error + unit) option \<times> nl80211" where
  "nl80211_associate ifindex req = nl80211_command (\<lambda>fam seq. msg_associate fam seq ifindex req)"

definition nl80211_disconnect :: "u32 \<Rightarrow> u16 \<Rightarrow> nl_io \<Rightarrow> nl80211 \<Rightarrow> (nl80211_error + unit) option \<times> nl80211" where
  "nl80211_disconnect ifindex reason = nl80211_command (\<lambda>fam seq. msg_disconnect fam seq ifindex reason)"

definition nl80211_set_power_save :: "u32 \<Rightarrow> bool \<Rightarrow> nl_io \<Rightarrow> nl80211 \<Rightarrow> (nl80211_error + unit) option \<times> nl80211" where
  "nl80211_set_power_save ifindex enabled =
     nl80211_command (\<lambda>fam seq. msg_set_power_save fam seq ifindex enabled)"

definition nl80211_new_pairwise_key ::
  "u32 \<Rightarrow> bytes \<Rightarrow> u32 \<Rightarrow> bytes \<Rightarrow> nl_io \<Rightarrow> nl80211 \<Rightarrow> (nl80211_error + unit) option \<times> nl80211" where
  "nl80211_new_pairwise_key ifindex peer cipher key =
     nl80211_command (\<lambda>fam seq. msg_new_pairwise_key fam seq ifindex peer cipher key)"

definition nl80211_new_group_key ::
  "u32 \<Rightarrow> u8 \<Rightarrow> u32 \<Rightarrow> bytes \<Rightarrow> bytes \<Rightarrow> nl_io \<Rightarrow> nl80211 \<Rightarrow> (nl80211_error + unit) option \<times> nl80211" where
  "nl80211_new_group_key ifindex idx cipher key rsc =
     nl80211_command (\<lambda>fam seq. msg_new_group_key fam seq ifindex idx cipher key rsc)"

definition nl80211_set_default_key ::
  "u32 \<Rightarrow> u8 \<Rightarrow> key_scope \<Rightarrow> nl_io \<Rightarrow> nl80211 \<Rightarrow> (nl80211_error + unit) option \<times> nl80211" where
  "nl80211_set_default_key ifindex idx scope =
     nl80211_command (\<lambda>fam seq. msg_set_default_key fam seq ifindex idx scope)"

section \<open>The event socket\<close>

definition ERRNO_INTR :: int where "ERRNO_INTR = 4"
definition ERRNO_AGAIN :: int where "ERRNO_AGAIN = 11"

text \<open>
  \<open>nl_notifications\<close> walks one datagram; \<open>None\<close> of the decoder drops a message. It stops at the first
  malformed header.
\<close>

function nl_notifications :: "(u16 \<Rightarrow> bytes \<Rightarrow> 'e option) \<Rightarrow> bytes \<Rightarrow> 'e list" where
  "nl_notifications decode rest =
     (if length rest < NL_HDR_LEN then []
      else
        (let len = unat (ne32 rest)
         in if len < NL_HDR_LEN \<or> length rest < len then []
            else
              (case decode (ne16 (drop 4 rest)) (drop NL_HDR_LEN (take len rest)) of None \<Rightarrow> [] | Some e \<Rightarrow> [e])
                @ nl_notifications decode (drop (min (nl_align len) (length rest)) rest)))"
  by pat_completeness auto

termination
  by (relation "measure (\<lambda>(_, rest). length rest)") (auto simp: NL_HDR_LEN_def nl_align_def)

declare nl_notifications.simps [simp del]

definition family_event :: "u16 \<Rightarrow> u16 \<Rightarrow> bytes \<Rightarrow> event option" where
  "family_event family_id kind body = (if kind = family_id then event_decode body else None)"

text \<open>\<^verbatim>\<open>Events::read\<close>: a datagram the kernel truncated is dropped; \<^verbatim>\<open>EAGAIN\<close> ends the loop.\<close>

primrec events_read :: "u16 \<Rightarrow> received list \<Rightarrow> event list \<Rightarrow> (nl80211_error + event list) option" where
  "events_read family_id [] out = None"
| "events_read family_id (r # rs) out =
     (case r of
        Inl e \<Rightarrow> Some (if e = ERRNO_AGAIN then Inr out else Inl (Xe_Netlink (Ne_Io e)))
      | Inr (buf, actual) \<Rightarrow>
          if length buf < actual then events_read family_id rs out
          else events_read family_id rs (out @ nl_notifications (family_event family_id) buf))"

section \<open>Requests are built as intended\<close>

definition cmd_message :: "u16 \<Rightarrow> u32 \<Rightarrow> u8 \<Rightarrow> (u16 \<times> bytes) list \<Rightarrow> nl_message" where
  "cmd_message fam seq cmd as = nl_built fam (NLM_F_REQUEST OR NLM_F_ACK) seq (genlmsghdr cmd 0) as"

lemma pad_genlmsghdr: "nl_pad (genlmsghdr cmd v) = genlmsghdr cmd v"
  by (simp add: nl_pad_aligned genlmsghdr_def)

lemma attrs_bytes_bound:
  "list_all attr_fits as \<Longrightarrow> length (attrs_bytes as) \<le> length as * 65540"
proof (induction as)
  case (Cons a as)
  have "length (attr_bytes a) < 65540"
    using Cons.prems nl_align_less[of "ATTR_HDR_LEN + length (snd a)"]
    by (simp add: attr_fits_def length_attr_bytes)
  then show ?case using Cons by (simp add: attrs_bytes_def)
qed (simp add: attrs_bytes_def)

lemma nl_built_wf:
  assumes "list_all attr_fits as" "length as \<le> 1000" "length h \<le> 1000"
  shows "nl_wf (nl_built kind flags seq h as)"
proof -
  have "length (attrs_bytes as) \<le> 1000 * 65540"
    using attrs_bytes_bound[OF assms(1)] assms(2) by (meson le_trans mult_le_mono1)
  moreover have "nl_align (length h) < 2000" using nl_align_less[of "length h"] assms(3) by linarith
  ultimately have "NL_HDR_LEN + (nl_align (length h) + length (attrs_bytes as)) < 2 ^ 32"
    by (simp add: NL_HDR_LEN_def)
  then have "unat (of_nat (NL_HDR_LEN + (nl_align (length h) + length (attrs_bytes as))) :: u32) =
      NL_HDR_LEN + (nl_align (length h) + length (attrs_bytes as))"
    by (simp only: unat_of_nat) simp
  then show ?thesis by (simp add: nl_wf_def nl_built_def Let_def)
qed

lemma nl_built_payload: "nm_payload (nl_built kind flags seq h as) = nl_pad h @ attrs_bytes as"
  by (simp add: nl_built_def Let_def)

text \<open>The attributes of a request, as the encoders add them.\<close>

definition crypto_attrs :: "nl_connect \<Rightarrow> (u16 \<times> bytes) list" where
  "crypto_attrs req =
     (if nc_wpa_versions req \<noteq> 0 then [(NL80211_ATTR_WPA_VERSIONS, u32_le (nc_wpa_versions req))] else []) @
     (if nc_pairwise_ciphers req \<noteq> [] then
        [(NL80211_ATTR_CIPHER_SUITES_PAIRWISE, suites (nc_pairwise_ciphers req))] else []) @
     (case nc_group_cipher req of None \<Rightarrow> [] | Some g \<Rightarrow> [(NL80211_ATTR_CIPHER_SUITE_GROUP, u32_le g)]) @
     (if nc_akms req \<noteq> [] then [(NL80211_ATTR_AKM_SUITES, suites (nc_akms req))] else []) @
     (case nc_mfp req of None \<Rightarrow> [] | Some mfp \<Rightarrow> [(NL80211_ATTR_USE_MFP, u32_le mfp)]) @
     (if nc_ies req \<noteq> [] then [(NL80211_ATTR_IE, nc_ies req)] else [])"

definition target_attrs :: "nl_connect \<Rightarrow> (u16 \<times> bytes) list" where
  "target_attrs req =
     (case nc_bssid req of None \<Rightarrow> [] | Some bssid \<Rightarrow> [(NL80211_ATTR_MAC, bssid)]) @
     (case nc_freq_mhz req of None \<Rightarrow> [] | Some freq \<Rightarrow> [(NL80211_ATTR_WIPHY_FREQ, u32_le freq)])"

definition connect_attrs :: "u32 \<Rightarrow> nl_connect \<Rightarrow> (u16 \<times> bytes) list" where
  "connect_attrs ifindex req =
     [(NL80211_ATTR_IFINDEX, u32_le ifindex), (NL80211_ATTR_SSID, nc_ssid req),
      (NL80211_ATTR_AUTH_TYPE, u32_le (nc_auth_type req))] @ target_attrs req @ crypto_attrs req @
     (if nc_group_cipher req \<noteq> None \<or> nc_pairwise_ciphers req \<noteq> [] then [(NL80211_ATTR_PRIVACY, [])] else [])"

definition associate_attrs :: "u32 \<Rightarrow> nl_connect \<Rightarrow> (u16 \<times> bytes) list" where
  "associate_attrs ifindex req =
     [(NL80211_ATTR_IFINDEX, u32_le ifindex), (NL80211_ATTR_SSID, nc_ssid req)] @ target_attrs req @
     crypto_attrs req"

definition authenticate_attrs :: "u32 \<Rightarrow> nl_auth \<Rightarrow> (u16 \<times> bytes) list" where
  "authenticate_attrs ifindex req =
     [(NL80211_ATTR_IFINDEX, u32_le ifindex), (NL80211_ATTR_MAC, na_bssid req),
      (NL80211_ATTR_WIPHY_FREQ, u32_le (na_freq_mhz req)), (NL80211_ATTR_SSID, na_ssid req),
      (NL80211_ATTR_AUTH_TYPE, u32_le (na_auth_type req)), (NL80211_ATTR_AUTH_DATA, na_data req)]"

definition pairwise_key_attrs :: "u32 \<Rightarrow> bytes \<Rightarrow> u32 \<Rightarrow> bytes \<Rightarrow> (u16 \<times> bytes) list" where
  "pairwise_key_attrs ifindex peer cipher key =
     [(NL80211_ATTR_IFINDEX, u32_le ifindex), (NL80211_ATTR_MAC, peer), (NL80211_ATTR_KEY_DATA, key),
      (NL80211_ATTR_KEY_IDX, [0]), (NL80211_ATTR_KEY_CIPHER, u32_le cipher),
      (NL80211_ATTR_KEY_TYPE, u32_le NL80211_KEYTYPE_PAIRWISE)]"

definition group_key_attrs :: "u32 \<Rightarrow> u8 \<Rightarrow> u32 \<Rightarrow> bytes \<Rightarrow> bytes \<Rightarrow> (u16 \<times> bytes) list" where
  "group_key_attrs ifindex idx cipher key rsc =
     [(NL80211_ATTR_IFINDEX, u32_le ifindex), (NL80211_ATTR_KEY_DATA, key), (NL80211_ATTR_KEY_IDX, [idx]),
      (NL80211_ATTR_KEY_CIPHER, u32_le cipher), (NL80211_ATTR_KEY_TYPE, u32_le NL80211_KEYTYPE_GROUP)] @
     (if rsc \<noteq> [] then [(NL80211_ATTR_KEY_SEQ, rsc)] else [])"

lemma cmd_message_start:
  "msg_start fam seq cmd =
     nlmsg_new fam (NLM_F_REQUEST OR NLM_F_ACK) seq @ nl_pad (genlmsghdr cmd 0) @ attrs_bytes []"
  unfolding msg_start_def by (rule nlmsg_header_new)

lemma crypto_settings_attrs:
  "crypto_settings req (nlmsg_new fam flags seq @ nl_pad h @ attrs_bytes as) =
     nlmsg_new fam flags seq @ nl_pad h @ attrs_bytes (as @ crypto_attrs req)"
  by (simp add: crypto_settings_def crypto_attrs_def Let_def nlmsg_attr_u32_def nlmsg_new_attr
      split: option.split)

lemma msg_connect_wire:
  "msg_connect fam seq ifindex req = nl_wire (cmd_message fam seq NL80211_CMD_CONNECT (connect_attrs ifindex req))"
  unfolding msg_connect_def cmd_message_def nl_built_wire[symmetric] cmd_message_start nlmsg_attr_u32_def
    nlmsg_new_attr connect_attrs_def target_attrs_def
  by (cases "nc_bssid req"; cases "nc_freq_mhz req")
    (simp_all add: Let_def nlmsg_new_attr crypto_settings_attrs)

lemma msg_associate_wire:
  "msg_associate fam seq ifindex req =
     nl_wire (cmd_message fam seq NL80211_CMD_ASSOCIATE (associate_attrs ifindex req))"
  unfolding msg_associate_def cmd_message_def nl_built_wire[symmetric] cmd_message_start nlmsg_attr_u32_def
    nlmsg_new_attr associate_attrs_def target_attrs_def
  by (cases "nc_bssid req"; cases "nc_freq_mhz req")
    (simp_all add: Let_def nlmsg_new_attr crypto_settings_attrs)

lemmas msg_wire = cmd_message_def nl_built_wire[symmetric] cmd_message_start nlmsg_attr_u32_def nlmsg_new_attr

lemma msg_wires:
  "msg_authenticate fam seq ifindex req2 =
     nl_wire (cmd_message fam seq NL80211_CMD_AUTHENTICATE (authenticate_attrs ifindex req2))"
  "msg_disconnect fam seq ifindex reason =
     nl_wire (cmd_message fam seq NL80211_CMD_DISCONNECT
       [(NL80211_ATTR_IFINDEX, u32_le ifindex), (NL80211_ATTR_REASON_CODE, u16_le reason)])"
  "msg_set_power_save fam seq ifindex enabled =
     nl_wire (cmd_message fam seq NL80211_CMD_SET_POWER_SAVE
       [(NL80211_ATTR_IFINDEX, u32_le ifindex),
        (NL80211_ATTR_PS_STATE, u32_le (if enabled then NL80211_PS_ENABLED else NL80211_PS_DISABLED))])"
  "msg_new_pairwise_key fam seq ifindex peer cipher key =
     nl_wire (cmd_message fam seq NL80211_CMD_NEW_KEY (pairwise_key_attrs ifindex peer cipher key))"
  "msg_new_group_key fam seq ifindex idx cipher key rsc =
     nl_wire (cmd_message fam seq NL80211_CMD_NEW_KEY (group_key_attrs ifindex idx cipher key rsc))"
  by (simp_all add: msg_authenticate_def msg_disconnect_def msg_set_power_save_def msg_new_pairwise_key_def
      msg_new_group_key_def msg_wire authenticate_attrs_def pairwise_key_attrs_def group_key_attrs_def)

lemma msg_set_default_key_wire:
  "msg_set_default_key fam seq ifindex idx scope =
     nl_wire (cmd_message fam seq NL80211_CMD_SET_KEY
       [(NL80211_ATTR_IFINDEX, u32_le ifindex), (NL80211_ATTR_KEY_IDX, [idx]), (NL80211_ATTR_KEY_DEFAULT, []),
        (NL80211_ATTR_KEY_DEFAULT_TYPES, attrs_bytes
          ((if scope = Scope_Unicast \<or> scope = Scope_Both then [(NL80211_KEY_DEFAULT_TYPE_UNICAST, [])] else []) @
           (if scope = Scope_Multicast \<or> scope = Scope_Both then
              [(NL80211_KEY_DEFAULT_TYPE_MULTICAST, [])] else [])))])"
  by (cases scope) (simp_all add: msg_set_default_key_def msg_wire nest_build)

lemma msg_trigger_scan_wire:
  "msg_trigger_scan fam seq ifindex [] =
     nl_wire (cmd_message fam seq NL80211_CMD_TRIGGER_SCAN
       [(NL80211_ATTR_IFINDEX, u32_le ifindex), (NL80211_ATTR_SCAN_SSIDS, attrs_bytes [(1, [])])])"
  by (simp add: msg_trigger_scan_def scan_ssids_def msg_wire nest_build)

section \<open>The kernel reads back what was asked\<close>

text \<open>
  The kernel's side of a command: the call the attributes of a request stand for. \<^verbatim>\<open>NL80211_CMD_ASSOCIATE\<close>
  carries no authentication type, so there it is the default.
\<close>

definition kv32 :: "u16 \<Rightarrow> nl_attr list \<Rightarrow> u32 option" where
  "kv32 k as = Option.bind (nla_find k as) attr_u32"

definition kvb :: "u16 \<Rightarrow> nl_attr list \<Rightarrow> bytes option" where
  "kvb k as = map_option at_payload (nla_find k as)"

fun u32s :: "bytes \<Rightarrow> u32 list" where
  "u32s (a # b # c # d # bs) = from_le32 a b c d # u32s bs"
| "u32s _ = []"

definition or_else :: "'a \<Rightarrow> 'a option \<Rightarrow> 'a" where
  "or_else d x = (case x of None \<Rightarrow> d | Some v \<Rightarrow> v)"

lemma or_else_simps [simp]: "or_else d None = d" "or_else d (Some v) = v"
  by (simp_all add: or_else_def)

definition kernel_connect :: "nl_attr list \<Rightarrow> nl_connect" where
  "kernel_connect as =
     \<lparr>nc_ssid = or_else [] (kvb NL80211_ATTR_SSID as), nc_bssid = kvb NL80211_ATTR_MAC as,
      nc_freq_mhz = kv32 NL80211_ATTR_WIPHY_FREQ as,
      nc_auth_type = or_else 0 (kv32 NL80211_ATTR_AUTH_TYPE as),
      nc_wpa_versions = or_else 0 (kv32 NL80211_ATTR_WPA_VERSIONS as),
      nc_pairwise_ciphers = u32s (or_else [] (kvb NL80211_ATTR_CIPHER_SUITES_PAIRWISE as)),
      nc_group_cipher = kv32 NL80211_ATTR_CIPHER_SUITE_GROUP as,
      nc_akms = u32s (or_else [] (kvb NL80211_ATTR_AKM_SUITES as)),
      nc_mfp = kv32 NL80211_ATTR_USE_MFP as, nc_ies = or_else [] (kvb NL80211_ATTR_IE as)\<rparr>"

definition kernel_auth :: "nl_attr list \<Rightarrow> nl_auth" where
  "kernel_auth as =
     \<lparr>na_ssid = or_else [] (kvb NL80211_ATTR_SSID as), na_bssid = or_else [] (kvb NL80211_ATTR_MAC as),
      na_freq_mhz = or_else 0 (kv32 NL80211_ATTR_WIPHY_FREQ as),
      na_auth_type = or_else 0 (kv32 NL80211_ATTR_AUTH_TYPE as),
      na_data = or_else [] (kvb NL80211_ATTR_AUTH_DATA as)\<rparr>"

definition kernel_new_key :: "u32 \<Rightarrow> nl_attr list \<Rightarrow> syscall" where
  "kernel_new_key ifindex as =
     (let key = or_else [] (kvb NL80211_ATTR_KEY_DATA as);
          cipher = or_else 0 (kv32 NL80211_ATTR_KEY_CIPHER as);
          idx = or_else 0 (Option.bind (nla_find NL80211_ATTR_KEY_IDX as) attr_u8)
      in if kv32 NL80211_ATTR_KEY_TYPE as = Some NL80211_KEYTYPE_PAIRWISE
         then K_NewPairwiseKey ifindex (or_else [] (kvb NL80211_ATTR_MAC as)) cipher key
         else K_NewGroupKey ifindex idx cipher key (or_else [] (kvb NL80211_ATTR_KEY_SEQ as)))"

definition kernel_call :: "bytes \<Rightarrow> syscall option" where
  "kernel_call body =
     (case genl_cmd body of
        None \<Rightarrow> None
      | Some cmd \<Rightarrow>
          (let as = nlas_of_body body; ifindex = or_else 0 (kv32 NL80211_ATTR_IFINDEX as) in
           if cmd = NL80211_CMD_TRIGGER_SCAN then Some (K_TriggerScan ifindex)
           else if cmd = NL80211_CMD_CONNECT then Some (K_Connect ifindex (kernel_connect as))
           else if cmd = NL80211_CMD_ASSOCIATE then Some (K_Associate ifindex (kernel_connect as))
           else if cmd = NL80211_CMD_AUTHENTICATE then Some (K_Authenticate ifindex (kernel_auth as))
           else if cmd = NL80211_CMD_DISCONNECT then
             Some (K_Disconnect ifindex (or_else 0 (Option.bind (nla_find NL80211_ATTR_REASON_CODE as) u16_of)))
           else if cmd = NL80211_CMD_NEW_KEY then Some (kernel_new_key ifindex as)
           else if cmd = NL80211_CMD_SET_KEY then
             Some (K_SetDefaultKey ifindex (or_else 0 (Option.bind (nla_find NL80211_ATTR_KEY_IDX as) attr_u8)))
           else if cmd = NL80211_CMD_SET_POWER_SAVE then
             Some (K_SetPowerSave ifindex (kv32 NL80211_ATTR_PS_STATE as = Some NL80211_PS_ENABLED))
           else None))"

text \<open>The request the engine's calls on nl80211 send.\<close>

definition call_request :: "u16 \<Rightarrow> u32 \<Rightarrow> syscall \<Rightarrow> bytes option" where
  "call_request fam seq k =
     (case k of
        K_TriggerScan ifindex \<Rightarrow> Some (msg_trigger_scan fam seq ifindex [])
      | K_Connect ifindex req \<Rightarrow> Some (msg_connect fam seq ifindex req)
      | K_Associate ifindex req \<Rightarrow> Some (msg_associate fam seq ifindex req)
      | K_Authenticate ifindex req \<Rightarrow> Some (msg_authenticate fam seq ifindex req)
      | K_Disconnect ifindex reason \<Rightarrow> Some (msg_disconnect fam seq ifindex reason)
      | K_NewPairwiseKey ifindex peer cipher key \<Rightarrow> Some (msg_new_pairwise_key fam seq ifindex peer cipher key)
      | K_NewGroupKey ifindex idx cipher key rsc \<Rightarrow> Some (msg_new_group_key fam seq ifindex idx cipher key rsc)
      | K_SetDefaultKey ifindex idx \<Rightarrow> Some (msg_set_default_key fam seq ifindex idx Scope_Multicast)
      | K_SetPowerSave ifindex enabled \<Rightarrow> Some (msg_set_power_save fam seq ifindex enabled)
      | _ \<Rightarrow> None)"

definition sent_call :: "syscall \<Rightarrow> syscall" where
  "sent_call k =
     (case k of K_Associate ifindex req \<Rightarrow> K_Associate ifindex (req\<lparr>nc_auth_type := 0\<rparr>) | _ \<Rightarrow> k)"

text \<open>What an attribute has to hold for its length not to be cut: fewer than 65532 bytes.\<close>

definition connect_fits :: "nl_connect \<Rightarrow> bool" where
  "connect_fits req \<longleftrightarrow>
     length (nc_ssid req) < 65532 \<and> length (or_else [] (nc_bssid req)) < 65532 \<and>
     length (nc_pairwise_ciphers req) < 16383 \<and> length (nc_akms req) < 16383 \<and>
     length (nc_ies req) < 65532"

primrec call_fits :: "syscall \<Rightarrow> bool" where
  "call_fits (K_TriggerScan _) \<longleftrightarrow> True"
| "call_fits (K_Connect _ req) \<longleftrightarrow> connect_fits req"
| "call_fits (K_Associate _ req) \<longleftrightarrow> connect_fits req"
| "call_fits (K_Authenticate _ req) \<longleftrightarrow>
     length (na_ssid req) < 65532 \<and> length (na_bssid req) < 65532 \<and> length (na_data req) < 65532"
| "call_fits (K_Disconnect _ _) \<longleftrightarrow> True"
| "call_fits (K_NewPairwiseKey _ peer _ key) \<longleftrightarrow> length peer < 65532 \<and> length key < 65532"
| "call_fits (K_NewGroupKey _ _ _ key rsc) \<longleftrightarrow> length key < 65532 \<and> length rsc < 65532"
| "call_fits (K_SetDefaultKey _ _) \<longleftrightarrow> True"
| "call_fits (K_SetPowerSave _ _) \<longleftrightarrow> True"
| "call_fits (K_EapolOpen _) \<longleftrightarrow> True"
| "call_fits (K_EapolSend _) \<longleftrightarrow> True"
| "call_fits (K_AddBroadcastRoute _) \<longleftrightarrow> True"
| "call_fits (K_AddProbeRoute _) \<longleftrightarrow> True"
| "call_fits (K_DelProbeRoute _) \<longleftrightarrow> True"
| "call_fits (K_DelAddress _ _ _) \<longleftrightarrow> True"
| "call_fits (K_AddAddress _ _ _) \<longleftrightarrow> True"
| "call_fits (K_AddDefaultRoute _ _) \<longleftrightarrow> True"
| "call_fits (K_SetUp _ _) \<longleftrightarrow> True"
| "call_fits K_DhcpOpen \<longleftrightarrow> True"
| "call_fits (K_DhcpBroadcast _) \<longleftrightarrow> True"
| "call_fits (K_DhcpSendTo _ _) \<longleftrightarrow> True"
| "call_fits (K_SaveProfile _) \<longleftrightarrow> True"
| "call_fits (K_WriteResolver _) \<longleftrightarrow> True"

lemma u32s_suites: "u32s (suites l) = l"
  by (induction l) (simp_all add: suites_def u32_le_def from_le32_def)

lemma length_suites: "length (suites l) = 4 * length l"
  by (induction l) (simp_all add: suites_def)

lemma NLA_TYPE_MASK_eq: "NLA_TYPE_MASK = 0x3FFF"
  by (simp add: NLA_TYPE_MASK_def NLA_F_NESTED_def NLA_F_NET_BYTEORDER_def)

lemma nla_find_append:
  "nla_find k (xs @ ys) = (case nla_find k xs of None \<Rightarrow> nla_find k ys | Some a \<Rightarrow> Some a)"
  by (induction xs) (simp_all add: nla_find_Cons)

lemma kv_Cons:
  "kv32 k (nla_of (j, b) # as) = (if j AND NLA_TYPE_MASK = k then attr_u32 (nla_of (j, b)) else kv32 k as)"
  "kvb k (nla_of (j, b) # as) = (if j AND NLA_TYPE_MASK = k then Some b else kvb k as)"
  by (simp_all add: kv32_def kvb_def nla_find_Cons nla_of_def)

lemma kv_Nil [simp]: "kv32 k [] = None" "kvb k [] = None"
  by (simp_all add: kv32_def kvb_def)

lemma attr_u32_nla_of [simp]: "attr_u32 (nla_of (k, u32_le w)) = Some w"
  by (simp add: nla_of_def)

lemmas kv_simps = kv_Cons NLA_TYPE_MASK_eq attr_consts

lemma crypto_kernel:
  "or_else 0 (kv32 NL80211_ATTR_WPA_VERSIONS (map nla_of (crypto_attrs req))) = nc_wpa_versions req"
  "u32s (or_else [] (kvb NL80211_ATTR_CIPHER_SUITES_PAIRWISE (map nla_of (crypto_attrs req)))) =
     nc_pairwise_ciphers req"
  "kv32 NL80211_ATTR_CIPHER_SUITE_GROUP (map nla_of (crypto_attrs req)) = nc_group_cipher req"
  "u32s (or_else [] (kvb NL80211_ATTR_AKM_SUITES (map nla_of (crypto_attrs req)))) = nc_akms req"
  "kv32 NL80211_ATTR_USE_MFP (map nla_of (crypto_attrs req)) = nc_mfp req"
  "or_else [] (kvb NL80211_ATTR_IE (map nla_of (crypto_attrs req))) = nc_ies req"
  by (simp_all add: crypto_attrs_def kv_simps u32s_suites split: option.split)

lemma kv_append:
  "kv32 k (xs @ ys) = (if nla_find k xs = None then kv32 k ys else kv32 k xs)"
  "kvb k (xs @ ys) = (if nla_find k xs = None then kvb k ys else kvb k xs)"
  by (auto simp: kv32_def kvb_def nla_find_append split: option.split)

lemma crypto_none:
  "nla_find NL80211_ATTR_SSID (map nla_of (crypto_attrs req)) = None"
  "nla_find NL80211_ATTR_MAC (map nla_of (crypto_attrs req)) = None"
  "nla_find NL80211_ATTR_WIPHY_FREQ (map nla_of (crypto_attrs req)) = None"
  "nla_find NL80211_ATTR_AUTH_TYPE (map nla_of (crypto_attrs req)) = None"
  by (simp_all add: crypto_attrs_def nla_find_append nla_find_Cons nla_of_def NLA_TYPE_MASK_eq attr_consts
      split: option.split)

lemma kv_find_None: "nla_find k as = None \<Longrightarrow> kv32 k as = None" "nla_find k as = None \<Longrightarrow> kvb k as = None"
  by (simp_all add: kv32_def kvb_def)

text \<open>A suffix that carries none of the suites leaves what the kernel reads unchanged.\<close>

definition privacy_attrs :: "nl_connect \<Rightarrow> (u16 \<times> bytes) list" where
  "privacy_attrs req =
     (if nc_group_cipher req \<noteq> None \<or> nc_pairwise_ciphers req \<noteq> [] then [(NL80211_ATTR_PRIVACY, [])] else [])"

lemma kv_privacy:
  "k \<noteq> NL80211_ATTR_PRIVACY \<Longrightarrow> kv32 k (xs @ map nla_of (privacy_attrs req)) = kv32 k xs"
  "k \<noteq> NL80211_ATTR_PRIVACY \<Longrightarrow> kvb k (xs @ map nla_of (privacy_attrs req)) = kvb k xs"
  by (auto simp: privacy_attrs_def kv32_def kvb_def nla_find_append nla_find_Cons nla_of_def
      NLA_TYPE_MASK_eq NL80211_ATTR_PRIVACY_def split: option.split)

lemma kernel_connect_privacy:
  "kernel_connect (xs @ map nla_of (privacy_attrs req)) = kernel_connect xs"
proof -
  have "NL80211_ATTR_SSID \<noteq> NL80211_ATTR_PRIVACY" "NL80211_ATTR_MAC \<noteq> NL80211_ATTR_PRIVACY"
    "NL80211_ATTR_WIPHY_FREQ \<noteq> NL80211_ATTR_PRIVACY" "NL80211_ATTR_AUTH_TYPE \<noteq> NL80211_ATTR_PRIVACY"
    "NL80211_ATTR_WPA_VERSIONS \<noteq> NL80211_ATTR_PRIVACY"
    "NL80211_ATTR_CIPHER_SUITES_PAIRWISE \<noteq> NL80211_ATTR_PRIVACY"
    "NL80211_ATTR_CIPHER_SUITE_GROUP \<noteq> NL80211_ATTR_PRIVACY"
    "NL80211_ATTR_AKM_SUITES \<noteq> NL80211_ATTR_PRIVACY" "NL80211_ATTR_USE_MFP \<noteq> NL80211_ATTR_PRIVACY"
    "NL80211_ATTR_IE \<noteq> NL80211_ATTR_PRIVACY"
    by (simp_all add: attr_consts)
  then show ?thesis by (simp add: kernel_connect_def kv_privacy)
qed

text \<open>The head of a connect or associate request, with or without the authentication type.\<close>

lemma kernel_connect_head:
  assumes "heads = [] \<or> heads = [(NL80211_ATTR_AUTH_TYPE, u32_le at)]"
  shows "kernel_connect (map nla_of
      ([(NL80211_ATTR_IFINDEX, u32_le ifindex), (NL80211_ATTR_SSID, nc_ssid req)] @ heads @
       target_attrs req @ crypto_attrs req)) =
    req\<lparr>nc_auth_type := (if heads = [] then 0 else at)\<rparr>"
proof -
  define cs where "cs = map nla_of (crypto_attrs req)"
  have none: "kvb NL80211_ATTR_SSID cs = None" "kvb NL80211_ATTR_MAC cs = None"
    "kv32 NL80211_ATTR_WIPHY_FREQ cs = None" "kv32 NL80211_ATTR_AUTH_TYPE cs = None"
    unfolding cs_def by (rule kv_find_None, rule crypto_none)+
  note c = crypto_kernel[of req, folded cs_def] none
  note c = c[unfolded attr_consts]
  have t: "target_attrs req =
      (case nc_bssid req of None \<Rightarrow> [] | Some bssid \<Rightarrow> [(NL80211_ATTR_MAC, bssid)]) @
      (case nc_freq_mhz req of None \<Rightarrow> [] | Some freq \<Rightarrow> [(NL80211_ATTR_WIPHY_FREQ, u32_le freq)])"
    by (simp add: target_attrs_def)
  from assms show ?thesis
    by (cases "nc_bssid req"; cases "nc_freq_mhz req")
      (auto simp: t cs_def[symmetric] kernel_connect_def kv_simps c intro!: nl_connect.equality)
qed

lemma kernel_connect_attrs: "kernel_connect (map nla_of (connect_attrs ifindex req)) = req"
  using kernel_connect_head[of "[(NL80211_ATTR_AUTH_TYPE, u32_le (nc_auth_type req))]" "nc_auth_type req" ifindex req]
    kernel_connect_privacy[of "map nla_of ([(NL80211_ATTR_IFINDEX, u32_le ifindex), (NL80211_ATTR_SSID, nc_ssid req)] @
       [(NL80211_ATTR_AUTH_TYPE, u32_le (nc_auth_type req))] @ target_attrs req @ crypto_attrs req)" req]
  by (simp add: connect_attrs_def privacy_attrs_def)

lemma kernel_associate_attrs:
  "kernel_connect (map nla_of (associate_attrs ifindex req)) = req\<lparr>nc_auth_type := 0\<rparr>"
  using kernel_connect_head[of "[]" 0 ifindex req] by (simp add: associate_attrs_def)

lemma crypto_attrs_fit:
  "connect_fits req \<Longrightarrow> list_all attr_fits (crypto_attrs req) \<and> length (crypto_attrs req) \<le> 6"
  by (auto simp: crypto_attrs_def connect_fits_def attr_fits_def ATTR_HDR_LEN_def length_suites
      split: option.split)

lemma target_attrs_fit:
  "connect_fits req \<Longrightarrow> list_all attr_fits (target_attrs req) \<and> length (target_attrs req) \<le> 2"
  by (auto simp: target_attrs_def connect_fits_def attr_fits_def ATTR_HDR_LEN_def split: option.split)

lemma connect_attrs_fit:
  assumes "connect_fits req"
  shows "list_all attr_fits (connect_attrs ifindex req)" "length (connect_attrs ifindex req) \<le> 1000"
    "list_all attr_fits (associate_attrs ifindex req)" "length (associate_attrs ifindex req) \<le> 1000"
  using crypto_attrs_fit[OF assms] target_attrs_fit[OF assms] assms
  by (auto simp: connect_attrs_def associate_attrs_def connect_fits_def attr_fits_def ATTR_HDR_LEN_def)

text \<open>One command: it parses, as itself, and the kernel reads the attributes that were given.\<close>

definition read_call :: "bytes \<Rightarrow> syscall option" where
  "read_call msg = (case nlmsg_parse msg of Inl _ \<Rightarrow> None | Inr m \<Rightarrow> kernel_call (nm_payload m))"

lemma read_attrs:
  assumes "list_all attr_fits as" "length as \<le> 1000"
  shows "read_call (nl_wire (cmd_message fam seq cmd as)) = kernel_call (genlmsghdr cmd 0 @ attrs_bytes as)"
proof -
  have "nl_wf (cmd_message fam seq cmd as)"
    unfolding cmd_message_def by (rule nl_built_wf[OF assms]) (simp add: genlmsghdr_def)
  from nl_wire_parse(1)[OF this, of "[]"] show ?thesis
    by (simp add: read_call_def) (simp add: cmd_message_def nl_built_payload pad_genlmsghdr)
qed

lemma kernel_call_attrs:
  "list_all attr_fits as \<Longrightarrow>
     nlas_of_body (genlmsghdr cmd 0 @ attrs_bytes as) = map nla_of as"
  "genl_cmd (genlmsghdr cmd 0 @ bs) = Some cmd"
  by (simp_all add: nlas_of_body_bytes) (simp add: genl_cmd_def genlmsghdr_def slice_first_def)

lemma ifindex_first:
  "kv32 NL80211_ATTR_IFINDEX (nla_of (NL80211_ATTR_IFINDEX, u32_le i) # as) = Some i"
  by (simp add: kv_Cons NLA_TYPE_MASK_eq NL80211_ATTR_IFINDEX_def)

lemma ifindex_connect:
  "kv32 NL80211_ATTR_IFINDEX (map nla_of (connect_attrs i req)) = Some i"
  "kv32 NL80211_ATTR_IFINDEX (map nla_of (associate_attrs i req)) = Some i"
  unfolding connect_attrs_def associate_attrs_def append_Cons list.map by (rule ifindex_first)+

lemma attr_u8_one [simp]: "attr_u8 (nla_of (k, [b])) = Some b"
  by (simp add: attr_u8_def nla_of_def slice_first_def)

lemma u16_of_nla_of [simp]: "u16_of (nla_of (k, u16_le w)) = Some w"
  by (simp add: nla_of_def)

lemma nla_find_of_Cons:
  "nla_find k (nla_of (j, b) # as) = (if j AND NLA_TYPE_MASK = k then Some (nla_of (j, b)) else nla_find k as)"
  by (simp add: nla_find_Cons nla_of_def)

lemma length_one_flag [simp]: "length (attrs_bytes [(k, [])]) = 4"
  by (simp add: attrs_bytes_def length_attr_bytes ATTR_HDR_LEN_def nl_align_def)

text \<open>
  Whatever of nl80211 the engine calls, the bytes it sends are read by the kernel as that call.
\<close>

lemma call_read_back:
  assumes "call_request fam seq k = Some msg" "call_fits k"
  shows "read_call msg = Some (sent_call k)"
proof (cases k)
  case (K_TriggerScan i)
  then show ?thesis using assms
    by (auto simp: call_request_def msg_trigger_scan_wire read_attrs attr_fits_def ATTR_HDR_LEN_def
        kernel_call_def kernel_call_attrs kv_simps
        sent_call_def cmd_consts)
next
  case (K_Connect i req)
  then have f: "connect_fits req" using assms(2) by simp
  show ?thesis using assms(1) K_Connect
    by (auto simp: call_request_def msg_connect_wire read_attrs connect_attrs_fit[OF f] kernel_call_def
        kernel_call_attrs ifindex_connect kernel_connect_attrs sent_call_def cmd_consts)
next
  case (K_Associate i req)
  then have f: "connect_fits req" using assms(2) by simp
  show ?thesis using assms(1) K_Associate
    by (auto simp: call_request_def msg_associate_wire read_attrs connect_attrs_fit[OF f] kernel_call_def
        kernel_call_attrs ifindex_connect kernel_associate_attrs sent_call_def cmd_consts)
next
  case (K_Authenticate i req)
  then show ?thesis using assms
    by (auto simp: call_request_def msg_wires read_attrs attr_fits_def ATTR_HDR_LEN_def authenticate_attrs_def
        kernel_call_def kernel_call_attrs kernel_auth_def kv_simps sent_call_def cmd_consts)
next
  case (K_Disconnect i reason)
  then show ?thesis using assms
    by (auto simp: call_request_def msg_wires read_attrs attr_fits_def ATTR_HDR_LEN_def kernel_call_def
        kernel_call_attrs kv_simps nla_find_of_Cons sent_call_def cmd_consts)
next
  case (K_NewPairwiseKey i peer cipher key)
  then show ?thesis using assms
    by (auto simp: call_request_def msg_wires read_attrs attr_fits_def ATTR_HDR_LEN_def pairwise_key_attrs_def
        kernel_call_def kernel_call_attrs kernel_new_key_def kv_simps nla_find_of_Cons sent_call_def cmd_consts)
next
  case (K_NewGroupKey i idx cipher key rsc)
  then show ?thesis using assms
    by (auto simp: call_request_def msg_wires read_attrs attr_fits_def ATTR_HDR_LEN_def group_key_attrs_def
        kernel_call_def kernel_call_attrs kernel_new_key_def kv_simps nla_find_of_Cons sent_call_def cmd_consts
        value_consts)
next
  case (K_SetDefaultKey i idx)
  then show ?thesis using assms
    by (auto simp: call_request_def msg_set_default_key_wire read_attrs attr_fits_def ATTR_HDR_LEN_def
        kernel_call_def kernel_call_attrs kv_simps
        nla_find_of_Cons sent_call_def cmd_consts)
next
  case (K_SetPowerSave i enabled)
  then show ?thesis using assms
    by (auto simp: call_request_def msg_wires read_attrs attr_fits_def ATTR_HDR_LEN_def kernel_call_def
        kernel_call_attrs kv_simps sent_call_def cmd_consts value_consts)
qed (use assms in \<open>simp_all add: call_request_def\<close>)

section \<open>The scan cache is read whole\<close>

text \<open>A part of a scan dump that carries one entry of the cache, among anything else.\<close>

definition describes :: "nl_message \<Rightarrow> scan_entry \<Rightarrow> bool" where
  "describes m e \<longleftrightarrow>
     nl_part m \<and> length (sn_bssid e) = 6 \<and>
     (\<exists>cmd v as bs. nm_payload m = genlmsghdr cmd v @ attrs_bytes as \<and> list_all attr_fits as \<and>
        nla_find NL80211_ATTR_BSS (map nla_of as) =
          Some \<lparr>at_kind = NL80211_ATTR_BSS, at_payload = attrs_bytes bs\<rparr> \<and>
        list_all attr_fits bs \<and>
        mset (filter (\<lambda>a. at_kind a \<in> BSS_ATTRS) (map nla_of bs)) = mset (scan_attrs e))"

lemma scan_handler_describes: "describes m e \<Longrightarrow> scan_handler m out = out @ [entry_bss e]"
  by (auto simp: describes_def scan_handler_def nlas_of_body_bytes bss_parse_entry)

lemma scan_handler_fold:
  "list_all2 describes ms es \<Longrightarrow> fold scan_handler ms out = out @ map entry_bss es"
  by (induction arbitrary: out rule: list_all2_induct) (simp_all add: scan_handler_describes)

lemma describes_parts: "list_all2 describes ms es \<Longrightarrow> list_all nl_part ms"
  by (induction rule: list_all2_induct) (simp_all add: describes_def)

lemma msg_get_scan_wire:
  "msg_get_scan fam seq ifindex =
     nl_wire (nl_built fam (NLM_F_REQUEST OR NLM_F_DUMP) seq (genlmsghdr NL80211_CMD_GET_SCAN 0)
       [(NL80211_ATTR_IFINDEX, u32_le ifindex)])"
  unfolding msg_get_scan_def nlmsg_attr_u32_def nlmsg_header_new nlmsg_new_attr nl_built_wire[symmetric]
  by simp

lemma scan_results_dump:
  assumes "list_all (list_all nl_wf) mss"
    and "filter (nl_of_exchange (so_seq (nh_sock h) + 1)) (concat mss) = ms @ [end]"
    and "list_all2 describes ms es" and "nm_kind end = NLMSG_DONE"
    and "sent = length (msg_get_scan (nf_id (nh_family h)) (so_seq (nh_sock h) + 1) ifindex)"
  shows "fst (nl80211_scan_results (Inr sent, map nl_datagram mss @ rs) ifindex h) =
     Some (Inr (map entry_bss es))"
  using nl_request_dump[OF assms(1,2) describes_parts[OF assms(3)] assms(4) msg_get_scan_wire,
      where rs = rs and f = scan_handler and a = "[]"]
  by (simp add: nl80211_scan_results_def next_seq_def Let_def assms(5) scan_handler_fold[OF assms(3)])

section \<open>A radio described in pieces\<close>

text \<open>
  After any sequence of chunks there is one radio per index, and it has a capability exactly when one of
  its chunks said so, in whatever order and however often they came.
\<close>

definition chunk_feature :: "wiphy_chunk \<Rightarrow> u32 \<Rightarrow> bool" where
  "chunk_feature c i = (case wc_features c of None \<Rightarrow> False | Some f \<Rightarrow> ext_feature f i)"

lemma merge_into_fields [simp]:
  "nw_index (merge_into c w) = nw_index w"
  "nw_supports_ap (merge_into c w) \<longleftrightarrow> nw_supports_ap w \<or> wc_supports_ap c"
  "nw_offloads_4way_psk (merge_into c w) \<longleftrightarrow>
     nw_offloads_4way_psk w \<or> chunk_feature c NL80211_EXT_FEATURE_4WAY_HANDSHAKE_STA_PSK"
  "nw_offloads_4way_1x (merge_into c w) \<longleftrightarrow>
     nw_offloads_4way_1x w \<or> chunk_feature c NL80211_EXT_FEATURE_4WAY_HANDSHAKE_STA_1X"
  "nw_offloads_sae (merge_into c w) \<longleftrightarrow>
     nw_offloads_sae w \<or> chunk_feature c NL80211_EXT_FEATURE_SAE_OFFLOAD"
  by (simp_all add: merge_into_def Let_def chunk_feature_def split: option.split)

lemma into_wiphy_index [simp]: "nw_index (into_wiphy c) = wc_index c"
  by (simp add: into_wiphy_def)

lemma wiphy_put_indices:
  "map nw_index (wiphy_put c ws) =
     (if wc_index c \<in> nw_index ` set ws then map nw_index ws else map nw_index ws @ [wc_index c])"
  by (induction ws) auto

lemma wiphy_put_distinct: "distinct (map nw_index ws) \<Longrightarrow> distinct (map nw_index (wiphy_put c ws))"
  by (auto simp: wiphy_put_indices)

text \<open>A property that chunks only add to.\<close>

lemma wiphy_put_flag:
  assumes "\<And>c w. flag (merge_into c w) \<longleftrightarrow> flag w \<or> says c"
    and "\<And>c. flag (into_wiphy c) \<longleftrightarrow> says c"
    and "distinct (map nw_index ws)"
  shows "(\<exists>w\<in>set (wiphy_put c ws). nw_index w = i \<and> flag w) \<longleftrightarrow>
     (\<exists>w\<in>set ws. nw_index w = i \<and> flag w) \<or> wc_index c = i \<and> says c"
  using assms(3) by (induction ws) (auto simp: assms(1,2))

lemma wiphy_fold_flag:
  assumes m: "\<And>c w. flag (merge_into c w) \<longleftrightarrow> flag w \<or> says c"
    and i: "\<And>c. flag (into_wiphy c) \<longleftrightarrow> says c"
  shows "distinct (map nw_index (fold wiphy_put cs [])) \<and>
     nw_index ` set (fold wiphy_put cs []) = wc_index ` set cs \<and>
     (\<forall>i. (\<exists>w\<in>set (fold wiphy_put cs []). nw_index w = i \<and> flag w) \<longleftrightarrow>
        (\<exists>c\<in>set cs. wc_index c = i \<and> says c))"
proof (induction cs rule: rev_induct)
  case (snoc c cs)
  let ?ws = "fold wiphy_put cs []"
  have "nw_index ` set (wiphy_put c ?ws) = set (map nw_index (wiphy_put c ?ws))" by simp
  also have "\<dots> = insert (wc_index c) (nw_index ` set ?ws)" by (auto simp: wiphy_put_indices)
  finally have "nw_index ` set (wiphy_put c ?ws) = insert (wc_index c) (wc_index ` set cs)" using snoc by simp
  moreover have "(\<exists>w\<in>set (wiphy_put c ?ws). nw_index w = i \<and> flag w) \<longleftrightarrow>
      (\<exists>c\<in>set cs. wc_index c = i \<and> says c) \<or> wc_index c = i \<and> says c" for i
    using wiphy_put_flag[of flag says ?ws c i, OF m i] snoc by simp
  ultimately show ?case using snoc wiphy_put_distinct[of ?ws c] by auto
qed simp

lemma into_wiphy_flags [simp]:
  "nw_supports_ap (into_wiphy c) \<longleftrightarrow> wc_supports_ap c"
  "nw_offloads_4way_psk (into_wiphy c) \<longleftrightarrow> chunk_feature c NL80211_EXT_FEATURE_4WAY_HANDSHAKE_STA_PSK"
  "nw_offloads_4way_1x (into_wiphy c) \<longleftrightarrow> chunk_feature c NL80211_EXT_FEATURE_4WAY_HANDSHAKE_STA_1X"
  "nw_offloads_sae (into_wiphy c) \<longleftrightarrow> chunk_feature c NL80211_EXT_FEATURE_SAE_OFFLOAD"
  by (simp_all add: into_wiphy_def)

lemma wiphy_flag_of:
  assumes m: "\<And>c w. flag (merge_into c w) \<longleftrightarrow> flag w \<or> says c"
    and i: "\<And>c. flag (into_wiphy c) \<longleftrightarrow> says c"
    and w: "w \<in> set (fold wiphy_put cs [])"
  shows "flag w \<longleftrightarrow> (\<exists>c\<in>set cs. wc_index c = nw_index w \<and> says c)"
proof -
  have d: "distinct (map nw_index (fold wiphy_put cs []))"
    and iff: "(\<exists>w'\<in>set (fold wiphy_put cs []). nw_index w' = nw_index w \<and> flag w') \<longleftrightarrow>
      (\<exists>c\<in>set cs. wc_index c = nw_index w \<and> says c)"
    using wiphy_fold_flag[of flag says cs, OF m i] by auto
  have "w' = w" if "w' \<in> set (fold wiphy_put cs [])" "nw_index w' = nw_index w" for w'
    using d w that by (auto simp: distinct_map inj_on_def)
  then show ?thesis using iff w by auto
qed

definition dump_chunks :: "nl_message list \<Rightarrow> wiphy_chunk list" where
  "dump_chunks ms = List.map_filter (\<lambda>m. wiphy_chunk_parse (nm_payload m)) ms"

lemma wiphys_handler_fold: "fold wiphys_handler ms out = fold wiphy_put (dump_chunks ms) out"
  by (induction ms arbitrary: out)
    (simp_all add: dump_chunks_def map_filter_simps wiphys_handler_def split: option.split)

lemma msg_get_wiphy_wire:
  "msg_get_wiphy fam seq =
     nl_wire (nl_built fam (NLM_F_REQUEST OR NLM_F_DUMP) seq (genlmsghdr NL80211_CMD_GET_WIPHY 0)
       [(NL80211_ATTR_SPLIT_WIPHY_DUMP, [])])"
  unfolding msg_get_wiphy_def nlmsg_header_new nlmsg_new_attr nl_built_wire[symmetric] by simp

lemma wiphys_dump:
  assumes "list_all (list_all nl_wf) mss"
    and "filter (nl_of_exchange (so_seq (nh_sock h) + 1)) (concat mss) = ms @ [end]"
    and "list_all nl_part ms" and "nm_kind end = NLMSG_DONE"
    and "sent = length (msg_get_wiphy (nf_id (nh_family h)) (so_seq (nh_sock h) + 1))"
  shows "fst (nl80211_wiphys (Inr sent, map nl_datagram mss @ rs) h) =
     Some (Inr (sort_key nw_index (fold wiphy_put (dump_chunks ms) [])))"
  using nl_request_dump[OF assms(1-4) msg_get_wiphy_wire,
      where rs = rs and f = wiphys_handler and a = "[]"]
  by (simp add: nl80211_wiphys_def next_seq_def Let_def assms(5) wiphys_handler_fold)

section \<open>Resolving the family and subscribing\<close>

text \<open>The controller's answer: the family's id, and its groups by name and number.\<close>

definition group_attr :: "bytes \<times> u32 \<Rightarrow> u16 \<times> bytes" where
  "group_attr g =
     (0, attrs_bytes [(CTRL_ATTR_MCAST_GRP_NAME, fst g @ [0]), (CTRL_ATTR_MCAST_GRP_ID, u32_le (snd g))])"

definition family_attrs :: "u16 \<Rightarrow> (bytes \<times> u32) list \<Rightarrow> nl_attr list" where
  "family_attrs i gs =
     [\<lparr>at_kind = CTRL_ATTR_FAMILY_ID, at_payload = u16_le i\<rparr>,
      \<lparr>at_kind = CTRL_ATTR_MCAST_GROUPS, at_payload = attrs_bytes (map group_attr gs)\<rparr>]"

definition mcast_ok :: "bytes \<times> u32 \<Rightarrow> bool" where
  "mcast_ok g \<longleftrightarrow> 0 \<notin> set (fst g) \<and> utf8_valid (fst g) \<and> length (fst g) < 100"

definition groups_of :: "(bytes \<times> u32) list \<Rightarrow> nl_groups" where
  "groups_of gs =
     \<lparr>gr_scan = map_of (rev gs) (ascii ''scan''), gr_mlme = map_of (rev gs) (ascii ''mlme''),
      gr_config = map_of (rev gs) (ascii ''config'')\<rparr>"

lemma attr_str_bytes: "0 \<notin> set s \<Longrightarrow> utf8_valid s \<Longrightarrow> attr_str \<lparr>at_kind = k, at_payload = s @ [0]\<rparr> = Some s"
proof -
  assume "0 \<notin> set s" "utf8_valid s"
  moreover from this have "takeWhile (\<lambda>b. b \<noteq> 0) (s @ [0]) = s"
    by (subst takeWhile_append2) auto
  ultimately show ?thesis by (simp add: attr_str_def)
qed

lemma family_group_attr:
  assumes "mcast_ok g"
  shows "family_group (nla_of (group_attr g)) G =
     (if fst g = ascii ''scan'' then G\<lparr>gr_scan := Some (snd g)\<rparr>
      else if fst g = ascii ''mlme'' then G\<lparr>gr_mlme := Some (snd g)\<rparr>
      else if fst g = ascii ''config'' then G\<lparr>gr_config := Some (snd g)\<rparr>
      else G)"
proof -
  have "nlas (attrs_bytes [(CTRL_ATTR_MCAST_GRP_NAME, fst g @ [0]), (CTRL_ATTR_MCAST_GRP_ID, u32_le (snd g))]) =
      [\<lparr>at_kind = CTRL_ATTR_MCAST_GRP_NAME, at_payload = fst g @ [0]\<rparr>,
       \<lparr>at_kind = CTRL_ATTR_MCAST_GRP_ID, at_payload = u32_le (snd g)\<rparr>]"
    using assms by (subst nlas_bytes) (simp_all add: mcast_ok_def attr_fits_def ATTR_HDR_LEN_def nla_of_def
        NLA_TYPE_MASK_eq CTRL_ATTR_MCAST_GRP_NAME_def CTRL_ATTR_MCAST_GRP_ID_def)
  then show ?thesis
    using assms by (simp add: family_group_def nla_of_def group_attr_def group_field_def mcast_ok_def
        attr_str_bytes CTRL_ATTR_MCAST_GRP_NAME_def CTRL_ATTR_MCAST_GRP_ID_def)
qed

lemma groups_of_fold:
  "list_all mcast_ok gs \<Longrightarrow>
     fold family_group (map (nla_of \<circ> group_attr) gs) \<lparr>gr_scan = None, gr_mlme = None, gr_config = None\<rparr> =
       groups_of gs"
proof (induction gs rule: rev_induct)
  case (snoc g gs)
  have "family_group (nla_of (group_attr g)) (groups_of gs) = groups_of (gs @ [g])"
    using snoc.prems by (auto simp: family_group_attr groups_of_def ascii_def)
  then show ?case using snoc by simp
qed (simp add: groups_of_def)

lemma group_attr_length: "mcast_ok g \<Longrightarrow> length (snd (group_attr g)) < 200"
  using nl_align_less[of "ATTR_HDR_LEN + Suc (length (fst g))"]
  by (simp add: group_attr_def attrs_bytes_def length_attr_bytes mcast_ok_def ATTR_HDR_LEN_def)
    (simp add: nl_align_def)

lemma family_parse_reply:
  assumes fits: "list_all attr_fits as"
    and own: "filter (\<lambda>a. at_kind a \<in> {CTRL_ATTR_FAMILY_ID, CTRL_ATTR_MCAST_GROUPS}) (map nla_of as) =
      family_attrs i gs"
    and gs: "list_all mcast_ok gs"
  shows "family_parse (genlmsghdr cmd v @ attrs_bytes as) = Some \<lparr>nf_id = i, nf_groups = groups_of gs\<rparr>"
proof -
  have skip: "fold family_field bs f =
      fold family_field (filter (\<lambda>a. at_kind a \<in> {CTRL_ATTR_FAMILY_ID, CTRL_ATTR_MCAST_GROUPS}) bs) f" for bs f
    by (induction bs arbitrary: f) (auto simp: family_field_def)
  have "list_all attr_fits (map group_attr gs)"
    using gs group_attr_length by (fastforce simp: list_all_iff attr_fits_def ATTR_HDR_LEN_def)
  then have "nlas (attrs_bytes (map group_attr gs)) = map (nla_of \<circ> group_attr) gs"
    by (simp add: nlas_bytes)
  moreover have "fold family_field (map nla_of as) f = fold family_field (family_attrs i gs) f" for f
    by (subst skip) (simp only: own)
  ultimately show ?thesis
    using groups_of_fold[OF gs]
    by (simp add: family_parse_def nlas_of_body_bytes[OF fits] family_attrs_def
        family_field_def CTRL_ATTR_FAMILY_ID_def CTRL_ATTR_MCAST_GROUPS_def)
qed

section \<open>Notifications are read in order\<close>

lemma nl_notifications_wire:
  "list_all nl_wf ms \<Longrightarrow>
     nl_notifications decode (concat (map nl_wire ms)) =
       List.map_filter (\<lambda>m. decode (nm_kind m) (nm_payload m)) ms"
proof (induction ms)
  case Nil
  then show ?case by (simp add: nl_notifications.simps NL_HDR_LEN_def map_filter_simps)
next
  case (Cons m ms)
  have wf: "nl_wf m" using Cons.prems by simp
  let ?bs = "nl_wire m @ concat (map nl_wire ms)"
  note p = nlmsg_parse_InrD[OF nl_wire_parse(1)[OF wf, of "concat (map nl_wire ms)"]]
  have d: "drop (min (nl_align (unat (nm_len m))) (length ?bs)) ?bs = concat (map nl_wire ms)"
    by (rule nl_wire_parse(2)[OF wf])
  have IH: "nl_notifications decode (concat (map nl_wire ms)) =
      List.map_filter (\<lambda>m. decode (nm_kind m) (nm_payload m)) ms"
    using Cons by simp
  have "nl_notifications decode ?bs =
      (case decode (nm_kind m) (nm_payload m) of None \<Rightarrow> [] | Some e \<Rightarrow> [e]) @
      nl_notifications decode (concat (map nl_wire ms))"
    by (subst nl_notifications.simps) (simp only: p d Let_def if_False not_less simp_thms)
  then show ?case
    by (simp add: IH map_filter_simps split: option.split)
qed

text \<open>
  Draining the socket gives the events of the datagrams that arrived whole, in order; a truncated one
  is lost by itself.
\<close>

definition nl_cut :: "received \<Rightarrow> bool" where
  "nl_cut r \<longleftrightarrow> (case r of Inl _ \<Rightarrow> False | Inr (buf, actual) \<Rightarrow> length buf < actual)"

lemma events_read_datagrams:
  assumes "list_all (\<lambda>r. nl_cut r \<or> (\<exists>ms. r = nl_datagram ms \<and> list_all nl_wf ms)) rs"
  shows "events_read fam (rs @ Inl ERRNO_AGAIN # rest) out =
     Some (Inr (out @ concat (map (\<lambda>r. case r of Inl _ \<Rightarrow> [] | Inr (buf, _) \<Rightarrow>
        if nl_cut r then [] else nl_notifications (family_event fam) buf) rs)))"
  using assms
proof (induction rs arbitrary: out)
  case (Cons r rs)
  then show ?case by (cases r) (auto simp: nl_cut_def nl_datagram_def Let_def)
qed simp

lemma events_read_all:
  assumes "list_all (list_all nl_wf) mss"
  shows "events_read fam (map nl_datagram mss @ Inl ERRNO_AGAIN # rest) [] =
     Some (Inr (List.map_filter (\<lambda>m. family_event fam (nm_kind m) (nm_payload m)) (concat mss)))"
proof -
  have c: "concat (map (\<lambda>r. case r of Inl _ \<Rightarrow> [] | Inr (buf, _) \<Rightarrow>
        if nl_cut r then [] else nl_notifications (family_event fam) buf) (map nl_datagram mss)) =
      List.map_filter (\<lambda>m. family_event fam (nm_kind m) (nm_payload m)) (concat mss)"
    using assms
    by (induction mss)
      (simp_all add: nl_datagram_def nl_cut_def Let_def nl_notifications_wire map_filter_def)
  have "list_all (\<lambda>r. nl_cut r \<or> (\<exists>ms. r = nl_datagram ms \<and> list_all nl_wf ms)) (map nl_datagram mss)"
    using assms by (auto simp: list_all_iff)
  from events_read_datagrams[OF this, of fam rest "[]"] show ?thesis unfolding c by simp
qed

end
