(* ===== verification/Rtnl.thy ===== *)
theory Rtnl
  imports Nl80211_Sock
begin

text \<open>
  rtnetlink: the links, addresses and routes of \<^verbatim>\<open>src/crates/caw-rtnl/src/lib.rs\<close>, and the link
  notifications of \<^verbatim>\<open>src/crates/cawd/src/links.rs\<close>.

  Whether an interface has a \<^verbatim>\<open>phy80211\<close> node in sysfs is an argument, a predicate on names. An IPv4
  address is its 32 bits, most significant octet first.
\<close>

section \<open>Constants\<close>

definition RTM_NEWLINK :: u16 where "RTM_NEWLINK = 16"
definition RTM_DELLINK :: u16 where "RTM_DELLINK = 17"
definition RTM_GETLINK :: u16 where "RTM_GETLINK = 18"
definition RTM_NEWADDR :: u16 where "RTM_NEWADDR = 20"
definition RTM_DELADDR :: u16 where "RTM_DELADDR = 21"
definition RTM_GETADDR :: u16 where "RTM_GETADDR = 22"
definition RTM_NEWROUTE :: u16 where "RTM_NEWROUTE = 24"
definition RTM_DELROUTE :: u16 where "RTM_DELROUTE = 25"

definition IFINFOMSG_LEN :: nat where "IFINFOMSG_LEN = 16"
definition IFADDRMSG_LEN :: nat where "IFADDRMSG_LEN = 8"
definition RTMSG_LEN :: nat where "RTMSG_LEN = 12"

definition IFLA_ADDRESS :: u16 where "IFLA_ADDRESS = 1"
definition IFLA_IFNAME :: u16 where "IFLA_IFNAME = 3"
definition IFLA_MTU :: u16 where "IFLA_MTU = 4"
definition IFLA_OPERSTATE :: u16 where "IFLA_OPERSTATE = 16"

definition IFA_ADDRESS :: u16 where "IFA_ADDRESS = 1"
definition IFA_LOCAL :: u16 where "IFA_LOCAL = 2"
definition IFA_BROADCAST :: u16 where "IFA_BROADCAST = 4"

definition RTA_DST :: u16 where "RTA_DST = 1"
definition RTA_OIF :: u16 where "RTA_OIF = 4"
definition RTA_GATEWAY :: u16 where "RTA_GATEWAY = 5"
definition RTA_PRIORITY :: u16 where "RTA_PRIORITY = 6"

definition DHCP_PROBE_METRIC :: u32 where "DHCP_PROBE_METRIC = 0x00FFFFFF"

definition RT_TABLE_MAIN :: u8 where "RT_TABLE_MAIN = 254"
definition RTPROT_BOOT :: u8 where "RTPROT_BOOT = 3"
definition RT_SCOPE_UNIVERSE :: u8 where "RT_SCOPE_UNIVERSE = 0"
definition RT_SCOPE_LINK :: u8 where "RT_SCOPE_LINK = 253"
definition RTN_UNICAST :: u8 where "RTN_UNICAST = 1"

definition IFF_UP :: u32 where "IFF_UP = 0x1"
definition IFF_LOOPBACK :: u32 where "IFF_LOOPBACK = 0x8"
definition IFF_RUNNING :: u32 where "IFF_RUNNING = 0x40"
definition IFF_LOWER_UP :: u32 where "IFF_LOWER_UP = 0x10000"

definition AF_UNSPEC :: u8 where "AF_UNSPEC = 0"
definition AF_INET :: u8 where "AF_INET = 2"
definition AF_INET6 :: u8 where "AF_INET6 = 10"

definition ESRCH :: u32 where "ESRCH = 3"

section \<open>Links and addresses\<close>

datatype oper_state = Os_Unknown | Os_NotPresent | Os_Down | Os_LowerLayerDown | Os_Testing | Os_Dormant | Os_Up

definition oper_from_raw :: "u8 \<Rightarrow> oper_state" where
  "oper_from_raw v =
     (if v = 1 then Os_NotPresent else if v = 2 then Os_Down else if v = 3 then Os_LowerLayerDown
      else if v = 4 then Os_Testing else if v = 5 then Os_Dormant else if v = 6 then Os_Up else Os_Unknown)"

primrec oper_str :: "oper_state \<Rightarrow> string" where
  "oper_str Os_Unknown = ''unknown''"
| "oper_str Os_NotPresent = ''not-present''"
| "oper_str Os_Down = ''down''"
| "oper_str Os_LowerLayerDown = ''no-carrier''"
| "oper_str Os_Testing = ''testing''"
| "oper_str Os_Dormant = ''dormant''"
| "oper_str Os_Up = ''up''"

datatype port_kind = Pk_Loopback | Pk_Ethernet | Pk_Wireless

primrec port_kind_str :: "port_kind \<Rightarrow> string" where
  "port_kind_str Pk_Loopback = ''loopback''"
| "port_kind_str Pk_Ethernet = ''ethernet''"
| "port_kind_str Pk_Wireless = ''wireless''"

record rt_link =
  rl_index :: u32
  rl_name :: bytes
  rl_mac :: "bytes option"
  rl_mtu :: u32
  rl_flags :: u32
  rl_oper :: oper_state
  rl_kind :: port_kind

definition link_is_up :: "rt_link \<Rightarrow> bool" where
  "link_is_up l \<longleftrightarrow> rl_flags l AND IFF_UP \<noteq> 0"

definition link_has_carrier :: "rt_link \<Rightarrow> bool" where
  "link_has_carrier l \<longleftrightarrow> rl_flags l AND IFF_LOWER_UP \<noteq> 0 \<or> rl_flags l AND IFF_RUNNING \<noteq> 0"

definition port_classify :: "(bytes \<Rightarrow> bool) \<Rightarrow> bytes \<Rightarrow> u32 \<Rightarrow> port_kind" where
  "port_classify phy name flags =
     (if flags AND IFF_LOOPBACK \<noteq> 0 then Pk_Loopback else if phy name then Pk_Wireless else Pk_Ethernet)"

record link_fields =
  lf_name :: bytes
  lf_mac :: "bytes option"
  lf_mtu :: u32
  lf_oper :: oper_state

definition link_field :: "nl_attr \<Rightarrow> link_fields \<Rightarrow> link_fields" where
  "link_field a f =
     (if at_kind a = IFLA_IFNAME then f\<lparr>lf_name := (case attr_str a of None \<Rightarrow> [] | Some s \<Rightarrow> s)\<rparr>
      else if at_kind a = IFLA_MTU then f\<lparr>lf_mtu := (case attr_u32 a of None \<Rightarrow> 0 | Some v \<Rightarrow> v)\<rparr>
      else if at_kind a = IFLA_OPERSTATE then
        f\<lparr>lf_oper := oper_from_raw (case attr_u8 a of None \<Rightarrow> 0 | Some v \<Rightarrow> v)\<rparr>
      else if at_kind a = IFLA_ADDRESS \<and> length (at_payload a) = 6 then f\<lparr>lf_mac := Some (at_payload a)\<rparr>
      else f)"

definition links_handler ::
  "(bytes \<Rightarrow> bool) \<Rightarrow> nl_message \<Rightarrow> rt_link list \<Rightarrow> nl_error + rt_link list" where
  "links_handler phy msg links =
     (let body = nm_payload msg in
      if length body < IFINFOMSG_LEN then Inl Ne_Truncated
      else
        (let index = ne32 (drop 4 body); flags = ne32 (drop 8 body);
             f = fold link_field (nlmsg_attrs IFINFOMSG_LEN msg)
                   \<lparr>lf_name = [], lf_mac = None, lf_mtu = 0, lf_oper = Os_Unknown\<rparr>
         in Inr (links @ [\<lparr>rl_index = index, rl_name = lf_name f, rl_mac = lf_mac f, rl_mtu = lf_mtu f,
                           rl_flags = flags, rl_oper = lf_oper f,
                           rl_kind = port_classify phy (lf_name f) flags\<rparr>])))"

definition ifinfomsg :: "u8 \<Rightarrow> u32 \<Rightarrow> u32 \<Rightarrow> u32 \<Rightarrow> bytes" where
  "ifinfomsg family index flags change =
     [family, 0, 0, 0] @ u32_le index @ u32_le flags @ u32_le change"

definition ifaddrmsg :: "u8 \<Rightarrow> u8 \<Rightarrow> u32 \<Rightarrow> bytes" where
  "ifaddrmsg family prefix_len index = [family, prefix_len, 0, 0] @ u32_le index"

definition rtmsg :: "u8 \<Rightarrow> u8 \<Rightarrow> u8 \<Rightarrow> bytes" where
  "rtmsg family dst_len scope =
     [family, dst_len, 0, 0, RT_TABLE_MAIN, RTPROT_BOOT, scope, RTN_UNICAST, 0, 0, 0, 0]"

definition msg_get_links :: "u32 \<Rightarrow> bytes" where
  "msg_get_links seq =
     nlmsg_finish (nlmsg_header (ifinfomsg AF_UNSPEC 0 0 0)
       (nlmsg_new RTM_GETLINK (NLM_F_REQUEST OR NLM_F_DUMP) seq))"

definition rtnl_links ::
  "(bytes \<Rightarrow> bool) \<Rightarrow> nl_io \<Rightarrow> nl_socket \<Rightarrow> (nl_error + rt_link list) option \<times> nl_socket" where
  "rtnl_links phy io s =
     (let (seq, s) = next_seq s
      in (map_option (map_sum id (sort_key rl_index))
            (nl_request (fst io) (snd io) (msg_get_links seq) (links_handler phy) []), s))"

definition parse_ip :: "u8 \<Rightarrow> bytes \<Rightarrow> ip_addr option" where
  "parse_ip family bs =
     (if family = AF_INET \<and> length bs = 4 then Some (Ip_V4 (from_be32 (bs ! 0) (bs ! 1) (bs ! 2) (bs ! 3)))
      else if family = AF_INET6 \<and> length bs = 16 then Some (Ip_V6 bs)
      else None)"

definition address_field ::
  "u8 \<Rightarrow> nl_attr \<Rightarrow> ip_addr option \<times> ip_addr option \<Rightarrow> ip_addr option \<times> ip_addr option" where
  "address_field family a la =
     (if at_kind a = IFA_LOCAL then (parse_ip family (at_payload a), snd la)
      else if at_kind a = IFA_ADDRESS then (fst la, parse_ip family (at_payload a))
      else la)"

definition addresses_handler ::
  "nl_message \<Rightarrow> net_address list \<Rightarrow> nl_error + net_address list" where
  "addresses_handler msg out =
     (let body = nm_payload msg in
      if length body < IFADDRMSG_LEN then Inl Ne_Truncated
      else
        (let family = body ! 0; prefix_len = body ! 1; index = ne32 (drop 4 body);
             (loc, addr) = fold (address_field family) (nlmsg_attrs IFADDRMSG_LEN msg) (None, None)
         in case (case loc of Some ip \<Rightarrow> Some ip | None \<Rightarrow> addr) of
              None \<Rightarrow> Inr out
            | Some ip \<Rightarrow> Inr (out @ [\<lparr>nd_index = index, nd_addr = ip, nd_prefix_len = prefix_len\<rparr>])))"

definition msg_get_addresses :: "u32 \<Rightarrow> bytes" where
  "msg_get_addresses seq =
     nlmsg_finish (nlmsg_header [AF_UNSPEC, 0, 0, 0, 0, 0, 0, 0]
       (nlmsg_new RTM_GETADDR (NLM_F_REQUEST OR NLM_F_DUMP) seq))"

definition rtnl_addresses ::
  "nl_io \<Rightarrow> nl_socket \<Rightarrow> (nl_error + net_address list) option \<times> nl_socket" where
  "rtnl_addresses io s =
     (let (seq, s) = next_seq s
      in (nl_request (fst io) (snd io) (msg_get_addresses seq) addresses_handler [], s))"

definition rtnl_link_by_name ::
  "(bytes \<Rightarrow> bool) \<Rightarrow> nl_io \<Rightarrow> bytes \<Rightarrow> nl_socket \<Rightarrow> (nl_error + rt_link option) option \<times> nl_socket" where
  "rtnl_link_by_name phy io name s =
     (case rtnl_links phy io s of
        (res, s) \<Rightarrow> (map_option (map_sum id (find (\<lambda>l. rl_name l = name))) res, s))"

text \<open>\<^verbatim>\<open>format_mac\<close>: the bytes in lower-case hexadecimal, joined by colons.\<close>

definition mac_hex_digit :: "nat \<Rightarrow> char" where
  "mac_hex_digit n = (if n < 10 then char_of (48 + n) else char_of (87 + n))"

definition mac_hex_byte :: "u8 \<Rightarrow> string" where
  "mac_hex_byte b = [mac_hex_digit (unat b div 16), mac_hex_digit (unat b mod 16)]"

primrec join_colon :: "string list \<Rightarrow> string" where
  "join_colon [] = []"
| "join_colon (s # ss) = (if ss = [] then s else s @ '':'' @ join_colon ss)"

definition format_mac :: "bytes \<Rightarrow> string" where
  "format_mac mac = join_colon (map mac_hex_byte mac)"

section \<open>Changing them\<close>

definition rtnl_command ::
  "(u32 \<Rightarrow> bytes) \<Rightarrow> nl_io \<Rightarrow> nl_socket \<Rightarrow> (nl_error + unit) option \<times> nl_socket" where
  "rtnl_command req io s =
     (let (seq, s) = next_seq s in (nl_request (fst io) (snd io) (req seq) (\<lambda>_ u. Inr u) (), s))"

definition msg_set_up :: "u32 \<Rightarrow> bool \<Rightarrow> u32 \<Rightarrow> bytes" where
  "msg_set_up index up seq =
     nlmsg_finish (nlmsg_header (ifinfomsg AF_UNSPEC index (if up then IFF_UP else 0) IFF_UP)
       (nlmsg_new RTM_NEWLINK (NLM_F_REQUEST OR NLM_F_ACK) seq))"

definition hostmask :: "u8 \<Rightarrow> u32" where
  "hostmask prefix_len = (if unat prefix_len < 32 then drop_bit (unat prefix_len) (- 1) else 0)"

definition broadcast_addr :: "ipv4 \<Rightarrow> u8 \<Rightarrow> ipv4" where
  "broadcast_addr addr prefix_len = addr OR hostmask prefix_len"

definition msg_add_address :: "u32 \<Rightarrow> ipv4 \<Rightarrow> u8 \<Rightarrow> u32 \<Rightarrow> bytes" where
  "msg_add_address index addr prefix_len seq =
     nlmsg_finish
       (nlmsg_attr IFA_BROADCAST (u32_be (broadcast_addr addr prefix_len))
         (nlmsg_attr IFA_ADDRESS (u32_be addr)
           (nlmsg_attr IFA_LOCAL (u32_be addr)
             (nlmsg_header (ifaddrmsg AF_INET prefix_len index)
               (nlmsg_new RTM_NEWADDR (NLM_F_REQUEST OR NLM_F_ACK OR NLM_F_CREATE OR NLM_F_REPLACE) seq)))))"

definition msg_del_address :: "u32 \<Rightarrow> ipv4 \<Rightarrow> u8 \<Rightarrow> u32 \<Rightarrow> bytes" where
  "msg_del_address index addr prefix_len seq =
     nlmsg_finish
       (nlmsg_attr IFA_ADDRESS (u32_be addr)
         (nlmsg_attr IFA_LOCAL (u32_be addr)
           (nlmsg_header (ifaddrmsg AF_INET prefix_len index)
             (nlmsg_new RTM_DELADDR (NLM_F_REQUEST OR NLM_F_ACK) seq))))"

definition new_route :: "u8 \<Rightarrow> u8 \<Rightarrow> u32 \<Rightarrow> bytes" where
  "new_route dst_len scope seq =
     nlmsg_header (rtmsg AF_INET dst_len scope)
       (nlmsg_new RTM_NEWROUTE (NLM_F_REQUEST OR NLM_F_ACK OR NLM_F_CREATE OR NLM_F_REPLACE) seq)"

definition msg_add_default_route :: "u32 \<Rightarrow> ipv4 \<Rightarrow> u32 \<Rightarrow> bytes" where
  "msg_add_default_route index gateway seq =
     nlmsg_finish (nlmsg_attr_u32 RTA_OIF index
       (nlmsg_attr RTA_GATEWAY (u32_be gateway) (new_route 0 RT_SCOPE_UNIVERSE seq)))"

definition msg_add_broadcast_route :: "u32 \<Rightarrow> u32 \<Rightarrow> bytes" where
  "msg_add_broadcast_route index seq =
     nlmsg_finish (nlmsg_attr_u32 RTA_OIF index
       (nlmsg_attr RTA_DST (u32_be (- 1)) (new_route 32 RT_SCOPE_LINK seq)))"

definition msg_add_dhcp_probe_route :: "u32 \<Rightarrow> u32 \<Rightarrow> bytes" where
  "msg_add_dhcp_probe_route index seq =
     nlmsg_finish (nlmsg_attr_u32 RTA_PRIORITY DHCP_PROBE_METRIC
       (nlmsg_attr_u32 RTA_OIF index (new_route 0 RT_SCOPE_LINK seq)))"

definition msg_del_dhcp_probe_route :: "u32 \<Rightarrow> u32 \<Rightarrow> bytes" where
  "msg_del_dhcp_probe_route index seq =
     nlmsg_finish (nlmsg_attr_u32 RTA_PRIORITY DHCP_PROBE_METRIC
       (nlmsg_attr_u32 RTA_OIF index
         (nlmsg_header (rtmsg AF_INET 0 RT_SCOPE_LINK)
           (nlmsg_new RTM_DELROUTE (NLM_F_REQUEST OR NLM_F_ACK) seq))))"

definition rtnl_set_up :: "u32 \<Rightarrow> bool \<Rightarrow> nl_io \<Rightarrow> nl_socket \<Rightarrow> (nl_error + unit) option \<times> nl_socket" where
  "rtnl_set_up index up = rtnl_command (msg_set_up index up)"

definition rtnl_add_address :: "u32 \<Rightarrow> ipv4 \<Rightarrow> u8 \<Rightarrow> nl_io \<Rightarrow> nl_socket \<Rightarrow> (nl_error + unit) option \<times> nl_socket" where
  "rtnl_add_address index addr prefix_len = rtnl_command (msg_add_address index addr prefix_len)"

definition rtnl_del_address :: "u32 \<Rightarrow> ipv4 \<Rightarrow> u8 \<Rightarrow> nl_io \<Rightarrow> nl_socket \<Rightarrow> (nl_error + unit) option \<times> nl_socket" where
  "rtnl_del_address index addr prefix_len = rtnl_command (msg_del_address index addr prefix_len)"

definition rtnl_add_default_route :: "u32 \<Rightarrow> ipv4 \<Rightarrow> nl_io \<Rightarrow> nl_socket \<Rightarrow> (nl_error + unit) option \<times> nl_socket" where
  "rtnl_add_default_route index gateway = rtnl_command (msg_add_default_route index gateway)"

definition rtnl_add_broadcast_route :: "u32 \<Rightarrow> nl_io \<Rightarrow> nl_socket \<Rightarrow> (nl_error + unit) option \<times> nl_socket" where
  "rtnl_add_broadcast_route index = rtnl_command (msg_add_broadcast_route index)"

definition rtnl_add_dhcp_probe_route :: "u32 \<Rightarrow> nl_io \<Rightarrow> nl_socket \<Rightarrow> (nl_error + unit) option \<times> nl_socket" where
  "rtnl_add_dhcp_probe_route index = rtnl_command (msg_add_dhcp_probe_route index)"

definition rtnl_del_dhcp_probe_route :: "u32 \<Rightarrow> nl_io \<Rightarrow> nl_socket \<Rightarrow> (nl_error + unit) option \<times> nl_socket" where
  "rtnl_del_dhcp_probe_route index io s =
     (case rtnl_command (msg_del_dhcp_probe_route index) io s of
        (res, s) \<Rightarrow> (if res = Some (Inl (Ne_Kernel ESRCH)) then Some (Inr ()) else res, s))"

section \<open>Link notifications\<close>

definition link_decode :: "u16 \<Rightarrow> bytes \<Rightarrow> link_event option" where
  "link_decode kind payload =
     (if kind = RTM_NEWLINK \<or> kind = RTM_DELLINK then
        (case get_range 0 IFINFOMSG_LEN payload of
           None \<Rightarrow> None
         | Some body \<Rightarrow>
             (let ifindex = ne32 (drop 4 body) in
              if kind = RTM_DELLINK then Some (Lk_Removed ifindex)
              else
                (let flags = ne32 (drop 8 body)
                 in Some (Lk_Changed ifindex (flags AND IFF_UP \<noteq> 0)
                            (flags AND (IFF_LOWER_UP OR IFF_RUNNING) \<noteq> 0)))))
      else if kind = RTM_NEWADDR \<or> kind = RTM_DELADDR then
        (case get_range 0 IFADDRMSG_LEN payload of
           None \<Rightarrow> None
         | Some body \<Rightarrow> Some (Lk_AddressChanged (ne32 (drop 4 body))))
      else None)"

primrec link_events_read :: "received list \<Rightarrow> link_event list \<Rightarrow> link_event list option" where
  "link_events_read [] out = None"
| "link_events_read (r # rs) out =
     (case r of
        Inl e \<Rightarrow> if e = ERRNO_INTR then link_events_read rs out else Some out
      | Inr (buf, actual) \<Rightarrow>
          if length buf < actual then link_events_read rs out
          else link_events_read rs (out @ nl_notifications link_decode buf))"

lemmas rt_consts = RTM_NEWLINK_def RTM_DELLINK_def RTM_GETLINK_def RTM_NEWADDR_def RTM_DELADDR_def
  RTM_GETADDR_def RTM_NEWROUTE_def RTM_DELROUTE_def IFINFOMSG_LEN_def IFADDRMSG_LEN_def RTMSG_LEN_def

lemmas rt_attr_consts = IFLA_ADDRESS_def IFLA_IFNAME_def IFLA_MTU_def IFLA_OPERSTATE_def IFA_ADDRESS_def
  IFA_LOCAL_def IFA_BROADCAST_def RTA_DST_def RTA_OIF_def RTA_GATEWAY_def RTA_PRIORITY_def

section \<open>The directed broadcast address\<close>

lemma hostmask_bit: "unat p \<le> 32 \<Longrightarrow> n < 32 \<Longrightarrow> bit (hostmask p) n \<longleftrightarrow> n < 32 - unat p"
  by (auto simp: hostmask_def bit_simps)

lemma broadcast_addr_bit:
  "unat p \<le> 32 \<Longrightarrow> n < 32 \<Longrightarrow> bit (broadcast_addr a p) n \<longleftrightarrow> n < 32 - unat p \<or> bit a n"
  by (auto simp: broadcast_addr_def bit_or_iff hostmask_bit)

section \<open>A link is read back\<close>

text \<open>What the kernel says of a link, in whatever order and among whatever else.\<close>

definition link_relevant :: "nl_attr \<Rightarrow> bool" where
  "link_relevant a \<longleftrightarrow> at_kind a \<in> {IFLA_IFNAME, IFLA_MTU, IFLA_OPERSTATE} \<or>
     at_kind a = IFLA_ADDRESS \<and> length (at_payload a) = 6"

primrec oper_raw :: "oper_state \<Rightarrow> u8" where
  "oper_raw Os_Unknown = 0"
| "oper_raw Os_NotPresent = 1"
| "oper_raw Os_Down = 2"
| "oper_raw Os_LowerLayerDown = 3"
| "oper_raw Os_Testing = 4"
| "oper_raw Os_Dormant = 5"
| "oper_raw Os_Up = 6"

definition link_attrs :: "rt_link \<Rightarrow> nl_attr list" where
  "link_attrs l =
     [\<lparr>at_kind = IFLA_IFNAME, at_payload = rl_name l @ [0]\<rparr>,
      \<lparr>at_kind = IFLA_MTU, at_payload = u32_le (rl_mtu l)\<rparr>,
      \<lparr>at_kind = IFLA_OPERSTATE, at_payload = [oper_raw (rl_oper l)]\<rparr>] @
     (case rl_mac l of None \<Rightarrow> [] | Some mac \<Rightarrow> [\<lparr>at_kind = IFLA_ADDRESS, at_payload = mac\<rparr>])"

definition describes_link :: "(bytes \<Rightarrow> bool) \<Rightarrow> nl_message \<Rightarrow> rt_link \<Rightarrow> bool" where
  "describes_link phy m l \<longleftrightarrow>
     nl_part m \<and> 0 \<notin> set (rl_name l) \<and> utf8_valid (rl_name l) \<and>
     (case rl_mac l of None \<Rightarrow> True | Some mac \<Rightarrow> length mac = 6) \<and>
     rl_kind l = port_classify phy (rl_name l) (rl_flags l) \<and>
     (\<exists>h change as. length h = 4 \<and>
        nm_payload m = h @ u32_le (rl_index l) @ u32_le (rl_flags l) @ u32_le change @ attrs_bytes as \<and>
        list_all attr_fits as \<and>
        mset (filter link_relevant (map (\<lambda>a. \<lparr>at_kind = fst a, at_payload = snd a\<rparr>) as)) =
          mset (link_attrs l))"

lemma link_field_irrelevant: "\<not> link_relevant a \<Longrightarrow> link_field a f = f"
  by (auto simp: link_relevant_def link_field_def)

lemma link_field_fold_relevant: "fold link_field as f = fold link_field (filter link_relevant as) f"
  by (induction as arbitrary: f) (simp_all add: link_field_irrelevant)

lemma link_field_commute:
  "at_kind a \<noteq> at_kind b \<Longrightarrow> link_field a \<circ> link_field b = link_field b \<circ> link_field a"
proof (rule ext)
  fix f :: link_fields assume "at_kind a \<noteq> at_kind b"
  then show "(link_field a \<circ> link_field b) f = (link_field b \<circ> link_field a) f"
    by (cases f) (auto simp: link_field_def rt_attr_consts)
qed

lemma oper_from_raw_raw [simp]: "oper_from_raw (oper_raw s) = s"
  by (cases s) (simp_all add: oper_from_raw_def)

lemma link_attrs_kinds: "distinct (map at_kind (link_attrs l))"
  by (simp add: link_attrs_def rt_attr_consts split: option.split)

lemma fold_described:
  assumes comm: "\<And>a b. at_kind a \<noteq> at_kind b \<Longrightarrow> g a \<circ> g b = g b \<circ> g a"
    and ms: "mset as = mset ds" and d: "distinct (map at_kind ds)"
  shows "fold g as = fold g ds"
proof (rule fold_multiset_equiv[OF _ ms])
  fix a b assume "a \<in> set as" "b \<in> set as"
  then have ab: "a \<in> set ds" "b \<in> set ds" using mset_eq_setD[OF ms] by simp_all
  show "g a \<circ> g b = g b \<circ> g a"
  proof (cases "a = b")
    case False
    then have "at_kind a \<noteq> at_kind b" using d ab by (auto simp: distinct_map inj_on_def)
    then show ?thesis by (rule comm)
  qed simp
qed

lemma links_handler_describes:
  assumes "describes_link phy m l"
  shows "links_handler phy m out = Inr (out @ [l])"
proof -
  obtain h change as where h: "length h = 4"
    and body: "nm_payload m = h @ u32_le (rl_index l) @ u32_le (rl_flags l) @ u32_le change @ attrs_bytes as"
    and fits: "list_all attr_fits as"
    and ms: "mset (filter link_relevant (map (\<lambda>a. \<lparr>at_kind = fst a, at_payload = snd a\<rparr>) as)) =
      mset (link_attrs l)"
    using assms unfolding describes_link_def by blast
  have name: "attr_str \<lparr>at_kind = IFLA_IFNAME, at_payload = rl_name l @ [0]\<rparr> = Some (rl_name l)"
    using assms by (intro attr_str_bytes) (simp_all add: describes_link_def)
  have mac: "rl_mac l = Some mc \<Longrightarrow> length mc = 6" for mc using assms by (simp add: describes_link_def)
  have attrs: "nlmsg_attrs IFINFOMSG_LEN m = map (\<lambda>a. \<lparr>at_kind = fst a, at_payload = snd a\<rparr>) as"
    by (simp add: nlmsg_attrs_def body h IFINFOMSG_LEN_def nl_align_def nlattrs_bytes[OF fits])
  have f: "fold link_field (nlmsg_attrs IFINFOMSG_LEN m) f0 = fold link_field (link_attrs l) f0" for f0
    unfolding attrs by (subst link_field_fold_relevant)
      (simp add: fold_described[OF link_field_commute ms link_attrs_kinds])
  have "fold link_field (link_attrs l) \<lparr>lf_name = [], lf_mac = None, lf_mtu = 0, lf_oper = Os_Unknown\<rparr> =
      \<lparr>lf_name = rl_name l, lf_mac = rl_mac l, lf_mtu = rl_mtu l, lf_oper = rl_oper l\<rparr>"
    using name mac
    by (cases "rl_mac l") (simp_all add: link_attrs_def link_field_def rt_attr_consts attr_u8_def slice_first_def)
  then show ?thesis
    using assms h
    by (simp add: links_handler_def f Let_def) (simp add: body IFINFOMSG_LEN_def describes_link_def)
qed

lemma links_fold:
  "list_all2 (describes_link phy) ms ls \<Longrightarrow>
     nl_replies (links_handler phy) (ms @ ms') out = nl_replies (links_handler phy) ms' (out @ ls)"
proof (induction arbitrary: out rule: list_all2_induct)
  case (Cons m ms l ls)
  have "nl_part m" using Cons(1) by (simp add: describes_link_def)
  then show ?case
    using Cons by (auto simp: links_handler_describes nl_part_def)
qed simp

lemma msg_get_links_wire:
  "msg_get_links seq =
     nl_wire (nl_built RTM_GETLINK (NLM_F_REQUEST OR NLM_F_DUMP) seq (ifinfomsg AF_UNSPEC 0 0 0) [])"
  by (simp add: msg_get_links_def nlmsg_header_new nl_built_wire)

lemma links_dump:
  assumes wf: "list_all (list_all nl_wf) mss"
    and own: "filter (nl_of_exchange (so_seq s + 1)) (concat mss) = ms @ [end]"
    and ls: "list_all2 (describes_link phy) ms ls" and last: "nm_kind end = NLMSG_DONE"
    and sent: "sent = length (msg_get_links (so_seq s + 1))"
  shows "fst (rtnl_links phy (Inr sent, map nl_datagram mss @ rs) s) = Some (Inr (sort_key rl_index ls))"
proof -
  have "nl_exchange (so_seq s + 1) (links_handler phy) (map nl_datagram mss @ rs) [] = Some (Inr ls)"
    by (simp add: nl_exchange_datagrams[OF wf] own links_fold[OF ls] last)
  then show ?thesis
    by (simp add: rtnl_links_def next_seq_def Let_def sent nl_request_def nl_send_def msg_get_links_wire
        nl_built_seq)
qed

section \<open>The kernel reads back what was asked\<close>

text \<open>
  The kernel's side of a change: the call a request stands for. A flag of a link is touched only where
  the change mask says so, and an address is added with the broadcast address given for it.
\<close>

definition rt_ip :: "u16 \<Rightarrow> nl_attr list \<Rightarrow> ipv4 option" where
  "rt_ip k as =
     (case Option.bind (nla_find k as) (\<lambda>a. parse_ip AF_INET (at_payload a)) of
        Some (Ip_V4 a) \<Rightarrow> Some a | _ \<Rightarrow> None)"

definition read_new_route :: "bytes \<Rightarrow> nl_attr list \<Rightarrow> syscall option" where
  "read_new_route body as =
     (let oif = or_else 0 (kv32 RTA_OIF as) in
      if body ! 6 = RT_SCOPE_UNIVERSE \<and> body ! 1 = 0 then map_option (K_AddDefaultRoute oif) (rt_ip RTA_GATEWAY as)
      else if body ! 6 = RT_SCOPE_LINK \<and> body ! 1 = 32 \<and> rt_ip RTA_DST as = Some (- 1) then
        Some (K_AddBroadcastRoute oif)
      else if body ! 6 = RT_SCOPE_LINK \<and> body ! 1 = 0 \<and> kv32 RTA_PRIORITY as = Some DHCP_PROBE_METRIC then
        Some (K_AddProbeRoute oif)
      else None)"

definition rt_call :: "nl_message \<Rightarrow> syscall option" where
  "rt_call m =
     (let body = nm_payload m; addrs = nlmsg_attrs IFADDRMSG_LEN m; routes = nlmsg_attrs RTMSG_LEN m in
      if nm_kind m = RTM_NEWLINK \<and> ne32 (drop 12 body) = IFF_UP then
        Some (K_SetUp (ne32 (drop 4 body)) (bit (ne32 (drop 8 body)) 0))
      else if nm_kind m = RTM_NEWADDR \<and> body ! 0 = AF_INET then
        (case (rt_ip IFA_LOCAL addrs, rt_ip IFA_BROADCAST addrs) of
           (Some a, Some b) \<Rightarrow>
             if b = broadcast_addr a (body ! 1) then Some (K_AddAddress (ne32 (drop 4 body)) a (body ! 1)) else None
         | _ \<Rightarrow> None)
      else if nm_kind m = RTM_DELADDR \<and> body ! 0 = AF_INET then
        map_option (\<lambda>a. K_DelAddress (ne32 (drop 4 body)) a (body ! 1)) (rt_ip IFA_LOCAL addrs)
      else if nm_kind m = RTM_NEWROUTE then read_new_route body routes
      else if nm_kind m = RTM_DELROUTE \<and> body ! 6 = RT_SCOPE_LINK \<and> body ! 1 = 0 \<and>
              kv32 RTA_PRIORITY routes = Some DHCP_PROBE_METRIC then
        Some (K_DelProbeRoute (or_else 0 (kv32 RTA_OIF routes)))
      else None)"

definition read_rt_call :: "bytes \<Rightarrow> syscall option" where
  "read_rt_call msg = (case nlmsg_parse msg of Inl _ \<Rightarrow> None | Inr m \<Rightarrow> rt_call m)"

definition rt_request :: "u32 \<Rightarrow> syscall \<Rightarrow> bytes option" where
  "rt_request seq k =
     (case k of
        K_SetUp index up \<Rightarrow> Some (msg_set_up index up seq)
      | K_AddAddress index addr prefix_len \<Rightarrow> Some (msg_add_address index addr prefix_len seq)
      | K_DelAddress index addr prefix_len \<Rightarrow> Some (msg_del_address index addr prefix_len seq)
      | K_AddDefaultRoute index gateway \<Rightarrow> Some (msg_add_default_route index gateway seq)
      | K_AddBroadcastRoute index \<Rightarrow> Some (msg_add_broadcast_route index seq)
      | K_AddProbeRoute index \<Rightarrow> Some (msg_add_dhcp_probe_route index seq)
      | K_DelProbeRoute index \<Rightarrow> Some (msg_del_dhcp_probe_route index seq)
      | _ \<Rightarrow> None)"

lemma rt_ip_be: "rt_ip k (\<lparr>at_kind = j, at_payload = u32_be a\<rparr> # as) = (if j = k then Some a else rt_ip k as)"
  by (simp add: rt_ip_def nla_find_Cons parse_ip_def) (simp add: u32_be_def)

lemma rt_ip_le: "j \<noteq> k \<Longrightarrow> rt_ip k (\<lparr>at_kind = j, at_payload = b\<rparr> # as) = rt_ip k as"
  by (simp add: rt_ip_def nla_find_Cons)

lemma kv32_attr_Cons:
  "kv32 k (\<lparr>at_kind = j, at_payload = b\<rparr> # as) =
     (if j = k then attr_u32 \<lparr>at_kind = j, at_payload = b\<rparr> else kv32 k as)"
  by (simp add: kv32_def nla_find_Cons)

lemma rt_built:
  assumes "list_all attr_fits as" "length as \<le> 1000" "length h mod 4 = 0" "length h \<le> 1000"
  shows "read_rt_call (nl_wire (nl_built kind flags seq h as)) = rt_call (nl_built kind flags seq h as)"
    and "nm_payload (nl_built kind flags seq h as) = h @ attrs_bytes as"
    and "nlmsg_attrs (length h) (nl_built kind flags seq h as) =
      map (\<lambda>a. \<lparr>at_kind = fst a, at_payload = snd a\<rparr>) as"
    and "nm_kind (nl_built kind flags seq h as) = kind"
proof -
  show p: "nm_payload (nl_built kind flags seq h as) = h @ attrs_bytes as"
    using assms(3) by (simp add: nl_built_payload nl_pad_aligned)
  show "nlmsg_attrs (length h) (nl_built kind flags seq h as) =
      map (\<lambda>a. \<lparr>at_kind = fst a, at_payload = snd a\<rparr>) as"
    using assms(3) by (simp add: nlmsg_attrs_def p nl_align_id nlattrs_bytes[OF assms(1)])
  show "read_rt_call (nl_wire (nl_built kind flags seq h as)) = rt_call (nl_built kind flags seq h as)"
    using nl_wire_parse(1)[OF nl_built_wf[OF assms(1,2,4)], of kind flags seq "[]"]
    by (simp add: read_rt_call_def)
qed (simp add: nl_built_def Let_def)

lemma length_headers [simp]:
  "length (ifinfomsg f i g c) = IFINFOMSG_LEN" "length (ifaddrmsg f p i) = IFADDRMSG_LEN"
  "length (rtmsg f d sc) = RTMSG_LEN"
  by (simp_all add: ifinfomsg_def ifaddrmsg_def rtmsg_def rt_consts)

lemma rt_header_fields [simp]:
  "drop 4 (ifinfomsg f i g c) = u32_le i @ u32_le g @ u32_le c" "drop 8 (ifinfomsg f i g c) = u32_le g @ u32_le c"
  "drop 12 (ifinfomsg f i g c) = u32_le c" "drop 4 (ifaddrmsg f p i) = u32_le i"
  "4 - IFINFOMSG_LEN = 0" "8 - IFINFOMSG_LEN = 0" "12 - IFINFOMSG_LEN = 0" "4 - IFADDRMSG_LEN = 0"
  "(ifaddrmsg f p i @ bs) ! 0 = f" "(ifaddrmsg f p i @ bs) ! 1 = p" "(ifaddrmsg f p i @ bs) ! Suc 0 = p"
  "(rtmsg f d sc @ bs) ! 1 = d" "(rtmsg f d sc @ bs) ! Suc 0 = d" "(rtmsg f d sc @ bs) ! 6 = sc"
  by (simp_all add: ifinfomsg_def ifaddrmsg_def rtmsg_def rt_consts)

lemma nl_request_wires:
  "msg_set_up index up seq =
     nl_wire (nl_built RTM_NEWLINK (NLM_F_REQUEST OR NLM_F_ACK) seq
       (ifinfomsg AF_UNSPEC index (if up then IFF_UP else 0) IFF_UP) [])"
  "msg_add_address index addr p seq =
     nl_wire (nl_built RTM_NEWADDR (NLM_F_REQUEST OR NLM_F_ACK OR NLM_F_CREATE OR NLM_F_REPLACE) seq
       (ifaddrmsg AF_INET p index)
       [(IFA_LOCAL, u32_be addr), (IFA_ADDRESS, u32_be addr), (IFA_BROADCAST, u32_be (broadcast_addr addr p))])"
  "msg_del_address index addr p seq =
     nl_wire (nl_built RTM_DELADDR (NLM_F_REQUEST OR NLM_F_ACK) seq (ifaddrmsg AF_INET p index)
       [(IFA_LOCAL, u32_be addr), (IFA_ADDRESS, u32_be addr)])"
  "msg_add_default_route index gateway seq =
     nl_wire (nl_built RTM_NEWROUTE (NLM_F_REQUEST OR NLM_F_ACK OR NLM_F_CREATE OR NLM_F_REPLACE) seq
       (rtmsg AF_INET 0 RT_SCOPE_UNIVERSE) [(RTA_GATEWAY, u32_be gateway), (RTA_OIF, u32_le index)])"
  "msg_add_broadcast_route index seq =
     nl_wire (nl_built RTM_NEWROUTE (NLM_F_REQUEST OR NLM_F_ACK OR NLM_F_CREATE OR NLM_F_REPLACE) seq
       (rtmsg AF_INET 32 RT_SCOPE_LINK) [(RTA_DST, u32_be (- 1)), (RTA_OIF, u32_le index)])"
  "msg_add_dhcp_probe_route index seq =
     nl_wire (nl_built RTM_NEWROUTE (NLM_F_REQUEST OR NLM_F_ACK OR NLM_F_CREATE OR NLM_F_REPLACE) seq
       (rtmsg AF_INET 0 RT_SCOPE_LINK) [(RTA_OIF, u32_le index), (RTA_PRIORITY, u32_le DHCP_PROBE_METRIC)])"
  "msg_del_dhcp_probe_route index seq =
     nl_wire (nl_built RTM_DELROUTE (NLM_F_REQUEST OR NLM_F_ACK) seq
       (rtmsg AF_INET 0 RT_SCOPE_LINK) [(RTA_OIF, u32_le index), (RTA_PRIORITY, u32_le DHCP_PROBE_METRIC)])"
  unfolding msg_set_up_def msg_add_address_def msg_del_address_def msg_add_default_route_def
    msg_add_broadcast_route_def msg_add_dhcp_probe_route_def msg_del_dhcp_probe_route_def new_route_def
    nlmsg_attr_u32_def nlmsg_header_new nlmsg_new_attr nl_built_wire[symmetric]
  by simp_all

lemma rt_read_back:
  assumes "rt_request seq k = Some msg"
  shows "read_rt_call msg = Some k"
proof -
  have lens: "IFINFOMSG_LEN mod 4 = 0" "IFADDRMSG_LEN mod 4 = 0" "RTMSG_LEN mod 4 = 0"
    "IFINFOMSG_LEN \<le> 1000" "IFADDRMSG_LEN \<le> 1000" "RTMSG_LEN \<le> 1000"
    by (simp_all add: rt_consts)
  have ad: "nlmsg_attrs IFADDRMSG_LEN (nl_built kind fl seq (ifaddrmsg f p i) as) =
      map (\<lambda>a. \<lparr>at_kind = fst a, at_payload = snd a\<rparr>) as" if "list_all attr_fits as" "length as \<le> 1000"
      for kind fl f p i as
    using rt_built(3)[OF that, of "ifaddrmsg f p i" kind fl seq] lens by simp
  have rd: "nlmsg_attrs RTMSG_LEN (nl_built kind fl seq (rtmsg f d sc) as) =
      map (\<lambda>a. \<lparr>at_kind = fst a, at_payload = snd a\<rparr>) as" if "list_all attr_fits as" "length as \<le> 1000"
      for kind fl f d sc as
    using rt_built(3)[OF that, of "rtmsg f d sc" kind fl seq] lens by simp
  note s = Let_def rt_request_def nl_request_wires rt_built(1,2,4) rt_call_def read_new_route_def ad rd lens attr_fits_def
    ATTR_HDR_LEN_def rt_ip_be rt_ip_le kv32_attr_Cons
  note c = rt_attr_consts RTM_NEWLINK_def RTM_DELLINK_def RTM_NEWADDR_def RTM_DELADDR_def RTM_NEWROUTE_def
    RTM_DELROUTE_def RT_SCOPE_UNIVERSE_def RT_SCOPE_LINK_def IFF_UP_def
  show ?thesis
    using assms by (cases k) (auto simp: s c)
qed

end
