(* ===== verification/Kernel_Props.thy ===== *)
theory Kernel_Props
  imports Rtnl
begin

text \<open>
  What the netlink side guarantees to the rest of the program: dumps arrive whole, every command is read
  by the kernel as it was meant, every notification is told apart, and what is read has the form the
  other components rely on. Each property has an instance on concrete messages.
\<close>

section \<open>Messages for the instances\<close>

definition toy_message :: "u16 \<Rightarrow> u16 \<Rightarrow> u32 \<Rightarrow> bytes \<Rightarrow> nl_message" where
  "toy_message kind flags seq payload =
     \<lparr>nm_len = of_nat (16 + length payload), nm_kind = kind, nm_flags = flags, nm_seq = seq, nm_pid = 0,
      nm_payload = payload\<rparr>"

lemma toy_message_fields [simp]:
  "nm_kind (toy_message k f s p) = k" "nm_flags (toy_message k f s p) = f" "nm_seq (toy_message k f s p) = s"
  "nm_payload (toy_message k f s p) = p"
  by (simp_all add: toy_message_def)

lemma toy_message_wf: "length p < 1000 \<Longrightarrow> nl_wf (toy_message k f s p)"
proof -
  assume "length p < 1000"
  then have "16 + length p < 2 ^ 32" by simp
  then have "unat (of_nat (16 + length p) :: u32) = 16 + length p" by (simp only: unat_of_nat) simp
  then show ?thesis by (simp only: nl_wf_def toy_message_def nl_message.simps NL_HDR_LEN_def)
qed

lemma toy_message_part: "nl_part (toy_message k f s p) \<longleftrightarrow> f AND NLM_F_MULTI \<noteq> 0 \<and>
    k \<notin> {NLMSG_NOOP, NLMSG_ERROR, NLMSG_DONE, NLMSG_OVERRUN}"
  by (simp add: nl_part_def)

lemmas nlmsg_kinds = NLMSG_NOOP_def NLMSG_ERROR_def NLMSG_DONE_def NLMSG_OVERRUN_def NLM_F_MULTI_def

definition toy_handle :: nl80211 where
  "toy_handle =
     \<lparr>nh_sock = \<lparr>so_seq = 6\<rparr>,
      nh_family = \<lparr>nf_id = 28, nf_groups = \<lparr>gr_scan = None, gr_mlme = None, gr_config = None\<rparr>\<rparr>\<rparr>"

section \<open>Dumps\<close>

text \<open>
  C23. A dump is delivered to its handler whole, in order and once, whatever datagrams the kernel groups its
  messages into and whatever messages of other exchanges are among them.
\<close>

theorem netlink_dump_delivered:
  assumes "list_all (list_all nl_wf) mss"
    and "filter (nl_of_exchange seq) (concat mss) = ms @ [end]"
    and "list_all nl_part ms" and "nm_kind end = NLMSG_DONE"
    and "msg = nl_wire (nl_built kind flags seq h as)"
  shows "nl_request (Inr (length msg)) (map nl_datagram mss @ rs) msg (\<lambda>m a. Inr (f m a)) a =
     Some (Inr (fold f ms a))"
  using assms by (rule nl_request_dump)

theorem netlink_dump_delivered_witness:
  "nl_request (Inr 20)
     (map nl_datagram [[toy_message 28 2 7 [1], toy_message 28 2 5 [9]], [toy_message 28 2 7 [2], toy_message 3 2 7 []]])
     (nl_wire (nl_built 28 0x301 7 [5, 0, 0, 0] [])) (\<lambda>m a. Inr (a @ nm_payload m)) [] = Some (Inr [1, 2])"
proof -
  let ?msg = "nl_wire (nl_built 28 0x301 7 [5, 0, 0, 0] [])"
  have "length ?msg = 20" by (simp add: nl_wire_def nl_built_payload nl_pad_aligned attrs_bytes_def nl_align_def)
  then show ?thesis
    using netlink_dump_delivered[of "[[toy_message 28 2 7 [1], toy_message 28 2 5 [9]],
        [toy_message 28 2 7 [2], toy_message 3 2 7 []]]" 7 "[toy_message 28 2 7 [1], toy_message 28 2 7 [2]]"
        "toy_message 3 2 7 []" ?msg 28 "0x301" "[5, 0, 0, 0]" "[]" "[]" "\<lambda>m a. a @ nm_payload m" "[]"]
    by (simp add: toy_message_wf toy_message_part nl_of_exchange_def nlmsg_kinds)
qed

text \<open>
  C21. The scan cache is read whole: the networks the policy chooses from are the entries of the kernel's
  cache, in its order, each with the elements of its probe response when it answered one.
\<close>

theorem scan_cache_read:
  assumes "list_all (list_all nl_wf) mss"
    and "filter (nl_of_exchange (so_seq (nh_sock h) + 1)) (concat mss) = ms @ [end]"
    and "list_all2 describes ms es" and "nm_kind end = NLMSG_DONE"
    and "sent = length (msg_get_scan (nf_id (nh_family h)) (so_seq (nh_sock h) + 1) ifindex)"
  shows "fst (nl80211_scan_results (Inr sent, map nl_datagram mss @ rs) ifindex h) =
     Some (Inr (map entry_bss es))"
  using assms by (rule scan_results_dump)

definition toy_entry :: scan_entry where
  "toy_entry =
     \<lparr>sn_bssid = [2, 0, 0, 0, 0, 1], sn_freq_mhz = 2412, sn_capability = 1, sn_mbm = - 5000, sn_seen_ms = 10,
      sn_probe_ies = [0, 1, 65], sn_beacon_ies = [0, 0]\<rparr>"

definition toy_bss_payload :: bytes where
  "toy_bss_payload =
     genlmsghdr 34 1 @ attrs_bytes [(0x802F, attrs_bytes (map (\<lambda>a. (at_kind a, at_payload a)) (scan_attrs toy_entry)))]"

lemma toy_bss_length: "length toy_bss_payload < 1000"
  by (simp add: toy_bss_payload_def attrs_bytes_def length_attr_bytes scan_attrs_def toy_entry_def
      ATTR_HDR_LEN_def nl_align_def genlmsghdr_def)

lemma toy_bss_describes: "describes (toy_message 28 2 7 toy_bss_payload) toy_entry"
proof -
  let ?bs = "map (\<lambda>a. (at_kind a, at_payload a)) (scan_attrs toy_entry)"
  have bs: "map nla_of ?bs = scan_attrs toy_entry"
    by (simp add: scan_attrs_def nla_of_def NLA_TYPE_MASK_eq bss_consts)
  have own: "filter (\<lambda>a. at_kind a \<in> BSS_ATTRS) (scan_attrs toy_entry) = scan_attrs toy_entry"
    by (simp add: scan_attrs_def BSS_ATTRS_def)
  have fb: "list_all attr_fits ?bs"
    by (simp add: scan_attrs_def attr_fits_def ATTR_HDR_LEN_def toy_entry_def)
  have fa: "list_all attr_fits [(0x802F, attrs_bytes ?bs)]"
    using toy_bss_length by (simp add: toy_bss_payload_def attr_fits_def attrs_bytes_def[of "[_]"]
        length_attr_bytes ATTR_HDR_LEN_def nl_align_def)
  have "nla_find NL80211_ATTR_BSS (map nla_of [(0x802F, attrs_bytes ?bs)]) =
      Some \<lparr>at_kind = NL80211_ATTR_BSS, at_payload = attrs_bytes ?bs\<rparr>"
    by (simp add: nla_of_def nla_find_Cons NLA_TYPE_MASK_eq NL80211_ATTR_BSS_def)
  moreover have "mset (filter (\<lambda>a. at_kind a \<in> BSS_ATTRS) (map nla_of ?bs)) = mset (scan_attrs toy_entry)"
    by (simp only: bs own)
  moreover have "nl_part (toy_message 28 2 7 toy_bss_payload)" by (simp add: toy_message_part nlmsg_kinds)
  moreover have "length (sn_bssid toy_entry) = 6" by (simp add: toy_entry_def)
  ultimately show ?thesis
    unfolding describes_def toy_message_fields toy_bss_payload_def using fa fb by blast
qed

theorem scan_cache_read_witness:
  "fst (nl80211_scan_results (Inr (length (msg_get_scan 28 7 3)),
      map nl_datagram [[toy_message 28 2 7 toy_bss_payload], [toy_message 28 2 4 [], toy_message 3 2 7 []]]) 3
      toy_handle) = Some (Inr [entry_bss toy_entry])"
  using scan_cache_read[of "[[toy_message 28 2 7 toy_bss_payload], [toy_message 28 2 4 [], toy_message 3 2 7 []]]"
      toy_handle "[toy_message 28 2 7 toy_bss_payload]" "toy_message 3 2 7 []" "[toy_entry]" _ 3 "[]"]
  by (simp add: toy_handle_def toy_message_wf toy_bss_length nl_of_exchange_def nlmsg_kinds toy_bss_describes)

text \<open>
  C29. A radio the kernel describes in pieces is put together whatever the order of the pieces: one radio per
  index, in order of index, which offloads the 4-way handshake exactly when a piece of that index says so.
  This decides whether the daemon runs the handshake itself.
\<close>

theorem wiphy_capabilities:
  assumes "list_all (list_all nl_wf) mss"
    and "filter (nl_of_exchange (so_seq (nh_sock h) + 1)) (concat mss) = ms @ [end]"
    and "list_all nl_part ms" and "nm_kind end = NLMSG_DONE"
    and "sent = length (msg_get_wiphy (nf_id (nh_family h)) (so_seq (nh_sock h) + 1))"
  shows "\<exists>ws. fst (nl80211_wiphys (Inr sent, map nl_datagram mss @ rs) h) = Some (Inr ws) \<and>
     distinct (map nw_index ws) \<and> sorted (map nw_index ws) \<and>
     nw_index ` set ws = wc_index ` set (dump_chunks ms) \<and>
     (\<forall>w\<in>set ws.
        (nw_offloads_4way_psk w \<longleftrightarrow> (\<exists>c\<in>set (dump_chunks ms). wc_index c = nw_index w \<and>
           chunk_feature c NL80211_EXT_FEATURE_4WAY_HANDSHAKE_STA_PSK)) \<and>
        (nw_offloads_sae w \<longleftrightarrow> (\<exists>c\<in>set (dump_chunks ms). wc_index c = nw_index w \<and>
           chunk_feature c NL80211_EXT_FEATURE_SAE_OFFLOAD)))"
proof -
  let ?out = "fold wiphy_put (dump_chunks ms) []"
  have d: "distinct (map nw_index ?out) \<and> nw_index ` set ?out = wc_index ` set (dump_chunks ms)"
    using wiphy_fold_flag[of nw_supports_ap wc_supports_ap "dump_chunks ms"] by simp
  have "nw_offloads_4way_psk w \<longleftrightarrow> (\<exists>c\<in>set (dump_chunks ms). wc_index c = nw_index w \<and>
        chunk_feature c NL80211_EXT_FEATURE_4WAY_HANDSHAKE_STA_PSK)"
    "nw_offloads_sae w \<longleftrightarrow> (\<exists>c\<in>set (dump_chunks ms). wc_index c = nw_index w \<and>
        chunk_feature c NL80211_EXT_FEATURE_SAE_OFFLOAD)" if "w \<in> set ?out" for w
    by (rule wiphy_flag_of[OF _ _ that]; simp)+
  moreover have "distinct (map nw_index (sort_key nw_index ?out))"
    using d by (simp add: distinct_map)
  ultimately show ?thesis
    using d wiphys_dump[OF assms, of rs] by (intro exI[of _ "sort_key nw_index ?out"]) simp
qed

definition toy_wiphy_payload :: bytes where
  "toy_wiphy_payload =
     genlmsghdr 3 1 @ attrs_bytes [(NL80211_ATTR_WIPHY, u32_le 0), (NL80211_ATTR_EXT_FEATURES, [0, 128])]"

lemma toy_wiphy_chunk:
  "wiphy_chunk_parse toy_wiphy_payload =
     Some \<lparr>wc_index = 0, wc_name = None, wc_supports_ap = False, wc_features = Some [0, 128]\<rparr>"
proof -
  have f: "list_all attr_fits [(NL80211_ATTR_WIPHY, u32_le 0), (NL80211_ATTR_EXT_FEATURES, [0, 128])]"
    by (simp add: attr_fits_def ATTR_HDR_LEN_def)
  show ?thesis
    unfolding wiphy_chunk_parse_def toy_wiphy_payload_def nlas_of_body_bytes[OF f]
    by (simp add: wiphy_field_def nla_of_def NLA_TYPE_MASK_eq attr_consts)
qed

theorem wiphy_capabilities_witness:
  "\<exists>w. fst (nl80211_wiphys (Inr (length (msg_get_wiphy 28 7)),
        map nl_datagram [[toy_message 28 2 7 toy_wiphy_payload, toy_message 3 2 7 []]]) toy_handle) = Some (Inr [w]) \<and>
     nw_offloads_4way_psk w \<and> \<not> nw_offloads_sae w"
proof -
  have "length toy_wiphy_payload < 1000"
    by (simp add: toy_wiphy_payload_def attrs_bytes_def length_attr_bytes ATTR_HDR_LEN_def nl_align_def
        genlmsghdr_def)
  moreover have c: "dump_chunks [toy_message 28 2 7 toy_wiphy_payload] =
      [\<lparr>wc_index = 0, wc_name = None, wc_supports_ap = False, wc_features = Some [0, 128]\<rparr>]"
    by (simp add: dump_chunks_def map_filter_simps toy_wiphy_chunk)
  ultimately obtain ws where ws: "fst (nl80211_wiphys (Inr (length (msg_get_wiphy 28 7)),
        map nl_datagram [[toy_message 28 2 7 toy_wiphy_payload, toy_message 3 2 7 []]]) toy_handle) = Some (Inr ws)"
      "distinct (map nw_index ws)" "nw_index ` set ws = {0}"
      "\<forall>w\<in>set ws. (nw_offloads_4way_psk w \<longleftrightarrow> nw_index w = 0) \<and> \<not> nw_offloads_sae w"
    using wiphy_capabilities[of "[[toy_message 28 2 7 toy_wiphy_payload, toy_message 3 2 7 []]]" toy_handle
        "[toy_message 28 2 7 toy_wiphy_payload]" "toy_message 3 2 7 []" _ "[]"]
    by (simp add: toy_handle_def toy_message_wf toy_message_part nl_of_exchange_def nlmsg_kinds
        chunk_feature_def ext_feature_iff value_consts) auto
  have "0 \<in> nw_index ` set ws" by (simp add: ws(3))
  then obtain w where w: "w \<in> set ws" "nw_index w = 0" by (auto elim!: imageE)
  have "ws = [w]"
  proof (cases ws)
    case (Cons a as)
    then have "as = []" using ws(2,3) by (cases as) auto
    then show ?thesis using Cons w by simp
  qed (use w in simp)
  then show ?thesis using ws(1,4) w by auto
qed

section \<open>Commands\<close>

text \<open>
  C14. Whatever the engine asks of nl80211 - a scan, an association, an authentication frame, a key, its use as
  the default, power saving - the kernel reads from the bytes of the request exactly that: the same
  interface, the same network, the same suites, the same key.
\<close>

theorem nl80211_command_meant:
  assumes "call_request fam seq k = Some msg" "call_fits k"
  shows "read_call msg = Some (sent_call k)"
  using assms by (rule call_read_back)

definition toy_nl_connect :: nl_connect where
  "toy_nl_connect =
     \<lparr>nc_ssid = [65, 66], nc_bssid = Some [2, 0, 0, 0, 0, 1], nc_freq_mhz = Some 2412, nc_auth_type = 0,
      nc_wpa_versions = 2, nc_pairwise_ciphers = [0x000FAC04], nc_group_cipher = Some 0x000FAC04,
      nc_akms = [0x000FAC02], nc_mfp = Some 0, nc_ies = [48, 0]\<rparr>"

theorem nl80211_command_meant_witness:
  "read_call (msg_connect 28 7 3 toy_nl_connect) = Some (K_Connect 3 toy_nl_connect)"
  using nl80211_command_meant[of 28 7 "K_Connect 3 toy_nl_connect"]
  by (simp add: call_request_def sent_call_def connect_fits_def toy_nl_connect_def)

text \<open>
  C28. Every change of a link, an address or a route is read by the kernel as it was meant; an added address
  carries the directed broadcast address of its subnet.
\<close>

theorem rtnl_command_meant:
  assumes "rt_request seq k = Some msg"
  shows "read_rt_call msg = Some k \<and>
     (\<forall>index a p n. k = K_AddAddress index a p \<and> unat p \<le> 32 \<and> n < 32 \<longrightarrow>
        (bit (broadcast_addr a p) n \<longleftrightarrow> n < 32 - unat p \<or> bit a n))"
  using rt_read_back[OF assms] broadcast_addr_bit by auto

theorem rtnl_command_meant_witness:
  "read_rt_call (msg_add_address 3 0xC0A80105 24 7) = Some (K_AddAddress 3 0xC0A80105 24)"
  using rtnl_command_meant[of 7 "K_AddAddress 3 0xC0A80105 24"] by (simp add: rt_request_def)

section \<open>Notifications\<close>

text \<open>
  C22. A notification is the event the kernel sent, whatever other attributes come with it: a timeout is never
  taken for a success, a refusal keeps its status, a frame is neither cut nor extended.
\<close>

theorem notification_roundtrip:
  assumes "list_all attr_fits as"
    and "filter (\<lambda>a. at_kind a \<in> EVENT_ATTRS) (map nla_of as) = event_attrs e"
    and "event_wf e"
  shows "event_decode (genlmsghdr (event_cmd e) v @ attrs_bytes as) = Some e"
  using assms by (rule event_decode_attrs)

theorem notification_roundtrip_witness:
  "event_decode (genlmsghdr NL80211_CMD_CONNECT 1 @
     attrs_bytes [(99, [1, 2, 3]), (NL80211_ATTR_MAC, [2, 0, 0, 0, 0, 1]), (NL80211_ATTR_TIMED_OUT, [])]) =
   Some (Ev_Connected (Some [2, 0, 0, 0, 0, 1]) Cst_TimedOut)"
  using notification_roundtrip[of "[(99, [1, 2, 3]), (NL80211_ATTR_MAC, [2, 0, 0, 0, 0, 1]), (NL80211_ATTR_TIMED_OUT, [])]"
      "Ev_Connected (Some [2, 0, 0, 0, 0, 1]) Cst_TimedOut" 1]
  by (simp add: attr_fits_def ATTR_HDR_LEN_def nla_of_def NLA_TYPE_MASK_eq EVENT_ATTRS_def attr_consts)

lemma ies_payload_bound: "el \<in> set (ies body) \<Longrightarrow> length (el_payload el) < 256"
proof -
  have step: "ies_next bs = Some (x, rest) \<Longrightarrow> length (el_payload x) < 256" for bs x rest
    using unat_u8_less by (auto simp: ies_next_def Let_def split: list.splits if_splits)
  have "el \<in> set (iter_fuel n ies_next bs) \<Longrightarrow> length (el_payload el) < 256" for n bs
  proof (induction n arbitrary: bs)
    case (Suc n)
    then show ?case using step[of bs] by (cases "ies_next bs") auto
  qed simp
  then show "el \<in> set (ies body) \<Longrightarrow> length (el_payload el) < 256"
    by (auto simp: ies_def iter_collect_def)
qed

lemma beacon_ssid_bound: "bi_ssid (beacon_parse body) = Some s \<Longrightarrow> length s < 256"
proof -
  have step: "\<forall>s. bi_ssid b0 = Some s \<longrightarrow> length s < 256 \<Longrightarrow> length (el_payload a) < 256 \<Longrightarrow>
      \<forall>s. bi_ssid (beacon_step a b0) = Some s \<longrightarrow> length s < 256" for a b0
    by (simp add: beacon_step_def)
  have "\<forall>s. bi_ssid b0 = Some s \<longrightarrow> length s < 256 \<Longrightarrow> \<forall>el\<in>set els. length (el_payload el) < 256 \<Longrightarrow>
      \<forall>s. bi_ssid (fold beacon_step els b0) = Some s \<longrightarrow> length s < 256" for els b0
  proof (induction els arbitrary: b0)
    case (Cons a els)
    have "\<forall>s. bi_ssid (beacon_step a b0) = Some s \<longrightarrow> length s < 256"
      using Cons.prems by (intro step) simp_all
    then have "\<forall>s. bi_ssid (fold beacon_step els (beacon_step a b0)) = Some s \<longrightarrow> length s < 256"
      by (rule Cons.IH) (use Cons.prems in simp)
    then show ?case by (simp only: fold_simps)
  qed simp
  from this[of beacon_empty "ies body"]
  have "\<forall>s. bi_ssid (beacon_parse body) = Some s \<longrightarrow> length s < 256"
    unfolding beacon_parse_def using ies_payload_bound[of _ body] by (simp add: beacon_empty_def)
  then show "bi_ssid (beacon_parse body) = Some s \<Longrightarrow> length s < 256" by blast
qed

text \<open>
  C38. What the connection is told has the form it relies on, whatever bytes arrive: an address has six bytes,
  a refusal a status other than success, and a scan result an address of six bytes and an SSID, taken from
  a single element, of at most 255.
\<close>

theorem kernel_input_types:
  "(\<forall>body e. event_decode body = Some e \<longrightarrow> event_wf e) \<and>
   (\<forall>nested b. bss_parse nested = Some b \<longrightarrow> length (bss_bssid b) = 6 \<and> length (bss_ssid b) < 256)"
proof (intro conjI allI impI)
  fix body e assume "event_decode body = Some e"
  moreover have "mac_of a = Some mac \<Longrightarrow> length mac = 6" for a mac
    by (auto simp: mac_of_def dest: get_range_length)
  ultimately show "event_wf e"
    by (auto simp: event_decode_def Let_def connect_status_of_def split: option.splits if_splits bind_splits)
next
  fix nested b assume b: "bss_parse nested = Some b"
  show "length (bss_bssid b) = 6"
  proof -
    have "bf_bssid (fold bss_field (nlas nested) bss_fields_start) = Some (bss_bssid b)"
      using b unfolding bss_parse_def Let_def by (auto split: option.splits)
    then have "\<exists>a. mac_of a = Some (bss_bssid b)"
      unfolding bss_fields_last by (auto simp: bss_fields_start_def split: option.splits)
    then show ?thesis by (auto simp: mac_of_def dest: get_range_length)
  qed
next
  fix nested b assume "bss_parse nested = Some b"
  then show "length (bss_ssid b) < 256"
    using beacon_ssid_bound by (auto simp: bss_parse_def Let_def split: option.splits)
qed

theorem kernel_input_types_witness:
  "event_wf (Ev_Connected (Some [2, 0, 0, 0, 0, 1]) Cst_TimedOut) \<and>
   event_decode (genlmsghdr NL80211_CMD_CONNECT 1 @
     attrs_bytes [(NL80211_ATTR_MAC, [2, 0, 0, 0, 0, 1]), (NL80211_ATTR_TIMED_OUT, [])]) =
   Some (Ev_Connected (Some [2, 0, 0, 0, 0, 1]) Cst_TimedOut)"
proof -
  have "event_decode (genlmsghdr NL80211_CMD_CONNECT 1 @
      attrs_bytes [(NL80211_ATTR_MAC, [2, 0, 0, 0, 0, 1]), (NL80211_ATTR_TIMED_OUT, [])]) =
    Some (Ev_Connected (Some [2, 0, 0, 0, 0, 1]) Cst_TimedOut)"
    using event_decode_attrs[of "[(NL80211_ATTR_MAC, [2, 0, 0, 0, 0, 1]), (NL80211_ATTR_TIMED_OUT, [])]"
        "Ev_Connected (Some [2, 0, 0, 0, 0, 1]) Cst_TimedOut" 1]
    by (simp add: attr_fits_def ATTR_HDR_LEN_def nla_of_def NLA_TYPE_MASK_eq EVENT_ATTRS_def attr_consts)
  then show ?thesis using kernel_input_types by blast
qed

text \<open>
  C30. The daemon subscribes to exactly the groups the kernel announced for scans, association and
  configuration: bit \<open>n\<close> of the mask is set when one of them has the number \<open>n + 1\<close>. A group the mask
  cannot reach is an error, never a silent gap.
\<close>

theorem subscription_exact:
  assumes "list_all attr_fits as"
    and "filter (\<lambda>a. at_kind a \<in> {CTRL_ATTR_FAMILY_ID, CTRL_ATTR_MCAST_GROUPS}) (map nla_of as) =
      family_attrs i gs"
    and "list_all mcast_ok gs"
  shows "\<exists>fam. family_parse (genlmsghdr cmd v @ attrs_bytes as) = Some fam \<and> nf_id fam = i \<and>
     (case groups_mask (nf_groups fam) of
        Inr m \<Rightarrow> \<forall>n<32. bit m n \<longleftrightarrow>
          (\<exists>name\<in>{''scan'', ''mlme'', ''config''}. \<exists>g. map_of (rev gs) (ascii name) = Some g \<and> unat g = Suc n)
      | Inl e \<Rightarrow> \<exists>name\<in>{''scan'', ''mlme'', ''config''}. \<exists>g. map_of (rev gs) (ascii name) = Some g \<and>
          (g = 0 \<or> 32 < unat g) \<and> e = Xe_GroupOutOfRange name g)"
proof -
  have n: "groups_named (groups_of gs) = map (\<lambda>name. (name, map_of (rev gs) (ascii name)))
      [''scan'', ''mlme'', ''config'']"
    by (simp add: groups_named_def groups_of_def)
  have "case groups_mask (groups_of gs) of
      Inr m \<Rightarrow> \<forall>n<32. bit m n \<longleftrightarrow>
          (\<exists>name\<in>{''scan'', ''mlme'', ''config''}. \<exists>g. map_of (rev gs) (ascii name) = Some g \<and> unat g = Suc n)
    | Inl e \<Rightarrow> \<exists>name\<in>{''scan'', ''mlme'', ''config''}. \<exists>g. map_of (rev gs) (ascii name) = Some g \<and>
          (g = 0 \<or> 32 < unat g) \<and> e = Xe_GroupOutOfRange name g"
  proof (cases "groups_mask (groups_of gs)")
    case (Inl e)
    then have "\<exists>g\<in>set (map (\<lambda>name. (name, map_of (rev gs) (ascii name))) [''scan'', ''mlme'', ''config'']).
        \<exists>i. snd g = Some i \<and> (i = 0 \<or> 32 < unat i) \<and> e = Xe_GroupOutOfRange (fst g) i"
      using groups_fold_error unfolding groups_mask_def n by blast
    then show ?thesis using Inl by simp
  next
    case (Inr m)
    then have "\<forall>n<32. bit m n \<longleftrightarrow> bit (0 :: u32) n \<or> (\<exists>g\<in>set (map (\<lambda>name. (name, map_of (rev gs) (ascii name)))
        [''scan'', ''mlme'', ''config'']). \<exists>i. snd g = Some i \<and> unat i = Suc n)"
      using groups_fold_bits[THEN conjunct2] unfolding groups_mask_def n by blast
    then show ?thesis using Inr by simp
  qed
  then show ?thesis using family_parse_reply[OF assms] by simp
qed

theorem subscription_exact_witness:
  "\<exists>fam. family_parse (genlmsghdr 1 2 @ attrs_bytes
        [(CTRL_ATTR_FAMILY_ID, u16_le 28), (CTRL_ATTR_MCAST_GROUPS, attrs_bytes (map group_attr
           [(ascii ''config'', 5), (ascii ''scan'', 6), (ascii ''mlme'', 8)]))]) = Some fam \<and>
     nf_id fam = 28 \<and> groups_mask (nf_groups fam) = Inr 0xB0"
proof -
  let ?gs = "[(ascii ''config'', 5), (ascii ''scan'', 6), (ascii ''mlme'', 8)] :: (bytes \<times> u32) list"
  let ?as = "[(CTRL_ATTR_FAMILY_ID, u16_le 28), (CTRL_ATTR_MCAST_GROUPS, attrs_bytes (map group_attr ?gs))]"
  have ok: "list_all mcast_ok ?gs" by (simp add: mcast_ok_def ascii_def utf8_ascii)
  have "list_all attr_fits ?as"
    by (simp add: attr_fits_def attrs_bytes_def length_attr_bytes ATTR_HDR_LEN_def nl_align_def group_attr_def
        ascii_def)
  moreover have "filter (\<lambda>a. at_kind a \<in> {CTRL_ATTR_FAMILY_ID, CTRL_ATTR_MCAST_GROUPS}) (map nla_of ?as) =
      family_attrs 28 ?gs"
    by (simp add: family_attrs_def nla_of_def NLA_TYPE_MASK_eq CTRL_ATTR_FAMILY_ID_def CTRL_ATTR_MCAST_GROUPS_def)
  moreover have "groups_mask (groups_of ?gs) = Inr 0xB0"
    by (simp add: groups_mask_def groups_named_def groups_of_def group_bit_def ascii_def)
  ultimately show ?thesis
    using subscription_exact[of ?as 28 ?gs 1 2, OF _ _ ok] family_parse_reply[of ?as 28 ?gs 1 2, OF _ _ ok] by simp
qed

section \<open>Links\<close>

text \<open>
  The links of the system are read whole and sorted by index, each with the name, address, flags and
  state the kernel gave it.
\<close>

theorem links_read_whole:
  assumes "list_all (list_all nl_wf) mss"
    and "filter (nl_of_exchange (so_seq s + 1)) (concat mss) = ms @ [end]"
    and "list_all2 (describes_link phy) ms ls" and "nm_kind end = NLMSG_DONE"
    and "sent = length (msg_get_links (so_seq s + 1))"
  shows "fst (rtnl_links phy (Inr sent, map nl_datagram mss @ rs) s) = Some (Inr (sort_key rl_index ls))"
  using assms by (rule links_dump)

definition toy_link :: rt_link where
  "toy_link =
     \<lparr>rl_index = 1, rl_name = [108, 111], rl_mac = None, rl_mtu = 1500, rl_flags = 9, rl_oper = Os_Up,
      rl_kind = Pk_Loopback\<rparr>"

definition toy_link_payload :: bytes where
  "toy_link_payload =
     [0, 0, 4, 3] @ u32_le 1 @ u32_le 9 @ u32_le 0 @
     attrs_bytes [(IFLA_OPERSTATE, [6]), (IFLA_IFNAME, [108, 111, 0]), (IFLA_MTU, u32_le 1500), (99, [])]"

lemma toy_link_describes: "describes_link (\<lambda>_. False) (toy_message 16 2 7 toy_link_payload) toy_link"
proof -
  define as :: "(u16 \<times> bytes) list" where
    "as = [(IFLA_OPERSTATE, [6]), (IFLA_IFNAME, [108, 111, 0]), (IFLA_MTU, u32_le 1500), (99, [])]"
  have "mset (filter link_relevant (map (\<lambda>a. \<lparr>at_kind = fst a, at_payload = snd a\<rparr>) as)) =
      mset (link_attrs toy_link)"
    by (simp add: as_def link_relevant_def link_attrs_def toy_link_def rt_attr_consts)
  moreover have "list_all attr_fits as" by (simp add: as_def attr_fits_def ATTR_HDR_LEN_def)
  moreover have "toy_link_payload = [0, 0, 4, 3] @ u32_le (rl_index toy_link) @ u32_le (rl_flags toy_link) @
      u32_le 0 @ attrs_bytes as"
    by (simp add: toy_link_payload_def toy_link_def as_def)
  moreover have "length [0, 0, 4, 3 :: u8] = 4" by simp
  ultimately have wire: "\<exists>h change as. length h = 4 \<and>
      toy_link_payload = h @ u32_le (rl_index toy_link) @ u32_le (rl_flags toy_link) @ u32_le change @
        attrs_bytes as \<and> list_all attr_fits as \<and>
      mset (filter link_relevant (map (\<lambda>a. \<lparr>at_kind = fst a, at_payload = snd a\<rparr>) as)) =
        mset (link_attrs toy_link)"
    by blast
  have "nl_part (toy_message 16 2 7 toy_link_payload)" by (simp add: toy_message_part nlmsg_kinds)
  moreover have "0 \<notin> set (rl_name toy_link)" "utf8_valid (rl_name toy_link)" "rl_mac toy_link = None"
      "rl_kind toy_link = port_classify (\<lambda>_. False) (rl_name toy_link) (rl_flags toy_link)"
    by (simp_all add: toy_link_def utf8_ascii port_classify_def IFF_LOOPBACK_def)
  ultimately show ?thesis unfolding describes_link_def toy_message_fields using wire by simp
qed

theorem links_read_whole_witness:
  "fst (rtnl_links (\<lambda>_. False) (Inr (length (msg_get_links 7)),
      map nl_datagram [[toy_message 16 2 7 toy_link_payload, toy_message 3 2 7 []]]) \<lparr>so_seq = 6\<rparr>) =
    Some (Inr [toy_link])"
proof -
  have "length toy_link_payload < 1000"
    by (simp add: toy_link_payload_def attrs_bytes_def length_attr_bytes ATTR_HDR_LEN_def nl_align_def)
  then show ?thesis
    using links_read_whole[of "[[toy_message 16 2 7 toy_link_payload, toy_message 3 2 7 []]]" "\<lparr>so_seq = 6\<rparr>"
        "[toy_message 16 2 7 toy_link_payload]" "toy_message 3 2 7 []" "\<lambda>_. False" "[toy_link]" _ "[]"]
    by (simp add: toy_message_wf nl_of_exchange_def nlmsg_kinds toy_link_describes)
qed

end
