(* ===== verification/Pem.thy ===== *)
theory Pem
  imports Eapol_Key Rust_Text
begin

text \<open>
  PEM files (\<^verbatim>\<open>src/crates/caw-eapol/src/eap/tls/pem.rs\<close>): the labelled blocks of a file and the base64
  inside them. A \<^verbatim>\<open>str\<close> is its UTF-8 bytes; \<open>find_str\<close> is \<^verbatim>\<open>str::find\<close>, which on UTF-8 finds the same
  offset as a search for the bytes of the pattern. Every error of this file is \<^verbatim>\<open>CertificateStore\<close>, whose
  text is left out.
\<close>

section \<open>Base64\<close>

definition sextet :: "u8 \<Rightarrow> u8 option" where
  "sextet c =
     (if 65 \<le> c \<and> c \<le> 90 then Some (c - 65)
      else if 97 \<le> c \<and> c \<le> 122 then Some (c - 97 + 26)
      else if 48 \<le> c \<and> c \<le> 57 then Some (c - 48 + 52)
      else if c = 43 then Some 62
      else if c = 47 then Some 63
      else None)"

definition b64_space :: "u8 \<Rightarrow> bool" where
  "b64_space c \<longleftrightarrow> c = 32 \<or> c = 9 \<or> c = 13 \<or> c = 10"

record b64 =
  b6_out :: bytes
  b6_acc :: u32
  b6_bits :: nat
  b6_padding :: nat

definition b64_step :: "b64 \<Rightarrow> u8 \<Rightarrow> eapol_error + b64" where
  "b64_step s c =
     (if b64_space c then Inr s
      else if c = 61 then Inr (s\<lparr>b6_padding := b6_padding s + 1\<rparr>)
      else if 0 < b6_padding s then Inl Ee_CertificateStore
      else
        (case sextet c of
           None \<Rightarrow> Inl Ee_CertificateStore
         | Some v \<Rightarrow>
             let acc = push_bit 6 (b6_acc s) OR ucast v;
                 bits = b6_bits s + 6
             in if bits = 24
                then Inr (s\<lparr>b6_out := b6_out s @ drop 1 (u32_be acc), b6_acc := 0, b6_bits := 0\<rparr>)
                else Inr (s\<lparr>b6_acc := acc, b6_bits := bits\<rparr>)))"

primrec b64_run :: "b64 \<Rightarrow> bytes \<Rightarrow> eapol_error + b64" where
  "b64_run s [] = Inr s"
| "b64_run s (c # cs) = (case b64_step s c of Inl e \<Rightarrow> Inl e | Inr s' \<Rightarrow> b64_run s' cs)"

text \<open>The group that is left over at the end.\<close>

definition b64_finish :: "b64 \<Rightarrow> eapol_error + bytes" where
  "b64_finish s =
     (if b6_bits s = 0 then Inr (b6_out s)
      else if b6_bits s = 12 then Inr (b6_out s @ [ucast (drop_bit 4 (b6_acc s))])
      else if b6_bits s = 18 then
        Inr (b6_out s @ [ucast (drop_bit 10 (b6_acc s)), ucast (drop_bit 2 (b6_acc s))])
      else Inl Ee_CertificateStore)"

definition b64_init :: b64 where
  "b64_init = \<lparr>b6_out = [], b6_acc = 0, b6_bits = 0, b6_padding = 0\<rparr>"

definition base64_decode :: "bytes \<Rightarrow> eapol_error + bytes" where
  "base64_decode s = (case b64_run b64_init s of Inl e \<Rightarrow> Inl e | Inr st \<Rightarrow> b64_finish st)"

section \<open>Blocks\<close>

primrec find_str :: "bytes \<Rightarrow> bytes \<Rightarrow> nat option" where
  "find_str pat [] = (if pat = [] then Some 0 else None)"
| "find_str pat (c # cs) = (if prefix pat (c # cs) then Some 0 else map_option Suc (find_str pat cs))"

definition pem_begin :: "bytes \<Rightarrow> bytes" where
  "pem_begin label = ascii ''-----BEGIN '' @ label @ ascii ''-----''"

definition pem_end :: "bytes \<Rightarrow> bytes" where
  "pem_end label = ascii ''-----END '' @ label @ ascii ''-----''"

lemma find_str_bound: "find_str pat s = Some i \<Longrightarrow> i + length pat \<le> length s"
proof (induction s arbitrary: i)
  case (Cons c cs)
  then show ?case by (auto split: if_splits dest: prefix_length_le)
qed (simp split: if_splits)

lemma pem_begin_length [termination_simp]: "0 < length (pem_begin label)"
  by (simp add: pem_begin_def ascii_def)

function pem_blocks_in :: "bytes \<Rightarrow> bytes \<Rightarrow> eapol_error + bytes list" where
  "pem_blocks_in label rest =
     (case find_str (pem_begin label) rest of
        None \<Rightarrow> Inr []
      | Some start \<Rightarrow>
          let body = drop (start + length (pem_begin label)) rest
          in case find_str (pem_end label) body of
               None \<Rightarrow> Inl Ee_CertificateStore
             | Some stop \<Rightarrow>
                 (case base64_decode (take stop body) of
                    Inl e \<Rightarrow> Inl e
                  | Inr der \<Rightarrow>
                      (case pem_blocks_in label (drop (stop + length (pem_end label)) body) of
                         Inl e \<Rightarrow> Inl e
                       | Inr ders \<Rightarrow> Inr (der # ders))))"
  by auto
termination
proof (relation "measure (\<lambda>(_, rest). length rest)", goal_cases)
  case (2 label rest start body stop der)
  then have "0 < length rest"
    using find_str_bound[of "pem_begin label" rest start] pem_begin_length[of label] by linarith
  then show ?case using 2 pem_begin_length[of label] by simp
qed simp

declare pem_blocks_in.simps [simp del]

definition pem_blocks :: "bytes \<Rightarrow> bytes \<Rightarrow> eapol_error + bytes list" where
  "pem_blocks pem label = (if utf8_valid pem then pem_blocks_in label pem else Inl Ee_CertificateStore)"

definition PEM_CERTIFICATE :: bytes where "PEM_CERTIFICATE = ascii ''CERTIFICATE''"

definition pem_certificates :: "bytes \<Rightarrow> eapol_error + bytes list" where
  "pem_certificates pem =
     (case pem_blocks pem PEM_CERTIFICATE of
        Inl e \<Rightarrow> Inl e
      | Inr certs \<Rightarrow> if certs = [] then Inl Ee_CertificateStore else Inr certs)"

lemma pem_certificates_nonempty: "pem_certificates pem = Inr certs \<Longrightarrow> certs \<noteq> []"
  by (auto simp: pem_certificates_def split: sum.splits if_splits)

section \<open>The encoder\<close>

text \<open>Base64 as RFC 4648 defines it, with its padding: what the tools that write these files produce.\<close>

definition b64_char :: "u8 \<Rightarrow> u8" where
  "b64_char v =
     (if v < 26 then v + 65 else if v < 52 then v - 26 + 97 else if v < 62 then v - 52 + 48
      else if v = 62 then 43 else 47)"

fun base64_encode :: "bytes \<Rightarrow> bytes" where
  "base64_encode (a # b # c # rest) =
     b64_char (drop_bit 2 a) # b64_char (push_bit 4 (a AND 3) OR drop_bit 4 b)
     # b64_char (push_bit 2 (b AND 15) OR drop_bit 6 c) # b64_char (c AND 63) # base64_encode rest"
| "base64_encode [a, b] =
     [b64_char (drop_bit 2 a), b64_char (push_bit 4 (a AND 3) OR drop_bit 4 b),
      b64_char (push_bit 2 (b AND 15)), 61]"
| "base64_encode [a] = [b64_char (drop_bit 2 a), b64_char (push_bit 4 (a AND 3)), 61, 61]"
| "base64_encode [] = []"

lemma sextet_char: "v < 64 \<Longrightarrow> sextet (b64_char v) = Some v"
proof -
  assume v: "v < 64"
  have "list_all (\<lambda>n. sextet (b64_char (of_nat n)) = Some (of_nat n)) [0..<64]"
    by code_simp
  moreover have "unat v \<in> set [0..<64]" using v by (simp add: word_less_nat_alt)
  ultimately have "sextet (b64_char (of_nat (unat v))) = Some (of_nat (unat v))"
    unfolding list_all_iff by (rule bspec)
  then show ?thesis by simp
qed

lemma sextet_none [simp]: "sextet 61 = None" "b64_space c \<Longrightarrow> sextet c = None"
  by (auto simp: sextet_def b64_space_def)

lemma b64_step_char:
  assumes "v < 64" "b6_padding s = 0"
  shows "b64_step s (b64_char v) =
    (let acc = push_bit 6 (b6_acc s) OR ucast v
     in Inr (if b6_bits s = 18
             then s\<lparr>b6_out := b6_out s @ drop 1 (u32_be acc), b6_acc := 0, b6_bits := 0\<rparr>
             else s\<lparr>b6_acc := acc, b6_bits := b6_bits s + 6\<rparr>))"
proof -
  have "\<not> b64_space (b64_char v)" "b64_char v \<noteq> 61"
    using sextet_char[OF assms(1)] sextet_none by (metis option.distinct(1))+
  then show ?thesis using assms sextet_char[OF assms(1)] by (simp add: b64_step_def Let_def)
qed

lemma u8_eqI:
  fixes v w :: u8
  assumes "bit v 0 = bit w 0" "bit v 1 = bit w 1" "bit v 2 = bit w 2" "bit v 3 = bit w 3"
    "bit v 4 = bit w 4" "bit v 5 = bit w 5" "bit v 6 = bit w 6" "bit v 7 = bit w 7"
  shows "v = w"
proof (rule bit_word_eqI)
  fix n assume "n < LENGTH(8)"
  then have "n \<in> {0, 1, 2, 3, 4, 5, 6, 7}" by auto
  then show "bit v n = bit w n" using assms by auto
qed

lemma sextets_small:
  fixes a b c :: u8
  shows "drop_bit 2 a < 64" "push_bit 4 (a AND 3) OR drop_bit 4 b < 64"
    "push_bit 2 (b AND 15) OR drop_bit 6 c < 64" "c AND 63 < 64" "push_bit 4 (a AND 3) < 64"
    "push_bit 2 (b AND 15) < 64"
proof -
  have small: "w < 64" if "\<not> bit w 6" "\<not> bit w 7" for w :: u8
  proof -
    have "n < 6" if n: "bit w n" for n
    proof (rule ccontr)
      assume "\<not> n < 6"
      then have "n = 6 \<or> n = 7" using bit_imp_le_length[OF n] by auto
      then show False using n \<open>\<not> bit w 6\<close> \<open>\<not> bit w 7\<close> by auto
    qed
    have "w = take_bit 6 w" by (intro bit_word_eqI) (auto simp: bit_simps \<open>\<And>n. bit w n \<Longrightarrow> n < 6\<close>)
    then have "unat w = unat w mod 2 ^ 6" by (metis take_bit_eq_mod unsigned_take_bit_eq)
    then show ?thesis by (simp add: word_less_nat_alt)
  qed
  show "drop_bit 2 a < 64" by (rule small) (simp_all add: bit_simps bit_u8_high)
  show "push_bit 4 (a AND 3) OR drop_bit 4 b < 64" by (rule small) (simp_all add: bit_simps bit_u8_high)
  show "push_bit 2 (b AND 15) OR drop_bit 6 c < 64" by (rule small) (simp_all add: bit_simps bit_u8_high)
  show "c AND 63 < 64" by (rule small) (simp_all add: bit_simps bit_u8_high)
  show "push_bit 4 (a AND 3) < 64" by (rule small) (simp_all add: bit_simps bit_u8_high)
  show "push_bit 2 (b AND 15) < 64" by (rule small) (simp_all add: bit_simps bit_u8_high)
qed

lemma b64_group:
  fixes a b c :: u8
  defines "acc \<equiv> (push_bit 6 (push_bit 6 (push_bit 6 (ucast (drop_bit 2 a) :: u32)
      OR ucast (push_bit 4 (a AND 3) OR drop_bit 4 b)) OR ucast (push_bit 2 (b AND 15) OR drop_bit 6 c))
      OR ucast (c AND 63))"
  shows "drop 1 (u32_be acc) = [a, b, c]"
  unfolding acc_def u32_be_def
  by (simp, intro conjI; rule u8_eqI) (simp_all add: bit_simps bit_u8_high)

lemma b64_tail2:
  fixes a b :: u8
  defines "acc \<equiv> (push_bit 6 (push_bit 6 (ucast (drop_bit 2 a) :: u32)
      OR ucast (push_bit 4 (a AND 3) OR drop_bit 4 b)) OR ucast (push_bit 2 (b AND 15)))"
  shows "[ucast (drop_bit 10 acc), ucast (drop_bit 2 acc)] = [a, b]"
  unfolding acc_def
  by (simp, intro conjI; rule u8_eqI) (simp_all add: bit_simps bit_u8_high)

lemma b64_tail1:
  fixes a :: u8
  defines "acc \<equiv> (push_bit 6 (ucast (drop_bit 2 a) :: u32) OR ucast (push_bit 4 (a AND 3)))"
  shows "ucast (drop_bit 4 acc) = a"
  unfolding acc_def by (rule u8_eqI) (simp_all add: bit_simps bit_u8_high)

lemma b64_run_append:
  "b64_run s (xs @ ys) = (case b64_run s xs of Inl e \<Rightarrow> Inl e | Inr s' \<Rightarrow> b64_run s' ys)"
  by (induction xs arbitrary: s) (auto split: sum.splits)

lemma b64_run_spaces: "b64_run s cs = b64_run s (filter (\<lambda>c. \<not> b64_space c) cs)"
proof (induction cs arbitrary: s)
  case (Cons c cs)
  then show ?case by (cases "b64_space c") (auto simp: b64_step_def split: sum.splits)
qed simp

lemma b64_step_pad: "b64_step s 61 = Inr (s\<lparr>b6_padding := b6_padding s + 1\<rparr>)"
  by (simp add: b64_step_def b64_space_def)

lemma b64_run_encode:
  "b6_acc s = 0 \<Longrightarrow> b6_bits s = 0 \<Longrightarrow> b6_padding s = 0 \<Longrightarrow>
     \<exists>s'. b64_run s (base64_encode xs) = Inr s' \<and> b64_finish s' = Inr (b6_out s @ xs)"
proof (induction xs arbitrary: s rule: base64_encode.induct)
  case (1 a b c rest)
  let ?s = "s\<lparr>b6_out := b6_out s @ [a, b, c], b6_acc := 0, b6_bits := 0\<rparr>"
  have "b64_run s (base64_encode (a # b # c # rest)) = b64_run ?s (base64_encode rest)"
    using "1.prems" b64_group[of a b c]
    by (simp add: b64_step_char sextets_small Let_def del: push_bit_and push_bit_or push_bit_numeral)
  then show ?case using "1.IH"[of ?s] "1.prems" by simp
next
  case (2 a b)
  then show ?case using b64_tail2[of a b]
    by (simp add: b64_step_char b64_step_pad sextets_small b64_finish_def Let_def
        del: push_bit_and push_bit_or push_bit_numeral)
next
  case (3 a)
  then show ?case using b64_tail1[of a]
    by (simp add: b64_step_char b64_step_pad sextets_small b64_finish_def Let_def
        del: push_bit_and push_bit_or push_bit_numeral)
qed (simp add: b64_finish_def)

text \<open>Whatever blanks and line breaks the text is wrapped with, it decodes to what was encoded.\<close>

lemma base64_roundtrip:
  assumes "filter (\<lambda>c. \<not> b64_space c) s = base64_encode der"
  shows "base64_decode s = Inr der"
  using b64_run_encode[of b64_init der] b64_run_spaces[of b64_init s] assms
  by (auto simp: base64_decode_def b64_init_def)

section \<open>Reading a bundle\<close>

lemma find_str_at:
  assumes "\<And>i. i < length n \<Longrightarrow> \<not> prefix pat (drop i n @ rest)" "prefix pat rest" "pat \<noteq> []"
  shows "find_str pat (n @ rest) = Some (length n)"
  using assms(1)
proof (induction n)
  case Nil
  then show ?case using assms(2,3) by (cases rest) auto
next
  case (Cons c n)
  have "\<not> prefix pat ((c # n) @ rest)" using Cons.prems[of 0] by simp
  moreover have "find_str pat (n @ rest) = Some (length n)"
    using Cons.prems[of "Suc i" for i] by (intro Cons.IH) auto
  ultimately show ?case by simp
qed

lemma find_str_None: "\<not> sublist pat s \<Longrightarrow> find_str pat s = None"
  by (induction s) (auto simp: sublist_Cons_right)

text \<open>Text between blocks: whole lines, none of which opens a block.\<close>

definition pem_noise :: "bytes \<Rightarrow> bytes \<Rightarrow> bool" where
  "pem_noise label n \<longleftrightarrow> (n = [] \<or> List.last n = 10) \<and> \<not> sublist (pem_begin label) n"

lemma find_begin:
  assumes "pem_noise label n" "10 \<notin> set label"
  shows "find_str (pem_begin label) (n @ pem_begin label @ rest) = Some (length n)"
proof (rule find_str_at)
  fix i assume i: "i < length n"
  have nl: "10 \<notin> set (pem_begin label)" using assms(2) by (auto simp: pem_begin_def ascii_def)
  have last: "List.last (drop i n) = 10" "drop i n \<noteq> []"
    using assms(1) i by (auto simp: pem_noise_def)
  show "\<not> prefix (pem_begin label) (drop i n @ pem_begin label @ rest)"
  proof
    assume "prefix (pem_begin label) (drop i n @ pem_begin label @ rest)"
    then consider "prefix (pem_begin label) (drop i n)" | "prefix (drop i n) (pem_begin label)"
      by (auto simp: prefix_append intro: prefixI)
    then show False
    proof cases
      case 1
      then have "sublist (pem_begin label) n"
        by (metis append_take_drop_id prefix_imp_sublist sublist_append_leftI sublist_order.order_trans)
      then show False using assms(1) by (simp add: pem_noise_def)
    next
      case 2
      then have "10 \<in> set (pem_begin label)"
        using last last_in_set[of "drop i n"] set_mono_prefix by fastforce
      then show False using nl by simp
    qed
  qed
qed (simp_all add: pem_begin_def ascii_def)

lemma find_end:
  assumes "45 \<notin> set body"
  shows "find_str (pem_end label) (body @ pem_end label @ rest) = Some (length body)"
proof (rule find_str_at)
  fix i assume i: "i < length body"
  have "body ! i \<noteq> 45" using assms nth_mem[OF i] by metis
  then have "hd (drop i body) \<noteq> 45" "drop i body \<noteq> []"
    using i by (auto simp: hd_drop_conv_nth)
  then show "\<not> prefix (pem_end label) (drop i body @ pem_end label @ rest)"
    by (cases "drop i body") (auto simp: pem_end_def ascii_def)
qed (simp_all add: pem_end_def ascii_def)

lemma base64_encode_no_dash: "45 \<notin> set (base64_encode xs)"
proof -
  have "b64_char v \<noteq> 45" if "v < 64" for v
    using sextet_char[OF that] by (auto simp: sextet_def)
  then show ?thesis
    by (induction xs rule: base64_encode.induct)
      (simp_all add: sextets_small neq_commute[of "45 :: u8"] del: push_bit_and push_bit_or push_bit_numeral)
qed

lemma wrapped_no_dash:
  assumes "filter (\<lambda>c. \<not> b64_space c) s = base64_encode der"
  shows "45 \<notin> set s"
proof
  assume "45 \<in> set s"
  then have "45 \<in> set (filter (\<lambda>c. \<not> b64_space c) s)" by (simp add: b64_space_def)
  then show False using base64_encode_no_dash by (simp add: assms)
qed

text \<open>A bundle: what stands before each block, the text between its markers, and the DER it encodes.\<close>

definition pem_item :: "bytes \<Rightarrow> bytes \<times> bytes \<times> bytes \<Rightarrow> bytes" where
  "pem_item label = (\<lambda>(n, body, der). n @ pem_begin label @ body @ pem_end label)"

definition pem_item_ok :: "bytes \<Rightarrow> bytes \<times> bytes \<times> bytes \<Rightarrow> bool" where
  "pem_item_ok label = (\<lambda>(n, body, der). pem_noise label n
     \<and> filter (\<lambda>c. \<not> b64_space c) body = base64_encode der)"

lemma pem_blocks_in_bundle:
  assumes "10 \<notin> set label" "\<not> sublist (pem_begin label) tail"
  shows "list_all (pem_item_ok label) items \<Longrightarrow>
     pem_blocks_in label (concat (map (pem_item label) items) @ tail) = Inr (map (snd \<circ> snd) items)"
proof (induction items)
  case Nil
  then show ?case using find_str_None[OF assms(2)] by (subst pem_blocks_in.simps) simp
next
  case (Cons x items)
  obtain n body der where x: "x = (n, body, der)" by (cases x)
  have ok: "pem_noise label n" "filter (\<lambda>c. \<not> b64_space c) body = base64_encode der"
    using Cons.prems x by (auto simp: pem_item_ok_def)
  let ?rest = "concat (map (pem_item label) items) @ tail"
  have "pem_blocks_in label (n @ pem_begin label @ body @ pem_end label @ ?rest)
      = (case pem_blocks_in label ?rest of Inl e \<Rightarrow> Inl e | Inr ders \<Rightarrow> Inr (der # ders))"
    using base64_roundtrip[OF ok(2)]
    by (subst pem_blocks_in.simps)
      (simp add: find_begin[OF ok(1) assms(1)] find_end[OF wrapped_no_dash[OF ok(2)]] Let_def)
  then show ?case using Cons.IH Cons.prems x by (simp add: pem_item_def)
qed

text \<open>
  C34. A bundle of certificates is read back whole and in order: whatever text stands between the blocks,
  as long as it is whole lines that open no other block, and however the base64 inside is wrapped.
\<close>
theorem pem_bundle_read:
  assumes "list_all (pem_item_ok PEM_CERTIFICATE) items" "items \<noteq> []"
    and "\<not> sublist (pem_begin PEM_CERTIFICATE) tail"
    and "utf8_valid (concat (map (pem_item PEM_CERTIFICATE) items) @ tail)"
  shows "pem_certificates (concat (map (pem_item PEM_CERTIFICATE) items) @ tail)
       = Inr (map (snd \<circ> snd) items)"
proof -
  have "10 \<notin> set PEM_CERTIFICATE" by (simp add: PEM_CERTIFICATE_def ascii_def)
  from pem_blocks_in_bundle[OF this assms(3,1)] show ?thesis
    using assms(2,4) by (simp add: pem_certificates_def pem_blocks_def)
qed

definition pem_sample :: "(bytes \<times> bytes \<times> bytes) list" where
  "pem_sample =
     [([], 10 # ascii ''TWFu'' @ [10], ascii ''Man''),
      (10 # ascii ''# an intermediate'' @ [10], [13, 10] @ ascii ''Zm9v'' @ [10] @ ascii ''Yg=='' @ [10], ascii ''foob'')]"

lemma pem_bundle_read_witness:
  "pem_certificates (concat (map (pem_item PEM_CERTIFICATE) pem_sample) @ [10])
     = Inr [ascii ''Man'', ascii ''foob'']"
proof -
  have "list_all (pem_item_ok PEM_CERTIFICATE) pem_sample" by code_simp
  moreover have "pem_sample \<noteq> []" by (simp add: pem_sample_def)
  moreover have "\<not> sublist (pem_begin PEM_CERTIFICATE) [10]" by code_simp
  moreover have "utf8_valid (concat (map (pem_item PEM_CERTIFICATE) pem_sample) @ [10])" by code_simp
  ultimately have "pem_certificates (concat (map (pem_item PEM_CERTIFICATE) pem_sample) @ [10])
      = Inr (map (snd \<circ> snd) pem_sample)"
    by (rule pem_bundle_read)
  then show ?thesis by (simp add: pem_sample_def)
qed

text \<open>The bits left over after the last octet are not looked at, nor is the number of padding characters.\<close>

lemma base64_leftover_bits:
  "base64_decode (ascii ''Zh'') = Inr [102]" "base64_decode (ascii ''Zg==='') = Inr [102]"
  "base64_encode [102] = ascii ''Zg==''"
  by code_simp+

end
