(* ===== verification/Tls_Setup.thy ===== *)
theory Tls_Setup
  imports Eap_Props Pem Conn_Data
begin

text \<open>
  From a profile to an 802.1X provider: the TLS configuration (\<^verbatim>\<open>src/crates/caw-eapol/src/eap/tls/mod.rs\<close>,
  lines 60 to 316, and \<^verbatim>\<open>tls/provider.rs\<close>), the constructors of the tunnel and of the three methods, and
  \<^verbatim>\<open>enterprise\<close> of \<^verbatim>\<open>src/crates/caw-core/src/auth.rs\<close>, which reads the files a profile names. What is
  \<^verbatim>\<open>rustls\<close>'s, the file system's or the kernel's is a field of \<open>tls_env\<close>: which crypto provider is
  installed, which certificates and keys it accepts, the connection it makes of a configuration, the files,
  and the random nonce. The configuration itself is a value, so what it checks can be read off.
\<close>

section \<open>Configurations\<close>

datatype private_key = Pkcs8 bytes | Pkcs1 bytes | Sec1 bytes

record client_certificate =
  ct_chain :: "bytes list"
  ct_key :: private_key

text \<open>\<^verbatim>\<open>find_map\<close> over the three labels: a label whose blocks do not decode is passed over.\<close>

definition private_key_in :: "bytes \<Rightarrow> bytes \<times> (bytes \<Rightarrow> private_key) \<Rightarrow> private_key option" where
  "private_key_in key_pem = (\<lambda>(label, wrap).
     case pem_blocks key_pem label of
       Inl _ \<Rightarrow> None
     | Inr [] \<Rightarrow> None
     | Inr (der # _) \<Rightarrow> Some (wrap der))"

definition KEY_LABELS :: "(bytes \<times> (bytes \<Rightarrow> private_key)) list" where
  "KEY_LABELS = [(ascii ''PRIVATE KEY'', Pkcs8), (ascii ''RSA PRIVATE KEY'', Pkcs1),
     (ascii ''EC PRIVATE KEY'', Sec1)]"

definition client_certificate_from_pem :: "bytes \<Rightarrow> bytes \<Rightarrow> eapol_error + client_certificate" where
  "client_certificate_from_pem certificate_pem key_pem =
     (case pem_certificates certificate_pem of
        Inl e \<Rightarrow> Inl e
      | Inr chain \<Rightarrow>
          (case find_map (private_key_in key_pem) KEY_LABELS of
             None \<Rightarrow> Inl Ee_CertificateStore
           | Some key \<Rightarrow> Inr \<lparr>ct_chain = chain, ct_key = key\<rparr>))"

record 'p tls_config =
  tc_server_name :: bytes
  tc_ca_certificates :: "bytes list"
  tc_client_certificate :: "client_certificate option"
  tc_crypto_provider :: "'p option"
  tc_fragment_size :: nat
  tc_accept_any :: bool

definition tls_config_new :: "bytes \<Rightarrow> 'p tls_config" where
  "tls_config_new server_name =
     \<lparr>tc_server_name = server_name, tc_ca_certificates = [], tc_client_certificate = None,
      tc_crypto_provider = None, tc_fragment_size = DEFAULT_FRAGMENT_SIZE, tc_accept_any = False\<rparr>"

definition with_ca_pem :: "'p tls_config \<Rightarrow> bytes \<Rightarrow> eapol_error + 'p tls_config" where
  "with_ca_pem cfg pem_bytes =
     (case pem_certificates pem_bytes of
        Inl e \<Rightarrow> Inl e
      | Inr certs \<Rightarrow> Inr (cfg\<lparr>tc_ca_certificates := tc_ca_certificates cfg @ certs\<rparr>))"

text \<open>What is handed to \<^verbatim>\<open>rustls\<close>: who is believed, and whether the station proves itself.\<close>

datatype verifier = Accept_Any | Trust_Roots "bytes list"

record 'p client_config =
  cc_provider :: 'p
  cc_tls12_only :: bool
  cc_verifier :: verifier
  cc_client_auth :: "client_certificate option"

record ('p, 't) tls_env =
  te_default_provider :: "'p option"
  te_versions :: "'p \<Rightarrow> bool \<Rightarrow> bool"
  te_add_root :: "bytes \<Rightarrow> bool"
  te_client_auth :: "client_certificate \<Rightarrow> bool"
  te_server_name :: "bytes \<Rightarrow> bool"
  te_connect :: "'p client_config \<Rightarrow> bytes \<Rightarrow> 't option"
  te_nonce :: "bytes option"
  te_read :: "bytes \<Rightarrow> string + bytes"
  te_text :: "eapol_error \<Rightarrow> string"

definition provider_resolve :: "('p, 't) tls_env \<Rightarrow> 'p option \<Rightarrow> eapol_error + 'p" where
  "provider_resolve R explicit =
     (case explicit of
        Some provider \<Rightarrow> Inr provider
      | None \<Rightarrow>
          (case te_default_provider R of None \<Rightarrow> Inl Ee_NoCryptoProvider | Some p \<Rightarrow> Inr p))"

definition tls_verifier :: "('p, 't) tls_env \<Rightarrow> 'p tls_config \<Rightarrow> eapol_error + verifier" where
  "tls_verifier R cfg =
     (if tc_accept_any cfg then Inr Accept_Any
      else if \<not> list_all (te_add_root R) (tc_ca_certificates cfg) then Inl Ee_CertificateStore
      else if tc_ca_certificates cfg = [] then Inl Ee_CertificateStore
      else Inr (Trust_Roots (tc_ca_certificates cfg)))"

definition tls_build ::
  "('p, 't) tls_env \<Rightarrow> 'p tls_config \<Rightarrow> bool \<Rightarrow> eapol_error + 'p client_config" where
  "tls_build R cfg tls12_only =
     (case provider_resolve R (tc_crypto_provider cfg) of
        Inl e \<Rightarrow> Inl e
      | Inr provider \<Rightarrow>
          if \<not> te_versions R provider tls12_only then Inl Ee_Tls
          else
            (case tls_verifier R cfg of
               Inl e \<Rightarrow> Inl e
             | Inr v \<Rightarrow>
                 let config = \<lparr>cc_provider = provider, cc_tls12_only = tls12_only, cc_verifier = v,
                               cc_client_auth = tc_client_certificate cfg\<rparr>
                 in (case tc_client_certificate cfg of
                       Some cert \<Rightarrow> if te_client_auth R cert then Inr config else Inl Ee_Tls
                     | None \<Rightarrow> Inr config)))"

definition tunnel_build ::
  "('p, 't) tls_env \<Rightarrow> 'p tls_config \<Rightarrow> bool \<Rightarrow> bool \<Rightarrow> eapol_error + 't tunnel" where
  "tunnel_build R cfg tls12_only mirror_version =
     (if \<not> te_server_name R (tc_server_name cfg) then Inl Ee_CertificateStore
      else
        (case tls_build R cfg tls12_only of
           Inl e \<Rightarrow> Inl e
         | Inr config \<Rightarrow>
             (case te_connect R config (tc_server_name cfg) of
                None \<Rightarrow> Inl Ee_Tls
              | Some conn \<Rightarrow>
                  Inr \<lparr>tn_conn = conn,
                       tn_exchange = exchange_new (tc_fragment_size cfg) mirror_version\<rparr>)))"

definition tunnel_new_any_version :: "('p, 't) tls_env \<Rightarrow> 'p tls_config \<Rightarrow> eapol_error + 't tunnel" where
  "tunnel_new_any_version R cfg = tunnel_build R cfg False False"

definition tunnel_new_tls12 :: "('p, 't) tls_env \<Rightarrow> 'p tls_config \<Rightarrow> eapol_error + 't tunnel" where
  "tunnel_new_tls12 R cfg = tunnel_build R cfg True True"

section \<open>The methods\<close>

definition eap_tls_new :: "('p, 't) tls_env \<Rightarrow> 'p tls_config \<Rightarrow> eapol_error + 't eap_tls" where
  "eap_tls_new R cfg =
     map_sum id (\<lambda>t. \<lparr>et_tunnel = t, et_msk = None\<rparr>) (tunnel_new_any_version R cfg)"

definition mschapv2_new :: "('p, 't) tls_env \<Rightarrow> bytes \<Rightarrow> bytes \<Rightarrow> eapol_error + mschapv2" where
  "mschapv2_new R username password =
     (case te_nonce R of
        None \<Rightarrow> Inl Ee_Io
      | Some nonce \<Rightarrow> Inr (mv_with_peer_challenge username password (take 16 nonce)))"

definition peap_new :: "('p, 't) tls_env \<Rightarrow> 'p tls_config \<Rightarrow> bytes \<Rightarrow> bytes \<Rightarrow> eapol_error + 't peap" where
  "peap_new R cfg identity password =
     (case tunnel_new_tls12 R cfg of
        Inl e \<Rightarrow> Inl e
      | Inr t \<Rightarrow>
          map_sum id (\<lambda>inner.
              \<lparr>pe_tunnel = t, pe_inner_identity = identity, pe_inner = inner, pe_tunnel_msk = None,
               pe_authenticated = False\<rparr>)
            (mschapv2_new R identity password))"

definition ttls_new :: "('p, 't) tls_env \<Rightarrow> 'p tls_config \<Rightarrow> bytes \<Rightarrow> bytes \<Rightarrow> eapol_error + 't ttls" where
  "ttls_new R cfg username password =
     map_sum id (\<lambda>t.
         \<lparr>tt_tunnel = t, tt_username = username, tt_password = password, tt_credentials_sent = False,
          tt_msk = None\<rparr>)
       (tunnel_new_tls12 R cfg)"

section \<open>The provider of a profile\<close>

text \<open>\<^verbatim>\<open>Box<dyn PmkProvider>\<close> over the three methods.\<close>

datatype 't provider = Pv_Peap "'t peap dot1x" | Pv_Ttls "'t ttls dot1x" | Pv_Tls "'t eap_tls dot1x"

definition read_file :: "('p, 't) tls_env \<Rightarrow> bytes \<Rightarrow> string + bytes" where
  "read_file R path = map_sum (\<lambda>e. map (\<lambda>b. char_of (unat b)) path @ '': '' @ e) id (te_read R path)"

definition provider_build ::
  "('p, 't) tls_env \<Rightarrow> bytes \<Rightarrow> bytes option \<Rightarrow> bytes \<Rightarrow> enterprise_method \<Rightarrow> bytes \<Rightarrow>
   string + 't provider" where
  "provider_build R identity anonymous_identity name meth ca =
     (case read_file R ca of
        Inl e \<Rightarrow> Inl e
      | Inr pem \<Rightarrow>
          (case with_ca_pem (tls_config_new name) pem of
             Inl e \<Rightarrow> Inl (te_text R e)
           | Inr config \<Rightarrow>
               let outer = (case anonymous_identity of Some a \<Rightarrow> a | None \<Rightarrow> identity)
               in case meth of
                    Peap password \<Rightarrow>
                      map_sum (te_text R) (\<lambda>m. Pv_Peap (dx_new outer m)) (peap_new R config identity password)
                  | Ttls password \<Rightarrow>
                      map_sum (te_text R) (\<lambda>m. Pv_Ttls (dx_new outer m)) (ttls_new R config identity password)
                  | Tls client_cert key \<Rightarrow>
                      (case read_file R client_cert of
                         Inl e \<Rightarrow> Inl e
                       | Inr cert \<Rightarrow>
                           (case read_file R key of
                              Inl e \<Rightarrow> Inl e
                            | Inr key_pem \<Rightarrow>
                                (case client_certificate_from_pem cert key_pem of
                                   Inl e \<Rightarrow> Inl (te_text R e)
                                 | Inr c \<Rightarrow>
                                     map_sum (te_text R) (\<lambda>m. Pv_Tls (dx_new outer m))
                                       (eap_tls_new R (config\<lparr>tc_client_certificate := Some c\<rparr>)))))))"

definition provider_step ::
  "'t tls_ops \<Rightarrow> ms_prims \<Rightarrow> 't provider \<Rightarrow> dot1x_input \<Rightarrow>
   ('t provider \<times> (crypto_error + pstep) list) option" where
  "provider_step T M d i =
     (case d of
        Pv_Peap s \<Rightarrow> map_option (map_prod Pv_Peap id) (dx_step (peap_ops T M) s i)
      | Pv_Ttls s \<Rightarrow> map_option (map_prod Pv_Ttls id) (dx_step (ttls_ops T) s i)
      | Pv_Tls s \<Rightarrow> map_option (map_prod Pv_Tls id) (dx_step (eap_tls_ops T) s i))"

section \<open>The connection a key comes from\<close>

text \<open>What a \<^verbatim>\<open>rustls\<close> connection becomes through its buffer interface.\<close>

inductive tls_reach :: "'t tls_ops \<Rightarrow> 't \<Rightarrow> 't \<Rightarrow> bool" for T and c0 where
  reach_start: "tls_reach T c0 c0"
| reach_read: "tls_reach T c0 c \<Longrightarrow> tls_reach T c0 (fst (tl_read_tls T c bs))"
| reach_process: "tls_reach T c0 c \<Longrightarrow> tls_reach T c0 (fst (tl_process T c))"
| reach_write: "tls_reach T c0 c \<Longrightarrow> tls_reach T c0 (fst (tl_write_tls T c))"
| reach_write_plain: "tls_reach T c0 c \<Longrightarrow> tls_reach T c0 (fst (tl_write_plain T c bs))"
| reach_read_plain: "tls_reach T c0 c \<Longrightarrow> tls_reach T c0 (fst (tl_read_plain T c))"
| reach_close: "tls_reach T c0 c \<Longrightarrow> tls_reach T c0 (tl_close_notify T c)"

lemma reach_fst:
  "tl_read_tls T c bs = (c', r) \<Longrightarrow> tls_reach T c0 c \<Longrightarrow> tls_reach T c0 c'"
  "tl_process T c = (c', b) \<Longrightarrow> tls_reach T c0 c \<Longrightarrow> tls_reach T c0 c'"
  "tl_write_plain T c bs = (c', b) \<Longrightarrow> tls_reach T c0 c \<Longrightarrow> tls_reach T c0 c'"
  by (metis fst_conv reach_read, metis fst_conv reach_process, metis fst_conv reach_write_plain)

lemma drain_tls_reach:
  assumes "drain_tls T c out = Some r" "tls_reach T c0 c"
  shows "tls_reach T c0 (fst r)"
proof -
  have "tls_reach T c0 c \<longrightarrow> tls_reach T c0 (fst r)"
    by (rule drain_tls.raw_induct[where P = "\<lambda>T c out r. tls_reach T c0 c \<longrightarrow> tls_reach T c0 (fst r)",
          OF _ assms(1)])
      (auto simp: Let_def reach_write split: if_splits option.splits)
  then show ?thesis using assms(2) by simp
qed

lemma drain_plaintext_reach:
  assumes "drain_plaintext T c out = Some r" "tls_reach T c0 c"
  shows "tls_reach T c0 (fst r)"
proof -
  have "tls_reach T c0 c \<longrightarrow> tls_reach T c0 (fst r)"
    by (rule drain_plaintext.raw_induct[where P = "\<lambda>T c out r. tls_reach T c0 c \<longrightarrow> tls_reach T c0 (fst r)",
          OF _ assms(1)])
      (auto simp: Let_def reach_read_plain split: if_splits tls_read.splits)
  then show ?thesis using assms(2) by simp
qed

lemma feed_tls_reach: "tls_reach T c0 c \<Longrightarrow> tls_reach T c0 (fst (feed_tls T c cursor))"
proof (induction T c cursor rule: feed_tls.induct)
  case (1 T c cursor)
  obtain c1 n where r: "tl_read_tls T c cursor = (c1, n)" by (cases "tl_read_tls T c cursor")
  obtain c2 b where p: "tl_process T c1 = (c2, b)" by (cases "tl_process T c1")
  have c12: "tls_reach T c0 c1" "tls_reach T c0 c2"
    using reach_fst(1)[OF r] reach_fst(2)[OF p] "1.prems" by blast+
  then show ?case
    using "1.IH"[OF _ r[symmetric] _ _ p[symmetric]] "1.prems" r p
    by (subst feed_tls.simps) (auto split: option.splits bool.splits)
qed

lemma flush_reach:
  assumes "flush_or_established T t = Some (t', r)" "tls_reach T c0 (tn_conn t)"
  shows "tls_reach T c0 (tn_conn t')"
  using assms
  by (auto simp: flush_or_established_def Let_def dest!: drain_tls_reach drain_plaintext_reach
      split: option.splits sum.splits prod.splits if_splits)

lemma tn_on_request_reach:
  assumes "tn_on_request T t td = Some (t', r)" "tls_reach T c0 (tn_conn t)"
  shows "tls_reach T c0 (tn_conn t')"
  using assms feed_tls_reach[OF assms(2)]
  by (auto simp: tn_on_request_def dest!: flush_reach split: option.splits sum.splits prod.splits incoming.splits)
    (metis fst_conv)+

lemma send_tunnelled_reach:
  assumes "send_tunnelled T t p = Some (t', r)" "tls_reach T c0 (tn_conn t)"
  shows "tls_reach T c0 (tn_conn t')"
  using assms
  by (auto simp: send_tunnelled_def dest!: reach_fst(3) drain_tls_reach
      split: option.splits sum.splits prod.splits bool.splits)

lemma close_notify_reach:
  assumes "close_notify T t = Some (t', r)" "tls_reach T c0 (tn_conn t)"
  shows "tls_reach T c0 (tn_conn t')"
  using assms
  by (auto simp: close_notify_def Let_def dest!: drain_tls_reach dest: reach_close
      split: option.splits sum.splits prod.splits)

definition finished_from :: "'t tls_ops \<Rightarrow> 't \<Rightarrow> 't \<Rightarrow> bool" where
  "finished_from T c0 conn \<longleftrightarrow>
     (\<exists>c p. tls_reach T c0 c \<and> \<not> tl_handshaking T c \<and> drain_plaintext T c [] = Some (conn, Inr p))"

definition keyed_from :: "'t tls_ops \<Rightarrow> 't \<Rightarrow> u8 \<Rightarrow> bytes \<Rightarrow> bytes option \<Rightarrow> bool" where
  "keyed_from T c0 ty label k \<longleftrightarrow>
     (\<forall>key. k = Some key \<longrightarrow>
        (\<exists>conn. finished_from T c0 conn \<and> export_msk T conn ty label = Inr key) \<and> length key = MSK_LEN)"

lemma keyed_from_length: "keyed_from T c0 ty l (Some k) \<Longrightarrow> length k = MSK_LEN"
  by (simp add: keyed_from_def)

lemma flush_established_from:
  assumes "flush_or_established T t = Some (t', Inr (Te_Established p))" "tls_reach T c0 (tn_conn t)"
  shows "finished_from T c0 (tn_conn t')"
  using assms
  by (auto simp: flush_or_established_def finished_from_def Let_def dest!: drain_tls_reach
      split: option.splits sum.splits prod.splits if_splits)

lemma tn_established_from:
  assumes "tn_on_request T t td = Some (t', Inr (Te_Established p))" "tls_reach T c0 (tn_conn t)"
  shows "finished_from T c0 (tn_conn t')"
  using assms feed_tls_reach[OF assms(2)]
  by (auto simp: tn_on_request_def dest!: flush_established_from
      split: option.splits sum.splits prod.splits incoming.splits) (metis fst_conv)+

lemma keyed_export_from:
  assumes "tls_ok T" "keyed_from T c0 ty l old" "finished_from T c0 conn"
    and "(case old of Some k \<Rightarrow> Inr k | None \<Rightarrow> export_msk T conn ty l) = Inr k"
  shows "keyed_from T c0 ty l (Some k)"
  using assms export_msk_length[OF assms(1)] by (auto simp: keyed_from_def split: option.splits)

definition et_from :: "'t tls_ops \<Rightarrow> 't \<Rightarrow> 't eap_tls \<Rightarrow> bool" where
  "et_from T c0 m \<longleftrightarrow> tls_ok T \<and> tls_reach T c0 (tn_conn (et_tunnel m))
     \<and> keyed_from T c0 EAP_TLS TLS12_LABEL_EAP_TLS (et_msk m)"

lemma et_on_request_from:
  assumes "et_from T c0 m" "et_on_request T m td = Some (m', r)"
  shows "et_from T c0 m'"
proof -
  obtain t e where t: "tn_on_request T (et_tunnel m) td = Some (t, e)"
    using assms(2) by (auto simp: et_on_request_def split: option.splits)
  have reach: "tls_reach T c0 (tn_conn t)"
    using tn_on_request_reach[OF t] assms(1) by (simp add: et_from_def)
  consider (same) "et_tunnel m' = t" "et_msk m' = et_msk m"
    | (key) p k where "e = Inr (Te_Established p)" "et_msk m' = Some k"
        "(case et_msk m of Some k \<Rightarrow> Inr k | None \<Rightarrow> export_msk T (tn_conn t) EAP_TLS TLS12_LABEL_EAP_TLS) = Inr k"
        "et_tunnel m' = t \<or> (\<exists>r. close_notify T t = Some (et_tunnel m', r))"
    using assms(2) t
    by (auto simp: et_on_request_def Let_def
        split: option.splits sum.splits prod.splits tunnel_event.splits if_splits)
  then show ?thesis
  proof cases
    case key
    then have "keyed_from T c0 EAP_TLS TLS12_LABEL_EAP_TLS (Some k)"
      using keyed_export_from[OF _ _ tn_established_from] t assms(1) unfolding et_from_def by metis
    then show ?thesis
      using key reach assms(1) close_notify_reach by (fastforce simp: et_from_def)
  qed (use assms(1) reach in \<open>simp add: et_from_def\<close>)
qed

interpretation eap_tls_from:
  eap_method "eap_tls_ops T" "et_from T c0" "\<lambda>m. keyed_from T c0 EAP_TLS TLS12_LABEL_EAP_TLS (et_msk m)"
  for T :: "'t tls_ops" and c0 :: 't
proof
  fix m td m' r
  assume "et_from T c0 m" "em_on_request (eap_tls_ops T) m td = Some (m', r)"
  then show "et_from T c0 m'" by (auto simp: eap_tls_ops_def intro: et_on_request_from)
qed (auto simp: eap_tls_ops_def et_from_def keyed_from_length)

definition tt_from :: "'t tls_ops \<Rightarrow> 't \<Rightarrow> 't ttls \<Rightarrow> bool" where
  "tt_from T c0 m \<longleftrightarrow> tls_ok T \<and> tls_reach T c0 (tn_conn (tt_tunnel m))
     \<and> keyed_from T c0 EAP_TTLS TLS12_LABEL_TTLS (tt_msk m)"

lemma tt_on_request_from:
  assumes "tt_from T c0 m" "tt_on_request T m td = Some (m', r)"
  shows "tt_from T c0 m'"
proof -
  obtain t e where t: "tn_on_request T (tt_tunnel m) td = Some (t, e)"
    using assms(2) by (auto simp: tt_on_request_def split: option.splits)
  have reach: "tls_reach T c0 (tn_conn t)"
    using tn_on_request_reach[OF t] assms(1) by (simp add: tt_from_def)
  consider (same) "tt_tunnel m' = t" "tt_msk m' = tt_msk m"
    | (key) p k r where "e = Inr (Te_Established p)" "tt_msk m' = Some k"
        "export_msk T (tn_conn t) EAP_TTLS TLS12_LABEL_TTLS = Inr k"
        "send_tunnelled T t (ttls_credentials (m\<lparr>tt_tunnel := t, tt_msk := Some k, tt_credentials_sent := True\<rparr>))
           = Some (tt_tunnel m', r)"
    using assms(2) t
    by (auto simp: tt_on_request_def Let_def
        split: option.splits sum.splits prod.splits tunnel_event.splits if_splits)
  then show ?thesis
  proof cases
    case key
    have "finished_from T c0 (tn_conn t)"
      using tn_established_from t key(1) assms(1) unfolding tt_from_def by metis
    then have "keyed_from T c0 EAP_TTLS TLS12_LABEL_TTLS (Some k)"
      using key(3) export_msk_length assms(1) unfolding keyed_from_def tt_from_def by fastforce
    then show ?thesis
      using key reach assms(1) send_tunnelled_reach[OF key(4)] by (simp add: tt_from_def)
  qed (use assms(1) reach in \<open>simp add: tt_from_def\<close>)
qed

interpretation ttls_from:
  eap_method "ttls_ops T" "tt_from T c0" "\<lambda>m. keyed_from T c0 EAP_TTLS TLS12_LABEL_TTLS (tt_msk m)"
  for T :: "'t tls_ops" and c0 :: 't
proof
  fix m td m' r
  assume "tt_from T c0 m" "em_on_request (ttls_ops T) m td = Some (m', r)"
  then show "tt_from T c0 m'" by (auto simp: ttls_ops_def intro: tt_on_request_from)
qed (auto simp: ttls_ops_def tt_from_def keyed_from_length)

definition pe_from :: "'t tls_ops \<Rightarrow> 't \<Rightarrow> 't peap \<Rightarrow> bool" where
  "pe_from T c0 m \<longleftrightarrow> tls_ok T \<and> tls_reach T c0 (tn_conn (pe_tunnel m))
     \<and> keyed_from T c0 EAP_PEAP TLS12_LABEL_EAP_TLS (pe_tunnel_msk m)
     \<and> (pe_authenticated m \<longrightarrow> mv_authenticated (pe_inner m))"

lemma pe_on_request_from:
  assumes "pe_from T c0 m" "pe_on_request T M m d = Some (m', r)"
  shows "pe_from T c0 m'"
proof -
  obtain t e where t: "tn_on_request T (pe_tunnel m) d = Some (t, e)"
    using assms(2) by (auto simp: pe_on_request_def split: option.splits)
  have reach: "tls_reach T c0 (tn_conn t)"
    using tn_on_request_reach[OF t] assms(1) by (simp add: pe_from_def)
  consider (same) "pe_tunnel m' = t" "pe_tunnel_msk m' = pe_tunnel_msk m" "pe_inner m' = pe_inner m"
      "pe_authenticated m' = pe_authenticated m"
    | (est) p k m1 m2 where "e = Inr (Te_Established p)" "m1 = m\<lparr>pe_tunnel := t, pe_tunnel_msk := Some k\<rparr>"
      "(case pe_tunnel_msk m of Some k \<Rightarrow> Inr k
         | None \<Rightarrow> export_msk T (tn_conn t) EAP_PEAP TLS12_LABEL_EAP_TLS) = Inr k"
      "m2 = m1 \<or> (\<exists>r. pe_phase2 M m1 p = Some (m2, r))"
      "pe_tunnel m' = pe_tunnel m2 \<or> (\<exists>x r. send_tunnelled T (pe_tunnel m2) x = Some (pe_tunnel m', r))"
      "pe_tunnel_msk m' = pe_tunnel_msk m2" "pe_inner m' = pe_inner m2"
      "pe_authenticated m' = pe_authenticated m2"
    using assms(2) t
    by (auto simp: pe_on_request_def Let_def split: option.splits sum.splits prod.splits
        tunnel_event.splits if_splits; blast)
  then show ?thesis
  proof cases
    case est
    have "keyed_from T c0 EAP_PEAP TLS12_LABEL_EAP_TLS (Some k)"
      using keyed_export_from[OF _ _ tn_established_from] t est(1,3) assms(1) unfolding pe_from_def by metis
    moreover have "pe_tunnel m2 = t" "pe_tunnel_msk m2 = Some k"
      "pe_authenticated m2 \<longrightarrow> mv_authenticated (pe_inner m2)"
      using est(2,4) assms(1) pe_phase2_auth[of M m1 p m2] by (auto simp: pe_from_def)
    ultimately show ?thesis
      using est reach assms(1) send_tunnelled_reach by (fastforce simp: pe_from_def)
  qed (use assms(1) reach in \<open>simp add: pe_from_def\<close>)
qed

interpretation peap_from:
  eap_method "peap_ops T M" "pe_from T c0"
    "\<lambda>m. mv_authenticated (pe_inner m) \<and> keyed_from T c0 EAP_PEAP TLS12_LABEL_EAP_TLS (pe_tunnel_msk m)"
  for T :: "'t tls_ops" and M :: ms_prims and c0 :: 't
proof
  fix m td m' r
  assume "pe_from T c0 m" "em_on_request (peap_ops T M) m td = Some (m', r)"
  then show "pe_from T c0 m'" by (auto simp: peap_ops_def intro: pe_on_request_from)
qed (auto simp: peap_ops_def pe_msk_def pe_from_def keyed_from_length split: if_splits)

context eap_method
begin

lemma run_done:
  "run_machine (dx_step ops) s is = Some (s', out) \<Longrightarrow> inv (dx_method s) \<Longrightarrow>
     Inr (Step_Done k) \<in> set out \<Longrightarrow>
     \<exists>m msk. inv m \<and> proven m \<and> em_msk ops m = Some msk \<and> k = take 32 msk \<and> length k = 32"
proof (induction "is" arbitrary: s out)
  case (Cons i "is")
  obtain s1 o1 o2 where s1: "dx_step ops s i = Some (s1, o1)"
    and r: "run_machine (dx_step ops) s1 is = Some (s', o2)" and out: "out = o1 @ o2"
    using Cons.prems(1) by (auto split: option.splits)
  have inv1: "inv (dx_method s1)"
    using s1 Cons.prems(2) frame_inv
    by (auto simp: dx_step_def dx_timeout_def Let_def split: dot1x_input.splits if_splits)
  show ?case
  proof (cases "Inr (Step_Done k) \<in> set o1")
    case True
    then obtain f where "dx_frame ops s f = Some (s1, Inr (Step_Done k))"
      using s1 by (auto simp: dx_step_def dx_timeout_def Let_def split: dot1x_input.splits if_splits)
    from frame_done[OF Cons.prems(2) this] show ?thesis using Cons.prems(2) by blast
  next
    case False
    then show ?thesis using Cons.IH[OF r inv1] Cons.prems(3) out by auto
  qed
qed simp

end

section \<open>What a provider of a profile guarantees\<close>

definition provider_conn :: "'t provider \<Rightarrow> 't" where
  "provider_conn d =
     (case d of
        Pv_Peap s \<Rightarrow> tn_conn (pe_tunnel (dx_method s))
      | Pv_Ttls s \<Rightarrow> tn_conn (tt_tunnel (dx_method s))
      | Pv_Tls s \<Rightarrow> tn_conn (et_tunnel (dx_method s)))"

definition provider_identity :: "'t provider \<Rightarrow> bytes" where
  "provider_identity d =
     (case d of Pv_Peap s \<Rightarrow> dx_identity s | Pv_Ttls s \<Rightarrow> dx_identity s | Pv_Tls s \<Rightarrow> dx_identity s)"

text \<open>
  A configuration that believes only the certificates of the file \<open>ca\<close>, of which there is one, and none that
  \<^verbatim>\<open>rustls\<close> refused.
\<close>

definition validated_by :: "('p, 't) tls_env \<Rightarrow> bytes \<Rightarrow> 'p client_config \<Rightarrow> bool" where
  "validated_by R ca config \<longleftrightarrow>
     (\<exists>pem ders. te_read R ca = Inr pem \<and> pem_certificates pem = Inr ders \<and> ders \<noteq> []
        \<and> list_all (te_add_root R) ders \<and> cc_verifier config = Trust_Roots ders)"

definition is_tls :: "enterprise_method \<Rightarrow> bool" where
  "is_tls m \<longleftrightarrow> (case m of Tls _ _ \<Rightarrow> True | _ \<Rightarrow> False)"

lemma tunnel_buildE:
  assumes "tunnel_build R cfg old mirror = Inr t"
  obtains config where "te_server_name R (tc_server_name cfg)"
    "te_connect R config (tc_server_name cfg) = Some (tn_conn t)" "cc_tls12_only config = old"
    "tls_verifier R cfg = Inr (cc_verifier config)" "cc_client_auth config = tc_client_certificate cfg"
  using assms
  by (auto simp: tunnel_build_def tls_build_def Let_def split: if_splits sum.splits option.splits)

lemma with_ca_verifier:
  assumes "with_ca_pem (tls_config_new name) pem = Inr cfg" "te_read R ca = Inr pem"
    and "tls_verifier R cfg' = Inr (cc_verifier config)"
    and "tc_accept_any cfg' = tc_accept_any cfg" "tc_ca_certificates cfg' = tc_ca_certificates cfg"
  shows "validated_by R ca config"
  using assms
  by (auto simp: with_ca_pem_def tls_config_new_def tls_verifier_def validated_by_def
      split: sum.splits if_splits)

text \<open>The state a provider starts in satisfies what its EAP method needs.\<close>

definition provider_from :: "'t tls_ops \<Rightarrow> 't \<Rightarrow> 't provider \<Rightarrow> bool" where
  "provider_from T c0 d \<longleftrightarrow>
     (case d of
        Pv_Peap s \<Rightarrow> pe_from T c0 (dx_method s)
      | Pv_Ttls s \<Rightarrow> tt_from T c0 (dx_method s)
      | Pv_Tls s \<Rightarrow> et_from T c0 (dx_method s))"

lemma provider_built:
  fixes R :: "('p, 't) tls_env"
  assumes "provider_build R identity anon name meth ca = Inr d"
  shows "\<exists>config. te_server_name R name \<and> te_connect R config name = Some (provider_conn d)
     \<and> validated_by R ca config \<and> cc_tls12_only config = (\<not> is_tls meth)
     \<and> (cc_client_auth config \<noteq> None) = is_tls meth
     \<and> provider_identity d = (case anon of Some a \<Rightarrow> a | None \<Rightarrow> identity)
     \<and> (tls_ok T \<longrightarrow> provider_from T (provider_conn d) d)
     \<and> ((\<exists>s. d = Pv_Peap s) \<longleftrightarrow> (\<exists>pw. meth = Peap pw))"
proof -
  have "\<exists>pem cfg. te_read R ca = Inr pem \<and> with_ca_pem (tls_config_new name :: 'p tls_config) pem = Inr cfg"
    using assms by (auto simp: provider_build_def read_file_def split: sum.splits)
  then obtain pem cfg where pem: "te_read R ca = Inr pem"
    and cfg: "with_ca_pem (tls_config_new name :: 'p tls_config) pem = Inr cfg" by blast
  have cfg_eq: "tc_server_name cfg = name" "tc_client_certificate cfg = None"
    using cfg by (auto simp: with_ca_pem_def tls_config_new_def split: sum.splits)
  let ?outer = "case anon of Some a \<Rightarrow> a | None \<Rightarrow> identity"
  note built = assms[unfolded provider_build_def read_file_def Let_def, simplified pem cfg, simplified]
  show ?thesis
  proof (cases meth)
    case (Peap pw)
    then obtain m where m: "peap_new R cfg identity pw = Inr m" and d: "d = Pv_Peap (dx_new ?outer m)"
      using built cfg pem by (auto simp: map_sum_eq_Inr)
    obtain t where t: "tunnel_build R cfg True True = Inr t" and m': "pe_tunnel m = t" "pe_tunnel_msk m = None"
      "\<not> pe_authenticated m"
      using m by (auto simp: peap_new_def tunnel_new_tls12_def map_sum_eq_Inr split: sum.splits)
    from tunnel_buildE[OF t] obtain config where c: "te_server_name R name"
      "te_connect R config name = Some (tn_conn t)" "cc_tls12_only config"
      "tls_verifier R cfg = Inr (cc_verifier config)" "cc_client_auth config = None"
      unfolding cfg_eq by (metis (full_types))
    have "validated_by R ca config" by (rule with_ca_verifier[OF cfg pem c(4)]) simp_all
    then show ?thesis using c d m' Peap
      by (intro exI[of _ config])
        (auto simp: provider_conn_def provider_identity_def provider_from_def is_tls_def dx_new_def
          pe_from_def keyed_from_def reach_start)
  next
    case (Ttls pw)
    then obtain m where m: "ttls_new R cfg identity pw = Inr m" and d: "d = Pv_Ttls (dx_new ?outer m)"
      using built cfg pem by (auto simp: map_sum_eq_Inr)
    obtain t where t: "tunnel_build R cfg True True = Inr t" and m': "tt_tunnel m = t" "tt_msk m = None"
      using m by (auto simp: ttls_new_def tunnel_new_tls12_def map_sum_eq_Inr)
    from tunnel_buildE[OF t] obtain config where c: "te_server_name R name"
      "te_connect R config name = Some (tn_conn t)" "cc_tls12_only config"
      "tls_verifier R cfg = Inr (cc_verifier config)" "cc_client_auth config = None"
      unfolding cfg_eq by (metis (full_types))
    have "validated_by R ca config" by (rule with_ca_verifier[OF cfg pem c(4)]) simp_all
    then show ?thesis using c d m' Ttls
      by (intro exI[of _ config])
        (auto simp: provider_conn_def provider_identity_def provider_from_def is_tls_def dx_new_def
          tt_from_def keyed_from_def reach_start)
  next
    case (Tls cert key)
    then obtain m cc where m: "eap_tls_new R (cfg\<lparr>tc_client_certificate := Some cc\<rparr>) = Inr m"
      and d: "d = Pv_Tls (dx_new ?outer m)"
      using built cfg pem by (auto simp: map_sum_eq_Inr split: sum.splits)
    let ?cfg = "cfg\<lparr>tc_client_certificate := Some cc\<rparr>"
    obtain t where t: "tunnel_build R ?cfg False False = Inr t" and m': "et_tunnel m = t" "et_msk m = None"
      using m by (auto simp: eap_tls_new_def tunnel_new_any_version_def map_sum_eq_Inr)
    from tunnel_buildE[OF t] obtain config where c: "te_server_name R name"
      "te_connect R config name = Some (tn_conn t)" "\<not> cc_tls12_only config"
      "tls_verifier R ?cfg = Inr (cc_verifier config)" "cc_client_auth config = Some cc"
      using cfg_eq by (metis (full_types) tls_config.select_convs(1,3) tls_config.surjective
          tls_config.update_convs(3))
    have "validated_by R ca config" by (rule with_ca_verifier[OF cfg pem c(4)]) simp_all
    then show ?thesis using c d m' Tls
      by (intro exI[of _ config])
        (auto simp: provider_conn_def provider_identity_def provider_from_def is_tls_def dx_new_def
          et_from_def keyed_from_def reach_start)
  qed
qed

lemma run_machine_map:
  assumes "\<And>s i. step' (f s) i = map_option (map_prod f id) (step s i)"
  shows "run_machine step' (f s) is = map_option (map_prod f id) (run_machine step s is)"
proof (induction "is" arbitrary: s)
  case (Cons i "is")
  then show ?case
    by (cases "step s i") (auto simp: assms option.map_comp comp_def case_prod_unfold map_prod_def)
qed simp

lemma provider_run:
  "run_machine (provider_step T M) (Pv_Peap p) is
     = map_option (map_prod Pv_Peap id) (run_machine (dx_step (peap_ops T M)) p is)"
  "run_machine (provider_step T M) (Pv_Ttls t) is
     = map_option (map_prod Pv_Ttls id) (run_machine (dx_step (ttls_ops T)) t is)"
  "run_machine (provider_step T M) (Pv_Tls e) is
     = map_option (map_prod Pv_Tls id) (run_machine (dx_step (eap_tls_ops T)) e is)"
  by (rule run_machine_map, simp add: provider_step_def)+

lemma provider_run_key:
  assumes "provider_from T c0 d" "run_machine (provider_step T M) d is = Some (d', out)"
    and "Inr (Step_Done pmk) \<in> set out"
  shows "keys out = 1 \<and> (\<exists>conn ty label msk. finished_from T c0 conn
     \<and> export_msk T conn ty label = Inr msk \<and> pmk = take 32 msk \<and> length pmk = 32)"
proof -
  have "is_key (Inr (Step_Done pmk))" by (simp add: is_key_def)
  then have pos: "0 < keys out" using assms(3) by (auto simp: keys_def filter_empty_conv)
  have at_most: "keys out \<le> 1" if "run_machine (dx_step ops) s is = Some (s', out)" for ops s s'
    using dx_run_keys[OF that] by (auto split: if_splits)
  show ?thesis
  proof (cases d)
    case (Pv_Peap s)
    then obtain s' where r: "run_machine (dx_step (peap_ops T M)) s is = Some (s', out)"
      using assms(2) by (auto simp: provider_run)
    have "pe_from T c0 (dx_method s)" using assms(1) Pv_Peap by (simp add: provider_from_def)
    from peap_from.run_done[OF r this assms(3)] at_most[OF r] pos show ?thesis
      by (fastforce simp: peap_ops_def pe_msk_def keyed_from_def split: if_splits)
  next
    case (Pv_Ttls s)
    then obtain s' where r: "run_machine (dx_step (ttls_ops T)) s is = Some (s', out)"
      using assms(2) by (auto simp: provider_run)
    have "tt_from T c0 (dx_method s)" using assms(1) Pv_Ttls by (simp add: provider_from_def)
    from ttls_from.run_done[OF r this assms(3)] at_most[OF r] pos show ?thesis
      by (fastforce simp: ttls_ops_def keyed_from_def)
  next
    case (Pv_Tls s)
    then obtain s' where r: "run_machine (dx_step (eap_tls_ops T)) s is = Some (s', out)"
      using assms(2) by (auto simp: provider_run)
    have "et_from T c0 (dx_method s)" using assms(1) Pv_Tls by (simp add: provider_from_def)
    from eap_tls_from.run_done[OF r this assms(3)] at_most[OF r] pos show ?thesis
      by (fastforce simp: eap_tls_ops_def keyed_from_def)
  qed
qed

lemma enterprise_built:
  assumes "dx_build (env_dot1x E) = provider_build R"
    and "enterprise E identity anon server_name meth ca_cert = Inr d"
  shows "\<exists>name ca. ca_cert = Some ca \<and> provider_build R identity anon name meth ca = Inr d
     \<and> (case server_name of Some n \<Rightarrow> Some n
        | None \<Rightarrow> realm_of (case anon of Some a \<Rightarrow> a | None \<Rightarrow> identity)) = Some name"
  using assms by (auto simp: enterprise_def split: if_splits option.splits)

lemma realm_of_Some: "realm_of identity = Some r \<Longrightarrow>
    r \<noteq> [] \<and> (\<exists>user. identity = user @ 64 # r \<and> 64 \<notin> set user)"
proof -
  assume r: "realm_of identity = Some r"
  then obtain c where d: "dropWhile (\<lambda>c. c \<noteq> 64) identity = c # r" and "r \<noteq> []"
    by (auto simp: realm_of_def split: list.splits if_splits)
  moreover have "c = 64" using d hd_dropWhile[of "\<lambda>c. c \<noteq> 64" identity] by auto
  moreover have "64 \<notin> set (takeWhile (\<lambda>c. c \<noteq> 64) identity)" by (auto dest: set_takeWhileD)
  ultimately show ?thesis
    using takeWhile_dropWhile_id[of "\<lambda>c. c \<noteq> 64" identity] by metis
qed

text \<open>
  C7. An Enterprise profile never leads to a tunnel that believes anyone. Whenever the connection gets a
  provider for a profile, its TLS connection was made for a name that comes from the profile (the server
  name, or else the realm of the identity sent in clear) with a configuration whose roots are exactly the
  certificates of the profile's CA file, at least one of them; PEAP and TTLS offer TLS 1.2 only, EAP-TLS
  presents a client certificate, and the identity sent outside the tunnel is the anonymous one where the
  profile has one.
\<close>
theorem enterprise_validates:
  assumes "dx_build (env_dot1x E) = provider_build R"
    and "enterprise E identity anon server_name meth ca_cert = Inr d"
  shows "\<exists>name ca config.
     ca_cert = Some ca
     \<and> (server_name = Some name
        \<or> server_name = None \<and> name \<noteq> [] \<and> (\<exists>user. 64 \<notin> set user
             \<and> (case anon of Some a \<Rightarrow> a | None \<Rightarrow> identity) = user @ 64 # name))
     \<and> te_server_name R name
     \<and> te_connect R config name = Some (provider_conn d) \<and> validated_by R ca config
     \<and> cc_tls12_only config = (\<not> is_tls meth) \<and> (cc_client_auth config \<noteq> None) = is_tls meth
     \<and> provider_identity d = (case anon of Some a \<Rightarrow> a | None \<Rightarrow> identity)"
proof -
  obtain name ca where b: "ca_cert = Some ca" "provider_build R identity anon name meth ca = Inr d"
    and n: "(case server_name of Some n \<Rightarrow> Some n
        | None \<Rightarrow> realm_of (case anon of Some a \<Rightarrow> a | None \<Rightarrow> identity)) = Some name"
    using enterprise_built[OF assms] by blast
  have "server_name = Some name \<or> server_name = None \<and> name \<noteq> [] \<and> (\<exists>user. 64 \<notin> set user
      \<and> (case anon of Some a \<Rightarrow> a | None \<Rightarrow> identity) = user @ 64 # name)"
    using n realm_of_Some by (cases server_name) auto
  moreover obtain config where "te_server_name R name" "te_connect R config name = Some (provider_conn d)"
    "validated_by R ca config" "cc_tls12_only config = (\<not> is_tls meth)"
    "(cc_client_auth config \<noteq> None) = is_tls meth"
    "provider_identity d = (case anon of Some a \<Rightarrow> a | None \<Rightarrow> identity)"
    using provider_built[OF b(2), of undefined] by (elim exE conjE) (rule that)
  ultimately show ?thesis
    using b(1) by (intro exI[of _ name, OF exI[of _ ca, OF exI[of _ config]]] conjI)
qed

text \<open>
  C8. A key of an Enterprise network comes out of a tunnel to a server the profile's CA file vouches for.
  Whatever frames and timeouts the provider of a profile goes through, it hands out at most one key, and
  that key is the first half of one exported from a connection past its handshake, which the buffer
  interface of \<^verbatim>\<open>rustls\<close> reached from the one created with that validating configuration.
\<close>
theorem enterprise_key_validated:
  assumes "dx_build (env_dot1x E) = provider_build R" "tls_ok T"
    and "enterprise E identity anon server_name meth ca_cert = Inr d"
    and "run_machine (provider_step T M) d is = Some (d', out)" "Inr (Step_Done pmk) \<in> set out"
  shows "keys out = 1 \<and> (\<exists>name ca config c0 conn ty label msk.
     ca_cert = Some ca \<and> te_connect R config name = Some c0 \<and> validated_by R ca config
     \<and> finished_from T c0 conn \<and> export_msk T conn ty label = Inr msk
     \<and> pmk = take 32 msk \<and> length pmk = 32)"
proof -
  obtain name ca where b: "ca_cert = Some ca" "provider_build R identity anon name meth ca = Inr d"
    using enterprise_built[OF assms(1,3)] by blast
  obtain config where c: "te_connect R config name = Some (provider_conn d)" "validated_by R ca config"
    "provider_from T (provider_conn d) d"
    using provider_built[OF b(2), of T] assms(2) by blast
  from provider_run_key[OF c(3) assms(4,5)]
  obtain conn ty label msk where k: "keys out = 1" "finished_from T (provider_conn d) conn"
    "export_msk T conn ty label = Inr msk" "pmk = take 32 msk" "length pmk = 32" by (elim conjE exE)
  have "ca_cert = Some ca \<and> te_connect R config name = Some (provider_conn d) \<and> validated_by R ca config
      \<and> finished_from T (provider_conn d) conn \<and> export_msk T conn ty label = Inr msk
      \<and> pmk = take 32 msk \<and> length pmk = 32"
    using b(1) c(1,2) k by simp
  then have "\<exists>c0 conn ty label msk. ca_cert = Some ca \<and> te_connect R config name = Some c0
      \<and> validated_by R ca config \<and> finished_from T c0 conn \<and> export_msk T conn ty label = Inr msk
      \<and> pmk = take 32 msk \<and> length pmk = 32"
    by (intro exI)
  then show ?thesis using k(1) by (intro conjI exI[of _ name, OF exI[of _ ca, OF exI[of _ config]]])
qed

section \<open>A concrete profile\<close>

definition sample_ca :: bytes where
  "sample_ca = pem_begin PEM_CERTIFICATE @ ascii ''TWFu'' @ pem_end PEM_CERTIFICATE"

definition sample_key :: bytes where
  "sample_key = pem_begin (ascii ''PRIVATE KEY'') @ ascii ''Zm9v'' @ pem_end (ascii ''PRIVATE KEY'')"

definition toy_tls_env :: "(unit, toy_tls) tls_env" where
  "toy_tls_env =
     \<lparr>te_default_provider = Some (), te_versions = (\<lambda>_ _. True), te_add_root = (\<lambda>_. True),
      te_client_auth = (\<lambda>_. True), te_server_name = (\<lambda>n. n \<noteq> []),
      te_connect = (\<lambda>config name. Some \<lparr>ty_in = [], ty_out = []\<rparr>), te_nonce = Some (replicate 32 9),
      te_read = (\<lambda>path. if path = [107] then Inr sample_key else Inr sample_ca), te_text = (\<lambda>_. [])\<rparr>"

definition toy_enterprise_env :: "(u8, u8, toy_tls provider) env" where
  "toy_enterprise_env =
     \<lparr>env_prims = toy_prims, env_group = toy_group, env_enterprise = True,
      env_dot1x = \<lparr>dx_build = provider_build toy_tls_env, dx_start = (\<lambda>d _. (d, Inr Step_Wait)),
                   dx_on_frame = (\<lambda>d _ _. (d, Inr Step_Wait))\<rparr>\<rparr>"

definition sample_provider :: "toy_tls provider" where
  "sample_provider =
     Pv_Tls (dx_new [97] \<lparr>et_tunnel = \<lparr>tn_conn = \<lparr>ty_in = [], ty_out = []\<rparr>,
         tn_exchange = exchange_new DEFAULT_FRAGMENT_SIZE False\<rparr>, et_msk = None\<rparr>)"

lemma sample_enterprise:
  "enterprise toy_enterprise_env [117, 64, 120] (Some [97]) (Some [104]) (Tls [99] [107]) (Some [100])
     = Inr sample_provider"
  by code_simp

lemma enterprise_validates_witness:
  "\<exists>config. te_connect toy_tls_env config [104] = Some (provider_conn sample_provider)
     \<and> validated_by toy_tls_env [100] config \<and> \<not> cc_tls12_only config"
  using enterprise_validates[OF _ sample_enterprise, of toy_tls_env]
  by (fastforce simp: toy_enterprise_env_def is_tls_def)

definition sample_frames :: "dot1x_input list" where
  "sample_frames = [Dx_Timeout, Dx_Frame (toy_frame (toy_eap 1 1 [13, 0x20])), Dx_Frame (toy_frame (toy_eap 3 2 []))]"

definition sample_started :: "toy_tls eap_tls" where
  "sample_started =
     \<lparr>et_tunnel = \<lparr>tn_conn = \<lparr>ty_in = [], ty_out = []\<rparr>, tn_exchange = exchange_new DEFAULT_FRAGMENT_SIZE False\<rparr>,
      et_msk = Some (replicate 64 7)\<rparr>"

lemma sample_start:
  "et_on_request toy_tls_ops (sample_started\<lparr>et_msk := None\<rparr>) [0x20] = Some (sample_started, Inr (Some [0]))"
proof -
  have "xc_on_request (exchange_new DEFAULT_FRAGMENT_SIZE False) [0x20]
      = Some (exchange_new DEFAULT_FRAGMENT_SIZE False, Inr In_Restart)"
    by code_simp
  moreover have "export_msk toy_tls_ops c ty l = Inr (replicate 64 7)" for c ty l
    by (simp add: export_msk_def toy_tls_ops_def MSK_LEN_def)
  moreover have "tl_handshaking toy_tls_ops c = False" for c by (simp add: toy_tls_ops_def)
  ultimately show ?thesis
    by (simp add: et_on_request_def tn_on_request_def sample_started_def toy_drain xc_send_def
        flush_or_established_def Let_def tn_empty_reply_def xc_empty_reply_def exchange_new_def)
qed

lemma sample_run:
  obtains d' out where
    "run_machine (provider_step toy_tls_ops toy_ms) sample_provider sample_frames = Some (d', out)"
    "Inr (Step_Done (replicate 32 7)) \<in> set out"
proof -
  let ?s0 = "dx_new [97] (sample_started\<lparr>et_msk := None\<rparr>)\<lparr>dx_idle_rounds := 1\<rparr>"
  obtain e where e: "eapol_parse (toy_frame (toy_eap 1 1 [13, 0x20])) = Inr e" "ea_packet_type e = Pt_Eap"
    "EAP_HDR_LEN \<le> length (ea_body e)"
    "eap_parse (ea_body e) = Inr \<lparr>ep_code = Ec_Request, ep_identifier = 1, ep_data = [13, 0x20]\<rparr>"
    by (rule toy_frame_parse[of "[13, 0x20]" 1 Ec_Request 1]) (simp_all add: eap_code_from_u8_def)
  have "\<exists>s1 f. dx_step (eap_tls_ops toy_tls_ops) ?s0 (Dx_Frame (toy_frame (toy_eap 1 1 [13, 0x20])))
      = Some (s1, [Inr (Step_Send f)]) \<and> dx_method s1 = sample_started \<and> dx_state s1 = Dx_Running"
    using e sample_start
    by (auto simp: dx_step_def dx_frame_def dx_inner_def dx_on_eap_def dx_on_request_def dx_answer_def
        dx_reply_def eap_type_of_def slice_first_def eap_type_data_def eap_tls_ops_def eap_types dx_new_def
        eap_response_def eap_encode_def EAP_HDR_LEN_def eapol_encode_def Let_def
        split: bool.splits option.splits)
  then obtain s1 f where s1: "dx_step (eap_tls_ops toy_tls_ops) ?s0
      (Dx_Frame (toy_frame (toy_eap 1 1 [13, 0x20]))) = Some (s1, [Inr (Step_Send f)])"
    "dx_method s1 = sample_started" "dx_state s1 = Dx_Running" by blast
  obtain e2 where "eapol_parse (toy_frame (toy_eap 3 2 [])) = Inr e2" "ea_packet_type e2 = Pt_Eap"
    "EAP_HDR_LEN \<le> length (ea_body e2)"
    "eap_parse (ea_body e2) = Inr \<lparr>ep_code = Ec_Success, ep_identifier = 2, ep_data = []\<rparr>"
    by (rule toy_frame_parse[of "[]" 3 Ec_Success 2]) (simp_all add: eap_code_from_u8_def)
  then obtain s2 where s2: "dx_step (eap_tls_ops toy_tls_ops) s1 (Dx_Frame (toy_frame (toy_eap 3 2 [])))
      = Some (s2, [Inr (Step_Done (replicate 32 7))])"
    using s1(2,3)
    by (auto simp: dx_step_def dx_frame_def dx_inner_def dx_on_eap_def eap_tls_ops_def pmk_from_msk_def
        sample_started_def Let_def)
  have "dx_step (eap_tls_ops toy_tls_ops) (dx_new [97] (sample_started\<lparr>et_msk := None\<rparr>)) Dx_Timeout
      = Some (?s0, [Inr Step_Wait])"
    by (simp add: dx_step_def dx_timeout_def dx_new_def RETRY_LIMIT_def Let_def)
  then have "run_machine (dx_step (eap_tls_ops toy_tls_ops)) (dx_new [97] (sample_started\<lparr>et_msk := None\<rparr>))
      sample_frames = Some (s2, [Inr Step_Wait, Inr (Step_Send f), Inr (Step_Done (replicate 32 7))])"
    using s1(1) s2 by (simp add: sample_frames_def)
  then have "run_machine (provider_step toy_tls_ops toy_ms) sample_provider sample_frames
      = Some (Pv_Tls s2, [Inr Step_Wait, Inr (Step_Send f), Inr (Step_Done (replicate 32 7))])"
    by (simp add: sample_provider_def sample_started_def provider_run)
  then show thesis by (rule that) simp
qed

lemma enterprise_key_validated_witness:
  "\<exists>config c0 conn. te_connect toy_tls_env config [104] = Some c0 \<and> validated_by toy_tls_env [100] config
     \<and> finished_from toy_tls_ops c0 conn"
proof -
  obtain d' out where r: "run_machine (provider_step toy_tls_ops toy_ms) sample_provider sample_frames = Some (d', out)"
    "Inr (Step_Done (replicate 32 7)) \<in> set out"
    by (rule sample_run)
  have "dx_build (env_dot1x toy_enterprise_env) = provider_build toy_tls_env"
    by (simp add: toy_enterprise_env_def)
  moreover have "tls_ok toy_tls_ops" by (simp add: tls_ok_def toy_tls_ops_def)
  ultimately show ?thesis
    using enterprise_key_validated[OF _ _ sample_enterprise r, of toy_tls_env]
    by (fastforce simp: toy_tls_env_def)
qed

end
