(* ===== verification/Prompt.thy ===== *)
theory Prompt
  imports Rust_Text
begin

text \<open>
  Reading a credential from the terminal (\<^verbatim>\<open>src/crates/caw/src/prompt.rs\<close>). What \<^verbatim>\<open>read\<close> returns, call by
  call, is an argument, and so is which of the terminal's calls fail; a list of reads that ends before the
  line does is a prompt still waiting, \<open>None\<close>. What appears on the terminal is collected, both what the program
  writes and what the terminal's driver echoes of the keys while the modes in force have \<^verbatim>\<open>ECHO\<close>; how the
  driver shows a key is an argument as well.
\<close>

section \<open>The terminal\<close>

record termios =
  tm_icanon :: bool
  tm_isig :: bool
  tm_echo :: bool
  tm_vmin :: u8
  tm_vtime :: u8

datatype echo = Echo_Shown | Echo_Hidden

datatype prompt_error = Pe_Interrupted | Pe_Eof | Pe_NotUtf8 | Pe_Io nat

text \<open>
  What the three calls on the terminal answer, an error number or success, and what the driver shows of a
  key it echoes.
\<close>

record tty_calls =
  tt_get :: "nat option"
  tt_set :: "nat option"
  tt_reset :: "nat option"
  tt_shows :: "u8 \<Rightarrow> bytes"

definition driver_echo :: "tty_calls \<Rightarrow> termios \<Rightarrow> u8 \<Rightarrow> bytes" where
  "driver_echo calls modes b = (if tm_echo modes then tt_shows calls b else [])"

definition wanted_modes :: "echo \<Rightarrow> termios \<Rightarrow> termios" where
  "wanted_modes echo saved =
     (let wanted = saved\<lparr>tm_icanon := False, tm_isig := False\<rparr>;
          wanted = (if echo = Echo_Hidden then wanted\<lparr>tm_echo := False\<rparr> else wanted)
      in wanted\<lparr>tm_vmin := 1, tm_vtime := 0\<rparr>)"

text \<open>\<^verbatim>\<open>Restore::apply\<close>: the modes of the terminal afterwards, and what it saved.\<close>

definition restore_apply :: "tty_calls \<Rightarrow> echo \<Rightarrow> termios \<Rightarrow> termios \<times> (prompt_error + termios)" where
  "restore_apply calls echo modes =
     (case tt_get calls of
        Some e \<Rightarrow> (modes, Inl (Pe_Io e))
      | None \<Rightarrow>
          (case tt_set calls of
             Some e \<Rightarrow> (modes, Inl (Pe_Io e))
           | None \<Rightarrow> (wanted_modes echo modes, Inr modes)))"

definition restore_drop :: "tty_calls \<Rightarrow> termios \<Rightarrow> termios \<Rightarrow> termios" where
  "restore_drop calls saved modes = (if tt_reset calls = None then saved else modes)"

section \<open>The line\<close>

primrec erase_rev :: "bytes \<Rightarrow> bytes" where
  "erase_rev [] = []"
| "erase_rev (b # bs) = (if b AND 0xC0 \<noteq> 0x80 then bs else erase_rev bs)"

text \<open>\<^verbatim>\<open>erase_char\<close> pops from the end until it has popped a byte that is not a continuation.\<close>

definition erase_char :: "bytes \<Rightarrow> bytes" where
  "erase_char buf = rev (erase_rev (rev buf))"

datatype read_result = Rd_Byte u8 | Rd_End | Rd_Intr | Rd_Error nat

definition ETX :: u8 where "ETX = 3"
definition EOT :: u8 where "EOT = 4"
definition BS :: u8 where "BS = 8"
definition NAK :: u8 where "NAK = 0x15"
definition DEL :: u8 where "DEL = 0x7F"

definition shown :: "echo \<Rightarrow> bytes \<Rightarrow> bytes" where
  "shown echo bs = (if echo = Echo_Shown then bs else [])"

text \<open>One key: the error or end of the line it leads to, or what is typed so far, and what is shown.\<close>

datatype key_result = Kr_Fail prompt_error | Kr_Break | Kr_Typed bytes bytes

definition prompt_key :: "echo \<Rightarrow> bytes \<Rightarrow> u8 \<Rightarrow> key_result" where
  "prompt_key echo typed b =
     (if b = 10 \<or> b = 13 then Kr_Break
      else if b = ETX then Kr_Fail Pe_Interrupted
      else if b = EOT then (if typed = [] then Kr_Fail Pe_Eof else Kr_Break)
      else if b = BS \<or> b = DEL then Kr_Typed (erase_char typed) (shown echo [8, 32, 8])
      else if b = NAK then Kr_Typed [] (shown echo [13, 27, 91, 50, 75])
      else if b < 0x20 then Kr_Typed typed []
      else Kr_Typed (typed @ [b]) (shown echo [b]))"

text \<open>The loop over keys, the driver echoing each by \<open>vis\<close> before it is acted on.\<close>

fun read_keys ::
  "(u8 \<Rightarrow> bytes) \<Rightarrow> echo \<Rightarrow> bytes \<Rightarrow> read_result list \<Rightarrow> ((prompt_error + bytes) \<times> bytes) option" where
  "read_keys vis echo typed [] = None"
| "read_keys vis echo typed (Rd_End # rest) = Some (Inl Pe_Eof, [])"
| "read_keys vis echo typed (Rd_Intr # rest) = read_keys vis echo typed rest"
| "read_keys vis echo typed (Rd_Error e # rest) = Some (Inl (Pe_Io e), [])"
| "read_keys vis echo typed (Rd_Byte b # rest) =
     (case prompt_key echo typed b of
        Kr_Fail e \<Rightarrow> Some (Inl e, vis b)
      | Kr_Break \<Rightarrow> Some (if utf8_valid typed then Inr typed else Inl Pe_NotUtf8, vis b)
      | Kr_Typed typed' out \<Rightarrow>
          map_option (\<lambda>(r, more). (r, vis b @ out @ more)) (read_keys vis echo typed' rest))"

text \<open>\<^verbatim>\<open>read_tty\<close>: the modes the terminal is left in, the result and what appeared on it. The keys are
  read under the modes \<^verbatim>\<open>Restore::apply\<close> set, which discards what was typed before.\<close>

definition read_tty ::
  "tty_calls \<Rightarrow> echo \<Rightarrow> read_result list \<Rightarrow> termios \<Rightarrow> (termios \<times> (prompt_error + bytes) \<times> bytes) option" where
  "read_tty calls echo reads modes =
     (case restore_apply calls echo modes of
        (m, Inl e) \<Rightarrow> Some (m, Inl e, [])
      | (m, Inr saved) \<Rightarrow>
          map_option (\<lambda>(r, out). (restore_drop calls saved m, r, out))
            (read_keys (driver_echo calls m) echo [] reads))"

definition trim_newlines :: "bytes \<Rightarrow> bytes" where
  "trim_newlines s = rev (dropWhile (\<lambda>c. c = 10 \<or> c = 13) (rev s))"

text \<open>
  \<^verbatim>\<open>read_piped\<close> over what \<^verbatim>\<open>read_line\<close> gives: an error with or without a number, or the line it read.
\<close>

definition read_piped :: "nat option + bytes \<Rightarrow> prompt_error + bytes" where
  "read_piped line =
     (case line of
        Inl (Some code) \<Rightarrow> Inl (Pe_Io code)
      | Inl None \<Rightarrow> Inl Pe_Eof
      | Inr l \<Rightarrow> if l = [] then Inl Pe_Eof else Inr (trim_newlines l))"

record stdin_state =
  sd_isatty :: bool
  sd_line :: "nat option + bytes"
  sd_calls :: tty_calls
  sd_reads :: "read_result list"
  sd_modes :: termios

definition prompt_ask ::
  "bytes \<Rightarrow> echo \<Rightarrow> stdin_state \<Rightarrow> (termios \<times> (prompt_error + bytes) \<times> bytes) option" where
  "prompt_ask prompt echo s =
     (if \<not> sd_isatty s then Some (sd_modes s, read_piped (sd_line s), [])
      else
        map_option (\<lambda>(m, r, out).
            (m, r, prompt @ out @ (if echo = Echo_Hidden \<or> (\<exists>e. r = Inl e) then [10] else [])))
          (read_tty (sd_calls s) echo (sd_reads s) (sd_modes s)))"

section \<open>Characters\<close>

text \<open>The encoding of one character.\<close>

definition utf8_char :: "bytes \<Rightarrow> bool" where
  "utf8_char c \<longleftrightarrow> utf8_next c = Some ((True, c), [])"

lemma cont_range: "(c :: u8) AND 0xC0 = 0x80 \<longleftrightarrow> 0x80 \<le> c \<and> c \<le> 0xBF"
proof -
  have "list_all (\<lambda>n. (of_nat n :: u8) AND 0xC0 = 0x80 \<longleftrightarrow> 0x80 \<le> (of_nat n :: u8) \<and> (of_nat n :: u8) \<le> 0xBF)
      [0..<256]"
    by code_simp
  moreover have "unat c \<in> set [0..<256]" using unsigned_less[of c] by simp
  ultimately have "(of_nat (unat c) :: u8) AND 0xC0 = 0x80 \<longleftrightarrow>
      0x80 \<le> (of_nat (unat c) :: u8) \<and> (of_nat (unat c) :: u8) \<le> 0xBF"
    unfolding list_all_iff by (rule bspec)
  then show ?thesis by simp
qed

lemma is_cont_range: "is_cont c \<longleftrightarrow> 0x80 \<le> c \<and> c \<le> 0xBF"
  using cont_range[of c] by (simp add: is_cont_def)

lemma second_cont: "second_of_3 b c \<Longrightarrow> is_cont c" "second_of_4 b c \<Longrightarrow> is_cont c"
  by (auto simp: second_of_3_def second_of_4_def is_cont_range split: if_splits elim: order_trans[rotated] order_trans)

lemma cont_index: "is_cont (byte_or_0 bs i) \<Longrightarrow> i < length bs \<and> is_cont (bs ! i)"
  by (auto simp: byte_or_0_def is_cont_def split: if_splits)

lemma utf8_tail_conts:
  assumes "utf8_tail b bs = (True, n)"
  shows "n \<le> length bs \<and> (\<forall>i < n. is_cont (bs ! i)) \<and> \<not> is_cont b \<and> (0 < n \<longrightarrow> 0x80 \<le> b)"
proof -
  consider "b < 0x80" "n = 0" | "0xC2 \<le> b" "b \<le> 0xDF" "n = 1" "is_cont (byte_or_0 bs 0)"
    | "0xE0 \<le> b" "n = 2" "is_cont (byte_or_0 bs 0)" "is_cont (byte_or_0 bs 1)"
    | "0xF0 \<le> b" "n = 3" "is_cont (byte_or_0 bs 0)" "is_cont (byte_or_0 bs 1)" "is_cont (byte_or_0 bs 2)"
    using assms by (auto simp: utf8_tail_def dest: second_cont split: if_splits)
  then show ?thesis
  proof cases
    case 1
    then show ?thesis by (simp add: is_cont_range word_le_nat_alt word_less_nat_alt)
  next
    case 2
    then have "1 \<le> length bs" "is_cont (bs ! 0)" by (auto simp: Suc_le_eq dest: cont_index)
    then show ?thesis using 2(1-3) by (auto simp: is_cont_range[of b] word_le_nat_alt)
  next
    case 3
    then have "0 < length bs" "1 < length bs" "is_cont (bs ! 0)" "is_cont (bs ! 1)" by (auto dest: cont_index)
    moreover have "i < 2 \<Longrightarrow> i = 0 \<or> i = 1" for i :: nat by auto
    ultimately show ?thesis using 3(1,2) by (auto simp: is_cont_range[of b] word_le_nat_alt)
  next
    case 4
    then have "0 < length bs" "1 < length bs" "2 < length bs" "is_cont (bs ! 0)" "is_cont (bs ! 1)"
      "is_cont (bs ! 2)" by (auto dest: cont_index)
    moreover have "i < 3 \<Longrightarrow> i = 0 \<or> i = 1 \<or> i = 2" for i :: nat by auto
    ultimately show ?thesis using 4(1,2) by (auto simp: is_cont_range[of b] word_le_nat_alt)
  qed
qed

lemma utf8_charE:
  assumes "utf8_char c"
  obtains b bs where "c = b # bs" "utf8_tail b bs = (True, length bs)" "\<not> is_cont b"
    "\<forall>x \<in> set bs. is_cont x" "bs \<noteq> [] \<Longrightarrow> 0x80 \<le> b"
proof -
  obtain b bs where c: "c = b # bs" using assms by (cases c) (auto simp: utf8_char_def)
  obtain ok n where t: "utf8_tail b bs = (ok, n)" by fastforce
  have n: "ok" "drop n bs = []" using assms c t by (auto simp: utf8_char_def)
  then have "n = length bs" using utf8_tail_conts[of b bs n] t by auto
  then show thesis
    using utf8_tail_conts[of b bs n] t n c by (intro that[of b bs]) (auto simp: in_set_conv_nth)
qed

lemma erase_rev_conts: "\<forall>x \<in> set bs. is_cont x \<Longrightarrow> erase_rev (bs @ rest) = erase_rev rest"
  by (induction bs) (auto simp: is_cont_def)

lemma erase_char_append: "utf8_char c \<Longrightarrow> erase_char (buf @ c) = buf"
proof -
  assume "utf8_char c"
  then obtain b bs where c: "c = b # bs" "\<not> is_cont b" "\<forall>x \<in> set bs. is_cont x"
    by (rule utf8_charE)
  have "erase_rev (rev bs @ b # rev buf) = erase_rev (b # rev buf)"
    using c(3) by (intro erase_rev_conts) simp
  then show ?thesis using c by (simp add: erase_char_def is_cont_def)
qed

lemma utf8_tail_append:
  assumes "utf8_tail b bs = (True, length bs)"
  shows "utf8_tail b (bs @ rest) = (True, length bs)"
proof -
  have same: "byte_or_0 (bs @ rest) i = byte_or_0 bs i" if "is_cont (byte_or_0 bs i)" for i
    using cont_index[OF that] by (simp add: byte_or_0_def nth_append)
  consider "b < 0x80" "length bs = 0"
    | "\<not> b < 0x80" "0xC2 \<le> b \<and> b \<le> 0xDF" "length bs = 1" "is_cont (byte_or_0 bs 0)"
    | "\<not> b < 0x80" "\<not> (0xC2 \<le> b \<and> b \<le> 0xDF)" "0xE0 \<le> b \<and> b \<le> 0xEF" "length bs = 2"
      "second_of_3 b (byte_or_0 bs 0)" "is_cont (byte_or_0 bs 1)"
    | "\<not> b < 0x80" "\<not> (0xC2 \<le> b \<and> b \<le> 0xDF)" "\<not> (0xE0 \<le> b \<and> b \<le> 0xEF)" "0xF0 \<le> b \<and> b \<le> 0xF4"
      "length bs = 3" "second_of_4 b (byte_or_0 bs 0)" "is_cont (byte_or_0 bs 1)" "is_cont (byte_or_0 bs 2)"
    using assms unfolding utf8_tail_def by (simp split: if_splits)
  then show ?thesis
  proof cases
    case 1
    then show ?thesis by (simp add: utf8_tail_def)
  next
    case 2
    then show ?thesis by (simp add: utf8_tail_def same)
  next
    case 3
    then show ?thesis using same[OF second_cont(1)[OF 3(5)]] by (simp add: utf8_tail_def same)
  next
    case 4
    then show ?thesis using same[OF second_cont(2)[OF 4(6)]] by (simp add: utf8_tail_def same)
  qed
qed

interpretation utf8_text: stream_codec utf8_next id "\<lambda>c. (True, c)" utf8_char
proof
  fix c rest assume "utf8_char c"
  then obtain b bs where "c = b # bs" "utf8_tail b bs = (True, length bs)" by (rule utf8_charE)
  then show "utf8_next (id c @ rest) = Some ((True, c), rest)"
    using utf8_tail_append[of b bs rest] by simp
qed

lemma utf8_chunks_chars: "list_all utf8_char cs \<Longrightarrow> utf8_chunks (concat cs) = map (Pair True) cs"
  using utf8_text.collect_enc[of cs] by (simp add: utf8_chunks_def)

lemma utf8_valid_chars: "list_all utf8_char cs \<Longrightarrow> utf8_valid (concat cs)"
  by (simp add: utf8_valid_def utf8_chunks_chars list_all_iff)

lemma utf8_tail_take:
  assumes "utf8_tail b bs = (True, n)"
  shows "utf8_tail b (take n bs) = (True, n)"
proof -
  have n: "n \<le> length bs" using utf8_tail_conts[OF assms] by simp
  have same: "byte_or_0 (take n bs) i = byte_or_0 bs i" if "i < n" for i
    using that n by (simp add: byte_or_0_def)
  consider "b < 0x80" "n = 0"
    | "\<not> b < 0x80" "0xC2 \<le> b \<and> b \<le> 0xDF" "n = 1" "is_cont (byte_or_0 bs 0)"
    | "\<not> b < 0x80" "\<not> (0xC2 \<le> b \<and> b \<le> 0xDF)" "0xE0 \<le> b \<and> b \<le> 0xEF" "n = 2"
      "second_of_3 b (byte_or_0 bs 0)" "is_cont (byte_or_0 bs 1)"
    | "\<not> b < 0x80" "\<not> (0xC2 \<le> b \<and> b \<le> 0xDF)" "\<not> (0xE0 \<le> b \<and> b \<le> 0xEF)" "0xF0 \<le> b \<and> b \<le> 0xF4"
      "n = 3" "second_of_4 b (byte_or_0 bs 0)" "is_cont (byte_or_0 bs 1)" "is_cont (byte_or_0 bs 2)"
    using assms unfolding utf8_tail_def by (simp split: if_splits)
  then show ?thesis by cases (use same[of 0] same[of 1] same[of 2] in \<open>simp_all add: utf8_tail_def\<close>)
qed

lemma utf8_valid_split:
  assumes "utf8_valid s"
  obtains cs where "list_all utf8_char cs" "s = concat cs"
proof -
  have "\<exists>cs. list_all utf8_char cs \<and> s = concat cs"
    using assms
  proof (induction "length s" arbitrary: s rule: less_induct)
    case less
    show ?case
    proof (cases s)
      case Nil
      then show ?thesis by (intro exI[of _ "[]"]) simp
    next
      case (Cons b bs)
      obtain ok n where t: "utf8_tail b bs = (ok, n)" by fastforce
      then have ok: "ok" and rest: "utf8_valid (drop n bs)"
        using less.prems Cons by (auto simp: utf8_valid_def utf8_chunks_Cons)
      have "length (drop n bs) < length s" using Cons by simp
      then obtain cs where cs: "list_all utf8_char cs" "drop n bs = concat cs"
        using less.hyps rest by blast
      have "n \<le> length bs" using utf8_tail_conts[of b bs n] t ok by simp
      then have "utf8_char (b # take n bs)"
        using utf8_tail_take[of b bs n] t ok by (simp add: utf8_char_def)
      then show ?thesis
        using cs Cons by (intro exI[of _ "(b # take n bs) # cs"]) (simp flip: cs(2))
    qed
  qed
  then show thesis using that by blast
qed

section \<open>What is read is what was meant\<close>

text \<open>The keys a user presses, and the line they stand for, character by character.\<close>

datatype edit = Ed_Char bytes | Ed_Erase bool | Ed_Kill | Ed_Control u8

fun edit_ok :: "edit \<Rightarrow> bool" where
  "edit_ok (Ed_Char c) \<longleftrightarrow> utf8_char c \<and> 0x20 \<le> hd c \<and> hd c \<noteq> DEL"
| "edit_ok (Ed_Control b) \<longleftrightarrow> b < 0x20 \<and> b \<notin> {10, 13, ETX, EOT, BS, NAK}"
| "edit_ok _ \<longleftrightarrow> True"

fun edit_bytes :: "edit \<Rightarrow> bytes" where
  "edit_bytes (Ed_Char c) = c"
| "edit_bytes (Ed_Erase b) = [if b then BS else DEL]"
| "edit_bytes Ed_Kill = [NAK]"
| "edit_bytes (Ed_Control b) = [b]"

fun edit_apply :: "edit \<Rightarrow> bytes list \<Rightarrow> bytes list" where
  "edit_apply (Ed_Char c) line = line @ [c]"
| "edit_apply (Ed_Erase _) line = butlast line"
| "edit_apply Ed_Kill line = []"
| "edit_apply (Ed_Control _) line = line"

lemmas key_defs = ETX_def EOT_def BS_def NAK_def DEL_def

lemma read_keys_intr:
  "read_keys vis echo typed (filter (\<lambda>r. r \<noteq> Rd_Intr) reads) = read_keys vis echo typed reads"
proof (induction reads arbitrary: typed)
  case (Cons r reads)
  then show ?case by (cases r) (auto split: key_result.splits)
qed simp

lemma read_keys_hidden: "read_keys (\<lambda>_. []) Echo_Hidden typed reads = Some (r, out) \<Longrightarrow> out = []"
proof (induction reads arbitrary: typed r out)
  case (Cons x reads)
  then show ?case by (cases x) (auto simp: prompt_key_def shown_def split: if_splits)
qed simp

lemma read_keys_typed:
  assumes "\<forall>b \<in> set bs. 0x20 \<le> b \<and> b \<noteq> DEL" "read_keys vis echo (typed @ bs) reads = Some (r, out)"
  shows "\<exists>out'. read_keys vis echo typed (map Rd_Byte bs @ reads) = Some (r, out')"
  using assms
proof (induction bs arbitrary: typed)
  case (Cons b bs)
  have "prompt_key echo typed b = Kr_Typed (typed @ [b]) (shown echo [b])"
    using Cons.prems(1) by (auto simp: prompt_key_def key_defs word_le_nat_alt word_less_nat_alt)
  moreover obtain out' where "read_keys vis echo (typed @ [b]) (map Rd_Byte bs @ reads) = Some (r, out')"
    using Cons.IH[of "typed @ [b]"] Cons.prems by auto
  ultimately show ?case by simp
qed auto

lemma utf8_char_plain:
  assumes "utf8_char c" "0x20 \<le> hd c" "hd c \<noteq> DEL"
  shows "\<forall>b \<in> set c. 0x20 \<le> b \<and> b \<noteq> DEL"
proof -
  obtain b bs where c: "c = b # bs" "\<forall>x \<in> set bs. is_cont x" using assms(1) by (rule utf8_charE)
  have "0x20 \<le> x \<and> x \<noteq> DEL" if "is_cont x" for x
    using that by (auto simp: is_cont_range DEL_def word_le_nat_alt)
  then show ?thesis using c assms(2,3) by auto
qed

lemma erase_last: "list_all utf8_char line \<Longrightarrow> erase_char (concat line) = concat (butlast line)"
proof (cases line rule: rev_cases)
  case (snoc line' c)
  assume "list_all utf8_char line"
  then show ?thesis using snoc by (simp add: erase_char_append)
qed (simp add: erase_char_def)

lemma read_keys_edits:
  assumes "list_all edit_ok es" "list_all utf8_char line" "end_key \<in> {10, 13}"
  shows "\<exists>out. read_keys vis echo (concat line) (map Rd_Byte (concat (map edit_bytes es)) @ Rd_Byte end_key # later)
      = Some (Inr (concat (fold edit_apply es line)), out)"
  using assms(1,2)
proof (induction es arbitrary: line)
  case Nil
  then show ?case using assms(3) utf8_valid_chars[of line] by (auto simp: prompt_key_def)
next
  case (Cons e es)
  let ?rest = "map Rd_Byte (concat (map edit_bytes es)) @ Rd_Byte end_key # later"
  have "list_all utf8_char (edit_apply e line)"
    using Cons.prems by (cases e) (auto simp: list_all_iff dest: in_set_butlastD)
  with Cons.IH[of "edit_apply e line"] Cons.prems obtain out where
    IH: "read_keys vis echo (concat (edit_apply e line)) ?rest = Some (Inr (concat (fold edit_apply (e # es) line)), out)"
    by auto
  show ?case
  proof (cases e)
    case (Ed_Char c)
    then have "\<forall>b \<in> set c. 0x20 \<le> b \<and> b \<noteq> DEL"
      using Cons.prems(1) utf8_char_plain by auto
    from read_keys_typed[OF this, of vis echo "concat line" ?rest] IH Ed_Char show ?thesis
      by auto
  next
    case (Ed_Erase b)
    then show ?thesis using IH erase_last[OF Cons.prems(2)]
      by (auto simp: prompt_key_def key_defs)
  next
    case Ed_Kill
    then show ?thesis using IH by (auto simp: prompt_key_def key_defs)
  next
    case (Ed_Control b)
    then show ?thesis using IH Cons.prems(1)
      by (auto simp: prompt_key_def key_defs)
  qed
qed

lemma driver_echo_hidden: "driver_echo calls (wanted_modes Echo_Hidden modes) = (\<lambda>_. [])"
  by (simp add: driver_echo_def wanted_modes_def fun_eq_iff)

text \<open>
  Whatever is typed at a hidden prompt and however the line ends, nothing of it appears, from the program or
  from the driver.
\<close>

lemma prompt_hides: "read_tty calls Echo_Hidden reads modes = Some (modes', r, out) \<Longrightarrow> out = []"
  by (auto simp: read_tty_def restore_apply_def driver_echo_hidden split: option.splits dest: read_keys_hidden)

text \<open>
  C35. The prompt reads the line its user meant. Whatever characters are typed, erased, killed and typed
  again, in any script, with control keys pressed in between and the reads interrupted at any point, what is
  read on Return is what an editor of whole characters would hold. The keys are read one by one, without the
  driver's line editing and signals; of a hidden line nothing appears on the terminal, neither written by the
  program nor echoed by the driver, whatever the driver shows of a key; and the old modes are back.
\<close>
theorem prompt_reads_line:
  assumes "list_all edit_ok es" "end_key \<in> {10, 13}"
    and "filter (\<lambda>r. r \<noteq> Rd_Intr) reads
       = map Rd_Byte (concat (map edit_bytes es)) @ Rd_Byte end_key # later"
    and "tt_get calls = None" "tt_set calls = None" "tt_reset calls = None"
  shows "\<exists>out m. read_tty calls echo reads modes = Some (modes, Inr (concat (fold edit_apply es [])), out)
     \<and> (echo = Echo_Hidden \<longrightarrow> out = [])
     \<and> restore_apply calls echo modes = (m, Inr modes)
     \<and> \<not> tm_icanon m \<and> \<not> tm_isig m \<and> tm_vmin m = 1 \<and> tm_vtime m = 0"
proof -
  let ?vis = "driver_echo calls (wanted_modes echo modes)"
  from read_keys_edits[OF assms(1) _ assms(2), of "[]" ?vis echo later]
  obtain out where "read_keys ?vis echo [] (filter (\<lambda>r. r \<noteq> Rd_Intr) reads)
      = Some (Inr (concat (fold edit_apply es [])), out)"
    unfolding assms(3) by auto
  then have "read_tty calls echo reads modes = Some (modes, Inr (concat (fold edit_apply es [])), out)"
    using assms(4-6) by (simp add: read_keys_intr read_tty_def restore_apply_def restore_drop_def)
  moreover from this have "echo = Echo_Hidden \<longrightarrow> out = []" using prompt_hides by blast
  ultimately show ?thesis
    using assms(4,5) by (simp add: restore_apply_def wanted_modes_def Let_def)
qed

definition sample_termios :: termios where
  "sample_termios = \<lparr>tm_icanon = True, tm_isig = True, tm_echo = True, tm_vmin = 1, tm_vtime = 0\<rparr>"

definition sample_tty :: tty_calls where
  "sample_tty = \<lparr>tt_get = None, tt_set = None, tt_reset = None, tt_shows = (\<lambda>b. [b])\<rparr>"

text \<open>The letter e with an acute accent typed twice, one erased, and a control key in between.\<close>

lemma prompt_reads_line_witness:
  "read_tty sample_tty Echo_Hidden (Rd_Intr # map Rd_Byte [97, 0xC3, 0xA9, 1, 0xC3, 0xA9, 0x7F, 13]) sample_termios
     = Some (sample_termios, Inr [97, 0xC3, 0xA9], [])"
proof -
  let ?es = "[Ed_Char [97], Ed_Char [0xC3, 0xA9], Ed_Control 1, Ed_Char [0xC3, 0xA9], Ed_Erase False]"
  have "list_all edit_ok ?es" by (simp add: utf8_char_def utf8_tail_def key_defs byte_or_0_def is_cont_def)
  moreover have "(13 :: u8) \<in> {10, 13}" by simp
  moreover have "filter (\<lambda>r. r \<noteq> Rd_Intr) (Rd_Intr # map Rd_Byte [97, 0xC3, 0xA9, 1, 0xC3, 0xA9, 0x7F, 13])
      = map Rd_Byte (concat (map edit_bytes ?es)) @ Rd_Byte 13 # []"
    by (simp add: key_defs)
  moreover have "tt_get sample_tty = None" "tt_set sample_tty = None" "tt_reset sample_tty = None"
    by (simp_all add: sample_tty_def)
  ultimately obtain out m where "read_tty sample_tty Echo_Hidden
      (Rd_Intr # map Rd_Byte [97, 0xC3, 0xA9, 1, 0xC3, 0xA9, 0x7F, 13]) sample_termios
      = Some (sample_termios, Inr (concat (fold edit_apply ?es [])), out) \<and> (Echo_Hidden = Echo_Hidden \<longrightarrow> out = [])"
    using prompt_reads_line[of ?es 13 _ "[]" sample_tty Echo_Hidden sample_termios] by blast
  then show ?thesis by simp
qed

text \<open>
  A prompt that is not hidden shows every character twice: the modes keep \<^verbatim>\<open>ECHO\<close>, so the driver echoes it, and
  the loop writes it again.
\<close>

lemma shown_twice:
  "read_tty sample_tty Echo_Shown (map Rd_Byte [97, 98, 13]) sample_termios
     = Some (sample_termios, Inr [97, 98], [97, 97, 98, 98, 13])"
  by (simp add: read_tty_def restore_apply_def restore_drop_def wanted_modes_def driver_echo_def sample_tty_def
      sample_termios_def prompt_key_def key_defs shown_def utf8_ascii)

text \<open>However a line ends, the terminal gets its modes back if the call that restores them works.\<close>

lemma prompt_restores:
  assumes "read_tty calls echo reads modes = Some (modes', r, out)" "tt_reset calls = None"
  shows "modes' = modes"
  using assms by (auto simp: read_tty_def restore_apply_def restore_drop_def split: option.splits)

end
