(* ===== verification/Cli_Output.thy ===== *)
theory Cli_Output
  imports Rtnl Peer_Auth Prompt "HOL-Library.List_Lexorder" "HOL-Library.Product_Lexorder"
begin

text \<open>
  What the command line prints: the aligned table (\<^verbatim>\<open>src/crates/caw/src/table.rs\<close>), the rendering of the
  daemon's replies (\<^verbatim>\<open>render.rs\<close>) and the port commands (\<^verbatim>\<open>port.rs\<close>). A text is its UTF-8 bytes and its
  characters are those of \<open>utf8_chunks\<close>. The replies are as they are on the wire, with strings where the
  daemon's own model keeps what it renders.
\<close>

section \<open>The table\<close>

text \<open>\<^verbatim>\<open>s.chars().count()\<close>, \<^verbatim>\<open>str::trim_end\<close>, and \<open>n\<close> spaces.\<close>

definition cell_width :: "bytes \<Rightarrow> nat" where
  "cell_width s = length (utf8_chunks s)"

definition trim_end :: "bytes \<Rightarrow> bytes" where
  "trim_end s =
     concat (map snd (rev (dropWhile (\<lambda>(_, c). is_whitespace (code_point c)) (rev (utf8_chunks s)))))"

text \<open>\<^verbatim>\<open>zip\<close> stops at the shorter list, so a row that is short leaves the last widths as they are.\<close>

fun widen :: "nat list \<Rightarrow> bytes list \<Rightarrow> nat list" where
  "widen (w # ws) (cell # row) = max w (cell_width cell) # widen ws row"
| "widen ws _ = ws"

definition table_widths :: "bytes list \<Rightarrow> bytes list list \<Rightarrow> nat list" where
  "table_widths headers rows = foldl widen (map cell_width headers) rows"

fun row_line :: "nat list \<Rightarrow> nat \<Rightarrow> bytes list \<Rightarrow> bytes" where
  "row_line widths i [] = []"
| "row_line widths i (cell # cells) =
     cell
     @ (if i + 1 < length widths then replicate (widths ! i - cell_width cell + 2) 32 else [])
     @ row_line widths (i + 1) cells"

definition push_row :: "nat list \<Rightarrow> bytes list \<Rightarrow> bytes" where
  "push_row widths cells = trim_end (row_line widths 0 cells) @ [10]"

definition table_render :: "bytes list \<Rightarrow> bytes list list \<Rightarrow> bytes" where
  "table_render headers rows =
     (let widths = table_widths headers rows
      in push_row widths headers @ concat (map (push_row widths) rows))"

section \<open>The daemon's replies\<close>

datatype wire_event = We_Scanning | We_Associating bytes | We_Authenticating | We_Configuring
  | We_Connected | We_Failed bytes | We_NeedSecret u64 bytes secret_kind

record wire_network =
  wn_ssid :: bytes
  wn_bssid :: bytes
  wn_signal_dbm :: int
  wn_freq_mhz :: u32
  wn_security :: bytes
  wn_known :: bool

record wire_status =
  ws_port :: bytes
  ws_ssid :: "bytes option"
  ws_state :: bytes
  ws_addrs :: "bytes list"

record wire_port =
  wp_name :: bytes
  wp_mac :: bytes
  wp_up :: bool
  wp_carrier :: bool
  wp_wireless :: bool
  wp_addrs :: "bytes list"

datatype wire_response = Wr_Ok | Wr_Ports "wire_port list" | Wr_Networks "wire_network list"
  | Wr_Status wire_status | Wr_Error bytes

datatype server_message = Sm_Event wire_event | Sm_Response wire_response

definition HIDDEN :: bytes where "HIDDEN = ascii ''(hidden)''"

definition quality :: "int \<Rightarrow> bytes" where
  "quality dbm =
     ascii (if -50 \<le> dbm then ''excellent'' else if -60 \<le> dbm then ''good'' else if -67 \<le> dbm then ''fair''
            else if -80 \<le> dbm then ''weak'' else ''poor'')"

definition show_int :: "int \<Rightarrow> bytes" where
  "show_int i = ascii ((if i < 0 then ''-'' else []) @ show_nat (nat \<bar>i\<bar>))"

definition signal_cell :: "int \<Rightarrow> bytes" where
  "signal_cell dbm = show_int dbm @ ascii '' dBm ('' @ quality dbm @ ascii '')''"

definition channel_of :: "u32 \<Rightarrow> (u32 \<times> bytes) option" where
  "channel_of freq_mhz =
     (if freq_mhz = 2484 then Some (14, ascii ''2.4 GHz'')
      else if 2412 \<le> freq_mhz \<and> freq_mhz \<le> 2472 then Some ((freq_mhz - 2407) div 5, ascii ''2.4 GHz'')
      else if freq_mhz = 5935 then Some (2, ascii ''6 GHz'')
      else if 5170 \<le> freq_mhz \<and> freq_mhz \<le> 5895 then Some ((freq_mhz - 5000) div 5, ascii ''5 GHz'')
      else if 5955 \<le> freq_mhz \<and> freq_mhz \<le> 7115 then Some ((freq_mhz - 5950) div 5, ascii ''6 GHz'')
      else None)"

definition channel_cell :: "u32 \<Rightarrow> bytes" where
  "channel_cell freq_mhz =
     (case channel_of freq_mhz of
        Some (ch, band) \<Rightarrow> ascii (show_nat (unat ch)) @ ascii '' ('' @ band @ ascii '')''
      | None \<Rightarrow> ascii (show_nat (unat freq_mhz)) @ ascii '' MHz'')"

text \<open>Strongest first, then by name: the order of \<^verbatim>\<open>sort_by\<close>, which is stable.\<close>

definition scan_order :: "wire_network \<Rightarrow> int \<times> bytes" where
  "scan_order n = (- wn_signal_dbm n, wn_ssid n)"

definition scan_key :: "wire_network \<Rightarrow> bytes" where
  "scan_key n = (if wn_ssid n = [] then wn_bssid n else wn_ssid n)"

text \<open>\<^verbatim>\<open>retain\<close> with a set of the keys already seen.\<close>

fun retain_new :: "bytes set \<Rightarrow> wire_network list \<Rightarrow> wire_network list" where
  "retain_new seen [] = []"
| "retain_new seen (n # ns) =
     (if scan_key n \<in> seen then retain_new seen ns
      else n # retain_new (insert (scan_key n) seen) ns)"

definition scan_rows :: "wire_network list \<Rightarrow> wire_network list" where
  "scan_rows networks = retain_new {} (sort_key scan_order networks)"

definition scan_table :: "wire_network list \<Rightarrow> bytes" where
  "scan_table networks =
     table_render (map ascii [''SSID'', ''SIGNAL'', ''CHANNEL'', ''SECURITY'', ''KNOWN''])
       (map (\<lambda>n. [if wn_ssid n = [] then HIDDEN else wn_ssid n, signal_cell (wn_signal_dbm n),
                  channel_cell (wn_freq_mhz n), wn_security n, if wn_known n then ascii ''*'' else []])
         (scan_rows networks))"

text \<open>A label is padded to eleven columns by the format.\<close>

definition status_field :: "string \<Rightarrow> bytes \<Rightarrow> bytes" where
  "status_field label value =
     ascii (''  '' @ label @ replicate (11 - length label) (CHR '' '')) @ value @ [10]"

definition status_addrs :: "string \<Rightarrow> bool \<Rightarrow> bytes list \<Rightarrow> bytes" where
  "status_addrs label is_v6 addrs =
     (let kept = filter (\<lambda>a. (58 \<in> set a) = is_v6) addrs
      in if kept = [] then status_field label (ascii ''-'') else concat (map (status_field label) kept))"

definition status_block :: "wire_status \<Rightarrow> bytes" where
  "status_block s =
     ws_port s @ [10]
     @ status_field ''state'' (ws_state s)
     @ status_field ''network'' (case ws_ssid s of Some n \<Rightarrow> n | None \<Rightarrow> ascii ''-'')
     @ status_addrs ''ipv4'' False (ws_addrs s)
     @ status_addrs ''ipv6'' True (ws_addrs s)"

definition progress :: "wire_event \<Rightarrow> bytes option" where
  "progress event =
     (case event of
        We_Scanning \<Rightarrow> Some (ascii ''scanning'')
      | We_Associating bssid \<Rightarrow> Some (ascii ''associating with '' @ bssid)
      | We_Authenticating \<Rightarrow> Some (ascii ''authenticating'')
      | We_Configuring \<Rightarrow> Some (ascii ''configuring addresses'')
      | _ \<Rightarrow> None)"

section \<open>Addresses as text\<close>

text \<open>
  \<^verbatim>\<open>Display\<close> of an IPv6 address: lower-case hexadecimal groups, the first longest run of two or more zero
  groups left out, and the dotted form of a mapped IPv4 address.
\<close>

fun show_hex :: "nat \<Rightarrow> string" where
  "show_hex n = (if n < 16 then [mac_hex_digit n] else show_hex (n div 16) @ [mac_hex_digit (n mod 16)])"

declare show_hex.simps [simp del]

fun ipv6_groups :: "bytes \<Rightarrow> u16 list" where
  "ipv6_groups (a # b # rest) = from_be16 a b # ipv6_groups rest"
| "ipv6_groups _ = []"

text \<open>Starts and lengths: the run at hand and the longest so far.\<close>

fun zero_run :: "nat \<Rightarrow> nat \<times> nat \<Rightarrow> nat \<times> nat \<Rightarrow> u16 list \<Rightarrow> nat \<times> nat" where
  "zero_run i cur longest [] = longest"
| "zero_run i cur longest (g # gs) =
     (if g = 0 then
        (let cur = (if snd cur = 0 then i else fst cur, snd cur + 1)
         in zero_run (i + 1) cur (if snd longest < snd cur then cur else longest) gs)
      else zero_run (i + 1) (0, 0) longest gs)"

definition show_groups :: "u16 list \<Rightarrow> string" where
  "show_groups gs = join_colon (map (\<lambda>g. show_hex (unat g)) gs)"

definition show_ipv6 :: "bytes \<Rightarrow> string" where
  "show_ipv6 addr =
     (let gs = ipv6_groups addr;
          (start, len) = zero_run 0 (0, 0) (0, 0) gs
      in if take 6 gs = [0, 0, 0, 0, 0, 0xFFFF] then
           ''::ffff:'' @ show_ipv4 (from_be32 (addr ! 12) (addr ! 13) (addr ! 14) (addr ! 15))
         else if 1 < len then show_groups (take start gs) @ ''::'' @ show_groups (drop (start + len) gs)
         else show_groups gs)"

definition show_ip :: "ip_addr \<Rightarrow> bytes" where
  "show_ip a = ascii (case a of Ip_V4 v \<Rightarrow> show_ipv4 v | Ip_V6 v \<Rightarrow> show_ipv6 v)"

section \<open>The port commands\<close>

definition addrs_for :: "net_address list \<Rightarrow> u32 \<Rightarrow> bytes list" where
  "addrs_for addrs index =
     map (\<lambda>a. show_ip (nd_addr a) @ ascii (''/'' @ show_nat (unat (nd_prefix_len a))))
       (filter (\<lambda>a. nd_index a = index) addrs)"

definition state_of :: "rt_link \<Rightarrow> bytes" where
  "state_of link =
     ascii (if \<not> link_is_up link then ''down'' else if link_has_carrier link then ''up'' else ''no-carrier'')"

definition mac_text :: "bytes option \<Rightarrow> bytes" where
  "mac_text mac = ascii (case mac of Some m \<Rightarrow> format_mac m | None \<Rightarrow> ''-'')"

definition comma_join :: "bytes list \<Rightarrow> bytes" where
  "comma_join xs = (case xs of [] \<Rightarrow> [] | x # rest \<Rightarrow> x @ concat (map (\<lambda>y. ascii '', '' @ y) rest))"

text \<open>\<^verbatim>\<open>port::list\<close> over what the two dumps gave.\<close>

definition port_list :: "nl_error + rt_link list \<Rightarrow> nl_error + net_address list \<Rightarrow> nl_error + bytes" where
  "port_list links addrs =
     (case links of
        Inl e \<Rightarrow> Inl e
      | Inr links \<Rightarrow>
          (case addrs of
             Inl e \<Rightarrow> Inl e
           | Inr addrs \<Rightarrow>
               Inr (table_render (map ascii [''NAME'', ''TYPE'', ''STATE'', ''MAC'', ''ADDRESSES''])
                 (map (\<lambda>l. let a = addrs_for addrs (rl_index l)
                           in [rl_name l, ascii (port_kind_str (rl_kind l)), state_of l, mac_text (rl_mac l),
                               if a = [] then ascii ''-'' else comma_join a])
                   links))))"

datatype port_error = Po_Netlink nl_error | Po_NoSuchPort bytes

definition info_family :: "bool \<Rightarrow> string \<Rightarrow> bytes list \<Rightarrow> bytes" where
  "info_family show_all label addrs =
     (if addrs = [] then (if show_all then ascii (''  '' @ label @ ''       -'') @ [10] else [])
      else concat (map (\<lambda>a. (if show_all then ascii (''  '' @ label @ ''       '') else []) @ a @ [10]) addrs))"

definition port_info_text :: "rt_link \<Rightarrow> bytes list \<Rightarrow> bool \<Rightarrow> bool \<Rightarrow> bytes" where
  "port_info_text link addrs protocol mac =
     (let show_all = (\<not> protocol \<and> \<not> mac);
          field = (\<lambda>label value. ascii label @ value @ [10])
      in (if show_all then
            rl_name link @ [10]
            @ field ''  type       '' (ascii (port_kind_str (rl_kind link)))
            @ field ''  state      '' (state_of link)
            @ field ''  oper       '' (ascii (oper_str (rl_oper link)))
            @ field ''  index      '' (ascii (show_nat (unat (rl_index link))))
            @ field ''  mtu        '' (ascii (show_nat (unat (rl_mtu link))))
          else [])
         @ (if show_all \<or> mac then
              (case rl_mac link of
                 Some m \<Rightarrow> field (if show_all then ''  mac        '' else []) (ascii (format_mac m))
               | None \<Rightarrow> if show_all then field ''  mac        '' (ascii ''-'') else [])
            else [])
         @ (if show_all \<or> protocol then
              info_family show_all ''ipv4'' (filter (\<lambda>a. 58 \<notin> set a) addrs)
              @ info_family show_all ''ipv6'' (filter (\<lambda>a. 58 \<in> set a) addrs)
            else []))"

definition port_info ::
  "nl_error + rt_link option \<Rightarrow> nl_error + net_address list \<Rightarrow> bytes \<Rightarrow> bool \<Rightarrow> bool \<Rightarrow> port_error + bytes" where
  "port_info found addrs name protocol mac =
     (case found of
        Inl e \<Rightarrow> Inl (Po_Netlink e)
      | Inr None \<Rightarrow> Inl (Po_NoSuchPort name)
      | Inr (Some link) \<Rightarrow>
          (case addrs of
             Inl e \<Rightarrow> Inl (Po_Netlink e)
           | Inr addrs \<Rightarrow> Inr (port_info_text link (addrs_for addrs (rl_index link)) protocol mac)))"

text \<open>\<^verbatim>\<open>port::set_up\<close>: the request it makes, if any, and what it prints once that has succeeded.\<close>

definition port_set_up ::
  "nl_error + rt_link option \<Rightarrow> bytes \<Rightarrow> bool \<Rightarrow> (u32 \<Rightarrow> bool \<Rightarrow> nl_error + unit) \<Rightarrow> port_error + bytes" where
  "port_set_up found name up set_up =
     (case found of
        Inl e \<Rightarrow> Inl (Po_Netlink e)
      | Inr None \<Rightarrow> Inl (Po_NoSuchPort name)
      | Inr (Some link) \<Rightarrow>
          if link_is_up link = up then
            Inr (name @ ascii (if up then '' is already up'' else '' is already down'') @ [10])
          else
            (case set_up (rl_index link) up of
               Inl e \<Rightarrow> Inl (Po_Netlink e)
             | Inr _ \<Rightarrow>
                 Inr (name @ ascii (if up then '' is now up'' else '' is now down'') @ [10]
                   @ (if up \<and> rl_kind link = Pk_Wireless
                      then ascii ''note: wireless ports also need `caw connect <ssid>` to carry traffic'' @ [10]
                      else []))))"

section \<open>Columns line up\<close>

lemma chunks_append: "utf8_valid a \<Longrightarrow> utf8_chunks (a @ b) = utf8_chunks a @ utf8_chunks b"
proof -
  assume "utf8_valid a"
  then obtain cs where "list_all utf8_char cs" "a = concat cs" by (rule utf8_valid_split)
  then show ?thesis
    using utf8_text.collect_append[of cs b] by (simp add: utf8_chunks_chars) (simp add: utf8_chunks_def)
qed

lemma cell_width_append: "utf8_valid a \<Longrightarrow> cell_width (a @ b) = cell_width a + cell_width b"
  by (simp add: cell_width_def chunks_append)

lemma utf8_valid_append: "utf8_valid a \<Longrightarrow> utf8_valid b \<Longrightarrow> utf8_valid (a @ b)"
  by (simp add: chunks_append utf8_valid_def[of "a @ b"]) (simp add: utf8_valid_def)

lemma spaces [simp]: "utf8_valid (replicate n 32)" "cell_width (replicate n 32) = n"
proof -
  show "utf8_valid (replicate n 32)" by (rule utf8_ascii) (simp add: list_all_iff)
  show "cell_width (replicate n 32) = n"
    by (induction n) (simp_all add: cell_width_def utf8_chunks_Cons utf8_tail_def)
qed

lemma row_line_cell:
  assumes "j < length cells" "i + length cells \<le> length ws" "list_all utf8_valid cells"
    and "\<forall>k < length cells. cell_width (cells ! k) \<le> ws ! (i + k)"
  shows "\<exists>pre post. row_line ws i cells = pre @ cells ! j @ post \<and> utf8_valid pre
     \<and> cell_width pre = (\<Sum>k < j. ws ! (i + k) + 2)"
  using assms
proof (induction cells arbitrary: i j)
  case (Cons cell cells)
  show ?case
  proof (cases j)
    case 0
    then show ?thesis
      by (intro exI[of _ "[]"] exI[of _ "drop (length cell) (row_line ws i (cell # cells))"])
        (simp add: cell_width_def)
  next
    case (Suc j')
    have w: "cell_width cell \<le> ws ! i" "utf8_valid cell" using Cons.prems by auto
    have "\<forall>k < length cells. cell_width (cells ! k) \<le> ws ! (Suc i + k)"
      using Cons.prems(4) by (auto dest: spec[of _ "Suc k" for k])
    then obtain pre post where p: "row_line ws (Suc i) cells = pre @ cells ! j' @ post" "utf8_valid pre"
      "cell_width pre = (\<Sum>k < j'. ws ! (Suc i + k) + 2)"
      using Cons.IH[of j' "Suc i"] Cons.prems Suc by auto
    have more: "Suc i < length ws" using Cons.prems(1,2) Suc by auto
    let ?pad = "replicate (ws ! i - cell_width cell + 2) 32"
    have "cell_width (cell @ ?pad @ pre) = (\<Sum>k < j. ws ! (i + k) + 2)"
      using w p(3) Suc
      by (simp add: cell_width_append sum.lessThan_Suc_shift del: replicate_Suc replicate.simps sum.lessThan_Suc)
    moreover have "utf8_valid (cell @ ?pad @ pre)"
      using w p(2) by (intro utf8_valid_append) (simp_all del: replicate.simps)
    ultimately show ?thesis
      using p(1) Suc more by (intro exI[of _ "cell @ ?pad @ pre"] exI[of _ post]) simp
  qed
qed simp

lemma widen_nth:
  "length row = length ws \<Longrightarrow> length (widen ws row) = length ws
    \<and> (\<forall>j < length ws. widen ws row ! j = max (ws ! j) (cell_width (row ! j)))"
proof (induction ws row rule: widen.induct)
  case (1 w ws cell row)
  then show ?case by (auto simp: nth_Cons split: nat.splits)
qed auto

lemma widen_all:
  assumes "\<forall>row \<in> set rows. length row = length ws"
  shows "length (foldl widen ws rows) = length ws
    \<and> (\<forall>j < length ws. (\<forall>row \<in> set rows. cell_width (row ! j) \<le> foldl widen ws rows ! j)
        \<and> ws ! j \<le> foldl widen ws rows ! j
        \<and> (foldl widen ws rows ! j = ws ! j \<or> (\<exists>row \<in> set rows. cell_width (row ! j) = foldl widen ws rows ! j)))"
  using assms
proof (induction rows arbitrary: ws)
  case (Cons row rows)
  have w: "length (widen ws row) = length ws"
    "\<forall>j < length ws. widen ws row ! j = max (ws ! j) (cell_width (row ! j))"
    using widen_nth[of row ws] Cons.prems by auto
  have IH: "length (foldl widen (widen ws row) rows) = length (widen ws row)
    \<and> (\<forall>j < length (widen ws row). (\<forall>r \<in> set rows. cell_width (r ! j) \<le> foldl widen (widen ws row) rows ! j)
        \<and> widen ws row ! j \<le> foldl widen (widen ws row) rows ! j
        \<and> (foldl widen (widen ws row) rows ! j = widen ws row ! j
           \<or> (\<exists>r \<in> set rows. cell_width (r ! j) = foldl widen (widen ws row) rows ! j)))"
    using Cons.prems w(1) by (intro Cons.IH) simp
  then show ?case using w by (fastforce simp: max_def split: if_splits)
qed simp

text \<open>
  Every table lines up. Whatever the cells hold, in any script, the \<open>j\<close>-th cells of all rows and the
  header start at the same character of their lines, two after the widest cell of the column before, and
  a line is what is printed less the blanks at its end.
\<close>
theorem table_aligned:
  assumes "\<forall>row \<in> set rows. length row = length headers"
    and "\<forall>row \<in> set (headers # rows). list_all utf8_valid row"
  shows "\<exists>ws. table_render headers rows = concat (map (\<lambda>r. trim_end (row_line ws 0 r) @ [10]) (headers # rows))
     \<and> (\<forall>j < length headers.
          (\<forall>r \<in> set (headers # rows). cell_width (r ! j) \<le> ws ! j
             \<and> (\<exists>pre post. row_line ws 0 r = pre @ r ! j @ post \<and> cell_width pre = (\<Sum>k < j. ws ! k + 2)))
        \<and> (\<exists>r \<in> set (headers # rows). cell_width (r ! j) = ws ! j))"
proof -
  let ?ws = "table_widths headers rows"
  note all = widen_all[of rows "map cell_width headers"]
  have len: "length ?ws = length headers"
    and wide: "\<And>j. j < length headers \<Longrightarrow> (\<forall>r \<in> set (headers # rows). cell_width (r ! j) \<le> ?ws ! j)
        \<and> (\<exists>r \<in> set (headers # rows). cell_width (r ! j) = ?ws ! j)"
    using all assms(1) by (auto simp: table_widths_def)
  have cell: "\<exists>pre post. row_line ?ws 0 r = pre @ r ! j @ post \<and> cell_width pre = (\<Sum>k < j. ?ws ! k + 2)"
    if "j < length headers" "r \<in> set (headers # rows)" for j r
  proof -
    have "length r = length headers" using that(2) assms(1) by auto
    moreover have "\<forall>k < length r. cell_width (r ! k) \<le> ?ws ! (0 + k)"
      using wide that(2) \<open>length r = length headers\<close> by auto
    ultimately show ?thesis
      using row_line_cell[of j r 0 ?ws] that len assms(2) by auto
  qed
  have "table_render headers rows = concat (map (\<lambda>r. trim_end (row_line ?ws 0 r) @ [10]) (headers # rows))"
    by (simp add: table_render_def push_row_def[abs_def] Let_def)
  then show ?thesis using wide cell by (intro exI[of _ ?ws]) blast
qed

lemma table_aligned_witness:
  "\<exists>ws. table_render [ascii ''SSID'', ascii ''SECURITY''] [[[99, 97, 102, 0xC3, 0xA9], ascii ''Open''], [ascii ''ab'', []]]
     = concat (map (\<lambda>r. trim_end (row_line ws 0 r) @ [10])
         [[ascii ''SSID'', ascii ''SECURITY''], [[99, 97, 102, 0xC3, 0xA9], ascii ''Open''], [ascii ''ab'', []]])"
proof -
  let ?h = "[ascii ''SSID'', ascii ''SECURITY'']"
  let ?rows = "[[[99, 97, 102, 0xC3, 0xA9], ascii ''Open''], [ascii ''ab'', []]]"
  have "\<forall>row \<in> set ?rows. length row = length ?h" by simp
  moreover have "\<forall>row \<in> set (?h # ?rows). list_all utf8_valid row" by code_simp
  ultimately show ?thesis by (rule table_aligned[THEN exE]) blast
qed

section \<open>The strongest sighting of every network\<close>

lemma retain_new_props:
  "distinct (map scan_key (retain_new seen ns))
    \<and> set (map scan_key (retain_new seen ns)) = set (map scan_key ns) - seen
    \<and> set (retain_new seen ns) \<subseteq> set ns"
  by (induction seen ns rule: retain_new.induct) auto

lemma retain_new_sorted: "sorted (map f ns) \<Longrightarrow> sorted (map f (retain_new seen ns))"
proof (induction seen ns rule: retain_new.induct)
  case (2 seen n ns)
  have "set (retain_new s ns) \<subseteq> set ns" for s
    using retain_new_props[of s ns] by blast
  then show ?case using 2 by fastforce
qed simp

lemma retain_new_first:
  assumes "sorted (map f ns)" "n \<in> set ns" "scan_key n \<notin> seen"
  shows "\<exists>m \<in> set (retain_new seen ns). scan_key m = scan_key n \<and> f m \<le> f n"
  using assms
proof (induction seen ns rule: retain_new.induct)
  case (2 seen x ns)
  consider "scan_key x \<in> seen" | "scan_key x \<notin> seen" "scan_key n = scan_key x"
    | "scan_key x \<notin> seen" "scan_key n \<noteq> scan_key x" by blast
  then show ?case
  proof cases
    case 1
    then show ?thesis using 2 by auto
  next
    case a: 2
    then have "f x \<le> f n" using "2.prems"(1,2) by auto
    then show ?thesis using a by auto
  next
    case 3
    then show ?thesis using "2.IH"(2) "2.prems" by auto
  qed
qed simp

lemma distinct_filter_key:
  assumes "distinct (map key xs)" "\<And>x. P x \<Longrightarrow> key x = f x"
  shows "distinct (map f (filter P xs))"
proof -
  have "map f (filter P xs) = map key (filter P xs)" by (rule map_cong) (simp_all add: assms(2))
  then show ?thesis by (simp only: distinct_map_filter[OF assms(1)])
qed

text \<open>
  C36. The scan table shows each network once, at its strongest. The rows are sightings from the scan, in
  falling order of signal and, at equal strength, by name; no name appears twice, nor does the hardware
  address of a nameless network; and every sighting has a row at least as strong that bears its name or, when
  it has none, is nameless with its address. The one exception is a name written like the address of a
  nameless network: of these two only the stronger has to be shown.
\<close>
theorem scan_rows_strongest:
  "set (scan_rows ns) \<subseteq> set ns
   \<and> sorted_wrt (\<lambda>a b. wn_signal_dbm b < wn_signal_dbm a
        \<or> wn_signal_dbm a = wn_signal_dbm b \<and> wn_ssid a \<le> wn_ssid b) (scan_rows ns)
   \<and> distinct (map wn_ssid (filter (\<lambda>n. wn_ssid n \<noteq> []) (scan_rows ns)))
   \<and> distinct (map wn_bssid (filter (\<lambda>n. wn_ssid n = []) (scan_rows ns)))
   \<and> list_all (\<lambda>n. list_ex (\<lambda>m. wn_signal_dbm n \<le> wn_signal_dbm m
        \<and> (if wn_ssid n = [] then wn_ssid m = [] \<and> wn_bssid m = wn_bssid n \<or> wn_ssid m = wn_bssid n
           else wn_ssid m = wn_ssid n \<or> wn_ssid m = [] \<and> wn_bssid m = wn_ssid n)) (scan_rows ns)) ns"
proof -
  let ?s = "sort_key scan_order ns"
  note p = retain_new_props[of "{}" ?s, folded scan_rows_def]
  have "sorted (map scan_order (scan_rows ns))"
    unfolding scan_rows_def by (rule retain_new_sorted) simp
  then have "sorted_wrt (\<lambda>a b. wn_signal_dbm b < wn_signal_dbm a
      \<or> wn_signal_dbm a = wn_signal_dbm b \<and> wn_ssid a \<le> wn_ssid b) (scan_rows ns)"
    unfolding sorted_map by (rule sorted_wrt_mono_rel[rotated]) (auto simp: scan_order_def less_eq_prod_def)
  moreover have "set (scan_rows ns) \<subseteq> set ns" using p by simp
  moreover have "distinct (map wn_ssid (filter (\<lambda>n. wn_ssid n \<noteq> []) (scan_rows ns)))"
    "distinct (map wn_bssid (filter (\<lambda>n. wn_ssid n = []) (scan_rows ns)))"
    using p by (auto intro!: distinct_filter_key[where key = scan_key] simp: scan_key_def)
  moreover have "list_ex (\<lambda>m. wn_signal_dbm n \<le> wn_signal_dbm m
      \<and> (if wn_ssid n = [] then wn_ssid m = [] \<and> wn_bssid m = wn_bssid n \<or> wn_ssid m = wn_bssid n
         else wn_ssid m = wn_ssid n \<or> wn_ssid m = [] \<and> wn_bssid m = wn_ssid n)) (scan_rows ns)"
    if n: "n \<in> set ns" for n
  proof -
    obtain m where m: "m \<in> set (scan_rows ns)" "scan_key m = scan_key n" "scan_order m \<le> scan_order n"
      using retain_new_first[of scan_order ?s n "{}", folded scan_rows_def] n by auto
    moreover have "wn_signal_dbm n \<le> wn_signal_dbm m" using m(3) by (auto simp: scan_order_def less_eq_prod_def)
    ultimately show ?thesis
      unfolding list_ex_iff by (intro bexI[OF _ m(1)]) (auto simp: scan_key_def split: if_splits)
  qed
  ultimately show ?thesis by (intro conjI) (simp_all add: list_all_iff)
qed

text \<open>
  Names and hardware addresses share one set: a named network whose name is the address of a stronger
  nameless one is not shown.
\<close>

lemma scan_key_clash:
  fixes mac :: bytes
  defines "hidden \<equiv> \<lparr>wn_ssid = [], wn_bssid = mac, wn_signal_dbm = -40, wn_freq_mhz = 2437,
      wn_security = [], wn_known = False\<rparr>"
    and "named \<equiv> \<lparr>wn_ssid = mac, wn_bssid = [], wn_signal_dbm = -60, wn_freq_mhz = 2437,
      wn_security = [], wn_known = False\<rparr>"
  shows "scan_rows [hidden, named] = [hidden]"
  by (simp add: scan_rows_def scan_key_def scan_order_def hidden_def named_def less_eq_prod_def)

end
