(* ===== verification/Cli_Session.thy ===== *)
theory Cli_Session
  imports Cli_Output Ipc
begin

text \<open>
  The commands that go through the daemon: the client's end of the socket (\<^verbatim>\<open>src/crates/caw/src/ipc.rs\<close>) and
  the exchanges built on it (\<^verbatim>\<open>wireless.rs\<close>). What the socket's reads and writes return, call by call, is an
  argument; a list of them that ends early is a call still blocked, \<open>None\<close>. JSON is an argument too:
  \<open>enc\<close> is \<^verbatim>\<open>serde_json::to_vec\<close> on requests and \<open>parse\<close> is \<^verbatim>\<open>from_slice\<close> on the daemon's messages.
\<close>

section \<open>The socket\<close>

datatype cli_error = Cl_NotRunning | Cl_Forbidden | Cl_Closed | Cl_Daemon bytes | Cl_Unexpected
  | Cl_Frame frame_error | Cl_Io nat | Cl_Prompt prompt_error | Cl_CouldNotConnect bytes bytes
  | Cl_NoDhcpRequest bytes

definition ENOENT :: nat where "ENOENT = 2"
definition ECONNREFUSED :: nat where "ECONNREFUSED = 111"
definition EACCES :: nat where "EACCES = 13"
definition EPERM :: nat where "EPERM = 1"

definition connect_error :: "nat \<Rightarrow> cli_error" where
  "connect_error e =
     (if e = ENOENT \<or> e = ECONNREFUSED then Cl_NotRunning
      else if e = EACCES \<or> e = EPERM then Cl_Forbidden
      else Cl_Io e)"

text \<open>A read of no bytes is the end of the stream.\<close>

datatype sock_read = Sr_Data bytes | Sr_Intr | Sr_Failed nat

datatype sock_write = Sw_Took nat | Sw_Intr | Sw_Failed nat

record cli_client =
  ic_decoder :: decoder
  ic_reads :: "sock_read list"
  ic_writes :: "sock_write list"
  ic_sent :: bytes

text \<open>\<^verbatim>\<open>Client::connect\<close>: the errors of making the socket and of connecting it, and what it will do.\<close>

definition cli_connect ::
  "nat option \<Rightarrow> nat option \<Rightarrow> sock_read list \<Rightarrow> sock_write list \<Rightarrow> cli_error + cli_client" where
  "cli_connect sock conn reads writes =
     (case sock of
        Some e \<Rightarrow> Inl (Cl_Io e)
      | None \<Rightarrow>
          (case conn of
             Some e \<Rightarrow> Inl (connect_error e)
           | None \<Rightarrow>
               Inr \<lparr>ic_decoder = decoder_new, ic_reads = reads, ic_writes = writes, ic_sent = []\<rparr>))"

fun write_all :: "bytes \<Rightarrow> cli_client \<Rightarrow> sock_write list \<Rightarrow> (cli_client \<times> (cli_error + unit)) option" where
  "write_all bs c [] = (if bs = [] then Some (c\<lparr>ic_writes := []\<rparr>, Inr ()) else None)"
| "write_all bs c (w # ws) =
     (if bs = [] then Some (c\<lparr>ic_writes := w # ws\<rparr>, Inr ())
      else
        (case w of
           Sw_Took n \<Rightarrow>
             if n = 0 then Some (c\<lparr>ic_writes := ws\<rparr>, Inl Cl_Closed)
             else write_all (drop n bs) (c\<lparr>ic_sent := ic_sent c @ take n bs\<rparr>) ws
         | Sw_Intr \<Rightarrow> write_all bs c ws
         | Sw_Failed e \<Rightarrow> Some (c\<lparr>ic_writes := ws\<rparr>, Inl (Cl_Io e))))"

definition cli_send ::
  "(ipc_request \<Rightarrow> bytes option) \<Rightarrow> ipc_request \<Rightarrow> cli_client \<Rightarrow> (cli_client \<times> (cli_error + unit)) option" where
  "cli_send enc request c =
     (case enc request of
        None \<Rightarrow> Some (c, Inl (Cl_Frame Fe_Json))
      | Some json \<Rightarrow> write_all (json @ [NEWLINE]) c (ic_writes c))"

fun next_from ::
  "(bytes \<Rightarrow> 'm option) \<Rightarrow> decoder \<Rightarrow> sock_read list \<Rightarrow> (decoder \<times> sock_read list \<times> (cli_error + 'm)) option" where
  "next_from parse d [] =
     (case decoder_next parse d of
        (d', Some (Inr m)) \<Rightarrow> Some (d', [], Inr m)
      | (d', Some (Inl e)) \<Rightarrow> Some (d', [], Inl (Cl_Frame e))
      | (d', None) \<Rightarrow> None)"
| "next_from parse d (r # rs) =
     (case decoder_next parse d of
        (d', Some (Inr m)) \<Rightarrow> Some (d', r # rs, Inr m)
      | (d', Some (Inl e)) \<Rightarrow> Some (d', r # rs, Inl (Cl_Frame e))
      | (d', None) \<Rightarrow>
          (case r of
             Sr_Data bs \<Rightarrow>
               if bs = [] then Some (d', rs, Inl Cl_Closed)
               else next_from parse (decoder_extend bs d') rs
           | Sr_Intr \<Rightarrow> next_from parse d' rs
           | Sr_Failed e \<Rightarrow> Some (d', rs, Inl (Cl_Io e))))"

definition cli_next ::
  "(bytes \<Rightarrow> 'm option) \<Rightarrow> cli_client \<Rightarrow> (cli_client \<times> (cli_error + 'm)) option" where
  "cli_next parse c =
     map_option (\<lambda>(d, rs, r). (c\<lparr>ic_decoder := d, ic_reads := rs\<rparr>, r))
       (next_from parse (ic_decoder c) (ic_reads c))"

text \<open>What is buffered or still to be read, which every message takes from.\<close>

definition read_data :: "sock_read list \<Rightarrow> bytes" where
  "read_data rs = concat (map (\<lambda>r. case r of Sr_Data bs \<Rightarrow> bs | _ \<Rightarrow> []) rs)"

definition unread :: "cli_client \<Rightarrow> nat" where
  "unread c = length (de_buf (ic_decoder c)) + length (read_data (ic_reads c))"

lemma decoder_next_None: "decoder_next parse d = (d', None) \<Longrightarrow> length (de_buf d') \<le> length (de_buf d)"
proof (induction parse d rule: decoder_next.induct)
  case (1 parse d)
  then show ?case
    using tl_dropWhile_less[of NEWLINE "de_buf d"]
    by (subst (asm) (2) decoder_next.simps) (fastforce simp: Let_def split: if_splits)
qed

lemma next_from_shrinks:
  "next_from parse d rs = Some (d', rs', Inr m) \<Longrightarrow>
     length (de_buf d') + length (read_data rs') < length (de_buf d) + length (read_data rs)"
proof (induction parse d rs rule: next_from.induct)
  case (1 parse d)
  then show ?case
    by (auto simp: read_data_def dest: decoder_next_shrinks split: prod.splits option.splits sum.splits)
next
  case (2 parse d r rs)
  obtain d1 res where n: "decoder_next parse d = (d1, res)" by fastforce
  show ?case
  proof (cases res)
    case None
    have l: "length (de_buf d1) \<le> length (de_buf d)" using decoder_next_None n None by blast
    show ?thesis
    proof (cases r)
      case (Sr_Data bs)
      then have "bs \<noteq> []" "next_from parse (decoder_extend bs d1) rs = Some (d', rs', Inr m)"
        using "2.prems" n None by (auto split: if_splits)
      with "2.IH"(1)[OF n[symmetric] None Sr_Data] l show ?thesis
        using Sr_Data by (simp add: read_data_def decoder_extend_def)
    next
      case Sr_Intr
      with "2.IH"(2)[OF n[symmetric] None Sr_Intr] "2.prems" n None l show ?thesis
        by (simp add: read_data_def)
    qed (use "2.prems" n None in simp)
  next
    case (Some x)
    then show ?thesis
      using "2.prems" n decoder_next_shrinks[of parse d d1 x] by (auto split: sum.splits)
  qed
qed

lemma cli_next_shrinks: "cli_next parse c = Some (c', Inr m) \<Longrightarrow> unread c' < unread c"
  by (auto simp: cli_next_def unread_def dest: next_from_shrinks)

section \<open>The commands\<close>

datatype printed = To_Stdout bytes | To_Stderr bytes

text \<open>\<^verbatim>\<open>report\<close>, which is what the waiting commands do with an event.\<close>

definition report :: "wire_event \<Rightarrow> printed list" where
  "report event = (case progress event of Some line \<Rightarrow> [To_Stderr (line @ [10])] | None \<Rightarrow> [])"

function await_response ::
  "(bytes \<Rightarrow> server_message option) \<Rightarrow> cli_client \<Rightarrow>
   (cli_client \<times> printed list \<times> (cli_error + wire_response)) option" where
  "await_response parse c =
     (case cli_next parse c of
        None \<Rightarrow> None
      | Some (c', Inl e) \<Rightarrow> Some (c', [], Inl e)
      | Some (c', Inr (Sm_Event event)) \<Rightarrow>
          map_option (\<lambda>(c'', out, r). (c'', report event @ out, r)) (await_response parse c')
      | Some (c', Inr (Sm_Response (Wr_Error message))) \<Rightarrow> Some (c', [], Inl (Cl_Daemon message))
      | Some (c', Inr (Sm_Response response)) \<Rightarrow> Some (c', [], Inr response))"
  by pat_completeness auto

termination
  by (relation "measure (\<lambda>(_, c). unread c)") (auto dest: cli_next_shrinks)

declare await_response.simps [simp del]

type_synonym session_result = "(cli_client \<times> printed list \<times> (cli_error + unit)) option"

definition cli_request ::
  "(ipc_request \<Rightarrow> bytes option) \<Rightarrow> (bytes \<Rightarrow> server_message option) \<Rightarrow> ipc_request \<Rightarrow> cli_client \<Rightarrow>
   (cli_client \<times> printed list \<times> (cli_error + wire_response)) option" where
  "cli_request enc parse request c =
     (case cli_send enc request c of
        None \<Rightarrow> None
      | Some (c', Inl e) \<Rightarrow> Some (c', [], Inl e)
      | Some (c', Inr _) \<Rightarrow> await_response parse c')"

text \<open>What a command makes of the response it waited for.\<close>

definition finish_with ::
  "(wire_response \<Rightarrow> printed list \<times> (cli_error + unit)) \<Rightarrow>
   (cli_client \<times> printed list \<times> (cli_error + wire_response)) option \<Rightarrow> session_result" where
  "finish_with k r =
     map_option (\<lambda>(c, out, res).
         case res of Inl e \<Rightarrow> (c, out, Inl e) | Inr response \<Rightarrow> (c, out @ fst (k response), snd (k response))) r"

definition cmd_scan ::
  "(ipc_request \<Rightarrow> bytes option) \<Rightarrow> (bytes \<Rightarrow> server_message option) \<Rightarrow> bytes option \<Rightarrow> cli_client \<Rightarrow> session_result" where
  "cmd_scan enc parse port c =
     finish_with (\<lambda>r. case r of
         Wr_Networks networks \<Rightarrow>
           (if networks = [] then ([To_Stderr (ascii ''no networks in range'' @ [10])], Inr ())
            else ([To_Stdout (scan_table networks)], Inr ()))
       | _ \<Rightarrow> ([], Inl Cl_Unexpected)) (cli_request enc parse (Rq_Scan port) c)"

definition cmd_disconnect ::
  "(ipc_request \<Rightarrow> bytes option) \<Rightarrow> (bytes \<Rightarrow> server_message option) \<Rightarrow> bytes \<Rightarrow> cli_client \<Rightarrow> session_result" where
  "cmd_disconnect enc parse ssid c =
     finish_with (\<lambda>r. case r of
         Wr_Ok \<Rightarrow> ([To_Stderr (ascii ''disconnected from '' @ ssid @ [10])], Inr ())
       | _ \<Rightarrow> ([], Inl Cl_Unexpected)) (cli_request enc parse (Rq_Disconnect ssid) c)"

definition cmd_forget ::
  "(ipc_request \<Rightarrow> bytes option) \<Rightarrow> (bytes \<Rightarrow> server_message option) \<Rightarrow> bytes \<Rightarrow> cli_client \<Rightarrow> session_result" where
  "cmd_forget enc parse ssid c =
     finish_with (\<lambda>r. case r of
         Wr_Ok \<Rightarrow> ([To_Stderr (ascii ''forgot '' @ ssid @ [10])], Inr ())
       | _ \<Rightarrow> ([], Inl Cl_Unexpected)) (cli_request enc parse (Rq_Forget ssid) c)"

definition cmd_status ::
  "(ipc_request \<Rightarrow> bytes option) \<Rightarrow> (bytes \<Rightarrow> server_message option) \<Rightarrow> cli_client \<Rightarrow> session_result" where
  "cmd_status enc parse c =
     finish_with (\<lambda>r. case r of
         Wr_Status status \<Rightarrow> ([To_Stdout (status_block status)], Inr ())
       | _ \<Rightarrow> ([], Inl Cl_Unexpected)) (cli_request enc parse Rq_Status c)"

definition stopped :: "printed list" where
  "stopped = [To_Stderr (ascii ''cawd stopped'' @ [10])]"

definition cmd_shutdown ::
  "(ipc_request \<Rightarrow> bytes option) \<Rightarrow> (bytes \<Rightarrow> server_message option) \<Rightarrow> cli_client \<Rightarrow> session_result" where
  "cmd_shutdown enc parse c =
     map_option (\<lambda>(c, out, res).
         case res of
           Inr Wr_Ok \<Rightarrow> (c, out @ stopped, Inr ())
         | Inr _ \<Rightarrow> (c, out, Inl Cl_Unexpected)
         | Inl Cl_Closed \<Rightarrow> (c, out @ stopped, Inr ())
         | Inl e \<Rightarrow> (c, out, Inl e))
       (cli_request enc parse Rq_Shutdown c)"

definition cmd_set_dhcp :: "bytes \<Rightarrow> cli_error + unit" where
  "cmd_set_dhcp name = Inl (Cl_NoDhcpRequest name)"

text \<open>
  One question, with the terminal as it is then: the modes it is left in are not needed further.
\<close>

definition ask_for :: "bytes \<Rightarrow> secret_kind \<Rightarrow> stdin_state \<Rightarrow> (printed list \<times> (cli_error + bytes)) option" where
  "ask_for text kind stdin =
     map_option (\<lambda>(_, r, out). ([To_Stderr out], map_sum Cl_Prompt id r))
       (prompt_ask (text @ ascii '': '')
          (case kind of Sk_Username \<Rightarrow> Echo_Shown | Sk_Passphrase \<Rightarrow> Echo_Hidden | Sk_Password \<Rightarrow> Echo_Hidden)
          stdin)"

lemma write_all_unread: "write_all bs c ws = Some (c', r) \<Longrightarrow> unread c' = unread c"
  by (induction bs c ws rule: write_all.induct)
    (auto simp: unread_def split: if_splits sock_write.splits)

lemma cli_send_unread: "cli_send enc rq c = Some (c', r) \<Longrightarrow> unread c' = unread c"
  by (auto simp: cli_send_def write_all_unread split: option.splits)

text \<open>The loop of \<^verbatim>\<open>connect\<close>: the terminal is there once per question; none left is one still waiting.\<close>

function connect_loop ::
  "(ipc_request \<Rightarrow> bytes option) \<Rightarrow> (bytes \<Rightarrow> server_message option) \<Rightarrow> bytes \<Rightarrow> stdin_state list \<Rightarrow> cli_client \<Rightarrow>
   session_result" where
  "connect_loop enc parse ssid stdins c =
     (case cli_next parse c of
        None \<Rightarrow> None
      | Some (c', Inl e) \<Rightarrow> Some (c', [], Inl e)
      | Some (c', Inr (Sm_Event (We_NeedSecret token text kind))) \<Rightarrow>
          (case stdins of
             [] \<Rightarrow> None
           | stdin # stdins' \<Rightarrow>
               (case ask_for text kind stdin of
                  None \<Rightarrow> None
                | Some (out, Inl e) \<Rightarrow> Some (c', out, Inl e)
                | Some (out, Inr value) \<Rightarrow>
                    (case cli_send enc (Rq_Secret token value) c' of
                       None \<Rightarrow> None
                     | Some (c'', Inl e) \<Rightarrow> Some (c'', out, Inl e)
                     | Some (c'', Inr _) \<Rightarrow>
                         map_option (\<lambda>(d, more, r). (d, out @ more, r))
                           (connect_loop enc parse ssid stdins' c''))))
      | Some (c', Inr (Sm_Event We_Connected)) \<Rightarrow>
          map_option (\<lambda>(d, more, r). (d, To_Stderr (ascii ''connected to '' @ ssid @ [10]) # more, r))
            (connect_loop enc parse ssid stdins c')
      | Some (c', Inr (Sm_Event (We_Failed why))) \<Rightarrow> Some (c', [], Inl (Cl_CouldNotConnect ssid why))
      | Some (c', Inr (Sm_Event event)) \<Rightarrow>
          map_option (\<lambda>(d, more, r). (d, report event @ more, r)) (connect_loop enc parse ssid stdins c')
      | Some (c', Inr (Sm_Response (Wr_Error message))) \<Rightarrow> Some (c', [], Inl (Cl_Daemon message))
      | Some (c', Inr (Sm_Response Wr_Ok)) \<Rightarrow> Some (c', [], Inr ())
      | Some (c', Inr (Sm_Response _)) \<Rightarrow> Some (c', [], Inl Cl_Unexpected))"
  by pat_completeness auto

termination
  by (relation "measure (\<lambda>(_, _, _, _, c). unread c)") (auto dest!: cli_send_unread cli_next_shrinks)

declare connect_loop.simps [simp del]

definition cmd_connect ::
  "(ipc_request \<Rightarrow> bytes option) \<Rightarrow> (bytes \<Rightarrow> server_message option) \<Rightarrow> bytes \<Rightarrow> bytes option \<Rightarrow>
   stdin_state list \<Rightarrow> cli_client \<Rightarrow> session_result" where
  "cmd_connect enc parse ssid port stdins c =
     (case cli_send enc (Rq_Connect ssid port) c of
        None \<Rightarrow> None
      | Some (c', Inl e) \<Rightarrow> Some (c', [], Inl e)
      | Some (c', Inr _) \<Rightarrow> connect_loop enc parse ssid stdins c')"

section \<open>The command line\<close>

text \<open>What \<^verbatim>\<open>clap\<close> makes of the arguments.\<close>

datatype port_action = Pa_Up bytes | Pa_Info bytes bool bool | Pa_SetDhcp bytes

datatype cli_command = Cm_Ports | Cm_Port port_action | Cm_Scan "bytes option" | Cm_Connect bytes "bytes option"
  | Cm_Disconnect bytes | Cm_Forget bytes | Cm_Status | Cm_Shutdown

text \<open>
  What the commands find: the two dumps, the answer to setting a port up, the connection to the daemon and
  the terminal for each question.
\<close>

record cli_world =
  cw_links :: "nl_error + rt_link list"
  cw_addrs :: "nl_error + net_address list"
  cw_set_up :: "u32 \<Rightarrow> bool \<Rightarrow> nl_error + unit"
  cw_client :: "cli_error + cli_client"
  cw_stdins :: "stdin_state list"

datatype main_error = Me_Port port_error | Me_Cli cli_error

definition port_result :: "port_error + bytes \<Rightarrow> (printed list \<times> (main_error + unit)) option" where
  "port_result r = (case r of Inl e \<Rightarrow> Some ([], Inl (Me_Port e)) | Inr text \<Rightarrow> Some ([To_Stdout text], Inr ()))"

definition wireless_result ::
  "cli_error + cli_client \<Rightarrow> (cli_client \<Rightarrow> session_result) \<Rightarrow> (printed list \<times> (main_error + unit)) option" where
  "wireless_result client run =
     (case client of
        Inl e \<Rightarrow> Some ([], Inl (Me_Cli e))
      | Inr c \<Rightarrow> map_option (\<lambda>(_, out, r). (out, map_sum Me_Cli id r)) (run c))"

text \<open>\<^verbatim>\<open>main\<close>: the process succeeds exactly when the result is \<open>Inr\<close>.\<close>

definition cli_main ::
  "(ipc_request \<Rightarrow> bytes option) \<Rightarrow> (bytes \<Rightarrow> server_message option) \<Rightarrow> cli_world \<Rightarrow> cli_command \<Rightarrow>
   (printed list \<times> (main_error + unit)) option" where
  "cli_main enc parse w cmd =
     (let found = (\<lambda>name. map_sum id (find (\<lambda>l. rl_name l = name)) (cw_links w))
      in case cmd of
           Cm_Ports \<Rightarrow> port_result (map_sum Po_Netlink id (port_list (cw_links w) (cw_addrs w)))
         | Cm_Port (Pa_Up name) \<Rightarrow> port_result (port_set_up (found name) name True (cw_set_up w))
         | Cm_Port (Pa_Info name protocol mac) \<Rightarrow>
             port_result (port_info (found name) (cw_addrs w) name protocol mac)
         | Cm_Port (Pa_SetDhcp name) \<Rightarrow> Some ([], map_sum Me_Cli id (cmd_set_dhcp name))
         | Cm_Scan port \<Rightarrow> wireless_result (cw_client w) (cmd_scan enc parse port)
         | Cm_Connect ssid port \<Rightarrow> wireless_result (cw_client w) (cmd_connect enc parse ssid port (cw_stdins w))
         | Cm_Disconnect ssid \<Rightarrow> wireless_result (cw_client w) (cmd_disconnect enc parse ssid)
         | Cm_Forget ssid \<Rightarrow> wireless_result (cw_client w) (cmd_forget enc parse ssid)
         | Cm_Status \<Rightarrow> wireless_result (cw_client w) (cmd_status enc parse)
         | Cm_Shutdown \<Rightarrow> wireless_result (cw_client w) (cmd_shutdown enc parse))"

section \<open>A conversation with the daemon\<close>

text \<open>Reads and writes that get through, interrupted as they may be, a piece at a time.\<close>

definition good_reads :: "sock_read list \<Rightarrow> bool" where
  "good_reads rs \<longleftrightarrow> list_all (\<lambda>r. case r of Sr_Data bs \<Rightarrow> bs \<noteq> [] | Sr_Intr \<Rightarrow> True | Sr_Failed _ \<Rightarrow> False) rs"

definition good_writes :: "sock_write list \<Rightarrow> bool" where
  "good_writes ws \<longleftrightarrow> list_all (\<lambda>w. case w of Sw_Took n \<Rightarrow> 0 < n | Sw_Intr \<Rightarrow> True | Sw_Failed _ \<Rightarrow> False) ws"

definition takes :: "sock_write list \<Rightarrow> nat" where
  "takes ws = length (filter (\<lambda>w. w \<noteq> Sw_Intr) ws)"

definition incoming_bytes :: "cli_client \<Rightarrow> bytes" where
  "incoming_bytes c = de_buf (ic_decoder c) @ read_data (ic_reads c)"

text \<open>What the framing relies on in the JSON of one message.\<close>

definition framed :: "('m \<Rightarrow> bytes) \<Rightarrow> (bytes \<Rightarrow> 'm option) \<Rightarrow> 'm \<Rightarrow> bool" where
  "framed sm parse m \<longleftrightarrow> parse (sm m) = Some m \<and> NEWLINE \<notin> set (sm m)
     \<and> \<not> list_all is_ascii_whitespace (sm m) \<and> List.last (sm m) \<noteq> 13 \<and> length (sm m) \<le> MAX_LINE"

lemma decoder_next_framed:
  assumes "framed sm parse m" "de_buf d = sm m @ NEWLINE # rest"
  shows "decoder_next parse d = (d\<lparr>de_buf := rest\<rparr>, Some (Inr m))"
proof -
  have "strip_cr (sm m) = sm m" using assms(1) by (simp add: framed_def strip_cr_def)
  then show ?thesis
    using assms by (subst decoder_next.simps) (simp add: framed_def takeWhile_line dropWhile_line Let_def)
qed

lemma split_at_newline:
  assumes "buf @ D = E @ NEWLINE # rest" "NEWLINE \<notin> set E"
  shows "NEWLINE \<in> set buf \<Longrightarrow> \<exists>b. buf = E @ NEWLINE # b \<and> b @ D = rest"
    and "NEWLINE \<notin> set buf \<Longrightarrow> \<exists>us. E = buf @ us"
proof -
  from assms(1) consider us where "buf = E @ us" "us @ D = NEWLINE # rest" | us where "E = buf @ us"
    by (auto simp: append_eq_append_conv2)
  then show "NEWLINE \<in> set buf \<Longrightarrow> \<exists>b. buf = E @ NEWLINE # b \<and> b @ D = rest"
    and "NEWLINE \<notin> set buf \<Longrightarrow> \<exists>us. E = buf @ us"
    using assms(2) by (cases; auto simp: append_eq_Cons_conv Cons_eq_append_conv)+
qed

lemma next_from_wire:
  assumes "framed sm parse m"
  shows "de_buf d @ read_data rs = sm m @ NEWLINE # rest \<Longrightarrow> de_limit d = MAX_LINE \<Longrightarrow> good_reads rs \<Longrightarrow>
     \<exists>b rs'. next_from parse d rs = Some (d\<lparr>de_buf := b\<rparr>, rs', Inr m) \<and> b @ read_data rs' = rest \<and> good_reads rs'"
proof (induction rs arbitrary: d)
  case Nil
  have nl: "NEWLINE \<notin> set (sm m)" using assms by (simp add: framed_def)
  show ?case
    using Nil decoder_next_framed[OF assms, of d rest] nl
    by (auto simp: read_data_def good_reads_def)
next
  case (Cons r rs)
  have nl: "NEWLINE \<notin> set (sm m)" using assms by (simp add: framed_def)
  show ?case
  proof (cases "NEWLINE \<in> set (de_buf d)")
    case True
    then obtain b where b: "de_buf d = sm m @ NEWLINE # b" "b @ read_data (r # rs) = rest"
      using split_at_newline(1)[OF Cons.prems(1) nl] by blast
    then show ?thesis using decoder_next_framed[OF assms b(1)] Cons.prems(3) by auto
  next
    case False
    then obtain us where "sm m = de_buf d @ us" using split_at_newline(2)[OF Cons.prems(1) nl] by blast
    then have t: "decoder_next parse d = (d, None)"
      using decoder_next_tail[OF False] Cons.prems(2) assms by (simp add: framed_def)
    show ?thesis
    proof (cases r)
      case (Sr_Data bs)
      have "\<exists>b rs'. next_from parse (decoder_extend bs d) rs = Some (decoder_extend bs d\<lparr>de_buf := b\<rparr>, rs', Inr m)
          \<and> b @ read_data rs' = rest \<and> good_reads rs'"
        using Cons.prems Sr_Data
        by (intro Cons.IH) (simp_all add: read_data_def decoder_extend_def good_reads_def)
      then show ?thesis using t Sr_Data Cons.prems(3) by (auto simp: good_reads_def decoder_extend_def)
    next
      case Sr_Intr
      then show ?thesis using Cons t by (simp add: read_data_def good_reads_def)
    qed (use Cons.prems(3) in \<open>simp add: good_reads_def\<close>)
  qed
qed

lemma cli_next_wire:
  assumes "framed sm parse m" "incoming_bytes c = sm m @ NEWLINE # rest"
    and "de_limit (ic_decoder c) = MAX_LINE" "good_reads (ic_reads c)"
  obtains c' where "cli_next parse c = Some (c', Inr m)" "incoming_bytes c' = rest" "good_reads (ic_reads c')"
    "ic_sent c' = ic_sent c" "ic_writes c' = ic_writes c" "de_limit (ic_decoder c') = MAX_LINE"
proof -
  obtain b rs' where "next_from parse (ic_decoder c) (ic_reads c) = Some ((ic_decoder c)\<lparr>de_buf := b\<rparr>, rs', Inr m)"
    "b @ read_data rs' = rest" "good_reads rs'"
    using next_from_wire[OF assms(1), of "ic_decoder c" "ic_reads c" rest] assms(2-)
    by (auto simp: incoming_bytes_def)
  then show thesis
    using assms(3)
    by (intro that[of "c\<lparr>ic_decoder := (ic_decoder c)\<lparr>de_buf := b\<rparr>, ic_reads := rs'\<rparr>"])
      (simp_all add: cli_next_def incoming_bytes_def)
qed

lemma write_all_good:
  "good_writes ws \<Longrightarrow> length bs \<le> takes ws \<Longrightarrow>
     \<exists>ws'. write_all bs c ws = Some (c\<lparr>ic_sent := ic_sent c @ bs, ic_writes := ws'\<rparr>, Inr ()) \<and> good_writes ws'
       \<and> takes ws \<le> takes ws' + length bs"
proof (induction bs c ws rule: write_all.induct)
  case (2 bs c w ws)
  show ?case
  proof (cases "bs = []")
    case False
    show ?thesis
    proof (cases w)
      case (Sw_Took n)
      then have n: "0 < n" "good_writes ws" "length (drop n bs) \<le> takes ws"
        using "2.prems" by (auto simp: good_writes_def takes_def)
      with "2.IH"(1)[OF False Sw_Took] obtain ws' where
        "write_all (drop n bs) (c\<lparr>ic_sent := ic_sent c @ take n bs\<rparr>) ws
          = Some (c\<lparr>ic_sent := ic_sent c @ bs, ic_writes := ws'\<rparr>, Inr ())" "good_writes ws'"
        and t: "takes ws \<le> takes ws' + length (drop n bs)" by auto
      moreover have "0 < length bs" using False by simp
      then have "takes ws + 1 \<le> takes ws' + length bs" using t n(1) unfolding length_drop by linarith
      ultimately show ?thesis using Sw_Took n False
        by (intro exI[of _ ws']) (simp add: takes_def)
    next
      case Sw_Intr
      then show ?thesis using "2.IH"(2)[OF False Sw_Intr] "2.prems" False by (simp add: good_writes_def takes_def)
    qed (use "2.prems" in \<open>simp add: good_writes_def\<close>)
  qed (use "2.prems" in auto)
qed (auto simp: takes_def good_writes_def)

lemma cli_send_good:
  assumes "enc rq = Some json" "good_writes (ic_writes c)" "length json + 1 \<le> takes (ic_writes c)"
  obtains c' where "cli_send enc rq c = Some (c', Inr ())" "ic_sent c' = ic_sent c @ json @ [NEWLINE]"
    "good_writes (ic_writes c')" "takes (ic_writes c) \<le> takes (ic_writes c') + length json + 1"
    "ic_decoder c' = ic_decoder c" "ic_reads c' = ic_reads c"
proof -
  from write_all_good[OF assms(2), of "json @ [NEWLINE]" c] assms(3) obtain ws' where
    "write_all (json @ [NEWLINE]) c (ic_writes c)
       = Some (c\<lparr>ic_sent := ic_sent c @ json @ [NEWLINE], ic_writes := ws'\<rparr>, Inr ())"
    "good_writes ws'" "takes (ic_writes c) \<le> takes ws' + length (json @ [NEWLINE])"
    by auto
  then show thesis
    using assms(1) by (intro that[of "c\<lparr>ic_sent := ic_sent c @ json @ [NEWLINE], ic_writes := ws'\<rparr>"]) (simp_all add: cli_send_def)
qed

text \<open>What a command that waits ends with.\<close>

definition outcome_of :: "wire_response \<Rightarrow> cli_error + wire_response" where
  "outcome_of r = (case r of Wr_Error m \<Rightarrow> Inl (Cl_Daemon m) | _ \<Rightarrow> Inr r)"

lemma await_wire:
  "incoming_bytes c = wire sm (map Sm_Event evs @ [Sm_Response r]) @ later \<Longrightarrow>
     list_all (framed sm parse) (map Sm_Event evs @ [Sm_Response r]) \<Longrightarrow>
     de_limit (ic_decoder c) = MAX_LINE \<Longrightarrow> good_reads (ic_reads c) \<Longrightarrow>
     \<exists>c'. await_response parse c = Some (c', concat (map report evs), outcome_of r) \<and> ic_sent c' = ic_sent c"
proof (induction evs arbitrary: c)
  case Nil
  then have "framed sm parse (Sm_Response r)" "incoming_bytes c = sm (Sm_Response r) @ NEWLINE # later" by auto
  from cli_next_wire[OF this Nil(3,4)] obtain c' where
    "cli_next parse c = Some (c', Inr (Sm_Response r))" "ic_sent c' = ic_sent c" by blast
  then show ?case by (subst await_response.simps) (cases r; simp add: outcome_of_def)
next
  case (Cons e evs)
  let ?rest = "wire sm (map Sm_Event evs @ [Sm_Response r]) @ later"
  have "framed sm parse (Sm_Event e)" "incoming_bytes c = sm (Sm_Event e) @ NEWLINE # ?rest"
    using Cons.prems(1,2) by auto
  from cli_next_wire[OF this Cons.prems(3,4)] obtain c1 where
    c1: "cli_next parse c = Some (c1, Inr (Sm_Event e))" "incoming_bytes c1 = ?rest"
    "good_reads (ic_reads c1)" "ic_sent c1 = ic_sent c" "de_limit (ic_decoder c1) = MAX_LINE" by blast
  then obtain c' where "await_response parse c1 = Some (c', concat (map report evs), outcome_of r)"
    "ic_sent c' = ic_sent c1"
    using Cons.IH[of c1] Cons.prems(2) by auto
  then show ?case using c1 by (subst await_response.simps) simp
qed

text \<open>
  A command gets the daemon's answer. However the socket cuts what the daemon writes into reads and
  what the client writes into writes, and however often either is interrupted, the daemon is sent exactly
  the one request, every event is reported in order as it comes, and the command ends with the response, an
  error of the daemon being the command's own.
\<close>
theorem request_answered:
  assumes "enc rq = Some json" "cli_connect None None reads writes = Inr c"
    and "read_data reads = wire sm (map Sm_Event evs @ [Sm_Response r]) @ later"
    and "list_all (framed sm parse) (map Sm_Event evs @ [Sm_Response r])"
    and "good_reads reads" "good_writes writes" "length json + 1 \<le> takes writes"
  shows "\<exists>c'. cli_request enc parse rq c = Some (c', concat (map report evs), outcome_of r)
     \<and> ic_sent c' = json @ [NEWLINE]"
proof -
  have c: "ic_decoder c = decoder_new" "ic_reads c = reads" "ic_writes c = writes" "ic_sent c = []"
    using assms(2) by (auto simp: cli_connect_def)
  obtain c1 where c1: "cli_send enc rq c = Some (c1, Inr ())" "ic_sent c1 = json @ [NEWLINE]"
    "ic_decoder c1 = decoder_new" "ic_reads c1 = reads"
    using cli_send_good[of enc rq json c, OF assms(1)] c assms(6,7) by auto
  have "incoming_bytes c1 = wire sm (map Sm_Event evs @ [Sm_Response r]) @ later"
    "de_limit (ic_decoder c1) = MAX_LINE"
    using c1 assms(3) by (simp_all add: incoming_bytes_def decoder_new_def decoder_with_limit_def)
  from await_wire[OF this(1) assms(4) this(2)] c1 assms(5) obtain c' where
    "await_response parse c1 = Some (c', concat (map report evs), outcome_of r)" "ic_sent c' = ic_sent c1"
    by auto
  then show ?thesis using c1 by (simp add: cli_request_def)
qed

definition sample_message :: "server_message \<Rightarrow> bytes" where
  "sample_message m =
     (if m = Sm_Event We_Scanning then [83] else if m = Sm_Event (We_NeedSecret 7 [80] Sk_Passphrase) then [81]
      else [79])"

definition sample_parse :: "bytes \<Rightarrow> server_message option" where
  "sample_parse line =
     (if line = [83] then Some (Sm_Event We_Scanning)
      else if line = [81] then Some (Sm_Event (We_NeedSecret 7 [80] Sk_Passphrase))
      else if line = [79] then Some (Sm_Response Wr_Ok) else None)"

lemmas sample_defs = sample_message_def sample_parse_def framed_def is_ascii_whitespace_def NEWLINE_def
  MAX_LINE_def good_reads_def good_writes_def takes_def read_data_def

lemma request_answered_witness:
  "\<exists>c c'. cli_connect None None [Sr_Data [83], Sr_Intr, Sr_Data [10, 79, 10]] [Sw_Took 1, Sw_Intr, Sw_Took 1] = Inr c
     \<and> cli_request (\<lambda>_. Some [82]) sample_parse Rq_Shutdown c
       = Some (c', [To_Stderr (ascii ''scanning'' @ [10])], Inr Wr_Ok) \<and> ic_sent c' = [82, 10]"
proof -
  obtain c where c: "cli_connect None None [Sr_Data [83], Sr_Intr, Sr_Data [10, 79, 10]]
      [Sw_Took 1, Sw_Intr, Sw_Took 1] = Inr c"
    by (simp add: cli_connect_def)
  from request_answered[of "\<lambda>_. Some [82]" Rq_Shutdown "[82]", OF _ c, of sample_message "[We_Scanning]" Wr_Ok "[]"
      sample_parse]
  show ?thesis using c
    by (simp add: sample_defs report_def progress_def outcome_of_def)
qed

section \<open>Joining a network\<close>

fun question_of :: "wire_event \<Rightarrow> (u64 \<times> bytes \<times> secret_kind) list" where
  "question_of (We_NeedSecret token text kind) = [(token, text, kind)]"
| "question_of _ = []"

definition questions :: "wire_event list \<Rightarrow> (u64 \<times> bytes \<times> secret_kind) list" where
  "questions evs = concat (map question_of evs)"

lemma questions_simps [simp]: "questions [] = []" "questions (e # evs) = question_of e @ questions evs"
  by (simp_all add: questions_def)

text \<open>A question and the terminal that answers it with a value.\<close>

definition answered :: "u64 \<times> bytes \<times> secret_kind \<Rightarrow> stdin_state \<times> bytes \<Rightarrow> bool" where
  "answered q s = (case q of (token, text, kind) \<Rightarrow> \<exists>out. ask_for text kind (fst s) = Some (out, Inr (snd s)))"

definition secrets :: "wire_event list \<Rightarrow> (stdin_state \<times> bytes) list \<Rightarrow> ipc_request list" where
  "secrets evs ss = map2 (\<lambda>q s. Rq_Secret (fst q) (snd s)) (questions evs) ss"

text \<open>What ends the conversation, and how: a response, or the news that joining failed.\<close>

fun ends_join :: "server_message \<Rightarrow> bool" where
  "ends_join (Sm_Response r) \<longleftrightarrow> True"
| "ends_join (Sm_Event (We_Failed why)) \<longleftrightarrow> True"
| "ends_join (Sm_Event e) \<longleftrightarrow> False"

fun joined :: "bytes \<Rightarrow> server_message \<Rightarrow> cli_error + unit" where
  "joined ssid (Sm_Response Wr_Ok) = Inr ()"
| "joined ssid (Sm_Response (Wr_Error message)) = Inl (Cl_Daemon message)"
| "joined ssid (Sm_Event (We_Failed why)) = Inl (Cl_CouldNotConnect ssid why)"
| "joined ssid m = Inl Cl_Unexpected"

text \<open>What is printed on the way.\<close>

fun narrative :: "bytes \<Rightarrow> wire_event list \<Rightarrow> stdin_state list \<Rightarrow> printed list" where
  "narrative ssid [] stdins = []"
| "narrative ssid (We_NeedSecret token text kind # evs) stdins =
     (case ask_for text kind (hd stdins) of Some (out, _) \<Rightarrow> out | None \<Rightarrow> []) @ narrative ssid evs (tl stdins)"
| "narrative ssid (We_Connected # evs) stdins =
     To_Stderr (ascii ''connected to '' @ ssid @ [10]) # narrative ssid evs stdins"
| "narrative ssid (e # evs) stdins = report e @ narrative ssid evs stdins"

lemma connect_loop_wire:
  assumes rq: "\<And>r. enc r = Some (rqenc r)"
  shows "incoming_bytes c = wire sm (map Sm_Event evs @ [m]) @ later \<Longrightarrow>
     list_all (framed sm parse) (map Sm_Event evs @ [m]) \<Longrightarrow>
     de_limit (ic_decoder c) = MAX_LINE \<Longrightarrow> good_reads (ic_reads c) \<Longrightarrow> good_writes (ic_writes c) \<Longrightarrow>
     list_all (\<lambda>e. \<not> ends_join (Sm_Event e)) evs \<Longrightarrow> ends_join m \<Longrightarrow>
     list_all2 answered (questions evs) ss \<Longrightarrow> length (wire rqenc (secrets evs ss)) \<le> takes (ic_writes c) \<Longrightarrow>
     \<exists>c'. connect_loop enc parse ssid (map fst ss) c = Some (c', narrative ssid evs (map fst ss), joined ssid m)
       \<and> ic_sent c' = ic_sent c @ wire rqenc (secrets evs ss)"
proof (induction evs arbitrary: c ss)
  case Nil
  then have "framed sm parse m" "incoming_bytes c = sm m @ NEWLINE # later" by auto
  from cli_next_wire[OF this Nil(3,4)] obtain c' where
    "cli_next parse c = Some (c', Inr m)" "ic_sent c' = ic_sent c" by blast
  moreover have "ss = []" using Nil by simp
  ultimately show ?case
    using Nil(7) by (subst connect_loop.simps) (cases m rule: ends_join.cases; auto simp: secrets_def split: wire_response.split)
next
  case (Cons e evs)
  note P = Cons.prems and IH = Cons.IH
  let ?rest = "wire sm (map Sm_Event evs @ [m]) @ later"
  have "framed sm parse (Sm_Event e)" "incoming_bytes c = sm (Sm_Event e) @ NEWLINE # ?rest"
    using P(1,2) by auto
  from cli_next_wire[OF this P(3,4)] obtain c1 where
    c1: "cli_next parse c = Some (c1, Inr (Sm_Event e))" "incoming_bytes c1 = ?rest"
    "good_reads (ic_reads c1)" "ic_sent c1 = ic_sent c" "ic_writes c1 = ic_writes c"
    "de_limit (ic_decoder c1) = MAX_LINE" by blast
  have ok: "list_all (framed sm parse) (map Sm_Event evs @ [m])"
    "list_all (\<lambda>e. \<not> ends_join (Sm_Event e)) evs"
    using P(2,6) by auto
  show ?case
  proof (cases "question_of e")
    case Nil
    then have "list_all2 answered (questions evs) ss" "secrets (e # evs) ss = secrets evs ss"
      using P(8) by (auto simp: secrets_def)
    then obtain c' where "connect_loop enc parse ssid (map fst ss) c1 = Some (c', narrative ssid evs (map fst ss), joined ssid m)"
      "ic_sent c' = ic_sent c1 @ wire rqenc (secrets evs ss)"
      using IH[OF c1(2) ok(1) c1(6,3) _ ok(2) P(7), of ss] P(5,9) c1(5) by auto
    then show ?thesis
      using c1 Nil P(6) \<open>secrets (e # evs) ss = secrets evs ss\<close>
      by (subst connect_loop.simps) (cases e; simp)
  next
    case (Cons q qs)
    then obtain token prompt kind where e: "e = We_NeedSecret token prompt kind" "q = (token, prompt, kind)" "qs = []"
      by (cases e) auto
    then obtain s v ss' where ss: "ss = (s, v) # ss'" "list_all2 answered (questions evs) ss'"
      and a: "answered (token, prompt, kind) (s, v)"
      using P(8) by (auto simp: list_all2_Cons1)
    obtain out1 where out1: "ask_for prompt kind s = Some (out1, Inr v)" using a by (auto simp: answered_def)
    have sec: "secrets (e # evs) ss = Rq_Secret token v # secrets evs ss'"
      using e ss by (simp add: secrets_def)
    have enough: "length (rqenc (Rq_Secret token v)) + 1 \<le> takes (ic_writes c1)"
      using P(9) sec c1(5) by simp
    obtain c2 where c2: "cli_send enc (Rq_Secret token v) c1 = Some (c2, Inr ())"
      "ic_sent c2 = ic_sent c1 @ rqenc (Rq_Secret token v) @ [NEWLINE]" "good_writes (ic_writes c2)"
      "takes (ic_writes c1) \<le> takes (ic_writes c2) + length (rqenc (Rq_Secret token v)) + 1"
      "ic_decoder c2 = ic_decoder c1" "ic_reads c2 = ic_reads c1"
      using cli_send_good[of enc "Rq_Secret token v" "rqenc (Rq_Secret token v)" c1, OF rq] enough P(5) c1(5)
      by auto
    have "incoming_bytes c2 = ?rest" using c1(2) c2(5,6) by (simp add: incoming_bytes_def)
    moreover have "length (wire rqenc (secrets evs ss')) \<le> takes (ic_writes c2)"
      using c2(4) P(9) sec c1(5) by simp
    ultimately obtain c' where "connect_loop enc parse ssid (map fst ss') c2 = Some (c', narrative ssid evs (map fst ss'), joined ssid m)"
      "ic_sent c' = ic_sent c2 @ wire rqenc (secrets evs ss')"
      using IH[of c2 ss'] ok P(7) c1(3,6) c2(3,5,6) ss(2) by auto
    then show ?thesis
      using c1 c2 e ss out1 sec by (subst connect_loop.simps) simp
  qed
qed

text \<open>
  C27. Joining a network answers every question of the daemon, once, and tells it nothing else. For any
  events in any order, cut into reads anyhow, up to the first response or the event that joining failed, the
  client sends the request to connect and then, for each question as it comes, the value typed for it under
  its token; it prints what the events report, in order; and it ends as the daemon says: with success on \<^verbatim>\<open>Ok\<close>
  and on nothing else, with the daemon's reason on a failure, with its message on an error.
\<close>
theorem connect_answers:
  assumes "\<forall>r. enc r = Some (rqenc r)" "cli_connect None None reads writes = Inr c"
    and "read_data reads = wire sm (map Sm_Event evs @ [m]) @ later"
    and "list_all (framed sm parse) (map Sm_Event evs @ [m])"
    and "list_all (\<lambda>e. \<not> ends_join (Sm_Event e)) evs" "ends_join m" "list_all2 answered (questions evs) ss"
    and "good_reads reads" "good_writes writes"
    and "length (wire rqenc (Rq_Connect ssid port # secrets evs ss)) \<le> takes writes"
  shows "\<exists>c'. cmd_connect enc parse ssid port (map fst ss) c
       = Some (c', narrative ssid evs (map fst ss), joined ssid m)
     \<and> ic_sent c' = wire rqenc (Rq_Connect ssid port # secrets evs ss)
     \<and> (joined ssid m = Inr () \<longleftrightarrow> m = Sm_Response Wr_Ok)"
proof -
  let ?json = "rqenc (Rq_Connect ssid port)"
  have c: "ic_decoder c = decoder_new" "ic_reads c = reads" "ic_writes c = writes" "ic_sent c = []"
    using assms(2) by (auto simp: cli_connect_def)
  obtain c1 where c1: "cli_send enc (Rq_Connect ssid port) c = Some (c1, Inr ())"
    "ic_sent c1 = ?json @ [NEWLINE]" "good_writes (ic_writes c1)" "takes writes \<le> takes (ic_writes c1) + length ?json + 1"
    "ic_decoder c1 = decoder_new" "ic_reads c1 = reads"
    using cli_send_good[of enc "Rq_Connect ssid port" ?json c] c assms(1,9,10) by auto
  have "incoming_bytes c1 = wire sm (map Sm_Event evs @ [m]) @ later"
    "de_limit (ic_decoder c1) = MAX_LINE"
    using c1 assms(3) by (simp_all add: incoming_bytes_def decoder_new_def decoder_with_limit_def)
  from connect_loop_wire[of enc rqenc, OF _ this(1) assms(4) this(2) _ c1(3) assms(5-7), of ssid] obtain c' where
    "connect_loop enc parse ssid (map fst ss) c1 = Some (c', narrative ssid evs (map fst ss), joined ssid m)"
    "ic_sent c' = ic_sent c1 @ wire rqenc (secrets evs ss)"
    using assms(1,8,10) c1(4,6) by auto
  moreover have "joined ssid m = Inr () \<longleftrightarrow> m = Sm_Response Wr_Ok"
    by (cases "(ssid, m)" rule: joined.cases) simp_all
  ultimately show ?thesis using c1 by (simp add: cmd_connect_def)
qed

definition sample_stdin :: stdin_state where
  "sample_stdin =
     \<lparr>sd_isatty = True, sd_line = Inr [], sd_calls = sample_tty,
      sd_reads = [Rd_Byte 115, Rd_Byte 8, Rd_Byte 112, Rd_Byte 10],
      sd_modes = sample_termios\<rparr>"

definition sample_request :: "ipc_request \<Rightarrow> bytes" where
  "sample_request r = (case r of Rq_Secret token v \<Rightarrow> ucast token # v | _ \<Rightarrow> [67])"

definition sample_client :: cli_client where
  "sample_client =
     \<lparr>ic_decoder = decoder_new, ic_reads = [Sr_Data [81, 10, 83], Sr_Data [10], Sr_Intr, Sr_Data [79, 10]],
      ic_writes = replicate 9 (Sw_Took 1), ic_sent = []\<rparr>"

lemma connect_answers_witness:
  "\<exists>c' out. cmd_connect (\<lambda>r. Some (sample_request r)) sample_parse [65] None [sample_stdin] sample_client
       = Some (c', out, Inr ())
     \<and> ic_sent c' = [67, 10, 7, 112, 10]"
proof -
  let ?evs = "[We_NeedSecret 7 [80] Sk_Passphrase, We_Scanning]"
  let ?ss = "[(sample_stdin, [112 :: u8])]"
  let ?rs = "[Sr_Data [81, 10, 83], Sr_Data [10], Sr_Intr, Sr_Data [79, 10]]"
  have ans: "list_all2 answered (questions ?evs) ?ss"
    by (simp add: answered_def ask_for_def prompt_ask_def sample_stdin_def read_tty_def restore_apply_def
        restore_drop_def prompt_key_def key_defs erase_char_def utf8_ascii sample_tty_def)
  have sec: "wire sample_request (Rq_Connect [65] None # secrets ?evs ?ss) = [67, 10, 7, 112, 10]"
    by (simp add: secrets_def NEWLINE_def sample_request_def)
  have "\<exists>c'. cmd_connect (\<lambda>r. Some (sample_request r)) sample_parse [65] None (map fst ?ss) sample_client
      = Some (c', narrative [65] ?evs (map fst ?ss), joined [65] (Sm_Response Wr_Ok))
     \<and> ic_sent c' = wire sample_request (Rq_Connect [65] None # secrets ?evs ?ss)
     \<and> (joined [65] (Sm_Response Wr_Ok) = Inr () \<longleftrightarrow> Sm_Response Wr_Ok = Sm_Response Wr_Ok)"
  proof (rule connect_answers[where reads = ?rs and writes = "replicate 9 (Sw_Took 1)" and sm = sample_message
        and later = "[]", OF _ _ _ _ _ _ ans])
    show "cli_connect None None ?rs (replicate 9 (Sw_Took 1)) = Inr sample_client"
      by (simp add: cli_connect_def sample_client_def)
    show "length (wire sample_request (Rq_Connect [65] None # secrets ?evs ?ss)) \<le> takes (replicate 9 (Sw_Took 1))"
      unfolding sec by (simp add: takes_def)
    show "good_writes (replicate 9 (Sw_Took 1))" by (simp add: good_writes_def list_all_iff)
  qed (simp_all add: sample_defs)
  then show ?thesis unfolding sec by auto
qed

end
