(* ===== verification/Sockets.thy ===== *)
theory Sockets
  imports Eapol_Key Dhcp_Message
begin

text \<open>
  The shells around the two protocol sockets (\<^verbatim>\<open>src/crates/caw-eapol/src/socket.rs\<close> and
  \<^verbatim>\<open>src/crates/caw-dhcp/src/socket.rs\<close>) and how the daemon starts and is stopped
  (\<^verbatim>\<open>src/crates/cawd/src/main.rs\<close>, \<^verbatim>\<open>signals.rs\<close>). What a system call returns is an argument; a packet
  address is the bytes the kernel gives for it.
\<close>

section \<open>EAPOL\<close>

record eapol_socket =
  ek_ifindex :: u32
  ek_peer :: "bytes option"

text \<open>\<^verbatim>\<open>open\<close>, with the error of making the socket.\<close>

definition eapol_open :: "nat option \<Rightarrow> u32 \<Rightarrow> eapol_error + eapol_socket" where
  "eapol_open failed ifindex =
     (case failed of Some _ \<Rightarrow> Inl Ee_Io | None \<Rightarrow> Inr \<lparr>ek_ifindex = ifindex, ek_peer = None\<rparr>)"

text \<open>
  What \<^verbatim>\<open>recvfrom\<close> with \<^verbatim>\<open>TRUNC\<close> gives for a datagram: the bytes that fit the buffer, its length and who
  sent it.
\<close>

definition eapol_recv ::
  "nat \<Rightarrow> nat + (bytes \<times> bytes option) \<Rightarrow> eapol_socket \<Rightarrow> eapol_socket \<times> (eapol_error + bytes)" where
  "eapol_recv room got s =
     (case got of
        Inl _ \<Rightarrow> (s, Inl Ee_Io)
      | Inr (frame, from) \<Rightarrow>
          let taken = take room frame
          in if length taken < length frame then (s, Inl Ee_Malformed)
             else ((case from of Some a \<Rightarrow> s\<lparr>ek_peer := Some a\<rparr> | None \<Rightarrow> s), Inr taken))"

text \<open>The datagram \<^verbatim>\<open>sendto\<close> is given, and what the caller learns of it.\<close>

definition eapol_send ::
  "nat + nat \<Rightarrow> bytes \<Rightarrow> eapol_socket \<Rightarrow> (bytes \<times> bytes) option \<times> (eapol_error + unit)" where
  "eapol_send sent frame s =
     (case ek_peer s of
        None \<Rightarrow> (None, Inl Ee_NoPeer)
      | Some peer \<Rightarrow>
          (Some (peer, frame),
           (case sent of
              Inl _ \<Rightarrow> Inl Ee_Io
            | Inr n \<Rightarrow> if n \<noteq> length frame then Inl Ee_ShortSend else Inr ())))"

text \<open>Who spoke last: the sender of the last datagram that was not cut short.\<close>

definition last_speaker :: "nat \<Rightarrow> (nat + (bytes \<times> bytes option)) list \<Rightarrow> bytes option" where
  "last_speaker room gots =
     foldl (\<lambda>p got. case got of Inr (frame, Some a) \<Rightarrow> if length frame \<le> room then Some a else p | _ \<Rightarrow> p) None gots"

lemma eapol_peer_last:
  "ek_peer (foldl (\<lambda>s got. fst (eapol_recv room got s)) \<lparr>ek_ifindex = i, ek_peer = None\<rparr> gots)
     = last_speaker room gots"
  by (induction gots rule: rev_induct)
    (auto simp: last_speaker_def eapol_recv_def Let_def split: sum.splits option.splits)

section \<open>DHCP\<close>

definition CLIENT_PORT :: u16 where "CLIENT_PORT = 68"
definition SERVER_PORT :: u16 where "SERVER_PORT = 67"

datatype socket_error = Se_Io nat | Se_Short

text \<open>The address and port a datagram goes to, and what the caller learns of it.\<close>

definition dhcp_send_to ::
  "nat + nat \<Rightarrow> ipv4 \<Rightarrow> bytes \<Rightarrow> (ipv4 \<times> u16 \<times> bytes) \<times> (socket_error + unit)" where
  "dhcp_send_to sent server data =
     ((server, SERVER_PORT, data),
      (case sent of
         Inl e \<Rightarrow> Inl (Se_Io e)
       | Inr n \<Rightarrow> if n \<noteq> length data then Inl Se_Short else Inr ()))"

definition dhcp_send_broadcast ::
  "nat + nat \<Rightarrow> bytes \<Rightarrow> (ipv4 \<times> u16 \<times> bytes) \<times> (socket_error + unit)" where
  "dhcp_send_broadcast sent data = dhcp_send_to sent 0xFFFFFFFF data"

text \<open>A datagram longer than the buffer is cut without a word: the length the kernel reports is dropped.\<close>

definition dhcp_recv :: "nat \<Rightarrow> nat + bytes \<Rightarrow> socket_error + bytes" where
  "dhcp_recv room got = (case got of Inl e \<Rightarrow> Inl (Se_Io e) | Inr datagram \<Rightarrow> Inr (take room datagram))"

section \<open>Starting and stopping\<close>

record cawd_options =
  op_socket :: bytes
  op_autoconnect :: bool

definition SOCKET_PATH :: bytes where "SOCKET_PATH = ascii ''/run/caw/caw.sock''"

datatype usage_error = Us_NoPath | Us_Unknown bytes

fun parse_args :: "cawd_options \<Rightarrow> bytes list \<Rightarrow> usage_error + cawd_options option" where
  "parse_args options [] = Inr (Some options)"
| "parse_args options (arg # args) =
     (if arg = ascii ''-h'' \<or> arg = ascii ''--help'' then Inr None
      else if arg = ascii ''--socket'' then
        (case args of [] \<Rightarrow> Inl Us_NoPath | path # args' \<Rightarrow> parse_args (options\<lparr>op_socket := path\<rparr>) args')
      else if arg = ascii ''--no-autoconnect'' then parse_args (options\<lparr>op_autoconnect := False\<rparr>) args
      else Inl (Us_Unknown arg))"

definition cawd_args :: "bytes list \<Rightarrow> usage_error + cawd_options option" where
  "cawd_args args = parse_args \<lparr>op_socket = SOCKET_PATH, op_autoconnect = True\<rparr> args"

text \<open>
  \<^verbatim>\<open>Signals::drain\<close> over what the reads of the pipe return: the reads left when it stops, \<open>None\<close> if it has not.
\<close>

datatype pipe_read = Pi_Bytes nat | Pi_Again | Pi_Intr | Pi_Error

fun signals_drain :: "pipe_read list \<Rightarrow> pipe_read list option" where
  "signals_drain [] = None"
| "signals_drain (r # rs) =
     (case r of
        Pi_Bytes n \<Rightarrow> if n = 0 then Some rs else signals_drain rs
      | Pi_Again \<Rightarrow> Some rs
      | Pi_Intr \<Rightarrow> signals_drain rs
      | Pi_Error \<Rightarrow> Some rs)"

lemma cawd_args_default:
  "cawd_args args = Inr (Some options) \<Longrightarrow> ascii ''--no-autoconnect'' \<notin> set args \<Longrightarrow> op_autoconnect options"
proof -
  have "parse_args o1 args = Inr (Some options) \<Longrightarrow> ascii ''--no-autoconnect'' \<notin> set args \<Longrightarrow> op_autoconnect o1 \<Longrightarrow>
      op_autoconnect options" for o1
    by (induction o1 args rule: parse_args.induct) (auto split: if_splits list.splits)
  then show "cawd_args args = Inr (Some options) \<Longrightarrow> ascii ''--no-autoconnect'' \<notin> set args \<Longrightarrow> op_autoconnect options"
    by (simp add: cawd_args_def)
qed

end
