(* ===== verification/Spec2Isabelle.thy ===== *)
theory Spec2Isabelle
  imports Station_Rsn Profile_Store Four_Way Sae_Machine Conn_Props Dhcp_Runs Router_Advert Eap_Props
    Timers Ipc Peer_Auth Daemon_Props Kernel_Props Tls_Setup Cli_Session Sockets
begin

text \<open>
  CAW, a Wi-Fi connection manager: a verification development for the crates under
  \<^verbatim>\<open>src/crates/\<close>.

  \<^bold>\<open>The program.\<close> The command line \<^verbatim>\<open>caw\<close> talks to the daemon \<^verbatim>\<open>cawd\<close> over a Unix socket, one JSON
  message per line. The daemon is a single-threaded poll loop (the reactor) around an engine. The engine
  feeds inputs (commands, scan results, kernel events, EAPOL frames, leases, timers) to a pure state
  machine, the connection, and performs the actions that come back: nl80211 and rtnetlink requests, frames
  on a packet socket, an exchange with a DHCP server, timers, files, messages to clients. The connection
  chooses a network by policy, refuses to join one with less security than it had before, and
  authenticates by a pre-shared key, by SAE or by 802.1X over a TLS tunnel; the 4-way handshake then gives
  it the keys. All protocol code is free of I/O in the source too, so most of it is modelled function by
  function; the code that does I/O is modelled over what its system calls return.

  \<^bold>\<open>Conventions.\<close> They are those of \<open>Caw_Prelude\<close>: bytes are \<open>8 word\<close>s, machine integers words of their
  width, a \<^verbatim>\<open>Result\<close> is a sum with the error on the left, and a function that can reach a panic
  (\<^verbatim>\<open>expect\<close>, an index out of range) is an option whose \<open>None\<close> is the panic. A Rust string is its UTF-8
  bytes (in \<open>Peer_Auth\<close> the list of its code points). A method on \<^verbatim>\<open>&mut self\<close> returns the new state. Every
  definition bears the name of the function or type it models, prefixed where two crates share a name; the
  loops and closures inside a long function have definitions of their own. Executable definitions
  throughout: the witnesses run them on concrete inputs.
\<close>

text \<open>
  \<^bold>\<open>Frames and policy.\<close>
  \<^item> \<open>Ieee80211\<close> (\<^verbatim>\<open>caw-80211/src/lib.rs\<close>): the walk over information elements, the RSN and WPA parsers, the
    beacon summary. \<open>Station_Rsn\<close> (\<^verbatim>\<open>caw-core/src/rsn.rs\<close>, the suites of \<^verbatim>\<open>caw-nl80211/src/consts.rs\<close>): the
    element a station sends, which its own parser reads back.
  \<^item> \<open>Policy\<close> (\<^verbatim>\<open>caw-core/src/policy.rs\<close>): what a network offers and demands, the security floor of a saved
    network, which one to join and when to roam, each against its specification.
  \<^item> \<open>Profile_Store\<close> (\<^verbatim>\<open>caw-core/src/profile.rs\<close>): file names and their inverse; a save as the list of file
    operations it issues, so that being cut off after any of them is a state (\<open>save_atomic\<close>).

  \<^bold>\<open>Keys.\<close>
  \<^item> \<open>Crypto\<close> and \<open>Sae_Machine\<close> (\<^verbatim>\<open>caw-crypto\<close>): the key derivations and the SAE provider: a PMK only after
    a confirm that matches, agreement of two ends, exact retransmissions.
  \<^item> \<open>Eapol_Key\<close> and \<open>Four_Way\<close> (\<^verbatim>\<open>caw-eapol/src/key.rs\<close>, \<^verbatim>\<open>lib.rs\<close>): the EAPOL-Key frame and the
    supplicant's handshake: its invariant \<open>fw_inv\<close>, what a completion proves, no replay, no
    reinstallation, bounded retransmission, the run with an honest authenticator.
  \<^item> \<open>Eap\<close>, \<open>Eap_Frag\<close>, \<open>Eap_Mschapv2\<close>, \<open>Eap_Methods\<close>, \<open>Dot1x\<close>, \<open>Eap_Props\<close> (\<^verbatim>\<open>caw-eapol/src/eap\<close>): EAP packets,
    the fragmentation as a transfer between two ends, MSCHAPv2, the TLS tunnel, EAP-TLS, PEAP and TTLS, and
    the 802.1X provider above any method.
  \<^item> \<open>Pem\<close> and \<open>Tls_Setup\<close> (\<^verbatim>\<open>eap/tls\<close>, \<^verbatim>\<open>caw-core/src/auth.rs\<close>): certificates and keys as PEM, the TLS
    configuration made from a profile, and the provider built from it: which certificates its connection
    believes, and that a key comes from that connection.

  \<^bold>\<open>The connection\<close> (\<^verbatim>\<open>caw-core/src/conn.rs\<close>). \<open>Conn_Data\<close> has its state and the planning of an attempt, \<open>Conn\<close> its
  handlers with \<open>conn_poll\<close>, which is \<^verbatim>\<open>Connection::poll\<close>. \<open>Conn_Inv\<close> and \<open>Conn_Link\<close> prove one lemma per handler
  for the invariant \<open>conn_ok\<close> (no panic; the timers the daemon runs are those the state needs; each action
  agrees with the state it leaves), \<open>Conn_Effects\<close> and \<open>Conn_Outcome\<close> which handlers can emit what, and
  \<open>Conn_Props\<close> the properties over whole histories.

  \<^bold>\<open>Addresses\<close> (\<^verbatim>\<open>caw-dhcp\<close>). \<open>Dhcp_Types\<close>, \<open>Dhcp_Message\<close> (options, option overload, the BOOTP frame),
  \<open>Dhcp_Client\<close> (\<open>dhcp_poll\<close> is \<^verbatim>\<open>Dhcp4::poll\<close>), \<open>Dhcp_Props\<close> and \<open>Dhcp_Runs\<close> (the fields of RFC 2131 by state, a
  bound on what is sent, an honest server, and the refinement of the abstract life cycle of an address),
  \<open>Router_Advert\<close> (router advertisements and SLAAC).
\<close>

text \<open>
  \<^bold>\<open>The daemon\<close> (\<^verbatim>\<open>cawd\<close>, \<^verbatim>\<open>caw-ipc\<close>). \<open>Timers\<close> is the timer wheel, which refines a finite map of deadlines; \<open>Ipc\<close> the
  line decoder and the queues of a client; \<open>Peer_Auth\<close> the lookups in the group and password files that
  decide who may change anything. \<open>Engine_Types\<close> and \<open>Engine\<close> model every handler of the engine over an
  abstract operating system, \<open>Reactor\<close> the poll loop. \<open>Engine_Inv\<close>, \<open>Engine_Feed\<close>, \<open>Reactor_Inv\<close> and \<open>Reactor_Run\<close>
  carry the invariant \<open>rx_ok\<close> through every handler, every wake-up and every run; \<open>Daemon_Props\<close> reads off that
  the daemon does not panic and settles, that no client is answered more than it asked, what one that
  waits is waiting for, and that only those permitted change anything. The connection enters here through the lemmas
  of \<open>Conn_Outcome\<close> and the machine \<open>conn_machine\<close>.

  \<^bold>\<open>The kernel side.\<close> \<open>Netlink\<close> (\<^verbatim>\<open>caw-netlink\<close>) is the wire format and the request loop; \<open>Nl80211_Consts\<close>, \<open>Nl80211\<close>
  (decoders) and \<open>Nl80211_Sock\<close> (encoders and socket) are \<^verbatim>\<open>caw-nl80211\<close>; \<open>Rtnl\<close> is \<^verbatim>\<open>caw-rtnl\<close> with
  \<^verbatim>\<open>cawd/src/links.rs\<close>. \<open>Kernel_Props\<close> states what they achieve against descriptions of the kernel's end: a dump
  arrives whole however it is cut up, every command is read as it was meant, events and scan results are
  decoded as they were sent, and what is decoded is well formed whatever arrives. \<open>Sockets\<close> has the shells of
  the packet and UDP sockets, the daemon's arguments and its signal pipe.

  \<^bold>\<open>The command line\<close> (\<^verbatim>\<open>caw\<close>). \<open>Prompt\<close> reads a secret from the terminal, \<open>Cli_Output\<close> makes everything that is
  printed, \<open>Cli_Session\<close> has the client's end of the socket, every command, and \<open>cli_main\<close>.

  \<^bold>\<open>Interfaces.\<close> \<open>stream_iter\<close> and \<open>stream_codec\<close> (prelude) are the contract of the iterators over bytes (each step
  shortens the input; what an encoder wrote is read back, in any concatenation), given by information
  elements (\<open>ies_it\<close>, \<open>ies_codec\<close>), key data (\<open>kd_it\<close>, \<open>kd_codec\<close>), netlink attributes (\<open>nlattr\<close>) and UTF-8 (\<open>utf8\<close>,
  \<open>utf8_text\<close>). \<open>polled_machine\<close> (prelude) is a step function that keeps an invariant and does not panic,
  given by the handshake, SAE, the DHCP client, the connection, the timers under its actions and the
  reactor (\<open>fw_machine\<close>, \<open>sae_machine\<close>, \<open>dhcp_machine\<close>, \<open>conn_machine\<close>, \<open>wheel_machine\<close>, \<open>reactor_machine\<close>).
  \<open>deadline_wheel\<close> is what clients of the timer wheel may rely on (\<open>wheel\<close>). \<open>eap_method\<close> is what the
  802.1X provider needs of a method: an invariant, and that a key is proven and 64 octets long. It is
  given six times: by each of the three methods for a finished handshake (\<open>eap_tls_method\<close>, \<open>ttls_method\<close>,
  \<open>peap_method\<close>), and for a connection that comes from a given one (\<open>eap_tls_from\<close>, \<open>ttls_from\<close>, \<open>peap_from\<close>).
\<close>

text \<open>
  \<^bold>\<open>Bounds and termination.\<close> An iterator over bytes runs with the number of bytes as its fuel, which is enough as each
  item takes at least one (\<open>fuel_enough\<close>). \<open>feed\<close> of the engine gives up after 32 turns, in the source too;
  two are proved to suffice. The two loops that drain \<^verbatim>\<open>rustls\<close> end when it says so and are
  \<^verbatim>\<open>partial_function\<close>s with \<open>None\<close> for not returning. A loop over system calls takes the list of their results;
  when the list ends before the loop does, the call is still blocked and the value is \<open>None\<close>, so a claim that
  a call returns is that the value is \<open>Some\<close>. What a peer can make the program hold is bounded: 64 KiB in a
  reassembler, a line in the decoder.

  \<^bold>\<open>Parameters and hypotheses.\<close> Third-party code is an argument: the primitives (\<open>prims\<close>, \<open>ms_prims\<close>; the hypotheses \<open>prims_ok\<close> and
  \<open>ms_prims_ok\<close> fix the lengths of their results), the curve P-256 (\<open>group_ops\<close>, with the laws of a group of prime order
  in \<open>group_ok\<close>), \<^verbatim>\<open>rustls\<close> (\<open>tls_ops\<close> and \<open>tls_env\<close>; \<open>tls_ok\<close> says that an export fills its buffer), and \<^verbatim>\<open>serde_json\<close>
  (functions from and to bytes). \<open>env_ok\<close> collects those the connection needs; the last of them is that
  SAE finds a commit, which a hash-to-curve that never fails makes true. The operating system of the daemon
  (\<open>sys\<close>) carries no hypothesis: its calls may fail or succeed in any order. Randomness drawn by a function
  is an argument. The prompts and sockets of the command line take the results of their calls in order; the terminal's
  driver echoes a key by an argument while the modes in force have \<^verbatim>\<open>ECHO\<close>.

  \<^bold>\<open>Integers.\<close> The counters of the protocols are words; the number of attempts of the connection and the conversion of signal
  strengths wrap as a release build does, and that the latter can is a lemma (\<open>mbm_to_dbm_wraps\<close>). A signal
  strength in \<open>Policy\<close> is an \<open>int\<close>, the one addition on it saturating as in the source. An \<^verbatim>\<open>Instant\<close> is a
  natural number of nanoseconds; that \<^verbatim>\<open>now + delay\<close> overflows in some 584 years is not modelled. The host
  is little-endian, which decides the byte order of netlink.

  \<^bold>\<open>Not modelled.\<close> Making, binding and polling descriptors (sockets, the timerfd, the signal pipe) and installing signal
  handlers: system calls with no logic of the program around them. The look into sysfs that tells a wireless
  interface (an argument). JSON texts, which \<^verbatim>\<open>serde\<close> derives. The parsing of \<^verbatim>\<open>caw\<close>'s arguments, which \<^verbatim>\<open>clap\<close> derives.
  Log lines and the texts of errors (\<^verbatim>\<open>Display\<close>), of which the error value is kept. File permissions, \<^verbatim>\<open>fsync\<close>,
  zeroizing of secrets and comparison in constant time, which have no counterpart in a functional model.
  The self-tests in the source files.
\<close>

end
